(* ===== verification/Go_Prelude.thy ===== *)
theory Go_Prelude
  imports Main "HOL-Library.AList" "HOL-Library.Word"
begin

text \<open>
  Shared vocabulary of the development: the parts of the Go language and of its standard library
  that the modelled code uses.

  \<^item> A Go \<open>string\<close> is a byte sequence, modelled by HOL's \<^typ>\<open>string\<close> (a list of 8-bit
    characters); \<open>strings.TrimSpace\<close>, \<open>utf8.RuneCountInString\<close>, the rune iteration of
    \<open>range\<close> over a string and \<open>unicode.IsControl\<close> work on the UTF-8 encoding as Go does.
  \<^item> An \<open>int64\<close> or \<open>int32\<close> value is an \<^typ>\<open>int\<close>; where an operation can leave the range the
    wrap-around is written out with \<open>wrap64\<close>, which is two's complement truncation on 64-bit words.
  \<^item> A Go map is an association list with distinct keys. Its order stands for the order in which a
    \<open>range\<close> loop visits the entries, which Go leaves open: a theorem about an arbitrary list is a
    theorem about every iteration order. Reading is \<^const>\<open>map_of\<close>, writing is
    \<^const>\<open>AList.update\<close>, \<open>delete\<close> is \<^const>\<open>AList.delete\<close>.
  \<^item> A function with an \<open>error\<close> result returns a sum, \<open>Inl\<close> carrying the error.
\<close>

named_theorems go_map_simps \<open>reading a Go map after it was written\<close>
named_theorems go_str_simps \<open>facts on Go strings\<close>

type_synonym ('k, 'v) gomap = "('k \<times> 'v) list"

subsection \<open>Fixed-width integers\<close>

definition max_i64 :: int where "max_i64 = 9223372036854775807"
definition min_i64 :: int where "min_i64 = - 9223372036854775808"

definition wrap64 :: "int \<Rightarrow> int" where
  "wrap64 x = (x + 9223372036854775808) mod 18446744073709551616 - 9223372036854775808"

definition wrap32 :: "int \<Rightarrow> int" where
  "wrap32 x = (x + 2147483648) mod 4294967296 - 2147483648"

definition wrap16 :: "int \<Rightarrow> int" where
  "wrap16 x = (x + 32768) mod 65536 - 32768"

definition is_i64 :: "int \<Rightarrow> bool" where
  "is_i64 x \<longleftrightarrow> min_i64 \<le> x \<and> x \<le> max_i64"

definition is_i32 :: "int \<Rightarrow> bool" where
  "is_i32 x \<longleftrightarrow> - 2147483648 \<le> x \<and> x \<le> 2147483647"

lemma wrap64_id: "is_i64 x \<Longrightarrow> wrap64 x = x"
  by (simp add: is_i64_def wrap64_def max_i64_def min_i64_def)

lemma is_i64_wrap64 [simp]: "is_i64 (wrap64 x)"
proof -
  have "0 \<le> (x + 9223372036854775808) mod 18446744073709551616"
    and "(x + 9223372036854775808) mod 18446744073709551616 < 18446744073709551616"
    by simp_all
  then show ?thesis
    by (simp add: is_i64_def wrap64_def max_i64_def min_i64_def)
qed

lemma wrap64_wrap64 [simp]: "wrap64 (wrap64 x) = wrap64 x"
  by (rule wrap64_id) simp

lemma wrap32_id: "is_i32 x \<Longrightarrow> wrap32 x = x"
  by (simp add: is_i32_def wrap32_def)

text \<open>\<open>wrap64\<close> is what storing an integer in a 64-bit word and reading it back signed does.\<close>

lemma wrap64_word: "wrap64 x = sint (word_of_int x :: 64 word)"
  by (simp add: wrap64_def signed_of_int signed_take_bit_eq_take_bit_shift take_bit_eq_mod)

subsection \<open>Maps\<close>

lemma map_of_update [go_map_simps, simp]:
  "map_of (AList.update k v m) = (map_of m)(k \<mapsto> v)"
  by (rule update_conv')

lemma map_of_delete [go_map_simps, simp]:
  "map_of (AList.delete k m) = (map_of m)(k := None)"
  by (simp add: delete_conv')

lemma distinct_update_keys [simp]:
  "distinct (map fst m) \<Longrightarrow> distinct (map fst (AList.update k v m))"
  by (rule distinct_update)

lemma distinct_delete_keys [simp]:
  "distinct (map fst m) \<Longrightarrow> distinct (map fst (AList.delete k m))"
  by (rule distinct_delete)

lemma map_of_foldr_update:
  "map_of (fold (\<lambda>x m. AList.update (f x) (g x) m) xs m) = fold (\<lambda>x m. m(f x \<mapsto> g x)) xs (map_of m)"
  by (induction xs arbitrary: m) simp_all

lemma in_map_filter: "y \<in> set (List.map_filter f xs) \<longleftrightarrow> (\<exists>x \<in> set xs. f x = Some y)"
  by (force simp: List.map_filter_def)

lemma map_filter_None [simp]: "List.map_filter (\<lambda>x. None) xs = []"
  by (simp add: List.map_filter_def)

subsection \<open>Strings as bytes\<close>

abbreviation byte :: "char \<Rightarrow> nat" where "byte c \<equiv> of_char c"

fun drop_prefix :: "string \<Rightarrow> string \<Rightarrow> string option" where
  "drop_prefix [] s = Some s"
| "drop_prefix (p # ps) [] = None"
| "drop_prefix (p # ps) (c # s) = (if p = c then drop_prefix ps s else None)"

definition has_prefix :: "string \<Rightarrow> string \<Rightarrow> bool" where
  "has_prefix s p \<longleftrightarrow> drop_prefix p s \<noteq> None"

lemma drop_prefix_Some [simp]: "drop_prefix p s = Some r \<longleftrightarrow> s = p @ r"
  by (induction p s rule: drop_prefix.induct) auto

lemma drop_prefix_append [simp]: "drop_prefix p (p @ r) = Some r"
  by simp

text \<open>A literal with non-ASCII runes is written by the bytes of its UTF-8 encoding.\<close>

definition str_bytes :: "nat list \<Rightarrow> string" where
  "str_bytes bs = map char_of bs"

text \<open>\<open>strings.Split(s, sep)\<close> for a separator of one byte, and \<open>strings.Join\<close>.\<close>

fun split_on :: "char \<Rightarrow> string \<Rightarrow> string list" where
  "split_on c [] = [[]]"
| "split_on c (x # xs) = (if x = c then [] # split_on c xs
     else case split_on c xs of [] \<Rightarrow> [[x]] | w # ws \<Rightarrow> (x # w) # ws)"

fun join_with :: "string \<Rightarrow> string list \<Rightarrow> string" where
  "join_with sep [] = []"
| "join_with sep [w] = w"
| "join_with sep (w # v # ws) = w @ sep @ join_with sep (v # ws)"

lemma split_on_nonempty [simp]: "split_on c s \<noteq> []"
  by (induction s) (auto split: list.split)

lemma join_split [simp]: "join_with [c] (split_on c s) = s"
proof (induction s)
  case (Cons x xs)
  obtain w ws where w: "split_on c xs = w # ws" by (cases "split_on c xs") auto
  with Cons show ?case by (cases ws) auto
qed simp

text \<open>The white space of \<open>unicode.IsSpace\<close>, each rune by its UTF-8 encoding.\<close>

definition space_seqs :: "string list" where
  "space_seqs =
    [[CHR 0x09], [CHR 0x0A], [CHR 0x0B], [CHR 0x0C], [CHR 0x0D], [CHR 0x20],
     [CHR 0xC2, CHR 0x85], [CHR 0xC2, CHR 0xA0], [CHR 0xE1, CHR 0x9A, CHR 0x80],
     [CHR 0xE2, CHR 0x80, CHR 0x80], [CHR 0xE2, CHR 0x80, CHR 0x81], [CHR 0xE2, CHR 0x80, CHR 0x82],
     [CHR 0xE2, CHR 0x80, CHR 0x83], [CHR 0xE2, CHR 0x80, CHR 0x84], [CHR 0xE2, CHR 0x80, CHR 0x85],
     [CHR 0xE2, CHR 0x80, CHR 0x86], [CHR 0xE2, CHR 0x80, CHR 0x87], [CHR 0xE2, CHR 0x80, CHR 0x88],
     [CHR 0xE2, CHR 0x80, CHR 0x89], [CHR 0xE2, CHR 0x80, CHR 0x8A], [CHR 0xE2, CHR 0x80, CHR 0xA8],
     [CHR 0xE2, CHR 0x80, CHR 0xA9], [CHR 0xE2, CHR 0x80, CHR 0xAF], [CHR 0xE2, CHR 0x81, CHR 0x9F],
     [CHR 0xE3, CHR 0x80, CHR 0x80]]"

fun drop_any :: "string list \<Rightarrow> string \<Rightarrow> string option" where
  "drop_any [] s = None"
| "drop_any (p # ps) s = (case drop_prefix p s of Some r \<Rightarrow> Some r | None \<Rightarrow> drop_any ps s)"

fun trim_seqs :: "string list \<Rightarrow> string \<Rightarrow> string" where
  "trim_seqs ps s =
     (case drop_any ps s of
        None \<Rightarrow> s
      | Some r \<Rightarrow> if length r < length s then trim_seqs ps r else s)"

declare trim_seqs.simps [simp del]

definition trim_left :: "string \<Rightarrow> string" where
  "trim_left s = trim_seqs space_seqs s"

definition trim_right :: "string \<Rightarrow> string" where
  "trim_right s = rev (trim_seqs (map rev space_seqs) (rev s))"

definition trim_space :: "string \<Rightarrow> string" where
  "trim_space s = trim_right (trim_left s)"

lemma drop_any_suffix: "drop_any ps s = Some r \<Longrightarrow> \<exists>p \<in> set ps. s = p @ r"
  by (induction ps) (auto split: option.splits)

lemma drop_any_None: "drop_any ps s = None \<longleftrightarrow> (\<forall>p \<in> set ps. \<forall>r. s \<noteq> p @ r)"
proof (induction ps)
  case (Cons p ps)
  have "drop_prefix p s = None \<longleftrightarrow> (\<forall>r. s \<noteq> p @ r)"
    by (metis drop_prefix_Some not_None_eq)
  with Cons show ?case by (cases "drop_prefix p s") auto
qed simp

lemma trim_seqs_suffix: "\<exists>p. s = p @ trim_seqs ps s"
proof (induction ps s rule: trim_seqs.induct)
  case (1 ps s)
  show ?case
  proof (cases "drop_any ps s")
    case None
    then show ?thesis by (simp add: trim_seqs.simps [of ps s])
  next
    case (Some r)
    then obtain p where s: "s = p @ r" using drop_any_suffix by blast
    show ?thesis
    proof (cases "length r < length s")
      case True
      with 1 Some obtain q where "r = q @ trim_seqs ps r" by blast
      then have "s = (p @ q) @ trim_seqs ps r" using s by (metis append_assoc)
      moreover from Some True have "trim_seqs ps s = trim_seqs ps r"
        by (simp add: trim_seqs.simps [of ps s])
      ultimately show ?thesis by metis
    next
      case False
      with Some show ?thesis by (simp add: trim_seqs.simps [of ps s])
    qed
  qed
qed

lemma trim_seqs_done:
  "\<forall>p \<in> set ps. p \<noteq> [] \<Longrightarrow> drop_any ps (trim_seqs ps s) = None"
proof (induction ps s rule: trim_seqs.induct)
  case (1 ps s)
  show ?case
  proof (cases "drop_any ps s")
    case None
    then show ?thesis by (simp add: trim_seqs.simps [of ps s])
  next
    case (Some r)
    then obtain p where "p \<in> set ps" and s: "s = p @ r" using drop_any_suffix by blast
    with "1.prems" have len: "length r < length s" by simp
    with Some have "trim_seqs ps s = trim_seqs ps r" by (simp add: trim_seqs.simps [of ps s])
    with 1 Some len show ?thesis by simp
  qed
qed

lemma trim_seqs_id: "drop_any ps s = None \<Longrightarrow> trim_seqs ps s = s"
  by (simp add: trim_seqs.simps)

lemma trim_seqs_Nil [simp]: "trim_seqs ps [] = []"
  by (simp add: trim_seqs.simps split: option.split)

lemma space_seqs_nonempty: "\<forall>p \<in> set space_seqs. p \<noteq> []"
  by (simp add: space_seqs_def)

lemma trim_right_prefix: "\<exists>q. s = trim_right s @ q"
proof -
  obtain p where "rev s = p @ trim_seqs (map rev space_seqs) (rev s)"
    using trim_seqs_suffix by blast
  then have "s = rev (trim_seqs (map rev space_seqs) (rev s)) @ rev p"
    by (metis rev_append rev_rev_ident)
  then show ?thesis by (auto simp: trim_right_def)
qed

lemma trim_left_trimmed: "drop_any space_seqs (trim_left s) = None"
  unfolding trim_left_def by (rule trim_seqs_done) (rule space_seqs_nonempty)

lemma trim_right_trimmed: "drop_any (map rev space_seqs) (rev (trim_right s)) = None"
  unfolding trim_right_def rev_rev_ident
  by (rule trim_seqs_done) (simp add: space_seqs_nonempty)

lemma trim_right_keeps_left:
  assumes "drop_any space_seqs s = None"
  shows "drop_any space_seqs (trim_right s) = None"
proof -
  obtain q where "s = trim_right s @ q" using trim_right_prefix by blast
  with assms show ?thesis unfolding drop_any_None by (metis append_assoc)
qed

lemma trim_space_trimmed:
  "drop_any space_seqs (trim_space s) = None" "drop_any (map rev space_seqs) (rev (trim_space s)) = None"
  by (simp_all add: trim_space_def trim_right_trimmed trim_right_keeps_left trim_left_trimmed)

lemma trim_space_idem [simp, go_str_simps]: "trim_space (trim_space s) = trim_space s"
proof -
  have "trim_left (trim_space s) = trim_space s"
    unfolding trim_left_def by (rule trim_seqs_id) (rule trim_space_trimmed)
  moreover have "trim_right (trim_space s) = trim_space s"
    by (simp add: trim_right_def trim_seqs_id trim_space_trimmed)
  ultimately show ?thesis by (simp add: trim_space_def)
qed

lemma trim_space_Nil [simp, go_str_simps]: "trim_space [] = []"
  by (simp add: trim_space_def trim_left_def trim_right_def)

text \<open>A string of visible ASCII characters has nothing to trim.\<close>

definition visible :: "char \<Rightarrow> bool" where
  "visible c \<longleftrightarrow> 0x21 \<le> byte c \<and> byte c < 0x7F"

lemma space_seqs_invisible: "list_all (\<lambda>p. list_ex (\<lambda>c. \<not> visible c) p) space_seqs"
  by code_simp

lemma trim_space_visible:
  assumes "list_all visible s"
  shows "trim_space s = s"
proof -
  have no: "s \<noteq> p @ r" "rev s \<noteq> rev p @ r" if p: "p \<in> set space_seqs" for p r
  proof -
    obtain c where c: "c \<in> set p" "\<not> visible c"
      using space_seqs_invisible p unfolding list_all_iff list_ex_iff by blast
    then have "c \<notin> set s" "c \<notin> set (rev s)" using assms by (auto simp: list_all_iff)
    with c(1) show "s \<noteq> p @ r" "rev s \<noteq> rev p @ r" by (metis Un_iff set_append set_rev)+
  qed
  have "drop_any space_seqs s = None" "drop_any (map rev space_seqs) (rev s) = None"
    unfolding drop_any_None using no by auto
  then show ?thesis by (simp add: trim_space_def trim_left_def trim_right_def trim_seqs_id)
qed

subsection \<open>UTF-8\<close>

text \<open>
  \<open>utf8.DecodeRuneInString\<close>: the first rune and its width. An ill-formed or truncated sequence is
  the replacement character U+FFFD of width one.
\<close>

definition rune_error :: nat where "rune_error = 0xFFFD"

definition cont_in :: "nat \<Rightarrow> nat \<Rightarrow> nat \<Rightarrow> bool" where
  "cont_in lo hi b \<longleftrightarrow> lo \<le> b \<and> b \<le> hi"

definition second_range :: "nat \<Rightarrow> nat \<times> nat" where
  "second_range b = (if b = 0xE0 then (0xA0, 0xBF) else if b = 0xED then (0x80, 0x9F)
     else if b = 0xF0 then (0x90, 0xBF) else if b = 0xF4 then (0x80, 0x8F) else (0x80, 0xBF))"

fun decode_rune :: "nat list \<Rightarrow> nat \<times> nat" where
  "decode_rune [] = (rune_error, 0)"
| "decode_rune (b # bs) =
    (if b < 0x80 then (b, 1)
     else if b < 0xC2 \<or> 0xF4 < b then (rune_error, 1)
     else (case bs of
         [] \<Rightarrow> (rune_error, 1)
       | b1 # bs1 \<Rightarrow>
          (if \<not> cont_in (fst (second_range b)) (snd (second_range b)) b1 then (rune_error, 1)
           else if b < 0xE0 then ((b - 0xC0) * 64 + (b1 - 0x80), 2)
           else (case bs1 of
               [] \<Rightarrow> (rune_error, 1)
             | b2 # bs2 \<Rightarrow>
                (if \<not> cont_in 0x80 0xBF b2 then (rune_error, 1)
                 else if b < 0xF0 then ((b - 0xE0) * 4096 + (b1 - 0x80) * 64 + (b2 - 0x80), 3)
                 else (case bs2 of
                     [] \<Rightarrow> (rune_error, 1)
                   | b3 # _ \<Rightarrow>
                      (if \<not> cont_in 0x80 0xBF b3 then (rune_error, 1)
                       else ((b - 0xF0) * 262144 + (b1 - 0x80) * 4096 + (b2 - 0x80) * 64 + (b3 - 0x80), 4))))))))"

lemma decode_rune_size: "bs \<noteq> [] \<Longrightarrow> 0 < snd (decode_rune bs) \<and> snd (decode_rune bs) \<le> length bs"
  by (cases bs) (auto split: list.splits)

function runes_of :: "nat list \<Rightarrow> nat list" where
  "runes_of bs =
     (if bs = [] then [] else fst (decode_rune bs) # runes_of (drop (snd (decode_rune bs)) bs))"
  by pat_completeness auto
termination
proof (relation "measure length")
  fix bs :: "nat list"
  assume "bs \<noteq> []"
  then show "(drop (snd (decode_rune bs)) bs, bs) \<in> measure length"
    using decode_rune_size [of bs] by simp
qed simp

declare runes_of.simps [simp del]

definition string_runes :: "string \<Rightarrow> nat list" where
  "string_runes s = runes_of (map byte s)"

definition rune_count :: "string \<Rightarrow> nat" where
  "rune_count s = length (string_runes s)"

text \<open>\<open>unicode.IsControl\<close>: the C0 and C1 controls and DEL; no rune above Latin-1 is a control.\<close>

definition is_control :: "nat \<Rightarrow> bool" where
  "is_control r \<longleftrightarrow> r < 0x20 \<or> (0x7F \<le> r \<and> r < 0xA0)"

definition contains_control :: "string \<Rightarrow> bool" where
  "contains_control s \<longleftrightarrow> list_ex is_control (string_runes s)"

text \<open>Case folding, where the other side of a comparison is an ASCII literal: without the letters k
  and s for \<open>strings.EqualFold\<close>, the only ones a rune outside ASCII folds to, and without the letters
  i and k for \<open>strings.ToLower\<close>, the only ones a rune outside ASCII has as its lower case.\<close>

definition lower_byte :: "char \<Rightarrow> char" where
  "lower_byte c = (if 0x41 \<le> byte c \<and> byte c \<le> 0x5A then char_of (byte c + 0x20) else c)"

definition ascii_lower :: "string \<Rightarrow> string" where
  "ascii_lower s = map lower_byte s"

text \<open>
  \<open>strings.ToLower\<close>, for comparison with an ASCII constant: the only runes outside ASCII whose lower
  case is an ASCII letter are U+0130 (to i) and the Kelvin sign U+212A (to k); every other rune
  outside ASCII keeps a lower case outside ASCII and is left as it is.
\<close>

fun go_lower :: "string \<Rightarrow> string" where
  "go_lower (a # b # c # s) =
     (if a = CHR 0xE2 \<and> b = CHR 0x84 \<and> c = CHR 0xAA then CHR ''k'' # go_lower s
      else if a = CHR 0xC4 \<and> b = CHR 0xB0 then CHR ''i'' # go_lower (c # s)
      else lower_byte a # go_lower (b # c # s))"
| "go_lower [a, b] = (if a = CHR 0xC4 \<and> b = CHR 0xB0 then ''i'' else [lower_byte a, lower_byte b])"
| "go_lower [a] = [lower_byte a]"
| "go_lower [] = []"

definition equal_fold :: "string \<Rightarrow> string \<Rightarrow> bool" where
  "equal_fold s t \<longleftrightarrow> ascii_lower s = ascii_lower t"

text \<open>Decimal rendering of an integer, as \<open>%d\<close> and \<open>strconv.FormatInt(_, 10)\<close> print it.\<close>

definition digit_char :: "nat \<Rightarrow> char" where
  "digit_char d = char_of (0x30 + d)"

fun dec_nat :: "nat \<Rightarrow> string" where
  "dec_nat n = (if n < 10 then [digit_char n] else dec_nat (n div 10) @ [digit_char (n mod 10)])"

declare dec_nat.simps [simp del]

definition dec_int :: "int \<Rightarrow> string" where
  "dec_int i = (if i < 0 then ''-'' @ dec_nat (nat (- i)) else dec_nat (nat i))"

fun undec :: "string \<Rightarrow> nat \<Rightarrow> nat" where
  "undec [] acc = acc"
| "undec (c # cs) acc = undec cs (acc * 10 + (byte c - 0x30))"

lemma byte_digit: "d < 10 \<Longrightarrow> byte (digit_char d) = 0x30 + d"
  by (simp add: digit_char_def)

lemma undec_snoc: "undec (cs @ [c]) acc = undec cs acc * 10 + (byte c - 0x30)"
  by (induction cs arbitrary: acc) simp_all

lemma undec_dec_nat: "undec (dec_nat n) 0 = n"
proof (induction n rule: dec_nat.induct)
  case (1 n)
  show ?case
  proof (cases "n < 10")
    case True
    then show ?thesis by (simp add: dec_nat.simps [of n] byte_digit)
  next
    case False
    with 1 show ?thesis by (simp add: dec_nat.simps [of n] undec_snoc byte_digit)
  qed
qed

lemma dec_nat_digits: "c \<in> set (dec_nat n) \<Longrightarrow> 0x30 \<le> byte c \<and> byte c \<le> 0x39"
proof (induction n rule: dec_nat.induct)
  case (1 n)
  show ?case
  proof (cases "n < 10")
    case True
    with "1.prems" show ?thesis by (simp add: dec_nat.simps [of n] byte_digit)
  next
    case False
    have m: "byte (digit_char (n mod 10)) = 0x30 + n mod 10" by (rule byte_digit) simp
    from False "1.prems" have "c \<in> set (dec_nat (n div 10)) \<or> c = digit_char (n mod 10)"
      by (auto simp: dec_nat.simps [of n])
    moreover have "n mod 10 \<le> 9" by (rule less_Suc_eq_le [THEN iffD1]) simp
    ultimately show ?thesis using "1.IH" [OF False] m by auto
  qed
qed

lemma dec_nat_nonempty [simp]: "dec_nat n \<noteq> []"
  by (subst dec_nat.simps) simp

lemma dec_nat_inject [simp]: "dec_nat m = dec_nat n \<longleftrightarrow> m = n"
  by (metis undec_dec_nat)

lemma minus_not_in_dec_nat: "CHR ''-'' \<notin> set (dec_nat n)"
  using dec_nat_digits by fastforce

lemma colon_not_in_dec_nat: "CHR '':'' \<notin> set (dec_nat n)"
  using dec_nat_digits by fastforce

lemma colon_not_in_dec_int: "CHR '':'' \<notin> set (dec_int i)"
  using colon_not_in_dec_nat by (simp add: dec_int_def)

lemma dec_int_inject [simp]: "dec_int i = dec_int j \<longleftrightarrow> i = j"
proof
  assume eq: "dec_int i = dec_int j"
  have hd_ne: "dec_nat m \<noteq> CHR ''-'' # x" for m x
    using minus_not_in_dec_nat [of m] by auto
  from eq show "i = j"
    using hd_ne hd_ne [symmetric] by (auto simp: dec_int_def split: if_splits)
qed simp

lemma append_sep_inject:
  assumes "c \<notin> set a" "c \<notin> set a'"
  shows "a @ c # b = a' @ c # b' \<longleftrightarrow> a = a' \<and> b = b'"
  using assms by (auto simp: append_eq_append_conv2 append_eq_Cons_conv Cons_eq_append_conv)

end
