(* ===== verification/Go_Float.thy ===== *)
theory Go_Float
  imports Go_Prelude Complex_Main "HOL-Library.Log_Nat"
begin

text \<open>
  Go's \<open>float64\<close>: IEEE 754 binary64 with round to nearest, ties to even. A finite value is the
  rational number it denotes; the two zeros are identified, since no modelled operation divides by
  a zero or otherwise observes its sign. \<open>round64\<close> is the rounding of an exact result, so every
  arithmetic operation is the exact operation followed by \<open>round64\<close>.

  The theorem that carries the proofs about accounting is monotonicity: rounding preserves the
  order of the exact results (\<open>round64_mono\<close>), and so do multiplication by and division by a fixed
  non-negative value, \<open>math.Round\<close> and the conversion of a duration to seconds.
\<close>

named_theorems f64_mono \<open>monotonicity of the float64 operations\<close>

datatype f64 = Fin rat | PInf | NInf | NaN

subsection \<open>Rounding\<close>

text \<open>Nearest integer, ties to the even one.\<close>

definition round_even :: "rat \<Rightarrow> int" where
  "round_even x =
     (let n = \<lfloor>x\<rfloor>; f = x - of_int n
      in if f < 1/2 then n else if f > 1/2 then n + 1 else if even n then n else n + 1)"

text \<open>The binary exponent of a positive rational: the greatest \<open>k\<close> with \<open>2 powi k \<le> q\<close>.\<close>

definition ilog2 :: "rat \<Rightarrow> int" where
  "ilog2 q =
     (let (a, b) = quotient_of q; k = bitlen a - bitlen b
      in if 2 powi k \<le> q then k else k - 1)"

text \<open>The exponent of the last place: 53 significant bits, and \<open>-1074\<close> for subnormal values.\<close>

definition ulp_exp :: "rat \<Rightarrow> int" where
  "ulp_exp q = max (ilog2 q - 52) (- 1074)"

definition round_pos :: "rat \<Rightarrow> rat" where
  "round_pos q = (if q \<le> 0 then 0 else of_int (round_even (q / 2 powi (ulp_exp q))) * 2 powi (ulp_exp q))"

definition pack :: "rat \<Rightarrow> f64" where
  "pack r = (if r \<ge> 2 ^ 1024 then PInf else if r \<le> - (2 ^ 1024) then NInf else Fin r)"

definition round64 :: "rat \<Rightarrow> f64" where
  "round64 q = pack (if q \<ge> 0 then round_pos q else - round_pos (- q))"

subsection \<open>Comparison and arithmetic\<close>

fun f64_lt :: "f64 \<Rightarrow> f64 \<Rightarrow> bool" where
  "f64_lt NaN _ = False"
| "f64_lt _ NaN = False"
| "f64_lt (Fin a) (Fin b) = (a < b)"
| "f64_lt NInf y = (y \<noteq> NInf)"
| "f64_lt _ NInf = False"
| "f64_lt PInf _ = False"
| "f64_lt _ PInf = True"

fun f64_eq :: "f64 \<Rightarrow> f64 \<Rightarrow> bool" where
  "f64_eq NaN _ = False"
| "f64_eq x y = (x = y)"

definition f64_le :: "f64 \<Rightarrow> f64 \<Rightarrow> bool" where
  "f64_le x y \<longleftrightarrow> f64_lt x y \<or> f64_eq x y"

definition f64_of_int :: "int \<Rightarrow> f64" where
  "f64_of_int i = round64 (of_int i)"

abbreviation f0 :: f64 where "f0 \<equiv> Fin 0"
abbreviation f1 :: f64 where "f1 \<equiv> Fin 1"

definition finite64 :: "f64 \<Rightarrow> bool" where
  "finite64 x \<longleftrightarrow> (case x of Fin _ \<Rightarrow> True | _ \<Rightarrow> False)"

fun f64_add :: "f64 \<Rightarrow> f64 \<Rightarrow> f64" where
  "f64_add (Fin a) (Fin b) = round64 (a + b)"
| "f64_add NaN _ = NaN"
| "f64_add _ NaN = NaN"
| "f64_add PInf NInf = NaN"
| "f64_add NInf PInf = NaN"
| "f64_add PInf _ = PInf"
| "f64_add _ PInf = PInf"
| "f64_add NInf _ = NInf"
| "f64_add _ NInf = NInf"

definition inf_of :: "bool \<Rightarrow> f64" where
  "inf_of neg = (if neg then NInf else PInf)"

fun f64_neg :: "f64 \<Rightarrow> bool" where
  "f64_neg (Fin a) = (a < 0)"
| "f64_neg NInf = True"
| "f64_neg _ = False"

fun f64_mul :: "f64 \<Rightarrow> f64 \<Rightarrow> f64" where
  "f64_mul (Fin a) (Fin b) = round64 (a * b)"
| "f64_mul NaN _ = NaN"
| "f64_mul _ NaN = NaN"
| "f64_mul x y = (if x = f0 \<or> y = f0 then NaN else inf_of (f64_neg x \<noteq> f64_neg y))"

fun f64_div :: "f64 \<Rightarrow> f64 \<Rightarrow> f64" where
  "f64_div (Fin a) (Fin b) = (if b = 0 then (if a = 0 then NaN else inf_of (a < 0)) else round64 (a / b))"
| "f64_div NaN _ = NaN"
| "f64_div _ NaN = NaN"
| "f64_div (Fin a) _ = f0"
| "f64_div x (Fin b) = inf_of (f64_neg x \<noteq> (b < 0))"
| "f64_div _ _ = NaN"

text \<open>\<open>math.Max\<close>, \<open>math.Round\<close> (half away from zero), \<open>math.Ceil\<close>, \<open>math.Floor\<close>.\<close>

fun f64_max :: "f64 \<Rightarrow> f64 \<Rightarrow> f64" where
  "f64_max PInf _ = PInf"
| "f64_max _ PInf = PInf"
| "f64_max NaN _ = NaN"
| "f64_max _ NaN = NaN"
| "f64_max x y = (if f64_lt y x then x else y)"

definition round_away :: "rat \<Rightarrow> int" where
  "round_away q = (if q \<ge> 0 then \<lfloor>q + 1/2\<rfloor> else - \<lfloor>- q + 1/2\<rfloor>)"

fun f64_round :: "f64 \<Rightarrow> f64" where
  "f64_round (Fin q) = Fin (of_int (round_away q))"
| "f64_round x = x"

fun f64_ceil :: "f64 \<Rightarrow> f64" where
  "f64_ceil (Fin q) = Fin (of_int \<lceil>q\<rceil>)"
| "f64_ceil x = x"

fun f64_floor :: "f64 \<Rightarrow> f64" where
  "f64_floor (Fin q) = Fin (of_int \<lfloor>q\<rfloor>)"
| "f64_floor x = x"

text \<open>Conversion to \<open>int64\<close> truncates; it is only applied to finite values in range.\<close>

fun f64_to_int :: "f64 \<Rightarrow> int" where
  "f64_to_int (Fin q) = (if q \<ge> 0 then \<lfloor>q\<rfloor> else - \<lfloor>- q\<rfloor>)"
| "f64_to_int _ = min_i64"

text \<open>\<open>Duration.Seconds\<close>: whole seconds plus the fraction, each converted on its own.\<close>

definition duration_seconds :: "int \<Rightarrow> f64" where
  "duration_seconds d =
     (let sec = sgn d * (\<bar>d\<bar> div 1000000000); nsec = sgn d * (\<bar>d\<bar> mod 1000000000)
      in f64_add (f64_of_int sec) (f64_div (f64_of_int nsec) (f64_of_int 1000000000)))"

subsection \<open>The binary exponent\<close>

lemma round_even_of_int [simp]: "round_even (of_int n) = n"
  by (simp add: round_even_def Let_def)

lemma round_even_cases: "round_even x = \<lfloor>x\<rfloor> \<or> round_even x = \<lfloor>x\<rfloor> + 1"
  by (simp add: round_even_def Let_def)

lemma round_even_mono: "x \<le> y \<Longrightarrow> round_even x \<le> round_even y"
proof -
  assume le: "x \<le> y"
  then have fl: "\<lfloor>x\<rfloor> \<le> \<lfloor>y\<rfloor>" by (rule floor_mono)
  show ?thesis
  proof (cases "\<lfloor>x\<rfloor> = \<lfloor>y\<rfloor>")
    case True
    then show ?thesis using le by (auto simp: round_even_def Let_def)
  next
    case False
    with fl have "\<lfloor>x\<rfloor> + 1 \<le> \<lfloor>y\<rfloor>" by simp
    with round_even_cases [of x] round_even_cases [of y] show ?thesis by linarith
  qed
qed

lemma bitlen_bounds_rat:
  assumes "0 < a"
  shows "2 powi (bitlen a - 1) \<le> (of_int a :: rat)" and "(of_int a :: rat) < 2 powi bitlen a"
proof -
  from bitlen_bounds [of a] assms
  have lo: "2 ^ nat (bitlen a - 1) \<le> a" and hi: "a < 2 ^ nat (bitlen a)" by auto
  from assms have pos: "0 < bitlen a"
    using bitlen_nonneg [of a] bitlen_eq_zero_iff [of a] by linarith
  have "(2::rat) powi (bitlen a - 1) = of_int (2 ^ nat (bitlen a - 1))"
    using pos by (simp add: power_int_def)
  also have "\<dots> \<le> of_int a" using lo by (subst of_int_le_iff)
  finally show "2 powi (bitlen a - 1) \<le> (of_int a :: rat)" .
  have "(of_int a :: rat) < of_int (2 ^ nat (bitlen a))" using hi by (subst of_int_less_iff)
  also have "\<dots> = 2 powi bitlen a" using pos by (simp add: power_int_def)
  finally show "(of_int a :: rat) < 2 powi bitlen a" .
qed

lemma ilog2_bounds:
  assumes "0 < q"
  shows "2 powi (ilog2 q) \<le> q" and "q < 2 powi (ilog2 q + 1)"
proof -
  obtain a b where ab: "quotient_of q = (a, b)" by fastforce
  then have b: "0 < b" and q: "q = of_int a / of_int b"
    by (rule quotient_of_denom_pos, rule quotient_of_div)
  from assms q b have a: "0 < a" by (simp add: zero_less_divide_iff)
  define k where "k = bitlen a - bitlen b"
  have up: "q < 2 powi (k + 1)"
  proof -
    have "q < 2 powi bitlen a / of_int b"
      unfolding q using bitlen_bounds_rat(2) [OF a] b by (simp add: divide_strict_right_mono)
    also have "\<dots> \<le> 2 powi bitlen a / 2 powi (bitlen b - 1)"
      using bitlen_bounds_rat(1) [OF b] by (intro divide_left_mono) (simp_all add: b)
    also have "\<dots> = 2 powi (k + 1)" by (simp add: k_def power_int_diff power_int_add)
    finally show ?thesis .
  qed
  have low: "2 powi (k - 1) \<le> q"
  proof -
    have "2 powi (k - 1) = (2::rat) powi (bitlen a - 1) / 2 powi bitlen b"
      by (simp add: k_def power_int_diff)
    also have "\<dots> \<le> of_int a / 2 powi bitlen b"
      using bitlen_bounds_rat(1) [OF a] by (intro divide_right_mono) simp_all
    also have "\<dots> \<le> of_int a / of_int b"
      using bitlen_bounds_rat(2) [OF b] a b by (intro divide_left_mono) simp_all
    finally show ?thesis by (simp add: q)
  qed
  have "ilog2 q = (if 2 powi k \<le> q then k else k - 1)"
    by (simp add: ilog2_def ab k_def)
  with up low show "2 powi (ilog2 q) \<le> q" and "q < 2 powi (ilog2 q + 1)"
    by (auto split: if_splits)
qed

lemma powi_two_mono: "i \<le> j \<Longrightarrow> (2::rat) powi i \<le> 2 powi j"
  by (rule power_int_increasing) simp_all

lemma powi_two_less: "(2::rat) powi i < 2 powi j \<Longrightarrow> i < j"
  by (rule ccontr) (use powi_two_mono [of j i] in simp)

lemma ilog2_mono: "0 < x \<Longrightarrow> x \<le> y \<Longrightarrow> ilog2 x \<le> ilog2 y"
proof -
  assume "0 < x" "x \<le> y"
  with ilog2_bounds(1) [of x] ilog2_bounds(2) [of y] have "(2::rat) powi ilog2 x < 2 powi (ilog2 y + 1)"
    by simp
  then have "ilog2 x < ilog2 y + 1" by (rule powi_two_less)
  then show ?thesis by simp
qed

lemma ulp_exp_mono: "0 < x \<Longrightarrow> x \<le> y \<Longrightarrow> ulp_exp x \<le> ulp_exp y"
  using ilog2_mono [of x y] by (simp add: ulp_exp_def max.coboundedI1 max.mono)


subsection \<open>Rounding is monotone and exact on the grid\<close>

definition grid :: "int \<Rightarrow> rat \<Rightarrow> rat" where
  "grid e x = of_int (round_even (x / 2 powi e)) * 2 powi e"

lemma grid_mono: "x \<le> y \<Longrightarrow> grid e x \<le> grid e y"
  by (simp add: grid_def round_even_mono divide_right_mono)

lemma grid_exact: "e \<le> f \<Longrightarrow> grid e (of_int m * 2 powi f) = of_int m * 2 powi f"
proof -
  assume "e \<le> f"
  have "(2::rat) powi f / 2 powi e = 2 powi (f - e)" by (simp add: power_int_diff)
  also have "\<dots> = 2 ^ nat (f - e)" using \<open>e \<le> f\<close> by (simp add: power_int_def)
  finally have "rat_of_int m * 2 powi f / 2 powi e = of_int (m * 2 ^ nat (f - e))"
    by (simp flip: times_divide_eq_right)
  then have "round_even (rat_of_int m * 2 powi f / 2 powi e) = m * 2 ^ nat (f - e)"
    by (simp only: round_even_of_int)
  moreover have "of_int (m * 2 ^ nat (f - e)) * 2 powi e = (of_int m * 2 powi f :: rat)"
  proof -
    have "(2::rat) ^ nat (f - e) = 2 powi (f - e)" using \<open>e \<le> f\<close> by (simp add: power_int_def)
    then have "(2::rat) ^ nat (f - e) * 2 powi e = 2 powi f"
      by (simp add: power_int_add [symmetric])
    then show ?thesis by (simp add: mult.assoc)
  qed
  ultimately show ?thesis by (simp add: grid_def)
qed

lemma grid_powi: "e \<le> f \<Longrightarrow> grid e (2 powi f) = 2 powi f"
  using grid_exact [of e f 1] by simp

lemma round_pos_grid: "0 < q \<Longrightarrow> round_pos q = grid (ulp_exp q) q"
  by (simp add: round_pos_def grid_def)

lemma round_pos_0 [simp]: "round_pos 0 = 0"
  by (simp add: round_pos_def)

lemma round_pos_exact:
  "0 \<le> q \<Longrightarrow> q = of_int m * 2 powi f \<Longrightarrow> ulp_exp q \<le> f \<Longrightarrow> round_pos q = q"
proof (cases "q = 0")
  case False
  assume "0 \<le> q" and q: "q = of_int m * 2 powi f" and "ulp_exp q \<le> f"
  from False \<open>0 \<le> q\<close> have "round_pos q = grid (ulp_exp q) q" by (intro round_pos_grid) simp
  also have "\<dots> = grid (ulp_exp q) (of_int m * 2 powi f)" by (simp only: q [symmetric])
  also have "\<dots> = of_int m * 2 powi f" by (rule grid_exact) fact
  finally show ?thesis by (simp only: q)
qed simp

lemma round_pos_mono_pos:
  assumes "0 < x" and "x \<le> y"
  shows "round_pos x \<le> round_pos y"
proof (cases "ulp_exp x = ulp_exp y")
  case True
  with assms show ?thesis by (simp add: round_pos_grid grid_mono)
next
  case False
  with ulp_exp_mono [OF assms] have lt: "ulp_exp x < ulp_exp y" by simp
  then have ey: "ulp_exp y = ilog2 y - 52" by (auto simp: ulp_exp_def max_def split: if_splits)
  with lt have "ilog2 x + 1 \<le> ilog2 y" by (simp add: ulp_exp_def)
  then have "2 powi (ilog2 x + 1) \<le> (2::rat) powi ilog2 y" by (rule powi_two_mono)
  with ilog2_bounds(2) [OF assms(1)] have x: "x \<le> 2 powi ilog2 y" by linarith
  have "grid (ulp_exp x) x \<le> grid (ulp_exp x) (2 powi ilog2 y)" by (rule grid_mono) (rule x)
  also have "\<dots> = 2 powi ilog2 y" by (rule grid_powi) (use lt ey in simp)
  also have "\<dots> = grid (ulp_exp y) (2 powi ilog2 y)" by (rule grid_powi [symmetric]) (use ey in simp)
  also have "\<dots> \<le> grid (ulp_exp y) y"
    by (rule grid_mono) (rule ilog2_bounds(1), use assms in simp)
  finally show ?thesis using assms by (simp add: round_pos_grid)
qed

lemma round_even_nonneg: "0 \<le> x \<Longrightarrow> 0 \<le> round_even x"
  using round_even_mono [of 0 x] round_even_of_int [of 0] by simp

lemma round_pos_nonneg: "0 \<le> round_pos x"
  by (simp add: round_pos_def round_even_nonneg)

lemma round_pos_mono: "x \<le> y \<Longrightarrow> round_pos x \<le> round_pos y"
proof (cases "0 < x")
  case True
  then show "x \<le> y \<Longrightarrow> round_pos x \<le> round_pos y" by (rule round_pos_mono_pos)
next
  case False
  then show "x \<le> y \<Longrightarrow> round_pos x \<le> round_pos y"
    by (simp add: round_pos_def [of x] round_pos_nonneg)
qed

text \<open>The order on values that are not NaN.\<close>

lemma f64_le_Fin [simp]: "f64_le (Fin a) (Fin b) \<longleftrightarrow> a \<le> b"
  by (auto simp: f64_le_def)

lemma f64_le_PInf [simp]: "f64_le x PInf \<longleftrightarrow> x \<noteq> NaN"
  by (cases x) (auto simp: f64_le_def)

lemma f64_le_NInf [simp]: "f64_le NInf x \<longleftrightarrow> x \<noteq> NaN"
  by (cases x) (auto simp: f64_le_def)

lemma f64_le_PInf_left [simp]: "f64_le PInf x \<longleftrightarrow> x = PInf"
  by (cases x) (auto simp: f64_le_def)

lemma f64_le_NInf_right [simp]: "f64_le x NInf \<longleftrightarrow> x = NInf"
  by (cases x) (auto simp: f64_le_def)

lemma f64_le_NaN [simp]: "\<not> f64_le NaN x" "\<not> f64_le x NaN"
  by (cases x; simp add: f64_le_def)+

lemma f64_lt_iff: "f64_lt x y \<longleftrightarrow> f64_le x y \<and> \<not> f64_le y x"
  by (cases x; cases y) auto

lemma f64_le_refl: "x \<noteq> NaN \<Longrightarrow> f64_le x x"
  by (cases x) auto

lemma f64_le_trans [trans]: "f64_le x y \<Longrightarrow> f64_le y z \<Longrightarrow> f64_le x z"
  by (cases x; cases y; cases z) auto

lemma f64_le_antisym: "f64_le x y \<Longrightarrow> f64_le y x \<Longrightarrow> x = y"
  by (cases x; cases y) auto

lemma f64_le_total: "x \<noteq> NaN \<Longrightarrow> y \<noteq> NaN \<Longrightarrow> f64_le x y \<or> f64_le y x"
  by (cases x; cases y) auto

lemma f64_not_lt: "x \<noteq> NaN \<Longrightarrow> y \<noteq> NaN \<Longrightarrow> \<not> f64_lt x y \<longleftrightarrow> f64_le y x"
  using f64_le_total [of x y] by (auto simp: f64_lt_iff)

lemma pack_mono: "a \<le> b \<Longrightarrow> f64_le (pack a) (pack b)"
  by (auto simp: pack_def)

lemma pack_not_NaN [simp]: "pack a \<noteq> NaN"
  by (simp add: pack_def)

lemma round64_not_NaN [simp]: "round64 q \<noteq> NaN"
  by (simp add: round64_def)

lemma f64_of_int_not_NaN [simp]: "f64_of_int i \<noteq> NaN"
  by (simp add: f64_of_int_def)

lemma round64_mono [f64_mono]: "x \<le> y \<Longrightarrow> f64_le (round64 x) (round64 y)"
proof -
  assume le: "x \<le> y"
  let ?r = "\<lambda>q. if q \<ge> 0 then round_pos q else - round_pos (- q)"
  have "?r x \<le> ?r y"
  proof (cases "0 \<le> x")
    case True
    with le show ?thesis by (simp add: round_pos_mono)
  next
    case False
    show ?thesis
    proof (cases "0 \<le> y")
      case True
      with False round_pos_nonneg [of "- x"] round_pos_nonneg [of y] show ?thesis by simp
    next
      case False
      with le \<open>\<not> 0 \<le> x\<close> round_pos_mono [of "- y" "- x"] show ?thesis by simp
    qed
  qed
  then show ?thesis unfolding round64_def by (rule pack_mono)
qed

lemma f64_of_int_mono [f64_mono]: "i \<le> j \<Longrightarrow> f64_le (f64_of_int i) (f64_of_int j)"
  by (simp add: f64_of_int_def round64_mono)

lemma round64_0 [simp]: "round64 0 = Fin 0"
  by (simp add: round64_def pack_def)

lemma ilog2_less: "0 < q \<Longrightarrow> q < 2 powi k \<Longrightarrow> ilog2 q < k"
  using ilog2_bounds(1) [of q] by (intro powi_two_less) simp

lemma round_pos_int:
  assumes "0 \<le> n" and "n \<le> 2 ^ 53"
  shows "round_pos (of_int n) = of_int n"
proof (cases "n = 0 \<or> n = 2 ^ 53")
  case True
  then show ?thesis
  proof
    assume n: "n = 2 ^ 53"
    have eq: "(of_int n :: rat) = 2 powi 53" by (simp add: n)
    have "ilog2 (of_int n) < 54"
      by (rule ilog2_less) (simp_all add: n)
    then have "ulp_exp (of_int n) \<le> 53" by (simp add: ulp_exp_def)
    then show ?thesis
      by (intro round_pos_exact [where m = 1 and f = 53]) (simp_all add: eq)
  qed simp
next
  case False
  with assms have "0 < n" "n < 2 ^ 53" by auto
  then have "(of_int n :: rat) < 2 powi 53"
    by (metis of_int_less_iff of_int_numeral of_int_power power_int_numeral)
  with \<open>0 < n\<close> have "ilog2 (of_int n) < 53" by (intro ilog2_less) simp_all
  then have "ulp_exp (of_int n) \<le> 0" by (simp add: ulp_exp_def)
  then show ?thesis
    by (intro round_pos_exact [where m = n and f = 0]) (use assms in simp_all)
qed

lemma f64_of_int_exact: "\<bar>i\<bar> \<le> 2 ^ 53 \<Longrightarrow> f64_of_int i = Fin (of_int i)"
proof -
  assume i: "\<bar>i\<bar> \<le> 2 ^ 53"
  have "\<bar>of_int i\<bar> \<le> (2::rat) ^ 53"
    using i by (metis of_int_abs of_int_le_iff of_int_numeral of_int_power)
  then have lim: "(of_int i :: rat) < 2 ^ 1024" "- (2 ^ 1024) < (of_int i :: rat)"
    by simp_all
  show ?thesis
  proof (cases "0 \<le> i")
    case True
    with i lim show ?thesis by (simp add: f64_of_int_def round64_def round_pos_int pack_def)
  next
    case False
    have "round_pos (of_int (- i)) = (of_int (- i) :: rat)"
      by (rule round_pos_int) (use False i in simp_all)
    with False lim show ?thesis by (simp add: f64_of_int_def round64_def pack_def)
  qed
qed

lemma f64_of_int_0 [simp]: "f64_of_int 0 = Fin 0"
  by (simp add: f64_of_int_def)

lemma f64_of_int_nonneg: "0 \<le> i \<Longrightarrow> f64_le (Fin 0) (f64_of_int i)"
  using f64_of_int_mono [of 0 i] by simp


subsection \<open>Operations on non-negative values\<close>

lemma round64_powi:
  assumes "- 1074 \<le> k" and "k < 1024"
  shows "round64 (2 powi k) = Fin (2 powi k)"
proof -
  have "ilog2 (2 powi k) < k + 1"
    by (rule ilog2_less) (simp_all add: power_int_add)
  then have "ulp_exp (2 powi k) \<le> k" using assms(1) by (simp add: ulp_exp_def)
  then have r: "round_pos (2 powi k) = 2 powi k"
    by (intro round_pos_exact [where m = 1 and f = k]) simp_all
  have "(2::rat) powi k \<le> 2 powi 1023" by (rule powi_two_mono) (use assms in simp)
  also have "\<dots> < 2 ^ 1024" by simp
  finally have "(2::rat) powi k < 2 ^ 1024" .
  moreover have "- (2 ^ 1024) < (2::rat) powi k"
    by (rule less_le_trans [of _ 0]) simp_all
  ultimately show ?thesis by (simp add: round64_def r pack_def)
qed

text \<open>A rounded result between two finite values is finite and between them.\<close>

lemma round64_between:
  assumes "round64 a = Fin a" "round64 b = Fin b" "a \<le> x" "x \<le> b"
  shows "\<exists>r. round64 x = Fin r \<and> a \<le> r \<and> r \<le> b"
proof -
  have "f64_le (Fin a) (round64 x)" "f64_le (round64 x) (Fin b)"
    using round64_mono [OF assms(3)] round64_mono [OF assms(4)] assms(1,2) by simp_all
  then show ?thesis by (cases "round64 x") auto
qed

lemma f64_of_int_finite:
  assumes "0 \<le> i" and "is_i64 i"
  shows "\<exists>r. f64_of_int i = Fin r \<and> 0 \<le> r \<and> r \<le> 2 powi 63"
proof -
  have "i \<le> 2 ^ 63" using assms(2) by (simp add: is_i64_def max_i64_def)
  then have "(of_int i :: rat) \<le> 2 powi 63"
    by (metis of_int_le_iff of_int_numeral of_int_power power_int_numeral)
  then show ?thesis
    unfolding f64_of_int_def
    by (intro round64_between) (use round64_powi [of 63] assms in simp_all)
qed

lemma f64_mul_mono [f64_mono]:
  "0 \<le> c \<Longrightarrow> a \<le> b \<Longrightarrow> f64_le (f64_mul (Fin c) (Fin a)) (f64_mul (Fin c) (Fin b))"
  by (simp add: round64_mono mult_left_mono)

lemma f64_div_Fin: "0 < c \<Longrightarrow> f64_div (Fin a) (Fin c) = round64 (a / c)"
  by simp

lemma f64_div_mono [f64_mono]:
  "0 < c \<Longrightarrow> f64_le x y \<Longrightarrow> f64_le (f64_div x (Fin c)) (f64_div y (Fin c))"
proof -
  assume c: "0 < c" and le: "f64_le x y"
  have r: "round64 q \<noteq> NaN" for q by simp
  show ?thesis
    using c le by (cases x; cases y)
      (simp_all add: inf_of_def round64_mono divide_right_mono)
qed

lemma round_away_mono: "x \<le> y \<Longrightarrow> round_away x \<le> round_away y"
proof -
  assume le: "x \<le> y"
  have neg: "- \<lfloor>- x + 1/2\<rfloor> \<le> \<lfloor>y + 1/2\<rfloor>" if "x < 0" "0 \<le> y"
  proof -
    have "0 \<le> \<lfloor>- x + 1/2\<rfloor>" "0 \<le> \<lfloor>y + 1/2\<rfloor>" using that by simp_all
    then show ?thesis by linarith
  qed
  show ?thesis using le neg by (auto simp: round_away_def intro!: floor_mono)
qed

lemma round_away_of_int [simp]: "round_away (of_int n) = n"
proof -
  have "\<lfloor>of_int m + 1/2 :: rat\<rfloor> = m" for m by (rule floor_unique) simp_all
  from this [of n] this [of "- n"] show ?thesis by (simp add: round_away_def)
qed

lemma round_away_nonneg: "0 \<le> x \<Longrightarrow> 0 \<le> round_away x"
  using round_away_mono [of 0 x] round_away_of_int [of 0] by simp

lemma f64_round_mono [f64_mono]: "f64_le x y \<Longrightarrow> f64_le (f64_round x) (f64_round y)"
  by (cases x; cases y) (auto simp: round_away_mono)

lemma f64_round_not_NaN [simp]: "f64_round x = NaN \<longleftrightarrow> x = NaN"
  by (cases x) auto

text \<open>The seconds of a non-negative duration.\<close>

definition frac_seconds :: "int \<Rightarrow> f64" where
  "frac_seconds n = f64_div (f64_of_int n) (f64_of_int 1000000000)"

lemma giga_exact: "f64_of_int 1000000000 = Fin 1000000000"
  using f64_of_int_exact [of 1000000000] by simp

lemma frac_seconds_eq: "0 \<le> n \<Longrightarrow> n \<le> 1000000000 \<Longrightarrow> frac_seconds n = round64 (of_int n / 1000000000)"
  by (simp add: frac_seconds_def giga_exact f64_of_int_exact)

lemma round64_1 [simp]: "round64 1 = Fin 1"
  using round64_powi [of 0] by simp

lemma frac_seconds_range:
  assumes "0 \<le> n" "n \<le> 1000000000"
  shows "\<exists>r. frac_seconds n = Fin r \<and> 0 \<le> r \<and> r \<le> 1"
  unfolding frac_seconds_eq [OF assms] by (rule round64_between) (use assms in simp_all)

lemma duration_seconds_split:
  assumes "0 \<le> d" "is_i64 d"
  shows "duration_seconds d = f64_add (Fin (of_int (d div 1000000000))) (frac_seconds (d mod 1000000000))"
proof -
  have "d div 1000000000 \<le> 9223372036"
    using assms zdiv_mono1 [of d max_i64 1000000000] by (simp add: is_i64_def max_i64_def)
  moreover have "0 \<le> d div 1000000000" using assms(1) by simp
  ultimately have "\<bar>d div 1000000000\<bar> \<le> 2 ^ 53" by simp
  then have "f64_of_int (d div 1000000000) = Fin (of_int (d div 1000000000))"
    by (rule f64_of_int_exact)
  with assms show ?thesis
    by (cases "d = 0") (simp_all add: duration_seconds_def frac_seconds_def sgn_if)
qed

lemma duration_seconds_0 [simp]: "duration_seconds 0 = Fin 0"
  by (simp add: duration_seconds_def giga_exact)

lemma duration_seconds_round:
  assumes "0 \<le> d" "is_i64 d"
  shows "\<exists>r. duration_seconds d = round64 (of_int (d div 1000000000) + r) \<and> 0 \<le> r \<and> r \<le> 1
           \<and> frac_seconds (d mod 1000000000) = Fin r"
proof -
  have "0 \<le> d mod 1000000000" "d mod 1000000000 \<le> 1000000000" by (simp_all add: order.strict_implies_order)
  then obtain r where "frac_seconds (d mod 1000000000) = Fin r" "0 \<le> r" "r \<le> 1"
    using frac_seconds_range by blast
  with duration_seconds_split [OF assms] show ?thesis by simp
qed

lemma duration_seconds_mono [f64_mono]:
  assumes "0 \<le> d" "d \<le> d'" "is_i64 d'"
  shows "f64_le (duration_seconds d) (duration_seconds d')"
proof -
  have i: "is_i64 d" and d': "0 \<le> d'" using assms by (simp_all add: is_i64_def min_i64_def)
  obtain r where r: "duration_seconds d = round64 (of_int (d div 1000000000) + r)" "0 \<le> r" "r \<le> 1"
      "frac_seconds (d mod 1000000000) = Fin r"
    using duration_seconds_round [OF assms(1) i] by blast
  obtain r' where r': "duration_seconds d' = round64 (of_int (d' div 1000000000) + r')" "0 \<le> r'"
      "frac_seconds (d' mod 1000000000) = Fin r'"
    using duration_seconds_round [OF d' assms(3)] by blast
  have "of_int (d div 1000000000) + r \<le> (of_int (d' div 1000000000) + r' :: rat)"
  proof (cases "d div 1000000000 = d' div 1000000000")
    case True
    then have "d mod 1000000000 \<le> d' mod 1000000000"
      using assms(2) by (simp add: minus_div_mult_eq_mod [symmetric])
    then have "f64_le (frac_seconds (d mod 1000000000)) (frac_seconds (d' mod 1000000000))"
      by (subst (1 2) frac_seconds_eq) (simp_all add: round64_mono divide_right_mono order.strict_implies_order)
    with r(4) r'(3) True show ?thesis by simp
  next
    case False
    have "d div 1000000000 \<le> d' div 1000000000" using assms(2) by (rule zdiv_mono1) simp
    with False have "d div 1000000000 + 1 \<le> d' div 1000000000" by simp
    then have "of_int (d div 1000000000) + 1 \<le> (of_int (d' div 1000000000) :: rat)"
      by (metis of_int_1 of_int_add of_int_le_iff)
    with r(3) r'(2) show ?thesis by linarith
  qed
  then show ?thesis using r(1) r'(1) by (simp add: round64_mono)
qed

lemma duration_seconds_finite:
  assumes "0 \<le> d" "is_i64 d"
  shows "\<exists>r. duration_seconds d = Fin r \<and> 0 \<le> r"
proof -
  obtain r where r: "duration_seconds d = round64 (of_int (d div 1000000000) + r)" "0 \<le> r" "r \<le> 1"
    using duration_seconds_round [OF assms] by blast
  have "d div 1000000000 \<le> 9223372036"
    using assms zdiv_mono1 [of d max_i64 1000000000] by (simp add: is_i64_def max_i64_def)
  then have "(of_int (d div 1000000000) :: rat) \<le> 9223372036" by (metis of_int_le_iff of_int_numeral)
  with r(3) have "of_int (d div 1000000000) + r \<le> 2 powi 63" by simp
  moreover have "0 \<le> of_int (d div 1000000000) + r" using r(2) assms(1) by simp
  moreover have "round64 (2 powi 63) = Fin (2 powi 63)" by (rule round64_powi) simp_all
  ultimately obtain v where "round64 (of_int (d div 1000000000) + r) = Fin v" "0 \<le> v"
    using round64_between [OF round64_0] by blast
  then show ?thesis by (simp add: r(1))
qed

lemma duration_seconds_pos:
  assumes "0 < d" "is_i64 d"
  shows "\<exists>r. duration_seconds d = Fin r \<and> 0 < r"
proof -
  have one: "f64_le (Fin (2 powi - 30)) (duration_seconds 1)"
  proof -
    have "f64_le (round64 (2 powi - 30)) (frac_seconds 1)"
      by (subst frac_seconds_eq) (simp_all add: round64_mono power_int_minus)
    then obtain r where r: "frac_seconds 1 = Fin r" "2 powi - 30 \<le> r"
      using frac_seconds_range [of 1] round64_powi [of "- 30"] by auto
    have "duration_seconds 1 = round64 r"
      by (subst duration_seconds_split) (simp_all add: is_i64_def min_i64_def max_i64_def r)
    moreover have "f64_le (round64 (2 powi - 30)) (round64 r)" using r(2) by (rule round64_mono)
    ultimately show ?thesis using round64_powi [of "- 30"] by simp
  qed
  have "f64_le (duration_seconds 1) (duration_seconds d)"
    using assms by (intro duration_seconds_mono) simp_all
  with one have "f64_le (Fin (2 powi - 30)) (duration_seconds d)" by (rule f64_le_trans)
  moreover obtain r where "duration_seconds d = Fin r"
    using duration_seconds_finite [of d] assms by auto
  ultimately have "2 powi - 30 \<le> r" by simp
  with \<open>duration_seconds d = Fin r\<close> show ?thesis
    by (metis less_le_trans zero_less_numeral zero_less_power_int)
qed

lemma f64_of_int_ge1: "f64_le (Fin 1) (f64_of_int n) \<longleftrightarrow> 1 \<le> n"
proof
  assume "1 \<le> n"
  then have "f64_le (f64_of_int 1) (f64_of_int n)" by (rule f64_of_int_mono)
  then show "f64_le (Fin 1) (f64_of_int n)" by (simp add: f64_of_int_exact)
next
  assume le: "f64_le (Fin 1) (f64_of_int n)"
  show "1 \<le> n"
  proof (rule ccontr)
    assume "\<not> 1 \<le> n"
    then have "f64_le (f64_of_int n) (f64_of_int 0)" by (intro f64_of_int_mono) simp
    with le have "f64_le (Fin 1) (Fin 0)" by (metis f64_le_trans f64_of_int_0)
    then show False by simp
  qed
qed

subsection \<open>Rounding is idempotent\<close>

lemma round_pos_idem: "round_pos (round_pos z) = round_pos z"
proof (cases "0 < z")
  case True
  let ?L = "ilog2 z" and ?e = "ulp_exp z" and ?x = "round_pos z"
  have x: "?x = grid ?e z" by (rule round_pos_grid) fact
  have e: "?L - 52 \<le> ?e" "- 1074 \<le> ?e" by (auto simp: ulp_exp_def)
  show ?thesis
  proof (cases "?e \<le> ?L + 1")
    case True
    have "grid ?e z \<le> grid ?e (2 powi (?L + 1))"
      by (rule grid_mono) (use ilog2_bounds(2) [OF \<open>0 < z\<close>] in simp)
    then have le: "?x \<le> 2 powi (?L + 1)" using grid_powi [OF True] by (simp add: x)
    show ?thesis
    proof (cases "?x = 2 powi (?L + 1)")
      case True
      have "ilog2 ?x < ?L + 2"
        unfolding True by (rule ilog2_less) (simp_all add: power_int_strict_increasing)
      then have "ulp_exp ?x \<le> ?L + 1" using e \<open>?e \<le> ?L + 1\<close> by (simp add: ulp_exp_def)
      then show ?thesis using round_pos_exact [of ?x 1 "?L + 1"] round_pos_nonneg [of z] True by simp
    next
      case False
      have "ulp_exp ?x \<le> ?e" if "0 < ?x"
        using ilog2_less [of ?x "?L + 1"] that le False by (simp add: ulp_exp_def)
      then have "0 < ?x \<Longrightarrow> ?thesis"
        using round_pos_exact [of ?x "round_even (z / 2 powi ?e)" ?e] by (simp add: x grid_def)
      then show ?thesis using round_pos_nonneg [of z] by (cases "?x = 0") auto
    qed
  next
    case False
    have "z < 2 powi (?L + 1)" using ilog2_bounds(2) [OF \<open>0 < z\<close>] .
    also have "\<dots> \<le> 2 powi (?e - 1)" by (rule powi_two_mono) (use False in simp)
    also have "\<dots> = 2 powi ?e / 2" by (simp add: power_int_diff)
    finally have "z / 2 powi ?e < 1 / 2" by (simp add: divide_less_eq)
    moreover have "0 \<le> z / 2 powi ?e" using \<open>0 < z\<close> by simp
    ultimately have "\<lfloor>z / 2 powi ?e\<rfloor> = 0" by linarith
    then have "round_even (z / 2 powi ?e) = 0" using \<open>z / 2 powi ?e < 1 / 2\<close> by (simp add: round_even_def)
    then show ?thesis by (simp add: x grid_def)
  qed
qed (simp add: round_pos_def)

lemma round64_idem: "0 \<le> z \<Longrightarrow> round64 z = Fin x \<Longrightarrow> round64 x = Fin x \<and> 0 \<le> x"
  by (auto simp: round64_def pack_def round_pos_idem round_pos_nonneg split: if_splits)


text \<open>\<open>math.Round\<close> of a \<open>float64\<close> is an integer that is itself a \<open>float64\<close>.\<close>

lemma round_away_exact:
  assumes "0 \<le> z" "round64 z = Fin x"
  shows "f64_of_int (round_away x) = Fin (of_int (round_away x))"
proof (cases "x \<le> 2 ^ 53")
  case True
  have "0 \<le> x" using round64_idem [OF assms] by simp
  then have "0 \<le> round_away x" by (rule round_away_nonneg)
  moreover have "round_away x \<le> round_away (of_int (2 ^ 53))" by (rule round_away_mono) (use True in simp)
  ultimately show ?thesis by (intro f64_of_int_exact) (simp only: round_away_of_int)
next
  case False
  have x: "x = round_pos z" using assms by (auto simp: round64_def pack_def split: if_splits)
  have "2 ^ 53 < z"
  proof (rule ccontr)
    assume "\<not> 2 ^ 53 < z"
    then have "round_pos z \<le> round_pos (of_int (2 ^ 53))" by (intro round_pos_mono) simp
    then show False using False round_pos_int [of "2 ^ 53"] by (simp add: x)
  qed
  then have z: "0 < z" "2 powi 53 < z" by simp_all
  have "(2::rat) powi 53 < 2 powi (ilog2 z + 1)" using z ilog2_bounds(2) [OF z(1)] by (metis less_trans)
  then have "53 < ilog2 z + 1" by (rule powi_two_less)
  then have e: "0 \<le> ulp_exp z" by (simp add: ulp_exp_def)
  have "x = of_int (round_even (z / 2 powi ulp_exp z) * 2 ^ nat (ulp_exp z))"
    using z(1) e by (simp add: x round_pos_def power_int_def)
  then have "of_int (round_away x) = x" by (metis round_away_of_int)
  then show ?thesis using round64_idem [OF assms] by (simp add: f64_of_int_def)
qed

end
