(* ===== verification/Go_Time.thy ===== *)
theory Go_Time
  imports Go_Prelude
begin

text \<open>
  Go's \<open>time\<close> package, as far as the modelled code uses it. A \<open>time.Time\<close> is the number of
  nanoseconds since January 1 of year 1, 00:00 UTC, so the zero \<open>Time\<close> is 0 and \<open>IsZero\<close> is
  \<open>t = 0\<close>; the location a \<open>Time\<close> carries is passed as an argument where it matters (it only
  affects the calendar fields). A \<open>Duration\<close> is an \<open>int64\<close> of nanoseconds. The proleptic Gregorian
  calendar, \<open>time.Date\<close> with its normalisation and its zone lookup, \<open>AddDate\<close>, \<open>Truncate\<close>,
  \<open>Sub\<close> (which saturates) and the RFC 3339 layout are defined as the library documents them.

  The time zone database is data outside the program: a \<open>location\<close> carries the lookup that returns
  the offset in force at a Unix second and the interval in which it is valid.
\<close>

type_synonym time = int
type_synonym duration = int

abbreviation (input) zero_time :: time where "zero_time \<equiv> 0"

definition second_ns :: duration where "second_ns = 1000000000"
definition minute_ns :: duration where "minute_ns = 60000000000"
definition hour_ns :: duration where "hour_ns = 3600000000000"

lemmas duration_consts = second_ns_def minute_ns_def hour_ns_def

definition time_sub :: "time \<Rightarrow> time \<Rightarrow> duration" where
  "time_sub a b = (if a - b > max_i64 then max_i64 else if a - b < min_i64 then min_i64 else a - b)"

definition time_truncate :: "time \<Rightarrow> duration \<Rightarrow> time" where
  "time_truncate t d = (if d \<le> 0 then t else t - t mod d)"

definition trunc_sec :: "time \<Rightarrow> time" where
  "trunc_sec t = time_truncate t second_ns"

lemma time_sub_i64 [simp]: "is_i64 (time_sub a b)"
  by (simp add: time_sub_def is_i64_def max_i64_def min_i64_def)

lemma time_sub_mono: "a \<le> b \<Longrightarrow> time_sub a c \<le> time_sub b c"
  by (auto simp: time_sub_def max_i64_def min_i64_def)

lemma time_sub_self [simp]: "time_sub a a = 0"
  by (simp add: time_sub_def max_i64_def min_i64_def)

lemma time_sub_pos: "0 < time_sub a b \<longleftrightarrow> b < a"
  by (auto simp: time_sub_def max_i64_def min_i64_def)

lemma time_sub_nonneg: "b \<le> a \<Longrightarrow> 0 \<le> time_sub a b"
  by (auto simp: time_sub_def max_i64_def min_i64_def)

lemma trunc_sec_le: "trunc_sec t \<le> t"
  by (simp add: trunc_sec_def time_truncate_def second_ns_def)

lemma trunc_sec_mono: "s \<le> t \<Longrightarrow> trunc_sec s \<le> trunc_sec t"
proof -
  assume "s \<le> t"
  then have "s div second_ns \<le> t div second_ns" by (rule zdiv_mono1) (simp add: second_ns_def)
  then have "s div second_ns * second_ns \<le> t div second_ns * second_ns"
    by (simp add: second_ns_def)
  then show ?thesis
    by (simp add: trunc_sec_def time_truncate_def second_ns_def minus_mod_eq_div_mult)
qed

lemma trunc_sec_idem [simp]: "trunc_sec (trunc_sec t) = trunc_sec t"
  by (simp add: trunc_sec_def time_truncate_def second_ns_def minus_mod_eq_div_mult)

subsection \<open>The calendar\<close>

definition is_leap :: "int \<Rightarrow> bool" where
  "is_leap y \<longleftrightarrow> y mod 4 = 0 \<and> (y mod 100 \<noteq> 0 \<or> y mod 400 = 0)"

text \<open>Days from January 1 of year 1 to January 1 of year \<open>y\<close>.\<close>

definition days_before_year :: "int \<Rightarrow> int" where
  "days_before_year y = 365 * (y - 1) + (y - 1) div 4 - (y - 1) div 100 + (y - 1) div 400"

definition cumulative_days :: "int list" where
  "cumulative_days = [0, 31, 59, 90, 120, 151, 181, 212, 243, 273, 304, 334, 365]"

definition days_before_month :: "int \<Rightarrow> int \<Rightarrow> int" where
  "days_before_month y m = cumulative_days ! nat (m - 1) + (if is_leap y \<and> m > 2 then 1 else 0)"

definition days_in :: "int \<Rightarrow> int \<Rightarrow> int" where
  "days_in y m = days_before_month y (m + 1) - days_before_month y m"

definition civil_day :: "int \<Rightarrow> int \<Rightarrow> int \<Rightarrow> int" where
  "civil_day y m d = days_before_year y + days_before_month y m + (d - 1)"

text \<open>The year of a day number: an estimate from the mean year length, corrected by one.\<close>

definition year_of_day :: "int \<Rightarrow> int" where
  "year_of_day n =
     (let y = 400 * n div 146097 + 1
      in if n < days_before_year y then y - 1
         else if days_before_year (y + 1) \<le> n then y + 1 else y)"

fun month_from :: "int \<Rightarrow> int \<Rightarrow> int list \<Rightarrow> int" where
  "month_from y k [] = 12"
| "month_from y k (m # ms) = (if k < days_before_month y (m + 1) then m else month_from y k ms)"

definition month_of_yday :: "int \<Rightarrow> int \<Rightarrow> int" where
  "month_of_yday y k = month_from y k [1, 2, 3, 4, 5, 6, 7, 8, 9, 10, 11]"

definition civil_of_day :: "int \<Rightarrow> int \<times> int \<times> int" where
  "civil_of_day n =
     (let y = year_of_day n; k = n - days_before_year y; m = month_of_yday y k
      in (y, m, k - days_before_month y m + 1))"

subsection \<open>Locations and \<open>time.Date\<close>\<close>

record location =
  loc_name :: string
  loc_lookup :: "int \<Rightarrow> int \<times> int \<times> int" \<comment> \<open>Unix second to (offset, valid from, valid until)\<close>

definition fixed_location :: "string \<Rightarrow> int \<Rightarrow> location" where
  "fixed_location name off = \<lparr>loc_name = name, loc_lookup = (\<lambda>_. (off, min_i64, max_i64))\<rparr>"

definition UTC :: location where
  "UTC = fixed_location ''UTC'' 0"

definition unix_epoch :: int where "unix_epoch = 62135596800"

definition offset_at :: "location \<Rightarrow> int \<Rightarrow> int" where
  "offset_at loc unix = fst (loc_lookup loc unix)"

definition unix_of :: "time \<Rightarrow> int" where
  "unix_of t = t div second_ns - unix_epoch"

text \<open>Seconds of the wall clock of \<open>t\<close> in a location, counted from year 1.\<close>

definition local_secs :: "location \<Rightarrow> time \<Rightarrow> int" where
  "local_secs loc t = t div second_ns + offset_at loc (unix_of t)"

definition time_date :: "location \<Rightarrow> time \<Rightarrow> int \<times> int \<times> int" where
  "time_date loc t = civil_of_day (local_secs loc t div 86400)"

definition time_year :: "location \<Rightarrow> time \<Rightarrow> int" where
  "time_year loc t = fst (time_date loc t)"

definition time_day :: "location \<Rightarrow> time \<Rightarrow> int" where
  "time_day loc t = snd (snd (time_date loc t))"

text \<open>\<open>time.Date\<close>: the month is normalised into 1 to 12, the day, the clock and the nanoseconds carry.\<close>

definition date_secs :: "int \<Rightarrow> int \<Rightarrow> int \<Rightarrow> int \<Rightarrow> int" where
  "date_secs y m d clock = civil_day (y + (m - 1) div 12) ((m - 1) mod 12 + 1) d * 86400 + clock"

definition zone_adjust :: "location \<Rightarrow> int \<Rightarrow> int" where
  "zone_adjust loc unix =
     (let (off, st, en) = loc_lookup loc unix
      in if off = 0 then unix
         else let utc = unix - off
              in if utc < st \<or> utc \<ge> en then unix - offset_at loc utc else unix - off)"

definition time_Date :: "location \<Rightarrow> int \<Rightarrow> int \<Rightarrow> int \<Rightarrow> int \<Rightarrow> int \<Rightarrow> time" where
  "time_Date loc y m d clock nsec =
     (let secs = date_secs y m d clock + nsec div second_ns
      in (zone_adjust loc (secs - unix_epoch) + unix_epoch) * second_ns + nsec mod second_ns)"

abbreviation midnight :: "location \<Rightarrow> int \<Rightarrow> int \<Rightarrow> int \<Rightarrow> time" where
  "midnight loc y m d \<equiv> time_Date loc y m d 0 0"

definition add_date :: "location \<Rightarrow> time \<Rightarrow> int \<Rightarrow> int \<Rightarrow> int \<Rightarrow> time" where
  "add_date loc t ys ms ds =
     (let (y, m, d) = time_date loc t
      in time_Date loc (y + ys) (m + ms) (d + ds) (local_secs loc t mod 86400) (t mod second_ns))"

subsection \<open>RFC 3339\<close>

definition is_digit :: "char \<Rightarrow> bool" where
  "is_digit c \<longleftrightarrow> 0x30 \<le> byte c \<and> byte c \<le> 0x39"

definition digit_val :: "char \<Rightarrow> int" where
  "digit_val c = int (byte c) - 0x30"

text \<open>\<open>getnum\<close>: one or two digits, exactly two when \<open>fixed\<close>.\<close>

fun getnum :: "bool \<Rightarrow> string \<Rightarrow> (int \<times> string) option" where
  "getnum fixed [] = None"
| "getnum fixed [c] = (if is_digit c \<and> \<not> fixed then Some (digit_val c, []) else None)"
| "getnum fixed (c # d # s) =
     (if \<not> is_digit c then None
      else if is_digit d then Some (digit_val c * 10 + digit_val d, s)
      else if fixed then None else Some (digit_val c, d # s))"

definition getlit :: "char \<Rightarrow> string \<Rightarrow> string option" where
  "getlit c s = drop_prefix [c] s"

fun get_year :: "string \<Rightarrow> (int \<times> string) option" where
  "get_year (a # b # c # d # s) =
     (if is_digit a \<and> is_digit b \<and> is_digit c \<and> is_digit d
      then Some (((digit_val a * 10 + digit_val b) * 10 + digit_val c) * 10 + digit_val d, s) else None)"
| "get_year _ = None"

text \<open>A fraction of any length may follow the seconds; digits past the ninth are dropped.\<close>

definition nanos_of :: "string \<Rightarrow> int" where
  "nanos_of ds = (let e = take 9 ds in int (undec e 0) * 10 ^ (9 - length e))"

definition get_fraction :: "string \<Rightarrow> int \<times> string" where
  "get_fraction s =
     (case s of
        c # d # _ \<Rightarrow>
          if (c = CHR ''.'' \<or> c = CHR '','') \<and> is_digit d
          then (nanos_of (takeWhile is_digit (tl s)), dropWhile is_digit (tl s)) else (0, s)
      | _ \<Rightarrow> (0, s))"

definition get_zone :: "string \<Rightarrow> (int \<times> string) option" where
  "get_zone s =
     (case s of
        CHR ''Z'' # r \<Rightarrow> Some (0, r)
      | sg # a # b # col # c # d # r \<Rightarrow>
          if col = CHR '':'' \<and> is_digit a \<and> is_digit b \<and> is_digit c \<and> is_digit d
          then (let h = digit_val a * 10 + digit_val b; mi = digit_val c * 10 + digit_val d;
                    off = (h * 60 + mi) * 60
                in if h > 24 \<or> mi > 60 then None
                   else if sg = CHR ''+'' then Some (off, r)
                   else if sg = CHR ''-'' then Some (- off, r) else None)
          else None
      | _ \<Rightarrow> None)"

definition get_date :: "string \<Rightarrow> ((int \<times> int \<times> int) \<times> string) option" where
  "get_date s =
     Option.bind (get_year s) (\<lambda>(y, s1).
     Option.bind (getlit (CHR ''-'') s1) (\<lambda>s2.
     Option.bind (getnum True s2) (\<lambda>(m, s3).
     if m \<le> 0 \<or> 12 < m then None else
     Option.bind (getlit (CHR ''-'') s3) (\<lambda>s4.
     Option.bind (getnum True s4) (\<lambda>(d, s5). Some ((y, m, d), s5))))))"

definition valid_date :: "int \<times> int \<times> int \<Rightarrow> bool" where
  "valid_date = (\<lambda>(y, m, d). 1 \<le> d \<and> d \<le> days_in y m)"

definition parse_rfc3339 :: "string \<Rightarrow> time option" where
  "parse_rfc3339 s =
     Option.bind (get_date s) (\<lambda>((y, m, d), s1).
     Option.bind (getlit (CHR ''T'') s1) (\<lambda>s2.
     Option.bind (getnum False s2) (\<lambda>(h, s3).
     if 24 \<le> h then None else
     Option.bind (getlit (CHR '':'') s3) (\<lambda>s4.
     Option.bind (getnum True s4) (\<lambda>(mi, s5).
     if 60 \<le> mi then None else
     Option.bind (getlit (CHR '':'') s5) (\<lambda>s6.
     Option.bind (getnum True s6) (\<lambda>(sec, s7).
     if 60 \<le> sec then None else
     let (ns, s8) = get_fraction s7 in
     Option.bind (get_zone s8) (\<lambda>(off, s9).
     if s9 \<noteq> [] \<or> \<not> valid_date (y, m, d) then None
     else Some (time_Date UTC y m d (h * 3600 + mi * 60 + sec - off) ns)))))))))"

text \<open>The layout \<open>2006-01-02\<close>, read at midnight of a location.\<close>

definition parse_date_only :: "location \<Rightarrow> string \<Rightarrow> time option" where
  "parse_date_only loc s =
     Option.bind (get_date s) (\<lambda>((y, m, d), r).
     if r \<noteq> [] \<or> \<not> valid_date (y, m, d) then None else Some (midnight loc y m d))"

definition pad :: "nat \<Rightarrow> int \<Rightarrow> string" where
  "pad w i = (let s = dec_nat (nat \<bar>i\<bar>)
              in (if i < 0 then ''-'' else []) @ replicate (w - length s) (CHR ''0'') @ s)"

definition format_date_only :: "location \<Rightarrow> time \<Rightarrow> string" where
  "format_date_only loc t = (let (y, m, d) = time_date loc t in pad 4 y @ ''-'' @ pad 2 m @ ''-'' @ pad 2 d)"

definition format_rfc3339_utc :: "time \<Rightarrow> string" where
  "format_rfc3339_utc t =
     (let c = local_secs UTC t mod 86400
      in format_date_only UTC t @ ''T'' @ pad 2 (c div 3600) @ '':'' @ pad 2 (c div 60 mod 60)
         @ '':'' @ pad 2 (c mod 60) @ ''Z'')"

subsection \<open>Facts about the calendar\<close>

lemma div_pred:
  assumes "(0::int) < k"
  shows "y div k = (y - 1) div k + (if y mod k = 0 then 1 else 0)"
proof (cases "y mod k = 0")
  case True
  then have "y - 1 = k * (y div k - 1) + (k - 1)"
    using mult_div_mod_eq [of k y] by (simp add: algebra_simps)
  then have "(y - 1) div k = y div k - 1" by (rule int_div_pos_eq) (use assms in simp_all)
  with True show ?thesis by simp
next
  case False
  then have r: "0 < y mod k" "y mod k < k"
    using pos_mod_sign [OF assms, of y] pos_mod_bound [OF assms, of y] by simp_all
  have "y - 1 = k * (y div k) + (y mod k - 1)" using mult_div_mod_eq [of k y] by simp
  then have "(y - 1) div k = y div k" by (rule int_div_pos_eq) (use r in simp_all)
  with False show ?thesis by simp
qed

lemma days_before_year_Suc:
  "days_before_year (y + 1) = days_before_year y + (if is_leap y then 366 else 365)"
proof -
  have "y mod 400 = 0 \<Longrightarrow> y mod 100 = 0" "y mod 100 = 0 \<Longrightarrow> y mod 4 = 0"
    using mod_mod_cancel [of 100 400 y] mod_mod_cancel [of 4 100 y] by simp_all
  then have "(if is_leap y then 366 else 365 :: int) = 365 + (if y mod 4 = 0 then 1 else 0)
      - (if y mod 100 = 0 then 1 else 0) + (if y mod 400 = 0 then 1 else 0)"
    unfolding is_leap_def by (cases "y mod 400 = 0"; cases "y mod 100 = 0"; cases "y mod 4 = 0") simp_all
  moreover have "days_before_year (y + 1) = 365 * y + y div 4 - y div 100 + y div 400"
    by (simp add: days_before_year_def)
  moreover have "l = 365 + a - b + c \<Longrightarrow> d = 365 * y + (p + a) - (q + b) + (r + c) \<Longrightarrow>
      d = 365 * (y - 1) + p - q + r + l" for l a b c d p q r :: int
    by simp
  ultimately show ?thesis
    unfolding days_before_year_def [of y] div_pred [of 4 y, simplified] div_pred [of 100 y, simplified]
      div_pred [of 400 y, simplified] by blast
qed

lemma days_before_year_less: "days_before_year y + 365 \<le> days_before_year (y + 1)"
  by (simp add: days_before_year_Suc)

lemma days_before_year_mono_aux: "days_before_year y + 365 * int n \<le> days_before_year (y + int n)"
proof (induction n)
  case (Suc n)
  have "days_before_year (y + int n) + 365 \<le> days_before_year (y + int n + 1)"
    by (rule days_before_year_less)
  with Suc show ?case by (simp add: algebra_simps)
qed simp

lemma days_before_year_mono: "x \<le> y \<Longrightarrow> days_before_year x + 365 * (y - x) \<le> days_before_year y"
  using days_before_year_mono_aux [of x "nat (y - x)"] by simp

lemma year_of_day_bounds:
  "days_before_year (year_of_day n) \<le> n" "n < days_before_year (year_of_day n + 1)"
proof -
  define e where "e = 400 * n div 146097"
  have e: "146097 * e \<le> 400 * n" "400 * n < 146097 * e + 146097"
    unfolding e_def by linarith+
  have d: "4 * (x div 4) \<le> x" "x \<le> 4 * (x div 4) + 3"
    "100 * (x div 100) \<le> x" "x \<le> 100 * (x div 100) + 99"
    "400 * (x div 400) \<le> x" "x \<le> 400 * (x div 400) + 399" for x :: int
    by linarith+
  have lo: "days_before_year (e + 1) \<le> n"
    unfolding days_before_year_def using e d [of e] by simp
  have hi: "n - 1 \<le> days_before_year (e + 2)"
    unfolding days_before_year_def using e d [of "e + 1"] by simp
  have hi2: "n < days_before_year (e + 3)"
    using hi days_before_year_less [of "e + 2"] by (simp add: add.commute)
  show "days_before_year (year_of_day n) \<le> n" "n < days_before_year (year_of_day n + 1)"
    using lo hi2 by (auto simp: year_of_day_def Let_def e_def [symmetric] add.commute)
qed

lemma year_of_day_unique:
  assumes "days_before_year y \<le> n" "n < days_before_year (y + 1)"
  shows "year_of_day n = y"
proof (rule antisym; rule ccontr)
  assume "\<not> year_of_day n \<le> y"
  then have "days_before_year (y + 1) \<le> days_before_year (year_of_day n)"
    using days_before_year_mono [of "y + 1" "year_of_day n"] by simp
  with assms year_of_day_bounds(1) [of n] show False by simp
next
  assume "\<not> y \<le> year_of_day n"
  then have "days_before_year (year_of_day n + 1) \<le> days_before_year y"
    using days_before_year_mono [of "year_of_day n + 1" y] by simp
  with assms year_of_day_bounds(2) [of n] show False by simp
qed

text \<open>
  Months counted from month 0 of year 0, and the day number of their first day. A month has 28 to 31
  days, and the civil date of a day is found in its month.
\<close>

definition month_start :: "int \<Rightarrow> int" where
  "month_start k = civil_day (k div 12) (k mod 12 + 1) 1"

lemma month_cases: "1 \<le> m \<Longrightarrow> m \<le> 12 \<Longrightarrow>
    m = 1 \<or> m = 2 \<or> m = 3 \<or> m = 4 \<or> m = 5 \<or> m = 6 \<or> m = 7 \<or> m = 8 \<or> m = 9 \<or> m = 10 \<or> m = 11 \<or> m = (12::int)"
  by arith

lemma days_in_range: "1 \<le> m \<Longrightarrow> m \<le> 12 \<Longrightarrow> 28 \<le> days_in y m \<and> days_in y m \<le> 31"
  by (drule (1) month_cases) (auto simp: days_in_def days_before_month_def cumulative_days_def)

lemma days_before_month_1 [simp]: "days_before_month y 1 = 0"
  by (simp add: days_before_month_def cumulative_days_def)

lemma days_before_month_13: "days_before_month y 13 = (if is_leap y then 366 else 365)"
  by (simp add: days_before_month_def cumulative_days_def)

lemma div_mod_12:
  "0 \<le> r \<Longrightarrow> r < 12 \<Longrightarrow> (12 * q + r) div 12 = (q::int)" "0 \<le> r \<Longrightarrow> r < 12 \<Longrightarrow> (12 * q + r) mod 12 = (r::int)"
  by simp_all

lemma month_start_12: "0 \<le> r \<Longrightarrow> r < 12 \<Longrightarrow> month_start (12 * q + r) = civil_day q (r + 1) 1"
  unfolding month_start_def by (simp only: div_mod_12)

lemma month_start_Suc12:
  assumes "0 \<le> r" "r < 12"
  shows "month_start (12 * q + r + 1) = month_start (12 * q + r) + days_in q (r + 1)"
proof (cases "r = 11")
  case True
  have e: "12 * q + r + 1 = 12 * (q + 1) + 0" using True by simp
  have "month_start (12 * q + r + 1) = civil_day (q + 1) 1 1" unfolding e using month_start_12 [of 0 "q + 1"] by simp
  moreover have "month_start (12 * q + r) = civil_day q 12 1" using month_start_12 [of r q] True by simp
  ultimately show ?thesis using True by (simp add: civil_day_def days_in_def days_before_month_13 days_before_year_Suc)
next
  case False
  have e: "12 * q + r + 1 = 12 * q + (r + 1)" by simp
  show ?thesis unfolding e using assms False by (subst (1 2) month_start_12) (simp_all add: civil_day_def days_in_def)
qed

lemma month_start_Suc: "month_start (k + 1) = month_start k + days_in (k div 12) (k mod 12 + 1)"
  using month_start_Suc12 [of "k mod 12" "k div 12"] by simp

lemma month_length: "28 \<le> month_start (k + 1) - month_start k" "month_start (k + 1) - month_start k \<le> 31"
  using days_in_range [of "k mod 12 + 1" "k div 12"] by (simp_all add: month_start_Suc)

lemma month_start_add:
  "28 * int n \<le> month_start (k + int n) - month_start k" "month_start (k + int n) - month_start k \<le> 31 * int n"
proof (induction n)
  case (Suc n)
  have "k + int (Suc n) = k + int n + 1" by simp
  with month_length [of "k + int n"] Suc show "28 * int (Suc n) \<le> month_start (k + int (Suc n)) - month_start k"
    "month_start (k + int (Suc n)) - month_start k \<le> 31 * int (Suc n)" by (simp_all only:) (simp_all add: algebra_simps)
qed simp_all

lemma date_secs_month: "date_secs y m d clock = (month_start (12 * y + m - 1) + d - 1) * 86400 + clock"
proof -
  have i: "12 * y + m - 1 = 12 * y + (m - 1)" by simp
  have "(12 * y + m - 1) div 12 = y + (m - 1) div 12" "(12 * y + m - 1) mod 12 = (m - 1) mod 12"
    unfolding i by simp_all
  then show ?thesis by (simp add: date_secs_def month_start_def civil_day_def)
qed

lemma month_from_bounds:
  assumes "days_before_month y m \<le> k" "k < days_before_month y 13"
    and "1 \<le> m" "m \<le> 12"
  shows "\<exists>j. month_from y k [m..11] = j \<and> m \<le> j \<and> j \<le> 12 \<and> days_before_month y j \<le> k \<and> k < days_before_month y (j + 1)"
  using assms
proof (induction "nat (12 - m)" arbitrary: m)
  case 0
  then have "m = 12" by simp
  with 0 show ?case by simp
next
  case (Suc n)
  then have m: "m \<le> 11" by simp
  then have l: "[m..11] = m # [m + 1..11]" by (simp add: upto_rec1)
  show ?case
  proof (cases "k < days_before_month y (m + 1)")
    case True
    with Suc.prems m show ?thesis by (simp add: l)
  next
    case False
    with Suc m have "\<exists>j. month_from y k [m + 1..11] = j \<and> m + 1 \<le> j \<and> j \<le> 12 \<and> days_before_month y j \<le> k \<and> k < days_before_month y (j + 1)"
      by (intro Suc.hyps(1)) simp_all
    with False show ?thesis by (auto simp: l)
  qed
qed

lemma month_of_yday_upto: "month_of_yday y k = month_from y k [1..11]"
  by (simp add: month_of_yday_def upto.simps)

lemma civil_of_day_month:
  assumes "civil_of_day n = (y, m, d)"
  shows "1 \<le> m" "m \<le> 12" "n = month_start (12 * y + m - 1) + d - 1" "1 \<le> d"
    "d \<le> month_start (12 * y + m) - month_start (12 * y + m - 1)" "days_before_year y \<le> n" "n < days_before_year (y + 1)"
proof -
  define k where "k = n - days_before_year (year_of_day n)"
  have y: "y = year_of_day n" and m: "m = month_of_yday y k" and d: "d = k - days_before_month y m + 1"
    using assms by (auto simp: civil_of_day_def Let_def k_def)
  note b = year_of_day_bounds [of n]
  have k: "0 \<le> k" "k < days_before_month y 13"
    using b by (simp_all add: k_def y days_before_month_13 days_before_year_Suc)
  obtain "1 \<le> m" "m \<le> 12" "days_before_month y m \<le> k" "k < days_before_month y (m + 1)"
    using month_from_bounds [of y 1 k] k by (auto simp: m month_of_yday_upto)
  moreover have i: "(12 * y + m - 1) div 12 = y" "(12 * y + m - 1) mod 12 = m - 1"
  proof -
    have e: "12 * y + m - 1 = 12 * y + (m - 1)" by simp
    show "(12 * y + m - 1) div 12 = y" "(12 * y + m - 1) mod 12 = m - 1"
      using calculation by (intro int_div_pos_eq [OF e] int_mod_pos_eq [OF e]; simp)+
  qed
  moreover have "month_start (12 * y + m) = month_start (12 * y + m - 1) + days_in y m"
    using month_start_Suc [of "12 * y + m - 1"] by (simp add: i)
  ultimately show "1 \<le> m" "m \<le> 12" "n = month_start (12 * y + m - 1) + d - 1" "1 \<le> d"
    "d \<le> month_start (12 * y + m) - month_start (12 * y + m - 1)" "days_before_year y \<le> n" "n < days_before_year (y + 1)"
    using b by (simp_all add: month_start_def civil_day_def d k_def y days_in_def)
qed

text \<open>
  A location is bounded when no offset exceeds 26 hours, which is what the format of the time zone
  database allows. Wall clock times and instants then differ by at most that much.
\<close>

definition zone_bounded :: "location \<Rightarrow> bool" where
  "zone_bounded loc \<longleftrightarrow> (\<forall>unix. \<bar>offset_at loc unix\<bar> \<le> 93600)"

definition day_ns :: duration where "day_ns = 86400 * second_ns"
definition zone_ns :: duration where "zone_ns = 93600 * second_ns"

lemma zone_adjust_bounds: "zone_bounded loc \<Longrightarrow> \<bar>zone_adjust loc u - u\<bar> \<le> 93600"
proof -
  assume z: "zone_bounded loc"
  obtain off st en where l: "loc_lookup loc u = (off, st, en)" by (cases "loc_lookup loc u")
  have "\<bar>off\<bar> \<le> 93600" using z l by (auto simp: zone_bounded_def offset_at_def dest: spec [of _ u])
  moreover have "\<bar>offset_at loc (u - off)\<bar> \<le> 93600" using z by (simp add: zone_bounded_def)
  ultimately show ?thesis by (simp add: zone_adjust_def l Let_def)
qed

lemma time_Date_bounds:
  assumes "zone_bounded loc" "0 \<le> nsec" "nsec < second_ns"
  shows "\<bar>time_Date loc y m d clock nsec - (date_secs y m d clock * second_ns + nsec)\<bar> \<le> zone_ns"
proof -
  let ?s = "date_secs y m d clock"
  have n: "nsec div second_ns = 0" "nsec mod second_ns = nsec" using assms(2,3) by simp_all
  have "time_Date loc y m d clock nsec - (?s * second_ns + nsec) = (zone_adjust loc (?s - unix_epoch) - (?s - unix_epoch)) * second_ns"
    by (simp add: time_Date_def n Let_def algebra_simps)
  then have "\<bar>time_Date loc y m d clock nsec - (?s * second_ns + nsec)\<bar> =
      \<bar>zone_adjust loc (?s - unix_epoch) - (?s - unix_epoch)\<bar> * second_ns"
    by (simp only: abs_mult abs_minus_cancel) (simp add: second_ns_def)
  also have "\<dots> \<le> 93600 * second_ns"
    using zone_adjust_bounds [OF assms(1)] by (intro mult_right_mono) (simp_all add: second_ns_def)
  finally show ?thesis by (simp add: zone_ns_def)
qed

lemma midnight_bounds:
  assumes "zone_bounded loc"
  shows "\<bar>midnight loc y m d - (month_start (12 * y + m - 1) + d - 1) * day_ns\<bar> \<le> zone_ns"
  using time_Date_bounds [OF assms, of 0 y m d 0] by (simp add: date_secs_month day_ns_def second_ns_def algebra_simps)

lemma local_secs_bounds:
  assumes "zone_bounded loc"
  shows "\<bar>t - (local_secs loc t * second_ns + t mod second_ns)\<bar> \<le> zone_ns"
proof -
  have "t - (local_secs loc t * second_ns + t mod second_ns) = - offset_at loc (unix_of t) * second_ns"
    using mult_div_mod_eq [of second_ns t] by (simp add: local_secs_def algebra_simps)
  then have "\<bar>t - (local_secs loc t * second_ns + t mod second_ns)\<bar> = \<bar>offset_at loc (unix_of t)\<bar> * second_ns"
    by (simp only: abs_mult abs_minus_cancel) (simp add: second_ns_def)
  also have "\<dots> \<le> 93600 * second_ns"
    using assms by (intro mult_right_mono) (simp_all add: zone_bounded_def second_ns_def)
  finally show ?thesis by (simp add: zone_ns_def)
qed

lemma time_date_bounds:
  assumes "zone_bounded loc" "time_date loc t = (y, m, d)"
  shows "(month_start (12 * y + m - 1) + d - 1) * day_ns - zone_ns \<le> t"
    "t < (month_start (12 * y + m - 1) + d) * day_ns + zone_ns"
proof -
  let ?l = "local_secs loc t"
  have n: "?l div 86400 = month_start (12 * y + m - 1) + d - 1"
    using civil_of_day_month(3) [of "?l div 86400" y m d] assms(2) by (simp add: time_date_def)
  have l: "?l div 86400 * 86400 \<le> ?l" "?l < (?l div 86400 + 1) * 86400"
    by (simp_all add: minus_mod_eq_div_mult [symmetric])
  have f: "0 \<le> t mod second_ns" "t mod second_ns < second_ns" by (simp_all add: second_ns_def)
  have "?l div 86400 * day_ns \<le> ?l * second_ns" using l(1) by (simp add: day_ns_def second_ns_def)
  moreover have "?l * second_ns + t mod second_ns < (?l div 86400 + 1) * day_ns"
    using l(2) f(2) by (simp add: day_ns_def second_ns_def)
  ultimately show "(month_start (12 * y + m - 1) + d - 1) * day_ns - zone_ns \<le> t"
    "t < (month_start (12 * y + m - 1) + d) * day_ns + zone_ns"
    using local_secs_bounds [OF assms(1), of t] f(1) unfolding n by (auto simp: algebra_simps)
qed

lemma add_months_bounds:
  assumes "zone_bounded loc" "time_date loc t = (y, m, d)"
  shows "\<bar>add_date loc t 0 ms 0 - t - (month_start (12 * y + m - 1 + ms) - month_start (12 * y + m - 1)) * day_ns\<bar> \<le> 2 * zone_ns"
proof -
  let ?l = "local_secs loc t" and ?D = "month_start (12 * y + m - 1 + ms) - month_start (12 * y + m - 1)"
  have n: "?l div 86400 = month_start (12 * y + m - 1) + d - 1"
    using civil_of_day_month(3) [of "?l div 86400" y m d] assms(2) by (simp add: time_date_def)
  have i: "12 * y + (m + ms) - 1 = 12 * y + m - 1 + ms" by simp
  have "date_secs y (m + ms) d (?l mod 86400) = (?l div 86400 + ?D) * 86400 + ?l mod 86400"
    unfolding date_secs_month n i by simp
  also have "\<dots> = ?l + ?D * 86400" by (simp add: algebra_simps)
  finally have s: "date_secs y (m + ms) d (?l mod 86400) = ?l + ?D * 86400" .
  have f: "0 \<le> t mod second_ns" "t mod second_ns < second_ns" by (simp_all add: second_ns_def)
  have "\<bar>add_date loc t 0 ms 0 - ((?l + ?D * 86400) * second_ns + t mod second_ns)\<bar> \<le> zone_ns"
    using time_Date_bounds [OF assms(1) f, of y "m + ms" d "?l mod 86400"] by (simp add: add_date_def assms(2) s)
  moreover have "(?l + ?D * 86400) * second_ns = ?l * second_ns + ?D * day_ns" by (simp add: day_ns_def algebra_simps)
  ultimately show ?thesis using local_secs_bounds [OF assms(1), of t] by linarith
qed

subsection \<open>Printing and reading dates\<close>

lemma dec_nat_length: "0 < w \<Longrightarrow> n < 10 ^ w \<Longrightarrow> length (dec_nat n) \<le> w"
proof (induction w arbitrary: n)
  case (Suc w)
  show ?case
  proof (cases "n < 10")
    case False
    then have "0 < w" using Suc.prems by (cases w) auto
    moreover have "n div 10 < 10 ^ w" using Suc.prems by (simp add: less_mult_imp_div_less mult.commute)
    ultimately show ?thesis using Suc.IH [of "n div 10"] False by (simp add: dec_nat.simps [of n])
  qed (simp add: dec_nat.simps [of n])
qed simp

lemma undec_zeros: "undec (replicate n (CHR ''0'') @ s) 0 = undec s 0"
  by (induction n) simp_all

lemma pad_facts:
  assumes "0 \<le> i" "i < 10 ^ w" "0 < w"
  shows "length (pad w i) = w" "list_all is_digit (pad w i)" "int (undec (pad w i) 0) = i"
proof -
  have n: "nat \<bar>i\<bar> < 10 ^ w" using assms by (simp add: nat_less_iff)
  have p: "pad w i = replicate (w - length (dec_nat (nat \<bar>i\<bar>))) (CHR ''0'') @ dec_nat (nat \<bar>i\<bar>)"
    using assms(1) by (simp add: pad_def Let_def)
  show "length (pad w i) = w" using dec_nat_length [OF assms(3) n] by (simp add: p)
  show "list_all is_digit (pad w i)" by (auto simp: p list_all_iff is_digit_def dec_nat_digits)
  show "int (undec (pad w i) 0) = i" using assms(1) by (simp add: p undec_zeros undec_dec_nat)
qed

lemma digit_val_nat: "is_digit c \<Longrightarrow> int (byte c - 48) = digit_val c"
  by (simp add: is_digit_def digit_val_def of_nat_diff)

lemma getnum_pad:
  assumes "0 \<le> i" "i < 100"
  shows "getnum True (pad 2 i @ r) = Some (i, r)"
proof -
  note f = pad_facts [of i 2]
  obtain a b where p: "pad 2 i = [a, b]" using f(1) assms by (auto simp: numeral_2_eq_2 length_Suc_conv)
  have "is_digit a" "is_digit b" "int (undec [a, b] 0) = i" using f(2,3) assms by (simp_all add: p)
  then show ?thesis by (simp add: p digit_val_nat)
qed

lemma get_year_pad:
  assumes "0 \<le> i" "i < 10000"
  shows "get_year (pad 4 i @ r) = Some (i, r)"
proof -
  note f = pad_facts [of i 4]
  have "length (pad 4 i) = Suc (Suc (Suc (Suc 0)))" using f(1) assms by simp
  then obtain a b c d where p: "pad 4 i = [a, b, c, d]" by (auto simp: length_Suc_conv)
  have "is_digit a" "is_digit b" "is_digit c" "is_digit d" "int (undec [a, b, c, d] 0) = i" using f(2,3) assms by (simp_all add: p)
  then show ?thesis by (simp add: p digit_val_nat)
qed

lemma parse_format_date:
  assumes "time_date loc t = (y, m, d)" "0 \<le> y" "y < 10000"
  shows "parse_date_only loc' (format_date_only loc t) = Some (midnight loc' y m d)"
proof -
  note f = civil_of_day_month [OF assms(1) [unfolded time_date_def]]
  have "month_start (12 * y + m) = month_start (12 * y + m - 1) + days_in y m"
    using month_start_Suc12 [of "m - 1" y] f(1,2) by (simp add: algebra_simps)
  then have len: "d \<le> days_in y m" using f(5) by simp
  with f days_in_range [of m y] have "d < 100" by simp
  then have "get_date (format_date_only loc t) = Some ((y, m, d), [])"
    using assms f getnum_pad [of d "[]"]
    by (simp add: format_date_only_def get_date_def getlit_def get_year_pad getnum_pad drop_prefix_append [of "''-''", simplified])
  with f(4) len show ?thesis by (simp add: parse_date_only_def valid_date_def)
qed

lemma format_date_visible:
  assumes "time_date loc t = (y, m, d)" "0 \<le> y" "y < 10000"
  shows "list_all visible (format_date_only loc t)"
proof -
  note f = civil_of_day_month [OF assms(1) [unfolded time_date_def]]
  have "d < 100" using f month_length [of "12 * y + m - 1"] by simp
  moreover have "is_digit c \<Longrightarrow> visible c" for c by (simp add: is_digit_def visible_def)
  ultimately show ?thesis
    using assms f(1,2,4) pad_facts(2) [of y 4] pad_facts(2) [of m 2] pad_facts(2) [of d 2]
    by (auto simp: format_date_only_def list_all_iff visible_def)
qed

end
