(* ===== verification/Metric_Types.thy ===== *)
theory Metric_Types
  imports Go_Float Go_Time
begin

text \<open>
  The data of a node report (\<open>internal/metrics/types.go\<close>) and of the view the dashboard and the
  alert engine read (\<open>internal/metrics/front_dto.go\<close>), one record per Go struct with the struct's
  fields. A pointer is an option, a slice a list; where the code distinguishes a nil slice from an
  empty one (the slices \<open>ValidateReport\<close> requires, \<open>DiskSmartDevice.FailingAttrs\<close>) the slice is an option
  of a list, and \<open>slice\<close> gives the elements a loop or \<open>len\<close> sees.
\<close>

definition slice :: "'a list option \<Rightarrow> 'a list" where
  "slice x = (case x of None \<Rightarrow> [] | Some xs \<Rightarrow> xs)"

lemma slice_simps [simp]: "slice None = []" "slice (Some xs) = xs"
  by (simp_all add: slice_def)

subsection \<open>Reports\<close>

record CPUTimes =
  CPUTimes_User :: f64
  CPUTimes_System :: f64
  CPUTimes_Idle :: f64
  CPUTimes_Iowait :: f64
  CPUTimes_Steal :: f64

record CPUMetrics =
  CPUMetrics_UsageRatio :: f64
  CPUMetrics_Load1 :: f64
  CPUMetrics_Load5 :: f64
  CPUMetrics_Load15 :: f64
  CPUMetrics_Times :: CPUTimes

record MemoryMetrics =
  MemoryMetrics_Total :: int
  MemoryMetrics_Used :: int
  MemoryMetrics_Available :: int
  MemoryMetrics_Buffers :: int
  MemoryMetrics_Cached :: int
  MemoryMetrics_UsedRatio :: f64
  MemoryMetrics_SwapTotal :: int
  MemoryMetrics_SwapUsed :: int
  MemoryMetrics_SwapFree :: int
  MemoryMetrics_SwapUsedRatio :: f64

record DiskPhysicalMetrics =
  DiskPhysicalMetrics_Name :: string
  DiskPhysicalMetrics_DevicePath :: string
  DiskPhysicalMetrics_Ref :: string
  DiskPhysicalMetrics_ReadBytes :: int
  DiskPhysicalMetrics_WriteBytes :: int
  DiskPhysicalMetrics_ReadRateBytesPerSec :: f64
  DiskPhysicalMetrics_WriteRateBytesPerSec :: f64
  DiskPhysicalMetrics_IOPS :: f64
  DiskPhysicalMetrics_ReadIOPS :: f64
  DiskPhysicalMetrics_WriteIOPS :: f64
  DiskPhysicalMetrics_UtilRatio :: f64
  DiskPhysicalMetrics_QueueLength :: f64
  DiskPhysicalMetrics_WaitMs :: f64
  DiskPhysicalMetrics_ServiceMs :: f64

record DiskMountpointMetrics =
  DiskMountpointMetrics_FSType :: string
  DiskMountpointMetrics_InodesTotal :: int
  DiskMountpointMetrics_InodesUsed :: int
  DiskMountpointMetrics_InodesFree :: int
  DiskMountpointMetrics_InodesUsedRatio :: f64

record DiskLogicalMetrics =
  DiskLogicalMetrics_Kind :: string
  DiskLogicalMetrics_Name :: string
  DiskLogicalMetrics_DevicePath :: string
  DiskLogicalMetrics_Ref :: string
  DiskLogicalMetrics_Total :: int
  DiskLogicalMetrics_Used :: int
  DiskLogicalMetrics_Free :: int
  DiskLogicalMetrics_UsedRatio :: f64
  DiskLogicalMetrics_Health :: string
  DiskLogicalMetrics_Level :: string
  DiskLogicalMetrics_Mountpoint :: string
  DiskLogicalMetrics_Mountpoints :: "(string, DiskMountpointMetrics) gomap"
  DiskLogicalMetrics_Devices :: "string list"

record DiskFilesystemMetrics =
  DiskFilesystemMetrics_Path :: string
  DiskFilesystemMetrics_Device :: string
  DiskFilesystemMetrics_Mountpoint :: string
  DiskFilesystemMetrics_Total :: int
  DiskFilesystemMetrics_Used :: int
  DiskFilesystemMetrics_Free :: int
  DiskFilesystemMetrics_UsedRatio :: f64
  DiskFilesystemMetrics_FSType :: string
  DiskFilesystemMetrics_InodesTotal :: int
  DiskFilesystemMetrics_InodesUsed :: int
  DiskFilesystemMetrics_InodesFree :: int
  DiskFilesystemMetrics_InodesUsedRatio :: f64

record DiskBaseIOMetrics =
  DiskBaseIOMetrics_Kind :: string
  DiskBaseIOMetrics_Name :: string
  DiskBaseIOMetrics_DevicePath :: string
  DiskBaseIOMetrics_Ref :: string
  DiskBaseIOMetrics_Role :: string
  DiskBaseIOMetrics_ReadBytes :: int
  DiskBaseIOMetrics_WriteBytes :: int
  DiskBaseIOMetrics_ReadRateBytesPerSec :: f64
  DiskBaseIOMetrics_WriteRateBytesPerSec :: f64
  DiskBaseIOMetrics_ReadIOPS :: f64
  DiskBaseIOMetrics_WriteIOPS :: f64
  DiskBaseIOMetrics_IOPS :: f64
  DiskBaseIOMetrics_UtilRatio :: f64
  DiskBaseIOMetrics_QueueLength :: f64
  DiskBaseIOMetrics_WaitMs :: f64
  DiskBaseIOMetrics_ServiceMs :: f64

record DiskSmartAttr =
  DiskSmartAttr_ID :: int
  DiskSmartAttr_Name :: string
  DiskSmartAttr_WhenFailed :: string

record DiskSmartDevice =
  DiskSmartDevice_Ref :: string
  DiskSmartDevice_Name :: string
  DiskSmartDevice_DevicePath :: string
  DiskSmartDevice_DeviceType :: string
  DiskSmartDevice_Protocol :: string
  DiskSmartDevice_Model :: string
  DiskSmartDevice_Serial :: string
  DiskSmartDevice_WWN :: string
  DiskSmartDevice_Source :: string
  DiskSmartDevice_Status :: string
  DiskSmartDevice_ExitStatus :: "int option"
  DiskSmartDevice_Health :: "string option"
  DiskSmartDevice_TempC :: "f64 option"
  DiskSmartDevice_PowerOnHours :: "int option"
  DiskSmartDevice_LifetimeUsedPercent :: "f64 option"
  DiskSmartDevice_CriticalWarning :: "int option"
  DiskSmartDevice_MediaErrors :: "int option"
  DiskSmartDevice_FailingAttrs :: "DiskSmartAttr list option"

record DiskSmart =
  DiskSmart_Status :: string
  DiskSmart_UpdatedAt :: "time option"
  DiskSmart_TTLSeconds :: int
  DiskSmart_Devices :: "DiskSmartDevice list option"

record DiskMetrics =
  DiskMetrics_Physical :: "DiskPhysicalMetrics list option"
  DiskMetrics_Logical :: "DiskLogicalMetrics list option"
  DiskMetrics_Filesystems :: "DiskFilesystemMetrics list option"
  DiskMetrics_BaseIO :: "DiskBaseIOMetrics list option"
  DiskMetrics_Smart :: "DiskSmart option"

record NetIOMetrics =
  NetIOMetrics_Name :: string
  NetIOMetrics_BytesRecv :: int
  NetIOMetrics_BytesSent :: int
  NetIOMetrics_RecvRateBytesPerSec :: f64
  NetIOMetrics_SentRateBytesPerSec :: f64
  NetIOMetrics_PacketsRecv :: int
  NetIOMetrics_PacketsSent :: int
  NetIOMetrics_RecvRatePacketsPerSec :: f64
  NetIOMetrics_SentRatePacketsPerSec :: f64
  NetIOMetrics_ErrIn :: int
  NetIOMetrics_ErrOut :: int
  NetIOMetrics_DropIn :: int
  NetIOMetrics_DropOut :: int

record SystemMetrics =
  SystemMetrics_Alive :: bool
  SystemMetrics_UptimeSeconds :: int
  SystemMetrics_Uptime :: string

record ProcessMetrics =
  ProcessMetrics_ProcessCount :: int

record ConnectionMetrics =
  ConnectionMetrics_TCPCount :: int
  ConnectionMetrics_UDPCount :: int

record RaidMember =
  RaidMember_Name :: string
  RaidMember_State :: string

record RaidArray =
  RaidArray_Name :: string
  RaidArray_Status :: string
  RaidArray_Active :: int
  RaidArray_Working :: int
  RaidArray_Failed :: int
  RaidArray_Health :: string
  RaidArray_Members :: "RaidMember list option"
  RaidArray_SyncStatus :: string
  RaidArray_SyncProgress :: string

record RaidMetrics =
  RaidMetrics_Supported :: bool
  RaidMetrics_Available :: bool
  RaidMetrics_Arrays :: "RaidArray list option"

record ThermalSensor =
  ThermalSensor_Kind :: string
  ThermalSensor_Name :: string
  ThermalSensor_SensorKey :: string
  ThermalSensor_Source :: string
  ThermalSensor_Status :: string
  ThermalSensor_TempC :: "f64 option"
  ThermalSensor_HighC :: "f64 option"
  ThermalSensor_CriticalC :: "f64 option"

record Thermal =
  Thermal_Status :: string
  Thermal_UpdatedAt :: "time option"
  Thermal_Sensors :: "ThermalSensor list option"

record PressureStats =
  PressureStats_Avg10 :: f64
  PressureStats_Avg60 :: f64
  PressureStats_Avg300 :: f64
  PressureStats_Total :: int

record PressureResource =
  PressureResource_Some :: "PressureStats option"
  PressureResource_Full :: "PressureStats option"

record Pressure =
  Pressure_CPU :: "PressureResource option"
  Pressure_Memory :: "PressureResource option"
  Pressure_IO :: "PressureResource option"

record Metrics =
  Metrics_CPU :: CPUMetrics
  Metrics_Memory :: MemoryMetrics
  Metrics_Disk :: DiskMetrics
  Metrics_Network :: "NetIOMetrics list option"
  Metrics_System :: SystemMetrics
  Metrics_Processes :: ProcessMetrics
  Metrics_Connections :: ConnectionMetrics
  Metrics_Raid :: RaidMetrics
  Metrics_Thermal :: "Thermal option"
  Metrics_Pressure :: "Pressure option"

record NodeReport =
  NodeReport_Version :: string
  NodeReport_Hostname :: string
  NodeReport_Timestamp :: time
  NodeReport_Metrics :: Metrics
  NodeReport_SentAt :: string
  NodeReport_ServerID :: int
  NodeReport_DisplayOrder :: int

subsection \<open>Views\<close>

record NodeMeta =
  NodeMeta_ID :: string
  NodeMeta_Order :: int
  NodeMeta_Title :: string
  NodeMeta_SearchText :: "string list"
  NodeMeta_Tags :: "string list"

record Observation =
  Observation_ReceivedAt :: string
  Observation_ObservedAt :: string
  Observation_SentAt :: string
  Observation_StaleAfterSec :: int

record System =
  System_OSFamily :: string
  System_Platform :: string
  System_PlatformVersion :: string
  System_KernelVersion :: string
  System_Arch :: string
  System_UptimeText :: string

record CPULoad =
  CPULoad_L1 :: f64
  CPULoad_L5 :: f64
  CPULoad_L15 :: f64

record CPU =
  CPU_UsageRatio :: f64
  CPU_Load :: CPULoad
  CPU_ModelName :: string
  CPU_CoresPhysical :: int
  CPU_CoresLogical :: int
  CPU_Sockets :: int

record Memory =
  Memory_TotalBytes :: int
  Memory_UsedBytes :: int
  Memory_AvailableBytes :: int
  Memory_BuffersBytes :: int
  Memory_CachedBytes :: int
  Memory_UsedRatio :: f64
  Memory_SwapTotalBytes :: int
  Memory_SwapUsedBytes :: int

record DiskMount =
  DiskMount_Mountpoint :: string
  DiskMount_FSType :: string
  DiskMount_TotalBytes :: int
  DiskMount_UsedBytes :: int
  DiskMount_UsedRatio :: f64

record IOTotal =
  IOTotal_ReadBPS :: f64
  IOTotal_WriteBPS :: f64
  IOTotal_ReadIOPS :: f64
  IOTotal_WriteIOPS :: f64
  IOTotal_IOPS :: f64

record DiskIO =
  DiskIO_Total :: IOTotal
  DiskIO_ByDevice :: "(string, IOTotal) gomap"

record Disk =
  Disk_Mounts :: "DiskMount list"
  Disk_IO :: DiskIO
  Disk_TemperatureDevices :: "string list"
  Disk_Smart :: "DiskSmart option"

record NetTotal =
  NetTotal_BytesRecv :: int
  NetTotal_BytesSent :: int
  NetTotal_RecvBPS :: f64
  NetTotal_SentBPS :: f64

record NetInterface =
  NetInterface_Name :: string
  NetInterface_BytesRecv :: int
  NetInterface_BytesSent :: int
  NetInterface_RecvBPS :: f64
  NetInterface_SentBPS :: f64

record Network =
  Network_Total :: NetTotal
  Network_ByInterface :: "NetInterface list"

record Processes =
  Processes_Count :: int

record Connections =
  Connections_TCP :: int
  Connections_UDP :: int

record RAIDArray =
  RAIDArray_Name :: string
  RAIDArray_Status :: string
  RAIDArray_Active :: int
  RAIDArray_Working :: int
  RAIDArray_Failed :: int
  RAIDArray_Health :: string
  RAIDArray_Members :: "RaidMember list option"
  RAIDArray_SyncStatus :: string
  RAIDArray_SyncProgress :: string

record RAID =
  RAID_Supported :: bool
  RAID_Available :: bool
  RAID_Arrays :: "RAIDArray list"

record NodeView =
  NodeView_Node :: NodeMeta
  NodeView_Observation :: Observation
  NodeView_System :: System
  NodeView_CPU :: CPU
  NodeView_Memory :: Memory
  NodeView_Disk :: Disk
  NodeView_Network :: Network
  NodeView_Processes :: Processes
  NodeView_Connections :: Connections
  NodeView_Raid :: "RAID option"
  NodeView_Thermal :: "Thermal option"
  NodeView_Pressure :: "Pressure option"

subsection \<open>Zero values\<close>

text \<open>The value of a Go struct whose fields are not set.\<close>

definition zero_NodeMeta :: NodeMeta where
  "zero_NodeMeta = \<lparr>NodeMeta_ID = [], NodeMeta_Order = 0, NodeMeta_Title = [], NodeMeta_SearchText = [], 
     NodeMeta_Tags = []\<rparr>"

definition zero_Observation :: Observation where
  "zero_Observation = \<lparr>Observation_ReceivedAt = [], Observation_ObservedAt = [], Observation_SentAt = [], 
     Observation_StaleAfterSec = 0\<rparr>"

definition zero_System :: System where
  "zero_System = \<lparr>System_OSFamily = [], System_Platform = [], System_PlatformVersion = [], 
     System_KernelVersion = [], System_Arch = [], System_UptimeText = []\<rparr>"

definition zero_CPULoad :: CPULoad where
  "zero_CPULoad = \<lparr>CPULoad_L1 = f0, CPULoad_L5 = f0, CPULoad_L15 = f0\<rparr>"

definition zero_CPU :: CPU where
  "zero_CPU = \<lparr>CPU_UsageRatio = f0, CPU_Load = zero_CPULoad, CPU_ModelName = [], CPU_CoresPhysical = 0, 
     CPU_CoresLogical = 0, CPU_Sockets = 0\<rparr>"

definition zero_Memory :: Memory where
  "zero_Memory = \<lparr>Memory_TotalBytes = 0, Memory_UsedBytes = 0, Memory_AvailableBytes = 0, 
     Memory_BuffersBytes = 0, Memory_CachedBytes = 0, Memory_UsedRatio = f0, 
     Memory_SwapTotalBytes = 0, Memory_SwapUsedBytes = 0\<rparr>"

definition zero_IOTotal :: IOTotal where
  "zero_IOTotal = \<lparr>IOTotal_ReadBPS = f0, IOTotal_WriteBPS = f0, IOTotal_ReadIOPS = f0, IOTotal_WriteIOPS = f0, 
     IOTotal_IOPS = f0\<rparr>"

definition zero_DiskIO :: DiskIO where
  "zero_DiskIO = \<lparr>DiskIO_Total = zero_IOTotal, DiskIO_ByDevice = []\<rparr>"

definition zero_Disk :: Disk where
  "zero_Disk = \<lparr>Disk_Mounts = [], Disk_IO = zero_DiskIO, Disk_TemperatureDevices = [], Disk_Smart = None\<rparr>"

definition zero_NetTotal :: NetTotal where
  "zero_NetTotal = \<lparr>NetTotal_BytesRecv = 0, NetTotal_BytesSent = 0, NetTotal_RecvBPS = f0, 
     NetTotal_SentBPS = f0\<rparr>"

definition zero_Network :: Network where
  "zero_Network = \<lparr>Network_Total = zero_NetTotal, Network_ByInterface = []\<rparr>"

definition zero_Processes :: Processes where
  "zero_Processes = \<lparr>Processes_Count = 0\<rparr>"

definition zero_Connections :: Connections where
  "zero_Connections = \<lparr>Connections_TCP = 0, Connections_UDP = 0\<rparr>"

definition zero_NodeView :: NodeView where
  "zero_NodeView = \<lparr>NodeView_Node = zero_NodeMeta, NodeView_Observation = zero_Observation, 
     NodeView_System = zero_System, NodeView_CPU = zero_CPU, NodeView_Memory = zero_Memory, 
     NodeView_Disk = zero_Disk, NodeView_Network = zero_Network, 
     NodeView_Processes = zero_Processes, NodeView_Connections = zero_Connections, 
     NodeView_Raid = None, NodeView_Thermal = None, NodeView_Pressure = None\<rparr>"

definition zero_DiskSmartDevice :: DiskSmartDevice where
  "zero_DiskSmartDevice = \<lparr>DiskSmartDevice_Ref = [], DiskSmartDevice_Name = [], DiskSmartDevice_DevicePath = [], 
     DiskSmartDevice_DeviceType = [], DiskSmartDevice_Protocol = [], DiskSmartDevice_Model = [], 
     DiskSmartDevice_Serial = [], DiskSmartDevice_WWN = [], DiskSmartDevice_Source = [], 
     DiskSmartDevice_Status = [], DiskSmartDevice_ExitStatus = None, 
     DiskSmartDevice_Health = None, DiskSmartDevice_TempC = None, 
     DiskSmartDevice_PowerOnHours = None, DiskSmartDevice_LifetimeUsedPercent = None, 
     DiskSmartDevice_CriticalWarning = None, DiskSmartDevice_MediaErrors = None, 
     DiskSmartDevice_FailingAttrs = None\<rparr>"

definition zero_RAIDArray :: RAIDArray where
  "zero_RAIDArray = \<lparr>RAIDArray_Name = [], RAIDArray_Status = [], RAIDArray_Active = 0, RAIDArray_Working = 0, 
     RAIDArray_Failed = 0, RAIDArray_Health = [], RAIDArray_Members = None, 
     RAIDArray_SyncStatus = [], RAIDArray_SyncProgress = []\<rparr>"

definition zero_CPUTimes :: CPUTimes where
  "zero_CPUTimes = \<lparr>CPUTimes_User = f0, CPUTimes_System = f0, CPUTimes_Idle = f0, CPUTimes_Iowait = f0, 
     CPUTimes_Steal = f0\<rparr>"

definition zero_CPUMetrics :: CPUMetrics where
  "zero_CPUMetrics = \<lparr>CPUMetrics_UsageRatio = f0, CPUMetrics_Load1 = f0, CPUMetrics_Load5 = f0, 
     CPUMetrics_Load15 = f0, CPUMetrics_Times = zero_CPUTimes\<rparr>"

definition zero_MemoryMetrics :: MemoryMetrics where
  "zero_MemoryMetrics = \<lparr>MemoryMetrics_Total = 0, MemoryMetrics_Used = 0, MemoryMetrics_Available = 0, 
     MemoryMetrics_Buffers = 0, MemoryMetrics_Cached = 0, MemoryMetrics_UsedRatio = f0, 
     MemoryMetrics_SwapTotal = 0, MemoryMetrics_SwapUsed = 0, MemoryMetrics_SwapFree = 0, 
     MemoryMetrics_SwapUsedRatio = f0\<rparr>"

definition zero_DiskMetrics :: DiskMetrics where
  "zero_DiskMetrics = \<lparr>DiskMetrics_Physical = None, DiskMetrics_Logical = None, DiskMetrics_Filesystems = None, 
     DiskMetrics_BaseIO = None, DiskMetrics_Smart = None\<rparr>"

definition zero_SystemMetrics :: SystemMetrics where
  "zero_SystemMetrics = \<lparr>SystemMetrics_Alive = False, SystemMetrics_UptimeSeconds = 0, SystemMetrics_Uptime = []\<rparr>"

definition zero_ProcessMetrics :: ProcessMetrics where
  "zero_ProcessMetrics = \<lparr>ProcessMetrics_ProcessCount = 0\<rparr>"

definition zero_ConnectionMetrics :: ConnectionMetrics where
  "zero_ConnectionMetrics = \<lparr>ConnectionMetrics_TCPCount = 0, ConnectionMetrics_UDPCount = 0\<rparr>"

definition zero_RaidMetrics :: RaidMetrics where
  "zero_RaidMetrics = \<lparr>RaidMetrics_Supported = False, RaidMetrics_Available = False, RaidMetrics_Arrays = None\<rparr>"

definition zero_Metrics :: Metrics where
  "zero_Metrics = \<lparr>Metrics_CPU = zero_CPUMetrics, Metrics_Memory = zero_MemoryMetrics, 
     Metrics_Disk = zero_DiskMetrics, Metrics_Network = None, Metrics_System = zero_SystemMetrics, 
     Metrics_Processes = zero_ProcessMetrics, Metrics_Connections = zero_ConnectionMetrics, 
     Metrics_Raid = zero_RaidMetrics, Metrics_Thermal = None, Metrics_Pressure = None\<rparr>"

definition zero_NodeReport :: NodeReport where
  "zero_NodeReport = \<lparr>NodeReport_Version = [], NodeReport_Hostname = [], NodeReport_Timestamp = 0, 
     NodeReport_Metrics = zero_Metrics, NodeReport_SentAt = [], NodeReport_ServerID = 0, 
     NodeReport_DisplayOrder = 0\<rparr>"

end
