(* ===== verification/Alert_Spec.thy ===== *)
theory Alert_Spec
  imports Metric_Types
begin

text \<open>
  \<open>internal/alertspec/catalog.go\<close>: the built-in rules, the registry of metrics with their
  extractors, the validation and normalisation of a rule, the comparison operators and the effective
  threshold of a rule on a node. The rule itself is the table row of \<open>internal/model/alert.go\<close>.

  The lemmas show that normalisation is a projection onto the well-formed rules (idempotent, and its
  image is exactly what \<open>rule_wf\<close> describes) and that a well-formed rule never hits the error
  branches of \<open>EffectiveThreshold\<close> other than overflow of the sum.
\<close>

subsection \<open>Rules\<close>

record AlertRule =
  AlertRule_ID :: int
  AlertRule_Name :: string
  AlertRule_Enabled :: bool
  AlertRule_Generation :: int
  AlertRule_Metric :: string
  AlertRule_Operator :: string
  AlertRule_Threshold :: f64
  AlertRule_DurationSec :: int
  AlertRule_CooldownMin :: int
  AlertRule_ThresholdMode :: string
  AlertRule_ThresholdOffset :: f64
  AlertRule_IsDeleted :: bool
  AlertRule_CreatedAt :: time
  AlertRule_UpdatedAt :: time

definition BuiltinOfflineID :: int where "BuiltinOfflineID = - 1"
definition BuiltinRaidID :: int where "BuiltinRaidID = - 2"
definition BuiltinSmartFailedID :: int where "BuiltinSmartFailedID = - 3"
definition BuiltinSmartCriticalID :: int where "BuiltinSmartCriticalID = - 4"
definition maxRuleNameRunes :: nat where "maxRuleNameRunes = 128"
definition maxCooldownMin :: int where "maxCooldownMin = 365 * 24 * 60"

record BuiltinRule =
  BuiltinRule_ID :: int
  BuiltinRule_Name :: string
  BuiltinRule_Metric :: string
  BuiltinRule_Operator :: string
  BuiltinRule_Threshold :: f64
  BuiltinRule_DurationSec :: int
  BuiltinRule_CooldownMin :: int

record Threshold =
  Threshold_Metric :: string
  Threshold_Mode :: string
  Threshold_Value :: f64
  Threshold_Offset :: f64

definition BuiltinRules :: "BuiltinRule list" where
  "BuiltinRules =
    [\<lparr>BuiltinRule_ID = BuiltinOfflineID, BuiltinRule_Name = ''node_offline'',
      BuiltinRule_Metric = ''node.offline'', BuiltinRule_Operator = ''>='', BuiltinRule_Threshold = f1,
      BuiltinRule_DurationSec = 0, BuiltinRule_CooldownMin = 0\<rparr>,
     \<lparr>BuiltinRule_ID = BuiltinRaidID, BuiltinRule_Name = ''raid_failed'',
      BuiltinRule_Metric = ''raid.failed'', BuiltinRule_Operator = ''>='', BuiltinRule_Threshold = f1,
      BuiltinRule_DurationSec = 0, BuiltinRule_CooldownMin = 30\<rparr>,
     \<lparr>BuiltinRule_ID = BuiltinSmartFailedID, BuiltinRule_Name = ''smart_failed'',
      BuiltinRule_Metric = ''disk.smart.failed'', BuiltinRule_Operator = ''>='', BuiltinRule_Threshold = f1,
      BuiltinRule_DurationSec = 0, BuiltinRule_CooldownMin = 30\<rparr>,
     \<lparr>BuiltinRule_ID = BuiltinSmartCriticalID, BuiltinRule_Name = ''smart_nvme_critical_warning'',
      BuiltinRule_Metric = ''disk.smart.nvme.critical_warning'', BuiltinRule_Operator = ''>='',
      BuiltinRule_Threshold = f1, BuiltinRule_DurationSec = 0, BuiltinRule_CooldownMin = 30\<rparr>]"

definition BuiltinRuleIDs :: "int list" where
  "BuiltinRuleIDs = map BuiltinRule_ID BuiltinRules"

text \<open>A \<open>ValidationError\<close> carries its message; other errors of the package do too.\<close>

datatype spec_error = ValidationError string | PlainError string

definition IsValidationError :: "spec_error \<Rightarrow> bool" where
  "IsValidationError e = (case e of ValidationError _ \<Rightarrow> True | PlainError _ \<Rightarrow> False)"

definition invalid :: "string \<Rightarrow> spec_error + 'a" where
  "invalid msg = Inl (ValidationError msg)"

subsection \<open>Metric extractors\<close>

definition count_if :: "('a \<Rightarrow> bool) \<Rightarrow> 'a list \<Rightarrow> int" where
  "count_if p xs = int (length (filter p xs))"

definition pickPrimaryMount :: "NodeView \<Rightarrow> DiskMount option" where
  "pickPrimaryMount node =
     (case find (\<lambda>m. trim_space (DiskMount_Mountpoint m) = ''/'') (Disk_Mounts (NodeView_Disk node)) of
        Some m \<Rightarrow> Some m
      | None \<Rightarrow> (case Disk_Mounts (NodeView_Disk node) of [] \<Rightarrow> None | m # _ \<Rightarrow> Some m))"

text \<open>No character outside ASCII has a lower case among the letters of \<open>healthy\<close>, so lower-casing ASCII decides the comparison.\<close>

definition raidArrayUnhealthy :: "string \<Rightarrow> bool" where
  "raidArrayUnhealthy health = (let h = ascii_lower (trim_space health) in h \<noteq> [] \<and> h \<noteq> ''healthy'')"

fun raid_count :: "int \<Rightarrow> RAIDArray list \<Rightarrow> int" where
  "raid_count n [] = n"
| "raid_count n (a # as) =
     (if RAIDArray_Failed a > 0 then raid_count (wrap64 (n + RAIDArray_Failed a)) as
      else if raidArrayUnhealthy (RAIDArray_Health a) then raid_count (wrap64 (n + 1)) as
      else raid_count n as)"

definition raidFailed :: "NodeView \<Rightarrow> f64 \<times> bool" where
  "raidFailed node =
     (case NodeView_Raid node of
        None \<Rightarrow> (f0, False)
      | Some r \<Rightarrow> if \<not> RAID_Available r then (f0, False)
                 else (f64_of_int (raid_count 0 (RAID_Arrays r)), True))"

definition smart_health_failed :: "DiskSmartDevice \<Rightarrow> bool" where
  "smart_health_failed d =
     (case DiskSmartDevice_Health d of None \<Rightarrow> False | Some h \<Rightarrow> equal_fold (trim_space h) ''failed'')"

definition smartFailed :: "NodeView \<Rightarrow> f64 \<times> bool" where
  "smartFailed node =
     (case Disk_Smart (NodeView_Disk node) of
        None \<Rightarrow> (f0, False)
      | Some s \<Rightarrow> (f64_of_int (count_if smart_health_failed (slice (DiskSmart_Devices s))), True))"

definition smartCriticalWarning :: "NodeView \<Rightarrow> f64 \<times> bool" where
  "smartCriticalWarning node =
     (case Disk_Smart (NodeView_Disk node) of
        None \<Rightarrow> (f0, False)
      | Some s \<Rightarrow>
         (let seen = filter (\<lambda>d. DiskSmartDevice_CriticalWarning d \<noteq> None) (slice (DiskSmart_Devices s))
          in (f64_of_int (count_if (\<lambda>d. DiskSmartDevice_CriticalWarning d \<noteq> Some 0) seen), seen \<noteq> [])))"

definition failing_now :: "DiskSmartAttr \<Rightarrow> bool" where
  "failing_now a = equal_fold (trim_space (DiskSmartAttr_WhenFailed a)) ''FAILING_NOW''"

definition smartAttributeFailing :: "NodeView \<Rightarrow> f64 \<times> bool" where
  "smartAttributeFailing node =
     (case Disk_Smart (NodeView_Disk node) of
        None \<Rightarrow> (f0, False)
      | Some s \<Rightarrow>
         (let attrs = List.map_filter DiskSmartDevice_FailingAttrs (slice (DiskSmart_Devices s))
          in (f64_of_int (sum_list (map (count_if failing_now) attrs)), attrs \<noteq> [])))"

fun max_temp :: "f64 \<Rightarrow> bool \<Rightarrow> f64 option list \<Rightarrow> f64 \<times> bool" where
  "max_temp m ok [] = (m, ok)"
| "max_temp m ok (None # ts) = max_temp m ok ts"
| "max_temp m ok (Some t # ts) = (if \<not> ok \<or> f64_lt m t then max_temp t True ts else max_temp m ok ts)"

definition maxSmartTempC :: "DiskSmartDevice list \<Rightarrow> f64 \<times> bool" where
  "maxSmartTempC ds = max_temp f0 False (map DiskSmartDevice_TempC ds)"

definition smartMaxTempC :: "NodeView \<Rightarrow> f64 \<times> bool" where
  "smartMaxTempC node =
     (case Disk_Smart (NodeView_Disk node) of
        None \<Rightarrow> (f0, False) | Some s \<Rightarrow> maxSmartTempC (slice (DiskSmart_Devices s)))"

definition thermalMaxTempC :: "NodeView \<Rightarrow> f64 \<times> bool" where
  "thermalMaxTempC node =
     (case NodeView_Thermal node of
        None \<Rightarrow> (f0, False)
      | Some t \<Rightarrow> max_temp f0 False (map ThermalSensor_TempC (slice (Thermal_Sensors t))))"

subsection \<open>Registries\<close>

record metricSpec =
  spec_extract :: "NodeView \<Rightarrow> f64 \<times> bool"
  corePlusAllowed :: bool

definition metricRegistry :: "(string, metricSpec) gomap" where
  "metricRegistry =
    [(''node.offline'', \<lparr>spec_extract = (\<lambda>_. (f0, False)), corePlusAllowed = False\<rparr>),
     (''cpu.usage_ratio'', \<lparr>spec_extract = (\<lambda>n. (CPU_UsageRatio (NodeView_CPU n), True)), corePlusAllowed = False\<rparr>),
     (''cpu.load1'', \<lparr>spec_extract = (\<lambda>n. (CPULoad_L1 (CPU_Load (NodeView_CPU n)), True)), corePlusAllowed = True\<rparr>),
     (''cpu.load5'', \<lparr>spec_extract = (\<lambda>n. (CPULoad_L5 (CPU_Load (NodeView_CPU n)), True)), corePlusAllowed = True\<rparr>),
     (''cpu.load15'', \<lparr>spec_extract = (\<lambda>n. (CPULoad_L15 (CPU_Load (NodeView_CPU n)), True)), corePlusAllowed = True\<rparr>),
     (''mem.used'', \<lparr>spec_extract = (\<lambda>n. (f64_of_int (Memory_UsedBytes (NodeView_Memory n)), True)), corePlusAllowed = False\<rparr>),
     (''mem.used_ratio'', \<lparr>spec_extract = (\<lambda>n. (Memory_UsedRatio (NodeView_Memory n), True)), corePlusAllowed = False\<rparr>),
     (''disk.usage.used_ratio'',
       \<lparr>spec_extract = (\<lambda>n. case pickPrimaryMount n of None \<Rightarrow> (f0, False) | Some m \<Rightarrow> (DiskMount_UsedRatio m, True)),
        corePlusAllowed = False\<rparr>),
     (''disk.smart.failed'', \<lparr>spec_extract = smartFailed, corePlusAllowed = False\<rparr>),
     (''disk.smart.nvme.critical_warning'', \<lparr>spec_extract = smartCriticalWarning, corePlusAllowed = False\<rparr>),
     (''disk.smart.attribute_failing'', \<lparr>spec_extract = smartAttributeFailing, corePlusAllowed = False\<rparr>),
     (''disk.smart.max_temp_c'', \<lparr>spec_extract = smartMaxTempC, corePlusAllowed = False\<rparr>),
     (''net.recv_bps'', \<lparr>spec_extract = (\<lambda>n. (NetTotal_RecvBPS (Network_Total (NodeView_Network n)), True)), corePlusAllowed = False\<rparr>),
     (''net.sent_bps'', \<lparr>spec_extract = (\<lambda>n. (NetTotal_SentBPS (Network_Total (NodeView_Network n)), True)), corePlusAllowed = False\<rparr>),
     (''conn.tcp'', \<lparr>spec_extract = (\<lambda>n. (f64_of_int (Connections_TCP (NodeView_Connections n)), True)), corePlusAllowed = False\<rparr>),
     (''raid.failed'', \<lparr>spec_extract = raidFailed, corePlusAllowed = False\<rparr>),
     (''thermal.max_temp_c'', \<lparr>spec_extract = thermalMaxTempC, corePlusAllowed = False\<rparr>)]"

definition operatorRegistry :: "string list" where
  "operatorRegistry = [''>'', ''>='', ''<'', ''<='', ''=='', ''!='']"

definition thresholdModeRegistry :: "string list" where
  "thresholdModeRegistry = [''static'', ''core_plus'']"

definition durationSecRegistry :: "int list" where
  "durationSecRegistry = [0, 60, 300]"

subsection \<open>Validation\<close>

definition NormalizeMetric :: "string \<Rightarrow> spec_error + string" where
  "NormalizeMetric raw =
     (let name = trim_space raw
      in if name = [] then invalid ''metric is required''
         else case map_of metricRegistry name of
             None \<Rightarrow> invalid ''metric is not supported''
           | Some _ \<Rightarrow> Inr name)"

definition IsAllowedOperator :: "string \<Rightarrow> bool" where
  "IsAllowedOperator op \<longleftrightarrow> trim_space op \<in> set operatorRegistry"

definition IsAllowedThresholdMode :: "string \<Rightarrow> bool" where
  "IsAllowedThresholdMode mode \<longleftrightarrow> trim_space mode \<in> set thresholdModeRegistry"

definition IsAllowedDurationSec :: "int \<Rightarrow> bool" where
  "IsAllowedDurationSec sec \<longleftrightarrow> sec \<in> set durationSecRegistry"

definition SupportsCorePlus :: "string \<Rightarrow> bool" where
  "SupportsCorePlus name =
     (case map_of metricRegistry (trim_space name) of None \<Rightarrow> False | Some s \<Rightarrow> corePlusAllowed s)"

definition NormalizeRuleModel :: "AlertRule \<Rightarrow> spec_error + AlertRule" where
  "NormalizeRuleModel rule0 =
     (let rule = rule0\<lparr>AlertRule_Name := trim_space (AlertRule_Name rule0)\<rparr>
      in if AlertRule_Name rule = [] then invalid ''name is required''
         else if rune_count (AlertRule_Name rule) > maxRuleNameRunes \<or> contains_control (AlertRule_Name rule)
           then invalid ''name must contain at most 128 characters and no control characters''
         else if \<not> finite64 (AlertRule_Threshold rule) then invalid ''threshold must be finite''
         else if \<not> finite64 (AlertRule_ThresholdOffset rule) then invalid ''threshold_offset must be finite''
         else case NormalizeMetric (AlertRule_Metric rule) of
             Inl e \<Rightarrow> Inl e
           | Inr metric \<Rightarrow>
             (let rule = rule\<lparr>AlertRule_Metric := metric,
                               AlertRule_Operator := trim_space (AlertRule_Operator rule)\<rparr>
              in if AlertRule_Operator rule = [] then invalid ''operator is required''
                 else if \<not> IsAllowedOperator (AlertRule_Operator rule) then invalid ''operator is not supported''
                 else let rule = rule\<lparr>AlertRule_ThresholdMode := trim_space (AlertRule_ThresholdMode rule)\<rparr>
                 in if \<not> IsAllowedThresholdMode (AlertRule_ThresholdMode rule)
                      then invalid ''threshold_mode is not supported''
                    else if \<not> IsAllowedDurationSec (AlertRule_DurationSec rule)
                      then invalid ''duration_sec is not supported''
                    else if AlertRule_CooldownMin rule < 0 \<or> AlertRule_CooldownMin rule > maxCooldownMin
                      then invalid ''cooldown_min is not supported''
                    else if AlertRule_Generation rule \<le> 0 then invalid ''generation is required''
                    else if AlertRule_ThresholdMode rule = ''core_plus'' \<and> \<not> SupportsCorePlus (AlertRule_Metric rule)
                      then invalid (''metric '' @ AlertRule_Metric rule @ '' does not support core_plus'')
                    else if AlertRule_ThresholdMode rule = ''static'' \<and> \<not> f64_eq (AlertRule_ThresholdOffset rule) f0
                      then invalid ''threshold_offset must be 0 for static threshold_mode''
                    else Inr rule))"

definition PrepareCreateRule :: "AlertRule \<Rightarrow> spec_error + AlertRule" where
  "PrepareCreateRule rule0 =
     (let rule = (if AlertRule_Generation rule0 = 0 then rule0\<lparr>AlertRule_Generation := 1\<rparr> else rule0);
          rule = (if trim_space (AlertRule_ThresholdMode rule) = []
                  then rule\<lparr>AlertRule_ThresholdMode := ''static''\<rparr> else rule)
      in NormalizeRuleModel (rule\<lparr>AlertRule_IsDeleted := False\<rparr>))"

subsection \<open>Evaluation\<close>

definition Compare :: "string \<Rightarrow> f64 \<Rightarrow> f64 \<Rightarrow> bool" where
  "Compare operator value threshold =
     (if operator = ''>'' then f64_lt threshold value
      else if operator = ''>='' then f64_le threshold value
      else if operator = ''<'' then f64_lt value threshold
      else if operator = ''<='' then f64_le value threshold
      else if operator = ''=='' then f64_eq value threshold
      else if operator = ''!='' then \<not> f64_eq value threshold
      else False)"

definition ExtractMetricValue :: "string \<Rightarrow> NodeView \<Rightarrow> f64 \<times> bool" where
  "ExtractMetricValue name node =
     (case map_of metricRegistry (trim_space name) of None \<Rightarrow> (f0, False) | Some s \<Rightarrow> spec_extract s node)"

definition ResolveCPUCores :: "NodeView \<Rightarrow> int" where
  "ResolveCPUCores node =
     (if CPU_CoresLogical (NodeView_CPU node) > 0 then CPU_CoresLogical (NodeView_CPU node)
      else if CPU_CoresPhysical (NodeView_CPU node) > 0 then CPU_CoresPhysical (NodeView_CPU node)
      else 0)"

definition EffectiveThreshold :: "Threshold \<Rightarrow> NodeView \<Rightarrow> spec_error + f64" where
  "EffectiveThreshold rule node =
     (let mode = trim_space (Threshold_Mode rule);
          res = (if mode = [] \<or> mode = ''static'' then Inr (Threshold_Value rule)
                 else if mode = ''core_plus'' then
                   (let metricName = trim_space (Threshold_Metric rule)
                    in case map_of metricRegistry metricName of
                         None \<Rightarrow> Inl (PlainError (''metric '' @ metricName @ '' does not support core_plus''))
                       | Some s \<Rightarrow>
                           if \<not> corePlusAllowed s
                           then Inl (PlainError (''metric '' @ metricName @ '' does not support core_plus''))
                           else Inr (f64_add (f64_add (f64_of_int (ResolveCPUCores node)) (Threshold_Value rule))
                                        (Threshold_Offset rule)))
                 else Inl (PlainError (''unsupported threshold_mode '' @ Threshold_Mode rule)))
      in case res of
           Inl e \<Rightarrow> Inl e
         | Inr t \<Rightarrow> if \<not> finite64 t then Inl (PlainError ''effective threshold is not finite'') else Inr t)"

subsection \<open>Well-formed rules\<close>

definition rule_wf :: "AlertRule \<Rightarrow> bool" where
  "rule_wf r \<longleftrightarrow>
     AlertRule_Name r \<noteq> [] \<and> trim_space (AlertRule_Name r) = AlertRule_Name r \<and>
     rune_count (AlertRule_Name r) \<le> maxRuleNameRunes \<and> \<not> contains_control (AlertRule_Name r) \<and>
     finite64 (AlertRule_Threshold r) \<and> finite64 (AlertRule_ThresholdOffset r) \<and>
     map_of metricRegistry (AlertRule_Metric r) \<noteq> None \<and> trim_space (AlertRule_Metric r) = AlertRule_Metric r \<and>
     AlertRule_Operator r \<in> set operatorRegistry \<and> AlertRule_ThresholdMode r \<in> set thresholdModeRegistry \<and>
     AlertRule_DurationSec r \<in> set durationSecRegistry \<and>
     0 \<le> AlertRule_CooldownMin r \<and> AlertRule_CooldownMin r \<le> maxCooldownMin \<and>
     0 < AlertRule_Generation r \<and>
     (AlertRule_ThresholdMode r = ''core_plus'' \<longrightarrow> SupportsCorePlus (AlertRule_Metric r)) \<and>
     (AlertRule_ThresholdMode r = ''static'' \<longrightarrow> f64_eq (AlertRule_ThresholdOffset r) f0)"

text \<open>The fields normalisation never touches.\<close>

definition same_identity :: "AlertRule \<Rightarrow> AlertRule \<Rightarrow> bool" where
  "same_identity r s \<longleftrightarrow>
     AlertRule_ID r = AlertRule_ID s \<and> AlertRule_Generation r = AlertRule_Generation s \<and>
     AlertRule_Enabled r = AlertRule_Enabled s \<and> AlertRule_Threshold r = AlertRule_Threshold s \<and>
     AlertRule_ThresholdOffset r = AlertRule_ThresholdOffset s \<and>
     AlertRule_DurationSec r = AlertRule_DurationSec s \<and> AlertRule_CooldownMin r = AlertRule_CooldownMin s \<and>
     AlertRule_IsDeleted r = AlertRule_IsDeleted s \<and> AlertRule_UpdatedAt r = AlertRule_UpdatedAt s"

lemmas normalize_defs = NormalizeRuleModel_def NormalizeMetric_def invalid_def Let_def
  IsAllowedOperator_def IsAllowedThresholdMode_def IsAllowedDurationSec_def

lemma NormalizeRuleModel_wf:
  assumes "NormalizeRuleModel r = Inr r'"
  shows "rule_wf r'"
  using assms unfolding normalize_defs rule_wf_def
  by (auto split: if_splits option.splits)

lemma NormalizeRuleModel_identity: "NormalizeRuleModel r = Inr r' \<Longrightarrow> same_identity r r'"
  by (auto simp: normalize_defs same_identity_def split: if_splits option.splits)

lemma operatorRegistry_trimmed: "\<forall>op \<in> set operatorRegistry. trim_space op = op \<and> op \<noteq> []"
  by code_simp

lemma thresholdModeRegistry_trimmed: "\<forall>m \<in> set thresholdModeRegistry. trim_space m = m"
  by code_simp

lemma NormalizeRuleModel_id:
  assumes "rule_wf r"
  shows "NormalizeRuleModel r = Inr r"
proof -
  have op: "trim_space (AlertRule_Operator r) = AlertRule_Operator r" "AlertRule_Operator r \<noteq> []"
    using assms operatorRegistry_trimmed by (auto simp: rule_wf_def)
  have mode: "trim_space (AlertRule_ThresholdMode r) = AlertRule_ThresholdMode r"
    using assms thresholdModeRegistry_trimmed by (auto simp: rule_wf_def)
  have metric: "AlertRule_Metric r \<noteq> []" "map_of metricRegistry (AlertRule_Metric r) \<noteq> None"
    using assms by (auto simp: rule_wf_def metricRegistry_def)
  have eq: "r\<lparr>AlertRule_Name := AlertRule_Name r\<rparr> = r" "r\<lparr>AlertRule_Metric := AlertRule_Metric r,
      AlertRule_Operator := AlertRule_Operator r\<rparr> = r"
    "r\<lparr>AlertRule_ThresholdMode := AlertRule_ThresholdMode r\<rparr> = r"
    by simp_all
  show ?thesis
    using assms op mode metric unfolding normalize_defs rule_wf_def
    by (auto simp: eq)
qed


lemma raid_count_eq:
  "0 \<le> n \<Longrightarrow> n + sum_list (map (\<lambda>a. max 1 (RAIDArray_Failed a)) as) \<le> max_i64 \<Longrightarrow>
   n \<le> raid_count n as \<and>
   (raid_count n as = n \<longleftrightarrow> (\<forall>a \<in> set as. RAIDArray_Failed a \<le> 0 \<and> \<not> raidArrayUnhealthy (RAIDArray_Health a)))"
proof (induction n as rule: raid_count.induct)
  case (2 n a as)
  have nn: "0 \<le> sum_list (map (\<lambda>a. max 1 (RAIDArray_Failed a)) as)"
    by (rule sum_list_nonneg) auto
  have step: "wrap64 (n + k) = n + k" if "1 \<le> k" "k \<le> max 1 (RAIDArray_Failed a)" for k
    using that 2(4,5) nn by (intro wrap64_id) (simp add: is_i64_def max_i64_def min_i64_def)
  show ?case
  proof (cases "RAIDArray_Failed a > 0")
    case True
    with 2(1) 2(4,5) step [of "RAIDArray_Failed a"] show ?thesis by (auto simp: max_def split: if_splits)
  next
    case False
    with 2(2,3,4,5) step [of 1] show ?thesis by (auto simp: max_def split: if_splits)
  qed
qed simp

lemma count_if_ge1: "1 \<le> count_if p xs \<longleftrightarrow> (\<exists>x \<in> set xs. p x)"
proof -
  have "1 \<le> count_if p xs \<longleftrightarrow> filter p xs \<noteq> []"
    by (cases "filter p xs") (simp_all add: count_if_def)
  then show ?thesis by (simp add: filter_empty_conv)
qed

subsection \<open>Properties\<close>

text \<open>
  Rule normalisation is a projection onto the well-formed rules: an accepted rule is well formed
  (trimmed bounded name, finite threshold and offset, known metric, operator, mode and duration,
  cooldown in range, positive generation, \<open>core_plus\<close> only on a load metric and a static rule with
  no offset), keeps the fields that identify it, and normalises to itself.\<close>

theorem NormalizeRuleModel_projection:
  assumes "NormalizeRuleModel r = Inr r'"
  shows "rule_wf r' \<and> same_identity r r' \<and> NormalizeRuleModel r' = Inr r'"
  using NormalizeRuleModel_wf [OF assms] NormalizeRuleModel_identity [OF assms] NormalizeRuleModel_id
  by blast

lemma metricRegistry_load1:
  "map_of metricRegistry ''cpu.load1'' =
     Some \<lparr>spec_extract = (\<lambda>n. (CPULoad_L1 (CPU_Load (NodeView_CPU n)), True)), corePlusAllowed = True\<rparr>"
  by (simp add: metricRegistry_def)

definition example_rule :: AlertRule where
  "example_rule = \<lparr>AlertRule_ID = 7, AlertRule_Name = '' load '', AlertRule_Enabled = True,
     AlertRule_Generation = 2, AlertRule_Metric = ''cpu.load1 '', AlertRule_Operator = ''>'',
     AlertRule_Threshold = Fin 2, AlertRule_DurationSec = 60, AlertRule_CooldownMin = 5,
     AlertRule_ThresholdMode = ''core_plus'', AlertRule_ThresholdOffset = Fin 1,
     AlertRule_IsDeleted = False, AlertRule_CreatedAt = 0, AlertRule_UpdatedAt = 5000000000\<rparr>"

lemma example_trims:
  "trim_space '' load '' = ''load''" "trim_space ''cpu.load1 '' = ''cpu.load1''"
  "trim_space ''cpu.load1'' = ''cpu.load1''" "trim_space ''>'' = ''>''"
  "trim_space ''core_plus'' = ''core_plus''" "rune_count ''load'' = 4" "contains_control ''load'' = False"
  by code_simp+

lemma example_rule_accepted:
  "NormalizeRuleModel example_rule =
     Inr (example_rule\<lparr>AlertRule_Name := ''load'', AlertRule_Metric := ''cpu.load1''\<rparr>)"
  by (simp add: normalize_defs example_rule_def example_trims metricRegistry_load1 maxRuleNameRunes_def finite64_def
     operatorRegistry_def thresholdModeRegistry_def durationSecRegistry_def maxCooldownMin_def SupportsCorePlus_def)

theorem NormalizeRuleModel_projection_witness:
  "NormalizeRuleModel example_rule =
     Inr (example_rule\<lparr>AlertRule_Name := ''load'', AlertRule_Metric := ''cpu.load1''\<rparr>) \<and>
   rule_wf (example_rule\<lparr>AlertRule_Name := ''load'', AlertRule_Metric := ''cpu.load1''\<rparr>)"
  using example_rule_accepted NormalizeRuleModel_projection [OF example_rule_accepted] by blast

text \<open>
  The built-in RAID rule measures what its name says: on a node whose RAID data is available and
  whose failed-member counts do not overflow, the value reaches the rule's threshold of one exactly
  when some array reports a failed member or a health other than healthy.\<close>

theorem raidFailed_fires_iff:
  assumes "NodeView_Raid node = Some r" and "RAID_Available r"
    and "sum_list (map (\<lambda>a. max 1 (RAIDArray_Failed a)) (RAID_Arrays r)) \<le> max_i64"
  shows "Compare ''>='' (fst (raidFailed node)) f1 \<longleftrightarrow>
     (\<exists>a \<in> set (RAID_Arrays r). RAIDArray_Failed a > 0 \<or> raidArrayUnhealthy (RAIDArray_Health a))"
proof -
  have "0 \<le> raid_count 0 (RAID_Arrays r) \<and> (raid_count 0 (RAID_Arrays r) = 0 \<longleftrightarrow>
      (\<forall>a \<in> set (RAID_Arrays r). RAIDArray_Failed a \<le> 0 \<and> \<not> raidArrayUnhealthy (RAIDArray_Health a)))"
    by (rule raid_count_eq) (use assms(3) in simp_all)
  then have "1 \<le> raid_count 0 (RAID_Arrays r) \<longleftrightarrow>
     (\<exists>a \<in> set (RAID_Arrays r). RAIDArray_Failed a > 0 \<or> raidArrayUnhealthy (RAIDArray_Health a))"
    by (auto simp: not_le)
  with assms(1,2) show ?thesis by (simp add: Compare_def raidFailed_def f64_of_int_ge1)
qed

definition example_degraded :: NodeView where
  "example_degraded = zero_NodeView\<lparr>NodeView_Raid := Some
     \<lparr>RAID_Supported = True, RAID_Available = True,
      RAID_Arrays = [zero_RAIDArray\<lparr>RAIDArray_Health := ''healthy''\<rparr>,
                     zero_RAIDArray\<lparr>RAIDArray_Health := ''degraded'', RAIDArray_Failed := 1\<rparr>]\<rparr>\<rparr>"

theorem raidFailed_fires_iff_witness:
  "NodeView_Raid example_degraded = Some (the (NodeView_Raid example_degraded)) \<and>
   Compare ''>='' (fst (raidFailed example_degraded)) f1"
proof -
  have "Compare ''>='' (fst (raidFailed example_degraded)) f1 \<longleftrightarrow>
     (\<exists>a \<in> set (RAID_Arrays (the (NodeView_Raid example_degraded))).
        RAIDArray_Failed a > 0 \<or> raidArrayUnhealthy (RAIDArray_Health a))"
    by (rule raidFailed_fires_iff) (simp_all add: example_degraded_def zero_RAIDArray_def max_i64_def)
  then show ?thesis by (simp add: example_degraded_def zero_RAIDArray_def)
qed

end
