(* ===== verification/Alert_Compiler.thy ===== *)
theory Alert_Compiler
  imports Alert_Spec "HOL-Library.Product_Lexorder" "HOL-Library.Multiset"
begin

text \<open>
  \<open>internal/alert/compiler.go\<close>: turning the rows of \<open>alert_rules\<close> and the built-in rules into the
  compiled rule set the engine evaluates, and selecting the rules mounted on one server.

  A JSON document is represented by the value it encodes, so a compiled rule carries its
  \<open>RuleSnapshot\<close> itself (\<open>None\<close> for an empty document); \<open>json.Marshal\<close> fails exactly on a
  number that is not finite. \<open>sort.Slice\<close> is a stable sort by rule id and generation; the id is the
  primary key of the table, so the order of rows with equal keys is never observed.
\<close>

subsection \<open>Data\<close>

record RuleSnapshot =
  RuleSnapshot_RuleID :: int
  RuleSnapshot_Generation :: int
  RuleSnapshot_Builtin :: bool
  RuleSnapshot_Name :: string
  RuleSnapshot_Metric :: string
  RuleSnapshot_Operator :: string
  RuleSnapshot_Threshold :: f64
  RuleSnapshot_DurationSec :: int
  RuleSnapshot_CooldownMin :: int
  RuleSnapshot_ThresholdMode :: string
  RuleSnapshot_ThresholdOffset :: f64
  RuleSnapshot_UpdatedAt :: string

record InvalidRule =
  InvalidRule_RuleID :: int
  InvalidRule_Generation :: int
  InvalidRule_Reason :: string

record CompiledRule =
  RuleID :: int
  Builtin :: bool
  RuleName :: string
  Generation :: int
  Metric :: string
  Operator :: string
  RuleThreshold :: f64
  DurationSec :: int
  CooldownMin :: int
  ThresholdMode :: string
  ThresholdOffset :: f64
  GenerationUpdatedAt :: time
  snapshotRaw :: "RuleSnapshot option"

record CompiledRules =
  Rules :: "CompiledRule list"
  ByStateKey :: "(string, CompiledRule) gomap"
  Invalid :: "InvalidRule list"
  RefreshedAt :: time

subsection \<open>Operations\<close>

definition ruleStateKey :: "int \<Rightarrow> int \<Rightarrow> string" where
  "ruleStateKey ruleID generation = dec_int ruleID @ '':'' @ dec_int generation"

definition StateKey :: "CompiledRule \<Rightarrow> string" where
  "StateKey r = ruleStateKey (RuleID r) (Generation r)"

definition snapshotJSON :: "CompiledRule \<Rightarrow> spec_error + RuleSnapshot" where
  "snapshotJSON r =
     (case snapshotRaw r of
        None \<Rightarrow> Inl (PlainError (''rule '' @ dec_int (RuleID r) @ '' generation '' @ dec_int (Generation r)
                     @ '' has no compiled snapshot''))
      | Some raw \<Rightarrow> Inr raw)"

definition encodeRuleSnapshot :: "RuleSnapshot \<Rightarrow> spec_error + RuleSnapshot" where
  "encodeRuleSnapshot s =
     (if finite64 (RuleSnapshot_Threshold s) \<and> finite64 (RuleSnapshot_ThresholdOffset s) then Inr s
      else Inl (PlainError ''encode rule snapshot: json: unsupported value''))"

definition error_text :: "spec_error \<Rightarrow> string" where
  "error_text e = (case e of ValidationError m \<Rightarrow> m | PlainError m \<Rightarrow> m)"

definition invalidRule :: "AlertRule \<Rightarrow> spec_error \<Rightarrow> InvalidRule" where
  "invalidRule item e = \<lparr>InvalidRule_RuleID = AlertRule_ID item,
     InvalidRule_Generation = AlertRule_Generation item, InvalidRule_Reason = error_text e\<rparr>"

definition compileRule :: "AlertRule \<Rightarrow> InvalidRule + CompiledRule" where
  "compileRule item =
     (case NormalizeRuleModel item of
        Inl e \<Rightarrow> Inl (invalidRule item e)
      | Inr normalized \<Rightarrow>
        (let updatedAt = AlertRule_UpdatedAt normalized;
             snapshot = \<lparr>RuleSnapshot_RuleID = AlertRule_ID normalized,
               RuleSnapshot_Generation = AlertRule_Generation normalized, RuleSnapshot_Builtin = False,
               RuleSnapshot_Name = AlertRule_Name normalized, RuleSnapshot_Metric = AlertRule_Metric normalized,
               RuleSnapshot_Operator = AlertRule_Operator normalized,
               RuleSnapshot_Threshold = AlertRule_Threshold normalized,
               RuleSnapshot_DurationSec = AlertRule_DurationSec normalized,
               RuleSnapshot_CooldownMin = AlertRule_CooldownMin normalized,
               RuleSnapshot_ThresholdMode = AlertRule_ThresholdMode normalized,
               RuleSnapshot_ThresholdOffset = AlertRule_ThresholdOffset normalized,
               RuleSnapshot_UpdatedAt = format_rfc3339_utc updatedAt\<rparr>
         in case encodeRuleSnapshot snapshot of
              Inl e \<Rightarrow> Inl (invalidRule item e)
            | Inr raw \<Rightarrow>
                Inr \<lparr>RuleID = AlertRule_ID normalized, Builtin = False, RuleName = AlertRule_Name normalized,
                  Generation = AlertRule_Generation normalized, Metric = AlertRule_Metric normalized,
                  Operator = AlertRule_Operator normalized, RuleThreshold = AlertRule_Threshold normalized,
                  DurationSec = AlertRule_DurationSec normalized, CooldownMin = AlertRule_CooldownMin normalized,
                  ThresholdMode = AlertRule_ThresholdMode normalized,
                  ThresholdOffset = AlertRule_ThresholdOffset normalized,
                  GenerationUpdatedAt = updatedAt, snapshotRaw = Some raw\<rparr>))"

definition builtinRule :: "BuiltinRule \<Rightarrow> time \<Rightarrow> spec_error + CompiledRule" where
  "builtinRule spec updatedAt =
     (let snapshot = \<lparr>RuleSnapshot_RuleID = BuiltinRule_ID spec, RuleSnapshot_Generation = 1,
            RuleSnapshot_Builtin = True, RuleSnapshot_Name = BuiltinRule_Name spec,
            RuleSnapshot_Metric = BuiltinRule_Metric spec, RuleSnapshot_Operator = BuiltinRule_Operator spec,
            RuleSnapshot_Threshold = BuiltinRule_Threshold spec,
            RuleSnapshot_DurationSec = BuiltinRule_DurationSec spec,
            RuleSnapshot_CooldownMin = BuiltinRule_CooldownMin spec,
            RuleSnapshot_ThresholdMode = ''static'', RuleSnapshot_ThresholdOffset = f0,
            RuleSnapshot_UpdatedAt = format_rfc3339_utc updatedAt\<rparr>
      in case encodeRuleSnapshot snapshot of
           Inl e \<Rightarrow> Inl e
         | Inr raw \<Rightarrow>
             Inr \<lparr>RuleID = BuiltinRule_ID spec, Builtin = True, RuleName = BuiltinRule_Name spec,
               Generation = 1, Metric = BuiltinRule_Metric spec, Operator = BuiltinRule_Operator spec,
               RuleThreshold = BuiltinRule_Threshold spec, DurationSec = BuiltinRule_DurationSec spec,
               CooldownMin = BuiltinRule_CooldownMin spec, ThresholdMode = ''static'', ThresholdOffset = f0,
               GenerationUpdatedAt = updatedAt, snapshotRaw = Some raw\<rparr>)"

definition unix_zero :: time where "unix_zero = unix_epoch * second_ns"

fun compile_builtins :: "BuiltinRule list \<Rightarrow> spec_error + CompiledRule list" where
  "compile_builtins [] = Inr []"
| "compile_builtins (spec # specs) =
     (case builtinRule spec unix_zero of
        Inl e \<Rightarrow> Inl (PlainError (''compile builtin rule '' @ dec_int (BuiltinRule_ID spec) @ '': '' @ error_text e))
      | Inr rule \<Rightarrow> (case compile_builtins specs of Inl e \<Rightarrow> Inl e | Inr rules \<Rightarrow> Inr (rule # rules)))"

definition builtinRules :: "spec_error + CompiledRule list" where
  "builtinRules = compile_builtins BuiltinRules"

definition add_rule :: "CompiledRules \<Rightarrow> CompiledRule \<Rightarrow> CompiledRules" where
  "add_rule r rule = r\<lparr>Rules := Rules r @ [rule], ByStateKey := AList.update (StateKey rule) rule (ByStateKey r)\<rparr>"

definition compile_item :: "CompiledRules \<Rightarrow> AlertRule \<Rightarrow> CompiledRules" where
  "compile_item out item =
     (if AlertRule_IsDeleted item \<or> \<not> AlertRule_Enabled item then out
      else case compileRule item of
             Inl bad \<Rightarrow> out\<lparr>Invalid := Invalid out @ [bad]\<rparr>
           | Inr rule \<Rightarrow> add_rule out rule)"

definition rule_order :: "CompiledRule \<Rightarrow> int \<times> int" where
  "rule_order r = (RuleID r, Generation r)"

definition CompileRules :: "AlertRule list \<Rightarrow> time \<Rightarrow> spec_error + CompiledRules" where
  "CompileRules items refreshedAt =
     (case builtinRules of
        Inl e \<Rightarrow> Inl e
      | Inr builtins \<Rightarrow>
        (let out = \<lparr>Rules = [], ByStateKey = [], Invalid = [], RefreshedAt = refreshedAt\<rparr>;
             out = foldl add_rule out builtins;
             out = foldl compile_item out items
         in Inr (out\<lparr>Rules := sort_key rule_order (Rules out)\<rparr>)))"

definition ruleMounted :: "CompiledRule \<Rightarrow> (int, bool) gomap \<Rightarrow> bool" where
  "ruleMounted rule mounts =
     (case map_of mounts (RuleID rule) of Some enabled \<Rightarrow> enabled | None \<Rightarrow> Builtin rule)"

definition mount_rule :: "(int, bool) gomap \<Rightarrow> CompiledRules \<Rightarrow> CompiledRule \<Rightarrow> CompiledRules" where
  "mount_rule mounts out rule =
     (let out = out\<lparr>ByStateKey := AList.update (StateKey rule) rule (ByStateKey out)\<rparr>
      in if ruleMounted rule mounts then out\<lparr>Rules := Rules out @ [rule]\<rparr> else out)"

definition ForMounts :: "CompiledRules \<Rightarrow> (int, bool) gomap \<Rightarrow> CompiledRules" where
  "ForMounts r mounts =
     foldl (mount_rule mounts)
       \<lparr>Rules = [], ByStateKey = [], Invalid = Invalid r, RefreshedAt = RefreshedAt r\<rparr> (Rules r)"

subsection \<open>State keys\<close>

lemma ruleStateKey_inject: "ruleStateKey i g = ruleStateKey j h \<longleftrightarrow> i = j \<and> g = h"
  using append_sep_inject [OF colon_not_in_dec_int [of i] colon_not_in_dec_int [of j]]
  by (simp add: ruleStateKey_def)

lemma StateKey_eq: "StateKey r = StateKey s \<longleftrightarrow> rule_order r = rule_order s"
  by (simp add: StateKey_def rule_order_def ruleStateKey_inject)

subsection \<open>The compiled set\<close>

lemma compile_builtins_Inr:
  "list_all (\<lambda>s. finite64 (BuiltinRule_Threshold s)) specs \<Longrightarrow>
   \<exists>rules. compile_builtins specs = Inr rules \<and> map RuleID rules = map BuiltinRule_ID specs
     \<and> list_all Builtin rules \<and> list_all (\<lambda>r. Generation r = 1) rules"
  by (induction specs) (auto simp: builtinRule_def encodeRuleSnapshot_def Let_def finite64_def)

lemma builtinRules_Inr:
  "\<exists>rules. builtinRules = Inr rules \<and> map RuleID rules = BuiltinRuleIDs
     \<and> list_all Builtin rules \<and> list_all (\<lambda>r. Generation r = 1) rules"
  unfolding builtinRules_def BuiltinRuleIDs_def
  by (rule compile_builtins_Inr) (simp add: BuiltinRules_def finite64_def)

definition builtin_compiled :: "CompiledRule list" where
  "builtin_compiled = (case builtinRules of Inr rs \<Rightarrow> rs | Inl _ \<Rightarrow> [])"

definition active :: "AlertRule \<Rightarrow> bool" where
  "active item \<longleftrightarrow> \<not> AlertRule_IsDeleted item \<and> AlertRule_Enabled item"

definition accepted :: "AlertRule list \<Rightarrow> CompiledRule list" where
  "accepted items = List.map_filter (\<lambda>i. case compileRule i of Inr r \<Rightarrow> Some r | Inl _ \<Rightarrow> None) (filter active items)"

definition rejected :: "AlertRule list \<Rightarrow> InvalidRule list" where
  "rejected items = List.map_filter (\<lambda>i. case compileRule i of Inl b \<Rightarrow> Some b | Inr _ \<Rightarrow> None) (filter active items)"

text \<open>\<open>index_ok\<close>: the index holds exactly the listed rules, each under its state key.\<close>

definition index_ok :: "CompiledRules \<Rightarrow> bool" where
  "index_ok c \<longleftrightarrow>
     (\<forall>r \<in> set (Rules c). map_of (ByStateKey c) (StateKey r) \<noteq> None) \<and>
     (\<forall>k r. map_of (ByStateKey c) k = Some r \<longrightarrow> StateKey r = k \<and> r \<in> set (Rules c))"

lemma add_rule_index: "index_ok c \<Longrightarrow> index_ok (add_rule c r)"
  by (auto simp: index_ok_def add_rule_def)

lemma foldl_add_rule:
  "Rules (foldl add_rule c rs) = Rules c @ rs \<and> Invalid (foldl add_rule c rs) = Invalid c
   \<and> RefreshedAt (foldl add_rule c rs) = RefreshedAt c \<and> (index_ok c \<longrightarrow> index_ok (foldl add_rule c rs))"
  by (induction rs arbitrary: c) (simp_all add: add_rule_index, simp_all add: add_rule_def)

lemma index_ok_Invalid [simp]: "index_ok (c\<lparr>Invalid := b\<rparr>) = index_ok c"
  by (simp add: index_ok_def)

lemma index_ok_sort [simp]: "index_ok (c\<lparr>Rules := sort_key f (Rules c)\<rparr>) = index_ok c"
  by (simp add: index_ok_def)

lemma compile_item_index: "index_ok c \<Longrightarrow> index_ok (compile_item c i)"
  by (simp add: compile_item_def add_rule_index split: sum.split)

lemma foldl_compile_item:
  "Rules (foldl compile_item c is) = Rules c @ accepted is \<and>
   Invalid (foldl compile_item c is) = Invalid c @ rejected is \<and>
   RefreshedAt (foldl compile_item c is) = RefreshedAt c \<and>
   (index_ok c \<longrightarrow> index_ok (foldl compile_item c is))"
proof (induction "is" arbitrary: c)
  case (Cons i "is")
  have "Rules (compile_item c i) = Rules c @ accepted [i] \<and>
    Invalid (compile_item c i) = Invalid c @ rejected [i] \<and> RefreshedAt (compile_item c i) = RefreshedAt c"
    by (auto simp: compile_item_def add_rule_def accepted_def rejected_def active_def
        map_filter_simps split: sum.splits)
  moreover have "accepted (i # is) = accepted [i] @ accepted is" "rejected (i # is) = rejected [i] @ rejected is"
    by (auto simp: accepted_def rejected_def map_filter_simps split: option.splits)
  ultimately show ?case using Cons.IH [of "compile_item c i"] compile_item_index [of c i] by simp
qed (simp add: accepted_def rejected_def map_filter_simps)


lemma compileRule_wf:
  assumes "compileRule i = Inr r"
  shows "\<exists>n. NormalizeRuleModel i = Inr n \<and> rule_wf n \<and> RuleID r = AlertRule_ID i \<and>
     Generation r = AlertRule_Generation i \<and> Metric r = AlertRule_Metric n \<and>
     Operator r = AlertRule_Operator n \<and> ThresholdMode r = AlertRule_ThresholdMode n \<and>
     RuleThreshold r = AlertRule_Threshold i \<and> ThresholdOffset r = AlertRule_ThresholdOffset i \<and>
     DurationSec r = AlertRule_DurationSec i \<and> CooldownMin r = AlertRule_CooldownMin i \<and>
     GenerationUpdatedAt r = AlertRule_UpdatedAt i \<and> \<not> Builtin r \<and> snapshotRaw r \<noteq> None"
proof -
  from assms obtain n where n: "NormalizeRuleModel i = Inr n"
    by (auto simp: compileRule_def split: sum.splits)
  from NormalizeRuleModel_identity [OF n] NormalizeRuleModel_wf [OF n] n assms show ?thesis
    by (auto simp: compileRule_def same_identity_def Let_def split: sum.splits)
qed

text \<open>A normalised rule is never rejected by the encoder.\<close>

lemma compileRule_Inl: "compileRule i = Inl b \<Longrightarrow> \<exists>e. NormalizeRuleModel i = Inl e \<and> b = invalidRule i e"
proof (cases "NormalizeRuleModel i")
  case (Inr n)
  assume "compileRule i = Inl b"
  moreover from NormalizeRuleModel_wf [OF Inr] have
    "finite64 (AlertRule_Threshold n)" "finite64 (AlertRule_ThresholdOffset n)"
    by (simp_all add: rule_wf_def)
  ultimately show ?thesis
    by (simp add: compileRule_def Inr encodeRuleSnapshot_def Let_def)
next
  case (Inl e)
  assume "compileRule i = Inl b"
  with Inl show ?thesis by (simp add: compileRule_def)
qed

lemma rejected_eq:
  "rejected items = map (\<lambda>i. invalidRule i (projl (NormalizeRuleModel i)))
     (filter (\<lambda>i. active i \<and> isl (NormalizeRuleModel i)) items)"
proof -
  have "(case compileRule i of Inl b \<Rightarrow> Some b | Inr _ \<Rightarrow> None) =
    (if isl (NormalizeRuleModel i) then Some (invalidRule i (projl (NormalizeRuleModel i))) else None)" for i
  proof (cases "NormalizeRuleModel i")
    case (Inl e)
    then show ?thesis by (simp add: compileRule_def)
  next
    case (Inr n)
    then have "\<not> isl (compileRule i)" using compileRule_Inl [of i] by (cases "compileRule i") auto
    with Inr show ?thesis by (cases "compileRule i") auto
  qed
  then show ?thesis
    by (induction items) (simp_all add: rejected_def map_filter_simps)
qed

lemma foldl_mount_rule:
  "Rules (foldl (mount_rule m) c rs) = Rules c @ filter (\<lambda>r. ruleMounted r m) rs \<and>
   map_of (ByStateKey (foldl (mount_rule m) c rs)) = foldl (\<lambda>f r. f(StateKey r \<mapsto> r)) (map_of (ByStateKey c)) rs \<and>
   Invalid (foldl (mount_rule m) c rs) = Invalid c"
  by (induction rs arbitrary: c) (simp_all add: mount_rule_def Let_def)

lemma foldl_key_update:
  "foldl (\<lambda>f r. f(key r \<mapsto> r)) f rs k =
     (case filter (\<lambda>r. key r = k) (rev rs) of [] \<Rightarrow> f k | r # _ \<Rightarrow> Some r)"
  by (induction rs arbitrary: f rule: rev_induct) auto

lemma key_index_distinct:
  assumes "distinct (map key rs)" "r \<in> set rs"
  shows "foldl (\<lambda>f r. f(key r \<mapsto> r)) f rs (key r) = Some r"
proof -
  have "filter (\<lambda>s. key s = key r) (rev rs) \<noteq> []" using assms(2) by (auto simp: filter_empty_conv)
  then obtain s ss where s: "filter (\<lambda>s. key s = key r) (rev rs) = s # ss" by (cases "filter (\<lambda>s. key s = key r) (rev rs)") auto
  then have "s \<in> set (filter (\<lambda>s. key s = key r) (rev rs))" by simp
  then have "s \<in> set rs" "key s = key r" by simp_all
  with assms have "s = r" by (metis distinct_map inj_onD)
  with s show ?thesis by (simp add: foldl_key_update)
qed

lemma CompileRules_result:
  "\<exists>c. CompileRules items now = Inr c \<and>
       mset (Rules c) = mset builtin_compiled + mset (accepted items) \<and>
       sorted (map rule_order (Rules c)) \<and>
       Invalid c = map (\<lambda>i. invalidRule i (projl (NormalizeRuleModel i)))
                     (filter (\<lambda>i. active i \<and> isl (NormalizeRuleModel i)) items) \<and>
       RefreshedAt c = now \<and> index_ok c"
proof -
  obtain bs where bs: "builtinRules = Inr bs" using builtinRules_Inr by blast
  then have bc: "builtin_compiled = bs" unfolding builtin_compiled_def bs by simp
  define c0 where "c0 = \<lparr>Rules = [], ByStateKey = [], Invalid = [], RefreshedAt = now\<rparr>"
  define c where "c = foldl compile_item (foldl add_rule c0 bs) items"
  have "index_ok c0" by (simp add: index_ok_def c0_def)
  then have c: "Rules c = bs @ accepted items" "Invalid c = rejected items" "RefreshedAt c = now" "index_ok c"
    using foldl_add_rule [of c0 bs] foldl_compile_item [of "foldl add_rule c0 bs" items]
    by (simp_all add: c_def) (simp_all add: c0_def)
  define c' where "c' = c\<lparr>Rules := sort_key rule_order (Rules c)\<rparr>"
  have "CompileRules items now = Inr c'"
    by (simp add: CompileRules_def bs c_def c0_def c'_def Let_def)
  moreover have "index_ok c'" using c(4) by (simp add: c'_def)
  moreover have "mset (Rules c') = mset builtin_compiled + mset (accepted items)"
    "sorted (map rule_order (Rules c'))" "Invalid c' = rejected items" "RefreshedAt c' = now"
    using c by (simp_all add: c'_def bc)
  ultimately show ?thesis by (auto simp: rejected_eq)
qed

text \<open>
  For a table with distinct positive ids, the compiled rules have distinct state keys and all carry
  the snapshot an event needs.
\<close>

lemma compile_builtins_snapshots:
  "compile_builtins specs = Inr rs \<Longrightarrow> \<forall>r \<in> set rs. snapshotRaw r \<noteq> None"
  by (induction specs arbitrary: rs)
     (auto simp: builtinRule_def encodeRuleSnapshot_def Let_def split: sum.splits if_splits)

lemma builtin_compiled_facts:
  "map RuleID builtin_compiled = [- 1, - 2, - 3, - 4]" "list_all Builtin builtin_compiled"
  "\<forall>r \<in> set builtin_compiled. snapshotRaw r \<noteq> None"
proof -
  obtain bs where bs: "builtinRules = Inr bs" "map RuleID bs = BuiltinRuleIDs" "list_all Builtin bs"
    using builtinRules_Inr by blast
  then have bc: "builtin_compiled = bs" unfolding builtin_compiled_def bs(1) by simp
  with bs show "map RuleID builtin_compiled = [- 1, - 2, - 3, - 4]" "list_all Builtin builtin_compiled"
    by (simp_all add: BuiltinRuleIDs_def BuiltinRules_def BuiltinOfflineID_def
      BuiltinRaidID_def BuiltinSmartFailedID_def BuiltinSmartCriticalID_def)
  show "\<forall>r \<in> set builtin_compiled. snapshotRaw r \<noteq> None"
    using compile_builtins_snapshots bs(1) unfolding builtinRules_def bc by blast
qed

lemma accepted_ids:
  "RuleID ` set (accepted items) \<subseteq> AlertRule_ID ` set items"
  "distinct (map AlertRule_ID items) \<Longrightarrow> distinct (map RuleID (accepted items))"
  "\<forall>r \<in> set (accepted items). snapshotRaw r \<noteq> None"
proof -
  have id: "RuleID r = AlertRule_ID i \<and> snapshotRaw r \<noteq> None" if "compileRule i = Inr r" for i r
    using compileRule_wf [OF that] by blast
  have cons: "accepted (i # is) = (if active i then case compileRule i of Inr r \<Rightarrow> r # accepted is | Inl _ \<Rightarrow> accepted is
      else accepted is)" for i "is"
    by (simp add: accepted_def map_filter_simps split: sum.split)
  have nil: "accepted [] = []" by (simp add: accepted_def map_filter_simps)
  show sub: "RuleID ` set (accepted items) \<subseteq> AlertRule_ID ` set items" for items
    by (induction items) (auto simp: nil cons id split: sum.splits if_splits)
  show "distinct (map AlertRule_ID items) \<Longrightarrow> distinct (map RuleID (accepted items))"
  proof (induction items)
    case (Cons i "is")
    with sub [of "is"] show ?case by (auto simp: cons id split: sum.split)
  qed (simp add: nil)
  have snap: "list_all (\<lambda>r. snapshotRaw r \<noteq> None) (accepted items)"
  proof (induction items)
    case (Cons i "is")
    then show ?case
      using id [of i, THEN conjunct2]
      by (cases "compileRule i") (simp_all add: cons del: not_None_eq)
  qed (simp add: nil)
  then show "\<forall>r \<in> set (accepted items). snapshotRaw r \<noteq> None" by (simp add: list_all_iff)
qed

lemma compiled_keys:
  assumes "CompileRules items now = Inr c" "distinct (map AlertRule_ID items)" "\<forall>i \<in> set items. 0 < AlertRule_ID i"
  shows "distinct (map StateKey (Rules c))" "\<forall>r \<in> set (Rules c). snapshotRaw r \<noteq> None"
proof -
  have m: "mset (Rules c) = mset (builtin_compiled @ accepted items)"
    using CompileRules_result [of items now] assms(1) by auto
  have pos: "0 < RuleID r" if "r \<in> set (accepted items)" for r using accepted_ids(1) [of items] assms(3) that by force
  have neg: "RuleID r < 0" if "r \<in> set builtin_compiled" for r
  proof -
    have "RuleID r \<in> set (map RuleID builtin_compiled)" using that by simp
    then show ?thesis unfolding builtin_compiled_facts(1) by auto
  qed
  have "distinct (map RuleID builtin_compiled)" by (simp add: builtin_compiled_facts(1))
  then have "distinct (map RuleID (builtin_compiled @ accepted items))"
    using accepted_ids(2) [OF assms(2)] pos neg by fastforce
  then have "distinct (map RuleID (Rules c))"
    by (metis m mset_map mset_eq_imp_distinct_iff)
  then show "distinct (map StateKey (Rules c))"
    by (auto simp: distinct_map inj_on_def StateKey_eq rule_order_def)
  have "set (Rules c) = set (builtin_compiled @ accepted items)" using m by (metis set_mset_mset)
  then show "\<forall>r \<in> set (Rules c). snapshotRaw r \<noteq> None"
    using builtin_compiled_facts(3) accepted_ids(3) by auto
qed

subsection \<open>Properties\<close>

text \<open>
  A state key names one rule generation: two keys are equal only for the same rule id and the
  same generation, so the runtime state of one generation is never read as another's.\<close>

theorem ruleStateKey_identifies:
  "ruleStateKey i g = ruleStateKey j h \<longleftrightarrow> (i = j \<and> g = h)"
  by (rule ruleStateKey_inject)

text \<open>
  Compilation succeeds for every table content. The compiled set holds exactly the built-in
  rules and the accepted active rows, ordered by rule id and generation; the rejected active rows are
  reported in table order, each rejected because it does not normalise; deleted and disabled rows
  leave no trace; and the index holds exactly the listed rules under their state keys.\<close>

theorem CompileRules_complete:
  "\<exists>c. CompileRules items now = Inr c \<and>
       mset (Rules c) = mset builtin_compiled + mset (accepted items) \<and>
       sorted (map rule_order (Rules c)) \<and>
       Invalid c = map (\<lambda>i. invalidRule i (projl (NormalizeRuleModel i)))
                     (filter (\<lambda>i. active i \<and> isl (NormalizeRuleModel i)) items) \<and>
       RefreshedAt c = now \<and> index_ok c"
  by (rule CompileRules_result)

text \<open>
  Mounting selects without forgetting: for a rule set with one rule per state key, the rules
  evaluated on a server are exactly the mounted ones, a built-in rule is mounted unless an override
  says otherwise and a user rule only when one does, while the index still finds every rule.\<close>

theorem ForMounts_selects:
  assumes "distinct (map StateKey (Rules c))" and "r \<in> set (Rules c)"
  shows "(r \<in> set (Rules (ForMounts c mounts)) \<longleftrightarrow>
            (map_of mounts (RuleID r) = Some True \<or> (map_of mounts (RuleID r) = None \<and> Builtin r)))
       \<and> map_of (ByStateKey (ForMounts c mounts)) (StateKey r) = Some r
       \<and> Rules (ForMounts c mounts) = filter (\<lambda>r. ruleMounted r mounts) (Rules c)"
proof -
  let ?c0 = "\<lparr>Rules = [], ByStateKey = [], Invalid = Invalid c, RefreshedAt = RefreshedAt c\<rparr>"
  have "Rules (ForMounts c mounts) = filter (\<lambda>r. ruleMounted r mounts) (Rules c)"
    "map_of (ByStateKey (ForMounts c mounts)) (StateKey r) = Some r"
    using foldl_mount_rule [of mounts ?c0 "Rules c"] key_index_distinct [OF assms]
    by (simp_all add: ForMounts_def)
  with assms(2) show ?thesis by (auto simp: ruleMounted_def split: option.splits)
qed

definition example_compiled :: "CompiledRules" where
  "example_compiled = \<lparr>Rules = builtin_compiled, ByStateKey = [], Invalid = [], RefreshedAt = 0\<rparr>"

lemmas builtin_compiled_ids = builtin_compiled_facts(1)
lemmas builtin_compiled_Builtin = builtin_compiled_facts(2)

lemma distinct_builtin_keys: "distinct (map StateKey builtin_compiled)"
proof -
  have "distinct (map RuleID builtin_compiled)" by (simp add: builtin_compiled_ids)
  then show ?thesis
    by (auto simp: distinct_map inj_on_def StateKey_eq rule_order_def)
qed

theorem ForMounts_selects_witness:
  "hd builtin_compiled \<in> set (Rules (ForMounts example_compiled [])) \<and>
   hd builtin_compiled \<notin> set (Rules (ForMounts example_compiled [(- 1, False)]))"
proof -
  obtain r rs where rs: "builtin_compiled = r # rs" "RuleID r = - 1" "Builtin r"
    using builtin_compiled_ids builtin_compiled_Builtin by (metis list.pred_inject(2) map_eq_Cons_conv)
  have "distinct (map StateKey (Rules example_compiled))" "r \<in> set (Rules example_compiled)"
    using distinct_builtin_keys list.set_intros(1) [of r rs] unfolding rs(1) [symmetric]
    by (simp_all add: example_compiled_def)
  from ForMounts_selects [OF this, of "[]", THEN conjunct1]
    ForMounts_selects [OF this, of "[(- 1, False)]", THEN conjunct1] rs(2,3)
  show ?thesis unfolding rs(1) by simp
qed

end
