(* ===== verification/Alert_Runtime.thy ===== *)
theory Alert_Runtime
  imports Alert_Compiler
begin

text \<open>
  \<open>internal/alert/runtime.go\<close>: the state machine of one server's alerts. \<open>EvaluateServer\<close> takes
  the last snapshot of a node, the rules mounted on it and the runtime states kept so far (by state
  key), and returns the next states with the transitions that open and close events. A missing
  rule set together with a usable snapshot is a nil dereference, the result \<open>None\<close>.

  The lemmas follow one state key through an evaluation: what the evaluation decides about a key
  depends only on the rule with that key and on the state stored under it (\<open>step_rule\<close>).
\<close>

subsection \<open>Data\<close>

definition RuntimePhasePending :: string where "RuntimePhasePending = ''pending''"
definition RuntimePhaseFiring :: string where "RuntimePhaseFiring = ''firing''"
definition RuntimePhaseCooldown :: string where "RuntimePhaseCooldown = ''cooldown''"

lemmas phase_defs = RuntimePhasePending_def RuntimePhaseFiring_def RuntimePhaseCooldown_def

record RuntimeState =
  Phase :: string
  State_RuleID :: int
  State_Generation :: int
  PendingSince :: time
  FiringSince :: time
  CooldownUntil :: time
  LastDBHeartbeatAt :: time
  LastObservedAt :: time
  CurrentValue :: f64
  EffThreshold :: f64
  EventID :: int

definition zero_RuntimeState :: RuntimeState where
  "zero_RuntimeState = \<lparr>Phase = [], State_RuleID = 0, State_Generation = 0, PendingSince = 0,
     FiringSince = 0, CooldownUntil = 0, LastDBHeartbeatAt = 0, LastObservedAt = 0,
     CurrentValue = f0, EffThreshold = f0, EventID = 0\<rparr>"

record OpenTransition =
  Open_StateKey :: string
  Open_Rule :: CompiledRule
  Open_ObjectID :: int
  Open_TriggeredAt :: time
  Open_CurrentValue :: f64
  Open_EffectiveThreshold :: f64
  Open_Snapshot :: "NodeView option"

record CloseTransition =
  Close_StateKey :: string
  Close_EventID :: int
  Close_Rule :: CompiledRule
  Close_ObjectID :: int
  Close_OpenedAt :: time
  Close_ClosedAt :: time
  Close_CloseReason :: string
  Close_CurrentValue :: "f64 option"
  Close_Snapshot :: "NodeView option"

type_synonym states = "(string, RuntimeState) gomap"

record EvalResult =
  Next :: states
  OpenTransitions :: "OpenTransition list"
  CloseTransitions :: "CloseTransition list"

subsection \<open>Snapshot times\<close>

definition snapshotObservedAt :: "NodeView option \<Rightarrow> time option" where
  "snapshotObservedAt snapshot =
     (case snapshot of
        None \<Rightarrow> None
      | Some v \<Rightarrow> (let raw = trim_space (Observation_ObservedAt (NodeView_Observation v))
                  in if raw = [] then None else parse_rfc3339 raw))"

definition snapshotReceivedAt :: "NodeView option \<Rightarrow> time option" where
  "snapshotReceivedAt snapshot =
     (case snapshot of
        None \<Rightarrow> None
      | Some v \<Rightarrow>
         (let raw = trim_space (Observation_ReceivedAt (NodeView_Observation v));
              raw = (if raw = [] then trim_space (Observation_ObservedAt (NodeView_Observation v)) else raw)
          in if raw = [] then None else parse_rfc3339 raw))"

text \<open>\<open>Some online\<close>, or \<open>None\<close> when the snapshot has no usable receive time.\<close>

definition snapshotOnline :: "NodeView option \<Rightarrow> time \<Rightarrow> bool option" where
  "snapshotOnline snapshot now =
     (case snapshotReceivedAt snapshot of
        None \<Rightarrow> None
      | Some receivedAt \<Rightarrow>
         if receivedAt = zero_time then None
         else (case snapshot of
                 None \<Rightarrow> None
               | Some v \<Rightarrow>
                  (let staleAfter = wrap64 (max (Observation_StaleAfterSec (NodeView_Observation v)) 0 * second_ns)
                   in Some (time_sub now receivedAt \<le> staleAfter))))"

subsection \<open>State construction\<close>

definition keepFiringState :: "RuntimeState \<Rightarrow> f64 \<Rightarrow> f64 \<Rightarrow> time \<Rightarrow> RuntimeState" where
  "keepFiringState state currentValue threshold observedAt =
     state\<lparr>LastObservedAt := trunc_sec observedAt, CurrentValue := currentValue, EffThreshold := threshold\<rparr>"

definition newPendingState :: "CompiledRule \<Rightarrow> time \<Rightarrow> time \<Rightarrow> f64 \<Rightarrow> f64 \<Rightarrow> RuntimeState" where
  "newPendingState rule pendingSince observedAt currentValue threshold =
     zero_RuntimeState\<lparr>Phase := RuntimePhasePending, State_RuleID := RuleID rule,
       State_Generation := Generation rule, PendingSince := trunc_sec pendingSince,
       LastObservedAt := trunc_sec observedAt, CurrentValue := currentValue, EffThreshold := threshold\<rparr>"

definition newCooldownState :: "CompiledRule \<Rightarrow> time \<Rightarrow> RuntimeState" where
  "newCooldownState rule closedAt =
     zero_RuntimeState\<lparr>Phase := RuntimePhaseCooldown, State_RuleID := RuleID rule,
       State_Generation := Generation rule,
       CooldownUntil := trunc_sec (closedAt + wrap64 (CooldownMin rule * minute_ns))\<rparr>"

definition applyOpenTransition :: "states \<Rightarrow> OpenTransition \<Rightarrow> int \<Rightarrow> states" where
  "applyOpenTransition nxt transition eventID =
     (let state = (case map_of nxt (Open_StateKey transition) of Some s \<Rightarrow> s | None \<Rightarrow> zero_RuntimeState);
          since = trunc_sec (Open_TriggeredAt transition);
          state = state\<lparr>Phase := RuntimePhaseFiring, FiringSince := since, LastDBHeartbeatAt := since,
                        EventID := eventID\<rparr>
      in AList.update (Open_StateKey transition) state nxt)"

subsection \<open>Decisions\<close>

definition isOfflineRule :: "CompiledRule \<Rightarrow> bool" where
  "isOfflineRule rule \<longleftrightarrow> Metric rule = ''node.offline''"

definition metricValue :: "CompiledRule \<Rightarrow> NodeView option \<Rightarrow> bool \<Rightarrow> time \<Rightarrow> time \<Rightarrow> f64 \<times> bool \<times> time" where
  "metricValue rule snapshot online observedAt now =
     (if Metric rule = ''node.offline'' then
        (case snapshot of None \<Rightarrow> (f0, False, now) | Some _ \<Rightarrow> if online then (f0, True, now) else (f1, True, now))
      else case snapshot of
          None \<Rightarrow> (f0, False, observedAt)
        | Some v \<Rightarrow> if \<not> online then (f0, False, observedAt)
                   else (let (value, ok) = ExtractMetricValue (Metric rule) v in (value, ok, observedAt)))"

definition cooldownActive :: "RuntimeState \<Rightarrow> time \<Rightarrow> bool" where
  "cooldownActive state now \<longleftrightarrow> CooldownUntil state \<noteq> zero_time \<and> now < CooldownUntil state"

definition cooldownAfterClose :: "CloseTransition \<Rightarrow> bool" where
  "cooldownAfterClose transition \<longleftrightarrow>
     CooldownMin (Close_Rule transition) > 0 \<and> Close_CloseReason transition = ''condition_cleared''"

definition durationSatisfied :: "time \<Rightarrow> int \<Rightarrow> time \<Rightarrow> bool" where
  "durationSatisfied pendingSince durationSec now \<longleftrightarrow>
     pendingSince \<noteq> zero_time \<and> time_sub now pendingSince \<ge> wrap64 (durationSec * second_ns)"

definition maxTime :: "time \<Rightarrow> time \<Rightarrow> time" where
  "maxTime a b = (if a > b then a else b)"

definition shouldHeartbeatFiring :: "RuntimeState \<Rightarrow> RuntimeState \<Rightarrow> duration \<Rightarrow> bool \<Rightarrow> bool" where
  "shouldHeartbeatFiring previous nxt interval closing =
     (if closing then False
      else if Phase previous \<noteq> RuntimePhaseFiring \<or> Phase nxt \<noteq> RuntimePhaseFiring \<or> EventID nxt \<le> 0 then False
      else if LastObservedAt nxt = zero_time then False
      else let lastHeartbeat = (if LastDBHeartbeatAt previous = zero_time then FiringSince previous
                                else LastDBHeartbeatAt previous)
           in if lastHeartbeat = zero_time then True
              else if \<not> LastObservedAt nxt > lastHeartbeat then False
              else time_sub (LastObservedAt nxt) lastHeartbeat \<ge> interval)"

definition bare_rule :: "int \<Rightarrow> int \<Rightarrow> CompiledRule" where
  "bare_rule i g = \<lparr>RuleID = i, Builtin = False, RuleName = [], Generation = g, Metric = [], Operator = [],
     RuleThreshold = f0, DurationSec = 0, CooldownMin = 0, ThresholdMode = [], ThresholdOffset = f0,
     GenerationUpdatedAt = zero_time, snapshotRaw = None\<rparr>"

definition ruleForState :: "CompiledRules option \<Rightarrow> RuntimeState \<Rightarrow> CompiledRule" where
  "ruleForState compiled state =
     (case compiled of
        None \<Rightarrow> bare_rule (State_RuleID state) (State_Generation state)
      | Some c \<Rightarrow>
         (case map_of (ByStateKey c) (ruleStateKey (State_RuleID state) (State_Generation state)) of
            Some rule \<Rightarrow> rule
          | None \<Rightarrow> bare_rule (State_RuleID state) (State_Generation state)))"

definition rule_threshold :: "CompiledRule \<Rightarrow> Threshold" where
  "rule_threshold rule = \<lparr>Threshold_Metric = Metric rule, Threshold_Mode = ThresholdMode rule,
     Threshold_Value = RuleThreshold rule, Threshold_Offset = ThresholdOffset rule\<rparr>"

subsection \<open>Evaluation\<close>

text \<open>One turn of the loop over the rules: the new state of the key and at most one transition.\<close>

record step_out =
  out_state :: "RuntimeState option"
  out_open :: "OpenTransition option"
  out_close :: "CloseTransition option"

definition no_step :: "step_out" where
  "no_step = \<lparr>out_state = None, out_open = None, out_close = None\<rparr>"

definition keep_if_firing :: "RuntimeState option \<Rightarrow> step_out" where
  "keep_if_firing existing =
     (case existing of
        Some s \<Rightarrow> if Phase s = RuntimePhaseFiring then no_step\<lparr>out_state := Some s\<rparr> else no_step
      | None \<Rightarrow> no_step)"

definition open_of ::
    "int \<Rightarrow> NodeView \<Rightarrow> CompiledRule \<Rightarrow> time \<Rightarrow> f64 \<Rightarrow> f64 \<Rightarrow> OpenTransition" where
  "open_of serverID snapshot rule evalAt value threshold =
     \<lparr>Open_StateKey = StateKey rule, Open_Rule = rule, Open_ObjectID = serverID, Open_TriggeredAt = evalAt,
      Open_CurrentValue = value, Open_EffectiveThreshold = threshold, Open_Snapshot = Some snapshot\<rparr>"

definition close_cleared ::
    "int \<Rightarrow> NodeView \<Rightarrow> CompiledRule \<Rightarrow> RuntimeState \<Rightarrow> time \<Rightarrow> f64 \<Rightarrow> CloseTransition" where
  "close_cleared serverID snapshot rule existing evalAt value =
     \<lparr>Close_StateKey = StateKey rule, Close_EventID = EventID existing, Close_Rule = rule,
      Close_ObjectID = serverID, Close_OpenedAt = FiringSince existing, Close_ClosedAt = evalAt,
      Close_CloseReason = ''condition_cleared'', Close_CurrentValue = Some value, Close_Snapshot = Some snapshot\<rparr>"

definition close_unmounted ::
    "int \<Rightarrow> NodeView option \<Rightarrow> CompiledRules option \<Rightarrow> time \<Rightarrow> string \<times> RuntimeState \<Rightarrow> CloseTransition" where
  "close_unmounted serverID snapshot compiled now ks =
     \<lparr>Close_StateKey = fst ks, Close_EventID = EventID (snd ks), Close_Rule = ruleForState compiled (snd ks),
      Close_ObjectID = serverID, Close_OpenedAt = FiringSince (snd ks), Close_ClosedAt = now,
      Close_CloseReason = ''rule_unmounted'', Close_CurrentValue = None, Close_Snapshot = snapshot\<rparr>"

text \<open>The start of the current pending period of a rule whose condition holds at \<open>evalAt\<close>.\<close>

definition pending_start :: "CompiledRule \<Rightarrow> RuntimeState option \<Rightarrow> time \<Rightarrow> time" where
  "pending_start rule existing evalAt =
     (case existing of
        None \<Rightarrow> maxTime (GenerationUpdatedAt rule) evalAt
      | Some s \<Rightarrow> if PendingSince s = zero_time \<or> PendingSince s < GenerationUpdatedAt rule
                 then maxTime (GenerationUpdatedAt rule) evalAt else PendingSince s)"

definition is_firing :: "RuntimeState option \<Rightarrow> bool" where
  "is_firing existing = (case existing of Some s \<Rightarrow> Phase s = RuntimePhaseFiring | None \<Rightarrow> False)"

lemma is_firing_simps [simp]:
  "is_firing None = False" "is_firing (Some s) = (Phase s = RuntimePhaseFiring)"
  by (simp_all add: is_firing_def)

text \<open>The part of a turn after the cooldown check; \<open>existing\<close> is \<open>None\<close> when \<open>exists\<close> is false.\<close>

definition eval_rule ::
    "int \<Rightarrow> NodeView \<Rightarrow> bool \<Rightarrow> time \<Rightarrow> time \<Rightarrow> CompiledRule \<Rightarrow> RuntimeState option \<Rightarrow> step_out" where
  "eval_rule serverID snapshot online observedAt now rule existing =
     (if \<not> online \<and> \<not> isOfflineRule rule then keep_if_firing existing
      else let (value, ok, evalAt) = metricValue rule (Some snapshot) online observedAt now
           in case EffectiveThreshold (rule_threshold rule) snapshot of
                Inl _ \<Rightarrow> keep_if_firing existing
              | Inr threshold \<Rightarrow>
                  if \<not> ok then keep_if_firing existing
                  else if \<not> Compare (Operator rule) value threshold then
                    (case existing of
                       Some s \<Rightarrow>
                         if Phase s = RuntimePhaseFiring
                         then \<lparr>out_state = Some (keepFiringState s value threshold observedAt), out_open = None,
                               out_close = Some (close_cleared serverID snapshot rule s evalAt value)\<rparr>
                         else no_step
                     | None \<Rightarrow> no_step)
                  else if is_firing existing then
                    no_step\<lparr>out_state := map_option (\<lambda>s. keepFiringState s value threshold evalAt) existing\<rparr>
                  else (let pendingSince = pending_start rule existing evalAt
                        in \<lparr>out_state = Some (newPendingState rule pendingSince evalAt value threshold),
                            out_open = (if durationSatisfied pendingSince (DurationSec rule) evalAt
                                        then Some (open_of serverID snapshot rule evalAt value threshold) else None),
                            out_close = None\<rparr>))"

definition step_rule ::
    "int \<Rightarrow> NodeView \<Rightarrow> bool \<Rightarrow> time \<Rightarrow> time \<Rightarrow> CompiledRule \<Rightarrow> RuntimeState option \<Rightarrow> step_out" where
  "step_rule serverID snapshot online observedAt now rule stored =
     (case stored of
        None \<Rightarrow> eval_rule serverID snapshot online observedAt now rule None
      | Some s \<Rightarrow>
          if Phase s = RuntimePhaseCooldown then
            (if cooldownActive s now then no_step\<lparr>out_state := Some s\<rparr>
             else eval_rule serverID snapshot online observedAt now rule None)
          else eval_rule serverID snapshot online observedAt now rule (Some s))"

definition apply_step :: "string \<Rightarrow> step_out \<Rightarrow> EvalResult \<Rightarrow> EvalResult" where
  "apply_step key out result =
     \<lparr>Next = (case out_state out of Some s \<Rightarrow> AList.update key s (Next result) | None \<Rightarrow> Next result),
      OpenTransitions = OpenTransitions result @ (case out_open out of Some t \<Rightarrow> [t] | None \<Rightarrow> []),
      CloseTransitions = CloseTransitions result @ (case out_close out of Some t \<Rightarrow> [t] | None \<Rightarrow> [])\<rparr>"

text \<open>The two loops over \<open>current\<close>, which differ in when a firing state of a mounted rule is copied.\<close>

definition keep_state ::
    "(string \<Rightarrow> bool) \<Rightarrow> (string \<times> RuntimeState \<Rightarrow> CloseTransition) \<Rightarrow> EvalResult \<Rightarrow> string \<times> RuntimeState \<Rightarrow> EvalResult" where
  "keep_state seen mk result ks =
     (if Phase (snd ks) \<noteq> RuntimePhaseFiring then result
      else apply_step (fst ks) \<lparr>out_state = Some (snd ks), out_open = None,
             out_close = (if seen (fst ks) then None else Some (mk ks))\<rparr> result)"

definition close_unseen ::
    "(string \<Rightarrow> bool) \<Rightarrow> (string \<times> RuntimeState \<Rightarrow> CloseTransition) \<Rightarrow> EvalResult \<Rightarrow> string \<times> RuntimeState \<Rightarrow> EvalResult" where
  "close_unseen seen mk result ks =
     (if seen (fst ks) then result
      else if Phase (snd ks) \<noteq> RuntimePhaseFiring then result
      else apply_step (fst ks) \<lparr>out_state = Some (snd ks), out_open = None, out_close = Some (mk ks)\<rparr> result)"

definition seen_key :: "CompiledRules option \<Rightarrow> string \<Rightarrow> bool" where
  "seen_key compiled key = (case compiled of None \<Rightarrow> False | Some c \<Rightarrow> key \<in> set (map StateKey (Rules c)))"

definition empty_result :: EvalResult where
  "empty_result = \<lparr>Next = [], OpenTransitions = [], CloseTransitions = []\<rparr>"

definition EvaluateServer ::
    "int \<Rightarrow> NodeView option \<Rightarrow> CompiledRules option \<Rightarrow> states \<Rightarrow> time \<Rightarrow> EvalResult option" where
  "EvaluateServer serverID snapshot compiled current now =
     (case (snapshot, snapshotObservedAt snapshot, snapshotOnline snapshot now) of
        (Some view, Some observedAt, Some online) \<Rightarrow>
          (case compiled of
             None \<Rightarrow> None
           | Some c \<Rightarrow>
              (let result = foldl (\<lambda>result rule. apply_step (StateKey rule)
                              (step_rule serverID view online observedAt now rule (map_of current (StateKey rule)))
                              result) empty_result (Rules c)
               in Some (foldl (close_unseen (seen_key compiled) (close_unmounted serverID snapshot compiled now))
                          result current)))
      | _ \<Rightarrow> Some (foldl (keep_state (seen_key compiled) (close_unmounted serverID None compiled now))
                     empty_result current))"

subsection \<open>Loops that give each key one step\<close>

text \<open>
  The three loops of \<open>EvaluateServer\<close> share a contract: each turn works on a key of its own, emits at
  most one transition, and labels it with that key. Their common consequences are proved once.
\<close>

locale keyed_loop =
  fixes key :: "'a \<Rightarrow> string" and step :: "'a \<Rightarrow> step_out"
  assumes open_key: "out_open (step x) = Some t \<Longrightarrow> Open_StateKey t = key x"
    and close_key: "out_close (step x) = Some u \<Longrightarrow> Close_StateKey u = key x"
    and one_transition: "out_open (step x) = None \<or> out_close (step x) = None"
begin

lemma run_opens:
  "OpenTransitions (foldl (\<lambda>r x. apply_step (key x) (step x) r) r0 xs)
   = OpenTransitions r0 @ List.map_filter (\<lambda>x. out_open (step x)) xs"
  by (induction xs arbitrary: r0) (auto simp: apply_step_def map_filter_simps split: option.split)

lemma run_closes:
  "CloseTransitions (foldl (\<lambda>r x. apply_step (key x) (step x) r) r0 xs)
   = CloseTransitions r0 @ List.map_filter (\<lambda>x. out_close (step x)) xs"
  by (induction xs arbitrary: r0) (auto simp: apply_step_def map_filter_simps split: option.split)

lemma run_next_other:
  "k \<notin> key ` set xs \<Longrightarrow>
   map_of (Next (foldl (\<lambda>r x. apply_step (key x) (step x) r) r0 xs)) k = map_of (Next r0) k"
  by (induction xs arbitrary: r0) (auto simp: apply_step_def split: option.split)

lemma run_next:
  "distinct (map key xs) \<Longrightarrow> x \<in> set xs \<Longrightarrow>
   map_of (Next (foldl (\<lambda>r x. apply_step (key x) (step x) r) r0 xs)) (key x)
   = (case out_state (step x) of Some s \<Rightarrow> Some s | None \<Rightarrow> map_of (Next r0) (key x))"
proof (induction xs arbitrary: r0)
  case (Cons y ys)
  show ?case
  proof (cases "x = y")
    case True
    with Cons.prems have "key x \<notin> key ` set ys" by auto
    with True show ?thesis by (simp add: run_next_other) (simp add: apply_step_def split: option.split)
  next
    case False
    with Cons.prems have "x \<in> set ys" by simp
    moreover from imageI [OF this, of key] Cons.prems(1) have "key x \<noteq> key y" by auto
    moreover note Cons
    ultimately show ?thesis by (simp add: apply_step_def split: option.split)
  qed
qed simp

lemma run_next_distinct:
  "distinct (map fst (Next r0)) \<Longrightarrow>
   distinct (map fst (Next (foldl (\<lambda>r x. apply_step (key x) (step x) r) r0 xs)))"
  by (induction xs arbitrary: r0) (auto simp: apply_step_def split: option.split)

lemma open_keys_sub: "Open_StateKey ` set (List.map_filter (\<lambda>x. out_open (step x)) xs) \<subseteq> key ` set xs"
  by (auto simp: List.map_filter_def open_key)

lemma close_keys_sub: "Close_StateKey ` set (List.map_filter (\<lambda>x. out_close (step x)) xs) \<subseteq> key ` set xs"
  by (auto simp: List.map_filter_def close_key)

lemma transition_keys_distinct:
  "distinct (map key xs) \<Longrightarrow>
   distinct (map Open_StateKey (List.map_filter (\<lambda>x. out_open (step x)) xs)
             @ map Close_StateKey (List.map_filter (\<lambda>x. out_close (step x)) xs))"
proof (induction xs)
  case (Cons x xs)
  then have fresh: "key x \<notin> Open_StateKey ` set (List.map_filter (\<lambda>x. out_open (step x)) xs)"
    "key x \<notin> Close_StateKey ` set (List.map_filter (\<lambda>x. out_close (step x)) xs)"
    using open_keys_sub [of xs] close_keys_sub [of xs] by (auto simp del: image_iff)
  from Cons one_transition [of x] show ?case
    by (cases "out_open (step x)"; cases "out_close (step x)")
       (use fresh in \<open>simp_all add: map_filter_simps open_key close_key\<close>)
qed (simp add: map_filter_simps)

end

lemma distinct_append3:
  "distinct (xs @ ys) \<Longrightarrow> distinct zs \<Longrightarrow> set xs \<subseteq> A \<Longrightarrow> set ys \<subseteq> A \<Longrightarrow> set zs \<inter> A = {} \<Longrightarrow>
   distinct (xs @ ys @ zs)"
  by auto

lemma keep_if_firing_simps [simp]:
  "out_open (keep_if_firing e) = None" "out_close (keep_if_firing e) = None"
  "out_state (keep_if_firing e) = (if is_firing e then e else None)"
  by (auto simp: keep_if_firing_def no_step_def is_firing_def split: option.split)

lemmas step_defs = step_rule_def eval_rule_def no_step_def Let_def

interpretation rule_loop: keyed_loop StateKey
  "\<lambda>rule. step_rule serverID view online observedAt now rule (map_of current (StateKey rule))"
  for serverID view online observedAt now current
  by unfold_locales
    (auto simp: step_defs open_of_def close_cleared_def split: if_splits option.splits sum.splits prod.splits)

text \<open>The steps of the loops over \<open>current\<close>.\<close>

definition keep_step ::
    "(string \<Rightarrow> bool) \<Rightarrow> (string \<times> RuntimeState \<Rightarrow> CloseTransition) \<Rightarrow> string \<times> RuntimeState \<Rightarrow> step_out" where
  "keep_step seen mk ks =
     (if Phase (snd ks) \<noteq> RuntimePhaseFiring then no_step
      else \<lparr>out_state = Some (snd ks), out_open = None, out_close = (if seen (fst ks) then None else Some (mk ks))\<rparr>)"

definition unseen_step ::
    "(string \<Rightarrow> bool) \<Rightarrow> (string \<times> RuntimeState \<Rightarrow> CloseTransition) \<Rightarrow> string \<times> RuntimeState \<Rightarrow> step_out" where
  "unseen_step seen mk ks = (if seen (fst ks) then no_step else keep_step seen mk ks)"

lemma apply_no_step [simp]: "apply_step k no_step r = r"
  by (simp add: apply_step_def no_step_def)

lemma keep_state_step: "keep_state seen mk = (\<lambda>r ks. apply_step (fst ks) (keep_step seen mk ks) r)"
  by (simp add: keep_state_def keep_step_def fun_eq_iff)

lemma close_unseen_step: "close_unseen seen mk = (\<lambda>r ks. apply_step (fst ks) (unseen_step seen mk ks) r)"
  by (simp add: close_unseen_def unseen_step_def keep_step_def fun_eq_iff)

lemma current_loops_open_nothing [simp]:
  "out_open (keep_step seen mk ks) = None" "out_open (unseen_step seen mk ks) = None"
  by (simp_all add: keep_step_def unseen_step_def no_step_def)

interpretation keep_loop: keyed_loop fst
  "keep_step seen (close_unmounted serverID snapshot compiled now)" for seen serverID snapshot compiled now
  by unfold_locales (auto simp: keep_step_def no_step_def close_unmounted_def split: if_splits)

interpretation unseen_loop: keyed_loop fst
  "unseen_step seen (close_unmounted serverID snapshot compiled now)" for seen serverID snapshot compiled now
  by unfold_locales (auto simp: unseen_step_def keep_step_def no_step_def close_unmounted_def split: if_splits)

subsection \<open>One evaluation, key by key\<close>

definition rule_result ::
    "int \<Rightarrow> NodeView \<Rightarrow> bool \<Rightarrow> time \<Rightarrow> CompiledRules \<Rightarrow> states \<Rightarrow> time \<Rightarrow> EvalResult" where
  "rule_result serverID view online observedAt c current now =
     foldl (\<lambda>result rule. apply_step (StateKey rule)
        (step_rule serverID view online observedAt now rule (map_of current (StateKey rule))) result)
       empty_result (Rules c)"

lemma EvaluateServer_usable:
  assumes "snapshotObservedAt (Some v) = Some observedAt" "snapshotOnline (Some v) now = Some online"
  shows "EvaluateServer i (Some v) (Some c) current now =
     Some (foldl (close_unseen (seen_key (Some c)) (close_unmounted i (Some v) (Some c) now))
       (rule_result i v online observedAt c current now) current)"
  using assms by (simp add: EvaluateServer_def rule_result_def)

lemma EvaluateServer_blind:
  assumes "snapshot = None \<or> snapshotObservedAt snapshot = None \<or> snapshotOnline snapshot now = None"
  shows "EvaluateServer i snapshot compiled current now =
     Some (foldl (keep_state (seen_key compiled) (close_unmounted i None compiled now)) empty_result current)"
  using assms by (auto simp: EvaluateServer_def split: option.split)

text \<open>The two shapes an evaluation takes; a missing rule set makes the second one panic.\<close>

lemma EvaluateServer_cases [consumes 1, case_names blind usable]:
  assumes "EvaluateServer i snapshot compiled current now = Some r"
  obtains (blind) "snapshot = None \<or> snapshotObservedAt snapshot = None \<or> snapshotOnline snapshot now = None"
      "r = foldl (keep_state (seen_key compiled) (close_unmounted i None compiled now)) empty_result current"
    | (usable) v c observedAt online where "snapshot = Some v" "compiled = Some c"
      "snapshotObservedAt (Some v) = Some observedAt" "snapshotOnline (Some v) now = Some online"
      "r = foldl (close_unseen (seen_key (Some c)) (close_unmounted i (Some v) (Some c) now))
             (rule_result i v online observedAt c current now) current"
  using assms by (auto simp: EvaluateServer_def rule_result_def split: option.splits)

definition keys_ok :: "CompiledRules option \<Rightarrow> states \<Rightarrow> bool" where
  "keys_ok compiled current \<longleftrightarrow> distinct (map fst current) \<and>
     (case compiled of None \<Rightarrow> True | Some c \<Rightarrow> distinct (map StateKey (Rules c)))"

lemma map_of_fst: "distinct (map fst m) \<Longrightarrow> map_of m k = Some s \<Longrightarrow> (k, s) \<in> set m"
  by (rule map_of_SomeD)

lemma next_blind:
  assumes "distinct (map fst current)"
  shows "map_of (Next (foldl (keep_state seen (close_unmounted i snap compiled now)) empty_result current)) k
       = (if is_firing (map_of current k) then map_of current k else None)"
proof (cases "map_of current k")
  case None
  then have "k \<notin> fst ` set current" by (simp add: map_of_eq_None_iff)
  from keep_loop.run_next_other [OF this] show ?thesis
    by (simp add: keep_state_step None is_firing_def empty_result_def)
next
  case (Some s)
  from map_of_SomeD [OF this] keep_loop.run_next [OF assms, of "(k, s)"] show ?thesis
    by (simp add: keep_state_step Some is_firing_def keep_step_def no_step_def empty_result_def)
qed

lemma next_usable:
  assumes "distinct (map fst current)" "distinct (map StateKey (Rules c))"
  shows "map_of (Next (foldl (close_unseen (seen_key (Some c)) (close_unmounted i (Some v) (Some c) now))
             (rule_result i v online observedAt c current now) current)) k
       = (case find (\<lambda>r. StateKey r = k) (Rules c) of
            Some rule \<Rightarrow> out_state (step_rule i v online observedAt now rule (map_of current k))
          | None \<Rightarrow> if is_firing (map_of current k) then map_of current k else None)"
    (is "map_of (Next ?R) k = _")
proof -
  let ?r = "rule_result i v online observedAt c current now"
  let ?st = "\<lambda>ks. unseen_step (seen_key (Some c)) (close_unmounted i (Some v) (Some c) now) ks"
  have second: "map_of (Next ?R) k =
      (if seen_key (Some c) k \<or> \<not> is_firing (map_of current k) then map_of (Next ?r) k else map_of current k)"
  proof (cases "map_of current k")
    case None
    then have "k \<notin> fst ` set current" by (simp add: map_of_eq_None_iff)
    from unseen_loop.run_next_other [OF this] show ?thesis by (simp add: close_unseen_step None is_firing_def)
  next
    case (Some s)
    from map_of_SomeD [OF this] unseen_loop.run_next [OF assms(1), of "(k, s)"] show ?thesis
      by (simp add: close_unseen_step Some is_firing_def unseen_step_def keep_step_def no_step_def)
  qed
  show ?thesis
  proof (cases "find (\<lambda>r. StateKey r = k) (Rules c)")
    case None
    then have "\<not> seen_key (Some c) k" "k \<notin> StateKey ` set (Rules c)"
      by (auto simp: find_None_iff seen_key_def)
    with second None rule_loop.run_next_other [OF this(2)] show ?thesis
      by (simp add: rule_result_def empty_result_def)
  next
    case (Some rule)
    then have rule: "rule \<in> set (Rules c)" "StateKey rule = k"
      by (auto simp: find_Some_iff)
    then have "seen_key (Some c) k" by (auto simp: seen_key_def)
    with second Some rule_loop.run_next [OF assms(2) rule(1)] rule(2) show ?thesis
      by (simp add: rule_result_def empty_result_def split: option.split)
  qed
qed

text \<open>What a step does to a firing state.\<close>

definition same_alert :: "RuntimeState \<Rightarrow> RuntimeState \<Rightarrow> bool" where
  "same_alert s s' \<longleftrightarrow> Phase s' = RuntimePhaseFiring \<and> EventID s' = EventID s \<and> FiringSince s' = FiringSince s \<and>
     LastDBHeartbeatAt s' = LastDBHeartbeatAt s \<and> State_RuleID s' = State_RuleID s \<and>
     State_Generation s' = State_Generation s"

lemma same_alert_refl: "Phase s = RuntimePhaseFiring \<Longrightarrow> same_alert s s"
  by (simp add: same_alert_def)

lemma same_alert_keepFiring: "Phase s = RuntimePhaseFiring \<Longrightarrow> same_alert s (keepFiringState s x t o')"
  by (simp add: same_alert_def keepFiringState_def)

lemma step_rule_firing:
  assumes "Phase s = RuntimePhaseFiring"
  shows "\<exists>s'. out_state (step_rule i v online observedAt now rule (Some s)) = Some s' \<and> same_alert s s'"
  using assms
  by (auto simp: step_defs is_firing_def phase_defs same_alert_refl same_alert_keepFiring
      split: prod.split sum.split)

subsection \<open>Conditions of a rule\<close>

text \<open>
  \<open>measured\<close>: the rule can be evaluated on the snapshot, with this value, threshold and time.
  \<open>in_cooldown\<close>: the stored state suppresses the rule.
\<close>

definition measured ::
    "NodeView \<Rightarrow> bool \<Rightarrow> time \<Rightarrow> time \<Rightarrow> CompiledRule \<Rightarrow> f64 \<Rightarrow> f64 \<Rightarrow> time \<Rightarrow> bool" where
  "measured v online observedAt now rule value threshold evalAt \<longleftrightarrow>
     (online \<or> isOfflineRule rule) \<and> metricValue rule (Some v) online observedAt now = (value, True, evalAt) \<and>
     EffectiveThreshold (rule_threshold rule) v = Inr threshold"

definition in_cooldown :: "RuntimeState option \<Rightarrow> time \<Rightarrow> bool" where
  "in_cooldown stored now =
     (case stored of Some s \<Rightarrow> Phase s = RuntimePhaseCooldown \<and> cooldownActive s now | None \<Rightarrow> False)"

definition drop_cooldown :: "RuntimeState option \<Rightarrow> RuntimeState option" where
  "drop_cooldown stored =
     (case stored of Some s \<Rightarrow> if Phase s = RuntimePhaseCooldown then None else Some s | None \<Rightarrow> None)"

lemma step_rule_cases:
  "step_rule i v online observedAt now rule stored =
     (if in_cooldown stored now then no_step\<lparr>out_state := stored\<rparr>
      else eval_rule i v online observedAt now rule (drop_cooldown stored))"
  by (auto simp: step_rule_def in_cooldown_def drop_cooldown_def split: option.split)

lemma is_firing_drop_cooldown [simp]: "is_firing (drop_cooldown stored) = is_firing stored"
  by (auto simp: is_firing_def drop_cooldown_def phase_defs split: option.split)

lemma firing_not_cooldown: "is_firing stored \<Longrightarrow> \<not> in_cooldown stored now \<and> drop_cooldown stored = stored"
  by (auto simp: is_firing_def in_cooldown_def drop_cooldown_def phase_defs split: option.splits)

lemma step_rule_open:
  "out_open (step_rule i v online observedAt now rule stored) = Some t \<longleftrightarrow>
   (\<exists>value threshold evalAt. measured v online observedAt now rule value threshold evalAt \<and>
      Compare (Operator rule) value threshold \<and> \<not> is_firing stored \<and> \<not> in_cooldown stored now \<and>
      durationSatisfied (pending_start rule (drop_cooldown stored) evalAt) (DurationSec rule) evalAt \<and>
      t = open_of i v rule evalAt value threshold)"
proof -
  have f: "is_firing stored = is_firing (drop_cooldown stored)" by simp
  show ?thesis
    unfolding f
    by (cases "drop_cooldown stored") (auto simp: step_rule_cases eval_rule_def measured_def no_step_def Let_def
        simp del: is_firing_drop_cooldown split: option.splits sum.splits prod.splits)
qed

lemma step_rule_close:
  "out_close (step_rule i v online observedAt now rule stored) = Some u \<longleftrightarrow>
   (\<exists>s value threshold evalAt. stored = Some s \<and> Phase s = RuntimePhaseFiring \<and>
      measured v online observedAt now rule value threshold evalAt \<and>
      \<not> Compare (Operator rule) value threshold \<and> u = close_cleared i v rule s evalAt value)"
proof (cases "is_firing stored")
  case True
  then obtain s where s: "stored = Some s" "Phase s = RuntimePhaseFiring"
    by (auto simp: is_firing_def split: option.splits)
  with firing_not_cooldown [OF True, of now] True show ?thesis
    by (auto simp: step_rule_cases eval_rule_def measured_def no_step_def Let_def split: sum.splits prod.splits)
next
  case False
  then show ?thesis
    by (auto simp: step_rule_cases eval_rule_def no_step_def is_firing_def drop_cooldown_def Let_def
        split: option.splits sum.splits prod.splits)
qed

lemma opens_usable:
  assumes "EvaluateServer i (Some v) (Some c) current now = Some r"
    and "snapshotObservedAt (Some v) = Some observedAt" and "snapshotOnline (Some v) now = Some online"
  shows "OpenTransitions r = List.map_filter
      (\<lambda>rule. out_open (step_rule i v online observedAt now rule (map_of current (StateKey rule)))) (Rules c)"
  using assms(1) unfolding EvaluateServer_usable [OF assms(2,3)]
  by (auto simp: close_unseen_step unseen_loop.run_opens rule_result_def rule_loop.run_opens empty_result_def)

lemma EvaluateServer_next_distinct:
  assumes "EvaluateServer i snapshot compiled current now = Some r" and "keys_ok compiled current"
  shows "distinct (map fst (Next r))"
  using assms(1)
proof (cases rule: EvaluateServer_cases)
  case blind
  then show ?thesis
    using keep_loop.run_next_distinct [of empty_result] by (simp add: keep_state_step empty_result_def)
next
  case (usable v c observedAt online)
  show ?thesis
    unfolding usable(5) close_unseen_step
    by (rule unseen_loop.run_next_distinct, unfold rule_result_def, rule rule_loop.run_next_distinct)
       (simp add: empty_result_def)
qed

subsection \<open>Properties\<close>

text \<open>
  A firing alert is never dropped by an evaluation: whatever the snapshot says, the next states
  hold the alert under its key, still firing, for the same event, with the same opening time, heartbeat
  time and rule generation. Only writing the close transition ends it.\<close>

theorem EvaluateServer_keeps_firing:
  assumes "EvaluateServer i snapshot compiled current now = Some r"
    and "keys_ok compiled current" and "map_of current k = Some s" and "Phase s = RuntimePhaseFiring"
  shows "\<exists>s'. map_of (Next r) k = Some s' \<and> same_alert s s'"
  using assms(1)
proof (cases rule: EvaluateServer_cases)
  case blind
  from assms(2) next_blind blind(2) assms(3,4) show ?thesis
    by (simp add: keys_ok_def is_firing_def same_alert_refl)
next
  case (usable v c observedAt online)
  from assms(2) usable(2) have "distinct (map fst current)" "distinct (map StateKey (Rules c))"
    by (simp_all add: keys_ok_def)
  from next_usable [OF this] usable(5) assms(3,4) step_rule_firing [OF assms(4)] show ?thesis
    by (simp add: is_firing_def same_alert_refl split: option.split)
qed

text \<open>
  C12. An event opens exactly when it should: on a usable snapshot an open transition is emitted for a
  rule iff the rule is mounted and measurable, its condition holds, it is neither firing nor in an
  unexpired cooldown, and the condition has been pending for the rule's duration.
\<close>

theorem EvaluateServer_opens:
  assumes "EvaluateServer i (Some v) (Some c) current now = Some r"
    and "snapshotObservedAt (Some v) = Some observedAt" and "snapshotOnline (Some v) now = Some online"
  shows "t \<in> set (OpenTransitions r) \<longleftrightarrow>
    (\<exists>rule value threshold evalAt. rule \<in> set (Rules c) \<and>
       measured v online observedAt now rule value threshold evalAt \<and>
       Compare (Operator rule) value threshold \<and>
       \<not> is_firing (map_of current (StateKey rule)) \<and> \<not> in_cooldown (map_of current (StateKey rule)) now \<and>
       pending_start rule (drop_cooldown (map_of current (StateKey rule))) evalAt \<noteq> zero_time \<and>
       time_sub evalAt (pending_start rule (drop_cooldown (map_of current (StateKey rule))) evalAt) \<ge> wrap64 (DurationSec rule * second_ns) \<and>
       t = open_of i v rule evalAt value threshold)"
proof -
  have "t \<in> set (OpenTransitions r) \<longleftrightarrow> (\<exists>rule \<in> set (Rules c).
      out_open (step_rule i v online observedAt now rule (map_of current (StateKey rule))) = Some t)"
    by (simp add: opens_usable [OF assms] in_map_filter)
  then show ?thesis by (auto simp: step_rule_open durationSatisfied_def)
qed

text \<open>
  C13. Events close for two reasons only, and always for the alert stored under the key: a measurable
  mounted rule whose condition no longer holds closes its firing alert as cleared, and a firing alert
  whose rule is not mounted any more is closed as unmounted. Every such alert is closed.
\<close>

theorem EvaluateServer_closes:
  assumes "EvaluateServer i (Some v) (Some c) current now = Some r"
    and "snapshotObservedAt (Some v) = Some observedAt" and "snapshotOnline (Some v) now = Some online"
  shows "u \<in> set (CloseTransitions r) \<longleftrightarrow>
    (\<exists>rule s value threshold evalAt. rule \<in> set (Rules c) \<and> map_of current (StateKey rule) = Some s \<and>
       Phase s = RuntimePhaseFiring \<and> measured v online observedAt now rule value threshold evalAt \<and>
       \<not> Compare (Operator rule) value threshold \<and> u = close_cleared i v rule s evalAt value) \<or>
    (\<exists>k s. (k, s) \<in> set current \<and> Phase s = RuntimePhaseFiring \<and> k \<notin> StateKey ` set (Rules c) \<and>
       u = close_unmounted i (Some v) (Some c) now (k, s))"
proof -
  let ?f = "\<lambda>rule. out_close (step_rule i v online observedAt now rule (map_of current (StateKey rule)))"
  let ?g = "\<lambda>ks. out_close (unseen_step (seen_key (Some c)) (close_unmounted i (Some v) (Some c) now) ks)"
  have "CloseTransitions r = List.map_filter ?f (Rules c) @ List.map_filter ?g current"
    using assms(1) unfolding EvaluateServer_usable [OF assms(2,3)]
    by (auto simp: close_unseen_step unseen_loop.run_closes rule_result_def rule_loop.run_closes empty_result_def)
  then have mem: "u \<in> set (CloseTransitions r) \<longleftrightarrow>
      (\<exists>rule \<in> set (Rules c). ?f rule = Some u) \<or> (\<exists>ks \<in> set current. ?g ks = Some u)"
    by (simp add: in_map_filter)
  have g: "?g ks = Some u \<longleftrightarrow> Phase (snd ks) = RuntimePhaseFiring \<and> fst ks \<notin> StateKey ` set (Rules c) \<and>
      u = close_unmounted i (Some v) (Some c) now ks" for ks
    by (auto simp: unseen_step_def keep_step_def no_step_def seen_key_def)
  show ?thesis unfolding mem step_rule_close g by (simp add: Bex_def conj_ac) blast
qed

text \<open>
  One evaluation never gives a key two transitions: the keys of all open and close transitions
  together are distinct, so no event is opened twice, closed twice, or opened and closed at once.
  The next states have one entry per key.\<close>

theorem EvaluateServer_one_transition:
  assumes "EvaluateServer i snapshot compiled current now = Some r" and "keys_ok compiled current"
  shows "distinct (map Open_StateKey (OpenTransitions r) @ map Close_StateKey (CloseTransitions r)) \<and>
     distinct (map fst (Next r))"
  using assms(1)
proof (cases rule: EvaluateServer_cases)
  case blind
  from assms(2) have d: "distinct (map fst current)" by (simp add: keys_ok_def)
  from keep_loop.transition_keys_distinct [OF d] EvaluateServer_next_distinct [OF assms] show ?thesis
    by (simp add: blind(2) keep_state_step keep_loop.run_opens keep_loop.run_closes empty_result_def)
next
  case (usable v c observedAt online)
  let ?f = "\<lambda>rule. step_rule i v online observedAt now rule (map_of current (StateKey rule))"
  let ?g = "unseen_step (seen_key (Some c)) (close_unmounted i (Some v) (Some c) now)"
  from assms(2) usable(2) have d: "distinct (map fst current)" "distinct (map StateKey (Rules c))"
    by (simp_all add: keys_ok_def)
  have r: "OpenTransitions r = List.map_filter (\<lambda>x. out_open (?f x)) (Rules c)"
    "CloseTransitions r = List.map_filter (\<lambda>x. out_close (?f x)) (Rules c) @ List.map_filter (\<lambda>x. out_close (?g x)) current"
    unfolding usable(5)
    by (simp_all add: close_unseen_step unseen_loop.run_opens unseen_loop.run_closes rule_result_def
        rule_loop.run_opens rule_loop.run_closes empty_result_def)
  have unseen: "Close_StateKey ` set (List.map_filter (\<lambda>x. out_close (?g x)) current) \<inter> StateKey ` set (Rules c) = {}"
    by (auto simp: List.map_filter_def unseen_step_def keep_step_def no_step_def seen_key_def close_unmounted_def
        split: if_splits)
  note EvaluateServer_next_distinct [OF assms]
  moreover have "distinct (map Open_StateKey (OpenTransitions r) @ map Close_StateKey (CloseTransitions r))"
  proof -
    have "distinct (map Close_StateKey (List.map_filter (\<lambda>x. out_close (?g x)) current))"
      using unseen_loop.transition_keys_distinct [OF d(1)] by (simp only: distinct_append)
    note rule_loop.transition_keys_distinct [OF d(2)] this rule_loop.open_keys_sub [folded set_map]
      rule_loop.close_keys_sub [folded set_map] unseen [folded set_map]
    from distinct_append3 [OF this] show ?thesis unfolding r map_append .
  qed
  ultimately show ?thesis by simp
qed

text \<open>
  Consecutive evaluations of one server, each starting from the states the last one returned; the
  result is that of the last evaluation.
\<close>

fun eval_run :: "int \<Rightarrow> CompiledRules \<Rightarrow> states \<Rightarrow> (NodeView \<times> time) list \<Rightarrow> EvalResult option" where
  "eval_run i c current [] = Some (empty_result\<lparr>Next := current\<rparr>)"
| "eval_run i c current [(v, now)] = EvaluateServer i (Some v) (Some c) current now"
| "eval_run i c current ((v, now) # w # ws) =
     (case EvaluateServer i (Some v) (Some c) current now of
        None \<Rightarrow> None | Some r \<Rightarrow> eval_run i c (Next r) (w # ws))"

definition condition_at :: "CompiledRule \<Rightarrow> NodeView \<times> time \<Rightarrow> time \<Rightarrow> bool" where
  "condition_at rule sample evalAt \<longleftrightarrow>
     (\<exists>observedAt online value threshold. snapshotObservedAt (Some (fst sample)) = Some observedAt \<and>
        snapshotOnline (Some (fst sample)) (snd sample) = Some online \<and>
        measured (fst sample) online observedAt (snd sample) rule value threshold evalAt \<and>
        Compare (Operator rule) value threshold)"

definition pending_from :: "CompiledRule \<Rightarrow> time \<Rightarrow> RuntimeState option \<Rightarrow> bool" where
  "pending_from rule since stored \<longleftrightarrow>
     (\<exists>s. stored = Some s \<and> Phase s = RuntimePhasePending \<and> PendingSince s = since) \<and>
     since \<noteq> zero_time \<and> trunc_sec since = since \<and> GenerationUpdatedAt rule \<le> since"

lemma pending_start_from: "pending_from rule since stored \<Longrightarrow> pending_start rule (drop_cooldown stored) evalAt = since"
  by (auto simp: pending_from_def pending_start_def drop_cooldown_def phase_defs)

lemma EvaluateServer_pending:
  assumes "condition_at rule (v, now) evalAt" "rule \<in> set (Rules c)" "pending_from rule since (map_of current (StateKey rule))"
    "keys_ok (Some c) current"
  obtains r where "EvaluateServer i (Some v) (Some c) current now = Some r" "keys_ok (Some c) (Next r)"
    "pending_from rule since (map_of (Next r) (StateKey rule))"
    "durationSatisfied since (DurationSec rule) evalAt \<Longrightarrow>
       \<exists>value threshold. open_of i v rule evalAt value threshold \<in> set (OpenTransitions r)"
proof -
  from assms(1) obtain observedAt online x thr where
    t: "snapshotObservedAt (Some v) = Some observedAt" "snapshotOnline (Some v) now = Some online" and
    m: "measured v online observedAt now rule x thr evalAt" "Compare (Operator rule) x thr"
    by (auto simp: condition_at_def)
  from EvaluateServer_usable [OF t, of i c current] obtain r where
    r: "EvaluateServer i (Some v) (Some c) current now = Some r" by blast
  from assms(4) have d: "distinct (map fst current)" "distinct (map StateKey (Rules c))" by (simp_all add: keys_ok_def)
  have find: "find (\<lambda>r. StateKey r = StateKey rule) (Rules c) = Some rule"
  proof (cases "find (\<lambda>r. StateKey r = StateKey rule) (Rules c)")
    case (Some x)
    then have "x \<in> set (Rules c)" "StateKey x = StateKey rule" by (auto simp: find_Some_iff)
    with d(2) assms(2) have "x = rule" by (metis distinct_map inj_onD)
    with Some show ?thesis by simp
  qed (use assms(2) in \<open>auto simp: find_None_iff\<close>)
  have nf: "\<not> is_firing (map_of current (StateKey rule))" "\<not> in_cooldown (map_of current (StateKey rule)) now"
    using assms(3) by (auto simp: pending_from_def in_cooldown_def phase_defs)
  have "distinct (map fst (Next r))" using EvaluateServer_next_distinct [OF r assms(4)] .
  then have "keys_ok (Some c) (Next r)" using assms(4) by (simp add: keys_ok_def)
  moreover have "map_of (Next r) (StateKey rule) = Some (newPendingState rule since evalAt x thr)"
    using next_usable [OF d, of i v now online observedAt "StateKey rule"] r m nf find
      pending_start_from [OF assms(3), of evalAt]
    unfolding EvaluateServer_usable [OF t]
    by (simp add: step_rule_cases eval_rule_def measured_def Let_def)
  then have "pending_from rule since (map_of (Next r) (StateKey rule))"
    using assms(3) by (simp add: pending_from_def newPendingState_def)
  moreover have "\<exists>value threshold. open_of i v rule evalAt value threshold \<in> set (OpenTransitions r)"
    if "durationSatisfied since (DurationSec rule) evalAt"
  proof -
    have "out_open (step_rule i v online observedAt now rule (map_of current (StateKey rule)))
        = Some (open_of i v rule evalAt x thr)"
      unfolding step_rule_open using that m nf by (metis pending_start_from [OF assms(3)])
    with assms(2) show ?thesis unfolding opens_usable [OF r t] in_map_filter by blast
  qed
  ultimately show thesis using r that by blast
qed

text \<open>
  C14. A condition that holds without a gap opens its event: if a rule has been pending since a second
  not before its generation and its condition holds at every evaluation of a run, then the run never
  fails, the pending time is not restarted, and the last evaluation opens the event as soon as the
  time since then reaches the rule's duration.
\<close>

theorem sustained_condition_opens:
  assumes "list_all2 (condition_at rule) (samples @ [(v, now)]) (evalAts @ [evalAt])"
    and "rule \<in> set (Rules c)" and "pending_from rule since (map_of current (StateKey rule))"
    and "keys_ok (Some c) current" and "durationSatisfied since (DurationSec rule) evalAt"
  shows "\<exists>r value threshold. eval_run i c current (samples @ [(v, now)]) = Some r \<and>
     open_of i v rule evalAt value threshold \<in> set (OpenTransitions r)"
  using assms
proof (induction samples arbitrary: current evalAts)
  case Nil
  then have "condition_at rule (v, now) evalAt" by (auto simp: list_all2_Cons1)
  from EvaluateServer_pending [OF this Nil.prems(2-4), of i] Nil.prems(5) show ?case by (metis append_Nil eval_run.simps(2))
next
  case (Cons sample samples)
  obtain v' n' where sample: "sample = (v', n')" by (cases sample)
  from Cons.prems(1) obtain e es where es: "evalAts = e # es" "condition_at rule (v', n') e"
    "list_all2 (condition_at rule) (samples @ [(v, now)]) (es @ [evalAt])"
    by (cases evalAts) (auto simp: sample list_all2_append1 list_all2_Cons1)
  from EvaluateServer_pending [OF es(2) Cons.prems(2-4), of i] obtain r where
    r: "EvaluateServer i (Some v') (Some c) current n' = Some r" "keys_ok (Some c) (Next r)"
    "pending_from rule since (map_of (Next r) (StateKey rule))" by blast
  have "eval_run i c current ((sample # samples) @ [(v, now)]) = eval_run i c (Next r) (samples @ [(v, now)])"
    by (cases samples) (simp_all add: sample r(1))
  with Cons.IH [OF es(3) Cons.prems(2) r(3,2) Cons.prems(5)] show ?case by simp
qed

subsection \<open>A worked example\<close>

text \<open>
  A node last heard of at 2026-01-02T03:04:05Z, evaluated a minute later: the offline rule 5 has been
  pending since half a minute, and an alert of a rule that is not mounted any more is firing.
\<close>

definition example_time :: time where "example_time = 63902919845 * 1000000000"
definition example_now :: time where "example_now = example_time + 60000000000"
definition example_since :: time where "example_since = example_time + 30000000000"

definition example_view :: NodeView where
  "example_view = zero_NodeView\<lparr>NodeView_Observation := zero_Observation\<lparr>
     Observation_ReceivedAt := ''2026-01-02T03:04:05Z'', Observation_ObservedAt := ''2026-01-02T03:04:05Z'',
     Observation_StaleAfterSec := 15\<rparr>\<rparr>"

definition example_offline :: CompiledRule where
  "example_offline = (bare_rule 5 1)\<lparr>Metric := ''node.offline'', Operator := ''>='', RuleThreshold := f1,
     DurationSec := 10, CooldownMin := 5\<rparr>"

definition example_set :: CompiledRules where
  "example_set = \<lparr>Rules = [example_offline], ByStateKey = [(''5:1'', example_offline)], Invalid = [], RefreshedAt = 0\<rparr>"

definition example_pending :: RuntimeState where
  "example_pending = newPendingState example_offline example_since example_since f1 f1"

definition example_firing :: RuntimeState where
  "example_firing = zero_RuntimeState\<lparr>Phase := RuntimePhaseFiring, State_RuleID := 8, State_Generation := 2,
     FiringSince := example_time, EventID := 41\<rparr>"

definition example_states :: states where
  "example_states = [(''5:1'', example_pending), (''8:2'', example_firing)]"

lemma example_parsed: "parse_rfc3339 (trim_space ''2026-01-02T03:04:05Z'') = Some example_time"
  unfolding example_time_def by code_simp

lemma example_key [simp]: "StateKey example_offline = ''5:1''"
  unfolding StateKey_def example_offline_def bare_rule_def by code_simp

lemma example_since_whole: "trunc_sec example_since = example_since" "example_since \<noteq> 0" "0 < example_since"
  unfolding example_since_def example_time_def by code_simp+

lemma example_observed [simp]: "snapshotObservedAt (Some example_view) = Some example_time"
  and example_online [simp]: "snapshotOnline (Some example_view) example_now = Some False"
proof -
  have raw: "trim_space ''2026-01-02T03:04:05Z'' \<noteq> []" by code_simp
  then show "snapshotObservedAt (Some example_view) = Some example_time"
    by (simp add: snapshotObservedAt_def example_view_def example_parsed)
  have "snapshotReceivedAt (Some example_view) = Some example_time"
    using raw by (simp add: snapshotReceivedAt_def example_view_def example_parsed)
  moreover have "wrap64 (max 15 0 * second_ns) = 15000000000" "example_time \<noteq> 0"
    "\<not> time_sub example_now example_time \<le> 15000000000"
    unfolding example_now_def example_time_def by code_simp+
  ultimately show "snapshotOnline (Some example_view) example_now = Some False"
    by (simp add: snapshotOnline_def example_view_def)
qed

lemma example_keys_ok [simp]: "keys_ok (Some example_set) example_states"
  by (simp add: keys_ok_def example_set_def example_states_def)

lemma example_stored [simp]:
  "map_of example_states ''5:1'' = Some example_pending" "map_of example_states ''8:2'' = Some example_firing"
  by (simp_all add: example_states_def)

lemma example_measured:
  "measured example_view False example_time example_now example_offline f1 f1 example_now"
  by (simp add: measured_def isOfflineRule_def metricValue_def rule_threshold_def EffectiveThreshold_def
      example_offline_def bare_rule_def finite64_def trim_space_Nil)

lemma example_compare: "Compare (Operator example_offline) f1 f1"
  by (simp add: Compare_def example_offline_def)

lemma example_satisfied: "durationSatisfied example_since (DurationSec example_offline) example_now"
proof -
  have "durationSatisfied example_since 10 example_now"
    unfolding example_since_def example_now_def example_time_def by code_simp
  then show ?thesis by (simp add: example_offline_def)
qed

lemma example_pending_from: "pending_from example_offline example_since (map_of example_states ''5:1'')"
proof -
  have "GenerationUpdatedAt example_offline = 0" by (simp add: example_offline_def bare_rule_def)
  with example_since_whole show ?thesis
    by (simp add: pending_from_def example_pending_def newPendingState_def)
qed

lemma example_evaluates:
  obtains r where "EvaluateServer 3 (Some example_view) (Some example_set) example_states example_now = Some r"
  using EvaluateServer_usable [OF example_observed example_online] by blast

lemma example_firing_phase [simp]: "Phase example_firing = RuntimePhaseFiring"
  by (simp add: example_firing_def)

theorem EvaluateServer_keeps_firing_witness:
  "\<exists>r s'. EvaluateServer 3 (Some example_view) (Some example_set) example_states example_now = Some r \<and>
     map_of (Next r) ''8:2'' = Some s' \<and> EventID s' = 41"
proof -
  obtain r where r: "EvaluateServer 3 (Some example_view) (Some example_set) example_states example_now = Some r"
    by (rule example_evaluates)
  from EvaluateServer_keeps_firing [OF r example_keys_ok example_stored(2) example_firing_phase] r show ?thesis
    by (auto simp: same_alert_def example_firing_def)
qed

theorem EvaluateServer_opens_witness:
  "\<exists>r. EvaluateServer 3 (Some example_view) (Some example_set) example_states example_now = Some r \<and>
     open_of 3 example_view example_offline example_now f1 f1 \<in> set (OpenTransitions r)"
proof -
  obtain r where r: "EvaluateServer 3 (Some example_view) (Some example_set) example_states example_now = Some r"
    by (rule example_evaluates)
  have "Phase example_pending = RuntimePhasePending" by (simp add: example_pending_def newPendingState_def)
  then have "\<not> is_firing (Some example_pending)" "\<not> in_cooldown (Some example_pending) example_now"
    by (simp_all add: phase_defs in_cooldown_def)
  moreover have "pending_start example_offline (drop_cooldown (Some example_pending)) example_now = example_since"
    using pending_start_from [OF example_pending_from] by simp
  ultimately have "open_of 3 example_view example_offline example_now f1 f1 \<in> set (OpenTransitions r)"
    unfolding EvaluateServer_opens [OF r example_observed example_online]
    by (intro exI [of _ example_offline] exI [of _ f1] exI [of _ example_now])
       (use example_satisfied in \<open>simp add: example_set_def example_measured example_compare durationSatisfied_def\<close>)
  with r show ?thesis by blast
qed

theorem EvaluateServer_closes_witness:
  "\<exists>r. EvaluateServer 3 (Some example_view) (Some example_set) example_states example_now = Some r \<and>
     close_unmounted 3 (Some example_view) (Some example_set) example_now (''8:2'', example_firing)
       \<in> set (CloseTransitions r)"
proof -
  obtain r where r: "EvaluateServer 3 (Some example_view) (Some example_set) example_states example_now = Some r"
    by (rule example_evaluates)
  have "(''8:2'', example_firing) \<in> set example_states" "''8:2'' \<notin> StateKey ` set (Rules example_set)"
    by (simp_all add: example_states_def example_set_def)
  then have "close_unmounted 3 (Some example_view) (Some example_set) example_now (''8:2'', example_firing)
       \<in> set (CloseTransitions r)"
    unfolding EvaluateServer_closes [OF r example_observed example_online] using example_firing_phase by blast
  with r show ?thesis by blast
qed

theorem EvaluateServer_one_transition_witness:
  "\<exists>r. EvaluateServer 3 (Some example_view) (Some example_set) example_states example_now = Some r \<and>
     distinct (map Open_StateKey (OpenTransitions r) @ map Close_StateKey (CloseTransitions r))"
proof -
  obtain r where r: "EvaluateServer 3 (Some example_view) (Some example_set) example_states example_now = Some r"
    by (rule example_evaluates)
  with EvaluateServer_one_transition [OF r example_keys_ok] show ?thesis by blast
qed

theorem sustained_condition_opens_witness:
  "\<exists>r x thr. eval_run 3 example_set example_states [(example_view, example_now), (example_view, example_now)] = Some r \<and>
     open_of 3 example_view example_offline example_now x thr \<in> set (OpenTransitions r)"
proof -
  have "condition_at example_offline (example_view, example_now) example_now"
    unfolding condition_at_def using example_measured example_compare by fastforce
  then have "list_all2 (condition_at example_offline) ([(example_view, example_now)] @ [(example_view, example_now)])
      ([example_now] @ [example_now])" by simp
  moreover have "example_offline \<in> set (Rules example_set)" by (simp add: example_set_def)
  moreover have "pending_from example_offline example_since (map_of example_states (StateKey example_offline))"
    using example_pending_from by simp
  ultimately show ?thesis
    using sustained_condition_opens [of example_offline "[(example_view, example_now)]" example_view example_now
        "[example_now]" example_now example_set example_since example_states 3]
      example_keys_ok example_satisfied by simp
qed

end
