(* ===== verification/Dirty_Queue.thy ===== *)
theory Dirty_Queue
  imports Go_Prelude Metric_Types
begin

text \<open>
  \<open>internal/store/alert/dirty_queue.go\<close>: the queue of servers whose alerts have to be evaluated, and
  the evaluation workers of \<open>internal/alert/service_eval.go\<close> that drain it.

  The mutex makes every operation between \<open>Lock\<close> and \<open>Unlock\<close> atomic, so each is a function on the
  queue. \<open>wakeup\<close> is a channel with a buffer of one: a flag that \<open>signal\<close> sets and a receive
  clears. The loop of \<open>next\<close> is split at its blocking point: \<open>scan\<close> is the part under the lock, and the
  blocked worker is a state of the worker system at the end of the theory.
\<close>

subsection \<open>The queue\<close>

record dirtyServerState =
  queued :: bool
  running :: bool
  dirtyAgain :: bool
  dirty_snapshot :: "NodeView option"

definition zero_dirty :: dirtyServerState where
  "zero_dirty = \<lparr>queued = False, running = False, dirtyAgain = False, dirty_snapshot = None\<rparr>"

record dirtyQueue =
  dirty_states :: "(int, dirtyServerState) gomap"
  ready :: "int list"
  head :: nat
  wakeup :: bool

definition newDirtyQueue :: dirtyQueue where
  "newDirtyQueue = \<lparr>dirty_states = [], ready = [], head = 0, wakeup = False\<rparr>"

definition signal :: "dirtyQueue \<Rightarrow> dirtyQueue" where
  "signal q = q\<lparr>wakeup := True\<rparr>"

definition compact :: "dirtyQueue \<Rightarrow> dirtyQueue" where
  "compact q =
     (if head q < 256 \<or> head q * 2 < length (ready q) then q
      else q\<lparr>ready := drop (head q) (ready q), head := 0\<rparr>)"

definition set_state :: "int \<Rightarrow> dirtyServerState \<Rightarrow> dirtyQueue \<Rightarrow> dirtyQueue" where
  "set_state i state q = q\<lparr>dirty_states := AList.update i state (dirty_states q)\<rparr>"

definition mark :: "dirtyQueue \<Rightarrow> int \<Rightarrow> NodeView option \<Rightarrow> dirtyQueue" where
  "mark q i snapshot =
     (if i \<le> 0 then q
      else let found = map_of (dirty_states q) i;
               state = (case found of Some s \<Rightarrow> s | None \<Rightarrow> zero_dirty);
               state = (case snapshot of Some _ \<Rightarrow> state\<lparr>dirty_snapshot := snapshot\<rparr> | None \<Rightarrow> state)
           in case found of
                None \<Rightarrow> signal ((set_state i (state\<lparr>queued := True\<rparr>) q)\<lparr>ready := ready q @ [i]\<rparr>)
              | Some _ \<Rightarrow> if running state then set_state i (state\<lparr>dirtyAgain := True\<rparr>) q
                         else set_state i state q)"

text \<open>\<open>next\<close> under the lock: the next id with its snapshot, or \<open>None\<close> when the caller has to wait.\<close>

function scan :: "dirtyQueue \<Rightarrow> (int \<times> NodeView option) option \<times> dirtyQueue" where
  "scan q =
     (if head q < length (ready q) then
        (let i = ready q ! head q;
             q = q\<lparr>ready := (ready q)[head q := 0], head := head q + 1\<rparr>
         in case map_of (dirty_states q) i of
              None \<Rightarrow> scan q
            | Some state \<Rightarrow>
                if \<not> queued state then scan q
                else (let state = state\<lparr>queued := False, running := True, dirtyAgain := False\<rparr>;
                          q = compact (set_state i state q)
                      in (Some (i, dirty_snapshot state), if head q < length (ready q) then signal q else q)))
      else (None, q\<lparr>ready := [], head := 0\<rparr>))"
  by pat_completeness auto

termination
  by (relation "measure (\<lambda>q. length (ready q) - head q)") auto

declare scan.simps [simp del]

definition finish :: "dirtyQueue \<Rightarrow> int \<Rightarrow> bool \<Rightarrow> dirtyQueue" where
  "finish q i retry =
     (if i \<le> 0 then q
      else case map_of (dirty_states q) i of
             None \<Rightarrow> q
           | Some state \<Rightarrow>
               if \<not> running state then q
               else let state = state\<lparr>running := False\<rparr>
                    in if retry \<or> dirtyAgain state
                       then signal ((set_state i (state\<lparr>queued := True, dirtyAgain := False\<rparr>) q)\<lparr>ready := ready q @ [i]\<rparr>)
                       else q\<lparr>dirty_states := AList.delete i (dirty_states q)\<rparr>)"

definition wake :: "dirtyQueue \<Rightarrow> dirtyQueue" where
  "wake q = q\<lparr>wakeup := False\<rparr>"

subsection \<open>Invariant and abstract view\<close>

definition waiting :: "dirtyQueue \<Rightarrow> int list" where
  "waiting q = drop (head q) (ready q)"

definition active_ids :: "dirtyQueue \<Rightarrow> int set" where
  "active_ids q = {i. \<exists>s. map_of (dirty_states q) i = Some s \<and> running s}"

definition redo_ids :: "dirtyQueue \<Rightarrow> int set" where
  "redo_ids q = {i. \<exists>s. map_of (dirty_states q) i = Some s \<and> running s \<and> dirtyAgain s}"

definition snapshot_of :: "dirtyQueue \<Rightarrow> int \<Rightarrow> NodeView option" where
  "snapshot_of q i = (case map_of (dirty_states q) i of Some s \<Rightarrow> dirty_snapshot s | None \<Rightarrow> None)"

definition state_ok :: "dirtyServerState \<Rightarrow> bool" where
  "state_ok s \<longleftrightarrow> queued s \<noteq> running s \<and> (dirtyAgain s \<longrightarrow> running s)"

definition queue_ok :: "dirtyQueue \<Rightarrow> bool" where
  "queue_ok q \<longleftrightarrow> head q \<le> length (ready q) \<and> distinct (waiting q) \<and>
     (\<forall>i. i \<in> set (waiting q) \<longleftrightarrow> (\<exists>s. map_of (dirty_states q) i = Some s \<and> queued s)) \<and>
     (\<forall>i s. map_of (dirty_states q) i = Some s \<longrightarrow> 0 < i \<and> state_ok s)"

lemmas queue_view = waiting_def active_ids_def redo_ids_def snapshot_of_def
lemmas queue_ops = mark_def finish_def signal_def set_state_def compact_def wake_def Let_def

lemma compact_simps [simp]:
  "dirty_states (compact q) = dirty_states q" "wakeup (compact q) = wakeup q"
  "waiting (compact q) = waiting q" "head q \<le> length (ready q) \<Longrightarrow> head (compact q) \<le> length (ready (compact q))"
  by (auto simp: compact_def waiting_def)

lemma signal_simps [simp]:
  "dirty_states (signal q) = dirty_states q" "ready (signal q) = ready q" "head (signal q) = head q"
  "waiting (signal q) = waiting q" "wakeup (signal q)"
  by (simp_all add: signal_def waiting_def)

lemma waiting_nonempty: "head q < length (ready q) \<longleftrightarrow> waiting q \<noteq> []"
  by (auto simp: waiting_def)

lemma scan_empty: "waiting q = [] \<Longrightarrow> scan q = (None, q\<lparr>ready := [], head := 0\<rparr>)"
  by (subst scan.simps) (simp add: waiting_nonempty)

text \<open>With the invariant the scan never skips an entry: it returns the first waiting id.\<close>

lemma scan_Cons:
  assumes "queue_ok q" "waiting q = i # is"
  obtains s q' where "map_of (dirty_states q) i = Some s" "queued s"
    "scan q = (Some (i, dirty_snapshot s), q')" "head q' \<le> length (ready q')" "waiting q' = is"
    "dirty_states q' = AList.update i (s\<lparr>queued := False, running := True, dirtyAgain := False\<rparr>) (dirty_states q)"
    "wakeup q' \<longleftrightarrow> wakeup q \<or> is \<noteq> []"
proof -
  have h: "head q < length (ready q)" using assms(2) waiting_nonempty by simp
  have i: "ready q ! head q = i" "drop (Suc (head q)) (ready q) = is"
    using assms(2) h by (simp_all add: waiting_def Cons_nth_drop_Suc [symmetric])
  have "i \<in> set (waiting q)" using assms(2) by simp
  then obtain s where s: "map_of (dirty_states q) i = Some s" "queued s"
    using assms(1) unfolding queue_ok_def by blast
  define q1 where "q1 = q\<lparr>ready := (ready q)[head q := 0], head := head q + 1\<rparr>"
  define q2 where "q2 = set_state i (s\<lparr>queued := False, running := True, dirtyAgain := False\<rparr>) q1"
  have w: "waiting q2 = is" "head q2 \<le> length (ready q2)" "wakeup q2 = wakeup q"
    using h i(2) by (simp_all add: q2_def q1_def waiting_def set_state_def drop_update_cancel)
  define q' where "q' = (if waiting (compact q2) \<noteq> [] then signal (compact q2) else compact q2)"
  have "scan q = (Some (i, dirty_snapshot s), q')"
    using h i(1) s by (subst scan.simps) (simp add: Let_def q'_def q2_def q1_def waiting_nonempty)
  moreover have "head q' \<le> length (ready q')" "waiting q' = is" "wakeup q' \<longleftrightarrow> wakeup q \<or> is \<noteq> []"
    "dirty_states q' = AList.update i (s\<lparr>queued := False, running := True, dirtyAgain := False\<rparr>) (dirty_states q)"
    using w by (auto simp: q'_def) (simp_all add: q2_def q1_def set_state_def)
  ultimately show thesis using s that by blast
qed

subsection \<open>The abstract queue\<close>

text \<open>
  What the queue promises: ids wait in first-in first-out order, at most once each; a taken id is
  active until it is finished; a mark of an active id asks for one more round (\<open>redo\<close>); the snapshot
  handed out is the last one marked.
\<close>

record work =
  w_waiting :: "int list"
  w_active :: "int set"
  w_redo :: "int set"
  w_snapshot :: "int \<Rightarrow> NodeView option"

definition work_new :: work where
  "work_new = \<lparr>w_waiting = [], w_active = {}, w_redo = {}, w_snapshot = (\<lambda>_. None)\<rparr>"

definition work_mark :: "work \<Rightarrow> int \<Rightarrow> NodeView option \<Rightarrow> work" where
  "work_mark w i snapshot =
     (if i \<le> 0 then w
      else w\<lparr>w_waiting := (if i \<in> set (w_waiting w) \<union> w_active w then w_waiting w else w_waiting w @ [i]),
             w_redo := (if i \<in> w_active w then insert i (w_redo w) else w_redo w),
             w_snapshot := (if snapshot = None then w_snapshot w else (w_snapshot w)(i := snapshot))\<rparr>)"

definition work_take :: "work \<Rightarrow> (int \<times> NodeView option) option \<times> work" where
  "work_take w =
     (case w_waiting w of
        [] \<Rightarrow> (None, w)
      | i # is \<Rightarrow> (Some (i, w_snapshot w i), w\<lparr>w_waiting := is, w_active := insert i (w_active w)\<rparr>))"

definition work_finish :: "work \<Rightarrow> int \<Rightarrow> bool \<Rightarrow> work" where
  "work_finish w i retry =
     (if i \<notin> w_active w then w
      else if retry \<or> i \<in> w_redo w
      then w\<lparr>w_waiting := w_waiting w @ [i], w_active := w_active w - {i}, w_redo := w_redo w - {i}\<rparr>
      else w\<lparr>w_active := w_active w - {i}, w_snapshot := (w_snapshot w)(i := None)\<rparr>)"

definition work_ok :: "work \<Rightarrow> bool" where
  "work_ok w \<longleftrightarrow> distinct (w_waiting w) \<and> set (w_waiting w) \<inter> w_active w = {} \<and> w_redo w \<subseteq> w_active w"

definition pending_ids :: "work \<Rightarrow> int set" where
  "pending_ids w = set (w_waiting w) \<union> w_redo w"

text \<open>
  The interface the workers rely on: an implementation simulates the abstract queue, and its wake-up
  token is set whenever ids become available without a scan under way.
\<close>

locale work_queue =
  fixes inv :: "'q \<Rightarrow> bool" and abs :: "'q \<Rightarrow> work" and token :: "'q \<Rightarrow> bool"
    and new_q :: 'q and mark_q :: "'q \<Rightarrow> int \<Rightarrow> NodeView option \<Rightarrow> 'q"
    and scan_q :: "'q \<Rightarrow> (int \<times> NodeView option) option \<times> 'q" and finish_q :: "'q \<Rightarrow> int \<Rightarrow> bool \<Rightarrow> 'q"
    and wake_q :: "'q \<Rightarrow> 'q"
  assumes new_ok: "inv new_q" and new_abs: "abs new_q = work_new"
    and inv_work: "inv q \<Longrightarrow> work_ok (abs q)"
    and mark_ok: "inv q \<Longrightarrow> inv (mark_q q i s)"
    and mark_abs: "inv q \<Longrightarrow> abs (mark_q q i s) = work_mark (abs q) i s"
    and mark_token: "inv q \<Longrightarrow> token q \<or> w_waiting (abs (mark_q q i s)) \<noteq> w_waiting (abs q) \<Longrightarrow> token (mark_q q i s)"
    and scan_ok: "inv q \<Longrightarrow> inv (snd (scan_q q))"
    and scan_abs: "inv q \<Longrightarrow> (fst (scan_q q), abs (snd (scan_q q))) = work_take (abs q)"
    and scan_token: "inv q \<Longrightarrow> w_waiting (abs (snd (scan_q q))) \<noteq> [] \<Longrightarrow> token (snd (scan_q q))"
    and finish_ok: "inv q \<Longrightarrow> inv (finish_q q i r)"
    and finish_abs: "inv q \<Longrightarrow> abs (finish_q q i r) = work_finish (abs q) i r"
    and finish_token: "inv q \<Longrightarrow> token q \<or> w_waiting (abs (finish_q q i r)) \<noteq> w_waiting (abs q) \<Longrightarrow> token (finish_q q i r)"
    and wake_ok: "inv q \<Longrightarrow> inv (wake_q q)" and wake_abs: "inv q \<Longrightarrow> abs (wake_q q) = abs q"
begin

lemma pending_mark: "inv q \<Longrightarrow> pending_ids (abs (mark_q q i s)) = pending_ids (abs q) \<union> {i. 0 < i} \<inter> {i}"
  using inv_work [of q] by (auto simp: mark_abs work_mark_def pending_ids_def work_ok_def)

lemma active_mark: "inv q \<Longrightarrow> w_active (abs (mark_q q i s)) = w_active (abs q)"
  by (simp add: mark_abs work_mark_def)

lemma scan_take:
  assumes "inv q" "scan_q q = (Some (i, s), q')"
  shows "inv q'" "i \<notin> w_active (abs q)" "w_active (abs q') = insert i (w_active (abs q))"
    "pending_ids (abs q') = pending_ids (abs q) - {i}" "s = w_snapshot (abs q) i"
  using scan_ok [OF assms(1)] scan_abs [OF assms(1)] inv_work [OF assms(1)] assms(2)
  by (auto simp: work_take_def pending_ids_def work_ok_def split: list.splits)

lemma scan_none:
  assumes "inv q" "scan_q q = (None, q')"
  shows "inv q'" "w_waiting (abs q) = []" "abs q' = abs q"
  using scan_ok [OF assms(1)] scan_abs [OF assms(1)] assms(2) by (auto simp: work_take_def split: list.splits)

lemma active_finish: "inv q \<Longrightarrow> w_active (abs (finish_q q i r)) = w_active (abs q) - {i}"
  by (simp add: finish_abs work_finish_def)

lemma pending_finish: "inv q \<Longrightarrow> pending_ids (abs q) \<subseteq> pending_ids (abs (finish_q q i r))"
  using inv_work [of q] by (auto simp: finish_abs work_finish_def pending_ids_def work_ok_def)

end

definition abs_queue :: "dirtyQueue \<Rightarrow> work" where
  "abs_queue q = \<lparr>w_waiting = waiting q, w_active = active_ids q, w_redo = redo_ids q, w_snapshot = snapshot_of q\<rparr>"

lemma abs_queue_simps [simp]:
  "w_waiting (abs_queue q) = waiting q" "w_active (abs_queue q) = active_ids q"
  "w_redo (abs_queue q) = redo_ids q" "w_snapshot (abs_queue q) = snapshot_of q"
  by (simp_all add: abs_queue_def)

lemma queue_ok_stateD: "queue_ok q \<Longrightarrow> map_of (dirty_states q) i = Some s \<Longrightarrow> 0 < i \<and> state_ok s"
  by (simp add: queue_ok_def)

lemma queue_ok_waiting: "queue_ok q \<Longrightarrow> i \<in> set (waiting q) \<longleftrightarrow> (\<exists>s. map_of (dirty_states q) i = Some s \<and> queued s)"
  by (simp add: queue_ok_def)

lemma queue_ok_work: "queue_ok q \<Longrightarrow> work_ok (abs_queue q)"
  by (auto simp: work_ok_def queue_ok_waiting active_ids_def redo_ids_def state_ok_def queue_ok_def)

subsection \<open>The queue simulates it\<close>

definition with_snapshot :: "NodeView option \<Rightarrow> dirtyServerState \<Rightarrow> dirtyServerState" where
  "with_snapshot snapshot s = (case snapshot of Some _ \<Rightarrow> s\<lparr>dirty_snapshot := snapshot\<rparr> | None \<Rightarrow> s)"

lemma with_snapshot_simps [simp]:
  "queued (with_snapshot v s) = queued s" "running (with_snapshot v s) = running s"
  "dirtyAgain (with_snapshot v s) = dirtyAgain s"
  "dirty_snapshot (with_snapshot v s) = (if v = None then dirty_snapshot s else v)"
  by (simp_all add: with_snapshot_def split: option.split)

lemma mark_cases:
  assumes "queue_ok q"
  obtains (nop) "i \<le> 0" "mark q i v = q"
  | (fresh) q' where "0 < i" "map_of (dirty_states q) i = None" "mark q i v = q'" "wakeup q'"
      "map_of (dirty_states q') = (map_of (dirty_states q))(i \<mapsto> (with_snapshot v zero_dirty)\<lparr>queued := True\<rparr>)"
      "waiting q' = waiting q @ [i]" "head q' \<le> length (ready q')"
  | (again) s s' q' where "0 < i" "map_of (dirty_states q) i = Some s" "mark q i v = q'" "wakeup q' = wakeup q"
      "s' = (if running s then (with_snapshot v s)\<lparr>dirtyAgain := True\<rparr> else with_snapshot v s)"
      "map_of (dirty_states q') = (map_of (dirty_states q))(i \<mapsto> s')"
      "waiting q' = waiting q" "head q' \<le> length (ready q')"
proof (cases "i \<le> 0")
  case True
  then show thesis by (intro nop) (simp_all add: mark_def)
next
  case False
  have h: "head q \<le> length (ready q)" using assms by (simp add: queue_ok_def)
  show thesis
  proof (cases "map_of (dirty_states q) i")
    case None
    show thesis
      by (rule fresh [of "mark q i v"])
         (use False h None in \<open>auto simp: mark_def with_snapshot_def set_state_def waiting_def Let_def split: option.split\<close>)
  next
    case (Some s)
    show thesis
      by (rule again [of s "mark q i v"])
         (use False h Some in \<open>auto simp: mark_def with_snapshot_def set_state_def waiting_def Let_def split: option.splits\<close>)
  qed
qed

lemma zero_dirty_simps [simp]:
  "queued zero_dirty = False" "running zero_dirty = False" "dirtyAgain zero_dirty = False" "dirty_snapshot zero_dirty = None"
  by (simp_all add: zero_dirty_def)

lemma mark_ok: "queue_ok q \<Longrightarrow> queue_ok (mark q i v)"
proof -
  assume q: "queue_ok q"
  then show "queue_ok (mark q i v)"
  proof (cases rule: mark_cases [of q i v])
    case (fresh q')
    with q show ?thesis by (auto simp: queue_ok_def state_ok_def)
  next
    case (again s s' q')
    with q queue_ok_stateD [OF q again(2)] show ?thesis
      by (auto simp: queue_ok_def state_ok_def)
  qed (use q in simp)
qed

lemma mark_abs:
  assumes q: "queue_ok q"
  shows "abs_queue (mark q i v) = work_mark (abs_queue q) i v"
  using q
proof (cases rule: mark_cases [of q i v])
  case nop
  then show ?thesis by (simp add: work_mark_def)
next
  case (fresh q')
  then have "i \<notin> set (waiting q)" "i \<notin> active_ids q"
    using q by (simp_all add: queue_ok_waiting active_ids_def)
  with fresh show ?thesis
    by (auto simp: work_mark_def abs_queue_def active_ids_def redo_ids_def snapshot_of_def fun_eq_iff)
next
  case (again s s' q')
  then have "i \<in> set (waiting q) \<or> i \<in> active_ids q" "i \<in> active_ids q \<longleftrightarrow> running s"
    using q queue_ok_stateD [OF q again(2)] by (auto simp: queue_ok_waiting active_ids_def state_ok_def)
  with again show ?thesis
    by (auto simp: work_mark_def abs_queue_def active_ids_def redo_ids_def snapshot_of_def fun_eq_iff)
qed

lemma mark_token:
  assumes "queue_ok q" "wakeup q \<or> waiting (mark q i v) \<noteq> waiting q"
  shows "wakeup (mark q i v)"
  using assms(1)
proof (cases rule: mark_cases [of q i v])
  case (again s s' q')
  with assms(2) show ?thesis by simp
qed (use assms(2) in auto)

lemma scan_ok_abs:
  assumes q: "queue_ok q"
  shows "queue_ok (snd (scan q))" "(fst (scan q), abs_queue (snd (scan q))) = work_take (abs_queue q)"
    "waiting (snd (scan q)) \<noteq> [] \<Longrightarrow> wakeup (snd (scan q))"
proof -
  have "queue_ok (snd (scan q)) \<and> (fst (scan q), abs_queue (snd (scan q))) = work_take (abs_queue q) \<and>
    (waiting (snd (scan q)) \<noteq> [] \<longrightarrow> wakeup (snd (scan q)))"
  proof (cases "waiting q")
    case Nil
    with q show ?thesis
      by (simp add: scan_empty work_take_def abs_queue_def queue_ok_def active_ids_def redo_ids_def)
         (simp add: waiting_def snapshot_of_def fun_eq_iff)
  next
    case (Cons i "is")
    obtain s q' where s: "map_of (dirty_states q) i = Some s" "queued s" "scan q = (Some (i, dirty_snapshot s), q')"
      "head q' \<le> length (ready q')" "waiting q' = is"
      "dirty_states q' = AList.update i (s\<lparr>queued := False, running := True, dirtyAgain := False\<rparr>) (dirty_states q)"
      "wakeup q' \<longleftrightarrow> wakeup q \<or> is \<noteq> []"
      by (rule scan_Cons [OF q Cons])
    have d: "distinct (i # is)" using q Cons by (simp add: queue_ok_def)
    have mem: "j \<in> set is \<longleftrightarrow> j \<noteq> i \<and> (\<exists>s. map_of (dirty_states q) j = Some s \<and> queued s)" for j
      using queue_ok_waiting [OF q, of j] d Cons by auto
    have "queue_ok q'"
      using q s d mem by (auto simp: queue_ok_def state_ok_def)
    moreover have "\<not> running s" using queue_ok_stateD [OF q s(1)] s(2) by (simp add: state_ok_def)
    ultimately show ?thesis
      using s Cons
      by (auto simp: work_take_def abs_queue_def active_ids_def redo_ids_def snapshot_of_def fun_eq_iff)
  qed
  then show "queue_ok (snd (scan q))" "(fst (scan q), abs_queue (snd (scan q))) = work_take (abs_queue q)"
    "waiting (snd (scan q)) \<noteq> [] \<Longrightarrow> wakeup (snd (scan q))" by simp_all
qed

lemma finish_cases:
  assumes "queue_ok q"
  obtains (nop) "i \<notin> active_ids q" "finish q i r = q"
  | (requeue) s q' where "map_of (dirty_states q) i = Some s" "running s" "r \<or> dirtyAgain s" "finish q i r = q'"
      "wakeup q'" "waiting q' = waiting q @ [i]" "head q' \<le> length (ready q')"
      "map_of (dirty_states q') = (map_of (dirty_states q))(i \<mapsto> s\<lparr>running := False, queued := True, dirtyAgain := False\<rparr>)"
  | (remove) s q' where "map_of (dirty_states q) i = Some s" "running s" "\<not> r" "\<not> dirtyAgain s" "finish q i r = q'"
      "wakeup q' = wakeup q" "waiting q' = waiting q" "head q' \<le> length (ready q')"
      "map_of (dirty_states q') = (map_of (dirty_states q))(i := None)"
proof (cases "i \<in> active_ids q")
  case False
  then show thesis by (intro nop) (auto simp: finish_def active_ids_def split: option.split)
next
  case True
  then obtain s where s: "map_of (dirty_states q) i = Some s" "running s" by (auto simp: active_ids_def)
  have h: "0 < i" "head q \<le> length (ready q)"
    using queue_ok_stateD [OF assms s(1)] assms by (simp_all add: queue_ok_def)
  show thesis
  proof (cases "r \<or> dirtyAgain s")
    case True
    show thesis
      by (rule requeue [OF s True refl])
         (use h s True in \<open>auto simp: finish_def set_state_def waiting_def Let_def\<close>)
  next
    case False
    show thesis
      by (rule remove [OF s _ _ refl]) (use h s False in \<open>auto simp: finish_def waiting_def Let_def\<close>)
  qed
qed

lemma finish_ok: "queue_ok q \<Longrightarrow> queue_ok (finish q i r)"
proof -
  assume q: "queue_ok q"
  then show "queue_ok (finish q i r)"
  proof (cases rule: finish_cases [of q i r])
    case (requeue s q')
    with queue_ok_stateD [OF q requeue(1)] queue_ok_waiting [OF q, of i] have "i \<notin> set (waiting q)" "0 < i"
      by (auto simp: state_ok_def)
    with q requeue show ?thesis by (auto simp: queue_ok_def state_ok_def)
  next
    case (remove s q')
    with queue_ok_stateD [OF q remove(1)] queue_ok_waiting [OF q, of i] have "i \<notin> set (waiting q)"
      by (auto simp: state_ok_def)
    with q remove show ?thesis by (auto simp: queue_ok_def)
  qed (use q in simp)
qed

lemma finish_abs:
  assumes q: "queue_ok q"
  shows "abs_queue (finish q i r) = work_finish (abs_queue q) i r"
  using q
proof (cases rule: finish_cases [of q i r])
  case nop
  then show ?thesis by (simp add: work_finish_def)
next
  case (requeue s q')
  then have "i \<in> active_ids q" "r \<or> i \<in> redo_ids q" by (auto simp: active_ids_def redo_ids_def)
  with requeue show ?thesis
    by (auto simp: work_finish_def abs_queue_def active_ids_def redo_ids_def snapshot_of_def fun_eq_iff)
next
  case (remove s q')
  then have "i \<in> active_ids q" "\<not> (r \<or> i \<in> redo_ids q)" by (auto simp: active_ids_def redo_ids_def)
  with remove show ?thesis
    by (auto simp: work_finish_def abs_queue_def active_ids_def redo_ids_def snapshot_of_def fun_eq_iff)
qed

lemma finish_token:
  assumes "queue_ok q" "wakeup q \<or> waiting (finish q i r) \<noteq> waiting q"
  shows "wakeup (finish q i r)"
  using assms(1)
proof (cases rule: finish_cases [of q i r])
  case nop
  with assms(2) show ?thesis by simp
next
  case (requeue s q')
  then show ?thesis by simp
next
  case (remove s q')
  with assms(2) show ?thesis by simp
qed

lemma wake_view [simp]:
  "queue_ok (wake q) = queue_ok q" "abs_queue (wake q) = abs_queue q" "wakeup (wake q) = False"
  by (simp_all add: wake_def queue_ok_def abs_queue_def queue_view fun_eq_iff)

interpretation dq: work_queue queue_ok abs_queue wakeup newDirtyQueue mark scan finish wake
proof unfold_locales
  show "queue_ok newDirtyQueue" "abs_queue newDirtyQueue = work_new"
    by (simp_all add: newDirtyQueue_def queue_ok_def abs_queue_def work_new_def queue_view fun_eq_iff)
next
  fix q i s assume "queue_ok q" "wakeup q \<or> w_waiting (abs_queue (mark q i s)) \<noteq> w_waiting (abs_queue q)"
  then show "wakeup (mark q i s)" by (intro mark_token) (simp_all only: abs_queue_simps)
next
  fix q i r assume "queue_ok q" "wakeup q \<or> w_waiting (abs_queue (finish q i r)) \<noteq> w_waiting (abs_queue q)"
  then show "wakeup (finish q i r)" by (intro finish_token) (simp_all only: abs_queue_simps)
qed (simp_all add: queue_ok_work mark_ok mark_abs scan_ok_abs finish_ok finish_abs)

subsection \<open>The evaluation workers\<close>

text \<open>
  \<open>runEvalWorker\<close>: a worker calls \<open>next\<close> (\<open>Scanning\<close>), blocks in its select when nothing waits
  (\<open>Blocked\<close>), evaluates an id (\<open>Working\<close>), and finishes it, with a retry when the evaluation failed.
  A cancelled context ends a blocked worker, and a worker whose evaluation failed. \<open>marked\<close> is a history
  variable: the ids marked since their last evaluation began.
\<close>

datatype worker = Scanning | Blocked | Working int | Stopped

record system =
  queue :: dirtyQueue
  worker_of :: "nat \<Rightarrow> worker"
  marked :: "int set"

definition evalWorkers :: nat where "evalWorkers = 4"

definition start :: system where
  "start = \<lparr>queue = newDirtyQueue, worker_of = (\<lambda>n. if n < evalWorkers then Scanning else Stopped), marked = {}\<rparr>"

inductive sys_step :: "system \<Rightarrow> system \<Rightarrow> bool" where
  Mark: "sys_step s (s\<lparr>queue := mark (queue s) i v, marked := (if 0 < i then insert i (marked s) else marked s)\<rparr>)"
| Take: "worker_of s n = Scanning \<Longrightarrow> scan (queue s) = (Some (i, v), q) \<Longrightarrow>
    sys_step s (s\<lparr>queue := q, worker_of := (worker_of s)(n := Working i), marked := marked s - {i}\<rparr>)"
| Idle: "worker_of s n = Scanning \<Longrightarrow> scan (queue s) = (None, q) \<Longrightarrow>
    sys_step s (s\<lparr>queue := q, worker_of := (worker_of s)(n := Blocked)\<rparr>)"
| Wake: "worker_of s n = Blocked \<Longrightarrow> wakeup (queue s) \<Longrightarrow>
    sys_step s (s\<lparr>queue := wake (queue s), worker_of := (worker_of s)(n := Scanning)\<rparr>)"
| Done: "worker_of s n = Working i \<Longrightarrow>
    sys_step s (s\<lparr>queue := finish (queue s) i retry, worker_of := (worker_of s)(n := Scanning)\<rparr>)"
| Fail: "worker_of s n = Working i \<Longrightarrow>
    sys_step s (s\<lparr>queue := finish (queue s) i True, worker_of := (worker_of s)(n := Stopped)\<rparr>)"
| Stop: "worker_of s n = Blocked \<Longrightarrow> sys_step s (s\<lparr>worker_of := (worker_of s)(n := Stopped)\<rparr>)"

inductive_cases sys_stepE: "sys_step s t"

inductive reachable :: "system \<Rightarrow> bool" where
  init: "reachable start"
| step: "reachable s \<Longrightarrow> sys_step s t \<Longrightarrow> reachable t"

definition busy :: "(nat \<Rightarrow> worker) \<Rightarrow> int set" where
  "busy f = {i. \<exists>n. f n = Working i}"

definition exclusive :: "(nat \<Rightarrow> worker) \<Rightarrow> bool" where
  "exclusive f \<longleftrightarrow> (\<forall>n m i. f n = Working i \<longrightarrow> f m = Working i \<longrightarrow> n = m)"

lemma busy_take: "f n = Scanning \<Longrightarrow> busy (f(n := Working i)) = insert i (busy f)"
  by (auto simp: busy_def) (metis worker.distinct(3))

lemma busy_idle: "f n = Scanning \<or> f n = Blocked \<Longrightarrow> w = Scanning \<or> w = Blocked \<or> w = Stopped \<Longrightarrow> busy (f(n := w)) = busy f"
  by (auto simp: busy_def) (metis worker.distinct)+

lemma busy_done: "exclusive f \<Longrightarrow> f n = Working i \<Longrightarrow> w = Scanning \<or> w = Stopped \<Longrightarrow> busy (f(n := w)) = busy f - {i}"
  by (auto simp: busy_def exclusive_def) (metis worker.inject)+

lemma exclusive_take: "exclusive f \<Longrightarrow> i \<notin> busy f \<Longrightarrow> exclusive (f(n := Working i))"
  by (auto simp: exclusive_def busy_def)

lemma exclusive_idle: "exclusive f \<Longrightarrow> w = Scanning \<or> w = Blocked \<or> w = Stopped \<Longrightarrow> exclusive (f(n := w))"
  by (auto simp: exclusive_def)

definition working_ok :: "system \<Rightarrow> bool" where
  "working_ok s \<longleftrightarrow> exclusive (worker_of s) \<and> active_ids (queue s) = busy (worker_of s)"

lemmas busy_simps = busy_take busy_idle busy_done exclusive_take exclusive_idle

definition scanning :: "(nat \<Rightarrow> worker) \<Rightarrow> bool" where
  "scanning f \<longleftrightarrow> (\<exists>n. f n = Scanning)"

definition wakeup_ok :: "system \<Rightarrow> bool" where
  "wakeup_ok s \<longleftrightarrow> waiting (queue s) = [] \<or> wakeup (queue s) \<or> scanning (worker_of s)"

lemma scanning_now [simp]: "scanning (f(n := Scanning))"
  by (auto simp: scanning_def)

lemma scanning_other: "f n \<noteq> Scanning \<Longrightarrow> w \<noteq> Scanning \<Longrightarrow> scanning (f(n := w)) = scanning f"
  by (auto simp: scanning_def)

definition system_ok :: "system \<Rightarrow> bool" where
  "system_ok s \<longleftrightarrow> queue_ok (queue s) \<and> working_ok s \<and> marked s \<subseteq> pending_ids (abs_queue (queue s)) \<and> wakeup_ok s"

lemma start_ok: "system_ok start"
  using dq.new_ok dq.new_abs
  by (auto simp: system_ok_def start_def working_ok_def wakeup_ok_def abs_queue_def work_new_def busy_def exclusive_def)

lemma step_ok: "sys_step s t \<Longrightarrow> system_ok s \<Longrightarrow> system_ok t"
proof (induction rule: sys_step.induct)
  case (Mark s i v)
  then have q: "queue_ok (queue s)" and w: "wakeup_ok s" by (simp_all add: system_ok_def)
  from w mark_token [OF q, of i v] have "wakeup_ok (s\<lparr>queue := mark (queue s) i v, marked := m\<rparr>)" for m
    by (auto simp: wakeup_ok_def)
  with Mark dq.active_mark [OF q] dq.pending_mark [OF q] mark_ok [OF q] show ?case
    by (auto simp: system_ok_def working_ok_def)
next
  case (Take s n i v q)
  then have q: "queue_ok (queue s)" by (simp add: system_ok_def)
  note facts = dq.scan_take [OF q Take(2)]
  have "waiting q \<noteq> [] \<Longrightarrow> wakeup q" using scan_ok_abs(3) [OF q] Take(2) by simp
  with Take facts show ?case
    by (auto simp: system_ok_def working_ok_def wakeup_ok_def busy_simps)
next
  case (Idle s n q)
  then have q: "queue_ok (queue s)" by (simp add: system_ok_def)
  note facts = dq.scan_none [OF q Idle(2)]
  from facts(3) have "waiting q = waiting (queue s)" "active_ids q = active_ids (queue s)"
    by (simp_all add: abs_queue_def)
  with Idle facts show ?case by (auto simp: system_ok_def working_ok_def wakeup_ok_def busy_simps)
next
  case (Wake s n)
  have "active_ids (wake (queue s)) = active_ids (queue s)" by (simp add: wake_def active_ids_def)
  with Wake show ?case by (auto simp: system_ok_def working_ok_def wakeup_ok_def busy_simps)
next
  case (Done s n i retry)
  then have q: "queue_ok (queue s)" by (simp add: system_ok_def)
  with Done dq.active_finish [OF q, of i retry] dq.pending_finish [OF q, of i retry] finish_ok [OF q]
  show ?case by (auto simp: system_ok_def working_ok_def wakeup_ok_def busy_simps)
next
  case (Fail s n i)
  then have q: "queue_ok (queue s)" and w: "wakeup_ok s" and a: "i \<in> active_ids (queue s)"
    by (auto simp: system_ok_def working_ok_def busy_def)
  have "waiting (finish (queue s) i True) \<noteq> waiting (queue s)"
    using finish_abs [OF q, of i True] a by (simp add: abs_queue_def work_finish_def)
  then have "wakeup (finish (queue s) i True)" using finish_token [OF q] by blast
  with Fail dq.active_finish [OF q, of i True] dq.pending_finish [OF q, of i True] finish_ok [OF q]
  show ?case by (auto simp: system_ok_def working_ok_def wakeup_ok_def busy_simps)
next
  case (Stop s n)
  from Stop have "scanning ((worker_of s)(n := Stopped)) = scanning (worker_of s)"
    by (intro scanning_other) simp_all
  with Stop show ?case by (auto simp: system_ok_def working_ok_def wakeup_ok_def busy_simps)
qed

lemma reachable_ok: "reachable s \<Longrightarrow> system_ok s"
  by (induction rule: reachable.induct) (simp_all add: start_ok step_ok)

lemma reachable_step2: "reachable s \<Longrightarrow> sys_step s t \<Longrightarrow> sys_step t u \<Longrightarrow> reachable u"
  by (blast intro: reachable.step)

definition taken :: "system \<Rightarrow> nat \<Rightarrow> int \<Rightarrow> dirtyQueue \<Rightarrow> system" where
  "taken s n i q = s\<lparr>queue := q, worker_of := (worker_of s)(n := Working i), marked := marked s - {i}\<rparr>"

lemma taken_simps [simp]:
  "worker_of (taken s n i q) = (worker_of s)(n := Working i)" "marked (taken s n i q) = marked s - {i}"
  by (simp_all add: taken_def)

lemma take_waiting:
  assumes "queue_ok (queue s)" "waiting (queue s) = i # is" "worker_of s n = Scanning"
  obtains q where "sys_step s (taken s n i q)"
proof -
  obtain v q where "scan (queue s) = (Some (i, v), q)" using scan_Cons [OF assms(1,2)] .
  from sys_step.Take [OF assms(3) this] that show thesis by (simp add: taken_def)
qed

subsection \<open>Properties\<close>

text \<open>
  C15. The dirty queue, with its head index, its compaction and its per-server flags, implements the
  abstract queue: each operation keeps the invariant and acts on the abstract view exactly as the
  first-in first-out queue with one pending round per server does; in particular \<open>next\<close> hands out the
  longest waiting server with the last snapshot marked for it.
\<close>

theorem dirty_queue_refines:
  assumes "queue_ok q"
  shows "queue_ok (mark q i v) \<and> queue_ok (snd (scan q)) \<and> queue_ok (finish q i retry) \<and>
     abs_queue (mark q i v) = work_mark (abs_queue q) i v \<and>
     (fst (scan q), abs_queue (snd (scan q))) = work_take (abs_queue q) \<and>
     abs_queue (finish q i retry) = work_finish (abs_queue q) i retry"
  by (intro conjI mark_ok mark_abs finish_ok finish_abs scan_ok_abs(1,2) assms)

theorem dirty_queue_refines_witness:
  "fst (scan (mark (mark newDirtyQueue 3 None) 9 None)) = Some (3, None)"
proof -
  note m = dirty_queue_refines [OF dirty_queue_refines [OF dq.new_ok, of 3 None True, THEN conjunct1], of 9 None True]
  have "abs_queue (mark (mark newDirtyQueue 3 None) 9 None) = work_mark (work_mark work_new 3 None) 9 None"
    using m dirty_queue_refines [OF dq.new_ok, of 3 None True] by (simp add: dq.new_abs)
  with dirty_queue_refines [OF m [THEN conjunct1], of 1 None True] show ?thesis
    by (simp add: work_take_def work_mark_def work_new_def)
qed

text \<open>
  C7. No mark is lost, in any interleaving of marks, workers, retries and shutdown: a server marked
  since its last evaluation began is waiting in the queue, or it is being evaluated right now with
  another round already requested.
\<close>

theorem no_mark_lost:
  assumes "reachable s" and "i \<in> marked s"
  shows "i \<in> set (waiting (queue s)) \<or> (\<exists>n. worker_of s n = Working i \<and> i \<in> redo_ids (queue s))"
  using reachable_ok [OF assms(1)] assms(2) queue_ok_work [of "queue s"]
  by (auto simp: system_ok_def pending_ids_def working_ok_def busy_def work_ok_def)

text \<open>
  C16. A server is never evaluated by two workers at once, and never waits while it is evaluated.
\<close>

theorem workers_exclusive:
  assumes "reachable s" and "worker_of s n = Working i"
  shows "i \<notin> set (waiting (queue s)) \<and> (worker_of s m = Working i \<longleftrightarrow> m = n)"
  using reachable_ok [OF assms(1)] assms(2) queue_ok_work [of "queue s"]
  by (auto simp: system_ok_def working_ok_def busy_def work_ok_def exclusive_def)

text \<open>
  C17. No wake-up is lost: whenever a server waits and some worker is idle, blocked or not, the
  workers alone can bring the longest waiting server into evaluation, without a new mark.
\<close>

theorem waiting_is_served:
  assumes "reachable s" and "waiting (queue s) = i # is" and "worker_of s n = Scanning \<or> worker_of s n = Blocked"
  shows "\<exists>t m. sys_step\<^sup>*\<^sup>* s t \<and> worker_of t m = Working i \<and> marked t = marked s - {i} \<and>
     (\<forall>k. k \<noteq> m \<and> k \<noteq> n \<longrightarrow> worker_of t k = worker_of s k)"
proof -
  have ok: "queue_ok (queue s)" "wakeup_ok s" using reachable_ok [OF assms(1)] by (simp_all add: system_ok_def)
  show ?thesis
  proof (cases "\<exists>m. worker_of s m = Scanning")
    case True
    then obtain m where "worker_of s m = Scanning" by blast
    obtain q where "sys_step s (taken s m i q)"
      using take_waiting [OF ok(1) assms(2) \<open>worker_of s m = Scanning\<close>] .
    then have "sys_step\<^sup>*\<^sup>* s (taken s m i q)" by (rule r_into_rtranclp)
    then show ?thesis by (intro exI [of _ "taken s m i q"] exI [of _ m]) simp
  next
    case False
    with assms(2,3) ok(2) have w: "worker_of s n = Blocked" "wakeup (queue s)"
      by (auto simp: wakeup_ok_def scanning_def)
    let ?t = "s\<lparr>queue := wake (queue s), worker_of := (worker_of s)(n := Scanning)\<rparr>"
    have t: "sys_step s ?t" using w by (rule sys_step.Wake)
    have "queue_ok (queue ?t)" "waiting (queue ?t) = i # is" "worker_of ?t n = Scanning"
      using ok(1) assms(2) by (simp_all) (simp add: wake_def waiting_def)
    then obtain q where "sys_step ?t (taken ?t n i q)" by (rule take_waiting)
    with t have "sys_step\<^sup>*\<^sup>* s (taken ?t n i q)" by (rule converse_rtranclp_into_rtranclp [OF _ r_into_rtranclp])
    then show ?thesis by (intro exI [of _ "taken ?t n i q"] exI [of _ n]) simp
  qed
qed

subsection \<open>A worked example\<close>

text \<open>Server 7 is marked, and worker 0 takes it.\<close>

definition example_marked :: system where
  "example_marked = start\<lparr>queue := mark (queue start) 7 None, marked := {7}\<rparr>"

lemma example_marked_reachable: "reachable example_marked"
proof -
  have "sys_step start example_marked"
    using sys_step.Mark [of start 7 None] by (simp add: example_marked_def start_def)
  with reachable.init show ?thesis by (rule reachable.step)
qed

lemma example_marked_waiting: "waiting (queue example_marked) = [7]" "queue_ok (queue example_marked)"
proof -
  show q: "queue_ok (queue example_marked)"
    using reachable_ok [OF example_marked_reachable] by (simp add: system_ok_def)
  show "waiting (queue example_marked) = [7]"
    by (simp add: example_marked_def start_def newDirtyQueue_def mark_def set_state_def waiting_def signal_def Let_def)
qed

lemma example_worker: "worker_of example_marked 0 = Scanning"
  by (simp add: example_marked_def start_def evalWorkers_def)

theorem no_mark_lost_witness:
  "7 \<in> set (waiting (queue example_marked)) \<or>
   (\<exists>n. worker_of example_marked n = Working 7 \<and> 7 \<in> redo_ids (queue example_marked))"
  by (rule no_mark_lost [OF example_marked_reachable]) (simp add: example_marked_def)

theorem workers_exclusive_witness:
  "\<exists>s. reachable s \<and> worker_of s 0 = Working 7 \<and> 7 \<notin> set (waiting (queue s)) \<and> worker_of s 1 \<noteq> Working 7"
proof -
  obtain q where "sys_step example_marked (taken example_marked 0 7 q)"
    using take_waiting [OF example_marked_waiting(2,1) example_worker] .
  with example_marked_reachable have r: "reachable (taken example_marked 0 7 q)" by (rule reachable.step)
  moreover have "worker_of (taken example_marked 0 7 q) 0 = Working 7" by simp
  ultimately show ?thesis using workers_exclusive [OF r, of 0 7 1] by auto
qed

theorem waiting_is_served_witness:
  "\<exists>t m. sys_step\<^sup>*\<^sup>* example_marked t \<and> worker_of t m = Working 7 \<and> marked t = {}"
proof -
  have m: "marked example_marked = {7}" by (simp add: example_marked_def)
  from waiting_is_served [OF example_marked_reachable example_marked_waiting(1), of 0] example_worker
  obtain t m where "sys_step\<^sup>*\<^sup>* example_marked t" "worker_of t m = Working 7" "marked t = marked example_marked - {7}"
    by auto
  then show ?thesis using m by (intro exI [of _ t] exI [of _ m]) simp
qed

end
