(* ===== verification/Notify_Outbox.thy ===== *)
theory Notify_Outbox
  imports Go_Prelude Go_Time "HOL-Library.Product_Lexorder"
begin

text \<open>
  The durable notification outbox: \<open>internal/store/alert/alert_notifications.go\<close>, the delivery
  part of \<open>notify_channels.go\<close>, and the message digests of \<open>internal/notify\<close> it depends on.

  A table is the list of its rows, and an SQL statement of the source is the list operation it
  denotes. A transaction is one function on the tables; an error, its own or the database's, leaves
  the tables as they were, so an operation returns \<open>Inl\<close> and no state. \<open>clock\<close> is the value of
  \<open>time.Now()\<close> where the code reads it. A JSON document is represented by the value it encodes,
  with \<open>None\<close> for a document that does not decode. The bookkeeping columns \<open>created_at\<close> and
  \<open>updated_at\<close>, which no modelled code reads, are left out.
\<close>

subsection \<open>Tables\<close>

record NotificationPayload =
  Payload_Title :: string
  Payload_Body :: string
  Payload_Metadata :: "(string, string) gomap"

record AlertNotificationOutbox =
  Outbox_ID :: int
  Outbox_EventID :: "int option"
  Outbox_Transition :: string
  Outbox_ChannelID :: int
  Outbox_ChannelType :: string
  Outbox_Payload :: "NotificationPayload option"
  Outbox_DedupeKey :: string
  Outbox_Status :: string
  Outbox_AttemptCount :: int
  Outbox_ProbeCount :: int
  Outbox_IsProbe :: bool
  Outbox_NextAttemptAt :: time
  Outbox_FailureCode :: "string option"
  Outbox_LastError :: "string option"
  Outbox_SentAt :: "time option"

record NotifyChannel =
  Channel_ID :: int
  Channel_Name :: string
  Channel_Type :: string
  Channel_Enabled :: bool
  Channel_IsDeleted :: bool
  Channel_Revision :: int
  Channel_LastSuccessAt :: "time option"
  Channel_LastFailureAt :: "time option"
  Channel_ConsecutiveFailures :: int
  Channel_LastErrorCode :: "string option"
  Channel_LastError :: "string option"
  Channel_ConfigUpdatedAt :: time

record notify_db =
  outbox :: "AlertNotificationOutbox list"
  outbox_seq :: int
  channels :: "NotifyChannel list"
  setting_channel_ids :: "int list"

datatype store_error = StateChanged | RecordNotFound | VersionStale | Rejected string

definition OutboxStatusPending :: string where "OutboxStatusPending = ''pending''"
definition OutboxStatusSending :: string where "OutboxStatusSending = ''sending''"
definition OutboxStatusSent :: string where "OutboxStatusSent = ''sent''"
definition OutboxStatusRetry :: string where "OutboxStatusRetry = ''retry''"
definition OutboxStatusBlocked :: string where "OutboxStatusBlocked = ''blocked''"
definition OutboxStatusPaused :: string where "OutboxStatusPaused = ''paused''"
definition OutboxStatusDiscarded :: string where "OutboxStatusDiscarded = ''discarded''"

lemmas outbox_status = OutboxStatusPending_def OutboxStatusSending_def OutboxStatusSent_def
  OutboxStatusRetry_def OutboxStatusBlocked_def OutboxStatusPaused_def OutboxStatusDiscarded_def

definition NotifyTypeTelegram :: string where "NotifyTypeTelegram = ''telegram''"
definition NotifyTypeEmail :: string where "NotifyTypeEmail = ''email''"

text \<open>\<open>UPDATE t SET f WHERE p\<close>.\<close>

definition update_where :: "('r \<Rightarrow> bool) \<Rightarrow> ('r \<Rightarrow> 'r) \<Rightarrow> 'r list \<Rightarrow> 'r list" where
  "update_where p f rows = map (\<lambda>r. if p r then f r else r) rows"

definition emptyToNil :: "string \<Rightarrow> string option" where
  "emptyToNil v = (let v = trim_space v in if v = [] then None else Some v)"

subsection \<open>Enqueueing\<close>

record notificationParams =
  Param_EventID :: "int option"
  Param_Transition :: string
  Param_ChannelID :: int
  Param_ChannelType :: string
  Param_Payload :: NotificationPayload
  Param_DedupeKey :: string

record AlertNotificationParams =
  AlertParam_Transition :: string
  AlertParam_ChannelID :: int
  AlertParam_ChannelType :: string
  AlertParam_Payload :: NotificationPayload

record NotificationParams =
  NoteParam_ChannelID :: int
  NoteParam_ChannelType :: string
  NoteParam_Payload :: NotificationPayload

definition alertNotificationDedupeKey :: "int \<Rightarrow> string \<Rightarrow> int \<Rightarrow> string" where
  "alertNotificationDedupeKey eventID transition channelID =
     ''alert:'' @ dec_int eventID @ '':'' @ transition @ '':'' @ dec_int channelID"

definition notificationDedupeKey :: "string \<Rightarrow> int \<Rightarrow> string" where
  "notificationDedupeKey key channelID = key @ '':'' @ dec_int channelID"

text \<open>The earliest probe of each channel with blocked notifications.\<close>

definition blockedNotificationSchedules :: "notify_db \<Rightarrow> notificationParams list \<Rightarrow> int \<Rightarrow> time option" where
  "blockedNotificationSchedules db params channelID =
     (if channelID > 0 \<and> channelID \<in> set (map Param_ChannelID params)
      then case map Outbox_NextAttemptAt
                  (filter (\<lambda>r. Outbox_ChannelID r = channelID \<and> Outbox_Status r = OutboxStatusBlocked) (outbox db)) of
             [] \<Rightarrow> None
           | t # ts \<Rightarrow> Some (fold min ts t)
      else None)"

definition outbox_row :: "(int \<Rightarrow> time option) \<Rightarrow> time \<Rightarrow> notificationParams \<Rightarrow> AlertNotificationOutbox" where
  "outbox_row schedules now param =
     \<lparr>Outbox_ID = 0, Outbox_EventID = Param_EventID param, Outbox_Transition = Param_Transition param,
      Outbox_ChannelID = Param_ChannelID param, Outbox_ChannelType = Param_ChannelType param,
      Outbox_Payload = Some (Param_Payload param), Outbox_DedupeKey = Param_DedupeKey param,
      Outbox_Status = (case schedules (Param_ChannelID param) of Some _ \<Rightarrow> OutboxStatusBlocked | None \<Rightarrow> OutboxStatusPending),
      Outbox_AttemptCount = 0, Outbox_ProbeCount = 0, Outbox_IsProbe = False,
      Outbox_NextAttemptAt = (case schedules (Param_ChannelID param) of Some probe \<Rightarrow> probe | None \<Rightarrow> now),
      Outbox_FailureCode = None, Outbox_LastError = None, Outbox_SentAt = None\<rparr>"

text \<open>\<open>INSERT \<dots> ON CONFLICT (dedupe_key) DO NOTHING\<close>; the sequence advances either way.\<close>

definition insert_row :: "AlertNotificationOutbox \<Rightarrow> notify_db \<Rightarrow> notify_db" where
  "insert_row row db =
     (let db' = db\<lparr>outbox_seq := outbox_seq db + 1\<rparr>
      in if Outbox_DedupeKey row \<in> set (map Outbox_DedupeKey (outbox db)) then db'
         else db'\<lparr>outbox := outbox db @ [row\<lparr>Outbox_ID := outbox_seq db\<rparr>]\<rparr>)"

definition param_ok :: "notificationParams \<Rightarrow> bool" where
  "param_ok param \<longleftrightarrow> \<not> (Param_ChannelID param \<le> 0 \<or> Param_ChannelType param = [] \<or> Param_Transition param = [] \<or>
     Param_DedupeKey param = [])"

definition insertNotifications :: "notify_db \<Rightarrow> notificationParams list \<Rightarrow> time \<Rightarrow> store_error + notify_db" where
  "insertNotifications db params now =
     (if params = [] then Inr db
      else if \<not> list_all param_ok params
      then Inl (Rejected ''enqueue notification: channel, type, transition and dedupe key are required'')
      else if \<not> list_all (\<lambda>p. Param_ChannelID p \<in> set (map Channel_ID (channels db))) params
      then Inl (Rejected ''foreign key'')
      else Inr (fold insert_row (map (outbox_row (blockedNotificationSchedules db params) now) params) db))"

definition alert_param :: "int \<Rightarrow> AlertNotificationParams \<Rightarrow> notificationParams" where
  "alert_param eventID param =
     (let dedupeKey = alertNotificationDedupeKey eventID (AlertParam_Transition param) (AlertParam_ChannelID param);
          payload = AlertParam_Payload param;
          metadata = AList.update ''dedupe_key'' dedupeKey
            (AList.update ''transition'' (AlertParam_Transition param)
              (AList.update ''event_id'' (dec_int eventID) (Payload_Metadata payload)))
      in \<lparr>Param_EventID = Some eventID, Param_Transition = AlertParam_Transition param,
          Param_ChannelID = AlertParam_ChannelID param, Param_ChannelType = AlertParam_ChannelType param,
          Param_Payload = payload\<lparr>Payload_Metadata := metadata\<rparr>, Param_DedupeKey = dedupeKey\<rparr>)"

definition insertAlertNotifications ::
    "notify_db \<Rightarrow> int \<Rightarrow> AlertNotificationParams list \<Rightarrow> time \<Rightarrow> store_error + notify_db" where
  "insertAlertNotifications db eventID params now = insertNotifications db (map (alert_param eventID) params) now"

fun note_params :: "string \<Rightarrow> string \<Rightarrow> NotificationParams list \<Rightarrow> store_error + notificationParams list" where
  "note_params key event [] = Inr []"
| "note_params key event (param # params) =
     (let dedupeKey = notificationDedupeKey key (NoteParam_ChannelID param)
      in if length dedupeKey > 255 then Inl (Rejected ''enqueue notifications: dedupe key exceeds 255 bytes'')
         else case note_params key event params of
                Inl e \<Rightarrow> Inl e
              | Inr items \<Rightarrow>
                  Inr (\<lparr>Param_EventID = None, Param_Transition = event, Param_ChannelID = NoteParam_ChannelID param,
                        Param_ChannelType = NoteParam_ChannelType param, Param_Payload = NoteParam_Payload param,
                        Param_DedupeKey = dedupeKey\<rparr> # items))"

definition EnqueueNotifications ::
    "notify_db \<Rightarrow> string \<Rightarrow> string \<Rightarrow> NotificationParams list \<Rightarrow> time \<Rightarrow> time \<Rightarrow> store_error + notify_db" where
  "EnqueueNotifications db key event params now clock =
     (let key = trim_space key; event = trim_space event
      in if key = [] \<or> event = [] then Inl (Rejected ''enqueue notifications: key and event are required'')
         else case note_params key event params of
                Inl e \<Rightarrow> Inl e
              | Inr items \<Rightarrow> insertNotifications db items (if now = zero_time then clock else now))"

subsection \<open>Digests\<close>

text \<open>\<open>internal/notify/message.go\<close>, \<open>telegram.go\<close> and \<open>batch.go\<close>: the text of a message and of a digest.\<close>

record Message =
  Message_Title :: string
  Message_Body :: string
  Message_Metadata :: "(string, string) gomap"

definition lookup_str :: "(string, string) gomap \<Rightarrow> string \<Rightarrow> string" where
  "lookup_str m k = (case map_of m k of Some v \<Rightarrow> v | None \<Rightarrow> [])"

definition message_text :: "Message \<Rightarrow> string" where
  "message_text m =
     (let title = trim_space (Message_Title m); body = trim_space (Message_Body m)
      in if title = [] then body else if body = [] then title else title @ [CHR 0x0A] @ body)"

definition telegramAlertOpenIcon :: string where "telegramAlertOpenIcon = str_bytes [0xE2, 0x9D, 0x8C]"
definition telegramAlertCloseIcon :: string where "telegramAlertCloseIcon = str_bytes [0xE2, 0x9C, 0x85]"
definition telegramAlertTimeIcon :: string where "telegramAlertTimeIcon = str_bytes [0xF0, 0x9F, 0x95, 0x92]"

definition telegramAlertTimeLine :: "string \<Rightarrow> bool" where
  "telegramAlertTimeLine line \<longleftrightarrow>
     has_prefix line (str_bytes [0xE8, 0xA7, 0xA6, 0xE5, 0x8F, 0x91, 0xE6, 0x97, 0xB6, 0xE9, 0x97, 0xB4, 0x3A]) \<or>
     has_prefix line (str_bytes [0xE6, 0x81, 0xA2, 0xE5, 0xA4, 0x8D, 0xE6, 0x97, 0xB6, 0xE9, 0x97, 0xB4, 0x3A]) \<or>
     has_prefix line ''Triggered at:'' \<or> has_prefix line ''Recovered at:''"

definition time_line :: "string \<Rightarrow> string" where
  "time_line line =
     (let trimmed = dropWhile (\<lambda>c. c = CHR '' '' \<or> c = CHR 0x09) line;
          indent = takeWhile (\<lambda>c. c = CHR '' '' \<or> c = CHR 0x09) line
      in if \<not> telegramAlertTimeLine trimmed \<or> has_prefix trimmed (telegramAlertTimeIcon @ '' '') then line
         else indent @ telegramAlertTimeIcon @ '' '' @ trimmed)"

definition telegramAlertTimeText :: "string \<Rightarrow> string" where
  "telegramAlertTimeText body =
     (if body = [] then [] else join_with [CHR 0x0A] (map time_line (split_on (CHR 0x0A) body)))"

definition telegramBotText :: "Message \<Rightarrow> string" where
  "telegramBotText msg =
     (if lookup_str (Message_Metadata msg) ''transition'' = [] then message_text msg
      else let icon = (if lookup_str (Message_Metadata msg) ''transition'' = ''closed'' then telegramAlertCloseIcon
                       else telegramAlertOpenIcon);
               title = trim_space (Message_Title msg);
               body = telegramAlertTimeText (trim_space (Message_Body msg));
               title = (if title \<noteq> [] \<and> \<not> has_prefix title (icon @ '' '') then icon @ '' '' @ title else title)
           in if title = [] then body else if body = [] then title else title @ [CHR 0x0A] @ body)"

definition langNormalize :: "string \<Rightarrow> string" where
  "langNormalize raw = (let l = go_lower (trim_space raw) in if l = ''en'' \<or> l = ''english'' then ''en'' else ''zh'')"

definition emailTransitionLabel :: "string \<Rightarrow> (string, string) gomap \<Rightarrow> string" where
  "emailTransitionLabel transition metadata =
     (let english = langNormalize (lookup_str metadata ''language'') = ''en''
      in if transition = ''opened'' then
           (if english then ''Triggered'' else str_bytes [0xE5, 0x91, 0x8A, 0xE8, 0xAD, 0xA6, 0xE8, 0xA7, 0xA6, 0xE5, 0x8F, 0x91])
         else if transition = ''closed'' then
           (if english then ''Recovered'' else str_bytes [0xE5, 0x91, 0x8A, 0xE8, 0xAD, 0xA6, 0xE6, 0x81, 0xA2, 0xE5, 0xA4, 0x8D])
         else transition)"

definition JoinMessages :: "string \<Rightarrow> Message list \<Rightarrow> Message" where
  "JoinMessages kind messages =
     (let first = hd messages;
          parts = map (if kind = NotifyTypeTelegram then telegramBotText else message_text) messages;
          get = lookup_str (Message_Metadata first)
      in \<lparr>Message_Title = (if kind = NotifyTypeEmail then emailTransitionLabel (get ''transition'') (Message_Metadata first) else []),
          Message_Body = join_with ([CHR 0x0A, CHR 0x0A] @ ''---'' @ [CHR 0x0A, CHR 0x0A]) parts,
          Message_Metadata = [(''transition'', get ''transition''), (''language'', get ''language'')]\<rparr>)"

text \<open>\<open>len(utf16.Encode([]rune(s)))\<close>.\<close>

definition utf16_length :: "string \<Rightarrow> nat" where
  "utf16_length s = sum_list (map (\<lambda>r. if r \<ge> 0x10000 then 2 else 1) (string_runes s))"

subsection \<open>Taking notifications\<close>

definition outstanding :: "string \<Rightarrow> bool" where
  "outstanding status \<longleftrightarrow> status \<in> {OutboxStatusPending, OutboxStatusSending, OutboxStatusRetry, OutboxStatusBlocked, OutboxStatusPaused}"

definition notificationPredecessorReady :: "notify_db \<Rightarrow> AlertNotificationOutbox \<Rightarrow> bool" where
  "notificationPredecessorReady db r \<longleftrightarrow> Outbox_Transition r \<noteq> ''closed'' \<or>
     \<not> list_ex (\<lambda>opened. Outbox_EventID opened \<noteq> None \<and> Outbox_EventID opened = Outbox_EventID r \<and>
          Outbox_ChannelID opened = Outbox_ChannelID r \<and> Outbox_Transition opened = ''opened'' \<and>
          outstanding (Outbox_Status opened)) (outbox db)"

definition due :: "time \<Rightarrow> AlertNotificationOutbox \<Rightarrow> bool" where
  "due now r \<longleftrightarrow>
     Outbox_Status r \<in> {OutboxStatusPending, OutboxStatusRetry, OutboxStatusBlocked} \<and> Outbox_NextAttemptAt r \<le> now \<or>
     Outbox_Status r = OutboxStatusSending"

definition take_order :: "AlertNotificationOutbox \<Rightarrow> int \<times> time \<times> int" where
  "take_order r = (if Outbox_Status r = OutboxStatusSending then 0 else 1, Outbox_NextAttemptAt r, Outbox_ID r)"

definition TakeNextNotification :: "notify_db \<Rightarrow> time \<Rightarrow> AlertNotificationOutbox option \<times> notify_db" where
  "TakeNextNotification db now =
     (case sort_key take_order (filter (\<lambda>r. due now r \<and> notificationPredecessorReady db r) (outbox db)) of
        [] \<Rightarrow> (None, db)
      | item # _ \<Rightarrow>
         (let isProbe = Outbox_IsProbe item \<or> Outbox_Status item = OutboxStatusBlocked
          in (Some (item\<lparr>Outbox_Status := OutboxStatusSending, Outbox_IsProbe := isProbe\<rparr>),
              db\<lparr>outbox := update_where (\<lambda>r. Outbox_ID r = Outbox_ID item)
                   (\<lambda>r. r\<lparr>Outbox_Status := OutboxStatusSending, Outbox_IsProbe := isProbe, Outbox_NextAttemptAt := now\<rparr>)
                   (outbox db)\<rparr>)))"

definition payload_message :: "NotificationPayload \<Rightarrow> Message" where
  "payload_message p = \<lparr>Message_Title = Payload_Title p, Message_Body = Payload_Body p, Message_Metadata = Payload_Metadata p\<rparr>"

definition batch_candidate :: "notify_db \<Rightarrow> time \<Rightarrow> AlertNotificationOutbox \<Rightarrow> AlertNotificationOutbox \<Rightarrow> bool" where
  "batch_candidate db now first r \<longleftrightarrow>
     Outbox_ChannelID r = Outbox_ChannelID first \<and> Outbox_ChannelType r = Outbox_ChannelType first \<and>
     Outbox_Transition r = Outbox_Transition first \<and> Outbox_ID r \<noteq> Outbox_ID first \<and> Outbox_EventID r \<noteq> None \<and>
     Outbox_AttemptCount r = Outbox_AttemptCount first \<and> \<not> Outbox_IsProbe r \<and>
     Outbox_Status r \<in> {OutboxStatusPending, OutboxStatusRetry, OutboxStatusSending} \<and> Outbox_NextAttemptAt r \<le> now \<and>
     notificationPredecessorReady db r"

text \<open>The loop that extends the digest until a payload does not decode or the text grows too long.\<close>

fun extend_batch :: "string \<Rightarrow> Message list \<Rightarrow> AlertNotificationOutbox list \<Rightarrow> AlertNotificationOutbox list" where
  "extend_batch kind messages [] = []"
| "extend_batch kind messages (candidate # cs) =
     (case Outbox_Payload candidate of
        None \<Rightarrow> []
      | Some payload \<Rightarrow>
         (let messages = messages @ [payload_message payload]
          in if kind = NotifyTypeTelegram \<and> utf16_length (message_text (JoinMessages kind messages)) > 4096 then []
             else candidate\<lparr>Outbox_Status := OutboxStatusSending\<rparr> # extend_batch kind messages cs))"

definition TakeNotificationBatch :: "notify_db \<Rightarrow> time \<Rightarrow> AlertNotificationOutbox list \<times> notify_db" where
  "TakeNotificationBatch db now =
     (case TakeNextNotification db now of
        (None, db) \<Rightarrow> ([], db)
      | (Some first, db) \<Rightarrow>
         if Outbox_IsProbe first \<or> Outbox_EventID first = None \<or>
            Outbox_Transition first \<noteq> ''opened'' \<and> Outbox_Transition first \<noteq> ''closed'' \<or>
            Outbox_ChannelType first \<noteq> NotifyTypeTelegram \<and> Outbox_ChannelType first \<noteq> NotifyTypeEmail
         then ([first], db)
         else case Outbox_Payload first of
                None \<Rightarrow> ([first], db)
              | Some payload \<Rightarrow>
                 (let candidates = take 99 (sort_key Outbox_ID (filter (batch_candidate db now first) (outbox db)));
                      more = extend_batch (Outbox_ChannelType first) [payload_message payload] candidates;
                      ids = map Outbox_ID more
                  in (first # more,
                      db\<lparr>outbox := update_where (\<lambda>r. Outbox_ID r \<in> set ids)
                           (\<lambda>r. r\<lparr>Outbox_Status := OutboxStatusSending, Outbox_NextAttemptAt := now\<rparr>) (outbox db)\<rparr>)))"

subsection \<open>Delivery results\<close>

record NotificationFailure =
  Failure_ID :: int
  Failure_ChannelID :: int
  Failure_ChannelRevision :: int
  Failure_Code :: string
  Failure_LastError :: string
  Failure_FailedAt :: time
  Failure_NextAttemptAt :: time

definition lockDeliveryChannel :: "notify_db \<Rightarrow> int \<Rightarrow> store_error + NotifyChannel" where
  "lockDeliveryChannel db i =
     (case find (\<lambda>c. Channel_ID c = i) (channels db) of Some c \<Rightarrow> Inr c | None \<Rightarrow> Inl RecordNotFound)"

definition channelVersionChanged :: "NotifyChannel \<Rightarrow> int \<Rightarrow> bool" where
  "channelVersionChanged channel observed \<longleftrightarrow> observed > 0 \<and> Channel_Revision channel \<noteq> observed"

definition updateSendingNotification ::
    "notify_db \<Rightarrow> int \<Rightarrow> int \<Rightarrow> (AlertNotificationOutbox \<Rightarrow> AlertNotificationOutbox) \<Rightarrow> store_error + notify_db" where
  "updateSendingNotification db i channelID updates =
     (let p = (\<lambda>r. Outbox_ID r = i \<and> Outbox_ChannelID r = channelID \<and> Outbox_Status r = OutboxStatusSending)
      in if \<not> list_ex p (outbox db) then Inl StateChanged
         else Inr (db\<lparr>outbox := update_where p (\<lambda>r. (updates r)\<lparr>Outbox_IsProbe := False\<rparr>) (outbox db)\<rparr>))"

definition releaseSendingNotification :: "notify_db \<Rightarrow> int \<Rightarrow> int \<Rightarrow> time \<Rightarrow> time \<Rightarrow> store_error + notify_db" where
  "releaseSendingNotification db i channelID now clock =
     updateSendingNotification db i channelID (\<lambda>r. r\<lparr>
       Outbox_Status := (if Outbox_IsProbe r then OutboxStatusBlocked else OutboxStatusRetry),
       Outbox_NextAttemptAt := (if now = zero_time then clock else now),
       Outbox_FailureCode := (if Outbox_IsProbe r then Outbox_FailureCode r else None),
       Outbox_LastError := (if Outbox_IsProbe r then Outbox_LastError r else None),
       Outbox_ProbeCount := (if Outbox_IsProbe r then Outbox_ProbeCount r else 0)\<rparr>)"

definition retrySendingNotification :: "notify_db \<Rightarrow> int \<Rightarrow> int \<Rightarrow> time \<Rightarrow> time \<Rightarrow> store_error + notify_db" where
  "retrySendingNotification db i channelID now clock =
     updateSendingNotification db i channelID (\<lambda>r. r\<lparr>Outbox_Status := OutboxStatusRetry,
       Outbox_NextAttemptAt := (if now = zero_time then clock else now), Outbox_FailureCode := None,
       Outbox_LastError := None, Outbox_ProbeCount := 0\<rparr>)"

definition RequeueNotification :: "notify_db \<Rightarrow> int \<Rightarrow> int \<Rightarrow> time \<Rightarrow> time \<Rightarrow> store_error + notify_db" where
  "RequeueNotification db i channelID nextAttemptAt clock = releaseSendingNotification db i channelID nextAttemptAt clock"

text \<open>\<open>Inr (marked, db)\<close>; a row that is already sent is not an error.\<close>

definition markNotificationSent :: "notify_db \<Rightarrow> int \<Rightarrow> int \<Rightarrow> time \<Rightarrow> store_error + bool \<times> notify_db" where
  "markNotificationSent db i channelID sentAt =
     (case updateSendingNotification db i channelID (\<lambda>r. r\<lparr>Outbox_Status := OutboxStatusSent,
             Outbox_SentAt := Some sentAt, Outbox_AttemptCount := Outbox_AttemptCount r + 1,
             Outbox_ProbeCount := 0, Outbox_FailureCode := None, Outbox_LastError := None\<rparr>) of
        Inr db' \<Rightarrow> Inr (True, db')
      | Inl e \<Rightarrow>
         if e \<noteq> StateChanged then Inl e
         else case find (\<lambda>r. Outbox_ID r = i \<and> Outbox_ChannelID r = channelID) (outbox db) of
                None \<Rightarrow> Inl StateChanged
              | Some r \<Rightarrow> if Outbox_Status r = OutboxStatusSent then Inr (False, db) else Inl StateChanged)"

definition update_channel :: "notify_db \<Rightarrow> int \<Rightarrow> (NotifyChannel \<Rightarrow> NotifyChannel) \<Rightarrow> notify_db" where
  "update_channel db i f = db\<lparr>channels := update_where (\<lambda>c. Channel_ID c = i \<and> \<not> Channel_IsDeleted c) f (channels db)\<rparr>"

definition recordChannelSuccess :: "notify_db \<Rightarrow> int \<Rightarrow> time \<Rightarrow> notify_db" where
  "recordChannelSuccess db i at' = update_channel db i (\<lambda>c. c\<lparr>Channel_LastSuccessAt := Some at',
     Channel_ConsecutiveFailures := 0, Channel_LastErrorCode := None, Channel_LastError := None\<rparr>)"

definition recordChannelFailure :: "notify_db \<Rightarrow> int \<Rightarrow> string \<Rightarrow> string \<Rightarrow> time \<Rightarrow> notify_db" where
  "recordChannelFailure db i code message at' = update_channel db i (\<lambda>c. c\<lparr>Channel_LastFailureAt := Some at',
     Channel_ConsecutiveFailures := Channel_ConsecutiveFailures c + 1,
     Channel_LastErrorCode := emptyToNil code, Channel_LastError := emptyToNil message\<rparr>)"

definition update_queued ::
    "notify_db \<Rightarrow> int \<Rightarrow> string list \<Rightarrow> (AlertNotificationOutbox \<Rightarrow> AlertNotificationOutbox) \<Rightarrow> notify_db" where
  "update_queued db i statuses f =
     db\<lparr>outbox := update_where (\<lambda>r. Outbox_ChannelID r = i \<and> Outbox_Status r \<in> set statuses) f (outbox db)\<rparr>"

definition wakeChannelNotifications :: "notify_db \<Rightarrow> int \<Rightarrow> time \<Rightarrow> string list \<Rightarrow> notify_db" where
  "wakeChannelNotifications db i now statuses = update_queued db i statuses (\<lambda>r. r\<lparr>Outbox_Status := OutboxStatusRetry,
     Outbox_IsProbe := False, Outbox_AttemptCount := 0, Outbox_NextAttemptAt := now, Outbox_FailureCode := None,
     Outbox_LastError := None, Outbox_ProbeCount := 0\<rparr>)"

definition pauseChannelNotifications :: "notify_db \<Rightarrow> int \<Rightarrow> notify_db" where
  "pauseChannelNotifications db i = update_queued db i [OutboxStatusPending, OutboxStatusRetry, OutboxStatusBlocked]
     (\<lambda>r. r\<lparr>Outbox_Status := OutboxStatusPaused, Outbox_IsProbe := False,
        Outbox_FailureCode := Some ''channel_disabled'', Outbox_LastError := None, Outbox_ProbeCount := 0\<rparr>)"

definition discardChannelNotifications :: "notify_db \<Rightarrow> int \<Rightarrow> string \<Rightarrow> string \<Rightarrow> notify_db" where
  "discardChannelNotifications db i code message =
     update_queued db i [OutboxStatusPending, OutboxStatusRetry, OutboxStatusBlocked, OutboxStatusPaused]
     (\<lambda>r. r\<lparr>Outbox_Status := OutboxStatusDiscarded, Outbox_IsProbe := False, Outbox_FailureCode := Some code,
        Outbox_LastError := emptyToNil message, Outbox_ProbeCount := 0\<rparr>)"

definition CompleteNotification :: "notify_db \<Rightarrow> int \<Rightarrow> int \<Rightarrow> int \<Rightarrow> time \<Rightarrow> store_error + notify_db" where
  "CompleteNotification db i channelID channelRevision sentAt =
     (case lockDeliveryChannel db channelID of
        Inl e \<Rightarrow> Inl e
      | Inr channel \<Rightarrow>
         (case markNotificationSent db i channelID sentAt of
            Inl e \<Rightarrow> Inl e
          | Inr (marked, db) \<Rightarrow>
             if \<not> marked then Inr db
             else if Channel_IsDeleted channel \<or> channelVersionChanged channel channelRevision then Inr db
             else Inr (wakeChannelNotifications (recordChannelSuccess db channelID sentAt) channelID sentAt
                         [OutboxStatusBlocked])))"

definition notificationFailureUpdates ::
    "NotificationFailure \<Rightarrow> string \<Rightarrow> AlertNotificationOutbox \<Rightarrow> AlertNotificationOutbox" where
  "notificationFailureUpdates failure status r =
     r\<lparr>Outbox_Status := status, Outbox_FailureCode := emptyToNil (Failure_Code failure),
       Outbox_LastError := emptyToNil (Failure_LastError failure),
       Outbox_ProbeCount := (if status \<noteq> OutboxStatusBlocked then 0 else Outbox_ProbeCount r),
       Outbox_NextAttemptAt := (if Failure_NextAttemptAt failure \<noteq> zero_time then Failure_NextAttemptAt failure
                                else Outbox_NextAttemptAt r)\<rparr>"

definition discard_deleted :: "AlertNotificationOutbox \<Rightarrow> AlertNotificationOutbox" where
  "discard_deleted r = r\<lparr>Outbox_Status := OutboxStatusDiscarded, Outbox_FailureCode := Some ''channel_deleted'',
     Outbox_LastError := Some ''notification channel deleted'', Outbox_ProbeCount := 0\<rparr>"

definition coalesce_queued :: "notify_db \<Rightarrow> NotificationFailure \<Rightarrow> notify_db" where
  "coalesce_queued db failure =
     (let db = update_queued db (Failure_ChannelID failure) [OutboxStatusPending, OutboxStatusRetry]
            (\<lambda>r. r\<lparr>Outbox_Status := OutboxStatusBlocked, Outbox_IsProbe := False,
               Outbox_NextAttemptAt := Failure_NextAttemptAt failure, Outbox_FailureCode := emptyToNil (Failure_Code failure),
               Outbox_LastError := emptyToNil (Failure_LastError failure), Outbox_ProbeCount := 0\<rparr>)
      in update_queued db (Failure_ChannelID failure) [OutboxStatusBlocked]
           (\<lambda>r. r\<lparr>Outbox_NextAttemptAt := Failure_NextAttemptAt failure\<rparr>))"

definition recordNotificationFailure ::
    "notify_db \<Rightarrow> NotificationFailure \<Rightarrow> string \<Rightarrow> bool \<Rightarrow> time \<Rightarrow> store_error + notify_db" where
  "recordNotificationFailure db failure status coalesce clock =
     (if Failure_ChannelRevision failure \<le> 0
      then Inl (Rejected ''record notification failure: channel revision is required'')
      else let failedAt = (if Failure_FailedAt failure = zero_time then clock else Failure_FailedAt failure);
               i = Failure_ID failure; ch = Failure_ChannelID failure
           in case lockDeliveryChannel db ch of
                Inl e \<Rightarrow> Inl e
              | Inr channel \<Rightarrow>
                  if Channel_IsDeleted channel then updateSendingNotification db i ch discard_deleted
                  else if \<not> Channel_Enabled channel
                  then updateSendingNotification db i ch (\<lambda>r. r\<lparr>Outbox_Status := OutboxStatusPaused,
                         Outbox_FailureCode := Some ''channel_disabled'', Outbox_LastError := None, Outbox_ProbeCount := 0\<rparr>)
                  else if channelVersionChanged channel (Failure_ChannelRevision failure)
                  then retrySendingNotification db i ch failedAt clock
                  else case updateSendingNotification db i ch (\<lambda>r.
                              (notificationFailureUpdates failure status r)\<lparr>
                                Outbox_AttemptCount := Outbox_AttemptCount r + 1,
                                Outbox_ProbeCount := (if status = OutboxStatusBlocked then Outbox_ProbeCount r + 1 else 0)\<rparr>) of
                         Inl e \<Rightarrow> Inl e
                       | Inr db \<Rightarrow>
                          (let db = (if coalesce then coalesce_queued db failure else db)
                           in Inr (recordChannelFailure db ch (Failure_Code failure) (Failure_LastError failure) failedAt)))"

definition RetryNotification :: "notify_db \<Rightarrow> NotificationFailure \<Rightarrow> time \<Rightarrow> store_error + notify_db" where
  "RetryNotification db failure clock = recordNotificationFailure db failure OutboxStatusRetry False clock"

definition BlockNotification :: "notify_db \<Rightarrow> NotificationFailure \<Rightarrow> time \<Rightarrow> store_error + notify_db" where
  "BlockNotification db failure clock = recordNotificationFailure db failure OutboxStatusBlocked True clock"

definition PauseNotification :: "notify_db \<Rightarrow> NotificationFailure \<Rightarrow> time \<Rightarrow> store_error + notify_db" where
  "PauseNotification db failure clock =
     (case lockDeliveryChannel db (Failure_ChannelID failure) of
        Inl e \<Rightarrow> Inl e
      | Inr channel \<Rightarrow>
         if Channel_IsDeleted channel
         then updateSendingNotification db (Failure_ID failure) (Failure_ChannelID failure) discard_deleted
         else if Channel_Enabled channel
         then retrySendingNotification db (Failure_ID failure) (Failure_ChannelID failure) (Failure_FailedAt failure) clock
         else updateSendingNotification db (Failure_ID failure) (Failure_ChannelID failure)
                (notificationFailureUpdates failure OutboxStatusPaused))"

definition DiscardNotification :: "notify_db \<Rightarrow> NotificationFailure \<Rightarrow> time \<Rightarrow> store_error + notify_db" where
  "DiscardNotification db failure clock =
     (case lockDeliveryChannel db (Failure_ChannelID failure) of
        Inl e \<Rightarrow> Inl e
      | Inr channel \<Rightarrow>
         if \<not> Channel_IsDeleted channel \<and> channelVersionChanged channel (Failure_ChannelRevision failure)
         then retrySendingNotification db (Failure_ID failure) (Failure_ChannelID failure) (Failure_FailedAt failure) clock
         else updateSendingNotification db (Failure_ID failure) (Failure_ChannelID failure)
                (notificationFailureUpdates failure OutboxStatusDiscarded))"

subsection \<open>Channel operations\<close>

text \<open>
  \<open>seal\<close> stands for \<open>configCipher.Seal\<close>: whether the configuration could be encrypted. The sealed bytes
  themselves are not a column of the model.
\<close>

definition lockChannel :: "notify_db \<Rightarrow> int \<Rightarrow> store_error + NotifyChannel" where
  "lockChannel db i =
     (case find (\<lambda>c. Channel_ID c = i \<and> \<not> Channel_IsDeleted c) (channels db) of
        Some c \<Rightarrow> Inr c | None \<Rightarrow> Inl RecordNotFound)"

definition reset_health :: "time \<Rightarrow> NotifyChannel \<Rightarrow> NotifyChannel" where
  "reset_health now c = c\<lparr>Channel_Revision := Channel_Revision c + 1, Channel_LastSuccessAt := None,
     Channel_LastFailureAt := None, Channel_ConsecutiveFailures := 0, Channel_LastErrorCode := None,
     Channel_LastError := None, Channel_ConfigUpdatedAt := now\<rparr>"

definition ReplaceChannel ::
    "(int \<Rightarrow> string \<Rightarrow> bool) \<Rightarrow> notify_db \<Rightarrow> int \<Rightarrow> int \<Rightarrow> NotifyChannel \<Rightarrow> time \<Rightarrow> store_error + notify_db" where
  "ReplaceChannel seal db i revision next_channel clock =
     (if revision \<le> 0 then Inl (Rejected ''replace notification channel: invalid revision'')
      else case lockChannel db i of
             Inl e \<Rightarrow> Inl e
           | Inr current \<Rightarrow>
              if Channel_Revision current \<noteq> revision then Inl VersionStale
              else if \<not> seal i (Channel_Type next_channel) then Inl (Rejected ''encrypt notification channel config'')
              else let db = update_channel db i (\<lambda>c. (reset_health clock c)\<lparr>Channel_Name := Channel_Name next_channel,
                         Channel_Type := Channel_Type next_channel, Channel_Enabled := Channel_Enabled next_channel\<rparr>)
                   in Inr (if Channel_Type current \<noteq> Channel_Type next_channel
                           then discardChannelNotifications db i ''channel_type_changed'' ''notification channel type changed''
                           else if \<not> Channel_Enabled next_channel then pauseChannelNotifications db i
                           else wakeChannelNotifications db i clock [OutboxStatusRetry, OutboxStatusBlocked, OutboxStatusPaused]))"

definition UpdateChannelConfig ::
    "(int \<Rightarrow> string \<Rightarrow> bool) \<Rightarrow> notify_db \<Rightarrow> int \<Rightarrow> int \<Rightarrow> time \<Rightarrow> store_error + notify_db" where
  "UpdateChannelConfig seal db i revision clock =
     (if revision \<le> 0 then Inl (Rejected ''update notification channel config: invalid revision'')
      else case lockChannel db i of
             Inl e \<Rightarrow> Inl e
           | Inr current \<Rightarrow>
              if Channel_Revision current \<noteq> revision then Inl VersionStale
              else if \<not> seal i (Channel_Type current) then Inl (Rejected ''encrypt notification channel config'')
              else let db = update_channel db i (reset_health clock)
                   in Inr (if \<not> Channel_Enabled current then pauseChannelNotifications db i
                           else wakeChannelNotifications db i clock [OutboxStatusRetry, OutboxStatusBlocked, OutboxStatusPaused]))"

definition SetChannelEnabled :: "notify_db \<Rightarrow> int \<Rightarrow> bool \<Rightarrow> time \<Rightarrow> store_error + notify_db" where
  "SetChannelEnabled db i enabled clock =
     (case lockChannel db i of
        Inl e \<Rightarrow> Inl e
      | Inr channel \<Rightarrow>
         if Channel_Enabled channel = enabled then Inr db
         else let db = update_channel db i (\<lambda>c. c\<lparr>Channel_Enabled := enabled,
                    Channel_Revision := Channel_Revision c + 1, Channel_ConfigUpdatedAt := clock\<rparr>)
              in Inr (if \<not> enabled then pauseChannelNotifications db i
                      else wakeChannelNotifications db i clock
                             [OutboxStatusPending, OutboxStatusRetry, OutboxStatusBlocked, OutboxStatusPaused]))"

text \<open>The check of a decoded list of channel ids; it reports the first offending id.\<close>

fun decode_ids :: "int list \<Rightarrow> int list \<Rightarrow> store_error option" where
  "decode_ids seen [] = None"
| "decode_ids seen (i # is) =
     (if i \<le> 0 then Some (Rejected ''channel_ids contains a non-positive id'')
      else if i \<in> set seen then Some (Rejected ''channel_ids contains a duplicate id'')
      else decode_ids (i # seen) is)"

definition DecodeChannelIDs :: "int list \<Rightarrow> store_error + int list" where
  "DecodeChannelIDs items = (case decode_ids [] items of Some e \<Rightarrow> Inl e | None \<Rightarrow> Inr items)"

definition DeleteChannel :: "notify_db \<Rightarrow> int \<Rightarrow> time \<Rightarrow> store_error + notify_db" where
  "DeleteChannel db i clock =
     (case lockChannel db i of
        Inl e \<Rightarrow> Inl e
      | Inr channel \<Rightarrow>
         (case DecodeChannelIDs (setting_channel_ids db) of
            Inl e \<Rightarrow> Inl e
          | Inr ids \<Rightarrow>
             (let db = db\<lparr>setting_channel_ids := filter (\<lambda>j. j \<noteq> i) ids\<rparr>;
                  db = discardChannelNotifications db i ''channel_deleted'' ''notification channel deleted''
              in Inr (update_channel db i (\<lambda>c. c\<lparr>Channel_IsDeleted := True, Channel_Revision := Channel_Revision c + 1,
                        Channel_ConfigUpdatedAt := clock\<rparr>)))))"

definition RecoverChannelNotifications :: "notify_db \<Rightarrow> int \<Rightarrow> int \<Rightarrow> time \<Rightarrow> store_error + notify_db" where
  "RecoverChannelNotifications db i revision recoveredAt =
     (case lockChannel db i of
        Inl e \<Rightarrow> Inl e
      | Inr channel \<Rightarrow>
         if channelVersionChanged channel revision then Inr db
         else let db = recordChannelSuccess db i recoveredAt
              in Inr (if \<not> Channel_Enabled channel then db
                      else wakeChannelNotifications db i recoveredAt [OutboxStatusBlocked]))"

record ChannelFailure =
  ChannelFailure_ID :: int
  ChannelFailure_Revision :: int
  ChannelFailure_Code :: string
  ChannelFailure_LastError :: string
  ChannelFailure_FailedAt :: time

definition RecordChannelFailure :: "notify_db \<Rightarrow> ChannelFailure \<Rightarrow> time \<Rightarrow> store_error + notify_db" where
  "RecordChannelFailure db failure clock =
     (case lockChannel db (ChannelFailure_ID failure) of
        Inl e \<Rightarrow> Inl e
      | Inr channel \<Rightarrow>
         if channelVersionChanged channel (ChannelFailure_Revision failure) then Inr db
         else Inr (recordChannelFailure db (ChannelFailure_ID failure) (ChannelFailure_Code failure)
                (ChannelFailure_LastError failure)
                (if ChannelFailure_FailedAt failure = zero_time then clock else ChannelFailure_FailedAt failure)))"

subsection \<open>Histories of the outbox\<close>

text \<open>One committed transaction of the program on the notification tables.\<close>

inductive outbox_step :: "notify_db \<Rightarrow> notify_db \<Rightarrow> bool" where
  Enqueue: "insertNotifications db params now = Inr db' \<Longrightarrow> outbox_step db db'"
| Take: "TakeNotificationBatch db now = (items, db') \<Longrightarrow> outbox_step db db'"
| Complete: "CompleteNotification db i ch revision sentAt = Inr db' \<Longrightarrow> outbox_step db db'"
| Requeue: "RequeueNotification db i ch nextAttemptAt clock = Inr db' \<Longrightarrow> outbox_step db db'"
| Retry: "RetryNotification db failure clock = Inr db' \<Longrightarrow> outbox_step db db'"
| Block: "BlockNotification db failure clock = Inr db' \<Longrightarrow> outbox_step db db'"
| Pause: "PauseNotification db failure clock = Inr db' \<Longrightarrow> outbox_step db db'"
| Discard: "DiscardNotification db failure clock = Inr db' \<Longrightarrow> outbox_step db db'"
| Replace: "ReplaceChannel seal db i revision c clock = Inr db' \<Longrightarrow> outbox_step db db'"
| Config: "UpdateChannelConfig seal db i revision clock = Inr db' \<Longrightarrow> outbox_step db db'"
| Enable: "SetChannelEnabled db i enabled clock = Inr db' \<Longrightarrow> outbox_step db db'"
| Delete: "DeleteChannel db i clock = Inr db' \<Longrightarrow> outbox_step db db'"
| Recover: "RecoverChannelNotifications db i revision recoveredAt = Inr db' \<Longrightarrow> outbox_step db db'"
| Fail: "RecordChannelFailure db cf clock = Inr db' \<Longrightarrow> outbox_step db db'"

inductive_cases outbox_stepE: "outbox_step db db'"

subsection \<open>How rows evolve\<close>

definition terminal :: "string \<Rightarrow> bool" where
  "terminal status \<longleftrightarrow> status = OutboxStatusSent \<or> status = OutboxStatusDiscarded"

text \<open>What a row keeps for life, and that a finished row does not change at all.\<close>

definition row_step :: "AlertNotificationOutbox \<Rightarrow> AlertNotificationOutbox \<Rightarrow> bool" where
  "row_step r r' \<longleftrightarrow> Outbox_ID r' = Outbox_ID r \<and> Outbox_EventID r' = Outbox_EventID r \<and>
     Outbox_Transition r' = Outbox_Transition r \<and> Outbox_ChannelID r' = Outbox_ChannelID r \<and>
     Outbox_ChannelType r' = Outbox_ChannelType r \<and> Outbox_Payload r' = Outbox_Payload r \<and>
     Outbox_DedupeKey r' = Outbox_DedupeKey r \<and> (terminal (Outbox_Status r) \<longrightarrow> r' = r)"

definition evolves :: "AlertNotificationOutbox list \<Rightarrow> AlertNotificationOutbox list \<Rightarrow> bool" where
  "evolves rs rs' \<longleftrightarrow> (\<exists>ups new. rs' = ups @ new \<and> list_all2 row_step rs ups)"

lemma row_step_refl [simp]: "row_step r r"
  by (simp add: row_step_def)

lemma row_step_trans: "row_step r s \<Longrightarrow> row_step s t \<Longrightarrow> row_step r t"
  by (auto simp: row_step_def)

lemma evolves_refl [simp]: "evolves rs rs"
  by (auto simp: evolves_def list_all2_same intro: exI [of _ rs])

lemma evolves_trans:
  assumes "evolves rs ss" "evolves ss ts"
  shows "evolves rs ts"
proof -
  from assms(1) obtain ups new where u: "ss = ups @ new" "list_all2 row_step rs ups" by (auto simp: evolves_def)
  from assms(2) u(1) obtain ups' new' where
    v: "ts = ups' @ new'" "list_all2 row_step (ups @ new) ups'" by (auto simp: evolves_def)
  then obtain a b where ab: "ups' = a @ b" "list_all2 row_step ups a" by (auto simp: list_all2_append1)
  have "list_all2 row_step rs a" using u(2) ab(2) row_step_trans by (rule list_all2_trans [rotated 1])
  with v(1) ab(1) show ?thesis by (auto simp: evolves_def)
qed

lemma evolves_append [simp]: "evolves rs (rs @ new)"
  by (auto simp: evolves_def list_all2_same intro: exI [of _ rs])

lemma evolves_update:
  assumes "\<And>r. r \<in> set rs \<Longrightarrow> p r \<Longrightarrow> row_step r (f r)"
  shows "evolves rs (update_where p f rs)"
proof -
  have "list_all2 row_step rs (update_where p f rs)"
    using assms by (auto simp: update_where_def list_all2_conv_all_nth)
  then show ?thesis by (auto simp: evolves_def)
qed

lemma evolves_terminal:
  assumes "evolves rs rs'" "r \<in> set rs" "terminal (Outbox_Status r)"
  shows "r \<in> set rs'"
  using assms by (fastforce simp: evolves_def list_all2_conv_all_nth in_set_conv_nth row_step_def nth_append)

definition outbox_ok :: "notify_db \<Rightarrow> bool" where
  "outbox_ok db \<longleftrightarrow> distinct (map Outbox_ID (outbox db)) \<and> distinct (map Outbox_DedupeKey (outbox db)) \<and>
     (\<forall>r \<in> set (outbox db). Outbox_ID r < outbox_seq db)"

text \<open>\<open>keeps\<close>: the rows evolve in place, none is added and no id is consumed.\<close>

definition keeps :: "notify_db \<Rightarrow> notify_db \<Rightarrow> bool" where
  "keeps db db' \<longleftrightarrow> list_all2 row_step (outbox db) (outbox db') \<and> outbox_seq db' = outbox_seq db"

lemma keeps_refl [simp]: "keeps db db"
  by (simp add: keeps_def list_all2_same)

lemma keeps_trans: "keeps db db' \<Longrightarrow> keeps db' db'' \<Longrightarrow> keeps db db''"
  unfolding keeps_def using list_all2_trans [of row_step row_step row_step] row_step_trans by metis

lemma keeps_update:
  "(\<And>r. r \<in> set (outbox db) \<Longrightarrow> p r \<Longrightarrow> row_step r (f r)) \<Longrightarrow> keeps db (db\<lparr>outbox := update_where p f (outbox db)\<rparr>)"
  by (auto simp: keeps_def update_where_def list_all2_conv_all_nth)

lemma keeps_channels [simp]: "keeps db (update_channel db' i f) = keeps db db'"
  "keeps db (recordChannelSuccess db' i t) = keeps db db'" "keeps db (recordChannelFailure db' i c e t) = keeps db db'"
  by (simp_all add: keeps_def update_channel_def recordChannelSuccess_def recordChannelFailure_def)

lemma keeps_evolves: "keeps db db' \<Longrightarrow> evolves (outbox db) (outbox db')"
  by (auto simp: keeps_def evolves_def)

lemma keeps_ok:
  assumes "keeps db db'" "outbox_ok db"
  shows "outbox_ok db'"
proof -
  from assms(1) have l: "list_all2 row_step (outbox db) (outbox db')" "outbox_seq db' = outbox_seq db"
    by (simp_all add: keeps_def)
  then have "map Outbox_ID (outbox db') = map Outbox_ID (outbox db)"
    "map Outbox_DedupeKey (outbox db') = map Outbox_DedupeKey (outbox db)"
    by (auto simp: list_all2_conv_all_nth row_step_def intro!: nth_equalityI)
  then have ids: "map Outbox_ID (outbox db') = map Outbox_ID (outbox db)"
    "map Outbox_DedupeKey (outbox db') = map Outbox_DedupeKey (outbox db)" by blast+
  have "Outbox_ID r < outbox_seq db" if "r \<in> set (outbox db')" for r
  proof -
    have "Outbox_ID r \<in> set (map Outbox_ID (outbox db'))" using that by simp
    then have "Outbox_ID r \<in> Outbox_ID ` set (outbox db)" unfolding ids set_map .
    with assms(2) show ?thesis by (auto simp: outbox_ok_def)
  qed
  with assms(2) ids l(2) show ?thesis by (simp add: outbox_ok_def)
qed

subsection \<open>Every operation\<close>

lemma live_simps [simp]:
  "\<not> terminal OutboxStatusPending" "\<not> terminal OutboxStatusSending" "\<not> terminal OutboxStatusRetry"
  "\<not> terminal OutboxStatusBlocked" "\<not> terminal OutboxStatusPaused"
  by (simp_all add: terminal_def outbox_status)

lemma updateSending_keeps:
  assumes "updateSendingNotification db i ch f = Inr db'" "\<And>r. row_step (r\<lparr>Outbox_Status := OutboxStatusSending\<rparr>) (f r)"
  shows "keeps db db'"
proof -
  have "row_step r ((f r)\<lparr>Outbox_IsProbe := False\<rparr>)" if "Outbox_Status r = OutboxStatusSending" for r
    using assms(2) [of r] that by (simp add: row_step_def)
  with assms(1) show ?thesis
    by (auto simp: updateSendingNotification_def Let_def split: if_splits intro: keeps_update)
qed

lemma update_queued_keeps:
  assumes "\<And>r. row_step (r\<lparr>Outbox_Status := OutboxStatusSending\<rparr>) (f r)" "list_all (\<lambda>s. \<not> terminal s) statuses"
  shows "keeps db (update_queued db i statuses f)"
proof -
  have "row_step r (f r)" if "Outbox_Status r \<in> set statuses" for r
    using assms(1) [of r] assms(2) that by (auto simp: row_step_def list_all_iff)
  then show ?thesis unfolding update_queued_def by (intro keeps_update) simp
qed

lemma wake_keeps: "list_all (\<lambda>s. \<not> terminal s) statuses \<Longrightarrow> keeps db (wakeChannelNotifications db i now statuses)"
  unfolding wakeChannelNotifications_def by (rule update_queued_keeps) (simp_all add: row_step_def)

lemma pause_keeps: "keeps db (pauseChannelNotifications db i)"
  unfolding pauseChannelNotifications_def by (rule update_queued_keeps) (simp_all add: row_step_def)

lemma discard_keeps: "keeps db (discardChannelNotifications db i c m)"
  unfolding discardChannelNotifications_def by (rule update_queued_keeps) (simp_all add: row_step_def)

lemma coalesce_keeps: "keeps db (coalesce_queued db failure)"
  unfolding coalesce_queued_def Let_def
  by (rule keeps_trans [OF update_queued_keeps update_queued_keeps]) (simp_all add: row_step_def)

lemmas channel_updates_keep = wake_keeps pause_keeps discard_keeps coalesce_keeps

lemma keeps_via_channel: "keeps (update_channel db i f) db' = keeps db db'"
  "keeps (recordChannelSuccess db i t) db' = keeps db db'"
  "keeps (db\<lparr>setting_channel_ids := ids\<rparr>) db' = keeps db db'"
  by (simp_all add: keeps_def update_channel_def recordChannelSuccess_def)

lemma retry_keeps: "retrySendingNotification db i ch now clock = Inr db' \<Longrightarrow> keeps db db'"
  unfolding retrySendingNotification_def by (erule updateSending_keeps) (simp add: row_step_def)

lemma requeue_keeps: "RequeueNotification db i ch t clock = Inr db' \<Longrightarrow> keeps db db'"
  unfolding RequeueNotification_def releaseSendingNotification_def
  by (erule updateSending_keeps) (simp add: row_step_def)

lemma complete_keeps:
  assumes "CompleteNotification db i ch revision sentAt = Inr db'"
  shows "keeps db db'"
proof -
  have "keeps db d" if "markNotificationSent db i ch sentAt = Inr (m, d)" for m d
    using that unfolding markNotificationSent_def
    by (auto split: sum.splits if_splits option.splits intro!: updateSending_keeps simp: row_step_def)
  then show ?thesis
    using assms unfolding CompleteNotification_def
    by (auto simp: keeps_via_channel split: sum.splits prod.splits if_splits
        intro!: keeps_trans [OF _ iffD1 [OF keeps_via_channel(2) wake_keeps]])
qed

lemma discard_deleted_keeps: "updateSendingNotification db i ch discard_deleted = Inr d \<Longrightarrow> keeps db d"
  by (erule updateSending_keeps) (simp add: row_step_def discard_deleted_def)

lemma pause_sending_keeps:
  "updateSendingNotification db i ch (\<lambda>r. r\<lparr>Outbox_Status := st, Outbox_FailureCode := fc, Outbox_LastError := le,
     Outbox_ProbeCount := 0\<rparr>) = Inr d \<Longrightarrow> keeps db d"
  by (erule updateSending_keeps) (simp add: row_step_def)

lemma failure_updates_keep:
  "updateSendingNotification db i ch (notificationFailureUpdates failure st) = Inr d \<Longrightarrow> keeps db d"
  by (erule updateSending_keeps) (simp add: row_step_def notificationFailureUpdates_def)

lemma attempt_updates_keep:
  "updateSendingNotification db i ch (\<lambda>r. (notificationFailureUpdates failure st r)\<lparr>Outbox_AttemptCount := a r,
     Outbox_ProbeCount := b r\<rparr>) = Inr d \<Longrightarrow> keeps db d"
  by (erule updateSending_keeps) (simp add: row_step_def notificationFailureUpdates_def)

lemmas sending_updates_keep = discard_deleted_keeps pause_sending_keeps failure_updates_keep attempt_updates_keep retry_keeps

lemma failure_keeps: "recordNotificationFailure db failure status coalesce clock = Inr db' \<Longrightarrow> keeps db db'"
  unfolding recordNotificationFailure_def Let_def
  by (auto split: sum.splits if_splits dest: sending_updates_keep
      intro: keeps_trans [OF attempt_updates_keep coalesce_keeps])

lemma pause_notification_keeps: "PauseNotification db failure clock = Inr db' \<Longrightarrow> keeps db db'"
  unfolding PauseNotification_def by (auto split: sum.splits if_splits dest: sending_updates_keep)

lemma discard_notification_keeps: "DiscardNotification db failure clock = Inr db' \<Longrightarrow> keeps db db'"
  unfolding DiscardNotification_def by (auto split: sum.splits if_splits dest: sending_updates_keep)

lemmas after_channel_keeps =
  iffD1 [OF keeps_via_channel(1) wake_keeps] iffD1 [OF keeps_via_channel(1) pause_keeps]
  iffD1 [OF keeps_via_channel(1) discard_keeps] iffD1 [OF keeps_via_channel(2) wake_keeps]
  iffD1 [OF keeps_via_channel(3) discard_keeps]

lemma replace_keeps: "ReplaceChannel seal db i revision c clock = Inr db' \<Longrightarrow> keeps db db'"
  by (auto simp: ReplaceChannel_def Let_def after_channel_keeps split: sum.splits if_splits)

lemma config_keeps: "UpdateChannelConfig seal db i revision clock = Inr db' \<Longrightarrow> keeps db db'"
  by (auto simp: UpdateChannelConfig_def Let_def after_channel_keeps split: sum.splits if_splits)

lemma enable_keeps: "SetChannelEnabled db i enabled clock = Inr db' \<Longrightarrow> keeps db db'"
  by (auto simp: SetChannelEnabled_def Let_def after_channel_keeps split: sum.splits if_splits)

lemma delete_keeps: "DeleteChannel db i clock = Inr db' \<Longrightarrow> keeps db db'"
  by (auto simp: DeleteChannel_def Let_def after_channel_keeps split: sum.splits if_splits)

lemma recover_keeps: "RecoverChannelNotifications db i revision t = Inr db' \<Longrightarrow> keeps db db'"
  by (auto simp: RecoverChannelNotifications_def Let_def after_channel_keeps split: sum.splits if_splits)

lemma record_keeps: "RecordChannelFailure db cf clock = Inr db' \<Longrightarrow> keeps db db'"
  by (auto simp: RecordChannelFailure_def split: sum.splits if_splits)

lemma sort_key_hd_in: "sort_key k xs = y # ys \<Longrightarrow> y \<in> set xs"
  by (metis list.set_intros(1) set_sort)

lemma distinct_ids_eq: "outbox_ok db \<Longrightarrow> r \<in> set (outbox db) \<Longrightarrow> s \<in> set (outbox db) \<Longrightarrow> Outbox_ID r = Outbox_ID s \<Longrightarrow> r = s"
  by (auto simp: outbox_ok_def distinct_map inj_on_def)

lemma take_next_cases:
  assumes "TakeNextNotification db now = (x, db')"
  obtains (none) "x = None" "db' = db"
  | (some) item where "item \<in> set (outbox db)" "due now item" "notificationPredecessorReady db item"
      "x = Some (item\<lparr>Outbox_Status := OutboxStatusSending,
                Outbox_IsProbe := Outbox_IsProbe item \<or> Outbox_Status item = OutboxStatusBlocked\<rparr>)"
      "db' = db\<lparr>outbox := update_where (\<lambda>r. Outbox_ID r = Outbox_ID item)
         (\<lambda>r. r\<lparr>Outbox_Status := OutboxStatusSending,
            Outbox_IsProbe := Outbox_IsProbe item \<or> Outbox_Status item = OutboxStatusBlocked,
            Outbox_NextAttemptAt := now\<rparr>) (outbox db)\<rparr>"
proof (cases "sort_key take_order (filter (\<lambda>r. due now r \<and> notificationPredecessorReady db r) (outbox db))")
  case Nil
  with assms none show thesis by (simp add: TakeNextNotification_def)
next
  case (Cons item rest)
  from sort_key_hd_in [OF Cons] Cons assms some [of item] show thesis
    by (auto simp: TakeNextNotification_def Let_def)
qed

lemma due_live: "due now r \<Longrightarrow> \<not> terminal (Outbox_Status r)"
  by (auto simp: due_def)

lemma take_next_keeps:
  assumes "outbox_ok db" "TakeNextNotification db now = (x, db')"
  shows "keeps db db'"
  using assms(2)
proof (cases rule: take_next_cases)
  case (some item)
  have "row_step r (r\<lparr>Outbox_Status := OutboxStatusSending, Outbox_IsProbe := b, Outbox_NextAttemptAt := now\<rparr>)"
    if "r \<in> set (outbox db)" "Outbox_ID r = Outbox_ID item" for r b
    using distinct_ids_eq [OF assms(1) that(1) some(1) that(2)] due_live [OF some(2)] by (simp add: row_step_def)
  then show ?thesis unfolding some(5) by (intro keeps_update)
qed simp

lemma extend_batch_prefix:
  "\<exists>n. extend_batch kind messages cs = map (\<lambda>c. c\<lparr>Outbox_Status := OutboxStatusSending\<rparr>) (take n cs)"
proof (induction cs arbitrary: messages)
  case (Cons c cs)
  show ?case
  proof (cases "\<exists>p. Outbox_Payload c = Some p \<and> extend_batch kind messages (c # cs) =
      c\<lparr>Outbox_Status := OutboxStatusSending\<rparr> # extend_batch kind (messages @ [payload_message p]) cs")
    case True
    then obtain p where p: "extend_batch kind messages (c # cs) =
      c\<lparr>Outbox_Status := OutboxStatusSending\<rparr> # extend_batch kind (messages @ [payload_message p]) cs" by blast
    obtain n where "extend_batch kind (messages @ [payload_message p]) cs =
      map (\<lambda>c. c\<lparr>Outbox_Status := OutboxStatusSending\<rparr>) (take n cs)" using Cons.IH by blast
    with p show ?thesis by (intro exI [of _ "Suc n"]) simp
  next
    case False
    then have "extend_batch kind messages (c # cs) = []" by (auto simp: Let_def split: option.splits if_splits)
    then show ?thesis by (intro exI [of _ 0]) simp
  qed
qed simp

lemma update_where_none [simp]: "update_where (\<lambda>r. False) f rs = rs"
  by (simp add: update_where_def)

definition mark_sending :: "time \<Rightarrow> AlertNotificationOutbox list \<Rightarrow> notify_db \<Rightarrow> notify_db" where
  "mark_sending now cs db = db\<lparr>outbox := update_where (\<lambda>r. Outbox_ID r \<in> Outbox_ID ` set cs)
     (\<lambda>r. r\<lparr>Outbox_Status := OutboxStatusSending, Outbox_NextAttemptAt := now\<rparr>) (outbox db)\<rparr>"

lemma batch_cases:
  assumes "TakeNotificationBatch db now = (items, db')"
  obtains (none) "items = []" "db' = db"
  | (some) first db1 n cs where "TakeNextNotification db now = (Some first, db1)"
      "cs = take n (take 99 (sort_key Outbox_ID (filter (batch_candidate db1 now first) (outbox db1))))"
      "items = first # map (\<lambda>c. c\<lparr>Outbox_Status := OutboxStatusSending\<rparr>) cs" "db' = mark_sending now cs db1"
proof -
  obtain x db1 where t: "TakeNextNotification db now = (x, db1)" by (cases "TakeNextNotification db now")
  show thesis
  proof (cases x)
    case None
    with t have "db1 = db" by (auto elim: take_next_cases)
    with None t assms none show thesis by (simp add: TakeNotificationBatch_def)
  next
    case (Some first)
    note t' = t [unfolded Some]
    let ?cs = "take 99 (sort_key Outbox_ID (filter (batch_candidate db1 now first) (outbox db1)))"
    show thesis
    proof (cases "items = [first] \<and> db' = db1")
      case True
      with some [OF t', of "[]" 0] show thesis by (simp add: mark_sending_def)
    next
      case False
      with assms t' obtain payload where p: "Outbox_Payload first = Some payload"
        "(items, db') = (let more = extend_batch (Outbox_ChannelType first) [payload_message payload] ?cs
           in (first # more, db1\<lparr>outbox := update_where (\<lambda>r. Outbox_ID r \<in> set (map Outbox_ID more))
                (\<lambda>r. r\<lparr>Outbox_Status := OutboxStatusSending, Outbox_NextAttemptAt := now\<rparr>) (outbox db1)\<rparr>))"
        by (auto simp: TakeNotificationBatch_def Let_def split: if_splits option.splits)
      obtain n where n: "extend_batch (Outbox_ChannelType first) [payload_message payload] ?cs =
          map (\<lambda>c. c\<lparr>Outbox_Status := OutboxStatusSending\<rparr>) (take n ?cs)" using extend_batch_prefix by blast
      show thesis
        by (rule some [OF t' refl, of n]) (use p(2) in \<open>simp_all add: n Let_def mark_sending_def image_image\<close>)
    qed
  qed
qed

text \<open>The members of a batch besides the first, as rows of the table.\<close>

lemma batch_members:
  assumes "cs = take n (take 99 (sort_key Outbox_ID (filter (batch_candidate db1 now first) (outbox db1))))"
  shows "set cs \<subseteq> {r \<in> set (outbox db1). batch_candidate db1 now first r}" "length cs \<le> 99"
    "outbox_ok db1 \<Longrightarrow> distinct (map Outbox_ID cs)"
proof -
  show "length cs \<le> 99" by (simp add: assms)
  show "set cs \<subseteq> {r \<in> set (outbox db1). batch_candidate db1 now first r}"
    unfolding assms by (auto dest!: in_set_takeD)
  show "distinct (map Outbox_ID cs)" if "outbox_ok db1"
  proof -
    let ?f = "filter (batch_candidate db1 now first) (outbox db1)"
    have "distinct (map Outbox_ID ?f)" using that by (auto simp: outbox_ok_def distinct_map_filter)
    then have "distinct (map Outbox_ID (sort_key Outbox_ID ?f))"
      by (auto simp: distinct_map distinct_sort)
    then show ?thesis unfolding assms take_take take_map [symmetric] by simp
  qed
qed

lemma candidate_live: "batch_candidate db now first r \<Longrightarrow> \<not> terminal (Outbox_Status r)"
  by (auto simp: batch_candidate_def)

lemma mark_sending_keeps:
  assumes "outbox_ok db" "set cs \<subseteq> {r \<in> set (outbox db). batch_candidate db now first r}"
  shows "keeps db (mark_sending now cs db)"
  unfolding mark_sending_def
proof (rule keeps_update)
  fix r assume r: "r \<in> set (outbox db)" "Outbox_ID r \<in> Outbox_ID ` set cs"
  then obtain c where c: "c \<in> set cs" "Outbox_ID r = Outbox_ID c" by auto
  with assms(2) have "c \<in> set (outbox db)" "batch_candidate db now first c" by auto
  with distinct_ids_eq [OF assms(1) r(1) _ c(2)] candidate_live [of db now first c] show
    "row_step r (r\<lparr>Outbox_Status := OutboxStatusSending, Outbox_NextAttemptAt := now\<rparr>)"
    by (auto simp: row_step_def)
qed

lemma batch_keeps:
  assumes "outbox_ok db" "TakeNotificationBatch db now = (items, db')"
  shows "keeps db db'"
  using assms(2)
proof (cases rule: batch_cases)
  case (some first db1 n cs)
  have k: "keeps db db1" using take_next_keeps [OF assms(1) some(1)] .
  with mark_sending_keeps [OF keeps_ok [OF k assms(1)] batch_members(1) [OF some(2)]] some(4) show ?thesis
    by (simp add: keeps_trans)
qed simp

lemma insert_row_evolves:
  "outbox_ok db \<Longrightarrow> outbox_ok (insert_row row db) \<and> evolves (outbox db) (outbox (insert_row row db))"
  by (auto simp: insert_row_def outbox_ok_def Let_def)

lemma insert_rows_evolve:
  "outbox_ok db \<Longrightarrow> outbox_ok (fold insert_row rows db) \<and> evolves (outbox db) (outbox (fold insert_row rows db))"
proof (induction rows arbitrary: db)
  case (Cons row rows)
  from Cons.IH [of "insert_row row db"] insert_row_evolves [OF Cons.prems, of row] show ?case
    by (auto intro: evolves_trans)
qed simp

lemmas all_keeps = complete_keeps requeue_keeps failure_keeps pause_notification_keeps discard_notification_keeps
  replace_keeps config_keeps enable_keeps delete_keeps recover_keeps record_keeps

lemma keeps_step: "keeps db db' \<Longrightarrow> outbox_ok db \<Longrightarrow> outbox_ok db' \<and> evolves (outbox db) (outbox db')"
  using keeps_ok keeps_evolves by blast

lemma step_evolves:
  "outbox_step db db' \<Longrightarrow> outbox_ok db \<Longrightarrow> outbox_ok db' \<and> evolves (outbox db) (outbox db')"
proof (induction rule: outbox_step.induct)
  case (Enqueue db params now db')
  then show ?case
    using insert_rows_evolve by (auto simp: insertNotifications_def split: if_splits)
next
  case (Take db now items db')
  then show ?case using batch_keeps keeps_ok keeps_evolves by blast
qed ((drule all_keeps, erule (1) keeps_step) | (unfold RetryNotification_def BlockNotification_def, drule failure_keeps, erule (1) keeps_step))+

lemma update_where_other: "r \<in> set rs \<Longrightarrow> \<not> p r \<Longrightarrow> r \<in> set (update_where p f rs)"
  by (force simp: update_where_def)

lemma update_where_in: "r \<in> set rs \<Longrightarrow> p r \<Longrightarrow> f r \<in> set (update_where p f rs)"
  by (force simp: update_where_def)

lemma ready_iff:
  "notificationPredecessorReady db r \<longleftrightarrow> Outbox_Transition r = ''closed'' \<longrightarrow>
     (\<forall>o' \<in> set (outbox db). Outbox_EventID o' \<noteq> None \<longrightarrow> Outbox_EventID o' = Outbox_EventID r \<longrightarrow>
        Outbox_ChannelID o' = Outbox_ChannelID r \<longrightarrow> Outbox_Transition o' = ''opened'' \<longrightarrow> \<not> outstanding (Outbox_Status o'))"
  by (auto simp: notificationPredecessorReady_def list_ex_iff)

lemma insert_rows_dup:
  "set (map Outbox_DedupeKey rows) \<subseteq> set (map Outbox_DedupeKey (outbox db)) \<Longrightarrow> outbox (fold insert_row rows db) = outbox db"
  by (induction rows arbitrary: db) (auto simp: insert_row_def Let_def)

lemma insert_rows_keys:
  "set (map Outbox_DedupeKey rows) \<subseteq> set (map Outbox_DedupeKey (outbox (fold insert_row rows db)))"
proof (induction rows arbitrary: db)
  case (Cons row rows)
  have mono: "set (map Outbox_DedupeKey (outbox d)) \<subseteq> set (map Outbox_DedupeKey (outbox (fold insert_row rs d)))" for rs d
    by (induction rs arbitrary: d) (fastforce simp: insert_row_def Let_def split: if_splits)+
  have "Outbox_DedupeKey row \<in> set (map Outbox_DedupeKey (outbox (insert_row row db)))"
    by (auto simp: insert_row_def Let_def)
  with mono [of "insert_row row db" rows] Cons.IH [of "insert_row row db"] show ?case by auto
qed simp

subsection \<open>Properties\<close>

text \<open>
  C18. A delivered or discarded notification is final: no history of enqueueing, taking, completing,
  failing, and channel changes alters or removes a row once it is sent or discarded, so it is never
  sent again; ids and dedupe keys stay unique throughout.
\<close>

theorem finished_rows_final:
  assumes "outbox_ok db" and "outbox_step\<^sup>*\<^sup>* db db'" and "r \<in> set (outbox db)" and "terminal (Outbox_Status r)"
  shows "r \<in> set (outbox db') \<and> outbox_ok db'"
proof -
  from assms(2,1) have "outbox_ok db' \<and> evolves (outbox db) (outbox db')"
    by (induction rule: rtranclp_induct) (auto dest: step_evolves intro: evolves_trans)
  with evolves_terminal [OF _ assms(3,4)] show ?thesis by blast
qed

text \<open>
  C19. A recovery notice never overtakes its alarm: when a batch is taken, no notification about the
  opening of the same event on the same channel is still outstanding for any closing notification in it.
\<close>

theorem closed_waits_for_opened:
  assumes "outbox_ok db" and "TakeNotificationBatch db now = (items, db')" and "item \<in> set items"
    and "Outbox_Transition item = ''closed''" and "Outbox_EventID item = Some e"
    and "opened \<in> set (outbox db)" and "Outbox_EventID opened = Some e"
    and "Outbox_ChannelID opened = Outbox_ChannelID item" and "Outbox_Transition opened = ''opened''"
  shows "\<not> outstanding (Outbox_Status opened)"
  using assms(2)
proof (cases rule: batch_cases)
  case (some first db1 n cs)
  from some(1) obtain row where row: "row \<in> set (outbox db)" "notificationPredecessorReady db row"
    "Outbox_ID first = Outbox_ID row" "Outbox_Transition first = Outbox_Transition row"
    "Outbox_EventID first = Outbox_EventID row" "Outbox_ChannelID first = Outbox_ChannelID row"
    "outbox db1 = update_where (\<lambda>r. Outbox_ID r = Outbox_ID row) (\<lambda>r. r\<lparr>Outbox_Status := OutboxStatusSending,
       Outbox_IsProbe := Outbox_IsProbe row \<or> Outbox_Status row = OutboxStatusBlocked, Outbox_NextAttemptAt := now\<rparr>) (outbox db)"
    by (cases rule: take_next_cases) auto
  consider "item = first" | c where "c \<in> set cs" "item = c\<lparr>Outbox_Status := OutboxStatusSending\<rparr>"
    using assms(3) some(3) by auto
  then show ?thesis
  proof cases
    case 1
    with row assms show ?thesis by (auto simp: ready_iff)
  next
    case (2 c)
    have c: "batch_candidate db1 now first c" using 2(1) batch_members(1) [OF some(2)] by auto
    then have "Outbox_Transition row = ''closed''" using 2(2) assms(4) row(4) by (simp add: batch_candidate_def)
    with assms(9) have "opened \<noteq> row" by auto
    then have "Outbox_ID opened \<noteq> Outbox_ID row" using distinct_ids_eq [OF assms(1,6) row(1)] by blast
    then have "opened \<in> set (outbox db1)" unfolding row(7) using assms(6) by (intro update_where_other) auto
    with c 2(2) assms show ?thesis by (auto simp: batch_candidate_def ready_iff)
  qed
qed (use assms(3) in simp)

text \<open>
  The shape of a batch: at most one hundred distinct rows of one channel, channel type and
  transition, each of which was live before; afterwards exactly these rows are marked as being sent
  at \<open>now\<close>, and every other row is untouched.\<close>

theorem batch_shape:
  assumes "outbox_ok db" and "TakeNotificationBatch db now = (items, db')"
  shows "length items \<le> 100 \<and> distinct (map Outbox_ID items) \<and>
     (\<forall>a \<in> set items. \<forall>b \<in> set items. Outbox_ChannelID a = Outbox_ChannelID b \<and>
        Outbox_ChannelType a = Outbox_ChannelType b \<and> Outbox_Transition a = Outbox_Transition b) \<and>
     (\<forall>a \<in> set items. \<exists>r \<in> set (outbox db). Outbox_ID r = Outbox_ID a \<and> \<not> terminal (Outbox_Status r)) \<and>
     (\<forall>r' \<in> set (outbox db'). if Outbox_ID r' \<in> Outbox_ID ` set items
        then Outbox_Status r' = OutboxStatusSending \<and> Outbox_NextAttemptAt r' = now else r' \<in> set (outbox db))"
  using assms(2)
proof (cases rule: batch_cases)
  case (some first db1 n cs)
  from some(1) obtain row where row: "row \<in> set (outbox db)" "due now row" "Outbox_ID first = Outbox_ID row"
    "outbox db1 = update_where (\<lambda>r. Outbox_ID r = Outbox_ID row) (\<lambda>r. r\<lparr>Outbox_Status := OutboxStatusSending,
       Outbox_IsProbe := Outbox_IsProbe row \<or> Outbox_Status row = OutboxStatusBlocked, Outbox_NextAttemptAt := now\<rparr>) (outbox db)"
    by (cases rule: take_next_cases) auto
  have ok1: "outbox_ok db1" using keeps_ok [OF take_next_keeps [OF assms(1) some(1)] assms(1)] .
  note cs = batch_members [OF some(2)]
  have same: "Outbox_ChannelID c = Outbox_ChannelID first \<and> Outbox_ChannelType c = Outbox_ChannelType first \<and>
      Outbox_Transition c = Outbox_Transition first \<and> Outbox_ID c \<noteq> Outbox_ID first \<and> c \<in> set (outbox db1) \<and>
      \<not> terminal (Outbox_Status c)" if "c \<in> set cs" for c
    using cs(1) that candidate_live by (auto simp: batch_candidate_def)
  have live: "\<exists>r \<in> set (outbox db). Outbox_ID r = Outbox_ID c \<and> \<not> terminal (Outbox_Status r)" if "c \<in> set cs" for c
    using same [OF that] row(3) unfolding row(4) by (auto simp: update_where_def split: if_splits)
  have "Outbox_ID first \<noteq> Outbox_ID c" if "c \<in> set cs" for c using same [OF that] by simp
  then have "Outbox_ID first \<notin> set (map Outbox_ID cs)" by auto
  then have "distinct (map Outbox_ID items)" using cs(3) [OF ok1] by (simp add: some(3) comp_def)
  moreover have ids: "Outbox_ID ` set items = insert (Outbox_ID row) (Outbox_ID ` set cs)"
    by (simp add: some(3) row(3) image_image)
  have "\<forall>r' \<in> set (outbox db'). if Outbox_ID r' \<in> Outbox_ID ` set items
        then Outbox_Status r' = OutboxStatusSending \<and> Outbox_NextAttemptAt r' = now else r' \<in> set (outbox db)"
    unfolding ids some(4) mark_sending_def row(4) by (auto simp: update_where_def)
  moreover have "\<forall>a \<in> set items. \<exists>r \<in> set (outbox db). Outbox_ID r = Outbox_ID a \<and> \<not> terminal (Outbox_Status r)"
    using live row due_live [OF row(2)] by (auto simp: some(3))
  moreover have "length items \<le> 100" using cs(2) by (simp add: some(3))
  ultimately show ?thesis using same by (auto simp: some(3))
qed simp

text \<open>
  Enqueueing an event's notifications is idempotent: repeating the insertion, at any later time,
  adds no row.\<close>

theorem enqueue_idempotent:
  assumes "insertAlertNotifications db eventID params now = Inr db'"
    and "insertAlertNotifications db' eventID params later = Inr db''"
  shows "outbox db'' = outbox db'"
proof (cases "params = []")
  case True
  with assms(2) show ?thesis by (simp add: insertAlertNotifications_def insertNotifications_def)
next
  case False
  let ?ps = "map (alert_param eventID) params"
  have keys: "map Outbox_DedupeKey (map (outbox_row f t) ?ps) = map Param_DedupeKey ?ps" for f t
    by (simp add: outbox_row_def comp_def)
  have "db' = fold insert_row (map (outbox_row (blockedNotificationSchedules db ?ps) now) ?ps) db"
    using assms(1) False by (auto simp: insertAlertNotifications_def insertNotifications_def split: if_splits)
  then have "set (map Param_DedupeKey ?ps) \<subseteq> set (map Outbox_DedupeKey (outbox db'))"
    using insert_rows_keys keys by metis
  moreover have "db'' = fold insert_row (map (outbox_row (blockedNotificationSchedules db' ?ps) later) ?ps) db'"
    using assms(2) False by (auto simp: insertAlertNotifications_def insertNotifications_def split: if_splits)
  ultimately show ?thesis using insert_rows_dup keys by metis
qed

subsection \<open>A worked example\<close>

text \<open>Event 5 on channel 1: its opening was sent, its recovery is due.\<close>

definition example_row :: AlertNotificationOutbox where
  "example_row = \<lparr>Outbox_ID = 1, Outbox_EventID = Some 5, Outbox_Transition = ''opened'', Outbox_ChannelID = 1,
     Outbox_ChannelType = NotifyTypeTelegram,
     Outbox_Payload = Some \<lparr>Payload_Title = ''t'', Payload_Body = ''b'', Payload_Metadata = []\<rparr>,
     Outbox_DedupeKey = ''alert:5:opened:1'', Outbox_Status = OutboxStatusSent, Outbox_AttemptCount = 1,
     Outbox_ProbeCount = 0, Outbox_IsProbe = False, Outbox_NextAttemptAt = 100, Outbox_FailureCode = None,
     Outbox_LastError = None, Outbox_SentAt = Some 100\<rparr>"

definition example_closed :: AlertNotificationOutbox where
  "example_closed = example_row\<lparr>Outbox_ID := 2, Outbox_Transition := ''closed'', Outbox_DedupeKey := ''alert:5:closed:1'',
     Outbox_Status := OutboxStatusPending, Outbox_AttemptCount := 0, Outbox_SentAt := None\<rparr>"

definition example_channel :: NotifyChannel where
  "example_channel = \<lparr>Channel_ID = 1, Channel_Name = ''ops'', Channel_Type = NotifyTypeTelegram, Channel_Enabled = True,
     Channel_IsDeleted = False, Channel_Revision = 1, Channel_LastSuccessAt = None, Channel_LastFailureAt = None,
     Channel_ConsecutiveFailures = 0, Channel_LastErrorCode = None, Channel_LastError = None, Channel_ConfigUpdatedAt = 0\<rparr>"

definition example_db :: notify_db where
  "example_db = \<lparr>outbox = [example_row, example_closed], outbox_seq = 3, channels = [example_channel],
     setting_channel_ids = [1]\<rparr>"

lemma example_db_ok: "outbox_ok example_db"
  by (simp add: outbox_ok_def example_db_def example_row_def example_closed_def)

lemma example_batch: "\<exists>db'. TakeNotificationBatch example_db 200 = ([example_closed\<lparr>Outbox_Status := OutboxStatusSending\<rparr>], db')"
proof -
  have "fst (TakeNotificationBatch example_db 200) = [example_closed\<lparr>Outbox_Status := OutboxStatusSending\<rparr>]"
    unfolding example_db_def example_row_def example_closed_def by code_simp
  then show ?thesis by (metis prod.collapse)
qed

theorem finished_rows_final_witness:
  "\<exists>items db'. TakeNotificationBatch example_db 200 = (items, db') \<and> example_row \<in> set (outbox db')"
proof -
  obtain db' where b: "TakeNotificationBatch example_db 200 = ([example_closed\<lparr>Outbox_Status := OutboxStatusSending\<rparr>], db')"
    using example_batch by blast
  then have "outbox_step\<^sup>*\<^sup>* example_db db'" by (blast intro: outbox_step.Take)
  with finished_rows_final [OF example_db_ok this, of example_row] b show ?thesis
    by (auto simp: example_db_def example_row_def terminal_def)
qed

theorem closed_waits_for_opened_witness:
  "\<exists>db'. TakeNotificationBatch example_db 200 = ([example_closed\<lparr>Outbox_Status := OutboxStatusSending\<rparr>], db') \<and>
     \<not> outstanding (Outbox_Status example_row)"
proof -
  obtain db' where b: "TakeNotificationBatch example_db 200 = ([example_closed\<lparr>Outbox_Status := OutboxStatusSending\<rparr>], db')"
    using example_batch by blast
  from closed_waits_for_opened [OF example_db_ok b, of "example_closed\<lparr>Outbox_Status := OutboxStatusSending\<rparr>" 5 example_row] b
  show ?thesis by (simp add: example_db_def example_row_def example_closed_def)
qed

theorem batch_shape_witness:
  "\<exists>items db'. TakeNotificationBatch example_db 200 = (items, db') \<and> length items \<le> 100 \<and> distinct (map Outbox_ID items)"
proof -
  obtain db' where b: "TakeNotificationBatch example_db 200 = ([example_closed\<lparr>Outbox_Status := OutboxStatusSending\<rparr>], db')"
    using example_batch by blast
  from batch_shape [OF example_db_ok b] b show ?thesis by blast
qed

definition example_params :: "AlertNotificationParams list" where
  "example_params = [\<lparr>AlertParam_Transition = ''opened'', AlertParam_ChannelID = 1, AlertParam_ChannelType = NotifyTypeTelegram,
     AlertParam_Payload = \<lparr>Payload_Title = ''t'', Payload_Body = ''b'', Payload_Metadata = []\<rparr>\<rparr>]"

theorem enqueue_idempotent_witness:
  "\<exists>db' db''. insertAlertNotifications example_db 6 example_params 200 = Inr db' \<and>
     insertAlertNotifications db' 6 example_params 300 = Inr db'' \<and> outbox db'' = outbox db'"
proof -
  have ok: "list_all param_ok (map (alert_param 6) example_params)" "map Param_ChannelID (map (alert_param 6) example_params) = [1]"
    "example_params \<noteq> []"
    by (simp_all add: example_params_def param_ok_def alert_param_def alertNotificationDedupeKey_def NotifyTypeTelegram_def Let_def)
  have ch: "\<exists>db'. insertAlertNotifications db 6 example_params t = Inr db' \<and> channels db' = channels db"
    if "1 \<in> Channel_ID ` set (channels db)" for db t
  proof -
    have "channels (fold insert_row rows d) = channels d" for rows d
      by (induction rows arbitrary: d) (simp_all add: insert_row_def Let_def)
    moreover have "list_all (\<lambda>p. Param_ChannelID p \<in> set (map Channel_ID (channels db))) (map (alert_param 6) example_params)"
      using that ok(2) by (simp add: example_params_def)
    ultimately show ?thesis using ok by (simp add: insertAlertNotifications_def insertNotifications_def)
  qed
  have "1 \<in> Channel_ID ` set (channels example_db)" by (simp add: example_db_def example_channel_def)
  with ch obtain db' where d: "insertAlertNotifications example_db 6 example_params 200 = Inr db'"
    "1 \<in> Channel_ID ` set (channels db')" by metis
  with ch obtain db'' where "insertAlertNotifications db' 6 example_params 300 = Inr db''" by blast
  with d(1) enqueue_idempotent [OF d(1)] show ?thesis by blast
qed

end
