(* ===== verification/Alert_Store.thy ===== *)
theory Alert_Store
  imports Alert_Compiler Notify_Outbox
begin

text \<open>
  The alert tables: \<open>internal/store/alert/alert_events.go\<close> (events), \<open>alert_rules.go\<close> (rules),
  \<open>alert_mounts.go\<close> (mount overrides) and \<open>alert_tasks.go\<close> (control tasks). As in the outbox theory, a
  table is the list of its rows and a transaction a function that returns \<open>Inl\<close> when it is rolled
  back. The partial unique indexes of the schema are part of the statements that rely on them: an open
  event is inserted \<open>ON CONFLICT (rule_id, rule_generation, object_type, object_id) WHERE status = 'open'
  DO NOTHING\<close>, a pending task on conflict of its dedupe key.
\<close>

subsection \<open>Tables\<close>

definition ObjectTypeServer :: string where "ObjectTypeServer = ''server''"
definition AlertStatusOpen :: string where "AlertStatusOpen = ''open''"
definition AlertStatusClosed :: string where "AlertStatusClosed = ''closed''"
definition TaskStatusPending :: string where "TaskStatusPending = ''pending''"
definition TaskStatusFailed :: string where "TaskStatusFailed = ''failed''"
definition CloseStatusClosed :: string where "CloseStatusClosed = ''closed''"
definition CloseStatusNotFound :: string where "CloseStatusNotFound = ''not_found''"
definition ControlTaskRuleChange :: string where "ControlTaskRuleChange = ''rule_change''"
definition ControlTaskFullReconcile :: string where "ControlTaskFullReconcile = ''full_reconcile''"

record AlertEvent =
  Event_ID :: int
  Event_RuleID :: int
  Event_RuleGeneration :: int
  Event_RuleSnapshot :: RuleSnapshot
  Event_ObjectType :: string
  Event_ObjectID :: int
  Event_Status :: string
  Event_FirstTriggerAt :: time
  Event_LastTriggerAt :: time
  Event_ClosedAt :: "time option"
  Event_CurrentValue :: "f64 option"
  Event_EffectiveThreshold :: "f64 option"
  Event_CloseReason :: "string option"
  Event_Title :: "string option"
  Event_Message :: "string option"

record RuleChangePayload =
  Change_RuleID :: int
  Change_OldGeneration :: int
  Change_NewGeneration :: int
  Change_CloseReason :: string

text \<open>The payload of a task: a rule change, the empty object, or a document that does not decode.\<close>

datatype task_payload = RuleChange RuleChangePayload | EmptyPayload | BadPayload

record AlertControlTask =
  Task_ID :: int
  Task_TaskType :: string
  Task_DedupeKey :: string
  Task_Payload :: task_payload
  Task_Status :: string
  Task_AttemptCount :: int
  Task_AvailableAt :: time
  Task_LastError :: "string option"

record AlertRuleMount =
  Mount_RuleID :: int
  Mount_ServerID :: int
  Mount_Enabled :: bool

record alert_db =
  events :: "AlertEvent list"
  event_seq :: int
  rules :: "AlertRule list"
  rule_seq :: int
  mounts :: "AlertRuleMount list"
  tasks :: "AlertControlTask list"
  task_seq :: int
  deleted_servers :: "int list"
  outbox_db :: notify_db

datatype alert_error = RuleVersionStale | StoreFault store_error | InvalidRuleError spec_error | NoRow

subsection \<open>Events\<close>

record AlertOpenEventParams =
  OpenP_RuleID :: int
  OpenP_RuleGeneration :: int
  OpenP_Builtin :: bool
  OpenP_RuleSnapshot :: RuleSnapshot
  OpenP_ObjectType :: string
  OpenP_ObjectID :: int
  OpenP_TriggeredAt :: time
  OpenP_CurrentValue :: f64
  OpenP_EffectiveThreshold :: f64
  OpenP_Title :: string
  OpenP_Message :: string
  OpenP_Notifications :: "AlertNotificationParams list"

record AlertOpenEventResult =
  OpenR_EventID :: int
  OpenR_Created :: bool

record AlertCloseEventParams =
  CloseP_EventID :: int
  CloseP_RuleID :: int
  CloseP_RuleGeneration :: int
  CloseP_ObjectType :: string
  CloseP_ObjectID :: int
  CloseP_ClosedAt :: time
  CloseP_CurrentValue :: "f64 option"
  CloseP_CloseReason :: string
  CloseP_Notifications :: "AlertNotificationParams list"

record AlertCloseEventResult =
  CloseR_EventID :: int
  CloseR_Status :: string

definition is_open :: "AlertEvent \<Rightarrow> bool" where
  "is_open e \<longleftrightarrow> Event_Status e = AlertStatusOpen"

definition event_key :: "AlertEvent \<Rightarrow> int \<times> int \<times> string \<times> int" where
  "event_key e = (Event_RuleID e, Event_RuleGeneration e, Event_ObjectType e, Event_ObjectID e)"

definition ListOpenEvents :: "alert_db \<Rightarrow> AlertEvent list" where
  "ListOpenEvents db = sort_key Event_ID (filter is_open (events db))"

definition ListOpenEventsForDeletedServers :: "alert_db \<Rightarrow> AlertEvent list" where
  "ListOpenEventsForDeletedServers db =
     sort_key Event_ID (filter (\<lambda>e. Event_ObjectID e \<in> set (deleted_servers db) \<and>
       Event_ObjectType e = ObjectTypeServer \<and> is_open e) (events db))"

definition ListOpenEventsByRule :: "alert_db \<Rightarrow> int \<Rightarrow> int \<Rightarrow> AlertEvent list" where
  "ListOpenEventsByRule db ruleID generation =
     sort_key Event_ID (filter (\<lambda>e. Event_RuleID e = ruleID \<and> Event_RuleGeneration e = generation \<and> is_open e) (events db))"

definition ListOpenObjectIDs :: "alert_db \<Rightarrow> string \<Rightarrow> int list" where
  "ListOpenObjectIDs db objectType =
     sort (remdups (map Event_ObjectID (filter (\<lambda>e. Event_ObjectType e = objectType \<and> is_open e) (events db))))"

text \<open>The rows an update affects; the flag is \<open>RowsAffected > 0\<close>.\<close>

definition TouchOpenEvent :: "alert_db \<Rightarrow> int \<Rightarrow> time \<Rightarrow> f64 \<Rightarrow> f64 \<Rightarrow> bool \<times> alert_db" where
  "TouchOpenEvent db eventID triggeredAt currentValue effectiveThreshold =
     (if eventID \<le> 0 then (False, db)
      else (list_ex (\<lambda>e. Event_ID e = eventID \<and> is_open e) (events db),
            db\<lparr>events := update_where (\<lambda>e. Event_ID e = eventID \<and> is_open e)
              (\<lambda>e. e\<lparr>Event_LastTriggerAt := triggeredAt, Event_CurrentValue := Some currentValue,
                 Event_EffectiveThreshold := Some effectiveThreshold, Event_CloseReason := None\<rparr>) (events db)\<rparr>))"

definition rule_current :: "alert_db \<Rightarrow> int \<Rightarrow> int \<Rightarrow> bool" where
  "rule_current db ruleID generation \<longleftrightarrow>
     list_ex (\<lambda>r. AlertRule_ID r = ruleID \<and> AlertRule_Generation r = generation \<and> AlertRule_Enabled r \<and>
       \<not> AlertRule_IsDeleted r) (rules db)"

definition open_params_key :: "AlertOpenEventParams \<Rightarrow> int \<times> int \<times> string \<times> int" where
  "open_params_key p = (OpenP_RuleID p, OpenP_RuleGeneration p, OpenP_ObjectType p, OpenP_ObjectID p)"

definition open_event :: "AlertOpenEventParams \<Rightarrow> int \<Rightarrow> AlertEvent" where
  "open_event p i =
     \<lparr>Event_ID = i, Event_RuleID = OpenP_RuleID p, Event_RuleGeneration = OpenP_RuleGeneration p,
      Event_RuleSnapshot = OpenP_RuleSnapshot p, Event_ObjectType = OpenP_ObjectType p,
      Event_ObjectID = OpenP_ObjectID p, Event_Status = AlertStatusOpen, Event_FirstTriggerAt = OpenP_TriggeredAt p,
      Event_LastTriggerAt = OpenP_TriggeredAt p, Event_ClosedAt = None, Event_CurrentValue = Some (OpenP_CurrentValue p),
      Event_EffectiveThreshold = Some (OpenP_EffectiveThreshold p), Event_CloseReason = None,
      Event_Title = emptyToNil (OpenP_Title p), Event_Message = emptyToNil (OpenP_Message p)\<rparr>"

text \<open>The id of the new event, 0 when the statement inserted nothing.\<close>

definition insertOpenEvent :: "alert_db \<Rightarrow> AlertOpenEventParams \<Rightarrow> int \<times> alert_db" where
  "insertOpenEvent db p =
     (if \<not> OpenP_Builtin p \<and> \<not> rule_current db (OpenP_RuleID p) (OpenP_RuleGeneration p) then (0, db)
      else if list_ex (\<lambda>e. event_key e = open_params_key p \<and> is_open e) (events db)
      then (0, db\<lparr>event_seq := event_seq db + 1\<rparr>)
      else (event_seq db, db\<lparr>events := events db @ [open_event p (event_seq db)], event_seq := event_seq db + 1\<rparr>))"

definition WriteOpenTransition :: "alert_db \<Rightarrow> AlertOpenEventParams \<Rightarrow> time \<Rightarrow> alert_error + AlertOpenEventResult \<times> alert_db" where
  "WriteOpenTransition db p clock =
     (case insertOpenEvent db p of (insertedID, db') \<Rightarrow>
        if insertedID = 0 then
          (case find (\<lambda>e. event_key e = open_params_key p \<and> is_open e \<and>
                 (OpenP_Builtin p \<or> rule_current db' (OpenP_RuleID p) (OpenP_RuleGeneration p))) (events db') of
             None \<Rightarrow> Inl RuleVersionStale
           | Some e \<Rightarrow> Inr (\<lparr>OpenR_EventID = Event_ID e, OpenR_Created = False\<rparr>, db'))
        else case insertAlertNotifications (outbox_db db') insertedID (OpenP_Notifications p) clock of
               Inl e \<Rightarrow> Inl (StoreFault e)
             | Inr ns \<Rightarrow> Inr (\<lparr>OpenR_EventID = insertedID, OpenR_Created = True\<rparr>, db'\<lparr>outbox_db := ns\<rparr>))"

definition close_match :: "AlertCloseEventParams \<Rightarrow> AlertEvent \<Rightarrow> bool" where
  "close_match p e \<longleftrightarrow> is_open e \<and>
     (if CloseP_EventID p > 0 then Event_ID e = CloseP_EventID p
      else event_key e = (CloseP_RuleID p, CloseP_RuleGeneration p, CloseP_ObjectType p, CloseP_ObjectID p))"

definition close_event :: "AlertCloseEventParams \<Rightarrow> AlertEvent \<Rightarrow> AlertEvent" where
  "close_event p e =
     e\<lparr>Event_Status := AlertStatusClosed, Event_ClosedAt := Some (CloseP_ClosedAt p),
       Event_LastTriggerAt := CloseP_ClosedAt p, Event_CloseReason := emptyToNil (CloseP_CloseReason p),
       Event_CurrentValue := (case CloseP_CurrentValue p of Some v \<Rightarrow> Some v | None \<Rightarrow> Event_CurrentValue e)\<rparr>"

definition WriteCloseTransition :: "alert_db \<Rightarrow> AlertCloseEventParams \<Rightarrow> time \<Rightarrow> alert_error + AlertCloseEventResult \<times> alert_db" where
  "WriteCloseTransition db p clock =
     (case find (close_match p) (events db) of
        None \<Rightarrow> Inr (\<lparr>CloseR_EventID = 0, CloseR_Status = CloseStatusNotFound\<rparr>, db)
      | Some event \<Rightarrow>
         (let db' = db\<lparr>events := update_where (\<lambda>e. Event_ID e = Event_ID event) (close_event p) (events db)\<rparr>
          in case insertAlertNotifications (outbox_db db') (Event_ID event) (CloseP_Notifications p) clock of
               Inl e \<Rightarrow> Inl (StoreFault e)
             | Inr ns \<Rightarrow> Inr (\<lparr>CloseR_EventID = Event_ID event, CloseR_Status = CloseStatusClosed\<rparr>, db'\<lparr>outbox_db := ns\<rparr>)))"

subsection \<open>Control tasks\<close>

definition enqueueControlTask :: "alert_db \<Rightarrow> string \<Rightarrow> string \<Rightarrow> task_payload \<Rightarrow> time \<Rightarrow> alert_db" where
  "enqueueControlTask db taskType dedupeKey payload clock =
     (let db' = db\<lparr>task_seq := task_seq db + 1\<rparr>
      in if list_ex (\<lambda>t. Task_DedupeKey t = dedupeKey \<and> Task_Status t = TaskStatusPending) (tasks db) then db'
         else db'\<lparr>tasks := tasks db @ [\<lparr>Task_ID = task_seq db, Task_TaskType = taskType, Task_DedupeKey = dedupeKey,
                Task_Payload = payload, Task_Status = TaskStatusPending, Task_AttemptCount = 0,
                Task_AvailableAt = clock, Task_LastError = None\<rparr>]\<rparr>)"

definition EnqueueFullReconcileTask :: "alert_db \<Rightarrow> string \<Rightarrow> time \<Rightarrow> alert_db" where
  "EnqueueFullReconcileTask db dedupeKey clock =
     enqueueControlTask db ControlTaskFullReconcile dedupeKey EmptyPayload clock"

text \<open>The stored count of attempts is unbounded here; its column holds 32 bits, which a task would need two billion attempts to leave.\<close>

definition TakeNextControlTask :: "alert_db \<Rightarrow> time \<Rightarrow> AlertControlTask option \<times> alert_db" where
  "TakeNextControlTask db now =
     (case sort_key (\<lambda>t. (Task_AvailableAt t, Task_ID t))
             (filter (\<lambda>t. Task_Status t = TaskStatusPending \<and> Task_AvailableAt t \<le> now) (tasks db)) of
        [] \<Rightarrow> (None, db)
      | item # _ \<Rightarrow>
         (Some (item\<lparr>Task_AttemptCount := wrap32 (Task_AttemptCount item + 1)\<rparr>),
          db\<lparr>tasks := update_where (\<lambda>t. Task_ID t = Task_ID item)
               (\<lambda>t. t\<lparr>Task_AttemptCount := Task_AttemptCount t + 1, Task_LastError := None\<rparr>) (tasks db)\<rparr>))"

definition CompleteControlTask :: "alert_db \<Rightarrow> int \<Rightarrow> alert_db" where
  "CompleteControlTask db i = db\<lparr>tasks := filter (\<lambda>t. Task_ID t \<noteq> i) (tasks db)\<rparr>"

definition RetryControlTask :: "alert_db \<Rightarrow> int \<Rightarrow> time \<Rightarrow> string \<Rightarrow> alert_db" where
  "RetryControlTask db i availableAt lastError =
     db\<lparr>tasks := update_where (\<lambda>t. Task_ID t = i)
       (\<lambda>t. t\<lparr>Task_Status := TaskStatusPending, Task_AvailableAt := availableAt, Task_LastError := emptyToNil lastError\<rparr>)
       (tasks db)\<rparr>"

definition FailControlTask :: "alert_db \<Rightarrow> int \<Rightarrow> string \<Rightarrow> alert_db" where
  "FailControlTask db i lastError =
     db\<lparr>tasks := update_where (\<lambda>t. Task_ID t = i)
       (\<lambda>t. t\<lparr>Task_Status := TaskStatusFailed, Task_LastError := emptyToNil lastError\<rparr>) (tasks db)\<rparr>"

subsection \<open>Rules\<close>

record AlertRulePatch =
  Patch_Name :: "string option"
  Patch_Enabled :: "bool option"
  Patch_Metric :: "string option"
  Patch_Operator :: "string option"
  Patch_Threshold :: "f64 option"
  Patch_DurationSec :: "int option"
  Patch_CooldownMin :: "int option"
  Patch_ThresholdMode :: "string option"
  Patch_ThresholdOffset :: "f64 option"

definition HasUpdates :: "AlertRulePatch \<Rightarrow> bool" where
  "HasUpdates p \<longleftrightarrow> Patch_Name p \<noteq> None \<or> Patch_Enabled p \<noteq> None \<or> Patch_Metric p \<noteq> None \<or>
     Patch_Operator p \<noteq> None \<or> Patch_Threshold p \<noteq> None \<or> Patch_DurationSec p \<noteq> None \<or>
     Patch_CooldownMin p \<noteq> None \<or> Patch_ThresholdMode p \<noteq> None \<or> Patch_ThresholdOffset p \<noteq> None"

definition or_old :: "'a option \<Rightarrow> 'a \<Rightarrow> 'a" where
  "or_old new old = (case new of Some v \<Rightarrow> v | None \<Rightarrow> old)"

text \<open>The same assignment serves \<open>applyPatch\<close> and the \<open>SET\<close> list of the update.\<close>

definition applyPatch :: "AlertRule \<Rightarrow> AlertRulePatch \<Rightarrow> AlertRule" where
  "applyPatch rule p =
     rule\<lparr>AlertRule_Name := or_old (Patch_Name p) (AlertRule_Name rule),
       AlertRule_Enabled := or_old (Patch_Enabled p) (AlertRule_Enabled rule),
       AlertRule_Metric := or_old (Patch_Metric p) (AlertRule_Metric rule),
       AlertRule_Operator := or_old (Patch_Operator p) (AlertRule_Operator rule),
       AlertRule_Threshold := or_old (Patch_Threshold p) (AlertRule_Threshold rule),
       AlertRule_DurationSec := or_old (Patch_DurationSec p) (AlertRule_DurationSec rule),
       AlertRule_CooldownMin := or_old (Patch_CooldownMin p) (AlertRule_CooldownMin rule),
       AlertRule_ThresholdMode := or_old (Patch_ThresholdMode p) (AlertRule_ThresholdMode rule),
       AlertRule_ThresholdOffset := or_old (Patch_ThresholdOffset p) (AlertRule_ThresholdOffset rule)\<rparr>"

text \<open>The map of updates, one optional entry per column.\<close>

definition updatesFromPatch :: "AlertRule \<Rightarrow> AlertRulePatch \<Rightarrow> AlertRulePatch" where
  "updatesFromPatch normalized p =
     \<lparr>Patch_Name = map_option (\<lambda>_. AlertRule_Name normalized) (Patch_Name p),
      Patch_Enabled = map_option (\<lambda>_. AlertRule_Enabled normalized) (Patch_Enabled p),
      Patch_Metric = map_option (\<lambda>_. AlertRule_Metric normalized) (Patch_Metric p),
      Patch_Operator = map_option (\<lambda>_. AlertRule_Operator normalized) (Patch_Operator p),
      Patch_Threshold = map_option (\<lambda>_. AlertRule_Threshold normalized) (Patch_Threshold p),
      Patch_DurationSec = map_option (\<lambda>_. AlertRule_DurationSec normalized) (Patch_DurationSec p),
      Patch_CooldownMin = map_option (\<lambda>_. AlertRule_CooldownMin normalized) (Patch_CooldownMin p),
      Patch_ThresholdMode = map_option (\<lambda>_. AlertRule_ThresholdMode normalized) (Patch_ThresholdMode p),
      Patch_ThresholdOffset = map_option (\<lambda>_. AlertRule_ThresholdOffset normalized) (Patch_ThresholdOffset p)\<rparr>"

definition f64_abs :: "f64 \<Rightarrow> f64" where
  "f64_abs x = (case x of Fin q \<Rightarrow> Fin \<bar>q\<bar> | PInf \<Rightarrow> PInf | NInf \<Rightarrow> PInf | NaN \<Rightarrow> NaN)"

definition f64_sub :: "f64 \<Rightarrow> f64 \<Rightarrow> f64" where
  "f64_sub x y = f64_add x (case y of Fin q \<Rightarrow> Fin (- q) | PInf \<Rightarrow> NInf | NInf \<Rightarrow> PInf | NaN \<Rightarrow> NaN)"

definition sameFloat :: "f64 \<Rightarrow> f64 \<Rightarrow> bool" where
  "sameFloat a b \<longleftrightarrow> f64_lt (f64_abs (f64_sub a b)) (round64 (1 / 1000000000))"

definition changes :: "('a \<Rightarrow> 'a \<Rightarrow> bool) \<Rightarrow> 'a option \<Rightarrow> 'a \<Rightarrow> bool" where
  "changes same new old = (case new of Some v \<Rightarrow> \<not> same v old | None \<Rightarrow> False)"

definition needsGeneration :: "AlertRule \<Rightarrow> AlertRulePatch \<Rightarrow> bool" where
  "needsGeneration current updates \<longleftrightarrow>
     changes (=) (Patch_Enabled updates) (AlertRule_Enabled current) \<or>
     changes (=) (Patch_Metric updates) (AlertRule_Metric current) \<or>
     changes (=) (Patch_Operator updates) (AlertRule_Operator current) \<or>
     changes sameFloat (Patch_Threshold updates) (AlertRule_Threshold current) \<or>
     changes (=) (Patch_DurationSec updates) (AlertRule_DurationSec current) \<or>
     changes (=) (Patch_CooldownMin updates) (AlertRule_CooldownMin current) \<or>
     changes (=) (Patch_ThresholdMode updates) (AlertRule_ThresholdMode current) \<or>
     changes sameFloat (Patch_ThresholdOffset updates) (AlertRule_ThresholdOffset current)"

definition reasonFor :: "AlertRule \<Rightarrow> AlertRulePatch \<Rightarrow> string" where
  "reasonFor current updates =
     (if Patch_Enabled updates = Some False \<and> AlertRule_Enabled current then ''rule_disabled'' else ''rule_updated'')"

definition changeKey :: "int \<Rightarrow> int \<Rightarrow> string" where
  "changeKey ruleID generation = ''rule_change:rule:'' @ dec_int ruleID @ '':gen:'' @ dec_int generation"

definition lockRule :: "alert_db \<Rightarrow> int \<Rightarrow> AlertRule option" where
  "lockRule db i = find (\<lambda>r. AlertRule_ID r = i \<and> \<not> AlertRule_IsDeleted r) (sort_key AlertRule_ID (rules db))"

definition update_rule :: "alert_db \<Rightarrow> int \<Rightarrow> (AlertRule \<Rightarrow> AlertRule) \<Rightarrow> alert_db" where
  "update_rule db i f =
     db\<lparr>rules := update_where (\<lambda>r. AlertRule_ID r = i \<and> \<not> AlertRule_IsDeleted r) f (rules db)\<rparr>"

definition enqueue_change :: "alert_db \<Rightarrow> AlertRule \<Rightarrow> int \<Rightarrow> string \<Rightarrow> time \<Rightarrow> alert_db" where
  "enqueue_change db current nextGeneration reason clock =
     enqueueControlTask db ControlTaskRuleChange (changeKey (AlertRule_ID current) nextGeneration)
       (RuleChange \<lparr>Change_RuleID = AlertRule_ID current, Change_OldGeneration = AlertRule_Generation current,
          Change_NewGeneration = nextGeneration, Change_CloseReason = reason\<rparr>) clock"

definition PatchRule :: "alert_db \<Rightarrow> int \<Rightarrow> AlertRulePatch \<Rightarrow> time \<Rightarrow> alert_error + alert_db" where
  "PatchRule db i patch clock =
     (if \<not> HasUpdates patch then Inr db
      else case lockRule db i of
             None \<Rightarrow> Inl NoRow
           | Some current \<Rightarrow>
              (case NormalizeRuleModel (applyPatch current patch) of
                 Inl e \<Rightarrow> Inl (InvalidRuleError e)
               | Inr normalized \<Rightarrow>
                  (let updates = updatesFromPatch normalized patch;
                       bump = needsGeneration current updates;
                       nextGeneration = (if bump then wrap64 (AlertRule_Generation current + 1) else AlertRule_Generation current);
                       db = update_rule db i (\<lambda>r. (applyPatch r updates)\<lparr>AlertRule_UpdatedAt := clock,
                              AlertRule_Generation := (if bump then nextGeneration else AlertRule_Generation r)\<rparr>)
                   in if nextGeneration = AlertRule_Generation current then Inr db
                      else Inr (enqueue_change db current nextGeneration (reasonFor current updates) clock))))"

definition DeleteRule :: "alert_db \<Rightarrow> int \<Rightarrow> time \<Rightarrow> alert_error + alert_db" where
  "DeleteRule db i clock =
     (case lockRule db i of
        None \<Rightarrow> Inl NoRow
      | Some current \<Rightarrow>
         (let nextGeneration = wrap64 (AlertRule_Generation current + 1);
              db = update_rule db i (\<lambda>r. r\<lparr>AlertRule_IsDeleted := True, AlertRule_Generation := nextGeneration,
                     AlertRule_UpdatedAt := clock\<rparr>);
              db = db\<lparr>mounts := filter (\<lambda>m. Mount_RuleID m \<noteq> i) (mounts db)\<rparr>
          in Inr (enqueue_change db current nextGeneration ''rule_deleted'' clock)))"

text \<open>\<open>Create\<close> assigns the next id and the times that are not set; an id in use is a key violation.\<close>

definition CreateRule :: "alert_db \<Rightarrow> AlertRule \<Rightarrow> time \<Rightarrow> alert_error + AlertRule \<times> alert_db" where
  "CreateRule db rule clock =
     (case PrepareCreateRule rule of
        Inl e \<Rightarrow> Inl (InvalidRuleError e)
      | Inr normalized \<Rightarrow>
         if AlertRule_ID normalized \<noteq> 0 \<and> AlertRule_ID normalized \<in> set (map AlertRule_ID (rules db))
         then Inl (StoreFault (Rejected ''duplicate key''))
         else
         (let row = normalized\<lparr>
                AlertRule_ID := (if AlertRule_ID normalized = 0 then rule_seq db else AlertRule_ID normalized),
                AlertRule_CreatedAt := (if AlertRule_CreatedAt normalized = zero_time then clock else AlertRule_CreatedAt normalized),
                AlertRule_UpdatedAt := (if AlertRule_UpdatedAt normalized = zero_time then clock else AlertRule_UpdatedAt normalized)\<rparr>;
              db = db\<lparr>rules := rules db @ [row],
                rule_seq := (if AlertRule_ID normalized = 0 then rule_seq db + 1 else rule_seq db)\<rparr>
          in Inr (row, enqueueControlTask db ControlTaskRuleChange (changeKey (AlertRule_ID row) (AlertRule_Generation row))
                 (RuleChange \<lparr>Change_RuleID = AlertRule_ID row, Change_OldGeneration = 0,
                    Change_NewGeneration = AlertRule_Generation row, Change_CloseReason = []\<rparr>) clock)))"

definition RulesForCompile :: "alert_db \<Rightarrow> AlertRule list" where
  "RulesForCompile db = sort_key AlertRule_ID (filter (\<lambda>r. \<not> AlertRule_IsDeleted r) (rules db))"

subsection \<open>Mounts\<close>

definition RuleMountsForServer :: "alert_db \<Rightarrow> int \<Rightarrow> (int, bool) gomap" where
  "RuleMountsForServer db i =
     fold (\<lambda>m out. AList.update (Mount_RuleID m) (Mount_Enabled m) out) (filter (\<lambda>m. Mount_ServerID m = i) (mounts db)) []"

definition upsert_mount :: "AlertRuleMount \<Rightarrow> AlertRuleMount list \<Rightarrow> AlertRuleMount list" where
  "upsert_mount m ms =
     (if list_ex (\<lambda>x. Mount_RuleID x = Mount_RuleID m \<and> Mount_ServerID x = Mount_ServerID m) ms
      then update_where (\<lambda>x. Mount_RuleID x = Mount_RuleID m \<and> Mount_ServerID x = Mount_ServerID m)
             (\<lambda>x. x\<lparr>Mount_Enabled := Mount_Enabled m\<rparr>) ms
      else ms @ [m])"

definition setRuleMounts :: "alert_db \<Rightarrow> int list \<Rightarrow> int list \<Rightarrow> bool \<Rightarrow> alert_db" where
  "setRuleMounts db ruleIDs serverIDs enabled =
     db\<lparr>mounts := fold upsert_mount
       (concat (map (\<lambda>r. map (\<lambda>s. \<lparr>Mount_RuleID = r, Mount_ServerID = s, Mount_Enabled = enabled\<rparr>) serverIDs) ruleIDs))
       (mounts db)\<rparr>"

subsection \<open>Event histories\<close>

text \<open>One committed write to the event table.\<close>

inductive event_step :: "alert_db \<Rightarrow> alert_db \<Rightarrow> bool" where
  Open: "WriteOpenTransition db p clock = Inr (res, db') \<Longrightarrow> event_step db db'"
| Close: "WriteCloseTransition db c clock = Inr (cres, db') \<Longrightarrow> event_step db db'"
| Touch: "TouchOpenEvent db i t x y = (found, db') \<Longrightarrow> event_step db db'"

inductive_cases event_stepE: "event_step db db'"

definition events_ok :: "alert_db \<Rightarrow> bool" where
  "events_ok db \<longleftrightarrow> 0 < event_seq db \<and> distinct (map Event_ID (events db)) \<and>
     (\<forall>e \<in> set (events db). 0 < Event_ID e \<and> Event_ID e < event_seq db) \<and>
     distinct (map event_key (filter is_open (events db)))"

lemma open_event_simps [simp]:
  "Event_ID (open_event p i) = i" "event_key (open_event p i) = open_params_key p" "is_open (open_event p i)"
  by (simp_all add: open_event_def event_key_def open_params_key_def is_open_def)

lemma close_event_simps [simp]:
  "Event_ID (close_event p e) = Event_ID e" "event_key (close_event p e) = event_key e" "\<not> is_open (close_event p e)"
  by (simp_all add: close_event_def event_key_def is_open_def AlertStatusOpen_def AlertStatusClosed_def)

lemma close_match_closed [simp]: "\<not> close_match c (close_event p e)"
  by (simp add: close_match_def)

lemma map_update_where: "(\<And>r. p r \<Longrightarrow> g (f r) = g r) \<Longrightarrow> map g (update_where p f rs) = map g rs"
  by (simp add: update_where_def)

lemma in_update_where: "x \<in> set (update_where p f rs) \<longleftrightarrow> (\<exists>r \<in> set rs. x = (if p r then f r else r))"
  by (auto simp: update_where_def)

lemma distinct_keys_update:
  assumes "\<And>r. p r \<Longrightarrow> q (f r) \<Longrightarrow> q r \<and> g (f r) = g r" "distinct (map g (filter q rs))"
  shows "distinct (map g (filter q (update_where p f rs)))"
  using assms(2)
proof (induction rs)
  case (Cons r rs)
  have sub: "g ` set (filter q (update_where p f rs)) \<subseteq> g ` set (filter q rs)"
    using assms(1) by (fastforce simp: in_update_where split: if_splits)
  from Cons.prems have "distinct (map g (filter q rs))" by (auto split: if_splits)
  then have IH: "distinct (map g (filter q (update_where p f rs)))" by (rule Cons.IH)
  show ?case
  proof (cases "q (if p r then f r else r)")
    case True
    with assms(1) have "q r" "g (if p r then f r else r) = g r" by (auto split: if_splits)
    with Cons.prems sub True IH show ?thesis by (auto simp: update_where_def)
  next
    case False
    with IH show ?thesis by (simp add: update_where_def)
  qed
qed (simp add: update_where_def)

lemma events_ok_update:
  assumes "events_ok db" "\<And>e. p e \<Longrightarrow> Event_ID (f e) = Event_ID e"
    "\<And>e. p e \<Longrightarrow> is_open (f e) \<Longrightarrow> is_open e \<and> event_key (f e) = event_key e"
  shows "events_ok (db\<lparr>events := update_where p f (events db)\<rparr>)"
  using assms(1) distinct_keys_update [of p is_open f event_key "events db"] assms(3)
  by (auto simp: events_ok_def map_update_where [of p Event_ID f] assms(2) in_update_where)

lemma events_ok_outbox [simp]: "events_ok (db\<lparr>outbox_db := ns\<rparr>) = events_ok db"
  by (simp add: events_ok_def)

lemma event_id_unique: "events_ok db \<Longrightarrow> e \<in> set (events db) \<Longrightarrow> e' \<in> set (events db) \<Longrightarrow> Event_ID e = Event_ID e' \<Longrightarrow> e = e'"
  by (auto simp: events_ok_def distinct_map inj_on_def)

lemma open_key_unique:
  assumes "events_ok db" "e \<in> set (events db)" "e' \<in> set (events db)" "is_open e" "is_open e'" "event_key e = event_key e'"
  shows "e = e'"
  using assms by (auto simp: events_ok_def distinct_map inj_on_def)

lemma insertOpenEvent_cases:
  assumes "insertOpenEvent db p = (i, db')" "events_ok db"
  obtains (stale) "i = 0" "db' = db" "\<not> OpenP_Builtin p" "\<not> rule_current db (OpenP_RuleID p) (OpenP_RuleGeneration p)"
  | (conflict) e where "i = 0" "db' = db\<lparr>event_seq := event_seq db + 1\<rparr>" "e \<in> set (events db)" "is_open e"
      "event_key e = open_params_key p" "OpenP_Builtin p \<or> rule_current db (OpenP_RuleID p) (OpenP_RuleGeneration p)"
  | (insert) "0 < i" "i = event_seq db" "db' = db\<lparr>events := events db @ [open_event p i], event_seq := i + 1\<rparr>"
      "\<And>e. e \<in> set (events db) \<Longrightarrow> is_open e \<Longrightarrow> event_key e \<noteq> open_params_key p"
      "OpenP_Builtin p \<or> rule_current db (OpenP_RuleID p) (OpenP_RuleGeneration p)"
  using assms by (auto simp: insertOpenEvent_def list_ex_iff events_ok_def split: if_splits)

lemma events_ok_seq: "events_ok db \<Longrightarrow> events_ok (db\<lparr>event_seq := event_seq db + 1\<rparr>)"
  by (force simp: events_ok_def)

lemma events_ok_insert:
  assumes "events_ok db" "\<And>e. e \<in> set (events db) \<Longrightarrow> is_open e \<Longrightarrow> event_key e \<noteq> open_params_key p"
  shows "events_ok (db\<lparr>events := events db @ [open_event p (event_seq db)], event_seq := event_seq db + 1\<rparr>)"
proof -
  have seq: "Event_ID e < event_seq db" if "e \<in> set (events db)" for e using assms(1) that by (simp add: events_ok_def)
  then have "event_seq db \<notin> Event_ID ` set (events db)" by force
  moreover have "open_params_key p \<notin> event_key ` set (filter is_open (events db))" by (auto dest: assms(2))
  moreover have "Event_ID e < event_seq db + 1" if "e \<in> set (events db)" for e using seq [OF that] by simp
  ultimately show ?thesis using assms(1) by (auto simp: events_ok_def)
qed

lemma insertOpenEvent_ok:
  assumes "insertOpenEvent db p = (i, db')" "events_ok db"
  shows "events_ok db'" "set (events db) \<subseteq> set (events db')"
  using assms
proof (atomize (full), cases rule: insertOpenEvent_cases)
  case insert
  from events_ok_insert [OF assms(2) insert(4)] insert(2,3) show "events_ok db' \<and> set (events db) \<subseteq> set (events db')"
    by auto
qed (use assms(2) events_ok_seq in \<open>auto\<close>)

lemma open_transition_cases:
  assumes "WriteOpenTransition db p clock = Inr (res, db')" "events_ok db"
  obtains (existing) e where "e \<in> set (events db)" "is_open e" "event_key e = open_params_key p"
      "res = \<lparr>OpenR_EventID = Event_ID e, OpenR_Created = False\<rparr>" "db' = db\<lparr>event_seq := event_seq db + 1\<rparr>"
      "OpenP_Builtin p \<or> rule_current db (OpenP_RuleID p) (OpenP_RuleGeneration p)"
  | (created) ns where "res = \<lparr>OpenR_EventID = event_seq db, OpenR_Created = True\<rparr>" "0 < event_seq db"
      "db' = db\<lparr>events := events db @ [open_event p (event_seq db)], event_seq := event_seq db + 1, outbox_db := ns\<rparr>"
      "insertAlertNotifications (outbox_db db) (event_seq db) (OpenP_Notifications p) clock = Inr ns"
      "\<And>e. e \<in> set (events db) \<Longrightarrow> is_open e \<Longrightarrow> event_key e \<noteq> open_params_key p"
      "OpenP_Builtin p \<or> rule_current db (OpenP_RuleID p) (OpenP_RuleGeneration p)"
proof -
  obtain i d where d: "insertOpenEvent db p = (i, d)" by (cases "insertOpenEvent db p")
  from d assms(2) show thesis
  proof (cases rule: insertOpenEvent_cases)
    case stale
    with assms(1) d show thesis
      by (auto simp: WriteOpenTransition_def find_None_iff split: option.splits elim!: find_Some_iff [THEN iffD1, elim_format])
  next
    case (conflict e)
    let ?P = "\<lambda>e. event_key e = open_params_key p \<and> is_open e \<and>
      (OpenP_Builtin p \<or> rule_current d (OpenP_RuleID p) (OpenP_RuleGeneration p))"
    have cur: "rule_current d = rule_current db" using conflict(2) by (simp add: rule_current_def fun_eq_iff)
    obtain e' where e': "find ?P (events d) = Some e'" "res = \<lparr>OpenR_EventID = Event_ID e', OpenR_Created = False\<rparr>" "db' = d"
      using assms(1) d conflict(1) by (auto simp: WriteOpenTransition_def split: option.splits)
    then have "e' \<in> set (events db)" "is_open e'" "event_key e' = open_params_key p"
      using conflict(2) by (auto simp: find_Some_iff)
    with existing e' conflict cur show thesis by blast
  next
    case insert
    with assms(1) d created show thesis
      by (auto simp: WriteOpenTransition_def split: sum.splits)
  qed
qed

lemma open_transition_ok:
  assumes "WriteOpenTransition db p clock = Inr (res, db')" "events_ok db"
  shows "events_ok db' \<and> set (events db) \<subseteq> set (events db')"
  using assms
proof (cases rule: open_transition_cases)
  case (existing e)
  with events_ok_seq [OF assms(2)] show ?thesis by simp
next
  case (created ns)
  have "events_ok (db\<lparr>events := events db @ [open_event p (event_seq db)], event_seq := event_seq db + 1\<rparr>)"
    by (rule events_ok_insert [OF assms(2) created(5)])
  then show ?thesis unfolding created(3) by (auto simp: events_ok_def)
qed

lemma close_transition_cases:
  assumes "WriteCloseTransition db c clock = Inr (res, db')"
  obtains (missing) "\<And>e. e \<in> set (events db) \<Longrightarrow> \<not> close_match c e" "db' = db"
      "res = \<lparr>CloseR_EventID = 0, CloseR_Status = CloseStatusNotFound\<rparr>"
  | (closed) e ns where "e \<in> set (events db)" "close_match c e"
      "res = \<lparr>CloseR_EventID = Event_ID e, CloseR_Status = CloseStatusClosed\<rparr>"
      "db' = db\<lparr>events := update_where (\<lambda>x. Event_ID x = Event_ID e) (close_event c) (events db), outbox_db := ns\<rparr>"
proof (cases "find (close_match c) (events db)")
  case None
  then have "\<And>e. e \<in> set (events db) \<Longrightarrow> \<not> close_match c e" by (simp add: find_None_iff)
  moreover from None assms have "db' = db" "res = \<lparr>CloseR_EventID = 0, CloseR_Status = CloseStatusNotFound\<rparr>"
    by (simp_all add: WriteCloseTransition_def)
  ultimately show thesis by (rule missing)
next
  case (Some e)
  then have "e \<in> set (events db)" "close_match c e" by (auto simp: find_Some_iff)
  moreover from Some assms obtain ns where
    "res = \<lparr>CloseR_EventID = Event_ID e, CloseR_Status = CloseStatusClosed\<rparr>"
    "db' = db\<lparr>events := update_where (\<lambda>x. Event_ID x = Event_ID e) (close_event c) (events db), outbox_db := ns\<rparr>"
    by (auto simp: WriteCloseTransition_def Let_def split: sum.splits)
  ultimately show thesis by (rule closed)
qed

lemma close_transition_ok:
  assumes "WriteCloseTransition db c clock = Inr (res, db')" "events_ok db"
  shows "events_ok db'"
  using assms(1)
proof (cases rule: close_transition_cases)
  case (closed e ns)
  have "events_ok (db\<lparr>events := update_where (\<lambda>x. Event_ID x = Event_ID e) (close_event c) (events db)\<rparr>)"
    by (rule events_ok_update [OF assms(2)]) simp_all
  then show ?thesis unfolding closed(4) by (simp add: events_ok_def)
qed (use assms(2) in simp)

lemma step_events_ok:
  "event_step db db' \<Longrightarrow> events_ok db \<Longrightarrow>
   events_ok db' \<and> (\<forall>e \<in> set (events db). \<not> is_open e \<longrightarrow> e \<in> set (events db'))"
proof (induction rule: event_step.induct)
  case (Open db p clock res db')
  with open_transition_ok show ?case by blast
next
  case (Close db c clock cres db')
  note ok = close_transition_ok [OF Close]
  from Close(1) show ?case
  proof (cases rule: close_transition_cases)
    case (closed e ns)
    have "x \<in> set (events db')" if x: "x \<in> set (events db)" "\<not> is_open x" for x
    proof -
      have "Event_ID x \<noteq> Event_ID e"
        using event_id_unique [OF Close(2) x(1) closed(1)] x(2) closed(2) by (auto simp: close_match_def)
      with x(1) show ?thesis unfolding closed(4) by (simp add: in_update_where) metis
    qed
    with ok show ?thesis by blast
  qed (use ok in simp)
next
  case (Touch db i t x y found db')
  then have "events_ok db'"
    by (auto simp: TouchOpenEvent_def is_open_def event_key_def split: if_splits intro!: events_ok_update)
  with Touch show ?case
    by (auto simp: TouchOpenEvent_def in_update_where split: if_splits)
qed

subsection \<open>Properties\<close>

text \<open>
  C10. In every history of the event table there is at most one open event per rule generation and
  object, event ids are unique, and a closed event is history: it is never reopened, changed or
  removed.
\<close>

theorem event_history_ok:
  assumes "events_ok db" and "event_step\<^sup>*\<^sup>* db db'"
  shows "events_ok db' \<and> {e \<in> set (events db). \<not> is_open e} \<subseteq> set (events db')"
  using assms(2,1)
  by (induction rule: rtranclp_induct) (use step_events_ok in \<open>simp, blast\<close>)

text \<open>
  C20. Opening is exactly-once: a successful open transition returns a positive event id, which names
  the only open event of that rule generation and object; the event is created iff there was none; and
  a user rule that was changed, disabled or deleted in between never gets an event.
\<close>

theorem open_transition_contract:
  assumes "WriteOpenTransition db p clock = Inr (res, db')" and "events_ok db"
  shows "0 < OpenR_EventID res \<and>
     (\<forall>e \<in> set (events db'). is_open e \<and> event_key e = open_params_key p \<longleftrightarrow> Event_ID e = OpenR_EventID res) \<and>
     (\<exists>e \<in> set (events db'). Event_ID e = OpenR_EventID res) \<and>
     (OpenR_Created res \<longleftrightarrow> \<not> (\<exists>e \<in> set (events db). is_open e \<and> event_key e = open_params_key p)) \<and>
     (OpenP_Builtin p \<or> rule_current db (OpenP_RuleID p) (OpenP_RuleGeneration p))"
  using assms
proof (cases rule: open_transition_cases)
  case (existing e)
  have "0 < Event_ID e" using existing(1) assms(2) by (simp add: events_ok_def)
  moreover have "(is_open x \<and> event_key x = open_params_key p) = (Event_ID x = Event_ID e)"
    if "x \<in> set (events db)" for x
    using open_key_unique [OF assms(2) that existing(1)] event_id_unique [OF assms(2) that existing(1)] existing by auto
  ultimately show ?thesis using existing by auto
next
  case (created ns)
  have "Event_ID x < event_seq db" if "x \<in> set (events db)" for x using assms(2) that by (simp add: events_ok_def)
  then have "Event_ID x \<noteq> event_seq db" if "x \<in> set (events db)" for x using that by force
  with created show ?thesis by auto
qed

text \<open>
  Closing reports what happened: the status is \<open>closed\<close> iff a matching open event existed; then
  that event is closed at the given time with the given reason, no other event changes, and a second
  attempt to close it finds nothing and changes nothing.\<close>

theorem close_transition_contract:
  assumes "WriteCloseTransition db c clock = Inr (res, db')" and "events_ok db"
  shows "(CloseR_Status res = CloseStatusClosed \<longleftrightarrow> (\<exists>e \<in> set (events db). close_match c e)) \<and>
     (\<forall>e \<in> set (events db). if Event_ID e = CloseR_EventID res then close_match c e \<and> close_event c e \<in> set (events db')
        else e \<in> set (events db')) \<and>
     WriteCloseTransition db' c later = Inr (\<lparr>CloseR_EventID = 0, CloseR_Status = CloseStatusNotFound\<rparr>, db')"
  using assms(1)
proof (cases rule: close_transition_cases)
  case missing
  have "Event_ID e \<noteq> 0" if "e \<in> set (events db)" for e using assms(2) that by (auto simp: events_ok_def)
  moreover have "find (close_match c) (events db) = None" using missing(1) by (simp add: find_None_iff)
  ultimately show ?thesis
    using missing by (auto simp: WriteCloseTransition_def CloseStatusClosed_def CloseStatusNotFound_def)
next
  case (closed e ns)
  have same: "x = e" if "x \<in> set (events db)" "Event_ID x = Event_ID e" for x
    using event_id_unique [OF assms(2) that(1) closed(1) that(2)] .
  have "x = e" if x: "x \<in> set (events db)" "close_match c x" for x
  proof (cases "CloseP_EventID c > 0")
    case True
    with x closed(2) same show ?thesis by (simp add: close_match_def)
  next
    case False
    with x closed(1,2) open_key_unique [OF assms(2) x(1) closed(1)] show ?thesis by (simp add: close_match_def)
  qed
  then have only: "Event_ID r = Event_ID e" if "r \<in> set (events db)" "close_match c r" for r using that by blast
  have "\<not> close_match c x" if "x \<in> set (events db')" for x
  proof -
    from that obtain r where "r \<in> set (events db)" "x = (if Event_ID r = Event_ID e then close_event c r else r)"
      unfolding closed(4) by (auto simp: in_update_where)
    with only [of r] show ?thesis by (cases "Event_ID r = Event_ID e") auto
  qed
  then have "find (close_match c) (events db') = None" by (simp add: find_None_iff)
  then have "WriteCloseTransition db' c later = Inr (\<lparr>CloseR_EventID = 0, CloseR_Status = CloseStatusNotFound\<rparr>, db')"
    by (simp add: WriteCloseTransition_def)
  moreover have "\<forall>x \<in> set (events db). if Event_ID x = Event_ID e then close_match c x \<and> close_event c x \<in> set (events db')
        else x \<in> set (events db')"
    using same closed(1,2) unfolding closed(4) by (auto simp: in_update_where)
  moreover have st: "CloseR_Status res = CloseStatusClosed" "CloseR_EventID res = Event_ID e"
    by (simp_all add: closed(3))
  ultimately show ?thesis unfolding st using closed(1,2) by blast
qed

subsection \<open>Rule changes\<close>

lemma NormalizeRuleModel_fields:
  "NormalizeRuleModel r = Inr n \<Longrightarrow> n = r\<lparr>AlertRule_Name := trim_space (AlertRule_Name r),
     AlertRule_Metric := trim_space (AlertRule_Metric r), AlertRule_Operator := trim_space (AlertRule_Operator r),
     AlertRule_ThresholdMode := trim_space (AlertRule_ThresholdMode r)\<rparr>"
  by (auto simp: normalize_defs split: if_splits option.splits)

lemma rule_wf_trimmed:
  assumes "rule_wf r"
  shows "trim_space (AlertRule_Name r) = AlertRule_Name r" "trim_space (AlertRule_Metric r) = AlertRule_Metric r"
    "trim_space (AlertRule_Operator r) = AlertRule_Operator r"
    "trim_space (AlertRule_ThresholdMode r) = AlertRule_ThresholdMode r"
  using assms operatorRegistry_trimmed thresholdModeRegistry_trimmed by (auto simp: rule_wf_def)

lemma updates_are_normalized:
  assumes "rule_wf current" "NormalizeRuleModel (applyPatch current patch) = Inr n"
  shows "applyPatch current (updatesFromPatch n patch) = n"
  using NormalizeRuleModel_fields [OF assms(2)] rule_wf_trimmed [OF assms(1)]
  by (cases current; cases patch)
     (auto simp: applyPatch_def updatesFromPatch_def or_old_def split: option.splits)

lemma tolerance_pos: "f64_lt f0 (round64 (1 / 1000000000))"
proof -
  have "f64_le (round64 (2 powi - 30)) (round64 (1 / 1000000000))"
    by (rule round64_mono) (simp add: power_int_minus divide_simps)
  moreover have "round64 (2 powi - 30) = Fin (2 powi - 30)" by (rule round64_powi) simp_all
  moreover have "(0::rat) < 2 powi - 30" by simp
  ultimately show ?thesis by (cases "round64 (1 / 1000000000)") auto
qed

lemma sameFloat_refl: "finite64 x \<Longrightarrow> sameFloat x x"
proof -
  assume "finite64 x"
  then obtain q where "x = Fin q" by (cases x) (auto simp: finite64_def)
  then show "sameFloat x x" using tolerance_pos by (simp add: sameFloat_def f64_sub_def f64_abs_def)
qed

definition same_semantics :: "AlertRule \<Rightarrow> AlertRule \<Rightarrow> bool" where
  "same_semantics a b \<longleftrightarrow> AlertRule_Enabled a = AlertRule_Enabled b \<and> AlertRule_Metric a = AlertRule_Metric b \<and>
     AlertRule_Operator a = AlertRule_Operator b \<and> sameFloat (AlertRule_Threshold a) (AlertRule_Threshold b) \<and>
     AlertRule_DurationSec a = AlertRule_DurationSec b \<and> AlertRule_CooldownMin a = AlertRule_CooldownMin b \<and>
     AlertRule_ThresholdMode a = AlertRule_ThresholdMode b \<and>
     sameFloat (AlertRule_ThresholdOffset a) (AlertRule_ThresholdOffset b)"

lemma changes_iff: "(new = None \<longrightarrow> same v old) \<Longrightarrow> changes same (map_option (\<lambda>_. v) new) old = (\<not> same v old)"
  by (cases new) (simp_all add: changes_def)

lemma needsGeneration_iff:
  assumes "rule_wf current" "NormalizeRuleModel (applyPatch current patch) = Inr n"
  shows "needsGeneration current (updatesFromPatch n patch) \<longleftrightarrow> \<not> same_semantics n current"
proof -
  have refl: "sameFloat (AlertRule_Threshold current) (AlertRule_Threshold current)"
    "sameFloat (AlertRule_ThresholdOffset current) (AlertRule_ThresholdOffset current)"
    using assms(1) sameFloat_refl by (auto simp: rule_wf_def)
  note n = NormalizeRuleModel_fields [OF assms(2)] rule_wf_trimmed [OF assms(1)] refl
  have keep: "Patch_Enabled patch = None \<longrightarrow> AlertRule_Enabled n = AlertRule_Enabled current"
    "Patch_Metric patch = None \<longrightarrow> AlertRule_Metric n = AlertRule_Metric current"
    "Patch_Operator patch = None \<longrightarrow> AlertRule_Operator n = AlertRule_Operator current"
    "Patch_Threshold patch = None \<longrightarrow> sameFloat (AlertRule_Threshold n) (AlertRule_Threshold current)"
    "Patch_DurationSec patch = None \<longrightarrow> AlertRule_DurationSec n = AlertRule_DurationSec current"
    "Patch_CooldownMin patch = None \<longrightarrow> AlertRule_CooldownMin n = AlertRule_CooldownMin current"
    "Patch_ThresholdMode patch = None \<longrightarrow> AlertRule_ThresholdMode n = AlertRule_ThresholdMode current"
    "Patch_ThresholdOffset patch = None \<longrightarrow> sameFloat (AlertRule_ThresholdOffset n) (AlertRule_ThresholdOffset current)"
    using n by (simp_all add: applyPatch_def or_old_def)
  show ?thesis
    unfolding needsGeneration_def same_semantics_def updatesFromPatch_def AlertRulePatch.simps
      keep(1-3,5-7) [THEN changes_iff [where same = "(=)"]] keep(4,8) [THEN changes_iff [where same = sameFloat]] by blast
qed

lemma find_SomeD: "find P xs = Some x \<Longrightarrow> x \<in> set xs \<and> P x"
  by (induction xs) (auto split: if_splits)

definition rules_ok :: "alert_db \<Rightarrow> bool" where
  "rules_ok db \<longleftrightarrow> distinct (map AlertRule_ID (rules db)) \<and> (\<forall>r \<in> set (rules db). rule_wf r)"

lemma lockRule_in: "lockRule db i = Some r \<Longrightarrow> r \<in> set (rules db) \<and> AlertRule_ID r = i \<and> \<not> AlertRule_IsDeleted r"
  unfolding lockRule_def by (drule find_SomeD) simp

lemma enqueueControlTask_view:
  "rules (enqueueControlTask db t k p clock) = rules db \<and>
   (\<exists>x \<in> set (tasks (enqueueControlTask db t k p clock)). Task_DedupeKey x = k \<and> Task_Status x = TaskStatusPending)"
  by (auto simp: enqueueControlTask_def Let_def list_ex_iff)

text \<open>
  C21. Editing a rule keeps the rule table evaluable and versioned: after a successful patch the row
  is still in normal form, so it compiles; its generation is raised by one iff the change alters what
  the rule means (thresholds up to the tolerance the code uses), and then a control task announcing
  the new generation is pending; no other row is touched.
\<close>

theorem PatchRule_contract:
  assumes "PatchRule db i patch clock = Inr db'" and "HasUpdates patch" and "rules_ok db"
    and "lockRule db i = Some current" and "AlertRule_Generation current < max_i64"
  shows "\<exists>row \<in> set (rules db'). AlertRule_ID row = i \<and> rule_wf row \<and> NormalizeRuleModel row = Inr row \<and>
     (if same_semantics row current then AlertRule_Generation row = AlertRule_Generation current
      else AlertRule_Generation row = AlertRule_Generation current + 1 \<and>
        (\<exists>t \<in> set (tasks db'). Task_DedupeKey t = changeKey i (AlertRule_Generation row) \<and> Task_Status t = TaskStatusPending)) \<and>
     (\<forall>r \<in> set (rules db). AlertRule_ID r \<noteq> i \<longrightarrow> r \<in> set (rules db'))"
proof -
  note cur = lockRule_in [OF assms(4)]
  have wf: "rule_wf current" using cur assms(3) by (simp add: rules_ok_def)
  from assms(1,2,4) obtain n where n: "NormalizeRuleModel (applyPatch current patch) = Inr n"
    by (auto simp: PatchRule_def split: sum.splits)
  let ?u = "updatesFromPatch n patch"
  let ?bump = "\<not> same_semantics n current"
  have gen: "0 < AlertRule_Generation current" using wf by (simp add: rule_wf_def)
  then have wrap: "wrap64 (AlertRule_Generation current + 1) = AlertRule_Generation current + 1"
    using assms(5) by (intro wrap64_id) (simp add: is_i64_def max_i64_def min_i64_def)
  define g where "g = (if ?bump then AlertRule_Generation current + 1 else AlertRule_Generation current)"
  define f where "f = (\<lambda>r. (applyPatch r ?u)\<lparr>AlertRule_UpdatedAt := clock,
     AlertRule_Generation := (if ?bump then g else AlertRule_Generation r)\<rparr>)"
  have db': "db' = (if ?bump then enqueue_change (update_rule db i f) current g (reasonFor current ?u) clock else update_rule db i f)"
    using assms(1,2,4) n wrap unfolding f_def g_def
    by (auto simp: PatchRule_def Let_def needsGeneration_iff [OF wf n])
  have rules': "rules db' = rules (update_rule db i f)"
    using enqueueControlTask_view by (simp add: db' enqueue_change_def)
  have fc: "f current = n\<lparr>AlertRule_UpdatedAt := clock, AlertRule_Generation := g\<rparr>"
    unfolding f_def by (simp add: updates_are_normalized [OF wf n] g_def)
  have wfn: "rule_wf n" using NormalizeRuleModel_wf [OF n] .
  have row: "f current \<in> set (rules db')" unfolding rules' update_rule_def using cur by (auto simp: in_update_where)
  have "AlertRule_ID n = AlertRule_ID current"
    using NormalizeRuleModel_fields [OF n] by (simp add: applyPatch_def)
  moreover have "rule_wf (f current)" using wfn gen by (simp add: fc rule_wf_def g_def)
  moreover have "same_semantics (f current) current = same_semantics n current" by (simp add: fc same_semantics_def)
  moreover have "\<exists>t \<in> set (tasks db'). Task_DedupeKey t = changeKey i g \<and> Task_Status t = TaskStatusPending" if ?bump
    using enqueueControlTask_view that cur by (simp add: db' enqueue_change_def)
  moreover have "r \<in> set (rules db')" if "r \<in> set (rules db)" "AlertRule_ID r \<noteq> i" for r
    unfolding rules' update_rule_def using that by (auto simp: in_update_where intro: bexI [of _ r])
  ultimately show ?thesis
    using cur row by (intro bexI [OF _ row]) (auto simp: NormalizeRuleModel_id fc g_def)
qed

subsection \<open>A worked example\<close>

definition example_stored :: AlertRule where
  "example_stored = example_rule\<lparr>AlertRule_Name := ''load'', AlertRule_Metric := ''cpu.load1''\<rparr>"

definition example_alerts :: alert_db where
  "example_alerts = \<lparr>events = [], event_seq = 1, rules = [example_stored], rule_seq = 8, mounts = [], tasks = [],
     task_seq = 1, deleted_servers = [],
     outbox_db = \<lparr>outbox = [], outbox_seq = 1, channels = [], setting_channel_ids = []\<rparr>\<rparr>"

definition example_snapshot :: RuleSnapshot where
  "example_snapshot = \<lparr>RuleSnapshot_RuleID = 7, RuleSnapshot_Generation = 2, RuleSnapshot_Builtin = False,
     RuleSnapshot_Name = ''load'', RuleSnapshot_Metric = ''cpu.load1'', RuleSnapshot_Operator = ''>'',
     RuleSnapshot_Threshold = Fin 2, RuleSnapshot_DurationSec = 60, RuleSnapshot_CooldownMin = 5,
     RuleSnapshot_ThresholdMode = ''core_plus'', RuleSnapshot_ThresholdOffset = Fin 1, RuleSnapshot_UpdatedAt = []\<rparr>"

definition example_open :: AlertOpenEventParams where
  "example_open = \<lparr>OpenP_RuleID = 7, OpenP_RuleGeneration = 2, OpenP_Builtin = False, OpenP_RuleSnapshot = example_snapshot,
     OpenP_ObjectType = ObjectTypeServer, OpenP_ObjectID = 3, OpenP_TriggeredAt = 100, OpenP_CurrentValue = Fin 9,
     OpenP_EffectiveThreshold = Fin 5, OpenP_Title = ''t'', OpenP_Message = ''m'', OpenP_Notifications = []\<rparr>"

definition example_close :: AlertCloseEventParams where
  "example_close = \<lparr>CloseP_EventID = 1, CloseP_RuleID = 7, CloseP_RuleGeneration = 2, CloseP_ObjectType = ObjectTypeServer,
     CloseP_ObjectID = 3, CloseP_ClosedAt = 200, CloseP_CurrentValue = None, CloseP_CloseReason = ''condition_cleared'',
     CloseP_Notifications = []\<rparr>"

definition example_opened :: alert_db where
  "example_opened = example_alerts\<lparr>events := [open_event example_open 1], event_seq := 2\<rparr>"

lemma example_alerts_ok: "events_ok example_alerts"
  by (simp add: events_ok_def example_alerts_def)

lemma example_opens:
  "WriteOpenTransition example_alerts example_open 100 = Inr (\<lparr>OpenR_EventID = 1, OpenR_Created = True\<rparr>, example_opened)"
proof -
  have "rule_current example_alerts 7 2"
    by (simp add: rule_current_def example_alerts_def example_stored_def example_rule_def)
  then have "insertOpenEvent example_alerts example_open = (1, example_opened)"
    by (simp add: insertOpenEvent_def example_open_def) (simp add: example_alerts_def example_opened_def example_open_def)
  then show ?thesis
    by (simp add: WriteOpenTransition_def insertAlertNotifications_def insertNotifications_def)
       (simp add: example_open_def example_opened_def example_alerts_def)
qed

lemma example_opened_ok: "events_ok example_opened"
  using open_transition_ok [OF example_opens example_alerts_ok] by blast

lemma example_closes:
  "\<exists>db'. WriteCloseTransition example_opened example_close 200 =
     Inr (\<lparr>CloseR_EventID = 1, CloseR_Status = CloseStatusClosed\<rparr>, db')"
  by (simp add: WriteCloseTransition_def example_opened_def close_match_def example_close_def
      insertAlertNotifications_def insertNotifications_def Let_def)

theorem event_history_ok_witness:
  "events_ok example_opened \<and> event_step\<^sup>*\<^sup>* example_alerts example_opened"
proof -
  have "event_step\<^sup>*\<^sup>* example_alerts example_opened" using event_step.Open [OF example_opens] by blast
  with event_history_ok [OF example_alerts_ok this] show ?thesis by blast
qed

theorem open_transition_contract_witness:
  "OpenR_Created \<lparr>OpenR_EventID = 1, OpenR_Created = True\<rparr> \<and>
   {e \<in> set (events example_opened). is_open e \<and> event_key e = open_params_key example_open} =
   {e \<in> set (events example_opened). Event_ID e = 1}"
  using open_transition_contract [OF example_opens example_alerts_ok] by auto

theorem close_transition_contract_witness:
  "\<exists>db'. WriteCloseTransition example_opened example_close 200 =
       Inr (\<lparr>CloseR_EventID = 1, CloseR_Status = CloseStatusClosed\<rparr>, db') \<and>
     WriteCloseTransition db' example_close 300 = Inr (\<lparr>CloseR_EventID = 0, CloseR_Status = CloseStatusNotFound\<rparr>, db')"
proof -
  obtain db' where c: "WriteCloseTransition example_opened example_close 200 =
     Inr (\<lparr>CloseR_EventID = 1, CloseR_Status = CloseStatusClosed\<rparr>, db')" using example_closes by blast
  from close_transition_contract [OF c example_opened_ok, of 300] c show ?thesis by blast
qed

definition example_patch :: AlertRulePatch where
  "example_patch = \<lparr>Patch_Name = None, Patch_Enabled = Some False, Patch_Metric = None, Patch_Operator = None,
     Patch_Threshold = None, Patch_DurationSec = None, Patch_CooldownMin = None, Patch_ThresholdMode = None,
     Patch_ThresholdOffset = None\<rparr>"

lemma example_stored_wf: "rule_wf example_stored" "rule_wf (applyPatch example_stored example_patch)"
proof -
  have "rule_wf (example_rule\<lparr>AlertRule_Name := ''load'', AlertRule_Metric := ''cpu.load1''\<rparr>)"
    using NormalizeRuleModel_wf [OF example_rule_accepted] .
  then show "rule_wf example_stored" "rule_wf (applyPatch example_stored example_patch)"
    by (simp_all add: example_stored_def rule_wf_def applyPatch_def example_patch_def or_old_def)
qed

theorem PatchRule_contract_witness:
  "\<exists>db' row. PatchRule example_alerts 7 example_patch 300 = Inr db' \<and> row \<in> set (rules db') \<and>
     AlertRule_ID row = 7 \<and> rule_wf row"
proof -
  have lock: "lockRule example_alerts 7 = Some example_stored"
    by (simp add: lockRule_def example_alerts_def example_stored_def example_rule_def)
  have upd: "HasUpdates example_patch" by (simp add: HasUpdates_def example_patch_def)
  have "\<exists>db'. PatchRule example_alerts 7 example_patch 300 = Inr db'"
    using upd by (simp add: PatchRule_def lock NormalizeRuleModel_id [OF example_stored_wf(2)] Let_def)
  then obtain db' where p: "PatchRule example_alerts 7 example_patch 300 = Inr db'" by blast
  have "rules_ok example_alerts" using example_stored_wf by (simp add: rules_ok_def example_alerts_def)
  moreover have "AlertRule_Generation example_stored < max_i64"
    by (simp add: example_stored_def example_rule_def max_i64_def)
  ultimately show ?thesis using PatchRule_contract [OF p upd _ lock] p by blast
qed

end
