(* ===== verification/Alert_Service.thy ===== *)
theory Alert_Service
  imports Alert_Runtime Alert_Store Dirty_Queue
begin

text \<open>
  The alert service that drives the engine: \<open>internal/alert/service.go\<close>, \<open>service_eval.go\<close> (one
  evaluation of a server against the store), \<open>state.go\<close> (committing the runtime states),
  \<open>service_bootstrap.go\<close> (recovery from open events), \<open>service_control.go\<close> (control tasks) and
  \<open>rule_cache.go\<close>.

  What the service observes of its surroundings is an \<open>env\<close>: which notification targets can be resolved
  for a transition, the message texts of \<open>messages.go\<close>, the node the front cache reads, and which database calls fail. A failed call
  leaves the tables as they were and its error is handled as the source handles it. \<open>clock\<close> is the time
  the store reads for its own rows.
\<close>

subsection \<open>Delays\<close>

definition controlTaskRetryDelay :: "int \<Rightarrow> duration" where
  "controlTaskRetryDelay attempt = 2 ^ nat (min attempt 6) * second_ns"

definition notificationRetryDelay :: "int \<Rightarrow> duration" where
  "notificationRetryDelay attempt = 5 * second_ns * 2 ^ nat (min (max (attempt - 1) 0) 6)"

definition notificationBlockedDelay :: "int \<Rightarrow> duration" where
  "notificationBlockedDelay blockedCount =
     (if blockedCount = 0 then 5 * minute_ns else if blockedCount = 1 then 15 * minute_ns
      else if blockedCount = 2 then 30 * minute_ns else hour_ns)"

definition notificationFailureStatus :: "bool \<Rightarrow> string \<Rightarrow> string" where
  "notificationFailureStatus isProbe status =
     (if isProbe \<and> status = OutboxStatusRetry then OutboxStatusBlocked else status)"

definition shouldDropRuntimeAfterClose :: "AlertCloseEventResult \<Rightarrow> bool" where
  "shouldDropRuntimeAfterClose result \<longleftrightarrow>
     CloseR_Status result = CloseStatusClosed \<or> CloseR_Status result = CloseStatusNotFound"

definition firingHeartbeatInterval :: duration where "firingHeartbeatInterval = minute_ns"

subsection \<open>Runtime states\<close>

text \<open>Go's \<open>==\<close> on runtime states: floating-point fields compare as numbers, so NaN differs from itself.\<close>

definition state_eq :: "RuntimeState \<Rightarrow> RuntimeState \<Rightarrow> bool" where
  "state_eq a b \<longleftrightarrow> Phase a = Phase b \<and> State_RuleID a = State_RuleID b \<and> State_Generation a = State_Generation b \<and>
     PendingSince a = PendingSince b \<and> FiringSince a = FiringSince b \<and> CooldownUntil a = CooldownUntil b \<and>
     LastDBHeartbeatAt a = LastDBHeartbeatAt b \<and> LastObservedAt a = LastObservedAt b \<and>
     f64_eq (CurrentValue a) (CurrentValue b) \<and> f64_eq (EffThreshold a) (EffThreshold b) \<and> EventID a = EventID b"

definition state_at :: "states \<Rightarrow> string \<Rightarrow> RuntimeState" where
  "state_at m k = (case map_of m k of Some s \<Rightarrow> s | None \<Rightarrow> zero_RuntimeState)"

record service =
  runtime :: "(int, states) gomap"
  openAfter :: time

definition loadRuntimeState :: "service \<Rightarrow> int \<Rightarrow> states" where
  "loadRuntimeState s serverID = (case map_of (runtime s) serverID of Some m \<Rightarrow> m | None \<Rightarrow> [])"

definition drop_vanished :: "states \<Rightarrow> string \<times> RuntimeState \<Rightarrow> states \<Rightarrow> states" where
  "drop_vanished nxt kp stored =
     (if map_of nxt (fst kp) = None \<and> state_eq (state_at stored (fst kp)) (snd kp)
      then AList.delete (fst kp) stored else stored)"

definition commit_state :: "states \<Rightarrow> string \<times> RuntimeState \<Rightarrow> states \<Rightarrow> states" where
  "commit_state current ks stored =
     (let key = fst ks; state = snd ks;
          hadCurrent = map_of current key \<noteq> None; previous = state_at current key;
          hadStored = map_of stored key \<noteq> None; actual = state_at stored key
      in if hadCurrent \<and> state_eq previous state then stored
         else if hadStored = hadCurrent \<and> state_eq actual previous then AList.update key state stored
         else stored)"

definition saveRuntimeState :: "service \<Rightarrow> int \<Rightarrow> states \<Rightarrow> states \<Rightarrow> service" where
  "saveRuntimeState s serverID current nxt =
     (let stored = loadRuntimeState s serverID;
          stored = fold (drop_vanished nxt) current stored;
          stored = fold (commit_state current) nxt stored
      in if stored = [] then s\<lparr>runtime := AList.delete serverID (runtime s)\<rparr>
         else s\<lparr>runtime := AList.update serverID stored (runtime s)\<rparr>)"

definition runtimeServerIDs :: "service \<Rightarrow> int list" where
  "runtimeServerIDs s = map fst (runtime s)"

subsection \<open>One evaluation\<close>

record env =
  close_targets :: "CloseTransition \<Rightarrow> AlertNotificationParams list option"
  open_targets :: "OpenTransition \<Rightarrow> AlertNotificationParams list option"
  open_message :: "OpenTransition \<Rightarrow> string \<times> string"
  close_fails :: "CloseTransition \<Rightarrow> bool"
  open_fails :: "OpenTransition \<Rightarrow> bool"
  touch_fails :: "string \<Rightarrow> bool"
  cache_fails :: bool
  refreshed_at :: time
  node_fails :: bool
  current_node :: "int \<Rightarrow> NodeView option"
  mounts_fail :: bool

definition filterStartupOpens :: "OpenTransition list \<Rightarrow> time \<Rightarrow> time \<Rightarrow> OpenTransition list" where
  "filterStartupOpens transitions now after = (if after = zero_time \<or> \<not> now < after then transitions else [])"

text \<open>\<open>None\<close>: the targets are unavailable and the transition is deferred.\<close>

definition closeNotificationParams :: "env \<Rightarrow> CloseTransition \<Rightarrow> AlertNotificationParams list option" where
  "closeNotificationParams e transition =
     (if Close_CloseReason transition \<noteq> ''condition_cleared'' then Some [] else close_targets e transition)"

definition close_params :: "CloseTransition \<Rightarrow> AlertNotificationParams list \<Rightarrow> AlertCloseEventParams" where
  "close_params transition ns =
     \<lparr>CloseP_EventID = Close_EventID transition, CloseP_RuleID = RuleID (Close_Rule transition),
      CloseP_RuleGeneration = Generation (Close_Rule transition), CloseP_ObjectType = ObjectTypeServer,
      CloseP_ObjectID = Close_ObjectID transition, CloseP_ClosedAt = Close_ClosedAt transition,
      CloseP_CurrentValue = Close_CurrentValue transition, CloseP_CloseReason = Close_CloseReason transition,
      CloseP_Notifications = ns\<rparr>"

definition open_params :: "OpenTransition \<Rightarrow> RuleSnapshot \<Rightarrow> string \<times> string \<Rightarrow> AlertNotificationParams list \<Rightarrow> AlertOpenEventParams" where
  "open_params transition snap message ns =
     \<lparr>OpenP_RuleID = RuleID (Open_Rule transition), OpenP_RuleGeneration = Generation (Open_Rule transition),
      OpenP_Builtin = Builtin (Open_Rule transition), OpenP_RuleSnapshot = snap, OpenP_ObjectType = ObjectTypeServer,
      OpenP_ObjectID = Open_ObjectID transition, OpenP_TriggeredAt = Open_TriggeredAt transition,
      OpenP_CurrentValue = Open_CurrentValue transition, OpenP_EffectiveThreshold = Open_EffectiveThreshold transition,
      OpenP_Title = fst message, OpenP_Message = snd message, OpenP_Notifications = ns\<rparr>"

definition write_close ::
    "env \<Rightarrow> time \<Rightarrow> CloseTransition \<Rightarrow> alert_db \<times> states \<times> string list \<Rightarrow> alert_db \<times> states \<times> string list" where
  "write_close e clock transition st =
     (case st of (db, nxt, closing) \<Rightarrow>
        (case closeNotificationParams e transition of
           None \<Rightarrow> (db, nxt, closing)
         | Some ns \<Rightarrow>
            if close_fails e transition then (db, nxt, closing)
            else case WriteCloseTransition db (close_params transition ns) clock of
                   Inl err \<Rightarrow> if err = RuleVersionStale then (db, AList.delete (Close_StateKey transition) nxt, closing)
                             else (db, nxt, closing)
                 | Inr (outcome, db) \<Rightarrow>
                    (let closing = Close_StateKey transition # closing
                     in if shouldDropRuntimeAfterClose outcome
                        then (let nxt = AList.delete (Close_StateKey transition) nxt
                              in (db, if cooldownAfterClose transition \<and> CloseR_Status outcome = CloseStatusClosed
                                      then AList.update (Close_StateKey transition)
                                             (newCooldownState (Close_Rule transition) (Close_ClosedAt transition)) nxt
                                      else nxt, closing))
                        else (db, nxt, closing))))"

text \<open>A rule without a compiled snapshot aborts the evaluation, keeping what was written so far.\<close>

fun write_opens ::
    "env \<Rightarrow> time \<Rightarrow> OpenTransition list \<Rightarrow> alert_db \<times> states \<Rightarrow> (spec_error \<times> alert_db) + alert_db \<times> states" where
  "write_opens e clock [] st = Inr st"
| "write_opens e clock (transition # ts) (db, nxt) =
     (case snapshotJSON (Open_Rule transition) of
        Inl err \<Rightarrow> Inl (err, db)
      | Inr snap \<Rightarrow>
         (case open_targets e transition of
            None \<Rightarrow> write_opens e clock ts (db, nxt)
          | Some ns \<Rightarrow>
             if open_fails e transition then write_opens e clock ts (db, nxt)
             else case WriteOpenTransition db (open_params transition snap (open_message e transition) ns) clock of
                    Inl _ \<Rightarrow> write_opens e clock ts (db, nxt)
                  | Inr (outcome, db) \<Rightarrow>
                     write_opens e clock ts
                       (db, if OpenR_EventID outcome > 0 then applyOpenTransition nxt transition (OpenR_EventID outcome) else nxt)))"

definition heartbeat ::
    "env \<Rightarrow> states \<Rightarrow> string list \<Rightarrow> string \<times> RuntimeState \<Rightarrow> alert_db \<times> states \<Rightarrow> alert_db \<times> states" where
  "heartbeat e current closing ks st =
     (case st of (db, nxt) \<Rightarrow>
        let key = fst ks; state = snd ks
        in case map_of current key of
             None \<Rightarrow> (db, nxt)
           | Some previous \<Rightarrow>
              if \<not> shouldHeartbeatFiring previous state firingHeartbeatInterval (key \<in> set closing) then (db, nxt)
              else if touch_fails e key then (db, nxt)
              else case TouchOpenEvent db (EventID state) (LastObservedAt state) (CurrentValue state) (EffThreshold state) of
                     (found, db) \<Rightarrow>
                        if \<not> found then (db, AList.delete key nxt)
                        else (db, AList.update key (state\<lparr>LastDBHeartbeatAt := LastObservedAt state\<rparr>) nxt))"

definition flushHeartbeats :: "env \<Rightarrow> states \<Rightarrow> string list \<Rightarrow> alert_db \<times> states \<Rightarrow> alert_db \<times> states" where
  "flushHeartbeats e current closing st = fold (heartbeat e current closing) (snd st) st"

subsection \<open>The rule cache\<close>

definition ruleCacheMinRefresh :: duration where "ruleCacheMinRefresh = 5 * second_ns"

text \<open>\<open>Refresh\<close>: the rule set to use, whether an error is reported with it, and the cache afterwards.\<close>

definition Refresh ::
    "CompiledRules option \<Rightarrow> alert_db \<Rightarrow> bool \<Rightarrow> bool \<Rightarrow> time \<Rightarrow> (CompiledRules option \<times> bool) \<times> CompiledRules option" where
  "Refresh cached db load_fails force now =
     (case (force, cached) of
        (False, Some c) \<Rightarrow>
          if time_sub now (RefreshedAt c) < ruleCacheMinRefresh then ((cached, False), cached)
          else if load_fails then ((cached, True), cached)
          else (case CompileRules (RulesForCompile db) now of
                  Inl _ \<Rightarrow> ((cached, True), cached) | Inr c \<Rightarrow> ((Some c, False), Some c))
      | _ \<Rightarrow>
          if load_fails then ((cached, True), cached)
          else (case CompileRules (RulesForCompile db) now of
                  Inl _ \<Rightarrow> ((cached, True), cached) | Inr c \<Rightarrow> ((Some c, False), Some c)))"

subsection \<open>An evaluation of a server\<close>

text \<open>
  \<open>processServer\<close> once the rules, the snapshot and the mounts are read. \<open>None\<close> stands for the panic of
  \<open>EvaluateServer\<close>, which the mounted rule set excludes.
\<close>

datatype eval_failure = RulesUnavailable | NodeUnavailable | MountsUnavailable | OpenUnprepared spec_error

definition evaluate_rules ::
    "env \<Rightarrow> service \<Rightarrow> alert_db \<Rightarrow> CompiledRules \<Rightarrow> int \<Rightarrow> NodeView option \<Rightarrow> time \<Rightarrow> time \<Rightarrow>
     ((eval_failure \<times> alert_db) + alert_db \<times> service) option" where
  "evaluate_rules e s db compiled serverID snapshot now clock =
     (let current = loadRuntimeState s serverID;
          serverRules = ForMounts compiled (RuleMountsForServer db serverID)
      in case EvaluateServer serverID snapshot (Some serverRules) current now of
           None \<Rightarrow> None
         | Some result \<Rightarrow>
            (let opens = filterStartupOpens (OpenTransitions result) now (openAfter s)
             in case fold (write_close e clock) (CloseTransitions result) (db, Next result, []) of
                  (db, nxt, closing) \<Rightarrow>
                    (case write_opens e clock opens (db, nxt) of
                       Inl (err, db) \<Rightarrow> Some (Inl (OpenUnprepared err, db))
                     | Inr st \<Rightarrow>
                        (case flushHeartbeats e current closing st of
                           (db, nxt) \<Rightarrow> Some (Inr (db, saveRuntimeState s serverID current nxt))))))"

text \<open>
  The whole of \<open>processServer\<close>, with the rule cache before and after it. An error of the cache ends the evaluation only when there
  is no rule set to fall back on; the snapshot is read when none came with the mark.
\<close>

definition processServer ::
    "env \<Rightarrow> service \<Rightarrow> alert_db \<Rightarrow> CompiledRules option \<Rightarrow> int \<Rightarrow> NodeView option \<Rightarrow> time \<Rightarrow> time \<Rightarrow>
     ((eval_failure \<times> alert_db) + alert_db \<times> service) option \<times> CompiledRules option" where
  "processServer e s db cached serverID snapshot now clock =
     (case Refresh cached db (cache_fails e) False (refreshed_at e) of
        ((None, _), cached) \<Rightarrow> (Some (Inl (RulesUnavailable, db)), cached)
      | ((Some compiled, _), cached) \<Rightarrow>
          if snapshot = None \<and> node_fails e then (Some (Inl (NodeUnavailable, db)), cached)
          else (let snapshot = (case snapshot of None \<Rightarrow> current_node e serverID | Some v \<Rightarrow> Some v)
                in if mounts_fail e then (Some (Inl (MountsUnavailable, db)), cached)
                   else (evaluate_rules e s db compiled serverID snapshot now clock, cached)))"

subsection \<open>Recovery\<close>

definition float64OrZero :: "f64 option \<Rightarrow> f64" where
  "float64OrZero p = (case p of None \<Rightarrow> f0 | Some v \<Rightarrow> v)"

definition event_state :: "AlertEvent \<Rightarrow> RuntimeState" where
  "event_state event = zero_RuntimeState\<lparr>Phase := RuntimePhaseFiring, State_RuleID := Event_RuleID event,
     State_Generation := Event_RuleGeneration event, PendingSince := trunc_sec (Event_FirstTriggerAt event),
     FiringSince := trunc_sec (Event_FirstTriggerAt event), LastDBHeartbeatAt := trunc_sec (Event_LastTriggerAt event),
     LastObservedAt := trunc_sec (Event_LastTriggerAt event), CurrentValue := float64OrZero (Event_CurrentValue event),
     EffThreshold := float64OrZero (Event_EffectiveThreshold event), EventID := Event_ID event\<rparr>"

definition add_event_state :: "AlertEvent \<Rightarrow> (int, states) gomap \<Rightarrow> (int, states) gomap" where
  "add_event_state event grouped =
     (if Event_ObjectType event \<noteq> ObjectTypeServer \<or> Event_ObjectID event \<le> 0 then grouped
      else let states = (case map_of grouped (Event_ObjectID event) of Some m \<Rightarrow> m | None \<Rightarrow> [])
           in AList.update (Event_ObjectID event)
                (AList.update (ruleStateKey (Event_RuleID event) (Event_RuleGeneration event)) (event_state event) states)
                grouped)"

definition runtimeStatesFromOpenEvents :: "AlertEvent list \<Rightarrow> (int, states) gomap" where
  "runtimeStatesFromOpenEvents evs = fold add_event_state evs []"

definition restore_state :: "string \<times> RuntimeState \<Rightarrow> states \<Rightarrow> states" where
  "restore_state ks current =
     (case map_of current (fst ks) of
        Some existing \<Rightarrow>
          if Phase existing = RuntimePhaseFiring \<and> EventID existing = EventID (snd ks) then current
          else AList.update (fst ks) (snd ks) current
      | None \<Rightarrow> AList.update (fst ks) (snd ks) current)"

definition restore_server :: "int \<times> states \<Rightarrow> service \<Rightarrow> service" where
  "restore_server entry s =
     (case map_of (runtime s) (fst entry) of
        None \<Rightarrow> s\<lparr>runtime := AList.update (fst entry) (snd entry) (runtime s)\<rparr>
      | Some current \<Rightarrow> s\<lparr>runtime := AList.update (fst entry) (fold restore_state (snd entry) current) (runtime s)\<rparr>)"

definition restoreOpenRuntime :: "service \<Rightarrow> alert_db \<Rightarrow> service" where
  "restoreOpenRuntime s db = fold restore_server (runtimeStatesFromOpenEvents (ListOpenEvents db)) s"

subsection \<open>The control loop\<close>

text \<open>
  \<open>fails\<close> says which event's close transaction fails. The first failure ends the loop with an error;
  what was closed before stays closed.
\<close>

definition plain_close :: "int \<Rightarrow> string \<Rightarrow> time \<Rightarrow> AlertCloseEventParams" where
  "plain_close i reason closedAt =
     \<lparr>CloseP_EventID = i, CloseP_RuleID = 0, CloseP_RuleGeneration = 0, CloseP_ObjectType = [], CloseP_ObjectID = 0,
      CloseP_ClosedAt = closedAt, CloseP_CurrentValue = None, CloseP_CloseReason = reason, CloseP_Notifications = []\<rparr>"

fun close_events :: "(int \<Rightarrow> bool) \<Rightarrow> string \<Rightarrow> time \<Rightarrow> AlertEvent list \<Rightarrow> alert_db \<Rightarrow> bool \<times> alert_db" where
  "close_events fails reason clock [] db = (True, db)"
| "close_events fails reason clock (event # evs) db =
     (if fails (Event_ID event) then (False, db)
      else case WriteCloseTransition db (plain_close (Event_ID event) reason clock) clock of
             Inl _ \<Rightarrow> (False, db)
           | Inr (_, db) \<Rightarrow> close_events fails reason clock evs db)"

definition affected_servers :: "AlertEvent list \<Rightarrow> int list" where
  "affected_servers evs =
     remdups (map Event_ObjectID (filter (\<lambda>e. Event_ObjectType e = ObjectTypeServer \<and> Event_ObjectID e > 0) evs))"

definition closeGeneration ::
    "(int \<Rightarrow> bool) \<Rightarrow> alert_db \<Rightarrow> int \<Rightarrow> int \<Rightarrow> string \<Rightarrow> time \<Rightarrow> int list option \<times> alert_db" where
  "closeGeneration fails db ruleID generation reason clock =
     (let evs = ListOpenEventsByRule db ruleID generation
      in case close_events fails reason clock evs db of
           (ok, db) \<Rightarrow> (if ok then Some (affected_servers evs) else None, db))"

fun closeInvalid :: "(int \<Rightarrow> bool) \<Rightarrow> time \<Rightarrow> InvalidRule list \<Rightarrow> alert_db \<Rightarrow> int list option \<times> alert_db" where
  "closeInvalid fails clock [] db = (Some [], db)"
| "closeInvalid fails clock (item # items) db =
     (case closeGeneration fails db (InvalidRule_RuleID item) (InvalidRule_Generation item) ''rule_invalid'' clock of
        (None, db) \<Rightarrow> (None, db)
      | (Some ids, db) \<Rightarrow>
         (case closeInvalid fails clock items db of
            (None, db) \<Rightarrow> (None, db)
          | (Some ids2, db) \<Rightarrow> (Some (remdups (ids @ ids2)), db)))"

text \<open>The events of deleted servers: closed one by one, with the runtime keys to drop afterwards.\<close>

fun close_deleted ::
    "(int \<Rightarrow> bool) \<Rightarrow> time \<Rightarrow> AlertEvent list \<Rightarrow> alert_db \<Rightarrow> (int \<times> string) list option \<times> alert_db" where
  "close_deleted fails clock [] db = (Some [], db)"
| "close_deleted fails clock (event # evs) db =
     (if Event_ObjectID event \<le> 0 then close_deleted fails clock evs db
      else if fails (Event_ID event) then (None, db)
      else case WriteCloseTransition db (plain_close (Event_ID event) ''server_deleted'' clock) clock of
             Inl _ \<Rightarrow> (None, db)
           | Inr (outcome, db) \<Rightarrow>
              (case close_deleted fails clock evs db of
                 (None, db) \<Rightarrow> (None, db)
               | (Some drops, db) \<Rightarrow>
                  (Some (if shouldDropRuntimeAfterClose outcome
                         then (Event_ObjectID event, ruleStateKey (Event_RuleID event) (Event_RuleGeneration event)) # drops
                         else drops), db)))"

definition drop_key :: "int \<times> string \<Rightarrow> service \<Rightarrow> service" where
  "drop_key sk s =
     (let states = AList.delete (snd sk) (loadRuntimeState s (fst sk))
      in if states = [] then s\<lparr>runtime := AList.delete (fst sk) (runtime s)\<rparr>
         else s\<lparr>runtime := AList.update (fst sk) states (runtime s)\<rparr>)"

definition closeDeletedServers ::
    "(int \<Rightarrow> bool) \<Rightarrow> service \<Rightarrow> alert_db \<Rightarrow> time \<Rightarrow> int list option \<times> service \<times> alert_db" where
  "closeDeletedServers fails s db clock =
     (case close_deleted fails clock (ListOpenEventsForDeletedServers db) db of
        (None, db) \<Rightarrow> (None, s, db)
      | (Some drops, db) \<Rightarrow> (Some (remdups (map fst drops)), fold drop_key drops s, db))"

definition rebuildRuntimeFromOpenEvents :: "(int \<Rightarrow> bool) \<Rightarrow> service \<Rightarrow> alert_db \<Rightarrow> time \<Rightarrow> (service \<times> alert_db) option" where
  "rebuildRuntimeFromOpenEvents fails s db clock =
     (case closeDeletedServers fails s db clock of
        (None, _, _) \<Rightarrow> None
      | (Some _, s, db) \<Rightarrow> Some (s\<lparr>runtime := runtimeStatesFromOpenEvents (ListOpenEvents db)\<rparr>, db))"

definition markServersDirty :: "int list \<Rightarrow> dirtyQueue \<Rightarrow> dirtyQueue" where
  "markServersDirty ids q = fold (\<lambda>i q. mark q i None) ids q"

text \<open>\<open>node_ids\<close> is the answer of the front cache, \<open>None\<close> for an error.\<close>

definition enqueueTargets :: "int list option \<Rightarrow> service \<Rightarrow> alert_db \<Rightarrow> bool \<Rightarrow> dirtyQueue \<Rightarrow> dirtyQueue option" where
  "enqueueTargets node_ids s db includeOpenEvents q =
     (case node_ids of
        None \<Rightarrow> None
      | Some current \<Rightarrow>
         (let targets = current @ filter (\<lambda>i. i > 0) (runtimeServerIDs s) @
                (if includeOpenEvents then filter (\<lambda>i. i > 0) (ListOpenObjectIDs db ObjectTypeServer) else [])
          in Some (markServersDirty (remdups targets) q)))"

datatype control_error = InvalidTask | ControlFault

record world =
  w_service :: service
  w_db :: alert_db
  w_queue :: dirtyQueue
  w_cache :: "CompiledRules option"

record control_env =
  rules_fail :: bool
  event_fails :: "int \<Rightarrow> bool"
  node_ids :: "int list option"

definition finish_control :: "control_env \<Rightarrow> int list \<Rightarrow> bool \<Rightarrow> world \<Rightarrow> control_error option \<times> world" where
  "finish_control e affected includeOpen w =
     (let q = markServersDirty affected (w_queue w)
      in case enqueueTargets (node_ids e) (w_service w) (w_db w) includeOpen q of
           None \<Rightarrow> (Some ControlFault, w\<lparr>w_queue := q\<rparr>)
         | Some q \<Rightarrow> (None, w\<lparr>w_queue := q\<rparr>))"

definition rule_change :: "control_env \<Rightarrow> RuleChangePayload \<Rightarrow> CompiledRules \<Rightarrow> time \<Rightarrow> world \<Rightarrow> control_error option \<times> world" where
  "rule_change e payload compiled clock w =
     (if Change_RuleID payload = 0 then (Some InvalidTask, w)
      else case (if Change_OldGeneration payload > 0 \<and> Change_CloseReason payload \<noteq> []
                 then closeGeneration (event_fails e) (w_db w) (Change_RuleID payload) (Change_OldGeneration payload)
                        (Change_CloseReason payload) clock
                 else (Some [], w_db w)) of
             (None, db) \<Rightarrow> (Some ControlFault, w\<lparr>w_db := db\<rparr>)
           | (Some ids, db) \<Rightarrow>
              (case closeInvalid (event_fails e) clock (Invalid compiled) db of
                 (None, db) \<Rightarrow> (Some ControlFault, w\<lparr>w_db := db\<rparr>)
               | (Some ids2, db) \<Rightarrow> finish_control e (remdups (ids @ ids2)) False (w\<lparr>w_db := db\<rparr>)))"

definition full_reconcile :: "control_env \<Rightarrow> CompiledRules \<Rightarrow> time \<Rightarrow> world \<Rightarrow> control_error option \<times> world" where
  "full_reconcile e compiled clock w =
     (case closeInvalid (event_fails e) clock (Invalid compiled) (w_db w) of
        (None, db) \<Rightarrow> (Some ControlFault, w\<lparr>w_db := db\<rparr>)
      | (Some ids, db) \<Rightarrow>
         (case closeDeletedServers (event_fails e) (w_service w) db clock of
            (None, s, db) \<Rightarrow> (Some ControlFault, w\<lparr>w_db := db\<rparr>)
          | (Some ids2, s, db) \<Rightarrow>
             finish_control e (remdups (ids @ ids2)) True
               (w\<lparr>w_db := db, w_service := restoreOpenRuntime s db\<rparr>)))"

definition controlTask :: "control_env \<Rightarrow> AlertControlTask \<Rightarrow> time \<Rightarrow> world \<Rightarrow> control_error option \<times> world" where
  "controlTask e task clock w =
     (case Refresh (w_cache w) (w_db w) (rules_fail e) True clock of
        ((_, True), cache) \<Rightarrow> (Some ControlFault, w\<lparr>w_cache := cache\<rparr>)
      | ((None, False), cache) \<Rightarrow> (Some ControlFault, w\<lparr>w_cache := cache\<rparr>)
      | ((Some compiled, False), cache) \<Rightarrow>
         (let w = w\<lparr>w_cache := cache\<rparr>
          in if Task_TaskType task = ControlTaskRuleChange then
               (case Task_Payload task of
                  RuleChange payload \<Rightarrow> rule_change e payload compiled clock w
                | _ \<Rightarrow> (Some InvalidTask, w))
             else if Task_TaskType task = ControlTaskFullReconcile then full_reconcile e compiled clock w
             else (Some InvalidTask, w)))"

text \<open>One turn of \<open>processControlTasks\<close>: \<open>False\<close> when no task is due.\<close>

definition control_step :: "control_env \<Rightarrow> time \<Rightarrow> world \<Rightarrow> bool \<times> world" where
  "control_step e now w =
     (case TakeNextControlTask (w_db w) now of
        (None, db) \<Rightarrow> (False, w)
      | (Some task, db) \<Rightarrow>
         (case controlTask e task now (w\<lparr>w_db := db\<rparr>) of
            (None, w) \<Rightarrow> (True, w\<lparr>w_db := CompleteControlTask (w_db w) (Task_ID task)\<rparr>)
          | (Some InvalidTask, w) \<Rightarrow> (True, w\<lparr>w_db := FailControlTask (w_db w) (Task_ID task) ''invalid alert control task''\<rparr>)
          | (Some ControlFault, w) \<Rightarrow>
              (True, w\<lparr>w_db := RetryControlTask (w_db w) (Task_ID task)
                 (now + controlTaskRetryDelay (Task_AttemptCount task)) ''control task failed''\<rparr>)))"

subsection \<open>Loops that update a map key by key\<close>

text \<open>
  Several loops walk over one map and update another at the key they visit. Such a loop acts on each
  key independently, whatever the order of iteration.
\<close>

locale keyed_update =
  fixes upd :: "'k \<times> 'v \<Rightarrow> ('k, 'w) gomap \<Rightarrow> ('k, 'w) gomap"
    and effect :: "'k \<Rightarrow> 'v \<Rightarrow> 'w option \<Rightarrow> 'w option"
  assumes here: "map_of (upd (k, v) m) k = effect k v (map_of m k)"
    and elsewhere: "k' \<noteq> k \<Longrightarrow> map_of (upd (k, v) m) k' = map_of m k'"
    and keys: "distinct (map fst m) \<Longrightarrow> distinct (map fst (upd x m))"
begin

lemma fold_elsewhere: "k \<notin> fst ` set xs \<Longrightarrow> map_of (fold upd xs m) k = map_of m k"
  by (induction xs arbitrary: m) (auto simp: elsewhere)

lemma fold_at:
  "distinct (map fst xs) \<Longrightarrow>
   map_of (fold upd xs m) k = (case map_of xs k of Some v \<Rightarrow> effect k v (map_of m k) | None \<Rightarrow> map_of m k)"
proof (induction xs arbitrary: m)
  case (Cons x xs)
  obtain k' v where x: "x = (k', v)" by (cases x)
  show ?case
  proof (cases "k = k'")
    case True
    with Cons.prems x have "map_of (fold upd xs (upd x m)) k = map_of (upd x m) k"
      by (intro fold_elsewhere) simp
    with True x show ?thesis by (simp add: here)
  next
    case False
    then have "map_of (upd x m) k = map_of m k" by (simp add: x elsewhere)
    with False Cons.IH [of "upd x m"] Cons.prems x show ?thesis by (simp split: option.split)
  qed
qed simp

lemma fold_keys: "distinct (map fst m) \<Longrightarrow> distinct (map fst (fold upd xs m))"
  by (induction xs arbitrary: m) (simp_all add: keys)

end

interpretation drop_loop: keyed_update "drop_vanished nxt"
  "\<lambda>k previous stored. if map_of nxt k = None \<and> state_eq (case stored of Some s \<Rightarrow> s | None \<Rightarrow> zero_RuntimeState) previous
     then None else stored" for nxt
  by unfold_locales (auto simp: drop_vanished_def state_at_def)

interpretation commit_loop: keyed_update "commit_state current"
  "\<lambda>k state stored.
     if map_of current k \<noteq> None \<and> state_eq (state_at current k) state then stored
     else if (stored \<noteq> None) = (map_of current k \<noteq> None) \<and>
        state_eq (case stored of Some s \<Rightarrow> s | None \<Rightarrow> zero_RuntimeState) (state_at current k) then Some state else stored"
  for current
  by unfold_locales (auto simp: commit_state_def state_at_def Let_def)

interpretation restore_loop: keyed_update restore_state
  "\<lambda>k state current. case current of
     Some existing \<Rightarrow> if Phase existing = RuntimePhaseFiring \<and> EventID existing = EventID state then current else Some state
   | None \<Rightarrow> Some state"
  by unfold_locales (auto simp: restore_state_def split: option.split)

lemma load_save:
  "loadRuntimeState (saveRuntimeState s i current nxt) j =
     (if j = i then fold (commit_state current) nxt (fold (drop_vanished nxt) current (loadRuntimeState s i))
      else loadRuntimeState s j)"
  by (simp add: saveRuntimeState_def loadRuntimeState_def Let_def)

text \<open>A state without NaN is equal to another exactly when Go says so.\<close>

definition numeric :: "RuntimeState \<Rightarrow> bool" where
  "numeric s \<longleftrightarrow> CurrentValue s \<noteq> NaN \<and> EffThreshold s \<noteq> NaN"

lemma f64_eq_iff: "x \<noteq> NaN \<Longrightarrow> f64_eq x y \<longleftrightarrow> x = y"
  by (cases x) auto

lemma state_eq_iff: "numeric a \<Longrightarrow> state_eq a b \<longleftrightarrow> a = b"
  by (cases a; cases b) (auto simp: state_eq_def numeric_def f64_eq_iff)

lemma numeric_zero [simp]: "numeric zero_RuntimeState"
  by (simp add: numeric_def zero_RuntimeState_def)

definition all_numeric :: "states \<Rightarrow> bool" where
  "all_numeric m \<longleftrightarrow> (\<forall>s \<in> snd ` set m. numeric s)"

lemma all_numericD: "all_numeric m \<Longrightarrow> map_of m k = Some s \<Longrightarrow> numeric s"
  unfolding all_numeric_def by (force dest: map_of_SomeD)

lemma all_numeric_at: "all_numeric m \<Longrightarrow> numeric (state_at m k)"
  by (auto simp: state_at_def all_numericD split: option.split)

subsection \<open>Properties of the runtime store\<close>

text \<open>
  C22. Committing an evaluation is a three-way merge: with the states the evaluation started from
  (\<open>current\<close>), those it produced (\<open>nxt\<close>) and those stored meanwhile, a key ends up with the produced
  state if it was not changed meanwhile and keeps the stored state if it was, additions and removals
  included. Other servers are not affected.
\<close>

theorem saveRuntimeState_merges:
  assumes "distinct (map fst current)" and "distinct (map fst nxt)"
    and "all_numeric current" and "all_numeric (loadRuntimeState s i)"
  shows "map_of (loadRuntimeState (saveRuntimeState s i current nxt) j) k =
     (if j = i \<and> map_of (loadRuntimeState s i) k = map_of current k then map_of nxt k
      else map_of (loadRuntimeState s j) k)"
proof -
  let ?st = "map_of (loadRuntimeState s i) k"
  have num: "numeric (case ?st of Some s \<Rightarrow> s | None \<Rightarrow> zero_RuntimeState)" "numeric (state_at current k)"
    using all_numericD [OF assms(4), of k] all_numeric_at [OF assms(3)] by (auto split: option.split)
  show ?thesis
    unfolding load_save
    by (auto simp: commit_loop.fold_at [OF assms(2)] drop_loop.fold_at [OF assms(1)] state_eq_iff num
        state_at_def dest: all_numericD [OF assms(3)] all_numericD [OF assms(4)] split: option.split)
qed

subsection \<open>Runtime states and events\<close>

text \<open>
  \<open>backed\<close>: a firing state refers to an event of the rule generation its key names, on its server.
  Events are never removed, so a later table backs what an earlier one backed.
\<close>

definition backed :: "alert_db \<Rightarrow> int \<Rightarrow> string \<Rightarrow> RuntimeState \<Rightarrow> bool" where
  "backed db i k st \<longleftrightarrow> Phase st = RuntimePhaseFiring \<longrightarrow>
     (\<exists>e \<in> set (events db). \<exists>ruleID generation. k = ruleStateKey ruleID generation \<and> Event_ID e = EventID st \<and>
        event_key e = (ruleID, generation, ObjectTypeServer, i))"

definition all_backed :: "alert_db \<Rightarrow> int \<Rightarrow> states \<Rightarrow> bool" where
  "all_backed db i m \<longleftrightarrow> (\<forall>k st. map_of m k = Some st \<longrightarrow> backed db i k st)"

definition later :: "alert_db \<Rightarrow> alert_db \<Rightarrow> bool" where
  "later db db' \<longleftrightarrow> (\<forall>e \<in> set (events db). \<exists>e' \<in> set (events db'). Event_ID e' = Event_ID e \<and> event_key e' = event_key e)"

lemma later_refl [simp]: "later db db"
  by (auto simp: later_def)

lemma later_trans: "later a b \<Longrightarrow> later b c \<Longrightarrow> later a c"
  unfolding later_def by metis

lemma backed_later: "later db db' \<Longrightarrow> backed db i k st \<Longrightarrow> backed db' i k st"
  unfolding backed_def later_def by metis

lemma all_backed_later: "later db db' \<Longrightarrow> all_backed db i m \<Longrightarrow> all_backed db' i m"
  using backed_later by (auto simp: all_backed_def)

lemma later_update:
  assumes "\<And>e. Event_ID (f e) = Event_ID e \<and> event_key (f e) = event_key e"
    and "events db' = update_where p f (events db)"
  shows "later db db'"
  unfolding later_def
proof
  fix e assume "e \<in> set (events db)"
  then have "(if p e then f e else e) \<in> set (events db')" unfolding assms(2) by (auto simp: in_update_where)
  with assms(1) [of e] show "\<exists>e' \<in> set (events db'). Event_ID e' = Event_ID e \<and> event_key e' = event_key e"
    by (auto split: if_splits)
qed

lemma close_later: "WriteCloseTransition db c clock = Inr (res, db') \<Longrightarrow> later db db'"
  by (erule close_transition_cases) (auto intro: later_update [where f = "close_event c"])

lemma touch_later:
  assumes "TouchOpenEvent db i t x y = (found, db')"
  shows "later db db'"
proof (cases "i \<le> 0")
  case False
  show ?thesis
    by (rule later_update [where p = "\<lambda>e. Event_ID e = i \<and> is_open e" and f = "\<lambda>e. e\<lparr>Event_LastTriggerAt := t,
        Event_CurrentValue := Some x, Event_EffectiveThreshold := Some y, Event_CloseReason := None\<rparr>"])
      (use assms False in \<open>auto simp: TouchOpenEvent_def event_key_def\<close>)
qed (use assms in \<open>simp add: TouchOpenEvent_def\<close>)

lemma open_later:
  assumes "WriteOpenTransition db p clock = Inr (res, db')" "events_ok db"
  shows "later db db'"
  using open_transition_ok [OF assms] by (auto simp: later_def)

text \<open>An evaluation creates no firing state of its own.\<close>

lemma step_rule_firing_only:
  assumes "out_state (step_rule i v online observedAt now rule stored) = Some st" "Phase st = RuntimePhaseFiring"
  shows "\<exists>s. stored = Some s \<and> Phase s = RuntimePhaseFiring \<and> same_alert s st"
proof (cases "is_firing stored")
  case True
  then obtain s where s: "stored = Some s" "Phase s = RuntimePhaseFiring" by (auto simp: is_firing_def split: option.splits)
  with step_rule_firing [OF s(2), of i v online observedAt now rule] assms(1) show ?thesis by auto
next
  case False
  then have nf: "\<not> is_firing (drop_cooldown stored)" by simp
  have "Phase st \<noteq> RuntimePhaseFiring"
    using nf assms(1)
    by (auto simp: step_rule_cases eval_rule_def no_step_def in_cooldown_def newPendingState_def phase_defs Let_def
        simp del: is_firing_drop_cooldown split: if_splits option.splits sum.splits prod.splits)
  with assms(2) show ?thesis by blast
qed

lemma next_firing_only:
  assumes "EvaluateServer i snapshot compiled current now = Some r" "keys_ok compiled current"
    "map_of (Next r) k = Some st" "Phase st = RuntimePhaseFiring"
  shows "\<exists>s. map_of current k = Some s \<and> Phase s = RuntimePhaseFiring \<and> same_alert s st"
  using assms(1)
proof (cases rule: EvaluateServer_cases)
  case blind
  with assms(2-4) next_blind show ?thesis by (auto simp: keys_ok_def same_alert_refl split: if_splits)
next
  case (usable v c observedAt online)
  then have d: "distinct (map fst current)" "distinct (map StateKey (Rules c))" using assms(2) by (simp_all add: keys_ok_def)
  from assms(3,4) step_rule_firing_only show ?thesis
    unfolding usable(5) next_usable [OF d] by (auto simp: same_alert_refl split: option.splits if_splits)
qed

lemma same_alert_backed: "same_alert s st \<Longrightarrow> backed db i k s \<Longrightarrow> Phase s = RuntimePhaseFiring \<Longrightarrow> backed db i k st"
  by (auto simp: same_alert_def backed_def)

lemma next_backed:
  assumes "EvaluateServer i snapshot compiled current now = Some r" "keys_ok compiled current"
    "all_backed db i current"
  shows "all_backed db i (Next r)"
  unfolding all_backed_def
proof (intro allI impI)
  fix k st assume st: "map_of (Next r) k = Some st"
  show "backed db i k st"
  proof (cases "Phase st = RuntimePhaseFiring")
    case True
    with next_firing_only [OF assms(1,2) st] obtain s where
      s: "map_of current k = Some s" "Phase s = RuntimePhaseFiring" "same_alert s st" by blast
    with assms(3) same_alert_backed show ?thesis by (auto simp: all_backed_def)
  qed (simp add: backed_def)
qed

lemma all_backed_delete: "all_backed db i m \<Longrightarrow> all_backed db i (AList.delete k m)"
  by (auto simp: all_backed_def split: if_splits)

lemma all_backed_update: "all_backed db i m \<Longrightarrow> backed db i k st \<Longrightarrow> all_backed db i (AList.update k st m)"
  by (auto simp: all_backed_def split: if_splits)

lemma backed_cooldown [simp]: "backed db i k (newCooldownState rule t)"
  by (simp add: backed_def newCooldownState_def phase_defs)

definition sound :: "int \<Rightarrow> alert_db \<Rightarrow> states \<Rightarrow> bool" where
  "sound i db m \<longleftrightarrow> events_ok db \<and> all_backed db i m \<and> distinct (map fst m)"

lemma sound_later: "sound i db m \<Longrightarrow> later db db' \<Longrightarrow> events_ok db' \<Longrightarrow> sound i db' m"
  by (simp add: sound_def all_backed_later)

lemma sound_delete: "sound i db m \<Longrightarrow> sound i db (AList.delete k m)"
  by (simp add: sound_def all_backed_delete)

lemma sound_update: "sound i db m \<Longrightarrow> backed db i k st \<Longrightarrow> sound i db (AList.update k st m)"
  by (simp add: sound_def all_backed_update)

lemma write_close_sound:
  assumes "sound i db m" "write_close e clock t (db, m, cl) = (db', m', cl')"
  shows "sound i db' m' \<and> later db db'"
proof (cases "closeNotificationParams e t = None \<or> close_fails e t")
  case True
  with assms show ?thesis by (auto simp: write_close_def split: option.splits)
next
  case False
  then obtain ns where ns: "closeNotificationParams e t = Some ns" "\<not> close_fails e t" by auto
  show ?thesis
  proof (cases "WriteCloseTransition db (close_params t ns) clock")
    case (Inl err)
    with ns assms sound_delete show ?thesis by (auto simp: write_close_def split: if_splits)
  next
    case (Inr r)
    obtain outcome d where r: "r = (outcome, d)" by (cases r)
    with Inr have w: "WriteCloseTransition db (close_params t ns) clock = Inr (outcome, d)" by simp
    have "sound i d m" "later db d"
      using sound_later [OF assms(1) close_later [OF w]] close_transition_ok [OF w] close_later [OF w] assms(1)
      by (auto simp: sound_def)
    then show ?thesis
      using assms(2) w ns by (auto simp: write_close_def Let_def sound_delete sound_update split: if_splits)
  qed
qed

lemma write_closes_sound:
  "sound i db m \<Longrightarrow> fold (write_close e clock) ts (db, m, cl) = (db', m', cl') \<Longrightarrow> sound i db' m' \<and> later db db'"
proof (induction ts arbitrary: db m cl)
  case (Cons t ts)
  obtain d n c where step: "write_close e clock t (db, m, cl) = (d, n, c)" by (cases "write_close e clock t (db, m, cl)")
  from write_close_sound [OF Cons.prems(1) step] Cons.IH [of d n c] Cons.prems(2) step show ?case
    by (auto intro: later_trans)
qed simp

definition opens_for :: "int \<Rightarrow> OpenTransition \<Rightarrow> bool" where
  "opens_for i t \<longleftrightarrow> Open_StateKey t = StateKey (Open_Rule t) \<and> Open_ObjectID t = i"

lemma applyOpen_sound:
  assumes "sound i db m" "opens_for i t" "WriteOpenTransition db (open_params t snap msg ns) clock = Inr (res, db')"
  shows "sound i db' (if OpenR_EventID res > 0 then applyOpenTransition m t (OpenR_EventID res) else m) \<and> later db db'"
proof -
  have ok: "events_ok db" using assms(1) by (simp add: sound_def)
  note w = open_transition_ok [OF assms(3) ok] open_later [OF assms(3) ok]
  have s: "sound i db' m" using sound_later [OF assms(1)] w by blast
  obtain e where e: "e \<in> set (events db')" "Event_ID e = OpenR_EventID res" "event_key e = open_params_key (open_params t snap msg ns)"
    using assms(3) ok
  proof (cases rule: open_transition_cases)
    case (existing x)
    with that [of x] show thesis by simp
  next
    case (created n)
    with that [of "open_event (open_params t snap msg ns) (event_seq db)"] show thesis by simp
  qed
  have "backed db' i (Open_StateKey t) (st\<lparr>Phase := p, FiringSince := a, LastDBHeartbeatAt := b, EventID := OpenR_EventID res\<rparr>)"
    for st p a b
    unfolding backed_def
    using e assms(2) by (auto simp: opens_for_def StateKey_def open_params_key_def open_params_def intro!: bexI [of _ e])
  with s w show ?thesis by (simp add: applyOpenTransition_def Let_def sound_update)
qed

lemma write_opens_sound:
  "sound i db m \<Longrightarrow> list_all (opens_for i) ts \<Longrightarrow> write_opens e clock ts (db, m) = Inr (db', m') \<Longrightarrow>
   sound i db' m' \<and> later db db'"
proof (induction ts arbitrary: db m)
  case (Cons t ts)
  consider "write_opens e clock ts (db, m) = Inr (db', m')"
    | snap ns res d where "WriteOpenTransition db (open_params t snap (open_message e t) ns) clock = Inr (res, d)"
      "write_opens e clock ts (d, if OpenR_EventID res > 0 then applyOpenTransition m t (OpenR_EventID res) else m) = Inr (db', m')"
    using Cons.prems(3) by (auto split: sum.splits option.splits if_splits)
  then show ?case
  proof cases
    case 1
    with Cons show ?thesis by simp
  next
    case (2 snap ns res d)
    have "opens_for i t" using Cons.prems(2) by simp
    from applyOpen_sound [OF Cons.prems(1) this 2(1)] Cons.IH [OF _ _ 2(2)] Cons.prems(2) show ?thesis
      by (auto intro: later_trans)
  qed
qed simp

lemma heartbeat_sound:
  assumes "sound i db m" "backed db i (fst ks) (snd ks)" "heartbeat e current cl ks (db, m) = (db', m')"
  shows "sound i db' m' \<and> later db db'"
proof -
  obtain found d where t: "TouchOpenEvent db (EventID (snd ks)) (LastObservedAt (snd ks)) (CurrentValue (snd ks))
      (EffThreshold (snd ks)) = (found, d)" by fastforce
  have l: "later db d" using touch_later [OF t] .
  have "events_ok d" using step_events_ok [OF event_step.Touch [OF t]] assms(1) by (simp add: sound_def)
  then have s: "sound i d m" using sound_later [OF assms(1) l] by blast
  have "backed d i (fst ks) ((snd ks)\<lparr>LastDBHeartbeatAt := x\<rparr>)" for x
    using backed_later [OF l assms(2)] by (simp add: backed_def)
  with s l assms(1,3) t show ?thesis
    by (auto simp: heartbeat_def Let_def sound_delete sound_update split: option.splits if_splits)
qed

lemma heartbeats_sound:
  "sound i db m \<Longrightarrow> (\<And>ks. ks \<in> set xs \<Longrightarrow> backed db i (fst ks) (snd ks)) \<Longrightarrow>
   fold (heartbeat e current cl) xs (db, m) = (db', m') \<Longrightarrow> sound i db' m' \<and> later db db'"
proof (induction xs arbitrary: db m)
  case (Cons x xs)
  obtain d n where step: "heartbeat e current cl x (db, m) = (d, n)" by (cases "heartbeat e current cl x (db, m)")
  have h: "sound i d n \<and> later db d" using heartbeat_sound [OF Cons.prems(1) Cons.prems(2) step] by simp
  with Cons.IH [of d n] Cons.prems step show ?case
    by (auto intro: later_trans backed_later)
qed simp

text \<open>What the rule set of a server brings to an evaluation.\<close>

lemma ForMounts_Rules [simp]: "Rules (ForMounts c m) = filter (\<lambda>r. ruleMounted r m) (Rules c)"
  by (simp add: ForMounts_def foldl_mount_rule)

lemma EvaluateServer_returns: "\<exists>r. EvaluateServer i snapshot (Some c) current now = Some r"
  by (auto simp: EvaluateServer_def Let_def split: option.split)

lemma opens_of_rules:
  assumes "EvaluateServer i snapshot (Some c) current now = Some r" "t \<in> set (OpenTransitions r)"
  shows "opens_for i t \<and> Open_Rule t \<in> set (Rules c)"
  using assms(1)
proof (cases rule: EvaluateServer_cases)
  case blind
  with assms(2) show ?thesis by (simp add: keep_state_step keep_loop.run_opens empty_result_def)
next
  case (usable v c' observedAt online)
  with assms opens_usable [of i v c current now r observedAt online] show ?thesis
    by (auto simp: in_map_filter step_rule_open opens_for_def open_of_def)
qed

lemma write_opens_total:
  "(\<And>t. t \<in> set ts \<Longrightarrow> snapshotRaw (Open_Rule t) \<noteq> None) \<Longrightarrow> \<exists>st'. write_opens e clock ts st = Inr st'"
proof (induction ts arbitrary: st)
  case (Cons t ts)
  obtain db m where st: "st = (db, m)" by (cases st)
  from Cons.prems [of t] obtain snap where "snapshotJSON (Open_Rule t) = Inr snap"
    by (auto simp: snapshotJSON_def)
  with Cons.IH Cons.prems st show ?case by (auto split: option.split sum.split)
qed simp

text \<open>A commit stores nothing that was neither stored nor produced by the evaluation.\<close>

lemma save_sound:
  assumes "sound i db nxt" "sound i db (loadRuntimeState s i)" "distinct (map fst current)"
  shows "sound i db (loadRuntimeState (saveRuntimeState s i current nxt) i)"
proof -
  have "distinct (map fst nxt)" using assms(1) by (simp add: sound_def)
  moreover have "all_backed db i nxt" "all_backed db i (loadRuntimeState s i)" "events_ok db"
    using assms by (simp_all add: sound_def)
  ultimately have "all_backed db i (loadRuntimeState (saveRuntimeState s i current nxt) i)"
    unfolding load_save all_backed_def
    by (auto simp: commit_loop.fold_at drop_loop.fold_at [OF assms(3)] split: option.splits if_splits)
  with assms show ?thesis
    by (simp add: sound_def load_save commit_loop.fold_keys drop_loop.fold_keys)
qed

lemma sound_backed: "sound i db m \<Longrightarrow> ks \<in> set m \<Longrightarrow> backed db i (fst ks) (snd ks)"
  by (cases ks) (simp add: sound_def all_backed_def)

lemma evaluate_rules_sound:
  assumes "CompileRules items t = Inr compiled" and "distinct (map AlertRule_ID items)"
    and "\<forall>r \<in> set items. 0 < AlertRule_ID r" and "\<forall>j. sound j db (loadRuntimeState s j)"
  shows "\<exists>db' s'. evaluate_rules e s db compiled i snapshot now clock = Some (Inr (db', s')) \<and>
           (\<forall>j. sound j db' (loadRuntimeState s' j)) \<and> later db db'"
proof -
  define c where "c = ForMounts compiled (RuleMountsForServer db i)"
  define current where "current = loadRuntimeState s i"
  note rules = compiled_keys [OF assms(1-3)]
  have dc: "distinct (map fst current)" and bc: "all_backed db i current"
    using assms(4) by (simp_all add: sound_def current_def)
  have keys: "keys_ok (Some c) current" using dc rules(1) by (simp add: keys_ok_def c_def distinct_map_filter)
  obtain r where r: "EvaluateServer i snapshot (Some c) current now = Some r" using EvaluateServer_returns by blast
  let ?opens = "filterStartupOpens (OpenTransitions r) now (openAfter s)"
  have opens: "opens_for i u \<and> snapshotRaw (Open_Rule u) \<noteq> None" if "u \<in> set ?opens" for u
    using that opens_of_rules [OF r, of u] rules(2) by (auto simp: filterStartupOpens_def c_def split: if_splits)
  have "sound i db (Next r)"
    using assms(4) next_backed [OF r keys bc] EvaluateServer_next_distinct [OF r keys] by (simp add: sound_def)
  moreover obtain db1 n1 cl where w1: "fold (write_close e clock) (CloseTransitions r) (db, Next r, []) = (db1, n1, cl)"
    by (metis prod_cases3)
  ultimately have s1: "sound i db1 n1" "later db db1" using write_closes_sound by blast+
  obtain db2 n2 where w2: "write_opens e clock ?opens (db1, n1) = Inr (db2, n2)"
    using write_opens_total [of ?opens e clock "(db1, n1)"] opens by (metis surj_pair)
  have "list_all (opens_for i) ?opens" using opens by (simp add: list_all_iff)
  from write_opens_sound [OF s1(1) this w2] have s2: "sound i db2 n2" "later db1 db2" by simp_all
  obtain db3 n3 where w3: "flushHeartbeats e current cl (db2, n2) = (db3, n3)" by (metis surj_pair)
  then have s3: "sound i db3 n3" "later db2 db3"
    using heartbeats_sound [OF s2(1) sound_backed [OF s2(1)]] by (simp_all add: flushHeartbeats_def)
  have l: "later db db3" using s1(2) s2(2) s3(2) later_trans by blast
  have "sound j db3 (loadRuntimeState (saveRuntimeState s i current n3) j)" for j
  proof -
    have "sound j db3 (loadRuntimeState s j)"
      using sound_later [OF _ l] assms(4) s3(1) by (simp add: sound_def)
    then show ?thesis using save_sound [OF s3(1) _ dc, of s] by (cases "j = i") (simp_all add: load_save)
  qed
  moreover have "evaluate_rules e s db compiled i snapshot now clock = Some (Inr (db3, saveRuntimeState s i current n3))"
    using r w1 w2 w3 by (simp add: evaluate_rules_def current_def c_def Let_def)
  ultimately show ?thesis using l by blast
qed

text \<open>A rule set that the cache may hold: compiled from rows with distinct positive ids.\<close>

definition compiled_ok :: "CompiledRules \<Rightarrow> bool" where
  "compiled_ok c \<longleftrightarrow> (\<exists>items t. CompileRules items t = Inr c \<and> distinct (map AlertRule_ID items) \<and> (\<forall>r \<in> set items. 0 < AlertRule_ID r))"

lemma compile_rows:
  assumes "distinct (map AlertRule_ID (rules db))" "\<forall>r \<in> set (rules db). 0 < AlertRule_ID r" "CompileRules (RulesForCompile db) t = Inr c"
  shows "compiled_ok c"
proof -
  have "distinct (map AlertRule_ID (RulesForCompile db))" unfolding RulesForCompile_def
    using assms(1) by (simp add: distinct_map inj_on_def)
  moreover have "\<forall>r \<in> set (RulesForCompile db). 0 < AlertRule_ID r" using assms(2) by (simp add: RulesForCompile_def)
  ultimately show ?thesis using assms(3) unfolding compiled_ok_def by blast
qed

lemma Refresh_rules:
  assumes "distinct (map AlertRule_ID (rules db))" "\<forall>r \<in> set (rules db). 0 < AlertRule_ID r" "\<forall>c. cached = Some c \<longrightarrow> compiled_ok c"
    and "Refresh cached db fails False t = ((compiled, err), cached')"
  shows "compiled = cached'" "\<forall>c. cached' = Some c \<longrightarrow> compiled_ok c" "compiled = None \<Longrightarrow> cached = None \<and> fails"
proof -
  obtain c where c: "CompileRules (RulesForCompile db) t = Inr c" using CompileRules_result by blast
  with assms(3,4) compile_rows [OF assms(1,2) c]
  show "compiled = cached'" "\<forall>c. cached' = Some c \<longrightarrow> compiled_ok c" "compiled = None \<Longrightarrow> cached = None \<and> fails"
    by (auto simp: Refresh_def split: option.splits if_splits)
qed

text \<open>
  C9. Let the rules have distinct positive ids, let the cached rule set be compiled from such rules, and let every firing state be backed by an
  event. Then one evaluation of a server never panics. It fails only when a read that it needs fails: the rules while the cache is
  empty, the snapshot when none came with the mark, or the mounts; then the tables are as they were. Otherwise it runs to
  its end, whichever notification targets are unavailable and whichever writes fail, and afterwards the event table is
  well-formed, every firing state of every server is backed by an event of its own rule generation and server, and no event was
  lost.
\<close>

theorem processServer_sound:
  assumes "\<forall>c. cached = Some c \<longrightarrow> compiled_ok c" and "distinct (map AlertRule_ID (rules db))"
    and "\<forall>r \<in> set (rules db). 0 < AlertRule_ID r" and "\<forall>j. sound j db (loadRuntimeState s j)"
  shows "\<exists>res cached'. processServer e s db cached i snapshot now clock = (Some res, cached') \<and> (\<forall>c. cached' = Some c \<longrightarrow> compiled_ok c) \<and>
    (case res of
       Inl (f, db') \<Rightarrow> db' = db \<and> (f = RulesUnavailable \<and> cached = None \<and> cache_fails e \<or> f = NodeUnavailable \<and> snapshot = None \<and> node_fails e \<or>
         f = MountsUnavailable \<and> mounts_fail e)
     | Inr (db', s') \<Rightarrow> (\<forall>j. sound j db' (loadRuntimeState s' j)) \<and> later db db')"
proof -
  obtain compiled err cached' where r: "Refresh cached db (cache_fails e) False (refreshed_at e) = ((compiled, err), cached')" by (metis surj_pair)
  note f = Refresh_rules [OF assms(2,3,1) r]
  show ?thesis
  proof (cases "compiled = None \<or> snapshot = None \<and> node_fails e \<or> mounts_fail e")
    case True
    with f r show ?thesis by (auto simp: processServer_def Let_def split: option.splits)
  next
    case False
    then obtain c where c: "compiled = Some c" by (cases compiled) auto
    let ?snapshot = "case snapshot of None \<Rightarrow> current_node e i | Some v \<Rightarrow> Some v"
    from f c have "compiled_ok c" by simp
    then obtain items t where "CompileRules items t = Inr c" "distinct (map AlertRule_ID items)" "\<forall>r \<in> set items. 0 < AlertRule_ID r"
      by (auto simp: compiled_ok_def)
    from evaluate_rules_sound [OF this assms(4), of e i ?snapshot now clock]
    obtain db' s' where "evaluate_rules e s db c i ?snapshot now clock = Some (Inr (db', s'))" "\<forall>j. sound j db' (loadRuntimeState s' j)" "later db db'"
      by blast
    moreover from this(1) have "processServer e s db cached i snapshot now clock = (Some (Inr (db', s')), cached')"
      using False c r by (simp add: processServer_def)
    ultimately show ?thesis using f(2) by auto
  qed
qed

subsection \<open>Recovery from open events\<close>

definition event_at :: "int \<Rightarrow> string \<Rightarrow> AlertEvent \<Rightarrow> bool" where
  "event_at i k e \<longleftrightarrow> Event_ObjectType e = ObjectTypeServer \<and> Event_ObjectID e = i \<and> 0 < i \<and>
     ruleStateKey (Event_RuleID e) (Event_RuleGeneration e) = k"

definition states_of :: "(int, states) gomap \<Rightarrow> int \<Rightarrow> states" where
  "states_of grouped i = (case map_of grouped i of Some m \<Rightarrow> m | None \<Rightarrow> [])"

lemma loadRuntimeState_states_of [simp]: "loadRuntimeState s i = states_of (runtime s) i"
  by (simp add: loadRuntimeState_def states_of_def)

lemma add_event_state_at:
  "map_of (states_of (add_event_state e g) i) k =
     (if event_at i k e then Some (event_state e) else map_of (states_of g i) k)"
  by (auto simp: add_event_state_def states_of_def event_at_def Let_def)

lemma runtimeStates_at:
  "map_of (states_of (fold add_event_state evs g) i) k =
     (case find (event_at i k) (rev evs) of Some e \<Rightarrow> Some (event_state e) | None \<Rightarrow> map_of (states_of g i) k)"
  by (induction evs arbitrary: g rule: rev_induct) (simp_all add: add_event_state_at)

lemma add_event_state_keys:
  "distinct (map fst g) \<Longrightarrow> (\<And>i. distinct (map fst (states_of g i))) \<Longrightarrow>
   distinct (map fst (add_event_state e g)) \<and> distinct (map fst (states_of (add_event_state e g) i))"
  by (auto simp: add_event_state_def states_of_def Let_def split: option.splits if_splits)

lemma runtimeStates_keys:
  "distinct (map fst g) \<Longrightarrow> (\<And>i. distinct (map fst (states_of g i))) \<Longrightarrow>
   distinct (map fst (fold add_event_state evs g)) \<and> distinct (map fst (states_of (fold add_event_state evs g) i))"
proof (induction evs arbitrary: g)
  case (Cons e evs)
  from add_event_state_keys [OF Cons.prems] Cons.IH [of "add_event_state e g"] show ?case by simp
qed simp

lemma event_at_key: "event_at i k e \<Longrightarrow> event_at i k e' \<Longrightarrow> event_key e = event_key e'"
  using ruleStateKey_inject by (auto simp: event_at_def event_key_def)

text \<open>Open events have distinct keys, so the listing order does not matter.\<close>

lemma open_events_at:
  assumes "events_ok db"
  shows "map_of (states_of (runtimeStatesFromOpenEvents (ListOpenEvents db)) i) k =
     map_option event_state (find (event_at i k) (filter is_open (events db)))"
proof -
  let ?L = "filter is_open (events db)"
  have inj: "inj_on event_key (set ?L)" using assms by (simp add: events_ok_def distinct_map)
  have S: "set (rev (ListOpenEvents db)) = set ?L" by (simp add: ListOpenEvents_def)
  have "find (event_at i k) (rev (ListOpenEvents db)) = find (event_at i k) ?L"
  proof (cases "find (event_at i k) ?L")
    case None
    with S have "find (event_at i k) (rev (ListOpenEvents db)) = None" unfolding find_None_iff by blast
    with None show ?thesis by simp
  next
    case (Some e)
    then have e: "e \<in> set ?L" "event_at i k e" using find_SomeD by metis+
    then have "find (event_at i k) (rev (ListOpenEvents db)) \<noteq> None"
      using S unfolding find_None_iff by blast
    then obtain e' where f: "find (event_at i k) (rev (ListOpenEvents db)) = Some e'" by blast
    then have "e' \<in> set ?L" "event_at i k e'" using find_SomeD [OF f] S by blast+
    then have "e' = e" using inj_onD [OF inj event_at_key] e by blast
    then show ?thesis using f Some by simp
  qed
  then show ?thesis
    unfolding runtimeStatesFromOpenEvents_def runtimeStates_at
    by (simp add: states_of_def split: option.split)
qed

definition restored :: "RuntimeState option \<Rightarrow> RuntimeState option \<Rightarrow> RuntimeState option" where
  "restored stored opened =
     (case (opened, stored) of
        (None, _) \<Rightarrow> stored
      | (Some st, Some existing) \<Rightarrow>
          if Phase existing = RuntimePhaseFiring \<and> EventID existing = EventID st then stored else opened
      | (Some st, None) \<Rightarrow> opened)"

lemma restored_None [simp]: "restored stored None = stored" "restored None opened = opened"
  by (simp_all add: restored_def split: option.split)

lemma restore_server_at:
  assumes "distinct (map fst m)"
  shows "map_of (states_of (runtime (restore_server (i, m) s)) j) k =
     (if j = i then restored (map_of (states_of (runtime s) i) k) (map_of m k)
      else map_of (states_of (runtime s) j) k)"
  by (auto simp: restore_server_def states_of_def restore_loop.fold_at [OF assms] restored_def split: option.split)

lemma restore_servers_at:
  assumes "distinct (map fst g)" "\<And>i m. (i, m) \<in> set g \<Longrightarrow> distinct (map fst m)"
  shows "map_of (states_of (runtime (fold restore_server g s)) i) k =
     restored (map_of (states_of (runtime s) i) k) (map_of (states_of g i) k)"
  using assms
proof (induction g arbitrary: s)
  case (Cons x g)
  obtain j m where x: "x = (j, m)" by (cases x)
  have m: "distinct (map fst m)" using Cons.prems(2) [of j m] by (simp add: x)
  have IH: "map_of (states_of (runtime (fold restore_server g (restore_server x s))) i) k =
     restored (map_of (states_of (runtime (restore_server x s)) i) k) (map_of (states_of g i) k)"
    by (rule Cons.IH) (use Cons.prems in auto)
  show ?case
  proof (cases "i = j")
    case True
    have "map_of g j = None" using Cons.prems(1) x by (simp add: map_of_eq_None_iff)
    then have "states_of g i = []" "states_of (x # g) i = m" by (simp_all add: states_of_def x True)
    with IH restore_server_at [OF m, of i s i k] True show ?thesis by (simp add: x)
  next
    case False
    then have "states_of (x # g) i = states_of g i" by (simp add: states_of_def x)
    with IH restore_server_at [OF m, of j s i k] False show ?thesis by (simp add: x)
  qed
qed (simp add: states_of_def)

lemma restoreOpenRuntime_at:
  assumes "events_ok db"
  shows "map_of (loadRuntimeState (restoreOpenRuntime s db) i) k =
     restored (map_of (loadRuntimeState s i) k)
       (map_option event_state (find (event_at i k) (filter is_open (events db))))"
proof -
  let ?g = "runtimeStatesFromOpenEvents (ListOpenEvents db)"
  have keys: "distinct (map fst ?g) \<and> distinct (map fst (states_of ?g j))" for j
    unfolding runtimeStatesFromOpenEvents_def by (rule runtimeStates_keys) (simp_all add: states_of_def)
  have "distinct (map fst m)" if "(j, m) \<in> set ?g" for j m
  proof -
    have "map_of ?g j = Some m" using keys that by simp
    with keys [of j] show ?thesis by (simp add: states_of_def)
  qed
  with keys show ?thesis
    by (simp add: restoreOpenRuntime_def restore_servers_at open_events_at [OF assms])
qed

subsection \<open>Closing events in bulk\<close>

definition closed_by :: "string \<Rightarrow> time \<Rightarrow> AlertEvent \<Rightarrow> AlertEvent" where
  "closed_by reason clock = close_event (plain_close 0 reason clock)"

lemma plain_close_event [simp]: "close_event (plain_close i reason clock) = closed_by reason clock"
  by (simp add: closed_by_def close_event_def plain_close_def fun_eq_iff)

lemma closed_by_simps [simp]:
  "Event_ID (closed_by reason clock e) = Event_ID e" "\<not> is_open (closed_by reason clock e)"
  "event_key (closed_by reason clock e) = event_key e"
  by (simp_all add: closed_by_def del: plain_close_event)

lemma plain_close_notifications [simp]: "CloseP_Notifications (plain_close i reason clock) = []"
  by (simp add: plain_close_def)

lemma insert_no_notifications [simp]: "insertAlertNotifications db i [] now = Inr db"
  by (simp add: insertAlertNotifications_def insertNotifications_def)

definition close_all :: "(AlertEvent \<Rightarrow> bool) \<Rightarrow> string \<Rightarrow> time \<Rightarrow> alert_db \<Rightarrow> alert_db" where
  "close_all p reason clock db =
     db\<lparr>events := update_where (\<lambda>e. p e \<and> is_open e) (closed_by reason clock) (events db)\<rparr>"

lemma plain_close_write:
  assumes "0 < i" "distinct (map Event_ID (events db))"
  shows "\<exists>res. shouldDropRuntimeAfterClose res \<and>
    WriteCloseTransition db (plain_close i reason clock) t = Inr (res, close_all (\<lambda>e. Event_ID e = i) reason clock db)"
proof -
  let ?p = "plain_close i reason clock"
  have m: "close_match ?p e \<longleftrightarrow> is_open e \<and> Event_ID e = i" for e
    using assms(1) by (simp add: close_match_def plain_close_def)
  show ?thesis
  proof (cases "find (close_match ?p) (events db)")
    case None
    then have "update_where (\<lambda>e. Event_ID e = i \<and> is_open e) f (events db) = events db" for f
      by (auto simp: find_None_iff m update_where_def intro!: map_idI)
    with None show ?thesis by (simp add: WriteCloseTransition_def close_all_def shouldDropRuntimeAfterClose_def)
  next
    case (Some x)
    then have x: "x \<in> set (events db)" "is_open x" "Event_ID x = i" using find_SomeD [OF Some] m by auto
    have "y = x" if "y \<in> set (events db)" "Event_ID y = i" for y
      using that x assms(2) by (auto simp: distinct_map dest: inj_onD)
    with x(2) have u: "update_where (\<lambda>e. Event_ID e = i) (closed_by reason clock) (events db) = events (close_all (\<lambda>e. Event_ID e = i) reason clock db)"
      by (auto simp: close_all_def update_where_def)
    have "WriteCloseTransition db ?p t = Inr (\<lparr>CloseR_EventID = i, CloseR_Status = CloseStatusClosed\<rparr>,
        close_all (\<lambda>e. Event_ID e = i) reason clock db)"
      unfolding WriteCloseTransition_def Some using x(3) u by (simp add: Let_def) (simp add: close_all_def)
    moreover have "shouldDropRuntimeAfterClose \<lparr>CloseR_EventID = i, CloseR_Status = CloseStatusClosed\<rparr>"
      by (simp add: shouldDropRuntimeAfterClose_def)
    ultimately show ?thesis by blast
  qed
qed

lemma close_all_simps [simp]:
  "events (close_all p reason clock db) = update_where (\<lambda>e. p e \<and> is_open e) (closed_by reason clock) (events db)"
  "deleted_servers (close_all p reason clock db) = deleted_servers db"
  by (simp_all add: close_all_def)

lemma close_all_compose:
  "close_all q reason clock (close_all p reason clock db) = close_all (\<lambda>e. p e \<or> q e) reason clock db"
  by (simp add: close_all_def update_where_def comp_def) (rule arg_cong [where f = "\<lambda>x. db\<lparr>events := x\<rparr>"], auto)

lemma close_all_ok: "events_ok db \<Longrightarrow> events_ok (close_all p reason clock db)"
  unfolding close_all_def by (rule events_ok_update) simp_all

lemma close_all_open:
  "e \<in> set (events (close_all p reason clock db)) \<and> is_open e \<longleftrightarrow> e \<in> set (events db) \<and> is_open e \<and> \<not> p e"
proof -
  have "e \<noteq> closed_by reason clock r" if "is_open e" for r using that by auto
  then show ?thesis by (auto simp: in_update_where split: if_splits)
qed

lemma close_all_cong: "(\<And>e. e \<in> set (events db) \<Longrightarrow> is_open e \<Longrightarrow> p e = q e) \<Longrightarrow> close_all p reason clock db = close_all q reason clock db"
  by (simp add: close_all_def update_where_def) (rule arg_cong [where f = "\<lambda>x. db\<lparr>events := x\<rparr>"], auto)

lemma close_events_exact:
  assumes "events_ok db" "\<And>e. e \<in> set evs \<Longrightarrow> 0 < Event_ID e"
  shows "if list_ex (\<lambda>e. fails (Event_ID e)) evs then \<not> fst (close_events fails reason clock evs db)
    else close_events fails reason clock evs db = (True, close_all (\<lambda>e. Event_ID e \<in> Event_ID ` set evs) reason clock db)"
  using assms
proof (induction evs arbitrary: db)
  case Nil
  have "close_all (\<lambda>e. False) reason clock db = db" by (simp add: close_all_def update_where_def)
  then show ?case by simp
next
  case (Cons x evs)
  let ?d = "close_all (\<lambda>e. Event_ID e = Event_ID x) reason clock db"
  have x: "0 < Event_ID x" "distinct (map Event_ID (events db))" using Cons.prems by (simp_all add: events_ok_def)
  obtain res where w: "WriteCloseTransition db (plain_close (Event_ID x) reason clock) clock = Inr (res, ?d)"
    using plain_close_write [OF x] by blast
  have "(\<lambda>e. Event_ID e = Event_ID x \<or> Event_ID e \<in> Event_ID ` set evs) = (\<lambda>e. Event_ID e \<in> Event_ID ` set (x # evs))"
    by auto
  then show ?case
    using Cons.IH [OF close_all_ok [OF Cons.prems(1)]] Cons.prems(2) w by (simp add: close_all_compose)
qed

text \<open>A failure leaves a prefix of the events closed and nothing else changed.\<close>

lemma close_events_partial:
  assumes "events_ok db" "\<And>e. e \<in> set evs \<Longrightarrow> 0 < Event_ID e"
  shows "\<exists>ds \<subseteq> Event_ID ` set evs. snd (close_events fails reason clock evs db) = close_all (\<lambda>e. Event_ID e \<in> ds) reason clock db"
  using assms
proof (induction evs arbitrary: db)
  case Nil
  have "close_all (\<lambda>e. False) reason clock db = db" by (simp add: close_all_def update_where_def)
  then show ?case by simp
next
  case (Cons x evs)
  let ?d = "close_all (\<lambda>e. Event_ID e = Event_ID x) reason clock db"
  have x: "0 < Event_ID x" "distinct (map Event_ID (events db))" using Cons.prems by (simp_all add: events_ok_def)
  obtain res where w: "WriteCloseTransition db (plain_close (Event_ID x) reason clock) clock = Inr (res, ?d)"
    using plain_close_write [OF x] by blast
  obtain ds where ds: "ds \<subseteq> Event_ID ` set evs"
      "snd (close_events fails reason clock evs ?d) = close_all (\<lambda>e. Event_ID e \<in> ds) reason clock ?d"
    using Cons.IH [OF close_all_ok [OF Cons.prems(1)]] Cons.prems(2) by (meson list.set_intros(2))
  show ?case
  proof (cases "fails (Event_ID x)")
    case True
    moreover have "close_all (\<lambda>e. Event_ID e \<in> {}) reason clock db = db" by (simp add: close_all_def update_where_def)
    ultimately show ?thesis by (intro exI [of _ "{}"]) simp
  next
    case False
    have "snd (close_events fails reason clock (x # evs) db) = close_all (\<lambda>e. Event_ID e \<in> insert (Event_ID x) ds) reason clock db"
      using False w ds(2) by (simp add: close_all_compose)
    with ds(1) show ?thesis by (intro exI [of _ "insert (Event_ID x) ds"]) auto
  qed
qed

definition of_generation :: "int \<Rightarrow> int \<Rightarrow> AlertEvent \<Rightarrow> bool" where
  "of_generation ruleID generation e \<longleftrightarrow> Event_RuleID e = ruleID \<and> Event_RuleGeneration e = generation"

lemma listed_by_rule:
  "set (ListOpenEventsByRule db r g) = {e \<in> set (events db). of_generation r g e \<and> is_open e}"
  by (auto simp: ListOpenEventsByRule_def of_generation_def)

lemma events_ok_pos: "events_ok db \<Longrightarrow> e \<in> set (events db) \<Longrightarrow> 0 < Event_ID e"
  by (simp add: events_ok_def)

text \<open>Ids identify events, so closing by id closes exactly the selected events.\<close>

lemma close_all_ids:
  assumes "events_ok db" "ids = Event_ID ` {e \<in> set (events db). p e \<and> is_open e}"
  shows "close_all (\<lambda>e. Event_ID e \<in> ids) reason clock db = close_all p reason clock db"
proof (rule close_all_cong)
  fix e assume e: "e \<in> set (events db)" "is_open e"
  have inj: "inj_on Event_ID (set (events db))" using assms(1) by (simp add: events_ok_def distinct_map)
  show "(Event_ID e \<in> ids) = p e" unfolding assms(2) using e inj_onD [OF inj] by blast
qed

lemma closeGeneration_exact:
  assumes "events_ok db"
  shows "closeGeneration fails db r g reason clock =
      (if \<exists>e \<in> set (events db). of_generation r g e \<and> is_open e \<and> fails (Event_ID e)
       then (None, snd (closeGeneration fails db r g reason clock))
       else (Some (affected_servers (ListOpenEventsByRule db r g)), close_all (of_generation r g) reason clock db))"
proof -
  let ?L = "ListOpenEventsByRule db r g"
  have pos: "0 < Event_ID e" if "e \<in> set ?L" for e using that events_ok_pos [OF assms] by (simp add: listed_by_rule)
  have ex: "list_ex (\<lambda>e. fails (Event_ID e)) ?L \<longleftrightarrow> (\<exists>e \<in> set (events db). of_generation r g e \<and> is_open e \<and> fails (Event_ID e))"
    by (auto simp: list_ex_iff listed_by_rule)
  have ids: "close_all (\<lambda>e. Event_ID e \<in> Event_ID ` set ?L) reason clock db = close_all (of_generation r g) reason clock db"
    by (rule close_all_ids [OF assms]) (simp add: listed_by_rule)
  show ?thesis
    using close_events_exact [OF assms pos, of ?L fails reason clock]
    unfolding ex ids closeGeneration_def Let_def by (auto split: prod.split if_splits)
qed

lemma closeGeneration_partial:
  assumes "events_ok db"
  shows "\<exists>p. snd (closeGeneration fails db r g reason clock) = close_all (\<lambda>e. of_generation r g e \<and> p e) reason clock db"
proof -
  let ?L = "ListOpenEventsByRule db r g"
  have pos: "0 < Event_ID e" if "e \<in> set ?L" for e using that events_ok_pos [OF assms] by (simp add: listed_by_rule)
  obtain ds where ds: "ds \<subseteq> Event_ID ` set ?L"
      "snd (close_events fails reason clock ?L db) = close_all (\<lambda>e. Event_ID e \<in> ds) reason clock db"
    using close_events_partial [OF assms pos, of ?L fails reason clock] by blast
  have inj: "inj_on Event_ID (set (events db))" using assms by (simp add: events_ok_def distinct_map)
  have "close_all (\<lambda>e. Event_ID e \<in> ds) reason clock db = close_all (\<lambda>e. of_generation r g e \<and> Event_ID e \<in> ds) reason clock db"
    using ds(1) inj_onD [OF inj] by (intro close_all_cong) (auto simp: listed_by_rule)
  with ds(2) show ?thesis by (intro exI [of _ "\<lambda>e. Event_ID e \<in> ds"]) (auto simp: closeGeneration_def Let_def split: prod.split)
qed

text \<open>
  Closing a rule generation fails only when the close of one of its open events fails. On success
  the events of the generation that were open are closed with the given reason and the affected servers
  reported; and in every case, a failure in the middle included, no event of another rule or generation
  and no other part of the store changes.\<close>

theorem closeGeneration_closes:
  assumes "events_ok db" and "closeGeneration fails db ruleID generation reason clock = (affected, db')"
  shows "(affected = None \<longleftrightarrow>
            (\<exists>e \<in> set (events db). of_generation ruleID generation e \<and> is_open e \<and> fails (Event_ID e))) \<and>
         (affected \<noteq> None \<longrightarrow> db' = close_all (of_generation ruleID generation) reason clock db \<and>
            affected = Some (affected_servers (ListOpenEventsByRule db ruleID generation))) \<and>
         (\<exists>p. db' = close_all (\<lambda>e. of_generation ruleID generation e \<and> p e) reason clock db)"
  using closeGeneration_exact [OF assms(1), of fails ruleID generation reason clock]
    closeGeneration_partial [OF assms(1), of fails ruleID generation reason clock]
  unfolding assms(2) by (auto split: if_splits)

text \<open>What a successful pass over invalid rules and over deleted servers leaves open.\<close>

lemma closeGeneration_ok: "events_ok db \<Longrightarrow> events_ok (snd (closeGeneration fails db r g reason clock))"
  by (metis closeGeneration_partial close_all_ok)

definition only_closes :: "alert_db \<Rightarrow> alert_db \<Rightarrow> bool" where
  "only_closes db db' \<longleftrightarrow> (events_ok db \<longrightarrow> events_ok db') \<and> deleted_servers db' = deleted_servers db \<and>
     (\<forall>e \<in> set (events db'). is_open e \<longrightarrow> e \<in> set (events db))"

lemma only_closes_refl [simp]: "only_closes db db"
  by (simp add: only_closes_def)

lemma only_closes_trans: "only_closes a b \<Longrightarrow> only_closes b c \<Longrightarrow> only_closes a c"
  by (auto simp: only_closes_def)

lemma close_all_only_closes: "only_closes db (close_all p reason clock db)"
  unfolding only_closes_def using close_all_ok close_all_open [of _ p reason clock db] by (metis close_all_simps(2))

lemma closeInvalid_closes:
  assumes "events_ok db" "closeInvalid fails clock items db = (Some ids, db')"
  shows "only_closes db db' \<and> (\<forall>item \<in> set items. \<forall>e \<in> set (events db'). is_open e \<longrightarrow>
           \<not> of_generation (InvalidRule_RuleID item) (InvalidRule_Generation item) e)"
  using assms
proof (induction items arbitrary: db ids)
  case (Cons x items)
  let ?p = "of_generation (InvalidRule_RuleID x) (InvalidRule_Generation x)"
  let ?d = "close_all ?p ''rule_invalid'' clock db"
  obtain a d b where step: "closeGeneration fails db (InvalidRule_RuleID x) (InvalidRule_Generation x) ''rule_invalid'' clock = (Some a, d)"
    "closeInvalid fails clock items d = (Some b, db')"
    using Cons.prems(2) by (auto split: prod.splits option.splits)
  have d: "d = ?d" using closeGeneration_exact [OF Cons.prems(1), of fails "InvalidRule_RuleID x"
      "InvalidRule_Generation x" "''rule_invalid''" clock] unfolding step(1) by (auto split: if_splits)
  have IH: "only_closes ?d db'" "\<forall>item \<in> set items. \<forall>e \<in> set (events db'). is_open e \<longrightarrow>
      \<not> of_generation (InvalidRule_RuleID item) (InvalidRule_Generation item) e"
    using Cons.IH [OF close_all_ok [OF Cons.prems(1)] step(2) [unfolded d]] by simp_all
  have "\<not> ?p e" if "e \<in> set (events db')" "is_open e" for e
    using that IH(1) close_all_open [of e ?p "''rule_invalid''" clock db] unfolding only_closes_def by blast
  with IH only_closes_trans [OF close_all_only_closes IH(1)] show ?case by simp
qed simp

lemma close_deleted_closes:
  assumes "events_ok db" "\<And>e. e \<in> set evs \<Longrightarrow> 0 < Event_ID e"
    "close_deleted fails clock evs db = (Some drops, db')"
  shows "only_closes db db' \<and> (\<forall>x \<in> set evs. \<forall>e \<in> set (events db'). 0 < Event_ObjectID x \<longrightarrow> is_open e \<longrightarrow> Event_ID e \<noteq> Event_ID x)"
  using assms
proof (induction evs arbitrary: db drops)
  case (Cons x evs)
  show ?case
  proof (cases "Event_ObjectID x \<le> 0")
    case True
    with Cons show ?thesis by auto
  next
    case False
    let ?d = "close_all (\<lambda>e. Event_ID e = Event_ID x) ''server_deleted'' clock db"
    have x: "0 < Event_ID x" "distinct (map Event_ID (events db))" using Cons.prems by (simp_all add: events_ok_def)
    obtain res where w: "WriteCloseTransition db (plain_close (Event_ID x) ''server_deleted'' clock) clock = Inr (res, ?d)"
      using plain_close_write [OF x] by blast
    obtain ds where ds: "close_deleted fails clock evs ?d = (Some ds, db')"
      using Cons.prems(3) False w by (auto split: prod.splits option.splits if_splits)
    have IH: "only_closes ?d db'"
      "\<forall>x \<in> set evs. \<forall>e \<in> set (events db'). 0 < Event_ObjectID x \<longrightarrow> is_open e \<longrightarrow> Event_ID e \<noteq> Event_ID x"
      using Cons.IH [OF close_all_ok [OF Cons.prems(1)] _ ds] Cons.prems(2) by simp_all
    have "Event_ID e \<noteq> Event_ID x" if "e \<in> set (events db')" "is_open e" for e
      using that IH(1) close_all_open [of e "\<lambda>e. Event_ID e = Event_ID x" "''server_deleted''" clock db]
      unfolding only_closes_def by blast
    with IH only_closes_trans [OF close_all_only_closes IH(1)] show ?thesis by simp
  qed
qed simp

lemma closeDeletedServers_closes:
  assumes "events_ok db" "closeDeletedServers fails s db clock = (Some ids, s', db')"
  shows "only_closes db db' \<and> (\<forall>e \<in> set (events db'). is_open e \<and> Event_ObjectType e = ObjectTypeServer \<and>
           0 < Event_ObjectID e \<longrightarrow> Event_ObjectID e \<notin> set (deleted_servers db'))"
proof -
  let ?L = "ListOpenEventsForDeletedServers db"
  obtain ds where ds: "close_deleted fails clock ?L db = (Some ds, db')"
    using assms(2) by (auto simp: closeDeletedServers_def split: prod.splits option.splits)
  have pos: "0 < Event_ID e" if "e \<in> set ?L" for e
    using that events_ok_pos [OF assms(1)] by (simp add: ListOpenEventsForDeletedServers_def)
  have r: "only_closes db db'" "\<forall>x \<in> set ?L. \<forall>e \<in> set (events db'). 0 < Event_ObjectID x \<longrightarrow> is_open e \<longrightarrow> Event_ID e \<noteq> Event_ID x"
    using close_deleted_closes [OF assms(1) pos ds] by simp_all
  have "e \<in> set ?L" if "e \<in> set (events db')" "is_open e" "Event_ObjectType e = ObjectTypeServer"
      "Event_ObjectID e \<in> set (deleted_servers db')" for e
    using that r(1) by (simp add: only_closes_def ListOpenEventsForDeletedServers_def)
  with r show ?thesis by blast
qed

subsection \<open>Reconciliation\<close>

lemma markServersDirty_pending:
  "queue_ok q \<Longrightarrow> queue_ok (markServersDirty ids q) \<and>
   pending_ids (abs_queue (markServersDirty ids q)) = pending_ids (abs_queue q) \<union> {i \<in> set ids. 0 < i}"
  unfolding markServersDirty_def
proof (induction ids arbitrary: q)
  case (Cons i ids)
  from dq.mark_ok [OF Cons.prems, of i None] dq.pending_mark [OF Cons.prems, of i None] Cons.IH show ?case by auto
qed simp

lemma finish_control_marks:
  assumes "queue_ok (w_queue w)" "finish_control e affected True w = (None, w')"
  shows "w_service w' = w_service w \<and> w_db w' = w_db w \<and> queue_ok (w_queue w') \<and>
    (\<forall>ev \<in> set (events (w_db w)). is_open ev \<and> Event_ObjectType ev = ObjectTypeServer \<and> 0 < Event_ObjectID ev \<longrightarrow>
       Event_ObjectID ev \<in> pending_ids (abs_queue (w_queue w')))"
proof -
  obtain ids where ids: "node_ids e = Some ids" using assms(2)
    by (auto simp: finish_control_def enqueueTargets_def Let_def split: option.splits)
  let ?t = "remdups (ids @ filter (\<lambda>i. i > 0) (runtimeServerIDs (w_service w)) @
      filter (\<lambda>i. i > 0) (ListOpenObjectIDs (w_db w) ObjectTypeServer))"
  have w': "w' = w\<lparr>w_queue := markServersDirty ?t (markServersDirty affected (w_queue w))\<rparr>"
    using assms(2) ids by (simp add: finish_control_def enqueueTargets_def Let_def)
  note q = markServersDirty_pending [OF assms(1), of affected]
  from markServersDirty_pending [of "markServersDirty affected (w_queue w)" ?t] q show ?thesis
    unfolding w' by (auto simp: ListOpenObjectIDs_def)
qed

definition tracked :: "service \<Rightarrow> AlertEvent \<Rightarrow> bool" where
  "tracked s ev \<longleftrightarrow> (case map_of (loadRuntimeState s (Event_ObjectID ev))
       (ruleStateKey (Event_RuleID ev) (Event_RuleGeneration ev)) of
     Some st \<Rightarrow> Phase st = RuntimePhaseFiring \<and> EventID st = Event_ID ev | None \<Rightarrow> False)"

lemma restore_tracks:
  assumes "events_ok db" "ev \<in> set (events db)" "is_open ev" "Event_ObjectType ev = ObjectTypeServer" "0 < Event_ObjectID ev"
  shows "tracked (restoreOpenRuntime s db) ev"
proof -
  let ?k = "ruleStateKey (Event_RuleID ev) (Event_RuleGeneration ev)"
  let ?f = "find (event_at (Event_ObjectID ev) ?k) (filter is_open (events db))"
  have at: "event_at (Event_ObjectID ev) ?k ev" using assms(4,5) by (simp add: event_at_def)
  then have "?f \<noteq> None" using assms(2,3) unfolding find_None_iff by auto
  then obtain x where x: "?f = Some x" by blast
  have "x \<in> set (filter is_open (events db))" "event_at (Event_ObjectID ev) ?k x" using find_SomeD [OF x] by simp_all
  moreover have "inj_on event_key (set (filter is_open (events db)))" using assms(1) by (simp add: events_ok_def distinct_map)
  moreover have "ev \<in> set (filter is_open (events db))" using assms(2,3) by simp
  ultimately have "x = ev" using event_at_key [OF _ at] inj_onD by metis
  then show ?thesis
    unfolding tracked_def restoreOpenRuntime_at [OF assms(1)] x
    by (auto simp: restored_def event_state_def split: option.split)
qed

text \<open>
  C23. A full reconciliation that reports success repairs the service. Every event still open was open
  before and belongs to no invalid rule generation; an open event of a server belongs to a server
  that is not deleted, is tracked by a firing state of the runtime under its rule generation, and its
  server is queued for evaluation.
\<close>

theorem full_reconcile_repairs:
  assumes "full_reconcile e compiled clock w = (None, w')" and "events_ok (w_db w)" and "queue_ok (w_queue w)"
  shows "events_ok (w_db w') \<and> queue_ok (w_queue w') \<and>
    (\<forall>ev \<in> set (events (w_db w')). is_open ev \<longrightarrow>
       ev \<in> set (events (w_db w)) \<and>
       (\<forall>item \<in> set (Invalid compiled). \<not> of_generation (InvalidRule_RuleID item) (InvalidRule_Generation item) ev) \<and>
       (Event_ObjectType ev = ObjectTypeServer \<and> 0 < Event_ObjectID ev \<longrightarrow>
          Event_ObjectID ev \<notin> set (deleted_servers (w_db w')) \<and> tracked (w_service w') ev \<and>
          Event_ObjectID ev \<in> pending_ids (abs_queue (w_queue w'))))"
proof -
  obtain a d1 b s d2 where
    1: "closeInvalid (event_fails e) clock (Invalid compiled) (w_db w) = (Some a, d1)" and
    2: "closeDeletedServers (event_fails e) (w_service w) d1 clock = (Some b, s, d2)" and
    3: "finish_control e (remdups (a @ b)) True (w\<lparr>w_db := d2, w_service := restoreOpenRuntime s d2\<rparr>) = (None, w')"
    using assms(1) by (auto simp: full_reconcile_def split: prod.splits option.splits)
  note inv = closeInvalid_closes [OF assms(2) 1]
  have ok1: "events_ok d1" using inv assms(2) by (simp add: only_closes_def)
  note del = closeDeletedServers_closes [OF ok1 2]
  have ok2: "events_ok d2" using del ok1 by (simp add: only_closes_def)
  note fin = finish_control_marks [OF _ 3, simplified, OF assms(3)]
  have w': "w_db w' = d2" "w_service w' = restoreOpenRuntime s d2" using fin by simp_all
  have sub: "ev \<in> set (events d1)" if "ev \<in> set (events d2)" "is_open ev" for ev
    using that del by (simp add: only_closes_def)
  have sub2: "ev \<in> set (events (w_db w))" if "ev \<in> set (events d1)" "is_open ev" for ev
    using that inv by (simp add: only_closes_def)
  show ?thesis
    unfolding w' using ok2 fin sub sub2 inv del restore_tracks [OF ok2] by (intro conjI ballI impI) blast+
qed

text \<open>
  Rebuilding the runtime at start-up recovers exactly the open events: a server has a state for a
  key exactly when an open event of that rule generation exists for it, the state is the one
  recorded with that event, and the rebuilt states of every server are sound for the event table.\<close>

theorem rebuild_recovers:
  assumes "rebuildRuntimeFromOpenEvents fails s db clock = Some (s', db')" and "events_ok db"
  shows "(\<forall>i k. map_of (loadRuntimeState s' i) k =
            map_option event_state (find (event_at i k) (filter is_open (events db')))) \<and>
         (\<forall>i. sound i db' (loadRuntimeState s' i))"
proof -
  obtain ids s1 where 1: "closeDeletedServers fails s db clock = (Some ids, s1, db')"
      "s' = s1\<lparr>runtime := runtimeStatesFromOpenEvents (ListOpenEvents db')\<rparr>"
    using assms(1) by (auto simp: rebuildRuntimeFromOpenEvents_def split: prod.splits option.splits)
  have ok: "events_ok db'" using closeDeletedServers_closes [OF assms(2) 1(1)] assms(2) by (simp add: only_closes_def)
  have at: "map_of (loadRuntimeState s' i) k = map_option event_state (find (event_at i k) (filter is_open (events db')))" for i k
    by (simp add: 1(2) open_events_at [OF ok])
  have "backed db' i k (event_state e)" if "find (event_at i k) (filter is_open (events db')) = Some e" for i k e
    using find_SomeD [OF that] by (auto simp: backed_def event_at_def event_state_def event_key_def intro!: bexI [of _ e])
  then have "all_backed db' i (loadRuntimeState s' i)" for i unfolding all_backed_def at by auto
  moreover have "distinct (map fst (loadRuntimeState s' i))" for i
    using runtimeStates_keys [of "[]" "ListOpenEvents db'" i]
    by (simp add: 1(2) runtimeStatesFromOpenEvents_def states_of_def)
  ultimately show ?thesis using at ok by (simp add: sound_def)
qed

subsection \<open>A worked example\<close>

definition example_tracking :: RuntimeState where
  "example_tracking = zero_RuntimeState\<lparr>Phase := RuntimePhaseFiring, State_RuleID := 7, State_Generation := 2, EventID := 1\<rparr>"

definition example_service :: service where
  "example_service = \<lparr>runtime = [(3, [(''7:2'', example_tracking)])], openAfter = zero_time\<rparr>"

theorem saveRuntimeState_merges_witness:
  "map_of (loadRuntimeState (saveRuntimeState example_service 3 [(''7:2'', example_tracking)] []) 3) ''7:2'' = None \<and>
   map_of (loadRuntimeState (saveRuntimeState example_service 3 [] []) 3) ''7:2'' = Some example_tracking"
proof -
  have "all_numeric [(''7:2'', example_tracking)]" "all_numeric (loadRuntimeState example_service 3)" "all_numeric []"
    by (simp_all add: all_numeric_def example_service_def states_of_def numeric_def example_tracking_def zero_RuntimeState_def)
  from saveRuntimeState_merges [OF _ _ this(1,2), of "[]" 3 "''7:2''"] saveRuntimeState_merges [OF _ _ this(3,2), of "[]" 3 "''7:2''"]
  show ?thesis by (simp add: example_service_def states_of_def)
qed

definition example_env :: env where
  "example_env = \<lparr>close_targets = (\<lambda>_. Some []), open_targets = (\<lambda>_. None), open_message = (\<lambda>_. (''t'', ''m'')),
     close_fails = (\<lambda>_. False), open_fails = (\<lambda>_. True), touch_fails = (\<lambda>_. False),
     cache_fails = False, refreshed_at = 0, node_fails = False, current_node = (\<lambda>_. None), mounts_fail = False\<rparr>"

lemma example_key_72: "ruleStateKey 7 2 = ''7:2''"
  by code_simp

lemma example_event_key: "event_key (open_event example_open 1) = (7, 2, ObjectTypeServer, 3)"
  by (simp add: open_params_key_def example_open_def)

theorem processServer_sound_witness:
  "\<exists>db' s' cached'. processServer example_env example_service example_opened None 3 None 100 100 = (Some (Inr (db', s')), cached') \<and>
     later example_opened db'"
proof -
  have e: "open_event example_open 1 \<in> set (events example_opened)" by (simp add: example_opened_def)
  have "backed example_opened 3 ''7:2'' example_tracking"
    unfolding backed_def example_key_72 [symmetric] using e example_event_key
    by - (rule impI, rule bexI [of _ "open_event example_open 1"], rule exI [of _ 7], rule exI [of _ 2],
      simp_all add: example_tracking_def)
  then have "\<forall>j. sound j example_opened (loadRuntimeState example_service j)"
    using example_opened_ok by (simp add: sound_def all_backed_def example_service_def states_of_def)
  moreover have "distinct (map AlertRule_ID (rules example_opened))" "\<forall>r \<in> set (rules example_opened). 0 < AlertRule_ID r"
    by (simp_all add: example_opened_def example_alerts_def example_stored_def example_rule_def)
  ultimately obtain res cached' where r: "processServer example_env example_service example_opened None 3 None 100 100 = (Some res, cached')"
    and c: "case res of Inl (f, db') \<Rightarrow> db' = example_opened \<and> (f = RulesUnavailable \<and> None = (None :: CompiledRules option) \<and> cache_fails example_env \<or>
        f = NodeUnavailable \<and> None = (None :: NodeView option) \<and> node_fails example_env \<or> f = MountsUnavailable \<and> mounts_fail example_env)
      | Inr (db', s') \<Rightarrow> (\<forall>j. sound j db' (loadRuntimeState s' j)) \<and> later example_opened db'"
    using processServer_sound [of None example_opened example_service example_env 3 None 100 100] by blast
  from c show ?thesis unfolding r by (cases res) (auto simp: example_env_def)
qed

theorem closeGeneration_closes_witness:
  "\<exists>db'. closeGeneration (\<lambda>_. False) example_opened 7 2 ''rule_updated'' 300 = (Some [3], db') \<and>
     filter is_open (events db') = []"
proof -
  obtain affected db' where c: "closeGeneration (\<lambda>_. False) example_opened 7 2 ''rule_updated'' 300 = (affected, db')"
    by (cases "closeGeneration (\<lambda>_. False) example_opened 7 2 ''rule_updated'' 300")
  from closeGeneration_closes [OF example_opened_ok c] c example_event_key show ?thesis
    by (auto simp: ListOpenEventsByRule_def affected_servers_def example_opened_def event_key_def of_generation_def update_where_def)
qed

definition example_world :: world where
  "example_world = \<lparr>w_service = example_service\<lparr>runtime := []\<rparr>, w_db = example_opened, w_queue = newDirtyQueue, w_cache = None\<rparr>"

definition example_control :: control_env where
  "example_control = \<lparr>rules_fail = False, event_fails = (\<lambda>_. False), node_ids = Some []\<rparr>"

lemma example_closes_nothing: "closeDeletedServers f s example_opened clock = (Some [], s, example_opened)"
  by (simp add: closeDeletedServers_def ListOpenEventsForDeletedServers_def example_opened_def example_alerts_def)

theorem full_reconcile_repairs_witness:
  "\<exists>w'. full_reconcile example_control example_compiled 300 example_world = (None, w') \<and>
     tracked (w_service w') (open_event example_open 1) \<and> 3 \<in> pending_ids (abs_queue (w_queue w'))"
proof -
  have "\<exists>w'. full_reconcile example_control example_compiled 300 example_world = (None, w') \<and> w_db w' = example_opened"
    by (simp add: full_reconcile_def example_control_def example_compiled_def example_world_def example_closes_nothing
        finish_control_def enqueueTargets_def Let_def)
  then obtain w' where w': "full_reconcile example_control example_compiled 300 example_world = (None, w')" "w_db w' = example_opened"
    by blast
  have "events_ok (w_db example_world)" "queue_ok (w_queue example_world)"
    using example_opened_ok dq.new_ok by (simp_all add: example_world_def)
  from full_reconcile_repairs [OF w'(1) this] w' example_event_key show ?thesis
    by (auto simp: example_opened_def event_key_def)
qed

theorem rebuild_recovers_witness:
  "\<exists>s' db'. rebuildRuntimeFromOpenEvents (\<lambda>_. False) example_service example_opened 300 = Some (s', db') \<and>
     map_of (loadRuntimeState s' 3) ''7:2'' = Some (event_state (open_event example_open 1))"
proof -
  obtain s' where r: "rebuildRuntimeFromOpenEvents (\<lambda>_. False) example_service example_opened 300 = Some (s', example_opened)"
    by (simp add: rebuildRuntimeFromOpenEvents_def example_closes_nothing)
  have "event_at 3 ''7:2'' (open_event example_open 1)"
    unfolding event_at_def example_key_72 [symmetric] using example_event_key by (simp add: event_key_def)
  with rebuild_recovers [OF r example_opened_ok] r show ?thesis
    by (intro exI conjI) (auto simp: example_opened_def)
qed

end
