(* ===== verification/Traffic_Cycle.thy ===== *)
theory Traffic_Cycle
  imports Go_Time
begin

text \<open>
  Billing cycles: \<open>internal/store/traffic/traffic_cycle.go\<close>, with the cycle modes of \<open>settings.go\<close>.
  A rule computes the cycle that contains an instant from a list of boundaries around it; the three
  modes differ in how the boundaries are produced (the first of each month, a day clamped to the month's
  length, or repeated \<open>AddDate\<close> from an anchor date, which is what WHMCS does).

  The loop that moves the anchor towards the reference date is bounded by nothing but the calendar; it is
  a \<open>partial_function (option)\<close>, and that it ends is proved for every location whose offsets are
  bounded (\<open>zone_bounded\<close>).
\<close>

subsection \<open>Modes and errors\<close>

definition CycleCalendarMonth :: string where "CycleCalendarMonth = ''calendar_month''"
definition CycleWHMCS :: string where "CycleWHMCS = ''whmcs_compatible''"
definition CycleClampMonthEnd :: string where "CycleClampMonthEnd = ''clamp_to_month_end''"

lemmas cycle_modes = CycleCalendarMonth_def CycleWHMCS_def CycleClampMonthEnd_def

datatype cycle_error =
    LocationIsNil
  | InvalidCycleMode string
  | InvalidStartDay int
  | CalendarNeedsDayOne
  | ClampHasAnchor
  | InvalidAnchorDate string
  | AnchorDayMismatch
  | NoCycleContains time
  | NoBoundaryBefore time
  | LoopDoesNotEnd

text \<open>\<open>NormalizeCycleMode\<close> returns its argument; \<open>None\<close> is the result \<open>false\<close>.\<close>

definition NormalizeCycleMode :: "string \<Rightarrow> string option" where
  "NormalizeCycleMode mode =
     (if mode = CycleCalendarMonth then Some CycleCalendarMonth
      else if mode = CycleWHMCS then Some CycleWHMCS
      else if mode = CycleClampMonthEnd then Some CycleClampMonthEnd else None)"

definition trafficBucketSize :: duration where "trafficBucketSize = 5 * minute_ns"
definition trafficMaxMonthlyMonths :: nat where "trafficMaxMonthlyMonths = 24"

definition trafficBucketStart :: "time \<Rightarrow> time" where
  "trafficBucketStart t = time_truncate t trafficBucketSize"

subsection \<open>Anchor dates\<close>

definition local_midnight :: "location \<Rightarrow> time \<Rightarrow> time" where
  "local_midnight loc t = (case time_date loc t of (y, m, d) \<Rightarrow> midnight loc y m d)"

definition parseTrafficAnchorDate :: "string \<Rightarrow> location option \<Rightarrow> time option" where
  "parseTrafficAnchorDate raw l =
     (let raw = trim_space raw
      in case l of
           None \<Rightarrow> None
         | Some loc \<Rightarrow>
            if raw = [] then None
            else case parse_date_only loc raw of
                   Some t \<Rightarrow> Some (local_midnight loc t)
                 | None \<Rightarrow> map_option (local_midnight loc) (parse_rfc3339 raw))"

definition formatTrafficAnchorDate :: "location \<Rightarrow> time \<Rightarrow> string" where
  "formatTrafficAnchorDate loc t = (if t = zero_time then [] else format_date_only loc t)"

subsection \<open>Rules\<close>

record cycleRule =
  rule_mode :: string
  rule_day :: int
  rule_anchor :: string
  rule_loc :: location

record TrafficCycle =
  Cycle_Mode :: string
  Cycle_BillingStartDay :: int
  Cycle_BillingAnchorDate :: string
  Cycle_Timezone :: string
  Cycle_Start :: time
  Cycle_End :: time

definition newCycleRule :: "string \<Rightarrow> int \<Rightarrow> string \<Rightarrow> location option \<Rightarrow> cycle_error + cycleRule" where
  "newCycleRule mode day anchorDate l =
     (case l of
        None \<Rightarrow> Inl LocationIsNil
      | Some loc \<Rightarrow>
         (case NormalizeCycleMode mode of
            None \<Rightarrow> Inl (InvalidCycleMode mode)
          | Some normalized \<Rightarrow>
             if day < 1 \<or> day > 31 then Inl (InvalidStartDay day)
             else let anchor = trim_space anchorDate;
                      rule = (\<lambda>anchor. \<lparr>rule_mode = normalized, rule_day = day, rule_anchor = anchor, rule_loc = loc\<rparr>)
                  in if normalized = CycleCalendarMonth then
                       (if day \<noteq> 1 \<or> anchor \<noteq> [] then Inl CalendarNeedsDayOne else Inr (rule anchor))
                     else if normalized = CycleClampMonthEnd then
                       (if anchor \<noteq> [] then Inl ClampHasAnchor else Inr (rule anchor))
                     else (case parseTrafficAnchorDate anchor (Some loc) of
                             None \<Rightarrow> Inl (InvalidAnchorDate anchorDate)
                           | Some anchorTime \<Rightarrow>
                              if day \<noteq> time_day loc anchorTime then Inl AnchorDayMismatch
                              else Inr (rule (formatTrafficAnchorDate loc anchorTime)))))"

subsection \<open>Boundaries\<close>

definition daysInMonth :: "int \<Rightarrow> int \<Rightarrow> int" where
  "daysInMonth year month = time_day UTC (midnight UTC year (month + 1) 0)"

definition trafficBoundaryInMonth :: "string \<Rightarrow> int \<Rightarrow> int \<Rightarrow> int \<Rightarrow> location \<Rightarrow> cycle_error + time" where
  "trafficBoundaryInMonth mode day year month loc =
     (if mode = CycleCalendarMonth then Inr (midnight loc year month 1)
      else if mode = CycleClampMonthEnd then Inr (midnight loc year month (min day (daysInMonth year month)))
      else if mode = CycleWHMCS then Inr (midnight loc year month day)
      else Inl (InvalidCycleMode mode))"

fun collect_boundaries :: "(int \<Rightarrow> cycle_error + time) \<Rightarrow> int list \<Rightarrow> cycle_error + time list" where
  "collect_boundaries f [] = Inr []"
| "collect_boundaries f (i # is) =
     (case f i of
        Inl e \<Rightarrow> Inl e
      | Inr b \<Rightarrow> (case collect_boundaries f is of Inl e \<Rightarrow> Inl e | Inr bs \<Rightarrow> Inr (b # bs)))"

definition trafficBoundariesAround :: "string \<Rightarrow> int \<Rightarrow> location \<Rightarrow> time \<Rightarrow> cycle_error + time list" where
  "trafficBoundariesAround mode day loc ref =
     (let startYear = time_year loc ref - 2
      in case collect_boundaries
                (\<lambda>i. trafficBoundaryInMonth mode day (startYear + i div 12) (i mod 12 + 1) loc) [0..59] of
           Inl e \<Rightarrow> Inl e
         | Inr bounds \<Rightarrow> Inr (remdups_adj (sort bounds)))"

definition next_month :: "location \<Rightarrow> time \<Rightarrow> time" where
  "next_month loc anchor = add_date loc anchor 0 1 0"

partial_function (option) advance_anchor :: "location \<Rightarrow> time \<Rightarrow> time \<Rightarrow> time option" where
  "advance_anchor loc limit anchor =
     (if anchor < limit then advance_anchor loc limit (next_month loc anchor) else Some anchor)"

fun collect_months :: "nat \<Rightarrow> location \<Rightarrow> time \<Rightarrow> time \<Rightarrow> time list" where
  "collect_months 0 loc limit anchor = []"
| "collect_months (Suc n) loc limit anchor =
     anchor # (if limit < anchor then [] else collect_months n loc limit (next_month loc anchor))"

definition whmcsBoundariesFromAnchor :: "location \<Rightarrow> time \<Rightarrow> time \<Rightarrow> time list option" where
  "whmcsBoundariesFromAnchor loc anchor ref =
     map_option (collect_months 72 loc (add_date loc ref 0 2 0))
       (advance_anchor loc (add_date loc ref 0 (- 2) 0) anchor)"

fun month_steps :: "nat \<Rightarrow> location \<Rightarrow> time \<Rightarrow> time list" where
  "month_steps 0 loc anchor = []"
| "month_steps (Suc n) loc anchor = anchor # month_steps n loc (next_month loc anchor)"

definition whmcsBoundariesAround :: "int \<Rightarrow> string \<Rightarrow> location \<Rightarrow> time \<Rightarrow> cycle_error + time list" where
  "whmcsBoundariesAround day anchorDate loc ref =
     (case parseTrafficAnchorDate anchorDate (Some loc) of
        None \<Rightarrow> Inl (InvalidAnchorDate anchorDate)
      | Some anchor \<Rightarrow>
         if \<not> ref < anchor then
           (case whmcsBoundariesFromAnchor loc anchor ref of None \<Rightarrow> Inl LoopDoesNotEnd | Some bs \<Rightarrow> Inr bs)
         else Inr (month_steps 30 loc (midnight loc (time_year loc ref - 1) 12 day)))"

definition cycleBoundariesAround :: "cycleRule \<Rightarrow> time \<Rightarrow> cycle_error + time list" where
  "cycleBoundariesAround r ref =
     (if rule_mode r = CycleCalendarMonth \<or> rule_mode r = CycleClampMonthEnd
      then trafficBoundariesAround (rule_mode r) (rule_day r) (rule_loc r) ref
      else if rule_mode r = CycleWHMCS
      then whmcsBoundariesAround (rule_day r) (rule_anchor r) (rule_loc r) ref
      else Inl (InvalidCycleMode (rule_mode r)))"

fun trafficBoundsFrom :: "time list \<Rightarrow> time \<Rightarrow> cycle_error + time \<times> time" where
  "trafficBoundsFrom (a # b # bs) ref =
     (if \<not> ref < a \<and> ref < b then Inr (a, b) else trafficBoundsFrom (b # bs) ref)"
| "trafficBoundsFrom _ ref = Inl (NoCycleContains ref)"

text \<open>\<open>prev\<close> is the zero time until a boundary has been passed.\<close>

fun prev_boundary :: "time \<Rightarrow> time list \<Rightarrow> time \<Rightarrow> cycle_error + time" where
  "prev_boundary prv [] current = Inl (NoBoundaryBefore current)"
| "prev_boundary prv (bound # bounds) current =
     (if \<not> bound < current then (if prv \<noteq> zero_time then Inr prv else Inl (NoBoundaryBefore current))
      else prev_boundary bound bounds current)"

definition prevBoundaryFrom :: "time list \<Rightarrow> time \<Rightarrow> cycle_error + time" where
  "prevBoundaryFrom bounds current = prev_boundary zero_time bounds current"

subsection \<open>Cycles\<close>

definition cycle_of :: "cycleRule \<Rightarrow> time \<Rightarrow> time \<Rightarrow> TrafficCycle" where
  "cycle_of r st en =
     \<lparr>Cycle_Mode = rule_mode r, Cycle_BillingStartDay = rule_day r, Cycle_BillingAnchorDate = rule_anchor r,
      Cycle_Timezone = loc_name (rule_loc r), Cycle_Start = st, Cycle_End = en\<rparr>"

definition trafficCycleBounds :: "cycleRule \<Rightarrow> time \<Rightarrow> cycle_error + time \<times> time" where
  "trafficCycleBounds r ref =
     (case cycleBoundariesAround r ref of Inl e \<Rightarrow> Inl e | Inr bounds \<Rightarrow> trafficBoundsFrom bounds ref)"

definition rule_at :: "cycleRule \<Rightarrow> time \<Rightarrow> cycle_error + TrafficCycle" where
  "rule_at r ref =
     (case trafficCycleBounds r ref of Inl e \<Rightarrow> Inl e | Inr (st, en) \<Rightarrow> Inr (cycle_of r st en))"

definition prevTrafficBoundary :: "cycleRule \<Rightarrow> time \<Rightarrow> cycle_error + time" where
  "prevTrafficBoundary r current =
     (case cycleBoundariesAround r current of Inl e \<Rightarrow> Inl e | Inr bounds \<Rightarrow> prevBoundaryFrom bounds current)"

definition rule_previous :: "cycleRule \<Rightarrow> TrafficCycle \<Rightarrow> cycle_error + TrafficCycle" where
  "rule_previous r cycle =
     (case prevTrafficBoundary r (Cycle_Start cycle) of
        Inl e \<Rightarrow> Inl e | Inr prv \<Rightarrow> Inr (cycle_of r prv (Cycle_Start cycle)))"

fun closed_from :: "nat \<Rightarrow> cycleRule \<Rightarrow> time \<Rightarrow> TrafficCycle \<Rightarrow> cycle_error + TrafficCycle list" where
  "closed_from 0 r since cycle = Inr []"
| "closed_from (Suc n) r since cycle =
     (if \<not> since < Cycle_End cycle then Inr []
      else case rule_previous r cycle of
             Inl e \<Rightarrow> Inl e
           | Inr prv \<Rightarrow>
              (case closed_from n r since prv of Inl e \<Rightarrow> Inl e | Inr cs \<Rightarrow> Inr (cycle # cs)))"

definition rule_closed :: "cycleRule \<Rightarrow> time \<Rightarrow> time \<Rightarrow> cycle_error + TrafficCycle list" where
  "rule_closed r ref since =
     (case rule_at r ref of
        Inl e \<Rightarrow> Inl e
      | Inr current \<Rightarrow>
         (case rule_previous r current of
            Inl e \<Rightarrow> Inl e
          | Inr cycle \<Rightarrow> closed_from trafficMaxMonthlyMonths r since cycle))"

subsection \<open>Boundary grids\<close>

text \<open>
  What makes cycles well defined: the boundaries listed around an instant are a stretch of one fixed
  increasing sequence \<open>B\<close> (defined on the valid indices) that reaches from before the instant to after
  it, and further back than the instant itself where the sequence does. Then every instant lies in exactly
  one cycle, the same whichever instant of the cycle is asked, and the previous cycle ends where it starts.
\<close>

locale boundary_grid =
  fixes bounds :: "time \<Rightarrow> cycle_error + time list" and B :: "int \<Rightarrow> time" and valid :: "int \<Rightarrow> bool" and covers :: "time \<Rightarrow> bool"
  assumes increasing: "valid k \<Longrightarrow> valid (k + 1) \<and> B k < B (k + 1)"
    and stretch: "covers ref \<Longrightarrow> \<exists>lo hi. valid lo \<and> lo < hi \<and> bounds ref = Inr (map B [lo..hi]) \<and> B lo \<le> ref \<and> ref < B hi \<and>
        (\<forall>k. valid k \<and> B (k + 1) = ref \<longrightarrow> lo \<le> k)"
begin

lemma valid_add: "valid k \<Longrightarrow> valid (k + int n)"
proof (induction n)
  case (Suc n)
  have "k + int (Suc n) = k + int n + 1" by simp
  with Suc increasing show ?case by metis
qed simp

lemma valid_above: "valid j \<Longrightarrow> j \<le> k \<Longrightarrow> valid k"
  using valid_add [of j "nat (k - j)"] by simp

lemma B_add: "valid k \<Longrightarrow> B k + int n \<le> B (k + int n)"
proof (induction n)
  case (Suc n)
  have e: "k + int (Suc n) = k + int n + 1" by simp
  have "B (k + int n) < B (k + int n + 1)" using increasing valid_add [OF Suc.prems] by blast
  with Suc show ?case unfolding e by simp
qed simp

lemma B_less: "valid j \<Longrightarrow> j < k \<Longrightarrow> B j < B k"
  using B_add [of j "nat (k - j)"] by simp

lemma B_le: "valid j \<Longrightarrow> j \<le> k \<Longrightarrow> B j \<le> B k"
  using B_add [of j "nat (k - j)"] by simp

lemma cycle_unique:
  assumes "valid j" "valid k" "B j \<le> t" "t < B (j + 1)" "B k \<le> t" "t < B (k + 1)"
  shows "j = k"
proof (rule antisym; rule ccontr)
  assume "\<not> j \<le> k"
  then have "B (k + 1) \<le> B j" using increasing [OF assms(2)] by (intro B_le) simp_all
  with assms show False by simp
next
  assume "\<not> k \<le> j"
  then have "B (j + 1) \<le> B k" using increasing [OF assms(1)] by (intro B_le) simp_all
  with assms show False by simp
qed

lemma find_cycle:
  assumes "valid lo" "lo < hi" "B lo \<le> ref" "ref < B hi"
  shows "\<exists>k. valid k \<and> B k \<le> ref \<and> ref < B (k + 1) \<and> trafficBoundsFrom (map B [lo..hi]) ref = Inr (B k, B (k + 1))"
  using assms
proof (induction "nat (hi - lo)" arbitrary: lo)
  case (Suc n)
  have l: "[lo..hi] = lo # [lo + 1..hi]" "[lo + 1..hi] = (lo + 1) # [lo + 1 + 1..hi]"
    using Suc.prems(2) by (intro upto_rec1; simp)+
  show ?case
  proof (cases "ref < B (lo + 1)")
    case True
    with Suc.prems show ?thesis by (intro exI [of _ lo]) (simp add: l)
  next
    case False
    then have "lo + 1 < hi" using Suc.prems by (cases "lo + 1 = hi") simp_all
    then have "\<exists>k. valid k \<and> B k \<le> ref \<and> ref < B (k + 1) \<and> trafficBoundsFrom (map B [lo + 1..hi]) ref = Inr (B k, B (k + 1))"
      using Suc.hyps(2) Suc.prems False increasing [of lo] by (intro Suc.hyps(1)) simp_all
    then obtain k where
      k: "valid k" "B k \<le> ref" "ref < B (k + 1)" "trafficBoundsFrom (map B [lo + 1..hi]) ref = Inr (B k, B (k + 1))"
      by blast
    with False show ?thesis by (intro exI [of _ k]) (simp add: l)
  qed
qed simp

lemma bounds_at:
  assumes "covers ref"
  shows "\<exists>k. valid k \<and> B k \<le> ref \<and> ref < B (k + 1) \<and> (case bounds ref of Inl e \<Rightarrow> Inl e | Inr bs \<Rightarrow> trafficBoundsFrom bs ref) = Inr (B k, B (k + 1))"
proof -
  obtain lo hi where g: "valid lo" "lo < hi" "bounds ref = Inr (map B [lo..hi])" "B lo \<le> ref" "ref < B hi"
    using stretch [OF assms] by blast
  from find_cycle [OF g(1,2,4,5)] show ?thesis by (simp add: g(3))
qed

lemma prev_in_stretch:
  assumes "valid lo" "lo < k" "k \<le> hi" "prv \<noteq> 0 \<or> lo < k" "B (k - 1) \<noteq> 0"
  shows "prev_boundary prv (map B [lo..hi]) (B k) = Inr (B (k - 1))"
  using assms
proof (induction "nat (k - lo)" arbitrary: lo prv)
  case (Suc n)
  have l: "[lo..hi] = lo # [lo + 1..hi]" using Suc.prems by (simp add: upto_rec1)
  have less: "B lo < B k" using Suc.prems by (intro B_less) simp_all
  show ?case
  proof (cases "lo + 1 = k")
    case True
    have "[lo + 1..hi] = k # [k + 1..hi]" using Suc.prems True by (simp add: upto_rec1)
    moreover have "B lo \<noteq> 0" using Suc.prems(5) True by auto
    ultimately show ?thesis using less True by (simp add: l) auto
  next
    case False
    have "prev_boundary (B lo) (map B [lo + 1..hi]) (B k) = Inr (B (k - 1))"
      by (rule Suc.hyps(1)) (use Suc.hyps(2) Suc.prems False increasing in auto)
    with less show ?thesis by (simp add: l)
  qed
qed simp

lemma bounds_previous:
  assumes "covers (B (k + 1))" "valid k" "B k \<noteq> 0"
  shows "(case bounds (B (k + 1)) of Inl e \<Rightarrow> Inl e | Inr bs \<Rightarrow> prevBoundaryFrom bs (B (k + 1))) = Inr (B k)"
proof -
  obtain lo hi where g: "valid lo" "lo < hi" "bounds (B (k + 1)) = Inr (map B [lo..hi])" "B (k + 1) < B hi" "lo \<le> k"
    using stretch [OF assms(1)] assms(2) by blast
  have "valid hi" using valid_above [OF g(1)] g(2) by simp
  then have "k + 1 \<le> hi" using B_le [of hi "k + 1"] g(4) by (cases "hi \<le> k + 1") simp_all
  then show ?thesis
    using prev_in_stretch [OF g(1), of "k + 1" hi 0] g assms(3) by (simp add: prevBoundaryFrom_def)
qed

end

subsection \<open>Calendar and clamped months\<close>

lemma month_start_mono: "j \<le> k \<Longrightarrow> month_start j + 28 * (k - j) \<le> month_start k"
  using month_start_add(1) [of "nat (k - j)" j] by simp

lemma month_start_upper: "j \<le> k \<Longrightarrow> month_start k \<le> month_start j + 31 * (k - j)"
  using month_start_add(2) [of j "nat (k - j)"] by simp

lemma month_day_unique:
  assumes "month_start j + d = month_start k + e" "0 \<le> d" "d < month_start (j + 1) - month_start j"
    "0 \<le> e" "e < month_start (k + 1) - month_start k"
  shows "j = k" "d = e"
proof -
  have "\<not> j < k" using assms month_start_mono [of "j + 1" k] by auto
  moreover have "\<not> k < j" using assms month_start_mono [of "k + 1" j] by auto
  ultimately show "j = k" by simp
  with assms(1) show "d = e" by simp
qed

lemma UTC_time_date: "time_date UTC (midnight UTC y m d) = civil_of_day (month_start (12 * y + m - 1) + d - 1)"
proof -
  have "midnight UTC y m d = date_secs y m d 0 * second_ns"
    by (simp add: time_Date_def zone_adjust_def UTC_def fixed_location_def Let_def second_ns_def)
  then have "local_secs UTC (midnight UTC y m d) = date_secs y m d 0"
    by (simp add: local_secs_def offset_at_def UTC_def fixed_location_def second_ns_def)
  then show ?thesis by (simp add: time_date_def date_secs_month)
qed

lemma daysInMonth_length:
  assumes "1 \<le> month" "month \<le> 12"
  shows "daysInMonth year month = month_start (12 * year + month) - month_start (12 * year + month - 1)"
proof -
  let ?k = "12 * year + month - 1"
  obtain y m d where c: "civil_of_day (month_start (?k + 1) - 1) = (y, m, d)" by (metis prod_cases3)
  note f = civil_of_day_month [OF c]
  have "month_start (12 * y + m - 1) + (d - 1) = month_start ?k + (month_start (?k + 1) - month_start ?k - 1)"
    using f(3) by simp
  then have "d - 1 = month_start (?k + 1) - month_start ?k - 1"
    by (rule month_day_unique(2)) (use f month_length [of ?k] in simp_all)
  moreover have "daysInMonth year month = d"
    using c by (simp add: daysInMonth_def time_day_def UTC_time_date algebra_simps)
  ultimately show ?thesis by simp
qed

definition month_rule_ok :: "string \<Rightarrow> int \<Rightarrow> location \<Rightarrow> bool" where
  "month_rule_ok mode day loc \<longleftrightarrow> zone_bounded loc \<and> 1 \<le> day \<and> day \<le> 31 \<and> (mode = CycleCalendarMonth \<or> mode = CycleClampMonthEnd)"

definition month_boundary :: "string \<Rightarrow> int \<Rightarrow> location \<Rightarrow> int \<Rightarrow> time" where
  "month_boundary mode day loc k =
     (case trafficBoundaryInMonth mode day (k div 12) (k mod 12 + 1) loc of Inl _ \<Rightarrow> 0 | Inr b \<Rightarrow> b)"

text \<open>The day of the month on which the boundary of month \<open>k\<close> falls.\<close>

definition boundary_day :: "string \<Rightarrow> int \<Rightarrow> int \<Rightarrow> int" where
  "boundary_day mode day k = (if mode = CycleCalendarMonth then 1 else min day (month_start (k + 1) - month_start k))"

lemma month_boundary_eq:
  assumes "month_rule_ok mode day loc"
  shows "trafficBoundaryInMonth mode day (k div 12) (k mod 12 + 1) loc = Inr (month_boundary mode day loc k)"
    "\<bar>month_boundary mode day loc k - (month_start k + boundary_day mode day k - 1) * day_ns\<bar> \<le> zone_ns"
proof -
  have k: "12 * (k div 12) + (k mod 12 + 1) - 1 = k" "12 * (k div 12) + (k mod 12 + 1) = k + 1" by simp_all
  have m: "1 \<le> k mod 12 + 1" "k mod 12 + 1 \<le> 12" using pos_mod_bound [of 12 k] by simp_all
  have z: "zone_bounded loc" using assms by (simp add: month_rule_ok_def)
  show "trafficBoundaryInMonth mode day (k div 12) (k mod 12 + 1) loc = Inr (month_boundary mode day loc k)"
    using assms by (auto simp: month_rule_ok_def month_boundary_def trafficBoundaryInMonth_def)
  have "month_boundary mode day loc k = midnight loc (k div 12) (k mod 12 + 1) (boundary_day mode day k)"
    using assms daysInMonth_length [OF m, of "k div 12"] unfolding k
    by (auto simp: month_rule_ok_def month_boundary_def trafficBoundaryInMonth_def boundary_day_def cycle_modes)
  with midnight_bounds [OF z, of "k div 12" "k mod 12 + 1" "boundary_day mode day k"]
  show "\<bar>month_boundary mode day loc k - (month_start k + boundary_day mode day k - 1) * day_ns\<bar> \<le> zone_ns"
    unfolding k by simp
qed

lemma boundary_day_range:
  "1 \<le> day \<Longrightarrow> 1 \<le> boundary_day mode day k \<and> boundary_day mode day k \<le> month_start (k + 1) - month_start k"
  using month_length [of k] by (auto simp: boundary_day_def)

lemma boundary_days_apart:
  "1 \<le> day \<Longrightarrow> month_start k + boundary_day mode day k + 28 \<le> month_start (k + 1) + boundary_day mode day (k + 1)"
  using month_length [of k] month_length [of "k + 1"] by (auto simp: boundary_day_def min_def)

lemma zone_consts: "day_ns = 86400000000000" "zone_ns = 93600000000000"
  by (simp_all add: day_ns_def zone_ns_def second_ns_def)

lemma month_boundary_increasing:
  assumes "month_rule_ok mode day loc"
  shows "month_boundary mode day loc k < month_boundary mode day loc (k + 1)"
proof -
  have d: "1 \<le> day" using assms by (simp add: month_rule_ok_def)
  from month_boundary_eq(2) [OF assms, of k] month_boundary_eq(2) [OF assms, of "k + 1"] boundary_days_apart [OF d, of k mode]
  show ?thesis unfolding zone_consts abs_le_iff by (simp add: algebra_simps)
qed

lemma collect_boundaries_Inr:
  "(\<And>i. i \<in> set is \<Longrightarrow> f i = Inr (g i)) \<Longrightarrow> collect_boundaries f is = Inr (map g is)"
  by (induction "is") simp_all

lemma map_upto_shift: "map (\<lambda>i. g (a + i)) [x..y] = map g [a + x..a + (y::int)]"
proof (induction "nat (y + 1 - x)" arbitrary: x)
  case 0
  then show ?case by simp
next
  case (Suc n)
  then have "x \<le> y" by simp
  then have "[x..y] = x # [x + 1..y]" "[a + x..a + y] = (a + x) # [a + x + 1..a + y]" by (simp_all add: upto_rec1)
  with Suc show ?case by (simp add: add.assoc)
qed

lemma increasing_less:
  assumes "\<And>k. (B :: int \<Rightarrow> int) k < B (k + 1)" "j < k"
  shows "B j < B k"
proof -
  have "B j < B (j + 1 + int n)" for n
  proof (induction n)
    case (Suc n)
    have "j + 1 + int (Suc n) = j + 1 + int n + 1" by simp
    with Suc assms(1) [of "j + 1 + int n"] show ?case by (metis less_trans)
  qed (use assms(1) in simp)
  from this [of "nat (k - j - 1)"] assms(2) show ?thesis by simp
qed

lemma increasing_list:
  assumes "\<And>k. (B :: int \<Rightarrow> int) k < B (k + 1)"
  shows "sorted_wrt (<) (map B [x..y])"
  unfolding sorted_wrt_map by (rule sorted_wrt_mono_rel [OF increasing_less [of B, OF assms] sorted_wrt_upto])

lemma sorted_dedup: "sorted_wrt (<) (xs :: int list) \<Longrightarrow> remdups_adj (sort xs) = xs"
  by (simp add: strict_sorted_iff sorted_sort_id remdups_adj_distinct)

lemma year_bounds:
  assumes "zone_bounded loc"
  shows "month_start (12 * time_year loc t) * day_ns - zone_ns \<le> t"
    "t < month_start (12 * time_year loc t + 12) * day_ns + zone_ns"
proof -
  obtain y m d where c: "time_date loc t = (y, m, d)" by (metis prod_cases3)
  note f = civil_of_day_month [OF c [unfolded time_date_def]] and b = time_date_bounds [OF assms c]
  have "month_start (12 * y) \<le> month_start (12 * y + m - 1) + d - 1"
    using f month_start_mono [of "12 * y" "12 * y + m - 1"] by simp
  moreover have "month_start (12 * y + m - 1) + d \<le> month_start (12 * y + 12)"
    using f month_start_mono [of "12 * y + m" "12 * y + 12"] by simp
  ultimately show "month_start (12 * time_year loc t) * day_ns - zone_ns \<le> t"
    "t < month_start (12 * time_year loc t + 12) * day_ns + zone_ns"
    using b c unfolding time_year_def zone_consts by simp_all
qed

lemma month_stretch:
  assumes "month_rule_ok mode day loc"
  shows "\<exists>lo hi. lo < hi \<and> trafficBoundariesAround mode day loc ref = Inr (map (month_boundary mode day loc) [lo..hi]) \<and>
    month_boundary mode day loc lo \<le> ref \<and> ref < month_boundary mode day loc hi \<and>
    (\<forall>k. month_boundary mode day loc (k + 1) = ref \<longrightarrow> lo \<le> k)"
proof -
  let ?B = "month_boundary mode day loc" and ?y = "time_year loc ref"
  let ?lo = "12 * (?y - 2)"
  have z: "zone_bounded loc" and d: "1 \<le> day" using assms by (simp_all add: month_rule_ok_def)
  have i: "(?lo + i) div 12 = ?y - 2 + i div 12" "(?lo + i) mod 12 = i mod 12" for i
    using div_mult_self4 [of 12 "?y - 2" i] mod_mult_self4 [of 12 "?y - 2" i] by simp_all
  have "collect_boundaries (\<lambda>i. trafficBoundaryInMonth mode day (?y - 2 + i div 12) (i mod 12 + 1) loc) [0..59] =
      Inr (map (\<lambda>i. ?B (?lo + i)) [0..59])"
    by (rule collect_boundaries_Inr) (use month_boundary_eq(1) [OF assms, of "?lo + _"] in \<open>simp only: i\<close>)
  also have "map (\<lambda>i. ?B (?lo + i)) [0..59] = map ?B [?lo..?lo + 59]"
    using map_upto_shift [of ?B ?lo 0 59] by simp
  finally have bs: "trafficBoundariesAround mode day loc ref = Inr (map ?B [?lo..?lo + 59])"
    unfolding trafficBoundariesAround_def Let_def
    using sorted_dedup [OF increasing_list [of ?B, OF month_boundary_increasing [OF assms]]] by simp
  have far: "?B (?lo + 1) < ref" "ref < ?B (?lo + 59)"
    using year_bounds [OF z, of ref] month_boundary_eq(2) [OF assms, of "?lo + 1"] month_boundary_eq(2) [OF assms, of "?lo + 59"]
      boundary_day_range [OF d, of mode "?lo + 1"] boundary_day_range [OF d, of mode "?lo + 59"]
      month_start_mono [of "?lo + 2" "12 * ?y"] month_start_mono [of "12 * ?y + 12" "?lo + 59"]
    unfolding zone_consts abs_le_iff by (simp_all add: algebra_simps)
  have inc: "?B k < ?B (k + 1)" for k by (rule month_boundary_increasing [OF assms])
  have "?lo \<le> k" if "?B (k + 1) = ref" for k
  proof (rule ccontr)
    assume "\<not> ?lo \<le> k"
    then have "?B (k + 1) < ?B (?lo + 1)" using increasing_less [of ?B, OF inc] by simp
    with far(1) that show False by simp
  qed
  with bs far inc [of ?lo] show ?thesis by (intro exI [of _ ?lo] exI [of _ "?lo + 59"]) auto
qed

interpretation month_grid: boundary_grid "trafficBoundariesAround mode day loc" "month_boundary mode day loc"
  "\<lambda>_. month_rule_ok mode day loc" "\<lambda>_. month_rule_ok mode day loc" for mode day loc
  by unfold_locales (use month_boundary_increasing month_stretch in auto)

subsection \<open>Months counted from an anchor\<close>

lemma months_apart:
  assumes "zone_bounded loc" "0 \<le> n"
  shows "t + 28 * n * day_ns - 2 * zone_ns \<le> add_date loc t 0 n 0" "add_date loc t 0 n 0 \<le> t + 31 * n * day_ns + 2 * zone_ns"
    "add_date loc t 0 (- n) 0 \<le> t - 28 * n * day_ns + 2 * zone_ns" "t - 31 * n * day_ns - 2 * zone_ns \<le> add_date loc t 0 (- n) 0"
proof -
  obtain y m d where c: "time_date loc t = (y, m, d)" by (metis prod_cases3)
  let ?k = "12 * y + m - 1"
  have "28 * n \<le> month_start (?k + n) - month_start ?k" "month_start (?k + n) - month_start ?k \<le> 31 * n"
    "28 * n \<le> month_start ?k - month_start (?k + - n)" "month_start ?k - month_start (?k + - n) \<le> 31 * n"
    using month_start_mono [of ?k "?k + n"] month_start_upper [of ?k "?k + n"]
      month_start_mono [of "?k + - n" ?k] month_start_upper [of "?k + - n" ?k] assms(2) by simp_all
  with add_months_bounds [OF assms(1) c, of n] add_months_bounds [OF assms(1) c, of "- n"]
  show "t + 28 * n * day_ns - 2 * zone_ns \<le> add_date loc t 0 n 0" "add_date loc t 0 n 0 \<le> t + 31 * n * day_ns + 2 * zone_ns"
    "add_date loc t 0 (- n) 0 \<le> t - 28 * n * day_ns + 2 * zone_ns" "t - 31 * n * day_ns - 2 * zone_ns \<le> add_date loc t 0 (- n) 0"
    unfolding zone_consts abs_le_iff by (simp_all add: algebra_simps)
qed

lemma next_month_apart:
  assumes "zone_bounded loc"
  shows "t + 25 * day_ns \<le> next_month loc t" "next_month loc t \<le> t + 34 * day_ns"
  using months_apart(1,2) [OF assms, of 1 t] unfolding next_month_def zone_consts by simp_all

definition anchor_month :: "location \<Rightarrow> time \<Rightarrow> int \<Rightarrow> time" where
  "anchor_month loc anchor k = (next_month loc ^^ nat k) anchor"

lemma anchor_month_0 [simp]: "anchor_month loc anchor 0 = anchor"
  by (simp add: anchor_month_def)

lemma anchor_month_Suc: "0 \<le> k \<Longrightarrow> anchor_month loc anchor (k + 1) = next_month loc (anchor_month loc anchor k)"
  by (simp add: anchor_month_def nat_add_distrib)

lemma anchor_month_shift: "0 \<le> k \<Longrightarrow> anchor_month loc (next_month loc anchor) k = anchor_month loc anchor (k + 1)"
  by (simp add: anchor_month_def nat_add_distrib funpow_swap1)

text \<open>The loop towards the reference date ends, just past its limit.\<close>

lemma advance_anchor_ends:
  assumes "zone_bounded loc"
  shows "\<exists>n \<ge> 0. advance_anchor loc limit anchor = Some (anchor_month loc anchor n) \<and> limit \<le> anchor_month loc anchor n \<and>
    (n = 0 \<or> anchor_month loc anchor n < limit + 34 * day_ns)"
proof (induction "nat (limit - anchor)" arbitrary: anchor rule: less_induct)
  case less
  note apart = next_month_apart [OF assms, of anchor]
  show ?case
  proof (cases "anchor < limit")
    case True
    have "nat (limit - next_month loc anchor) < nat (limit - anchor)" using apart(1) True unfolding zone_consts by simp
    from less [OF this] obtain n where m: "0 \<le> n" "advance_anchor loc limit (next_month loc anchor) = Some (anchor_month loc (next_month loc anchor) n)"
      "limit \<le> anchor_month loc (next_month loc anchor) n" "n = 0 \<or> anchor_month loc (next_month loc anchor) n < limit + 34 * day_ns"
      by blast
    note n = m [unfolded anchor_month_shift [OF m(1)]]
    moreover have "anchor_month loc anchor (n + 1) < limit + 34 * day_ns" if "n = 0"
      using that apart(2) True anchor_month_Suc [of 0 loc anchor] by simp
    moreover have "advance_anchor loc limit anchor = advance_anchor loc limit (next_month loc anchor)"
      using True by (simp add: advance_anchor.simps [of loc limit anchor])
    ultimately show ?thesis by (intro exI [of _ "n + 1"]) auto
  next
    case False
    then show ?thesis by (intro exI [of _ 0]) (simp add: advance_anchor.simps [of loc limit anchor])
  qed
qed

lemma collect_months_Cons: "0 < n \<Longrightarrow> \<exists>bs. collect_months n loc limit anchor = anchor # bs"
  by (cases n) auto

lemma collect_months_reach:
  assumes "zone_bounded loc" "limit - anchor < 25 * day_ns * int n"
  shows "\<exists>m \<ge> 0. collect_months (Suc n) loc limit anchor = map (anchor_month loc anchor) [0..m] \<and> limit < anchor_month loc anchor m"
  using assms(2)
proof (induction n arbitrary: anchor)
  case 0
  then show ?case by (intro exI [of _ 0]) simp
next
  case (Suc n)
  show ?case
  proof (cases "limit < anchor")
    case True
    then show ?thesis by (intro exI [of _ 0]) simp
  next
    case False
    have "limit - next_month loc anchor < 25 * day_ns * int n"
      using Suc.prems next_month_apart(1) [OF assms(1), of anchor] unfolding zone_consts by simp
    from Suc.IH [OF this] obtain m where m: "0 \<le> m"
        "collect_months (Suc n) loc limit (next_month loc anchor) = map (anchor_month loc (next_month loc anchor)) [0..m]"
        "limit < anchor_month loc (next_month loc anchor) m" by blast
    have "map (anchor_month loc (next_month loc anchor)) [0..m] = map (\<lambda>i. anchor_month loc anchor (1 + i)) [0..m]"
      by (simp add: anchor_month_shift add.commute)
    also have "\<dots> = map (anchor_month loc anchor) [1..1 + m]" using map_upto_shift [of "anchor_month loc anchor" 1 0 m] by simp
    finally have "map (anchor_month loc anchor) [0..m + 1] = anchor # map (anchor_month loc (next_month loc anchor)) [0..m]"
      using m(1) upto_rec1 [of 0 "m + 1"] by (simp add: add.commute)
    with m False show ?thesis by (intro exI [of _ "m + 1"]) (simp add: anchor_month_shift)
  qed
qed

definition anchored :: "location \<Rightarrow> time \<Rightarrow> int \<Rightarrow> bool" where
  "anchored loc anchor k \<longleftrightarrow> zone_bounded loc \<and> 0 \<le> k"

definition from_anchor :: "location \<Rightarrow> time \<Rightarrow> time \<Rightarrow> cycle_error + time list" where
  "from_anchor loc anchor ref =
     (case whmcsBoundariesFromAnchor loc anchor ref of None \<Rightarrow> Inl LoopDoesNotEnd | Some bs \<Rightarrow> Inr bs)"

lemma anchored_increasing:
  assumes "anchored loc anchor k"
  shows "anchor_month loc anchor k + 25 * day_ns \<le> anchor_month loc anchor (k + 1)"
  using assms next_month_apart(1) [of loc "anchor_month loc anchor k"] by (simp add: anchored_def anchor_month_Suc)

lemma anchored_less:
  assumes "zone_bounded loc" "0 \<le> j" "j < k"
  shows "anchor_month loc anchor j < anchor_month loc anchor k"
proof -
  have step: "anchor_month loc anchor i < anchor_month loc anchor (i + 1)" if "0 \<le> i" for i
    using anchored_increasing [of loc anchor i] that assms(1) unfolding zone_consts by (simp add: anchored_def)
  have "anchor_month loc anchor j < anchor_month loc anchor (j + 1 + int n)" for n
  proof (induction n)
    case (Suc n)
    have "j + 1 + int (Suc n) = j + 1 + int n + 1" by simp
    with Suc step [of "j + 1 + int n"] assms(2) show ?case by (metis less_trans add_nonneg_nonneg of_nat_0_le_iff zero_le_one)
  qed (use step assms(2) in simp)
  from this [of "nat (k - j - 1)"] assms(3) show ?thesis by simp
qed

lemma anchor_month_add: "0 \<le> j \<Longrightarrow> 0 \<le> k \<Longrightarrow> anchor_month loc (anchor_month loc anchor j) k = anchor_month loc anchor (j + k)"
proof -
  assume "0 \<le> j" "0 \<le> k"
  then have "nat (j + k) = nat k + nat j" by simp
  then show ?thesis by (simp add: anchor_month_def funpow_add)
qed

lemma anchor_stretch:
  assumes "zone_bounded loc" "anchor \<le> ref"
  shows "\<exists>lo hi. 0 \<le> lo \<and> lo < hi \<and> from_anchor loc anchor ref = Inr (map (anchor_month loc anchor) [lo..hi]) \<and>
    anchor_month loc anchor lo \<le> ref \<and> ref < anchor_month loc anchor hi \<and>
    (\<forall>k. 0 \<le> k \<and> anchor_month loc anchor (k + 1) = ref \<longrightarrow> lo \<le> k)"
proof -
  let ?B = "anchor_month loc anchor" and ?l = "add_date loc ref 0 (- 2) 0" and ?u = "add_date loc ref 0 2 0"
  note far = months_apart [OF assms(1), of 2 ref, unfolded zone_consts, simplified]
  obtain n where n: "0 \<le> n" "advance_anchor loc ?l anchor = Some (?B n)" "?l \<le> ?B n" "n = 0 \<or> ?B n < ?l + 34 * day_ns"
    using advance_anchor_ends [OF assms(1)] by blast
  have "?u - ?B n < 25 * day_ns * int 71" using n(3) far unfolding zone_consts by simp
  from collect_months_reach [OF assms(1) this] obtain m where
    m': "0 \<le> m" "collect_months (Suc 71) loc ?u (?B n) = map (anchor_month loc (?B n)) [0..m]" "?u < anchor_month loc (?B n) m"
    by blast
  have "(72::nat) = Suc 71" by simp
  with m' anchor_month_add [OF n(1) m'(1)] have
    m: "0 \<le> m" "collect_months 72 loc ?u (?B n) = map (anchor_month loc (?B n)) [0..m]" "?u < ?B (n + m)"
    by (simp_all only:)
  have "map (anchor_month loc (?B n)) [0..m] = map (\<lambda>i. ?B (n + i)) [0..m]" using n(1) by (simp add: anchor_month_add)
  then have bs: "from_anchor loc anchor ref = Inr (map ?B [n..n + m])"
    using map_upto_shift [of ?B n 0 m] by (simp add: from_anchor_def whmcsBoundariesFromAnchor_def n(2) m(2))
  have low: "?B n \<le> ref" using n(4) assms(2) far unfolding zone_consts by auto
  have high: "ref < ?B (n + m)" using m(3) far by simp
  then have "m \<noteq> 0" using low by auto
  moreover have "n \<le> k" if "0 \<le> k" "?B (k + 1) = ref" for k
  proof (rule ccontr)
    assume c: "\<not> n \<le> k"
    then have "?B n < ref" using n(4) far that(1) unfolding zone_consts by auto
    moreover have "?B (k + 1) \<le> ?B n" using anchored_less [OF assms(1), of "k + 1" n anchor] that c by (cases "k + 1 = n") auto
    ultimately show False using that by simp
  qed
  ultimately show ?thesis using bs low high m(1) n(1) by (intro exI [of _ n] exI [of _ "n + m"]) auto
qed

interpretation anchor_grid: boundary_grid "from_anchor loc anchor" "anchor_month loc anchor" "anchored loc anchor"
  "\<lambda>ref. zone_bounded loc \<and> anchor \<le> ref" for loc anchor
proof unfold_locales
  fix k assume "anchored loc anchor k"
  with anchored_increasing [OF this] show "anchored loc anchor (k + 1) \<and> anchor_month loc anchor k < anchor_month loc anchor (k + 1)"
    unfolding zone_consts by (simp add: anchored_def)
next
  fix ref assume "zone_bounded loc \<and> anchor \<le> ref"
  with anchor_stretch show "\<exists>lo hi. anchored loc anchor lo \<and> lo < hi \<and> from_anchor loc anchor ref = Inr (map (anchor_month loc anchor) [lo..hi]) \<and>
      anchor_month loc anchor lo \<le> ref \<and> ref < anchor_month loc anchor hi \<and>
      (\<forall>k. anchored loc anchor k \<and> anchor_month loc anchor (k + 1) = ref \<longrightarrow> lo \<le> k)"
    unfolding anchored_def by blast
qed

subsection \<open>Cycles on a grid\<close>

locale cycle_grid = boundary_grid bounds B valid covers
  for bounds :: "time \<Rightarrow> cycle_error + time list" and B :: "int \<Rightarrow> time" and valid :: "int \<Rightarrow> bool" and covers :: "time \<Rightarrow> bool" +
  fixes r :: cycleRule
  assumes rule_bounds: "covers ref \<Longrightarrow> cycleBoundariesAround r ref = bounds ref"
    and covers_from: "valid k \<Longrightarrow> B k \<le> t \<Longrightarrow> covers t"
begin

lemma at_index:
  assumes "covers ref"
  obtains k where "valid k" "B k \<le> ref" "ref < B (k + 1)" "rule_at r ref = Inr (cycle_of r (B k) (B (k + 1)))"
proof -
  obtain k where k: "valid k" "B k \<le> ref" "ref < B (k + 1)"
      "(case bounds ref of Inl e \<Rightarrow> Inl e | Inr bs \<Rightarrow> trafficBoundsFrom bs ref) = Inr (B k, B (k + 1))"
    using bounds_at [OF assms] by blast
  with that [of k] rule_bounds [OF assms] show thesis by (simp add: rule_at_def trafficCycleBounds_def)
qed

lemma at_cycle:
  assumes "valid k" "B k \<le> t" "t < B (k + 1)"
  shows "rule_at r t = Inr (cycle_of r (B k) (B (k + 1)))"
proof -
  obtain j where j: "valid j" "B j \<le> t" "t < B (j + 1)" "rule_at r t = Inr (cycle_of r (B j) (B (j + 1)))"
    using at_index [OF covers_from [OF assms(1,2)]] .
  with cycle_unique [OF j(1) assms(1) j(2,3) assms(2,3)] show ?thesis by simp
qed

lemma previous_cycle:
  assumes "valid k" "B k \<noteq> 0"
  shows "rule_previous r (cycle_of r (B (k + 1)) e) = Inr (cycle_of r (B k) (B (k + 1)))"
proof -
  have c: "covers (B (k + 1))" using covers_from [OF assms(1)] increasing [OF assms(1)] by simp
  from bounds_previous [OF c assms] show ?thesis
    by (simp add: rule_previous_def prevTrafficBoundary_def rule_bounds [OF c] cycle_of_def)
qed

lemma partition:
  assumes "covers ref"
  shows "\<exists>c. rule_at r ref = Inr c \<and> Cycle_Start c \<le> ref \<and> ref < Cycle_End c \<and>
    (\<forall>t. Cycle_Start c \<le> t \<and> t < Cycle_End c \<longrightarrow> rule_at r t = Inr c) \<and>
    (\<exists>next. rule_at r (Cycle_End c) = Inr next \<and> Cycle_Start next = Cycle_End c \<and>
        (Cycle_Start c \<noteq> 0 \<longrightarrow> rule_previous r next = Inr c))"
proof -
  obtain k where k: "valid k" "B k \<le> ref" "ref < B (k + 1)" "rule_at r ref = Inr (cycle_of r (B k) (B (k + 1)))"
    using at_index [OF assms] .
  note k1 = increasing [OF k(1)]
  have "rule_at r (B (k + 1)) = Inr (cycle_of r (B (k + 1)) (B (k + 1 + 1)))"
    using increasing [of "k + 1"] k1 by (intro at_cycle) simp_all
  moreover have "rule_previous r (cycle_of r (B (k + 1)) (B (k + 1 + 1))) = Inr (cycle_of r (B k) (B (k + 1)))" if "B k \<noteq> 0"
    using previous_cycle [OF k(1) that] .
  ultimately show ?thesis
    using k at_cycle [OF k(1)] by (intro exI [of _ "cycle_of r (B k) (B (k + 1))"]) (auto simp: cycle_of_def)
qed

end

interpretation month_cycles: cycle_grid
  "trafficBoundariesAround (rule_mode r) (rule_day r) (rule_loc r)" "month_boundary (rule_mode r) (rule_day r) (rule_loc r)"
  "\<lambda>_. month_rule_ok (rule_mode r) (rule_day r) (rule_loc r)" "\<lambda>_. month_rule_ok (rule_mode r) (rule_day r) (rule_loc r)" r for r
  by unfold_locales (auto simp: cycleBoundariesAround_def month_rule_ok_def)

text \<open>A rule that counts from \<open>anchor\<close>, from that date on.\<close>

definition whmcs_rule :: "cycleRule \<Rightarrow> time \<Rightarrow> bool" where
  "whmcs_rule r anchor \<longleftrightarrow> rule_mode r = CycleWHMCS \<and> parseTrafficAnchorDate (rule_anchor r) (Some (rule_loc r)) = Some anchor \<and>
     zone_bounded (rule_loc r)"

interpretation anchor_cycles: cycle_grid
  "from_anchor (rule_loc r) anchor" "anchor_month (rule_loc r) anchor" "\<lambda>k. whmcs_rule r anchor \<and> 0 \<le> k"
  "\<lambda>ref. whmcs_rule r anchor \<and> anchor \<le> ref" r for r anchor
proof unfold_locales
  fix k :: int assume "whmcs_rule r anchor \<and> 0 \<le> k"
  then show "(whmcs_rule r anchor \<and> 0 \<le> k + 1) \<and> anchor_month (rule_loc r) anchor k < anchor_month (rule_loc r) anchor (k + 1)"
    using anchor_grid.increasing [of "rule_loc r" anchor k] by (simp add: whmcs_rule_def anchored_def)
next
  fix ref assume "whmcs_rule r anchor \<and> anchor \<le> ref"
  then show "\<exists>lo hi. (whmcs_rule r anchor \<and> 0 \<le> lo) \<and> lo < hi \<and>
      from_anchor (rule_loc r) anchor ref = Inr (map (anchor_month (rule_loc r) anchor) [lo..hi]) \<and>
      anchor_month (rule_loc r) anchor lo \<le> ref \<and> ref < anchor_month (rule_loc r) anchor hi \<and>
      (\<forall>k. (whmcs_rule r anchor \<and> 0 \<le> k) \<and> anchor_month (rule_loc r) anchor (k + 1) = ref \<longrightarrow> lo \<le> k)"
    using anchor_stretch [of "rule_loc r" anchor ref] unfolding whmcs_rule_def by blast
next
  fix ref assume "whmcs_rule r anchor \<and> anchor \<le> ref"
  then show "cycleBoundariesAround r ref = from_anchor (rule_loc r) anchor ref"
    by (simp add: whmcs_rule_def cycleBoundariesAround_def whmcsBoundariesAround_def from_anchor_def cycle_modes)
next
  fix k t :: int assume k: "whmcs_rule r anchor \<and> 0 \<le> k" and t: "anchor_month (rule_loc r) anchor k \<le> t"
  have "anchor \<le> anchor_month (rule_loc r) anchor k"
    using anchored_less [of "rule_loc r" 0 k anchor] k by (cases "k = 0") (auto simp: whmcs_rule_def)
  with k t show "whmcs_rule r anchor \<and> anchor \<le> t" by simp
qed

text \<open>The instants for which a rule's cycles are defined by a grid.\<close>

definition rule_covers :: "cycleRule \<Rightarrow> time \<Rightarrow> bool" where
  "rule_covers r ref \<longleftrightarrow> month_rule_ok (rule_mode r) (rule_day r) (rule_loc r) \<or> (\<exists>anchor. whmcs_rule r anchor \<and> anchor \<le> ref)"

subsection \<open>Properties\<close>

text \<open>
  C24. Billing cycles partition the time that a rule covers: every instant for a calendar or clamped rule, and every
  instant from the anchor on for an anchored rule, in every location with bounded offsets. The cycle of such an instant
  exists and contains it, every other instant of the cycle has the same cycle, the next cycle starts
  where it ends, and going back from the next cycle returns to it. Before the anchor of an anchored rule this fails: there
  cycles can overlap, as \<open>future_anchor_overlaps\<close> shows below.
\<close>

theorem cycles_partition_time:
  assumes "rule_covers r ref"
  shows "\<exists>c. rule_at r ref = Inr c \<and> Cycle_Start c \<le> ref \<and> ref < Cycle_End c \<and>
    (\<forall>t. Cycle_Start c \<le> t \<and> t < Cycle_End c \<longrightarrow> rule_at r t = Inr c) \<and>
    (\<exists>next. rule_at r (Cycle_End c) = Inr next \<and> Cycle_Start next = Cycle_End c \<and>
        (Cycle_Start c \<noteq> 0 \<longrightarrow> rule_previous r next = Inr c))"
  using assms month_cycles.partition anchor_cycles.partition unfolding rule_covers_def by blast

text \<open>
  C25. The first cycle of an anchored rule has no predecessor: it starts at the anchor, asking for the
  cycle before it is an error, and so is asking for the closed cycles at any instant within it.\<close>

theorem anchored_first_cycle:
  assumes "whmcs_rule r anchor"
  shows "\<exists>c. rule_at r anchor = Inr c \<and> Cycle_Start c = anchor \<and> rule_previous r c = Inl (NoBoundaryBefore anchor) \<and>
    (\<forall>ref since. anchor \<le> ref \<and> ref < Cycle_End c \<longrightarrow> rule_closed r ref since = Inl (NoBoundaryBefore anchor))"
proof -
  let ?B = "anchor_month (rule_loc r) anchor" and ?c = "cycle_of r anchor (anchor_month (rule_loc r) anchor 1)"
  have z: "zone_bounded (rule_loc r)" using assms by (simp add: whmcs_rule_def)
  have at: "rule_at r ref = Inr ?c" if "anchor \<le> ref" "ref < ?B 1" for ref
    using anchor_cycles.at_cycle [of r anchor 0 ref] assms that by simp
  have less: "anchor < ?B 1" using anchored_less [OF z, of 0 1 anchor] by simp
  have "\<not> anchor < add_date (rule_loc r) anchor 0 (- 2) 0" using months_apart(3) [OF z, of 2 anchor] unfolding zone_consts by simp
  then have "advance_anchor (rule_loc r) (add_date (rule_loc r) anchor 0 (- 2) 0) anchor = Some anchor"
    by (simp add: advance_anchor.simps)
  moreover obtain bs where "collect_months 72 (rule_loc r) (add_date (rule_loc r) anchor 0 2 0) anchor = anchor # bs"
    using collect_months_Cons [of 72 "rule_loc r" "add_date (rule_loc r) anchor 0 2 0" anchor] by auto
  ultimately have "from_anchor (rule_loc r) anchor anchor = Inr (anchor # bs)"
    by (simp add: from_anchor_def whmcsBoundariesFromAnchor_def)
  then have "rule_previous r ?c = Inl (NoBoundaryBefore anchor)"
    using anchor_cycles.rule_bounds [of r anchor anchor] assms
    by (simp add: rule_previous_def prevTrafficBoundary_def prevBoundaryFrom_def cycle_of_def)
  with at less show ?thesis
    by (intro exI [of _ ?c]) (auto simp: rule_closed_def cycle_of_def)
qed

text \<open>A location in which every day has a midnight, as those with a fixed offset do.\<close>

definition has_midnights :: "location \<Rightarrow> bool" where
  "has_midnights loc \<longleftrightarrow> (\<forall>t. time_date loc (local_midnight loc t) = time_date loc t)"

lemma modes_distinct [simp]:
  "CycleCalendarMonth \<noteq> CycleWHMCS" "CycleClampMonthEnd \<noteq> CycleWHMCS" "CycleClampMonthEnd \<noteq> CycleCalendarMonth"
  "CycleWHMCS \<noteq> CycleCalendarMonth" "CycleWHMCS \<noteq> CycleClampMonthEnd" "CycleCalendarMonth \<noteq> CycleClampMonthEnd"
  by (simp_all add: cycle_modes)

lemma newCycleRule_cases:
  assumes "newCycleRule mode day anchorDate (Some loc) = Inr r"
  obtains (month) "mode = CycleCalendarMonth \<and> day = 1 \<or> mode = CycleClampMonthEnd" "1 \<le> day" "day \<le> 31"
      "r = \<lparr>rule_mode = mode, rule_day = day, rule_anchor = [], rule_loc = loc\<rparr>"
    | (anchor) t where "parseTrafficAnchorDate (trim_space anchorDate) (Some loc) = Some t" "1 \<le> day" "day \<le> 31" "day = time_day loc t"
      "r = \<lparr>rule_mode = CycleWHMCS, rule_day = day, rule_anchor = formatTrafficAnchorDate loc t, rule_loc = loc\<rparr>"
  using assms by (auto simp: newCycleRule_def NormalizeCycleMode_def Let_def split: option.splits if_splits)

text \<open>
  A rule is stable under storing and reading back: building a rule from the mode, the day and
  the anchor date of an accepted rule gives the same rule again. For anchored rules this needs a location
  with midnights and an anchor within the years a date is printed with four digits.\<close>

theorem newCycleRule_roundtrip:
  assumes "newCycleRule mode day anchorDate (Some loc) = Inr r" and "has_midnights loc"
    and "\<forall>t. parseTrafficAnchorDate anchorDate (Some loc) = Some t \<longrightarrow> t \<noteq> 0 \<and> 0 \<le> time_year loc t \<and> time_year loc t < 10000"
  shows "newCycleRule (rule_mode r) (rule_day r) (rule_anchor r) (Some (rule_loc r)) = Inr r"
  using assms(1)
proof (cases rule: newCycleRule_cases)
  case month
  then show ?thesis by (auto simp: newCycleRule_def NormalizeCycleMode_def)
next
  case (anchor t)
  note t = this
  then have "parseTrafficAnchorDate anchorDate (Some loc) = Some t" by (simp add: parseTrafficAnchorDate_def)
  with assms(3) have y: "t \<noteq> 0" "0 \<le> time_year loc t" "time_year loc t < 10000" by blast+
  obtain t0 where t0: "t = local_midnight loc t0"
    using t(1) by (auto simp: parseTrafficAnchorDate_def Let_def split: option.splits if_splits)
  obtain y m d where c: "time_date loc t = (y, m, d)" by (metis prod_cases3)
  then have c0: "time_date loc t0 = (y, m, d)" using assms(2) by (simp add: has_midnights_def t0)
  have ym: "0 \<le> y" "y < 10000" using y c by (simp_all add: time_year_def)
  let ?s = "formatTrafficAnchorDate loc t"
  have s: "?s = format_date_only loc t" using y(1) by (simp add: formatTrafficAnchorDate_def)
  have "parse_date_only loc ?s = Some t" unfolding s using parse_format_date [OF c ym] c0 by (simp add: t0 local_midnight_def)
  moreover have "trim_space ?s = ?s" unfolding s by (rule trim_space_visible [OF format_date_visible [OF c ym]])
  moreover have "?s \<noteq> []" by (simp add: s format_date_only_def c)
  moreover have "local_midnight loc t = t" using c c0 by (simp add: local_midnight_def t0)
  ultimately have "parseTrafficAnchorDate ?s (Some loc) = Some t" by (simp add: parseTrafficAnchorDate_def)
  with t \<open>trim_space ?s = ?s\<close> show ?thesis
    by (simp add: newCycleRule_def NormalizeCycleMode_def Let_def)
qed

subsection \<open>A worked example\<close>

lemma fixed_midnights: "has_midnights (fixed_location name off)"
proof -
  let ?l = "fixed_location name off"
  have "local_secs ?l (midnight ?l y m d) = date_secs y m d 0" for y m d
    by (simp add: time_Date_def zone_adjust_def fixed_location_def local_secs_def offset_at_def Let_def second_ns_def)
  moreover have "month_start (12 * y + m - 1) + d - 1 = n" if "civil_of_day n = (y, m, d)" for y m d n
    using civil_of_day_month(3) [OF that] by simp
  ultimately show ?thesis
    by (auto simp: has_midnights_def local_midnight_def time_date_def date_secs_month split: prod.split)
qed

lemma UTC_bounded: "zone_bounded UTC"
  by (simp add: zone_bounded_def UTC_def fixed_location_def offset_at_def)

definition example_clamp :: cycleRule where
  "example_clamp = \<lparr>rule_mode = CycleClampMonthEnd, rule_day = 31, rule_anchor = [], rule_loc = UTC\<rparr>"

theorem cycles_partition_time_witness:
  "\<exists>c. rule_at example_clamp 5 = Inr c \<and> Cycle_Start c \<le> 5 \<and> 5 < Cycle_End c"
proof -
  have "rule_covers example_clamp 5"
    by (simp add: rule_covers_def month_rule_ok_def example_clamp_def UTC_bounded)
  from cycles_partition_time [OF this] show ?thesis by blast
qed

definition example_whmcs :: cycleRule where
  "example_whmcs = \<lparr>rule_mode = CycleWHMCS, rule_day = 31, rule_anchor = ''2026-01-31'', rule_loc = UTC\<rparr>"

lemma example_anchor: "parseTrafficAnchorDate ''2026-01-31'' (Some UTC) = Some 63905414400000000000"
  by code_simp

theorem anchored_first_cycle_witness:
  "\<exists>c. rule_at example_whmcs 63905414400000000000 = Inr c \<and> rule_previous example_whmcs c = Inl (NoBoundaryBefore 63905414400000000000)"
proof -
  have "whmcs_rule example_whmcs 63905414400000000000"
    by (simp add: whmcs_rule_def example_whmcs_def example_anchor UTC_bounded)
  from anchored_first_cycle [OF this] show ?thesis by blast
qed

theorem newCycleRule_roundtrip_witness:
  "newCycleRule CycleWHMCS 31 '' 2026-01-31 '' (Some UTC) = Inr example_whmcs \<and>
   newCycleRule (rule_mode example_whmcs) (rule_day example_whmcs) (rule_anchor example_whmcs) (Some (rule_loc example_whmcs)) = Inr example_whmcs"
proof -
  have p: "parseTrafficAnchorDate '' 2026-01-31 '' (Some UTC) = Some 63905414400000000000" by code_simp
  have f: "time_day UTC 63905414400000000000 = 31" "formatTrafficAnchorDate UTC 63905414400000000000 = ''2026-01-31''"
    "time_year UTC 63905414400000000000 = 2026" by code_simp+
  have t: "trim_space '' 2026-01-31 '' = ''2026-01-31''" by code_simp
  have n: "newCycleRule CycleWHMCS 31 '' 2026-01-31 '' (Some UTC) = Inr example_whmcs"
    by (simp add: newCycleRule_def NormalizeCycleMode_def cycle_modes t example_anchor f example_whmcs_def Let_def)
  have m: "has_midnights UTC" unfolding UTC_def by (rule fixed_midnights)
  from newCycleRule_roundtrip [OF n m] p f n show ?thesis by simp
qed

text \<open>
  Before its anchor date an anchored rule counts from December of the year before the instant asked, so
  its cycles depend on the instant: with day 31, the cycle of the last day of 2024 ends on 2 January 2025,
  and yet the cycle of 1 January 2025 is another one, which overlaps it.
\<close>

definition example_future :: cycleRule where
  "example_future = \<lparr>rule_mode = CycleWHMCS, rule_day = 31, rule_anchor = ''2030-01-31'', rule_loc = UTC\<rparr>"

lemma future_bounds:
  "ref < midnight UTC 2030 1 31 \<Longrightarrow> cycleBoundariesAround example_future ref = Inr (month_steps 30 UTC (midnight UTC (time_year UTC ref - 1) 12 31))"
proof -
  have "parseTrafficAnchorDate ''2030-01-31'' (Some UTC) = Some (midnight UTC 2030 1 31)" by code_simp
  then show "ref < midnight UTC 2030 1 31 \<Longrightarrow> ?thesis"
    by (simp add: cycleBoundariesAround_def whmcsBoundariesAround_def example_future_def)
qed

lemma future_anchor_overlaps:
  "rule_at example_future (midnight UTC 2024 12 31) = Inr (cycle_of example_future (midnight UTC 2024 12 2) (midnight UTC 2025 1 2))"
  "rule_at example_future (midnight UTC 2025 1 1) = Inr (cycle_of example_future (midnight UTC 2024 12 31) (midnight UTC 2025 1 31))"
proof -
  have t: "midnight UTC 2024 12 31 < midnight UTC 2030 1 31" "midnight UTC 2025 1 1 < midnight UTC 2030 1 31" by code_simp+
  have y: "time_year UTC (midnight UTC 2024 12 31) = 2024" "time_year UTC (midnight UTC 2025 1 1) = 2025" by code_simp+
  have "trafficBoundsFrom (month_steps 30 UTC (midnight UTC 2023 12 31)) (midnight UTC 2024 12 31) =
      Inr (midnight UTC 2024 12 2, midnight UTC 2025 1 2)"
    "trafficBoundsFrom (month_steps 30 UTC (midnight UTC 2024 12 31)) (midnight UTC 2025 1 1) =
      Inr (midnight UTC 2024 12 31, midnight UTC 2025 1 31)" by code_simp+
  with t y show "rule_at example_future (midnight UTC 2024 12 31) = Inr (cycle_of example_future (midnight UTC 2024 12 2) (midnight UTC 2025 1 2))"
    "rule_at example_future (midnight UTC 2025 1 1) = Inr (cycle_of example_future (midnight UTC 2024 12 31) (midnight UTC 2025 1 31))"
    by (simp_all add: rule_at_def trafficCycleBounds_def future_bounds)
qed

end
