(* ===== verification/Traffic_Samples.thy ===== *)
theory Traffic_Samples
  imports Traffic_Cycle Go_Float "HOL-Library.Char_ord" "HOL-Library.List_Lexorder" "HOL-Library.Product_Lexorder"
begin

text \<open>
  The five-minute billing facts: \<open>internal/store/traffic/traffic_ingest.go\<close>, with the helpers of
  \<open>traffic.go\<close> it shares. Two successive counter samples of an interface give a number of bytes that is
  spread over the buckets between them in proportion to time; buckets with a gap, a counter reset or
  too little coverage are kept but give no rate.

  The counters are \<open>int64\<close>; the spreading is done in \<open>float64\<close>. The theorems show that spreading loses
  and invents nothing: the parts are never negative, they add up to the difference of the counters, and
  cutting the time line into windows does not change what a stretch of time is charged.
\<close>

subsection \<open>Data\<close>

lemmas i64_defs = is_i64_def max_i64_def min_i64_def

definition trafficMinCoveredSec :: f64 where "trafficMinCoveredSec = Fin 270"
definition trafficMaxBillingGap :: duration where "trafficMaxBillingGap = trafficBucketSize"

record trafficNICRow =
  Nic_ServerID :: int
  Nic_Iface :: string
  Nic_CollectedAt :: time
  Nic_BytesRecv :: int
  Nic_BytesSent :: int

record Traffic5m =
  T5_ServerID :: int
  T5_Iface :: string
  T5_Bucket :: time
  T5_InBytes :: int
  T5_OutBytes :: int
  T5_CoveredSec :: f64
  T5_InRate :: f64
  T5_OutRate :: f64
  T5_InPeak :: f64
  T5_OutPeak :: f64
  T5_SampleCount :: int
  T5_GapCount :: int
  T5_ResetCount :: int

record traffic5mAccumulator =
  acc_row :: Traffic5m
  validSec :: f64
  validIn :: int
  validOut :: int
  acc_invalid :: bool

type_synonym traffic5mKey = "int \<times> string \<times> time"
type_synonym buckets5m = "(traffic5mKey, traffic5mAccumulator) gomap"

record trafficSample =
  Sample_ServerID :: int
  Sample_Iface :: string
  Sample_Bucket :: time
  Sample_InBytes :: int
  Sample_OutBytes :: int
  Sample_Seconds :: f64
  Sample_InRate :: f64
  Sample_OutRate :: f64
  Sample_Gap :: int
  Sample_Valid :: bool

subsection \<open>Spreading a difference of counters over time\<close>

text \<open>\<open>addTrafficBytes\<close>: the sum, or the old value and \<open>False\<close> if an operand is negative or the sum overflows.\<close>

definition addTrafficBytes :: "int \<Rightarrow> int \<Rightarrow> int \<times> bool" where
  "addTrafficBytes current delta =
     (if current < 0 \<or> delta < 0 \<or> current > max_i64 - delta then (current, False) else (current + delta, True))"

definition seconds_between :: "time \<Rightarrow> time \<Rightarrow> f64" where
  "seconds_between a b = duration_seconds (time_sub b a)"

definition trafficBytesAt :: "int \<Rightarrow> f64 \<Rightarrow> f64 \<Rightarrow> int" where
  "trafficBytesAt tot elapsed duration =
     (if tot \<le> 0 \<or> f64_le elapsed f0 \<or> f64_le duration f0 then 0
      else if f64_le duration elapsed then tot
      else let value = f64_round (f64_div (f64_mul (f64_of_int tot) elapsed) duration)
           in if f64_le value f0 then 0
              else if f64_le (f64_of_int tot) value then tot else f64_to_int value)"

record segment =
  seg_bucket :: time
  seg_start :: time
  seg_end :: time
  seg_seconds :: f64

definition segment_end :: "time \<Rightarrow> time \<Rightarrow> time" where
  "segment_end en cursor = min (trafficBucketStart cursor + trafficBucketSize) en"

lemma bucket_size_pos [simp]: "0 < trafficBucketSize" "0 \<le> trafficBucketSize" "\<not> trafficBucketSize \<le> 0"
  by (simp_all add: trafficBucketSize_def minute_ns_def)

lemma bucket_div: "trafficBucketStart t = t div trafficBucketSize * trafficBucketSize"
  by (simp add: trafficBucketStart_def time_truncate_def minus_mod_eq_div_mult)

lemma bucket_bounds: "trafficBucketStart t \<le> t" "t < trafficBucketStart t + trafficBucketSize"
proof -
  have "0 \<le> t mod trafficBucketSize" "t mod trafficBucketSize < trafficBucketSize" by simp_all
  then show "trafficBucketStart t \<le> t" "t < trafficBucketStart t + trafficBucketSize"
    by (simp_all add: trafficBucketStart_def time_truncate_def)
qed

function segments :: "time \<Rightarrow> time \<Rightarrow> segment list" where
  "segments en cursor =
     (if cursor < en then
        (let segEnd = segment_end en cursor; covered = seconds_between cursor segEnd
         in if f64_lt f0 covered
            then \<lparr>seg_bucket = trafficBucketStart cursor, seg_start = cursor, seg_end = segEnd, seg_seconds = covered\<rparr> # segments en segEnd
            else segments en segEnd)
      else [])"
  by pat_completeness auto

termination
  by (relation "measure (\<lambda>(en, cursor). nat (en - cursor))") (use bucket_bounds in \<open>auto simp: segment_end_def\<close>)

declare segments.simps [simp del]

definition sample_of ::
    "int \<Rightarrow> string \<Rightarrow> time \<Rightarrow> time \<Rightarrow> int \<Rightarrow> int \<Rightarrow> segment \<Rightarrow> trafficSample" where
  "sample_of serverID iface pairStart pairEnd inDelta outDelta seg =
     (let seconds = seconds_between pairStart pairEnd;
          gap = f64_lt (duration_seconds trafficMaxBillingGap) seconds;
          segStart = seconds_between pairStart (seg_start seg); segEnd = seconds_between pairStart (seg_end seg)
      in \<lparr>Sample_ServerID = serverID, Sample_Iface = iface, Sample_Bucket = seg_bucket seg,
          Sample_InBytes = trafficBytesAt inDelta segEnd seconds - trafficBytesAt inDelta segStart seconds,
          Sample_OutBytes = trafficBytesAt outDelta segEnd seconds - trafficBytesAt outDelta segStart seconds,
          Sample_Seconds = seg_seconds seg,
          Sample_InRate = (if gap then f0 else f64_div (f64_of_int inDelta) seconds),
          Sample_OutRate = (if gap then f0 else f64_div (f64_of_int outDelta) seconds),
          Sample_Gap = (if gap \<and> seg_start seg = pairStart then 1 else 0), Sample_Valid = (\<not> gap)\<rparr>)"

definition splitTrafficSamplesWindow ::
    "int \<Rightarrow> string \<Rightarrow> time \<Rightarrow> time \<Rightarrow> time \<Rightarrow> time \<Rightarrow> int \<Rightarrow> int \<Rightarrow> trafficSample list" where
  "splitTrafficSamplesWindow serverID iface pairStart pairEnd windowStart windowEnd inDelta outDelta =
     (if \<not> pairStart < pairEnd \<or> \<not> windowStart < pairEnd \<or> \<not> pairStart < windowEnd then []
      else if f64_le (seconds_between pairStart pairEnd) f0 then []
      else let st = max pairStart windowStart; en = min pairEnd windowEnd
           in if \<not> st < en then []
              else map (sample_of serverID iface pairStart pairEnd inDelta outDelta) (segments en st))"

subsection \<open>Buckets\<close>

definition zero_Traffic5m :: Traffic5m where
  "zero_Traffic5m = \<lparr>T5_ServerID = 0, T5_Iface = [], T5_Bucket = 0, T5_InBytes = 0, T5_OutBytes = 0, T5_CoveredSec = f0,
     T5_InRate = f0, T5_OutRate = f0, T5_InPeak = f0, T5_OutPeak = f0, T5_SampleCount = 0, T5_GapCount = 0, T5_ResetCount = 0\<rparr>"

definition traffic5mAccumulatorFor :: "buckets5m \<Rightarrow> int \<Rightarrow> string \<Rightarrow> time \<Rightarrow> traffic5mAccumulator" where
  "traffic5mAccumulatorFor bs serverID iface bucket =
     (case map_of bs (serverID, iface, bucket) of
        Some acc \<Rightarrow> acc
      | None \<Rightarrow> \<lparr>acc_row = zero_Traffic5m\<lparr>T5_ServerID := serverID, T5_Iface := iface, T5_Bucket := bucket\<rparr>,
                 validSec = f0, validIn = 0, validOut = 0, acc_invalid = False\<rparr>)"

definition mergeTrafficSample :: "traffic5mAccumulator \<Rightarrow> trafficSample \<Rightarrow> traffic5mAccumulator" where
  "mergeTrafficSample acc sample =
     (let row = acc_row acc;
          (nextIn, inOK) = addTrafficBytes (T5_InBytes row) (Sample_InBytes sample);
          (nextOut, outOK) = addTrafficBytes (T5_OutBytes row) (Sample_OutBytes sample);
          row = row\<lparr>T5_CoveredSec := f64_add (T5_CoveredSec row) (Sample_Seconds sample)\<rparr>
      in if \<not> inOK \<or> \<not> outOK
         then acc\<lparr>acc_row := row\<lparr>T5_GapCount := wrap32 (T5_GapCount row + 1)\<rparr>, acc_invalid := True\<rparr>
         else let row = row\<lparr>T5_InBytes := nextIn, T5_OutBytes := nextOut,
                            T5_GapCount := wrap32 (T5_GapCount row + Sample_Gap sample)\<rparr>;
                  invalid = acc_invalid acc \<or> Sample_Gap sample > 0 \<or> \<not> Sample_Valid sample
              in if \<not> Sample_Valid sample then acc\<lparr>acc_row := row, acc_invalid := invalid\<rparr>
                 else acc\<lparr>acc_row := row\<lparr>T5_InPeak := f64_max (T5_InPeak row) (Sample_InRate sample),
                                         T5_OutPeak := f64_max (T5_OutPeak row) (Sample_OutRate sample)\<rparr>,
                          acc_invalid := invalid, validSec := f64_add (validSec acc) (Sample_Seconds sample),
                          validIn := wrap64 (validIn acc + Sample_InBytes sample),
                          validOut := wrap64 (validOut acc + Sample_OutBytes sample)\<rparr>)"

definition merge_into :: "trafficSample \<Rightarrow> buckets5m \<Rightarrow> buckets5m" where
  "merge_into sample bs =
     AList.update (Sample_ServerID sample, Sample_Iface sample, Sample_Bucket sample)
       (mergeTrafficSample (traffic5mAccumulatorFor bs (Sample_ServerID sample) (Sample_Iface sample) (Sample_Bucket sample)) sample) bs"

definition mergeTrafficPair :: "time \<Rightarrow> time \<Rightarrow> trafficNICRow \<Rightarrow> trafficNICRow \<Rightarrow> buckets5m \<Rightarrow> buckets5m" where
  "mergeTrafficPair st en prev current bs =
     (let inDelta = wrap64 (Nic_BytesRecv current - Nic_BytesRecv prev); outDelta = wrap64 (Nic_BytesSent current - Nic_BytesSent prev)
      in if inDelta < 0 \<or> outDelta < 0
         then (let bucket = trafficBucketStart (Nic_CollectedAt current)
               in if \<not> bucket < st \<and> bucket < en
                  then (let acc = traffic5mAccumulatorFor bs (Nic_ServerID current) (Nic_Iface current) bucket
                        in AList.update (Nic_ServerID current, Nic_Iface current, bucket)
                             (acc\<lparr>acc_row := (acc_row acc)\<lparr>T5_ResetCount := wrap32 (T5_ResetCount (acc_row acc) + 1)\<rparr>, acc_invalid := True\<rparr>) bs)
                  else bs)
         else fold merge_into
                (splitTrafficSamplesWindow (Nic_ServerID current) (Nic_Iface current) (Nic_CollectedAt prev) (Nic_CollectedAt current)
                   st en inDelta outDelta) bs)"

definition pair_step :: "time \<Rightarrow> time \<Rightarrow> trafficNICRow \<Rightarrow> trafficNICRow option \<times> buckets5m \<Rightarrow> trafficNICRow option \<times> buckets5m" where
  "pair_step st en row state =
     (case state of (prev, bs) \<Rightarrow>
        (case prev of
           None \<Rightarrow> (Some row, bs)
         | Some p \<Rightarrow>
            if Nic_ServerID p \<noteq> Nic_ServerID row \<or> Nic_Iface p \<noteq> Nic_Iface row then (Some row, bs)
            else (Some row, if Nic_CollectedAt p < Nic_CollectedAt row then mergeTrafficPair st en p row bs else bs)))"

definition finish_bucket :: "traffic5mAccumulator \<Rightarrow> Traffic5m" where
  "finish_bucket bucket =
     (let row = acc_row bucket
      in if \<not> acc_invalid bucket \<and> f64_le trafficMinCoveredSec (validSec bucket)
         then (let inRate = f64_div (f64_of_int (validIn bucket)) (validSec bucket);
                   outRate = f64_div (f64_of_int (validOut bucket)) (validSec bucket)
               in row\<lparr>T5_SampleCount := 1, T5_InRate := inRate, T5_OutRate := outRate, T5_InPeak := inRate, T5_OutPeak := outRate\<rparr>)
         else row\<lparr>T5_SampleCount := 0, T5_InRate := f0, T5_OutRate := f0, T5_InPeak := f0, T5_OutPeak := f0\<rparr>)"

definition row_order :: "Traffic5m \<Rightarrow> int \<times> string \<times> time" where
  "row_order row = (T5_ServerID row, T5_Iface row, T5_Bucket row)"

definition buildTraffic5mRows :: "trafficNICRow list \<Rightarrow> time \<Rightarrow> time \<Rightarrow> Traffic5m list" where
  "buildTraffic5mRows rows st en =
     sort_key row_order (map (\<lambda>b. finish_bucket (snd b)) (snd (fold (pair_step st en) rows (None, []))))"

subsection \<open>The spread is monotone\<close>

definition spread_value :: "int \<Rightarrow> rat \<Rightarrow> rat \<Rightarrow> f64" where
  "spread_value tot a c = f64_round (f64_div (f64_mul (f64_of_int tot) (Fin a)) (Fin c))"

definition clamp_bytes :: "int \<Rightarrow> f64 \<Rightarrow> int" where
  "clamp_bytes tot value = (if f64_le value f0 then 0 else if f64_le (f64_of_int tot) value then tot else f64_to_int value)"

lemma trafficBytesAt_cases:
  "0 < c \<Longrightarrow> trafficBytesAt tot (Fin a) (Fin c) =
     (if tot \<le> 0 \<or> a \<le> 0 then 0 else if c \<le> a then tot else clamp_bytes tot (spread_value tot a c))"
  by (simp add: trafficBytesAt_def spread_value_def clamp_bytes_def Let_def)

definition whole :: "f64 \<Rightarrow> bool" where
  "whole v \<longleftrightarrow> v = PInf \<or> (\<exists>n \<ge> 0. v = Fin (of_int n) \<and> f64_of_int n = v)"

lemma round64_cases: "0 \<le> z \<Longrightarrow> round64 z = PInf \<or> (\<exists>x \<ge> 0. round64 z = Fin x)"
proof -
  have "\<not> round_pos z \<le> - (2 ^ 1024)" using round_pos_nonneg [of z] by (simp add: not_le less_le_trans [of _ 0])
  then show "0 \<le> z \<Longrightarrow> ?thesis" using round_pos_nonneg [of z] unfolding round64_def pack_def by (simp only: if_True if_False) auto
qed

lemma spread_value_whole:
  assumes "0 \<le> tot" "is_i64 tot" "0 \<le> a" "0 < c"
  shows "whole (spread_value tot a c)"
proof -
  obtain f where f: "f64_of_int tot = Fin f" "0 \<le> f" using f64_of_int_finite [OF assms(1,2)] by blast
  consider "round64 (f * a) = PInf" | p where "round64 (f * a) = Fin p" "0 \<le> p / c"
    using round64_cases [of "f * a"] f assms by auto
  then show ?thesis
  proof cases
    case 1
    then show ?thesis using assms(4) by (simp add: whole_def spread_value_def f(1) inf_of_def)
  next
    case (2 p)
    then consider "round64 (p / c) = PInf" | x where "round64 (p / c) = Fin x" "0 \<le> x" using round64_cases by blast
    then show ?thesis
    proof cases
      case 1
      with 2 show ?thesis using assms(4) by (simp add: whole_def spread_value_def f(1))
    next
      case (2 x)
      with \<open>round64 (f * a) = Fin p\<close> round_away_exact [OF \<open>0 \<le> p / c\<close> 2(1)] round_away_nonneg [OF 2(2)] show ?thesis
        using assms(4) by (auto simp: whole_def spread_value_def f(1) intro!: exI [of _ "round_away x"])
    qed
  qed
qed

lemma clamp_range:
  assumes "0 \<le> tot" "is_i64 tot" "whole v"
  shows "0 \<le> clamp_bytes tot v" "clamp_bytes tot v \<le> tot"
proof -
  have "f64_to_int v \<le> tot \<and> 0 \<le> f64_to_int v" if v: "\<not> f64_le (f64_of_int tot) v"
  proof -
    obtain n where n: "0 \<le> n" "v = Fin (of_int n)" "f64_of_int n = v"
      using assms(3) v by (auto simp: whole_def)
    have "n < tot" using v n f64_of_int_mono [of tot n] by (cases "tot \<le> n") auto
    with n show ?thesis by simp
  qed
  with assms(1) show "0 \<le> clamp_bytes tot v" "clamp_bytes tot v \<le> tot" by (auto simp: clamp_bytes_def)
qed

lemma clamp_mono:
  assumes "0 \<le> tot" "is_i64 tot" "whole v" "whole w" "f64_le v w"
  shows "clamp_bytes tot v \<le> clamp_bytes tot w"
proof (cases "f64_le v f0 \<or> f64_le (f64_of_int tot) w")
  case True
  then show ?thesis
  proof
    assume "f64_le v f0"
    then show ?thesis using clamp_range [OF assms(1,2,4)] by (simp add: clamp_bytes_def)
  next
    assume "f64_le (f64_of_int tot) w"
    then have "clamp_bytes tot w = tot \<or> f64_le v f0" using assms(5) by (auto simp: clamp_bytes_def intro: f64_le_trans)
    then show ?thesis using clamp_range [OF assms(1-3)] clamp_range [OF assms(1,2,4)] by (auto simp: clamp_bytes_def)
  qed
next
  case False
  then have "\<not> f64_le (f64_of_int tot) v" "\<not> f64_le w f0" using assms(5) f64_le_trans by blast+
  with False assms show ?thesis by (auto simp: clamp_bytes_def whole_def)
qed

lemma spread_value_mono:
  assumes "0 \<le> tot" "is_i64 tot" "a \<le> b" "0 < c"
  shows "f64_le (spread_value tot a c) (spread_value tot b c)"
proof -
  obtain f where f: "f64_of_int tot = Fin f" "0 \<le> f" using f64_of_int_finite [OF assms(1,2)] by blast
  show ?thesis unfolding spread_value_def f(1) by (intro f64_mono assms(3,4) f(2))
qed

lemma trafficBytesAt_range:
  assumes "is_i64 tot" "0 < c"
  shows "0 \<le> trafficBytesAt tot (Fin a) (Fin c) \<and> trafficBytesAt tot (Fin a) (Fin c) \<le> max 0 tot"
proof (cases "tot \<le> 0 \<or> a \<le> 0")
  case False
  with clamp_range [OF _ assms(1) spread_value_whole [OF _ assms(1) _ assms(2), of a]] show ?thesis
    by (auto simp: trafficBytesAt_cases [OF assms(2)])
qed (auto simp: trafficBytesAt_cases [OF assms(2)])

lemma trafficBytesAt_mono:
  assumes "is_i64 tot" "0 < c" "a \<le> b"
  shows "trafficBytesAt tot (Fin a) (Fin c) \<le> trafficBytesAt tot (Fin b) (Fin c)"
proof -
  note range = trafficBytesAt_range [OF assms(1,2)]
  consider "tot \<le> 0 \<or> a \<le> 0" | "0 < tot" "c \<le> b" | "0 < tot" "0 < a" "b < c" by linarith
  then show ?thesis
  proof cases
    case 1
    then show ?thesis using range [of b] by (auto simp: trafficBytesAt_cases [OF assms(2), of tot a])
  next
    case 2
    then have "trafficBytesAt tot (Fin b) (Fin c) = tot" using assms(2) by (simp add: trafficBytesAt_cases)
    with range [of a] 2 show ?thesis by simp
  next
    case 3
    then have "clamp_bytes tot (spread_value tot a c) \<le> clamp_bytes tot (spread_value tot b c)"
      using assms by (intro clamp_mono spread_value_whole spread_value_mono) simp_all
    with 3 assms show ?thesis by (simp add: trafficBytesAt_cases)
  qed
qed

subsection \<open>Bytes charged up to an instant\<close>

definition bytes_by :: "int \<Rightarrow> time \<Rightarrow> time \<Rightarrow> time \<Rightarrow> int" where
  "bytes_by tot pairStart pairEnd t = trafficBytesAt tot (seconds_between pairStart t) (seconds_between pairStart pairEnd)"

lemma seconds_finite: "a \<le> b \<Longrightarrow> \<exists>r. seconds_between a b = Fin r \<and> 0 \<le> r"
  unfolding seconds_between_def by (rule duration_seconds_finite) (simp_all add: time_sub_nonneg)

lemma seconds_pos: "a < b \<Longrightarrow> \<exists>r. seconds_between a b = Fin r \<and> 0 < r"
  unfolding seconds_between_def by (rule duration_seconds_pos) (simp_all add: time_sub_pos)

lemma seconds_mono: "a \<le> b \<Longrightarrow> b \<le> c \<Longrightarrow> f64_le (seconds_between a b) (seconds_between a c)"
  unfolding seconds_between_def by (rule duration_seconds_mono) (simp_all add: time_sub_nonneg time_sub_mono)

lemma bytes_by_mono:
  assumes "is_i64 tot" "s < e" "s \<le> t" "t \<le> u"
  shows "bytes_by tot s e t \<le> bytes_by tot s e u"
proof -
  obtain c where c: "seconds_between s e = Fin c" "0 < c" using seconds_pos [OF assms(2)] by blast
  obtain a b where ab: "seconds_between s t = Fin a" "seconds_between s u = Fin b"
    using seconds_finite [of s t] seconds_finite [of s u] assms(3,4) by auto
  have "a \<le> b" using seconds_mono [OF assms(3,4)] by (simp add: ab)
  with trafficBytesAt_mono [OF assms(1) c(2)] show ?thesis by (simp add: bytes_by_def ab c(1))
qed

lemma bytes_by_start [simp]: "bytes_by tot s e s = 0"
  by (simp add: bytes_by_def seconds_between_def trafficBytesAt_def)

lemma bytes_by_end:
  assumes "s < e" "e \<le> t"
  shows "bytes_by tot s e t = max 0 tot"
proof -
  obtain c where c: "seconds_between s e = Fin c" "0 < c" using seconds_pos [OF assms(1)] by blast
  obtain b where b: "seconds_between s t = Fin b" using seconds_finite [of s t] assms by auto
  have "c \<le> b" using seconds_mono [of s e t] assms by (simp add: b c(1))
  with c(2) show ?thesis by (simp add: bytes_by_def b c(1) trafficBytesAt_cases)
qed

subsection \<open>Segments\<close>

lemma segment_end_bounds:
  assumes "cursor < en"
  shows "cursor < segment_end en cursor" "segment_end en cursor \<le> en" "segment_end en cursor \<le> trafficBucketStart cursor + trafficBucketSize"
  using bucket_bounds [of cursor] assms by (auto simp: segment_end_def)

lemma segments_step:
  assumes "cursor < en"
  shows "segments en cursor = \<lparr>seg_bucket = trafficBucketStart cursor, seg_start = cursor, seg_end = segment_end en cursor,
     seg_seconds = seconds_between cursor (segment_end en cursor)\<rparr> # segments en (segment_end en cursor)"
proof -
  obtain r where "seconds_between cursor (segment_end en cursor) = Fin r" "0 < r"
    using seconds_pos segment_end_bounds(1) [OF assms] by blast
  then show ?thesis using assms by (simp add: segments.simps [of en cursor] Let_def)
qed

lemma segments_done: "\<not> cursor < en \<Longrightarrow> segments en cursor = []"
  by (simp add: segments.simps)

lemma segments_induct [consumes 0, case_names stop step]:
  assumes "\<And>cursor. \<not> cursor < en \<Longrightarrow> P cursor"
    and "\<And>cursor. cursor < en \<Longrightarrow> P (segment_end en cursor) \<Longrightarrow> P cursor"
  shows "P (cursor :: time)"
proof (induction "nat (en - cursor)" arbitrary: cursor rule: less_induct)
  case less
  show ?case
  proof (cases "cursor < en")
    case True
    with segment_end_bounds(1) [OF True] have "nat (en - segment_end en cursor) < nat (en - cursor)" by simp
    with less True assms(2) show ?thesis by blast
  qed (rule assms(1))
qed

lemma segments_telescope:
  "cursor \<le> en \<Longrightarrow> sum_list (map (\<lambda>seg. g (seg_end seg) - g (seg_start seg)) (segments en cursor)) = g en - (g cursor :: int)"
proof (induction cursor rule: segments_induct [of en])
  case (step cursor)
  then show ?case using segment_end_bounds(2) [OF step(1)] by (simp add: segments_step)
qed (simp add: segments_done)

definition seg_ok :: "time \<Rightarrow> time \<Rightarrow> segment \<Rightarrow> bool" where
  "seg_ok st en seg \<longleftrightarrow> st \<le> seg_start seg \<and> seg_start seg < seg_end seg \<and> seg_end seg \<le> en \<and>
     seg_bucket seg = trafficBucketStart (seg_start seg) \<and> seg_end seg \<le> seg_bucket seg + trafficBucketSize"

lemma segments_ok: "seg \<in> set (segments en cursor) \<Longrightarrow> seg_ok cursor en seg"
proof (induction cursor rule: segments_induct [of en])
  case (step cursor)
  note b = segment_end_bounds [OF step(1)]
  from step.prems consider "seg \<in> set (segments en (segment_end en cursor))"
    | "seg = \<lparr>seg_bucket = trafficBucketStart cursor, seg_start = cursor, seg_end = segment_end en cursor,
        seg_seconds = seconds_between cursor (segment_end en cursor)\<rparr>"
    by (auto simp: segments_step [OF step(1)])
  then show ?case
  proof cases
    case 1
    from step.IH [OF this] b show ?thesis by (auto simp: seg_ok_def)
  qed (use b in \<open>simp add: seg_ok_def\<close>)
qed (simp add: segments_done)

lemma bucket_start_mono: "s \<le> t \<Longrightarrow> trafficBucketStart s \<le> trafficBucketStart t"
  unfolding bucket_div by (intro mult_right_mono zdiv_mono1) simp_all

lemma bucket_start_aligned:
  "trafficBucketStart (trafficBucketStart t) = trafficBucketStart t"
  "trafficBucketStart (trafficBucketStart t + trafficBucketSize) = trafficBucketStart t + trafficBucketSize"
  unfolding bucket_div by (simp_all add: distrib_right)

lemma aligned_next: "trafficBucketStart m = m \<Longrightarrow> cursor < m \<Longrightarrow> trafficBucketStart cursor + trafficBucketSize \<le> m"
proof -
  assume m: "trafficBucketStart m = m" and less: "cursor < m"
  have "cursor div trafficBucketSize * trafficBucketSize < m div trafficBucketSize * trafficBucketSize"
    using m less bucket_bounds(1) [of cursor] unfolding bucket_div by simp
  then have "cursor div trafficBucketSize + 1 \<le> m div trafficBucketSize" by simp
  then have "(cursor div trafficBucketSize + 1) * trafficBucketSize \<le> m div trafficBucketSize * trafficBucketSize"
    by (rule mult_right_mono) simp
  with m show ?thesis unfolding bucket_div by (simp add: distrib_right)
qed

text \<open>Cutting at a bucket boundary cuts no segment.\<close>

lemma segments_append:
  assumes "trafficBucketStart m = m" "m \<le> en"
  shows "cursor \<le> m \<Longrightarrow> segments en cursor = segments m cursor @ segments en m"
proof (induction cursor rule: segments_induct [of m])
  case (step cursor)
  have e: "segment_end en cursor = segment_end m cursor"
    using aligned_next [OF assms(1) step(1)] assms(2) by (simp add: segment_end_def)
  show ?case
    using step segment_end_bounds(2) [OF step(1)] assms(2) by (simp add: segments_step [of cursor m] segments_step [of cursor en] e)
qed (simp add: segments_done)

lemma segments_buckets_increase: "sorted_wrt (<) (map seg_bucket (segments en cursor))"
proof (induction cursor rule: segments_induct [of en])
  case (step cursor)
  have "trafficBucketStart cursor < seg_bucket seg" if "seg \<in> set (segments en (segment_end en cursor))" for seg
  proof -
    have ok: "seg_ok (segment_end en cursor) en seg" by (rule segments_ok) fact
    then have "segment_end en cursor < en" by (simp add: seg_ok_def)
    then have "segment_end en cursor = trafficBucketStart cursor + trafficBucketSize" by (simp add: segment_end_def min_def split: if_splits)
    then have "trafficBucketStart cursor + trafficBucketSize \<le> seg_bucket seg"
      using ok bucket_start_mono [of "segment_end en cursor" "seg_start seg"] by (simp add: seg_ok_def bucket_start_aligned)
    then show ?thesis using bucket_size_pos(1) by linarith
  qed
  with step show ?case by (simp add: segments_step)
qed (simp add: segments_done)

subsection \<open>Properties\<close>

lemma sample_of_bytes:
  "Sample_InBytes (sample_of i n s e inD outD seg) = bytes_by inD s e (seg_end seg) - bytes_by inD s e (seg_start seg)"
  "Sample_OutBytes (sample_of i n s e inD outD seg) = bytes_by outD s e (seg_end seg) - bytes_by outD s e (seg_start seg)"
  "Sample_Bucket (sample_of i n s e inD outD seg) = seg_bucket seg"
  by (simp_all add: sample_of_def bytes_by_def Let_def)

lemma split_segments:
  assumes "s < e"
  shows "splitTrafficSamplesWindow i n s e ws we inD outD =
     map (sample_of i n s e inD outD) (segments (min e we) (max s ws))"
proof -
  obtain r where "seconds_between s e = Fin r" "0 < r" using seconds_pos [OF assms] by blast
  with assms show ?thesis by (auto simp: splitTrafficSamplesWindow_def Let_def segments_done)
qed

text \<open>
  C11. Spreading a difference of counters over the buckets of a window neither loses nor invents a
  byte: no part is negative, each bucket gets one part, which lies within the window, and the parts add
  up to what the pair is charged between the bounds of the window, which is the whole difference when the
  window contains the pair.
\<close>

theorem split_conserves:
  assumes "s < e" and "is_i64 inD" and "is_i64 outD" and "0 \<le> inD" and "0 \<le> outD"
    and "max s ws < min e we"
    and "samples = splitTrafficSamplesWindow i n s e ws we inD outD"
  shows "sum_list (map Sample_InBytes samples) = bytes_by inD s e (min e we) - bytes_by inD s e (max s ws) \<and>
     sum_list (map Sample_OutBytes samples) = bytes_by outD s e (min e we) - bytes_by outD s e (max s ws) \<and>
     list_all (\<lambda>x. 0 \<le> Sample_InBytes x \<and> 0 \<le> Sample_OutBytes x \<and> ws < Sample_Bucket x + trafficBucketSize \<and> Sample_Bucket x < we) samples \<and>
     distinct (map Sample_Bucket samples) \<and>
     (ws \<le> s \<and> e \<le> we \<longrightarrow> sum_list (map Sample_InBytes samples) = inD \<and> sum_list (map Sample_OutBytes samples) = outD)"
proof -
  let ?S = "segments (min e we) (max s ws)"
  have samples: "samples = map (sample_of i n s e inD outD) ?S" using assms by (simp add: split_segments)
  have sums: "sum_list (map Sample_InBytes samples) = bytes_by inD s e (min e we) - bytes_by inD s e (max s ws)"
    "sum_list (map Sample_OutBytes samples) = bytes_by outD s e (min e we) - bytes_by outD s e (max s ws)"
    using segments_telescope [of "max s ws" "min e we"] assms(6)
    by (simp_all add: samples comp_def sample_of_bytes)
  have ok: "seg_ok (max s ws) (min e we) seg" if "seg \<in> set ?S" for seg using that by (rule segments_ok)
  have part: "bytes_by d s e (seg_start seg) \<le> bytes_by d s e (seg_end seg)" if "seg \<in> set ?S" "is_i64 d" for d seg
    using ok [OF that(1)] assms(1) that(2) by (intro bytes_by_mono) (auto simp: seg_ok_def)
  have one: "0 \<le> Sample_InBytes x \<and> 0 \<le> Sample_OutBytes x \<and> ws < Sample_Bucket x + trafficBucketSize \<and> Sample_Bucket x < we"
    if x: "x \<in> set samples" for x
  proof -
    obtain seg where seg: "seg \<in> set ?S" "x = sample_of i n s e inD outD seg" using x unfolding samples by auto
    have "max s ws \<le> seg_start seg" "seg_start seg < seg_end seg" "seg_end seg \<le> min e we"
      "seg_bucket seg = trafficBucketStart (seg_start seg)"
      using ok [OF seg(1)] unfolding seg_ok_def by simp_all
    then have "ws < seg_bucket seg + trafficBucketSize" "seg_bucket seg < we"
      using bucket_bounds [of "seg_start seg"] by linarith+
    then show ?thesis
      unfolding seg(2) sample_of_bytes using part [OF seg(1) assms(2)] part [OF seg(1) assms(3)] by simp
  qed
  have "distinct (map Sample_Bucket samples)"
    using segments_buckets_increase [of "min e we" "max s ws"] by (simp add: samples comp_def sample_of_bytes strict_sorted_iff)
  moreover have "sum_list (map Sample_InBytes samples) = inD \<and> sum_list (map Sample_OutBytes samples) = outD" if "ws \<le> s \<and> e \<le> we"
  proof -
    have "min e we = e" "max s ws = s" using that by simp_all
    with sums bytes_by_end [OF assms(1) order_refl] assms(4,5) show ?thesis by simp
  qed
  ultimately show ?thesis using sums one by (simp add: list_all_iff)
qed

theorem split_conserves_witness:
  "sum_list (map Sample_InBytes (splitTrafficSamplesWindow 1 ''eth0'' (60 * second_ns) (660 * second_ns) 0 (900 * second_ns) 1000 7)) = 1000"
  using split_conserves [of "60 * second_ns" "660 * second_ns" 1000 7 0 "900 * second_ns" _ 1 "''eth0''", OF _ _ _ _ _ _ refl]
  by (simp add: i64_defs second_ns_def)

text \<open>
  Working through time in chunks gives the same samples as one pass: for a chunk boundary that is
  a bucket boundary, the samples of the two adjacent windows are, in order, the samples of the window that
  joins them.\<close>

theorem split_chunks:
  assumes "s < e" and "trafficBucketStart wm = wm" and "ws \<le> wm" and "wm \<le> we"
  shows "splitTrafficSamplesWindow i n s e ws we inD outD =
     splitTrafficSamplesWindow i n s e ws wm inD outD @ splitTrafficSamplesWindow i n s e wm we inD outD"
proof -
  consider "wm \<le> s" | "e \<le> wm" | "s < wm" "wm < e" by linarith
  then have "segments (min e we) (max s ws) = segments (min e wm) (max s ws) @ segments (min e we) (max s wm)"
  proof cases
    case 1
    with assms have "max s ws = s" "max s wm = s" "\<not> s < min e wm" by linarith+
    then show ?thesis by (simp add: segments_done)
  next
    case 2
    with assms have "min e wm = e" "min e we = e" "\<not> max s wm < e" by linarith+
    then show ?thesis by (simp add: segments_done)
  next
    case 3
    with assms have "min e wm = wm" "max s wm = wm" "max s ws \<le> wm" "wm \<le> min e we" by linarith+
    then show ?thesis using segments_append [OF assms(2), of "min e we" "max s ws"] by (simp only:)
  qed
  then show ?thesis by (simp only: split_segments [OF assms(1)] map_append)
qed

theorem split_chunks_witness:
  "splitTrafficSamplesWindow 1 ''eth0'' (60 * second_ns) (660 * second_ns) 0 (900 * second_ns) 1000 7 =
     splitTrafficSamplesWindow 1 ''eth0'' (60 * second_ns) (660 * second_ns) 0 (300 * second_ns) 1000 7 @
     splitTrafficSamplesWindow 1 ''eth0'' (60 * second_ns) (660 * second_ns) (300 * second_ns) (900 * second_ns) 1000 7"
  by (rule split_chunks) (simp_all add: second_ns_def minute_ns_def trafficBucketStart_def time_truncate_def trafficBucketSize_def)

subsection \<open>Rows of five minutes\<close>

text \<open>
  A bucket that is still valid has no gap and no reset, and what it counts as valid is all it holds.
\<close>

definition acc_ok :: "time \<Rightarrow> time \<Rightarrow> traffic5mKey \<Rightarrow> traffic5mAccumulator \<Rightarrow> bool" where
  "acc_ok st en k acc \<longleftrightarrow>
     row_order (acc_row acc) = k \<and> trafficBucketStart st \<le> T5_Bucket (acc_row acc) \<and> T5_Bucket (acc_row acc) < en \<and>
     trafficBucketStart (T5_Bucket (acc_row acc)) = T5_Bucket (acc_row acc) \<and>
     0 \<le> T5_InBytes (acc_row acc) \<and> T5_InBytes (acc_row acc) \<le> max_i64 \<and> 0 \<le> T5_OutBytes (acc_row acc) \<and> T5_OutBytes (acc_row acc) \<le> max_i64 \<and>
     (\<not> acc_invalid acc \<longrightarrow> T5_GapCount (acc_row acc) = 0 \<and> T5_ResetCount (acc_row acc) = 0 \<and>
        validSec acc = T5_CoveredSec (acc_row acc) \<and> validIn acc = T5_InBytes (acc_row acc) \<and> validOut acc = T5_OutBytes (acc_row acc))"

definition buckets_ok :: "time \<Rightarrow> time \<Rightarrow> buckets5m \<Rightarrow> bool" where
  "buckets_ok st en bs \<longleftrightarrow> distinct (map fst bs) \<and> (\<forall>k acc. map_of bs k = Some acc \<longrightarrow> acc_ok st en k acc)"

definition bucket_in :: "time \<Rightarrow> time \<Rightarrow> time \<Rightarrow> bool" where
  "bucket_in st en b \<longleftrightarrow> trafficBucketStart st \<le> b \<and> b < en \<and> trafficBucketStart b = b"

lemma accumulator_ok:
  assumes "buckets_ok st en bs" "bucket_in st en b"
  shows "acc_ok st en (i, n, b) (traffic5mAccumulatorFor bs i n b)"
proof (cases "map_of bs (i, n, b)")
  case None
  then show ?thesis using assms(2)
    by (simp add: traffic5mAccumulatorFor_def acc_ok_def row_order_def zero_Traffic5m_def bucket_in_def i64_defs)
next
  case (Some acc)
  then show ?thesis using assms(1) by (simp add: traffic5mAccumulatorFor_def buckets_ok_def)
qed

lemma buckets_update:
  "buckets_ok st en bs \<Longrightarrow> acc_ok st en k acc \<Longrightarrow> buckets_ok st en (AList.update k acc bs)"
  by (simp add: buckets_ok_def)

lemma addTrafficBytes_ok:
  "addTrafficBytes a d = (n, True) \<longleftrightarrow> 0 \<le> a \<and> 0 \<le> d \<and> n = a + d \<and> n \<le> max_i64"
  by (auto simp: addTrafficBytes_def)

lemma mergeTrafficSample_invalid:
  "acc_invalid acc \<Longrightarrow> acc_invalid (mergeTrafficSample acc x)"
  by (simp add: mergeTrafficSample_def Let_def split: prod.split)

lemma mergeTrafficSample_ok:
  assumes "acc_ok st en k acc" "0 \<le> Sample_Gap x"
  shows "acc_ok st en k (mergeTrafficSample acc x)"
proof -
  let ?r = "acc_row acc"
  obtain nextIn inOK where i: "addTrafficBytes (T5_InBytes ?r) (Sample_InBytes x) = (nextIn, inOK)" by fastforce
  obtain nextOut outOK where o: "addTrafficBytes (T5_OutBytes ?r) (Sample_OutBytes x) = (nextOut, outOK)" by fastforce
  show ?thesis
  proof (cases "inOK \<and> outOK")
    case False
    then show ?thesis using assms by (simp add: mergeTrafficSample_def i o Let_def acc_ok_def row_order_def)
  next
    case True
    then have ok: "nextIn = T5_InBytes ?r + Sample_InBytes x" "0 \<le> nextIn" "nextIn \<le> max_i64"
       "nextOut = T5_OutBytes ?r + Sample_OutBytes x" "0 \<le> nextOut" "nextOut \<le> max_i64"
      using i o by (simp_all add: addTrafficBytes_ok)
    then have w: "wrap64 nextIn = nextIn" "wrap64 nextOut = nextOut" by (simp_all add: wrap64_id i64_defs)
    have gap: "wrap32 (T5_GapCount ?r + Sample_Gap x) = 0" if "\<not> 0 < Sample_Gap x" "T5_GapCount ?r = 0"
      using that assms(2) by (simp add: wrap32_def)
    show ?thesis
      using assms(1) True w ok(2,3,5,6) gap unfolding acc_ok_def
      by (cases "0 < Sample_Gap x"; cases "acc_invalid acc"; cases "Sample_Valid x")
        (simp_all add: mergeTrafficSample_def i o Let_def row_order_def flip: ok(1,4))
  qed
qed

lemma merge_into_ok:
  assumes "buckets_ok st en bs" "bucket_in st en (Sample_Bucket x) \<and> 0 \<le> Sample_Gap x"
  shows "buckets_ok st en (merge_into x bs)"
  unfolding merge_into_def using assms by (simp add: buckets_update mergeTrafficSample_ok accumulator_ok)

lemma split_bucket_in:
  assumes "x \<in> set (splitTrafficSamplesWindow i n s e st en inD outD)"
  shows "bucket_in st en (Sample_Bucket x) \<and> 0 \<le> Sample_Gap x"
proof -
  have "s < e" using assms by (simp add: splitTrafficSamplesWindow_def split: if_splits)
  then obtain seg where seg: "seg \<in> set (segments (min e en) (max s st))" "x = sample_of i n s e inD outD seg"
    using assms by (auto simp: split_segments)
  have "max s st \<le> seg_start seg" "seg_start seg < seg_end seg" "seg_end seg \<le> min e en"
    "seg_bucket seg = trafficBucketStart (seg_start seg)"
    using segments_ok [OF seg(1)] unfolding seg_ok_def by simp_all
  then show ?thesis
    using bucket_bounds [of "seg_start seg"] bucket_start_mono [of st "seg_start seg"]
    by (simp add: bucket_in_def seg(2) sample_of_bytes bucket_start_aligned) (simp add: sample_of_def Let_def)
qed

lemma mergeTrafficPair_ok:
  assumes "buckets_ok st en bs"
  shows "buckets_ok st en (mergeTrafficPair st en p q bs)"
proof -
  have folded: "buckets_ok st en (fold merge_into xs bs)" if "\<And>x. x \<in> set xs \<Longrightarrow> bucket_in st en (Sample_Bucket x) \<and> 0 \<le> Sample_Gap x" for xs
    using that assms by (induction xs arbitrary: bs) (simp_all add: merge_into_ok)
  let ?b = "trafficBucketStart (Nic_CollectedAt q)"
  let ?acc = "traffic5mAccumulatorFor bs (Nic_ServerID q) (Nic_Iface q) ?b"
  have "acc_ok st en (Nic_ServerID q, Nic_Iface q, ?b)
      (?acc\<lparr>acc_row := (acc_row ?acc)\<lparr>T5_ResetCount := wrap32 (T5_ResetCount (acc_row ?acc) + 1)\<rparr>, acc_invalid := True\<rparr>)"
    if "st \<le> ?b" "?b < en"
    using accumulator_ok [OF assms, of ?b "Nic_ServerID q" "Nic_Iface q"] that bucket_bounds(1) [of st]
    by (simp add: bucket_in_def bucket_start_aligned acc_ok_def row_order_def)
  then show ?thesis
    using folded [OF split_bucket_in] by (simp add: mergeTrafficPair_def Let_def not_less assms buckets_update)
qed

lemma all_pairs_ok: "buckets_ok st en bs \<Longrightarrow> buckets_ok st en (snd (fold (pair_step st en) rows (prev, bs)))"
  by (induction rows arbitrary: prev bs) (auto simp: pair_step_def mergeTrafficPair_ok split: option.split)

definition row_valid :: "Traffic5m \<Rightarrow> bool" where
  "row_valid row \<longleftrightarrow> T5_GapCount row = 0 \<and> T5_ResetCount row = 0 \<and> f64_le trafficMinCoveredSec (T5_CoveredSec row) \<and>
     T5_InRate row = f64_div (f64_of_int (T5_InBytes row)) (T5_CoveredSec row) \<and>
     T5_OutRate row = f64_div (f64_of_int (T5_OutBytes row)) (T5_CoveredSec row)"

definition row_ok :: "time \<Rightarrow> time \<Rightarrow> Traffic5m \<Rightarrow> bool" where
  "row_ok st en row \<longleftrightarrow> bucket_in st en (T5_Bucket row) \<and> 0 \<le> T5_InBytes row \<and> T5_InBytes row \<le> max_i64 \<and>
     0 \<le> T5_OutBytes row \<and> T5_OutBytes row \<le> max_i64 \<and>
     (T5_SampleCount row = 1 \<and> row_valid row \<or> T5_SampleCount row = 0 \<and> T5_InRate row = f0 \<and> T5_OutRate row = f0)"

lemma finish_bucket_ok: "acc_ok st en k acc \<Longrightarrow> row_ok st en (finish_bucket acc) \<and> row_order (finish_bucket acc) = k"
  by (cases "\<not> acc_invalid acc \<and> f64_le trafficMinCoveredSec (validSec acc)")
    (auto simp: acc_ok_def row_ok_def row_valid_def finish_bucket_def Let_def bucket_in_def row_order_def)

text \<open>
  Whatever the collected samples, the rows of a window have distinct keys and come sorted by server,
  interface and bucket; each lies on a bucket of the window, its byte counts are within \<open>int64\<close> and not
  negative, and it either is a billing sample -- no gap, no counter reset, at least 270 covered seconds,
  and the rate is exactly its bytes over its covered seconds -- or it counts as no sample and has no rate.\<close>

theorem five_minute_rows:
  "list_all (row_ok st en) (buildTraffic5mRows rows st en) \<and> sorted_wrt (<) (map row_order (buildTraffic5mRows rows st en))"
proof -
  define bs where "bs = snd (fold (pair_step st en) rows (None, []))"
  have ok: "buckets_ok st en bs" unfolding bs_def by (rule all_pairs_ok) (simp add: buckets_ok_def)
  have entry: "row_ok st en (finish_bucket acc)" "row_order (finish_bucket acc) = k" if "(k, acc) \<in> set bs" for k acc
  proof -
    have "map_of bs k = Some acc" using ok that by (simp only: buckets_ok_def map_of_is_SomeI)
    then have "acc_ok st en k acc" using ok by (cases k) (simp add: buckets_ok_def)
    then show "row_ok st en (finish_bucket acc)" "row_order (finish_bucket acc) = k" using finish_bucket_ok by blast+
  qed
  have rows: "buildTraffic5mRows rows st en = sort_key row_order (map (\<lambda>b. finish_bucket (snd b)) bs)"
    by (simp add: buildTraffic5mRows_def bs_def)
  have keys: "map row_order (map (\<lambda>b. finish_bucket (snd b)) bs) = map fst bs"
    using entry(2) by (auto simp: comp_def)
  have "distinct (map row_order (buildTraffic5mRows rows st en))"
    using ok keys unfolding rows buckets_ok_def by (metis distinct_map distinct_sort set_sort)
  then have "sorted_wrt (<) (map row_order (buildTraffic5mRows rows st en))"
    by (simp add: strict_sorted_iff rows)
  moreover have "list_all (row_ok st en) (buildTraffic5mRows rows st en)"
    using entry(1) by (auto simp: rows list_all_iff)
  ultimately show ?thesis by blast
qed

end
