(* ===== verification/Traffic_Settings.thy ===== *)
theory Traffic_Settings
  imports Traffic_Cycle
begin

text \<open>
  Traffic settings: \<open>internal/store/traffic/settings.go\<close> without its database operations, which are
  in \<open>Traffic_Store\<close>. Global settings and the cycle settings of a server are normalised before they
  are stored and again whenever they are read.

  The time zone database and \<open>time.Local\<close> belong to the machine the server runs on; they are a
  parameter, \<open>tz_env\<close>.
\<close>

subsection \<open>Modes\<close>

record tz_env =
  LoadLocation :: "string \<Rightarrow> location option"
  Local :: location

definition GuestAccessDisabled :: string where "GuestAccessDisabled = ''disabled''"
definition GuestAccessByNode :: string where "GuestAccessByNode = ''by_node''"
definition UsageLite :: string where "UsageLite = ''lite''"
definition UsageBilling :: string where "UsageBilling = ''billing''"
definition ServerCycleDefault :: string where "ServerCycleDefault = ''default''"
definition ServerDirectionDefault :: string where "ServerDirectionDefault = ''default''"
definition DirectionOut :: string where "DirectionOut = ''out''"
definition DirectionBoth :: string where "DirectionBoth = ''both''"
definition DirectionMax :: string where "DirectionMax = ''max''"

lemmas setting_modes = GuestAccessDisabled_def GuestAccessByNode_def UsageLite_def UsageBilling_def ServerCycleDefault_def
  ServerDirectionDefault_def DirectionOut_def DirectionBoth_def DirectionMax_def

datatype settings_error =
    ErrInvalidServerCycleMode
  | ErrInvalidServerCycleStartDay
  | ErrInvalidServerCycleAnchorDate
  | ErrInvalidServerCycleTimezone
  | ErrInvalidServerDirectionMode
  | ErrInvalidSettings string
  | ErrInvalidSettingsPatch settings_error
  | SettingsLocationIsNil
  | LoadTimezone string
  | CycleError cycle_error

record Settings =
  Set_GuestAccessMode :: string
  Set_UsageMode :: string
  Set_CycleMode :: string
  Set_BillingStartDay :: int
  Set_BillingAnchorDate :: string
  Set_BillingTimezone :: string
  Set_DirectionMode :: string

record SettingsPatch =
  Patch_GuestAccessMode :: "string option"
  Patch_UsageMode :: "string option"
  Patch_DirectionMode :: "string option"

record ServerCycleSettings =
  Srv_Mode :: string
  Srv_BillingStartDay :: int
  Srv_BillingAnchorDate :: string
  Srv_BillingTimezone :: string

record TrafficSetting =
  TS_GuestAccessMode :: string
  TS_UsageMode :: string
  TS_DirectionMode :: string

definition NormalizeGuestAccessMode :: "string \<Rightarrow> string option" where
  "NormalizeGuestAccessMode mode = (if mode = GuestAccessDisabled \<or> mode = GuestAccessByNode then Some mode else None)"

definition NormalizeUsageMode :: "string \<Rightarrow> string option" where
  "NormalizeUsageMode mode = (if mode = UsageLite \<or> mode = UsageBilling then Some mode else None)"

definition NormalizeServerCycleMode :: "string \<Rightarrow> string option" where
  "NormalizeServerCycleMode mode =
     (if mode = ServerCycleDefault \<or> mode = CycleCalendarMonth \<or> mode = CycleWHMCS \<or> mode = CycleClampMonthEnd then Some mode else None)"

definition NormalizeServerDirectionMode :: "string \<Rightarrow> string option" where
  "NormalizeServerDirectionMode mode =
     (if mode = ServerDirectionDefault \<or> mode = DirectionOut \<or> mode = DirectionBoth \<or> mode = DirectionMax then Some mode else None)"

definition NormalizeDirectionMode :: "string \<Rightarrow> string option" where
  "NormalizeDirectionMode mode = (if mode = DirectionOut \<or> mode = DirectionBoth \<or> mode = DirectionMax then Some mode else None)"

subsection \<open>Normalisation\<close>

text \<open>A time zone name is empty or known to the time zone database.\<close>

definition timezone_ok :: "tz_env \<Rightarrow> string \<Rightarrow> bool" where
  "timezone_ok env timezone \<longleftrightarrow> timezone = [] \<or> LoadLocation env timezone \<noteq> None"

definition NormalizeServerCycleSettings :: "tz_env \<Rightarrow> ServerCycleSettings \<Rightarrow> settings_error + ServerCycleSettings" where
  "NormalizeServerCycleSettings env cycle =
     (case NormalizeServerCycleMode (Srv_Mode cycle) of
        None \<Rightarrow> Inl ErrInvalidServerCycleMode
      | Some mode \<Rightarrow>
         (let timezone = trim_space (Srv_BillingTimezone cycle); anchor = trim_space (Srv_BillingAnchorDate cycle);
              anchorTime = parseTrafficAnchorDate anchor (Some (Local env))
          in if \<not> timezone_ok env timezone then Inl ErrInvalidServerCycleTimezone
             else if (mode = CycleWHMCS \<or> anchor \<noteq> []) \<and> anchorTime = None then Inl ErrInvalidServerCycleAnchorDate
             else if mode = ServerCycleDefault
               then Inr \<lparr>Srv_Mode = CycleCalendarMonth, Srv_BillingStartDay = 1, Srv_BillingAnchorDate = [], Srv_BillingTimezone = []\<rparr>
             else let day = Srv_BillingStartDay cycle
                  in if mode = CycleCalendarMonth
                       then Inr \<lparr>Srv_Mode = mode, Srv_BillingStartDay = 1, Srv_BillingAnchorDate = [], Srv_BillingTimezone = timezone\<rparr>
                     else if day < 1 \<or> day > 31 then Inl ErrInvalidServerCycleStartDay
                     else if mode = CycleWHMCS
                       then (case anchorTime of
                               None \<Rightarrow> Inl ErrInvalidServerCycleAnchorDate
                             | Some t \<Rightarrow> Inr \<lparr>Srv_Mode = mode, Srv_BillingStartDay = time_day (Local env) t,
                                 Srv_BillingAnchorDate = formatTrafficAnchorDate (Local env) t, Srv_BillingTimezone = timezone\<rparr>)
                     else Inr \<lparr>Srv_Mode = mode, Srv_BillingStartDay = day, Srv_BillingAnchorDate = [], Srv_BillingTimezone = timezone\<rparr>))"

definition NormalizeSettings :: "tz_env \<Rightarrow> Settings \<Rightarrow> settings_error + Settings" where
  "NormalizeSettings env settings =
     (case NormalizeGuestAccessMode (Set_GuestAccessMode settings) of None \<Rightarrow> Inl (ErrInvalidSettings ''guest access mode'') | Some guest \<Rightarrow>
      case NormalizeUsageMode (Set_UsageMode settings) of None \<Rightarrow> Inl (ErrInvalidSettings ''usage mode'') | Some usage \<Rightarrow>
      case NormalizeCycleMode (Set_CycleMode settings) of None \<Rightarrow> Inl (ErrInvalidSettings ''billing cycle mode'') | Some cycle \<Rightarrow>
      case NormalizeDirectionMode (Set_DirectionMode settings) of None \<Rightarrow> Inl (ErrInvalidSettings ''direction mode'') | Some direction \<Rightarrow>
        (let anchor = trim_space (Set_BillingAnchorDate settings); timezone = trim_space (Set_BillingTimezone settings);
             day = Set_BillingStartDay settings;
             result = (\<lambda>day anchor. \<lparr>Set_GuestAccessMode = guest, Set_UsageMode = usage, Set_CycleMode = cycle, Set_BillingStartDay = day,
                         Set_BillingAnchorDate = anchor, Set_BillingTimezone = timezone, Set_DirectionMode = direction\<rparr>)
         in if \<not> timezone_ok env timezone then Inl (ErrInvalidSettings ''billing timezone'')
            else if day < 1 \<or> day > 31 then Inl (ErrInvalidSettings ''billing start day'')
            else if cycle = CycleWHMCS
              then (case parseTrafficAnchorDate anchor (Some (Local env)) of
                      None \<Rightarrow> Inl (ErrInvalidSettings ''billing anchor date'')
                    | Some t \<Rightarrow> Inr (result (time_day (Local env) t) (formatTrafficAnchorDate (Local env) t)))
            else Inr (result (if cycle = CycleCalendarMonth then 1 else day) [])))"

definition SettingsWithServerCycle :: "tz_env \<Rightarrow> Settings \<Rightarrow> ServerCycleSettings \<Rightarrow> settings_error + Settings" where
  "SettingsWithServerCycle env settings cycle =
     (case NormalizeSettings env settings of Inl e \<Rightarrow> Inl e | Inr normalized \<Rightarrow>
      case NormalizeServerCycleSettings env cycle of Inl e \<Rightarrow> Inl e | Inr cycle \<Rightarrow>
        NormalizeSettings env (normalized\<lparr>Set_CycleMode := Srv_Mode cycle, Set_BillingStartDay := Srv_BillingStartDay cycle,
          Set_BillingAnchorDate := Srv_BillingAnchorDate cycle, Set_BillingTimezone := Srv_BillingTimezone cycle\<rparr>))"

definition SettingsWithServerDirection :: "tz_env \<Rightarrow> Settings \<Rightarrow> string \<Rightarrow> settings_error + Settings" where
  "SettingsWithServerDirection env settings mode =
     (case NormalizeSettings env settings of Inl e \<Rightarrow> Inl e | Inr normalized \<Rightarrow>
      case NormalizeServerDirectionMode mode of None \<Rightarrow> Inl ErrInvalidServerDirectionMode | Some mode \<Rightarrow>
        if mode = ServerDirectionDefault then Inr normalized
        else NormalizeSettings env (normalized\<lparr>Set_DirectionMode := mode\<rparr>))"

definition billingLocation :: "tz_env \<Rightarrow> string \<Rightarrow> location option \<Rightarrow> settings_error + location" where
  "billingLocation env timezone fallback =
     (case fallback of
        None \<Rightarrow> Inl SettingsLocationIsNil
      | Some fallback \<Rightarrow>
         if timezone = [] then Inr fallback
         else (case LoadLocation env timezone of None \<Rightarrow> Inl (LoadTimezone timezone) | Some loc \<Rightarrow> Inr loc))"

definition SettingsLocation :: "tz_env \<Rightarrow> Settings \<Rightarrow> location option \<Rightarrow> settings_error + location" where
  "SettingsLocation env settings fallback = billingLocation env (Set_BillingTimezone settings) fallback"

definition SettingsWithTimezone :: "tz_env \<Rightarrow> Settings \<Rightarrow> location option \<Rightarrow> settings_error + Settings" where
  "SettingsWithTimezone env settings fallback =
     (case NormalizeSettings env settings of Inl e \<Rightarrow> Inl e | Inr normalized \<Rightarrow>
        if Set_BillingTimezone normalized \<noteq> [] then Inr normalized
        else (case fallback of None \<Rightarrow> Inl SettingsLocationIsNil
              | Some loc \<Rightarrow> Inr (normalized\<lparr>Set_BillingTimezone := loc_name loc\<rparr>)))"

definition trafficSettingFromSettings :: "Settings \<Rightarrow> TrafficSetting" where
  "trafficSettingFromSettings settings = \<lparr>TS_GuestAccessMode = Set_GuestAccessMode settings,
     TS_UsageMode = Set_UsageMode settings, TS_DirectionMode = Set_DirectionMode settings\<rparr>"

definition settingsFromTrafficSetting :: "TrafficSetting \<Rightarrow> Settings" where
  "settingsFromTrafficSetting item = \<lparr>Set_GuestAccessMode = TS_GuestAccessMode item, Set_UsageMode = TS_UsageMode item,
     Set_CycleMode = CycleCalendarMonth, Set_BillingStartDay = 1, Set_BillingAnchorDate = [], Set_BillingTimezone = [],
     Set_DirectionMode = TS_DirectionMode item\<rparr>"

definition patch_apply :: "tz_env \<Rightarrow> SettingsPatch \<Rightarrow> Settings \<Rightarrow> settings_error + Settings" where
  "patch_apply env patch current =
     NormalizeSettings env (current\<lparr>
       Set_GuestAccessMode := case Patch_GuestAccessMode patch of None \<Rightarrow> Set_GuestAccessMode current | Some m \<Rightarrow> m,
       Set_UsageMode := case Patch_UsageMode patch of None \<Rightarrow> Set_UsageMode current | Some m \<Rightarrow> m,
       Set_DirectionMode := case Patch_DirectionMode patch of None \<Rightarrow> Set_DirectionMode current | Some m \<Rightarrow> m\<rparr>)"

definition sameServerCycle :: "ServerCycleSettings \<Rightarrow> ServerCycleSettings \<Rightarrow> bool" where
  "sameServerCycle left right \<longleftrightarrow> Srv_Mode left = Srv_Mode right \<and> Srv_BillingStartDay left = Srv_BillingStartDay right \<and>
     trim_space (Srv_BillingAnchorDate left) = trim_space (Srv_BillingAnchorDate right) \<and>
     trim_space (Srv_BillingTimezone left) = trim_space (Srv_BillingTimezone right)"

definition cycleRebuildStart ::
    "tz_env \<Rightarrow> ServerCycleSettings \<Rightarrow> ServerCycleSettings \<Rightarrow> location option \<Rightarrow> time \<Rightarrow> settings_error + time" where
  "cycleRebuildStart env current next fallback ref =
     (case billingLocation env (Srv_BillingTimezone current) fallback of Inl e \<Rightarrow> Inl e | Inr currentLoc \<Rightarrow>
      case billingLocation env (Srv_BillingTimezone next) fallback of Inl e \<Rightarrow> Inl e | Inr nextLoc \<Rightarrow>
      case newCycleRule (Srv_Mode current) (Srv_BillingStartDay current) (Srv_BillingAnchorDate current) (Some currentLoc) of
        Inl e \<Rightarrow> Inl (CycleError e) | Inr currentRule \<Rightarrow>
      case newCycleRule (Srv_Mode next) (Srv_BillingStartDay next) (Srv_BillingAnchorDate next) (Some nextLoc) of
        Inl e \<Rightarrow> Inl (CycleError e) | Inr nextRule \<Rightarrow>
      case rule_at currentRule ref of Inl e \<Rightarrow> Inl (CycleError e) | Inr currentCycle \<Rightarrow>
      case rule_at nextRule ref of Inl e \<Rightarrow> Inl (CycleError e) | Inr nextCycle \<Rightarrow>
        Inr (min (Cycle_Start currentCycle) (Cycle_Start nextCycle)))"

subsection \<open>Normal forms\<close>

lemma mode_names [simp]:
  "ServerCycleDefault \<noteq> CycleWHMCS" "ServerCycleDefault \<noteq> CycleCalendarMonth" "ServerCycleDefault \<noteq> CycleClampMonthEnd"
  "CycleWHMCS \<noteq> ServerCycleDefault" "CycleCalendarMonth \<noteq> ServerCycleDefault" "CycleClampMonthEnd \<noteq> ServerCycleDefault"
  by (simp_all add: setting_modes cycle_modes)

text \<open>A location in which every calendar date has a midnight on that date.\<close>

definition keeps_dates :: "location \<Rightarrow> bool" where
  "keeps_dates loc \<longleftrightarrow> (\<forall>n. case civil_of_day n of (y, m, d) \<Rightarrow> time_date loc (midnight loc y m d) = (y, m, d))"

definition anchor_ok :: "location \<Rightarrow> time \<Rightarrow> bool" where
  "anchor_ok loc t \<longleftrightarrow> 2 \<le> time_year loc t \<and> time_year loc t < 10000"

lemma year_of_zero:
  assumes "zone_bounded loc"
  shows "time_year loc zero_time < 2"
proof -
  obtain y m d where c: "time_date loc zero_time = (y, m, d)" by (metis prod_cases3)
  have "\<bar>local_secs loc zero_time\<bar> \<le> 93600" using assms by (simp add: local_secs_def zone_bounded_def)
  then have "local_secs loc zero_time div 86400 \<le> 93600 div 86400" by (intro zdiv_mono1) simp_all
  moreover have "days_before_year y \<le> local_secs loc zero_time div 86400"
    using civil_of_day_month(6) [OF c [unfolded time_date_def]] .
  moreover have "days_before_year 2 = 365" by (simp add: days_before_year_def)
  ultimately have "y < 2" using days_before_year_mono [of 2 y] by (cases "y < 2") simp_all
  then show ?thesis by (simp add: time_year_def c)
qed

text \<open>
  A date that is written in one location and read in another is the same date: this is what lets
  settings be normalised in the local zone and used in the billing zone.
\<close>

lemma reread_anchor:
  assumes "anchor_ok loc t" "keeps_dates loc'" "zone_bounded loc" "zone_bounded loc'"
  obtains u where "parseTrafficAnchorDate (formatTrafficAnchorDate loc t) (Some loc') = Some u" "time_day loc' u = time_day loc t"
    "formatTrafficAnchorDate loc' u = formatTrafficAnchorDate loc t"
    "trim_space (formatTrafficAnchorDate loc t) = formatTrafficAnchorDate loc t"
proof -
  obtain y m d where c: "time_date loc t = (y, m, d)" by (metis prod_cases3)
  have ym: "0 \<le> y" "y < 10000" "2 \<le> y" using assms(1) c by (simp_all add: anchor_ok_def time_year_def)
  let ?u = "midnight loc' y m d"
  have date: "time_date loc' ?u = (y, m, d)"
    using assms(2) [unfolded keeps_dates_def, rule_format, of "local_secs loc t div 86400"] c by (simp add: time_date_def)
  have nz: "t \<noteq> zero_time" "?u \<noteq> zero_time"
    using year_of_zero [OF assms(3)] year_of_zero [OF assms(4)] c date ym(3) by (auto simp: time_year_def)
  then have s: "formatTrafficAnchorDate loc t = format_date_only loc t" "formatTrafficAnchorDate loc' ?u = format_date_only loc' ?u"
    by (simp_all add: formatTrafficAnchorDate_def)
  have trim: "trim_space (formatTrafficAnchorDate loc t) = formatTrafficAnchorDate loc t"
    unfolding s(1) by (rule trim_space_visible [OF format_date_visible [OF c ym(1,2)]])
  have "format_date_only loc t \<noteq> []" by (simp add: format_date_only_def c)
  then have "parseTrafficAnchorDate (formatTrafficAnchorDate loc t) (Some loc') = Some ?u"
    using trim parse_format_date [OF c ym(1,2), of loc'] date by (simp add: parseTrafficAnchorDate_def s(1) local_midnight_def)
  with trim date c s show thesis by (intro that) (simp_all add: time_day_def format_date_only_def)
qed

lemma day_in_month: "1 \<le> time_day loc t" "time_day loc t \<le> 31"
proof -
  obtain y m d where c: "civil_of_day (local_secs loc t div 86400) = (y, m, d)" by (metis prod_cases3)
  then have "1 \<le> d" "d \<le> 31"
    using civil_of_day_month(4,5) [OF c] month_length [of "12 * y + m - 1"] by simp_all
  with c show "1 \<le> time_day loc t" "time_day loc t \<le> 31" by (simp_all add: time_day_def time_date_def)
qed

text \<open>The three shapes of normalised cycle settings.\<close>

lemma server_cycle_cases:
  assumes "NormalizeServerCycleSettings env cycle = Inr c"
  obtains (calendar) "Srv_Mode c = CycleCalendarMonth" "Srv_BillingStartDay c = 1" "Srv_BillingAnchorDate c = []"
    | (clamp) "Srv_Mode c = CycleClampMonthEnd" "1 \<le> Srv_BillingStartDay c" "Srv_BillingStartDay c \<le> 31" "Srv_BillingAnchorDate c = []"
    | (anchor) t where "Srv_Mode c = CycleWHMCS" "parseTrafficAnchorDate (Srv_BillingAnchorDate cycle) (Some (Local env)) = Some t"
        "Srv_BillingStartDay c = time_day (Local env) t" "Srv_BillingAnchorDate c = formatTrafficAnchorDate (Local env) t"
  using assms
  by (auto simp: NormalizeServerCycleSettings_def NormalizeServerCycleMode_def Let_def parseTrafficAnchorDate_def not_less
      split: option.splits if_splits)

lemma server_cycle_timezone:
  "NormalizeServerCycleSettings env cycle = Inr c \<Longrightarrow>
     trim_space (Srv_BillingTimezone c) = Srv_BillingTimezone c \<and> timezone_ok env (Srv_BillingTimezone c)"
  by (auto simp: NormalizeServerCycleSettings_def Let_def timezone_ok_def split: option.splits if_splits)

lemma billing_location_exists:
  "timezone_ok env tz \<Longrightarrow> \<exists>loc. billingLocation env tz (Some fallback) = Inr loc"
  by (auto simp: billingLocation_def timezone_ok_def)

lemma normal_settings:
  assumes "NormalizeSettings env settings = Inr n"
  shows "NormalizeGuestAccessMode (Set_GuestAccessMode n) = Some (Set_GuestAccessMode n)"
    "NormalizeUsageMode (Set_UsageMode n) = Some (Set_UsageMode n)" "NormalizeDirectionMode (Set_DirectionMode n) = Some (Set_DirectionMode n)"
  using assms by (auto simp: NormalizeSettings_def Let_def NormalizeGuestAccessMode_def NormalizeUsageMode_def NormalizeDirectionMode_def
      split: option.splits if_splits)

lemma accepted_again:
  assumes "NormalizeServerCycleSettings env cycle = Inr c" "keeps_dates (Local env)" "zone_bounded (Local env)"
    and "\<forall>t. parseTrafficAnchorDate (Srv_BillingAnchorDate cycle) (Some (Local env)) = Some t \<longrightarrow> anchor_ok (Local env) t"
  shows "NormalizeServerCycleSettings env c = Inr c"
  using assms(1)
proof (cases rule: server_cycle_cases)
  case (anchor t)
  with assms(4) have "anchor_ok (Local env) t" by blast
  from reread_anchor [OF this assms(2,3,3)] obtain u where "parseTrafficAnchorDate (Srv_BillingAnchorDate c) (Some (Local env)) = Some u"
    "time_day (Local env) u = Srv_BillingStartDay c" "formatTrafficAnchorDate (Local env) u = Srv_BillingAnchorDate c"
    "trim_space (Srv_BillingAnchorDate c) = Srv_BillingAnchorDate c" unfolding anchor(3,4) .
  with anchor(1,3) server_cycle_timezone [OF assms(1)] day_in_month [of "Local env" t] show ?thesis
    by (cases c) (simp add: NormalizeServerCycleSettings_def NormalizeServerCycleMode_def Let_def)
qed (use server_cycle_timezone [OF assms(1)] in \<open>cases c; simp add: NormalizeServerCycleSettings_def NormalizeServerCycleMode_def\<close>)+

lemma cycle_in_settings:
  assumes "NormalizeServerCycleSettings env c = Inr c" "NormalizeSettings env settings = Inr n"
  shows "NormalizeSettings env (n\<lparr>Set_CycleMode := Srv_Mode c, Set_BillingStartDay := Srv_BillingStartDay c,
      Set_BillingAnchorDate := Srv_BillingAnchorDate c, Set_BillingTimezone := Srv_BillingTimezone c\<rparr>) =
    Inr (n\<lparr>Set_CycleMode := Srv_Mode c, Set_BillingStartDay := Srv_BillingStartDay c,
      Set_BillingAnchorDate := Srv_BillingAnchorDate c, Set_BillingTimezone := Srv_BillingTimezone c\<rparr>)"
proof -
  note n = normal_settings [OF assms(2)] and tz = server_cycle_timezone [OF assms(1)]
  from assms(1) show ?thesis
  proof (cases rule: server_cycle_cases)
    case (anchor t)
    then have "parseTrafficAnchorDate (trim_space (Srv_BillingAnchorDate c)) (Some (Local env)) = Some t"
      by (simp add: parseTrafficAnchorDate_def)
    with anchor day_in_month [of "Local env" t] n tz show ?thesis by (cases n) (simp add: NormalizeSettings_def NormalizeCycleMode_def)
  qed (use n tz in \<open>cases n; simp add: NormalizeSettings_def NormalizeCycleMode_def\<close>)+
qed

lemma cycle_has_rule:
  assumes "NormalizeServerCycleSettings env cycle = Inr c" "keeps_dates loc" "zone_bounded loc" "zone_bounded (Local env)"
    and "\<forall>t. parseTrafficAnchorDate (Srv_BillingAnchorDate cycle) (Some (Local env)) = Some t \<longrightarrow> anchor_ok (Local env) t"
  shows "newCycleRule (Srv_Mode c) (Srv_BillingStartDay c) (Srv_BillingAnchorDate c) (Some loc) =
    Inr \<lparr>rule_mode = Srv_Mode c, rule_day = Srv_BillingStartDay c, rule_anchor = Srv_BillingAnchorDate c, rule_loc = loc\<rparr>"
  using assms(1)
proof (cases rule: server_cycle_cases)
  case (anchor t)
  with assms(5) have "anchor_ok (Local env) t" by blast
  from reread_anchor [OF this assms(2,4,3)] obtain u where "parseTrafficAnchorDate (Srv_BillingAnchorDate c) (Some loc) = Some u"
    "time_day loc u = Srv_BillingStartDay c" "formatTrafficAnchorDate loc u = Srv_BillingAnchorDate c"
    "trim_space (Srv_BillingAnchorDate c) = Srv_BillingAnchorDate c" unfolding anchor(3,4) .
  with anchor(1,3) day_in_month [of "Local env" t] show ?thesis
    by (simp add: newCycleRule_def NormalizeCycleMode_def)
qed (simp_all add: newCycleRule_def NormalizeCycleMode_def)

text \<open>
  Cycle settings that were accepted for a server can always be used. Normalising them again changes
  nothing; combined with any valid global settings they give settings with exactly this cycle; their
  time zone can be loaded; and they always give a billing rule with this mode, day and anchor, whatever the
  billing zone -- although the anchor was read in the local zone of the machine.\<close>

theorem accepted_cycle_is_usable:
  assumes "NormalizeServerCycleSettings env cycle = Inr c"
    and "keeps_dates (Local env)" and "zone_bounded (Local env)" and "keeps_dates loc" and "zone_bounded loc"
    and "\<forall>t. parseTrafficAnchorDate (Srv_BillingAnchorDate cycle) (Some (Local env)) = Some t \<longrightarrow> anchor_ok (Local env) t"
    and "NormalizeSettings env settings = Inr n"
  shows "NormalizeServerCycleSettings env c = Inr c \<and>
    SettingsWithServerCycle env settings cycle = Inr (n\<lparr>Set_CycleMode := Srv_Mode c, Set_BillingStartDay := Srv_BillingStartDay c,
      Set_BillingAnchorDate := Srv_BillingAnchorDate c, Set_BillingTimezone := Srv_BillingTimezone c\<rparr>) \<and>
    (\<exists>zone. billingLocation env (Srv_BillingTimezone c) (Some fallback) = Inr zone) \<and>
    newCycleRule (Srv_Mode c) (Srv_BillingStartDay c) (Srv_BillingAnchorDate c) (Some loc) =
      Inr \<lparr>rule_mode = Srv_Mode c, rule_day = Srv_BillingStartDay c, rule_anchor = Srv_BillingAnchorDate c, rule_loc = loc\<rparr>"
  using accepted_again [OF assms(1,2,3,6)] cycle_in_settings [OF accepted_again [OF assms(1,2,3,6)] assms(7)]
    cycle_has_rule [OF assms(1,4,5,3,6)] billing_location_exists server_cycle_timezone [OF assms(1)] assms(1,7)
  by (simp add: SettingsWithServerCycle_def)

subsection \<open>A worked example\<close>

lemma fixed_keeps_dates: "keeps_dates (fixed_location name off)"
proof -
  let ?l = "fixed_location name off"
  have "local_secs ?l (midnight ?l y m d) = date_secs y m d 0" for y m d
    by (simp add: time_Date_def zone_adjust_def fixed_location_def local_secs_def offset_at_def Let_def second_ns_def)
  moreover have "month_start (12 * y + m - 1) + d - 1 = n" if "civil_of_day n = (y, m, d)" for y m d n
    using civil_of_day_month(3) [OF that] by simp
  ultimately show ?thesis
    by (auto simp: keeps_dates_def time_date_def date_secs_month split: prod.split)
qed

definition example_zones :: tz_env where
  "example_zones = \<lparr>LoadLocation = (\<lambda>name. if name = ''UTC'' then Some UTC else None), Local = UTC\<rparr>"

definition example_cycle :: ServerCycleSettings where
  "example_cycle = \<lparr>Srv_Mode = CycleWHMCS, Srv_BillingStartDay = 5, Srv_BillingAnchorDate = ''2026-01-31'', Srv_BillingTimezone = ''UTC''\<rparr>"

definition example_settings :: Settings where
  "example_settings = settingsFromTrafficSetting \<lparr>TS_GuestAccessMode = GuestAccessDisabled, TS_UsageMode = UsageBilling, TS_DirectionMode = DirectionOut\<rparr>"

lemma example_normal:
  "NormalizeServerCycleSettings example_zones example_cycle = Inr (example_cycle\<lparr>Srv_BillingStartDay := 31\<rparr>)"
  "NormalizeSettings example_zones example_settings = Inr example_settings"
  by code_simp+

theorem accepted_cycle_is_usable_witness:
  "newCycleRule CycleWHMCS 31 ''2026-01-31'' (Some UTC) =
     Inr \<lparr>rule_mode = CycleWHMCS, rule_day = 31, rule_anchor = ''2026-01-31'', rule_loc = UTC\<rparr>"
proof -
  have "anchor_ok UTC 63905414400000000000" by code_simp
  then have "\<forall>t. parseTrafficAnchorDate (Srv_BillingAnchorDate example_cycle) (Some (Local example_zones)) = Some t \<longrightarrow>
      anchor_ok (Local example_zones) t"
    by (simp add: example_cycle_def example_zones_def example_anchor)
  moreover have "keeps_dates UTC" unfolding UTC_def by (rule fixed_keeps_dates)
  moreover have "Local example_zones = UTC" by (simp add: example_zones_def)
  ultimately show ?thesis
    using accepted_cycle_is_usable [OF example_normal(1) _ _ _ _ _ example_normal(2), of UTC] UTC_bounded
    by (simp add: example_cycle_def)
qed

end
