(* ===== verification/Traffic_Usage.thy ===== *)
theory Traffic_Usage
  imports Traffic_Samples Traffic_Settings
begin

text \<open>
  The monthly accumulators: the computation of \<open>internal/store/traffic/traffic_usage.go\<close>, without its
  database operations, which are in \<open>Traffic_Store\<close>. Counter samples of a window are charged to the
  billing cycles they fall in; a progress mark per accumulator keeps what was charged before from being
  charged again.

  The accumulators and the progress marks are Go maps, modelled by association lists. A missing mark reads
  as the zero time.
\<close>

subsection \<open>Data\<close>

record trafficUsageKey =
  key_serverID :: int
  key_iface :: string
  key_cycleMode :: string
  key_billingStartDay :: int
  key_cycleStart :: time
  key_cycleEnd :: time

record TrafficMonthUsage =
  MU_ServerID :: int
  MU_Iface :: string
  MU_CycleMode :: string
  MU_BillingStartDay :: int
  MU_Timezone :: string
  MU_CycleStart :: time
  MU_CycleEnd :: time
  MU_CoveredFrom :: time
  MU_CoveredUntil :: time
  MU_LastCollectedAt :: time
  MU_InBytes :: int
  MU_OutBytes :: int
  MU_InPeak :: f64
  MU_OutPeak :: f64
  MU_BothPeak :: f64
  MU_SampleCount :: int
  MU_GapCount :: int
  MU_ResetCount :: int

record trafficUsageNICRow =
  UN_ServerID :: int
  UN_Iface :: string
  UN_ServerCycleMode :: string
  UN_BillingStartDay :: int
  UN_BillingAnchorDate :: string
  UN_BillingTimezone :: string
  UN_CollectedAt :: time
  UN_BytesRecv :: int
  UN_BytesSent :: int

type_synonym usage_map = "(trafficUsageKey, TrafficMonthUsage) gomap"
type_synonym progress_map = "(trafficUsageKey, time) gomap"
type_synonym usage_state = "usage_map \<times> progress_map"

datatype usage_error =
    UsageCycle cycle_error
  | UsageSettings settings_error
  | CycleDoesNotAdvance time

definition progress_at :: "progress_map \<Rightarrow> trafficUsageKey \<Rightarrow> time" where
  "progress_at progress key = (case map_of progress key of None \<Rightarrow> zero_time | Some t \<Rightarrow> t)"

definition trafficUsageKeyFromCycle :: "int \<Rightarrow> string \<Rightarrow> TrafficCycle \<Rightarrow> trafficUsageKey" where
  "trafficUsageKeyFromCycle serverID iface cycle = \<lparr>key_serverID = serverID, key_iface = iface, key_cycleMode = Cycle_Mode cycle,
     key_billingStartDay = wrap16 (Cycle_BillingStartDay cycle), key_cycleStart = Cycle_Start cycle, key_cycleEnd = Cycle_End cycle\<rparr>"

definition trafficUsageKeyFromUsage :: "TrafficMonthUsage \<Rightarrow> trafficUsageKey" where
  "trafficUsageKeyFromUsage row = \<lparr>key_serverID = MU_ServerID row, key_iface = MU_Iface row, key_cycleMode = MU_CycleMode row,
     key_billingStartDay = MU_BillingStartDay row, key_cycleStart = MU_CycleStart row, key_cycleEnd = MU_CycleEnd row\<rparr>"

definition nonNegative :: "f64 \<Rightarrow> f64" where
  "nonNegative v = (if f64_lt v f0 \<or> v = NaN \<or> v = PInf \<or> v = NInf then f0 else v)"

subsection \<open>Accumulators\<close>

definition trafficUsageAccumulatorFor :: "usage_map \<Rightarrow> trafficUsageKey \<Rightarrow> TrafficCycle \<Rightarrow> TrafficMonthUsage" where
  "trafficUsageAccumulatorFor usage key cycle =
     (case map_of usage key of
        Some acc \<Rightarrow> acc
      | None \<Rightarrow> \<lparr>MU_ServerID = key_serverID key, MU_Iface = key_iface key, MU_CycleMode = key_cycleMode key,
          MU_BillingStartDay = key_billingStartDay key, MU_Timezone = Cycle_Timezone cycle, MU_CycleStart = Cycle_Start cycle,
          MU_CycleEnd = Cycle_End cycle, MU_CoveredFrom = zero_time, MU_CoveredUntil = zero_time, MU_LastCollectedAt = zero_time,
          MU_InBytes = 0, MU_OutBytes = 0, MU_InPeak = f0, MU_OutPeak = f0, MU_BothPeak = f0, MU_SampleCount = 0, MU_GapCount = 0,
          MU_ResetCount = 0\<rparr>)"

definition cover_from :: "time \<Rightarrow> TrafficMonthUsage \<Rightarrow> TrafficMonthUsage" where
  "cover_from t row = (if MU_CoveredFrom row = zero_time \<or> t < MU_CoveredFrom row then row\<lparr>MU_CoveredFrom := t\<rparr> else row)"

definition mergeTrafficUsageSample ::
    "TrafficMonthUsage \<Rightarrow> int \<Rightarrow> int \<Rightarrow> f64 \<Rightarrow> f64 \<Rightarrow> bool \<Rightarrow> time \<Rightarrow> time \<Rightarrow> TrafficMonthUsage" where
  "mergeTrafficUsageSample row inBytes outBytes inRate outRate gap coveredFrom coveredUntil =
     (let (nextIn, inOK) = addTrafficBytes (MU_InBytes row) inBytes;
          (nextOut, outOK) = addTrafficBytes (MU_OutBytes row) outBytes;
          counted = inOK \<and> outOK; gap = gap \<or> \<not> counted;
          row = (if counted then row\<lparr>MU_InBytes := nextIn, MU_OutBytes := nextOut\<rparr> else row);
          row = cover_from coveredFrom row;
          row = row\<lparr>MU_CoveredUntil := max (MU_CoveredUntil row) coveredUntil, MU_LastCollectedAt := max (MU_LastCollectedAt row) coveredUntil\<rparr>
      in if gap then row\<lparr>MU_GapCount := wrap32 (MU_GapCount row + 1)\<rparr>
         else let inRate = nonNegative inRate; outRate = nonNegative outRate
              in row\<lparr>MU_SampleCount := wrap32 (MU_SampleCount row + 1), MU_InPeak := f64_max (MU_InPeak row) inRate,
                     MU_OutPeak := f64_max (MU_OutPeak row) outRate, MU_BothPeak := f64_max (MU_BothPeak row) (f64_add inRate outRate)\<rparr>)"

subsection \<open>Charging a pair of samples\<close>

record usage_pair =
  pair_server :: int
  pair_iface :: string
  pair_start :: time
  pair_end :: time
  pair_in :: int
  pair_out :: int

definition segment_from :: "time \<Rightarrow> time \<Rightarrow> time \<Rightarrow> time" where
  "segment_from st cursor lastAt = (let from = (if cursor < lastAt then lastAt else cursor) in if from < st then st else from)"

definition charge_segment :: "time \<Rightarrow> usage_pair \<Rightarrow> TrafficCycle \<Rightarrow> time \<Rightarrow> time \<Rightarrow> usage_state \<Rightarrow> usage_state" where
  "charge_segment st pr cycle cursor segEnd state =
     (case state of (usage, progress) \<Rightarrow>
       (let key = trafficUsageKeyFromCycle (pair_server pr) (pair_iface pr) cycle;
            lastAt = progress_at progress key; from = segment_from st cursor lastAt
        in if from < segEnd \<and> Cycle_Start cycle < segEnd \<and> from < Cycle_End cycle
           then (let totalSec = seconds_between (pair_start pr) (pair_end pr);
                     fromSec = seconds_between (pair_start pr) from; toSec = seconds_between (pair_start pr) segEnd;
                     inBytes = trafficBytesAt (pair_in pr) toSec totalSec - trafficBytesAt (pair_in pr) fromSec totalSec;
                     outBytes = trafficBytesAt (pair_out pr) toSec totalSec - trafficBytesAt (pair_out pr) fromSec totalSec;
                     gap = f64_lt (duration_seconds trafficMaxBillingGap) totalSec;
                     markGap = gap \<and> \<not> max (pair_start pr) (Cycle_Start cycle) < lastAt
                 in (AList.update key (mergeTrafficUsageSample (trafficUsageAccumulatorFor usage key cycle) inBytes outBytes
                        (f64_div (f64_of_int (pair_in pr)) totalSec) (f64_div (f64_of_int (pair_out pr)) totalSec) markGap from segEnd) usage,
                     AList.update key (max lastAt segEnd) progress))
           else (usage, progress)))"

function charge_loop :: "cycleRule \<Rightarrow> time \<Rightarrow> time \<Rightarrow> usage_pair \<Rightarrow> time \<Rightarrow> usage_state \<Rightarrow> usage_error + usage_state" where
  "charge_loop rule st en pr cursor state =
     (if cursor < pair_end pr \<and> cursor < en then
        (case rule_at rule cursor of
           Inl e \<Rightarrow> Inl (UsageCycle e)
         | Inr cycle \<Rightarrow>
            (let segEnd = min (min (pair_end pr) (Cycle_End cycle)) en
             in if cursor < segEnd then charge_loop rule st en pr segEnd (charge_segment st pr cycle cursor segEnd state)
                else Inl (CycleDoesNotAdvance cursor)))
      else Inr state)"
  by pat_completeness auto

termination
  by (relation "measure (\<lambda>(rule, st, en, pr, cursor, state). nat (en - cursor))") auto

declare charge_loop.simps [simp del]

definition mergeTrafficUsageReset :: "cycleRule \<Rightarrow> time \<Rightarrow> time \<Rightarrow> trafficUsageNICRow \<Rightarrow> usage_state \<Rightarrow> usage_error + usage_state" where
  "mergeTrafficUsageReset rule st en row state =
     (let stamp = UN_CollectedAt row
      in if stamp < st \<or> \<not> stamp < en then Inr state
         else (case rule_at rule stamp of
                 Inl e \<Rightarrow> Inl (UsageCycle e)
               | Inr cycle \<Rightarrow>
                  (case state of (usage, progress) \<Rightarrow>
                    (let key = trafficUsageKeyFromCycle (UN_ServerID row) (UN_Iface row) cycle
                     in if \<not> progress_at progress key < stamp then Inr state
                        else (let acc = trafficUsageAccumulatorFor usage key cycle;
                                  acc = cover_from stamp (acc\<lparr>MU_ResetCount := wrap32 (MU_ResetCount acc + 1)\<rparr>);
                                  acc = acc\<lparr>MU_LastCollectedAt := max (MU_LastCollectedAt acc) stamp, MU_CoveredUntil := max (MU_CoveredUntil acc) stamp\<rparr>
                              in Inr (AList.update key acc usage, AList.update key stamp progress))))))"

definition mergeTrafficUsagePair ::
    "cycleRule \<Rightarrow> time \<Rightarrow> time \<Rightarrow> trafficUsageNICRow \<Rightarrow> trafficUsageNICRow \<Rightarrow> usage_state \<Rightarrow> usage_error + usage_state" where
  "mergeTrafficUsagePair rule st en prev current state =
     (let inDelta = wrap64 (UN_BytesRecv current - UN_BytesRecv prev); outDelta = wrap64 (UN_BytesSent current - UN_BytesSent prev);
          pairStart = UN_CollectedAt prev; pairEnd = UN_CollectedAt current
      in if inDelta < 0 \<or> outDelta < 0 then mergeTrafficUsageReset rule st en current state
         else if inDelta = 0 \<and> outDelta = 0 then Inr state
         else if \<not> pairStart < pairEnd \<or> \<not> st < pairEnd \<or> \<not> pairStart < en then Inr state
         else if f64_le (seconds_between pairStart pairEnd) f0 then Inr state
         else charge_loop rule st en
                \<lparr>pair_server = UN_ServerID current, pair_iface = UN_Iface current, pair_start = pairStart, pair_end = pairEnd,
                 pair_in = inDelta, pair_out = outDelta\<rparr> (max pairStart st) state)"

subsection \<open>Charging the rows of a window\<close>

definition serverCycleSettingsFromRow :: "trafficUsageNICRow \<Rightarrow> ServerCycleSettings" where
  "serverCycleSettingsFromRow row = \<lparr>Srv_Mode = UN_ServerCycleMode row, Srv_BillingStartDay = UN_BillingStartDay row,
     Srv_BillingAnchorDate = UN_BillingAnchorDate row, Srv_BillingTimezone = UN_BillingTimezone row\<rparr>"

definition row_rule :: "tz_env \<Rightarrow> Settings \<Rightarrow> location \<Rightarrow> trafficUsageNICRow \<Rightarrow> usage_error + cycleRule" where
  "row_rule env settings loc row =
     (case SettingsWithServerCycle env settings (serverCycleSettingsFromRow row) of Inl e \<Rightarrow> Inl (UsageSettings e) | Inr effective \<Rightarrow>
      case SettingsLocation env effective (Some loc) of Inl e \<Rightarrow> Inl (UsageSettings e) | Inr cycleLoc \<Rightarrow>
      case newCycleRule (Set_CycleMode effective) (Set_BillingStartDay effective) (Set_BillingAnchorDate effective) (Some cycleLoc) of
        Inl e \<Rightarrow> Inl (UsageCycle e) | Inr rule \<Rightarrow> Inr rule)"

record usage_scan =
  scan_rule :: "(int \<times> cycleRule) option"
  scan_prev :: "trafficUsageNICRow option"
  scan_state :: usage_state

definition usage_row :: "tz_env \<Rightarrow> Settings \<Rightarrow> location \<Rightarrow> time \<Rightarrow> time \<Rightarrow> trafficUsageNICRow \<Rightarrow> usage_scan \<Rightarrow> usage_error + usage_scan" where
  "usage_row env settings loc st en row scan =
     (case (case scan_rule scan of
              Some (ruleServerID, rule) \<Rightarrow> if UN_ServerID row \<noteq> ruleServerID then row_rule env settings loc row else Inr rule
            | None \<Rightarrow> row_rule env settings loc row) of
        Inl e \<Rightarrow> Inl e
      | Inr rule \<Rightarrow>
         (let scan' = scan\<lparr>scan_rule := Some (UN_ServerID row, rule), scan_prev := Some row\<rparr>
          in case scan_prev scan of
               None \<Rightarrow> Inr scan'
             | Some prev \<Rightarrow>
                if UN_ServerID prev \<noteq> UN_ServerID row \<or> UN_Iface prev \<noteq> UN_Iface row then Inr scan'
                else if UN_CollectedAt prev < UN_CollectedAt row
                  then (case mergeTrafficUsagePair rule st en prev row (scan_state scan) of
                          Inl e \<Rightarrow> Inl e | Inr s \<Rightarrow> Inr (scan'\<lparr>scan_state := s\<rparr>))
                else Inr scan'))"

fun usage_rows :: "tz_env \<Rightarrow> Settings \<Rightarrow> location \<Rightarrow> time \<Rightarrow> time \<Rightarrow> trafficUsageNICRow list \<Rightarrow> usage_scan \<Rightarrow> usage_error + usage_scan" where
  "usage_rows env settings loc st en [] scan = Inr scan"
| "usage_rows env settings loc st en (row # rows) scan =
     (case usage_row env settings loc st en row scan of Inl e \<Rightarrow> Inl e | Inr scan \<Rightarrow> usage_rows env settings loc st en rows scan)"

definition buildTrafficMonthUsageRows ::
    "tz_env \<Rightarrow> trafficUsageNICRow list \<Rightarrow> Settings \<Rightarrow> location \<Rightarrow> time \<Rightarrow> time \<Rightarrow> progress_map \<Rightarrow> usage_error + TrafficMonthUsage list" where
  "buildTrafficMonthUsageRows env rows settings loc st en progress =
     (case usage_rows env settings loc st en rows \<lparr>scan_rule = None, scan_prev = None, scan_state = ([], progress)\<rparr> of
        Inl e \<Rightarrow> Inl e | Inr scan \<Rightarrow> Inr (map snd (fst (scan_state scan))))"

subsection \<open>The cycles of a rule\<close>

lemma rule_partition:
  assumes "rule_covers r ref"
  obtains c where "rule_at r ref = Inr c" "Cycle_Start c \<le> ref" "ref < Cycle_End c"
    "\<And>t. Cycle_Start c \<le> t \<Longrightarrow> t < Cycle_End c \<Longrightarrow> rule_at r t = Inr c"
  using assms month_cycles.partition anchor_cycles.partition unfolding rule_covers_def by blast

lemma covers_later: "rule_covers r s \<Longrightarrow> s \<le> t \<Longrightarrow> rule_covers r t"
  unfolding rule_covers_def using order_trans by blast

definition cycle_of_rule :: "cycleRule \<Rightarrow> TrafficCycle \<Rightarrow> bool" where
  "cycle_of_rule r c \<longleftrightarrow> (\<exists>t. rule_covers r t \<and> rule_at r t = Inr c)"

lemma cycle_extent:
  assumes "cycle_of_rule r c"
  shows "Cycle_Start c < Cycle_End c" "Cycle_Start c \<le> t \<Longrightarrow> t < Cycle_End c \<Longrightarrow> rule_at r t = Inr c"
proof -
  obtain u where u: "rule_covers r u" "rule_at r u = Inr c" using assms by (auto simp: cycle_of_rule_def)
  show "Cycle_Start c < Cycle_End c" "Cycle_Start c \<le> t \<Longrightarrow> t < Cycle_End c \<Longrightarrow> rule_at r t = Inr c"
    using u by (rule_tac rule_partition [OF u(1)]; simp)+
qed

lemma cycles_apart:
  assumes "cycle_of_rule r c" "cycle_of_rule r c'" "c \<noteq> c'"
  shows "Cycle_End c \<le> Cycle_Start c' \<or> Cycle_End c' \<le> Cycle_Start c"
    and "trafficUsageKeyFromCycle i n c \<noteq> trafficUsageKeyFromCycle i n c'"
proof -
  note e = cycle_extent [OF assms(1)] cycle_extent [OF assms(2)]
  have disjoint: False if "Cycle_Start c \<le> t" "t < Cycle_End c" "Cycle_Start c' \<le> t" "t < Cycle_End c'" for t
    using e(2) [OF that(1,2)] e(4) [OF that(3,4)] assms(3) by simp
  show "Cycle_End c \<le> Cycle_Start c' \<or> Cycle_End c' \<le> Cycle_Start c"
    using disjoint [of "max (Cycle_Start c) (Cycle_Start c')"] e(1,3) by (metis linorder_le_cases linorder_not_le max.absorb1 max.absorb2)
  show "trafficUsageKeyFromCycle i n c \<noteq> trafficUsageKeyFromCycle i n c'"
    using disjoint [of "Cycle_Start c"] e(1,3) by (auto simp: trafficUsageKeyFromCycle_def)
qed

subsection \<open>What a pair is charged\<close>

definition in_bytes :: "usage_map \<Rightarrow> trafficUsageKey \<Rightarrow> int" where
  "in_bytes usage k = (case map_of usage k of None \<Rightarrow> 0 | Some row \<Rightarrow> MU_InBytes row)"

definition out_bytes :: "usage_map \<Rightarrow> trafficUsageKey \<Rightarrow> int" where
  "out_bytes usage k = (case map_of usage k of None \<Rightarrow> 0 | Some row \<Rightarrow> MU_OutBytes row)"

lemma bytes_update [simp]:
  "in_bytes (AList.update k row usage) k' = (if k' = k then MU_InBytes row else in_bytes usage k')"
  "out_bytes (AList.update k row usage) k' = (if k' = k then MU_OutBytes row else out_bytes usage k')"
  by (simp_all add: in_bytes_def out_bytes_def)

lemma progress_update [simp]: "progress_at (AList.update k t progress) k' = (if k' = k then t else progress_at progress k')"
  by (simp add: progress_at_def)

definition share :: "int \<Rightarrow> usage_pair \<Rightarrow> time \<Rightarrow> time \<Rightarrow> int" where
  "share delta pr lo hi = (if lo < hi then bytes_by delta (pair_start pr) (pair_end pr) hi - bytes_by delta (pair_start pr) (pair_end pr) lo else 0)"

definition pair_ok :: "usage_pair \<Rightarrow> bool" where
  "pair_ok pr \<longleftrightarrow> pair_start pr < pair_end pr \<and> is_i64 (pair_in pr) \<and> is_i64 (pair_out pr) \<and> 0 \<le> pair_in pr \<and> 0 \<le> pair_out pr"

text \<open>The accumulator does not overflow when the share of a stretch is added.\<close>

definition room :: "usage_map \<Rightarrow> usage_pair \<Rightarrow> trafficUsageKey \<Rightarrow> time \<Rightarrow> time \<Rightarrow> bool" where
  "room usage pr k lo hi \<longleftrightarrow> 0 \<le> in_bytes usage k \<and> in_bytes usage k + share (pair_in pr) pr lo hi \<le> max_i64 \<and>
     0 \<le> out_bytes usage k \<and> out_bytes usage k + share (pair_out pr) pr lo hi \<le> max_i64"

lemma share_range:
  assumes "is_i64 d" "0 \<le> d" "pair_start pr < pair_end pr" "pair_start pr \<le> lo"
  shows "0 \<le> share d pr lo hi" "share d pr lo hi \<le> d"
proof -
  note mono = bytes_by_mono [OF assms(1,3)]
  have "bytes_by d (pair_start pr) (pair_end pr) hi \<le> bytes_by d (pair_start pr) (pair_end pr) (max hi (pair_end pr))"
    "0 \<le> bytes_by d (pair_start pr) (pair_end pr) lo" if "lo < hi"
    using mono [of hi "max hi (pair_end pr)"] mono [of "pair_start pr" lo] assms(4) that by simp_all
  moreover have "bytes_by d (pair_start pr) (pair_end pr) (max hi (pair_end pr)) = d"
    using bytes_by_end [OF assms(3), of "max hi (pair_end pr)" d] assms(2) by simp
  ultimately show "share d pr lo hi \<le> d" using assms(2) by (auto simp: share_def)
  show "0 \<le> share d pr lo hi" using mono [of lo hi] assms(4) by (simp add: share_def)
qed

lemma accumulator_bytes:
  "MU_InBytes (trafficUsageAccumulatorFor usage k c) = in_bytes usage k"
  "MU_OutBytes (trafficUsageAccumulatorFor usage k c) = out_bytes usage k"
  by (simp_all add: trafficUsageAccumulatorFor_def in_bytes_def out_bytes_def split: option.split)

lemma merge_sample_bytes:
  assumes "0 \<le> MU_InBytes row" "0 \<le> i" "MU_InBytes row + i \<le> max_i64" "0 \<le> MU_OutBytes row" "0 \<le> u" "MU_OutBytes row + u \<le> max_i64"
  shows "MU_InBytes (mergeTrafficUsageSample row i u ri ro gap s e) = MU_InBytes row + i"
    "MU_OutBytes (mergeTrafficUsageSample row i u ri ro gap s e) = MU_OutBytes row + u"
proof -
  have ok: "addTrafficBytes (MU_InBytes row) i = (MU_InBytes row + i, True)" "addTrafficBytes (MU_OutBytes row) u = (MU_OutBytes row + u, True)"
    using assms by (simp_all add: addTrafficBytes_ok)
  show "MU_InBytes (mergeTrafficUsageSample row i u ri ro gap s e) = MU_InBytes row + i"
    "MU_OutBytes (mergeTrafficUsageSample row i u ri ro gap s e) = MU_OutBytes row + u"
    by (simp_all add: mergeTrafficUsageSample_def ok cover_from_def Let_def)
qed

text \<open>One segment: only its own accumulator changes, by exactly the share that was not charged before.\<close>

lemma charge_segment_effect:
  assumes "pair_ok pr" "pair_start pr \<le> cursor" "st \<le> cursor" "cursor < segEnd" "Cycle_Start c \<le> cursor" "segEnd \<le> Cycle_End c"
    and "room usage pr (trafficUsageKeyFromCycle (pair_server pr) (pair_iface pr) c)
      (max cursor (progress_at progress (trafficUsageKeyFromCycle (pair_server pr) (pair_iface pr) c))) segEnd"
    and "charge_segment st pr c cursor segEnd (usage, progress) = (usage', progress')"
  shows "k \<noteq> trafficUsageKeyFromCycle (pair_server pr) (pair_iface pr) c \<Longrightarrow>
      in_bytes usage' k = in_bytes usage k \<and> out_bytes usage' k = out_bytes usage k \<and> progress_at progress' k = progress_at progress k"
    and "k = trafficUsageKeyFromCycle (pair_server pr) (pair_iface pr) c \<Longrightarrow> lo = max cursor (progress_at progress k) \<Longrightarrow>
      in_bytes usage' k = in_bytes usage k + share (pair_in pr) pr lo segEnd \<and>
      out_bytes usage' k = out_bytes usage k + share (pair_out pr) pr lo segEnd \<and>
      progress_at progress' k = (if lo < segEnd then segEnd else progress_at progress k)"
proof -
  let ?k = "trafficUsageKeyFromCycle (pair_server pr) (pair_iface pr) c"
  let ?lo = "max cursor (progress_at progress ?k)"
  let ?acc = "trafficUsageAccumulatorFor usage ?k c"
  have lo_eq: "segment_from st cursor (progress_at progress ?k) = ?lo" using assms(3) by (simp add: segment_from_def max_def Let_def)
  note defs = in_bytes_def out_bytes_def progress_at_def
  show "in_bytes usage' k = in_bytes usage k \<and> out_bytes usage' k = out_bytes usage k \<and> progress_at progress' k = progress_at progress k"
    if "k \<noteq> ?k" using assms(8) that by (auto simp: charge_segment_def Let_def defs split: if_splits)
  show "in_bytes usage' k = in_bytes usage k + share (pair_in pr) pr lo segEnd \<and>
      out_bytes usage' k = out_bytes usage k + share (pair_out pr) pr lo segEnd \<and>
      progress_at progress' k = (if lo < segEnd then segEnd else progress_at progress k)"
    if k: "k = ?k" and lo: "lo = max cursor (progress_at progress k)"
  proof (cases "lo < segEnd")
    case False
    then show ?thesis using assms(8) k lo by (auto simp: charge_segment_def Let_def lo_eq share_def)
  next
    case True
    have s: "is_i64 (pair_in pr)" "is_i64 (pair_out pr)" "0 \<le> pair_in pr" "0 \<le> pair_out pr" "pair_start pr < pair_end pr" "pair_start pr \<le> lo"
      using assms(1,2) lo by (simp_all add: pair_ok_def)
    define i u where "i = share (pair_in pr) pr lo segEnd" and "u = share (pair_out pr) pr lo segEnd"
    have eqs: "trafficBytesAt (pair_in pr) (seconds_between (pair_start pr) segEnd) (seconds_between (pair_start pr) (pair_end pr)) -
        trafficBytesAt (pair_in pr) (seconds_between (pair_start pr) lo) (seconds_between (pair_start pr) (pair_end pr)) = i"
      "trafficBytesAt (pair_out pr) (seconds_between (pair_start pr) segEnd) (seconds_between (pair_start pr) (pair_end pr)) -
        trafficBytesAt (pair_out pr) (seconds_between (pair_start pr) lo) (seconds_between (pair_start pr) (pair_end pr)) = u"
      using True by (simp_all add: i_def u_def share_def bytes_by_def)
    have range: "0 \<le> i" "i \<le> pair_in pr" "0 \<le> u" "u \<le> pair_out pr"
      unfolding i_def u_def using share_range [OF s(1,3,5,6)] share_range [OF s(2,4,5,6)] by simp_all
    have "0 \<le> MU_InBytes ?acc" "MU_InBytes ?acc + i \<le> max_i64" "0 \<le> MU_OutBytes ?acc" "MU_OutBytes ?acc + u \<le> max_i64"
      using assms(7) k lo by (simp_all add: room_def accumulator_bytes i_def u_def)
    note merged = merge_sample_bytes [OF this(1) range(1) this(2,3) range(3) this(4)]
    have guard: "Cycle_Start c < segEnd" "lo < Cycle_End c" using assms(4-6) True by simp_all
    have lo': "segment_from st cursor (progress_at progress ?k) = lo" unfolding lo_eq lo k ..
    let ?sec = "seconds_between (pair_start pr) (pair_end pr)"
    have "usage' = AList.update ?k (mergeTrafficUsageSample ?acc i u (f64_div (f64_of_int (pair_in pr)) ?sec) (f64_div (f64_of_int (pair_out pr)) ?sec)
        (f64_lt (duration_seconds trafficMaxBillingGap) ?sec \<and> \<not> max (pair_start pr) (Cycle_Start c) < progress_at progress ?k) lo segEnd) usage"
      and p: "progress' = AList.update ?k (max (progress_at progress ?k) segEnd) progress"
      using assms(8) True guard by (simp_all add: charge_segment_def Let_def lo' eqs)
    then have "in_bytes usage' k = in_bytes usage k + i" "out_bytes usage' k = out_bytes usage k + u"
      by (simp_all add: merged accumulator_bytes k)
    moreover have "progress_at progress' k = segEnd" using True lo by (simp add: p k)
    ultimately show ?thesis using True by (simp add: i_def u_def)
  qed
qed

text \<open>The whole loop, for every cycle of the rule.\<close>

definition charged :: "usage_pair \<Rightarrow> time \<Rightarrow> time \<Rightarrow> usage_state \<Rightarrow> usage_state \<Rightarrow> TrafficCycle \<Rightarrow> bool" where
  "charged pr from until before after c \<longleftrightarrow>
     (let k = trafficUsageKeyFromCycle (pair_server pr) (pair_iface pr) c;
          lo = max (max from (Cycle_Start c)) (progress_at (snd before) k); hi = min until (Cycle_End c)
      in in_bytes (fst after) k = in_bytes (fst before) k + share (pair_in pr) pr lo hi \<and>
         out_bytes (fst after) k = out_bytes (fst before) k + share (pair_out pr) pr lo hi \<and>
         progress_at (snd after) k = (if lo < hi then hi else progress_at (snd before) k))"

definition fits :: "usage_pair \<Rightarrow> time \<Rightarrow> time \<Rightarrow> usage_state \<Rightarrow> TrafficCycle \<Rightarrow> bool" where
  "fits pr from until state c \<longleftrightarrow>
     (let k = trafficUsageKeyFromCycle (pair_server pr) (pair_iface pr) c
      in room (fst state) pr k (max (max from (Cycle_Start c)) (progress_at (snd state) k)) (min until (Cycle_End c)))"

definition same_account :: "usage_pair \<Rightarrow> usage_state \<Rightarrow> usage_state \<Rightarrow> TrafficCycle \<Rightarrow> bool" where
  "same_account pr before after c \<longleftrightarrow>
     (let k = trafficUsageKeyFromCycle (pair_server pr) (pair_iface pr) c
      in in_bytes (fst after) k = in_bytes (fst before) k \<and> out_bytes (fst after) k = out_bytes (fst before) k \<and>
         progress_at (snd after) k = progress_at (snd before) k)"

lemma charged_outside:
  "min until (Cycle_End c) \<le> max from (Cycle_Start c) \<Longrightarrow> charged pr from until before after c \<longleftrightarrow> same_account pr before after c"
  by (auto simp: charged_def same_account_def Let_def share_def)

lemma charged_same:
  assumes "same_account pr before mid c"
  shows "charged pr from until mid after c \<longleftrightarrow> charged pr from until before after c"
  using assms by (simp add: charged_def same_account_def Let_def)

lemma charged_then_same:
  assumes "charged pr from until before mid c" "same_account pr mid after c"
  shows "charged pr from until before after c"
  using assms by (simp add: charged_def same_account_def Let_def)

definition bounded_account :: "usage_pair \<Rightarrow> usage_state \<Rightarrow> TrafficCycle \<Rightarrow> bool" where
  "bounded_account pr state c \<longleftrightarrow>
     (let k = trafficUsageKeyFromCycle (pair_server pr) (pair_iface pr) c
      in 0 \<le> in_bytes (fst state) k \<and> in_bytes (fst state) k \<le> max_i64 \<and> 0 \<le> out_bytes (fst state) k \<and> out_bytes (fst state) k \<le> max_i64)"

lemma fits_outside:
  "min until (Cycle_End c) \<le> max from (Cycle_Start c) \<Longrightarrow> fits pr from until state c \<longleftrightarrow> bounded_account pr state c"
  by (auto simp: fits_def bounded_account_def room_def Let_def share_def)

lemma fits_same: "same_account pr before mid c \<Longrightarrow> fits pr from until mid c \<longleftrightarrow> fits pr from until before c"
  by (simp add: fits_def same_account_def room_def Let_def)

lemma shares_nonneg:
  assumes "pair_ok pr" "pair_start pr \<le> lo"
  shows "0 \<le> share (pair_in pr) pr lo hi" "0 \<le> share (pair_out pr) pr lo hi"
  using assms share_range by (auto simp: pair_ok_def)

lemma charged_bounded:
  assumes "pair_ok pr" "pair_start pr \<le> from" "fits pr from until before c" "charged pr from until before after c"
  shows "bounded_account pr after c"
proof -
  define k where "k = trafficUsageKeyFromCycle (pair_server pr) (pair_iface pr) c"
  define lo where "lo = max (max from (Cycle_Start c)) (progress_at (snd before) k)"
  have "pair_start pr \<le> lo" using assms(2) by (simp add: lo_def le_max_iff_disj)
  from shares_nonneg [OF assms(1) this] assms(3,4) show ?thesis
    unfolding fits_def charged_def bounded_account_def room_def Let_def k_def [symmetric] lo_def [symmetric] by simp
qed

lemma charge_loop_done: "\<not> cursor < min (pair_end pr) en \<Longrightarrow> charge_loop rule st en pr cursor state = Inr state"
  by (subst charge_loop.simps) auto

lemma charge_loop_effect:
  assumes "pair_ok pr" "pair_start pr \<le> cursor" "st \<le> cursor" "rule_covers rule cursor"
    and "\<And>c. cycle_of_rule rule c \<Longrightarrow> fits pr cursor (min (pair_end pr) en) state c"
  shows "\<exists>state'. charge_loop rule st en pr cursor state = Inr state' \<and>
    (\<forall>c. cycle_of_rule rule c \<longrightarrow> charged pr cursor (min (pair_end pr) en) state state' c)"
  using assms
proof (induction rule st en pr cursor state rule: charge_loop.induct)
  case (1 rule st en pr cursor state)
  let ?E = "min (pair_end pr) en" and ?key = "\<lambda>c. trafficUsageKeyFromCycle (pair_server pr) (pair_iface pr) c"
  show ?case
  proof (cases "cursor < ?E")
    case False
    then have "charged pr cursor ?E state state c" for c by (subst charged_outside) (auto simp: same_account_def)
    with False show ?thesis by (simp add: charge_loop_done)
  next
    case True
    obtain c0 where c0: "rule_at rule cursor = Inr c0" "Cycle_Start c0 \<le> cursor" "cursor < Cycle_End c0"
      using rule_partition [OF "1.prems"(4)] by metis
    have cyc: "cycle_of_rule rule c0" using c0(1) "1.prems"(4) by (auto simp: cycle_of_rule_def)
    define segEnd where "segEnd = min (min (pair_end pr) (Cycle_End c0)) en"
    have seg: "cursor < segEnd" "segEnd \<le> Cycle_End c0" "segEnd = min ?E (Cycle_End c0)" using True c0(3) by (simp_all add: segEnd_def)
    define mid where "mid = charge_segment st pr c0 cursor segEnd state"
    have loop: "charge_loop rule st en pr cursor state = charge_loop rule st en pr segEnd mid"
      using True c0(1) seg(1) by (simp add: charge_loop.simps [of rule st en pr cursor] segEnd_def mid_def Let_def)
    have mid_eq: "charge_segment st pr c0 cursor segEnd (fst state, snd state) = (fst mid, snd mid)" by (simp add: mid_def)
    have "room (fst state) pr (?key c0) (max cursor (progress_at (snd state) (?key c0))) segEnd"
      using "1.prems"(5) [OF cyc] c0(2) unfolding fits_def Let_def seg(3) by (simp add: max.absorb1)
    note effect = charge_segment_effect [OF "1.prems"(1-3) seg(1) c0(2) seg(2) this mid_eq]
    have mid: "in_bytes (fst mid) k = in_bytes (fst state) k" "out_bytes (fst mid) k = out_bytes (fst state) k"
      "progress_at (snd mid) k = progress_at (snd state) k" if "k \<noteq> ?key c0" for k
      using effect(1) [OF that] by simp_all
    have c0_charged: "charged pr cursor ?E state mid c0"
      using effect(2) [OF refl refl] c0(2) unfolding charged_def Let_def seg(3) by (simp add: max.absorb1)
    have other: "same_account pr state mid c" "min ?E (Cycle_End c) \<le> max cursor (Cycle_Start c) \<or> Cycle_End c0 \<le> Cycle_Start c"
      if "cycle_of_rule rule c" "c \<noteq> c0" for c
      using mid cycles_apart [OF that(1) cyc that(2)] c0(2) by (auto simp: same_account_def)
    show ?thesis
    proof (cases "segEnd < ?E")
      case False
      have "charged pr cursor ?E state mid c" if "cycle_of_rule rule c" for c
      proof (cases "c = c0")
        case False
        have "min ?E (Cycle_End c) \<le> max cursor (Cycle_Start c)" using other(2) [OF that False] \<open>\<not> segEnd < ?E\<close> seg by linarith
        with other(1) [OF that False] show ?thesis by (simp add: charged_outside)
      qed (use c0_charged in simp)
      with False show ?thesis using loop by (simp add: charge_loop_done)
    next
      case more: True
      then have e: "segEnd = Cycle_End c0" using seg(3) by linarith
      have room: "fits pr segEnd ?E mid c" if cy: "cycle_of_rule rule c" for c
      proof (cases "c = c0")
        case True
        have "bounded_account pr mid c0" using charged_bounded [OF "1.prems"(1,2) "1.prems"(5) [OF cyc] c0_charged] .
        with True show ?thesis using e by (simp add: fits_outside)
      next
        case False
        have f: "fits pr cursor ?E mid c" using "1.prems"(5) [OF cy] fits_same [OF other(1) [OF cy False]] by blast
        consider "min ?E (Cycle_End c) \<le> max cursor (Cycle_Start c)" | "segEnd \<le> Cycle_Start c" using other(2) [OF cy False] e by blast
        then show ?thesis
        proof cases
          case 1
          then have "min ?E (Cycle_End c) \<le> max segEnd (Cycle_Start c)" using seg(1) by linarith
          with f 1 show ?thesis by (simp only: fits_outside)
        next
          case 2
          then have "max segEnd (Cycle_Start c) = Cycle_Start c" "max cursor (Cycle_Start c) = Cycle_Start c" using seg(1) by simp_all
          with f show ?thesis by (simp add: fits_def)
        qed
      qed
      have "\<exists>state'. charge_loop rule st en pr segEnd mid = Inr state' \<and> (\<forall>c. cycle_of_rule rule c \<longrightarrow> charged pr segEnd ?E mid state' c)"
        unfolding mid_def
      proof (rule "1.IH")
        show "cursor < pair_end pr \<and> cursor < en" "rule_at rule cursor = Inr c0" "segEnd = min (min (pair_end pr) (Cycle_End c0)) en" "cursor < segEnd"
          using True c0(1) seg(1) by (simp_all add: segEnd_def)
        show "pair_ok pr" "pair_start pr \<le> segEnd" "st \<le> segEnd" using "1.prems"(1-3) seg(1) by simp_all
        show "rule_covers rule segEnd" using covers_later [OF "1.prems"(4)] seg(1) by simp
      qed (use room in \<open>simp add: mid_def\<close>)
      then obtain state' where s: "charge_loop rule st en pr segEnd mid = Inr state'" "\<And>c. cycle_of_rule rule c \<Longrightarrow> charged pr segEnd ?E mid state' c"
        by blast
      have "charged pr cursor ?E state state' c" if cy: "cycle_of_rule rule c" for c
      proof (cases "c = c0")
        case True
        have "same_account pr mid state' c0" using s(2) [OF cyc] e by (simp add: charged_outside)
        with c0_charged True show ?thesis by (simp add: charged_then_same)
      next
        case False
        consider "min ?E (Cycle_End c) \<le> max cursor (Cycle_Start c)" | "segEnd \<le> Cycle_Start c" using other(2) [OF cy False] e by blast
        then show ?thesis
        proof cases
          case 1
          then have "min ?E (Cycle_End c) \<le> max segEnd (Cycle_Start c)" using seg(1) by linarith
          then have "same_account pr mid state' c" using s(2) [OF cy] by (simp add: charged_outside)
          with other(1) [OF cy False] 1 show ?thesis by (simp add: charged_outside same_account_def Let_def)
        next
          case 2
          then have "max segEnd (Cycle_Start c) = Cycle_Start c" "max cursor (Cycle_Start c) = Cycle_Start c" using seg(1) by simp_all
          with s(2) [OF cy] have "charged pr cursor ?E mid state' c" by (simp add: charged_def)
          with charged_same [OF other(1) [OF cy False]] show ?thesis by blast
        qed
      qed
      with s(1) loop show ?thesis by auto
    qed
  qed
qed

subsection \<open>Overlapping windows\<close>

definition pair_of :: "trafficUsageNICRow \<Rightarrow> trafficUsageNICRow \<Rightarrow> usage_pair" where
  "pair_of prev current = \<lparr>pair_server = UN_ServerID current, pair_iface = UN_Iface current, pair_start = UN_CollectedAt prev,
     pair_end = UN_CollectedAt current, pair_in = wrap64 (UN_BytesRecv current - UN_BytesRecv prev),
     pair_out = wrap64 (UN_BytesSent current - UN_BytesSent prev)\<rparr>"

lemma merge_pair_effect:
  assumes "pair_ok (pair_of prev current)" "pr = pair_of prev current" "pair_in pr \<noteq> 0 \<or> pair_out pr \<noteq> 0"
    and "rule_covers rule (max (pair_start pr) st)"
    and "\<And>c. cycle_of_rule rule c \<Longrightarrow> fits pr (max (pair_start pr) st) (min (pair_end pr) en) state c"
  obtains state' where "mergeTrafficUsagePair rule st en prev current state = Inr state'"
    "\<And>c. cycle_of_rule rule c \<Longrightarrow> charged pr (max (pair_start pr) st) (min (pair_end pr) en) state state' c"
proof -
  have p: "pair_ok pr" using assms(1,2) by simp
  let ?loop = "charge_loop rule st en pr (max (pair_start pr) st) state"
  have loop: "\<exists>state'. ?loop = Inr state' \<and> (\<forall>c. cycle_of_rule rule c \<longrightarrow> charged pr (max (pair_start pr) st) (min (pair_end pr) en) state state' c)"
    by (rule charge_loop_effect [OF p]) (use assms(4,5) in simp_all)
  have pos: "\<not> f64_le (seconds_between (pair_start pr) (pair_end pr)) f0"
    using seconds_pos [of "pair_start pr" "pair_end pr"] p by (auto simp: pair_ok_def)
  have "mergeTrafficUsagePair rule st en prev current state = ?loop"
  proof (cases "st < pair_end pr \<and> pair_start pr < en")
    case True
    then show ?thesis using p assms(3) pos
      by (auto simp: mergeTrafficUsagePair_def Let_def pair_ok_def assms(2) pair_of_def)
  next
    case False
    then have "?loop = Inr state" by (intro charge_loop_done) auto
    then show ?thesis using False p assms(3)
      by (auto simp: mergeTrafficUsagePair_def Let_def pair_ok_def assms(2) pair_of_def)
  qed
  with loop that show thesis by auto
qed

lemma no_movement:
  assumes "pair_in (pair_of prev current) = 0" "pair_out (pair_of prev current) = 0"
  shows "mergeTrafficUsagePair rule st en prev current state = Inr state" "share 0 pr lo hi = 0"
  using assms by (simp_all add: mergeTrafficUsagePair_def pair_of_def share_def bytes_by_def trafficBytesAt_def)

text \<open>
  The arithmetic of two windows that meet or overlap: \<open>L\<close> is the mark before, \<open>c\<close> and \<open>d\<close> bound the cycle.
\<close>

lemma two_windows:
  fixes s e c d L st m m' en :: int
  assumes "st \<le> m'" "m' \<le> m" "m \<le> en"
  defines "lo \<equiv> max (max (max s st) c) L" and "hi \<equiv> min (min e m) d" and "hi' \<equiv> min (min e en) d"
  defines "L' \<equiv> if lo < hi then hi else L"
  defines "lo' \<equiv> max (max (max s m') c) L'"
  shows "share x pr lo hi + share x pr lo' hi' = share x pr lo hi'"
    and "(if lo' < hi' then hi' else L') = (if lo < hi' then hi' else L)"
proof -
  define B where "B = max (max s c) L"
  have hi: "hi = min m hi'" using assms(3) by (simp add: hi_def hi'_def min.absorb2 min.left_commute min.commute)
  have lo: "lo = max st B" "lo' = max m' (max (max s c) L')" by (simp_all add: lo_def lo'_def B_def max.assoc max.left_commute max.commute)
  have "lo' = hi \<and> hi \<le> hi' \<or> hi = hi' \<and> hi \<le> lo'" if "lo < hi"
  proof -
    have "max (max s c) L' = hi" using that lo(1) unfolding L'_def B_def by simp
    then show ?thesis using hi assms(2) lo(2) by linarith
  qed
  moreover have "L' = L \<and> (lo' = lo \<or> hi' \<le> lo \<and> hi' \<le> lo')" if "\<not> lo < hi"
  proof -
    have "L' = L" using that by (simp add: L'_def)
    then have "lo' = max m' B" using lo(2) by (simp add: B_def)
    then show ?thesis using hi lo(1) assms(1,2) that \<open>L' = L\<close> by linarith
  qed
  ultimately have "lo < hi \<and> (lo' = hi \<and> hi \<le> hi' \<or> hi = hi' \<and> hi \<le> lo') \<or> hi \<le> lo \<and> L' = L \<and> (lo' = lo \<or> hi' \<le> lo \<and> hi' \<le> lo')"
    by linarith
  then show "share x pr lo hi + share x pr lo' hi' = share x pr lo hi'" "(if lo' < hi' then hi' else L') = (if lo < hi' then hi' else L)"
    by (auto simp: share_def L'_def)
qed

lemma windows_of_cycle:
  assumes "pair_ok pr" "st \<le> m'" "m' \<le> m" "m \<le> en" and fits: "fits pr (max (pair_start pr) st) (min (pair_end pr) en) state c"
  shows "fits pr (max (pair_start pr) st) (min (pair_end pr) m) state c"
    and "charged pr (max (pair_start pr) st) (min (pair_end pr) m) state first c \<Longrightarrow> fits pr (max (pair_start pr) m') (min (pair_end pr) en) first c"
    and "charged pr (max (pair_start pr) st) (min (pair_end pr) m) state first c \<Longrightarrow>
      charged pr (max (pair_start pr) m') (min (pair_end pr) en) first second c \<Longrightarrow>
      charged pr (max (pair_start pr) st) (min (pair_end pr) en) state second c"
proof -
  define k where "k = trafficUsageKeyFromCycle (pair_server pr) (pair_iface pr) c"
  define L where "L = progress_at (snd state) k"
  define lo where "lo = max (max (max (pair_start pr) st) (Cycle_Start c)) L"
  define hi where "hi = min (min (pair_end pr) m) (Cycle_End c)"
  define hi' where "hi' = min (min (pair_end pr) en) (Cycle_End c)"
  define L' where "L' = (if lo < hi then hi else L)"
  define lo' where "lo' = max (max (max (pair_start pr) m') (Cycle_Start c)) L'"
  note eqs = two_windows [OF assms(2-4), where s = "pair_start pr" and c = "Cycle_Start c" and L = L and e = "pair_end pr" and d = "Cycle_End c",
      folded lo_def hi_def hi'_def, folded L'_def, folded lo'_def]
  note folds = k_def [symmetric] L_def [symmetric] lo_def [symmetric] hi_def [symmetric] hi'_def [symmetric]
  have "pair_start pr \<le> lo" "pair_start pr \<le> lo'" by (simp_all add: lo_def lo'_def le_max_iff_disj)
  note nn = shares_nonneg [OF assms(1) this(1), of hi] shares_nonneg [OF assms(1) this(2), of hi']
  have room: "room (fst state) pr k lo hi'" using fits unfolding fits_def Let_def folds .
  then show "fits pr (max (pair_start pr) st) (min (pair_end pr) m) state c"
    unfolding fits_def Let_def folds room_def using nn eqs(1) [of "pair_in pr" pr] eqs(1) [of "pair_out pr" pr] by simp
  assume "charged pr (max (pair_start pr) st) (min (pair_end pr) m) state first c"
  then have first: "in_bytes (fst first) k = in_bytes (fst state) k + share (pair_in pr) pr lo hi"
    "out_bytes (fst first) k = out_bytes (fst state) k + share (pair_out pr) pr lo hi" "progress_at (snd first) k = L'"
    unfolding charged_def Let_def folds L'_def by simp_all
  show "fits pr (max (pair_start pr) m') (min (pair_end pr) en) first c"
    using room nn eqs(1) [of "pair_in pr" pr] eqs(1) [of "pair_out pr" pr]
    unfolding fits_def Let_def folds room_def first lo'_def [symmetric] by simp
  assume "charged pr (max (pair_start pr) m') (min (pair_end pr) en) first second c"
  then show "charged pr (max (pair_start pr) st) (min (pair_end pr) en) state second c"
    using eqs(1) [of "pair_in pr" pr] eqs(1) [of "pair_out pr" pr] eqs(2)
    unfolding charged_def Let_def folds first lo'_def [symmetric] by simp
qed

lemma charged_unique:
  "charged pr from until state a c \<Longrightarrow> charged pr from until state b c \<Longrightarrow> same_account pr a b c"
  by (simp add: charged_def same_account_def Let_def)

text \<open>
  C8. A pair of samples is charged once and completely, however its time is cut into windows. Charging it
  over a window and then over a later window that meets or overlaps the first never fails, and leaves every
  billing cycle with the bytes and the mark that one pass over both windows leaves: the bytes before plus
  the share of the stretch of the pair that lies in the cycle, within the windows and after the old mark.
\<close>

theorem windows_join:
  assumes "pair_ok (pair_of prev current)" and "pr = pair_of prev current"
    and "st \<le> m'" and "m' \<le> m" and "m \<le> en" and "rule_covers rule (max (pair_start pr) st)"
    and "\<forall>c. cycle_of_rule rule c \<longrightarrow> fits pr (max (pair_start pr) st) (min (pair_end pr) en) state c"
  shows "\<exists>first second whole.
    mergeTrafficUsagePair rule st m prev current state = Inr first \<and>
    mergeTrafficUsagePair rule m' en prev current first = Inr second \<and>
    mergeTrafficUsagePair rule st en prev current state = Inr whole \<and>
    (\<forall>c. cycle_of_rule rule c \<longrightarrow> same_account pr whole second c \<and>
       (let k = trafficUsageKeyFromCycle (pair_server pr) (pair_iface pr) c;
            lo = max (max (max (pair_start pr) st) (Cycle_Start c)) (progress_at (snd state) k); hi = min (min (pair_end pr) en) (Cycle_End c)
        in in_bytes (fst whole) k = in_bytes (fst state) k + share (pair_in pr) pr lo hi \<and>
           out_bytes (fst whole) k = out_bytes (fst state) k + share (pair_out pr) pr lo hi))"
proof (cases "pair_in pr = 0 \<and> pair_out pr = 0")
  case True
  then have "mergeTrafficUsagePair rule a b prev current s = Inr s" for a b s
    using no_movement [of prev current] assms(2) by simp
  then show ?thesis using True by (simp add: same_account_def no_movement(2) [of prev current] assms(2) Let_def)
next
  case False
  then have moves: "pair_in pr \<noteq> 0 \<or> pair_out pr \<noteq> 0" by blast
  note effect = merge_pair_effect [OF assms(1,2) moves]
  note windows = windows_of_cycle [OF assms(1) [folded assms(2)] assms(3-5) assms(7) [rule_format]]
  obtain first where first: "mergeTrafficUsagePair rule st m prev current state = Inr first"
    "\<And>c. cycle_of_rule rule c \<Longrightarrow> charged pr (max (pair_start pr) st) (min (pair_end pr) m) state first c"
    using effect [OF assms(6) windows(1)] by blast
  have "rule_covers rule (max (pair_start pr) m')" using covers_later [OF assms(6)] assms(3) by simp
  then obtain second where second: "mergeTrafficUsagePair rule m' en prev current first = Inr second"
    "\<And>c. cycle_of_rule rule c \<Longrightarrow> charged pr (max (pair_start pr) m') (min (pair_end pr) en) first second c"
    using effect [OF _ windows(2) [OF _ first(2)]] by blast
  obtain whole where whole: "mergeTrafficUsagePair rule st en prev current state = Inr whole"
    "\<And>c. cycle_of_rule rule c \<Longrightarrow> charged pr (max (pair_start pr) st) (min (pair_end pr) en) state whole c"
    using effect [OF assms(6), of en state] assms(7) by blast
  have "same_account pr whole second c" if "cycle_of_rule rule c" for c
    using charged_unique [OF whole(2) windows(3) [OF _ first(2) second(2)]] that by blast
  then show ?thesis
    using first(1) second(1) whole(1) whole(2) [unfolded charged_def Let_def]
    by (intro exI [of _ first] exI [of _ second] exI [of _ whole]) (simp add: Let_def)
qed

definition example_sample :: "time \<Rightarrow> int \<Rightarrow> trafficUsageNICRow" where
  "example_sample t n = \<lparr>UN_ServerID = 1, UN_Iface = ''eth0'', UN_ServerCycleMode = CycleClampMonthEnd, UN_BillingStartDay = 31,
     UN_BillingAnchorDate = [], UN_BillingTimezone = [], UN_CollectedAt = t, UN_BytesRecv = n, UN_BytesSent = n\<rparr>"

theorem windows_join_witness:
  "\<exists>first second. mergeTrafficUsagePair example_clamp 0 300 (example_sample 60 0) (example_sample 660 1000) ([], []) = Inr first \<and>
     mergeTrafficUsagePair example_clamp 200 900 (example_sample 60 0) (example_sample 660 1000) first = Inr second"
proof -
  let ?pr = "pair_of (example_sample 60 0) (example_sample 660 1000)"
  have ok: "pair_ok ?pr" by (simp add: pair_ok_def pair_of_def example_sample_def wrap64_def i64_defs)
  have d: "pair_in ?pr = 1000" "pair_out ?pr = 1000" "pair_start ?pr = 60" "pair_end ?pr = 660"
    by (simp_all add: pair_of_def example_sample_def wrap64_def)
  have cov: "rule_covers example_clamp t" for t by (simp add: rule_covers_def month_rule_ok_def example_clamp_def UTC_bounded)
  have "share 1000 ?pr lo hi \<le> 1000" if "60 \<le> lo" for lo hi
    using share_range(2) [of 1000 ?pr lo hi] that by (simp add: d i64_defs)
  then have "fits ?pr (max (pair_start ?pr) 0) u ([], []) c" for u c
    by (simp add: fits_def room_def Let_def in_bytes_def out_bytes_def d max_i64_def le_max_iff_disj order_trans [of _ 1000])
  then show ?thesis using windows_join [OF ok refl, of 0 200 300 900 example_clamp "([], [])"] cov by (simp add: d) blast
qed

subsection \<open>Replaying a window\<close>

definition behind :: "progress_map \<Rightarrow> progress_map \<Rightarrow> bool" where
  "behind p q \<longleftrightarrow> (\<forall>k. progress_at p k \<le> progress_at q k)"

lemma behind_refl [simp]: "behind p p" by (simp add: behind_def)

lemma behind_trans: "behind p q \<Longrightarrow> behind q r \<Longrightarrow> behind p r"
  unfolding behind_def using order_trans by blast

lemma behind_update: "progress_at p k \<le> t \<Longrightarrow> behind p (AList.update k t p)"
  by (simp add: behind_def)

text \<open>A segment that was charged once is not charged again once the marks are at least as far.\<close>

lemma segment_replay:
  assumes "charge_segment st pr c cursor segEnd (U, P) = (U', P')" "st \<le> cursor" "cursor < segEnd" "segEnd \<le> Cycle_End c"
  shows "behind P P'" "behind P' Q \<Longrightarrow> charge_segment st pr c cursor segEnd (V, Q) = (V, Q)"
proof -
  let ?k = "trafficUsageKeyFromCycle (pair_server pr) (pair_iface pr) c"
  let ?guard = "\<lambda>p. max cursor (progress_at p ?k) < segEnd \<and> Cycle_Start c < segEnd"
  have from': "segment_from st cursor x = max cursor x" for x using assms(2) by (simp add: segment_from_def max_def Let_def)
  have skip: "charge_segment st pr c cursor segEnd (U, p) = (U, p)" if "\<not> ?guard p" for U p
    using that assms(4) by (auto simp: charge_segment_def Let_def from')
  have "P' = (if ?guard P then AList.update ?k (max (progress_at P ?k) segEnd) P else P)"
  proof (cases "?guard P")
    case True
    then show ?thesis using assms(1,4) by (auto simp: charge_segment_def Let_def from')
  qed (use assms(1) skip in auto)
  then have P': "behind P P'" "progress_at P' ?k = (if ?guard P then max (progress_at P ?k) segEnd else progress_at P ?k)"
    by (simp_all add: behind_update)
  then show "behind P P'" by simp
  assume "behind P' Q"
  then have "progress_at P' ?k \<le> progress_at Q ?k" by (simp add: behind_def)
  with P'(2) assms(3) have "\<not> ?guard Q" by (auto split: if_splits)
  then show "charge_segment st pr c cursor segEnd (V, Q) = (V, Q)" by (rule skip)
qed

lemma loop_replay:
  assumes "charge_loop rule st en pr cursor (U, P) = Inr (U', P')" "st \<le> cursor"
  shows "behind P P' \<and> (behind P' Q \<longrightarrow> charge_loop rule st en pr cursor (V, Q) = Inr (V, Q))"
  using assms
proof (induction rule st en pr cursor "(U, P)" arbitrary: U P rule: charge_loop.induct)
  case (1 rule st en pr cursor)
  show ?case
  proof (cases "cursor < min (pair_end pr) en")
    case False
    with 1 show ?thesis by (simp add: charge_loop_done)
  next
    case True
    then obtain c where c: "rule_at rule cursor = Inr c" using "1.prems"(1) by (cases "rule_at rule cursor") (auto simp: charge_loop.simps [of rule])
    define segEnd where "segEnd = min (min (pair_end pr) (Cycle_End c)) en"
    have step: "charge_loop rule st en pr cursor s = (if cursor < segEnd then charge_loop rule st en pr segEnd (charge_segment st pr c cursor segEnd s)
        else Inl (CycleDoesNotAdvance cursor))" for s
      using True c by (subst charge_loop.simps) (simp add: segEnd_def Let_def)
    then have seg: "cursor < segEnd" "segEnd \<le> Cycle_End c" using "1.prems"(1) by (auto simp: segEnd_def split: if_splits)
    obtain U1 P1 where mid: "charge_segment st pr c cursor segEnd (U, P) = (U1, P1)" by fastforce
    have "charge_loop rule st en pr segEnd (U1, P1) = Inr (U', P')" using "1.prems"(1) step seg(1) mid by simp
    moreover have "st \<le> segEnd" using "1.prems"(2) seg(1) by simp
    ultimately have "behind P1 P' \<and> (behind P' Q \<longrightarrow> charge_loop rule st en pr segEnd (V, Q) = Inr (V, Q))"
      using "1.hyps" [OF _ c segEnd_def seg(1) mid] True by simp
    with segment_replay [OF mid "1.prems"(2) seg] show ?thesis using step seg(1) behind_trans by auto
  qed
qed

lemma reset_replay:
  assumes "mergeTrafficUsageReset rule st en row (U, P) = Inr (U', P')"
  shows "behind P P' \<and> (behind P' Q \<longrightarrow> mergeTrafficUsageReset rule st en row (V, Q) = Inr (V, Q))"
proof (cases "UN_CollectedAt row < st \<or> \<not> UN_CollectedAt row < en")
  case True
  then show ?thesis using assms by (auto simp: mergeTrafficUsageReset_def Let_def)
next
  case False
  then obtain c where c: "rule_at rule (UN_CollectedAt row) = Inr c"
    using assms by (auto simp: mergeTrafficUsageReset_def Let_def split: sum.splits)
  let ?k = "trafficUsageKeyFromCycle (UN_ServerID row) (UN_Iface row) c"
  have "P' = (if progress_at P ?k < UN_CollectedAt row then AList.update ?k (UN_CollectedAt row) P else P)"
    using assms False c by (auto simp: mergeTrafficUsageReset_def Let_def split: if_splits)
  then have P': "behind P P'" "UN_CollectedAt row \<le> progress_at P' ?k" by (simp_all add: behind_update)
  have "mergeTrafficUsageReset rule st en row (V, Q) = Inr (V, Q)" if "behind P' Q"
  proof -
    have "UN_CollectedAt row \<le> progress_at Q ?k" using that P'(2) order_trans unfolding behind_def by blast
    with False c show ?thesis by (simp add: mergeTrafficUsageReset_def Let_def)
  qed
  with P'(1) show ?thesis by blast
qed

lemma pair_replay:
  assumes "mergeTrafficUsagePair rule st en prev row (U, P) = Inr (U', P')"
  shows "behind P P' \<and> (behind P' Q \<longrightarrow> mergeTrafficUsagePair rule st en prev row (V, Q) = Inr (V, Q))"
proof -
  have st: "st \<le> max (UN_CollectedAt prev) st" by simp
  define pr where "pr = pair_of prev row"
  define A where "A \<longleftrightarrow> pair_in pr < 0 \<or> pair_out pr < 0"
  define B where "B \<longleftrightarrow> pair_in pr = 0 \<and> pair_out pr = 0 \<or> \<not> UN_CollectedAt prev < UN_CollectedAt row \<or> \<not> st < UN_CollectedAt row \<or>
     \<not> UN_CollectedAt prev < en \<or> f64_le (seconds_between (UN_CollectedAt prev) (UN_CollectedAt row)) f0"
  have merge: "mergeTrafficUsagePair rule st en prev row s = (if A then mergeTrafficUsageReset rule st en row s else if B then Inr s
      else charge_loop rule st en pr (max (UN_CollectedAt prev) st) s)" for s
    by (auto simp: mergeTrafficUsagePair_def Let_def A_def B_def pr_def pair_of_def)
  consider (reset) A | (skip) "\<not> A" B | (charge) "\<not> A" "\<not> B" by blast
  then show ?thesis
  proof cases
    case reset
    with assms show ?thesis using reset_replay [of rule st en row U P U' P' Q V] by (simp add: merge)
  next
    case skip
    with assms show ?thesis by (simp add: merge)
  next
    case charge
    with assms show ?thesis using loop_replay [OF _ st, of rule en pr U P U' P' Q V] by (simp add: merge)
  qed
qed

definition with_state :: "usage_scan \<Rightarrow> usage_map \<Rightarrow> progress_map \<Rightarrow> usage_scan" where
  "with_state scan V Q = scan\<lparr>scan_state := (V, Q)\<rparr>"

lemma row_replay:
  assumes "usage_row env settings loc st en row scan = Inr scan'"
  shows "behind (snd (scan_state scan)) (snd (scan_state scan')) \<and>
    (behind (snd (scan_state scan')) Q \<longrightarrow> usage_row env settings loc st en row (with_state scan V Q) = Inr (with_state scan' V Q))"
proof -
  obtain U P where s: "scan_state scan = (U, P)" by fastforce
  show ?thesis
  proof (cases "\<exists>p. scan_prev scan = Some p \<and> UN_ServerID p = UN_ServerID row \<and> UN_Iface p = UN_Iface row \<and> UN_CollectedAt p < UN_CollectedAt row")
    case False
    then show ?thesis using assms
      by (auto simp: usage_row_def with_state_def Let_def split: sum.splits option.splits if_splits)
  next
    case True
    then obtain p where p: "scan_prev scan = Some p" "UN_ServerID p = UN_ServerID row" "UN_Iface p = UN_Iface row" "UN_CollectedAt p < UN_CollectedAt row"
      by blast
    then obtain rule U' P' where r: "(case scan_rule scan of Some (i, r) \<Rightarrow> if UN_ServerID row \<noteq> i then row_rule env settings loc row else Inr r
        | None \<Rightarrow> row_rule env settings loc row) = Inr rule" "mergeTrafficUsagePair rule st en p row (U, P) = Inr (U', P')"
      "scan' = scan\<lparr>scan_rule := Some (UN_ServerID row, rule), scan_prev := Some row, scan_state := (U', P')\<rparr>"
      using assms by (auto simp: usage_row_def Let_def s split: sum.splits)
    then show ?thesis using pair_replay [OF r(2), of Q V] p s by (auto simp: usage_row_def with_state_def Let_def)
  qed
qed

lemma rows_replay:
  assumes "usage_rows env settings loc st en rows scan = Inr scan'"
  shows "behind (snd (scan_state scan)) (snd (scan_state scan')) \<and>
    (behind (snd (scan_state scan')) Q \<longrightarrow> usage_rows env settings loc st en rows (with_state scan V Q) = Inr (with_state scan' V Q))"
  using assms
proof (induction rows arbitrary: scan)
  case (Cons row rows)
  then obtain mid where m: "usage_row env settings loc st en row scan = Inr mid" "usage_rows env settings loc st en rows mid = Inr scan'"
    by (auto split: sum.splits)
  from Cons.IH [OF m(2)] row_replay [OF m(1), of Q V] show ?case
    using behind_trans by (auto intro: behind_trans)
qed simp

subsection \<open>Marks and accumulators\<close>

text \<open>
  Every mark that moved is written down in the accumulator it belongs to, whose cycle overlaps the window
  and whose server and interface have a row: a later run that loads the stored accumulators finds the mark.
\<close>

definition noted_at :: "progress_map \<Rightarrow> time \<Rightarrow> time \<Rightarrow> (int \<times> string) set \<Rightarrow> usage_state \<Rightarrow> trafficUsageKey \<Rightarrow> bool" where
  "noted_at P0 st en pairs state k \<longleftrightarrow>
     (case map_of (fst state) k of
        None \<Rightarrow> progress_at (snd state) k = progress_at P0 k
      | Some row \<Rightarrow> trafficUsageKeyFromUsage row = k \<and> progress_at (snd state) k \<le> max (progress_at P0 k) (MU_LastCollectedAt row) \<and>
          0 \<le> MU_LastCollectedAt row \<and> st < key_cycleEnd k \<and> key_cycleStart k < en \<and> (key_serverID k, key_iface k) \<in> pairs)"

definition noted :: "progress_map \<Rightarrow> time \<Rightarrow> time \<Rightarrow> (int \<times> string) set \<Rightarrow> usage_state \<Rightarrow> bool" where
  "noted P0 st en pairs state \<longleftrightarrow> distinct (map fst (fst state)) \<and> (\<forall>k. noted_at P0 st en pairs state k)"

lemma rule_at_contains: "rule_at r t = Inr c \<Longrightarrow> Cycle_Start c \<le> t \<and> t < Cycle_End c"
proof -
  have "trafficBoundsFrom bs t = Inr (a, b) \<Longrightarrow> a \<le> t \<and> t < b" for bs a b
    by (induction bs t rule: trafficBoundsFrom.induct) (auto split: if_splits)
  then show "rule_at r t = Inr c \<Longrightarrow> ?thesis"
    by (auto simp: rule_at_def trafficCycleBounds_def cycle_of_def split: sum.splits)
qed

lemma accumulator_noted:
  assumes "noted P0 st en pairs (U, P)" "k = trafficUsageKeyFromCycle i n c"
  shows "trafficUsageKeyFromUsage (trafficUsageAccumulatorFor U k c) = k"
    "progress_at P k \<le> max (progress_at P0 k) (MU_LastCollectedAt (trafficUsageAccumulatorFor U k c))"
    "0 \<le> MU_LastCollectedAt (trafficUsageAccumulatorFor U k c)"
proof -
  have "case map_of U k of None \<Rightarrow> progress_at P k = progress_at P0 k
      | Some row \<Rightarrow> trafficUsageKeyFromUsage row = k \<and> progress_at P k \<le> max (progress_at P0 k) (MU_LastCollectedAt row) \<and> 0 \<le> MU_LastCollectedAt row"
    using assms(1) [unfolded noted_def, THEN conjunct2, rule_format, of k] by (simp add: noted_at_def split: option.splits)
  then show "trafficUsageKeyFromUsage (trafficUsageAccumulatorFor U k c) = k"
    "progress_at P k \<le> max (progress_at P0 k) (MU_LastCollectedAt (trafficUsageAccumulatorFor U k c))"
    "0 \<le> MU_LastCollectedAt (trafficUsageAccumulatorFor U k c)"
    by (auto simp: trafficUsageAccumulatorFor_def trafficUsageKeyFromUsage_def assms(2) trafficUsageKeyFromCycle_def split: option.splits)
qed

lemma note_mark:
  assumes "noted P0 st en pairs (U, P)" "trafficUsageKeyFromUsage row = k" "t \<le> max (progress_at P0 k) (MU_LastCollectedAt row)"
    and "0 \<le> MU_LastCollectedAt row" "st < key_cycleEnd k" "key_cycleStart k < en" "(key_serverID k, key_iface k) \<in> pairs"
  shows "noted P0 st en pairs (AList.update k row U, AList.update k t P)"
proof -
  have "noted_at P0 st en pairs (AList.update k row U, AList.update k t P) k'" for k'
    using assms(1) [unfolded noted_def, THEN conjunct2, rule_format, of k'] assms(2-) by (cases "k' = k") (simp_all add: noted_at_def split: option.splits)
  then show ?thesis using assms(1) by (simp add: noted_def)
qed

lemma merge_sample_marks:
  "trafficUsageKeyFromUsage (mergeTrafficUsageSample row i u ri ro gap s e) = trafficUsageKeyFromUsage row"
  "MU_LastCollectedAt (mergeTrafficUsageSample row i u ri ro gap s e) = max (MU_LastCollectedAt row) e"
  by (simp_all add: mergeTrafficUsageSample_def trafficUsageKeyFromUsage_def cover_from_def Let_def split: prod.split)

lemma segment_noted:
  assumes "noted P0 st en pairs (U, P)" "segEnd \<le> en" "segEnd \<le> Cycle_End c" "cursor < segEnd" "st \<le> cursor" "(pair_server pr, pair_iface pr) \<in> pairs"
  shows "noted P0 st en pairs (charge_segment st pr c cursor segEnd (U, P))"
proof -
  define k where "k = trafficUsageKeyFromCycle (pair_server pr) (pair_iface pr) c"
  note acc = accumulator_noted [OF assms(1) k_def]
  have key: "key_cycleEnd k = Cycle_End c" "key_cycleStart k = Cycle_Start c" "key_serverID k = pair_server pr" "key_iface k = pair_iface pr"
    by (simp_all add: k_def trafficUsageKeyFromCycle_def)
  have "noted P0 st en pairs (AList.update k (mergeTrafficUsageSample (trafficUsageAccumulatorFor U k c) i u ri ro gap s segEnd) U,
      AList.update k (max (progress_at P k) segEnd) P)" if "Cycle_Start c < segEnd" for i u ri ro gap s
    using acc assms(2-) that by (intro note_mark [OF assms(1)]) (auto simp: merge_sample_marks key)
  with assms(1) show ?thesis by (simp add: charge_segment_def Let_def flip: k_def)
qed

lemma loop_noted:
  assumes "charge_loop rule st en pr cursor (U, P) = Inr state'" "noted P0 st en pairs (U, P)" "st \<le> cursor" "(pair_server pr, pair_iface pr) \<in> pairs"
  shows "noted P0 st en pairs state'"
  using assms
proof (induction rule st en pr cursor "(U, P)" arbitrary: U P rule: charge_loop.induct)
  case (1 rule st en pr cursor)
  show ?case
  proof (cases "cursor < pair_end pr \<and> cursor < en")
    case False
    with 1 show ?thesis by (auto simp: charge_loop_done)
  next
    case True
    then obtain c where c: "rule_at rule cursor = Inr c" using "1.prems"(1) by (cases "rule_at rule cursor") (auto simp: charge_loop.simps [of rule])
    define segEnd where "segEnd = min (min (pair_end pr) (Cycle_End c)) en"
    obtain U1 P1 where mid: "charge_segment st pr c cursor segEnd (U, P) = (U1, P1)" by fastforce
    have "charge_loop rule st en pr cursor (U, P) = (if cursor < segEnd then charge_loop rule st en pr segEnd (U1, P1)
        else Inl (CycleDoesNotAdvance cursor))"
      using True c mid by (subst charge_loop.simps) (simp add: segEnd_def Let_def)
    then have seg: "cursor < segEnd" "charge_loop rule st en pr segEnd (U1, P1) = Inr state'" using "1.prems"(1) by (auto split: if_splits)
    have "noted P0 st en pairs (U1, P1)"
      using segment_noted [OF "1.prems"(2), of segEnd c cursor pr] seg(1) "1.prems"(3,4) unfolding mid by (simp add: segEnd_def)
    with "1.hyps" [OF True c segEnd_def seg(1) mid seg(2)] "1.prems"(3,4) seg(1) show ?thesis by simp
  qed
qed

lemma reset_noted:
  assumes "mergeTrafficUsageReset rule st en row (U, P) = Inr state'" "noted P0 st en pairs (U, P)" "(UN_ServerID row, UN_Iface row) \<in> pairs"
  shows "noted P0 st en pairs state'"
proof (cases "UN_CollectedAt row < st \<or> \<not> UN_CollectedAt row < en")
  case True
  then show ?thesis using assms by (auto simp: mergeTrafficUsageReset_def Let_def)
next
  case False
  then obtain c where c: "rule_at rule (UN_CollectedAt row) = Inr c"
    using assms(1) by (auto simp: mergeTrafficUsageReset_def Let_def split: sum.splits)
  define k where "k = trafficUsageKeyFromCycle (UN_ServerID row) (UN_Iface row) c"
  note acc = accumulator_noted [OF assms(2) k_def]
  have key: "key_cycleEnd k = Cycle_End c" "key_cycleStart k = Cycle_Start c" "key_serverID k = UN_ServerID row" "key_iface k = UN_Iface row"
    by (simp_all add: k_def trafficUsageKeyFromCycle_def)
  define new where "new = cover_from (UN_CollectedAt row) ((trafficUsageAccumulatorFor U k c)
      \<lparr>MU_ResetCount := wrap32 (MU_ResetCount (trafficUsageAccumulatorFor U k c) + 1)\<rparr>)"
  have keep: "trafficUsageKeyFromUsage (r\<lparr>MU_LastCollectedAt := x, MU_CoveredUntil := y\<rparr>) = trafficUsageKeyFromUsage r"
    "trafficUsageKeyFromUsage (r\<lparr>MU_ResetCount := z\<rparr>) = trafficUsageKeyFromUsage r"
    "trafficUsageKeyFromUsage (cover_from t r) = trafficUsageKeyFromUsage r"
    "MU_LastCollectedAt (cover_from t r) = MU_LastCollectedAt r" for r x y z t
    by (simp_all add: trafficUsageKeyFromUsage_def cover_from_def)
  have "noted P0 st en pairs (AList.update k (new\<lparr>MU_LastCollectedAt := max (MU_LastCollectedAt new) (UN_CollectedAt row),
      MU_CoveredUntil := max (MU_CoveredUntil new) (UN_CollectedAt row)\<rparr>) U, AList.update k (UN_CollectedAt row) P)"
    using acc(1,3) False rule_at_contains [OF c] assms(3)
    by (intro note_mark [OF assms(2)]) (auto simp: key keep new_def le_max_iff_disj)
  then show ?thesis using assms(1,2) False c
    by (auto simp: mergeTrafficUsageReset_def Let_def new_def simp flip: k_def split: if_splits)
qed

lemma pair_noted:
  assumes "mergeTrafficUsagePair rule st en prev row (U, P) = Inr state'" "noted P0 st en pairs (U, P)" "(UN_ServerID row, UN_Iface row) \<in> pairs"
  shows "noted P0 st en pairs state'"
  using assms(1) reset_noted [OF _ assms(2,3)] loop_noted [OF _ assms(2)] assms(2,3)
  by (auto simp: mergeTrafficUsagePair_def Let_def split: if_splits)

lemma rows_noted:
  assumes "usage_rows env settings loc st en rows scan = Inr scan'" "noted P0 st en pairs (scan_state scan)" "(\<lambda>row. (UN_ServerID row, UN_Iface row)) ` set rows \<subseteq> pairs"
  shows "noted P0 st en pairs (scan_state scan')"
  using assms
proof (induction rows arbitrary: scan)
  case (Cons row rows)
  then obtain mid where m: "usage_row env settings loc st en row scan = Inr mid" "usage_rows env settings loc st en rows mid = Inr scan'"
    by (auto split: sum.splits)
  obtain U P where s: "scan_state scan = (U, P)" by fastforce
  have "noted P0 st en pairs (scan_state mid)"
    using m(1) Cons.prems(2,3) pair_noted [of _ st en _ row U P _ P0 pairs]
    by (auto simp: usage_row_def Let_def s split: sum.splits option.splits if_splits)
  with Cons.IH [OF m(2)] Cons.prems(3) show ?case by simp
qed simp

end
