(* ===== verification/Traffic_Stats.thy ===== *)
theory Traffic_Stats
  imports Traffic_Usage "HOL-Library.Multiset"
begin

text \<open>
  Traffic statistics: the computations of \<open>internal/store/traffic/traffic.go\<close> and \<open>daily.go\<close> on the
  five-minute rows of a billing cycle (totals, peaks, the 95th percentile, coverage), the life of a
  monthly snapshot, and the summary of a monthly accumulator from \<open>traffic_usage.go\<close>. The queries that
  load the rows are in \<open>Traffic_Store\<close>.

  \<open>time.Now()\<close>, which the code uses when a reference time is zero, is the parameter \<open>now\<close>.
\<close>

subsection \<open>Data\<close>

definition trafficSnapshotGrace :: duration where "trafficSnapshotGrace = 48 * hour_ns"
definition trafficMinP95Samples :: nat where "trafficMinP95Samples = 20"

definition TrafficPeriodCurrent :: string where "TrafficPeriodCurrent = ''current''"
definition TrafficPeriodPrev :: string where "TrafficPeriodPrev = ''previous''"

definition TrafficSnapshotProvisional :: string where "TrafficSnapshotProvisional = ''provisional''"
definition TrafficSnapshotGrace :: string where "TrafficSnapshotGrace = ''grace''"
definition TrafficSnapshotSealed :: string where "TrafficSnapshotSealed = ''sealed''"
definition TrafficSnapshotStale :: string where "TrafficSnapshotStale = ''stale''"
definition TrafficP95Available :: string where "TrafficP95Available = ''available''"
definition TrafficP95Disabled :: string where "TrafficP95Disabled = ''disabled''"
definition TrafficP95LiteMode :: string where "TrafficP95LiteMode = ''lite_mode''"
definition TrafficP95InsufficientSamples :: string where "TrafficP95InsufficientSamples = ''insufficient_samples''"
definition TrafficP95SnapshotMissing :: string where "TrafficP95SnapshotMissing = ''snapshot_without_p95''"
definition TrafficDirectionInKey :: string where "TrafficDirectionInKey = ''in''"
definition TrafficDirectionOutKey :: string where "TrafficDirectionOutKey = ''out''"
definition TrafficDirectionTotal :: string where "TrafficDirectionTotal = ''total''"

lemmas traffic_names = TrafficPeriodCurrent_def TrafficPeriodPrev_def
  TrafficSnapshotProvisional_def TrafficSnapshotGrace_def TrafficSnapshotSealed_def
  TrafficSnapshotStale_def TrafficP95Available_def TrafficP95Disabled_def
  TrafficP95LiteMode_def TrafficP95InsufficientSamples_def TrafficP95SnapshotMissing_def
  TrafficDirectionInKey_def TrafficDirectionOutKey_def TrafficDirectionTotal_def

type_synonym TrafficSnapshotStatus = string
type_synonym TrafficP95Status = string
type_synonym TrafficDirection = string

datatype traffic_error =
    ErrNoTrafficData
  | ErrTrafficDataOverflow
  | InvalidDirectionMode string
  | InvalidSnapshotStatus string
  | InvalidTrafficQuery string
  | StatCycle cycle_error

record TrafficQuery =
  Q_ServerID :: int
  Q_Iface :: string
  Q_UsageMode :: string
  Q_CycleMode :: string
  Q_BillingStartDay :: int
  Q_BillingAnchorDate :: string
  Q_DirectionMode :: string
  Q_P95Enabled :: bool
  Q_Location :: "location option"
  Q_Ref :: time
  Q_Period :: string

record TrafficStat =
  Stat_InBytes :: int
  Stat_OutBytes :: int
  Stat_P95Enabled :: bool
  Stat_P95Status :: TrafficP95Status
  Stat_P95UnavailableReason :: string
  Stat_InP95 :: f64
  Stat_OutP95 :: f64
  Stat_BothP95 :: f64
  Stat_InPeak :: f64
  Stat_OutPeak :: f64
  Stat_BothPeak :: f64
  Stat_SelectedP95 :: f64
  Stat_SelectedPeak :: f64
  Stat_SelectedBytesDirection :: TrafficDirection
  Stat_SelectedP95Direction :: TrafficDirection
  Stat_SelectedPeakDirection :: TrafficDirection
  Stat_SelectedBytes :: int
  Stat_SampleCount :: int
  Stat_ExpectedSampleCount :: int
  Stat_EffectiveStart :: time
  Stat_EffectiveEnd :: time
  Stat_CoverageRatio :: f64
  Stat_CoveredUntil :: time
  Stat_GapCount :: int
  Stat_ResetCount :: int
  Stat_CycleComplete :: bool
  Stat_DataComplete :: bool
  Stat_Status :: TrafficSnapshotStatus

record trafficBucket =
  B_Bucket :: time
  B_InBytes :: int
  B_OutBytes :: int
  B_InRate :: f64
  B_OutRate :: f64
  B_InPeak :: f64
  B_OutPeak :: f64
  B_SampleCount :: int
  B_GapCount :: int
  B_ResetCount :: int

record TrafficSummary =
  Sum_ServerID :: int
  Sum_Iface :: string
  Sum_UsageMode :: string
  Sum_Cycle :: TrafficCycle
  Sum_Stat :: TrafficStat

record TrafficDaily =
  Day_ServerID :: int
  Day_Iface :: string
  Day_UsageMode :: string
  Day_Start :: time
  Day_End :: time
  Day_Stat :: TrafficStat

record TrafficMonthly =
  TM_ServerID :: int
  TM_Iface :: string
  TM_CycleMode :: string
  TM_BillingStartDay :: int
  TM_Timezone :: string
  TM_CycleStart :: time
  TM_CycleEnd :: time
  TM_Status :: string
  TM_EffectiveStart :: time
  TM_EffectiveEnd :: time
  TM_CoveredUntil :: time
  TM_GeneratedAt :: time
  TM_SealedAt :: "time option"
  TM_InBytes :: int
  TM_OutBytes :: int
  TM_P95Enabled :: bool
  TM_InP95 :: f64
  TM_OutP95 :: f64
  TM_BothP95 :: f64
  TM_InPeak :: f64
  TM_OutPeak :: f64
  TM_BothPeak :: f64
  TM_SampleCount :: int
  TM_ExpectedSampleCount :: int
  TM_CoverageRatio :: f64
  TM_GapCount :: int
  TM_ResetCount :: int

subsection \<open>Totals and percentiles\<close>

text \<open>
  \<open>sort.Slice\<close>: the values in the order of \<open>less\<close>. Equal floats are the same value, so ties need no
  further rule.
\<close>

fun insert_by :: "('a \<Rightarrow> 'a \<Rightarrow> bool) \<Rightarrow> 'a \<Rightarrow> 'a list \<Rightarrow> 'a list" where
  "insert_by lt x [] = [x]"
| "insert_by lt x (y # ys) = (if lt y x then y # insert_by lt x ys else x # y # ys)"

definition sort_slice :: "('a \<Rightarrow> 'a \<Rightarrow> bool) \<Rightarrow> 'a list \<Rightarrow> 'a list" where
  "sort_slice lt xs = foldr (insert_by lt) xs []"

definition p95DiscardTop :: "f64 list \<Rightarrow> f64" where
  "p95DiscardTop values =
     (if values = [] then f0
      else let sorted = sort_slice (\<lambda>x y. f64_lt y x) values;
               drop = f64_to_int (f64_floor (f64_mul (f64_of_int (int (length sorted))) (round64 (1 / 20))));
               drop = (if drop \<ge> int (length sorted) then int (length sorted) - 1 else drop)
           in sorted ! nat drop)"

definition expectedTrafficSamples :: "time \<Rightarrow> time \<Rightarrow> int" where
  "expectedTrafficSamples st en =
     (if en < st \<or> en = st then 0
      else f64_to_int (f64_ceil (f64_div (seconds_between st en) (duration_seconds trafficBucketSize))))"

definition trafficDataComplete :: "int \<Rightarrow> int \<Rightarrow> int \<Rightarrow> int \<Rightarrow> bool" where
  "trafficDataComplete samples expected gaps resets \<longleftrightarrow> expected \<le> 0 \<or> samples \<ge> expected \<and> gaps = 0 \<and> resets = 0"

definition coverageRatio :: "int \<Rightarrow> int \<Rightarrow> f64" where
  "coverageRatio samples expected =
     (if expected \<le> 0 then Fin 1
      else let ratio = f64_div (f64_of_int samples) (f64_of_int expected) in if f64_lt (Fin 1) ratio then Fin 1 else ratio)"

definition emptyTrafficStat :: "time \<Rightarrow> time \<Rightarrow> bool \<Rightarrow> TrafficSnapshotStatus \<Rightarrow> TrafficStat" where
  "emptyTrafficStat st en cycleComplete status =
     (let expected = expectedTrafficSamples st en
      in \<lparr>Stat_InBytes = 0, Stat_OutBytes = 0, Stat_P95Enabled = False, Stat_P95Status = [], Stat_P95UnavailableReason = [], Stat_InP95 = f0,
          Stat_OutP95 = f0, Stat_BothP95 = f0, Stat_InPeak = f0, Stat_OutPeak = f0, Stat_BothPeak = f0, Stat_SelectedP95 = f0,
          Stat_SelectedPeak = f0, Stat_SelectedBytesDirection = [], Stat_SelectedP95Direction = [],
          Stat_SelectedPeakDirection = [], Stat_SelectedBytes = 0, Stat_SampleCount = 0,
          Stat_ExpectedSampleCount = expected, Stat_EffectiveStart = st, Stat_EffectiveEnd = en,
          Stat_CoverageRatio = coverageRatio 0 expected, Stat_CoveredUntil = en, Stat_GapCount = 0, Stat_ResetCount = 0,
          Stat_CycleComplete = cycleComplete, Stat_DataComplete = trafficDataComplete 0 expected 0 0, Stat_Status = status\<rparr>)"

definition maxTrafficBytes :: "int \<Rightarrow> int \<Rightarrow> int \<times> TrafficDirection" where
  "maxTrafficBytes inBytes outBytes = (if inBytes > outBytes then (inBytes, TrafficDirectionInKey) else (outBytes, TrafficDirectionOutKey))"

definition maxTrafficRate :: "f64 \<Rightarrow> f64 \<Rightarrow> f64 \<times> TrafficDirection" where
  "maxTrafficRate inRate outRate = (if f64_lt outRate inRate then (inRate, TrafficDirectionInKey) else (outRate, TrafficDirectionOutKey))"

definition select :: "int \<Rightarrow> f64 \<Rightarrow> f64 \<Rightarrow> TrafficDirection \<Rightarrow> TrafficStat \<Rightarrow> TrafficStat" where
  "select bytes p95 peak dir stat = stat\<lparr>Stat_SelectedBytes := bytes, Stat_SelectedP95 := p95, Stat_SelectedPeak := peak,
     Stat_SelectedBytesDirection := dir, Stat_SelectedP95Direction := dir, Stat_SelectedPeakDirection := dir\<rparr>"

definition applyTrafficSelection :: "TrafficStat \<Rightarrow> string \<Rightarrow> traffic_error + TrafficStat" where
  "applyTrafficSelection stat direction =
     (if Stat_InBytes stat < 0 \<or> Stat_OutBytes stat < 0 then Inl ErrTrafficDataOverflow
      else if direction = DirectionOut
        then Inr (select (Stat_OutBytes stat) (Stat_OutP95 stat) (Stat_OutPeak stat) TrafficDirectionOutKey stat)
      else if direction = DirectionBoth
        then (case addTrafficBytes (Stat_InBytes stat) (Stat_OutBytes stat) of (tot, ok) \<Rightarrow>
                if \<not> ok then Inl ErrTrafficDataOverflow
                else Inr (select tot (Stat_BothP95 stat) (Stat_BothPeak stat) TrafficDirectionTotal stat))
      else if direction = DirectionMax
        then Inr (case (maxTrafficBytes (Stat_InBytes stat) (Stat_OutBytes stat), maxTrafficRate (Stat_InP95 stat) (Stat_OutP95 stat),
                        maxTrafficRate (Stat_InPeak stat) (Stat_OutPeak stat)) of ((b, bd), (r, rd), (k, kd)) \<Rightarrow>
                  stat\<lparr>Stat_SelectedBytes := b, Stat_SelectedBytesDirection := bd, Stat_SelectedP95 := r, Stat_SelectedP95Direction := rd,
                       Stat_SelectedPeak := k, Stat_SelectedPeakDirection := kd\<rparr>)
      else Inl (InvalidDirectionMode direction))"

definition applyP95Status :: "string \<Rightarrow> bool \<Rightarrow> TrafficStat \<Rightarrow> TrafficStat" where
  "applyP95Status usage p95Available stat =
     (let status = (if usage = UsageLite then TrafficP95LiteMode
                    else if \<not> Stat_P95Enabled stat then TrafficP95Disabled
                    else if p95Available then TrafficP95Available
                    else if Stat_SampleCount stat < int trafficMinP95Samples then TrafficP95InsufficientSamples
                    else TrafficP95SnapshotMissing);
          stat = stat\<lparr>Stat_P95Status := status\<rparr>
      in if status \<noteq> TrafficP95Available then stat\<lparr>Stat_P95UnavailableReason := status\<rparr> else stat)"

definition emptyTrafficStatWithP95 :: "time \<Rightarrow> time \<Rightarrow> bool \<Rightarrow> TrafficSnapshotStatus \<Rightarrow> string \<Rightarrow> bool \<Rightarrow> TrafficStat" where
  "emptyTrafficStatWithP95 st en cycleComplete status usage p95Enabled =
     applyP95Status usage False ((emptyTrafficStat st en cycleComplete status)\<lparr>Stat_P95Enabled := p95Enabled\<rparr>)"

record stat_scan =
  scan_stat :: TrafficStat
  inValues :: "f64 list"
  outValues :: "f64 list"
  bothValues :: "f64 list"

definition stat_row :: "bool \<Rightarrow> trafficBucket \<Rightarrow> stat_scan \<Rightarrow> traffic_error + stat_scan" where
  "stat_row p95Enabled row scan =
     (let stat = scan_stat scan;
          (nextIn, inOK) = addTrafficBytes (Stat_InBytes stat) (B_InBytes row);
          (nextOut, outOK) = addTrafficBytes (Stat_OutBytes stat) (B_OutBytes row)
      in if \<not> inOK \<or> \<not> outOK then Inl ErrTrafficDataOverflow
         else let stat = stat\<lparr>Stat_InBytes := nextIn, Stat_OutBytes := nextOut, Stat_GapCount := wrap64 (Stat_GapCount stat + B_GapCount row),
                              Stat_ResetCount := wrap64 (Stat_ResetCount stat + B_ResetCount row)\<rparr>;
                  inRate = nonNegative (B_InRate row); outRate = nonNegative (B_OutRate row);
                  inPeak = nonNegative (B_InPeak row); outPeak = nonNegative (B_OutPeak row)
              in if B_SampleCount row > 0
                 then Inr (scan\<lparr>scan_stat := stat\<lparr>Stat_SampleCount := wrap64 (Stat_SampleCount stat + 1),
                                   Stat_InPeak := f64_max (Stat_InPeak stat) inPeak, Stat_OutPeak := f64_max (Stat_OutPeak stat) outPeak,
                                   Stat_BothPeak := f64_max (Stat_BothPeak stat) (f64_add inPeak outPeak)\<rparr>,
                                inValues := if p95Enabled then inValues scan @ [inRate] else inValues scan,
                                outValues := if p95Enabled then outValues scan @ [outRate] else outValues scan,
                                bothValues := if p95Enabled then bothValues scan @ [f64_add inRate outRate] else bothValues scan\<rparr>)
                 else Inr (scan\<lparr>scan_stat := stat\<rparr>))"

fun stat_rows :: "bool \<Rightarrow> trafficBucket list \<Rightarrow> stat_scan \<Rightarrow> traffic_error + stat_scan" where
  "stat_rows p95Enabled [] scan = Inr scan"
| "stat_rows p95Enabled (row # rows) scan = (case stat_row p95Enabled row scan of Inl e \<Rightarrow> Inl e | Inr scan \<Rightarrow> stat_rows p95Enabled rows scan)"

definition p95_available :: "bool \<Rightarrow> stat_scan \<Rightarrow> bool" where
  "p95_available p95Enabled scan \<longleftrightarrow> p95Enabled \<and> length (inValues scan) \<ge> trafficMinP95Samples"

definition close_stat :: "bool \<Rightarrow> stat_scan \<Rightarrow> TrafficStat" where
  "close_stat p95Enabled scan =
     (let stat = scan_stat scan;
          stat = (if p95_available p95Enabled scan
                  then stat\<lparr>Stat_InP95 := p95DiscardTop (inValues scan), Stat_OutP95 := p95DiscardTop (outValues scan),
                            Stat_BothP95 := p95DiscardTop (bothValues scan)\<rparr> else stat)
      in stat\<lparr>Stat_CoverageRatio := coverageRatio (Stat_SampleCount stat) (Stat_ExpectedSampleCount stat),
              Stat_DataComplete := trafficDataComplete (Stat_SampleCount stat) (Stat_ExpectedSampleCount stat)
                (Stat_GapCount stat) (Stat_ResetCount stat)\<rparr>)"

definition buildTrafficStat ::
    "trafficBucket list \<Rightarrow> time \<Rightarrow> time \<Rightarrow> bool \<Rightarrow> TrafficSnapshotStatus \<Rightarrow> string \<Rightarrow> string \<Rightarrow> bool \<Rightarrow> traffic_error + TrafficStat" where
  "buildTrafficStat rows st en cycleComplete status direction usage p95Enabled =
     (case stat_rows p95Enabled rows \<lparr>scan_stat = (emptyTrafficStat st en cycleComplete status)\<lparr>Stat_P95Enabled := p95Enabled\<rparr>,
             inValues = [], outValues = [], bothValues = []\<rparr> of
        Inl e \<Rightarrow> Inl e
      | Inr scan \<Rightarrow> applyTrafficSelection (applyP95Status usage (p95_available p95Enabled scan) (close_stat p95Enabled scan)) direction)"

subsection \<open>Cycles and snapshots\<close>

definition trafficStatEnd :: "time \<Rightarrow> TrafficCycle \<Rightarrow> time \<Rightarrow> time \<times> bool" where
  "trafficStatEnd now cycle ref =
     (let ref = (if ref = zero_time then now else ref)
      in if \<not> ref < Cycle_End cycle then (Cycle_End cycle, True)
         else let en = trafficBucketStart ref in (if en < Cycle_Start cycle then Cycle_Start cycle else en, False))"

definition trafficSnapshotStatus :: "time \<Rightarrow> TrafficCycle \<Rightarrow> time \<Rightarrow> TrafficSnapshotStatus" where
  "trafficSnapshotStatus now cycle ref =
     (let ref = (if ref = zero_time then now else ref)
      in if ref < Cycle_End cycle then TrafficSnapshotProvisional
         else if ref < Cycle_End cycle + trafficSnapshotGrace then TrafficSnapshotGrace else TrafficSnapshotSealed)"

definition parseTrafficMonthlyStatus :: "string \<Rightarrow> traffic_error + TrafficSnapshotStatus" where
  "parseTrafficMonthlyStatus status =
     (if status = TrafficSnapshotGrace \<or> status = TrafficSnapshotSealed \<or> status = TrafficSnapshotStale then Inr status
      else Inl (InvalidSnapshotStatus status))"

definition trafficMonthlySaveable :: "TrafficSummary \<Rightarrow> bool \<Rightarrow> TrafficSummary" where
  "trafficMonthlySaveable summary sourceComplete =
     (if Stat_Status (Sum_Stat summary) = TrafficSnapshotSealed \<and> \<not> Stat_DataComplete (Sum_Stat summary)
      then summary\<lparr>Sum_Stat := (Sum_Stat summary)\<lparr>Stat_Status := if sourceComplete then TrafficSnapshotGrace else TrafficSnapshotStale\<rparr>\<rparr>
      else summary)"

definition trafficMonthlySnapshotReusable :: "TrafficMonthly \<Rightarrow> bool \<Rightarrow> traffic_error + bool" where
  "trafficMonthlySnapshotReusable row sourceComplete =
     (case parseTrafficMonthlyStatus (TM_Status row) of
        Inl e \<Rightarrow> Inl e
      | Inr status \<Rightarrow>
         (let dataComplete = trafficDataComplete (TM_SampleCount row) (TM_ExpectedSampleCount row) (TM_GapCount row) (TM_ResetCount row)
          in if sourceComplete \<and> \<not> dataComplete then Inr False
             else if status = TrafficSnapshotStale then Inr True
             else Inr (status = TrafficSnapshotSealed \<and> dataComplete)))"

text \<open>The row \<open>saveTrafficMonthly\<close> writes at time \<open>now\<close>, if it writes one.\<close>

definition monthly_row :: "time \<Rightarrow> TrafficSummary \<Rightarrow> TrafficMonthly option" where
  "monthly_row now summary =
     (let stat = Sum_Stat summary; cycle = Sum_Cycle summary
      in if \<not> Stat_CycleComplete stat \<or> Stat_Status stat = TrafficSnapshotProvisional then None
         else Some \<lparr>TM_ServerID = Sum_ServerID summary, TM_Iface = Sum_Iface summary, TM_CycleMode = Cycle_Mode cycle,
           TM_BillingStartDay = wrap16 (Cycle_BillingStartDay cycle), TM_Timezone = Cycle_Timezone cycle,
           TM_CycleStart = Cycle_Start cycle, TM_CycleEnd = Cycle_End cycle, TM_Status = Stat_Status stat,
           TM_EffectiveStart = Stat_EffectiveStart stat, TM_EffectiveEnd = Stat_EffectiveEnd stat, TM_CoveredUntil = Stat_CoveredUntil stat,
           TM_GeneratedAt = now, TM_SealedAt = (if Stat_Status stat = TrafficSnapshotSealed then Some now else None),
           TM_InBytes = Stat_InBytes stat, TM_OutBytes = Stat_OutBytes stat, TM_P95Enabled = (Stat_P95Status stat = TrafficP95Available),
           TM_InP95 = Stat_InP95 stat, TM_OutP95 = Stat_OutP95 stat, TM_BothP95 = Stat_BothP95 stat, TM_InPeak = Stat_InPeak stat,
           TM_OutPeak = Stat_OutPeak stat, TM_BothPeak = Stat_BothPeak stat, TM_SampleCount = wrap32 (Stat_SampleCount stat),
           TM_ExpectedSampleCount = wrap32 (Stat_ExpectedSampleCount stat), TM_CoverageRatio = Stat_CoverageRatio stat,
           TM_GapCount = wrap32 (Stat_GapCount stat), TM_ResetCount = wrap32 (Stat_ResetCount stat)\<rparr>)"

text \<open>\<open>trafficMonthlySnapshot\<close> for a row that was found: \<open>None\<close> if the snapshot cannot be used.\<close>

definition snapshot_summary :: "TrafficQuery \<Rightarrow> TrafficCycle \<Rightarrow> TrafficMonthly \<Rightarrow> traffic_error + TrafficSummary option" where
  "snapshot_summary q cycle row =
     (case parseTrafficMonthlyStatus (TM_Status row) of
        Inl e \<Rightarrow> Inl e
      | Inr status \<Rightarrow>
         if status \<noteq> TrafficSnapshotSealed \<and> status \<noteq> TrafficSnapshotStale then Inr None
         else (let stat = (emptyTrafficStat zero_time zero_time True status)\<lparr>Stat_InBytes := TM_InBytes row, Stat_OutBytes := TM_OutBytes row,
                     Stat_P95Enabled := Q_P95Enabled q, Stat_InPeak := TM_InPeak row, Stat_OutPeak := TM_OutPeak row,
                     Stat_BothPeak := TM_BothPeak row, Stat_SampleCount := TM_SampleCount row,
                     Stat_ExpectedSampleCount := TM_ExpectedSampleCount row, Stat_EffectiveStart := TM_EffectiveStart row,
                     Stat_EffectiveEnd := TM_EffectiveEnd row, Stat_CoverageRatio := TM_CoverageRatio row,
                     Stat_CoveredUntil := TM_CoveredUntil row, Stat_GapCount := TM_GapCount row, Stat_ResetCount := TM_ResetCount row,
                     Stat_DataComplete := trafficDataComplete (TM_SampleCount row) (TM_ExpectedSampleCount row) (TM_GapCount row) (TM_ResetCount row)\<rparr>;
                   stat = (if Q_P95Enabled q \<and> TM_P95Enabled row
                           then stat\<lparr>Stat_InP95 := TM_InP95 row, Stat_OutP95 := TM_OutP95 row, Stat_BothP95 := TM_BothP95 row\<rparr> else stat)
               in case applyTrafficSelection (applyP95Status (Q_UsageMode q) (TM_P95Enabled row) stat) (Q_DirectionMode q) of
                    Inl e \<Rightarrow> Inl e
                  | Inr stat \<Rightarrow> Inr (Some \<lparr>Sum_ServerID = Q_ServerID q, Sum_Iface = trim_space (Q_Iface q), Sum_UsageMode = Q_UsageMode q,
                      Sum_Cycle = cycle, Sum_Stat = stat\<rparr>)))"

subsection \<open>Summaries of an accumulator\<close>

definition trafficUsageDataComplete :: "int \<Rightarrow> int \<Rightarrow> bool" where
  "trafficUsageDataComplete gaps resets \<longleftrightarrow> gaps = 0 \<and> resets = 0"

definition trafficUsageCoverage :: "time \<Rightarrow> time \<Rightarrow> time \<Rightarrow> time \<Rightarrow> int \<Rightarrow> int \<Rightarrow> f64" where
  "trafficUsageCoverage st en coveredFrom coveredUntil gaps resets =
     (if \<not> trafficUsageDataComplete gaps resets then f0
      else let tot = time_sub en st
           in if tot \<le> 0 then Fin 1
              else let coveredStart = max st coveredFrom; coveredEnd = min en coveredUntil
                   in if \<not> coveredStart < coveredEnd then f0
                      else let ratio = f64_div (f64_of_int (time_sub coveredEnd coveredStart)) (f64_of_int tot)
                           in if f64_lt (Fin 1) ratio then Fin 1 else ratio)"

definition usage_summary :: "time \<Rightarrow> TrafficQuery \<Rightarrow> TrafficCycle \<Rightarrow> TrafficMonthUsage option \<Rightarrow> traffic_error + TrafficSummary" where
  "usage_summary now q cycle found =
     (case found of
        None \<Rightarrow> Inl ErrNoTrafficData
      | Some row \<Rightarrow>
         (case trafficStatEnd now cycle (Q_Ref q) of (statEnd, cycleComplete) \<Rightarrow>
           (let coveredFrom = (if MU_CoveredFrom row = zero_time then Cycle_Start cycle else MU_CoveredFrom row);
                coveredUntil = (if MU_CoveredUntil row = zero_time then statEnd else MU_CoveredUntil row);
                dataComplete = (trafficUsageDataComplete (MU_GapCount row) (MU_ResetCount row) \<and> \<not> Cycle_Start cycle < coveredFrom \<and>
                  (\<not> cycleComplete \<or> \<not> coveredUntil < Cycle_End cycle));
                stat = (emptyTrafficStat zero_time zero_time cycleComplete (trafficSnapshotStatus now cycle (Q_Ref q)))\<lparr>
                  Stat_InBytes := MU_InBytes row, Stat_OutBytes := MU_OutBytes row, Stat_InPeak := MU_InPeak row, Stat_OutPeak := MU_OutPeak row,
                  Stat_BothPeak := MU_BothPeak row, Stat_SampleCount := MU_SampleCount row, Stat_ExpectedSampleCount := 0,
                  Stat_EffectiveStart := coveredFrom, Stat_EffectiveEnd := statEnd,
                  Stat_CoverageRatio := trafficUsageCoverage (Cycle_Start cycle) statEnd coveredFrom coveredUntil (MU_GapCount row) (MU_ResetCount row),
                  Stat_CoveredUntil := coveredUntil, Stat_GapCount := MU_GapCount row, Stat_ResetCount := MU_ResetCount row,
                  Stat_DataComplete := dataComplete\<rparr>
            in case applyTrafficSelection (applyP95Status (Q_UsageMode q) False stat) (Q_DirectionMode q) of
                 Inl e \<Rightarrow> Inl e
               | Inr stat \<Rightarrow> Inr \<lparr>Sum_ServerID = Q_ServerID q, Sum_Iface = trim_space (Q_Iface q), Sum_UsageMode = Q_UsageMode q,
                   Sum_Cycle = cycle, Sum_Stat = stat\<rparr>)))"

subsection \<open>Queries\<close>

definition fold_ascii :: "string \<Rightarrow> string" where
  "fold_ascii s = map (\<lambda>c. if 65 \<le> byte c \<and> byte c \<le> 90 then char_of (byte c + 32) else c) s"

definition validTrafficIface :: "string \<Rightarrow> bool" where
  "validTrafficIface iface \<longleftrightarrow> iface \<noteq> [] \<and> fold_ascii iface \<noteq> ''all''"

definition normalizeTrafficQuery :: "time \<Rightarrow> TrafficQuery \<Rightarrow> traffic_error + TrafficQuery" where
  "normalizeTrafficQuery now q =
     (case Q_Location q of None \<Rightarrow> Inl (InvalidTrafficQuery ''location'') | Some loc \<Rightarrow>
      case NormalizeCycleMode (Q_CycleMode q) of None \<Rightarrow> Inl (InvalidTrafficQuery ''cycle mode'') | Some cycle \<Rightarrow>
      case NormalizeUsageMode (Q_UsageMode q) of None \<Rightarrow> Inl (InvalidTrafficQuery ''usage mode'') | Some usage \<Rightarrow>
      case NormalizeDirectionMode (Q_DirectionMode q) of None \<Rightarrow> Inl (InvalidTrafficQuery ''direction mode'') | Some direction \<Rightarrow>
        (let day = Q_BillingStartDay q;
             finish = (\<lambda>day anchor.
               if Q_Period q \<noteq> TrafficPeriodCurrent \<and> Q_Period q \<noteq> TrafficPeriodPrev then Inl (InvalidTrafficQuery ''period'')
               else Inr (q\<lparr>Q_Ref := if Q_Ref q = zero_time then now else Q_Ref q, Q_UsageMode := usage, Q_CycleMode := cycle,
                           Q_DirectionMode := direction, Q_BillingStartDay := day, Q_BillingAnchorDate := anchor,
                           Q_P95Enabled := Q_P95Enabled q \<and> usage \<noteq> UsageLite, Q_Iface := trim_space (Q_Iface q)\<rparr>))
         in if day < 1 \<or> day > 31 then Inl (InvalidTrafficQuery ''billing start day'')
            else if cycle = CycleWHMCS
              then (case parseTrafficAnchorDate (trim_space (Q_BillingAnchorDate q)) (Some loc) of
                      None \<Rightarrow> Inl (InvalidTrafficQuery ''billing anchor date'')
                    | Some t \<Rightarrow> finish (time_day loc t) (formatTrafficAnchorDate loc t))
            else finish (if cycle = CycleCalendarMonth then 1 else day) []))"

subsection \<open>Days\<close>

definition trafficDayStart :: "location \<Rightarrow> time \<Rightarrow> time" where
  "trafficDayStart loc t = local_midnight loc t"

definition trafficRowsInWindow :: "trafficBucket list \<Rightarrow> time \<Rightarrow> time \<Rightarrow> trafficBucket list" where
  "trafficRowsInWindow rows st en = filter (\<lambda>row. \<not> (B_Bucket row < st \<or> \<not> B_Bucket row < en)) rows"

subsection \<open>The 95th percentile\<close>

lemma twentieth: "round64 (1 / 20) = Fin (3602879701896397 / 72057594037927936)"
proof -
  note b = ilog2_bounds [of "1 / 20"]
  have "(2 :: rat) powi ilog2 (1 / 20) < 2 powi (- 4)" "(2 :: rat) powi (- 5) < 2 powi (ilog2 (1 / 20) + 1)"
    using b by (simp_all add: power_int_def power_one_over)
  from this [THEN powi_two_less] have "ilog2 (1 / 20) = - 5" by linarith
  then have e: "ulp_exp (1 / 20) = - 57" by (simp add: ulp_exp_def)
  have "\<lfloor>36028797018963968 / 5 :: rat\<rfloor> = 7205759403792793" by (rule floor_unique) simp_all
  then have "round_even (36028797018963968 / 5) = 7205759403792794" by (simp add: round_even_def)
  then show ?thesis by (simp add: round64_def round_pos_def pack_def e power_int_def power_one_over)
qed

lemma thirty_second_exact:
  assumes "0 \<le> j" "j < 2 ^ 53"
  shows "round64 (of_int j / 32) = Fin (of_int j / 32)"
proof (cases "j = 0")
  case False
  let ?q = "of_int j / 32 :: rat"
  have "of_int j < (2 :: rat) ^ 53" using assms(2) by (metis of_int_less_iff of_int_numeral of_int_power)
  then have "?q < 2 powi 48" by (simp add: power_int_def)
  then have "ilog2 ?q < 48" using False assms(1) by (intro ilog2_less) simp_all
  then have u: "ulp_exp ?q \<le> - 5" by (simp add: ulp_exp_def)
  have e: "?q = of_int j * 2 powi (- 5)" by (simp add: power_int_def power_one_over)
  have "0 \<le> ?q" using assms(1) by simp
  from round_pos_exact [OF this e u] have "round_pos ?q = ?q" .
  moreover have "?q < 2 ^ 1024" using \<open>?q < 2 powi 48\<close> by (simp add: power_int_def)
  ultimately show ?thesis using assms(1) by (simp add: round64_def pack_def)
qed simp

lemma drop_exact:
  assumes "n < 2 ^ 48"
  shows "f64_to_int (f64_floor (f64_mul (f64_of_int (int n)) (round64 (1 / 20)))) = int (n div 20)"
proof -
  let ?c = "3602879701896397 / 72057594037927936 :: rat" and ?m = "n div 20"
  have n: "20 * ?m \<le> n" "n \<le> 20 * ?m + 19" "?m < 2 ^ 48" using assms by simp_all
  have exact: "round64 (rat_of_nat ?m) = Fin (rat_of_nat ?m)" "round64 (rat_of_nat (32 * ?m + 31) / 32) = Fin (rat_of_nat (32 * ?m + 31) / 32)"
    using thirty_second_exact [of "int (32 * ?m)"] thirty_second_exact [of "int (32 * ?m + 31)"] n(3) by simp_all
  have le: "rat_of_nat (20 * ?m) \<le> rat_of_nat n" "rat_of_nat n \<le> rat_of_nat (20 * ?m + 19)" "rat_of_nat n \<le> rat_of_nat (2 ^ 48)"
    using n(1,2) assms by (simp_all only: of_nat_le_iff)
  have "rat_of_nat ?m \<le> rat_of_nat n * ?c" using le(1) by simp
  moreover have "rat_of_nat n * ?c \<le> rat_of_nat (32 * ?m + 31) / 32" using le(2,3) by simp
  ultimately obtain r where r: "round64 (rat_of_nat n * ?c) = Fin r" "rat_of_nat ?m \<le> r" "r \<le> rat_of_nat (32 * ?m + 31) / 32"
    using round64_between [OF exact] by blast
  then have "\<lfloor>r\<rfloor> = int ?m" by (intro floor_unique) simp_all
  moreover have "f64_of_int (int n) = Fin (rat_of_nat n)" using f64_of_int_exact [of "int n"] assms by simp
  ultimately show ?thesis by (simp add: twentieth r(1) [simplified])
qed

lemma insert_by_mset [simp]: "mset (insert_by lt x ys) = add_mset x (mset ys)"
  by (induction ys) auto

lemma sort_slice_mset [simp]: "mset (sort_slice lt xs) = mset xs"
  unfolding sort_slice_def by (induction xs) simp_all

lemma sort_slice_set [simp]: "set (sort_slice lt xs) = set xs" "length (sort_slice lt xs) = length xs"
  by (metis set_mset_mset sort_slice_mset) (metis size_mset sort_slice_mset)

lemma insert_by_set [simp]: "set (insert_by lt x ys) = insert x (set ys)"
  by (induction ys) auto

lemma sort_descending:
  "NaN \<notin> set xs \<Longrightarrow> sorted_wrt (\<lambda>x y. f64_le y x) (sort_slice (\<lambda>x y. f64_lt y x) xs)"
proof -
  have ins: "NaN \<notin> set ys \<Longrightarrow> x \<noteq> NaN \<Longrightarrow> sorted_wrt (\<lambda>x y. f64_le y x) ys \<Longrightarrow>
      sorted_wrt (\<lambda>x y. f64_le y x) (insert_by (\<lambda>x y. f64_lt y x) x ys)" for x ys
  proof (induction ys)
    case (Cons y ys)
    then have y: "y \<noteq> NaN" and below: "\<And>z. z \<in> set ys \<Longrightarrow> f64_le z y" by auto
    show ?case
    proof (cases "f64_lt x y")
      case True
      then have "f64_le x y" by (simp add: f64_lt_iff)
      with True Cons below show ?thesis by auto
    next
      case False
      then have yx: "f64_le y x" using f64_not_lt Cons.prems(2) y by blast
      with False Cons.prems below f64_le_trans [OF _ yx] show ?thesis by auto
    qed
  qed simp
  show "NaN \<notin> set xs \<Longrightarrow> ?thesis"
    unfolding sort_slice_def
  proof (induction xs)
    case (Cons x xs)
    moreover have "set (foldr (insert_by (\<lambda>x y. f64_lt y x)) xs []) = set xs" by (induction xs) simp_all
    ultimately show ?case by (auto intro!: ins)
  qed simp
qed

lemma descending_counts:
  assumes "sorted_wrt (\<lambda>x y. f64_le y x) xs" "NaN \<notin> set xs" "m < length xs"
  shows "length (filter (\<lambda>v. f64_lt (xs ! m) v) xs) \<le> m" "m < length (filter (\<lambda>v. f64_le (xs ! m) v) xs)"
proof -
  have le: "f64_le (xs ! j) (xs ! i)" if "i \<le> j" "j < length xs" for i j
  proof (cases "i = j")
    case True
    have "xs ! j \<noteq> NaN" using that(2) assms(2) by (metis nth_mem)
    with True show ?thesis by (simp add: f64_le_refl)
  qed (use that assms(1) in \<open>simp add: sorted_wrt_iff_nth_less\<close>)
  have split: "xs = take m xs @ drop m xs" "xs = take (Suc m) xs @ drop (Suc m) xs" by simp_all
  have "filter (\<lambda>v. f64_lt (xs ! m) v) (drop m xs) = []"
    using le [of m] assms(3) by (auto simp: filter_empty_conv in_set_conv_nth f64_lt_iff)
  then have "filter (\<lambda>v. f64_lt (xs ! m) v) xs = filter (\<lambda>v. f64_lt (xs ! m) v) (take m xs)"
    by (subst split(1)) (simp only: filter_append append_Nil2)
  then show "length (filter (\<lambda>v. f64_lt (xs ! m) v) xs) \<le> m" by (metis assms(3) length_filter_le length_take less_or_eq_imp_le min.absorb4)
  have "filter (\<lambda>v. f64_le (xs ! m) v) (take (Suc m) xs) = take (Suc m) xs"
    using le [of _ m] assms(3) by (auto simp: filter_id_conv in_set_conv_nth)
  then have "filter (\<lambda>v. f64_le (xs ! m) v) xs = take (Suc m) xs @ filter (\<lambda>v. f64_le (xs ! m) v) (drop (Suc m) xs)"
    by (subst split(2)) (simp only: filter_append)
  then show "m < length (filter (\<lambda>v. f64_le (xs ! m) v) xs)" using assms(3) by simp
qed

text \<open>
  C26. The 95th percentile of billing is what the contract says, although the number of samples to discard
  is computed with a rounded \<open>0.05\<close>: for fewer than \<open>2 ^ 48\<close> samples it is one of them, at most a twentieth of
  them (rounded down) is larger, and more than a twentieth is at least as large.
\<close>

theorem p95_is_percentile:
  assumes "values \<noteq> []" and "NaN \<notin> set values" and "length values < 2 ^ 48"
  shows "p95DiscardTop values \<in> set values \<and>
    length (filter (\<lambda>v. f64_lt (p95DiscardTop values) v) values) \<le> length values div 20 \<and>
    length values div 20 < length (filter (\<lambda>v. f64_le (p95DiscardTop values) v) values)"
proof -
  let ?s = "sort_slice (\<lambda>x y. f64_lt y x) values" and ?m = "length values div 20"
  have m: "?m < length values" using assms(1) by (simp add: div_less_dividend)
  then have p: "p95DiscardTop values = ?s ! ?m"
    using assms(1) by (simp add: p95DiscardTop_def Let_def drop_exact [OF assms(3)])
  have "length (filter P ?s) = length (filter P values)" for P
    by (metis mset_filter size_mset sort_slice_mset)
  then show ?thesis
    using descending_counts [OF sort_descending [OF assms(2)], of ?m] assms(2) m nth_mem [of ?m ?s] by (simp add: p)
qed

theorem p95_is_percentile_witness:
  "p95DiscardTop [Fin 1, Fin 5, Fin 3] \<in> {Fin 1, Fin 5, Fin 3}"
  using p95_is_percentile [of "[Fin 1, Fin 5, Fin 3]"] by simp

subsection \<open>Statistics of a cycle\<close>

abbreviation "total_in rows \<equiv> sum_list (map B_InBytes rows)"
abbreviation "total_out rows \<equiv> sum_list (map B_OutBytes rows)"
abbreviation "valid_rows rows \<equiv> filter (\<lambda>row. B_SampleCount row > 0) rows"

definition counts_ok :: "TrafficStat \<Rightarrow> trafficBucket list \<Rightarrow> bool" where
  "counts_ok s rows \<longleftrightarrow>
     list_all (\<lambda>row. 0 \<le> B_InBytes row \<and> 0 \<le> B_OutBytes row \<and> 0 \<le> B_GapCount row \<and> 0 \<le> B_ResetCount row) rows \<and>
     0 \<le> Stat_InBytes s \<and> 0 \<le> Stat_OutBytes s \<and> 0 \<le> Stat_SampleCount s \<and> 0 \<le> Stat_GapCount s \<and> 0 \<le> Stat_ResetCount s \<and>
     Stat_SampleCount s + int (length rows) \<le> max_i64 \<and> Stat_GapCount s + sum_list (map B_GapCount rows) \<le> max_i64 \<and>
     Stat_ResetCount s + sum_list (map B_ResetCount rows) \<le> max_i64"

definition stat_fits :: "TrafficStat \<Rightarrow> trafficBucket list \<Rightarrow> bool" where
  "stat_fits s rows \<longleftrightarrow> Stat_InBytes s + total_in rows \<le> max_i64 \<and> Stat_OutBytes s + total_out rows \<le> max_i64"

definition added :: "TrafficStat \<Rightarrow> trafficBucket list \<Rightarrow> TrafficStat \<Rightarrow> bool" where
  "added s rows s' \<longleftrightarrow> Stat_InBytes s' = Stat_InBytes s + total_in rows \<and> Stat_OutBytes s' = Stat_OutBytes s + total_out rows \<and>
     Stat_GapCount s' = Stat_GapCount s + sum_list (map B_GapCount rows) \<and>
     Stat_ResetCount s' = Stat_ResetCount s + sum_list (map B_ResetCount rows) \<and>
     Stat_SampleCount s' = Stat_SampleCount s + int (length (valid_rows rows)) \<and>
     Stat_ExpectedSampleCount s' = Stat_ExpectedSampleCount s"

lemma wrap64_nonneg: "0 \<le> a \<Longrightarrow> 0 \<le> b \<Longrightarrow> a + b \<le> max_i64 \<Longrightarrow> wrap64 (a + b) = a + b"
  by (rule wrap64_id) (simp add: i64_defs)

lemma sums_nonneg:
  assumes "list_all (\<lambda>row. 0 \<le> B_InBytes row \<and> 0 \<le> B_OutBytes row \<and> 0 \<le> B_GapCount row \<and> 0 \<le> B_ResetCount row) rows"
  shows "0 \<le> total_in rows" "0 \<le> total_out rows" "0 \<le> sum_list (map B_GapCount rows)" "0 \<le> sum_list (map B_ResetCount rows)"
  using assms by (auto simp: list_all_iff intro!: sum_list_nonneg)

text \<open>What adding one row does when nothing overflows, and that it fails when something does.\<close>

lemma stat_row_step:
  assumes "counts_ok (scan_stat scan) (row # rows)"
  shows "\<not> stat_fits (scan_stat scan) [row] \<Longrightarrow> stat_row p95 row scan = Inl ErrTrafficDataOverflow"
    and "stat_fits (scan_stat scan) [row] \<Longrightarrow>
      \<exists>scan'. stat_row p95 row scan = Inr scan' \<and> counts_ok (scan_stat scan') rows \<and> added (scan_stat scan) [row] (scan_stat scan')"
proof -
  let ?s = "scan_stat scan"
  have c: "0 \<le> Stat_InBytes ?s" "0 \<le> Stat_OutBytes ?s" "0 \<le> B_InBytes row" "0 \<le> B_OutBytes row"
    "list_all (\<lambda>row. 0 \<le> B_InBytes row \<and> 0 \<le> B_OutBytes row \<and> 0 \<le> B_GapCount row \<and> 0 \<le> B_ResetCount row) rows"
    using assms by (simp_all add: counts_ok_def)
  have w: "wrap64 (Stat_GapCount ?s + B_GapCount row) = Stat_GapCount ?s + B_GapCount row"
    "wrap64 (Stat_ResetCount ?s + B_ResetCount row) = Stat_ResetCount ?s + B_ResetCount row"
    "wrap64 (Stat_SampleCount ?s + 1) = Stat_SampleCount ?s + 1"
    using assms sums_nonneg(3,4) [OF c(5)] by (auto simp: counts_ok_def intro!: wrap64_nonneg)
  show "stat_row p95 row scan = Inl ErrTrafficDataOverflow" if "\<not> stat_fits ?s [row]"
    using that c by (auto simp: stat_row_def addTrafficBytes_def stat_fits_def Let_def)
  show "\<exists>scan'. stat_row p95 row scan = Inr scan' \<and> counts_ok (scan_stat scan') rows \<and> added (scan_stat scan) [row] (scan_stat scan')"
    if "stat_fits ?s [row]"
  proof -
    have "addTrafficBytes (Stat_InBytes ?s) (B_InBytes row) = (Stat_InBytes ?s + B_InBytes row, True)"
      "addTrafficBytes (Stat_OutBytes ?s) (B_OutBytes row) = (Stat_OutBytes ?s + B_OutBytes row, True)"
      using that c by (auto simp: addTrafficBytes_ok stat_fits_def)
    then show ?thesis using assms by (simp add: stat_row_def Let_def w counts_ok_def added_def)
  qed
qed

lemma stat_rows_overflow:
  assumes "counts_ok (scan_stat scan) rows" "\<not> stat_fits (scan_stat scan) rows" "stat_fits (scan_stat scan) []"
  shows "stat_rows p95 rows scan = Inl ErrTrafficDataOverflow"
  using assms
proof (induction rows arbitrary: scan)
  case (Cons row rows)
  show ?case
  proof (cases "stat_fits (scan_stat scan) [row]")
    case True
    then obtain scan' where "stat_row p95 row scan = Inr scan'" "counts_ok (scan_stat scan') rows"
      "added (scan_stat scan) [row] (scan_stat scan')"
      using stat_row_step(2) [OF Cons.prems(1)] by blast
    with Cons.IH [of scan'] Cons.prems(2) True show ?thesis by (auto simp: stat_fits_def added_def add.assoc)
  qed (simp add: stat_row_step(1) [OF Cons.prems(1)])
qed simp

lemma stat_rows_total:
  assumes "counts_ok (scan_stat scan) rows" "stat_fits (scan_stat scan) rows"
  shows "\<exists>scan'. stat_rows p95 rows scan = Inr scan' \<and> added (scan_stat scan) rows (scan_stat scan')"
  using assms
proof (induction rows arbitrary: scan)
  case (Cons row rows)
  have "list_all (\<lambda>row. 0 \<le> B_InBytes row \<and> 0 \<le> B_OutBytes row \<and> 0 \<le> B_GapCount row \<and> 0 \<le> B_ResetCount row) rows"
    using Cons.prems(1) by (simp add: counts_ok_def)
  then have "stat_fits (scan_stat scan) [row]" using Cons.prems(2) sums_nonneg(1,2) by (fastforce simp: stat_fits_def)
  then obtain scan' where s: "stat_row p95 row scan = Inr scan'" "counts_ok (scan_stat scan') rows"
      "added (scan_stat scan) [row] (scan_stat scan')"
    using stat_row_step(2) [OF Cons.prems(1)] by blast
  then have "stat_fits (scan_stat scan') rows" using Cons.prems(2) by (simp add: stat_fits_def added_def add.assoc)
  from Cons.IH [OF s(2) this] s show ?case by (auto simp: added_def)
qed (simp add: added_def)

text \<open>A window of whole buckets expects one sample per bucket.\<close>

lemma bucket_size_nonzero [simp]: "trafficBucketSize \<noteq> 0"
  using bucket_size_pos(1) by linarith

lemma duration_whole_seconds:
  assumes "0 \<le> k" "k * 1000000000 \<le> max_i64"
  shows "duration_seconds (k * 1000000000) = Fin (of_int k)"
proof -
  have k: "\<bar>k\<bar> \<le> 2 ^ 53" using assms by (simp add: max_i64_def)
  have "duration_seconds (k * 1000000000) = f64_add (Fin (of_int k)) (frac_seconds 0)"
    using duration_seconds_split [of "k * 1000000000"] assms by (simp add: i64_defs)
  also have "\<dots> = f64_of_int k" by (simp add: frac_seconds_eq f64_of_int_def)
  finally show ?thesis using f64_of_int_exact [OF k] by simp
qed

lemma expected_whole:
  assumes "int n * trafficBucketSize \<le> max_i64"
  shows "expectedTrafficSamples st (st + int n * trafficBucketSize) = int n"
proof (cases "n = 0")
  case False
  have size: "trafficBucketSize = 300 * 1000000000" by (simp add: trafficBucketSize_def minute_ns_def second_ns_def)
  have n: "300 * int n * 1000000000 \<le> max_i64" "int n \<le> 2 ^ 53" using assms by (simp_all add: size max_i64_def)
  have sub: "time_sub (st + int n * trafficBucketSize) st = 300 * int n * 1000000000"
    using n by (simp add: time_sub_def size i64_defs)
  have "seconds_between st (st + int n * trafficBucketSize) = Fin (300 * of_nat n)"
    unfolding seconds_between_def sub using duration_whole_seconds [of "300 * int n"] n(1) by simp
  moreover have "duration_seconds trafficBucketSize = Fin 300"
    unfolding size using duration_whole_seconds [of 300] by (simp add: max_i64_def)
  moreover have "round64 (of_nat n) = Fin (of_nat n)" using f64_of_int_exact [of "int n"] n(2) by (simp add: f64_of_int_def)
  moreover have "0 < int n * trafficBucketSize" using False by simp
  ultimately show ?thesis by (simp add: expectedTrafficSamples_def)
qed (simp add: expectedTrafficSamples_def)

lemma coverage_range: "0 \<le> a \<Longrightarrow> is_i64 b \<Longrightarrow> is_i64 a \<Longrightarrow> f64_le f0 (coverageRatio a b) \<and> f64_le (coverageRatio a b) (Fin 1)"
proof (cases "b \<le> 0")
  case False
  assume a: "0 \<le> a" "is_i64 b" "is_i64 a"
  obtain x where x: "f64_of_int a = Fin x" "0 \<le> x" using f64_of_int_finite [OF a(1,3)] by blast
  obtain y where y: "f64_of_int b = Fin y" "1 \<le> y"
    using f64_of_int_finite [of b] f64_of_int_ge1 [of b] a(2) False by auto
  have "f64_le f0 (round64 (x / y))" using round64_mono [of 0 "x / y"] x(2) y(2) by simp
  moreover have "\<not> f64_lt (Fin 1) (round64 (x / y)) \<Longrightarrow> f64_le (round64 (x / y)) (Fin 1)" using f64_not_lt by simp
  ultimately show ?thesis using False y(2) by (simp add: coverageRatio_def Let_def x(1) y(1))
qed (simp add: coverageRatio_def)

text \<open>Buckets of a window, one row each: as many valid rows as buckets means every bucket has one.\<close>

lemma bucket_index:
  assumes "trafficBucketStart st = st" "bucket_in st (st + int n * trafficBucketSize) b"
  shows "\<exists>i < n. b = st + int i * trafficBucketSize"
proof -
  obtain j k where j: "b = j * trafficBucketSize" and k: "st = k * trafficBucketSize"
    using assms by (metis bucket_div bucket_in_def)
  have "k * trafficBucketSize \<le> j * trafficBucketSize" "j * trafficBucketSize < (k + int n) * trafficBucketSize"
    using assms j k by (simp_all add: bucket_in_def distrib_right)
  then have "k \<le> j" "j < k + int n" by simp_all
  then show ?thesis by (intro exI [of _ "nat (j - k)"]) (auto simp: j k algebra_simps)
qed

lemma rows_fill_window:
  assumes "trafficBucketStart st = st" "distinct (map B_Bucket rows)"
    and "list_all (\<lambda>row. bucket_in st (st + int n * trafficBucketSize) (B_Bucket row)) rows"
  shows "length rows \<le> n"
    "length rows = n \<longleftrightarrow> (\<forall>i < n. \<exists>row \<in> set rows. B_Bucket row = st + int i * trafficBucketSize)"
proof -
  let ?at = "\<lambda>i. st + int i * trafficBucketSize"
  let ?V = "B_Bucket ` set rows" and ?B = "?at ` {..<n}"
  have inj: "inj_on ?at {..<n}" by (rule inj_onI) simp
  have sub: "?V \<subseteq> ?B" using assms(3) bucket_index [OF assms(1)] by (force simp: list_all_iff)
  have card: "card ?V = length rows" using assms(2) by (metis distinct_card length_map set_map)
  have B: "card ?B = n" "finite ?B" using inj by (simp_all add: card_image)
  then show "length rows \<le> n" using card_mono [OF B(2) sub] card by simp
  have "length rows = n \<longleftrightarrow> ?V = ?B" using card B card_subset_eq [OF B(2) sub] by metis
  also have "\<dots> \<longleftrightarrow> ?B \<subseteq> ?V" using sub by blast
  also have "\<dots> \<longleftrightarrow> (\<forall>i < n. \<exists>row \<in> set rows. B_Bucket row = ?at i)"
    unfolding image_subset_iff image_iff Ball_def lessThan_iff by (simp add: eq_commute [of "B_Bucket _"])
  finally show "length rows = n \<longleftrightarrow> (\<forall>i < n. \<exists>row \<in> set rows. B_Bucket row = ?at i)" .
qed

lemma all_buckets_valid:
  assumes "trafficBucketStart st = st" "distinct (map B_Bucket rows)"
    and "list_all (\<lambda>row. bucket_in st (st + int n * trafficBucketSize) (B_Bucket row)) rows"
  shows "length (valid_rows rows) \<le> n"
    "length (valid_rows rows) = n \<longleftrightarrow> (\<forall>i < n. \<exists>row \<in> set rows. B_Bucket row = st + int i * trafficBucketSize \<and> B_SampleCount row > 0)"
proof -
  have "distinct (map B_Bucket (valid_rows rows))" using assms(2) by (induction rows) auto
  moreover have "list_all (\<lambda>row. bucket_in st (st + int n * trafficBucketSize) (B_Bucket row)) (valid_rows rows)"
    using assms(3) by (simp add: list_all_iff)
  ultimately show "length (valid_rows rows) \<le> n"
    "length (valid_rows rows) = n \<longleftrightarrow> (\<forall>i < n. \<exists>row \<in> set rows. B_Bucket row = st + int i * trafficBucketSize \<and> B_SampleCount row > 0)"
    using rows_fill_window [OF assms(1), of "valid_rows rows" n] by auto
qed

lemma counts_zero_iff:
  assumes "list_all (\<lambda>row. 0 \<le> B_InBytes row \<and> 0 \<le> B_OutBytes row \<and> 0 \<le> B_GapCount row \<and> 0 \<le> B_ResetCount row) rows"
  shows "sum_list (map B_GapCount rows) = 0 \<longleftrightarrow> (\<forall>row \<in> set rows. B_GapCount row = 0)"
    "sum_list (map B_ResetCount rows) = 0 \<longleftrightarrow> (\<forall>row \<in> set rows. B_ResetCount row = 0)"
  using assms by (subst sum_list_nonneg_eq_0_iff; auto simp: list_all_iff)+

definition selected :: "string \<Rightarrow> int \<Rightarrow> int \<Rightarrow> int" where
  "selected direction i u = (if direction = DirectionOut then u else if direction = DirectionBoth then i + u else max i u)"

text \<open>The last steps of \<open>buildTrafficStat\<close> keep the counts and select the bytes.\<close>

lemma finish_stat:
  assumes "0 \<le> Stat_InBytes s" "0 \<le> Stat_OutBytes s" "NormalizeDirectionMode direction \<noteq> None"
  shows "direction = DirectionBoth \<Longrightarrow> max_i64 < Stat_InBytes s + Stat_OutBytes s \<Longrightarrow>
      applyTrafficSelection (applyP95Status usage p s) direction = Inl ErrTrafficDataOverflow"
    and "\<not> (direction = DirectionBoth \<and> max_i64 < Stat_InBytes s + Stat_OutBytes s) \<Longrightarrow>
      \<exists>t. applyTrafficSelection (applyP95Status usage p s) direction = Inr t \<and> added s [] t \<and>
        Stat_SelectedBytes t = selected direction (Stat_InBytes s) (Stat_OutBytes s) \<and>
        Stat_DataComplete t = Stat_DataComplete s \<and> Stat_CoverageRatio t = Stat_CoverageRatio s"
proof -
  have b: "Stat_InBytes (applyP95Status usage p s) = Stat_InBytes s" "Stat_OutBytes (applyP95Status usage p s) = Stat_OutBytes s"
    "Stat_GapCount (applyP95Status usage p s) = Stat_GapCount s" "Stat_ResetCount (applyP95Status usage p s) = Stat_ResetCount s"
    "Stat_SampleCount (applyP95Status usage p s) = Stat_SampleCount s" "Stat_DataComplete (applyP95Status usage p s) = Stat_DataComplete s"
    "Stat_ExpectedSampleCount (applyP95Status usage p s) = Stat_ExpectedSampleCount s"
    "Stat_CoverageRatio (applyP95Status usage p s) = Stat_CoverageRatio s"
    by (simp_all add: applyP95Status_def Let_def)
  show "direction = DirectionBoth \<Longrightarrow> max_i64 < Stat_InBytes s + Stat_OutBytes s \<Longrightarrow>
      applyTrafficSelection (applyP95Status usage p s) direction = Inl ErrTrafficDataOverflow"
    using assms by (auto simp: applyTrafficSelection_def b addTrafficBytes_def setting_modes)
  have d: "direction = DirectionOut \<or> direction = DirectionBoth \<or> direction = DirectionMax"
    using assms(3) by (auto simp: NormalizeDirectionMode_def split: if_splits)
  assume "\<not> (direction = DirectionBoth \<and> max_i64 < Stat_InBytes s + Stat_OutBytes s)"
  with d assms(1,2) show "\<exists>t. applyTrafficSelection (applyP95Status usage p s) direction = Inr t \<and> added s [] t \<and>
        Stat_SelectedBytes t = selected direction (Stat_InBytes s) (Stat_OutBytes s) \<and>
        Stat_DataComplete t = Stat_DataComplete s \<and> Stat_CoverageRatio t = Stat_CoverageRatio s"
    by (auto simp: applyTrafficSelection_def b addTrafficBytes_def select_def selected_def added_def maxTrafficBytes_def setting_modes max_def
        split: prod.split)
qed

text \<open>
  C27. The statistics of a cycle are exact. For a window of \<open>n\<close> whole buckets and at most one row per bucket,
  the computation fails exactly when a total does not fit into \<open>int64\<close>; otherwise the bytes are the sums of the
  rows, the selected bytes are those of the configured direction, one sample is expected per bucket,
  the coverage is a ratio between 0 and 1, and the data count as complete exactly when every bucket of the
  window has a billing sample and no row records a gap or a counter reset.
\<close>

theorem cycle_statistics:
  assumes "NormalizeDirectionMode direction \<noteq> None"
    and "list_all (\<lambda>row. 0 \<le> B_InBytes row \<and> 0 \<le> B_OutBytes row \<and> 0 \<le> B_GapCount row \<and> 0 \<le> B_ResetCount row) rows"
    and "sum_list (map B_GapCount rows) \<le> max_i64" and "sum_list (map B_ResetCount rows) \<le> max_i64"
    and "trafficBucketStart st = st" and "en = st + int n * trafficBucketSize" and "int n * trafficBucketSize \<le> max_i64"
    and "distinct (map B_Bucket rows)" and "list_all (\<lambda>row. bucket_in st en (B_Bucket row)) rows"
  shows "if max_i64 < total_in rows \<or> max_i64 < total_out rows \<or> direction = DirectionBoth \<and> max_i64 < total_in rows + total_out rows
    then buildTrafficStat rows st en cycleComplete status direction usage p95 = Inl ErrTrafficDataOverflow
    else \<exists>stat. buildTrafficStat rows st en cycleComplete status direction usage p95 = Inr stat \<and>
      Stat_InBytes stat = total_in rows \<and> Stat_OutBytes stat = total_out rows \<and>
      Stat_SelectedBytes stat = selected direction (total_in rows) (total_out rows) \<and>
      Stat_ExpectedSampleCount stat = int n \<and> Stat_SampleCount stat = int (length (valid_rows rows)) \<and> Stat_SampleCount stat \<le> int n \<and>
      f64_le f0 (Stat_CoverageRatio stat) \<and> f64_le (Stat_CoverageRatio stat) (Fin 1) \<and>
      (Stat_DataComplete stat \<longleftrightarrow>
         (\<forall>i < n. \<exists>row \<in> set rows. B_Bucket row = st + int i * trafficBucketSize \<and> B_SampleCount row > 0) \<and>
         (\<forall>row \<in> set rows. B_GapCount row = 0 \<and> B_ResetCount row = 0))"
proof -
  let ?s0 = "(emptyTrafficStat st en cycleComplete status)\<lparr>Stat_P95Enabled := p95\<rparr>"
  let ?scan = "\<lparr>scan_stat = ?s0, inValues = [], outValues = [], bothValues = []\<rparr>"
  note nonneg = sums_nonneg [OF assms(2)] and valid = all_buckets_valid [OF assms(5,8) assms(9) [unfolded assms(6)]]
  have expected: "Stat_ExpectedSampleCount ?s0 = int n" using expected_whole [OF assms(7)] by (simp add: emptyTrafficStat_def assms(6) Let_def)
  have z: "Stat_InBytes ?s0 = 0" "Stat_OutBytes ?s0 = 0" "Stat_GapCount ?s0 = 0" "Stat_ResetCount ?s0 = 0" "Stat_SampleCount ?s0 = 0"
    by (simp_all add: emptyTrafficStat_def Let_def)
  have n: "int n \<le> max_i64" using assms(7) by (simp add: trafficBucketSize_def minute_ns_def second_ns_def max_i64_def)
  have len: "length rows \<le> n" using rows_fill_window(1) [OF assms(5,8) assms(9) [unfolded assms(6)]] .
  have ok: "counts_ok (scan_stat ?scan) rows" using assms(2-4) n len by (simp add: counts_ok_def z)
  have fits: "stat_fits (scan_stat ?scan) rows \<longleftrightarrow> total_in rows \<le> max_i64 \<and> total_out rows \<le> max_i64" by (simp add: stat_fits_def z)
  show ?thesis
  proof (cases "stat_fits (scan_stat ?scan) rows")
    case False
    have "stat_rows p95 rows ?scan = Inl ErrTrafficDataOverflow"
      using stat_rows_overflow [OF ok False] by (simp add: stat_fits_def z max_i64_def)
    with False fits show ?thesis by (auto simp: buildTrafficStat_def)
  next
    case True
    then obtain scan' where scan': "stat_rows p95 rows ?scan = Inr scan'" and add: "added ?s0 rows (scan_stat scan')"
      using stat_rows_total [OF ok] by auto
    define s p where "s = close_stat p95 scan'" and "p = p95_available p95 scan'"
    then have build: "buildTrafficStat rows st en cycleComplete status direction usage p95 = applyTrafficSelection (applyP95Status usage p s) direction"
      by (simp add: buildTrafficStat_def scan')
    have s: "added ?s0 rows s" "Stat_CoverageRatio s = coverageRatio (Stat_SampleCount s) (Stat_ExpectedSampleCount s)"
        "Stat_DataComplete s = trafficDataComplete (Stat_SampleCount s) (Stat_ExpectedSampleCount s) (Stat_GapCount s) (Stat_ResetCount s)"
      using add by (simp_all add: s_def close_stat_def Let_def added_def)
    have totals: "Stat_InBytes s = total_in rows" "Stat_OutBytes s = total_out rows" "Stat_GapCount s = sum_list (map B_GapCount rows)"
      "Stat_ResetCount s = sum_list (map B_ResetCount rows)" "Stat_SampleCount s = int (length (valid_rows rows))" "Stat_ExpectedSampleCount s = int n"
      using s(1) by (simp_all only: added_def z expected add_0)
    have complete: "Stat_DataComplete s \<longleftrightarrow>
         (\<forall>i < n. \<exists>row \<in> set rows. B_Bucket row = st + int i * trafficBucketSize \<and> B_SampleCount row > 0) \<and>
         (\<forall>row \<in> set rows. B_GapCount row = 0 \<and> B_ResetCount row = 0)"
      unfolding s(3) totals trafficDataComplete_def using valid counts_zero_iff [OF assms(2)] len by auto
    have cover: "f64_le f0 (Stat_CoverageRatio s) \<and> f64_le (Stat_CoverageRatio s) (Fin 1)"
      unfolding s(2) totals using n valid(1) by (intro coverage_range) (simp_all add: i64_defs)
    have s0: "0 \<le> Stat_InBytes s" "0 \<le> Stat_OutBytes s" using totals nonneg by simp_all
    show ?thesis
    proof (cases "direction = DirectionBoth \<and> max_i64 < total_in rows + total_out rows")
      case True
      then have "buildTrafficStat rows st en cycleComplete status direction usage p95 = Inl ErrTrafficDataOverflow"
        unfolding build using finish_stat(1) [OF s0 assms(1)] by (simp add: totals)
      with True show ?thesis by simp
    next
      case False
      then obtain t where t: "applyTrafficSelection (applyP95Status usage p s) direction = Inr t" "added s [] t"
        "Stat_SelectedBytes t = selected direction (total_in rows) (total_out rows)" "Stat_DataComplete t = Stat_DataComplete s"
        "Stat_CoverageRatio t = Stat_CoverageRatio s"
        using finish_stat(2) [OF s0 assms(1)] unfolding totals by blast
      then have "Stat_InBytes t = total_in rows" "Stat_OutBytes t = total_out rows" "Stat_SampleCount t = int (length (valid_rows rows))"
        "Stat_ExpectedSampleCount t = int n" by (simp_all add: added_def totals)
      with t build complete cover valid(1) False \<open>stat_fits (scan_stat ?scan) rows\<close> [unfolded fits] show ?thesis
        by (simp only: not_less [symmetric] if_False de_Morgan_disj simp_thms) (intro exI [of _ t], simp)
    qed
  qed
qed

definition example_bucket :: trafficBucket where
  "example_bucket = \<lparr>B_Bucket = 0, B_InBytes = 600, B_OutBytes = 300, B_InRate = Fin 2, B_OutRate = Fin 1, B_InPeak = Fin 2,
     B_OutPeak = Fin 1, B_SampleCount = 1, B_GapCount = 0, B_ResetCount = 0\<rparr>"

theorem cycle_statistics_witness:
  "\<exists>stat. buildTrafficStat [example_bucket] 0 trafficBucketSize True TrafficSnapshotSealed DirectionBoth UsageBilling True = Inr stat \<and>
     Stat_SelectedBytes stat = 900 \<and> Stat_DataComplete stat"
proof -
  have b: "B_Bucket example_bucket = 0" "B_InBytes example_bucket = 600" "B_OutBytes example_bucket = 300" "B_GapCount example_bucket = 0"
    "B_ResetCount example_bucket = 0" "B_SampleCount example_bucket = 1"
    by (simp_all add: example_bucket_def)
  have z: "trafficBucketStart 0 = 0" by (simp add: trafficBucketStart_def time_truncate_def)
  have m: "trafficBucketSize \<le> max_i64" by (simp add: trafficBucketSize_def minute_ns_def second_ns_def max_i64_def)
  have lim: "\<not> max_i64 < 600" "\<not> max_i64 < 300" "\<not> max_i64 < 900" "0 \<le> max_i64" by (simp_all add: max_i64_def)
  have sel: "selected DirectionBoth 600 300 = 900" by (simp add: selected_def setting_modes)
  have dir: "NormalizeDirectionMode DirectionBoth \<noteq> None" by (simp add: NormalizeDirectionMode_def)
  from cycle_statistics [OF dir, of "[example_bucket]" 0 trafficBucketSize 1 True TrafficSnapshotSealed UsageBilling True] show ?thesis
    unfolding list.map sum_list.Cons sum_list.Nil b add_0_right sel by (simp add: b z m lim bucket_in_def) blast
qed

end
