(* ===== verification/Traffic_Store.thy ===== *)
theory Traffic_Store
  imports Traffic_Stats
begin

text \<open>
  The traffic tables and the transactions on them: \<open>materialization.go\<close>, the database parts of
  \<open>traffic_ingest.go\<close>, \<open>traffic_usage.go\<close>, \<open>traffic_rebuild.go\<close> and \<open>settings.go\<close> under
  \<open>internal/store/traffic\<close>, and the loops of \<open>internal/traffic/service.go\<close> that drive them.

  A table is a list or an association list on its primary key. A transaction is a function of the whole
  database that returns an error or the new database; on an error the database keeps its value, as a
  rolled-back transaction does. The row locks the code takes make the transactions run one after the
  other, so a history is a sequence of them. In the transactions of the materialisers any statement may fail, the
  service may be refused the write gate, and the outcome of a commit may stay unknown; the other transactions leave out the
  errors of the database connection, which end them with the database as it was.
\<close>

subsection \<open>Tables\<close>

record traffic_server =
  TSrv_ID :: int
  TSrv_IsDeleted :: bool
  TSrv_CycleMode :: string
  TSrv_BillingStartDay :: int
  TSrv_BillingAnchorDate :: string
  TSrv_BillingTimezone :: string
  TSrv_DirectionMode :: string
  TSrv_P95Enabled :: bool
  TSrv_CreatedAt :: time

record traffic_db =
  db_setting :: "TrafficSetting option"
  db_progress :: "(string, time) gomap"
  db_repairs :: "(int, time) gomap"
  db_usage :: usage_map
  db_monthly :: "(trafficUsageKey, TrafficMonthly) gomap"
  db_facts :: "(traffic5mKey, Traffic5m) gomap"
  db_servers :: "traffic_server list"
  db_nics :: "trafficNICRow list"
  db_current_nics :: "(int \<times> string) list"

text \<open>The statements of a materialising transaction.\<close>

datatype statement = ReadSettings | LockSettings | LockProgress | LockRepair | LoadSamples | LoadMarks | UpsertRows | SaveProgress | SaveRepair | CountRepairs

datatype store_failure =
    SettingsRowMissing
  | ProgressRowMissing string
  | RepairChanged int
  | StoredSettings settings_error
  | PatchRejected settings_error
  | UsageFailed usage_error
  | IntegerOutOfRange
  | ErrTrafficFactsDisabled
  | DuplicateFact
  | ServerNotFound int
  | InvalidRequest string
  | StatementFailed statement
  | CommitFailed
  | GateRefused

text \<open>\<open>bad\<close> says which statements of a transaction fail: the connection is lost, a column overflows, or the deadline of the step passes.\<close>

definition checked :: "(statement \<Rightarrow> bool) \<Rightarrow> statement \<Rightarrow> store_failure + 'a \<Rightarrow> store_failure + 'a" where
  "checked bad what result = (if bad what then Inl (StatementFailed what) else result)"

lemma checked_Inr [simp]: "checked bad what result = Inr x \<longleftrightarrow> \<not> bad what \<and> result = Inr x"
  by (simp add: checked_def)

subsection \<open>Progress of a materialiser\<close>

definition materializationUsage :: string where "materializationUsage = ''usage''"
definition materializationFacts :: string where "materializationFacts = ''facts''"
definition trafficBackfillWindow :: duration where "trafficBackfillWindow = 30 * minute_ns"
definition trafficMaterializationChunk :: duration where "trafficMaterializationChunk = hour_ns"
definition trafficMaterializationOverlap :: duration where "trafficMaterializationOverlap = trafficBackfillWindow"
definition trafficUsageRepairChunk :: duration where "trafficUsageRepairChunk = 6 * hour_ns"

definition lockMaterializationProgress :: "string \<Rightarrow> traffic_db \<Rightarrow> store_failure + time" where
  "lockMaterializationProgress kind db =
     (case map_of (db_progress db) kind of None \<Rightarrow> Inl (ProgressRowMissing kind) | Some t \<Rightarrow> Inr (trafficBucketStart t))"

definition nextMaterializationRange :: "time \<Rightarrow> time \<Rightarrow> time \<Rightarrow> duration \<Rightarrow> time \<times> time \<times> bool" where
  "nextMaterializationRange scannedUntil target sourceFloor overlap =
     (let cursor = trafficBucketStart scannedUntil; target = trafficBucketStart target; sourceFloor = trafficBucketStart sourceFloor;
          cursor = (if cursor < sourceFloor then sourceFloor else cursor)
      in if \<not> cursor < target then (cursor, cursor, False)
         else let en = cursor + trafficMaterializationChunk; en = (if target < en then target else en);
                  st = (if en = target then cursor - overlap else cursor); st = (if st < sourceFloor then sourceFloor else st)
              in (st, en, True))"

definition setMaterializationProgress :: "string \<Rightarrow> time \<Rightarrow> traffic_db \<Rightarrow> store_failure + traffic_db" where
  "setMaterializationProgress kind scannedUntil db =
     (if map_of (db_progress db) kind = None then Inl (ProgressRowMissing kind)
      else Inr (db\<lparr>db_progress := AList.update kind scannedUntil (db_progress db)\<rparr>))"

definition resetFactsProgressForBilling :: "string \<Rightarrow> string \<Rightarrow> time \<Rightarrow> traffic_db \<Rightarrow> store_failure + traffic_db" where
  "resetFactsProgressForBilling current next ref db =
     (if current \<noteq> UsageLite \<or> next \<noteq> UsageBilling then Inr db
      else setMaterializationProgress materializationFacts (trafficBucketStart (ref - trafficBackfillWindow)) db)"

subsection \<open>Source rows\<close>

definition nic_pair :: "trafficNICRow \<Rightarrow> int \<times> string" where "nic_pair row = (Nic_ServerID row, Nic_Iface row)"

definition in_window :: "time \<Rightarrow> time \<Rightarrow> trafficNICRow \<Rightarrow> bool" where
  "in_window st en row \<longleftrightarrow> st \<le> Nic_CollectedAt row \<and> Nic_CollectedAt row < en"

text \<open>
  The pairs of server and interface a scan considers: those with a sample in the window, those with a
  current sample, and those with an accumulator of a cycle that overlaps the window.
\<close>

definition scoped_pair :: "traffic_db \<Rightarrow> (int \<Rightarrow> bool) \<Rightarrow> time \<Rightarrow> time \<Rightarrow> int \<times> string \<Rightarrow> bool" where
  "scoped_pair db active st en p \<longleftrightarrow> active (fst p) \<and>
     (list_ex (\<lambda>row. nic_pair row = p \<and> in_window st en row) (db_nics db) \<or> p \<in> set (db_current_nics db) \<or>
      list_ex (\<lambda>(k, row). (key_serverID k, key_iface k) = p \<and> st < key_cycleEnd k \<and> key_cycleStart k < en) (db_usage db))"

definition last_before :: "traffic_db \<Rightarrow> time \<Rightarrow> trafficNICRow \<Rightarrow> bool" where
  "last_before db st row \<longleftrightarrow> Nic_CollectedAt row < st \<and>
     list_all (\<lambda>r. nic_pair r = nic_pair row \<and> Nic_CollectedAt r < st \<longrightarrow> Nic_CollectedAt r \<le> Nic_CollectedAt row) (db_nics db)"

definition first_after :: "traffic_db \<Rightarrow> time \<Rightarrow> trafficNICRow \<Rightarrow> bool" where
  "first_after db en row \<longleftrightarrow> en \<le> Nic_CollectedAt row \<and>
     list_all (\<lambda>r. nic_pair r = nic_pair row \<and> en \<le> Nic_CollectedAt r \<longrightarrow> Nic_CollectedAt row \<le> Nic_CollectedAt r) (db_nics db)"

definition source_row :: "traffic_db \<Rightarrow> (int \<Rightarrow> bool) \<Rightarrow> time \<Rightarrow> time \<Rightarrow> trafficNICRow \<Rightarrow> bool" where
  "source_row db active st en row \<longleftrightarrow> scoped_pair db active st en (nic_pair row) \<and>
     (in_window st en row \<or> last_before db st row \<or> first_after db en row)"

definition source_rows :: "traffic_db \<Rightarrow> (int \<Rightarrow> bool) \<Rightarrow> time \<Rightarrow> time \<Rightarrow> trafficNICRow list" where
  "source_rows db active st en =
     sort_key (\<lambda>row. (Nic_ServerID row, Nic_Iface row, Nic_CollectedAt row)) (filter (source_row db active st en) (db_nics db))"

definition find_server :: "traffic_db \<Rightarrow> int \<Rightarrow> traffic_server option" where
  "find_server db i = find (\<lambda>s. TSrv_ID s = i) (db_servers db)"

definition active_server :: "traffic_db \<Rightarrow> int \<Rightarrow> bool" where
  "active_server db i \<longleftrightarrow> (case find_server db i of None \<Rightarrow> False | Some s \<Rightarrow> \<not> TSrv_IsDeleted s)"

definition loadTrafficSampleRows :: "time \<Rightarrow> time \<Rightarrow> traffic_db \<Rightarrow> trafficNICRow list" where
  "loadTrafficSampleRows st en db = source_rows db (active_server db) st en"

text \<open>A live scan skips the servers under repair; a repair scans the given servers only.\<close>

definition usage_server :: "traffic_db \<Rightarrow> int list \<Rightarrow> int \<Rightarrow> bool" where
  "usage_server db serverIDs i \<longleftrightarrow> active_server db i \<and>
     (if serverIDs = [] then map_of (db_repairs db) i = None else i \<in> set serverIDs)"

definition usage_nic_row :: "traffic_db \<Rightarrow> trafficNICRow \<Rightarrow> trafficUsageNICRow option" where
  "usage_nic_row db row =
     map_option (\<lambda>s. \<lparr>UN_ServerID = Nic_ServerID row, UN_Iface = Nic_Iface row, UN_ServerCycleMode = TSrv_CycleMode s,
        UN_BillingStartDay = TSrv_BillingStartDay s, UN_BillingAnchorDate = TSrv_BillingAnchorDate s,
        UN_BillingTimezone = TSrv_BillingTimezone s, UN_CollectedAt = Nic_CollectedAt row,
        UN_BytesRecv = Nic_BytesRecv row, UN_BytesSent = Nic_BytesSent row\<rparr>) (find_server db (Nic_ServerID row))"

definition loadTrafficUsageRows :: "time \<Rightarrow> time \<Rightarrow> int list \<Rightarrow> traffic_db \<Rightarrow> trafficUsageNICRow list" where
  "loadTrafficUsageRows st en serverIDs db = List.map_filter (usage_nic_row db) (source_rows db (usage_server db serverIDs) st en)"

subsection \<open>Usage\<close>

definition trafficUsageServerIDs :: "trafficUsageNICRow list \<Rightarrow> int list" where
  "trafficUsageServerIDs rows = remdups (filter (\<lambda>i. \<not> i \<le> 0) (map UN_ServerID rows))"

definition loadTrafficUsageProgress :: "time \<Rightarrow> time \<Rightarrow> trafficUsageNICRow list \<Rightarrow> traffic_db \<Rightarrow> progress_map" where
  "loadTrafficUsageProgress st en samples db =
     (let serverIDs = trafficUsageServerIDs samples
      in fold (\<lambda>(k, row) out. AList.update (trafficUsageKeyFromUsage row) (MU_LastCollectedAt row) out)
           (filter (\<lambda>(k, row). MU_ServerID row \<in> set serverIDs \<and> st < MU_CycleEnd row \<and> MU_CycleStart row < en) (db_usage db)) [])"

text \<open>The columns of a conflicting row, as the \<open>ON CONFLICT\<close> clause computes them.\<close>

definition merge_usage :: "TrafficMonthUsage \<Rightarrow> TrafficMonthUsage \<Rightarrow> TrafficMonthUsage" where
  "merge_usage old new =
     (let inFull = MU_InBytes old > max_i64 - MU_InBytes new; outFull = MU_OutBytes old > max_i64 - MU_OutBytes new
      in old\<lparr>MU_CoveredFrom := min (MU_CoveredFrom old) (MU_CoveredFrom new), MU_CoveredUntil := max (MU_CoveredUntil old) (MU_CoveredUntil new),
             MU_LastCollectedAt := max (MU_LastCollectedAt old) (MU_LastCollectedAt new),
             MU_InBytes := if inFull then MU_InBytes old else MU_InBytes old + MU_InBytes new,
             MU_OutBytes := if outFull then MU_OutBytes old else MU_OutBytes old + MU_OutBytes new,
             MU_InPeak := f64_max (MU_InPeak old) (MU_InPeak new), MU_OutPeak := f64_max (MU_OutPeak old) (MU_OutPeak new),
             MU_BothPeak := f64_max (MU_BothPeak old) (MU_BothPeak new), MU_SampleCount := MU_SampleCount old + MU_SampleCount new,
             MU_GapCount := MU_GapCount old + MU_GapCount new + (if inFull \<or> outFull then 1 else 0),
             MU_ResetCount := MU_ResetCount old + MU_ResetCount new\<rparr>)"

definition usage_in_range :: "TrafficMonthUsage \<Rightarrow> bool" where
  "usage_in_range row \<longleftrightarrow> is_i32 (MU_SampleCount row) \<and> is_i32 (MU_GapCount row) \<and> is_i32 (MU_ResetCount row)"

definition upsert_usage_row :: "TrafficMonthUsage \<Rightarrow> usage_map \<Rightarrow> store_failure + usage_map" where
  "upsert_usage_row item tab =
     (let k = trafficUsageKeyFromUsage item;
          row = (case map_of tab k of None \<Rightarrow> item | Some old \<Rightarrow> merge_usage old item)
      in if usage_in_range row then Inr (AList.update k row tab) else Inl IntegerOutOfRange)"

fun upsert_usage_rows :: "TrafficMonthUsage list \<Rightarrow> usage_map \<Rightarrow> store_failure + usage_map" where
  "upsert_usage_rows [] tab = Inr tab"
| "upsert_usage_rows (item # items) tab =
     (case upsert_usage_row item tab of Inl e \<Rightarrow> Inl e | Inr tab \<Rightarrow> upsert_usage_rows items tab)"

definition upsertTrafficMonthUsage :: "TrafficMonthUsage list \<Rightarrow> traffic_db \<Rightarrow> store_failure + traffic_db" where
  "upsertTrafficMonthUsage items db =
     (case upsert_usage_rows items (db_usage db) of Inl e \<Rightarrow> Inl e | Inr tab \<Rightarrow> Inr (db\<lparr>db_usage := tab\<rparr>))"

definition materializeTrafficMonthUsageRange ::
    "(statement \<Rightarrow> bool) \<Rightarrow> tz_env \<Rightarrow> Settings \<Rightarrow> location \<Rightarrow> time \<Rightarrow> time \<Rightarrow> int list \<Rightarrow> traffic_db \<Rightarrow> store_failure + traffic_db" where
  "materializeTrafficMonthUsageRange bad env settings loc st en serverIDs db =
     checked bad LoadSamples
       (let rows = loadTrafficUsageRows st en serverIDs db
        in if rows = [] then Inr db
           else checked bad LoadMarks
             (let progress = loadTrafficUsageProgress st en rows db
              in case buildTrafficMonthUsageRows env rows settings loc st en progress of
                   Inl e \<Rightarrow> Inl (UsageFailed e)
                 | Inr items \<Rightarrow> if items = [] then Inr db else checked bad UpsertRows (upsertTrafficMonthUsage items db)))"

definition loadTrafficSetting :: "traffic_db \<Rightarrow> store_failure + TrafficSetting" where
  "loadTrafficSetting db = (case db_setting db of None \<Rightarrow> Inl SettingsRowMissing | Some item \<Rightarrow> Inr item)"

definition GetSettings :: "tz_env \<Rightarrow> traffic_db \<Rightarrow> store_failure + Settings" where
  "GetSettings env db =
     (case loadTrafficSetting db of Inl e \<Rightarrow> Inl e | Inr item \<Rightarrow>
      case NormalizeSettings env (settingsFromTrafficSetting item) of Inl e \<Rightarrow> Inl (StoredSettings e) | Inr s \<Rightarrow> Inr s)"

definition MaterializeTrafficMonthUsage ::
    "tz_env \<Rightarrow> location \<Rightarrow> time \<Rightarrow> time \<Rightarrow> (statement \<Rightarrow> bool) \<Rightarrow> traffic_db \<Rightarrow> store_failure + bool \<times> traffic_db" where
  "MaterializeTrafficMonthUsage env loc target sourceFloor bad db =
     (case checked bad ReadSettings (GetSettings env db) of Inl e \<Rightarrow> Inl e | Inr settings \<Rightarrow>
      case checked bad LockProgress (lockMaterializationProgress materializationUsage db) of Inl e \<Rightarrow> Inl e | Inr scannedUntil \<Rightarrow>
      case nextMaterializationRange scannedUntil target sourceFloor trafficMaterializationOverlap of (st, en, advanced) \<Rightarrow>
        (let hasMore = advanced \<and> en < trafficBucketStart target;
             save = (\<lambda>db. case checked bad SaveProgress (setMaterializationProgress materializationUsage en db) of
                            Inl e \<Rightarrow> Inl e | Inr db \<Rightarrow> Inr (hasMore, db))
         in if \<not> advanced
            then (if scannedUntil < en then save db else Inr (hasMore, db))
            else (case (if st < en then materializeTrafficMonthUsageRange bad env settings loc st en [] db else Inr db) of
                    Inl e \<Rightarrow> Inl e
                  | Inr db \<Rightarrow> save db)))"

subsection \<open>Repairs\<close>

definition lockNextTrafficUsageRepair :: "traffic_db \<Rightarrow> (int \<times> time) option" where
  "lockNextTrafficUsageRepair db =
     (case sort_key (\<lambda>(serverID, scannedUntil). (scannedUntil, serverID)) (db_repairs db) of [] \<Rightarrow> None | r # rs \<Rightarrow> Some r)"

definition advanceTrafficUsageRepair :: "int \<Rightarrow> time \<Rightarrow> traffic_db \<Rightarrow> store_failure + traffic_db" where
  "advanceTrafficUsageRepair serverID en db =
     (if map_of (db_repairs db) serverID = None then Inl (RepairChanged serverID)
      else Inr (db\<lparr>db_repairs := AList.update serverID en (db_repairs db)\<rparr>))"

definition deleteTrafficUsageRepair :: "int \<Rightarrow> traffic_db \<Rightarrow> store_failure + traffic_db" where
  "deleteTrafficUsageRepair serverID db =
     (if map_of (db_repairs db) serverID = None then Inl (RepairChanged serverID)
      else Inr (db\<lparr>db_repairs := AList.delete serverID (db_repairs db)\<rparr>))"

definition trafficUsageRepairsRemain :: "traffic_db \<Rightarrow> bool" where
  "trafficUsageRepairsRemain db \<longleftrightarrow> db_repairs db \<noteq> []"

definition MaterializeTrafficMonthUsageRepair ::
    "tz_env \<Rightarrow> location \<Rightarrow> time \<Rightarrow> time \<Rightarrow> (statement \<Rightarrow> bool) \<Rightarrow> traffic_db \<Rightarrow> store_failure + bool \<times> traffic_db" where
  "MaterializeTrafficMonthUsageRepair env loc target sourceFloor bad db =
     (let target = trafficBucketStart target; sourceFloor = trafficBucketStart sourceFloor;
          remain = (\<lambda>r. case checked bad SaveRepair r of Inl e \<Rightarrow> Inl e
                        | Inr db \<Rightarrow> checked bad CountRepairs (Inr (trafficUsageRepairsRemain db, db)))
      in case checked bad ReadSettings (GetSettings env db) of Inl e \<Rightarrow> Inl e | Inr settings \<Rightarrow>
         case checked bad LockProgress (lockMaterializationProgress materializationUsage db) of Inl e \<Rightarrow> Inl e | Inr _ \<Rightarrow>
         case checked bad LockRepair (Inr (lockNextTrafficUsageRepair db)) of Inl e \<Rightarrow> Inl e
         | Inr None \<Rightarrow> Inr (False, db)
         | Inr (Some (serverID, scannedUntil)) \<Rightarrow>
            (let st = trafficBucketStart scannedUntil; st = (if st < sourceFloor then sourceFloor else st)
             in if \<not> st < target then remain (deleteTrafficUsageRepair serverID db)
                else let en = st + trafficUsageRepairChunk; en = (if target < en then target else en)
                     in case materializeTrafficMonthUsageRange bad env settings loc st en [serverID] db of
                          Inl e \<Rightarrow> Inl e
                        | Inr db \<Rightarrow>
                           if en = target then remain (deleteTrafficUsageRepair serverID db)
                           else remain (advanceTrafficUsageRepair serverID en db)))"

definition enqueueTrafficUsageRepair :: "int \<Rightarrow> time \<Rightarrow> traffic_db \<Rightarrow> traffic_db" where
  "enqueueTrafficUsageRepair serverID from db =
     db\<lparr>db_repairs := AList.update serverID
        (case map_of (db_repairs db) serverID of None \<Rightarrow> from | Some t \<Rightarrow> min t from) (db_repairs db)\<rparr>"

definition resetCycleDerived :: "int \<Rightarrow> time \<Rightarrow> traffic_db \<Rightarrow> store_failure + traffic_db" where
  "resetCycleDerived serverID from db =
     (case lockMaterializationProgress materializationUsage db of
        Inl e \<Rightarrow> Inl e
      | Inr _ \<Rightarrow> Inr (enqueueTrafficUsageRepair serverID from
          (db\<lparr>db_usage := filter (\<lambda>(k, row). \<not> (key_serverID k = serverID \<and> from < key_cycleEnd k)) (db_usage db),
              db_monthly := filter (\<lambda>(k, row). \<not> (key_serverID k = serverID \<and> from < key_cycleEnd k)) (db_monthly db)\<rparr>)))"

definition server_cycle :: "traffic_server \<Rightarrow> ServerCycleSettings" where
  "server_cycle s = \<lparr>Srv_Mode = TSrv_CycleMode s, Srv_BillingStartDay = TSrv_BillingStartDay s,
     Srv_BillingAnchorDate = TSrv_BillingAnchorDate s, Srv_BillingTimezone = TSrv_BillingTimezone s\<rparr>"

definition PrepareServerCycleChange ::
    "tz_env \<Rightarrow> time \<Rightarrow> int \<Rightarrow> ServerCycleSettings \<Rightarrow> location option \<Rightarrow> time \<Rightarrow> traffic_db \<Rightarrow> store_failure + traffic_db" where
  "PrepareServerCycleChange env now serverID next fallback ref db =
     (if serverID \<le> 0 then Inl (InvalidRequest ''server id'')
      else if fallback = None then Inl (InvalidRequest ''location'')
      else let ref = (if ref = zero_time then now else ref)
           in case NormalizeServerCycleSettings env next of Inl e \<Rightarrow> Inl (PatchRejected e) | Inr next \<Rightarrow>
              case find_server db serverID of None \<Rightarrow> Inl (ServerNotFound serverID) | Some s \<Rightarrow>
              if TSrv_IsDeleted s then Inl (ServerNotFound serverID)
              else case NormalizeServerCycleSettings env (server_cycle s) of Inl e \<Rightarrow> Inl (StoredSettings e) | Inr current \<Rightarrow>
                   if sameServerCycle current next then Inr db
                   else case cycleRebuildStart env current next fallback ref of
                          Inl e \<Rightarrow> Inl (StoredSettings e)
                        | Inr from \<Rightarrow> resetCycleDerived serverID from db)"

subsection \<open>Five-minute facts\<close>

definition lockFactsEnabled :: "traffic_db \<Rightarrow> store_failure + bool" where
  "lockFactsEnabled db = (case db_setting db of None \<Rightarrow> Inl SettingsRowMissing | Some item \<Rightarrow> Inr (TS_UsageMode item = UsageBilling))"

definition put_facts :: "Traffic5m list \<Rightarrow> traffic_db \<Rightarrow> traffic_db" where
  "put_facts items db = db\<lparr>db_facts := fold (\<lambda>row. AList.update (row_order row) row) items (db_facts db)\<rparr>"

definition upsertTraffic5mRows :: "(statement \<Rightarrow> bool) \<Rightarrow> Traffic5m list \<Rightarrow> traffic_db \<Rightarrow> store_failure + traffic_db" where
  "upsertTraffic5mRows bad items db = (if items = [] then Inr db else checked bad UpsertRows (Inr (put_facts items db)))"

definition insertTraffic5mRows :: "Traffic5m list \<Rightarrow> traffic_db \<Rightarrow> store_failure + traffic_db" where
  "insertTraffic5mRows items db =
     (if list_ex (\<lambda>row. map_of (db_facts db) (row_order row) \<noteq> None) items \<or> \<not> distinct (map row_order items) then Inl DuplicateFact
      else Inr (put_facts items db))"

definition materializeTraffic5mRange :: "(statement \<Rightarrow> bool) \<Rightarrow> time \<Rightarrow> time \<Rightarrow> traffic_db \<Rightarrow> store_failure + traffic_db" where
  "materializeTraffic5mRange bad st en db =
     (case checked bad LoadSamples (Inr (loadTrafficSampleRows st en db)) of
        Inl e \<Rightarrow> Inl e
      | Inr rows \<Rightarrow>
         (let items = buildTraffic5mRows rows st en
          in if items = [] then Inr db else upsertTraffic5mRows bad items db))"

definition MaterializeTraffic5m :: "time \<Rightarrow> time \<Rightarrow> (statement \<Rightarrow> bool) \<Rightarrow> traffic_db \<Rightarrow> store_failure + bool \<times> traffic_db" where
  "MaterializeTraffic5m target sourceFloor bad db =
     (case checked bad LockSettings (lockFactsEnabled db) of Inl e \<Rightarrow> Inl e | Inr enabled \<Rightarrow>
        if \<not> enabled then Inr (False, db)
        else case checked bad LockProgress (lockMaterializationProgress materializationFacts db) of Inl e \<Rightarrow> Inl e | Inr scannedUntil \<Rightarrow>
             case nextMaterializationRange scannedUntil target sourceFloor trafficMaterializationOverlap of (st, en, advanced) \<Rightarrow>
               (let hasMore = advanced \<and> en < trafficBucketStart target;
                    save = (\<lambda>db. case checked bad SaveProgress (setMaterializationProgress materializationFacts en db) of
                                   Inl e \<Rightarrow> Inl e | Inr db \<Rightarrow> Inr (hasMore, db))
                in if \<not> advanced
                   then (if scannedUntil < en then save db else Inr (hasMore, db))
                   else (case materializeTraffic5mRange bad st en db of Inl e \<Rightarrow> Inl e | Inr db \<Rightarrow> save db)))"

definition deleteTraffic5mRange :: "int \<Rightarrow> string list \<Rightarrow> time \<Rightarrow> time \<Rightarrow> traffic_db \<Rightarrow> traffic_db" where
  "deleteTraffic5mRange serverID ifaces st en db =
     db\<lparr>db_facts := filter (\<lambda>((i, n, b), row). \<not> (i = serverID \<and> n \<in> set ifaces \<and> st \<le> b \<and> b < en)) (db_facts db)\<rparr>"

definition deleteTrafficMonthlySnapshots :: "int \<Rightarrow> time \<Rightarrow> time \<Rightarrow> traffic_db \<Rightarrow> traffic_db" where
  "deleteTrafficMonthlySnapshots serverID st en db =
     db\<lparr>db_monthly := filter (\<lambda>(k, row). \<not> (key_serverID k = serverID \<and> st < key_cycleEnd k \<and> key_cycleStart k < en)) (db_monthly db)\<rparr>"

definition rebuild_row :: "traffic_db \<Rightarrow> int \<Rightarrow> string list \<Rightarrow> time \<Rightarrow> time \<Rightarrow> trafficNICRow \<Rightarrow> bool" where
  "rebuild_row db serverID ifaces st en row \<longleftrightarrow> Nic_ServerID row = serverID \<and> Nic_Iface row \<in> set ifaces \<and>
     (in_window st en row \<or> last_before db st row \<or> first_after db en row)"

definition loadRebuildNICRows :: "int \<Rightarrow> string list \<Rightarrow> time \<Rightarrow> time \<Rightarrow> traffic_db \<Rightarrow> trafficNICRow list" where
  "loadRebuildNICRows serverID ifaces st en db =
     (if serverID \<le> 0 \<or> ifaces = [] then []
      else sort_key (\<lambda>row. (Nic_ServerID row, Nic_Iface row, Nic_CollectedAt row)) (filter (rebuild_row db serverID ifaces st en) (db_nics db)))"

definition RebuildTraffic5mChunk :: "int \<Rightarrow> string list \<Rightarrow> time \<Rightarrow> time \<Rightarrow> traffic_db \<Rightarrow> store_failure + traffic_db" where
  "RebuildTraffic5mChunk serverID ifaces st en db =
     (if serverID \<le> 0 then Inl (InvalidRequest ''server id'')
      else if \<not> st < en then Inr db
      else if ifaces = [] then Inl (InvalidRequest ''ifaces'')
      else case lockFactsEnabled db of Inl e \<Rightarrow> Inl e | Inr enabled \<Rightarrow>
           if \<not> enabled then Inl ErrTrafficFactsDisabled
           else let items = buildTraffic5mRows (loadRebuildNICRows serverID ifaces st en db) st en;
                    db = deleteTraffic5mRange serverID ifaces st en db
                in case insertTraffic5mRows items db of
                     Inl e \<Rightarrow> Inl e | Inr db \<Rightarrow> Inr (deleteTrafficMonthlySnapshots serverID st en db))"

definition trafficMetricRangeEnd :: "time \<Rightarrow> time" where
  "trafficMetricRangeEnd t = (let bucket = trafficBucketStart t in if t = bucket then bucket else bucket + trafficBucketSize)"

subsection \<open>Settings\<close>

definition saveTrafficSetting :: "TrafficSetting \<Rightarrow> traffic_db \<Rightarrow> store_failure + traffic_db" where
  "saveTrafficSetting item db = (if db_setting db = None then Inl SettingsRowMissing else Inr (db\<lparr>db_setting := Some item\<rparr>))"

definition PatchSettingsAt :: "tz_env \<Rightarrow> time \<Rightarrow> SettingsPatch \<Rightarrow> time \<Rightarrow> traffic_db \<Rightarrow> store_failure + Settings \<times> traffic_db" where
  "PatchSettingsAt env now patch ref db =
     (let ref = (if ref = zero_time then now else ref)
      in case GetSettings env db of Inl e \<Rightarrow> Inl e | Inr stored \<Rightarrow>
         case patch_apply env patch stored of Inl e \<Rightarrow> Inl (PatchRejected (ErrInvalidSettingsPatch e)) | Inr next \<Rightarrow>
         case resetFactsProgressForBilling (Set_UsageMode stored) (Set_UsageMode next) ref db of Inl e \<Rightarrow> Inl e | Inr db \<Rightarrow>
         case saveTrafficSetting (trafficSettingFromSettings next) db of Inl e \<Rightarrow> Inl e | Inr db \<Rightarrow> Inr (next, db))"

definition EffectiveServerSettings :: "tz_env \<Rightarrow> int \<Rightarrow> Settings \<Rightarrow> traffic_db \<Rightarrow> store_failure + Settings" where
  "EffectiveServerSettings env serverID defaults db =
     (if serverID \<le> 0 then Inl (InvalidRequest ''server id'')
      else case NormalizeSettings env defaults of Inl e \<Rightarrow> Inl (StoredSettings e) | Inr defaults \<Rightarrow>
           case find_server db serverID of None \<Rightarrow> Inr defaults | Some s \<Rightarrow>
           if TSrv_IsDeleted s then Inr defaults
           else case SettingsWithServerCycle env defaults \<lparr>Srv_Mode = TSrv_CycleMode s, Srv_BillingStartDay = TSrv_BillingStartDay s,
                       Srv_BillingAnchorDate = trim_space (TSrv_BillingAnchorDate s), Srv_BillingTimezone = trim_space (TSrv_BillingTimezone s)\<rparr> of
                  Inl e \<Rightarrow> Inl (StoredSettings e)
                | Inr settings \<Rightarrow>
                   (case SettingsWithServerDirection env settings (TSrv_DirectionMode s) of
                      Inl e \<Rightarrow> Inl (StoredSettings e) | Inr settings \<Rightarrow> Inr settings))"

subsection \<open>The service\<close>

definition materializeMaxSteps :: nat where "materializeMaxSteps = 12"
definition usageRepairMaxSteps :: nat where "usageRepairMaxSteps = 120"

text \<open>
  What happens to one step: the gate refuses it because the service is stopping, it runs with some of its statements failing, or
  its commit reports an error whether or not it took effect. The step timeout of the service is a failing statement or commit.
\<close>

datatype step_outcome = Refused | Runs "statement \<Rightarrow> bool" | CommitLost "statement \<Rightarrow> bool" bool

definition run_step ::
    "step_outcome \<Rightarrow> ((statement \<Rightarrow> bool) \<Rightarrow> traffic_db \<Rightarrow> store_failure + bool \<times> traffic_db) \<Rightarrow> traffic_db \<Rightarrow> (store_failure + bool) \<times> traffic_db" where
  "run_step outcome step db =
     (case outcome of
        Refused \<Rightarrow> (Inl GateRefused, db)
      | Runs bad \<Rightarrow> (case step bad db of Inl e \<Rightarrow> (Inl e, db) | Inr (hasMore, db') \<Rightarrow> (Inr hasMore, db'))
      | CommitLost bad applied \<Rightarrow>
         (case step bad db of Inl e \<Rightarrow> (Inl e, db) | Inr (hasMore, db') \<Rightarrow> (Inl CommitFailed, if applied then db' else db)))"

text \<open>
  A loop of at most so many transactions that stops when there is no more work. The database it reached
  is kept when a later step fails.
\<close>

fun run_steps ::
    "nat \<Rightarrow> (nat \<Rightarrow> step_outcome) \<Rightarrow> ((statement \<Rightarrow> bool) \<Rightarrow> traffic_db \<Rightarrow> store_failure + bool \<times> traffic_db) \<Rightarrow> traffic_db \<Rightarrow>
     store_failure option \<times> traffic_db" where
  "run_steps 0 outcomes step db = (None, db)"
| "run_steps (Suc n) outcomes step db =
     (case run_step (outcomes 0) step db of
        (Inl e, db) \<Rightarrow> (Some e, db)
      | (Inr hasMore, db) \<Rightarrow> if hasMore then run_steps n (\<lambda>k. outcomes (Suc k)) step db else (None, db))"

definition materializeUsage ::
    "(nat \<Rightarrow> step_outcome) \<Rightarrow> tz_env \<Rightarrow> location \<Rightarrow> time \<Rightarrow> time \<Rightarrow> traffic_db \<Rightarrow> store_failure option \<times> traffic_db" where
  "materializeUsage outcomes env loc target sourceFloor db =
     run_steps materializeMaxSteps outcomes (MaterializeTrafficMonthUsage env loc target sourceFloor) db"

text \<open>\<open>budget\<close> is the number of repair steps that start before the deadline of the round.\<close>

definition materializeUsageRepairs ::
    "nat \<Rightarrow> (nat \<Rightarrow> step_outcome) \<Rightarrow> tz_env \<Rightarrow> location \<Rightarrow> time \<Rightarrow> time \<Rightarrow> traffic_db \<Rightarrow> store_failure option \<times> traffic_db" where
  "materializeUsageRepairs budget outcomes env loc target sourceFloor db =
     run_steps (min budget usageRepairMaxSteps) outcomes (MaterializeTrafficMonthUsageRepair env loc target sourceFloor) db"

definition materializeFacts :: "(nat \<Rightarrow> step_outcome) \<Rightarrow> time \<Rightarrow> time \<Rightarrow> traffic_db \<Rightarrow> store_failure option \<times> traffic_db" where
  "materializeFacts outcomes target sourceFloor db = run_steps materializeMaxSteps outcomes (MaterializeTraffic5m target sourceFloor) db"

definition materializeSettle :: duration where "materializeSettle = 30 * second_ns"

text \<open>One round of the service; the errors of its three parts are joined.\<close>

record round_faults =
  settings_unread :: bool
  usage_outcomes :: "nat \<Rightarrow> step_outcome"
  repair_outcomes :: "nat \<Rightarrow> step_outcome"
  facts_outcomes :: "nat \<Rightarrow> step_outcome"

definition materializeOnce ::
    "round_faults \<Rightarrow> nat \<Rightarrow> tz_env \<Rightarrow> location \<Rightarrow> duration \<Rightarrow> duration \<Rightarrow> time \<Rightarrow> traffic_db \<Rightarrow> store_failure list \<times> traffic_db" where
  "materializeOnce faults budget env loc sourceRetention trafficRetention now db =
     (case checked (\<lambda>_. settings_unread faults) ReadSettings (GetSettings env db) of
        Inl e \<Rightarrow> ([e], db)
      | Inr settings \<Rightarrow>
         (let target = now - materializeSettle; usageFloor = target - sourceRetention;
              errs = (\<lambda>x. case x of None \<Rightarrow> [] | Some e \<Rightarrow> [e]);
              (e1, db) = materializeUsage (usage_outcomes faults) env loc target usageFloor db;
              (e2, db) = materializeUsageRepairs budget (repair_outcomes faults) env loc target usageFloor db;
              (e3, db) = (if Set_UsageMode settings = UsageBilling
                          then materializeFacts (facts_outcomes faults) target (target - min sourceRetention trafficRetention) db else (None, db))
          in (errs e1 @ errs e2 @ errs e3, db)))"

subsection \<open>Reading back what was written\<close>

definition usage_table_ok :: "usage_map \<Rightarrow> bool" where
  "usage_table_ok tab \<longleftrightarrow> distinct (map fst tab) \<and> list_all (\<lambda>(k, row). trafficUsageKeyFromUsage row = k) tab"

lemma usage_table_map_of: "usage_table_ok tab \<Longrightarrow> map_of tab k = Some row \<Longrightarrow> trafficUsageKeyFromUsage row = k"
  by (auto simp: usage_table_ok_def list_all_iff dest!: map_of_SomeD)

lemma usage_table_update:
  assumes "usage_table_ok tab" "trafficUsageKeyFromUsage row = k"
  shows "usage_table_ok (AList.update k row tab)"
proof -
  have "set (AList.update k row tab) \<subseteq> insert (k, row) (set tab)" by (induction tab) auto
  with assms show ?thesis by (fastforce simp: usage_table_ok_def list_all_iff)
qed

definition usage_in_scope :: "time \<Rightarrow> time \<Rightarrow> trafficUsageNICRow list \<Rightarrow> trafficUsageKey \<Rightarrow> bool" where
  "usage_in_scope st en rows k \<longleftrightarrow> key_serverID k \<in> set (trafficUsageServerIDs rows) \<and> st < key_cycleEnd k \<and> key_cycleStart k < en"

lemma map_of_load:
  assumes "usage_table_ok tab"
  shows "map_of (fold (\<lambda>(k, row) out. AList.update (trafficUsageKeyFromUsage row) (MU_LastCollectedAt row) out) tab m) k =
     (case map_of tab k of None \<Rightarrow> map_of m k | Some row \<Rightarrow> Some (MU_LastCollectedAt row))"
  using assms
proof (induction tab arbitrary: m)
  case (Cons e tab)
  obtain k' row where e: "e = (k', row)" by fastforce
  have "usage_table_ok tab" "trafficUsageKeyFromUsage row = k'" "map_of tab k' = None"
    using Cons.prems by (auto simp: usage_table_ok_def e map_of_eq_None_iff)
  with Cons.IH show ?case by (auto simp: e split: option.split)
qed simp

lemma map_of_filter_key:
  "distinct (map fst tab) \<Longrightarrow> map_of (filter (\<lambda>(k, row). P k row) tab) k = (case map_of tab k of None \<Rightarrow> None | Some row \<Rightarrow> if P k row then Some row else None)"
  by (induction tab) (auto simp: map_of_eq_None_iff split: option.split)

lemma load_progress:
  assumes "usage_table_ok (db_usage db)"
  shows "progress_at (loadTrafficUsageProgress st en rows db) k =
     (case map_of (db_usage db) k of None \<Rightarrow> 0 | Some row \<Rightarrow> if usage_in_scope st en rows k then MU_LastCollectedAt row else 0)"
proof -
  let ?P = "\<lambda>k row. MU_ServerID row \<in> set (trafficUsageServerIDs rows) \<and> st < MU_CycleEnd row \<and> MU_CycleStart row < en"
  have ok: "usage_table_ok (filter (\<lambda>(k, row). ?P k row) (db_usage db))"
    using assms by (auto simp: usage_table_ok_def list_all_iff distinct_map_filter)
  have "?P k row \<longleftrightarrow> usage_in_scope st en rows k" if "map_of (db_usage db) k = Some row" for row
    using usage_table_map_of [OF assms that] by (auto simp: usage_in_scope_def trafficUsageKeyFromUsage_def)
  then show ?thesis
    using map_of_filter_key [of "db_usage db" ?P k] assms
    by (auto simp: progress_at_def loadTrafficUsageProgress_def Let_def map_of_load [OF ok] usage_table_ok_def split: option.splits)
qed

lemma merge_usage_key: "trafficUsageKeyFromUsage (merge_usage old new) = trafficUsageKeyFromUsage old"
  by (simp add: merge_usage_def trafficUsageKeyFromUsage_def Let_def)

lemma upsert_rows:
  assumes "upsert_usage_rows (map snd U) tab = Inr tab'" "usage_table_ok tab" "usage_table_ok U"
  shows "usage_table_ok tab' \<and> map_of tab' k = (case map_of U k of None \<Rightarrow> map_of tab k
     | Some item \<Rightarrow> Some (case map_of tab k of None \<Rightarrow> item | Some old \<Rightarrow> merge_usage old item))"
  using assms
proof (induction U arbitrary: tab)
  case (Cons e U)
  obtain k' item where e: "e = (k', item)" by fastforce
  have U: "usage_table_ok U" "trafficUsageKeyFromUsage item = k'" "map_of U k' = None"
    using Cons.prems by (auto simp: usage_table_ok_def e map_of_eq_None_iff)
  let ?row = "case map_of tab k' of None \<Rightarrow> item | Some old \<Rightarrow> merge_usage old item"
  have rest: "upsert_usage_rows (map snd U) (AList.update k' ?row tab) = Inr tab'"
    using Cons.prems(1) U(2) by (auto simp: e upsert_usage_row_def Let_def split: if_splits)
  have "trafficUsageKeyFromUsage ?row = k'" using U(2) usage_table_map_of [OF Cons.prems(2)] by (auto simp: merge_usage_key split: option.split)
  then have "usage_table_ok (AList.update k' ?row tab)" by (rule usage_table_update [OF Cons.prems(2)])
  from Cons.IH [OF rest this U(1)] U(3) show ?case by (cases "k = k'"; cases "map_of U k") (simp_all add: e)
qed simp

text \<open>The rows a scan loads do not change when accumulators are added for pairs it already considers.\<close>

lemma same_source_rows:
  assumes "\<And>p. scoped_pair db' active st en p = scoped_pair db active st en p" "db_nics db' = db_nics db" "db_servers db' = db_servers db"
    "db_repairs db' = db_repairs db" "active = usage_server db ids"
  shows "loadTrafficUsageRows st en ids db' = loadTrafficUsageRows st en ids db"
proof -
  have "usage_server db' ids = active" "usage_nic_row db' = usage_nic_row db"
    using assms(3-5) by (auto simp: fun_eq_iff usage_server_def active_server_def find_server_def usage_nic_row_def)
  moreover have "source_row db' active st en = source_row db active st en"
    using assms(1,2) by (simp add: fun_eq_iff source_row_def last_before_def first_after_def)
  ultimately show ?thesis using assms(2,5) by (simp add: loadTrafficUsageRows_def source_rows_def)
qed

lemma loaded_row:
  assumes "row \<in> set (loadTrafficUsageRows st en ids db)"
  shows "scoped_pair db (usage_server db ids) st en (UN_ServerID row, UN_Iface row)"
proof -
  obtain r where "r \<in> set (source_rows db (usage_server db ids) st en)" "usage_nic_row db r = Some row"
    using assms by (auto simp: loadTrafficUsageRows_def in_map_filter)
  then show ?thesis by (auto simp: source_rows_def source_row_def usage_nic_row_def nic_pair_def)
qed

lemma list_ex_keys: "list_ex (\<lambda>(k, v). Q k) tab \<longleftrightarrow> (\<exists>k. map_of tab k \<noteq> None \<and> Q k)"
  by (force simp: list_ex_iff map_of_eq_None_iff)

lemma scoped_after_upsert:
  assumes "\<And>k. map_of tab' k \<noteq> None \<longleftrightarrow> map_of (db_usage db) k \<noteq> None \<or> map_of U k \<noteq> None"
    and "\<And>k. map_of U k \<noteq> None \<Longrightarrow> scoped_pair db active st en (key_serverID k, key_iface k)"
  shows "scoped_pair (db\<lparr>db_usage := tab'\<rparr>) active st en p = scoped_pair db active st en p"
proof -
  let ?Q = "\<lambda>k. (key_serverID k, key_iface k) = p \<and> st < key_cycleEnd k \<and> key_cycleStart k < en"
  have "(\<exists>k. map_of tab' k \<noteq> None \<and> ?Q k) \<longrightarrow> (\<exists>k. map_of (db_usage db) k \<noteq> None \<and> ?Q k) \<or> scoped_pair db active st en p"
    using assms by blast
  moreover have "(\<exists>k. map_of (db_usage db) k \<noteq> None \<and> ?Q k) \<longrightarrow> (\<exists>k. map_of tab' k \<noteq> None \<and> ?Q k)"
    using assms(1) by blast
  ultimately show ?thesis unfolding scoped_pair_def [of "db\<lparr>db_usage := tab'\<rparr>"] scoped_pair_def [of db] list_ex_keys by auto
qed

lemma loaded_servers:
  assumes "row \<in> set (loadTrafficUsageRows st en ids db)" "list_all (\<lambda>s. 0 < TSrv_ID s) (db_servers db)"
  shows "UN_ServerID row \<in> set (trafficUsageServerIDs (loadTrafficUsageRows st en ids db))"
proof -
  obtain r where "usage_nic_row db r = Some row" using assms(1) by (auto simp: loadTrafficUsageRows_def in_map_filter)
  then obtain s where "find_server db (UN_ServerID row) = Some s" by (auto simp: usage_nic_row_def)
  then have "s \<in> set (db_servers db)" "TSrv_ID s = UN_ServerID row" by (auto simp: find_server_def find_Some_iff)
  then have "0 < UN_ServerID row" using assms(2) by (auto simp: list_all_iff)
  with assms(1) show ?thesis by (auto simp: trafficUsageServerIDs_def)
qed

lemma build_usage:
  assumes "buildTrafficMonthUsageRows env rows settings loc st en P0 = Inr items"
  obtains U P where "items = map snd U" "noted P0 st en ((\<lambda>row. (UN_ServerID row, UN_Iface row)) ` set rows) (U, P)"
    "\<And>Q. behind P Q \<Longrightarrow> buildTrafficMonthUsageRows env rows settings loc st en Q = Inr []"
proof -
  let ?start = "\<lambda>P. \<lparr>scan_rule = None, scan_prev = None, scan_state = ([], P)\<rparr>"
  obtain scan where scan: "usage_rows env settings loc st en rows (?start P0) = Inr scan" "items = map snd (fst (scan_state scan))"
    using assms by (auto simp: buildTrafficMonthUsageRows_def split: sum.splits)
  obtain U P where s: "scan_state scan = (U, P)" by fastforce
  have "noted P0 st en ((\<lambda>row. (UN_ServerID row, UN_Iface row)) ` set rows) (scan_state (?start P0))"
    by (simp add: noted_def noted_at_def)
  with rows_noted [OF scan(1)] s have "noted P0 st en ((\<lambda>row. (UN_ServerID row, UN_Iface row)) ` set rows) (U, P)" by auto
  moreover have "buildTrafficMonthUsageRows env rows settings loc st en Q = Inr []" if "behind P Q" for Q
    using rows_replay [OF scan(1), of Q "[]"] that s by (simp add: buildTrafficMonthUsageRows_def with_state_def)
  ultimately show thesis using that [of U P] scan(2) s by simp
qed

lemma noted_table:
  assumes "noted P0 st en pairs (U, P)"
  shows "usage_table_ok U"
proof -
  have "trafficUsageKeyFromUsage row = k" if "(k, row) \<in> set U" for k row
  proof -
    have "map_of U k = Some row" using assms that by (simp add: noted_def)
    then show ?thesis using assms [unfolded noted_def, THEN conjunct2, rule_format, of k] by (simp add: noted_at_def)
  qed
  then show ?thesis using assms by (auto simp: usage_table_ok_def noted_def list_all_iff)
qed

text \<open>The marks of the stored accumulators are at least as far as those at the end of the run that wrote them.\<close>

lemma stored_marks:
  assumes ok: "usage_table_ok (db_usage db)" and noted: "noted (loadTrafficUsageProgress st en rows db) st en ((\<lambda>row. (UN_ServerID row, UN_Iface row)) ` set rows) (U, P)"
    and "upsert_usage_rows (map snd U) (db_usage db) = Inr tab'"
    and servers: "\<And>row. row \<in> set rows \<Longrightarrow> UN_ServerID row \<in> set (trafficUsageServerIDs rows)"
  shows "behind P (loadTrafficUsageProgress st en rows (db\<lparr>db_usage := tab'\<rparr>))"
  unfolding behind_def
proof
  fix k
  note tab' = upsert_rows [OF assms(3) ok noted_table [OF noted], of k]
  note at = noted [unfolded noted_def, THEN conjunct2, rule_format, of k]
  have Q: "progress_at (loadTrafficUsageProgress st en rows (db\<lparr>db_usage := tab'\<rparr>)) k =
     (case map_of tab' k of None \<Rightarrow> 0 | Some row \<Rightarrow> if usage_in_scope st en rows k then MU_LastCollectedAt row else 0)"
    using load_progress [of "db\<lparr>db_usage := tab'\<rparr>"] tab' by simp
  show "progress_at P k \<le> progress_at (loadTrafficUsageProgress st en rows (db\<lparr>db_usage := tab'\<rparr>)) k"
  proof (cases "map_of U k")
    case None
    then show ?thesis using at tab' Q load_progress [OF ok, of st en rows k] by (simp add: noted_at_def)
  next
    case (Some item)
    then have item: "progress_at P k \<le> max (progress_at (loadTrafficUsageProgress st en rows db) k) (MU_LastCollectedAt item)"
      "0 \<le> MU_LastCollectedAt item" "usage_in_scope st en rows k"
      using at servers by (auto simp: noted_at_def usage_in_scope_def)
    have last: "MU_LastCollectedAt (merge_usage old item) = max (MU_LastCollectedAt old) (MU_LastCollectedAt item)" for old
      by (simp add: merge_usage_def Let_def)
    show ?thesis
    proof (cases "map_of (db_usage db) k")
      case None
      then show ?thesis using item Q Some tab' load_progress [OF ok, of st en rows k] by simp
    next
      case (Some old)
      then show ?thesis using item Q \<open>map_of U k = Some item\<close> tab' load_progress [OF ok, of st en rows k] last by simp
    qed
  qed
qed

text \<open>
  Charging is idempotent. Charging a window to the stored accumulators, as a whole transaction from the
  queries to the upsert, touches nothing but the accumulators and keeps them keyed; doing it again -- after a
  crash, or because the scans overlap -- changes nothing at all.\<close>

theorem usage_range_idempotent:
  assumes "usage_table_ok (db_usage db)" and "list_all (\<lambda>s. 0 < TSrv_ID s) (db_servers db)"
    and "materializeTrafficMonthUsageRange bad env settings loc st en ids db = Inr db'"
  shows "materializeTrafficMonthUsageRange bad env settings loc st en ids db' = Inr db' \<and> usage_table_ok (db_usage db') \<and>
    db' = db\<lparr>db_usage := db_usage db'\<rparr>"
proof -
  define rows where "rows = loadTrafficUsageRows st en ids db"
  define P0 where "P0 = loadTrafficUsageProgress st en rows db"
  have run: "\<not> bad LoadSamples \<and> (if rows = [] then db' = db
       else \<not> bad LoadMarks \<and> (\<exists>items. buildTrafficMonthUsageRows env rows settings loc st en P0 = Inr items \<and>
              (if items = [] then db' = db else upsertTrafficMonthUsage items db = Inr db')))"
    using assms(3) by (auto simp: materializeTrafficMonthUsageRange_def Let_def rows_def P0_def split: if_splits sum.splits)
  show ?thesis
  proof (cases "rows = [] \<or> buildTrafficMonthUsageRows env rows settings loc st en P0 = Inr []")
    case True
    then have "db' = db" using run by (cases "rows = []") auto
    with assms(1,3) show ?thesis by simp
  next
    case False
    then obtain items where items: "buildTrafficMonthUsageRows env rows settings loc st en P0 = Inr items" "items \<noteq> []"
      and up: "upsertTrafficMonthUsage items db = Inr db'"
      using run by (auto split: if_splits)
    obtain U P where U: "items = map snd U" "noted P0 st en ((\<lambda>row. (UN_ServerID row, UN_Iface row)) ` set rows) (U, P)"
      "\<And>Q. behind P Q \<Longrightarrow> buildTrafficMonthUsageRows env rows settings loc st en Q = Inr []"
      using build_usage [OF items(1)] by blast
    obtain tab' where tab': "upsert_usage_rows (map snd U) (db_usage db) = Inr tab'" and db': "db' = db\<lparr>db_usage := tab'\<rparr>"
      using up U(1) by (auto simp: upsertTrafficMonthUsage_def split: sum.splits)
    note upserted = upsert_rows [OF tab' assms(1) noted_table [OF U(2)]]
    have "scoped_pair db (usage_server db ids) st en (key_serverID k, key_iface k)" if "map_of U k \<noteq> None" for k
      using U(2) [unfolded noted_def, THEN conjunct2, rule_format, of k] that loaded_row by (auto simp: noted_at_def rows_def)
    moreover have "map_of tab' k \<noteq> None \<longleftrightarrow> map_of (db_usage db) k \<noteq> None \<or> map_of U k \<noteq> None" for k
      using upserted [of k] by (auto split: option.splits)
    ultimately have "scoped_pair db' (usage_server db ids) st en p = scoped_pair db (usage_server db ids) st en p" for p
      unfolding db' by (intro scoped_after_upsert [where U = U])
    then have same: "loadTrafficUsageRows st en ids db' = rows"
      unfolding rows_def by (rule same_source_rows [OF _ _ _ _ refl]) (simp_all add: db')
    have "behind P (loadTrafficUsageProgress st en rows db')"
      unfolding db' using U(2) loaded_servers [OF _ assms(2)] by (intro stored_marks [OF assms(1) _ tab']) (simp_all add: P0_def rows_def)
    with U(3) same have "materializeTrafficMonthUsageRange bad env settings loc st en ids db' = Inr db'"
      using run False by (simp add: materializeTrafficMonthUsageRange_def Let_def)
    with upserted db' show ?thesis by simp
  qed
qed

definition example_server :: traffic_server where
  "example_server = \<lparr>TSrv_ID = 1, TSrv_IsDeleted = False, TSrv_CycleMode = CycleClampMonthEnd, TSrv_BillingStartDay = 31,
     TSrv_BillingAnchorDate = [], TSrv_BillingTimezone = [], TSrv_DirectionMode = ServerDirectionDefault, TSrv_P95Enabled = False,
     TSrv_CreatedAt = 0\<rparr>"

definition example_nic :: "time \<Rightarrow> int \<Rightarrow> trafficNICRow" where
  "example_nic t n = \<lparr>Nic_ServerID = 1, Nic_Iface = ''eth0'', Nic_CollectedAt = t, Nic_BytesRecv = n, Nic_BytesSent = n\<rparr>"

text \<open>A server whose counters were reset between two samples.\<close>

definition example_traffic :: traffic_db where
  "example_traffic = \<lparr>db_setting = Some \<lparr>TS_GuestAccessMode = GuestAccessDisabled, TS_UsageMode = UsageBilling, TS_DirectionMode = DirectionOut\<rparr>,
     db_progress = [(materializationUsage, 0), (materializationFacts, 0)], db_repairs = [], db_usage = [], db_monthly = [], db_facts = [],
     db_servers = [example_server], db_nics = [example_nic 60 1000, example_nic 120 5], db_current_nics = [(1, ''eth0'')]\<rparr>"

lemma example_usage_rows:
  "loadTrafficUsageRows 0 300 [] example_traffic = [example_sample 60 1000, example_sample 120 5]"
  "SettingsWithServerCycle example_zones example_settings (serverCycleSettingsFromRow (example_sample 60 1000)) =
     Inr (example_settings\<lparr>Set_CycleMode := CycleClampMonthEnd, Set_BillingStartDay := 31\<rparr>)"
  by code_simp+

lemma example_rule: "row_rule example_zones example_settings UTC (example_sample 60 1000) = Inr example_clamp"
  unfolding row_rule_def example_usage_rows(2)
  by (simp add: SettingsLocation_def billingLocation_def newCycleRule_def NormalizeCycleMode_def
      example_settings_def settingsFromTrafficSetting_def example_clamp_def trim_space_def trim_left_def trim_right_def cycle_modes Let_def)

theorem usage_range_idempotent_witness:
  "\<exists>db'. materializeTrafficMonthUsageRange (\<lambda>_. False) example_zones example_settings UTC 0 300 [] example_traffic = Inr db' \<and> db_usage db' \<noteq> [] \<and>
     materializeTrafficMonthUsageRange (\<lambda>_. False) example_zones example_settings UTC 0 300 [] db' = Inr db'"
proof -
  have "rule_covers example_clamp 120" by (simp add: rule_covers_def month_rule_ok_def example_clamp_def UTC_bounded)
  then obtain c where c: "rule_at example_clamp 120 = Inr c" using rule_partition by metis
  have p0: "loadTrafficUsageProgress 0 300 rows example_traffic = []" for rows
    by (simp add: loadTrafficUsageProgress_def example_traffic_def)
  have no_usage: "db_usage example_traffic = []" by (simp add: example_traffic_def)
  obtain row where "buildTrafficMonthUsageRows example_zones [example_sample 60 1000, example_sample 120 5] example_settings UTC 0 300 [] = Inr [row]"
    and "usage_in_range row"
    using example_rule
    by (auto simp: buildTrafficMonthUsageRows_def usage_row_def mergeTrafficUsagePair_def mergeTrafficUsageReset_def example_sample_def c wrap64_def
        progress_at_def Let_def usage_in_range_def is_i32_def trafficUsageAccumulatorFor_def cover_from_def wrap32_def)
  then obtain db' where "materializeTrafficMonthUsageRange (\<lambda>_. False) example_zones example_settings UTC 0 300 [] example_traffic = Inr db'" "db_usage db' \<noteq> []"
    by (auto simp: materializeTrafficMonthUsageRange_def example_usage_rows p0 upsertTrafficMonthUsage_def upsert_usage_row_def Let_def no_usage)
  moreover have "usage_table_ok (db_usage example_traffic)" "list_all (\<lambda>s. 0 < TSrv_ID s) (db_servers example_traffic)"
    by (simp_all add: example_traffic_def usage_table_ok_def example_server_def)
  ultimately show ?thesis using usage_range_idempotent by blast
qed

subsection \<open>Catching up\<close>

text \<open>The cursor of a materialiser: what it has scanned, or the oldest data there is.\<close>

definition cursor_at :: "string \<Rightarrow> time \<Rightarrow> traffic_db \<Rightarrow> time option" where
  "cursor_at kind sourceFloor db = map_option (\<lambda>t. max (trafficBucketStart t) (trafficBucketStart sourceFloor)) (map_of (db_progress db) kind)"

text \<open>
  The contract of the two materialisers, whichever statements of their steps fail: a step that succeeds moves the cursor by at most one
  chunk towards the target, and reports that there is more work exactly when it has not arrived.
\<close>

locale materializer =
  fixes kind :: string and target sourceFloor :: time and step :: "(statement \<Rightarrow> bool) \<Rightarrow> traffic_db \<Rightarrow> store_failure + bool \<times> traffic_db"
    and ready :: "traffic_db \<Rightarrow> bool"
  assumes step_moves: "ready db \<Longrightarrow> cursor_at kind sourceFloor db = Some c \<Longrightarrow> step bad db = Inr (hasMore, db') \<Longrightarrow>
      ready db' \<and> cursor_at kind sourceFloor db' = Some (max c (min (trafficBucketStart target) (c + trafficMaterializationChunk))) \<and>
      (hasMore \<longleftrightarrow> c + trafficMaterializationChunk < trafficBucketStart target)"
begin

lemma chunk_pos: "0 < trafficMaterializationChunk"
  by (simp add: trafficMaterializationChunk_def hour_ns_def minute_ns_def second_ns_def)

lemma reached_split:
  "max c (min (trafficBucketStart target) (c + int (Suc n) * trafficMaterializationChunk)) =
     (if c + trafficMaterializationChunk < trafficBucketStart target
      then max (c + trafficMaterializationChunk) (min (trafficBucketStart target) (c + trafficMaterializationChunk + int n * trafficMaterializationChunk))
      else max c (min (trafficBucketStart target) (c + trafficMaterializationChunk)))"
proof -
  define m where "m = int n * trafficMaterializationChunk"
  have "int (Suc n) * trafficMaterializationChunk = trafficMaterializationChunk + m" by (simp add: m_def distrib_right)
  moreover have "0 \<le> m" using chunk_pos by (simp add: m_def)
  ultimately show ?thesis using chunk_pos unfolding m_def [symmetric] by (auto simp: min_def max_def)
qed

lemma run_step_moves:
  assumes "ready db" "cursor_at kind sourceFloor db = Some c" "run_step outcome step db = (r, db1)"
  shows "ready db1 \<and> (\<exists>c1. cursor_at kind sourceFloor db1 = Some c1 \<and>
     (c1 = c \<and> (\<exists>e. r = Inl e) \<or> c1 = max c (min (trafficBucketStart target) (c + trafficMaterializationChunk)) \<and>
        (r = Inl CommitFailed \<or> r = Inr (c + trafficMaterializationChunk < trafficBucketStart target))))"
proof -
  have "(\<exists>e. r = Inl e) \<and> db1 = db \<or> (\<exists>bad hasMore. step bad db = Inr (hasMore, db1) \<and> (r = Inl CommitFailed \<or> r = Inr hasMore))"
    using assms(3) by (auto simp: run_step_def split: step_outcome.splits sum.splits if_splits)
  then show ?thesis using assms(1,2) step_moves [OF assms(1,2)] by blast
qed

text \<open>A round that reports no error has done all it may; one that is cut short keeps the steps it has completed.\<close>

lemma run_moves:
  assumes "ready db" "cursor_at kind sourceFloor db = Some c" "run_steps n outcomes step db = (res, db')"
  shows "ready db' \<and> (\<exists>c'. cursor_at kind sourceFloor db' = Some c' \<and> c \<le> c' \<and>
     c' \<le> max c (min (trafficBucketStart target) (c + int n * trafficMaterializationChunk)) \<and>
     (res = None \<longrightarrow> c' = max c (min (trafficBucketStart target) (c + int n * trafficMaterializationChunk))))"
  using assms
proof (induction n arbitrary: outcomes db c)
  case (Suc n)
  let ?far = "c + trafficMaterializationChunk < trafficBucketStart target"
  let ?next = "max c (min (trafficBucketStart target) (c + trafficMaterializationChunk))"
  obtain r db1 where step: "run_step (outcomes 0) step db = (r, db1)" by fastforce
  obtain c1 where c1: "ready db1" "cursor_at kind sourceFloor db1 = Some c1"
    "c1 = c \<and> (\<exists>e. r = Inl e) \<or> c1 = ?next \<and> (r = Inl CommitFailed \<or> r = Inr ?far)"
    using run_step_moves [OF Suc.prems(1,2) step] by blast
  have grows: "?next \<le> max c (min (trafficBucketStart target) (c + int (Suc n) * trafficMaterializationChunk))"
    unfolding reached_split using chunk_pos by (auto simp: min_def max_def)
  show ?case
  proof (cases "r = Inr True")
    case True
    then have far: ?far "c1 = ?next" using c1(3) by auto
    then have "c1 = c + trafficMaterializationChunk" using chunk_pos by simp
    moreover have "run_steps n (\<lambda>k. outcomes (Suc k)) step db1 = (res, db')" using Suc.prems(3) step True by simp
    note Suc.IH [OF c1(1,2) this]
    ultimately show ?thesis using far(1) chunk_pos unfolding reached_split by (auto simp: add.assoc)
  next
    case False
    then have "db' = db1" "res = None \<longleftrightarrow> r = Inr False" using Suc.prems(3) step by (auto split: sum.splits if_splits)
    moreover have "r = Inr False \<Longrightarrow> \<not> ?far \<and> c1 = ?next" using c1(3) by auto
    moreover have "c \<le> c1" "c1 \<le> max c (min (trafficBucketStart target) (c + int (Suc n) * trafficMaterializationChunk))"
      using c1(3) grows by auto
    ultimately show ?thesis using c1(1,2) unfolding reached_split by auto
  qed
qed (auto simp: max_def min_def)

end

text \<open>A materialiser whose steps succeed when none of their statements fails.\<close>

definition clean :: "step_outcome \<Rightarrow> bool" where
  "clean outcome \<longleftrightarrow> (case outcome of Runs bad \<Rightarrow> \<forall>what. \<not> bad what | _ \<Rightarrow> False)"

locale sure_materializer = materializer +
  assumes step_succeeds: "ready db \<Longrightarrow> cursor_at kind sourceFloor db = Some c \<Longrightarrow> (\<And>what. \<not> bad what) \<Longrightarrow> \<exists>r. step bad db = Inr r"
begin

lemma run_succeeds:
  assumes "ready db" "cursor_at kind sourceFloor db = Some c" "\<And>k. k < n \<Longrightarrow> clean (outcomes k)"
  shows "\<exists>db'. run_steps n outcomes step db = (None, db')"
  using assms
proof (induction n arbitrary: outcomes db c)
  case (Suc n)
  obtain bad where bad: "outcomes 0 = Runs bad" "\<And>what. \<not> bad what"
    using Suc.prems(3) [of 0] by (auto simp: clean_def split: step_outcome.splits)
  obtain hasMore db1 where step: "step bad db = Inr (hasMore, db1)" using step_succeeds [OF Suc.prems(1,2) bad(2)] by fastforce
  from Suc.IH [of db1 _ "\<lambda>k. outcomes (Suc k)"] step_moves [OF Suc.prems(1,2) step] Suc.prems(3)
  show ?case by (auto simp: run_step_def bad(1) step)
qed simp

end

lemma hour_aligned [simp]: "trafficBucketStart (trafficBucketStart t + trafficMaterializationChunk) = trafficBucketStart t + trafficMaterializationChunk"
proof -
  have chunk: "trafficMaterializationChunk = 12 * trafficBucketSize"
    by (simp add: trafficMaterializationChunk_def trafficBucketSize_def hour_ns_def minute_ns_def second_ns_def)
  show ?thesis unfolding bucket_div chunk by (simp add: distrib_right)
qed

lemma next_range:
  assumes "cursor_at kind sourceFloor db = Some c" "lockMaterializationProgress kind db = Inr scannedUntil"
    "nextMaterializationRange scannedUntil target sourceFloor overlap = (st, en, advanced)"
  shows "en = max c (min (trafficBucketStart target) (c + trafficMaterializationChunk))" 
    "advanced \<longleftrightarrow> c < trafficBucketStart target" "trafficBucketStart en = en" "0 \<le> overlap \<Longrightarrow> st \<le> c"
    "advanced \<and> en < trafficBucketStart target \<longleftrightarrow> c + trafficMaterializationChunk < trafficBucketStart target"
    "trafficBucketStart sourceFloor \<le> st" "c = max scannedUntil (trafficBucketStart sourceFloor)"
proof -
  have pos: "0 < trafficMaterializationChunk" by (simp add: trafficMaterializationChunk_def hour_ns_def minute_ns_def second_ns_def)
  show c: "c = max scannedUntil (trafficBucketStart sourceFloor)"
    using assms(1,2) by (auto simp: cursor_at_def lockMaterializationProgress_def split: option.splits)
  have scanned: "trafficBucketStart scannedUntil = scannedUntil"
    using assms(2) by (auto simp: lockMaterializationProgress_def bucket_start_aligned split: option.splits)
  then have aligned: "trafficBucketStart c = c" by (simp add: c max_def bucket_start_aligned)
  have cursor: "(if scannedUntil < trafficBucketStart sourceFloor then trafficBucketStart sourceFloor else scannedUntil) = c"
    by (simp add: c max_def)
  note range = assms(3) [unfolded nextMaterializationRange_def Let_def scanned cursor, symmetric]
  show en: "en = max c (min (trafficBucketStart target) (c + trafficMaterializationChunk))" and
    adv: "advanced \<longleftrightarrow> c < trafficBucketStart target"
    using range pos by (auto simp: max_def min_def split: if_splits)
  show "trafficBucketStart en = en"
    using hour_aligned [of c] aligned unfolding en by (auto simp: max_def min_def bucket_start_aligned)
  show "advanced \<and> en < trafficBucketStart target \<longleftrightarrow> c + trafficMaterializationChunk < trafficBucketStart target"
    using pos unfolding en adv by (auto simp: max_def min_def)
  show "trafficBucketStart sourceFloor \<le> st" using range by (auto simp: c split: if_splits)
  show "st \<le> c" if "0 \<le> overlap" using range that by (auto simp: c split: if_splits)
qed

lemma cursor_lock: "cursor_at kind sourceFloor db = Some c \<Longrightarrow> \<exists>t. lockMaterializationProgress kind db = Inr t"
  by (auto simp: cursor_at_def lockMaterializationProgress_def)

text \<open>Facts mode is on.\<close>

definition billing_on :: "traffic_db \<Rightarrow> bool" where
  "billing_on db \<longleftrightarrow> (case db_setting db of None \<Rightarrow> False | Some item \<Rightarrow> TS_UsageMode item = UsageBilling)"

text \<open>What a fact step and a usage step may touch.\<close>

definition facts_only :: "traffic_db \<Rightarrow> traffic_db \<Rightarrow> bool" where
  "facts_only db db' \<longleftrightarrow> db' = db\<lparr>db_progress := db_progress db', db_facts := db_facts db'\<rparr>"

definition usage_only :: "traffic_db \<Rightarrow> traffic_db \<Rightarrow> bool" where
  "usage_only db db' \<longleftrightarrow> db' = db\<lparr>db_progress := db_progress db', db_usage := db_usage db'\<rparr>"

lemma facts_only_step: "facts_only db db1 \<Longrightarrow> facts_only db (db1\<lparr>db_progress := progress, db_facts := facts\<rparr>)"
  by (cases db; cases db1) (simp add: facts_only_def)

lemma usage_only_step: "usage_only db db1 \<Longrightarrow> usage_only db (db1\<lparr>db_progress := progress, db_usage := tab\<rparr>)"
  by (cases db; cases db1) (simp add: usage_only_def)

lemma only_refl [simp]: "facts_only db db" "usage_only db db"
  by (simp_all add: facts_only_def usage_only_def)

lemma facts_range_frame:
  assumes "materializeTraffic5mRange bad st en db = Inr db'"
  shows "\<exists>facts. db' = db\<lparr>db_facts := facts\<rparr>"
proof -
  have "db' = db \<or> (\<exists>items. db' = put_facts items db)"
    using assms by (auto simp: materializeTraffic5mRange_def upsertTraffic5mRows_def Let_def split: sum.splits if_splits)
  moreover have "db = db\<lparr>db_facts := db_facts db\<rparr>" by simp
  ultimately show ?thesis unfolding put_facts_def by metis
qed

lemma facts_step:
  assumes "billing_on db" "cursor_at materializationFacts sourceFloor db = Some c"
    and "MaterializeTraffic5m target sourceFloor bad db = Inr (hasMore, db')"
  shows "(\<exists>progress facts. db' = db\<lparr>db_progress := progress, db_facts := facts\<rparr>) \<and>
     cursor_at materializationFacts sourceFloor db' = Some (max c (min (trafficBucketStart target) (c + trafficMaterializationChunk))) \<and>
     (hasMore \<longleftrightarrow> c + trafficMaterializationChunk < trafficBucketStart target)"
proof -
  obtain scanned where scanned: "lockMaterializationProgress materializationFacts db = Inr scanned" using cursor_lock [OF assms(2)] by blast
  obtain st en advanced where range: "nextMaterializationRange scanned target sourceFloor trafficMaterializationOverlap = (st, en, advanced)"
    by (metis prod_cases3)
  note R = next_range [OF assms(2) scanned range]
  have on: "lockFactsEnabled db = Inr True" using assms(1) by (auto simp: billing_on_def lockFactsEnabled_def split: option.splits)
  have present: "map_of (db_progress db) materializationFacts \<noteq> None" using assms(2) by (auto simp: cursor_at_def)
  have floor: "trafficBucketStart sourceFloor \<le> en" "scanned \<le> en" using R(1,7) by auto
  define progress where "progress = (if advanced \<or> scanned < en then AList.update materializationFacts en (db_progress db) else db_progress db)"
  obtain facts where db': "hasMore = (c + trafficMaterializationChunk < trafficBucketStart target)" "db' = db\<lparr>db_progress := progress, db_facts := facts\<rparr>"
  proof (cases advanced)
    case True
    then obtain db1 where db1: "materializeTraffic5mRange bad st en db = Inr db1"
      and save: "(hasMore, db') = (c + trafficMaterializationChunk < trafficBucketStart target, db1\<lparr>db_progress := AList.update materializationFacts en (db_progress db1)\<rparr>)"
      using assms(3) R(5) facts_range_frame [of bad st en db] present
      by (auto simp: MaterializeTraffic5m_def on scanned range Let_def setMaterializationProgress_def checked_def split: sum.splits if_splits)
    obtain facts where "db1 = db\<lparr>db_facts := facts\<rparr>" using facts_range_frame [OF db1] by blast
    with that [of facts] save True show thesis by (simp add: progress_def)
  next
    case False
    with that [of "db_facts db"] assms(3) R(5) present show thesis
      by (auto simp: MaterializeTraffic5m_def on scanned range Let_def setMaterializationProgress_def progress_def checked_def split: if_splits)
  qed
  moreover have "cursor_at materializationFacts sourceFloor (db\<lparr>db_progress := progress, db_facts := facts\<rparr>) = Some en"
  proof (cases "advanced \<or> scanned < en")
    case False
    then have "c = en" using R(2) unfolding R(1) by (simp add: min_def max_def)
    with False assms(2) show ?thesis by (simp add: cursor_at_def progress_def)
  qed (use R(3) floor in \<open>simp add: cursor_at_def progress_def\<close>)
  ultimately show ?thesis unfolding R(1) by blast
qed

lemma facts_step_succeeds:
  assumes "billing_on db" "cursor_at materializationFacts sourceFloor db = Some c" "\<And>what. \<not> bad what"
  shows "\<exists>r. MaterializeTraffic5m target sourceFloor bad db = Inr r"
proof -
  obtain scanned where scanned: "lockMaterializationProgress materializationFacts db = Inr scanned" using cursor_lock [OF assms(2)] by blast
  obtain st en advanced where range: "nextMaterializationRange scanned target sourceFloor trafficMaterializationOverlap = (st, en, advanced)"
    by (metis prod_cases3)
  have on: "lockFactsEnabled db = Inr True" using assms(1) by (auto simp: billing_on_def lockFactsEnabled_def split: option.splits)
  have present: "map_of (db_progress db) materializationFacts \<noteq> None" using assms(2) by (auto simp: cursor_at_def)
  obtain db1 where db1: "materializeTraffic5mRange bad st en db = Inr db1"
    using assms(3)
    by (cases "buildTraffic5mRows (loadTrafficSampleRows st en db) st en = []")
      (auto simp: materializeTraffic5mRange_def upsertTraffic5mRows_def checked_def Let_def)
  obtain facts where "db1 = db\<lparr>db_facts := facts\<rparr>" using facts_range_frame [OF db1] by blast
  with db1 assms(3) present show ?thesis
    by (auto simp: MaterializeTraffic5m_def on scanned range Let_def setMaterializationProgress_def checked_def)
qed

interpretation facts: sure_materializer materializationFacts target sourceFloor "MaterializeTraffic5m target sourceFloor"
    "\<lambda>db. billing_on db \<and> facts_only db0 db"
  for target sourceFloor db0
proof
  fix db c bad hasMore db'
  assume ready: "billing_on db \<and> facts_only db0 db" "cursor_at materializationFacts sourceFloor db = Some c"
    and step: "MaterializeTraffic5m target sourceFloor bad db = Inr (hasMore, db')"
  from ready facts_step [OF _ ready(2) step] facts_only_step [of db0 db]
  show "(billing_on db' \<and> facts_only db0 db') \<and>
      cursor_at materializationFacts sourceFloor db' = Some (max c (min (trafficBucketStart target) (c + trafficMaterializationChunk))) \<and>
      (hasMore \<longleftrightarrow> c + trafficMaterializationChunk < trafficBucketStart target)"
    by (auto simp: billing_on_def)
next
  fix db c and bad :: "statement \<Rightarrow> bool"
  assume "billing_on db \<and> facts_only db0 db" "cursor_at materializationFacts sourceFloor db = Some c" "\<And>what. \<not> bad what"
  then show "\<exists>r. MaterializeTraffic5m target sourceFloor bad db = Inr r" using facts_step_succeeds by blast
qed

lemma usage_range_frame:
  assumes "materializeTrafficMonthUsageRange bad env settings loc st en ids db = Inr db'"
  shows "\<exists>tab. db' = db\<lparr>db_usage := tab\<rparr>"
proof -
  have "db' = db \<or> (\<exists>tab. db' = db\<lparr>db_usage := tab\<rparr>)"
    using assms by (auto simp: materializeTrafficMonthUsageRange_def upsertTrafficMonthUsage_def Let_def split: if_splits sum.splits)
  moreover have "db = db\<lparr>db_usage := db_usage db\<rparr>" by simp
  ultimately show ?thesis by metis
qed

lemma usage_step:
  assumes "cursor_at materializationUsage sourceFloor db = Some c"
    and "MaterializeTrafficMonthUsage env loc target sourceFloor bad db = Inr (hasMore, db')"
  shows "(\<exists>progress tab. db' = db\<lparr>db_progress := progress, db_usage := tab\<rparr>) \<and>
     cursor_at materializationUsage sourceFloor db' = Some (max c (min (trafficBucketStart target) (c + trafficMaterializationChunk))) \<and>
     (hasMore \<longleftrightarrow> c + trafficMaterializationChunk < trafficBucketStart target)"
proof -
  obtain settings where settings: "GetSettings env db = Inr settings"
    using assms(2) by (auto simp: MaterializeTrafficMonthUsage_def checked_def split: sum.splits if_splits)
  obtain scanned where scanned: "lockMaterializationProgress materializationUsage db = Inr scanned" using cursor_lock [OF assms(1)] by blast
  obtain st en advanced where range: "nextMaterializationRange scanned target sourceFloor trafficMaterializationOverlap = (st, en, advanced)"
    by (metis prod_cases3)
  note R = next_range [OF assms(1) scanned range]
  have present: "map_of (db_progress db) materializationUsage \<noteq> None" using assms(1) by (auto simp: cursor_at_def)
  have floor: "trafficBucketStart sourceFloor \<le> en" "scanned \<le> en" using R(1,7) by auto
  have "\<not> bad ReadSettings" "\<not> bad LockProgress" using assms(2) by (auto simp: MaterializeTrafficMonthUsage_def checked_def settings split: if_splits sum.splits)
  note run = assms(2) [unfolded MaterializeTrafficMonthUsage_def checked_def settings scanned if_not_P [OF this(1)] if_not_P [OF this(2)] sum.case range prod.case Let_def R(5)]
  show ?thesis
  proof (cases advanced)
    case True
    then obtain db1 where db1: "(if st < en then materializeTrafficMonthUsageRange bad env settings loc st en [] db else Inr db) = Inr db1"
      using run by (auto split: sum.splits)
    obtain tab where tab: "db1 = db\<lparr>db_usage := tab\<rparr>"
      using db1 usage_range_frame [of bad env settings loc st en "[]" db db1] by (cases "st < en") (auto intro: that [of "db_usage db"])
    have "hasMore = (c + trafficMaterializationChunk < trafficBucketStart target)"
      "db' = db\<lparr>db_progress := AList.update materializationUsage en (db_progress db), db_usage := tab\<rparr>"
      using run True R(5) present by (auto simp: db1 tab setMaterializationProgress_def split: if_splits)
    then show ?thesis using R(1,3) floor by (auto simp: cursor_at_def)
  next
    case False
    then have "c = en" using R(2) unfolding R(1) by (simp add: min_def max_def)
    define progress where "progress = (if scanned < en then AList.update materializationUsage en (db_progress db) else db_progress db)"
    have "hasMore = (c + trafficMaterializationChunk < trafficBucketStart target)" "db' = db\<lparr>db_progress := progress, db_usage := db_usage db\<rparr>"
      using run False R(5) present by (auto simp: setMaterializationProgress_def progress_def split: if_splits)
    moreover have "cursor_at materializationUsage sourceFloor (db\<lparr>db_progress := progress, db_usage := db_usage db\<rparr>) = Some en"
      using R(3) floor \<open>c = en\<close> assms(1) by (simp add: cursor_at_def progress_def)
    ultimately show ?thesis using R(1) by blast
  qed
qed

interpretation usage: materializer materializationUsage target sourceFloor "MaterializeTrafficMonthUsage env loc target sourceFloor" "usage_only db0"
  for target sourceFloor env loc db0
proof
  fix db c bad hasMore db'
  assume ready: "usage_only db0 db" "cursor_at materializationUsage sourceFloor db = Some c"
    and step: "MaterializeTrafficMonthUsage env loc target sourceFloor bad db = Inr (hasMore, db')"
  from usage_step [OF ready(2) step] usage_only_step [OF ready(1)]
  show "usage_only db0 db' \<and>
      cursor_at materializationUsage sourceFloor db' = Some (max c (min (trafficBucketStart target) (c + trafficMaterializationChunk))) \<and>
      (hasMore \<longleftrightarrow> c + trafficMaterializationChunk < trafficBucketStart target)" by blast
qed

text \<open>How far a round gets from a cursor.\<close>

definition round_end :: "time \<Rightarrow> time \<Rightarrow> time" where
  "round_end target c = max c (min (trafficBucketStart target) (c + 12 * hour_ns))"

text \<open>
  C28. The service catches up, and failures only delay it. With both progress rows in place, whatever fails in a round of fact materialisation in billing mode -- a
  statement, the gate, the timeout of a step, a commit whose outcome stays unknown -- the round touches only the facts and the progress, and its
  cursor, the later of the stored progress and the oldest data kept, moves neither back nor past the target or twelve hours ahead. It gets
  to the target, or by twelve hours when the target is further away, whenever the round reports no error, and a round in which
  nothing fails reports none. The same holds of a round of usage materialisation and its own cursor, except that it may also fail on its
  own, when a sample or a setting cannot be charged.
\<close>

theorem materialization_catches_up:
  assumes "billing_on db" and "cursor_at materializationFacts sourceFloor db = Some c" and "cursor_at materializationUsage sourceFloor db = Some d"
  shows "(\<exists>res db' c'. materializeFacts outcomes target sourceFloor db = (res, db') \<and> facts_only db db' \<and>
      cursor_at materializationFacts sourceFloor db' = Some c' \<and> c \<le> c' \<and> c' \<le> round_end target c \<and>
      (res = None \<longrightarrow> c' = round_end target c) \<and> ((\<forall>k < materializeMaxSteps. clean (outcomes k)) \<longrightarrow> res = None)) \<and>
    (\<exists>res db' d'. materializeUsage outcomes env loc target sourceFloor db = (res, db') \<and> usage_only db db' \<and>
      cursor_at materializationUsage sourceFloor db' = Some d' \<and> d \<le> d' \<and> d' \<le> round_end target d \<and> (res = None \<longrightarrow> d' = round_end target d))"
proof
  have chunks: "int materializeMaxSteps * trafficMaterializationChunk = 12 * hour_ns"
    by (simp add: materializeMaxSteps_def trafficMaterializationChunk_def)
  have ready: "billing_on db \<and> facts_only db db" using assms(1) by simp
  obtain res db' where run: "materializeFacts outcomes target sourceFloor db = (res, db')" by fastforce
  have "(\<forall>k < materializeMaxSteps. clean (outcomes k)) \<longrightarrow> res = None"
    using facts.run_succeeds [OF ready assms(2), of materializeMaxSteps outcomes target] run by (auto simp: materializeFacts_def)
  with facts.run_moves [OF ready assms(2) run [unfolded materializeFacts_def]] run
  show "\<exists>res db' c'. materializeFacts outcomes target sourceFloor db = (res, db') \<and> facts_only db db' \<and>
      cursor_at materializationFacts sourceFloor db' = Some c' \<and> c \<le> c' \<and> c' \<le> round_end target c \<and>
      (res = None \<longrightarrow> c' = round_end target c) \<and> ((\<forall>k < materializeMaxSteps. clean (outcomes k)) \<longrightarrow> res = None)"
    unfolding chunks round_end_def by blast
  obtain res db' where run: "materializeUsage outcomes env loc target sourceFloor db = (res, db')" by fastforce
  with usage.run_moves [OF only_refl(2) assms(3) run [unfolded materializeUsage_def]]
  show "\<exists>res db' d'. materializeUsage outcomes env loc target sourceFloor db = (res, db') \<and> usage_only db db' \<and>
      cursor_at materializationUsage sourceFloor db' = Some d' \<and> d \<le> d' \<and> d' \<le> round_end target d \<and> (res = None \<longrightarrow> d' = round_end target d)"
    unfolding chunks round_end_def by blast
qed

text \<open>A round without faults.\<close>

definition no_fault :: "nat \<Rightarrow> step_outcome" where
  "no_fault k = Runs (\<lambda>_. False)"

theorem materialization_catches_up_witness:
  "\<exists>db'. materializeFacts no_fault (20 * hour_ns) 0 example_traffic = (None, db') \<and> cursor_at materializationFacts 0 db' = Some (12 * hour_ns)"
proof -
  have ok: "billing_on example_traffic" "cursor_at materializationFacts 0 example_traffic = Some 0" "cursor_at materializationUsage 0 example_traffic = Some 0"
    by (simp_all add: billing_on_def example_traffic_def cursor_at_def materializationFacts_def materializationUsage_def bucket_div)
  have "trafficBucketStart (20 * hour_ns) = 20 * hour_ns"
    by (simp add: bucket_div trafficBucketSize_def hour_ns_def minute_ns_def second_ns_def)
  then have r: "round_end (20 * hour_ns) 0 = 12 * hour_ns"
    by (simp add: round_end_def hour_ns_def minute_ns_def second_ns_def)
  have "\<forall>k < materializeMaxSteps. clean (no_fault k)" by (simp add: clean_def no_fault_def)
  then show ?thesis using materialization_catches_up [OF ok, of no_fault "20 * hour_ns", THEN conjunct1] unfolding r by auto
qed

subsection \<open>Changing the cycle of a server\<close>

text \<open>No live scan loads a row of a server whose usage waits for repair.\<close>

lemma repair_excludes_live:
  assumes "map_of (db_repairs db) i \<noteq> None" "row \<in> set (loadTrafficUsageRows st en [] db)"
  shows "UN_ServerID row \<noteq> i"
  using loaded_row [OF assms(2)] assms(1) by (auto simp: scoped_pair_def usage_server_def)

lemma map_of_filter_none:
  "(\<And>v. P (k, v)) \<Longrightarrow> map_of (filter P tab) k = map_of tab k"
  "(\<And>v. \<not> P (k, v)) \<Longrightarrow> map_of (filter P tab) k = None"
  by (induction tab) auto

text \<open>
  C29. Changing the billing cycle of a server keeps everything that stays valid and nothing else. When the
  stored and the new cycle agree after normalisation the tables are untouched. Otherwise, with \<open>start\<close> the
  earlier start of the cycles of the old and the new rule that contain the reference time, the accumulators and the monthly
  snapshots of the server whose cycle ends after \<open>start\<close> are gone and every other one is unchanged, a repair of the
  server from \<open>start\<close> or earlier is queued and no other repair changes, and until the repair is finished no live scan charges a
  sample of the server.
\<close>

theorem cycle_change_contract:
  assumes "PrepareServerCycleChange env now i next (Some loc) ref db = Inr db'"
  shows "\<exists>s current next'. find_server db i = Some s \<and> \<not> TSrv_IsDeleted s \<and> NormalizeServerCycleSettings env next = Inr next' \<and>
     NormalizeServerCycleSettings env (server_cycle s) = Inr current \<and>
     (if sameServerCycle current next' then db' = db
      else \<exists>start mark. cycleRebuildStart env current next' (Some loc) (if ref = zero_time then now else ref) = Inr start \<and>
        (\<forall>k. map_of (db_usage db') k = (if key_serverID k = i \<and> start < key_cycleEnd k then None else map_of (db_usage db) k)) \<and>
        (\<forall>k. map_of (db_monthly db') k = (if key_serverID k = i \<and> start < key_cycleEnd k then None else map_of (db_monthly db) k)) \<and>
        mark \<le> start \<and> map_of (db_repairs db') = (map_of (db_repairs db))(i \<mapsto> mark) \<and>
        db' = db\<lparr>db_usage := db_usage db', db_monthly := db_monthly db', db_repairs := db_repairs db'\<rparr> \<and>
        (\<forall>st en. i \<notin> set (map UN_ServerID (loadTrafficUsageRows st en [] db'))))"
proof -
  note run = assms [unfolded PrepareServerCycleChange_def Let_def]
  obtain next' where next': "NormalizeServerCycleSettings env next = Inr next'" using run by (auto split: sum.splits if_splits)
  obtain s where s: "find_server db i = Some s" "\<not> TSrv_IsDeleted s" using run next' by (auto split: option.splits if_splits)
  obtain current where current: "NormalizeServerCycleSettings env (server_cycle s) = Inr current"
    using run next' s by (auto split: sum.splits if_splits)
  show ?thesis
  proof (cases "sameServerCycle current next'")
    case True
    then have "db' = db" using run next' s current by (auto split: if_splits)
    with True s next' current show ?thesis by auto
  next
    case False
    obtain start where start: "cycleRebuildStart env current next' (Some loc) (if ref = zero_time then now else ref) = Inr start"
      and reset: "resetCycleDerived i start db = Inr db'"
      using run next' s current False by (auto split: sum.splits if_splits)
    define mark where "mark = (case map_of (db_repairs db) i of None \<Rightarrow> start | Some t \<Rightarrow> min t start)"
    let ?keep = "\<lambda>(k, row). \<not> (key_serverID k = i \<and> start < key_cycleEnd k)"
    have db': "db' = db\<lparr>db_usage := filter ?keep (db_usage db), db_monthly := filter ?keep (db_monthly db),
        db_repairs := AList.update i mark (db_repairs db)\<rparr>"
      using reset by (auto simp: resetCycleDerived_def enqueueTrafficUsageRepair_def mark_def split: sum.splits)
    have tables: "map_of (filter ?keep tab) k = (if key_serverID k = i \<and> start < key_cycleEnd k then None else map_of tab k)"
      for tab :: "(trafficUsageKey, 'a) gomap" and k by (simp add: map_of_filter_none)
    have kept: "db_usage db' = filter ?keep (db_usage db)" "db_monthly db' = filter ?keep (db_monthly db)" by (simp_all add: db')
    have queued: "map_of (db_repairs db') i \<noteq> None" by (simp add: db')
    have live: "i \<notin> set (map UN_ServerID (loadTrafficUsageRows st en [] db'))" for st en
      using repair_excludes_live [OF queued, of _ st en] by (metis (no_types, lifting) imageE set_map)
    have mark: "mark \<le> start" "map_of (db_repairs db') = (map_of (db_repairs db))(i \<mapsto> mark)"
      by (simp_all add: mark_def db' update_conv' split: option.split)
    have frame: "db' = db\<lparr>db_usage := db_usage db', db_monthly := db_monthly db', db_repairs := db_repairs db'\<rparr>" by (simp add: db')
    have usage: "\<forall>k. map_of (db_usage db') k = (if key_serverID k = i \<and> start < key_cycleEnd k then None else map_of (db_usage db) k)"
      and monthly: "\<forall>k. map_of (db_monthly db') k = (if key_serverID k = i \<and> start < key_cycleEnd k then None else map_of (db_monthly db) k)"
      unfolding kept by (simp_all only: tables simp_thms)
    have "cycleRebuildStart env current next' (Some loc) (if ref = zero_time then now else ref) = Inr start \<and>
        (\<forall>k. map_of (db_usage db') k = (if key_serverID k = i \<and> start < key_cycleEnd k then None else map_of (db_usage db) k)) \<and>
        (\<forall>k. map_of (db_monthly db') k = (if key_serverID k = i \<and> start < key_cycleEnd k then None else map_of (db_monthly db) k)) \<and>
        mark \<le> start \<and> map_of (db_repairs db') = (map_of (db_repairs db))(i \<mapsto> mark) \<and>
        db' = db\<lparr>db_usage := db_usage db', db_monthly := db_monthly db', db_repairs := db_repairs db'\<rparr> \<and>
        (\<forall>st en. i \<notin> set (map UN_ServerID (loadTrafficUsageRows st en [] db')))"
      by (intro conjI allI start usage monthly mark live) (rule frame)
    then show ?thesis
      by (intro exI [of _ s] exI [of _ current] exI [of _ next']) (use s next' current False in \<open>auto simp only: if_False simp_thms\<close>)
  qed
qed

definition example_next :: ServerCycleSettings where
  "example_next = \<lparr>Srv_Mode = CycleCalendarMonth, Srv_BillingStartDay = 1, Srv_BillingAnchorDate = [], Srv_BillingTimezone = []\<rparr>"

lemma example_cycles:
  "NormalizeServerCycleSettings example_zones example_next = Inr example_next"
  "NormalizeServerCycleSettings example_zones (server_cycle example_server) = Inr (server_cycle example_server)"
  "find_server example_traffic 1 = Some example_server" "lockMaterializationProgress materializationUsage example_traffic = Inr 0"
  "sameServerCycle (server_cycle example_server) example_next = False" "TSrv_IsDeleted example_server = False"
  by code_simp+

theorem cycle_change_contract_witness:
  "\<exists>db'. PrepareServerCycleChange example_zones 120 1 example_next (Some UTC) 120 example_traffic = Inr db' \<and>
     1 \<notin> set (map UN_ServerID (loadTrafficUsageRows 0 300 [] db'))"
proof -
  have covers: "rule_covers example_clamp 120" "rule_covers \<lparr>rule_mode = CycleCalendarMonth, rule_day = 1, rule_anchor = [], rule_loc = UTC\<rparr> 120"
    by (simp_all add: rule_covers_def month_rule_ok_def example_clamp_def UTC_bounded)
  obtain c where c: "rule_at example_clamp 120 = Inr c" using rule_partition [OF covers(1)] by metis
  obtain d where d: "rule_at \<lparr>rule_mode = CycleCalendarMonth, rule_day = 1, rule_anchor = [], rule_loc = UTC\<rparr> 120 = Inr d"
    using rule_partition [OF covers(2)] by metis
  have "cycleRebuildStart example_zones (server_cycle example_server) example_next (Some UTC) 120 = Inr (min (Cycle_Start c) (Cycle_Start d))"
    using c d by (simp add: cycleRebuildStart_def billingLocation_def newCycleRule_def NormalizeCycleMode_def server_cycle_def example_server_def
        example_next_def example_clamp_def trim_space_def trim_left_def trim_right_def cycle_modes Let_def)
  then have run: "\<exists>db'. PrepareServerCycleChange example_zones 120 1 example_next (Some UTC) 120 example_traffic = Inr db'"
    by (simp add: PrepareServerCycleChange_def example_cycles resetCycleDerived_def)
  then obtain db' where db': "PrepareServerCycleChange example_zones 120 1 example_next (Some UTC) 120 example_traffic = Inr db'" ..
  from cycle_change_contract [OF this] have "1 \<notin> set (map UN_ServerID (loadTrafficUsageRows 0 300 [] db'))"
    by (auto simp: example_cycles simp del: set_map)
  with db' show ?thesis by blast
qed

end
