(* ===== verification/Dash_Version.thy ===== *)
theory Dash_Version
  imports Go_Prelude
begin

text \<open>
  Versions of the dashboard and of its nodes: \<open>internal/version/version.go\<close>.

  The order of semantic versions comes from the module \<open>golang.org/x/mod/semver\<close>, which is not part of the
  repository: its three functions are a parameter of the definitions here, and what the lemmas need of its
  comparison is the hypothesis \<open>semver_order\<close>, its documented behaviour on valid versions.
\<close>

record semver =
  sv_IsValid :: "string \<Rightarrow> bool"
  sv_Compare :: "string \<Rightarrow> string \<Rightarrow> int"
  sv_Prerelease :: "string \<Rightarrow> string"

datatype version_error =
    FormatNote
  | LeftVersion
  | RightVersion
  | InvalidBound string version_error
  | InvalidChannel string

definition nodeMin :: string where "nodeMin = ''0.0.0-0''"
definition nodeMax :: string where "nodeMax = ''''"
definition NodeSelfUpdateMin :: string where "NodeSelfUpdateMin = ''0.2.3''"
definition ChannelRelease :: string where "ChannelRelease = ''release''"
definition ChannelPrerelease :: string where "ChannelPrerelease = ''prerelease''"

lemmas channels = ChannelRelease_def ChannelPrerelease_def

definition contains_any :: "string \<Rightarrow> string \<Rightarrow> bool" where
  "contains_any s chars \<longleftrightarrow> list_ex (\<lambda>c. c \<in> set chars) s"

definition version_core :: "string \<Rightarrow> string" where
  "version_core version = takeWhile (\<lambda>c. c \<noteq> CHR ''-'' \<and> c \<noteq> CHR ''+'') version"

definition normalize :: "semver \<Rightarrow> string \<Rightarrow> version_error + string" where
  "normalize sv raw =
     (let version = trim_space raw
      in if version = [] \<or> has_prefix version ''v'' \<or> contains_any version [CHR '' '', CHR 0x09, CHR 0x0D, CHR 0x0A] then Inl FormatNote
         else if length (filter (\<lambda>c. c = CHR ''.'') (version_core version)) \<noteq> 2 then Inl FormatNote
         else let prefixed = ''v'' @ version in if \<not> sv_IsValid sv prefixed then Inl FormatNote else Inr prefixed)"

definition Validate :: "semver \<Rightarrow> string \<Rightarrow> version_error option" where
  "Validate sv version = (case normalize sv version of Inl e \<Rightarrow> Some e | Inr _ \<Rightarrow> None)"

definition Compare :: "semver \<Rightarrow> string \<Rightarrow> string \<Rightarrow> version_error + int" where
  "Compare sv a b =
     (case normalize sv a of Inl _ \<Rightarrow> Inl LeftVersion | Inr av \<Rightarrow>
      case normalize sv b of Inl _ \<Rightarrow> Inl RightVersion | Inr bv \<Rightarrow> Inr (sv_Compare sv av bv))"

definition compareBound :: "semver \<Rightarrow> string \<Rightarrow> string \<Rightarrow> string \<Rightarrow> version_error + int" where
  "compareBound sv version bound name = (case Compare sv version bound of Inl e \<Rightarrow> Inl (InvalidBound name e) | Inr c \<Rightarrow> Inr c)"

definition ValidateNodeVersion :: "semver \<Rightarrow> string \<Rightarrow> version_error option" where
  "ValidateNodeVersion sv version =
     (if Validate sv version \<noteq> None then Some FormatNote
      else let lower = (if nodeMin \<noteq> [] then (case compareBound sv version nodeMin ''nodeMin'' of Inl e \<Rightarrow> Some e | Inr c \<Rightarrow> if c < 0 then Some FormatNote else None)
                        else None)
           in case lower of Some e \<Rightarrow> Some e | None \<Rightarrow>
                if nodeMax \<noteq> [] then (case compareBound sv version nodeMax ''nodeMax'' of Inl e \<Rightarrow> Some e | Inr c \<Rightarrow> if c \<ge> 0 then Some FormatNote else None)
                else None)"

definition IsNodeOutdated :: "semver \<Rightarrow> string \<Rightarrow> version_error + bool" where
  "IsNodeOutdated sv version =
     (case Validate sv version of Some e \<Rightarrow> Inl e | None \<Rightarrow>
        if nodeMin = [] then Inr False
        else (case compareBound sv version nodeMin ''nodeMin'' of Inl e \<Rightarrow> Inl e | Inr c \<Rightarrow> Inr (c < 0)))"

definition SupportsNodeSelfUpdate :: "semver \<Rightarrow> string \<Rightarrow> version_error + bool" where
  "SupportsNodeSelfUpdate sv version =
     (case ValidateNodeVersion sv version of Some e \<Rightarrow> Inl e | None \<Rightarrow>
      case Compare sv version NodeSelfUpdateMin of Inl e \<Rightarrow> Inl e | Inr c \<Rightarrow> Inr (c \<ge> 0))"

definition IsNodeUpdateTarget :: "semver \<Rightarrow> string \<Rightarrow> string \<Rightarrow> version_error + bool" where
  "IsNodeUpdateTarget sv current target =
     (let current = trim_space current; target = trim_space target
      in case Compare sv current target of Inl e \<Rightarrow> Inl e | Inr c \<Rightarrow> if current = target then Inr False else Inr (c \<le> 0))"

definition ChannelFor :: "semver \<Rightarrow> string \<Rightarrow> version_error + string" where
  "ChannelFor sv version =
     (case normalize sv version of Inl e \<Rightarrow> Inl e
      | Inr v \<Rightarrow> if sv_Prerelease sv v \<noteq> [] then Inr ChannelPrerelease else Inr ChannelRelease)"

text \<open>One turn of the loop of \<open>LatestCompatible\<close>; the empty string stands for no version yet, as in the code.\<close>

definition eligible :: "semver \<Rightarrow> string \<Rightarrow> string \<Rightarrow> bool" where
  "eligible sv channel version \<longleftrightarrow> version \<noteq> [] \<and>
     (case ChannelFor sv version of Inl _ \<Rightarrow> False
      | Inr tagChannel \<Rightarrow> tagChannel = channel \<or> channel = ChannelPrerelease \<and> tagChannel = ChannelRelease)"

definition take_version :: "semver \<Rightarrow> string \<Rightarrow> string \<Rightarrow> string \<Rightarrow> string" where
  "take_version sv channel raw latest =
     (let version = trim_space raw
      in if \<not> eligible sv channel version then latest
         else if latest = [] then version
         else (case Compare sv version latest of Inl _ \<Rightarrow> latest | Inr c \<Rightarrow> if c > 0 then version else latest))"

definition LatestCompatible :: "semver \<Rightarrow> string list \<Rightarrow> string \<Rightarrow> string \<times> bool" where
  "LatestCompatible sv versions channel =
     (let latest = fold (take_version sv channel) versions [] in (latest, latest \<noteq> []))"

definition ParseChannel :: "string \<Rightarrow> version_error + string" where
  "ParseChannel raw =
     (let c = trim_space raw
      in if c = ChannelRelease then Inr ChannelRelease else if c = ChannelPrerelease then Inr ChannelPrerelease else Inl (InvalidChannel raw))"

subsection \<open>The newest version\<close>

text \<open>
  What the documentation of the module says of its comparison: on valid versions it is the precedence order of
  semantic versions, reported as a sign.
\<close>

definition semver_order :: "semver \<Rightarrow> bool" where
  "semver_order sv \<longleftrightarrow>
     (\<forall>a. sv_IsValid sv a \<longrightarrow> sv_Compare sv a a = 0) \<and>
     (\<forall>a b. sv_IsValid sv a \<longrightarrow> sv_IsValid sv b \<longrightarrow> sv_Compare sv b a = - sv_Compare sv a b) \<and>
     (\<forall>a b c. sv_IsValid sv a \<longrightarrow> sv_IsValid sv b \<longrightarrow> sv_IsValid sv c \<longrightarrow> sv_Compare sv a b \<le> 0 \<longrightarrow> sv_Compare sv b c \<le> 0 \<longrightarrow> sv_Compare sv a c \<le> 0)"

definition valid_version :: "semver \<Rightarrow> string \<Rightarrow> bool" where
  "valid_version sv v \<longleftrightarrow> Validate sv v = None"

definition newer_eq :: "semver \<Rightarrow> string \<Rightarrow> string \<Rightarrow> bool" where
  "newer_eq sv a b \<longleftrightarrow> (\<exists>c. Compare sv a b = Inr c \<and> c \<ge> 0)"

lemma normalize_Inr: "normalize sv raw = Inr v \<Longrightarrow> v = ''v'' @ trim_space raw \<and> sv_IsValid sv v"
  by (auto simp: normalize_def Let_def split: if_splits)

lemma normalize_trim [simp]: "normalize sv (trim_space raw) = normalize sv raw"
  by (simp add: normalize_def)

lemma valid_version_iff: "valid_version sv v \<longleftrightarrow> normalize sv v = Inr (''v'' @ trim_space v) \<and> sv_IsValid sv (''v'' @ trim_space v)"
  using normalize_Inr [of sv v] by (auto simp: valid_version_def Validate_def split: sum.splits)

lemma eligible_valid: "eligible sv channel v \<Longrightarrow> valid_version sv v"
  by (auto simp: eligible_def ChannelFor_def valid_version_def Validate_def split: sum.splits)

lemma Compare_valid:
  "valid_version sv a \<Longrightarrow> valid_version sv b \<Longrightarrow> Compare sv a b = Inr (sv_Compare sv (''v'' @ trim_space a) (''v'' @ trim_space b))"
  by (simp add: Compare_def valid_version_iff)

lemma Compare_Inr: "Compare sv a b = Inr c \<Longrightarrow> valid_version sv a \<and> valid_version sv b"
  by (auto simp: Compare_def valid_version_def Validate_def split: sum.splits)

lemma semver_flip:
  assumes "semver_order sv" "valid_version sv a" "valid_version sv b"
  shows "sv_Compare sv (''v'' @ trim_space b) (''v'' @ trim_space a) = - sv_Compare sv (''v'' @ trim_space a) (''v'' @ trim_space b)"
  using assms unfolding semver_order_def valid_version_iff by blast

lemma newer_eq_iff:
  "newer_eq sv a b \<longleftrightarrow> valid_version sv a \<and> valid_version sv b \<and> 0 \<le> sv_Compare sv (''v'' @ trim_space a) (''v'' @ trim_space b)"
proof
  assume "newer_eq sv a b"
  then obtain c where c: "Compare sv a b = Inr c" "0 \<le> c" by (auto simp: newer_eq_def)
  with Compare_Inr [OF c(1)] show "valid_version sv a \<and> valid_version sv b \<and> 0 \<le> sv_Compare sv (''v'' @ trim_space a) (''v'' @ trim_space b)"
    by (simp add: Compare_valid)
qed (simp add: newer_eq_def Compare_valid)

lemma newer_eq_refl: "semver_order sv \<Longrightarrow> valid_version sv a \<Longrightarrow> newer_eq sv a a"
  using semver_flip [of sv a a] by (simp add: newer_eq_iff)

lemma newer_eq_linear: "semver_order sv \<Longrightarrow> valid_version sv a \<Longrightarrow> valid_version sv b \<Longrightarrow> \<not> newer_eq sv a b \<Longrightarrow> newer_eq sv b a"
  using semver_flip [of sv a b] by (simp add: newer_eq_iff)

lemma newer_eq_trans:
  assumes "semver_order sv" "newer_eq sv a b" "newer_eq sv b c"
  shows "newer_eq sv a c"
proof -
  have v: "valid_version sv a" "valid_version sv b" "valid_version sv c" using assms(2,3) by (simp_all add: newer_eq_iff)
  have "sv_Compare sv (''v'' @ trim_space c) (''v'' @ trim_space b) \<le> 0" "sv_Compare sv (''v'' @ trim_space b) (''v'' @ trim_space a) \<le> 0"
    using assms semver_flip [OF assms(1) v(1,2)] semver_flip [OF assms(1) v(2,3)] by (simp_all add: newer_eq_iff)
  then have "sv_Compare sv (''v'' @ trim_space c) (''v'' @ trim_space a) \<le> 0"
    using assms(1) v unfolding semver_order_def valid_version_iff by blast
  then show ?thesis using v semver_flip [OF assms(1) v(1,3)] by (simp add: newer_eq_iff)
qed

definition newest :: "semver \<Rightarrow> string \<Rightarrow> string set \<Rightarrow> string \<Rightarrow> bool" where
  "newest sv channel seen latest \<longleftrightarrow>
     (if latest = [] then \<forall>v \<in> seen. \<not> eligible sv channel v
      else latest \<in> seen \<and> eligible sv channel latest \<and> (\<forall>v \<in> seen. eligible sv channel v \<longrightarrow> newer_eq sv latest v))"

lemma take_version_newest:
  assumes "semver_order sv" "newest sv channel seen latest"
  shows "newest sv channel (insert (trim_space raw) seen) (take_version sv channel raw latest)"
proof (cases "eligible sv channel (trim_space raw)")
  case False
  then show ?thesis using assms(2) by (auto simp: newest_def take_version_def)
next
  case True
  let ?v = "trim_space raw"
  have v: "?v \<noteq> []" "valid_version sv ?v" using True eligible_valid by (auto simp: eligible_def)
  show ?thesis
  proof (cases "latest = []")
    case True
    then show ?thesis using assms \<open>eligible sv channel ?v\<close> v newer_eq_refl [OF assms(1) v(2)]
      by (auto simp: newest_def take_version_def Let_def)
  next
    case False
    then have l: "latest \<in> seen" "eligible sv channel latest" "\<And>u. u \<in> seen \<Longrightarrow> eligible sv channel u \<Longrightarrow> newer_eq sv latest u"
      using assms(2) by (auto simp: newest_def)
    have "valid_version sv latest" using l(2) by (rule eligible_valid)
    then obtain c where c: "Compare sv ?v latest = Inr c" using Compare_valid v(2) by blast
    show ?thesis
    proof (cases "c > 0")
      case True
      then have "newer_eq sv ?v latest" using c by (auto simp: newer_eq_def)
      then have "newer_eq sv ?v u" if "u \<in> seen" "eligible sv channel u" for u using newer_eq_trans [OF assms(1)] l(3) that by blast
      moreover have "take_version sv channel raw latest = ?v" using \<open>eligible sv channel ?v\<close> False c True by (simp add: take_version_def)
      ultimately show ?thesis using v \<open>eligible sv channel ?v\<close> newer_eq_refl [OF assms(1)] by (simp add: newest_def)
    next
      case False
      then have "newer_eq sv latest ?v"
        using newer_eq_linear [OF assms(1) v(2) \<open>valid_version sv latest\<close>] semver_flip [OF assms(1) v(2) \<open>valid_version sv latest\<close>]
          Compare_valid [OF v(2) \<open>valid_version sv latest\<close>] c v(2) \<open>valid_version sv latest\<close> by (simp add: newer_eq_iff)
      moreover have "take_version sv channel raw latest = latest" using \<open>eligible sv channel ?v\<close> \<open>latest \<noteq> []\<close> c False by (simp add: take_version_def)
      ultimately show ?thesis using l \<open>latest \<noteq> []\<close> by (simp add: newest_def)
    qed
  qed
qed

lemma latest_newest:
  assumes "semver_order sv" "newest sv channel seen latest"
  shows "newest sv channel (trim_space ` set versions \<union> seen) (fold (take_version sv channel) versions latest)"
  using assms(2)
proof (induction versions arbitrary: latest seen)
  case (Cons raw versions)
  from Cons.IH [OF take_version_newest [OF assms(1) Cons.prems], of raw] show ?case by simp
qed simp

end
