(* ===== verification/Update_Files.thy ===== *)
theory Update_Files
  imports Dash_Version Go_Time
begin

text \<open>
  The files the updater keeps on disk and the checks on what they hold: the field format of
  \<open>internal/dashupdate/runner.go\<close>, the update plan of \<open>plan.go\<close>, and the job request, job status and update
  transaction of \<open>job.go\<close>. Slash-separated paths follow \<open>path/filepath\<close> on Unix.
\<close>

subsection \<open>Paths\<close>

fun clean_parts :: "bool \<Rightarrow> string list \<Rightarrow> string list \<Rightarrow> string list" where
  "clean_parts rooted [] out = rev out"
| "clean_parts rooted (p # ps) out =
     (if p = [] \<or> p = ''.'' then clean_parts rooted ps out
      else if p = ''..'' then
        (case out of
           [] \<Rightarrow> clean_parts rooted ps (if rooted then [] else [''..''])
         | o1 # os \<Rightarrow> if o1 = ''..'' then clean_parts rooted ps (''..'' # out) else clean_parts rooted ps os)
      else clean_parts rooted ps (p # out))"

definition path_is_abs :: "string \<Rightarrow> bool" where
  "path_is_abs p = has_prefix p ''/''"

definition path_parts :: "string \<Rightarrow> string list" where
  "path_parts p = clean_parts (path_is_abs p) (split_on (CHR ''/'') p) []"

definition path_clean :: "string \<Rightarrow> string" where
  "path_clean p =
     (let parts = path_parts p
      in if path_is_abs p then ''/'' @ join_with ''/'' parts else if parts = [] then ''.'' else join_with ''/'' parts)"

definition path_join :: "string list \<Rightarrow> string" where
  "path_join elems =
     (let elems = dropWhile (\<lambda>e. e = []) elems in if elems = [] then [] else path_clean (join_with ''/'' elems))"

fun common_rest :: "string list \<Rightarrow> string list \<Rightarrow> string list \<times> string list" where
  "common_rest (x # xs) (y # ys) = (if x = y then common_rest xs ys else (x # xs, y # ys))"
| "common_rest xs ys = (xs, ys)"

text \<open>\<open>Rel\<close> fails when one path is absolute and the other is not, or when it would have to undo a leading \<open>..\<close>.\<close>

definition path_rel :: "string \<Rightarrow> string \<Rightarrow> string option" where
  "path_rel base targ =
     (if path_is_abs base \<noteq> path_is_abs targ then None
      else case common_rest (path_parts base) (path_parts targ) of
             (b, t) \<Rightarrow> if b = [] \<and> t = [] then Some ''.''
                      else if b \<noteq> [] \<and> hd b = ''..'' then None
                      else Some (join_with ''/'' (map (\<lambda>_. ''..'') b @ t)))"

definition path_dir :: "string \<Rightarrow> string" where
  "path_dir p = path_clean (rev (dropWhile (\<lambda>c. c \<noteq> CHR ''/'') (rev p)))"

definition path_base :: "string \<Rightarrow> string" where
  "path_base p =
     (if p = [] then ''.''
      else let p = rev (dropWhile (\<lambda>c. c = CHR ''/'') (rev p))
           in if p = [] then ''/'' else rev (takeWhile (\<lambda>c. c \<noteq> CHR ''/'') (rev p)))"

definition pathWithin :: "string \<Rightarrow> string \<Rightarrow> bool" where
  "pathWithin root candidate \<longleftrightarrow>
     (case path_rel (path_clean root) (path_clean candidate) of
        None \<Rightarrow> False | Some rel \<Rightarrow> rel \<noteq> ''.'' \<and> rel \<noteq> ''..'' \<and> \<not> has_prefix rel ''../'')"

definition validReleaseTarget :: "string \<Rightarrow> bool" where
  "validReleaseTarget target \<longleftrightarrow> \<not> path_is_abs target \<and> target = path_clean target \<and>
     (case split_on (CHR ''/'') target of
        [a, b] \<Rightarrow> a = ''releases'' \<and> b \<noteq> [] \<and> b \<noteq> ''.'' \<and> b \<noteq> ''..''
      | _ \<Rightarrow> False)"

definition cleanOptionalPath :: "string \<Rightarrow> string" where
  "cleanOptionalPath raw = (let raw = trim_space raw in if raw = [] then [] else path_clean raw)"

definition cleanArchivePath :: "string \<Rightarrow> string option" where
  "cleanArchivePath raw =
     (if raw = [] \<or> CHR 0x5C \<in> set raw \<or> has_prefix raw ''/'' then None
      else let clean = path_clean raw
           in if clean = ''.'' \<or> clean = ''..'' \<or> has_prefix clean ''../'' then None
              else Some (if rev clean \<noteq> [] \<and> hd (rev clean) = CHR ''/'' then butlast clean else clean))"

subsection \<open>Fields\<close>

datatype file_error =
    ExpectedKeyValue nat
  | EmptyKey nat
  | DuplicateKey nat string
  | ErrTooLong
  | MissingField string
  | InvalidField string string
  | InvalidPlan string
  | InvalidTransaction

definition sanitize :: "string \<Rightarrow> string" where
  "sanitize v = map (\<lambda>c. if c = CHR 0x0A \<or> c = CHR 0x0D then CHR '' '' else c) v"

definition writeStatusField :: "string \<Rightarrow> string \<Rightarrow> string" where
  "writeStatusField key v = key @ ''='' @ sanitize v @ [CHR 0x0A]"

definition cut :: "char \<Rightarrow> string \<Rightarrow> (string \<times> string) option" where
  "cut c s = (case dropWhile (\<lambda>x. x \<noteq> c) s of [] \<Rightarrow> None | _ # r \<Rightarrow> Some (takeWhile (\<lambda>x. x \<noteq> c) s, r))"

text \<open>The lines of a scanner: what follows the last newline counts only when it is not empty.\<close>

definition scan_lines :: "string \<Rightarrow> string list" where
  "scan_lines s = (let parts = split_on (CHR 0x0A) s in if last parts = [] then butlast parts else parts)"

definition drop_cr :: "string \<Rightarrow> string" where
  "drop_cr s = (if s \<noteq> [] \<and> last s = CHR 0x0D then butlast s else s)"

definition MaxScanTokenSize :: int where "MaxScanTokenSize = 65536"

fun read_lines :: "nat \<Rightarrow> string list \<Rightarrow> (string, string) gomap \<Rightarrow> file_error + (string, string) gomap" where
  "read_lines n [] fs = Inr fs"
| "read_lines n (raw # ls) fs =
     (if int (length raw) \<ge> MaxScanTokenSize then Inl ErrTooLong
      else let line = trim_space (drop_cr raw)
           in if line = [] \<or> has_prefix line ''#'' then read_lines (Suc n) ls fs
              else case cut (CHR ''='') line of
                     None \<Rightarrow> Inl (ExpectedKeyValue n)
                   | Some (key, v) \<Rightarrow>
                      (let key = trim_space key
                       in if key = [] then Inl (EmptyKey n)
                          else if map_of fs key \<noteq> None then Inl (DuplicateKey n key)
                          else read_lines (Suc n) ls ((key, trim_space v) # fs)))"

definition readStatusFields :: "string \<Rightarrow> file_error + (string, string) gomap" where
  "readStatusFields file = read_lines 1 (scan_lines file) []"

definition field :: "(string, string) gomap \<Rightarrow> string \<Rightarrow> string" where
  "field fs key = (case map_of fs key of None \<Rightarrow> [] | Some v \<Rightarrow> v)"

definition requiredStatusField :: "(string, string) gomap \<Rightarrow> string \<Rightarrow> file_error + string" where
  "requiredStatusField fs key = (let v = trim_space (field fs key) in if v = [] then Inl (MissingField key) else Inr v)"

subsection \<open>Numbers and flags\<close>

definition atoi :: "string \<Rightarrow> int option" where
  "atoi s =
     (let (sg, ds) = (case s of [] \<Rightarrow> (1, []) | c # r \<Rightarrow> if c = CHR ''-'' then (-1, r) else if c = CHR ''+'' then (1, r) else (1, s));
          n = sg * int (undec ds 0)
      in if ds = [] \<or> \<not> list_all is_digit ds \<or> \<not> is_i64 n then None else Some n)"

definition parseBool :: "string \<Rightarrow> bool option" where
  "parseBool s =
     (if s \<in> set [''1'', ''t'', ''T'', ''TRUE'', ''true'', ''True''] then Some True
      else if s \<in> set [''0'', ''f'', ''F'', ''FALSE'', ''false'', ''False''] then Some False else None)"

definition formatBool :: "bool \<Rightarrow> string" where
  "formatBool b = (if b then ''true'' else ''false'')"

definition hex_digit :: "char \<Rightarrow> bool" where
  "hex_digit c \<longleftrightarrow> is_digit c \<or> 0x41 \<le> byte c \<and> byte c \<le> 0x46 \<or> 0x61 \<le> byte c \<and> byte c \<le> 0x66"

definition is_sha256 :: "string \<Rightarrow> bool" where
  "is_sha256 s \<longleftrightarrow> length s = 64 \<and> list_all hex_digit s"

subsection \<open>Plans\<close>

definition ActionUpdate :: string where "ActionUpdate = ''update''"
definition ActionReinstall :: string where "ActionReinstall = ''reinstall''"
definition OriginManual :: string where "OriginManual = ''manual''"
definition OriginAuto :: string where "OriginAuto = ''auto''"
definition StatusIdle :: string where "StatusIdle = ''idle''"
definition StatusRunning :: string where "StatusRunning = ''running''"
definition StatusCompleted :: string where "StatusCompleted = ''completed''"
definition StatusFailed :: string where "StatusFailed = ''failed''"

lemmas update_words = ActionUpdate_def ActionReinstall_def OriginManual_def OriginAuto_def
  StatusIdle_def StatusRunning_def StatusCompleted_def StatusFailed_def channels

definition ParseAction :: "string \<Rightarrow> string \<times> bool" where
  "ParseAction action =
     (let a = trim_space action
      in if a = ActionUpdate then (ActionUpdate, True) else if a = ActionReinstall then (ActionReinstall, True) else (ActionUpdate, False))"

definition ParseOrigin :: "string \<Rightarrow> string \<times> bool" where
  "ParseOrigin origin =
     (let a = trim_space origin
      in if a = OriginManual then (OriginManual, True) else if a = OriginAuto then (OriginAuto, True) else (OriginManual, False))"

definition ParseUpdateChannel :: "string \<Rightarrow> string \<times> bool" where
  "ParseUpdateChannel channel = (case ParseChannel channel of Inl _ \<Rightarrow> (ChannelRelease, False) | Inr c \<Rightarrow> (c, True))"

definition parseStatus :: "string \<Rightarrow> string \<times> bool" where
  "parseStatus status =
     (let a = trim_space status
      in if a = StatusRunning then (StatusRunning, True) else if a = StatusCompleted then (StatusCompleted, True)
         else if a = StatusFailed then (StatusFailed, True) else (StatusIdle, False))"

definition normalizeUpdateLang :: "string \<Rightarrow> string \<times> bool" where
  "normalizeUpdateLang lang =
     (let l = go_lower (trim_space lang) in if l = ''zh'' then (''zh'', True) else if l = ''en'' then (''en'', True) else (''zh'', False))"

definition normalizedServiceManager :: "string \<Rightarrow> string" where
  "normalizedServiceManager raw = (if trim_space raw = [] then ''auto'' else trim_space raw)"

record Plan =
  Plan_Action :: string
  Plan_Channel :: string
  Plan_TargetVersion :: string
  Plan_ExpectedCurrentVersion :: string
  Plan_ExpectedInstallRevision :: string
  Plan_Origin :: string
  Plan_Lang :: string
  Plan_ServiceManager :: string

definition plan_validate :: "semver \<Rightarrow> Plan \<Rightarrow> file_error option" where
  "plan_validate sv p =
     (if \<not> snd (ParseAction (Plan_Action p)) then Some (InvalidPlan ''action'')
      else case ParseUpdateChannel (Plan_Channel p) of (channel, ok) \<Rightarrow>
        if \<not> ok then Some (InvalidPlan ''channel'')
        else if Validate sv (Plan_TargetVersion p) \<noteq> None then Some (InvalidPlan ''target version'')
        else if Validate sv (Plan_ExpectedCurrentVersion p) \<noteq> None then Some (InvalidPlan ''expected current version'')
        else if \<not> is_sha256 (trim_space (Plan_ExpectedInstallRevision p)) then Some (InvalidPlan ''expected install revision'')
        else case ChannelFor sv (Plan_TargetVersion p) of
               Inl _ \<Rightarrow> Some (InvalidPlan ''target version channel'')
             | Inr targetChannel \<Rightarrow>
                 if targetChannel \<noteq> channel then Some (InvalidPlan ''target version channel'')
                 else if \<not> snd (normalizeUpdateLang (Plan_Lang p)) then Some (InvalidPlan ''language'')
                 else if \<not> snd (ParseOrigin (Plan_Origin p)) then Some (InvalidPlan ''origin'')
                 else if trim_space (Plan_ServiceManager p) \<notin> set [[], ''auto'', ''systemd'', ''none''] then Some (InvalidPlan ''service manager'')
                 else None)"

subsection \<open>Phases\<close>

definition PhaseQueued :: string where "PhaseQueued = ''queued''"
definition PhaseLocked :: string where "PhaseLocked = ''locked''"
definition PhaseDownload :: string where "PhaseDownload = ''download''"
definition PhaseValidate :: string where "PhaseValidate = ''validate''"
definition PhasePrepared :: string where "PhasePrepared = ''prepared''"
definition PhaseStopping :: string where "PhaseStopping = ''stopping''"
definition PhaseSwitching :: string where "PhaseSwitching = ''switching''"
definition PhaseMigrating :: string where "PhaseMigrating = ''migrating''"
definition PhaseStarting :: string where "PhaseStarting = ''starting''"
definition PhaseCleanup :: string where "PhaseCleanup = ''cleanup''"
definition PhaseDone :: string where "PhaseDone = ''done''"

lemmas update_phases = PhaseQueued_def PhaseLocked_def PhaseDownload_def PhaseValidate_def PhasePrepared_def PhaseStopping_def
  PhaseSwitching_def PhaseMigrating_def PhaseStarting_def PhaseCleanup_def PhaseDone_def

definition updatePhaseOrder :: "string \<Rightarrow> int" where
  "updatePhaseOrder phase =
     (if phase = PhaseQueued then 0 else if phase = PhaseLocked then 1 else if phase = PhaseDownload then 2
      else if phase = PhaseValidate then 3 else if phase = PhasePrepared then 4 else if phase = PhaseStopping then 5
      else if phase = PhaseSwitching then 6 else if phase = PhaseMigrating then 7 else if phase = PhaseStarting then 8
      else if phase = PhaseCleanup then 9 else if phase = PhaseDone then 10 else -1)"

definition validUpdatePhase :: "string \<Rightarrow> bool" where
  "validUpdatePhase phase \<longleftrightarrow> updatePhaseOrder phase \<ge> 0"

definition job_char :: "char \<Rightarrow> bool" where
  "job_char c \<longleftrightarrow> 0x61 \<le> byte c \<and> byte c \<le> 0x7A \<or> 0x41 \<le> byte c \<and> byte c \<le> 0x5A \<or> is_digit c \<or> c = CHR ''-''"

definition validJobID :: "string \<Rightarrow> bool" where
  "validJobID raw \<longleftrightarrow> (let i = trim_space raw in i \<noteq> [] \<and> length i \<le> 128 \<and> list_all job_char i)"

subsection \<open>Job requests\<close>

record jobRequest =
  Job_ID :: string
  Job_Unit :: string
  Job_Plan :: Plan

definition write_fields :: "(string \<times> string) list \<Rightarrow> string" where
  "write_fields kvs = concat (map (\<lambda>(k, v). writeStatusField k v) kvs)"

definition request_fields :: "jobRequest \<Rightarrow> (string \<times> string) list" where
  "request_fields req =
     [(''id'', Job_ID req), (''unit'', Job_Unit req), (''action'', Plan_Action (Job_Plan req)), (''channel'', Plan_Channel (Job_Plan req)),
      (''target_version'', Plan_TargetVersion (Job_Plan req)), (''expected_current_version'', Plan_ExpectedCurrentVersion (Job_Plan req)),
      (''expected_install_revision'', Plan_ExpectedInstallRevision (Job_Plan req)), (''origin'', Plan_Origin (Job_Plan req)),
      (''lang'', Plan_Lang (Job_Plan req)), (''service_manager'', normalizedServiceManager (Plan_ServiceManager (Job_Plan req)))]"

definition writeJobRequest :: "semver \<Rightarrow> jobRequest \<Rightarrow> file_error + string" where
  "writeJobRequest sv req =
     (if \<not> validJobID (Job_ID req) then Inl (InvalidField ''job ID'' (Job_ID req))
      else case plan_validate sv (Job_Plan req) of Some e \<Rightarrow> Inl e | None \<Rightarrow> Inr (write_fields (request_fields req)))"

definition readJobRequest :: "semver \<Rightarrow> string \<Rightarrow> file_error + jobRequest" where
  "readJobRequest sv file =
     (case readStatusFields file of Inl e \<Rightarrow> Inl e | Inr fs \<Rightarrow>
      case requiredStatusField fs ''id'' of Inl e \<Rightarrow> Inl e | Inr i \<Rightarrow>
      if \<not> validJobID i then Inl (InvalidField ''job ID'' i)
      else case ParseAction (field fs ''action'') of (action, ok) \<Rightarrow>
      if \<not> ok then Inl (InvalidField ''action'' (field fs ''action''))
      else case ParseUpdateChannel (field fs ''channel'') of (channel, ok) \<Rightarrow>
      if \<not> ok then Inl (InvalidField ''channel'' (field fs ''channel''))
      else case ParseOrigin (field fs ''origin'') of (origin, ok) \<Rightarrow>
      if \<not> ok then Inl (InvalidField ''origin'' (field fs ''origin''))
      else let req = \<lparr>Job_ID = i, Job_Unit = trim_space (field fs ''unit''),
                      Job_Plan = \<lparr>Plan_Action = action, Plan_Channel = channel, Plan_TargetVersion = trim_space (field fs ''target_version''),
                        Plan_ExpectedCurrentVersion = trim_space (field fs ''expected_current_version''),
                        Plan_ExpectedInstallRevision = trim_space (field fs ''expected_install_revision''), Plan_Origin = origin,
                        Plan_Lang = trim_space (field fs ''lang''), Plan_ServiceManager = normalizedServiceManager (field fs ''service_manager'')\<rparr>\<rparr>
           in if Job_Unit req = [] then Inl (MissingField ''unit'')
              else case plan_validate sv (Job_Plan req) of Some e \<Rightarrow> Inl e | None \<Rightarrow> Inr req)"

subsection \<open>Transactions\<close>

record updateTransaction =
  Txn_FormatVersion :: int
  Txn_JobID :: string
  Txn_Phase :: string
  Txn_PreviousTarget :: string
  Txn_CandidateTarget :: string
  Txn_CandidateDir :: string
  Txn_TempRoot :: string
  Txn_BackupDir :: string
  Txn_Legacy :: bool
  Txn_ServiceManager :: string
  Txn_ServiceWasActive :: bool
  Txn_MigrationStarted :: bool
  Txn_CreatedAt :: string

definition transaction_fields :: "updateTransaction \<Rightarrow> (string \<times> string) list" where
  "transaction_fields txn =
     [(''format_version'', dec_int (Txn_FormatVersion txn)), (''job_id'', Txn_JobID txn), (''phase'', Txn_Phase txn),
      (''previous_target'', Txn_PreviousTarget txn), (''candidate_target'', Txn_CandidateTarget txn), (''candidate_dir'', Txn_CandidateDir txn),
      (''temp_root'', Txn_TempRoot txn), (''backup_dir'', Txn_BackupDir txn), (''legacy'', formatBool (Txn_Legacy txn)),
      (''service_manager'', Txn_ServiceManager txn), (''service_was_active'', formatBool (Txn_ServiceWasActive txn)),
      (''migration_started'', formatBool (Txn_MigrationStarted txn)), (''created_at'', Txn_CreatedAt txn)]"

definition transactionData :: "updateTransaction \<Rightarrow> file_error + string" where
  "transactionData txn =
     (let txn = (if Txn_FormatVersion txn = 0 then txn\<lparr>Txn_FormatVersion := 1\<rparr> else txn)
      in if Txn_FormatVersion txn \<noteq> 1 \<or> \<not> validJobID (Txn_JobID txn) then Inl InvalidTransaction
         else Inr (write_fields (transaction_fields txn)))"

definition readTransaction :: "string \<Rightarrow> file_error + updateTransaction" where
  "readTransaction file =
     (case readStatusFields file of Inl e \<Rightarrow> Inl e | Inr fs \<Rightarrow>
      if atoi (field fs ''format_version'') \<noteq> Some 1 then Inl (InvalidField ''format'' (field fs ''format_version''))
      else case requiredStatusField fs ''job_id'' of Inl e \<Rightarrow> Inl e | Inr jobID \<Rightarrow>
      if \<not> validJobID jobID then Inl (InvalidField ''job ID'' jobID)
      else case parseBool (field fs ''legacy'') of None \<Rightarrow> Inl (InvalidField ''legacy'' (field fs ''legacy'')) | Some legacy \<Rightarrow>
           case parseBool (field fs ''service_was_active'') of
             None \<Rightarrow> Inl (InvalidField ''service_was_active'' (field fs ''service_was_active'')) | Some wasActive \<Rightarrow>
           case parseBool (field fs ''migration_started'') of
             None \<Rightarrow> Inl (InvalidField ''migration_started'' (field fs ''migration_started'')) | Some migrationStarted \<Rightarrow>
             (let txn = \<lparr>Txn_FormatVersion = 1, Txn_JobID = jobID, Txn_Phase = field fs ''phase'',
                         Txn_PreviousTarget = trim_space (field fs ''previous_target''),
                         Txn_CandidateTarget = trim_space (field fs ''candidate_target''),
                         Txn_CandidateDir = cleanOptionalPath (field fs ''candidate_dir''), Txn_TempRoot = cleanOptionalPath (field fs ''temp_root''),
                         Txn_BackupDir = cleanOptionalPath (field fs ''backup_dir''), Txn_Legacy = legacy,
                         Txn_ServiceManager = trim_space (field fs ''service_manager''), Txn_ServiceWasActive = wasActive,
                         Txn_MigrationStarted = migrationStarted, Txn_CreatedAt = trim_space (field fs ''created_at'')\<rparr>
              in if Txn_CreatedAt txn \<noteq> [] \<and> parse_rfc3339 (Txn_CreatedAt txn) = None then Inl (InvalidField ''created_at'' (Txn_CreatedAt txn))
                 else if \<not> validUpdatePhase (Txn_Phase txn) then Inl (InvalidField ''phase'' (Txn_Phase txn))
                 else if Txn_CandidateTarget txn \<noteq> [] \<and> \<not> validReleaseTarget (Txn_CandidateTarget txn)
                   then Inl (InvalidField ''candidate target'' (Txn_CandidateTarget txn))
                 else if Txn_PreviousTarget txn \<noteq> [] \<and> \<not> validReleaseTarget (Txn_PreviousTarget txn)
                   then Inl (InvalidField ''previous target'' (Txn_PreviousTarget txn))
                 else Inr txn))"

subsection \<open>Job status\<close>

record statusFile =
  SF_ID :: string
  SF_Unit :: string
  SF_Status :: string
  SF_Action :: string
  SF_Channel :: string
  SF_Origin :: string
  SF_TargetVersion :: string
  SF_ExpectedCurrentVersion :: string
  SF_ExpectedInstallRevision :: string
  SF_Phase :: string
  SF_FailureCode :: string
  SF_RecoveryPath :: string
  SF_StartedAt :: string
  SF_FinishedAt :: string
  SF_ExitCode :: "int option"
  SF_ExecutorPID :: int
  SF_LogFile :: string

definition statusForRequest :: "jobRequest \<Rightarrow> string \<Rightarrow> time \<Rightarrow> statusFile" where
  "statusForRequest request logPath now =
     \<lparr>SF_ID = Job_ID request, SF_Unit = Job_Unit request, SF_Status = StatusRunning, SF_Action = Plan_Action (Job_Plan request),
      SF_Channel = Plan_Channel (Job_Plan request), SF_Origin = Plan_Origin (Job_Plan request),
      SF_TargetVersion = Plan_TargetVersion (Job_Plan request), SF_ExpectedCurrentVersion = Plan_ExpectedCurrentVersion (Job_Plan request),
      SF_ExpectedInstallRevision = Plan_ExpectedInstallRevision (Job_Plan request), SF_Phase = PhaseQueued, SF_FailureCode = [],
      SF_RecoveryPath = [], SF_StartedAt = format_rfc3339_utc now, SF_FinishedAt = [], SF_ExitCode = None, SF_ExecutorPID = 0,
      SF_LogFile = logPath\<rparr>"

definition statusFromDoneTransaction :: "statusFile \<Rightarrow> updateTransaction \<Rightarrow> time \<Rightarrow> file_error + statusFile" where
  "statusFromDoneTransaction item txn now =
     (if Txn_Phase txn \<noteq> PhaseDone then Inl (InvalidField ''phase'' (Txn_Phase txn))
      else if SF_ID item \<noteq> Txn_JobID txn then Inl (InvalidField ''job ID'' (SF_ID item))
      else let item = (if Txn_MigrationStarted txn
                       then item\<lparr>SF_Status := StatusCompleted, SF_Phase := PhaseDone, SF_FailureCode := [], SF_ExitCode := Some 0\<rparr>
                       else item\<lparr>SF_Status := StatusFailed, SF_FailureCode := ''rolled_back'', SF_ExitCode := Some 1\<rparr>)
           in Inr (item\<lparr>SF_ExecutorPID := 0, SF_RecoveryPath := [], SF_FinishedAt := format_rfc3339_utc now\<rparr>))"

definition status_fields :: "statusFile \<Rightarrow> (string \<times> string) list" where
  "status_fields item =
     [(''id'', SF_ID item), (''unit'', SF_Unit item), (''status'', SF_Status item), (''action'', SF_Action item), (''channel'', SF_Channel item),
      (''origin'', SF_Origin item), (''target_version'', SF_TargetVersion item), (''expected_current_version'', SF_ExpectedCurrentVersion item),
      (''expected_install_revision'', SF_ExpectedInstallRevision item), (''phase'', SF_Phase item), (''failure_code'', SF_FailureCode item),
      (''recovery_path'', SF_RecoveryPath item), (''started_at'', SF_StartedAt item), (''finished_at'', SF_FinishedAt item),
      (''exit_code'', case SF_ExitCode item of None \<Rightarrow> [] | Some c \<Rightarrow> dec_int c), (''log_file'', SF_LogFile item),
      (''executor_pid'', if SF_ExecutorPID item > 0 then dec_int (SF_ExecutorPID item) else [])]"

definition writeUpdateStatusFile :: "statusFile \<Rightarrow> string" where
  "writeUpdateStatusFile item = write_fields (status_fields item)"

definition readUpdateStatusFile :: "string \<Rightarrow> file_error + statusFile" where
  "readUpdateStatusFile file =
     (case readStatusFields file of Inl e \<Rightarrow> Inl e | Inr fs \<Rightarrow>
      case parseStatus (field fs ''status'') of (status, ok) \<Rightarrow>
      if \<not> ok then Inl (InvalidField ''status'' (field fs ''status''))
      else case requiredStatusField fs ''id'' of Inl e \<Rightarrow> Inl e | Inr i \<Rightarrow>
      case requiredStatusField fs ''unit'' of Inl e \<Rightarrow> Inl e | Inr unit \<Rightarrow>
      case ParseAction (field fs ''action'') of (action, ok) \<Rightarrow>
      if \<not> ok then Inl (InvalidField ''action'' (field fs ''action''))
      else case ParseUpdateChannel (field fs ''channel'') of (channel, ok) \<Rightarrow>
      if \<not> ok then Inl (InvalidField ''channel'' (field fs ''channel''))
      else let raw = trim_space (field fs ''origin'') in
      case (if raw = [] then ([], True) else ParseOrigin raw) of (origin, ok) \<Rightarrow>
      if \<not> ok then Inl (InvalidField ''origin'' raw)
      else case requiredStatusField fs ''started_at'' of Inl e \<Rightarrow> Inl e | Inr startedAt \<Rightarrow>
      if parse_rfc3339 startedAt = None then Inl (InvalidField ''started_at'' startedAt)
      else let finishedAt = field fs ''finished_at'' in
      if finishedAt \<noteq> [] \<and> parse_rfc3339 finishedAt = None then Inl (InvalidField ''finished_at'' finishedAt)
      else let item = \<lparr>SF_ID = i, SF_Unit = unit, SF_Status = status, SF_Action = action, SF_Channel = channel, SF_Origin = origin,
               SF_TargetVersion = trim_space (field fs ''target_version''),
               SF_ExpectedCurrentVersion = trim_space (field fs ''expected_current_version''),
               SF_ExpectedInstallRevision = trim_space (field fs ''expected_install_revision''), SF_Phase = trim_space (field fs ''phase''),
               SF_FailureCode = trim_space (field fs ''failure_code''), SF_RecoveryPath = trim_space (field fs ''recovery_path''),
               SF_StartedAt = startedAt, SF_FinishedAt = finishedAt, SF_ExitCode = None, SF_ExecutorPID = 0,
               SF_LogFile = trim_space (field fs ''log_file'')\<rparr> in
      if SF_Phase item \<noteq> [] \<and> \<not> validUpdatePhase (SF_Phase item) then Inl (InvalidField ''phase'' (SF_Phase item))
      else let raw = field fs ''exit_code'' in
      if raw \<noteq> [] \<and> atoi raw = None then Inl (InvalidField ''exit_code'' raw)
      else let item = (if raw \<noteq> [] then item\<lparr>SF_ExitCode := atoi raw\<rparr> else item); raw = field fs ''executor_pid'' in
      if raw = [] then Inr item
      else case atoi raw of None \<Rightarrow> Inl (InvalidField ''executor_pid'' raw)
           | Some pid \<Rightarrow> if pid < 0 then Inl (InvalidField ''executor_pid'' raw) else Inr (item\<lparr>SF_ExecutorPID := pid\<rparr>))"

subsection \<open>Reading a file back\<close>

definition key_ok :: "string \<Rightarrow> bool" where
  "key_ok k \<longleftrightarrow> k \<noteq> [] \<and> list_all (\<lambda>c. visible c \<and> c \<noteq> CHR ''='' \<and> c \<noteq> CHR ''#'') k"

definition trimmed :: "string \<Rightarrow> bool" where
  "trimmed s \<longleftrightarrow> drop_any space_seqs s = None \<and> drop_any (map rev space_seqs) (rev s) = None"

definition value_ok :: "string \<Rightarrow> bool" where
  "value_ok v \<longleftrightarrow> trimmed v \<and> CHR 0x0A \<notin> set v \<and> CHR 0x0D \<notin> set v \<and> int (length v) < 60000"

lemma trimmed_trim: "trimmed s \<Longrightarrow> trim_space s = s"
  by (simp add: trimmed_def trim_space_def trim_left_def trim_right_def trim_seqs_id)

lemma trim_is_trimmed [simp]: "trimmed (trim_space s)"
  by (simp add: trimmed_def trim_space_trimmed)

lemma trimmed_iff: "trimmed s \<longleftrightarrow> trim_space s = s"
  using trimmed_trim trim_is_trimmed by metis

lemma space_seqs_no_eq: "p \<in> set space_seqs \<Longrightarrow> CHR ''='' \<notin> set p"
  by (auto simp: space_seqs_def str_bytes_def)

lemma split_on_first: "c \<notin> set w \<Longrightarrow> split_on c (w @ c # s) = w # split_on c s"
  by (induction w) auto

lemma split_on_none: "c \<notin> set w \<Longrightarrow> split_on c w = [w]"
  by (induction w) auto

lemma scan_lines_Nil [simp]: "scan_lines [] = []"
  by (simp add: scan_lines_def)

lemma scan_lines_Cons: "CHR 0x0A \<notin> set w \<Longrightarrow> scan_lines (w @ CHR 0x0A # s) = w # scan_lines s"
  by (simp add: scan_lines_def split_on_first Let_def)

lemma sanitize_id: "CHR 0x0A \<notin> set v \<Longrightarrow> CHR 0x0D \<notin> set v \<Longrightarrow> sanitize v = v"
  unfolding sanitize_def by (rule map_idI) auto

lemma cut_at: "c \<notin> set k \<Longrightarrow> cut c (k @ c # v) = Some (k, v)"
proof -
  assume "c \<notin> set k"
  then have "takeWhile (\<lambda>x. x \<noteq> c) (k @ c # v) = k" "dropWhile (\<lambda>x. x \<noteq> c) (k @ c # v) = c # v" by (induction k) auto
  then show ?thesis by (simp add: cut_def)
qed

text \<open>A line \<open>key=value\<close> whose key is plain and whose value is trimmed has nothing to trim itself.\<close>

lemma line_trimmed:
  assumes "key_ok k" "trimmed v"
  shows "trimmed (k @ ''='' @ v)"
proof -
  have vis: "c \<in> set k \<Longrightarrow> visible c" for c using assms(1) by (auto simp: key_ok_def list_all_iff)
  have "k @ ''='' @ v \<noteq> p @ r" if p: "p \<in> set space_seqs" for p r
  proof
    assume eq: "k @ ''='' @ v = p @ r"
    have "hd p = hd k" using eq space_seqs_nonempty p assms(1) by (metis hd_append2 key_ok_def)
    then have "visible (hd p)" using vis assms(1) by (simp add: key_ok_def)
    then show False using p by (auto simp: space_seqs_def visible_def)
  qed
  moreover have "rev (k @ ''='' @ v) \<noteq> rev p @ r" if p: "p \<in> set space_seqs" for p r
  proof
    assume "rev (k @ ''='' @ v) = rev p @ r"
    then have eq: "k @ ''='' @ v = rev r @ p" by (metis rev_append rev_rev_ident)
    then have "(k @ ''='') @ v = rev r @ p" by simp
    then consider us where "v = us @ p" | us where "k @ ''='' = rev r @ us" "us @ v = p"
      unfolding append_eq_append_conv2 by blast
    then obtain q where "v = q @ p"
    proof cases
      case (2 us)
      have "us = []"
      proof (rule ccontr)
        assume "us \<noteq> []"
        then have "last us = CHR ''=''" using 2(1) by (metis last_appendR last_snoc)
        then have "CHR ''='' \<in> set p" using \<open>us \<noteq> []\<close> 2(2) last_in_set by fastforce
        then show False using space_seqs_no_eq [OF p] by blast
      qed
      then show ?thesis using 2(2) that [of "[]"] by simp
    qed (rule that)
    then have "rev v = rev p @ rev q" by simp
    with assms(2) p show False unfolding trimmed_def drop_any_None by (metis image_eqI set_map)
  qed
  ultimately show ?thesis unfolding trimmed_def drop_any_None by auto
qed

lemma read_written_lines:
  assumes "list_all (\<lambda>(k, v). key_ok k \<and> length k < 1000 \<and> value_ok v) kvs" "distinct (map fst (rev fs @ kvs))"
  shows "read_lines n (map (\<lambda>(k, v). k @ ''='' @ v) kvs) fs = Inr (rev kvs @ fs)"
  using assms
proof (induction kvs arbitrary: n fs)
  case (Cons e kvs)
  obtain k v where e: "e = (k, v)" by fastforce
  have k: "key_ok k" "length k < 1000" "value_ok v" using Cons.prems(1) by (auto simp: e)
  let ?l = "k @ ''='' @ v"
  have len: "int (length ?l) < MaxScanTokenSize" using k by (simp add: value_ok_def MaxScanTokenSize_def)
  have "list_all visible k" "CHR ''='' \<notin> set k" "k \<noteq> []" "hd k \<noteq> CHR ''#''"
    using k(1) by (auto simp: key_ok_def list_all_iff)
  note kk = this
  have "CHR 0x0D \<notin> set ?l" using k kk(1) by (auto simp: value_ok_def list_all_iff visible_def)
  then have cr: "drop_cr ?l = ?l" by (metis drop_cr_def last_in_set)
  have t: "trim_space ?l = ?l" using line_trimmed [OF k(1)] k(3) by (simp add: trimmed_iff value_ok_def)
  have "\<not> has_prefix ?l ''#''"
    using kk(3,4) by (cases k) (auto simp: has_prefix_def)
  moreover have "map_of fs k = None" using Cons.prems(2) by (auto simp: e map_of_eq_None_iff)
  moreover have "trim_space v = v" using k(3) by (simp add: value_ok_def trimmed_iff)
  moreover have "distinct (map fst (rev ((k, v) # fs) @ kvs))" using Cons.prems(2) by (auto simp: e)
  moreover have "cut (CHR ''='') ?l = Some (k, v)" using cut_at [OF kk(2)] by simp
  ultimately show ?case
    using len cr t kk(3) Cons.IH [of "(k, v) # fs" "Suc n"] Cons.prems(1)
    by (simp add: e trim_space_visible [OF kk(1)] Let_def)
qed simp

text \<open>What was written field by field is read back.\<close>

lemma read_written:
  assumes "list_all (\<lambda>(k, v). key_ok k \<and> length k < 1000 \<and> value_ok v) kvs" "distinct (map fst kvs)"
  shows "readStatusFields (concat (map (\<lambda>(k, v). writeStatusField k v) kvs)) = Inr (rev kvs)"
proof -
  have "scan_lines (concat (map (\<lambda>(k, v). writeStatusField k v) kvs)) = map (\<lambda>(k, v). k @ ''='' @ v) kvs"
    using assms(1)
  proof (induction kvs)
    case (Cons e kvs)
    obtain k v where e: "e = (k, v)" by fastforce
    have "key_ok k" "value_ok v" using Cons.prems by (simp_all add: e)
    have "\<not> visible (CHR 0x0A)" by (simp add: visible_def)
    with \<open>key_ok k\<close> have k: "CHR 0x0A \<notin> set k" unfolding key_ok_def list_all_iff by blast
    have v: "CHR 0x0A \<notin> set v" "sanitize v = v" using \<open>value_ok v\<close> by (simp_all add: value_ok_def sanitize_id)
    have "writeStatusField k v @ rest = (k @ ''='' @ v) @ CHR 0x0A # rest" for rest by (simp add: writeStatusField_def v(2))
    moreover have "CHR 0x0A \<notin> set (k @ ''='' @ v)" using v k by simp
    ultimately show ?case using Cons scan_lines_Cons [of "k @ ''='' @ v"] by (simp add: e)
  qed simp
  then show ?thesis using read_written_lines [of kvs "[]" 1] assms by (simp add: readStatusFields_def)
qed

definition plain_key :: "string \<Rightarrow> bool" where
  "plain_key k \<longleftrightarrow> key_ok k \<and> length k < 1000"

lemma fields_read_back:
  assumes "list_all plain_key (map fst kvs)" "distinct (map fst kvs)" "list_all value_ok (map snd kvs)"
  shows "\<exists>fs. readStatusFields (write_fields kvs) = Inr fs \<and> (\<forall>k. field fs k = field kvs k)"
proof -
  have "list_all (\<lambda>(k, v). key_ok k \<and> length k < 1000 \<and> value_ok v) kvs"
    using assms(1,3) by (auto simp: plain_key_def list_all_iff)
  moreover have "map_of (rev kvs) k = map_of kvs k" for k
    using map_of_eq_Some_iff [of kvs k] map_of_eq_Some_iff [of "rev kvs" k] assms(2)
    by (cases "map_of kvs k"; cases "map_of (rev kvs) k") (auto simp: rev_map [symmetric])
  then have "field (rev kvs) k = field kvs k" for k by (simp add: field_def)
  ultimately show ?thesis using read_written [OF _ assms(2)] by (simp add: write_fields_def)
qed

lemma value_ok_trim: "value_ok v \<Longrightarrow> trim_space v = v"
  by (simp add: value_ok_def trimmed_iff)

lemma value_ok_Nil [simp]: "value_ok []"
  by (simp add: value_ok_def trimmed_iff)

lemma visible_value: "list_all visible v \<Longrightarrow> length v < 60000 \<Longrightarrow> value_ok v"
proof -
  assume v: "list_all visible v" "length v < 60000"
  have "\<not> visible (CHR 0x0A)" "\<not> visible (CHR 0x0D)" by (simp_all add: visible_def)
  moreover have "int (length v) < 60000" using v(2) by linarith
  ultimately show ?thesis using v(1) unfolding value_ok_def trimmed_iff trim_space_visible [OF v(1)] list_all_iff by blast
qed

lemma value_ok_bool [simp]: "value_ok (formatBool b)" "parseBool (formatBool b) = Some b"
proof -
  show "value_ok (formatBool b)" by (rule visible_value) (simp_all add: formatBool_def visible_def)
  show "parseBool (formatBool b) = Some b" by (simp add: parseBool_def formatBool_def)
qed

subsection \<open>Round trips\<close>

text \<open>What a transaction of the updater satisfies: the fields are as the reader leaves them.\<close>

definition optional_clean :: "string \<Rightarrow> bool" where
  "optional_clean p \<longleftrightarrow> value_ok p \<and> (p \<noteq> [] \<longrightarrow> path_clean p = p)"

definition optional_target :: "string \<Rightarrow> bool" where
  "optional_target t \<longleftrightarrow> value_ok t \<and> (t \<noteq> [] \<longrightarrow> validReleaseTarget t)"

definition txn_ok :: "updateTransaction \<Rightarrow> bool" where
  "txn_ok txn \<longleftrightarrow> Txn_FormatVersion txn = 1 \<and> validJobID (Txn_JobID txn) \<and> value_ok (Txn_JobID txn) \<and> validUpdatePhase (Txn_Phase txn) \<and>
     optional_target (Txn_PreviousTarget txn) \<and> optional_target (Txn_CandidateTarget txn) \<and> optional_clean (Txn_CandidateDir txn) \<and>
     optional_clean (Txn_TempRoot txn) \<and> optional_clean (Txn_BackupDir txn) \<and> value_ok (Txn_ServiceManager txn) \<and> value_ok (Txn_CreatedAt txn) \<and>
     (Txn_CreatedAt txn \<noteq> [] \<longrightarrow> parse_rfc3339 (Txn_CreatedAt txn) \<noteq> None)"

lemma valid_phase_value: "validUpdatePhase phase \<Longrightarrow> value_ok phase"
  by (rule visible_value)
    (auto simp: validUpdatePhase_def updatePhaseOrder_def update_phases visible_def split: if_splits)

lemma cleanOptionalPath_ok: "optional_clean p \<Longrightarrow> cleanOptionalPath p = p"
  by (simp add: optional_clean_def cleanOptionalPath_def value_ok_trim)

lemma transaction_keys: "list_all plain_key (map fst (transaction_fields txn))" "distinct (map fst (transaction_fields txn))"
  by (simp_all add: transaction_fields_def plain_key_def key_ok_def visible_def)

lemma job_id_required: "validJobID i \<Longrightarrow> value_ok i \<Longrightarrow> i \<noteq> []"
  by (auto simp: validJobID_def value_ok_trim)

lemma read_transaction:
  assumes "txn_ok txn"
  shows "transactionData txn = Inr (write_fields (transaction_fields txn)) \<and> readTransaction (write_fields (transaction_fields txn)) = Inr txn"
proof -
  note ok = assms [unfolded txn_ok_def]
  have "list_all value_ok (map snd (transaction_fields txn))"
    using ok valid_phase_value by (auto simp: transaction_fields_def optional_target_def optional_clean_def dec_int_def dec_nat.simps
        digit_char_def intro!: visible_value simp: visible_def)
  then obtain fs where fs: "readStatusFields (write_fields (transaction_fields txn)) = Inr fs" "\<And>k. field fs k = field (transaction_fields txn) k"
    using fields_read_back [OF transaction_keys] by blast
  have "atoi (dec_int 1) = Some 1" by code_simp
  then have "readTransaction (write_fields (transaction_fields txn)) = Inr txn"
    unfolding readTransaction_def fs(1) sum.case fs(2) requiredStatusField_def
    using ok job_id_required valid_phase_value
    by (simp add: field_def transaction_fields_def value_ok_trim cleanOptionalPath_ok optional_target_def Let_def) (use ok in \<open>auto simp: optional_target_def\<close>)
  moreover have "transactionData txn = Inr (write_fields (transaction_fields txn))" using ok by (simp add: transactionData_def Let_def)
  ultimately show ?thesis by simp
qed

lemma dec_nat_all_digits: "list_all is_digit (dec_nat n)"
  using dec_nat_digits by (auto simp: list_all_iff is_digit_def)

lemma atoi_dec_int: "is_i64 i \<Longrightarrow> atoi (dec_int i) = Some i"
proof (cases "i < 0")
  case True
  assume "is_i64 i"
  with True show ?thesis by (simp add: atoi_def dec_int_def undec_dec_nat dec_nat_all_digits Let_def)
next
  case False
  assume i: "is_i64 i"
  obtain c r where c: "dec_nat (nat i) = c # r" by (cases "dec_nat (nat i)") auto
  then have "c \<noteq> CHR ''-''" "c \<noteq> CHR ''+''" using dec_nat_digits [of c "nat i"] by auto
  with False i c show ?thesis
    using dec_nat_all_digits [of "nat i"] undec_dec_nat [of "nat i"] by (simp add: atoi_def dec_int_def Let_def)
qed

lemma dec_nat_short: "n < 10 ^ 30 \<Longrightarrow> length (dec_nat n) \<le> 30"
  by (rule dec_nat_length) simp_all

lemma value_ok_dec_int: "is_i64 i \<Longrightarrow> value_ok (dec_int i)"
proof (rule visible_value)
  have "list_all visible (dec_nat n)" for n
    using dec_nat_digits [of _ n] by (fastforce simp: list_all_iff visible_def)
  then show "list_all visible (dec_int i)" by (simp add: dec_int_def visible_def)
  assume "is_i64 i"
  then have "nat i < 10 ^ 30" "nat (- i) < 10 ^ 30" by (auto simp: is_i64_def max_i64_def min_i64_def)
  then show "length (dec_int i) < 60000" using dec_nat_short by (fastforce simp: dec_int_def)
qed

definition status_ok :: "statusFile \<Rightarrow> bool" where
  "status_ok item \<longleftrightarrow> SF_ID item \<noteq> [] \<and> SF_Unit item \<noteq> [] \<and> SF_StartedAt item \<noteq> [] \<and>
     SF_Status item \<in> set [StatusRunning, StatusCompleted, StatusFailed] \<and> SF_Action item \<in> set [ActionUpdate, ActionReinstall] \<and>
     SF_Channel item \<in> set [ChannelRelease, ChannelPrerelease] \<and> SF_Origin item \<in> set [[], OriginManual, OriginAuto] \<and>
     list_all value_ok [SF_ID item, SF_Unit item, SF_TargetVersion item, SF_ExpectedCurrentVersion item, SF_ExpectedInstallRevision item,
       SF_FailureCode item, SF_RecoveryPath item, SF_StartedAt item, SF_FinishedAt item, SF_LogFile item] \<and>
     (SF_Phase item \<noteq> [] \<longrightarrow> validUpdatePhase (SF_Phase item)) \<and> parse_rfc3339 (SF_StartedAt item) \<noteq> None \<and>
     (SF_FinishedAt item \<noteq> [] \<longrightarrow> parse_rfc3339 (SF_FinishedAt item) \<noteq> None) \<and>
     (case SF_ExitCode item of None \<Rightarrow> True | Some c \<Rightarrow> is_i64 c) \<and> is_i64 (SF_ExecutorPID item) \<and> 0 \<le> SF_ExecutorPID item"

lemma status_keys: "list_all plain_key (map fst (status_fields item))" "distinct (map fst (status_fields item))"
  by (simp_all add: status_fields_def plain_key_def key_ok_def visible_def)

lemma words_values: "list_all value_ok [StatusRunning, StatusCompleted, StatusFailed, ActionUpdate, ActionReinstall,
    ChannelRelease, ChannelPrerelease, OriginManual, OriginAuto]"
  by (simp add: update_words visible_value visible_def)

lemma words_parse:
  "parseStatus StatusRunning = (StatusRunning, True)" "parseStatus StatusCompleted = (StatusCompleted, True)"
  "parseStatus StatusFailed = (StatusFailed, True)" "ParseAction ActionUpdate = (ActionUpdate, True)"
  "ParseAction ActionReinstall = (ActionReinstall, True)" "ParseUpdateChannel ChannelRelease = (ChannelRelease, True)"
  "ParseUpdateChannel ChannelPrerelease = (ChannelPrerelease, True)" "ParseOrigin OriginManual = (OriginManual, True)"
  "ParseOrigin OriginAuto = (OriginAuto, True)"
  by code_simp+

lemma words_ok:
  "x \<in> set [StatusRunning, StatusCompleted, StatusFailed] \<Longrightarrow> value_ok x \<and> parseStatus x = (x, True)"
  "x \<in> set [ActionUpdate, ActionReinstall] \<Longrightarrow> value_ok x \<and> ParseAction x = (x, True)"
  "x \<in> set [ChannelRelease, ChannelPrerelease] \<Longrightarrow> value_ok x \<and> ParseUpdateChannel x = (x, True)"
  "x \<in> set [OriginManual, OriginAuto] \<Longrightarrow> value_ok x \<and> ParseOrigin x = (x, True)"
  by (simp only: list.set insert_iff empty_iff simp_thms, elim disjE; use words_values words_parse in simp)+

lemma read_status:
  assumes "status_ok item"
  shows "readUpdateStatusFile (writeUpdateStatusFile item) = Inr item"
proof -
  note ok = assms [unfolded status_ok_def]
  have member: "SF_Status item \<in> set [StatusRunning, StatusCompleted, StatusFailed]" "SF_Action item \<in> set [ActionUpdate, ActionReinstall]"
    "SF_Channel item \<in> set [ChannelRelease, ChannelPrerelease]" "SF_Origin item \<noteq> [] \<Longrightarrow> SF_Origin item \<in> set [OriginManual, OriginAuto]"
    using ok by (simp_all only: list.set insert_iff) auto
  note words = words_ok(1) [OF member(1)] words_ok(2) [OF member(2)] words_ok(3) [OF member(3)]
  have origin: "value_ok (SF_Origin item)" "SF_Origin item \<noteq> [] \<Longrightarrow> ParseOrigin (SF_Origin item) = (SF_Origin item, True)"
    using words_ok(4) [OF member(4)] by (cases "SF_Origin item = []", simp_all)
  have phase: "value_ok (SF_Phase item)" using ok valid_phase_value by (cases "SF_Phase item = []") auto
  have exit: "value_ok (case SF_ExitCode item of None \<Rightarrow> [] | Some c \<Rightarrow> dec_int c)"
    "value_ok (if SF_ExecutorPID item > 0 then dec_int (SF_ExecutorPID item) else [])"
    using ok value_ok_dec_int by (auto split: option.splits)
  have "list_all value_ok (map snd (status_fields item))"
    using ok words origin(1) phase exit by (simp add: status_fields_def)
  then obtain fs where fs: "readStatusFields (write_fields (status_fields item)) = Inr fs" "\<And>k. field fs k = field (status_fields item) k"
    using fields_read_back [OF status_keys] by blast
  have dec: "dec_int i \<noteq> []" for i by (simp add: dec_int_def)
  show ?thesis
    unfolding readUpdateStatusFile_def writeUpdateStatusFile_def fs(1) sum.case fs(2) requiredStatusField_def
    using ok words origin phase
    by (cases "SF_ExitCode item"; cases "SF_Origin item = []"; cases "0 < SF_ExecutorPID item";
        simp add: field_def status_fields_def value_ok_trim Let_def dec atoi_dec_int; use ok in auto)
qed

end
