(* ===== verification/Update_Host.thy ===== *)
theory Update_Host
  imports Update_Files
begin

text \<open>
  The host an update runs on, and the actions of the updater on it.

  An action is a program that may succeed, return an error or die. Every operation that changes the host is a
  \<open>commit\<close>, and a script decides how each commit of a run ends: it succeeds, it fails with or without its
  effect -- the rename of \<open>writeAtomicFile\<close> may have happened although the following directory sync
  reports an error -- or the updater dies before or after it. A theorem for every script is a
  theorem for every fault and every crash point. Files are renamed into place, so a commit is atomic;
  removals and copies of trees go through a \<open>Broken\<close> entry and can be cut short.
\<close>

subsection \<open>Actions\<close>

datatype outcome = Succeeds | FailsBefore | FailsAfter | DiesBefore | DiesAfter

datatype install_error =
    Io string
  | ErrRecoveryRequired
  | ErrUpdateConflict
  | ErrRunning
  | BadState string
  | BadFile file_error
  | BadVersion version_error

datatype 'a result = Ok 'a | Failed "install_error list" | Crashed

datatype binary = LegacyBinary string | ReleaseBinary string

datatype entry = Link string | Tree string | Broken

type_synonym tree = "string \<Rightarrow> entry option"

text \<open>
  The part of the host the updater reads and writes: the entries under the Dash home that a release
  replaces, the \<open>current\<close> link, the layout marker, the names under \<open>releases\<close>, the staging
  directories with their legacy backup, the three state files, the running server, and the binary whose
  schema the database has, with a flag for a migration that was begun and not finished.
\<close>

record host =
  h_home :: tree
  h_current :: "string option"
  h_marker :: bool
  h_releases :: "string list"
  h_temp :: "(string \<times> tree option) list"
  h_txn :: "string option"
  h_block :: "string option"
  h_guard :: bool
  h_status :: "(string, string) gomap"
  h_item :: statusFile
  h_running :: "binary option"
  h_schema :: binary
  h_migrating :: bool
  h_systemd :: bool
  h_manual :: bool

type_synonym 'a action = "outcome list \<times> host \<Rightarrow> 'a result \<times> outcome list \<times> host"

definition act_ret :: "'a \<Rightarrow> 'a action" where
  "act_ret x = (\<lambda>sh. (Ok x, sh))"

definition act_fail :: "install_error list \<Rightarrow> 'a action" where
  "act_fail e = (\<lambda>sh. (Failed e, sh))"

definition act_bind :: "'a action \<Rightarrow> ('a \<Rightarrow> 'b action) \<Rightarrow> 'b action" where
  "act_bind a f = (\<lambda>sh. case a sh of (Ok x, sh') \<Rightarrow> f x sh' | (Failed e, sh') \<Rightarrow> (Failed e, sh') | (Crashed, sh') \<Rightarrow> (Crashed, sh'))"

definition act_seq :: "unit action \<Rightarrow> 'b action \<Rightarrow> 'b action" where
  "act_seq a b = act_bind a (\<lambda>_. b)"

text \<open>The error of an action as a value; the empty list is \<open>nil\<close>.\<close>

definition act_try :: "unit action \<Rightarrow> install_error list action" where
  "act_try a = (\<lambda>sh. case a sh of (Ok x, sh') \<Rightarrow> (Ok [], sh') | (Failed e, sh') \<Rightarrow> (Ok e, sh') | (Crashed, sh') \<Rightarrow> (Crashed, sh'))"

text \<open>Continue after an error; \<open>act_cleanup\<close> is a deferred clean-up that runs on errors only.\<close>

definition act_handle :: "'a action \<Rightarrow> (install_error list \<Rightarrow> 'a action) \<Rightarrow> 'a action" where
  "act_handle a f = (\<lambda>sh. case a sh of (Ok x, sh') \<Rightarrow> (Ok x, sh') | (Failed e, sh') \<Rightarrow> f e sh' | (Crashed, sh') \<Rightarrow> (Crashed, sh'))"

definition act_cleanup :: "unit action \<Rightarrow> 'a action \<Rightarrow> 'a action" where
  "act_cleanup c a = act_handle a (\<lambda>e. act_bind (act_try c) (\<lambda>_. act_fail e))"

definition act_get :: "(host \<Rightarrow> 'a) \<Rightarrow> 'a action" where
  "act_get f = (\<lambda>(s, h). (Ok (f h), (s, h)))"

definition act_err :: "install_error list \<Rightarrow> unit action" where
  "act_err e = (if e = [] then act_ret () else act_fail e)"

fun act_each :: "('a \<Rightarrow> unit action) \<Rightarrow> 'a list \<Rightarrow> unit action" where
  "act_each f [] = act_ret ()"
| "act_each f (x # xs) = act_seq (f x) (act_each f xs)"

text \<open>A commit reports whether it took effect and the error.\<close>

definition commit_state :: "string \<Rightarrow> (host \<Rightarrow> host) \<Rightarrow> (bool \<times> install_error list) action" where
  "commit_state what f = (\<lambda>(s, h).
     case s of
       [] \<Rightarrow> (Ok (True, []), ([], f h))
     | oc # s' \<Rightarrow>
        (case oc of
           Succeeds \<Rightarrow> (Ok (True, []), (s', f h))
         | FailsBefore \<Rightarrow> (Ok (False, [Io what]), (s', h))
         | FailsAfter \<Rightarrow> (Ok (True, [Io what]), (s', f h))
         | DiesBefore \<Rightarrow> (Crashed, (s', h))
         | DiesAfter \<Rightarrow> (Crashed, (s', f h))))"

definition commit :: "string \<Rightarrow> (host \<Rightarrow> host) \<Rightarrow> unit action" where
  "commit what f = act_bind (commit_state what f) (\<lambda>(committed, e). act_err e)"

text \<open>An operation whose only effect on this model is that it may fail.\<close>

definition io :: "string \<Rightarrow> unit action" where
  "io what = commit what id"

subsection \<open>Weakest preconditions\<close>

text \<open>
  \<open>wp faults a Q E C h\<close>: every run of \<open>a\<close> on \<open>h\<close> ends in \<open>Q\<close> with its result, in \<open>E\<close> with its error or in \<open>C\<close>
  when it died. Without \<open>faults\<close> only the script in which every commit succeeds counts.
\<close>

definition script_ok :: "bool \<Rightarrow> outcome list \<Rightarrow> bool" where
  "script_ok faults s \<longleftrightarrow> faults \<or> list_all (\<lambda>oc. oc = Succeeds) s"

fun ends ::
    "bool \<Rightarrow> ('a \<Rightarrow> host \<Rightarrow> bool) \<Rightarrow> (install_error list \<Rightarrow> host \<Rightarrow> bool) \<Rightarrow> (host \<Rightarrow> bool) \<Rightarrow> 'a result \<times> outcome list \<times> host \<Rightarrow> bool" where
  "ends faults Q E C (Ok x, s, h) \<longleftrightarrow> Q x h \<and> script_ok faults s"
| "ends faults Q E C (Failed e, s, h) \<longleftrightarrow> E e h \<and> script_ok faults s"
| "ends faults Q E C (Crashed, s, h) \<longleftrightarrow> C h"

definition wp ::
    "bool \<Rightarrow> 'a action \<Rightarrow> ('a \<Rightarrow> host \<Rightarrow> bool) \<Rightarrow> (install_error list \<Rightarrow> host \<Rightarrow> bool) \<Rightarrow> (host \<Rightarrow> bool) \<Rightarrow> host \<Rightarrow> bool" where
  "wp faults a Q E C h \<longleftrightarrow> (\<forall>s. script_ok faults s \<longrightarrow> ends faults Q E C (a (s, h)))"

lemma script_ok_Nil [simp]: "script_ok faults []"
  by (simp add: script_ok_def)

lemma wp_ret [simp]: "wp faults (act_ret x) Q E C h \<longleftrightarrow> Q x h"
  by (auto simp: wp_def act_ret_def intro: script_ok_Nil)

lemma wp_fail [simp]: "wp faults (act_fail e) Q E C h \<longleftrightarrow> E e h"
  by (auto simp: wp_def act_fail_def intro: script_ok_Nil)

lemma wp_get [simp]: "wp faults (act_get f) Q E C h \<longleftrightarrow> Q (f h) h"
  by (auto simp: wp_def act_get_def intro: script_ok_Nil)

lemma wp_err [simp]: "wp faults (act_err e) Q E C h \<longleftrightarrow> (if e = [] then Q () h else E e h)"
  by (simp add: act_err_def)

lemma wp_bind:
  assumes "wp faults a (\<lambda>x. wp faults (f x) Q E C) E C h"
  shows "wp faults (act_bind a f) Q E C h"
  unfolding wp_def
proof (intro allI impI)
  fix s
  assume s: "script_ok faults s"
  obtain r s' h' where a: "a (s, h) = (r, s', h')" by (metis prod_cases3)
  have "ends faults (\<lambda>x. wp faults (f x) Q E C) E C (r, s', h')" using assms s a by (metis wp_def)
  then show "ends faults Q E C (act_bind a f (s, h))"
    by (cases r) (auto simp: act_bind_def a wp_def)
qed

lemma wp_seq: "wp faults a (\<lambda>_. wp faults b Q E C) E C h \<Longrightarrow> wp faults (act_seq a b) Q E C h"
  unfolding act_seq_def by (rule wp_bind)

lemma wp_try:
  assumes "wp faults a (\<lambda>_. Q []) Q C h"
  shows "wp faults (act_try a) Q E C h"
  unfolding wp_def
proof (intro allI impI)
  fix s
  assume s: "script_ok faults s"
  obtain r s' h' where a: "a (s, h) = (r, s', h')" by (metis prod_cases3)
  have "ends faults (\<lambda>_. Q []) Q C (r, s', h')" using assms s a by (metis wp_def)
  then show "ends faults Q E C (act_try a (s, h))" by (cases r) (auto simp: act_try_def a)
qed

lemma wp_mono:
  assumes "wp faults a Q E C h" "\<And>x h. Q x h \<Longrightarrow> Q' x h" "\<And>e h. E e h \<Longrightarrow> E' e h" "\<And>h. C h \<Longrightarrow> C' h"
  shows "wp faults a Q' E' C' h"
  unfolding wp_def
proof (intro allI impI)
  fix s
  assume s: "script_ok faults s"
  obtain r s' h' where a: "a (s, h) = (r, s', h')" by (metis prod_cases3)
  have "ends faults Q E C (r, s', h')" using assms(1) s a by (metis wp_def)
  then show "ends faults Q' E' C' (a (s, h))" using assms(2-4) by (cases r) (auto simp: a)
qed

lemma wp_handle:
  assumes "wp faults a Q (\<lambda>e. wp faults (f e) Q E C) C h"
  shows "wp faults (act_handle a f) Q E C h"
  unfolding wp_def
proof (intro allI impI)
  fix s
  assume s: "script_ok faults s"
  obtain r s' h' where a: "a (s, h) = (r, s', h')" by (metis prod_cases3)
  have "ends faults Q (\<lambda>e. wp faults (f e) Q E C) C (r, s', h')" using assms s a by (metis wp_def)
  then show "ends faults Q E C (act_handle a f (s, h))" by (cases r) (auto simp: act_handle_def a wp_def)
qed

lemma wp_cleanup:
  assumes "wp faults a Q (\<lambda>e. wp faults c (\<lambda>_. E e) (\<lambda>_. E e) C) C h"
  shows "wp faults (act_cleanup c a) Q E C h"
  unfolding act_cleanup_def
proof (rule wp_handle, rule wp_mono [OF assms])
  fix e h
  assume "wp faults c (\<lambda>_. E e) (\<lambda>_. E e) C h"
  then show "wp faults (act_bind (act_try c) (\<lambda>_. act_fail e)) Q E C h"
    by (intro wp_bind wp_try) (auto elim!: wp_mono)
qed

lemma wp_commit_state:
  "wp faults (commit_state what f) Q E C h \<longleftrightarrow>
     Q (True, []) (f h) \<and> (faults \<longrightarrow> Q (False, [Io what]) h \<and> Q (True, [Io what]) (f h) \<and> C h \<and> C (f h))"
proof
  assume w: "wp faults (commit_state what f) Q E C h"
  have "Q (True, []) (f h)" using w [unfolded wp_def, rule_format, of "[]"] by (simp add: commit_state_def)
  moreover have "Q (False, [Io what]) h \<and> Q (True, [Io what]) (f h) \<and> C h \<and> C (f h)" if faults
    using w [unfolded wp_def, rule_format, of "[FailsBefore]"] w [unfolded wp_def, rule_format, of "[FailsAfter]"]
      w [unfolded wp_def, rule_format, of "[DiesBefore]"] w [unfolded wp_def, rule_format, of "[DiesAfter]"] that
    by (simp add: commit_state_def script_ok_def)
  ultimately show "Q (True, []) (f h) \<and> (faults \<longrightarrow> Q (False, [Io what]) h \<and> Q (True, [Io what]) (f h) \<and> C h \<and> C (f h))" by blast
next
  assume "Q (True, []) (f h) \<and> (faults \<longrightarrow> Q (False, [Io what]) h \<and> Q (True, [Io what]) (f h) \<and> C h \<and> C (f h))"
  then show "wp faults (commit_state what f) Q E C h"
    by (auto simp: wp_def commit_state_def script_ok_def split: list.split outcome.split)
qed

lemma wp_commit:
  assumes "Q () (f h)" "faults \<Longrightarrow> E [Io what] h \<and> E [Io what] (f h) \<and> C h \<and> C (f h)"
  shows "wp faults (commit what f) Q E C h"
  unfolding commit_def by (rule wp_bind) (use assms in \<open>simp add: wp_commit_state\<close>)

lemma wp_io: "Q () h \<Longrightarrow> (faults \<Longrightarrow> E [Io what] h \<and> C h) \<Longrightarrow> wp faults (io what) Q E C h"
  unfolding io_def by (rule wp_commit) auto

text \<open>A loop, with an invariant that its error and crash exits share.\<close>

lemma wp_each:
  assumes "I xs h" "\<And>x xs h. I (x # xs) h \<Longrightarrow> wp faults (f x) (\<lambda>_. I xs) E C h" "\<And>h. I [] h \<Longrightarrow> Q () h"
  shows "wp faults (act_each f xs) Q E C h"
  using assms(1)
proof (induction xs arbitrary: h)
  case (Cons x xs)
  then show ?case using assms(2) [OF Cons.prems] by (auto intro!: wp_seq elim: wp_mono)
qed (simp add: assms(3))

end
