(* ===== verification/Update_Install.thy ===== *)
theory Update_Install
  imports Update_Host
begin

text \<open>
  The installation of a release as a recoverable transaction: \<open>internal/dashupdate/install_linux.go\<close> with the
  reporter of \<open>executor_linux.go\<close> and the inspection of \<open>plan.go\<close>. Commands of the host, the network and the contents of an
  archive are actions that succeed or fail; digests, the output of \<open>dash --version\<close> and the clock are parameters.
\<close>

record update_env =
  ue_semver :: semver
  ue_version :: "binary \<Rightarrow> string option"
  ue_content :: "binary \<Rightarrow> string"
  ue_sha256 :: "string \<Rightarrow> string"
  ue_now :: time
  ue_temp :: string

record installPaths =
  ip_home :: string
  ip_releases :: string
  ip_current :: string
  ip_layoutMarker :: string
  ip_bin :: string
  ip_config :: string
  ip_serviceFile :: string
  ip_manualRun :: string
  ip_stateDir :: string
  ip_transactionFile :: string
  ip_blockFile :: string
  ip_lockFile :: string
  ip_serviceDropIn :: string

definition newInstallPaths :: "string \<Rightarrow> installPaths option" where
  "newInstallPaths raw =
     (let home = path_clean (trim_space raw); stateDir = path_join [home, ''runtime'', ''dash-update'']
      in if \<not> path_is_abs home \<or> home = ''/'' then None
         else Some \<lparr>ip_home = home, ip_releases = path_join [home, ''releases''], ip_current = path_join [home, ''current''],
           ip_layoutMarker = path_join [home, ''.release-layout-v1''], ip_bin = path_join [home, ''bin'', ''dash''],
           ip_config = path_join [home, ''configs'', ''config.local.yaml''], ip_serviceFile = ''/etc/systemd/system/dash.service'',
           ip_manualRun = path_join [home, ''run_dash.sh''], ip_stateDir = stateDir,
           ip_transactionFile = path_join [stateDir, ''transaction.env''], ip_blockFile = path_join [stateDir, ''update.block''],
           ip_lockFile = path_join [home, ''runtime'', ''update.lock''],
           ip_serviceDropIn = ''/etc/systemd/system/dash.service.d/dash-update.conf''\<rparr>)"

subsection \<open>The installed release\<close>

definition bin_alias :: string where "bin_alias = ''bin''"

text \<open>What \<open>bin/dash\<close> under the home resolves to.\<close>

definition entry_binary :: "host \<Rightarrow> binary option" where
  "entry_binary h =
     (case h_home h bin_alias of
        None \<Rightarrow> None
      | Some (Tree c) \<Rightarrow> Some (LegacyBinary c)
      | Some Broken \<Rightarrow> None
      | Some (Link _) \<Rightarrow>
         (case h_current h of None \<Rightarrow> None
          | Some t \<Rightarrow> if t \<in> set (map (\<lambda>n. ''releases/'' @ n) (h_releases h)) then Some (ReleaseBinary t) else None))"

record installedState =
  Inst_Version :: string
  Inst_Revision :: string
  Inst_Target :: string
  Inst_Legacy :: bool

definition commandVersion :: "update_env \<Rightarrow> binary option \<Rightarrow> string action" where
  "commandVersion env b =
     act_seq (io ''command'')
      (case Option.bind b (ue_version env) of
         None \<Rightarrow> act_fail [Io ''version'']
       | Some out \<Rightarrow>
          (let version = trim_space out
           in if contains_any version [CHR 0x0D, CHR 0x0A] then act_fail [BadState ''multiple version lines'']
              else case Validate (ue_semver env) version of Some e \<Rightarrow> act_fail [BadVersion e] | None \<Rightarrow> act_ret version))"

definition inspectInstalled :: "update_env \<Rightarrow> installedState action" where
  "inspectInstalled env =
     act_bind (act_get (\<lambda>h. (h_current h, entry_binary h))) (\<lambda>(cur, b).
     act_bind (case cur of None \<Rightarrow> act_ret ([], True)
               | Some target \<Rightarrow> if \<not> validReleaseTarget target then act_fail [BadState ''current target''] else act_ret (target, False)) (\<lambda>(target, legacy).
     act_bind (commandVersion env b) (\<lambda>version.
       act_ret \<lparr>Inst_Version = version,
         Inst_Revision = ue_sha256 env ((if legacy then ''legacy'' @ [CHR 0x00] @ (case b of None \<Rightarrow> [] | Some b \<Rightarrow> ue_content env b)
                                         else ''release'' @ [CHR 0x00] @ target) @ [CHR 0x00] @ version),
         Inst_Target = target, Inst_Legacy = legacy\<rparr>)))"

definition updateNeeded :: "semver \<Rightarrow> Plan \<Rightarrow> installedState \<Rightarrow> install_error list + bool" where
  "updateNeeded sv plan installed =
     (if Inst_Version installed \<noteq> Plan_ExpectedCurrentVersion plan \<or> Inst_Revision installed \<noteq> Plan_ExpectedInstallRevision plan
      then Inl [ErrUpdateConflict]
      else case Compare sv (Plan_TargetVersion plan) (Inst_Version installed) of
             Inl e \<Rightarrow> Inl [BadVersion e]
           | Inr cmp \<Rightarrow>
              if Plan_Action plan = ActionUpdate \<and> cmp < 0 then Inl [ErrUpdateConflict]
              else if Plan_Action plan = ActionUpdate \<and> cmp = 0 then Inr False
              else if Plan_Action plan = ActionReinstall \<and> cmp < 0 then Inl [ErrUpdateConflict]
              else Inr True)"

subsection \<open>State files\<close>

definition writeTransactionState :: "updateTransaction \<Rightarrow> (bool \<times> install_error list) action" where
  "writeTransactionState txn =
     (case transactionData txn of
        Inl e \<Rightarrow> act_ret (False, [BadFile e])
      | Inr data \<Rightarrow> commit_state ''transaction'' (\<lambda>h. h\<lparr>h_txn := Some data\<rparr>))"

definition writeTransaction :: "updateTransaction \<Rightarrow> unit action" where
  "writeTransaction txn = act_bind (writeTransactionState txn) (\<lambda>(committed, e). act_err e)"

definition markTransactionDone :: "updateTransaction \<Rightarrow> unit action" where
  "markTransactionDone txn = writeTransaction (txn\<lparr>Txn_Phase := PhaseDone\<rparr>)"

definition removeDoneTransaction :: "string \<Rightarrow> unit action" where
  "removeDoneTransaction jobID =
     act_bind (act_get h_txn) (\<lambda>file.
       case file of
         None \<Rightarrow> act_ret ()
       | Some data \<Rightarrow>
          (case readTransaction data of
             Inl e \<Rightarrow> act_fail [BadFile e]
           | Inr txn \<Rightarrow>
              if Txn_JobID txn \<noteq> jobID then act_fail [BadState ''transaction job'']
              else if Txn_Phase txn \<noteq> PhaseDone then act_ret ()
              else commit ''remove transaction'' (\<lambda>h. h\<lparr>h_txn := None\<rparr>)))"

definition ensureNoPendingUpdate :: "unit action" where
  "ensureNoPendingUpdate =
     act_bind (act_get (\<lambda>h. h_txn h \<noteq> None \<or> h_block h \<noteq> None)) (\<lambda>pending. if pending then act_fail [ErrRecoveryRequired] else act_ret ())"

definition writeUpdateBlock :: "string \<Rightarrow> unit action" where
  "writeUpdateBlock jobID = commit ''block'' (\<lambda>h. h\<lparr>h_block := Some (jobID @ [CHR 0x0A])\<rparr>)"

definition removeUpdateBlock :: "unit action" where
  "removeUpdateBlock =
     act_bind (act_get h_block) (\<lambda>b. if b = None then act_ret () else commit ''remove block'' (\<lambda>h. h\<lparr>h_block := None\<rparr>))"

subsection \<open>The reporter\<close>

datatype reporter = JobReporter | TextReporter

definition save_item :: "host \<Rightarrow> host" where
  "save_item h = h\<lparr>h_status := AList.update (SF_ID (h_item h)) (writeUpdateStatusFile (h_item h)) (h_status h)\<rparr>"

definition set_item :: "(statusFile \<Rightarrow> statusFile) \<Rightarrow> unit action" where
  "set_item f = (\<lambda>(s, h). (Ok (), (s, h\<lparr>h_item := f (h_item h)\<rparr>)))"

definition report_phase :: "reporter \<Rightarrow> string \<Rightarrow> unit action" where
  "report_phase rep phase =
     (case rep of
        TextReporter \<Rightarrow> act_ret ()
      | JobReporter \<Rightarrow>
         if \<not> validUpdatePhase phase \<or> phase = PhaseDone then act_fail [BadState ''phase'']
         else act_bind (act_get h_item) (\<lambda>item.
           if updatePhaseOrder phase < updatePhaseOrder (SF_Phase item) then act_fail [BadState ''phase order'']
           else act_seq (set_item (SF_Phase_update (\<lambda>_. phase))) (commit ''status'' save_item)))"

definition setRecoveryPath :: "string \<Rightarrow> unit action" where
  "setRecoveryPath path =
     act_seq (set_item (SF_RecoveryPath_update (\<lambda>_. path_clean path))) (act_bind (act_try (commit ''status'' save_item)) (\<lambda>_. act_ret ()))"

definition updateFailureCode :: "install_error list \<Rightarrow> string \<Rightarrow> string" where
  "updateFailureCode err recoveryPath =
     (if trim_space recoveryPath \<noteq> [] \<or> ErrRecoveryRequired \<in> set err then ''recovery_required''
      else if ErrUpdateConflict \<in> set err then ''install_changed''
      else if ErrRunning \<in> set err then ''update_running'' else ''update_failed'')"

definition report_finish :: "update_env \<Rightarrow> install_error list \<Rightarrow> unit action" where
  "report_finish env updateErr =
     act_seq (set_item (\<lambda>item.
       (if updateErr \<noteq> [] then item\<lparr>SF_Status := StatusFailed, SF_FailureCode := updateFailureCode updateErr (SF_RecoveryPath item), SF_ExitCode := Some 1\<rparr>
        else item\<lparr>SF_Status := StatusCompleted, SF_FailureCode := [], SF_Phase := PhaseDone, SF_ExitCode := Some 0\<rparr>)
       \<lparr>SF_FinishedAt := format_rfc3339_utc (ue_now env)\<rparr>)) (commit ''status'' save_item)"

subsection \<open>Entries of the home\<close>

definition under :: "string \<Rightarrow> string \<Rightarrow> bool" where
  "under root k \<longleftrightarrow> k = root \<or> has_prefix k (root @ ''/'')"

definition remove_tree :: "string \<Rightarrow> unit action" where
  "remove_tree root =
     act_seq (commit ''remove'' (\<lambda>h. h\<lparr>h_home := (\<lambda>k. if under root k \<and> h_home h k \<noteq> None then Some Broken else h_home h k)\<rparr>))
       (commit ''remove'' (\<lambda>h. h\<lparr>h_home := (\<lambda>k. if under root k then None else h_home h k)\<rparr>))"

definition copy_tree :: "tree \<Rightarrow> string \<Rightarrow> unit action" where
  "copy_tree src root =
     act_bind (act_get (\<lambda>h. h_home h root \<noteq> None)) (\<lambda>present.
     if present then act_fail [BadState ''file exists'']
     else act_seq (commit ''copy'' (\<lambda>h. h\<lparr>h_home := (\<lambda>k. if under root k \<and> src k \<noteq> None then Some Broken else h_home h k)\<rparr>))
            (commit ''copy'' (\<lambda>h. h\<lparr>h_home := (\<lambda>k. if under root k then src k else h_home h k)\<rparr>)))"

definition replaceInstallAlias :: "bool \<Rightarrow> string \<times> string \<Rightarrow> unit action" where
  "replaceInstallAlias removeLegacy = (\<lambda>(name, target).
     act_bind (act_get (\<lambda>h. h_home h name)) (\<lambda>e.
     act_seq (case e of
                None \<Rightarrow> act_ret ()
              | Some (Link _) \<Rightarrow> act_ret ()
              | Some _ \<Rightarrow> if \<not> removeLegacy then act_fail [BadState ''not a symlink''] else remove_tree name)
       (commit ''alias'' (\<lambda>h. h\<lparr>h_home := (h_home h)(name \<mapsto> Link target)\<rparr>))))"

definition install_aliases :: "(string \<times> string) list" where
  "install_aliases =
     [(bin_alias, ''current/bin''), (''dist'', ''current/dist''), (''deploy'', ''current/deploy''),
      (''install_dash_linux.sh'', ''current/install_dash_linux.sh''), (''update_dash_linux.sh'', ''current/update_dash_linux.sh''),
      (''release.env'', ''current/release.env''), (''configs/config.example.yaml'', ''../current/configs/config.example.yaml'')]"

definition tightenInstallPermissions :: "unit action" where
  "tightenInstallPermissions = io ''permissions''"

definition installCompatibilityAliases :: "bool \<Rightarrow> unit action" where
  "installCompatibilityAliases removeLegacy =
     act_seq (act_each (replaceInstallAlias removeLegacy) install_aliases) tightenInstallPermissions"

text \<open>On the modelled host \<open>current\<close> is a link or absent; the code also refuses a file or a directory of that name.\<close>

definition switchCurrent :: "string \<Rightarrow> unit action" where
  "switchCurrent target =
     (if \<not> validReleaseTarget target then act_fail [BadState ''release target'']
      else commit ''current'' (\<lambda>h. h\<lparr>h_current := Some target\<rparr>))"

definition activateRelease :: "string \<Rightarrow> bool \<Rightarrow> unit action" where
  "activateRelease target legacy =
     (if \<not> validReleaseTarget target then act_fail [BadState ''release target'']
      else if legacy
        then act_seq (switchCurrent target) (act_seq (installCompatibilityAliases True) (commit ''marker'' (\<lambda>h. h\<lparr>h_marker := True\<rparr>)))
        else act_seq (installCompatibilityAliases False) (switchCurrent target))"

definition managedLegacyPaths :: "string list" where
  "managedLegacyPaths = [bin_alias, ''configs'', ''dist'', ''deploy'', ''install_dash_linux.sh'', ''update_dash_linux.sh'', ''release.env'']"

text \<open>The names of a backup as \<open>os.ReadDir\<close> lists them.\<close>

definition backupNames :: "string list" where
  "backupNames = [bin_alias, ''configs'', ''deploy'', ''dist'', ''install_dash_linux.sh'', ''release.env'', ''update_dash_linux.sh'']"

definition managed :: "string \<Rightarrow> bool" where
  "managed k \<longleftrightarrow> list_ex (\<lambda>root. under root k) managedLegacyPaths"

definition backup_of :: "host \<Rightarrow> string \<Rightarrow> tree option" where
  "backup_of h dir = (case find (\<lambda>(root, b). b \<noteq> None \<and> path_join [root, ''backup'', ''legacy''] = dir) (h_temp h) of None \<Rightarrow> None | Some (root, b) \<Rightarrow> b)"

definition restoreLegacyInstall :: "installPaths \<Rightarrow> string \<Rightarrow> unit action" where
  "restoreLegacyInstall paths dir =
     (if \<not> pathWithin (path_dir (ip_home paths)) dir then act_fail [BadState ''backup path'']
      else act_bind (act_get (\<lambda>h. backup_of h dir)) (\<lambda>b.
        case b of
          None \<Rightarrow> act_fail [BadState ''legacy backup'']
        | Some src \<Rightarrow>
           act_seq (act_each remove_tree managedLegacyPaths)
             (act_seq (commit ''remove current'' (\<lambda>h. h\<lparr>h_current := None\<rparr>))
             (act_seq (commit ''remove marker'' (\<lambda>h. h\<lparr>h_marker := False\<rparr>))
             (act_seq (act_each (copy_tree src) (filter (\<lambda>root. src root \<noteq> None) backupNames)) tightenInstallPermissions)))))"

subsection \<open>Services\<close>

definition detectServiceManager :: "string \<Rightarrow> string action" where
  "detectServiceManager raw =
     (let requested = normalizedServiceManager raw
      in act_bind (act_get (\<lambda>h. (h_systemd h, h_manual h))) (\<lambda>(systemd, manual).
           if requested = ''auto'' then (if systemd then act_ret ''systemd'' else if manual then act_ret ''none'' else act_fail [BadState ''service manager''])
           else if requested = ''systemd'' then (if systemd then act_ret ''systemd'' else act_fail [BadState ''service manager''])
           else if requested = ''none'' then (if manual then act_ret ''none'' else act_fail [BadState ''service manager''])
           else act_fail [BadState ''service manager'']))"

definition serviceIsActive :: "string \<Rightarrow> bool action" where
  "serviceIsActive manager = (if manager = ''none'' then act_ret False else act_seq (io ''is-active'') (act_get (\<lambda>h. h_running h \<noteq> None)))"

definition stopDash :: "string \<Rightarrow> unit action" where
  "stopDash manager =
     act_seq (if manager = ''systemd'' then commit ''systemctl stop'' (\<lambda>h. h\<lparr>h_running := None\<rparr>) else act_ret ())
       (commit ''kill'' (\<lambda>h. h\<lparr>h_running := None\<rparr>))"

text \<open>The unit has the condition that the block does not exist, once the guard is installed.\<close>

definition may_start :: "host \<Rightarrow> bool" where
  "may_start h \<longleftrightarrow> \<not> (h_guard h \<and> h_block h \<noteq> None) \<and> entry_binary h \<noteq> None"

definition startDash :: "string \<Rightarrow> unit action" where
  "startDash manager =
     (if manager = ''none'' then act_ret ()
      else act_bind (act_get may_start) (\<lambda>ok.
        if \<not> ok then act_fail [Io ''systemctl start''] else commit ''systemctl start'' (\<lambda>h. h\<lparr>h_running := entry_binary h\<rparr>)))"

definition systemdConditionPath :: "string \<Rightarrow> string option" where
  "systemdConditionPath path =
     (if \<not> path_is_abs path \<or> contains_any path [CHR '' '', CHR 0x09, CHR 0x0D, CHR 0x0A, CHR 0x5C, CHR 0x22] then None
      else Some (''!'' @ concat (map (\<lambda>c. if c = CHR ''%'' then ''%%'' else [c]) path)))"

definition ensureServiceRecoveryGuard :: "installPaths \<Rightarrow> string \<Rightarrow> unit action" where
  "ensureServiceRecoveryGuard paths manager =
     (if manager \<noteq> ''systemd'' then act_ret ()
      else act_seq (io ''drop-in directory'')
        (if systemdConditionPath (ip_blockFile paths) = None then act_fail [BadState ''condition path'']
         else act_seq (commit ''drop-in'' (\<lambda>h. h\<lparr>h_guard := True\<rparr>)) (io ''daemon-reload'')))"

definition runCandidateMigration :: "installPaths \<Rightarrow> updateTransaction \<Rightarrow> unit action" where
  "runCandidateMigration paths txn =
     (if \<not> pathWithin (ip_releases paths) (Txn_CandidateDir txn) then act_fail [BadState ''candidate'']
      else act_bind (act_get (\<lambda>h. path_base (Txn_CandidateDir txn) \<in> set (h_releases h))) (\<lambda>present.
        if \<not> present then act_fail [Io ''migrate'']
        else act_seq (commit ''migrate'' (\<lambda>h. h\<lparr>h_migrating := True\<rparr>))
               (commit ''migrate'' (\<lambda>h. h\<lparr>h_migrating := False, h_schema := ReleaseBinary (''releases/'' @ path_base (Txn_CandidateDir txn))\<rparr>))))"

subsection \<open>The transaction\<close>

definition validateTransactionPaths :: "installPaths \<Rightarrow> updateTransaction \<Rightarrow> install_error list" where
  "validateTransactionPaths paths txn =
     (if Txn_CandidateDir txn = [] \<or> \<not> path_is_abs (Txn_CandidateDir txn) \<or> \<not> pathWithin (ip_releases paths) (Txn_CandidateDir txn)
      then [BadState ''candidate dir'']
      else if Txn_TempRoot txn = [] \<or> \<not> path_is_abs (Txn_TempRoot txn) \<or> \<not> pathWithin (path_dir (ip_home paths)) (Txn_TempRoot txn) \<or>
              \<not> has_prefix (path_base (Txn_TempRoot txn)) ''.ithiltir-dash-update-'' then [BadState ''staging dir'']
      else if Txn_Legacy txn \<and> (Txn_BackupDir txn = [] \<or> \<not> path_is_abs (Txn_BackupDir txn) \<or> \<not> pathWithin (Txn_TempRoot txn) (Txn_BackupDir txn))
        then [BadState ''legacy backup'']
      else if path_clean (Txn_CandidateDir txn) \<noteq> path_clean (path_join [ip_home paths, Txn_CandidateTarget txn]) then [BadState ''candidate target'']
      else if Txn_ServiceManager txn \<noteq> ''systemd'' \<and> Txn_ServiceManager txn \<noteq> ''none'' then [BadState ''service manager'']
      else [])"

definition holdDashForRecovery :: "updateTransaction \<Rightarrow> install_error list \<Rightarrow> unit action" where
  "holdDashForRecovery txn cause =
     act_bind (act_try (writeUpdateBlock (Txn_JobID txn))) (\<lambda>blockErr.
     act_bind (act_try (stopDash (Txn_ServiceManager txn))) (\<lambda>stopErr. act_fail (cause @ blockErr @ stopErr)))"

definition start_or_hold :: "updateTransaction \<Rightarrow> unit action" where
  "start_or_hold txn =
     (if \<not> Txn_ServiceWasActive txn then act_ret ()
      else act_bind (act_try (startDash (Txn_ServiceManager txn))) (\<lambda>e. if e = [] then act_ret () else holdDashForRecovery txn e))"

definition remove_candidate :: "updateTransaction \<Rightarrow> unit action" where
  "remove_candidate txn =
     (if Txn_CandidateDir txn = [] then act_ret ()
      else commit ''remove candidate'' (\<lambda>h. h\<lparr>h_releases := filter (\<lambda>n. n \<noteq> path_base (Txn_CandidateDir txn)) (h_releases h)\<rparr>))"

definition remove_temp :: "string \<Rightarrow> unit action" where
  "remove_temp root =
     (if root = [] then act_ret () else commit ''remove staging'' (\<lambda>h. h\<lparr>h_temp := filter (\<lambda>(r, b). r \<noteq> root) (h_temp h)\<rparr>))"

definition rollbackBeforeMigration :: "installPaths \<Rightarrow> updateTransaction \<Rightarrow> install_error list \<Rightarrow> unit action" where
  "rollbackBeforeMigration paths txn cause =
     (if Txn_MigrationStarted txn then act_err cause
      else if validateTransactionPaths paths txn \<noteq> [] then act_fail (cause @ validateTransactionPaths paths txn)
      else act_bind (act_try
          (act_seq (if Txn_Legacy txn then restoreLegacyInstall paths (Txn_BackupDir txn)
                    else if Txn_PreviousTarget txn \<noteq> [] then act_seq (switchCurrent (Txn_PreviousTarget txn)) (installCompatibilityAliases False)
                    else act_ret ())
            (act_seq removeUpdateBlock (act_seq (start_or_hold txn) (markTransactionDone txn))))) (\<lambda>restoreErr.
        if restoreErr \<noteq> [] then act_fail (cause @ restoreErr)
        else act_bind (act_try (remove_candidate txn)) (\<lambda>e1.
             act_bind (act_try (remove_temp (Txn_TempRoot txn))) (\<lambda>e2.
               if cause \<noteq> [] then act_fail (cause @ e1 @ e2) else act_ret ()))))"

text \<open>\<open>reachPhase\<close> changes its transaction also when it fails, so it returns it with the error.\<close>

definition reachPhase :: "updateTransaction \<Rightarrow> string \<Rightarrow> reporter \<Rightarrow> (updateTransaction \<times> install_error list) action" where
  "reachPhase txn phase rep =
     (let cur = updatePhaseOrder (Txn_Phase txn); nxt = updatePhaseOrder phase
      in if cur < 0 then act_ret (txn, [BadState ''current phase''])
         else if nxt < 0 \<or> phase = PhaseDone then act_ret (txn, [BadState ''phase''])
         else if nxt < cur then act_ret (txn, [])
         else let txn' = (if nxt > cur then txn\<lparr>Txn_Phase := phase\<rparr> else txn)
              in act_bind (act_try (act_seq (if nxt > cur then writeTransaction txn' else act_ret ()) (report_phase rep phase))) (\<lambda>e. act_ret (txn', e)))"

definition failing :: "installPaths \<Rightarrow> updateTransaction \<Rightarrow> install_error list \<Rightarrow> (updateTransaction \<times> install_error list) action" where
  "failing paths txn cause = act_bind (act_try (rollbackBeforeMigration paths txn cause)) (\<lambda>e. act_ret (txn, e))"

definition switchRelease :: "installPaths \<Rightarrow> updateTransaction \<Rightarrow> reporter \<Rightarrow> (updateTransaction \<times> install_error list) action" where
  "switchRelease paths txn rep =
     act_bind (act_try (act_seq (ensureServiceRecoveryGuard paths (Txn_ServiceManager txn))
                (act_seq (writeUpdateBlock (Txn_JobID txn)) (report_phase rep PhasePrepared)))) (\<lambda>e.
     if e \<noteq> [] then failing paths txn e
     else act_bind (reachPhase txn PhaseStopping rep) (\<lambda>(txn, e).
     if e \<noteq> [] then failing paths txn e
     else act_bind (act_try (stopDash (Txn_ServiceManager txn))) (\<lambda>e.
     if e \<noteq> [] then failing paths txn e
     else act_bind (reachPhase txn PhaseSwitching rep) (\<lambda>(txn, e).
     if e \<noteq> [] then failing paths txn e
     else act_bind (act_try (activateRelease (Txn_CandidateTarget txn) (Txn_Legacy txn))) (\<lambda>e.
     if e \<noteq> [] then failing paths txn e
     else let txn = txn\<lparr>Txn_Phase := PhaseMigrating, Txn_MigrationStarted := True\<rparr>
          in act_bind (act_try (act_seq (writeTransaction txn) (report_phase rep PhaseMigrating))) (\<lambda>e. act_ret (txn, e)))))))"

definition finishForward :: "installPaths \<Rightarrow> updateTransaction \<Rightarrow> reporter \<Rightarrow> unit action" where
  "finishForward paths txn rep =
     act_seq (runCandidateMigration paths txn)
       (act_bind (reachPhase txn PhaseStarting rep) (\<lambda>(txn, e).
        act_seq (act_err e)
         (act_seq removeUpdateBlock
         (act_seq (start_or_hold txn)
         (act_bind (reachPhase txn PhaseCleanup rep) (\<lambda>(txn, e). act_seq (act_err e) (markTransactionDone txn)))))))"

definition pruneReleases :: "unit action" where
  "pruneReleases =
     act_bind (act_get h_current) (\<lambda>cur.
       case cur of
         None \<Rightarrow> act_fail [Io ''current'']
       | Some target \<Rightarrow>
          if \<not> validReleaseTarget target then act_fail [BadState ''current target'']
          else act_bind (act_get h_releases) (\<lambda>names.
            act_seq (act_each (\<lambda>n. if n = path_base target then act_ret ()
                        else commit ''remove release'' (\<lambda>h. h\<lparr>h_releases := filter (\<lambda>m. m \<noteq> n) (h_releases h)\<rparr>)) names) (io ''sync'')))"

subsection \<open>Staging\<close>

definition format_compact_utc :: "time \<Rightarrow> string" where
  "format_compact_utc t =
     (case time_date UTC t of (y, m, d) \<Rightarrow>
        let c = local_secs UTC t mod 86400
        in pad 4 y @ pad 2 m @ pad 2 d @ ''T'' @ pad 2 (c div 3600) @ pad 2 (c div 60 mod 60) @ pad 2 (c mod 60) @ ''Z'')"

definition NAME_MAX :: nat where "NAME_MAX = 255"

definition prepareRelease :: "update_env \<Rightarrow> installPaths \<Rightarrow> string \<Rightarrow> string \<Rightarrow> (string \<times> string) action" where
  "prepareRelease env paths version jobID =
     (let name = version @ ''-'' @ format_compact_utc (ue_now env) @ ''-'' @ jobID; dir = path_join [ip_releases paths, name]
      in act_seq (io ''create releases'')
          (if \<not> pathWithin (ip_releases paths) dir then act_fail [BadState ''release path'']
           else if length (path_base dir) > NAME_MAX then act_fail [Io ''file name too long'']
           else act_bind (act_get (\<lambda>h. path_base dir \<in> set (h_releases h))) (\<lambda>present.
             if present then act_fail [BadState ''file exists'']
             else act_seq (commit ''move release'' (\<lambda>h. h\<lparr>h_releases := path_base dir # h_releases h\<rparr>))
                   (act_seq (act_cleanup (commit ''remove'' (\<lambda>h. h\<lparr>h_releases := filter (\<lambda>n. n \<noteq> path_base dir) (h_releases h)\<rparr>)) (io ''sync''))
                     (act_ret (dir, path_join [''releases'', name]))))))"

definition legacy_tree :: "host \<Rightarrow> tree" where
  "legacy_tree h = (\<lambda>k. if managed k then h_home h k else None)"

definition set_backup :: "string \<Rightarrow> tree \<Rightarrow> host \<Rightarrow> host" where
  "set_backup root t h = h\<lparr>h_temp := AList.update root (Some t) (h_temp h)\<rparr>"

definition backupLegacyInstall :: "string \<Rightarrow> unit action" where
  "backupLegacyInstall root =
     act_seq (commit ''create backup'' (set_backup root (\<lambda>_. None)))
       (commit ''copy'' (\<lambda>h. set_backup root (legacy_tree h) h))"

definition newTransaction ::
    "update_env \<Rightarrow> jobRequest \<Rightarrow> installedState \<Rightarrow> string \<Rightarrow> string \<times> string \<Rightarrow> string \<Rightarrow> string \<Rightarrow> bool \<Rightarrow> updateTransaction" where
  "newTransaction env req installed manager cand tempRoot backupDir wasActive =
     \<lparr>Txn_FormatVersion = 1, Txn_JobID = Job_ID req, Txn_Phase = PhasePrepared, Txn_PreviousTarget = Inst_Target installed,
      Txn_CandidateTarget = snd cand, Txn_CandidateDir = fst cand, Txn_TempRoot = tempRoot, Txn_BackupDir = backupDir,
      Txn_Legacy = Inst_Legacy installed, Txn_ServiceManager = manager, Txn_ServiceWasActive = wasActive, Txn_MigrationStarted = False,
      Txn_CreatedAt = format_rfc3339_utc (ue_now env)\<rparr>"

text \<open>
  The two deferred removals are kept while the transaction is not on disk; a transaction that was committed
  with an error is returned with it, so that neither runs.
\<close>

definition commitTransaction :: "updateTransaction \<Rightarrow> (updateTransaction \<times> install_error list) action" where
  "commitTransaction txn =
     act_bind (writeTransactionState txn) (\<lambda>(committed, e).
       if e = [] then act_ret (txn, [])
       else if committed then act_seq (setRecoveryPath (Txn_TempRoot txn)) (act_ret (txn, e)) else act_fail e)"

definition stageCandidate ::
    "update_env \<Rightarrow> jobRequest \<Rightarrow> installedState \<Rightarrow> string \<Rightarrow> string \<Rightarrow> string \<times> string \<Rightarrow> (updateTransaction \<times> install_error list) action" where
  "stageCandidate env req installed manager tempRoot cand =
     act_bind (serviceIsActive manager) (\<lambda>wasActive.
       let backupDir = (if Inst_Legacy installed then path_join [tempRoot, ''backup'', ''legacy''] else [])
       in act_seq (if Inst_Legacy installed then backupLegacyInstall tempRoot else act_ret ())
            (commitTransaction (newTransaction env req installed manager cand tempRoot backupDir wasActive)))"

definition remove_release :: "string \<Rightarrow> unit action" where
  "remove_release dir = commit ''remove release'' (\<lambda>h. h\<lparr>h_releases := filter (\<lambda>n. n \<noteq> path_base dir) (h_releases h)\<rparr>)"

definition stageRelease ::
    "update_env \<Rightarrow> installPaths \<Rightarrow> jobRequest \<Rightarrow> installedState \<Rightarrow> string \<Rightarrow> string \<Rightarrow> (updateTransaction \<times> install_error list) action" where
  "stageRelease env paths req installed manager tempRoot =
     act_seq (io ''protect staging directory'')
     (act_seq (report_phase JobReporter PhaseDownload)
     (act_seq (io ''download'')
     (act_seq (report_phase JobReporter PhaseValidate)
     (act_seq (io ''extract and validate'')
     (act_seq (io ''inspect config'')
     (act_seq (io ''normalize and sync release'')
     (act_bind (prepareRelease env paths (Plan_TargetVersion (Job_Plan req)) (Job_ID req)) (\<lambda>cand.
        act_cleanup (remove_release (fst cand)) (stageCandidate env req installed manager tempRoot cand)))))))))"

definition stageUpdate :: "update_env \<Rightarrow> installPaths \<Rightarrow> jobRequest \<Rightarrow> installedState \<Rightarrow> string \<Rightarrow> updateTransaction action" where
  "stageUpdate env paths req installed manager =
     (let tempRoot = path_join [path_dir (ip_home paths), ''.ithiltir-dash-update-'' @ ue_temp env]
      in act_seq (io ''resolve target release'')
          (act_seq (commit ''create staging directory'' (\<lambda>h. h\<lparr>h_temp := (tempRoot, None) # h_temp h\<rparr>))
          (act_bind (act_cleanup (remove_temp tempRoot) (stageRelease env paths req installed manager tempRoot))
            (\<lambda>(txn, e). act_seq (act_err e) (act_ret txn)))))"

subsection \<open>Apply\<close>

definition applyUpdateLocked :: "update_env \<Rightarrow> installPaths \<Rightarrow> jobRequest \<Rightarrow> unit action" where
  "applyUpdateLocked env paths req =
     act_seq (report_phase JobReporter PhaseLocked)
     (act_seq ensureNoPendingUpdate
     (act_bind (inspectInstalled env) (\<lambda>installed.
      case updateNeeded (ue_semver env) (Job_Plan req) installed of
        Inl e \<Rightarrow> act_fail e
      | Inr needed \<Rightarrow>
         if \<not> needed then act_ret ()
         else act_bind (detectServiceManager (Plan_ServiceManager (Job_Plan req))) (\<lambda>manager.
              act_bind (stageUpdate env paths req installed manager) (\<lambda>txn.
              act_bind (switchRelease paths txn JobReporter) (\<lambda>(txn, e).
                if e \<noteq> [] then act_seq (if Txn_MigrationStarted txn then setRecoveryPath (Txn_TempRoot txn) else act_ret ()) (act_fail e)
                else act_bind (act_try (finishForward paths txn JobReporter)) (\<lambda>e.
                  if e \<noteq> [] then act_seq (setRecoveryPath (Txn_TempRoot txn)) (act_fail e)
                  else act_bind (act_try (remove_temp (Txn_TempRoot txn))) (\<lambda>_.
                       act_bind (act_try pruneReleases) (\<lambda>_. act_ret ())))))))))"

definition runUpdateLocked :: "update_env \<Rightarrow> installPaths \<Rightarrow> jobRequest \<Rightarrow> unit action" where
  "runUpdateLocked env paths req =
     act_bind (act_try (applyUpdateLocked env paths req)) (\<lambda>updateErr.
     act_bind (act_try (report_finish env updateErr)) (\<lambda>e.
       if e \<noteq> [] then act_fail (updateErr @ e)
       else act_bind (act_try (removeDoneTransaction (Job_ID req))) (\<lambda>_. act_err updateErr)))"

definition openJobReporter :: "jobRequest \<Rightarrow> int \<Rightarrow> unit action" where
  "openJobReporter request pid =
     act_bind (act_get (\<lambda>h. map_of (h_status h) (Job_ID request))) (\<lambda>file.
       case file of
         None \<Rightarrow> act_fail [Io ''read update status'']
       | Some data \<Rightarrow>
          (case readUpdateStatusFile data of
             Inl e \<Rightarrow> act_fail [BadFile e]
           | Inr item \<Rightarrow>
              if SF_ID item \<noteq> Job_ID request \<or> SF_Unit item \<noteq> Job_Unit request \<or> SF_Status item \<noteq> StatusRunning
              then act_fail [BadState ''update status'']
              else act_seq (set_item (\<lambda>_. item\<lparr>SF_ExecutorPID := pid\<rparr>)) (act_seq (commit ''status'' save_item) (io ''open update log''))))"

text \<open>The executor: the request was written by the launcher, and the update lock is held for the whole run.\<close>

definition executeJob :: "update_env \<Rightarrow> installPaths \<Rightarrow> string \<Rightarrow> string \<Rightarrow> int \<Rightarrow> unit action" where
  "executeJob env paths jobID file pid =
     (case readJobRequest (ue_semver env) file of
        Inl e \<Rightarrow> act_fail [BadFile e]
      | Inr request \<Rightarrow>
         if Job_ID request \<noteq> jobID then act_fail [BadState ''update request ID'']
         else act_seq (openJobReporter request pid) (act_seq (io ''update lock'') (runUpdateLocked env paths request)))"

subsection \<open>Recovery\<close>

definition recordRecoveryResult :: "update_env \<Rightarrow> updateTransaction \<Rightarrow> unit action" where
  "recordRecoveryResult env txn =
     act_bind (act_get (\<lambda>h. map_of (h_status h) (Txn_JobID txn))) (\<lambda>file.
       case file of
         None \<Rightarrow> act_fail [Io ''read recovered update status'']
       | Some data \<Rightarrow>
          (case readUpdateStatusFile data of
             Inl e \<Rightarrow> act_fail [BadFile e]
           | Inr item \<Rightarrow>
              (case statusFromDoneTransaction item txn (ue_now env) of
                 Inl e \<Rightarrow> act_fail [BadFile e]
               | Inr item \<Rightarrow> commit ''status'' (\<lambda>h. h\<lparr>h_status := AList.update (Txn_JobID txn) (writeUpdateStatusFile item) (h_status h)\<rparr>))))"

definition finalizeRecovery :: "update_env \<Rightarrow> updateTransaction \<Rightarrow> unit action" where
  "finalizeRecovery env txn =
     (if Txn_Phase txn \<noteq> PhaseDone then act_fail [BadState ''unfinished'']
      else act_seq (recordRecoveryResult env txn)
        (act_seq (removeDoneTransaction (Txn_JobID txn))
        (act_bind (act_try (remove_temp (Txn_TempRoot txn))) (\<lambda>_. act_ret ()))))"

definition recoverTransaction :: "update_env \<Rightarrow> installPaths \<Rightarrow> updateTransaction \<Rightarrow> unit action" where
  "recoverTransaction env paths txn =
     (if Txn_Phase txn = PhaseDone then finalizeRecovery env txn
      else act_seq (ensureServiceRecoveryGuard paths (Txn_ServiceManager txn))
        (act_seq (writeUpdateBlock (Txn_JobID txn))
        (act_seq (stopDash (Txn_ServiceManager txn))
        (if \<not> Txn_MigrationStarted txn
         then act_seq (rollbackBeforeMigration paths txn []) (finalizeRecovery env (txn\<lparr>Txn_Phase := PhaseDone\<rparr>))
         else act_seq (activateRelease (Txn_CandidateTarget txn) (Txn_Legacy txn))
            (act_seq (finishForward paths txn TextReporter)
            (act_seq (finalizeRecovery env (txn\<lparr>Txn_Phase := PhaseDone\<rparr>))
            (act_bind (act_try pruneReleases) (\<lambda>_. act_ret ()))))))))"

definition recoverUpdateLocked :: "update_env \<Rightarrow> installPaths \<Rightarrow> unit action" where
  "recoverUpdateLocked env paths =
     act_bind (act_get (\<lambda>h. (h_txn h, h_block h))) (\<lambda>(file, block).
       case file of
         None \<Rightarrow> act_fail [BadState (if block \<noteq> None then ''orphaned block'' else ''no unfinished update'')]
       | Some data \<Rightarrow>
          (case readTransaction data of
             Inl e \<Rightarrow> act_fail [BadFile e]
           | Inr txn \<Rightarrow> act_seq (act_err (validateTransactionPaths paths txn)) (recoverTransaction env paths txn)))"

end
