(* ===== verification/Update_Triples.thy ===== *)
theory Update_Triples
  imports Update_Install
begin

text \<open>
  Triples for the actions of the updater and their rules.
\<close>

subsection \<open>Triples\<close>

text \<open>
  \<open>run faults P a Q R\<close>: from \<open>P\<close>, a run of \<open>a\<close> returns in \<open>Q\<close>; an error, which is never nil, or a crash leaves the host in \<open>R\<close>.
\<close>

definition run :: "bool \<Rightarrow> (host \<Rightarrow> bool) \<Rightarrow> 'a action \<Rightarrow> ('a \<Rightarrow> host \<Rightarrow> bool) \<Rightarrow> (host \<Rightarrow> bool) \<Rightarrow> bool" where
  "run faults P a Q R \<longleftrightarrow> (\<forall>h. P h \<longrightarrow> wp faults a Q (\<lambda>e h. e \<noteq> [] \<and> R h) R h)"

lemma run_pre: "run faults P a Q R \<Longrightarrow> (\<And>h. P' h \<Longrightarrow> P h) \<Longrightarrow> run faults P' a Q R"
  by (simp add: run_def)

lemma run_conseq:
  assumes "run faults P a Q R" "\<And>h. P' h \<Longrightarrow> P h" "\<And>x h. Q x h \<Longrightarrow> Q' x h" "\<And>h. R h \<Longrightarrow> R' h"
  shows "run faults P' a Q' R'"
  unfolding run_def
proof (intro allI impI)
  fix h
  assume "P' h"
  then have "wp faults a Q (\<lambda>e h. e \<noteq> [] \<and> R h) R h" using assms(1,2) by (simp add: run_def)
  then show "wp faults a Q' (\<lambda>e h. e \<noteq> [] \<and> R' h) R' h" by (rule wp_mono) (use assms(3,4) in auto)
qed

lemma run_weaken: "run faults P a Q R \<Longrightarrow> (\<And>h. R h \<Longrightarrow> R' h) \<Longrightarrow> run faults P a Q R'"
  by (rule run_conseq)

lemma run_ex: "(\<And>x. run faults (P x) a Q R) \<Longrightarrow> run faults (\<lambda>h. \<exists>x. P x h) a Q R"
  by (auto simp: run_def)

lemma run_absurd: "(\<And>h. \<not> P h) \<Longrightarrow> run faults P a Q R"
  by (simp add: run_def)

lemma run_ret: "(\<And>h. P h \<Longrightarrow> Q x h) \<Longrightarrow> run faults P (act_ret x) Q R"
  by (simp add: run_def)

lemma run_fail: "e \<noteq> [] \<Longrightarrow> (\<And>h. P h \<Longrightarrow> R h) \<Longrightarrow> run faults P (act_fail e) Q R"
  by (simp add: run_def)

lemma run_err: "(\<And>h. P h \<Longrightarrow> e = [] \<Longrightarrow> Q () h) \<Longrightarrow> (\<And>h. P h \<Longrightarrow> e \<noteq> [] \<Longrightarrow> R h) \<Longrightarrow> run faults P (act_err e) Q R"
  by (simp add: run_def)

lemma run_bind: "run faults P a S R \<Longrightarrow> (\<And>x. run faults (S x) (f x) Q R) \<Longrightarrow> run faults P (act_bind a f) Q R"
  unfolding run_def by (auto intro!: wp_bind elim!: wp_mono)

lemma run_seq: "run faults P a (\<lambda>_. S) R \<Longrightarrow> run faults S b Q R \<Longrightarrow> run faults P (act_seq a b) Q R"
  unfolding act_seq_def by (rule run_bind)

lemma run_get: "(\<And>x. run faults (\<lambda>h. P h \<and> g h = x) (f x) Q R) \<Longrightarrow> run faults P (act_bind (act_get g) f) Q R"
  by (rule run_bind [where S = "\<lambda>x h. P h \<and> g h = x"]) (simp_all add: run_def)

text \<open>The assertion determines what is read.\<close>

lemma run_known: "(\<And>h. P h \<Longrightarrow> g h = x) \<Longrightarrow> run faults P (f x) Q R \<Longrightarrow> run faults P (act_bind (act_get g) f) Q R"
  by (rule run_bind [where S = "\<lambda>y h. P h \<and> y = x"]) (auto simp: run_def)

lemma run_try: "run faults P a (\<lambda>_. Q) R \<Longrightarrow> run faults P (act_try a) (\<lambda>e h. if e = [] then Q h else R h) R"
  unfolding run_def by (intro allI impI wp_try) (auto elim!: wp_mono)

text \<open>The continuation of a \<open>try\<close>, on success and on error.\<close>

lemma run_bind_try:
  assumes "run faults P a (\<lambda>_. S) T" "run faults S (f []) Q R" "\<And>e. e \<noteq> [] \<Longrightarrow> run faults T (f e) Q R" "\<And>h. T h \<Longrightarrow> R h"
  shows "run faults P (act_bind (act_try a) f) Q R"
proof (rule run_bind)
  show "run faults P (act_try a) (\<lambda>e h. if e = [] then S h else T h) R"
    by (rule run_conseq [OF run_try [OF assms(1)]]) (use assms(4) in auto)
  show "run faults (\<lambda>h. if e = [] then S h else T h) (f e) Q R" for e
    using assms(2,3) by (cases "e = []") auto
qed

lemma run_ignore: "run faults P a (\<lambda>_. Q) R \<Longrightarrow> (\<And>h. R h \<Longrightarrow> Q h) \<Longrightarrow> run faults P (act_bind (act_try a) (\<lambda>_. act_ret x)) (\<lambda>_. Q) R"
  by (rule run_bind_try) (auto intro: run_ret)

lemma run_commit:
  assumes "\<And>h. P h \<Longrightarrow> Q () (f h)" "\<And>h. faults \<Longrightarrow> P h \<Longrightarrow> R h \<and> R (f h)"
  shows "run faults P (commit what f) Q R"
  unfolding run_def by (auto intro!: wp_commit assms(1)) (use assms(2) in auto)

lemma run_io: "(\<And>h. P h \<Longrightarrow> Q () h) \<Longrightarrow> (\<And>h. faults \<Longrightarrow> P h \<Longrightarrow> R h) \<Longrightarrow> run faults P (io what) Q R"
  unfolding io_def by (rule run_commit) auto

lemma run_each:
  assumes "\<And>h. P h \<Longrightarrow> I xs h" "\<And>x ys. x \<in> set xs \<Longrightarrow> run faults (I (x # ys)) (f x) (\<lambda>_. I ys) R" "\<And>h. I [] h \<Longrightarrow> Q () h"
  shows "run faults P (act_each f xs) Q R"
proof -
  have "run faults (I ys) (act_each f ys) (\<lambda>_. I []) R" if "set ys \<subseteq> set xs" for ys
    using that
  proof (induction ys)
    case (Cons y ys)
    then show ?case using assms(2) by (auto intro!: run_seq)
  qed (simp add: run_ret)
  then show ?thesis by (rule run_conseq [of _ _ _ "\<lambda>_. I []" R]) (use assms in auto)
qed

lemma run_cleanup:
  assumes "run faults P a Q T" "run faults T c (\<lambda>_. R) R" "\<And>h. T h \<Longrightarrow> R h"
  shows "run faults P (act_cleanup c a) Q R"
  unfolding run_def
proof (intro allI impI wp_cleanup)
  fix h
  assume "P h"
  then have "wp faults a Q (\<lambda>e h. e \<noteq> [] \<and> T h) T h" using assms(1) by (simp add: run_def)
  then show "wp faults a Q (\<lambda>e. wp faults c (\<lambda>_ h. e \<noteq> [] \<and> R h) (\<lambda>_ h. e \<noteq> [] \<and> R h) R) R h"
  proof (rule wp_mono)
    fix e h
    assume "e \<noteq> [] \<and> T h"
    then have "e \<noteq> []" "wp faults c (\<lambda>_. R) (\<lambda>e h. e \<noteq> [] \<and> R h) R h" using assms(2) by (simp_all add: run_def)
    then show "wp faults c (\<lambda>_ h. e \<noteq> [] \<and> R h) (\<lambda>_ h. e \<noteq> [] \<and> R h) R h" by (auto elim!: wp_mono)
  qed (use assms(3) in auto)
qed

lemma run_set_item: "(\<And>h. P h \<Longrightarrow> Q () (h\<lparr>h_item := f (h_item h)\<rparr>)) \<Longrightarrow> run faults P (set_item f) Q R"
  by (simp add: run_def wp_def set_item_def)

lemma run_cases: "(b \<Longrightarrow> run faults P a1 Q R) \<Longrightarrow> (\<not> b \<Longrightarrow> run faults P a2 Q R) \<Longrightarrow> run faults P (if b then a1 else a2) Q R"
  by simp

text \<open>The triple with separate assertions for errors and for crashes: a deferred clean-up runs after an error only.\<close>

definition runs :: "bool \<Rightarrow> (host \<Rightarrow> bool) \<Rightarrow> 'a action \<Rightarrow> ('a \<Rightarrow> host \<Rightarrow> bool) \<Rightarrow> (host \<Rightarrow> bool) \<Rightarrow> (host \<Rightarrow> bool) \<Rightarrow> bool" where
  "runs faults P a Q E C \<longleftrightarrow> (\<forall>h. P h \<longrightarrow> wp faults a Q (\<lambda>e h. e \<noteq> [] \<and> E h) C h)"

lemma runs_conseq:
  assumes "runs faults P a Q E C" "\<And>h. P' h \<Longrightarrow> P h" "\<And>x h. Q x h \<Longrightarrow> Q' x h" "\<And>h. E h \<Longrightarrow> E' h" "\<And>h. C h \<Longrightarrow> C' h"
  shows "runs faults P' a Q' E' C'"
  unfolding runs_def
proof (intro allI impI)
  fix h
  assume "P' h"
  then have "wp faults a Q (\<lambda>e h. e \<noteq> [] \<and> E h) C h" using assms(1,2) by (simp add: runs_def)
  then show "wp faults a Q' (\<lambda>e h. e \<noteq> [] \<and> E' h) C' h" by (rule wp_mono) (use assms(3-5) in auto)
qed

lemma runs_of_run:
  assumes "run faults P a Q R" "\<And>h. R h \<Longrightarrow> E h" "\<And>h. R h \<Longrightarrow> C h"
  shows "runs faults P a Q E C"
  using assms unfolding run_def runs_def by (auto elim!: wp_mono)

lemma run_of_runs:
  assumes "runs faults P a Q E C" "\<And>h. E h \<Longrightarrow> R h" "\<And>h. C h \<Longrightarrow> R h"
  shows "run faults P a Q R"
  using assms unfolding run_def runs_def by (auto elim!: wp_mono)

lemma runs_bind: "runs faults P a S E C \<Longrightarrow> (\<And>x. runs faults (S x) (f x) Q E C) \<Longrightarrow> runs faults P (act_bind a f) Q E C"
  unfolding runs_def by (auto intro!: wp_bind elim!: wp_mono)

lemma runs_seq: "runs faults P a (\<lambda>_. S) E C \<Longrightarrow> runs faults S b Q E C \<Longrightarrow> runs faults P (act_seq a b) Q E C"
  unfolding act_seq_def by (rule runs_bind)

lemma runs_ret: "(\<And>h. P h \<Longrightarrow> Q x h) \<Longrightarrow> runs faults P (act_ret x) Q E C"
  by (simp add: runs_def)

lemma runs_fail: "e \<noteq> [] \<Longrightarrow> (\<And>h. P h \<Longrightarrow> E h) \<Longrightarrow> runs faults P (act_fail e) Q E C"
  by (simp add: runs_def)

lemma runs_try: "runs faults P a (\<lambda>_. Q) E C \<Longrightarrow> runs faults P (act_try a) (\<lambda>e h. if e = [] then Q h else E h) E' C"
  unfolding runs_def by (intro allI impI wp_try) (auto elim!: wp_mono)

lemma runs_set_item: "(\<And>h. P h \<Longrightarrow> Q () (h\<lparr>h_item := f (h_item h)\<rparr>)) \<Longrightarrow> runs faults P (set_item f) Q E C"
  by (simp add: runs_def wp_def set_item_def)

lemma runs_cleanup:
  assumes "runs faults P a Q E C" "runs faults E c (\<lambda>_. E') E' C"
  shows "runs faults P (act_cleanup c a) Q E' C"
  unfolding runs_def
proof (intro allI impI wp_cleanup)
  fix h
  assume "P h"
  then have "wp faults a Q (\<lambda>e h. e \<noteq> [] \<and> E h) C h" using assms(1) by (simp add: runs_def)
  then show "wp faults a Q (\<lambda>e. wp faults c (\<lambda>_ h. e \<noteq> [] \<and> E' h) (\<lambda>_ h. e \<noteq> [] \<and> E' h) C) C h"
  proof (rule wp_mono)
    fix e h
    assume "e \<noteq> [] \<and> E h"
    then have "e \<noteq> []" "wp faults c (\<lambda>_. E') (\<lambda>e h. e \<noteq> [] \<and> E' h) C h" using assms(2) by (simp_all add: runs_def)
    then show "wp faults c (\<lambda>_ h. e \<noteq> [] \<and> E' h) (\<lambda>_ h. e \<noteq> [] \<and> E' h) C h" by (auto elim!: wp_mono)
  qed
qed

lemma runs_commit_state:
  assumes "\<And>h. P h \<Longrightarrow> Q (True, []) (f h)" "\<And>h. faults \<Longrightarrow> P h \<Longrightarrow> Q (False, [Io what]) h \<and> Q (True, [Io what]) (f h) \<and> C h \<and> C (f h)"
  shows "runs faults P (commit_state what f) Q E C"
  unfolding runs_def using assms by (auto simp: wp_commit_state)

end
