(* ===== verification/Update_Paths.thy ===== *)
theory Update_Paths
  imports Update_Files
begin

text \<open>
  Facts about cleaned absolute paths: \<open>filepath.Clean\<close>, \<open>Join\<close>, \<open>Dir\<close>, \<open>Base\<close> and the containment check of
  the updater on paths that are given by their components, and the shape of printed times.
\<close>

subsection \<open>Components\<close>

definition plain_part :: "string \<Rightarrow> bool" where
  "plain_part p \<longleftrightarrow> p \<noteq> [] \<and> p \<noteq> ''.'' \<and> p \<noteq> ''..'' \<and> CHR ''/'' \<notin> set p"

definition abs_path :: "string list \<Rightarrow> string" where
  "abs_path ps = ''/'' @ join_with ''/'' ps"

lemma join_with_Cons: "ps \<noteq> [] \<Longrightarrow> join_with sep (p # ps) = p @ sep @ join_with sep ps"
  by (cases ps) simp_all

lemma split_join: "list_all plain_part ps \<Longrightarrow> ps \<noteq> [] \<Longrightarrow> split_on (CHR ''/'') (join_with ''/'' ps) = ps"
proof (induction ps)
  case (Cons p ps)
  then have p: "CHR ''/'' \<notin> set p" by (simp add: plain_part_def)
  show ?case
  proof (cases "ps = []")
    case True
    then show ?thesis by (simp add: split_on_none [OF p])
  next
    case False
    then show ?thesis using Cons split_on_first [OF p, of "join_with ''/'' ps"] by (simp add: join_with_Cons)
  qed
qed simp

lemma clean_plain: "list_all plain_part ps \<Longrightarrow> clean_parts rooted ps out = rev out @ ps"
  by (induction ps arbitrary: out) (simp_all add: plain_part_def)

lemma plain_head:
  assumes "list_all plain_part ps" "ps \<noteq> []"
  shows "join_with ''/'' ps \<noteq> []" "hd (join_with ''/'' ps) \<noteq> CHR ''/''"
  using assms by (cases ps; cases "tl ps"; cases "hd ps"; auto simp: plain_part_def join_with_Cons)+

lemma relative_plain: "list_all plain_part ps \<Longrightarrow> ps \<noteq> [] \<Longrightarrow> \<not> path_is_abs (join_with ''/'' ps)"
  using plain_head [of ps] by (auto simp: path_is_abs_def has_prefix_def)

lemma path_is_abs_abs [simp]: "path_is_abs (abs_path ps)"
  by (simp add: path_is_abs_def has_prefix_def abs_path_def)

lemma path_parts_abs [simp]: "list_all plain_part ps \<Longrightarrow> path_parts (abs_path ps) = ps"
  by (cases "ps = []") (simp_all add: path_parts_def, simp_all add: abs_path_def split_join clean_plain)

lemma path_clean_abs [simp]: "list_all plain_part ps \<Longrightarrow> path_clean (abs_path ps) = abs_path ps"
  by (simp add: path_clean_def Let_def) (simp add: abs_path_def)

lemma path_clean_relative: "list_all plain_part ps \<Longrightarrow> ps \<noteq> [] \<Longrightarrow> path_clean (join_with ''/'' ps) = join_with ''/'' ps"
  using relative_plain [of ps] by (simp add: path_clean_def path_parts_def split_join clean_plain)

lemma join_with_append: "ps \<noteq> [] \<Longrightarrow> qs \<noteq> [] \<Longrightarrow> join_with sep (ps @ qs) = join_with sep ps @ sep @ join_with sep qs"
proof (induction ps)
  case (Cons p ps)
  then show ?case by (cases "ps = []") (simp_all add: join_with_Cons)
qed simp

lemma abs_path_append: "ps \<noteq> [] \<Longrightarrow> qs \<noteq> [] \<Longrightarrow> abs_path (ps @ qs) = abs_path ps @ ''/'' @ join_with ''/'' qs"
  by (simp add: abs_path_def join_with_append)

lemma path_join_abs:
  assumes "list_all plain_part ps" "list_all plain_part qs" "qs \<noteq> []"
  shows "path_join (abs_path ps # qs) = abs_path (ps @ qs)"
proof -
  have "path_clean (abs_path ps @ ''/'' @ join_with ''/'' qs) = abs_path (ps @ qs)"
  proof (cases "ps = []")
    case True
    have "path_parts (''//'' @ join_with ''/'' qs) = qs"
      using assms by (simp add: path_parts_def split_join clean_plain)
    then show ?thesis using True by (simp add: path_clean_def abs_path_def path_is_abs_def has_prefix_def)
  next
    case False
    then show ?thesis using assms path_clean_abs [of "ps @ qs"] by (simp add: abs_path_append)
  qed
  moreover have "abs_path ps \<noteq> []" by (simp add: abs_path_def)
  ultimately show ?thesis using assms(3) by (simp add: path_join_def join_with_Cons)
qed

lemma dropWhile_rev_notin: "c \<notin> set q \<Longrightarrow> dropWhile (\<lambda>x. x \<noteq> c) (rev q @ c # r) = c # r"
  by (subst dropWhile_append2) auto

lemma path_dir_abs:
  assumes "list_all plain_part ps" "plain_part p"
  shows "path_dir (abs_path (ps @ [p])) = abs_path ps"
proof -
  have p: "CHR ''/'' \<notin> set p" using assms(2) by (simp add: plain_part_def)
  show ?thesis
  proof (cases "ps = []")
    case True
    have "path_dir (abs_path [p]) = path_clean ''/''"
      using dropWhile_rev_notin [OF p, of "[]"] by (simp add: path_dir_def abs_path_def)
    then show ?thesis using True path_clean_abs [of "[]"] by (simp add: abs_path_def)
  next
    case False
    have "path_dir (abs_path (ps @ [p])) = path_clean (abs_path ps @ ''/'')"
      using False dropWhile_rev_notin [OF p, of "rev (abs_path ps)"] by (simp add: path_dir_def abs_path_append)
    also have "\<dots> = abs_path ps"
    proof -
      have "split_on (CHR ''/'') (join_with ''/'' ps @ ''/'') = ps @ [[]]"
        using assms(1) False
      proof (induction ps)
        case (Cons q qs)
        then have q: "CHR ''/'' \<notin> set q" by (simp add: plain_part_def)
        show ?case
        proof (cases "qs = []")
          case True
          then show ?thesis using split_on_first [OF q, of "[]"] by simp
        next
          case False
          then show ?thesis using Cons split_on_first [OF q, of "join_with ''/'' qs @ ''/''"] by (simp add: join_with_Cons)
        qed
      qed simp
      moreover have "clean_parts True (ps @ [[]]) [] = ps"
      proof -
        have "clean_parts True (ps @ [[]]) out = rev out @ ps" for out
          using assms(1) by (induction ps arbitrary: out) (simp_all add: plain_part_def)
        then show ?thesis by simp
      qed
      ultimately show ?thesis by (simp add: path_clean_def path_parts_def abs_path_def path_is_abs_def has_prefix_def)
    qed
    finally show ?thesis .
  qed
qed

lemma path_base_last:
  assumes "plain_part p"
  shows "path_base (s @ ''/'' @ p) = p" "path_base p = p"
proof -
  have p: "CHR ''/'' \<notin> set p" "p \<noteq> []" using assms by (simp_all add: plain_part_def)
  have "dropWhile (\<lambda>c. c = CHR ''/'') (rev p @ r) = rev p @ r" for r
    using p by (cases "rev p") (auto simp: rev_eq_Cons_iff)
  note d = this this [of "[]", simplified]
  have t: "takeWhile (\<lambda>c. c \<noteq> CHR ''/'') (rev p @ CHR ''/'' # r) = rev p" for r
    using p(1) by (subst takeWhile_append2) auto
  show "path_base (s @ ''/'' @ p) = p" using d(1) [of "CHR ''/'' # rev s"] t [of "rev s"] p(2) by (simp add: path_base_def Let_def)
  have tw: "takeWhile (\<lambda>c. c \<noteq> CHR ''/'') (rev p) = rev p" using p(1) by (auto simp: takeWhile_eq_all_conv)
  have "path_base p = rev (takeWhile (\<lambda>c. c \<noteq> CHR ''/'') (rev p))" using p(2) d(2) by (simp add: path_base_def Let_def)
  then show "path_base p = p" by (simp only: tw rev_rev_ident)
qed

lemma path_base_abs: "plain_part p \<Longrightarrow> path_base (abs_path (ps @ [p])) = p"
  using path_base_last(1) [of p "abs_path ps"] path_base_last(1) [of p "[]"]
  by (cases "ps = []") (simp_all add: abs_path_append, simp add: abs_path_def)

lemma common_rest_prefix: "common_rest ps (ps @ qs) = ([], qs)"
  by (induction ps) (cases qs; simp)+

lemma pathWithin_abs:
  assumes "list_all plain_part ps" "list_all plain_part qs" "qs \<noteq> []"
  shows "pathWithin (abs_path ps) (abs_path (ps @ qs))"
proof -
  have rel: "path_rel (abs_path ps) (abs_path (ps @ qs)) = Some (join_with ''/'' qs)"
    using assms by (simp add: path_rel_def common_rest_prefix)
  obtain q r where q: "qs = q # r" using assms(3) by (cases qs) auto
  have plain: "plain_part q" using assms(2) q by simp
  have "split_on (CHR ''/'') (join_with ''/'' qs) = qs" using split_join assms by blast
  then have split: "hd (split_on (CHR ''/'') (join_with ''/'' qs)) = q" by (simp add: q)
  have "join_with ''/'' qs \<noteq> ''.''" "join_with ''/'' qs \<noteq> ''..''" "\<not> has_prefix (join_with ''/'' qs) ''../''"
    using split plain by (auto simp: plain_part_def has_prefix_def)
  then show ?thesis using assms by (simp add: pathWithin_def rel)
qed

lemma valid_target: "plain_part p \<Longrightarrow> validReleaseTarget (''releases/'' @ p)"
proof -
  assume p: "plain_part p"
  have "list_all plain_part [''releases'', p]" using p by (simp add: plain_part_def)
  then show ?thesis
    using path_clean_relative [of "[''releases'', p]"] relative_plain [of "[''releases'', p]"] split_join [of "[''releases'', p]"] p
    by (simp add: validReleaseTarget_def plain_part_def)
qed

lemma valid_target_base:
  assumes "validReleaseTarget t"
  obtains p where "plain_part p" "t = ''releases/'' @ p" "path_base t = p"
proof -
  obtain p where s: "split_on (CHR ''/'') t = [''releases'', p]" "p \<noteq> []" "p \<noteq> ''.''" "p \<noteq> ''..''"
    using assms by (auto simp: validReleaseTarget_def split: list.splits)
  have t: "t = ''releases/'' @ p" using join_split [of "CHR ''/''" t] s(1) by simp
  have "CHR ''/'' \<notin> set p"
  proof
    assume "CHR ''/'' \<in> set p"
    then obtain a b where p: "p = a @ CHR ''/'' # b" "CHR ''/'' \<notin> set a" by (meson split_list_first)
    have "split_on (CHR ''/'') (''releases/'' @ p) = ''releases'' # a # split_on (CHR ''/'') b"
      using split_on_first [of "CHR ''/''" "''releases''" p] split_on_first [OF p(2), of b] by (simp add: p(1))
    moreover have "split_on (CHR ''/'') b \<noteq> []" by simp
    ultimately show False using s(1) t by (metis list.inject)
  qed
  then have "plain_part p" using s by (simp add: plain_part_def)
  with t that path_base_last(1) [of p "''releases''"] show thesis by simp
qed

subsection \<open>The home\<close>

lemma clean_parts_plain:
  assumes "list_all (\<lambda>p. CHR ''/'' \<notin> set p) ps" "list_all plain_part out"
  shows "list_all plain_part (clean_parts True ps out)"
  using assms
proof (induction ps arbitrary: out)
  case (Cons p ps)
  then show ?case by (cases out) (auto simp: plain_part_def)
qed simp

lemma split_on_parts: "list_all (\<lambda>p. c \<notin> set p) (split_on c s)"
proof (induction s)
  case (Cons x s)
  then show ?case by (cases "split_on c s") auto
qed simp

lemma path_clean_components: "path_is_abs p \<Longrightarrow> path_clean p = abs_path (path_parts p) \<and> list_all plain_part (path_parts p)"
  using clean_parts_plain [OF split_on_parts [of "CHR ''/''" p], of "[]"] by (simp add: path_clean_def path_parts_def abs_path_def)

lemma path_clean_keeps_abs: "path_is_abs (path_clean p) \<longleftrightarrow> path_is_abs p"
proof (cases "path_is_abs p")
  case False
  have head: "clean_parts False ps out = qs \<Longrightarrow> list_all (\<lambda>p. CHR ''/'' \<notin> set p \<and> p \<noteq> []) out \<Longrightarrow>
      list_all (\<lambda>p. CHR ''/'' \<notin> set p) ps \<Longrightarrow> list_all (\<lambda>p. CHR ''/'' \<notin> set p \<and> p \<noteq> []) qs" for ps out qs
  proof (induction ps arbitrary: out)
    case (Cons p ps)
    then show ?case by (cases out) (auto split: if_splits)
  qed auto
  have parts: "list_all (\<lambda>p. CHR ''/'' \<notin> set p \<and> p \<noteq> []) (path_parts p)"
    using head [OF refl _ split_on_parts [of "CHR ''/''" p], of "[]"] False by (simp add: path_parts_def)
  have "\<not> path_is_abs (join_with ''/'' (path_parts p))"
  proof (cases "path_parts p")
    case (Cons q qs)
    then have "q \<noteq> []" "CHR ''/'' \<notin> set q" using parts by auto
    then show ?thesis using Cons by (cases qs; cases q) (auto simp: path_is_abs_def has_prefix_def)
  qed (simp add: path_is_abs_def has_prefix_def)
  with False show ?thesis by (simp add: path_clean_def path_is_abs_def has_prefix_def Let_def)
qed (use path_clean_components in \<open>simp add: path_clean_def abs_path_def path_is_abs_def has_prefix_def\<close>)

subsection \<open>Printed times\<close>

definition clock_ok :: "time \<Rightarrow> bool" where
  "clock_ok t \<longleftrightarrow> 0 \<le> time_year UTC t \<and> time_year UTC t < 10000"

lemma pad_chars: "0 \<le> i \<Longrightarrow> i < 10 ^ w \<Longrightarrow> 0 < w \<Longrightarrow> length (pad w i) = w \<and> list_all is_digit (pad w i)"
  by (simp add: pad_facts)

lemma clock_range: "(c::int) = x mod 86400 \<Longrightarrow> 0 \<le> c div 3600 \<and> c div 3600 < 24 \<and> 0 \<le> c div 60 mod 60 \<and> c div 60 mod 60 < 60 \<and> 0 \<le> c mod 60 \<and> c mod 60 < 60"
  using pos_mod_bound [of 86400 x] pos_mod_sign [of 86400 x] by auto

lemma date_range:
  assumes "time_date loc t = (y, m, d)"
  shows "1 \<le> m" "m \<le> 12" "1 \<le> d" "d \<le> days_in y m" "d < 100"
proof -
  note f = civil_of_day_month [OF assms(1) [unfolded time_date_def]]
  have "month_start (12 * y + m) = month_start (12 * y + m - 1) + days_in y m"
    using month_start_Suc12 [of "m - 1" y] f(1,2) by (simp add: algebra_simps)
  then show len: "d \<le> days_in y m" using f(5) by simp
  show "1 \<le> m" "m \<le> 12" "1 \<le> d" using f by auto
  with len days_in_range [of m y] show "d < 100" by simp
qed

lemma getlit_Cons [simp]: "getlit c (c # s) = Some s"
  by (simp add: getlit_def)

lemma getnum_pad_False: "0 \<le> i \<Longrightarrow> i < 100 \<Longrightarrow> getnum False (pad 2 i @ r) = Some (i, r)"
proof -
  assume i: "0 \<le> i" "i < 100"
  note f = pad_facts [of i 2]
  obtain a b where p: "pad 2 i = [a, b]" using f(1) i by (auto simp: numeral_2_eq_2 length_Suc_conv)
  have "is_digit a" "is_digit b" "int (undec [a, b] 0) = i" using f(2,3) i by (simp_all add: p)
  then show ?thesis by (simp add: p digit_val_nat)
qed

lemma parse_printed:
  assumes "clock_ok t"
  shows "parse_rfc3339 (format_rfc3339_utc t) \<noteq> None"
proof -
  obtain y m d where ymd: "time_date UTC t = (y, m, d)" by (metis prod_cases3)
  have y: "0 \<le> y" "y < 10000" using assms ymd by (simp_all add: clock_ok_def time_year_def)
  note f = date_range [OF ymd]
  define c where "c = local_secs UTC t mod 86400"
  note r = clock_range [OF c_def]
  have date: "get_date (format_date_only UTC t @ s) = Some ((y, m, d), s)" for s
    using f y by (simp add: format_date_only_def ymd get_date_def get_year_pad getnum_pad)
  have frac: "get_fraction ''Z'' = (0, ''Z'')" by (simp add: get_fraction_def)
  have zone: "get_zone ''Z'' = Some (0, [])" by (simp add: get_zone_def)
  have s60: "\<not> 60 \<le> c mod 60" "\<not> 60 \<le> c div 60 mod 60" by (simp_all add: not_le)
  have "valid_date (y, m, d)" using f by (simp add: valid_date_def)
  then show ?thesis
    using r by (simp add: format_rfc3339_utc_def c_def [symmetric] Let_def parse_rfc3339_def date getnum_pad_False getnum_pad frac zone s60)
qed

lemma digits_visible: "list_all is_digit s \<Longrightarrow> list_all visible s"
  by (auto simp: list_all_iff is_digit_def visible_def)

lemma printed_value:
  assumes "clock_ok t"
  shows "value_ok (format_rfc3339_utc t)" "format_rfc3339_utc t \<noteq> []"
proof -
  obtain y m d where ymd: "time_date UTC t = (y, m, d)" by (metis prod_cases3)
  have y: "0 \<le> y" "y < 10 ^ 4" using assms ymd by (simp_all add: clock_ok_def time_year_def)
  note f = date_range [OF ymd]
  define c where "c = local_secs UTC t mod 86400"
  note r = clock_range [OF c_def]
  have two: "length (pad 2 i) = 2 \<and> list_all is_digit (pad 2 i)" if "0 \<le> i" "i < 100" for i using pad_chars [of i 2] that by simp
  have four: "length (pad 4 y) = 4 \<and> list_all is_digit (pad 4 y)" using pad_chars [of y 4] y by simp
  have eq: "format_rfc3339_utc t = pad 4 y @ ''-'' @ pad 2 m @ ''-'' @ pad 2 d @ ''T'' @ pad 2 (c div 3600) @ '':'' @ pad 2 (c div 60 mod 60)
      @ '':'' @ pad 2 (c mod 60) @ ''Z''"
    by (simp add: format_rfc3339_utc_def c_def [symmetric] Let_def format_date_only_def ymd)
  have "list_all visible (format_rfc3339_utc t)" "length (format_rfc3339_utc t) < 60000"
    unfolding eq using f r four two [of m] two [of d] two [of "c div 3600"] two [of "c div 60 mod 60"] two [of "c mod 60"]
    by (simp_all add: digits_visible visible_def)
  then show "value_ok (format_rfc3339_utc t)" by (rule visible_value)
  show "format_rfc3339_utc t \<noteq> []" by (simp add: eq)
qed

end
