(* ===== verification/Update_Safety.thy ===== *)
theory Update_Safety
  imports Update_Triples Update_Paths
begin

text \<open>
  Crash safety of the updater. Every state an update can be left in -- by an error of any operation or by the
  death of the updater between two of them -- satisfies one invariant, from which the server that runs
  always matches the schema of the database and from which recovery completes the update or undoes it.
\<close>

subsection \<open>States of an update\<close>

definition txn_file :: "updateTransaction \<Rightarrow> string" where
  "txn_file t = write_fields (transaction_fields t)"

definition on_disk :: "updateTransaction \<Rightarrow> host \<Rightarrow> bool" where
  "on_disk t h \<longleftrightarrow> (\<exists>p. validUpdatePhase p \<and> p \<noteq> PhaseDone \<and> h_txn h = Some (txn_file (t\<lparr>Txn_Phase := p\<rparr>)))"

definition status_entry :: "string \<times> string \<Rightarrow> bool" where
  "status_entry = (\<lambda>(j, file). \<exists>item. file = writeUpdateStatusFile item \<and> status_ok item \<and> SF_ID item = j)"

definition statuses :: "host \<Rightarrow> bool" where
  "statuses h \<longleftrightarrow> list_all status_entry (h_status h)"

definition reporting :: "reporter \<Rightarrow> string \<Rightarrow> host \<Rightarrow> bool" where
  "reporting rep j h \<longleftrightarrow> statuses h \<and> (rep = JobReporter \<longrightarrow> status_ok (h_item h) \<and> SF_ID (h_item h) = j)"

definition served :: "host \<Rightarrow> bool" where
  "served h \<longleftrightarrow> h_running h = None \<or> h_running h = Some (h_schema h) \<and> \<not> h_migrating h"

definition blocked :: "host \<Rightarrow> bool" where
  "blocked h \<longleftrightarrow> h_block h \<noteq> None \<and> (h_systemd h \<longrightarrow> h_guard h)"

definition kept :: "updateTransaction \<Rightarrow> host \<Rightarrow> bool" where
  "kept t h \<longleftrightarrow> (h_systemd h \<longrightarrow> Txn_ServiceManager t = ''systemd'')"

definition link_entry :: "entry option \<Rightarrow> bool" where
  "link_entry e = (case e of None \<Rightarrow> True | Some (Link _) \<Rightarrow> True | Some _ \<Rightarrow> False)"

definition linked :: "host \<Rightarrow> bool" where
  "linked h \<longleftrightarrow> list_all (\<lambda>(name, target). link_entry (h_home h name)) install_aliases"

definition bin_linked :: "host \<Rightarrow> bool" where
  "bin_linked h \<longleftrightarrow> (\<exists>l. h_home h bin_alias = Some (Link l))"

definition released :: "host \<Rightarrow> string \<Rightarrow> bool" where
  "released h target \<longleftrightarrow> target \<in> set (map (\<lambda>n. ''releases/'' @ n) (h_releases h))"

definition entry_safe :: "host \<Rightarrow> bool" where
  "entry_safe h \<longleftrightarrow> blocked h \<or> entry_binary h = None \<or> entry_binary h = Some (h_schema h)"

definition restorable :: "updateTransaction \<Rightarrow> host \<Rightarrow> bool" where
  "restorable t h \<longleftrightarrow>
     (if Txn_Legacy t
      then \<exists>src c. backup_of h (Txn_BackupDir t) = Some src \<and> src bin_alias = Some (Tree c) \<and> h_schema h = LegacyBinary c
      else h_schema h = ReleaseBinary (Txn_PreviousTarget t) \<and> released h (Txn_PreviousTarget t) \<and>
           (blocked h \<or> h_current h = Some (Txn_PreviousTarget t)))"

definition prepared_base :: "reporter \<Rightarrow> updateTransaction \<Rightarrow> host \<Rightarrow> bool" where
  "prepared_base rep t h \<longleftrightarrow> \<not> Txn_MigrationStarted t \<and> reporting rep (Txn_JobID t) h \<and> on_disk t h \<and> kept t h \<and> served h \<and> \<not> h_migrating h \<and>
     released h (Txn_CandidateTarget t) \<and> restorable t h"

definition prepared :: "reporter \<Rightarrow> updateTransaction \<Rightarrow> host \<Rightarrow> bool" where
  "prepared rep t h \<longleftrightarrow> prepared_base rep t h \<and> (if Txn_Legacy t then entry_safe h else linked h \<and> bin_linked h)"

definition forward_base :: "reporter \<Rightarrow> updateTransaction \<Rightarrow> host \<Rightarrow> bool" where
  "forward_base rep t h \<longleftrightarrow> Txn_MigrationStarted t \<and> reporting rep (Txn_JobID t) h \<and> on_disk t h \<and> kept t h \<and> served h \<and>
     released h (Txn_CandidateTarget t) \<and> h_current h = Some (Txn_CandidateTarget t) \<and>
     (blocked h \<or> \<not> h_migrating h \<and> h_schema h = ReleaseBinary (Txn_CandidateTarget t))"

definition forward :: "reporter \<Rightarrow> updateTransaction \<Rightarrow> host \<Rightarrow> bool" where
  "forward rep t h \<longleftrightarrow> forward_base rep t h \<and> linked h \<and> bin_linked h"

definition good_target :: "string option \<Rightarrow> bool" where
  "good_target cur = (case cur of None \<Rightarrow> True | Some t \<Rightarrow> validReleaseTarget t \<and> value_ok t)"

definition settled :: "host \<Rightarrow> bool" where
  "settled h \<longleftrightarrow> h_block h = None \<and> \<not> h_migrating h \<and> entry_binary h = Some (h_schema h) \<and> served h \<and>
     good_target (h_current h) \<and> (h_current h \<noteq> None \<longrightarrow> linked h)"

definition finished :: "reporter \<Rightarrow> updateTransaction \<Rightarrow> host \<Rightarrow> bool" where
  "finished rep t h \<longleftrightarrow> reporting rep (Txn_JobID t) h \<and> h_txn h = Some (txn_file (t\<lparr>Txn_Phase := PhaseDone\<rparr>)) \<and> settled h"

definition candidate_named :: "updateTransaction \<Rightarrow> bool" where
  "candidate_named t \<longleftrightarrow> Txn_CandidateTarget t = ''releases/'' @ path_base (Txn_CandidateDir t)"

lemma candidate_named_update [simp]:
  "candidate_named (t\<lparr>Txn_Phase := p\<rparr>) = candidate_named t" "candidate_named (t\<lparr>Txn_MigrationStarted := b\<rparr>) = candidate_named t"
  by (simp_all add: candidate_named_def)

definition txn_fits :: "installPaths \<Rightarrow> updateTransaction \<Rightarrow> bool" where
  "txn_fits paths t \<longleftrightarrow> txn_ok t \<and> validateTransactionPaths paths t = [] \<and> Txn_CandidateTarget t \<noteq> [] \<and>
     candidate_named t \<and>
     (Txn_Legacy t \<longrightarrow> pathWithin (path_dir (ip_home paths)) (Txn_BackupDir t)) \<and>
     (\<not> Txn_Legacy t \<longrightarrow> Txn_PreviousTarget t \<noteq> [] \<and> Txn_PreviousTarget t \<noteq> Txn_CandidateTarget t)"

definition consistent :: "installPaths \<Rightarrow> host \<Rightarrow> bool" where
  "consistent paths h \<longleftrightarrow> statuses h \<and>
     (h_txn h = None \<and> settled h \<or>
      (\<exists>t. txn_fits paths t \<and> (prepared TextReporter t h \<or> forward TextReporter t h \<or> finished TextReporter t h)))"

lemmas state_defs = prepared_base_def prepared_def forward_base_def forward_def settled_def finished_def restorable_def entry_safe_def

lemmas part_defs = on_disk_def statuses_def reporting_def served_def blocked_def kept_def linked_def bin_linked_def released_def
  entry_binary_def backup_of_def

text \<open>What a predicate does not look at does not change it.\<close>

lemma frame [simp]:
  "entry_binary (h\<lparr>h_marker := mk\<rparr>) = entry_binary h" "entry_binary (h\<lparr>h_temp := tp\<rparr>) = entry_binary h"
  "entry_binary (h\<lparr>h_txn := tx\<rparr>) = entry_binary h" "entry_binary (h\<lparr>h_block := bl\<rparr>) = entry_binary h"
  "entry_binary (h\<lparr>h_guard := gd\<rparr>) = entry_binary h" "entry_binary (h\<lparr>h_status := st\<rparr>) = entry_binary h"
  "entry_binary (h\<lparr>h_item := it\<rparr>) = entry_binary h" "entry_binary (h\<lparr>h_running := rn\<rparr>) = entry_binary h"
  "entry_binary (h\<lparr>h_schema := sc\<rparr>) = entry_binary h" "entry_binary (h\<lparr>h_migrating := mg\<rparr>) = entry_binary h"
  "linked (h\<lparr>h_current := cu\<rparr>) = linked h" "linked (h\<lparr>h_marker := mk\<rparr>) = linked h"
  "linked (h\<lparr>h_releases := rl\<rparr>) = linked h" "linked (h\<lparr>h_temp := tp\<rparr>) = linked h"
  "linked (h\<lparr>h_txn := tx\<rparr>) = linked h" "linked (h\<lparr>h_block := bl\<rparr>) = linked h"
  "linked (h\<lparr>h_guard := gd\<rparr>) = linked h" "linked (h\<lparr>h_status := st\<rparr>) = linked h"
  "linked (h\<lparr>h_item := it\<rparr>) = linked h" "linked (h\<lparr>h_running := rn\<rparr>) = linked h"
  "linked (h\<lparr>h_schema := sc\<rparr>) = linked h" "linked (h\<lparr>h_migrating := mg\<rparr>) = linked h"
  "bin_linked (h\<lparr>h_current := cu\<rparr>) = bin_linked h" "bin_linked (h\<lparr>h_marker := mk\<rparr>) = bin_linked h"
  "bin_linked (h\<lparr>h_releases := rl\<rparr>) = bin_linked h" "bin_linked (h\<lparr>h_temp := tp\<rparr>) = bin_linked h"
  "bin_linked (h\<lparr>h_txn := tx\<rparr>) = bin_linked h" "bin_linked (h\<lparr>h_block := bl\<rparr>) = bin_linked h"
  "bin_linked (h\<lparr>h_guard := gd\<rparr>) = bin_linked h" "bin_linked (h\<lparr>h_status := st\<rparr>) = bin_linked h"
  "bin_linked (h\<lparr>h_item := it\<rparr>) = bin_linked h" "bin_linked (h\<lparr>h_running := rn\<rparr>) = bin_linked h"
  "bin_linked (h\<lparr>h_schema := sc\<rparr>) = bin_linked h" "bin_linked (h\<lparr>h_migrating := mg\<rparr>) = bin_linked h"
  "released (h\<lparr>h_home := hm\<rparr>) g = released h g" "released (h\<lparr>h_current := cu\<rparr>) g = released h g"
  "released (h\<lparr>h_marker := mk\<rparr>) g = released h g" "released (h\<lparr>h_temp := tp\<rparr>) g = released h g"
  "released (h\<lparr>h_txn := tx\<rparr>) g = released h g" "released (h\<lparr>h_block := bl\<rparr>) g = released h g"
  "released (h\<lparr>h_guard := gd\<rparr>) g = released h g" "released (h\<lparr>h_status := st\<rparr>) g = released h g"
  "released (h\<lparr>h_item := it\<rparr>) g = released h g" "released (h\<lparr>h_running := rn\<rparr>) g = released h g"
  "released (h\<lparr>h_schema := sc\<rparr>) g = released h g" "released (h\<lparr>h_migrating := mg\<rparr>) g = released h g"
  "blocked (h\<lparr>h_home := hm\<rparr>) = blocked h" "blocked (h\<lparr>h_current := cu\<rparr>) = blocked h"
  "blocked (h\<lparr>h_marker := mk\<rparr>) = blocked h" "blocked (h\<lparr>h_releases := rl\<rparr>) = blocked h"
  "blocked (h\<lparr>h_temp := tp\<rparr>) = blocked h" "blocked (h\<lparr>h_txn := tx\<rparr>) = blocked h"
  "blocked (h\<lparr>h_status := st\<rparr>) = blocked h" "blocked (h\<lparr>h_item := it\<rparr>) = blocked h"
  "blocked (h\<lparr>h_running := rn\<rparr>) = blocked h" "blocked (h\<lparr>h_schema := sc\<rparr>) = blocked h"
  "blocked (h\<lparr>h_migrating := mg\<rparr>) = blocked h" "served (h\<lparr>h_home := hm\<rparr>) = served h"
  "served (h\<lparr>h_current := cu\<rparr>) = served h" "served (h\<lparr>h_marker := mk\<rparr>) = served h"
  "served (h\<lparr>h_releases := rl\<rparr>) = served h" "served (h\<lparr>h_temp := tp\<rparr>) = served h"
  "served (h\<lparr>h_txn := tx\<rparr>) = served h" "served (h\<lparr>h_block := bl\<rparr>) = served h"
  "served (h\<lparr>h_guard := gd\<rparr>) = served h" "served (h\<lparr>h_status := st\<rparr>) = served h"
  "served (h\<lparr>h_item := it\<rparr>) = served h" "statuses (h\<lparr>h_home := hm\<rparr>) = statuses h"
  "statuses (h\<lparr>h_current := cu\<rparr>) = statuses h" "statuses (h\<lparr>h_marker := mk\<rparr>) = statuses h"
  "statuses (h\<lparr>h_releases := rl\<rparr>) = statuses h" "statuses (h\<lparr>h_temp := tp\<rparr>) = statuses h"
  "statuses (h\<lparr>h_txn := tx\<rparr>) = statuses h" "statuses (h\<lparr>h_block := bl\<rparr>) = statuses h"
  "statuses (h\<lparr>h_guard := gd\<rparr>) = statuses h" "statuses (h\<lparr>h_item := it\<rparr>) = statuses h"
  "statuses (h\<lparr>h_running := rn\<rparr>) = statuses h" "statuses (h\<lparr>h_schema := sc\<rparr>) = statuses h"
  "statuses (h\<lparr>h_migrating := mg\<rparr>) = statuses h" "backup_of (h\<lparr>h_home := hm\<rparr>) dir = backup_of h dir"
  "on_disk t (h\<lparr>h_home := hm\<rparr>) = on_disk t h" "kept t (h\<lparr>h_home := hm\<rparr>) = kept t h"
  "reporting rep j (h\<lparr>h_home := hm\<rparr>) = reporting rep j h" "backup_of (h\<lparr>h_current := cu\<rparr>) dir = backup_of h dir"
  "on_disk t (h\<lparr>h_current := cu\<rparr>) = on_disk t h" "kept t (h\<lparr>h_current := cu\<rparr>) = kept t h"
  "reporting rep j (h\<lparr>h_current := cu\<rparr>) = reporting rep j h" "backup_of (h\<lparr>h_marker := mk\<rparr>) dir = backup_of h dir"
  "on_disk t (h\<lparr>h_marker := mk\<rparr>) = on_disk t h" "kept t (h\<lparr>h_marker := mk\<rparr>) = kept t h"
  "reporting rep j (h\<lparr>h_marker := mk\<rparr>) = reporting rep j h" "backup_of (h\<lparr>h_releases := rl\<rparr>) dir = backup_of h dir"
  "on_disk t (h\<lparr>h_releases := rl\<rparr>) = on_disk t h" "kept t (h\<lparr>h_releases := rl\<rparr>) = kept t h"
  "reporting rep j (h\<lparr>h_releases := rl\<rparr>) = reporting rep j h" "on_disk t (h\<lparr>h_temp := tp\<rparr>) = on_disk t h"
  "kept t (h\<lparr>h_temp := tp\<rparr>) = kept t h" "reporting rep j (h\<lparr>h_temp := tp\<rparr>) = reporting rep j h"
  "backup_of (h\<lparr>h_txn := tx\<rparr>) dir = backup_of h dir" "kept t (h\<lparr>h_txn := tx\<rparr>) = kept t h"
  "reporting rep j (h\<lparr>h_txn := tx\<rparr>) = reporting rep j h" "backup_of (h\<lparr>h_block := bl\<rparr>) dir = backup_of h dir"
  "on_disk t (h\<lparr>h_block := bl\<rparr>) = on_disk t h" "kept t (h\<lparr>h_block := bl\<rparr>) = kept t h"
  "reporting rep j (h\<lparr>h_block := bl\<rparr>) = reporting rep j h" "backup_of (h\<lparr>h_guard := gd\<rparr>) dir = backup_of h dir"
  "on_disk t (h\<lparr>h_guard := gd\<rparr>) = on_disk t h" "kept t (h\<lparr>h_guard := gd\<rparr>) = kept t h"
  "reporting rep j (h\<lparr>h_guard := gd\<rparr>) = reporting rep j h" "backup_of (h\<lparr>h_status := st\<rparr>) dir = backup_of h dir"
  "on_disk t (h\<lparr>h_status := st\<rparr>) = on_disk t h" "kept t (h\<lparr>h_status := st\<rparr>) = kept t h"
  "backup_of (h\<lparr>h_item := it\<rparr>) dir = backup_of h dir" "on_disk t (h\<lparr>h_item := it\<rparr>) = on_disk t h"
  "kept t (h\<lparr>h_item := it\<rparr>) = kept t h" "backup_of (h\<lparr>h_running := rn\<rparr>) dir = backup_of h dir"
  "on_disk t (h\<lparr>h_running := rn\<rparr>) = on_disk t h" "kept t (h\<lparr>h_running := rn\<rparr>) = kept t h"
  "reporting rep j (h\<lparr>h_running := rn\<rparr>) = reporting rep j h" "backup_of (h\<lparr>h_schema := sc\<rparr>) dir = backup_of h dir"
  "on_disk t (h\<lparr>h_schema := sc\<rparr>) = on_disk t h" "kept t (h\<lparr>h_schema := sc\<rparr>) = kept t h"
  "reporting rep j (h\<lparr>h_schema := sc\<rparr>) = reporting rep j h" "backup_of (h\<lparr>h_migrating := mg\<rparr>) dir = backup_of h dir"
  "on_disk t (h\<lparr>h_migrating := mg\<rparr>) = on_disk t h" "kept t (h\<lparr>h_migrating := mg\<rparr>) = kept t h"
  "reporting rep j (h\<lparr>h_migrating := mg\<rparr>) = reporting rep j h"
  by (simp_all add: part_defs cong: option.case_cong entry.case_cong)

subsection \<open>Facts of a transaction\<close>

lemma txn_ok_phase: "txn_ok t \<Longrightarrow> validUpdatePhase p \<Longrightarrow> txn_ok (t\<lparr>Txn_Phase := p\<rparr>)"
  by (simp add: txn_ok_def)

lemma validate_update [simp]:
  "validateTransactionPaths paths (t\<lparr>Txn_Phase := p\<rparr>) = validateTransactionPaths paths t"
  "validateTransactionPaths paths (t\<lparr>Txn_MigrationStarted := b\<rparr>) = validateTransactionPaths paths t"
  by (cases t; simp only: updateTransaction.update_convs updateTransaction.select_convs validateTransactionPaths_def)+

lemma txn_ok_started: "txn_ok (t\<lparr>Txn_MigrationStarted := b\<rparr>) = txn_ok t"
  by (simp add: txn_ok_def)

lemma txn_fits_phase: "txn_fits paths t \<Longrightarrow> validUpdatePhase p \<Longrightarrow> txn_fits paths (t\<lparr>Txn_Phase := p\<rparr>)"
  unfolding txn_fits_def by (simp add: txn_ok_phase)

lemma txn_fits_started: "txn_fits paths t \<Longrightarrow> txn_fits paths (t\<lparr>Txn_MigrationStarted := b\<rparr>)"
  unfolding txn_fits_def by (simp add: txn_ok_started)

lemma txn_fits_target: "txn_fits paths t \<Longrightarrow> validReleaseTarget (Txn_CandidateTarget t) \<and> value_ok (Txn_CandidateTarget t)"
  unfolding txn_fits_def txn_ok_def optional_target_def by blast

lemma txn_fits_previous: "txn_fits paths t \<Longrightarrow> \<not> Txn_Legacy t \<Longrightarrow>
   Txn_PreviousTarget t \<noteq> [] \<and> validReleaseTarget (Txn_PreviousTarget t) \<and> value_ok (Txn_PreviousTarget t) \<and> Txn_PreviousTarget t \<noteq> Txn_CandidateTarget t"
  unfolding txn_fits_def txn_ok_def optional_target_def by blast

lemma txn_read: "txn_ok t \<Longrightarrow> readTransaction (txn_file t) = Inr t \<and> transactionData t = Inr (txn_file t)"
  using read_transaction by (simp add: txn_file_def)

lemma state_phase [simp]:
  "on_disk (t\<lparr>Txn_Phase := p\<rparr>) = on_disk t" "kept (t\<lparr>Txn_Phase := p\<rparr>) = kept t" "restorable (t\<lparr>Txn_Phase := p\<rparr>) = restorable t"
  "prepared rep (t\<lparr>Txn_Phase := p\<rparr>) = prepared rep t" "forward rep (t\<lparr>Txn_Phase := p\<rparr>) = forward rep t"
  "finished rep (t\<lparr>Txn_Phase := p\<rparr>) = finished rep t"
  by (auto simp: state_defs on_disk_def kept_def fun_eq_iff)

lemma valid_phases [simp]:
  "validUpdatePhase PhasePrepared" "validUpdatePhase PhaseStopping" "validUpdatePhase PhaseSwitching" "validUpdatePhase PhaseMigrating"
  "validUpdatePhase PhaseStarting" "validUpdatePhase PhaseCleanup" "validUpdatePhase PhaseDone" "validUpdatePhase PhaseLocked"
  "validUpdatePhase PhaseDownload" "validUpdatePhase PhaseValidate" "validUpdatePhase PhaseQueued"
  by (simp_all add: validUpdatePhase_def updatePhaseOrder_def update_phases)

lemma running_phases [simp]:
  "PhasePrepared \<noteq> PhaseDone" "PhaseStopping \<noteq> PhaseDone" "PhaseSwitching \<noteq> PhaseDone" "PhaseMigrating \<noteq> PhaseDone"
  "PhaseStarting \<noteq> PhaseDone" "PhaseCleanup \<noteq> PhaseDone" "PhaseLocked \<noteq> PhaseDone" "PhaseDownload \<noteq> PhaseDone" "PhaseValidate \<noteq> PhaseDone"
  by (simp_all add: update_phases)

subsection \<open>Status files\<close>

lemma status_entries_update: "list_all status_entry xs \<Longrightarrow> status_entry (j, file) \<Longrightarrow> list_all status_entry (AList.update j file xs)"
  by (induction xs) auto

lemma status_entryI: "status_ok item \<Longrightarrow> SF_ID item = j \<Longrightarrow> status_entry (j, writeUpdateStatusFile item)"
  by (auto simp: status_entry_def)

lemma status_phase: "status_ok item \<Longrightarrow> validUpdatePhase p \<Longrightarrow> status_ok (item\<lparr>SF_Phase := p\<rparr>)"
  by (simp add: status_ok_def)

lemma status_recovery: "status_ok item \<Longrightarrow> value_ok p \<Longrightarrow> status_ok (item\<lparr>SF_RecoveryPath := p\<rparr>)"
  by (simp add: status_ok_def)

lemma reporting_weaken: "reporting rep j h \<Longrightarrow> reporting TextReporter j h"
  by (simp add: reporting_def)

lemma reporting_save: "reporting JobReporter j h \<Longrightarrow> reporting JobReporter j (save_item h)"
  by (auto simp: reporting_def statuses_def save_item_def status_entryI status_entries_update)

subsection \<open>Services\<close>

text \<open>The block, the guard and the service, in the two states of a pending update.\<close>

lemma prepared_guard: "prepared rep t h \<Longrightarrow> prepared rep t (h\<lparr>h_guard := True\<rparr>)"
  by (auto simp: state_defs) (auto simp: blocked_def)

lemma forward_guard: "forward rep t h \<Longrightarrow> forward rep t (h\<lparr>h_guard := True\<rparr>)"
  by (auto simp: state_defs) (auto simp: blocked_def)

lemma prepared_block: "prepared rep t h \<Longrightarrow> prepared rep t (h\<lparr>h_block := Some b\<rparr>)"
  by (auto simp: state_defs) (auto simp: blocked_def)

lemma forward_block: "forward rep t h \<Longrightarrow> forward rep t (h\<lparr>h_block := Some b\<rparr>)"
  by (auto simp: state_defs) (auto simp: blocked_def)

lemma prepared_stop: "prepared rep t h \<Longrightarrow> prepared rep t (h\<lparr>h_running := None\<rparr>)"
  by (auto simp: state_defs served_def)

lemma forward_stop: "forward rep t h \<Longrightarrow> forward rep t (h\<lparr>h_running := None\<rparr>)"
  by (auto simp: state_defs served_def)

lemmas pending_intros = prepared_guard forward_guard prepared_block forward_block prepared_stop forward_stop

lemma run_stop:
  assumes "\<And>h. P h \<Longrightarrow> P (h\<lparr>h_running := None\<rparr>)"
  shows "run faults P (stopDash manager) (\<lambda>_ h. P h \<and> h_running h = None) (\<lambda>h. faults \<and> P h)"
  unfolding stopDash_def
  by (rule run_seq [where S = P], rule run_cases; (rule run_commit run_ret)?) (auto intro!: run_commit assms)

definition guarded :: "updateTransaction \<Rightarrow> host \<Rightarrow> bool" where
  "guarded t h \<longleftrightarrow> (Txn_ServiceManager t = ''systemd'' \<longrightarrow> h_guard h)"

lemma run_guard:
  assumes "\<And>h. P h \<Longrightarrow> P (h\<lparr>h_guard := True\<rparr>)" "systemdConditionPath (ip_blockFile paths) \<noteq> None"
  shows "run faults P (ensureServiceRecoveryGuard paths (Txn_ServiceManager t)) (\<lambda>_ h. P h \<and> guarded t h) (\<lambda>h. faults \<and> P h)"
proof (cases "Txn_ServiceManager t = ''systemd''")
  case True
  have "run faults P (act_seq (commit ''drop-in'' (\<lambda>h. h\<lparr>h_guard := True\<rparr>)) (io ''daemon-reload'')) (\<lambda>_ h. P h \<and> guarded t h) (\<lambda>h. faults \<and> P h)"
    by (rule run_seq [OF run_commit [where Q = "\<lambda>_ h. P h \<and> h_guard h"] run_io]) (auto simp: assms(1) guarded_def)
  then show ?thesis using True assms(2)
    by (auto simp: ensureServiceRecoveryGuard_def intro!: run_seq [OF run_io [where Q = "\<lambda>_. P"]])
qed (simp add: ensureServiceRecoveryGuard_def run_ret guarded_def)

lemma run_block:
  assumes "\<And>h b. P h \<Longrightarrow> P (h\<lparr>h_block := Some b\<rparr>)" "\<And>h. P h \<Longrightarrow> kept t h"
  shows "run faults (\<lambda>h. P h \<and> guarded t h) (writeUpdateBlock j) (\<lambda>_ h. P h \<and> blocked h) (\<lambda>h. faults \<and> P h)"
  unfolding writeUpdateBlock_def
  by (rule run_commit) (use assms in \<open>auto simp: guarded_def blocked_def kept_def\<close>)

lemma run_hold:
  assumes "\<And>h b. T h \<Longrightarrow> T (h\<lparr>h_block := Some b\<rparr>)" "\<And>h. T h \<Longrightarrow> T (h\<lparr>h_running := None\<rparr>)" "e \<noteq> []"
  shows "run faults T (holdDashForRecovery t e) Q T"
  unfolding holdDashForRecovery_def
proof (rule run_bind_try [where S = T and T = T])
  show "run faults T (writeUpdateBlock (Txn_JobID t)) (\<lambda>_. T) T"
    unfolding writeUpdateBlock_def by (rule run_commit) (auto simp: assms(1))
  have stop: "run faults T (stopDash (Txn_ServiceManager t)) (\<lambda>_. T) T"
    by (rule run_conseq [OF run_stop [of T]]) (auto simp: assms(2))
  have "run faults T (act_bind (act_try (stopDash (Txn_ServiceManager t))) (\<lambda>stopErr. act_fail (e @ b @ stopErr))) Q T" for b
    by (rule run_bind_try [OF stop]) (auto intro!: run_fail simp: assms(3))
  then show "run faults T (act_bind (act_try (stopDash (Txn_ServiceManager t))) (\<lambda>stopErr. act_fail (e @ [] @ stopErr))) Q T"
    "run faults T (act_bind (act_try (stopDash (Txn_ServiceManager t))) (\<lambda>stopErr. act_fail (e @ b @ stopErr))) Q T" for b by blast+
qed

lemma run_start_or_hold:
  assumes "\<And>h. P h \<Longrightarrow> P (h\<lparr>h_running := entry_binary h\<rparr>)" "\<And>h. P h \<Longrightarrow> may_start h" "\<And>h. P h \<Longrightarrow> T h"
    "\<And>h b. T h \<Longrightarrow> T (h\<lparr>h_block := Some b\<rparr>)" "\<And>h. T h \<Longrightarrow> T (h\<lparr>h_running := None\<rparr>)"
  shows "run faults P (start_or_hold t) (\<lambda>_. P) (\<lambda>h. faults \<and> T h)"
proof (cases "Txn_ServiceWasActive t")
  case True
  have "run faults P (startDash (Txn_ServiceManager t)) (\<lambda>_. P) (\<lambda>h. faults \<and> T h)"
    unfolding startDash_def
    by (auto intro!: run_ret run_get run_commit [of _ "\<lambda>_. P"] simp: assms run_def [of _ _ "act_fail _"])
  then show ?thesis unfolding start_or_hold_def using True
    by (auto intro!: run_bind_try [where S = P and T = "\<lambda>h. faults \<and> T h"] run_ret run_hold assms(4,5) simp: assms)
qed (simp add: start_or_hold_def run_ret)

lemma run_unblock:
  assumes "\<And>h. P h \<Longrightarrow> h_block h = None \<Longrightarrow> Q h" "\<And>h. P h \<Longrightarrow> Q (h\<lparr>h_block := None\<rparr>)" "\<And>h. P h \<Longrightarrow> R h" "\<And>h. P h \<Longrightarrow> R (h\<lparr>h_block := None\<rparr>)"
  shows "run faults P removeUpdateBlock (\<lambda>_. Q) (\<lambda>h. faults \<and> R h)"
  unfolding removeUpdateBlock_def
  by (rule run_get) (auto intro!: run_ret run_commit simp: assms)

subsection \<open>State files\<close>

lemma run_write_txn:
  assumes "txn_ok t" "\<And>h. P h \<Longrightarrow> Q (h\<lparr>h_txn := Some (txn_file t)\<rparr>)" "\<And>h. P h \<Longrightarrow> R h" "\<And>h. P h \<Longrightarrow> R (h\<lparr>h_txn := Some (txn_file t)\<rparr>)"
  shows "run faults P (writeTransaction t) (\<lambda>_. Q) (\<lambda>h. faults \<and> R h)"
proof -
  have "writeTransaction t = commit ''transaction'' (\<lambda>h. h\<lparr>h_txn := Some (txn_file t)\<rparr>)"
    by (simp add: writeTransaction_def writeTransactionState_def txn_read [OF assms(1)] commit_def)
  then show ?thesis using assms by (auto intro!: run_commit)
qed

definition tracks :: "reporter \<Rightarrow> (host \<Rightarrow> bool) \<Rightarrow> bool" where
  "tracks rep P \<longleftrightarrow> (rep = JobReporter \<longrightarrow> (\<forall>h. P h \<longrightarrow> P (save_item h) \<and>
     (\<forall>p. validUpdatePhase p \<longrightarrow> P (h\<lparr>h_item := (h_item h)\<lparr>SF_Phase := p\<rparr>\<rparr>)) \<and>
     (\<forall>q. value_ok q \<longrightarrow> P (h\<lparr>h_item := (h_item h)\<lparr>SF_RecoveryPath := q\<rparr>\<rparr>))))"

lemma reporting_item:
  "reporting JobReporter j h \<Longrightarrow> validUpdatePhase p \<Longrightarrow> reporting JobReporter j (h\<lparr>h_item := (h_item h)\<lparr>SF_Phase := p\<rparr>\<rparr>)"
  "reporting JobReporter j h \<Longrightarrow> value_ok q \<Longrightarrow> reporting JobReporter j (h\<lparr>h_item := (h_item h)\<lparr>SF_RecoveryPath := q\<rparr>\<rparr>)"
  by (simp_all add: reporting_def status_phase status_recovery)

lemma save_item_frame [simp]:
  "entry_binary (save_item h) = entry_binary h" "linked (save_item h) = linked h" "bin_linked (save_item h) = bin_linked h"
  "released (save_item h) g = released h g" "blocked (save_item h) = blocked h" "served (save_item h) = served h"
  "backup_of (save_item h) dir = backup_of h dir" "on_disk t (save_item h) = on_disk t h" "kept t (save_item h) = kept t h"
  "h_current (save_item h) = h_current h" "h_migrating (save_item h) = h_migrating h" "h_schema (save_item h) = h_schema h"
  "h_block (save_item h) = h_block h" "h_txn (save_item h) = h_txn h" "h_running (save_item h) = h_running h"
  "h_guard (save_item h) = h_guard h"
  by (simp_all add: save_item_def)

lemma tracks_states: "tracks rep (prepared rep t)" "tracks rep (forward rep t)" "tracks rep (finished rep t)"
  by (auto simp: tracks_def state_defs reporting_item reporting_save)

lemma tracks_conj:
  "tracks rep P \<Longrightarrow> (\<And>h. C (save_item h) = C h) \<Longrightarrow> (\<And>h it. C (h\<lparr>h_item := it\<rparr>) = C h) \<Longrightarrow> tracks rep (\<lambda>h. P h \<and> C h)"
  by (auto simp: tracks_def)

lemma run_report:
  assumes "tracks rep P" "rep = JobReporter \<Longrightarrow> faults" "validUpdatePhase p"
  shows "run faults P (report_phase rep p) (\<lambda>_. P) (\<lambda>h. faults \<and> P h)"
proof (cases rep)
  case JobReporter
  have t: "\<And>h. P h \<Longrightarrow> P (save_item h)" "\<And>h. P h \<Longrightarrow> P (h\<lparr>h_item := (h_item h)\<lparr>SF_Phase := p\<rparr>\<rparr>)"
    using assms(1,3) JobReporter by (auto simp: tracks_def)
  have "run faults P (act_seq (set_item (SF_Phase_update (\<lambda>_. p))) (commit ''status'' save_item)) (\<lambda>_. P) (\<lambda>h. faults \<and> P h)"
    by (rule run_seq [OF run_set_item [where Q = "\<lambda>_. P"] run_commit]) (auto simp: t)
  then show ?thesis
    using JobReporter assms(2) by (auto simp: report_phase_def intro!: run_fail run_get elim: run_pre)
qed (simp add: report_phase_def run_ret)

lemma runs_recovery_path:
  assumes "tracks JobReporter P" "optional_clean p" "p \<noteq> []"
  shows "runs faults P (setRecoveryPath p) (\<lambda>_. P) E P"
proof -
  have t: "\<And>h. P h \<Longrightarrow> P (save_item h)" "\<And>h. P h \<Longrightarrow> P (h\<lparr>h_item := (h_item h)\<lparr>SF_RecoveryPath := path_clean p\<rparr>\<rparr>)"
    using assms by (auto simp: tracks_def optional_clean_def)
  have "run faults P (commit ''status'' save_item) (\<lambda>_. P) P" by (rule run_commit) (auto simp: t)
  then have "runs faults P (commit ''status'' save_item) (\<lambda>_. P) P P" by (rule runs_of_run)
  then have "runs faults P (act_try (commit ''status'' save_item)) (\<lambda>e h. if e = [] then P h else P h) E P" by (rule runs_try)
  then show ?thesis unfolding setRecoveryPath_def
    by (intro runs_seq [OF runs_set_item [where Q = "\<lambda>_. P"]] runs_bind [OF _ runs_ret]) (auto simp: t)
qed

lemma run_recovery_path: "tracks JobReporter P \<Longrightarrow> optional_clean p \<Longrightarrow> p \<noteq> [] \<Longrightarrow> run faults P (setRecoveryPath p) (\<lambda>_. P) P"
  by (rule run_of_runs [OF runs_recovery_path]) auto

lemma run_reach:
  assumes "tracks rep P" "rep = JobReporter \<Longrightarrow> faults" "validUpdatePhase p" "p \<noteq> PhaseDone" "txn_ok t"
    "\<And>h q. P h \<Longrightarrow> validUpdatePhase q \<Longrightarrow> q \<noteq> PhaseDone \<Longrightarrow> P (h\<lparr>h_txn := Some (txn_file (t\<lparr>Txn_Phase := q\<rparr>))\<rparr>)"
  shows "run faults P (reachPhase t p rep)
    (\<lambda>(t', e) h. P h \<and> (e \<noteq> [] \<longrightarrow> faults) \<and> (\<exists>q. validUpdatePhase q \<and> t' = t\<lparr>Txn_Phase := q\<rparr>)) (\<lambda>h. faults \<and> P h)"
proof -
  have ph: "updatePhaseOrder (Txn_Phase t) \<ge> 0" "updatePhaseOrder p \<ge> 0" using assms(3,5) by (simp_all add: txn_ok_def validUpdatePhase_def)
  have self: "t = t\<lparr>Txn_Phase := Txn_Phase t\<rparr>" "validUpdatePhase (Txn_Phase t)" using assms(5) by (simp_all add: txn_ok_def)
  let ?go = "updatePhaseOrder p > updatePhaseOrder (Txn_Phase t)"
  let ?t = "if ?go then t\<lparr>Txn_Phase := p\<rparr> else t"
  have t': "\<exists>q. validUpdatePhase q \<and> ?t = t\<lparr>Txn_Phase := q\<rparr>" using self assms(3) by metis
  have "run faults P (writeTransaction (t\<lparr>Txn_Phase := p\<rparr>)) (\<lambda>_. P) (\<lambda>h. faults \<and> P h)"
    by (rule run_write_txn) (use assms in \<open>auto simp: txn_ok_phase\<close>)
  then have "run faults P (act_seq (if ?go then writeTransaction ?t else act_ret ()) (report_phase rep p)) (\<lambda>_. P) (\<lambda>h. faults \<and> P h)"
    by (intro run_seq [OF _ run_report [OF assms(1-3)]]) (auto intro!: run_ret)
  then have "run faults P (act_bind (act_try (act_seq (if ?go then writeTransaction ?t else act_ret ()) (report_phase rep p))) (\<lambda>e. act_ret (?t, e)))
    (\<lambda>(t', e) h. P h \<and> (e \<noteq> [] \<longrightarrow> faults) \<and> (\<exists>q. validUpdatePhase q \<and> t' = t\<lparr>Txn_Phase := q\<rparr>)) (\<lambda>h. faults \<and> P h)"
    using t' by (auto intro!: run_bind_try run_ret simp del: if_split)
  then show ?thesis unfolding reachPhase_def Let_def using ph assms(4) self
    by (auto intro!: run_ret simp del: if_split split: if_split_asm simp: if_split)
qed

subsection \<open>Entries of the home\<close>

text \<open>An assertion that does not look at the home.\<close>

definition home_free :: "(host \<Rightarrow> bool) \<Rightarrow> bool" where
  "home_free P \<longleftrightarrow> (\<forall>h t. P h \<longrightarrow> P (h\<lparr>h_home := t\<rparr>))"

lemma home_freeD: "home_free P \<Longrightarrow> P h \<Longrightarrow> P (h\<lparr>h_home := t\<rparr>)"
  by (simp add: home_free_def)

lemma alias_names: "map fst install_aliases = [bin_alias, ''dist'', ''deploy'', ''install_dash_linux.sh'', ''update_dash_linux.sh'',
    ''release.env'', ''configs/config.example.yaml'']"
  by (simp add: install_aliases_def)

lemma linked_update: "linked h \<Longrightarrow> linked (h\<lparr>h_home := (h_home h)(name \<mapsto> Link target)\<rparr>)"
  by (auto simp: linked_def list_all_iff link_entry_def)

lemma bin_linked_update: "bin_linked h \<Longrightarrow> bin_linked (h\<lparr>h_home := (h_home h)(name \<mapsto> Link target)\<rparr>)"
  by (auto simp: bin_linked_def)

lemma run_aliases_linked:
  assumes "home_free P"
  shows "run faults (\<lambda>h. P h \<and> linked h \<and> bin_linked h) (installCompatibilityAliases rl)
    (\<lambda>_ h. P h \<and> linked h \<and> bin_linked h) (\<lambda>h. faults \<and> P h \<and> linked h \<and> bin_linked h)"
  unfolding installCompatibilityAliases_def
proof (rule run_seq)
  let ?I = "\<lambda>h. P h \<and> linked h \<and> bin_linked h"
  show "run faults ?I (act_each (replaceInstallAlias rl) install_aliases) (\<lambda>_. ?I) (\<lambda>h. faults \<and> ?I h)"
  proof (rule run_each [where I = "\<lambda>_. ?I"])
    fix x :: "string \<times> string" and ys :: "(string \<times> string) list"
    assume x: "x \<in> set install_aliases"
    obtain name target where nt: "x = (name, target)" by fastforce
    have link: "link_entry (h_home h name)" if "linked h" for h
      using that x nt by (auto simp: linked_def list_all_iff)
    have "run faults (\<lambda>h. ?I h \<and> h_home h name = e)
      (act_seq (case e of None \<Rightarrow> act_ret () | Some (Link _) \<Rightarrow> act_ret () | Some _ \<Rightarrow> if \<not> rl then act_fail [BadState ''not a symlink''] else remove_tree name)
        (commit ''alias'' (\<lambda>h. h\<lparr>h_home := (h_home h)(name \<mapsto> Link target)\<rparr>))) (\<lambda>_. ?I) (\<lambda>h. faults \<and> ?I h)" for e
    proof (cases "link_entry e")
      case True
      have "run faults ?I (commit ''alias'' (\<lambda>h. h\<lparr>h_home := (h_home h)(name \<mapsto> Link target)\<rparr>)) (\<lambda>_. ?I) (\<lambda>h. faults \<and> ?I h)"
        by (rule run_commit) (auto intro: home_freeD [OF assms] linked_update bin_linked_update)
      with True show ?thesis
        by (auto simp: link_entry_def split: option.splits entry.splits intro!: run_seq [OF run_ret [where Q = "\<lambda>_. ?I"]])
    next
      case False
      then show ?thesis using link by (auto simp: run_def)
    qed
    then show "run faults ?I (replaceInstallAlias rl x) (\<lambda>_. ?I) (\<lambda>h. faults \<and> ?I h)"
      unfolding replaceInstallAlias_def nt prod.case by (rule run_get)
  qed simp_all
  show "run faults ?I tightenInstallPermissions (\<lambda>_. ?I) (\<lambda>h. faults \<and> ?I h)"
    unfolding tightenInstallPermissions_def by (rule run_io) auto
qed

lemma run_remove_tree:
  assumes "home_free P" "\<And>h. C h \<Longrightarrow> C' h" "\<And>h. C h \<Longrightarrow> C' (h\<lparr>h_home := (\<lambda>k. if under root k \<and> h_home h k \<noteq> None then Some Broken else h_home h k)\<rparr>)"
    "\<And>h. C' h \<Longrightarrow> D (h\<lparr>h_home := (\<lambda>k. if under root k then None else h_home h k)\<rparr>)" "\<And>h. D h \<Longrightarrow> C' h"
  shows "run faults (\<lambda>h. P h \<and> C h) (remove_tree root) (\<lambda>_ h. P h \<and> D h) (\<lambda>h. faults \<and> P h \<and> C' h)"
  unfolding remove_tree_def
  by (rule run_seq [where S = "\<lambda>h. P h \<and> C' h"]; rule run_commit) (use assms in \<open>auto intro: home_freeD\<close>)

text \<open>The aliases a run has set so far.\<close>

definition aliased :: "(string \<times> string) list \<Rightarrow> host \<Rightarrow> bool" where
  "aliased rest h \<longleftrightarrow> (\<forall>(name, target) \<in> set install_aliases - set rest. \<exists>l. h_home h name = Some (Link l))"

lemma not_under:
  "(n1, t1) \<in> set install_aliases \<Longrightarrow> (n2, t2) \<in> set install_aliases \<Longrightarrow> n1 \<noteq> n2 \<Longrightarrow> \<not> under n1 n2"
  by (simp only: install_aliases_def list.set insert_iff empty_iff prod.inject, elim disjE conjE)
    (simp_all add: under_def has_prefix_def bin_alias_def)

lemma alias_target: "(n, t1) \<in> set install_aliases \<Longrightarrow> (n, t2) \<in> set install_aliases \<Longrightarrow> t1 = t2"
  by (rule eq_key_imp_eq_value [of install_aliases]) (simp_all add: alias_names bin_alias_def)

lemma aliased_home:
  assumes "aliased (x # ys) h" "x \<in> set install_aliases" "\<And>k. \<not> under (fst x) k \<Longrightarrow> t k = h_home h k"
  shows "aliased (x # ys) (h\<lparr>h_home := t\<rparr>)"
  unfolding aliased_def
proof (rule ballI, clarify)
  fix n tg
  assume "(n, tg) \<in> set install_aliases" "(n, tg) \<notin> set (x # ys)"
  then have n: "(n, tg) \<in> set install_aliases" "(n, tg) \<noteq> x" "(n, tg) \<notin> set ys" by auto
  then have "n \<noteq> fst x" using alias_target assms(2) by (cases x) auto
  then have "\<not> under (fst x) n" using not_under assms(2) n(1) by (cases x) auto
  moreover have "\<exists>l. h_home h n = Some (Link l)" using assms(1) n by (auto simp: aliased_def)
  ultimately show "\<exists>l. h_home (h\<lparr>h_home := t\<rparr>) n = Some (Link l)" using assms(3) by simp
qed

lemma aliased_set: "aliased ((name, tg) # ys) h \<Longrightarrow> aliased ys (h\<lparr>h_home := (h_home h)(name \<mapsto> Link l)\<rparr>)"
  by (fastforce simp: aliased_def)

lemma aliased_Nil: "aliased [] h \<Longrightarrow> linked h \<and> bin_linked h"
  by (auto simp: aliased_def linked_def bin_linked_def list_all_iff link_entry_def install_aliases_def)

lemma run_aliases_removing:
  assumes "home_free P"
  shows "run faults P (installCompatibilityAliases True) (\<lambda>_ h. P h \<and> linked h \<and> bin_linked h) (\<lambda>h. faults \<and> P h)"
  unfolding installCompatibilityAliases_def
proof (rule run_seq)
  let ?Q = "\<lambda>h. P h \<and> linked h \<and> bin_linked h"
  show "run faults ?Q tightenInstallPermissions (\<lambda>_. ?Q) (\<lambda>h. faults \<and> P h)"
    unfolding tightenInstallPermissions_def by (rule run_io) auto
  show "run faults P (act_each (replaceInstallAlias True) install_aliases) (\<lambda>_. ?Q) (\<lambda>h. faults \<and> P h)"
  proof (rule run_each [where I = "\<lambda>rest h. P h \<and> aliased rest h"])
    fix x :: "string \<times> string" and ys :: "(string \<times> string) list"
    assume x: "x \<in> set install_aliases"
    obtain name target where nt: "x = (name, target)" by fastforce
    let ?I = "\<lambda>h. P h \<and> aliased (x # ys) h"
    have set_alias: "run faults ?I (commit ''alias'' (\<lambda>h. h\<lparr>h_home := (h_home h)(name \<mapsto> Link target)\<rparr>)) (\<lambda>_ h. P h \<and> aliased ys h) (\<lambda>h. faults \<and> P h)"
      by (rule run_commit) (auto intro: home_freeD [OF assms] aliased_set simp: nt)
    have "run faults ?I (remove_tree name) (\<lambda>_. ?I) (\<lambda>h. faults \<and> P h \<and> aliased (x # ys) h)"
      by (rule run_remove_tree [OF assms]) (auto intro!: aliased_home [OF _ x [unfolded nt]] simp: nt)
    then have remove: "run faults ?I (remove_tree name) (\<lambda>_. ?I) (\<lambda>h. faults \<and> P h)" by (rule run_conseq) auto
    have "run faults (\<lambda>h. ?I h \<and> h_home h name = e)
      (act_seq (case e of None \<Rightarrow> act_ret () | Some (Link _) \<Rightarrow> act_ret () | Some _ \<Rightarrow> if \<not> True then act_fail [BadState ''not a symlink''] else remove_tree name)
        (commit ''alias'' (\<lambda>h. h\<lparr>h_home := (h_home h)(name \<mapsto> Link target)\<rparr>))) (\<lambda>_ h. P h \<and> aliased ys h) (\<lambda>h. faults \<and> P h)" for e
      by (rule run_seq [OF _ set_alias])
        (auto split: option.splits entry.splits intro!: run_ret run_pre [OF remove])
    then show "run faults ?I (replaceInstallAlias True x) (\<lambda>_ h. P h \<and> aliased ys h) (\<lambda>h. faults \<and> P h)"
      unfolding replaceInstallAlias_def nt prod.case by (rule run_get)
  qed (auto simp: aliased_Nil, simp add: aliased_def)
qed

text \<open>Activation of the candidate: as a step of the update, and again in recovery.\<close>

definition activating :: "reporter \<Rightarrow> updateTransaction \<Rightarrow> host \<Rightarrow> bool" where
  "activating rep t h \<longleftrightarrow> prepared_base rep t h \<and> blocked h \<and> h_running h = None"

lemma activating_free: "home_free (activating rep t)" "home_free (\<lambda>h. activating rep t h \<and> h_current h = cu)"
  by (auto simp: home_free_def activating_def state_defs)

lemma activating_current: "activating rep t h \<Longrightarrow> activating rep t (h\<lparr>h_current := cu\<rparr>)"
  by (auto simp: activating_def state_defs)

lemma activating_prepared: "activating rep t h \<Longrightarrow> (\<not> Txn_Legacy t \<Longrightarrow> linked h \<and> bin_linked h) \<Longrightarrow> prepared rep t h"
  by (auto simp: activating_def prepared_def entry_safe_def)

lemma run_activate:
  assumes "txn_fits paths t"
  shows "run faults (\<lambda>h. prepared rep t h \<and> blocked h \<and> h_running h = None) (activateRelease (Txn_CandidateTarget t) (Txn_Legacy t))
    (\<lambda>_ h. activating rep t h \<and> h_current h = Some (Txn_CandidateTarget t) \<and> linked h \<and> bin_linked h) (\<lambda>h. faults \<and> prepared rep t h)"
proof (cases "Txn_Legacy t")
  case True
  let ?c = "Some (Txn_CandidateTarget t)"
  have "run faults (activating rep t) (switchCurrent (Txn_CandidateTarget t)) (\<lambda>_ h. activating rep t h \<and> h_current h = ?c) (\<lambda>h. faults \<and> activating rep t h)"
    using txn_fits_target [OF assms] by (auto simp: switchCurrent_def intro!: run_commit activating_current)
  moreover have "run faults (\<lambda>h. activating rep t h \<and> h_current h = ?c) (installCompatibilityAliases True)
      (\<lambda>_ h. (activating rep t h \<and> h_current h = ?c) \<and> linked h \<and> bin_linked h) (\<lambda>h. faults \<and> activating rep t h)"
    by (rule run_conseq [OF run_aliases_removing [OF activating_free(2)]]) auto
  moreover have "run faults (\<lambda>h. (activating rep t h \<and> h_current h = ?c) \<and> linked h \<and> bin_linked h) (commit ''marker'' (\<lambda>h. h\<lparr>h_marker := True\<rparr>))
      (\<lambda>_ h. activating rep t h \<and> h_current h = ?c \<and> linked h \<and> bin_linked h) (\<lambda>h. faults \<and> activating rep t h)"
    by (rule run_commit) (auto simp: activating_def state_defs)
  ultimately have "run faults (activating rep t) (activateRelease (Txn_CandidateTarget t) (Txn_Legacy t))
      (\<lambda>_ h. activating rep t h \<and> h_current h = ?c \<and> linked h \<and> bin_linked h) (\<lambda>h. faults \<and> activating rep t h)"
    using txn_fits_target [OF assms] True by (auto simp: activateRelease_def intro!: run_seq)
  then show ?thesis by (rule run_conseq) (use True in \<open>auto intro: activating_prepared, auto simp: activating_def prepared_def\<close>)
next
  case False
  let ?I = "\<lambda>h. activating rep t h \<and> linked h \<and> bin_linked h"
  have "run faults ?I (switchCurrent (Txn_CandidateTarget t)) (\<lambda>_ h. activating rep t h \<and> h_current h = Some (Txn_CandidateTarget t) \<and> linked h \<and> bin_linked h) (\<lambda>h. faults \<and> ?I h)"
    using txn_fits_target [OF assms] by (auto simp: switchCurrent_def intro!: run_commit activating_current)
  then have "run faults ?I (activateRelease (Txn_CandidateTarget t) (Txn_Legacy t))
      (\<lambda>_ h. activating rep t h \<and> h_current h = Some (Txn_CandidateTarget t) \<and> linked h \<and> bin_linked h) (\<lambda>h. faults \<and> ?I h)"
    using txn_fits_target [OF assms] False
    by (auto simp: activateRelease_def intro!: run_seq [OF run_aliases_linked [OF activating_free(1)]])
  then show ?thesis by (rule run_conseq) (use False in \<open>auto intro: activating_prepared, auto simp: activating_def prepared_def\<close>)
qed

lemma forward_free: "home_free (\<lambda>h. forward_base rep t h \<and> blocked h \<and> h_running h = None)"
  by (auto simp: home_free_def forward_base_def)

lemma run_reactivate:
  assumes "txn_fits paths t"
  shows "run faults (\<lambda>h. forward rep t h \<and> blocked h \<and> h_running h = None) (activateRelease (Txn_CandidateTarget t) (Txn_Legacy t))
    (\<lambda>_ h. forward rep t h \<and> blocked h \<and> h_running h = None) (\<lambda>h. faults \<and> forward rep t h)"
proof -
  let ?I = "\<lambda>h. (forward_base rep t h \<and> blocked h \<and> h_running h = None) \<and> linked h \<and> bin_linked h"
  have aliases: "run faults ?I (installCompatibilityAliases rl) (\<lambda>_. ?I) (\<lambda>h. faults \<and> ?I h)" for rl
    using run_aliases_linked [OF forward_free] by (rule run_conseq) auto
  have switch: "run faults ?I (switchCurrent (Txn_CandidateTarget t)) (\<lambda>_. ?I) (\<lambda>h. faults \<and> ?I h)"
    using txn_fits_target [OF assms] by (auto simp: switchCurrent_def forward_base_def intro!: run_commit)
  have marker: "run faults ?I (commit ''marker'' (\<lambda>h. h\<lparr>h_marker := True\<rparr>)) (\<lambda>_. ?I) (\<lambda>h. faults \<and> ?I h)"
    by (rule run_commit) (auto simp: forward_base_def)
  have "run faults ?I (activateRelease (Txn_CandidateTarget t) (Txn_Legacy t)) (\<lambda>_. ?I) (\<lambda>h. faults \<and> ?I h)"
    using txn_fits_target [OF assms] run_seq [OF switch run_seq [OF aliases marker]] run_seq [OF aliases switch] by (simp add: activateRelease_def)
  then show ?thesis by (rule run_conseq) (auto simp: forward_def)
qed

end
