(* ===== verification/Update_Rollback.thy ===== *)
theory Update_Rollback
  imports Update_Safety
begin

text \<open>
  Rolling an update back before its migration, and finishing it after the migration began. Both go through states of a
  pending update only, whatever fails, and both end in a settled host when nothing does.
\<close>

subsection \<open>Restoring a legacy install\<close>

definition former :: "updateTransaction \<Rightarrow> string option" where
  "former t = (if Txn_Legacy t then None else Some (Txn_PreviousTarget t))"

lemma former_phase [simp]: "former (t\<lparr>Txn_Phase := p\<rparr>) = former t"
  by (simp add: former_def)

lemma former_not_candidate: "txn_fits paths t \<Longrightarrow> former t \<noteq> Some (Txn_CandidateTarget t)"
  using txn_fits_previous [of paths t] by (simp add: former_def)

definition restored :: "reporter \<Rightarrow> updateTransaction \<Rightarrow> host \<Rightarrow> bool" where
  "restored rep t h \<longleftrightarrow> prepared rep t h \<and> entry_binary h = Some (h_schema h) \<and> h_current h = former t \<and>
     good_target (h_current h) \<and> (h_current h \<noteq> None \<longrightarrow> linked h)"

lemma legacy_home:
  assumes "Txn_Legacy t" "prepared rep t h" "tr bin_alias = h_home h bin_alias \<or> tr bin_alias = None \<or> tr bin_alias = Some Broken"
  shows "prepared rep t (h\<lparr>h_home := tr\<rparr>)"
proof -
  have "entry_binary (h\<lparr>h_home := tr\<rparr>) = entry_binary h \<or> entry_binary (h\<lparr>h_home := tr\<rparr>) = None"
    using assms(3) by (auto simp: entry_binary_def split: option.splits entry.splits)
  with assms(1,2) show ?thesis by (auto simp: state_defs)
qed

lemma legacy_current: "Txn_Legacy t \<Longrightarrow> prepared rep t h \<Longrightarrow> prepared rep t (h\<lparr>h_current := None\<rparr>)"
proof -
  assume "Txn_Legacy t" "prepared rep t h"
  moreover have "entry_binary (h\<lparr>h_current := None\<rparr>) = entry_binary h \<or> entry_binary (h\<lparr>h_current := None\<rparr>) = None"
    by (auto simp: entry_binary_def split: option.splits entry.splits)
  ultimately show ?thesis by (auto simp: state_defs)
qed

lemma legacy_marker: "prepared rep t h \<Longrightarrow> prepared rep t (h\<lparr>h_marker := m\<rparr>)"
  by (auto simp: state_defs)

lemma legacy_bin:
  assumes "Txn_Legacy t" "prepared rep t h" "tr bin_alias = Some (Tree c)" "h_schema h = LegacyBinary c"
  shows "prepared rep t (h\<lparr>h_home := tr\<rparr>)" "entry_binary (h\<lparr>h_home := tr\<rparr>) = Some (h_schema h)"
proof -
  show "entry_binary (h\<lparr>h_home := tr\<rparr>) = Some (h_schema h)" using assms(3,4) by (simp add: entry_binary_def)
  then show "prepared rep t (h\<lparr>h_home := tr\<rparr>)" using assms(1,2) by (auto simp: state_defs)
qed

lemma backup_names: "set backupNames = set managedLegacyPaths" "distinct backupNames" "bin_alias \<in> set backupNames"
  by (auto simp: backupNames_def managedLegacyPaths_def bin_alias_def)

lemma roots_apart: "r \<in> set backupNames \<Longrightarrow> s \<in> set backupNames \<Longrightarrow> r \<noteq> s \<Longrightarrow> \<not> Update_Install.under r s"
  by (simp only: backupNames_def list.set insert_iff empty_iff, elim disjE)
    (simp_all add: under_def has_prefix_def bin_alias_def)

definition cleared :: "string list \<Rightarrow> host \<Rightarrow> bool" where
  "cleared rest h \<longleftrightarrow> (\<forall>r \<in> set managedLegacyPaths - set rest. \<forall>k. Update_Install.under r k \<longrightarrow> h_home h k = None)"

lemma run_clear:
  assumes "Txn_Legacy t"
  shows "run faults (\<lambda>h. prepared rep t h \<and> backup_of h dir = Some src) (act_each remove_tree managedLegacyPaths)
    (\<lambda>_ h. (prepared rep t h \<and> backup_of h dir = Some src) \<and> cleared [] h) (\<lambda>h. faults \<and> prepared rep t h)"
proof (rule run_each [where I = "\<lambda>rest h. (prepared rep t h \<and> backup_of h dir = Some src) \<and> cleared rest h"])
  fix x ys
  let ?P = "\<lambda>h. prepared rep t h \<and> backup_of h dir = Some src"
  show "run faults (\<lambda>h. ?P h \<and> cleared (x # ys) h) (remove_tree x) (\<lambda>_ h. ?P h \<and> cleared ys h) (\<lambda>h. faults \<and> prepared rep t h)"
    unfolding remove_tree_def
    by (rule run_seq [where S = "\<lambda>h. ?P h \<and> cleared (x # ys) h"]; rule run_commit)
      (auto intro!: legacy_home [OF assms] simp: cleared_def split: if_splits)
qed (auto simp: cleared_def)

definition copied :: "tree \<Rightarrow> string list \<Rightarrow> host \<Rightarrow> bool" where
  "copied src rest h \<longleftrightarrow> distinct rest \<and> set rest \<subseteq> set backupNames \<and> (\<forall>r \<in> set rest. h_home h r = None) \<and>
     (bin_alias \<notin> set rest \<longrightarrow> h_home h bin_alias = src bin_alias)"

lemma run_copies:
  assumes "Txn_Legacy t" "src bin_alias = Some (Tree c)"
  shows "run faults (\<lambda>h. (prepared rep t h \<and> h_schema h = LegacyBinary c \<and> h_current h = None) \<and> (\<forall>r \<in> set backupNames. h_home h r = None))
    (act_each (copy_tree src) (filter (\<lambda>root. src root \<noteq> None) backupNames)) (\<lambda>_. restored rep t) (\<lambda>h. faults \<and> prepared rep t h)"
proof (rule run_each [where I = "\<lambda>rest h. (prepared rep t h \<and> h_schema h = LegacyBinary c \<and> h_current h = None) \<and> copied src rest h"])
  fix x ys
  assume x: "x \<in> set (filter (\<lambda>root. src root \<noteq> None) backupNames)"
  let ?P = "\<lambda>h. prepared rep t h \<and> h_schema h = LegacyBinary c \<and> h_current h = None"
  have under_bin: "Update_Install.under x bin_alias \<longleftrightarrow> x = bin_alias"
    using roots_apart x backup_names(3) by (auto simp: under_def)
  have c1: "prepared rep t (h\<lparr>h_home := (\<lambda>k. if Update_Install.under x k \<and> src k \<noteq> None then Some Broken else h_home h k)\<rparr>)" if "prepared rep t h" for h
    by (rule legacy_home [OF assms(1) that]) simp
  have c2: "prepared rep t (h\<lparr>h_home := (\<lambda>k. if Update_Install.under x k then src k else h_home h k)\<rparr>)" if "?P h" for h
    using that legacy_bin(1) [OF assms(1), of rep h _ c] legacy_home [OF assms(1), of rep h] assms(2) under_bin by (cases "x = bin_alias") auto
  have apart: "r \<in> set backupNames \<Longrightarrow> r \<noteq> x \<Longrightarrow> \<not> Update_Install.under x r" for r using roots_apart [of x r] x by auto
  let ?S = "\<lambda>h. ?P h \<and> distinct (x # ys) \<and> set (x # ys) \<subseteq> set backupNames \<and> (\<forall>r \<in> set ys. h_home h r = None) \<and>
      (bin_alias \<notin> set (x # ys) \<longrightarrow> h_home h bin_alias = src bin_alias)"
  have "run faults (\<lambda>h. ?P h \<and> copied src (x # ys) h)
    (commit ''copy'' (\<lambda>h. h\<lparr>h_home := (\<lambda>k. if Update_Install.under x k \<and> src k \<noteq> None then Some Broken else h_home h k)\<rparr>))
    (\<lambda>_. ?S) (\<lambda>h. faults \<and> prepared rep t h)"
    by (rule run_commit) (use c1 apart under_bin in \<open>auto simp: copied_def\<close>)
  moreover have "run faults ?S (commit ''copy'' (\<lambda>h. h\<lparr>h_home := (\<lambda>k. if Update_Install.under x k then src k else h_home h k)\<rparr>))
    (\<lambda>_ h. ?P h \<and> copied src ys h) (\<lambda>h. faults \<and> prepared rep t h)"
    by (rule run_commit) (use c2 apart under_bin in \<open>auto simp: copied_def\<close>)
  ultimately have "run faults (\<lambda>h. ?P h \<and> copied src (x # ys) h)
    (act_seq (commit ''copy'' (\<lambda>h. h\<lparr>h_home := (\<lambda>k. if Update_Install.under x k \<and> src k \<noteq> None then Some Broken else h_home h k)\<rparr>))
      (commit ''copy'' (\<lambda>h. h\<lparr>h_home := (\<lambda>k. if Update_Install.under x k then src k else h_home h k)\<rparr>)))
    (\<lambda>_ h. ?P h \<and> copied src ys h) (\<lambda>h. faults \<and> prepared rep t h)" by (rule run_seq)
  then show "run faults (\<lambda>h. ?P h \<and> copied src (x # ys) h) (copy_tree src x) (\<lambda>_ h. ?P h \<and> copied src ys h) (\<lambda>h. faults \<and> prepared rep t h)"
    unfolding copy_tree_def by (intro run_get run_cases) (auto simp: copied_def run_def [of _ _ "act_fail _"] elim: run_pre)
next
  fix h
  assume "(prepared rep t h \<and> h_schema h = LegacyBinary c \<and> h_current h = None) \<and> copied src [] h"
  then show "restored rep t h" using assms by (auto simp: restored_def copied_def entry_binary_def good_target_def former_def)
qed (use backup_names assms(2) in \<open>auto simp: copied_def\<close>)

lemma run_restore_legacy:
  assumes "Txn_Legacy t" "txn_fits paths t"
  shows "run faults (prepared rep t) (restoreLegacyInstall paths (Txn_BackupDir t)) (\<lambda>_. restored rep t) (\<lambda>h. faults \<and> prepared rep t h)"
proof -
  have path: "pathWithin (path_dir (ip_home paths)) (Txn_BackupDir t)" using assms by (simp add: txn_fits_def)
  let ?dir = "Txn_BackupDir t"
  have body: "run faults (\<lambda>h. prepared rep t h \<and> backup_of h ?dir = Some src)
      (act_seq (act_each remove_tree managedLegacyPaths)
        (act_seq (commit ''remove current'' (\<lambda>h. h\<lparr>h_current := None\<rparr>))
        (act_seq (commit ''remove marker'' (\<lambda>h. h\<lparr>h_marker := False\<rparr>))
        (act_seq (act_each (copy_tree src) (filter (\<lambda>root. src root \<noteq> None) backupNames)) tightenInstallPermissions))))
      (\<lambda>_. restored rep t) (\<lambda>h. faults \<and> prepared rep t h)" for src
  proof (rule run_seq [OF run_clear [OF assms(1)]])
    let ?S = "\<lambda>h. (prepared rep t h \<and> backup_of h ?dir = Some src) \<and> cleared [] h"
    let ?T = "\<lambda>h. ?S h \<and> h_current h = None"
    have m: "run faults ?T (commit ''remove marker'' (\<lambda>h. h\<lparr>h_marker := False\<rparr>)) (\<lambda>_. ?T) (\<lambda>h. faults \<and> prepared rep t h)"
      by (rule run_commit) (auto simp: cleared_def intro: legacy_marker)
    have c: "run faults ?T (act_each (copy_tree src) (filter (\<lambda>root. src root \<noteq> None) backupNames)) (\<lambda>_. restored rep t) (\<lambda>h. faults \<and> prepared rep t h)"
      unfolding run_def
    proof (intro allI impI)
      fix h
      assume h: "?T h"
      then obtain c where c: "src bin_alias = Some (Tree c)" "h_schema h = LegacyBinary c"
        using assms(1) by (auto simp: prepared_def prepared_base_def restorable_def)
      have "h_home h r = None" if "r \<in> set backupNames" for r using h that backup_names(1) by (auto simp: cleared_def under_def)
      then show "wp faults (act_each (copy_tree src) (filter (\<lambda>root. src root \<noteq> None) backupNames)) (\<lambda>_. restored rep t)
          (\<lambda>e h. e \<noteq> [] \<and> faults \<and> prepared rep t h) (\<lambda>h. faults \<and> prepared rep t h) h"
        using run_copies [where src = src and c = c and faults = faults and rep = rep, OF assms(1) c(1)] h c(2) by (simp add: run_def)
    qed
    have p: "run faults (restored rep t) tightenInstallPermissions (\<lambda>_. restored rep t) (\<lambda>h. faults \<and> prepared rep t h)"
      unfolding tightenInstallPermissions_def by (rule run_io) (auto simp: restored_def)
    show "run faults ?S (act_seq (commit ''remove current'' (\<lambda>h. h\<lparr>h_current := None\<rparr>))
        (act_seq (commit ''remove marker'' (\<lambda>h. h\<lparr>h_marker := False\<rparr>))
        (act_seq (act_each (copy_tree src) (filter (\<lambda>root. src root \<noteq> None) backupNames)) tightenInstallPermissions)))
      (\<lambda>_. restored rep t) (\<lambda>h. faults \<and> prepared rep t h)"
      by (rule run_seq [OF run_commit [where Q = "\<lambda>_. ?T"] run_seq [OF m run_seq [OF c p]]])
        (auto simp: cleared_def intro: legacy_current [OF assms(1)])
  qed
  have some: "backup_of h ?dir \<noteq> None" if "prepared rep t h" for h
    using that assms(1) by (auto simp: prepared_def prepared_base_def restorable_def)
  show ?thesis unfolding restoreLegacyInstall_def
  proof (rule run_cases [OF run_absurd run_get])
    fix b
    show "run faults (\<lambda>h. prepared rep t h \<and> backup_of h ?dir = b)
      (case b of None \<Rightarrow> act_fail [BadState ''legacy backup'']
       | Some src \<Rightarrow>
           act_seq (act_each remove_tree managedLegacyPaths)
             (act_seq (commit ''remove current'' (\<lambda>h. h\<lparr>h_current := None\<rparr>))
             (act_seq (commit ''remove marker'' (\<lambda>h. h\<lparr>h_marker := False\<rparr>))
             (act_seq (act_each (copy_tree src) (filter (\<lambda>root. src root \<noteq> None) backupNames)) tightenInstallPermissions))))
      (\<lambda>_. restored rep t) (\<lambda>h. faults \<and> prepared rep t h)"
      using body by (cases b) (auto intro!: run_absurd dest: some)
  qed (use path in simp)
qed

subsection \<open>Rollback\<close>

lemma run_restore_release:
  assumes "\<not> Txn_Legacy t" "txn_fits paths t"
  shows "run faults (prepared rep t) (act_seq (switchCurrent (Txn_PreviousTarget t)) (installCompatibilityAliases False))
    (\<lambda>_. restored rep t) (\<lambda>h. faults \<and> prepared rep t h)"
proof -
  note prev = txn_fits_previous [OF assms(2,1)]
  let ?P = "\<lambda>h. prepared_base rep t h \<and> h_current h = Some (Txn_PreviousTarget t)"
  have free: "home_free ?P" by (auto simp: home_free_def prepared_base_def restorable_def)
  have "run faults (prepared rep t) (switchCurrent (Txn_PreviousTarget t)) (\<lambda>_ h. ?P h \<and> linked h \<and> bin_linked h) (\<lambda>h. faults \<and> prepared rep t h)"
    using prev assms(1) by (auto simp: switchCurrent_def prepared_def prepared_base_def restorable_def intro!: run_commit)
  moreover have "run faults (\<lambda>h. ?P h \<and> linked h \<and> bin_linked h) (installCompatibilityAliases False) (\<lambda>_. restored rep t) (\<lambda>h. faults \<and> prepared rep t h)"
  proof (rule run_conseq [OF run_aliases_linked [OF free]])
    fix h
    assume "?P h \<and> linked h \<and> bin_linked h"
    then show "restored rep t h" using prev assms(1)
      by (auto simp: restored_def prepared_def prepared_base_def restorable_def good_target_def entry_binary_def bin_linked_def released_def former_def)
  qed (use assms(1) in \<open>auto simp: prepared_def\<close>)
  ultimately show ?thesis by (rule run_seq)
qed

text \<open>Once the transaction is marked as done, removing the candidate and the staging directory changes nothing that matters.\<close>

lemma restored_settled: "restored rep t h \<Longrightarrow> h_block h = None \<Longrightarrow> settled h"
  by (auto simp: restored_def settled_def prepared_def prepared_base_def)

definition undone :: "reporter \<Rightarrow> updateTransaction \<Rightarrow> host \<Rightarrow> bool" where
  "undone rep t h \<longleftrightarrow> finished rep t h \<and> h_current h = former t"

lemma entry_without:
  assumes "entry_binary h = Some b" "h_current h \<noteq> Some (''releases/'' @ n)"
  shows "entry_binary (h\<lparr>h_releases := filter (\<lambda>m. m \<noteq> n) (h_releases h)\<rparr>) = Some b"
  using assms by (auto simp: entry_binary_def split: option.splits entry.splits if_splits)

lemma undone_remove:
  assumes "txn_fits paths t" "undone rep t h"
  shows "undone rep t (h\<lparr>h_releases := filter (\<lambda>m. m \<noteq> path_base (Txn_CandidateDir t)) (h_releases h)\<rparr>)"
proof -
  have "h_current h \<noteq> Some (''releases/'' @ path_base (Txn_CandidateDir t))"
    using former_not_candidate [OF assms(1)] assms unfolding undone_def txn_fits_def candidate_named_def by simp
  then show ?thesis using assms(2) entry_without [of h] by (auto simp: undone_def finished_def settled_def)
qed

lemma undone_temp: "undone rep t h \<Longrightarrow> undone rep t (h\<lparr>h_temp := tp\<rparr>)"
  by (auto simp: undone_def finished_def settled_def)

lemma run_mark_done:
  assumes "txn_fits paths t" "\<And>h. P h \<Longrightarrow> Q (h\<lparr>h_txn := Some (txn_file (t\<lparr>Txn_Phase := PhaseDone\<rparr>))\<rparr>)" "\<And>h. P h \<Longrightarrow> S h"
  shows "run faults P (markTransactionDone t) (\<lambda>_. Q) (\<lambda>h. faults \<and> (S h \<or> Q h))"
  unfolding markTransactionDone_def
  by (rule run_write_txn) (use assms in \<open>auto simp: txn_fits_def txn_ok_phase\<close>)

lemma restored_done:
  "restored rep t h \<Longrightarrow> h_block h = None \<Longrightarrow> undone rep t (h\<lparr>h_txn := Some (txn_file (t\<lparr>Txn_Phase := PhaseDone\<rparr>))\<rparr>)"
  using restored_settled [of rep t h]
  by (auto simp: undone_def finished_def restored_def prepared_def prepared_base_def settled_def)

lemma restored_unblock: "restored rep t h \<Longrightarrow> restored rep t (h\<lparr>h_block := None\<rparr>)"
proof -
  assume r: "restored rep t h"
  have "h_current h = Some (Txn_PreviousTarget t)" if "\<not> Txn_Legacy t"
    using r that by (simp add: restored_def former_def)
  with r show ?thesis by (auto simp: restored_def prepared_def prepared_base_def restorable_def entry_safe_def)
qed

lemma run_rollback_core:
  assumes "txn_fits paths t"
  shows "run faults (prepared rep t)
    (act_seq (if Txn_Legacy t then restoreLegacyInstall paths (Txn_BackupDir t)
              else if Txn_PreviousTarget t \<noteq> [] then act_seq (switchCurrent (Txn_PreviousTarget t)) (installCompatibilityAliases False)
              else act_ret ())
      (act_seq removeUpdateBlock (act_seq (start_or_hold t) (markTransactionDone t))))
    (\<lambda>_. undone rep t) (\<lambda>h. faults \<and> (prepared rep t h \<or> undone rep t h))"
proof -
  let ?S = "\<lambda>h. restored rep t h \<and> h_block h = None"
  let ?R = "\<lambda>h. faults \<and> (prepared rep t h \<or> undone rep t h)"
  have a: "run faults (prepared rep t) (if Txn_Legacy t then restoreLegacyInstall paths (Txn_BackupDir t)
              else if Txn_PreviousTarget t \<noteq> [] then act_seq (switchCurrent (Txn_PreviousTarget t)) (installCompatibilityAliases False)
              else act_ret ()) (\<lambda>_. restored rep t) ?R"
    by (cases "Txn_Legacy t")
      (use txn_fits_previous [OF assms] in \<open>auto intro!: run_weaken [OF run_restore_legacy [OF _ assms]] run_weaken [OF run_restore_release [OF _ assms]]\<close>)
  have "run faults (restored rep t) removeUpdateBlock (\<lambda>_. ?S) (\<lambda>h. faults \<and> restored rep t h)"
    by (rule run_unblock) (auto simp: restored_unblock)
  then have b: "run faults (restored rep t) removeUpdateBlock (\<lambda>_. ?S) ?R" by (rule run_conseq) (auto simp: restored_def)
  have start: "?S (h\<lparr>h_running := entry_binary h\<rparr>)" "may_start h" if "?S h" for h
  proof -
    show "may_start h" using that by (auto simp: may_start_def restored_def)
    show "?S (h\<lparr>h_running := entry_binary h\<rparr>)" using that
      by (auto simp: restored_def prepared_def prepared_base_def restorable_def entry_safe_def served_def)
  qed
  have "run faults ?S (start_or_hold t) (\<lambda>_. ?S) (\<lambda>h. faults \<and> prepared rep t h)"
    by (rule run_start_or_hold) (use start in \<open>auto intro: pending_intros simp: restored_def\<close>)
  then have c: "run faults ?S (start_or_hold t) (\<lambda>_. ?S) ?R" by (rule run_conseq) auto
  have d: "run faults ?S (markTransactionDone t) (\<lambda>_. undone rep t) ?R"
    by (rule run_mark_done [OF assms]) (auto intro: restored_done simp: restored_def)
  show ?thesis by (rule run_seq [OF a run_seq [OF b run_seq [OF c d]]])
qed

lemma run_rollback:
  assumes "txn_fits paths t" "\<not> Txn_MigrationStarted t"
  shows "run faults (prepared rep t) (rollbackBeforeMigration paths t cause)
    (\<lambda>_ h. cause = [] \<and> undone rep t h) (\<lambda>h. faults \<and> prepared rep t h \<or> (faults \<or> cause \<noteq> []) \<and> undone rep t h)"
    (is "run _ _ _ ?Q ?R")
proof -
  have valid: "validateTransactionPaths paths t = []" using assms by (simp add: txn_fits_def)
  have c: "run faults (undone rep t) (remove_candidate t) (\<lambda>_. undone rep t) (\<lambda>h. faults \<and> undone rep t h)"
    unfolding remove_candidate_def by (auto intro!: run_ret run_commit undone_remove [OF assms(1)])
  have s: "run faults (undone rep t) (remove_temp root) (\<lambda>_. undone rep t) (\<lambda>h. faults \<and> undone rep t h)" for root
    unfolding remove_temp_def by (auto intro!: run_ret run_commit undone_temp)
  have e: "run faults (undone rep t) (if cause \<noteq> [] then act_fail (cause @ e1 @ e2) else act_ret ()) ?Q ?R" for e1 e2
    by (auto intro!: run_fail run_ret)
  have e': "run faults (\<lambda>h. faults \<and> undone rep t h) (if cause \<noteq> [] then act_fail (cause @ e1 @ e2) else act_ret ()) ?Q ?R" for e1 e2
    by (auto intro!: run_fail run_ret)
  have tail: "run faults (undone rep t) (act_bind (act_try (remove_temp (Txn_TempRoot t))) (\<lambda>e2. if cause \<noteq> [] then act_fail (cause @ e1 @ e2) else act_ret ())) ?Q ?R" for e1
    by (rule run_bind_try [OF s]; (rule e e')?) auto
  have "run faults (undone rep t) (act_bind (act_try (remove_candidate t)) (\<lambda>e1.
      act_bind (act_try (remove_temp (Txn_TempRoot t))) (\<lambda>e2. if cause \<noteq> [] then act_fail (cause @ e1 @ e2) else act_ret ()))) ?Q ?R"
    by (rule run_bind_try [OF c]; (rule tail run_pre [OF tail])?) auto
  moreover have "e \<noteq> [] \<Longrightarrow> run faults (\<lambda>h. faults \<and> (prepared rep t h \<or> undone rep t h)) (act_fail (cause @ e)) ?Q ?R" for e
    by (auto intro!: run_fail)
  ultimately show ?thesis
    unfolding rollbackBeforeMigration_def using assms(2) valid
    by (simp only: if_False simp_thms) (rule run_bind_try [OF run_rollback_core [OF assms(1)]]; auto)
qed

subsection \<open>Finishing forward\<close>

definition migrated :: "reporter \<Rightarrow> updateTransaction \<Rightarrow> host \<Rightarrow> bool" where
  "migrated rep t h \<longleftrightarrow> forward rep t h \<and> \<not> h_migrating h \<and> h_schema h = ReleaseBinary (Txn_CandidateTarget t)"

lemma migrated_phase [simp]: "migrated rep (t\<lparr>Txn_Phase := p\<rparr>) = migrated rep t"
  by (auto simp: migrated_def fun_eq_iff)

lemma tracks_migrated: "tracks rep (migrated rep t)" "tracks rep (\<lambda>h. migrated rep t h \<and> h_block h = None)"
proof -
  show m: "tracks rep (migrated rep t)"
    unfolding migrated_def by (rule tracks_conj [OF tracks_states(2)]) simp_all
  show "tracks rep (\<lambda>h. migrated rep t h \<and> h_block h = None)" by (rule tracks_conj [OF m]) simp_all
qed

lemma on_disk_write: "validUpdatePhase q \<Longrightarrow> q \<noteq> PhaseDone \<Longrightarrow> on_disk t (h\<lparr>h_txn := Some (txn_file (t\<lparr>Txn_Phase := q\<rparr>))\<rparr>)"
  by (auto simp: on_disk_def)

lemma forward_write: "forward rep t h \<Longrightarrow> validUpdatePhase q \<Longrightarrow> q \<noteq> PhaseDone \<Longrightarrow> forward rep t (h\<lparr>h_txn := Some (txn_file (t\<lparr>Txn_Phase := q\<rparr>))\<rparr>)"
  by (auto simp: forward_def forward_base_def on_disk_write)

lemma prepared_write: "prepared rep t h \<Longrightarrow> validUpdatePhase q \<Longrightarrow> q \<noteq> PhaseDone \<Longrightarrow> prepared rep t (h\<lparr>h_txn := Some (txn_file (t\<lparr>Txn_Phase := q\<rparr>))\<rparr>)"
  by (auto simp: state_defs on_disk_write)

lemma run_migrate:
  assumes "txn_fits paths t"
  shows "run faults (\<lambda>h. forward rep t h \<and> blocked h \<and> h_running h = None) (runCandidateMigration paths t) (\<lambda>_. migrated rep t) (\<lambda>h. faults \<and> forward rep t h)"
proof -
  have within: "pathWithin (ip_releases paths) (Txn_CandidateDir t)"
    using assms by (auto simp: txn_fits_def validateTransactionPaths_def split: if_splits)
  have name: "Txn_CandidateTarget t = ''releases/'' @ path_base (Txn_CandidateDir t)" using assms by (simp add: txn_fits_def candidate_named_def)
  let ?P = "\<lambda>h. forward rep t h \<and> blocked h \<and> h_running h = None"
  have "run faults ?P (commit ''migrate'' (\<lambda>h. h\<lparr>h_migrating := True\<rparr>)) (\<lambda>_. ?P) (\<lambda>h. faults \<and> forward rep t h)"
    by (rule run_commit) (auto simp: forward_def forward_base_def served_def)
  moreover have "run faults ?P (commit ''migrate'' (\<lambda>h. h\<lparr>h_migrating := False, h_schema := ReleaseBinary (''releases/'' @ path_base (Txn_CandidateDir t))\<rparr>))
      (\<lambda>_. migrated rep t) (\<lambda>h. faults \<and> forward rep t h)"
    unfolding name [symmetric] by (rule run_commit) (auto simp: migrated_def forward_def forward_base_def served_def)
  ultimately have go: "run faults ?P (act_seq (commit ''migrate'' (\<lambda>h. h\<lparr>h_migrating := True\<rparr>))
      (commit ''migrate'' (\<lambda>h. h\<lparr>h_migrating := False, h_schema := ReleaseBinary (''releases/'' @ path_base (Txn_CandidateDir t))\<rparr>)))
      (\<lambda>_. migrated rep t) (\<lambda>h. faults \<and> forward rep t h)" by (rule run_seq)
  have present: "path_base (Txn_CandidateDir t) \<in> set (h_releases h)" if "forward rep t h" for h
    using that name by (auto simp: forward_def forward_base_def released_def)
  show ?thesis unfolding runCandidateMigration_def using within
    by (simp only: simp_thms if_False) (rule run_known [where x = True], use present in blast, simp only: simp_thms if_False, rule go)
qed

text \<open>The update arrived at the candidate.\<close>

definition completed :: "reporter \<Rightarrow> updateTransaction \<Rightarrow> host \<Rightarrow> bool" where
  "completed rep t h \<longleftrightarrow> finished rep t h \<and> h_current h = Some (Txn_CandidateTarget t)"

lemma migrated_done:
  "txn_fits paths t \<Longrightarrow> migrated rep t h \<Longrightarrow> h_block h = None \<Longrightarrow> completed rep t (h\<lparr>h_txn := Some (txn_file (t\<lparr>Txn_Phase := PhaseDone\<rparr>))\<rparr>)"
  using txn_fits_target [of paths t]
  by (auto simp: completed_def finished_def migrated_def forward_def forward_base_def settled_def good_target_def entry_binary_def bin_linked_def released_def)

lemma run_finish_forward:
  assumes "txn_fits paths t" "rep = JobReporter \<Longrightarrow> faults"
  shows "run faults (\<lambda>h. forward rep t h \<and> blocked h \<and> h_running h = None) (finishForward paths t rep) (\<lambda>_. completed rep t)
    (\<lambda>h. faults \<and> (forward rep t h \<or> finished rep t h))"
proof -
  let ?R = "\<lambda>h. faults \<and> (forward rep t h \<or> finished rep t h)"
  let ?S = "\<lambda>h. migrated rep t h \<and> h_block h = None"
  have ok: "txn_ok t" using assms(1) by (simp add: txn_fits_def)
  have tail: "run faults ?S (act_seq (act_err e) (markTransactionDone t')) (\<lambda>_. completed rep t) ?R"
    if "e \<noteq> [] \<longrightarrow> faults" "t' = t\<lparr>Txn_Phase := q\<rparr>" "validUpdatePhase q" for t' e q
  proof (rule run_seq [OF run_err [where Q = "\<lambda>_. ?S"]])
    have "run faults ?S (markTransactionDone t') (\<lambda>_. completed rep t) (\<lambda>h. faults \<and> (forward rep t h \<or> completed rep t h))"
      by (rule run_mark_done [of paths]) (use that migrated_done [OF assms(1), of rep] in \<open>auto simp: txn_fits_phase [OF assms(1)] migrated_def\<close>)
    then show "run faults ?S (markTransactionDone t') (\<lambda>_. completed rep t) ?R" by (rule run_weaken) (auto simp: completed_def)
  qed (use that in \<open>auto simp: migrated_def\<close>)
  have cleanup: "run faults ?S (act_bind (reachPhase t' PhaseCleanup rep) (\<lambda>(t', e). act_seq (act_err e) (markTransactionDone t'))) (\<lambda>_. completed rep t) ?R"
    if "t' = t\<lparr>Txn_Phase := q\<rparr>" "validUpdatePhase q" for t' q
  proof (rule run_bind, rule run_weaken [OF run_reach [where t = t' and P = ?S]])
    fix x
    show "run faults ((\<lambda>(t'', e) h. ?S h \<and> (e \<noteq> [] \<longrightarrow> faults) \<and> (\<exists>q. validUpdatePhase q \<and> t'' = t'\<lparr>Txn_Phase := q\<rparr>)) x)
        ((\<lambda>(t', e). act_seq (act_err e) (markTransactionDone t')) x) (\<lambda>_. completed rep t) ?R"
      using that by (cases x) (auto simp: run_def intro!: tail [unfolded run_def, rule_format])
  qed (use that assms tracks_migrated txn_ok_phase [OF ok] in \<open>auto simp: migrated_def intro: forward_write\<close>)
  have start: "run faults ?S (start_or_hold t') (\<lambda>_. ?S) ?R" if "t' = t\<lparr>Txn_Phase := q\<rparr>" for t' q
    by (rule run_weaken [OF run_start_or_hold [where T = "forward rep t"]])
      (use txn_fits_target [OF assms(1)] in \<open>auto simp: migrated_def forward_def forward_base_def served_def may_start_def entry_binary_def bin_linked_def released_def blocked_def\<close>)
  have unblock: "run faults (migrated rep t) removeUpdateBlock (\<lambda>_. ?S) ?R"
    by (rule run_weaken [OF run_unblock [where R = "forward rep t"]]) (auto simp: migrated_def forward_def forward_base_def)
  have rest: "run faults (migrated rep t) (act_seq (act_err e) (act_seq removeUpdateBlock (act_seq (start_or_hold t')
      (act_bind (reachPhase t' PhaseCleanup rep) (\<lambda>(t', e). act_seq (act_err e) (markTransactionDone t')))))) (\<lambda>_. completed rep t) ?R"
    if "e \<noteq> [] \<longrightarrow> faults" "t' = t\<lparr>Txn_Phase := q\<rparr>" "validUpdatePhase q" for t' e q
    by (rule run_seq [OF run_err [where Q = "\<lambda>_. migrated rep t"] run_seq [OF unblock run_seq [OF start cleanup]]])
      (use that in \<open>auto simp: migrated_def\<close>)
  show ?thesis unfolding finishForward_def
  proof (rule run_seq [OF run_weaken [OF run_migrate [OF assms(1)]]], goal_cases)
    case 2
    show ?case
    proof (rule run_bind, rule run_weaken [OF run_reach [where t = t and P = "migrated rep t"]])
      fix x
      show "run faults ((\<lambda>(t'', e) h. migrated rep t h \<and> (e \<noteq> [] \<longrightarrow> faults) \<and> (\<exists>q. validUpdatePhase q \<and> t'' = t\<lparr>Txn_Phase := q\<rparr>)) x)
        ((\<lambda>(t', e). act_seq (act_err e) (act_seq removeUpdateBlock (act_seq (start_or_hold t')
          (act_bind (reachPhase t' PhaseCleanup rep) (\<lambda>(t', e). act_seq (act_err e) (markTransactionDone t')))))) x) (\<lambda>_. completed rep t) ?R"
        by (cases x) (auto simp: run_def intro!: rest [unfolded run_def, rule_format])
    qed (use assms tracks_migrated ok in \<open>auto simp: migrated_def intro: forward_write\<close>)
  qed auto
qed

subsection \<open>Switching\<close>

lemma txn_commute [simp]: "t\<lparr>Txn_Phase := q, Txn_MigrationStarted := b\<rparr> = t\<lparr>Txn_MigrationStarted := b, Txn_Phase := q\<rparr>"
  by (cases t) simp

definition pending :: "reporter \<Rightarrow> updateTransaction \<Rightarrow> host \<Rightarrow> bool" where
  "pending rep t h \<longleftrightarrow> prepared rep t h \<or> forward rep (t\<lparr>Txn_MigrationStarted := True\<rparr>) h \<or> finished rep t h \<or> finished rep (t\<lparr>Txn_MigrationStarted := True\<rparr>) h"

text \<open>A step that failed is rolled back and returns its error.\<close>

definition gave_up :: "reporter \<Rightarrow> updateTransaction \<Rightarrow> updateTransaction \<times> install_error list \<Rightarrow> host \<Rightarrow> bool" where
  "gave_up rep t = (\<lambda>(t', e) h. e \<noteq> [] \<and> pending rep t h \<and> (\<exists>q b. t' = t\<lparr>Txn_Phase := q, Txn_MigrationStarted := b\<rparr>))"

lemma run_failing:
  assumes "txn_fits paths t" "\<not> Txn_MigrationStarted t" "t' = t\<lparr>Txn_Phase := q\<rparr>" "validUpdatePhase q" "e \<noteq> []"
  shows "run faults (prepared rep t) (failing paths t' e) (gave_up rep t) (pending rep t)"
proof -
  have self: "\<exists>q b. t' = t\<lparr>Txn_Phase := q, Txn_MigrationStarted := b\<rparr>"
    by (rule exI [of _ q], rule exI [of _ False]) (use assms(2,3) in \<open>cases t; simp\<close>)
  have st: "prepared rep t' = prepared rep t" "finished rep t' = finished rep t" using assms(3) by simp_all
  have "run faults (prepared rep t') (failing paths t' e) (gave_up rep t) (pending rep t)"
    unfolding failing_def
  proof (rule run_bind_try [OF run_rollback])
    show "txn_fits paths t'" "\<not> Txn_MigrationStarted t'" using assms by (simp_all add: txn_fits_phase)
    fix e' :: "install_error list"
    assume "e' \<noteq> []"
    then show "run faults (\<lambda>h. faults \<and> prepared rep t' h \<or> (faults \<or> e \<noteq> []) \<and> undone rep t' h) (act_ret (t', e')) (gave_up rep t) (pending rep t)"
      using self by (intro run_ret) (auto simp: gave_up_def pending_def undone_def st simp del: txn_commute)
  next
    fix h
    assume "faults \<and> prepared rep t' h \<or> (faults \<or> e \<noteq> []) \<and> undone rep t' h"
    then show "pending rep t h" by (auto simp: pending_def undone_def st)
  qed (use assms(5) in \<open>auto intro: run_absurd\<close>)
  then show ?thesis using assms(3) by simp
qed

definition switched :: "reporter \<Rightarrow> updateTransaction \<Rightarrow> updateTransaction \<times> install_error list \<Rightarrow> host \<Rightarrow> bool" where
  "switched rep t = (\<lambda>(t', e) h. e = [] \<and> (\<exists>q. validUpdatePhase q \<and> t' = t\<lparr>Txn_Phase := q, Txn_MigrationStarted := True\<rparr>) \<and>
     forward rep t' h \<and> blocked h \<and> h_running h = None)"

lemma activating_forward:
  "activating rep t h \<Longrightarrow> h_current h = Some (Txn_CandidateTarget t) \<Longrightarrow> linked h \<Longrightarrow> bin_linked h \<Longrightarrow> validUpdatePhase q \<Longrightarrow> q \<noteq> PhaseDone \<Longrightarrow>
   forward rep (t\<lparr>Txn_MigrationStarted := True\<rparr>) (h\<lparr>h_txn := Some (txn_file (t\<lparr>Txn_Phase := q, Txn_MigrationStarted := True\<rparr>))\<rparr>)"
  using on_disk_write [of q "t\<lparr>Txn_MigrationStarted := True\<rparr>" h]
  by (auto simp: activating_def prepared_base_def forward_def forward_base_def kept_def)

lemma run_boundary:
  assumes "txn_fits paths t" "\<not> Txn_MigrationStarted t" "t' = t\<lparr>Txn_Phase := q\<rparr>" "validUpdatePhase q" "rep = JobReporter \<Longrightarrow> faults"
  shows "run faults (\<lambda>h. activating rep t h \<and> h_current h = Some (Txn_CandidateTarget t) \<and> linked h \<and> bin_linked h)
    (let t' = t'\<lparr>Txn_Phase := PhaseMigrating, Txn_MigrationStarted := True\<rparr>
     in act_bind (act_try (act_seq (writeTransaction t') (report_phase rep PhaseMigrating))) (\<lambda>e. act_ret (t', e)))
    (\<lambda>r h. switched rep t r h \<or> gave_up rep t r h) (pending rep t)"
proof -
  define t2 where "t2 = t\<lparr>Txn_Phase := PhaseMigrating, Txn_MigrationStarted := True\<rparr>"
  have t2: "t'\<lparr>Txn_Phase := PhaseMigrating, Txn_MigrationStarted := True\<rparr> = t2" using assms(3) by (simp add: t2_def)
  let ?F = "\<lambda>h. forward rep t2 h \<and> blocked h \<and> h_running h = None"
  have ok: "txn_ok t2" using assms(1) txn_fits_started [of paths "t\<lparr>Txn_Phase := PhaseMigrating\<rparr>" True] txn_fits_phase [of paths t PhaseMigrating]
    by (simp add: t2_def txn_fits_def)
  have prep: "prepared rep t h" if "activating rep t h" "linked h" "bin_linked h" for h using that activating_prepared by blast
  have fw: "?F (h\<lparr>h_txn := Some (txn_file t2)\<rparr>)"
    if "activating rep t h" "h_current h = Some (Txn_CandidateTarget t)" "linked h" "bin_linked h" for h
    using activating_forward [OF that, of PhaseMigrating] that(1) by (simp add: t2_def activating_def)
  have "run faults (\<lambda>h. activating rep t h \<and> h_current h = Some (Txn_CandidateTarget t) \<and> linked h \<and> bin_linked h)
      (writeTransaction t2) (\<lambda>_. ?F) (\<lambda>h. faults \<and> pending rep t h)"
    by (rule run_write_txn [OF ok]) (use fw prep in \<open>auto simp: pending_def t2_def\<close>)
  moreover have "run faults ?F (report_phase rep PhaseMigrating) (\<lambda>_. ?F) (\<lambda>h. faults \<and> ?F h)"
    by (rule run_report [OF tracks_conj [OF tracks_states(2)]]) (use assms(5) in auto)
  then have "run faults ?F (report_phase rep PhaseMigrating) (\<lambda>_. ?F) (\<lambda>h. faults \<and> pending rep t h)"
    by (rule run_weaken) (auto simp: pending_def t2_def)
  ultimately have "run faults (\<lambda>h. activating rep t h \<and> h_current h = Some (Txn_CandidateTarget t) \<and> linked h \<and> bin_linked h)
      (act_seq (writeTransaction t2) (report_phase rep PhaseMigrating)) (\<lambda>_. ?F) (\<lambda>h. faults \<and> pending rep t h)" by (rule run_seq)
  then show ?thesis unfolding Let_def t2
    by (rule run_bind_try) (auto intro!: run_ret simp: switched_def gave_up_def t2_def exI [of _ PhaseMigrating])
qed

lemma phase_twice: "t' = t\<lparr>Txn_Phase := q\<rparr> \<Longrightarrow> t'' = t'\<lparr>Txn_Phase := q'\<rparr> \<Longrightarrow> t'' = t\<lparr>Txn_Phase := q'\<rparr>"
  by simp

text \<open>The next step after \<open>reachPhase\<close>, which either goes on with the new phase or gives up.\<close>

lemma run_reach_or_fail:
  assumes "txn_fits paths t" "\<not> Txn_MigrationStarted t" "t' = t\<lparr>Txn_Phase := q\<rparr>" "validUpdatePhase q" "validUpdatePhase p" "p \<noteq> PhaseDone"
    "tracks rep P" "rep = JobReporter \<Longrightarrow> faults" "\<And>h. P h \<Longrightarrow> prepared rep t h"
    "\<And>h q. P h \<Longrightarrow> validUpdatePhase q \<Longrightarrow> q \<noteq> PhaseDone \<Longrightarrow> P (h\<lparr>h_txn := Some (txn_file (t\<lparr>Txn_Phase := q\<rparr>))\<rparr>)"
    "\<And>q t'. t' = t\<lparr>Txn_Phase := q\<rparr> \<Longrightarrow> validUpdatePhase q \<Longrightarrow> run faults P (f t') Q (pending rep t)" "\<And>r h. gave_up rep t r h \<Longrightarrow> Q r h"
  shows "run faults P (act_bind (reachPhase t' p rep) (\<lambda>(t', e). if e \<noteq> [] then failing paths t' e else f t')) Q (pending rep t)"
proof (rule run_bind)
  have ok: "txn_ok t'" using assms(1,3,4) by (simp add: txn_fits_def txn_ok_phase)
  show "run faults P (reachPhase t' p rep) (\<lambda>(t'', e) h. P h \<and> (e \<noteq> [] \<longrightarrow> faults) \<and> (\<exists>q. validUpdatePhase q \<and> t'' = t'\<lparr>Txn_Phase := q\<rparr>)) (pending rep t)"
    by (rule run_weaken [OF run_reach [where P = P]]) (use assms ok in \<open>auto simp: pending_def\<close>)
  fix x :: "updateTransaction \<times> install_error list"
  obtain t2 e where x: "x = (t2, e)" by fastforce
  have fail: "run faults P (failing paths (t\<lparr>Txn_Phase := q\<rparr>) e) Q (pending rep t)" if "e \<noteq> []" "validUpdatePhase q" for q
    by (rule run_conseq [OF run_failing [OF assms(1,2) refl that(2,1)]]) (use assms(9,12) in auto)
  have go: "run faults P (f (t\<lparr>Txn_Phase := q\<rparr>)) Q (pending rep t)" if "validUpdatePhase q" for q using assms(11) that by blast
  show "run faults ((\<lambda>(t'', e) h. P h \<and> (e \<noteq> [] \<longrightarrow> faults) \<and> (\<exists>q. validUpdatePhase q \<and> t'' = t'\<lparr>Txn_Phase := q\<rparr>)) x)
      ((\<lambda>(t', e). if e \<noteq> [] then failing paths t' e else f t') x) Q (pending rep t)"
    unfolding x prod.case run_def
  proof (intro allI impI)
    fix h
    assume h: "P h \<and> (e \<noteq> [] \<longrightarrow> faults) \<and> (\<exists>q. validUpdatePhase q \<and> t2 = t'\<lparr>Txn_Phase := q\<rparr>)"
    then obtain q where q: "validUpdatePhase q" "t2 = t\<lparr>Txn_Phase := q\<rparr>" using assms(3) by auto
    then show "wp faults (if e \<noteq> [] then failing paths t2 e else f t2) Q (\<lambda>e h. e \<noteq> [] \<and> pending rep t h) (pending rep t) h"
      using fail [OF _ q(1)] go [OF q(1)] h by (cases "e = []") (simp_all add: run_def)
  qed
qed

lemma pending_kept: "prepared rep t h \<Longrightarrow> kept t h" "forward rep t h \<Longrightarrow> kept t h"
  by (simp_all add: prepared_def prepared_base_def forward_def forward_base_def)

lemma run_switch:
  assumes "txn_fits paths t" "\<not> Txn_MigrationStarted t" "systemdConditionPath (ip_blockFile paths) \<noteq> None" "rep = JobReporter \<Longrightarrow> faults"
  shows "run faults (prepared rep t) (switchRelease paths t rep) (\<lambda>r h. switched rep t r h \<or> gave_up rep t r h) (pending rep t)"
proof -
  let ?Q = "\<lambda>r h. switched rep t r h \<or> gave_up rep t r h"
  let ?P1 = "\<lambda>h. prepared rep t h \<and> blocked h"
  let ?P2 = "\<lambda>h. (prepared rep t h \<and> blocked h) \<and> h_running h = None"
  have self: "t = t\<lparr>Txn_Phase := Txn_Phase t\<rparr>" "validUpdatePhase (Txn_Phase t)" using assms(1) by (simp_all add: txn_fits_def txn_ok_def)
  have fail: "run faults (prepared rep t) (failing paths t' e) ?Q (pending rep t)" if "t' = t\<lparr>Txn_Phase := q\<rparr>" "validUpdatePhase q" "e \<noteq> []" for t' q e
    by (rule run_conseq [OF run_failing [OF assms(1,2) that]]) auto
  have activate: "run faults ?P2 (act_bind (act_try (activateRelease (Txn_CandidateTarget t') (Txn_Legacy t'))) (\<lambda>e.
      if e \<noteq> [] then failing paths t' e
      else let t' = t'\<lparr>Txn_Phase := PhaseMigrating, Txn_MigrationStarted := True\<rparr>
           in act_bind (act_try (act_seq (writeTransaction t') (report_phase rep PhaseMigrating))) (\<lambda>e. act_ret (t', e)))) ?Q (pending rep t)"
    if "t' = t\<lparr>Txn_Phase := q\<rparr>" "validUpdatePhase q" for t' q
  proof (rule run_bind_try)
    show "run faults ?P2 (activateRelease (Txn_CandidateTarget t') (Txn_Legacy t'))
        (\<lambda>_ h. activating rep t h \<and> h_current h = Some (Txn_CandidateTarget t) \<and> linked h \<and> bin_linked h) (prepared rep t)"
      using run_conseq [OF run_activate [OF assms(1), of faults rep]] that(1) by auto
    show "run faults (\<lambda>h. activating rep t h \<and> h_current h = Some (Txn_CandidateTarget t) \<and> linked h \<and> bin_linked h)
        (if [] \<noteq> [] then failing paths t' []
         else let t' = t'\<lparr>Txn_Phase := PhaseMigrating, Txn_MigrationStarted := True\<rparr>
           in act_bind (act_try (act_seq (writeTransaction t') (report_phase rep PhaseMigrating))) (\<lambda>e. act_ret (t', e))) ?Q (pending rep t)"
      using run_boundary [OF assms(1,2) that assms(4)] by simp
  qed (use fail [OF that] in \<open>auto simp: pending_def\<close>)
  have switching: "run faults ?P2 (act_bind (reachPhase t' PhaseSwitching rep) (\<lambda>(t', e). if e \<noteq> [] then failing paths t' e
      else act_bind (act_try (activateRelease (Txn_CandidateTarget t') (Txn_Legacy t'))) (\<lambda>e.
        if e \<noteq> [] then failing paths t' e
        else let t' = t'\<lparr>Txn_Phase := PhaseMigrating, Txn_MigrationStarted := True\<rparr>
             in act_bind (act_try (act_seq (writeTransaction t') (report_phase rep PhaseMigrating))) (\<lambda>e. act_ret (t', e))))) ?Q (pending rep t)"
    if "t' = t\<lparr>Txn_Phase := q\<rparr>" "validUpdatePhase q" for t' q
    by (rule run_reach_or_fail [OF assms(1,2) that])
      (use assms(4) activate prepared_write in \<open>auto intro!: tracks_conj tracks_states\<close>)
  have stopping: "run faults ?P1 (act_bind (act_try (stopDash (Txn_ServiceManager t'))) (\<lambda>e. if e \<noteq> [] then failing paths t' e
      else act_bind (reachPhase t' PhaseSwitching rep) (\<lambda>(t', e). if e \<noteq> [] then failing paths t' e
      else act_bind (act_try (activateRelease (Txn_CandidateTarget t') (Txn_Legacy t'))) (\<lambda>e.
        if e \<noteq> [] then failing paths t' e
        else let t' = t'\<lparr>Txn_Phase := PhaseMigrating, Txn_MigrationStarted := True\<rparr>
             in act_bind (act_try (act_seq (writeTransaction t') (report_phase rep PhaseMigrating))) (\<lambda>e. act_ret (t', e)))))) ?Q (pending rep t)"
    if "t' = t\<lparr>Txn_Phase := q\<rparr>" "validUpdatePhase q" for t' q
    by (rule run_bind_try [OF run_stop])
      (use switching [OF that] fail [OF that] in \<open>auto intro: prepared_stop run_pre simp: pending_def\<close>)
  have start: "run faults (prepared rep t) (act_seq (ensureServiceRecoveryGuard paths (Txn_ServiceManager t))
      (act_seq (writeUpdateBlock (Txn_JobID t)) (report_phase rep PhasePrepared))) (\<lambda>_. ?P1) (\<lambda>h. faults \<and> prepared rep t h)"
  proof (rule run_seq [OF run_guard run_seq [OF run_block]])
    show "run faults ?P1 (report_phase rep PhasePrepared) (\<lambda>_. ?P1) (\<lambda>h. faults \<and> prepared rep t h)"
      by (rule run_weaken [OF run_report [OF tracks_conj [OF tracks_states(1)]]]) (use assms(4) in auto)
  qed (use assms(3) pending_kept in \<open>auto intro: pending_intros\<close>)
  show ?thesis unfolding switchRelease_def
  proof (rule run_bind_try [OF start])
    show "run faults ?P1 (if [] \<noteq> [] then failing paths t []
      else act_bind (reachPhase t PhaseStopping rep) (\<lambda>(t', e). if e \<noteq> [] then failing paths t' e
      else act_bind (act_try (stopDash (Txn_ServiceManager t'))) (\<lambda>e. if e \<noteq> [] then failing paths t' e
      else act_bind (reachPhase t' PhaseSwitching rep) (\<lambda>(t', e). if e \<noteq> [] then failing paths t' e
      else act_bind (act_try (activateRelease (Txn_CandidateTarget t') (Txn_Legacy t'))) (\<lambda>e.
        if e \<noteq> [] then failing paths t' e
        else let t' = t'\<lparr>Txn_Phase := PhaseMigrating, Txn_MigrationStarted := True\<rparr>
             in act_bind (act_try (act_seq (writeTransaction t') (report_phase rep PhaseMigrating))) (\<lambda>e. act_ret (t', e))))))) ?Q (pending rep t)"
      unfolding if_cancel simp_thms if_False
      by (rule run_reach_or_fail [OF assms(1,2) self]) (use assms(4) stopping prepared_write in \<open>auto intro!: tracks_conj tracks_states\<close>)
  qed (use fail [OF self] in \<open>auto intro: run_pre simp: pending_def\<close>)
qed

end
