(* ===== verification/Update_Recovery.thy ===== *)
theory Update_Recovery
  imports Update_Rollback
begin

text \<open>
  Recovery and execution keep the invariant, and recovery without faults settles the host: the theorems on whole
  runs and on histories of runs, starts, stops and reboots.
\<close>

subsection \<open>Consistent hosts\<close>

definition idle :: "host \<Rightarrow> bool" where
  "idle h \<longleftrightarrow> statuses h \<and> h_txn h = None \<and> settled h"

lemma consistent_alt:
  "consistent paths h \<longleftrightarrow> idle h \<or> (\<exists>t. txn_fits paths t \<and> (prepared TextReporter t h \<or> forward TextReporter t h \<or> finished TextReporter t h))"
  by (auto simp: consistent_def idle_def prepared_def prepared_base_def forward_def forward_base_def finished_def reporting_def)

lemma states_weaken:
  "prepared rep t h \<Longrightarrow> prepared TextReporter t h" "forward rep t h \<Longrightarrow> forward TextReporter t h" "finished rep t h \<Longrightarrow> finished TextReporter t h"
  by (auto simp: prepared_def prepared_base_def forward_def forward_base_def finished_def reporting_weaken)

lemma pending_consistent: "txn_fits paths t \<Longrightarrow> pending rep t h \<Longrightarrow> consistent paths h"
  unfolding pending_def consistent_alt using states_weaken txn_fits_started by metis

lemma reporting_status: "reporting TextReporter j' h \<Longrightarrow> status_entry (j, file) \<Longrightarrow> reporting TextReporter j' (h\<lparr>h_status := AList.update j file (h_status h)\<rparr>)"
  by (simp add: reporting_def statuses_def status_entries_update)

lemma states_status:
  assumes "status_entry (j, file)"
  shows "idle h \<Longrightarrow> idle (h\<lparr>h_status := AList.update j file (h_status h)\<rparr>)"
    "prepared TextReporter t h \<Longrightarrow> prepared TextReporter t (h\<lparr>h_status := AList.update j file (h_status h)\<rparr>)"
    "forward TextReporter t h \<Longrightarrow> forward TextReporter t (h\<lparr>h_status := AList.update j file (h_status h)\<rparr>)"
    "finished TextReporter t h \<Longrightarrow> finished TextReporter t (h\<lparr>h_status := AList.update j file (h_status h)\<rparr>)"
  using reporting_status [OF _ assms] assms
  by (auto simp: idle_def state_defs statuses_def status_entries_update)

lemma consistent_status: "consistent paths h \<Longrightarrow> status_entry (j, file) \<Longrightarrow> consistent paths (h\<lparr>h_status := AList.update j file (h_status h)\<rparr>)"
  unfolding consistent_alt using states_status by metis

lemma consistent_item: "consistent paths (h\<lparr>h_item := it\<rparr>) = consistent paths h"
  by (simp add: consistent_alt idle_def state_defs reporting_def)

definition recorded :: "bool \<Rightarrow> string \<Rightarrow> host \<Rightarrow> bool" where
  "recorded started j h \<longleftrightarrow> (\<exists>file item. map_of (h_status h) j = Some file \<and> readUpdateStatusFile file = Inr item \<and>
     SF_Status item = (if started then StatusCompleted else StatusFailed) \<and> SF_FailureCode item = (if started then [] else ''rolled_back''))"

subsection \<open>Recovery\<close>

lemma status_read: "statuses h \<Longrightarrow> map_of (h_status h) j = Some file \<Longrightarrow> \<exists>item. readUpdateStatusFile file = Inr item \<and> status_ok item \<and> SF_ID item = j"
proof -
  assume "statuses h" "map_of (h_status h) j = Some file"
  then have "status_entry (j, file)" unfolding statuses_def list_all_iff using map_of_SomeD by fast
  then show ?thesis using read_status by (auto simp: status_entry_def)
qed

lemma status_done:
  assumes "status_ok item" "clock_ok now" "SF_ID item = Txn_JobID t"
  obtains item' where "statusFromDoneTransaction item (t\<lparr>Txn_Phase := PhaseDone\<rparr>) now = Inr item'" "status_ok item'" "SF_ID item' = Txn_JobID t"
    "SF_Status item' = (if Txn_MigrationStarted t then StatusCompleted else StatusFailed)"
    "SF_FailureCode item' = (if Txn_MigrationStarted t then [] else ''rolled_back'')"
proof -
  have v: "value_ok ''rolled_back''" by (rule visible_value) (simp_all add: visible_def)
  show thesis
  proof (rule that)
    show "statusFromDoneTransaction item (t\<lparr>Txn_Phase := PhaseDone\<rparr>) now = Inr
      ((if Txn_MigrationStarted t then item\<lparr>SF_Status := StatusCompleted, SF_Phase := PhaseDone, SF_FailureCode := [], SF_ExitCode := Some 0\<rparr>
        else item\<lparr>SF_Status := StatusFailed, SF_FailureCode := ''rolled_back'', SF_ExitCode := Some 1\<rparr>)
       \<lparr>SF_ExecutorPID := 0, SF_RecoveryPath := [], SF_FinishedAt := format_rfc3339_utc now\<rparr>)"
      using assms(3) by (simp add: statusFromDoneTransaction_def Let_def)
  qed (use assms v parse_printed [OF assms(2)] printed_value [OF assms(2)] in
      \<open>auto simp: status_ok_def is_i64_def max_i64_def min_i64_def update_words\<close>)
qed

text \<open>Without the status of its job a transaction cannot be finished.\<close>

definition lost :: "updateTransaction \<Rightarrow> host \<Rightarrow> bool" where
  "lost t h \<longleftrightarrow> map_of (h_status h) (Txn_JobID t) = None"

lemma run_record:
  assumes "clock_ok (ue_now env)" "\<And>h. P h \<Longrightarrow> reporting TextReporter (Txn_JobID t) h"
    "\<And>h fl. P h \<Longrightarrow> status_entry (Txn_JobID t, fl) \<Longrightarrow> P (h\<lparr>h_status := AList.update (Txn_JobID t) fl (h_status h)\<rparr>)"
  shows "run faults P (recordRecoveryResult env (t\<lparr>Txn_Phase := PhaseDone\<rparr>)) (\<lambda>_ h. P h \<and> recorded (Txn_MigrationStarted t) (Txn_JobID t) h) (\<lambda>h. (faults \<or> lost t h) \<and> P h)"
proof -
  have "run faults (\<lambda>h. P h \<and> map_of (h_status h) (Txn_JobID t) = fl)
    (case fl of None \<Rightarrow> act_fail [Io ''read recovered update status'']
     | Some data \<Rightarrow> (case readUpdateStatusFile data of Inl e \<Rightarrow> act_fail [BadFile e]
        | Inr item \<Rightarrow> (case statusFromDoneTransaction item (t\<lparr>Txn_Phase := PhaseDone\<rparr>) (ue_now env) of Inl e \<Rightarrow> act_fail [BadFile e]
           | Inr item \<Rightarrow> commit ''status'' (\<lambda>h. h\<lparr>h_status := AList.update (Txn_JobID t) (writeUpdateStatusFile item) (h_status h)\<rparr>))))
    (\<lambda>_ h. P h \<and> recorded (Txn_MigrationStarted t) (Txn_JobID t) h) (\<lambda>h. (faults \<or> lost t h) \<and> P h)" (is "run _ ?P ?a ?Q ?R") for fl
  proof (cases "fl \<noteq> None \<and> (\<exists>h. ?P h)")
    case True
    then obtain h data where h: "P h" "map_of (h_status h) (Txn_JobID t) = fl" "fl = Some data" "statuses h"
      using assms(2) by (fastforce simp: reporting_def)
    obtain item where item: "readUpdateStatusFile data = Inr item" "status_ok item" "SF_ID item = Txn_JobID t"
      using status_read [of h "Txn_JobID t" data] h(2-4) by auto
    obtain item' where item': "statusFromDoneTransaction item (t\<lparr>Txn_Phase := PhaseDone\<rparr>) (ue_now env) = Inr item'" "status_ok item'" "SF_ID item' = Txn_JobID t"
        "SF_Status item' = (if Txn_MigrationStarted t then StatusCompleted else StatusFailed)"
        "SF_FailureCode item' = (if Txn_MigrationStarted t then [] else ''rolled_back'')"
      using status_done [OF item(2) assms(1) item(3)] by blast
    note entry = status_entryI [OF item'(2,3)]
    show ?thesis unfolding h(3) option.case item(1) sum.case item'(1)
      by (rule run_commit) (use entry item' read_status [OF item'(2)] in \<open>auto simp: recorded_def intro!: assms(3)\<close>)
  next
    case False
    then consider "fl = None" | "\<And>h. \<not> ?P h" by blast
    then show ?thesis
    proof cases
      case 1
      then show ?thesis by (auto intro!: run_fail simp: lost_def)
    qed (auto intro: run_absurd)
  qed
  moreover have "Txn_JobID (t\<lparr>Txn_Phase := PhaseDone\<rparr>) = Txn_JobID t" by simp
  ultimately show ?thesis unfolding recordRecoveryResult_def by (simp only: run_get)
qed

lemma run_remove_done:
  assumes "txn_ok t" "\<And>h. P h \<Longrightarrow> h_txn h = Some (txn_file (t\<lparr>Txn_Phase := PhaseDone\<rparr>))" "\<And>h. P h \<Longrightarrow> Q (h\<lparr>h_txn := None\<rparr>)"
  shows "run faults P (removeDoneTransaction (Txn_JobID t)) (\<lambda>_. Q) (\<lambda>h. faults \<and> (P h \<or> Q h))"
proof -
  let ?t = "t\<lparr>Txn_Phase := PhaseDone\<rparr>"
  have read: "readTransaction (txn_file ?t) = Inr ?t" using txn_read txn_ok_phase [OF assms(1)] by simp
  have "run faults P (commit ''remove transaction'' (\<lambda>h. h\<lparr>h_txn := None\<rparr>)) (\<lambda>_. Q) (\<lambda>h. faults \<and> (P h \<or> Q h))"
    by (rule run_commit) (auto simp: assms(3))
  then show ?thesis unfolding removeDoneTransaction_def
    by (intro run_known [where x = "Some (txn_file ?t)"]) (simp_all add: assms(2) read)
qed

lemma idle_temp: "idle (h\<lparr>h_temp := tp\<rparr>) = idle h"
  by (simp add: idle_def settled_def)

definition recovered :: "updateTransaction \<Rightarrow> string option \<Rightarrow> host \<Rightarrow> bool" where
  "recovered t cu h \<longleftrightarrow> idle h \<and> h_current h = cu \<and> recorded (Txn_MigrationStarted t) (Txn_JobID t) h"

lemma run_finalize:
  assumes "txn_fits paths t" "clock_ok (ue_now env)"
  shows "run faults (\<lambda>h. finished TextReporter t h \<and> h_current h = cu) (finalizeRecovery env (t\<lparr>Txn_Phase := PhaseDone\<rparr>))
    (\<lambda>_. recovered t cu) (\<lambda>h. (faults \<or> lost t h) \<and> (finished TextReporter t h \<or> idle h))"
proof -
  let ?P = "\<lambda>h. finished TextReporter t h \<and> h_current h = cu"
  let ?R = "\<lambda>h. (faults \<or> lost t h) \<and> (finished TextReporter t h \<or> idle h)"
  have "run faults ?P (recordRecoveryResult env (t\<lparr>Txn_Phase := PhaseDone\<rparr>)) (\<lambda>_ h. ?P h \<and> recorded (Txn_MigrationStarted t) (Txn_JobID t) h) (\<lambda>h. (faults \<or> lost t h) \<and> ?P h)"
    by (rule run_record [OF assms(2)]) (use states_status(4) in \<open>auto simp: finished_def\<close>)
  then have a: "run faults ?P (recordRecoveryResult env (t\<lparr>Txn_Phase := PhaseDone\<rparr>)) (\<lambda>_ h. ?P h \<and> recorded (Txn_MigrationStarted t) (Txn_JobID t) h) ?R"
    by (rule run_weaken) auto
  have "run faults (\<lambda>h. ?P h \<and> recorded (Txn_MigrationStarted t) (Txn_JobID t) h) (removeDoneTransaction (Txn_JobID t)) (\<lambda>_. recovered t cu)
      (\<lambda>h. faults \<and> ((?P h \<and> recorded (Txn_MigrationStarted t) (Txn_JobID t) h) \<or> recovered t cu h))"
    by (rule run_remove_done) (use assms(1) in \<open>auto simp: finished_def txn_fits_def recovered_def idle_def reporting_def settled_def recorded_def\<close>)
  then have b: "run faults (\<lambda>h. ?P h \<and> recorded (Txn_MigrationStarted t) (Txn_JobID t) h) (removeDoneTransaction (Txn_JobID t)) (\<lambda>_. recovered t cu) ?R"
    by (rule run_weaken) (auto simp: recovered_def)
  have "run faults (recovered t cu) (remove_temp (Txn_TempRoot t)) (\<lambda>_. recovered t cu) (\<lambda>h. faults \<and> recovered t cu h)"
    unfolding remove_temp_def by (auto intro!: run_ret run_commit simp: recovered_def idle_temp recorded_def)
  then have "run faults (recovered t cu) (act_bind (act_try (remove_temp (Txn_TempRoot t))) (\<lambda>_. act_ret ())) (\<lambda>_. recovered t cu) (\<lambda>h. faults \<and> recovered t cu h)"
    by (rule run_ignore) auto
  then have c: "run faults (recovered t cu) (act_bind (act_try (remove_temp (Txn_TempRoot t))) (\<lambda>_. act_ret ())) (\<lambda>_. recovered t cu) ?R"
    by (rule run_weaken) (auto simp: recovered_def)
  show ?thesis unfolding finalizeRecovery_def using run_seq [OF a run_seq [OF b c]] by simp
qed

lemma settled_prune:
  assumes "settled h" "h_current h = Some (''releases/'' @ m)" "n \<noteq> m"
  shows "settled (h\<lparr>h_releases := filter (\<lambda>k. k \<noteq> n) (h_releases h)\<rparr>)"
  using assms entry_without [of h _ n] by (auto simp: settled_def)

lemma run_prune:
  assumes "validReleaseTarget cu" "\<And>h n. P h \<Longrightarrow> n \<noteq> path_base cu \<Longrightarrow> P (h\<lparr>h_releases := filter (\<lambda>k. k \<noteq> n) (h_releases h)\<rparr>)"
    "\<And>h. P h \<Longrightarrow> h_current h = Some cu"
  shows "run faults P (act_bind (act_try pruneReleases) (\<lambda>_. act_ret ())) (\<lambda>_. P) (\<lambda>h. faults \<and> P h)"
proof (rule run_ignore)
  have "run faults P (act_each (\<lambda>n. if n = path_base cu then act_ret ()
        else commit ''remove release'' (\<lambda>h. h\<lparr>h_releases := filter (\<lambda>m. m \<noteq> n) (h_releases h)\<rparr>)) names) (\<lambda>_. P) (\<lambda>h. faults \<and> P h)" for names
    by (rule run_each [where I = "\<lambda>_. P"]) (auto intro!: run_ret run_commit assms(2))
  then have "run faults P (act_bind (act_get h_releases) (\<lambda>names. act_seq (act_each (\<lambda>n. if n = path_base cu then act_ret ()
        else commit ''remove release'' (\<lambda>h. h\<lparr>h_releases := filter (\<lambda>m. m \<noteq> n) (h_releases h)\<rparr>)) names) (io ''sync''))) (\<lambda>_. P) (\<lambda>h. faults \<and> P h)"
    by (intro run_get run_seq [OF run_pre [of faults P] run_io [where P = P]]) auto
  then show "run faults P pruneReleases (\<lambda>_. P) (\<lambda>h. faults \<and> P h)"
    unfolding pruneReleases_def by (intro run_known [where x = "Some cu"]) (simp_all add: assms(1,3))
qed auto

lemma recovered_prune:
  assumes "validReleaseTarget cu"
  shows "run faults (recovered t (Some cu)) (act_bind (act_try pruneReleases) (\<lambda>_. act_ret ())) (\<lambda>_. recovered t (Some cu)) (\<lambda>h. faults \<and> recovered t (Some cu) h)"
proof (rule run_prune [OF assms])
  obtain m where m: "cu = ''releases/'' @ m" "path_base cu = m" using valid_target_base [OF assms] by blast
  fix h n
  assume "recovered t (Some cu) h" "n \<noteq> path_base cu"
  then show "recovered t (Some cu) (h\<lparr>h_releases := filter (\<lambda>k. k \<noteq> n) (h_releases h)\<rparr>)"
    using settled_prune [of h m n] m by (auto simp: recovered_def idle_def recorded_def)
qed (simp add: recovered_def)

lemma run_recover_read:
  assumes "\<And>h. P h \<Longrightarrow> h_txn h = Some (txn_file t)" "txn_fits paths t" "run faults P (recoverTransaction env paths t) Q R"
  shows "run faults P (recoverUpdateLocked env paths) Q R"
proof -
  have ok: "readTransaction (txn_file t) = Inr t" "validateTransactionPaths paths t = []" using assms(2) txn_read by (simp_all add: txn_fits_def)
  have "run faults (\<lambda>h. P h \<and> (h_txn h, h_block h) = x) (case x of (fl, block) \<Rightarrow>
     case fl of None \<Rightarrow> act_fail [BadState (if block \<noteq> None then ''orphaned block'' else ''no unfinished update'')]
     | Some data \<Rightarrow> (case readTransaction data of Inl e \<Rightarrow> act_fail [BadFile e]
         | Inr t \<Rightarrow> act_seq (act_err (validateTransactionPaths paths t)) (recoverTransaction env paths t))) Q R" for x
  proof (cases "fst x = Some (txn_file t)")
    case True
    have "run faults (\<lambda>h. P h \<and> (h_txn h, h_block h) = x) (act_seq (act_err (validateTransactionPaths paths t)) (recoverTransaction env paths t)) Q R"
      unfolding ok(2) by (rule run_seq [OF run_err [where Q = "\<lambda>_. P"] assms(3)]) simp_all
    moreover obtain block where "x = (Some (txn_file t), block)" using True by (cases x) auto
    ultimately show ?thesis by (simp only: prod.case option.case ok(1) sum.case)
  qed (auto intro!: run_absurd dest: assms(1))
  then show ?thesis unfolding recoverUpdateLocked_def by (rule run_get)
qed

text \<open>From each of the states of a pending update recovery settles the host, unless an operation fails or the status of the job is
  missing; then it leaves the host in one of them.\<close>

definition recovering :: "updateTransaction \<Rightarrow> host \<Rightarrow> bool" where
  "recovering t h \<longleftrightarrow> prepared TextReporter t h \<or> forward TextReporter t h \<or> finished TextReporter t h \<or> idle h"

lemma run_hold_service:
  assumes "systemdConditionPath (ip_blockFile paths) \<noteq> None" "\<And>h. P h \<Longrightarrow> kept t h" "\<And>h. P h \<Longrightarrow> P (h\<lparr>h_guard := True\<rparr>)"
    "\<And>h b. P h \<Longrightarrow> P (h\<lparr>h_block := Some b\<rparr>)" "\<And>h. P h \<Longrightarrow> P (h\<lparr>h_running := None\<rparr>)" "\<And>h. faults \<Longrightarrow> P h \<Longrightarrow> R h"
    "run faults (\<lambda>h. P h \<and> blocked h \<and> h_running h = None) a Q R"
  shows "run faults P (act_seq (ensureServiceRecoveryGuard paths (Txn_ServiceManager t))
    (act_seq (writeUpdateBlock (Txn_JobID t)) (act_seq (stopDash (Txn_ServiceManager t)) a))) Q R"
proof -
  note guard = run_guard [of P paths faults t, OF assms(3,1)]
  note block = run_block [of P t faults "Txn_JobID t", OF assms(4,2)]
  have "run faults (\<lambda>h. P h \<and> blocked h) (stopDash (Txn_ServiceManager t)) (\<lambda>_ h. (P h \<and> blocked h) \<and> h_running h = None) (\<lambda>h. faults \<and> (P h \<and> blocked h))"
    by (rule run_stop) (auto simp: assms(5))
  then have stop: "run faults (\<lambda>h. P h \<and> blocked h) (stopDash (Txn_ServiceManager t)) (\<lambda>_ h. P h \<and> blocked h \<and> h_running h = None) R"
    by (rule run_conseq) (auto simp: assms(6))
  show ?thesis
    by (rule run_seq [OF run_weaken [OF guard] run_seq [OF run_weaken [OF block] run_seq [OF stop assms(7)]]]) (auto simp: assms(6))
qed

lemma run_recover_finished:
  assumes fits: "txn_fits paths t" and clock: "clock_ok (ue_now env)"
  shows "run faults (\<lambda>h. finished TextReporter t h \<and> h_current h = cu) (recoverUpdateLocked env paths) (\<lambda>_. recovered t cu) (\<lambda>h. (faults \<or> lost t h) \<and> recovering t h)"
proof (rule run_recover_read [of _ "t\<lparr>Txn_Phase := PhaseDone\<rparr>"])
  show "run faults (\<lambda>h. finished TextReporter t h \<and> h_current h = cu) (recoverTransaction env paths (t\<lparr>Txn_Phase := PhaseDone\<rparr>)) (\<lambda>_. recovered t cu)
      (\<lambda>h. (faults \<or> lost t h) \<and> recovering t h)"
    unfolding recoverTransaction_def using run_weaken [OF run_finalize [OF fits clock, of faults cu], of "\<lambda>h. (faults \<or> lost t h) \<and> recovering t h"]
    by (simp add: recovering_def)
qed (auto simp: finished_def txn_fits_phase [OF fits])

lemma run_recover_prepared:
  assumes fits: "txn_fits paths t" and guard_path: "systemdConditionPath (ip_blockFile paths) \<noteq> None" and clock: "clock_ok (ue_now env)"
  shows "run faults (prepared TextReporter t) (recoverUpdateLocked env paths) (\<lambda>_. recovered t (former t)) (\<lambda>h. (faults \<or> lost t h) \<and> recovering t h)"
    (is "run _ _ _ ?Q ?R")
proof -
  have body: "run faults (prepared TextReporter t) (recoverTransaction env paths (t\<lparr>Txn_Phase := p\<rparr>)) ?Q ?R"
    if p: "validUpdatePhase p" "p \<noteq> PhaseDone" and new: "\<not> Txn_MigrationStarted t" for p
  proof -
    let ?t = "t\<lparr>Txn_Phase := p\<rparr>"
    have fits': "txn_fits paths ?t" "\<not> Txn_MigrationStarted ?t" using fits new p by (simp_all add: txn_fits_phase)
    have "run faults (\<lambda>h. prepared TextReporter t h \<and> blocked h \<and> h_running h = None) (rollbackBeforeMigration paths ?t []) (\<lambda>_. undone TextReporter t) ?R"
      by (rule run_conseq [OF run_rollback [OF fits', of faults TextReporter "[]"]]) (auto simp: recovering_def undone_def)
    moreover have "run faults (undone TextReporter t) (finalizeRecovery env (t\<lparr>Txn_Phase := PhaseDone\<rparr>)) ?Q ?R"
      by (rule run_conseq [OF run_finalize [OF fits clock, of faults "former t"]]) (auto simp: recovering_def undone_def)
    ultimately have "run faults (\<lambda>h. prepared TextReporter t h \<and> blocked h \<and> h_running h = None)
        (act_seq (rollbackBeforeMigration paths ?t []) (finalizeRecovery env (?t\<lparr>Txn_Phase := PhaseDone\<rparr>))) ?Q ?R"
      by (simp add: run_seq)
    from run_hold_service [OF guard_path pending_kept(1) prepared_guard prepared_block prepared_stop _ this]
    have "run faults (prepared TextReporter t) (act_seq (ensureServiceRecoveryGuard paths (Txn_ServiceManager t))
        (act_seq (writeUpdateBlock (Txn_JobID t)) (act_seq (stopDash (Txn_ServiceManager t))
          (act_seq (rollbackBeforeMigration paths ?t []) (finalizeRecovery env (?t\<lparr>Txn_Phase := PhaseDone\<rparr>)))))) ?Q ?R"
      by (simp add: recovering_def)
    then show ?thesis unfolding recoverTransaction_def using fits'(2) p(2) by simp
  qed
  have "run faults (\<lambda>h. prepared TextReporter t h \<and> validUpdatePhase p \<and> p \<noteq> PhaseDone \<and> h_txn h = Some (txn_file (t\<lparr>Txn_Phase := p\<rparr>)))
      (recoverUpdateLocked env paths) ?Q ?R" for p
  proof (cases "validUpdatePhase p \<and> p \<noteq> PhaseDone \<and> \<not> Txn_MigrationStarted t")
    case True
    then show ?thesis by (intro run_recover_read [of _ "t\<lparr>Txn_Phase := p\<rparr>"] run_pre [OF body]) (simp_all add: txn_fits_phase [OF fits])
  qed (auto intro!: run_absurd simp: prepared_def prepared_base_def)
  from run_ex [OF this] show ?thesis by (rule run_pre) (auto simp: prepared_def prepared_base_def on_disk_def)
qed

lemma run_recover_forward:
  assumes fits: "txn_fits paths t" and guard_path: "systemdConditionPath (ip_blockFile paths) \<noteq> None" and clock: "clock_ok (ue_now env)"
  shows "run faults (forward TextReporter t) (recoverUpdateLocked env paths) (\<lambda>_. recovered t (Some (Txn_CandidateTarget t))) (\<lambda>h. (faults \<or> lost t h) \<and> recovering t h)"
    (is "run _ _ _ ?Q ?R")
proof -
  let ?c = "Some (Txn_CandidateTarget t)"
  have body: "run faults (forward TextReporter t) (recoverTransaction env paths (t\<lparr>Txn_Phase := p\<rparr>)) ?Q ?R"
    if p: "validUpdatePhase p" "p \<noteq> PhaseDone" and started: "Txn_MigrationStarted t" for p
  proof -
    let ?t = "t\<lparr>Txn_Phase := p\<rparr>"
    let ?F = "\<lambda>h. forward TextReporter t h \<and> blocked h \<and> h_running h = None"
    have act: "run faults ?F (activateRelease (Txn_CandidateTarget t) (Txn_Legacy t)) (\<lambda>_. ?F) ?R"
      by (rule run_weaken [OF run_reactivate [OF fits]]) (simp add: recovering_def)
    have fin: "run faults ?F (finishForward paths ?t TextReporter) (\<lambda>_. completed TextReporter t) ?R"
      using run_finish_forward [OF txn_fits_phase [OF fits p(1)], of TextReporter faults]
      by (auto simp: completed_def elim!: run_conseq) (auto simp: recovering_def)
    have final: "run faults (completed TextReporter t) (finalizeRecovery env (t\<lparr>Txn_Phase := PhaseDone\<rparr>)) ?Q ?R"
      by (rule run_conseq [OF run_finalize [OF fits clock, of faults ?c]]) (auto simp: recovering_def completed_def)
    have prune: "run faults (recovered t ?c) (act_bind (act_try pruneReleases) (\<lambda>_. act_ret ())) ?Q ?R"
      by (rule run_weaken [OF recovered_prune]) (use txn_fits_target [OF fits] in \<open>auto simp: recovering_def recovered_def\<close>)
    have "run faults ?F (act_seq (activateRelease (Txn_CandidateTarget t) (Txn_Legacy t)) (act_seq (finishForward paths ?t TextReporter)
        (act_seq (finalizeRecovery env (t\<lparr>Txn_Phase := PhaseDone\<rparr>)) (act_bind (act_try pruneReleases) (\<lambda>_. act_ret ()))))) ?Q ?R"
      by (rule run_seq [OF act run_seq [OF fin run_seq [OF final prune]]])
    from run_hold_service [OF guard_path pending_kept(2) forward_guard forward_block forward_stop _ this]
    show ?thesis unfolding recoverTransaction_def using started p(2) by (simp add: recovering_def)
  qed
  have "run faults (\<lambda>h. forward TextReporter t h \<and> validUpdatePhase p \<and> p \<noteq> PhaseDone \<and> h_txn h = Some (txn_file (t\<lparr>Txn_Phase := p\<rparr>)))
      (recoverUpdateLocked env paths) ?Q ?R" for p
  proof (cases "validUpdatePhase p \<and> p \<noteq> PhaseDone \<and> Txn_MigrationStarted t")
    case True
    then show ?thesis by (intro run_recover_read [of _ "t\<lparr>Txn_Phase := p\<rparr>"] run_pre [OF body]) (simp_all add: txn_fits_phase [OF fits])
  qed (auto intro!: run_absurd simp: forward_def forward_base_def)
  from run_ex [OF this] show ?thesis by (rule run_pre) (auto simp: forward_def forward_base_def on_disk_def)
qed

end
