(* ===== verification/Update_Apply.thy ===== *)
theory Update_Apply
  imports Update_Recovery
begin

text \<open>
  A whole run of the updater, from the request to the final status, keeps the host consistent.
\<close>

subsection \<open>Names and paths of a new transaction\<close>

definition ver_char :: "char \<Rightarrow> bool" where
  "ver_char c \<longleftrightarrow> job_char c \<or> c = CHR ''.'' \<or> c = CHR ''+''"

text \<open>Documented of \<open>semver.IsValid\<close>: identifiers are made of letters, digits and hyphens, separated by dots and a plus.\<close>

definition semver_chars :: "semver \<Rightarrow> bool" where
  "semver_chars sv \<longleftrightarrow> (\<forall>v. sv_IsValid sv v \<longrightarrow> list_all ver_char v)"

text \<open>\<open>os.MkdirTemp\<close> appends a decimal number.\<close>

definition env_ok :: "update_env \<Rightarrow> bool" where
  "env_ok env \<longleftrightarrow> semver_chars (ue_semver env) \<and> clock_ok (ue_now env) \<and> list_all is_digit (ue_temp env) \<and> length (ue_temp env) \<le> 20"

text \<open>A home whose path fits into a systemd condition and into a line of a state file.\<close>

definition home_char :: "char \<Rightarrow> bool" where
  "home_char c \<longleftrightarrow> visible c \<and> c \<noteq> CHR 0x5C \<and> c \<noteq> CHR 0x22"

definition home_fits :: "installPaths \<Rightarrow> bool" where
  "home_fits paths \<longleftrightarrow> newInstallPaths (ip_home paths) = Some paths \<and> list_all home_char (ip_home paths) \<and> length (ip_home paths) < 1000"

lemma home_parts:
  assumes "home_fits paths"
  obtains ps p where "list_all plain_part (ps @ [p])" "ip_home paths = abs_path (ps @ [p])" "path_dir (ip_home paths) = abs_path ps"
    "ip_releases paths = abs_path (ps @ [p, ''releases''])" "ip_blockFile paths = abs_path (ps @ [p, ''runtime'', ''dash-update'', ''update.block''])"
proof -
  obtain raw where new: "newInstallPaths raw = Some paths" using assms by (auto simp: home_fits_def)
  define home where "home = path_clean (trim_space raw)"
  have h: "path_is_abs home" "home \<noteq> ''/''" "ip_home paths = home" "ip_releases paths = path_join [home, ''releases'']"
    "ip_blockFile paths = path_join [path_join [home, ''runtime'', ''dash-update''], ''update.block'']"
    using new by (auto simp: newInstallPaths_def home_def Let_def split: if_splits)
  define qs where "qs = path_parts (trim_space raw)"
  have q: "home = abs_path qs" "list_all plain_part qs"
    using path_clean_components [of "trim_space raw"] h(1) path_clean_keeps_abs by (simp_all add: home_def qs_def)
  then have "qs \<noteq> []" using h(2) by (auto simp: abs_path_def)
  then obtain ps p where qs: "qs = ps @ [p]" by (metis rev_exhaust)
  have plain: "list_all plain_part [''releases'']" "list_all plain_part [''runtime'', ''dash-update'']" "list_all plain_part [''update.block'']"
    by (simp_all add: plain_part_def)
  have "ip_releases paths = abs_path (qs @ [''releases''])" using h(4) q path_join_abs [of qs "[''releases'']"] plain by simp
  moreover have "ip_blockFile paths = abs_path ((qs @ [''runtime'', ''dash-update'']) @ [''update.block''])"
    using h(5) q path_join_abs [of qs "[''runtime'', ''dash-update'']"] path_join_abs [of "qs @ [''runtime'', ''dash-update'']" "[''update.block'']"] plain by simp
  ultimately show thesis
    using that [of ps p] q qs h(3) path_dir_abs [of ps p] by simp
qed

lemma abs_path_all: "list_all P (abs_path ps) \<longleftrightarrow> P (CHR ''/'') \<and> list_all (list_all P) ps"
proof (induction ps)
  case (Cons p ps)
  then show ?case by (cases "ps = []") (auto simp: abs_path_def join_with_Cons)
qed (simp add: abs_path_def)

lemma abs_path_length: "length (abs_path ps) \<le> 1 + sum_list (map (\<lambda>p. length p + 1) ps)"
proof (induction ps)
  case (Cons p ps)
  then show ?case by (cases "ps = []") (auto simp: abs_path_def join_with_Cons)
qed (simp add: abs_path_def)

lemma home_guard: "home_fits paths \<Longrightarrow> systemdConditionPath (ip_blockFile paths) \<noteq> None"
proof -
  assume fits: "home_fits paths"
  obtain ps p where h: "ip_home paths = abs_path (ps @ [p])" "ip_blockFile paths = abs_path (ps @ [p, ''runtime'', ''dash-update'', ''update.block''])"
    using home_parts [OF fits] by metis
  have "list_all home_char (abs_path (ps @ [p]))" using fits h(1) by (simp add: home_fits_def)
  then have "list_all home_char (ip_blockFile paths)"
    unfolding h(2) abs_path_all by (simp add: home_char_def visible_def)
  then have "\<not> contains_any (ip_blockFile paths) [CHR '' '', CHR 0x09, CHR 0x0D, CHR 0x0A, CHR 0x5C, CHR 0x22]"
    by (fastforce simp: contains_any_def list_ex_iff list_all_iff home_char_def visible_def)
  moreover have "path_is_abs (ip_blockFile paths)" by (simp add: h(2))
  ultimately show ?thesis by (simp add: systemdConditionPath_def)
qed

definition release_name :: "update_env \<Rightarrow> jobRequest \<Rightarrow> string" where
  "release_name env req = Plan_TargetVersion (Job_Plan req) @ ''-'' @ format_compact_utc (ue_now env) @ ''-'' @ Job_ID req"

definition request_fits :: "semver \<Rightarrow> jobRequest \<Rightarrow> bool" where
  "request_fits sv req \<longleftrightarrow> validJobID (Job_ID req) \<and> trim_space (Job_ID req) = Job_ID req \<and>
     trim_space (Plan_TargetVersion (Job_Plan req)) = Plan_TargetVersion (Job_Plan req) \<and> Validate sv (Plan_TargetVersion (Job_Plan req)) = None"

lemma read_request_fits: "readJobRequest sv fl = Inr req \<Longrightarrow> request_fits sv req"
  by (auto simp: readJobRequest_def request_fits_def requiredStatusField_def plan_validate_def Let_def split: sum.splits prod.splits if_splits option.splits)

lemma compact_chars:
  assumes "clock_ok t"
  shows "list_all job_char (format_compact_utc t)"
proof -
  obtain y m d where ymd: "time_date UTC t = (y, m, d)" by (metis prod_cases3)
  have y: "0 \<le> y" "y < 10 ^ 4" using assms ymd by (simp_all add: clock_ok_def time_year_def)
  note f = date_range [OF ymd]
  define c where "c = local_secs UTC t mod 86400"
  note r = clock_range [OF c_def]
  have digits: "list_all is_digit s \<Longrightarrow> list_all job_char s" for s by (auto simp: list_all_iff job_char_def)
  have two: "list_all job_char (pad 2 i)" if "0 \<le> i" "i < 100" for i using pad_chars [of i 2] that digits by simp
  have four: "list_all job_char (pad 4 y)" using pad_chars [of y 4] y digits by simp
  have "format_compact_utc t = pad 4 y @ pad 2 m @ pad 2 d @ ''T'' @ pad 2 (c div 3600) @ pad 2 (c div 60 mod 60) @ pad 2 (c mod 60) @ ''Z''"
    by (simp add: format_compact_utc_def ymd c_def Let_def)
  then show ?thesis using f r four two [of m] two [of d] two [of "c div 3600"] two [of "c div 60 mod 60"] two [of "c mod 60"]
    by (simp add: job_char_def)
qed

lemma ver_char_visible: "ver_char c \<Longrightarrow> visible c \<and> c \<noteq> CHR ''/''"
  by (auto simp: ver_char_def job_char_def is_digit_def visible_def)

lemma job_visible: "list_all job_char s \<Longrightarrow> list_all visible s"
proof -
  have "job_char c \<Longrightarrow> visible c" for c using ver_char_visible [of c] by (simp add: ver_char_def)
  then show "list_all job_char s \<Longrightarrow> list_all visible s" by (simp add: list_all_iff)
qed

lemma release_name_plain:
  assumes "env_ok env" "request_fits (ue_semver env) req"
  shows "plain_part (release_name env req)" "list_all visible (release_name env req)"
proof -
  let ?v = "Plan_TargetVersion (Job_Plan req)"
  have valid: "sv_IsValid (ue_semver env) (''v'' @ ?v)"
    using assms(2) by (auto simp: request_fits_def Validate_def normalize_def Let_def split: sum.splits if_splits)
  have "list_all ver_char (''v'' @ ?v)" using assms(1) valid unfolding env_ok_def semver_chars_def by blast
  then have "list_all ver_char ?v" by simp
  moreover have "list_all job_char (Job_ID req)" using assms(2) unfolding request_fits_def validJobID_def Let_def by metis
  moreover have "list_all job_char (format_compact_utc (ue_now env))" using assms(1) compact_chars by (simp add: env_ok_def)
  ultimately have chars: "list_all ver_char (release_name env req)"
    by (auto simp: release_name_def list_all_iff ver_char_def) (auto simp: job_char_def)
  then show "list_all visible (release_name env req)" using ver_char_visible by (auto simp: list_all_iff)
  have "CHR ''/'' \<notin> set (release_name env req)" using chars ver_char_visible by (auto simp: list_all_iff)
  moreover have "CHR ''-'' \<in> set (release_name env req)" by (simp add: release_name_def)
  ultimately show "plain_part (release_name env req)" by (auto simp: plain_part_def)
qed

definition temp_name :: "update_env \<Rightarrow> string" where
  "temp_name env = ''.ithiltir-dash-update-'' @ ue_temp env"

lemma temp_name_plain: "env_ok env \<Longrightarrow> plain_part (temp_name env) \<and> list_all visible (temp_name env) \<and> length (temp_name env) < 100"
  by (auto simp: env_ok_def temp_name_def plain_part_def digits_visible visible_def list_all_iff is_digit_def)

text \<open>The paths of a new transaction, by their components.\<close>

lemma stage_paths:
  assumes "home_fits paths" "env_ok env" "plain_part name"
  obtains ps p where "list_all plain_part (ps @ [p])" "ip_home paths = abs_path (ps @ [p])" "path_dir (ip_home paths) = abs_path ps"
    "ip_releases paths = abs_path (ps @ [p, ''releases''])" "path_join [ip_releases paths, name] = abs_path (ps @ [p, ''releases'', name])"
    "path_join [''releases'', name] = ''releases/'' @ name" "path_join [ip_home paths, ''releases/'' @ name] = abs_path (ps @ [p, ''releases'', name])"
    "path_join [path_dir (ip_home paths), temp_name env] = abs_path (ps @ [temp_name env])"
    "path_join [abs_path (ps @ [temp_name env]), ''backup'', ''legacy''] = abs_path (ps @ [temp_name env, ''backup'', ''legacy''])"
proof -
  obtain ps p where h: "list_all plain_part (ps @ [p])" "ip_home paths = abs_path (ps @ [p])" "path_dir (ip_home paths) = abs_path ps"
    "ip_releases paths = abs_path (ps @ [p, ''releases''])" using home_parts [OF assms(1)] by metis
  have plain: "list_all plain_part [''releases'']" "list_all plain_part [''backup'', ''legacy'']" "list_all plain_part [''releases'', name]"
    "list_all plain_part [temp_name env]" using assms(3) temp_name_plain [OF assms(2)] by (simp_all add: plain_part_def)
  show thesis
  proof (rule that [of ps p])
    show "path_join [ip_releases paths, name] = abs_path (ps @ [p, ''releases'', name])"
      using path_join_abs [of "ps @ [p, ''releases'']" "[name]"] h plain assms(3) by simp
    show "path_join [''releases'', name] = ''releases/'' @ name"
      using path_clean_relative [OF plain(3)] by (simp add: path_join_def)
    have "path_join [ip_home paths, ''releases/'' @ name] = path_join [ip_home paths, ''releases'', name]" by (simp add: path_join_def)
    then show "path_join [ip_home paths, ''releases/'' @ name] = abs_path (ps @ [p, ''releases'', name])"
      using path_join_abs [of "ps @ [p]" "[''releases'', name]"] h plain by simp
    show "path_join [path_dir (ip_home paths), temp_name env] = abs_path (ps @ [temp_name env])"
      using path_join_abs [of ps "[temp_name env]"] h plain by simp
    show "path_join [abs_path (ps @ [temp_name env]), ''backup'', ''legacy''] = abs_path (ps @ [temp_name env, ''backup'', ''legacy''])"
      using path_join_abs [of "ps @ [temp_name env]" "[''backup'', ''legacy'']"] h plain by simp
  qed (fact h)+
qed

lemma staged_values:
  assumes "home_fits paths" "ip_home paths = abs_path (ps @ [p])" "list_all (list_all visible) qs" "list_all (\<lambda>q. length q < 300) qs" "length qs \<le> 5"
  shows "value_ok (abs_path (ps @ qs))" "value_ok (abs_path (ps @ p # qs))"
proof -
  have vis: "list_all visible (abs_path (ps @ [p]))" and len: "length (abs_path (ps @ [p])) < 1000"
    using assms(1,2) by (auto simp: home_fits_def home_char_def list_all_iff)
  have parts: "list_all (list_all visible) ps" "list_all visible p" using vis by (simp_all add: abs_path_all)
  have total: "length (join_with ''/'' rs) \<le> 301 * length rs" if "list_all (\<lambda>q. length q < 300) rs" for rs :: "string list"
    using that
  proof (induction rs)
    case (Cons r rs)
    then show ?case by (cases "rs = []") (auto simp: join_with_Cons)
  qed simp
  have q: "length (join_with ''/'' qs) \<le> 1505" using total [OF assms(4)] assms(5) by linarith
  have ps: "length (abs_path ps) < 1000" using len by (cases "ps = []") (simp_all add: abs_path_append, simp add: abs_path_def)
  have split: "length (abs_path (rs @ qs)) \<le> length (abs_path rs) + 1 + length (join_with ''/'' qs)" for rs
    by (cases "rs = []"; cases "qs = []") (simp_all add: abs_path_append, simp add: abs_path_def)
  have "length (abs_path (ps @ qs)) < 60000" "length (abs_path ((ps @ [p]) @ qs)) < 60000"
    using split [of ps] split [of "ps @ [p]"] ps len q by linarith+
  moreover have "visible (CHR ''/'')" by (simp add: visible_def)
  ultimately show "value_ok (abs_path (ps @ qs))" "value_ok (abs_path (ps @ p # qs))"
    using parts assms(3) by (auto intro!: visible_value simp: abs_path_all)
qed

definition inst_fits :: "installedState \<Rightarrow> bool" where
  "inst_fits inst \<longleftrightarrow> (if Inst_Legacy inst then Inst_Target inst = [] else validReleaseTarget (Inst_Target inst) \<and> value_ok (Inst_Target inst))"

lemma new_txn_fits:
  assumes "home_fits paths" "env_ok env" "request_fits (ue_semver env) req" "length (release_name env req) \<le> NAME_MAX" "inst_fits inst"
    "manager = ''systemd'' \<or> manager = ''none''" "Inst_Target inst \<noteq> ''releases/'' @ release_name env req"
    "tempRoot = path_join [path_dir (ip_home paths), ''.ithiltir-dash-update-'' @ ue_temp env]"
    "backupDir = (if Inst_Legacy inst then path_join [tempRoot, ''backup'', ''legacy''] else [])"
    "cand = (path_join [ip_releases paths, release_name env req], path_join [''releases'', release_name env req])"
    "t = newTransaction env req inst manager cand tempRoot backupDir wasActive"
  shows "txn_fits paths t \<and> Txn_CandidateTarget t = ''releases/'' @ release_name env req \<and> path_base (fst cand) = release_name env req \<and>
    optional_clean tempRoot \<and> tempRoot \<noteq> [] \<and> pathWithin (ip_releases paths) (fst cand)"
proof -
  let ?n = "release_name env req"
  note name = release_name_plain [OF assms(2,3)]
  note temp = temp_name_plain [OF assms(2)]
  obtain ps p where h: "list_all plain_part (ps @ [p])" "ip_home paths = abs_path (ps @ [p])" "path_dir (ip_home paths) = abs_path ps"
    "ip_releases paths = abs_path (ps @ [p, ''releases''])" "path_join [ip_releases paths, ?n] = abs_path (ps @ [p, ''releases'', ?n])"
    "path_join [''releases'', ?n] = ''releases/'' @ ?n" "path_join [ip_home paths, ''releases/'' @ ?n] = abs_path (ps @ [p, ''releases'', ?n])"
    "path_join [path_dir (ip_home paths), temp_name env] = abs_path (ps @ [temp_name env])"
    "path_join [abs_path (ps @ [temp_name env]), ''backup'', ''legacy''] = abs_path (ps @ [temp_name env, ''backup'', ''legacy''])"
    using stage_paths [OF assms(1,2) name(1)] by metis
  have tr: "tempRoot = abs_path (ps @ [temp_name env])" using assms(8) h(8) by (simp add: temp_name_def)
  have plain: "list_all plain_part (ps @ [p, ''releases'', ?n])" "list_all plain_part (ps @ [temp_name env, ''backup'', ''legacy''])"
    "list_all plain_part (ps @ [temp_name env])" "list_all plain_part (ps @ [p, ''releases''])" "list_all plain_part ps"
    using h(1) name(1) temp by (simp_all add: plain_part_def)
  have vis: "list_all visible ''releases''" "list_all visible ''backup''" "list_all visible ''legacy''" by (simp_all add: visible_def)
  have vals: "value_ok (abs_path (ps @ [p, ''releases'', ?n]))" "value_ok (abs_path (ps @ [temp_name env]))"
    "value_ok (abs_path (ps @ [temp_name env, ''backup'', ''legacy'']))"
    using staged_values(2) [OF assms(1) h(2), of "[''releases'', ?n]"] staged_values(1) [OF assms(1) h(2), of "[temp_name env]"]
      staged_values(1) [OF assms(1) h(2), of "[temp_name env, ''backup'', ''legacy'']"] vis name(2) temp assms(4) by (simp_all add: NAME_MAX_def)
  have base: "path_base (abs_path (ps @ [p, ''releases'', ?n])) = ?n" "path_base (abs_path (ps @ [temp_name env])) = temp_name env"
    using path_base_abs [of ?n "ps @ [p, ''releases'']"] path_base_abs [of "temp_name env" ps] name(1) temp by simp_all
  have within: "pathWithin (abs_path (ps @ [p, ''releases''])) (abs_path (ps @ [p, ''releases'', ?n]))"
    "pathWithin (abs_path ps) (abs_path (ps @ [temp_name env]))"
    "pathWithin (abs_path ps) (abs_path (ps @ [temp_name env, ''backup'', ''legacy'']))"
    "pathWithin (abs_path (ps @ [temp_name env])) (abs_path (ps @ [temp_name env, ''backup'', ''legacy'']))"
    using pathWithin_abs [of "ps @ [p, ''releases'']" "[?n]"] pathWithin_abs [of ps "[temp_name env]"]
      pathWithin_abs [of ps "[temp_name env, ''backup'', ''legacy'']"] pathWithin_abs [of "ps @ [temp_name env]" "[''backup'', ''legacy'']"]
      plain name(1) by simp_all
  have prefix: "has_prefix (temp_name env) ''.ithiltir-dash-update-''" by (simp add: temp_name_def has_prefix_def)
  have ne: "abs_path qs \<noteq> []" for qs by (simp add: abs_path_def)
  have f: "Txn_CandidateDir t = abs_path (ps @ [p, ''releases'', ?n])" "Txn_CandidateTarget t = ''releases/'' @ ?n" "Txn_TempRoot t = abs_path (ps @ [temp_name env])"
    "Txn_BackupDir t = (if Inst_Legacy inst then abs_path (ps @ [temp_name env, ''backup'', ''legacy'']) else [])" "Txn_Legacy t = Inst_Legacy inst"
    "Txn_ServiceManager t = manager" "Txn_PreviousTarget t = Inst_Target inst"
    using h(5,6,9) tr by (simp_all only: assms(9-11) newTransaction_def updateTransaction.select_convs fst_conv snd_conv)
  have joined: "path_clean (Txn_CandidateDir t) = path_clean (path_join [ip_home paths, Txn_CandidateTarget t])"
    unfolding f(1,2) using h(7) plain(1) by simp
  have valid: "validateTransactionPaths paths t = []"
    unfolding validateTransactionPaths_def joined using assms(6) ne within base prefix by (simp add: f(1,3-6) h(3,4))
  have job: "validJobID (Job_ID req)" "value_ok (Job_ID req)"
  proof -
    show v: "validJobID (Job_ID req)" using assms(3) by (simp add: request_fits_def)
    have "list_all job_char (Job_ID req) \<and> length (Job_ID req) \<le> 128" using assms(3) unfolding request_fits_def validJobID_def Let_def by metis
    then show "value_ok (Job_ID req)" using job_visible by (intro visible_value) auto
  qed
  have target: "validReleaseTarget (''releases/'' @ ?n)" "value_ok (''releases/'' @ ?n)"
  proof -
    show "validReleaseTarget (''releases/'' @ ?n)" by (rule valid_target [OF name(1)])
    show "value_ok (''releases/'' @ ?n)" by (rule visible_value) (use name(2) assms(4) in \<open>simp_all add: visible_def NAME_MAX_def\<close>)
  qed
  have mgr: "value_ok manager" using assms(6) by (auto intro!: visible_value simp: visible_def)
  have now: "clock_ok (ue_now env)" using assms(2) by (simp add: env_ok_def)
  have clean: "optional_clean (abs_path qs)" if "list_all plain_part qs" "value_ok (abs_path qs)" for qs
    using that by (simp add: optional_clean_def)
  have "txn_ok t" using job target mgr assms(5) clean [OF plain(1) vals(1)] clean [OF plain(3) vals(2)] clean [OF plain(2) vals(3)]
      parse_printed [OF now] printed_value [OF now]
    unfolding txn_ok_def f by (auto simp: assms(11) newTransaction_def optional_target_def inst_fits_def optional_clean_def split: if_splits)
  moreover have "path_base (fst cand) = ?n" using base(1) by (simp add: assms(10) h(5))
  moreover have "Inst_Target inst \<noteq> []" if "\<not> Inst_Legacy inst" using that assms(5) by (auto simp: inst_fits_def validReleaseTarget_def)
  ultimately show ?thesis
    unfolding txn_fits_def candidate_named_def f using valid assms(7) within(1,3) clean [OF plain(3) vals(2)] ne tr base(1) h(3,4,5) assms(10)
    by simp
qed

subsection \<open>Staging\<close>

definition ready :: "string \<Rightarrow> host \<Rightarrow> bool" where
  "ready j h \<longleftrightarrow> idle h \<and> reporting JobReporter j h"

definition installed_of :: "installedState \<Rightarrow> host \<Rightarrow> bool" where
  "installed_of inst h \<longleftrightarrow> Inst_Legacy inst = (h_current h = None) \<and> Inst_Target inst = (case h_current h of None \<Rightarrow> [] | Some t \<Rightarrow> t)"

definition managed_by :: "string \<Rightarrow> host \<Rightarrow> bool" where
  "managed_by manager h \<longleftrightarrow> (h_systemd h \<longrightarrow> manager = ''systemd'')"

definition staging :: "string \<Rightarrow> string \<Rightarrow> installedState \<Rightarrow> host \<Rightarrow> bool" where
  "staging j manager inst h \<longleftrightarrow> ready j h \<and> managed_by manager h \<and> installed_of inst h"

lemma settled_frame [simp]:
  "settled (h\<lparr>h_temp := tp\<rparr>) = settled h" "settled (h\<lparr>h_item := it\<rparr>) = settled h" "settled (h\<lparr>h_status := st\<rparr>) = settled h"
  "settled (h\<lparr>h_txn := tx\<rparr>) = settled h" "settled (save_item h) = settled h"
  by (simp_all add: settled_def)

lemma reporting_statuses: "reporting rep j h \<Longrightarrow> statuses h"
  by (simp add: reporting_def)

lemma tracks_ready: "tracks JobReporter (ready j)"
  by (auto simp: tracks_def ready_def idle_def reporting_item reporting_save dest: reporting_statuses [OF reporting_save])

lemma tracks_staging: "tracks JobReporter (staging j manager inst)"
  unfolding staging_def
  by (rule tracks_conj [OF tracks_ready]) (simp_all add: managed_by_def installed_of_def save_item_def)

lemma staging_temp: "staging j manager inst (h\<lparr>h_temp := tp\<rparr>) = staging j manager inst h"
  by (simp add: staging_def ready_def idle_def managed_by_def installed_of_def)

lemma entry_more: "entry_binary h = Some b \<Longrightarrow> entry_binary (h\<lparr>h_releases := n # h_releases h\<rparr>) = Some b"
  by (auto simp: entry_binary_def split: option.splits entry.splits if_splits)

lemma settled_more: "settled h \<Longrightarrow> settled (h\<lparr>h_releases := n # h_releases h\<rparr>)"
  using entry_more [of h] by (auto simp: settled_def)

lemma settled_less: "settled h \<Longrightarrow> h_current h \<noteq> Some (''releases/'' @ n) \<Longrightarrow> settled (h\<lparr>h_releases := filter (\<lambda>m. m \<noteq> n) (h_releases h)\<rparr>)"
  using entry_without [of h _ n] by (auto simp: settled_def)

lemma linked_bin: "linked h \<Longrightarrow> link_entry (h_home h bin_alias)"
  by (simp add: linked_def install_aliases_def)

lemma entry_cases:
  "entry_binary h = Some b \<Longrightarrow> h_current h = None \<Longrightarrow> \<exists>c. h_home h bin_alias = Some (Tree c) \<and> b = LegacyBinary c"
  "entry_binary h = Some b \<Longrightarrow> h_current h = Some cu \<Longrightarrow> link_entry (h_home h bin_alias) \<Longrightarrow> bin_linked h \<and> b = ReleaseBinary cu \<and> released h cu"
  by (auto simp: entry_binary_def bin_linked_def link_entry_def released_def split: option.splits entry.splits if_splits)

lemma settled_bin:
  assumes "settled h"
  shows "h_current h = None \<Longrightarrow> \<exists>c. h_home h bin_alias = Some (Tree c) \<and> h_schema h = LegacyBinary c"
    "h_current h = Some cu \<Longrightarrow> linked h \<and> bin_linked h \<and> h_schema h = ReleaseBinary cu \<and> released h cu"
  using assms entry_cases [of h "h_schema h"] linked_bin [of h] unfolding settled_def by auto

lemma settled_current: "settled h \<Longrightarrow> n \<notin> set (h_releases h) \<Longrightarrow> h_current h \<noteq> Some (''releases/'' @ n)"
  using settled_bin(2) [of h "''releases/'' @ n"] unfolding released_def by auto

text \<open>The candidate is there and is not what is installed.\<close>

definition candidate_of :: "string \<Rightarrow> host \<Rightarrow> bool" where
  "candidate_of n h \<longleftrightarrow> released h (''releases/'' @ n) \<and> h_current h \<noteq> Some (''releases/'' @ n)"

lemma staging_remove:
  "staging j manager inst h \<Longrightarrow> candidate_of n h \<Longrightarrow> staging j manager inst (h\<lparr>h_releases := filter (\<lambda>m. m \<noteq> n) (h_releases h)\<rparr>)"
  using settled_less [of h n] by (auto simp: staging_def ready_def idle_def managed_by_def installed_of_def candidate_of_def)

lemma run_prepare:
  assumes "home_fits paths" "env_ok env" "request_fits (ue_semver env) req" "\<And>h r. T (h\<lparr>h_releases := r\<rparr>) = T h"
  shows "run True (\<lambda>h. staging j manager inst h \<and> T h) (prepareRelease env paths (Plan_TargetVersion (Job_Plan req)) (Job_ID req))
    (\<lambda>cand h. (staging j manager inst h \<and> T h) \<and> candidate_of (release_name env req) h \<and> length (release_name env req) \<le> NAME_MAX \<and>
       cand = (path_join [ip_releases paths, release_name env req], path_join [''releases'', release_name env req])) (\<lambda>h. staging j manager inst h \<and> T h)"
proof -
  let ?n = "release_name env req"
  let ?P = "\<lambda>h. staging j manager inst h \<and> T h"
  let ?C = "\<lambda>h. ?P h \<and> candidate_of ?n h"
  let ?cand = "(path_join [ip_releases paths, ?n], path_join [''releases'', ?n])"
  have base: "path_base (path_join [ip_releases paths, ?n]) = ?n"
    using stage_paths [OF assms(1,2) release_name_plain(1) [OF assms(2,3)]] path_base_abs release_name_plain(1) [OF assms(2,3)]
    by (metis append_Cons append_Nil append_assoc)
  have move: "?C (h\<lparr>h_releases := ?n # h_releases h\<rparr>)" if "?P h" "?n \<notin> set (h_releases h)" for h
    using that assms(4) settled_more [of h] settled_current [of h ?n]
    by (auto simp: candidate_of_def released_def staging_def ready_def idle_def managed_by_def installed_of_def)
  have remove: "?P (h\<lparr>h_releases := filter (\<lambda>m. m \<noteq> ?n) (h_releases h)\<rparr>)" if "?C h" for h
    using that staging_remove assms(4) by auto
  have clean: "run True ?C (act_cleanup (commit ''remove'' (\<lambda>h. h\<lparr>h_releases := filter (\<lambda>m. m \<noteq> ?n) (h_releases h)\<rparr>)) (io ''sync'')) (\<lambda>_. ?C) ?P"
    by (rule run_cleanup [OF run_io [where R = ?C] run_commit]) (use remove in auto)
  have "run True (\<lambda>h. ?P h \<and> (?n \<in> set (h_releases h)) = x) (if x then act_fail [BadState ''file exists'']
      else act_seq (commit ''move release'' (\<lambda>h. h\<lparr>h_releases := ?n # h_releases h\<rparr>))
        (act_seq (act_cleanup (commit ''remove'' (\<lambda>h. h\<lparr>h_releases := filter (\<lambda>m. m \<noteq> ?n) (h_releases h)\<rparr>)) (io ''sync'')) (act_ret ?cand)))
      (\<lambda>c h. ?C h \<and> c = ?cand) ?P" for x
    by (cases x) (auto intro!: run_fail run_seq [OF run_commit [where Q = "\<lambda>_. ?C"] run_seq [OF clean run_ret]] simp: move)
  then have "run True ?P (act_bind (act_get (\<lambda>h. ?n \<in> set (h_releases h))) (\<lambda>present. if present then act_fail [BadState ''file exists'']
      else act_seq (commit ''move release'' (\<lambda>h. h\<lparr>h_releases := ?n # h_releases h\<rparr>))
        (act_seq (act_cleanup (commit ''remove'' (\<lambda>h. h\<lparr>h_releases := filter (\<lambda>m. m \<noteq> ?n) (h_releases h)\<rparr>)) (io ''sync'')) (act_ret ?cand))))
      (\<lambda>c h. ?C h \<and> c = ?cand) ?P" by (rule run_get)
  then have "run True ?P (if length ?n > NAME_MAX then act_fail [Io ''file name too long'']
      else act_bind (act_get (\<lambda>h. ?n \<in> set (h_releases h))) (\<lambda>present. if present then act_fail [BadState ''file exists'']
      else act_seq (commit ''move release'' (\<lambda>h. h\<lparr>h_releases := ?n # h_releases h\<rparr>))
        (act_seq (act_cleanup (commit ''remove'' (\<lambda>h. h\<lparr>h_releases := filter (\<lambda>m. m \<noteq> ?n) (h_releases h)\<rparr>)) (io ''sync'')) (act_ret ?cand))))
      (\<lambda>c h. ?P h \<and> candidate_of ?n h \<and> length ?n \<le> NAME_MAX \<and> c = ?cand) ?P"
    by (cases "length ?n > NAME_MAX") (auto intro!: run_fail elim!: run_conseq)
  then have "run True ?P (act_seq (io ''create releases'') (if \<not> pathWithin (ip_releases paths) (path_join [ip_releases paths, ?n]) then act_fail [BadState ''release path'']
      else if length ?n > NAME_MAX then act_fail [Io ''file name too long'']
      else act_bind (act_get (\<lambda>h. ?n \<in> set (h_releases h))) (\<lambda>present. if present then act_fail [BadState ''file exists'']
      else act_seq (commit ''move release'' (\<lambda>h. h\<lparr>h_releases := ?n # h_releases h\<rparr>))
        (act_seq (act_cleanup (commit ''remove'' (\<lambda>h. h\<lparr>h_releases := filter (\<lambda>m. m \<noteq> ?n) (h_releases h)\<rparr>)) (io ''sync'')) (act_ret ?cand)))))
      (\<lambda>c h. ?P h \<and> candidate_of ?n h \<and> length ?n \<le> NAME_MAX \<and> c = ?cand) ?P"
    by (intro run_seq [OF run_io [where Q = "\<lambda>_. ?P"]] run_cases run_fail) auto
  then show ?thesis unfolding prepareRelease_def Let_def release_name_def [symmetric] base .
qed

definition staged_in :: "string \<Rightarrow> host \<Rightarrow> bool" where
  "staged_in root h \<longleftrightarrow> (\<exists>b rest. h_temp h = (root, b) # rest)"

lemma managed_bin: "managed bin_alias"
  by (simp add: managed_def managedLegacyPaths_def under_def)

lemma backup_set: "staged_in root h \<Longrightarrow> backup_of (set_backup root src h) (path_join [root, ''backup'', ''legacy'']) = Some src"
  by (auto simp: staged_in_def set_backup_def backup_of_def)

text \<open>What is needed for the transaction to be written.\<close>

definition stageable :: "string \<Rightarrow> string \<Rightarrow> installedState \<Rightarrow> string \<Rightarrow> string \<Rightarrow> host \<Rightarrow> bool" where
  "stageable j manager inst root n h \<longleftrightarrow> staging j manager inst h \<and> staged_in root h \<and> candidate_of n h"

lemma stageable_prepared:
  assumes "stageable (Txn_JobID t) (Txn_ServiceManager t) inst root n h"
    "Txn_Legacy t = Inst_Legacy inst" "Txn_PreviousTarget t = Inst_Target inst" "Txn_CandidateTarget t = ''releases/'' @ n" "Txn_Phase t = PhasePrepared"
    "\<not> Txn_MigrationStarted t" "Inst_Legacy inst \<Longrightarrow> backup_of h (Txn_BackupDir t) = Some (legacy_tree h)"
  shows "prepared JobReporter t (h\<lparr>h_txn := Some (txn_file t)\<rparr>)"
proof -
  have st: "settled h" "reporting JobReporter (Txn_JobID t) h" "managed_by (Txn_ServiceManager t) h" "installed_of inst h" "released h (Txn_CandidateTarget t)"
    using assms(1,4) by (auto simp: stageable_def staging_def ready_def idle_def candidate_of_def)
  have disk: "on_disk t (h\<lparr>h_txn := Some (txn_file t)\<rparr>)"
    unfolding on_disk_def by (rule exI [of _ PhasePrepared]) (use assms(5) in \<open>cases t; simp\<close>)
  have own: "kept t h" "served h" "\<not> h_migrating h" "entry_binary h = Some (h_schema h)"
    using st(1,3) by (simp_all add: kept_def managed_by_def settled_def)
  show ?thesis
  proof (cases "h_current h")
    case None
    then have l: "Txn_Legacy t" using st(4) assms(2) by (simp add: installed_of_def)
    obtain c where "h_home h bin_alias = Some (Tree c)" "h_schema h = LegacyBinary c" using settled_bin(1) [OF st(1) None] by blast
    then have "restorable t h" using l assms(2,7) managed_bin by (simp add: restorable_def legacy_tree_def)
    then show ?thesis using l st disk own assms(6) by (simp add: state_defs)
  next
    case (Some cu)
    then have l: "\<not> Txn_Legacy t" "Txn_PreviousTarget t = cu" using st(4) assms(2,3) by (simp_all add: installed_of_def)
    then have "restorable t h" using settled_bin(2) [OF st(1) Some] Some by (simp add: restorable_def)
    then show ?thesis using l st disk own assms(6) settled_bin(2) [OF st(1) Some] by (simp add: state_defs)
  qed
qed

lemma run_backup:
  "run True (stageable j manager inst root n) (backupLegacyInstall root)
    (\<lambda>_ h. stageable j manager inst root n h \<and> backup_of h (path_join [root, ''backup'', ''legacy'']) = Some (legacy_tree h)) (stageable j manager inst root n)"
proof -
  have set_ok: "stageable j manager inst root n (set_backup root src h)" if "stageable j manager inst root n h" for src h
    using that by (auto simp: stageable_def set_backup_def staging_temp staged_in_def candidate_of_def)
  have tree: "legacy_tree (set_backup root src h) = legacy_tree h" for src h by (simp add: legacy_tree_def set_backup_def fun_eq_iff)
  have root: "stageable j manager inst root n h \<Longrightarrow> staged_in root h" for h by (simp add: stageable_def)
  show ?thesis unfolding backupLegacyInstall_def
    by (rule run_seq [OF run_commit [where Q = "\<lambda>_. stageable j manager inst root n"] run_commit])
      (auto intro: set_ok simp: tree backup_set [OF root])
qed

lemma runs_commit_txn:
  assumes "txn_fits paths t" "optional_clean (Txn_TempRoot t)" "Txn_TempRoot t \<noteq> []"
    "\<And>h. P h \<Longrightarrow> prepared JobReporter t (h\<lparr>h_txn := Some (txn_file t)\<rparr>)"
  shows "runs True P (commitTransaction t) (\<lambda>(t', e) h. t' = t \<and> prepared JobReporter t h) P (\<lambda>h. P h \<or> prepared JobReporter t h)"
proof -
  have "transactionData t = Inr (txn_file t)" using assms(1) txn_read by (simp add: txn_fits_def)
  then have w: "writeTransactionState t = commit_state ''transaction'' (\<lambda>h. h\<lparr>h_txn := Some (txn_file t)\<rparr>)" by (simp add: writeTransactionState_def)
  let ?Q = "\<lambda>(t', e :: install_error list) h. t' = t \<and> prepared JobReporter t h"
  let ?C = "\<lambda>h. P h \<or> prepared JobReporter t h"
  have "runs True (prepared JobReporter t) (setRecoveryPath (Txn_TempRoot t)) (\<lambda>_. prepared JobReporter t) P (prepared JobReporter t)"
    by (rule runs_recovery_path [OF tracks_states(1) assms(2,3)])
  then have "runs True (prepared JobReporter t) (setRecoveryPath (Txn_TempRoot t)) (\<lambda>_. prepared JobReporter t) P ?C"
    unfolding runs_def by (auto elim!: wp_mono)
  then have path: "runs True (prepared JobReporter t) (act_seq (setRecoveryPath (Txn_TempRoot t)) (act_ret (t, e))) ?Q P ?C" for e
    by (rule runs_seq) (simp add: runs_ret)
  let ?S = "\<lambda>(c, e) h. if c then prepared JobReporter t h else P h \<and> e \<noteq> []"
  show ?thesis unfolding commitTransaction_def w
  proof (rule runs_bind [where S = ?S])
    show "runs True P (commit_state ''transaction'' (\<lambda>h. h\<lparr>h_txn := Some (txn_file t)\<rparr>)) ?S P ?C"
      by (rule runs_commit_state) (auto simp: assms(4))
    fix x :: "bool \<times> install_error list"
    obtain c e where x: "x = (c, e)" by fastforce
    show "runs True (?S x) (case x of (committed, e) \<Rightarrow> if e = [] then act_ret (t, [])
        else if committed then act_seq (setRecoveryPath (Txn_TempRoot t)) (act_ret (t, e)) else act_fail e) ?Q P ?C"
      unfolding x using path [of e] by (cases "e = []"; cases c; simp add: runs_ret runs_fail; simp add: runs_def)
  qed
qed

definition staged :: "installPaths \<Rightarrow> string \<Rightarrow> updateTransaction \<times> install_error list \<Rightarrow> host \<Rightarrow> bool" where
  "staged paths j = (\<lambda>(t, e) h. txn_fits paths t \<and> Txn_JobID t = j \<and> \<not> Txn_MigrationStarted t \<and> prepared JobReporter t h)"

definition staging_crash :: "installPaths \<Rightarrow> string \<Rightarrow> host \<Rightarrow> bool" where
  "staging_crash paths j h \<longleftrightarrow> ready j h \<or> (\<exists>t. txn_fits paths t \<and> Txn_JobID t = j \<and> prepared JobReporter t h)"

lemma run_is_active:
  "run True P (serviceIsActive manager) (\<lambda>_. P) P"
  unfolding serviceIsActive_def by (auto intro!: run_ret run_seq [OF run_io [where Q = "\<lambda>_. P"]] simp: run_def [of _ _ "act_get _"])

lemma runs_stage_candidate:
  assumes "home_fits paths" "env_ok env" "request_fits (ue_semver env) req" "length (release_name env req) \<le> NAME_MAX"
    "manager = ''systemd'' \<or> manager = ''none''" "root = path_join [path_dir (ip_home paths), ''.ithiltir-dash-update-'' @ ue_temp env]"
    "cand = (path_join [ip_releases paths, release_name env req], path_join [''releases'', release_name env req])"
  shows "runs True (stageable (Job_ID req) manager inst root (release_name env req)) (stageCandidate env req inst manager root cand) (staged paths (Job_ID req))
    (stageable (Job_ID req) manager inst root (release_name env req)) (staging_crash paths (Job_ID req))"
proof (cases "\<exists>h. stageable (Job_ID req) manager inst root (release_name env req) h")
  case False
  then show ?thesis by (simp add: runs_def)
next
  case True
  let ?n = "release_name env req"
  let ?S = "stageable (Job_ID req) manager inst root ?n"
  let ?C = "staging_crash paths (Job_ID req)"
  obtain h0 where "?S h0" using True by blast
  then have "inst_fits inst" "Inst_Target inst \<noteq> ''releases/'' @ ?n"
    by (auto simp: stageable_def staging_def ready_def idle_def settled_def installed_of_def candidate_of_def good_target_def inst_fits_def split: option.splits)
  note inst = this
  define backupDir where "backupDir = (if Inst_Legacy inst then path_join [root, ''backup'', ''legacy''] else [])"
  have crash: "?S h \<Longrightarrow> ?C h" for h by (simp add: stageable_def staging_def staging_crash_def)
  let ?B = "\<lambda>h. ?S h \<and> (Inst_Legacy inst \<longrightarrow> backup_of h backupDir = Some (legacy_tree h))"
  have backup: "runs True ?S (if Inst_Legacy inst then backupLegacyInstall root else act_ret ()) (\<lambda>_. ?B) ?S ?C"
    using run_backup [of "Job_ID req" manager inst root ?n] crash
    by (auto simp: backupDir_def runs_ret intro!: runs_of_run [where R = ?S])
  have txn: "runs True ?B (commitTransaction (newTransaction env req inst manager cand root backupDir wasActive)) (staged paths (Job_ID req)) ?S ?C" for wasActive
  proof -
    define t where "t = newTransaction env req inst manager cand root backupDir wasActive"
    note fits = new_txn_fits [OF assms(1-4) inst(1) assms(5) inst(2) assms(6) backupDir_def assms(7) t_def]
    have f: "Txn_JobID t = Job_ID req" "Txn_ServiceManager t = manager" "Txn_Legacy t = Inst_Legacy inst" "Txn_PreviousTarget t = Inst_Target inst"
      "Txn_Phase t = PhasePrepared" "\<not> Txn_MigrationStarted t" "Txn_BackupDir t = backupDir" "Txn_TempRoot t = root"
      by (simp_all add: t_def newTransaction_def)
    have prep: "prepared JobReporter t (h\<lparr>h_txn := Some (txn_file t)\<rparr>)" if "?B h" for h
      by (rule stageable_prepared [of t inst root ?n]) (use that f fits in auto)
    have "runs True ?B (commitTransaction t) (\<lambda>(t', e) h. t' = t \<and> prepared JobReporter t h) ?B (\<lambda>h. ?B h \<or> prepared JobReporter t h)"
      by (rule runs_commit_txn) (use fits f prep in auto)
    then show ?thesis unfolding t_def [symmetric]
    proof (rule runs_conseq)
      fix h
      assume "?B h \<or> prepared JobReporter t h"
      then show "?C h" using crash fits f(1) by (auto simp: staging_crash_def)
    qed (use fits f(1,6) in \<open>auto simp: staged_def\<close>)
  qed
  have active: "runs True ?S (serviceIsActive manager) (\<lambda>_. ?S) ?S ?C" by (rule runs_of_run [OF run_is_active]) (auto simp: crash)
  show ?thesis unfolding stageCandidate_def Let_def backupDir_def [symmetric]
    by (rule runs_bind [OF active runs_seq [OF backup txn]])
qed

lemma runs_stage_release:
  assumes "home_fits paths" "env_ok env" "request_fits (ue_semver env) req" "manager = ''systemd'' \<or> manager = ''none''"
    "root = path_join [path_dir (ip_home paths), ''.ithiltir-dash-update-'' @ ue_temp env]"
  shows "runs True (\<lambda>h. staging (Job_ID req) manager inst h \<and> staged_in root h) (stageRelease env paths req inst manager root) (staged paths (Job_ID req))
    (staging (Job_ID req) manager inst) (staging_crash paths (Job_ID req))"
proof -
  let ?n = "release_name env req"
  let ?P = "\<lambda>h. staging (Job_ID req) manager inst h \<and> staged_in root h"
  let ?E = "staging (Job_ID req) manager inst"
  let ?C = "staging_crash paths (Job_ID req)"
  have crash: "?E h \<Longrightarrow> ?C h" for h by (simp add: staging_def staging_crash_def)
  have tr: "tracks JobReporter ?P" by (rule tracks_conj [OF tracks_staging]) (simp_all add: staged_in_def save_item_def)
  have step: "runs True ?P (io what) (\<lambda>_. ?P) ?E ?C" for what by (rule runs_of_run [OF run_io [where R = ?P]]) (auto simp: crash)
  have phase: "runs True ?P (report_phase JobReporter p) (\<lambda>_. ?P) ?E ?C" if "validUpdatePhase p" for p
    by (rule runs_of_run [OF run_report [OF tr]]) (use that crash in auto)
  have prepare: "runs True ?P (prepareRelease env paths (Plan_TargetVersion (Job_Plan req)) (Job_ID req))
      (\<lambda>cand h. ?P h \<and> candidate_of ?n h \<and> length ?n \<le> NAME_MAX \<and> cand = (path_join [ip_releases paths, ?n], path_join [''releases'', ?n])) ?E ?C"
    by (rule runs_of_run [OF run_prepare [OF assms(1-3)]]) (auto simp: crash staged_in_def)
  have candidate: "runs True (\<lambda>h. ?P h \<and> candidate_of ?n h \<and> length ?n \<le> NAME_MAX \<and> cand = (path_join [ip_releases paths, ?n], path_join [''releases'', ?n]))
      (act_cleanup (remove_release (fst cand)) (stageCandidate env req inst manager root cand)) (staged paths (Job_ID req)) ?E ?C" for cand
  proof (cases "length ?n \<le> NAME_MAX \<and> cand = (path_join [ip_releases paths, ?n], path_join [''releases'', ?n])")
    case True
    then have ok: "length ?n \<le> NAME_MAX" "cand = (path_join [ip_releases paths, ?n], path_join [''releases'', ?n])" by auto
    have base: "path_base (fst cand) = ?n"
      using stage_paths [OF assms(1,2) release_name_plain(1) [OF assms(2,3)]] path_base_abs release_name_plain(1) [OF assms(2,3)] ok(2)
      by (metis append_Cons append_Nil append_assoc fst_conv)
    have "runs True (stageable (Job_ID req) manager inst root ?n) (act_cleanup (remove_release (fst cand)) (stageCandidate env req inst manager root cand)) (staged paths (Job_ID req)) ?E ?C"
    proof (rule runs_cleanup [OF runs_stage_candidate [OF assms(1-3) ok(1) assms(4,5) ok(2)]])
      have "run True (stageable (Job_ID req) manager inst root ?n) (remove_release (fst cand)) (\<lambda>_. ?E) ?E"
        unfolding remove_release_def base by (rule run_commit) (auto simp: stageable_def staging_remove)
      then show "runs True (stageable (Job_ID req) manager inst root ?n) (remove_release (fst cand)) (\<lambda>_. ?E) ?E ?C" by (rule runs_of_run) (auto simp: crash)
    qed
    then show ?thesis by (rule runs_conseq) (auto simp: stageable_def)
  qed (auto simp: runs_def)
  show ?thesis unfolding stageRelease_def
    by (intro runs_seq [OF step] runs_seq [OF phase] runs_bind [OF prepare] candidate) simp_all
qed

lemma run_stage:
  assumes "home_fits paths" "env_ok env" "request_fits (ue_semver env) req" "manager = ''systemd'' \<or> manager = ''none''"
  shows "run True (staging (Job_ID req) manager inst) (stageUpdate env paths req inst manager)
    (\<lambda>t h. txn_fits paths t \<and> Txn_JobID t = Job_ID req \<and> \<not> Txn_MigrationStarted t \<and> prepared JobReporter t h) (staging_crash paths (Job_ID req))"
proof -
  define root where "root = path_join [path_dir (ip_home paths), ''.ithiltir-dash-update-'' @ ue_temp env]"
  let ?E = "staging (Job_ID req) manager inst"
  let ?P = "\<lambda>h. staging (Job_ID req) manager inst h \<and> staged_in root h"
  let ?C = "staging_crash paths (Job_ID req)"
  have crash: "?E h \<Longrightarrow> ?C h" for h by (simp add: staging_def staging_crash_def)
  have prep: "txn_fits paths t \<Longrightarrow> prepared JobReporter t h \<Longrightarrow> Txn_JobID t = Job_ID req \<Longrightarrow> ?C h" for t h by (auto simp: staging_crash_def)
  have find: "run True ?E (io ''resolve target release'') (\<lambda>_. ?E) ?C" by (rule run_io) (auto simp: crash)
  have create: "run True ?E (commit ''create staging directory'' (\<lambda>h. h\<lparr>h_temp := (root, None) # h_temp h\<rparr>)) (\<lambda>_. ?P) ?C"
    by (rule run_commit) (auto simp: staging_temp staged_in_def crash)
  have "run True ?E (remove_temp root) (\<lambda>_. ?E) ?E"
    unfolding remove_temp_def by (auto intro!: run_ret run_commit simp: staging_temp)
  then have remove: "runs True ?E (remove_temp root) (\<lambda>_. ?E) ?E ?C" by (rule runs_of_run) (auto simp: crash)
  have "runs True ?P (act_cleanup (remove_temp root) (stageRelease env paths req inst manager root)) (staged paths (Job_ID req)) ?E ?C"
    by (rule runs_cleanup [OF runs_stage_release [OF assms root_def] remove])
  then have body: "run True ?P (act_cleanup (remove_temp root) (stageRelease env paths req inst manager root)) (\<lambda>r h. staged paths (Job_ID req) r h) ?C"
    by (rule run_of_runs) (auto simp: crash)
  show ?thesis unfolding stageUpdate_def Let_def root_def [symmetric]
  proof (rule run_seq [OF find run_seq [OF create run_bind [OF body]]])
    fix x :: "updateTransaction \<times> install_error list"
    show "run True (staged paths (Job_ID req) x) (case x of (txn, e) \<Rightarrow> act_seq (act_err e) (act_ret txn))
        (\<lambda>t h. txn_fits paths t \<and> Txn_JobID t = Job_ID req \<and> \<not> Txn_MigrationStarted t \<and> prepared JobReporter t h) ?C"
      by (cases x) (auto intro!: run_seq [OF run_err [where Q = "\<lambda>_ h. staged paths (Job_ID req) x h"] run_ret] prep simp: staged_def)
  qed
qed

end
