(* ===== verification/Update_Runner.thy ===== *)
theory Update_Runner
  imports Update_Install
begin

text \<open>
  The service's side of an update: choosing a release (\<open>release.go\<close>), resolving a plan and settling the status of the
  current job (\<open>runner.go\<close>), and removing the directories of finished jobs (\<open>service.go\<close>). What the GitHub API returned, the
  availability check and the state of the updater's process are parameters.
\<close>

subsection \<open>Releases\<close>

record githubAsset =
  GA_Name :: string
  GA_URL :: string
  GA_Size :: int

record githubRelease =
  GR_TagName :: string
  GR_Draft :: bool
  GR_Prerelease :: bool
  GR_Assets :: "githubAsset list"

record releaseAsset =
  RA_Version :: string
  RA_URL :: string
  RA_Size :: int

text \<open>\<open>parseURL\<close> stands for \<open>url.Parse\<close>: the scheme, the host and the printed form of a URL.\<close>

record url_parts =
  url_Scheme :: string
  url_Host :: string
  url_String :: string

definition releaseAssetName :: "string \<Rightarrow> string" where
  "releaseAssetName goarch = ''Ithiltir_dash_linux_'' @ goarch @ ''.tar.gz''"

definition asset_ok :: "(string \<Rightarrow> url_parts option) \<Rightarrow> string \<Rightarrow> githubAsset \<Rightarrow> bool" where
  "asset_ok parseURL want asset \<longleftrightarrow> GA_Name asset = want \<and> GA_Size asset > 0 \<and>
     (case parseURL (GA_URL asset) of None \<Rightarrow> False | Some u \<Rightarrow> go_lower (url_Scheme u) = ''https'' \<and> url_Host u \<noteq> [])"

definition releaseAssetFor :: "semver \<Rightarrow> (string \<Rightarrow> url_parts option) \<Rightarrow> string \<Rightarrow> githubRelease \<Rightarrow> releaseAsset option" where
  "releaseAssetFor sv parseURL goarch item =
     (let version = trim_space (GR_TagName item)
      in if GR_Draft item \<or> Validate sv version \<noteq> None then None
         else case find (asset_ok parseURL (releaseAssetName goarch)) (GR_Assets item) of
                None \<Rightarrow> None
              | Some asset \<Rightarrow>
                 (case parseURL (GA_URL asset) of None \<Rightarrow> None
                  | Some u \<Rightarrow> Some \<lparr>RA_Version = version, RA_URL = url_String u, RA_Size = GA_Size asset\<rparr>))"

definition releaseInChannel :: "semver \<Rightarrow> githubRelease \<Rightarrow> string \<Rightarrow> bool" where
  "releaseInChannel sv item channel \<longleftrightarrow> \<not> GR_Draft item \<and>
     (case ChannelFor sv (trim_space (GR_TagName item)) of Inl _ \<Rightarrow> False
      | Inr tagChannel \<Rightarrow> tagChannel = channel \<and> GR_Prerelease item = (tagChannel = ChannelPrerelease))"

definition take_release ::
    "semver \<Rightarrow> (string \<Rightarrow> url_parts option) \<Rightarrow> string \<Rightarrow> string \<Rightarrow> githubRelease \<Rightarrow> releaseAsset option \<Rightarrow> releaseAsset option" where
  "take_release sv parseURL goarch channel item latest =
     (case releaseAssetFor sv parseURL goarch item of
        None \<Rightarrow> latest
      | Some asset \<Rightarrow>
         if \<not> releaseInChannel sv item channel then latest
         else case latest of
                None \<Rightarrow> Some asset
              | Some l \<Rightarrow> (case Compare sv (RA_Version asset) (RA_Version l) of Inl _ \<Rightarrow> latest | Inr c \<Rightarrow> if c > 0 then Some asset else latest))"

definition Latest :: "semver \<Rightarrow> (string \<Rightarrow> url_parts option) \<Rightarrow> string \<Rightarrow> githubRelease list \<Rightarrow> string \<Rightarrow> releaseAsset option" where
  "Latest sv parseURL goarch releases channel = fold (take_release sv parseURL goarch channel) releases None"

definition Find :: "semver \<Rightarrow> (string \<Rightarrow> url_parts option) \<Rightarrow> string \<Rightarrow> githubRelease list \<Rightarrow> string \<Rightarrow> releaseAsset option" where
  "Find sv parseURL goarch releases version =
     (if Validate sv version \<noteq> None then None
      else case find (\<lambda>item. \<not> GR_Draft item \<and> trim_space (GR_TagName item) = version) releases of
             None \<Rightarrow> None
           | Some item \<Rightarrow>
              (case ChannelFor sv version of
                 Inl _ \<Rightarrow> None
               | Inr channel \<Rightarrow>
                  if GR_Prerelease item \<noteq> (channel = ChannelPrerelease) then None else releaseAssetFor sv parseURL goarch item))"

subsection \<open>Plans\<close>

datatype plan_error = ErrPlanInput string | ErrAlreadyCurrent | ErrPlan string | ErrCheck

definition VersionAvailable :: string where "VersionAvailable = ''available''"
definition VersionCurrent :: string where "VersionCurrent = ''current''"
definition VersionAhead :: string where "VersionAhead = ''ahead''"
definition VersionUnknown :: string where "VersionUnknown = ''unknown''"

definition versionStatus :: "semver \<Rightarrow> string \<Rightarrow> string \<Rightarrow> string" where
  "versionStatus sv current latest =
     (case Compare sv current latest of Inl _ \<Rightarrow> VersionUnknown
      | Inr cmp \<Rightarrow> if cmp < 0 then VersionAvailable else if cmp > 0 then VersionAhead else VersionCurrent)"

definition updateChannelForVersion :: "semver \<Rightarrow> string \<Rightarrow> string \<times> bool" where
  "updateChannelForVersion sv raw = (case ChannelFor sv raw of Inl _ \<Rightarrow> ([], False) | Inr c \<Rightarrow> (c, True))"

record Check =
  Check_CurrentVersion :: string
  Check_CurrentChannel :: string
  Check_TargetChannel :: string
  Check_LatestVersion :: string
  Check_InstallRevision :: string
  Check_VersionStatus :: string
  Check_BundledNodeVersion :: string

definition check_result :: "semver \<Rightarrow> string \<Rightarrow> string \<Rightarrow> releaseAsset \<Rightarrow> installedState \<Rightarrow> Check" where
  "check_result sv bundledNode channel asset installed =
     \<lparr>Check_CurrentVersion = Inst_Version installed, Check_CurrentChannel = fst (updateChannelForVersion sv (Inst_Version installed)),
      Check_TargetChannel = channel, Check_LatestVersion = RA_Version asset, Check_InstallRevision = Inst_Revision installed,
      Check_VersionStatus = versionStatus sv (Inst_Version installed) (RA_Version asset), Check_BundledNodeVersion = trim_space bundledNode\<rparr>"

record RunInput =
  In_Action :: string
  In_Channel :: string
  In_Lang :: string
  In_Origin :: string
  In_TargetVersion :: string
  In_ExpectedCurrentVersion :: string
  In_ExpectedInstallRevision :: string

text \<open>The last part of \<open>resolvePlan\<close>: the plan is checked and must lead forward.\<close>

definition accept_plan :: "semver \<Rightarrow> bool \<Rightarrow> Plan \<Rightarrow> plan_error + Plan" where
  "accept_plan sv provided plan =
     (case plan_validate sv plan of
        Some e \<Rightarrow> Inl (if provided then ErrPlanInput ''plan'' else ErrPlan ''plan'')
      | None \<Rightarrow>
         (case Compare sv (Plan_TargetVersion plan) (Plan_ExpectedCurrentVersion plan) of
            Inl e \<Rightarrow> Inl (if provided then ErrPlanInput ''version'' else ErrPlan ''version'')
          | Inr cmp \<Rightarrow>
             if Plan_Action plan = ActionUpdate \<and> cmp < 0 then Inl (ErrPlanInput ''older target'')
             else if Plan_Action plan = ActionUpdate \<and> cmp = 0 then Inl ErrAlreadyCurrent
             else if Plan_Action plan = ActionReinstall \<and> cmp < 0 then Inl (ErrPlanInput ''older target'')
             else Inr plan))"

definition resolvePlan :: "semver \<Rightarrow> (string \<Rightarrow> plan_error + Check) \<Rightarrow> RunInput \<Rightarrow> plan_error + Plan" where
  "resolvePlan sv check inp =
     (if trim_space (In_Action inp) = [] then Inl (ErrPlanInput ''action is required'')
      else case ParseAction (In_Action inp) of (action, ok) \<Rightarrow>
      if \<not> ok then Inl (ErrPlanInput ''action'')
      else case ParseUpdateChannel (In_Channel inp) of (channel, ok) \<Rightarrow>
      if \<not> ok then Inl (ErrPlanInput ''channel'')
      else case normalizeUpdateLang (In_Lang inp) of (lang, ok) \<Rightarrow>
      if \<not> ok then Inl (ErrPlanInput ''lang'')
      else case (if trim_space (In_Origin inp) \<noteq> [] then ParseOrigin (In_Origin inp) else (OriginManual, True)) of (origin, ok) \<Rightarrow>
      if \<not> ok then Inl (ErrPlanInput ''origin'')
      else let target = trim_space (In_TargetVersion inp); expectedVersion = trim_space (In_ExpectedCurrentVersion inp);
               expectedRevision = trim_space (In_ExpectedInstallRevision inp);
               provided = length (filter (\<lambda>v. v \<noteq> []) [target, expectedVersion, expectedRevision]);
               plan = (\<lambda>target version revision. \<lparr>Plan_Action = action, Plan_Channel = channel, Plan_TargetVersion = target,
                   Plan_ExpectedCurrentVersion = version, Plan_ExpectedInstallRevision = revision, Plan_Origin = origin, Plan_Lang = lang,
                   Plan_ServiceManager = ''auto''\<rparr>)
           in if provided \<noteq> 0 \<and> provided \<noteq> 3 then Inl (ErrPlanInput ''provided together'')
              else if provided = 0
                then (case check channel of Inl e \<Rightarrow> Inl e
                      | Inr c \<Rightarrow> accept_plan sv False (plan (Check_LatestVersion c) (Check_CurrentVersion c) (Check_InstallRevision c)))
              else accept_plan sv True (plan target expectedVersion expectedRevision))"

subsection \<open>The status of the current job\<close>

definition recoveryStatePending :: "bool action" where
  "recoveryStatePending =
     act_bind (act_get (\<lambda>h. (h_txn h, h_block h))) (\<lambda>(file, block).
       case file of
         None \<Rightarrow> act_ret (block \<noteq> None)
       | Some data \<Rightarrow>
          (case readTransaction data of
             Inl e \<Rightarrow> act_fail [BadFile e]
           | Inr txn \<Rightarrow> act_ret (Txn_Phase txn \<noteq> PhaseDone \<or> block \<noteq> None)))"

definition write_status :: "string \<Rightarrow> statusFile \<Rightarrow> unit action" where
  "write_status job item = commit ''status'' (\<lambda>h. h\<lparr>h_status := AList.update job (writeUpdateStatusFile item) (h_status h)\<rparr>)"

definition reconcileDoneTransaction :: "update_env \<Rightarrow> string \<Rightarrow> statusFile \<Rightarrow> statusFile action" where
  "reconcileDoneTransaction env job item =
     act_bind (act_get h_txn) (\<lambda>file.
       case file of
         None \<Rightarrow> act_ret item
       | Some data \<Rightarrow>
          (case readTransaction data of
             Inl e \<Rightarrow> act_fail [BadFile e]
           | Inr txn \<Rightarrow>
              if Txn_Phase txn \<noteq> PhaseDone then act_ret item
              else if Txn_JobID txn \<noteq> SF_ID item then act_fail [BadState ''transaction job'']
              else if SF_Status item = StatusRunning
                then (case statusFromDoneTransaction item txn (ue_now env) of
                        Inl e \<Rightarrow> act_fail [BadFile e]
                      | Inr item' \<Rightarrow> act_seq (write_status job item') (act_seq (removeDoneTransaction (Txn_JobID txn)) (act_ret item')))
              else act_seq (removeDoneTransaction (Txn_JobID txn)) (act_ret item)))"

definition failStaleStatus :: "update_env \<Rightarrow> string \<Rightarrow> statusFile \<Rightarrow> statusFile action" where
  "failStaleStatus env job item =
     act_bind recoveryStatePending (\<lambda>pending.
     act_bind (act_get h_txn) (\<lambda>file.
       let path = (case file of None \<Rightarrow> SF_RecoveryPath item
                   | Some data \<Rightarrow> (case readTransaction data of Inl _ \<Rightarrow> SF_RecoveryPath item
                                  | Inr txn \<Rightarrow> if Txn_JobID txn = SF_ID item then Txn_TempRoot txn else SF_RecoveryPath item));
           item' = item\<lparr>SF_Status := StatusFailed, SF_FailureCode := (if pending then ''recovery_required'' else ''executor_lost''),
                     SF_RecoveryPath := (if pending then path else SF_RecoveryPath item),
                     SF_FinishedAt := format_rfc3339_utc (ue_now env), SF_ExitCode := None\<rparr>
       in act_seq (write_status job item') (act_ret item')))"

definition read_job_status :: "string \<Rightarrow> statusFile action" where
  "read_job_status job =
     act_bind (act_get (\<lambda>h. map_of (h_status h) job)) (\<lambda>file.
       case file of None \<Rightarrow> act_fail [Io ''read update status'']
       | Some data \<Rightarrow> (case readUpdateStatusFile data of Inl e \<Rightarrow> act_fail [BadFile e] | Inr item \<Rightarrow> act_ret item))"

definition settleStoppedStatus :: "update_env \<Rightarrow> string \<Rightarrow> statusFile \<Rightarrow> statusFile action" where
  "settleStoppedStatus env job item =
     act_bind (read_job_status job) (\<lambda>latest.
       if SF_ID latest \<noteq> SF_ID item then act_fail [BadState ''status changed'']
       else act_bind (reconcileDoneTransaction env job latest) (\<lambda>latest.
         if SF_Status latest \<noteq> StatusRunning then act_ret latest else failStaleStatus env job latest))"

definition updateStartGrace :: duration where "updateStartGrace = 15 * second_ns"

definition runningStatusFresh :: "time \<Rightarrow> string \<Rightarrow> bool" where
  "runningStatusFresh now startedAt \<longleftrightarrow> (case parse_rfc3339 (trim_space startedAt) of None \<Rightarrow> False | Some t \<Rightarrow> time_sub now t < updateStartGrace)"

text \<open>\<open>alive\<close>: the unit or the process of the updater is still there.\<close>

definition reconcileRunningStatus :: "update_env \<Rightarrow> bool \<Rightarrow> string \<Rightarrow> statusFile \<Rightarrow> statusFile action" where
  "reconcileRunningStatus env alive job item =
     act_bind (reconcileDoneTransaction env job item) (\<lambda>item.
       if SF_Status item \<noteq> StatusRunning \<or> runningStatusFresh (ue_now env) (SF_StartedAt item) then act_ret item
       else act_seq (if has_prefix (SF_Unit item) ''manual-'' then act_ret () else io ''unit status'')
         (if alive then act_ret item else settleStoppedStatus env job item))"

definition taskState :: "update_env \<Rightarrow> bool \<Rightarrow> string \<Rightarrow> statusFile option action" where
  "taskState env alive job =
     act_bind (act_get (\<lambda>h. map_of (h_status h) job)) (\<lambda>file.
       case file of
         None \<Rightarrow> act_ret None
       | Some data \<Rightarrow>
          (case readUpdateStatusFile data of
             Inl e \<Rightarrow> act_fail [BadFile e]
           | Inr item \<Rightarrow> act_bind (reconcileRunningStatus env alive job item) (\<lambda>item. act_ret (Some item))))"

subsection \<open>Finished jobs\<close>

definition isTerminalUpdateStatus :: "string \<Rightarrow> bool" where
  "isTerminalUpdateStatus status \<longleftrightarrow> status = StatusCompleted \<or> status = StatusFailed"

definition job_removable :: "(string \<Rightarrow> bool) \<Rightarrow> string \<Rightarrow> string \<Rightarrow> string \<Rightarrow> bool" where
  "job_removable handled currentID name file \<longleftrightarrow> name \<noteq> currentID \<and>
     (case readUpdateStatusFile file of
        Inl _ \<Rightarrow> False
      | Inr item \<Rightarrow> SF_ID item = name \<and> isTerminalUpdateStatus (SF_Status item) \<and>
          (SF_Origin item = OriginManual \<or> SF_Origin item = OriginAuto \<and> handled name))"

fun cleanup_entries :: "(string \<Rightarrow> bool) \<Rightarrow> string \<Rightarrow> (string \<times> string) list \<Rightarrow> install_error list \<Rightarrow> unit action" where
  "cleanup_entries handled currentID [] cleanupErr = act_err cleanupErr"
| "cleanup_entries handled currentID ((name, file) # entries) cleanupErr =
     (if \<not> job_removable handled currentID name file then cleanup_entries handled currentID entries cleanupErr
      else act_bind (act_try (commit ''remove job'' (\<lambda>h. h\<lparr>h_status := filter (\<lambda>(n, f). n \<noteq> name) (h_status h)\<rparr>))) (\<lambda>e.
        cleanup_entries handled currentID entries (cleanupErr @ e)))"

definition cleanupUpdateJobs :: "(string \<Rightarrow> bool) \<Rightarrow> string \<Rightarrow> unit action" where
  "cleanupUpdateJobs handled currentID =
     (if currentID = [] then act_ret ()
      else act_bind (act_get h_status) (\<lambda>jobs. cleanup_entries handled currentID jobs []))"

end
