(* ===== verification/Update_History.thy ===== *)
theory Update_History
  imports Update_Apply Update_Runner
begin

text \<open>
  Whole runs of the updater and their histories. Between runs the service may be started or stopped, the host
  may lose its power, new jobs are queued, the status of the current job is settled and old jobs are
  removed; every state on the way is consistent, so that the server that runs matches the schema and recovery always completes.
\<close>

subsection \<open>Files of a consistent host\<close>

lemma pending_file:
  assumes "txn_ok t" "prepared rep t h \<or> forward rep t h" "h_txn h = Some data"
  shows "\<exists>p. readTransaction data = Inr (t\<lparr>Txn_Phase := p\<rparr>) \<and> validUpdatePhase p \<and> p \<noteq> PhaseDone"
proof -
  have "on_disk t h" using assms(2) by (auto simp: state_defs)
  then obtain p where p: "validUpdatePhase p" "p \<noteq> PhaseDone" "data = txn_file (t\<lparr>Txn_Phase := p\<rparr>)" using assms(3) by (auto simp: on_disk_def)
  then show ?thesis using txn_read [OF txn_ok_phase [OF assms(1) p(1)]] by blast
qed

lemma finished_file:
  assumes "txn_ok t" "finished rep t h" "h_txn h = Some data"
  shows "readTransaction data = Inr (t\<lparr>Txn_Phase := PhaseDone\<rparr>)"
  using assms txn_read [OF txn_ok_phase [OF assms(1), of PhaseDone]] by (simp add: finished_def)

lemma consistent_file:
  assumes "consistent paths h" "h_txn h = Some data"
  shows "\<exists>t. readTransaction data = Inr t \<and> txn_fits paths t \<and> reporting TextReporter (Txn_JobID t) h \<and> (Txn_Phase t = PhaseDone \<longrightarrow> idle (h\<lparr>h_txn := None\<rparr>))"
proof -
  obtain t where t: "txn_fits paths t" "prepared TextReporter t h \<or> forward TextReporter t h \<or> finished TextReporter t h"
    using assms by (auto simp: consistent_alt idle_def)
  then have ok: "txn_ok t" by (simp add: txn_fits_def)
  have rep: "reporting TextReporter (Txn_JobID t) h" using t(2) by (auto simp: state_defs)
  show ?thesis
  proof (cases "finished TextReporter t h")
    case True
    then have "idle (h\<lparr>h_txn := None\<rparr>)" by (simp add: finished_def idle_def reporting_def settled_def)
    with finished_file [OF ok True assms(2)] rep txn_fits_phase [OF t(1), of PhaseDone] show ?thesis by auto
  next
    case False
    then obtain p where p: "readTransaction data = Inr (t\<lparr>Txn_Phase := p\<rparr>)" "validUpdatePhase p" "p \<noteq> PhaseDone"
      using pending_file [OF ok _ assms(2)] t(2) by blast
    then show ?thesis using txn_fits_phase [OF t(1) p(2)] rep by auto
  qed
qed

lemma idle_consistent: "idle h \<Longrightarrow> consistent paths h"
  by (simp add: consistent_alt)

lemma consistent_served: "consistent paths h \<Longrightarrow> served h"
  by (auto simp: consistent_alt idle_def state_defs)

lemma consistent_statuses: "consistent paths h \<Longrightarrow> statuses h"
  by (simp add: consistent_def)

lemma run_remove_consistent:
  assumes "\<And>h. P h \<Longrightarrow> consistent paths h" "\<And>h. P h \<Longrightarrow> idle (h\<lparr>h_txn := None\<rparr>) \<Longrightarrow> P (h\<lparr>h_txn := None\<rparr>)"
  shows "run True P (removeDoneTransaction j) (\<lambda>_. P) P"
proof -
  have "run True (\<lambda>h. P h \<and> h_txn h = fl) (case fl of None \<Rightarrow> act_ret ()
       | Some data \<Rightarrow>
          (case readTransaction data of
             Inl e \<Rightarrow> act_fail [BadFile e]
           | Inr txn \<Rightarrow>
              if Txn_JobID txn \<noteq> j then act_fail [BadState ''transaction job'']
              else if Txn_Phase txn \<noteq> PhaseDone then act_ret ()
              else commit ''remove transaction'' (\<lambda>h. h\<lparr>h_txn := None\<rparr>))) (\<lambda>_. P) P" for fl
  proof (cases "\<exists>data t. fl = Some data \<and> readTransaction data = Inr t \<and> Txn_JobID t = j \<and> Txn_Phase t = PhaseDone")
    case True
    then obtain data t where d: "fl = Some data" "readTransaction data = Inr t" "Txn_JobID t = j" "Txn_Phase t = PhaseDone" by blast
    have "P (h\<lparr>h_txn := None\<rparr>)" if "P h \<and> h_txn h = fl" for h
      using consistent_file [OF assms(1), of h data] that d assms(2) by auto
    then show ?thesis using d by (auto intro!: run_commit)
  qed (auto intro!: run_ret run_fail split: option.split sum.split)
  then show ?thesis unfolding removeDoneTransaction_def by (rule run_get)
qed

subsection \<open>A run of the updater\<close>

definition working :: "installPaths \<Rightarrow> string \<Rightarrow> host \<Rightarrow> bool" where
  "working paths j h \<longleftrightarrow> consistent paths h \<and> reporting JobReporter j h"

lemma working_item: "working paths j h \<Longrightarrow> status_ok it \<Longrightarrow> SF_ID it = j \<Longrightarrow> working paths j (h\<lparr>h_item := it\<rparr>)"
  by (simp add: working_def consistent_item reporting_def)

lemma working_save: "working paths j h \<Longrightarrow> working paths j (save_item h)"
  using reporting_save [of j h] consistent_status [of paths h j "writeUpdateStatusFile (h_item h)"] status_entryI [of "h_item h" j]
  by (simp add: working_def save_item_def reporting_def)

lemma tracks_working: "tracks JobReporter (working paths j)"
proof -
  have "working paths j h \<Longrightarrow> status_ok (h_item h) \<and> SF_ID (h_item h) = j" for h by (simp add: working_def reporting_def)
  then show ?thesis unfolding tracks_def by (auto intro!: working_save working_item status_phase status_recovery)
qed

lemma working_states:
  "ready j h \<Longrightarrow> working paths j h" "staging_crash paths j h \<Longrightarrow> working paths j h"
  "txn_fits paths t \<Longrightarrow> Txn_JobID t = j \<Longrightarrow> pending JobReporter t h \<Longrightarrow> working paths j h"
proof -
  show r: "ready j h \<Longrightarrow> working paths j h" by (simp add: ready_def working_def idle_consistent)
  show p: "txn_fits paths t \<Longrightarrow> Txn_JobID t = j \<Longrightarrow> pending JobReporter t h \<Longrightarrow> working paths j h" for t
    using pending_consistent [of paths t JobReporter h] by (auto simp: working_def pending_def state_defs)
  show "staging_crash paths j h \<Longrightarrow> working paths j h" using r p by (auto simp: staging_crash_def pending_def)
qed

lemma run_inspect: "run True P (inspectInstalled env) (\<lambda>inst h. P h \<and> installed_of inst h) P"
proof -
  have ver: "run True S (commandVersion env b) (\<lambda>_. S) S" for S b
    unfolding commandVersion_def Let_def
    by (rule run_seq [OF run_io [where Q = "\<lambda>_. S"]]) (auto intro!: run_ret run_fail split: option.split)
  let ?S = "\<lambda>x h. P h \<and> (h_current h, entry_binary h) = x"
  have "run True (?S x) (case x of (cur, b) \<Rightarrow>
     act_bind (case cur of None \<Rightarrow> act_ret ([], True)
               | Some target \<Rightarrow> if \<not> validReleaseTarget target then act_fail [BadState ''current target''] else act_ret (target, False)) (\<lambda>(target, legacy).
     act_bind (commandVersion env b) (\<lambda>version.
       act_ret \<lparr>Inst_Version = version,
         Inst_Revision = ue_sha256 env ((if legacy then ''legacy'' @ [CHR 0x00] @ (case b of None \<Rightarrow> [] | Some b \<Rightarrow> ue_content env b)
                                         else ''release'' @ [CHR 0x00] @ target) @ [CHR 0x00] @ version),
         Inst_Target = target, Inst_Legacy = legacy\<rparr>))) (\<lambda>inst h. P h \<and> installed_of inst h) P" for x
  proof -
    obtain cur b where x: "x = (cur, b)" by fastforce
    let ?T = "\<lambda>(target, legacy) h. ?S x h \<and> legacy = (cur = None) \<and> target = (case cur of None \<Rightarrow> [] | Some t \<Rightarrow> t)"
    have "run True (?S x) (case cur of None \<Rightarrow> act_ret ([], True)
               | Some target \<Rightarrow> if \<not> validReleaseTarget target then act_fail [BadState ''current target''] else act_ret (target, False)) ?T P"
      by (auto intro!: run_ret run_fail split: option.split)
    then show ?thesis unfolding x prod.case
    proof (rule run_bind)
      fix y :: "string \<times> bool"
      obtain target legacy where y: "y = (target, legacy)" by fastforce
      have v: "run True (?T y) (commandVersion env b) (\<lambda>_. ?T y) P" by (rule run_weaken [OF ver]) (auto simp: y)
      show "run True (case y of (target, legacy) \<Rightarrow> \<lambda>h. (P h \<and> (h_current h, entry_binary h) = (cur, b)) \<and> legacy = (cur = None) \<and> target = (case cur of None \<Rightarrow> [] | Some t \<Rightarrow> t))
        (case y of (target, legacy) \<Rightarrow> act_bind (commandVersion env b) (\<lambda>version. act_ret \<lparr>Inst_Version = version,
         Inst_Revision = ue_sha256 env ((if legacy then ''legacy'' @ [CHR 0x00] @ (case b of None \<Rightarrow> [] | Some b \<Rightarrow> ue_content env b)
                                         else ''release'' @ [CHR 0x00] @ target) @ [CHR 0x00] @ version),
         Inst_Target = target, Inst_Legacy = legacy\<rparr>)) (\<lambda>inst h. P h \<and> installed_of inst h) P"
        using v unfolding x y prod.case by (auto intro!: run_bind run_ret simp: installed_of_def)
    qed
  qed
  then show ?thesis unfolding inspectInstalled_def by (rule run_get)
qed

definition one_manager :: "host \<Rightarrow> bool" where
  "one_manager h \<longleftrightarrow> \<not> (h_systemd h \<and> h_manual h)"

lemma run_detect:
  assumes "\<And>h. P h \<Longrightarrow> one_manager h"
  shows "run True P (detectServiceManager raw) (\<lambda>m h. P h \<and> managed_by m h \<and> (m = ''systemd'' \<or> m = ''none'')) P"
  unfolding detectServiceManager_def Let_def
proof (rule run_get)
  fix x :: "bool \<times> bool"
  show "run True (\<lambda>h. P h \<and> (h_systemd h, h_manual h) = x) (case x of (systemd, manual) \<Rightarrow>
           if normalizedServiceManager raw = ''auto'' then (if systemd then act_ret ''systemd'' else if manual then act_ret ''none'' else act_fail [BadState ''service manager''])
           else if normalizedServiceManager raw = ''systemd'' then (if systemd then act_ret ''systemd'' else act_fail [BadState ''service manager''])
           else if normalizedServiceManager raw = ''none'' then (if manual then act_ret ''none'' else act_fail [BadState ''service manager''])
           else act_fail [BadState ''service manager''])
    (\<lambda>m h. P h \<and> managed_by m h \<and> (m = ''systemd'' \<or> m = ''none'')) P"
    using assms by (cases x) (auto intro!: run_ret run_fail simp: managed_by_def one_manager_def)
qed

lemma no_pending_idle: "consistent paths h \<Longrightarrow> h_txn h = None \<Longrightarrow> idle h"
  by (auto simp: consistent_alt state_defs on_disk_def)

lemma run_no_pending:
  "run True (\<lambda>h. working paths j h \<and> one_manager h) ensureNoPendingUpdate (\<lambda>_ h. ready j h \<and> one_manager h) (working paths j)"
  unfolding ensureNoPendingUpdate_def
proof (rule run_get)
  show "run True (\<lambda>h. (working paths j h \<and> one_manager h) \<and> (h_txn h \<noteq> None \<or> h_block h \<noteq> None) = x)
    (if x then act_fail [ErrRecoveryRequired] else act_ret ()) (\<lambda>_ h. ready j h \<and> one_manager h) (working paths j)" for x
    by (cases x) (auto intro!: run_ret run_fail no_pending_idle simp: ready_def working_def)
qed

lemma run_path_fail:
  assumes "txn_fits paths t" "e \<noteq> []"
  shows "run True (working paths j) (act_seq (if b then setRecoveryPath (Txn_TempRoot t) else act_ret ()) (act_fail e)) Q (working paths j)"
proof (rule run_seq [where S = "working paths j"])
  have "optional_clean (Txn_TempRoot t)" "Txn_TempRoot t \<noteq> []"
    using assms(1) by (auto simp: txn_fits_def txn_ok_def validateTransactionPaths_def split: if_splits)
  then show "run True (working paths j) (if b then setRecoveryPath (Txn_TempRoot t) else act_ret ()) (\<lambda>_. working paths j) (working paths j)"
    using run_recovery_path [OF tracks_working] by (auto intro: run_ret)
qed (simp add: run_fail assms(2))

lemma txn_fits_parts: "txn_fits paths t \<Longrightarrow> validUpdatePhase q \<Longrightarrow> txn_fits paths (t\<lparr>Txn_Phase := q, Txn_MigrationStarted := b\<rparr>)"
  by (simp del: txn_commute add: txn_fits_started txn_fits_phase)

lemma working_completed:
  assumes "txn_fits paths t" "Txn_JobID t = j" "completed JobReporter t h"
  shows "working paths j h"
  using working_states(3) [OF assms(1,2)] assms(3) by (auto simp: completed_def pending_def)

lemma run_completed:
  assumes fits: "txn_fits paths t" and job: "Txn_JobID t = j"
  shows "run True (completed JobReporter t) (act_bind (act_try (remove_temp (Txn_TempRoot t))) (\<lambda>_. act_bind (act_try pruneReleases) (\<lambda>_. act_ret ())))
    (\<lambda>_. working paths j) (working paths j)"
proof (rule run_bind_try [where S = "completed JobReporter t" and T = "completed JobReporter t"])
  have temp: "completed JobReporter t (h\<lparr>h_temp := tp\<rparr>) = completed JobReporter t h" for h tp
    by (simp add: completed_def finished_def)
  show "run True (completed JobReporter t) (remove_temp (Txn_TempRoot t)) (\<lambda>_. completed JobReporter t) (completed JobReporter t)"
    unfolding remove_temp_def by (auto intro!: run_ret run_commit simp: temp)
  have valid: "validReleaseTarget (Txn_CandidateTarget t)" using txn_fits_target [OF fits] by blast
  obtain m where m: "Txn_CandidateTarget t = ''releases/'' @ m" "path_base (Txn_CandidateTarget t) = m" using valid_target_base [OF valid] by blast
  have less: "completed JobReporter t (h\<lparr>h_releases := filter (\<lambda>k. k \<noteq> n) (h_releases h)\<rparr>)"
    if "completed JobReporter t h" "n \<noteq> path_base (Txn_CandidateTarget t)" for h n
    using that settled_prune [of h m n] m by (simp add: completed_def finished_def)
  have "run True (completed JobReporter t) (act_bind (act_try pruneReleases) (\<lambda>_. act_ret ())) (\<lambda>_. completed JobReporter t) (\<lambda>h. True \<and> completed JobReporter t h)"
    by (rule run_prune [OF valid]) (auto intro: less, simp add: completed_def)
  then show prune: "run True (completed JobReporter t) (act_bind (act_try pruneReleases) (\<lambda>_. act_ret ())) (\<lambda>_. working paths j) (working paths j)"
    by (rule run_conseq) (auto intro: working_completed [OF fits job])
  then show "run True (completed JobReporter t) (act_bind (act_try pruneReleases) (\<lambda>_. act_ret ())) (\<lambda>_. working paths j) (working paths j)" .
qed (rule working_completed [OF fits job])

lemma run_forward_part:
  assumes "txn_fits paths t" "Txn_JobID t = j"
  shows "run True (\<lambda>h. forward JobReporter t h \<and> blocked h \<and> h_running h = None)
    (act_bind (act_try (finishForward paths t JobReporter)) (\<lambda>e.
       if e \<noteq> [] then act_seq (setRecoveryPath (Txn_TempRoot t)) (act_fail e)
       else act_bind (act_try (remove_temp (Txn_TempRoot t))) (\<lambda>_. act_bind (act_try pruneReleases) (\<lambda>_. act_ret ()))))
    (\<lambda>_. working paths j) (working paths j)"
proof (rule run_bind_try [OF run_finish_forward [OF assms(1)]])
  have w: "working paths j h" if "True \<and> (forward JobReporter t h \<or> finished JobReporter t h)" for h
  proof -
    have s: "Txn_MigrationStarted t \<Longrightarrow> t\<lparr>Txn_MigrationStarted := True\<rparr> = t" by (cases t) simp
    have "forward JobReporter t h \<Longrightarrow> Txn_MigrationStarted t" by (simp add: forward_def forward_base_def)
    then have "pending JobReporter t h" unfolding pending_def using that s by metis
    then show ?thesis by (rule working_states(3) [OF assms])
  qed
  then show "True \<and> (forward JobReporter t h \<or> finished JobReporter t h) \<Longrightarrow> working paths j h" for h .
  show "run True (\<lambda>h. True \<and> (forward JobReporter t h \<or> finished JobReporter t h)) (if e \<noteq> [] then act_seq (setRecoveryPath (Txn_TempRoot t)) (act_fail e)
       else act_bind (act_try (remove_temp (Txn_TempRoot t))) (\<lambda>_. act_bind (act_try pruneReleases) (\<lambda>_. act_ret ()))) (\<lambda>_. working paths j) (working paths j)"
    if "e \<noteq> []" for e
    using run_pre [OF run_path_fail [OF assms(1) that, of j True "\<lambda>_. working paths j"] w] that by simp
qed (use run_completed [OF assms] in simp_all)

lemma run_switch_part:
  assumes fits: "txn_fits paths t" and job: "Txn_JobID t = j" and new: "\<not> Txn_MigrationStarted t" and guard_path: "systemdConditionPath (ip_blockFile paths) \<noteq> None"
  shows "run True (prepared JobReporter t)
    (act_bind (switchRelease paths t JobReporter) (\<lambda>(t, e).
       if e \<noteq> [] then act_seq (if Txn_MigrationStarted t then setRecoveryPath (Txn_TempRoot t) else act_ret ()) (act_fail e)
       else act_bind (act_try (finishForward paths t JobReporter)) (\<lambda>e.
         if e \<noteq> [] then act_seq (setRecoveryPath (Txn_TempRoot t)) (act_fail e)
         else act_bind (act_try (remove_temp (Txn_TempRoot t))) (\<lambda>_. act_bind (act_try pruneReleases) (\<lambda>_. act_ret ())))))
    (\<lambda>_. working paths j) (working paths j)"
proof (rule run_bind)
  show "run True (prepared JobReporter t) (switchRelease paths t JobReporter) (\<lambda>r h. switched JobReporter t r h \<or> gave_up JobReporter t r h) (working paths j)"
    by (rule run_weaken [OF run_switch [OF fits new guard_path]]) (auto intro: working_states(3) [OF fits job])
  fix x :: "updateTransaction \<times> install_error list"
  obtain t' e where x: "x = (t', e)" by fastforce
  show "run True (\<lambda>h. switched JobReporter t x h \<or> gave_up JobReporter t x h) (case x of (t, e) \<Rightarrow>
       if e \<noteq> [] then act_seq (if Txn_MigrationStarted t then setRecoveryPath (Txn_TempRoot t) else act_ret ()) (act_fail e)
       else act_bind (act_try (finishForward paths t JobReporter)) (\<lambda>e.
         if e \<noteq> [] then act_seq (setRecoveryPath (Txn_TempRoot t)) (act_fail e)
         else act_bind (act_try (remove_temp (Txn_TempRoot t))) (\<lambda>_. act_bind (act_try pruneReleases) (\<lambda>_. act_ret ())))) (\<lambda>_. working paths j) (working paths j)"
  proof (cases "e = []")
    case True
    show ?thesis
    proof (cases "\<exists>q. validUpdatePhase q \<and> t' = t\<lparr>Txn_Phase := q, Txn_MigrationStarted := True\<rparr>")
      case ph: True
      then have "txn_fits paths t'" "Txn_JobID t' = j" using txn_fits_parts [OF fits] job by auto
      then show ?thesis using run_forward_part [of paths t' j] True unfolding x
        by (auto intro: run_pre simp: switched_def gave_up_def)
    qed (use True x in \<open>auto simp: run_def switched_def gave_up_def\<close>)
  next
    case False
    have "working paths j h" if "gave_up JobReporter t x h" for h using that working_states(3) [OF fits job] x by (auto simp: gave_up_def)
    moreover have "Txn_TempRoot t' = Txn_TempRoot t" if "gave_up JobReporter t x h" for h using that x by (auto simp: gave_up_def)
    ultimately have give: "wp True (act_seq (if Txn_MigrationStarted t' then setRecoveryPath (Txn_TempRoot t') else act_ret ()) (act_fail e)) (\<lambda>_. working paths j)
        (\<lambda>e h. e \<noteq> [] \<and> working paths j h) (working paths j) h" if "gave_up JobReporter t x h" for h
      using run_path_fail [OF fits False, of j "Txn_MigrationStarted t'" "\<lambda>_. working paths j", unfolded run_def] that by metis
    show ?thesis unfolding run_def x prod.case using give False x by (auto simp: switched_def simp del: if_split)
  qed
qed

lemma updateNeeded_error: "updateNeeded sv plan inst = Inl e \<Longrightarrow> e \<noteq> []"
  by (auto simp: updateNeeded_def split: if_splits sum.splits)

lemma run_apply:
  assumes "home_fits paths" "env_ok env" "request_fits (ue_semver env) req"
  shows "run True (\<lambda>h. working paths (Job_ID req) h \<and> one_manager h) (applyUpdateLocked env paths req) (\<lambda>_. working paths (Job_ID req)) (working paths (Job_ID req))"
proof -
  let ?j = "Job_ID req"
  let ?W = "working paths ?j"
  have report: "run True (\<lambda>h. ?W h \<and> one_manager h) (report_phase JobReporter PhaseLocked) (\<lambda>_ h. ?W h \<and> one_manager h) ?W"
    by (rule run_weaken [OF run_report [OF tracks_conj [OF tracks_working]]]) (simp_all add: one_manager_def save_item_def)
  have inspect: "run True (\<lambda>h. ready ?j h \<and> one_manager h) (inspectInstalled env) (\<lambda>inst h. (ready ?j h \<and> one_manager h) \<and> installed_of inst h) ?W"
    by (rule run_weaken [OF run_inspect]) (simp add: working_states)
  have detect: "run True (\<lambda>h. (ready ?j h \<and> one_manager h) \<and> installed_of inst h) (detectServiceManager raw)
      (\<lambda>m h. ((ready ?j h \<and> one_manager h) \<and> installed_of inst h) \<and> managed_by m h \<and> (m = ''systemd'' \<or> m = ''none'')) ?W" for inst raw
    by (rule run_weaken [OF run_detect]) (simp_all add: working_states)
  have stage: "run True (\<lambda>h. ((ready ?j h \<and> one_manager h) \<and> installed_of inst h) \<and> managed_by m h \<and> (m = ''systemd'' \<or> m = ''none'')) (stageUpdate env paths req inst m)
      (\<lambda>t h. txn_fits paths t \<and> Txn_JobID t = ?j \<and> \<not> Txn_MigrationStarted t \<and> prepared JobReporter t h) ?W" for inst m
  proof (cases "m = ''systemd'' \<or> m = ''none''")
    case True
    show ?thesis by (rule run_conseq [OF run_stage [OF assms True]]) (auto simp: staging_def intro: working_states(2))
  qed (simp add: run_def)
  have switch: "run True (\<lambda>h. txn_fits paths t \<and> Txn_JobID t = ?j \<and> \<not> Txn_MigrationStarted t \<and> prepared JobReporter t h)
    (act_bind (switchRelease paths t JobReporter) (\<lambda>(t, e).
       if e \<noteq> [] then act_seq (if Txn_MigrationStarted t then setRecoveryPath (Txn_TempRoot t) else act_ret ()) (act_fail e)
       else act_bind (act_try (finishForward paths t JobReporter)) (\<lambda>e.
         if e \<noteq> [] then act_seq (setRecoveryPath (Txn_TempRoot t)) (act_fail e)
         else act_bind (act_try (remove_temp (Txn_TempRoot t))) (\<lambda>_. act_bind (act_try pruneReleases) (\<lambda>_. act_ret ())))))
    (\<lambda>_. ?W) ?W" for t
    using run_switch_part [OF _ _ _ home_guard [OF assms(1)], of t ?j] by (auto simp: run_def)
  show ?thesis unfolding applyUpdateLocked_def
  proof (rule run_seq [OF report run_seq [OF run_no_pending run_bind [OF inspect]]])
    fix inst
    show "run True (\<lambda>h. (ready ?j h \<and> one_manager h) \<and> installed_of inst h) (case updateNeeded (ue_semver env) (Job_Plan req) inst of
        Inl e \<Rightarrow> act_fail e
      | Inr needed \<Rightarrow>
         if \<not> needed then act_ret ()
         else act_bind (detectServiceManager (Plan_ServiceManager (Job_Plan req))) (\<lambda>manager.
              act_bind (stageUpdate env paths req inst manager) (\<lambda>txn.
              act_bind (switchRelease paths txn JobReporter) (\<lambda>(txn, e).
                if e \<noteq> [] then act_seq (if Txn_MigrationStarted txn then setRecoveryPath (Txn_TempRoot txn) else act_ret ()) (act_fail e)
                else act_bind (act_try (finishForward paths txn JobReporter)) (\<lambda>e.
                  if e \<noteq> [] then act_seq (setRecoveryPath (Txn_TempRoot txn)) (act_fail e)
                  else act_bind (act_try (remove_temp (Txn_TempRoot txn))) (\<lambda>_.
                       act_bind (act_try pruneReleases) (\<lambda>_. act_ret ()))))))) (\<lambda>_. ?W) ?W"
    proof (cases "updateNeeded (ue_semver env) (Job_Plan req) inst")
      case (Inl e)
      then show ?thesis using updateNeeded_error [OF Inl] by (auto intro!: run_fail working_states(1))
    next
      case (Inr needed)
      then show ?thesis using run_bind [OF detect run_bind [OF stage switch]]
        by (cases needed) (auto intro!: run_ret working_states(1))
    qed
  qed
qed

lemma failure_codes [simp]: "value_ok (updateFailureCode e p)"
  by (auto simp: updateFailureCode_def visible_def intro!: visible_value)

lemma status_finish:
  assumes "status_ok item" "clock_ok now"
  shows "status_ok (item\<lparr>SF_Status := StatusFailed, SF_FailureCode := updateFailureCode e p, SF_ExitCode := Some 1, SF_FinishedAt := format_rfc3339_utc now\<rparr>)"
    "status_ok (item\<lparr>SF_Status := StatusCompleted, SF_FailureCode := [], SF_Phase := PhaseDone, SF_ExitCode := Some 0, SF_FinishedAt := format_rfc3339_utc now\<rparr>)"
  using assms(1) parse_printed [OF assms(2)] printed_value [OF assms(2)]
  by (auto simp: status_ok_def is_i64_def max_i64_def min_i64_def)

lemma run_finish:
  assumes "clock_ok (ue_now env)"
  shows "run True (working paths j) (report_finish env e) (\<lambda>_. working paths j) (working paths j)"
  unfolding report_finish_def
proof (rule run_seq [OF run_set_item [where Q = "\<lambda>_. working paths j"] run_commit])
  fix h
  assume w: "working paths j h"
  then have ok: "status_ok (h_item h)" "SF_ID (h_item h) = j" by (simp_all add: working_def reporting_def)
  show "working paths j (h\<lparr>h_item := (if e \<noteq> [] then (h_item h)\<lparr>SF_Status := StatusFailed, SF_FailureCode := updateFailureCode e (SF_RecoveryPath (h_item h)), SF_ExitCode := Some 1\<rparr>
        else (h_item h)\<lparr>SF_Status := StatusCompleted, SF_FailureCode := [], SF_Phase := PhaseDone, SF_ExitCode := Some 0\<rparr>)
       \<lparr>SF_FinishedAt := format_rfc3339_utc (ue_now env)\<rparr>\<rparr>)"
    using ok status_finish [OF ok(1) assms] by (intro working_item [OF w]) auto
qed (auto intro: working_save)

lemma working_drop: "working paths j h \<Longrightarrow> idle (h\<lparr>h_txn := None\<rparr>) \<Longrightarrow> working paths j (h\<lparr>h_txn := None\<rparr>)"
  by (simp add: working_def idle_consistent)

lemma run_update:
  assumes "home_fits paths" "env_ok env" "request_fits (ue_semver env) req"
  shows "run True (\<lambda>h. working paths (Job_ID req) h \<and> one_manager h) (runUpdateLocked env paths req) (\<lambda>_. working paths (Job_ID req)) (working paths (Job_ID req))"
proof -
  let ?W = "working paths (Job_ID req)"
  have clock: "clock_ok (ue_now env)" using assms(2) by (simp add: env_ok_def)
  have remove: "run True ?W (removeDoneTransaction (Job_ID req)) (\<lambda>_. ?W) ?W"
    by (rule run_remove_consistent [of _ paths]) (auto simp: working_drop, simp add: working_def)
  have drop: "run True ?W (act_bind (act_try (removeDoneTransaction (Job_ID req))) (\<lambda>_. act_err e)) (\<lambda>_. ?W) ?W" for e
    by (rule run_bind_try [OF remove]) (auto intro: run_err)
  have finish: "run True ?W (act_bind (act_try (report_finish env e)) (\<lambda>e'. if e' \<noteq> [] then act_fail (e @ e')
       else act_bind (act_try (removeDoneTransaction (Job_ID req))) (\<lambda>_. act_err e))) (\<lambda>_. ?W) ?W" for e
    by (rule run_bind_try [OF run_finish [OF clock]]) (auto intro: run_fail drop)
  show ?thesis unfolding runUpdateLocked_def
    by (rule run_bind_try [OF run_apply [OF assms]]) (auto intro: finish)
qed

lemma run_open:
  assumes "0 \<le> pid" "is_i64 pid"
  shows "run True (\<lambda>h. consistent paths h \<and> one_manager h) (openJobReporter req pid) (\<lambda>_ h. working paths (Job_ID req) h \<and> one_manager h) (consistent paths)"
  unfolding openJobReporter_def
proof (rule run_get)
  fix fl
  let ?j = "Job_ID req"
  let ?P = "\<lambda>h. (consistent paths h \<and> one_manager h) \<and> map_of (h_status h) ?j = fl"
  let ?W = "\<lambda>h. working paths ?j h \<and> one_manager h"
  have go: "run True ?P (act_seq (set_item (\<lambda>_. item\<lparr>SF_ExecutorPID := pid\<rparr>)) (act_seq (commit ''status'' save_item) (io ''open update log''))) (\<lambda>_. ?W) (consistent paths)"
    if "fl = Some data" "readUpdateStatusFile data = Inr item" "SF_ID item = ?j" for data item
  proof (rule run_seq [OF run_set_item [where Q = "\<lambda>_. ?W"] run_seq [OF run_commit [where Q = "\<lambda>_. ?W"] run_io]])
    fix h
    assume h: "?P h"
    then have st: "statuses h" using consistent_statuses by blast
    then have "status_ok item" using status_read [of h ?j data] st h that by auto
    then have "status_ok (item\<lparr>SF_ExecutorPID := pid\<rparr>)" using assms by (simp add: status_ok_def)
    then show "?W (h\<lparr>h_item := item\<lparr>SF_ExecutorPID := pid\<rparr>\<rparr>)"
      using h that st by (simp add: working_def consistent_item reporting_def one_manager_def)
  next
    fix h
    assume "?W h"
    moreover have "one_manager (save_item h) = one_manager h" by (simp add: one_manager_def save_item_def)
    ultimately show "?W (save_item h)" using working_save by simp
    then show "consistent paths h \<and> consistent paths (save_item h)" using \<open>?W h\<close> by (simp add: working_def)
  qed (simp_all add: working_def)
  show "run True ?P (case fl of None \<Rightarrow> act_fail [Io ''read update status'']
       | Some data \<Rightarrow>
          (case readUpdateStatusFile data of
             Inl e \<Rightarrow> act_fail [BadFile e]
           | Inr item \<Rightarrow>
              if SF_ID item \<noteq> Job_ID req \<or> SF_Unit item \<noteq> Job_Unit req \<or> SF_Status item \<noteq> StatusRunning
              then act_fail [BadState ''update status'']
              else act_seq (set_item (\<lambda>_. item\<lparr>SF_ExecutorPID := pid\<rparr>)) (act_seq (commit ''status'' save_item) (io ''open update log'')))) (\<lambda>_. ?W) (consistent paths)"
    using go by (auto intro!: run_fail split: option.split sum.split)
qed

lemma run_execute:
  assumes "home_fits paths" "env_ok env" "0 \<le> pid" "is_i64 pid"
  shows "run True (\<lambda>h. consistent paths h \<and> one_manager h) (executeJob env paths j fl pid) (\<lambda>_. consistent paths) (consistent paths)"
proof (cases "readJobRequest (ue_semver env) fl")
  case (Inr req)
  let ?W = "\<lambda>h. working paths (Job_ID req) h \<and> one_manager h"
  have lock: "run True ?W (io ''update lock'') (\<lambda>_. ?W) (consistent paths)" by (rule run_io) (simp_all add: working_def)
  have body: "run True ?W (runUpdateLocked env paths req) (\<lambda>_. consistent paths) (consistent paths)"
    by (rule run_conseq [OF run_update [OF assms(1,2) read_request_fits [OF Inr]]]) (simp_all add: working_def)
  show ?thesis unfolding executeJob_def Inr sum.case
    using run_seq [OF run_open [OF assms(3,4)] run_seq [OF lock body]] by (auto intro: run_fail)
qed (auto simp: executeJob_def intro!: run_fail)

subsection \<open>The service's side\<close>

definition item_of :: "string \<Rightarrow> statusFile \<Rightarrow> bool" where
  "item_of job item \<longleftrightarrow> status_ok item \<and> SF_ID item = job"

lemma run_write_status:
  "item_of job item \<Longrightarrow> run True (consistent paths) (write_status job item) (\<lambda>_. consistent paths) (consistent paths)"
  unfolding write_status_def by (rule run_commit) (auto intro!: consistent_status status_entryI simp: item_of_def)

lemma run_read_job: "run True (consistent paths) (read_job_status job) (\<lambda>item h. consistent paths h \<and> item_of job item) (consistent paths)"
  unfolding read_job_status_def
proof (rule run_get)
  fix fl
  have "item_of job item" if "consistent paths h" "map_of (h_status h) job = Some data" "readUpdateStatusFile data = Inr item" for h data item
    using status_read [OF consistent_statuses [OF that(1)] that(2)] that(3) by (auto simp: item_of_def)
  then show "run True (\<lambda>h. consistent paths h \<and> map_of (h_status h) job = fl) (case fl of None \<Rightarrow> act_fail [Io ''read update status'']
       | Some data \<Rightarrow> (case readUpdateStatusFile data of Inl e \<Rightarrow> act_fail [BadFile e] | Inr item \<Rightarrow> act_ret item))
    (\<lambda>item h. consistent paths h \<and> item_of job item) (consistent paths)"
    by (auto intro!: run_fail run_ret split: option.split sum.split)
qed

lemma run_remove_only: "run True (consistent paths) (removeDoneTransaction j) (\<lambda>_. consistent paths) (consistent paths)"
  by (rule run_remove_consistent) (auto intro: idle_consistent)

lemma run_settle_done:
  assumes "clock_ok (ue_now env)" "item_of job item"
  shows "run True (consistent paths) (reconcileDoneTransaction env job item) (\<lambda>item h. consistent paths h \<and> item_of job item) (consistent paths)"
  unfolding reconcileDoneTransaction_def
proof (rule run_get)
  fix fl
  let ?Q = "\<lambda>item h. consistent paths h \<and> item_of job item"
  have put: "run True (consistent paths) (act_seq (write_status job item') (act_seq (removeDoneTransaction j) (act_ret item'))) ?Q (consistent paths)"
    if "item_of job item'" for item' j
    by (rule run_seq [OF run_write_status [OF that] run_seq [OF run_remove_only run_ret]]) (simp add: that)
  have drop: "run True (consistent paths) (act_seq (removeDoneTransaction j) (act_ret item)) ?Q (consistent paths)" for j
    by (rule run_seq [OF run_remove_only run_ret]) (simp add: assms(2))
  have settled: "\<exists>item'. statusFromDoneTransaction item t (ue_now env) = Inr item' \<and> item_of job item'" if "Txn_Phase t = PhaseDone" "Txn_JobID t = SF_ID item" for t
  proof -
    have self: "t\<lparr>Txn_Phase := PhaseDone\<rparr> = t" using that(1) by (cases t) simp
    have item: "status_ok item" "SF_ID item = Txn_JobID t" "job = Txn_JobID t" using assms(2) that(2) by (simp_all add: item_of_def)
    show ?thesis by (rule status_done [OF item(1) assms(1) item(2)]) (use self item(3) in \<open>auto simp: item_of_def\<close>)
  qed
  show "run True (\<lambda>h. consistent paths h \<and> h_txn h = fl) (case fl of
         None \<Rightarrow> act_ret item
       | Some data \<Rightarrow>
          (case readTransaction data of
             Inl e \<Rightarrow> act_fail [BadFile e]
           | Inr txn \<Rightarrow>
              if Txn_Phase txn \<noteq> PhaseDone then act_ret item
              else if Txn_JobID txn \<noteq> SF_ID item then act_fail [BadState ''transaction job'']
              else if SF_Status item = StatusRunning
                then (case statusFromDoneTransaction item txn (ue_now env) of
                        Inl e \<Rightarrow> act_fail [BadFile e]
                      | Inr item' \<Rightarrow> act_seq (write_status job item') (act_seq (removeDoneTransaction (Txn_JobID txn)) (act_ret item')))
              else act_seq (removeDoneTransaction (Txn_JobID txn)) (act_ret item))) ?Q (consistent paths)" (is "run _ ?P (?a fl) _ _")
  proof (cases "\<exists>data t. fl = Some data \<and> readTransaction data = Inr t \<and> Txn_Phase t = PhaseDone \<and> Txn_JobID t = SF_ID item")
    case True
    then obtain data t where t: "fl = Some data" "readTransaction data = Inr t" "Txn_Phase t = PhaseDone" "Txn_JobID t = SF_ID item" by blast
    obtain item' where i: "statusFromDoneTransaction item t (ue_now env) = Inr item'" "item_of job item'" using settled [OF t(3,4)] by blast
    have "run True (consistent paths) (?a fl) ?Q (consistent paths)" using t i put [OF i(2)] drop by simp
    then show ?thesis by (rule run_pre) simp
  qed (auto intro!: run_ret run_fail simp: assms(2) split: option.split sum.split)
qed

lemma run_recovery_pending: "run True P recoveryStatePending (\<lambda>_. P) P"
  unfolding recoveryStatePending_def
proof (rule run_get)
  fix x :: "string option \<times> string option"
  obtain fl block where "x = (fl, block)" by fastforce
  then show "run True (\<lambda>h. P h \<and> (h_txn h, h_block h) = x) (case x of (fl, block) \<Rightarrow> case fl of
         None \<Rightarrow> act_ret (block \<noteq> None)
       | Some data \<Rightarrow>
          (case readTransaction data of
             Inl e \<Rightarrow> act_fail [BadFile e]
           | Inr txn \<Rightarrow> act_ret (Txn_Phase txn \<noteq> PhaseDone \<or> block \<noteq> None))) (\<lambda>_. P) P"
    by (auto intro!: run_ret run_fail split: option.split sum.split)
qed

definition stale_path :: "string option \<Rightarrow> statusFile \<Rightarrow> string" where
  "stale_path fl item = (case fl of None \<Rightarrow> SF_RecoveryPath item
     | Some data \<Rightarrow> (case readTransaction data of Inl _ \<Rightarrow> SF_RecoveryPath item
         | Inr txn \<Rightarrow> if Txn_JobID txn = SF_ID item then Txn_TempRoot txn else SF_RecoveryPath item))"

lemma stale_path_value: "consistent paths h \<Longrightarrow> status_ok item \<Longrightarrow> value_ok (stale_path (h_txn h) item)"
proof -
  assume c: "consistent paths h" and ok: "status_ok item"
  have "value_ok (SF_RecoveryPath item)" using ok by (simp add: status_ok_def)
  moreover have "value_ok (Txn_TempRoot t)" if "h_txn h = Some data" "readTransaction data = Inr t" for data t
    using consistent_file [OF c that(1)] that(2) by (auto simp: txn_fits_def txn_ok_def optional_clean_def)
  ultimately show ?thesis by (auto simp: stale_path_def split: option.split sum.split)
qed

lemma status_stale:
  assumes "status_ok item" "clock_ok now" "value_ok path"
  shows "status_ok (item\<lparr>SF_Status := StatusFailed, SF_FailureCode := (if held then ''recovery_required'' else ''executor_lost''),
     SF_RecoveryPath := (if held then path else SF_RecoveryPath item), SF_FinishedAt := format_rfc3339_utc now, SF_ExitCode := None\<rparr>)"
proof -
  have "value_ok ''recovery_required''" "value_ok ''executor_lost''" by (rule visible_value; simp add: visible_def)+
  then show ?thesis using assms(1,3) parse_printed [OF assms(2)] printed_value [OF assms(2)] by (auto simp: status_ok_def)
qed

lemma run_fail_stale:
  assumes "clock_ok (ue_now env)" "item_of job item"
  shows "run True (consistent paths) (failStaleStatus env job item) (\<lambda>_. consistent paths) (consistent paths)"
  unfolding failStaleStatus_def
proof (rule run_bind [OF run_recovery_pending], rule run_get)
  fix held fl
  let ?item = "item\<lparr>SF_Status := StatusFailed, SF_FailureCode := (if held then ''recovery_required'' else ''executor_lost''),
     SF_RecoveryPath := (if held then stale_path fl item else SF_RecoveryPath item), SF_FinishedAt := format_rfc3339_utc (ue_now env), SF_ExitCode := None\<rparr>"
  have "run True (\<lambda>h. consistent paths h \<and> h_txn h = fl) (act_seq (write_status job ?item) (act_ret ?item)) (\<lambda>_. consistent paths) (consistent paths)"
  proof (cases "\<exists>h. consistent paths h \<and> h_txn h = fl")
    case True
    then have "item_of job ?item" using status_stale [OF _ assms(1)] stale_path_value assms(2) unfolding item_of_def by fastforce
    then have "run True (consistent paths) (act_seq (write_status job ?item) (act_ret ?item)) (\<lambda>_. consistent paths) (consistent paths)"
      by (intro run_seq [OF run_write_status run_ret])
    then show ?thesis by (rule run_pre) simp
  next
    case False
    then show ?thesis by (intro run_absurd) auto
  qed
  then show "run True (\<lambda>h. consistent paths h \<and> h_txn h = fl) (let path = case fl of None \<Rightarrow> SF_RecoveryPath item
                   | Some data \<Rightarrow> (case readTransaction data of Inl _ \<Rightarrow> SF_RecoveryPath item
                                  | Inr txn \<Rightarrow> if Txn_JobID txn = SF_ID item then Txn_TempRoot txn else SF_RecoveryPath item);
           item' = item\<lparr>SF_Status := StatusFailed, SF_FailureCode := (if held then ''recovery_required'' else ''executor_lost''),
                     SF_RecoveryPath := (if held then path else SF_RecoveryPath item),
                     SF_FinishedAt := format_rfc3339_utc (ue_now env), SF_ExitCode := None\<rparr>
       in act_seq (write_status job item') (act_ret item')) (\<lambda>_. consistent paths) (consistent paths)"
    unfolding Let_def stale_path_def .
qed

lemma run_settle_stopped:
  assumes "clock_ok (ue_now env)"
  shows "run True (consistent paths) (settleStoppedStatus env job item) (\<lambda>_. consistent paths) (consistent paths)"
  unfolding settleStoppedStatus_def
proof (rule run_bind [OF run_read_job])
  fix latest
  have last: "run True (\<lambda>h. consistent paths h \<and> item_of job it) (if SF_Status it \<noteq> StatusRunning then act_ret it else failStaleStatus env job it)
      (\<lambda>_. consistent paths) (consistent paths)" for it
    using run_fail_stale [OF assms, of job it] by (auto simp: run_def)
  have "run True (consistent paths) (act_bind (reconcileDoneTransaction env job latest) (\<lambda>latest.
         if SF_Status latest \<noteq> StatusRunning then act_ret latest else failStaleStatus env job latest)) (\<lambda>_. consistent paths) (consistent paths)" if "item_of job latest"
    by (rule run_bind [OF run_settle_done [OF assms that] last])
  then show "run True (\<lambda>h. consistent paths h \<and> item_of job latest) (if SF_ID latest \<noteq> SF_ID item then act_fail [BadState ''status changed'']
       else act_bind (reconcileDoneTransaction env job latest) (\<lambda>latest.
         if SF_Status latest \<noteq> StatusRunning then act_ret latest else failStaleStatus env job latest)) (\<lambda>_. consistent paths) (consistent paths)"
    by (cases "item_of job latest") (auto intro!: run_fail intro: run_pre simp: run_absurd)
qed

lemma run_task_state:
  assumes "clock_ok (ue_now env)"
  shows "run True (consistent paths) (taskState env alive job) (\<lambda>_. consistent paths) (consistent paths)"
proof -
  have body: "run True (consistent paths) (reconcileRunningStatus env alive job item) (\<lambda>_. consistent paths) (consistent paths)" if "item_of job item" for item
    unfolding reconcileRunningStatus_def
  proof (rule run_bind [OF run_settle_done [OF assms that]])
    fix it
    have "run True (consistent paths) (act_seq (if has_prefix (SF_Unit it) ''manual-'' then act_ret () else io ''unit status'')
         (if alive then act_ret it else settleStoppedStatus env job it)) (\<lambda>_. consistent paths) (consistent paths)"
      by (rule run_seq [where S = "consistent paths"]) (auto intro!: run_ret run_io run_settle_stopped [OF assms])
    then show "run True (\<lambda>h. consistent paths h \<and> item_of job it) (if SF_Status it \<noteq> StatusRunning \<or> runningStatusFresh (ue_now env) (SF_StartedAt it) then act_ret it
       else act_seq (if has_prefix (SF_Unit it) ''manual-'' then act_ret () else io ''unit status'')
         (if alive then act_ret it else settleStoppedStatus env job it)) (\<lambda>_. consistent paths) (consistent paths)"
      by (auto intro!: run_ret elim: run_pre)
  qed
  show ?thesis unfolding taskState_def
  proof (rule run_get)
    fix fl
    let ?P = "\<lambda>h. consistent paths h \<and> map_of (h_status h) job = fl"
    have go: "run True ?P (act_bind (reconcileRunningStatus env alive job item) (\<lambda>item. act_ret (Some item))) (\<lambda>_. consistent paths) (consistent paths)"
      if "fl = Some data" "readUpdateStatusFile data = Inr item" for data item
    proof (cases "item_of job item")
      case True
      from run_bind [OF body [OF True] run_ret] show ?thesis by (rule run_pre) auto
    next
      case False
      have "\<not> ?P h" for h using status_read [OF consistent_statuses, of paths h job data] that False by (auto simp: item_of_def)
      then show ?thesis by (rule run_absurd)
    qed
    show "run True ?P (case fl of None \<Rightarrow> act_ret None
       | Some data \<Rightarrow>
          (case readUpdateStatusFile data of
             Inl e \<Rightarrow> act_fail [BadFile e]
           | Inr item \<Rightarrow> act_bind (reconcileRunningStatus env alive job item) (\<lambda>item. act_ret (Some item)))) (\<lambda>_. consistent paths) (consistent paths)"
      using go by (auto intro!: run_ret run_fail split: option.split sum.split)
  qed
qed

subsection \<open>Removing finished jobs\<close>

abbreviation without_job :: "string \<Rightarrow> host \<Rightarrow> host" where
  "without_job name h \<equiv> h\<lparr>h_status := filter (\<lambda>(n, f). n \<noteq> name) (h_status h)\<rparr>"

lemma statuses_without: "statuses h \<Longrightarrow> statuses (without_job name h)"
  by (auto simp: statuses_def list_all_iff)

lemma consistent_without:
  assumes "consistent paths h"
  shows "consistent paths (without_job name h)"
proof -
  have "reporting TextReporter j h \<Longrightarrow> reporting TextReporter j (without_job name h)" for j
    using statuses_without [of h name] by (simp add: reporting_def)
  then have "idle h \<Longrightarrow> idle (without_job name h)" "prepared TextReporter t h \<Longrightarrow> prepared TextReporter t (without_job name h)"
    "forward TextReporter t h \<Longrightarrow> forward TextReporter t (without_job name h)" "finished TextReporter t h \<Longrightarrow> finished TextReporter t (without_job name h)" for t
    using statuses_without [of h name] by (auto simp: idle_def state_defs)
  then show ?thesis using assms unfolding consistent_alt by blast
qed

lemma run_cleanup_entries:
  "run True (consistent paths) (cleanup_entries handled currentID jobs errs) (\<lambda>_. consistent paths) (consistent paths)"
proof (induction jobs arbitrary: errs)
  case (Cons job jobs)
  obtain name fl where job: "job = (name, fl)" by fastforce
  have "run True (consistent paths) (commit ''remove job'' (without_job name)) (\<lambda>_. consistent paths) (consistent paths)"
    by (auto intro!: run_commit consistent_without)
  from run_bind_try [OF this, where f = "\<lambda>e. cleanup_entries handled currentID jobs (errs @ e)" and Q = "\<lambda>_. consistent paths" and R = "consistent paths"]
  show ?case using Cons.IH by (simp add: job)
qed (auto intro: run_err)

lemma run_cleanup_jobs:
  "run True (consistent paths) (cleanupUpdateJobs handled currentID) (\<lambda>_. consistent paths) (consistent paths)"
proof -
  have "run True (consistent paths) (act_bind (act_get h_status) (\<lambda>jobs. cleanup_entries handled currentID jobs [])) (\<lambda>_. consistent paths) (consistent paths)"
    by (rule run_get, rule run_pre [OF run_cleanup_entries]) simp
  then show ?thesis unfolding cleanupUpdateJobs_def by (auto intro!: run_ret)
qed

subsection \<open>Histories\<close>

text \<open>
  A server under systemd starts when the condition of its unit allows it; a server run by hand is started by its operator, who
  does not start it while the block of a pending update is there.
\<close>

definition startable :: "host \<Rightarrow> bool" where
  "startable h \<longleftrightarrow> (if h_systemd h then may_start h else h_block h = None \<and> entry_binary h \<noteq> None)"

inductive step :: "installPaths \<Rightarrow> host \<Rightarrow> host \<Rightarrow> bool" for paths where
  queue: "status_ok (statusForRequest req logPath now) \<Longrightarrow>
    step paths h (h\<lparr>h_status := AList.update (Job_ID req) (writeUpdateStatusFile (statusForRequest req logPath now)) (h_status h)\<rparr>)"
| execute: "env_ok env \<Longrightarrow> one_manager h \<Longrightarrow> 0 \<le> pid \<Longrightarrow> is_i64 pid \<Longrightarrow>
    executeJob env paths job data pid (script, h) = (result, script', h') \<Longrightarrow> step paths h h'"
| recover: "clock_ok (ue_now env) \<Longrightarrow> recoverUpdateLocked env paths (script, h) = (result, script', h') \<Longrightarrow> step paths h h'"
| reconcile: "clock_ok (ue_now env) \<Longrightarrow> taskState env alive job (script, h) = (state, script', h') \<Longrightarrow> step paths h h'"
| cleanup: "cleanupUpdateJobs handled currentID (script, h) = (result, script', h') \<Longrightarrow> step paths h h'"
| start: "startable h \<Longrightarrow> step paths h (h\<lparr>h_running := entry_binary h\<rparr>)"
| stop: "step paths h (h\<lparr>h_running := None\<rparr>)"

lemma run_ends:
  assumes "run True P a (\<lambda>_. Q) Q" "P h" "a (s, h) = (r, s', h')"
  shows "Q h'"
proof -
  have "script_ok True s" by (simp add: script_ok_def)
  then have "ends True (\<lambda>_. Q) (\<lambda>e h. e \<noteq> [] \<and> Q h) Q (a (s, h))" using assms(1,2) unfolding run_def wp_def by blast
  then show ?thesis using assms(3) by (cases r) auto
qed

lemma start_entry:
  assumes "consistent paths h" "startable h"
  shows "entry_binary h = Some (h_schema h) \<and> \<not> h_migrating h"
proof -
  have s: "\<not> blocked h" "entry_binary h \<noteq> None" using assms(2) by (auto simp: startable_def may_start_def blocked_def split: if_splits)
  have entry: "entry_binary h = Some (ReleaseBinary cu)" if "bin_linked h" "h_current h = Some cu" "released h cu" for cu
    using that by (auto simp: entry_binary_def bin_linked_def released_def)
  consider "idle h" | t where "prepared TextReporter t h" | t where "forward TextReporter t h" | t where "finished TextReporter t h"
    using assms(1) unfolding consistent_alt by blast
  then show ?thesis
  proof cases
    case 2
    then show ?thesis using s entry [of "Txn_PreviousTarget t"] by (cases "Txn_Legacy t") (auto simp: state_defs)
  next
    case 3
    then show ?thesis using s entry [of "Txn_CandidateTarget t"] by (auto simp: state_defs)
  qed (auto simp: idle_def state_defs)
qed

lemma consistent_running:
  assumes "consistent paths h" "r = None \<or> r = Some (h_schema h) \<and> \<not> h_migrating h"
  shows "consistent paths (h\<lparr>h_running := r\<rparr>)"
proof -
  have served: "served (h\<lparr>h_running := r\<rparr>)" using assms(2) by (simp add: served_def)
  have "idle h \<Longrightarrow> idle (h\<lparr>h_running := r\<rparr>)" using served by (simp add: idle_def settled_def)
  moreover have "prepared TextReporter t h \<Longrightarrow> prepared TextReporter t (h\<lparr>h_running := r\<rparr>)" "forward TextReporter t h \<Longrightarrow> forward TextReporter t (h\<lparr>h_running := r\<rparr>)"
    "finished TextReporter t h \<Longrightarrow> finished TextReporter t (h\<lparr>h_running := r\<rparr>)" for t
    using served by (auto simp: state_defs)
  ultimately show ?thesis using assms(1) unfolding consistent_alt by blast
qed

lemma recover_consistent:
  assumes fits: "home_fits paths" and clock: "clock_ok (ue_now env)"
  shows "run True (consistent paths) (recoverUpdateLocked env paths) (\<lambda>_. consistent paths) (consistent paths)"
proof -
  note guard_path = home_guard [OF fits]
  have again: "recovering t h \<Longrightarrow> txn_fits paths t \<Longrightarrow> consistent paths h" for t h unfolding consistent_alt recovering_def by blast
  have settled: "recovered t cu h \<Longrightarrow> consistent paths h" for t cu h by (simp add: recovered_def idle_consistent)
  have "run True (\<lambda>h. txn_fits paths t \<and> (prepared TextReporter t h \<or> forward TextReporter t h \<or> finished TextReporter t h))
    (recoverUpdateLocked env paths) (\<lambda>_. consistent paths) (consistent paths)" for t
  proof (cases "txn_fits paths t")
    case True
    have p: "run True (prepared TextReporter t) (recoverUpdateLocked env paths) (\<lambda>_. consistent paths) (consistent paths)"
      by (rule run_conseq [OF run_recover_prepared [OF True guard_path clock]]) (auto intro: again [OF _ True] settled)
    have f: "run True (forward TextReporter t) (recoverUpdateLocked env paths) (\<lambda>_. consistent paths) (consistent paths)"
      by (rule run_conseq [OF run_recover_forward [OF True guard_path clock]]) (auto intro: again [OF _ True] settled)
    have d: "run True (\<lambda>h. finished TextReporter t h \<and> h_current h = cu) (recoverUpdateLocked env paths) (\<lambda>_. consistent paths) (consistent paths)" for cu
      by (rule run_conseq [OF run_recover_finished [OF True clock]]) (auto intro: again [OF _ True] settled)
    from p f d show ?thesis unfolding run_def by blast
  qed (simp add: run_def)
  moreover have "run True idle (recoverUpdateLocked env paths) (\<lambda>_. consistent paths) (consistent paths)"
    unfolding recoverUpdateLocked_def
    by (rule run_known [where x = "(None, None)"]) (simp add: idle_def settled_def, auto intro!: run_fail idle_consistent)
  ultimately show ?thesis unfolding run_def by (auto simp: consistent_alt)
qed

lemma step_consistent: "step paths h h' \<Longrightarrow> home_fits paths \<Longrightarrow> consistent paths h \<Longrightarrow> consistent paths h'"
proof (induction rule: step.induct)
  case (queue req logPath now h)
  then show ?case by (intro consistent_status status_entryI) (simp_all add: statusForRequest_def)
next
  case (execute env h pid job data script result script' h')
  then show ?case using run_ends [OF run_execute] by blast
next
  case (recover env script h result script' h')
  then show ?case using run_ends [OF recover_consistent] by blast
next
  case (reconcile env alive job script h state script' h')
  then show ?case using run_ends [OF run_task_state] by blast
next
  case (cleanup currentID h handled script result script' h')
  then show ?case using run_ends [OF run_cleanup_jobs] by blast
next
  case (start h)
  then show ?case using start_entry consistent_running by simp
qed (simp add: consistent_running)

lemma history_consistent:
  assumes "(step paths)\<^sup>*\<^sup>* h0 h" "home_fits paths" "idle h0"
  shows "consistent paths h"
  using assms(1)
proof (induction rule: rtranclp_induct)
  case base
  then show ?case by (rule idle_consistent [OF assms(3)])
next
  case (step h h')
  then show ?case using step_consistent assms(2) by blast
qed

end
