(* ===== verification/Update_Returns.thy ===== *)
theory Update_Returns
  imports Update_History
begin

text \<open>
  When recovery returns. It records its result in the status of the job that owns the transaction: without that status it never
  succeeds, and with it, when no operation fails, it always does.
\<close>

subsection \<open>Recovery without a status\<close>

text \<open>Actions that leave every status file as it is, and actions that never succeed while the status of a job is missing.\<close>

definition keeps :: "'a action \<Rightarrow> bool" where
  "keeps a \<longleftrightarrow> (\<forall>s h. h_status (snd (snd (a (s, h)))) = h_status h)"

named_theorems keeps_intros

lemma keeps_basic [keeps_intros]: "keeps (act_ret x)" "keeps (act_fail e)" "keeps (act_get f)" "keeps (act_err e)"
  by (simp_all add: keeps_def act_ret_def act_fail_def act_get_def act_err_def)

lemma keeps_commit_state [keeps_intros]: "(\<And>h. h_status (f h) = h_status h) \<Longrightarrow> keeps (commit_state what f)"
  by (simp add: keeps_def commit_state_def split: list.split outcome.split)

lemma keeps_bind [keeps_intros]:
  assumes "keeps a" "\<And>x. keeps (f x)"
  shows "keeps (act_bind a f)"
  unfolding keeps_def
proof (intro allI)
  fix s h
  obtain r s' h' where a: "a (s, h) = (r, s', h')" by (metis prod_cases3)
  then have "h_status h' = h_status h" using assms(1) by (metis keeps_def snd_conv)
  then show "h_status (snd (snd (act_bind a f (s, h)))) = h_status h"
    using assms(2) by (cases r) (auto simp: act_bind_def a keeps_def)
qed

lemma keeps_seq [keeps_intros]: "keeps a \<Longrightarrow> keeps b \<Longrightarrow> keeps (act_seq a b)"
  unfolding act_seq_def by (rule keeps_bind)

lemma keeps_try [keeps_intros]: "keeps a \<Longrightarrow> keeps (act_try a)"
  unfolding keeps_def act_try_def by (auto split: prod.split result.split) (metis snd_conv)+

lemma keeps_commit [keeps_intros]: "(\<And>h. h_status (f h) = h_status h) \<Longrightarrow> keeps (commit what f)"
  unfolding commit_def by (rule keeps_bind) (auto intro: keeps_intros)

lemma keeps_io [keeps_intros]: "keeps (io what)"
  unfolding io_def by (rule keeps_commit) simp

lemma keeps_each [keeps_intros]: "(\<And>x. keeps (f x)) \<Longrightarrow> keeps (act_each f xs)"
  by (induction xs) (auto intro: keeps_intros)

lemma keeps_if [keeps_intros]: "keeps a \<Longrightarrow> keeps b \<Longrightarrow> keeps (if c then a else b)"
  by simp

lemma keeps_report [keeps_intros]: "keeps (report_phase TextReporter p)"
  by (simp add: report_phase_def keeps_intros)

lemma keeps_write [keeps_intros]: "keeps (writeTransaction t)"
  unfolding writeTransaction_def writeTransactionState_def by (auto intro!: keeps_intros split: sum.split)

lemma keeps_aliases [keeps_intros]: "keeps (installCompatibilityAliases b)"
  unfolding installCompatibilityAliases_def replaceInstallAlias_def remove_tree_def tightenInstallPermissions_def
  by (auto intro!: keeps_intros split: option.split entry.split)

lemma keeps_activate [keeps_intros]: "keeps (switchCurrent t)" "keeps (activateRelease t b)"
  unfolding activateRelease_def switchCurrent_def by (auto intro!: keeps_intros)

lemma keeps_restore [keeps_intros]: "keeps (restoreLegacyInstall paths dir)"
  unfolding restoreLegacyInstall_def remove_tree_def copy_tree_def tightenInstallPermissions_def
  by (auto intro!: keeps_intros split: option.split)

lemma keeps_service [keeps_intros]:
  "keeps (ensureServiceRecoveryGuard paths m)" "keeps (writeUpdateBlock j)" "keeps (stopDash m)" "keeps removeUpdateBlock" "keeps (startDash m)"
  unfolding ensureServiceRecoveryGuard_def writeUpdateBlock_def stopDash_def removeUpdateBlock_def startDash_def by (auto intro!: keeps_intros)

lemma keeps_start [keeps_intros]: "keeps (start_or_hold t)"
  unfolding start_or_hold_def holdDashForRecovery_def by (auto intro!: keeps_intros)

lemma keeps_rollback [keeps_intros]: "keeps (rollbackBeforeMigration paths t e)"
  unfolding rollbackBeforeMigration_def markTransactionDone_def remove_candidate_def remove_temp_def by (auto intro!: keeps_intros)

lemma keeps_reach [keeps_intros]: "keeps (reachPhase t p TextReporter)"
  unfolding reachPhase_def Let_def by (auto intro!: keeps_intros)

lemma keeps_forward [keeps_intros]: "keeps (finishForward paths t TextReporter)"
  unfolding finishForward_def runCandidateMigration_def markTransactionDone_def by (auto intro!: keeps_intros)

definition stuck :: "string \<Rightarrow> 'a action \<Rightarrow> bool" where
  "stuck j a \<longleftrightarrow> (\<forall>s h x. map_of (h_status h) j = None \<longrightarrow> fst (a (s, h)) \<noteq> Ok x)"

lemma stuck_seq: "stuck j a \<Longrightarrow> stuck j (act_seq a b)" "keeps a \<Longrightarrow> stuck j b \<Longrightarrow> stuck j (act_seq a b)"
proof -
  show "stuck j (act_seq a b)" if a: "stuck j a"
    unfolding stuck_def
  proof (intro allI impI)
    fix s x and h :: host
    assume "map_of (h_status h) j = None"
    then have "fst (a (s, h)) \<noteq> Ok y" for y using a by (simp add: stuck_def)
    then show "fst (act_seq a b (s, h)) \<noteq> Ok x"
      by (cases "a (s, h)"; cases "fst (a (s, h))") (auto simp: act_seq_def act_bind_def)
  qed
  assume k: "keeps a" and b: "stuck j b"
  show "stuck j (act_seq a b)" unfolding stuck_def
  proof (intro allI impI)
    fix s x and h :: host
    assume h: "map_of (h_status h) j = None"
    obtain r s' h' where a: "a (s, h) = (r, s', h')" by (metis prod_cases3)
    then have "map_of (h_status h') j = None" using k h by (metis keeps_def snd_conv)
    then show "fst (act_seq a b (s, h)) \<noteq> Ok x" using b by (cases r) (auto simp: act_seq_def act_bind_def a stuck_def)
  qed
qed

lemma stuck_finalize: "stuck (Txn_JobID t) (finalizeRecovery env t)"
proof -
  have "stuck (Txn_JobID t) (recordRecoveryResult env t)"
    by (simp add: stuck_def recordRecoveryResult_def act_bind_def act_get_def act_fail_def)
  moreover have "stuck (Txn_JobID t) (act_fail e)" for e by (simp add: stuck_def act_fail_def)
  ultimately show ?thesis unfolding finalizeRecovery_def by (auto intro: stuck_seq(1))
qed

lemma stuck_recover: "stuck (Txn_JobID t) (recoverTransaction env paths t)"
proof -
  have final: "stuck (Txn_JobID t) (finalizeRecovery env (t\<lparr>Txn_Phase := PhaseDone\<rparr>))" using stuck_finalize [of "t\<lparr>Txn_Phase := PhaseDone\<rparr>" env] by simp
  note hold = stuck_seq(2) [OF keeps_service(1) stuck_seq(2) [OF keeps_service(2) stuck_seq(2) [OF keeps_service(3)]]]
  show ?thesis unfolding recoverTransaction_def
    using stuck_finalize [of t env] hold [OF stuck_seq(2) [OF keeps_rollback final]]
      hold [OF stuck_seq(2) [OF keeps_activate(2) stuck_seq(2) [OF keeps_forward stuck_seq(1) [OF final, of "act_bind (act_try pruneReleases) (\<lambda>_. act_ret ())"]]]] by simp
qed

subsection \<open>Recovery returns\<close>

text \<open>Recovery removes no status.\<close>

definition spares :: "string \<Rightarrow> 'a action \<Rightarrow> bool" where
  "spares j a \<longleftrightarrow> (\<forall>s h. map_of (h_status h) j \<noteq> None \<longrightarrow> map_of (h_status (snd (snd (a (s, h))))) j \<noteq> None)"

lemma spares_keeps: "keeps a \<Longrightarrow> spares j a"
  by (simp add: spares_def keeps_def)

lemmas spares_basic = keeps_basic [THEN spares_keeps]

lemma spares_bind:
  assumes "spares j a" "\<And>x. spares j (f x)"
  shows "spares j (act_bind a f)"
  unfolding spares_def
proof (intro allI impI)
  fix s and h :: host
  assume h: "map_of (h_status h) j \<noteq> None"
  obtain r s' h' where a: "a (s, h) = (r, s', h')" by (metis prod_cases3)
  then have "map_of (h_status h') j \<noteq> None" using assms(1) h by (metis spares_def snd_conv)
  then show "map_of (h_status (snd (snd (act_bind a f (s, h))))) j \<noteq> None"
    using assms(2) by (cases r) (auto simp: act_bind_def a spares_def)
qed

lemma spares_seq: "spares j a \<Longrightarrow> spares j b \<Longrightarrow> spares j (act_seq a b)"
  unfolding act_seq_def by (rule spares_bind)

lemma spares_update: "spares j (commit what (\<lambda>h. h\<lparr>h_status := AList.update k fl (h_status h)\<rparr>))"
proof -
  have "spares j (commit_state what (\<lambda>h. h\<lparr>h_status := AList.update k fl (h_status h)\<rparr>))"
    by (auto simp: spares_def commit_state_def update_conv' split: list.split outcome.split)
  then show ?thesis unfolding commit_def by (rule spares_bind) (auto intro!: spares_keeps keeps_intros)
qed

lemma spares_finalize: "spares j (finalizeRecovery env t)"
proof -
  have "spares j (recordRecoveryResult env t)" unfolding recordRecoveryResult_def
    by (rule spares_bind) (auto intro!: spares_keeps spares_update keeps_intros split: option.split sum.split)
  moreover have "keeps (removeDoneTransaction (Txn_JobID t))" "keeps (remove_temp (Txn_TempRoot t))"
    unfolding removeDoneTransaction_def remove_temp_def by (auto intro!: keeps_intros split: option.split sum.split)
  ultimately show ?thesis unfolding finalizeRecovery_def
    by (auto intro!: spares_seq intro: spares_bind [OF spares_keeps] spares_keeps keeps_intros)
qed

lemma spares_recover: "spares j (recoverUpdateLocked env paths)"
proof -
  have prune: "keeps pruneReleases"
    unfolding pruneReleases_def by (auto intro!: keeps_intros split: option.split)
  have "spares j (recoverTransaction env paths t)" for t
    unfolding recoverTransaction_def
    by (auto intro!: spares_seq spares_finalize intro: spares_bind [OF spares_keeps] spares_keeps keeps_intros prune)
  then show ?thesis unfolding recoverUpdateLocked_def
    by (intro spares_bind) (auto intro!: spares_seq spares_basic split: option.split sum.split)
qed

lemma run_returns:
  assumes "run False P a Q (\<lambda>h. (False \<or> lost t h) \<and> R h)" "P h" "list_all (\<lambda>oc. oc = Succeeds) s" "spares (Txn_JobID t) a" "\<not> lost t h"
  shows "\<exists>x s' h'. a (s, h) = (Ok x, s', h') \<and> Q x h'"
proof -
  have "script_ok False s" using assms(3) by (simp add: script_ok_def)
  then have e: "ends False Q (\<lambda>e h. e \<noteq> [] \<and> (False \<or> lost t h) \<and> R h) (\<lambda>h. (False \<or> lost t h) \<and> R h) (a (s, h))"
    using assms(1,2) unfolding run_def wp_def by blast
  obtain r s' h' where a: "a (s, h) = (r, s', h')" by (metis prod_cases3)
  have "\<not> lost t h'" using assms(4,5) a by (metis lost_def spares_def snd_conv)
  then show ?thesis using e unfolding a by (cases r) auto
qed

lemma recover_returns:
  assumes "home_fits paths" "consistent paths h" "h_txn h = Some data" "readTransaction data = Inr tx" "map_of (h_status h) (Txn_JobID tx) \<noteq> None" "clock_ok (ue_now env)" "list_all (\<lambda>oc. oc = Succeeds) s"
  shows "\<exists>s' h'. recoverUpdateLocked env paths (s, h) = (Ok (), s', h') \<and>
     recovered tx (if Txn_Phase tx = PhaseDone then h_current h else if Txn_MigrationStarted tx then Some (Txn_CandidateTarget tx) else former tx) h'"
proof -
  note guard_path = home_guard [OF assms(1)]
  obtain t where t: "txn_fits paths t" "prepared TextReporter t h \<or> forward TextReporter t h \<or> finished TextReporter t h"
    using assms(2,3) by (auto simp: consistent_alt idle_def)
  have ok: "txn_ok t" using t(1) by (simp add: txn_fits_def)
  have kept: "\<not> lost t h" if "tx = t\<lparr>Txn_Phase := p\<rparr>" for p using assms(5) that by (simp add: lost_def)
  have phase: "recovered (t\<lparr>Txn_Phase := p\<rparr>) = recovered t" for p by (simp add: recovered_def fun_eq_iff)
  consider "prepared TextReporter t h" | "forward TextReporter t h" | "finished TextReporter t h" using t(2) by blast
  then show ?thesis
  proof cases
    case 1
    obtain p where p: "tx = t\<lparr>Txn_Phase := p\<rparr>" "p \<noteq> PhaseDone" using pending_file [OF ok _ assms(3)] 1 assms(4) by auto
    have "\<not> Txn_MigrationStarted t" using 1 by (simp add: prepared_def prepared_base_def)
    then show ?thesis using run_returns [OF run_recover_prepared [OF t(1) guard_path assms(6)] 1 assms(7) spares_recover kept [OF p(1)]] p by (fastforce simp: phase)
  next
    case 2
    obtain p where p: "tx = t\<lparr>Txn_Phase := p\<rparr>" "p \<noteq> PhaseDone" using pending_file [OF ok _ assms(3)] 2 assms(4) by auto
    have "Txn_MigrationStarted t" using 2 by (simp add: forward_def forward_base_def)
    then show ?thesis using run_returns [OF run_recover_forward [OF t(1) guard_path assms(6)] 2 assms(7) spares_recover kept [OF p(1)]] p by (fastforce simp: phase)
  next
    case 3
    have d: "tx = t\<lparr>Txn_Phase := PhaseDone\<rparr>" using finished_file [OF ok 3 assms(3)] assms(4) by simp
    have "finished TextReporter t h \<and> h_current h = h_current h" using 3 by simp
    then show ?thesis using run_returns [OF run_recover_finished [OF t(1) assms(6)] _ assms(7) spares_recover kept [OF d]] d by (fastforce simp: phase)
  qed
qed

end
