(* ===== verification/Update_Theorems.thy ===== *)
theory Update_Theorems
  imports Update_Returns
begin

text \<open>
  The theorems on updates of the dashboard, and an installation on which they are instantiated: a legacy server
  under systemd that is updated by one job, whose updater dies right after it has committed its transaction.
\<close>

subsection \<open>State files\<close>

definition request_ok :: "semver \<Rightarrow> jobRequest \<Rightarrow> bool" where
  "request_ok sv req \<longleftrightarrow> validJobID (Job_ID req) \<and> Job_Unit req \<noteq> [] \<and> plan_validate sv (Job_Plan req) = None \<and>
     Plan_Action (Job_Plan req) \<in> set [ActionUpdate, ActionReinstall] \<and> Plan_Channel (Job_Plan req) \<in> set [ChannelRelease, ChannelPrerelease] \<and>
     Plan_Origin (Job_Plan req) \<in> set [OriginManual, OriginAuto] \<and> Plan_ServiceManager (Job_Plan req) \<noteq> [] \<and>
     list_all value_ok [Job_ID req, Job_Unit req, Plan_TargetVersion (Job_Plan req), Plan_ExpectedCurrentVersion (Job_Plan req),
       Plan_ExpectedInstallRevision (Job_Plan req), Plan_Lang (Job_Plan req), Plan_ServiceManager (Job_Plan req)]"

lemma request_keys: "list_all plain_key (map fst (request_fields req))" "distinct (map fst (request_fields req))"
  by (simp_all add: request_fields_def plain_key_def key_ok_def visible_def)

lemma manager_normal: "value_ok m \<Longrightarrow> m \<noteq> [] \<Longrightarrow> normalizedServiceManager m = m"
  by (simp add: normalizedServiceManager_def value_ok_trim)

lemma read_request:
  assumes "request_ok sv req"
  shows "writeJobRequest sv req = Inr (write_fields (request_fields req)) \<and> readJobRequest sv (write_fields (request_fields req)) = Inr req"
proof -
  note ok = assms [unfolded request_ok_def]
  have member: "Plan_Action (Job_Plan req) \<in> set [ActionUpdate, ActionReinstall]" "Plan_Channel (Job_Plan req) \<in> set [ChannelRelease, ChannelPrerelease]"
    "Plan_Origin (Job_Plan req) \<in> set [OriginManual, OriginAuto]" using ok by blast+
  note words = words_ok(2) [OF member(1)] words_ok(3) [OF member(2)] words_ok(4) [OF member(3)]
  have manager: "normalizedServiceManager (Plan_ServiceManager (Job_Plan req)) = Plan_ServiceManager (Job_Plan req)"
    using ok by (intro manager_normal) auto
  have "list_all value_ok (map snd (request_fields req))" using ok words manager by (simp add: request_fields_def)
  then obtain fs where fs: "readStatusFields (write_fields (request_fields req)) = Inr fs" "\<And>k. field fs k = field (request_fields req) k"
    using fields_read_back [OF request_keys] by blast
  have id: "Job_ID req \<noteq> []" using ok job_id_required by auto
  have "readJobRequest sv (write_fields (request_fields req)) = Inr req"
    unfolding readJobRequest_def fs(1) sum.case fs(2) requiredStatusField_def
    using ok words manager id by (cases req; cases "Job_Plan req"; simp add: field_def request_fields_def value_ok_trim Let_def)
  moreover have "writeJobRequest sv req = Inr (write_fields (request_fields req))" using ok by (simp add: writeJobRequest_def)
  ultimately show ?thesis by simp
qed

subsection \<open>An installation\<close>

definition demo_paths :: installPaths where
  "demo_paths = the (newInstallPaths ''/opt/dash'')"

definition demo_semver :: semver where
  "demo_semver = \<lparr>sv_IsValid = (\<lambda>v. v = ''v1.0.0'' \<or> v = ''v1.1.0''),
     sv_Compare = (\<lambda>a b. if a = b then 0 else if a = ''v1.0.0'' then -1 else 1), sv_Prerelease = (\<lambda>_. [])\<rparr>"

definition demo_revision :: string where
  "demo_revision = replicate 64 (CHR ''a'')"

definition demo_env :: update_env where
  "demo_env = \<lparr>ue_semver = demo_semver, ue_version = (\<lambda>b. case b of LegacyBinary _ \<Rightarrow> Some ''1.0.0'' | ReleaseBinary _ \<Rightarrow> Some ''1.1.0''),
     ue_content = (\<lambda>_. ''elf''), ue_sha256 = (\<lambda>_. demo_revision), ue_now = time_Date UTC 2026 5 17 3600 0, ue_temp = ''4711''\<rparr>"

definition demo_request :: jobRequest where
  "demo_request = \<lparr>Job_ID = ''job1'', Job_Unit = ''dash-update-job1'', Job_Plan = \<lparr>Plan_Action = ActionUpdate, Plan_Channel = ChannelRelease,
     Plan_TargetVersion = ''1.1.0'', Plan_ExpectedCurrentVersion = ''1.0.0'', Plan_ExpectedInstallRevision = demo_revision, Plan_Origin = OriginManual,
     Plan_Lang = ''en'', Plan_ServiceManager = ''auto''\<rparr>\<rparr>"

definition demo_log :: string where
  "demo_log = ''/opt/dash/job1/update.log''"

definition demo_status :: statusFile where
  "demo_status = statusForRequest demo_request demo_log (ue_now demo_env)"

definition demo_host :: host where
  "demo_host = \<lparr>h_home = (\<lambda>k. if k = bin_alias then Some (Tree ''old'') else None), h_current = None, h_marker = False, h_releases = [], h_temp = [],
     h_txn = None, h_block = None, h_guard = False, h_status = [], h_item = demo_status, h_running = Some (LegacyBinary ''old''),
     h_schema = LegacyBinary ''old'', h_migrating = False, h_systemd = True, h_manual = False\<rparr>"

definition demo_queued :: host where
  "demo_queued = demo_host\<lparr>h_status := AList.update (Job_ID demo_request) (writeUpdateStatusFile demo_status) (h_status demo_host)\<rparr>"

definition demo_crash :: "outcome list" where
  "demo_crash = replicate 20 Succeeds @ [DiesAfter]"

definition demo_crashed :: host where
  "demo_crashed = snd (snd (executeJob demo_env demo_paths ''job1'' (write_fields (request_fields demo_request)) 42 (demo_crash, demo_queued)))"

lemma demo_home: "home_fits demo_paths"
proof -
  have "newInstallPaths ''/opt/dash'' \<noteq> None" unfolding newInstallPaths_def by code_simp
  then have new: "newInstallPaths ''/opt/dash'' = Some demo_paths" by (auto simp: demo_paths_def)
  moreover have "ip_home demo_paths = ''/opt/dash''" by code_simp
  ultimately show ?thesis by (simp add: home_fits_def home_char_def visible_def)
qed

lemma demo_clock: "clock_ok (ue_now demo_env)"
  unfolding clock_ok_def by code_simp

lemma demo_env_ok: "env_ok demo_env"
  using demo_clock by (simp add: env_ok_def semver_chars_def demo_env_def demo_semver_def ver_char_def job_char_def is_digit_def)

lemma demo_values: "value_ok demo_revision" "value_ok demo_log" "value_ok ''job1''" "value_ok ''dash-update-job1''" "value_ok ''1.1.0''" "value_ok ''1.0.0''"
  "value_ok ''en''" "value_ok ''auto''"
  by (auto intro!: visible_value simp: demo_revision_def demo_log_def visible_def list_all_iff)

lemma demo_status_ok: "status_ok demo_status"
  using demo_values parse_printed [OF demo_clock] printed_value [OF demo_clock]
  by (auto simp: status_ok_def demo_status_def statusForRequest_def demo_request_def is_i64_def max_i64_def min_i64_def)

lemma demo_idle: "idle demo_host"
  by (simp add: idle_def settled_def statuses_def served_def demo_host_def entry_binary_def good_target_def bin_alias_def)

lemma demo_plan_ok: "request_ok demo_semver demo_request"
proof -
  have "plan_validate demo_semver (Job_Plan demo_request) = None" by code_simp
  moreover have "validJobID ''job1''" by code_simp
  ultimately show ?thesis using demo_values by (simp add: request_ok_def demo_request_def)
qed

lemma demo_history: "(step demo_paths)\<^sup>*\<^sup>* demo_host demo_crashed"
proof -
  have "step demo_paths demo_host demo_queued"
    unfolding demo_queued_def demo_status_def by (rule step.queue) (use demo_status_ok in \<open>simp add: demo_status_def\<close>)
  moreover have "step demo_paths demo_queued demo_crashed"
  proof (rule step.execute [OF demo_env_ok])
    show "one_manager demo_queued" by (simp add: one_manager_def demo_queued_def demo_host_def)
    show "executeJob demo_env demo_paths ''job1'' (write_fields (request_fields demo_request)) 42 (demo_crash, demo_queued) =
      (fst (executeJob demo_env demo_paths ''job1'' (write_fields (request_fields demo_request)) 42 (demo_crash, demo_queued)),
       fst (snd (executeJob demo_env demo_paths ''job1'' (write_fields (request_fields demo_request)) 42 (demo_crash, demo_queued))), demo_crashed)"
      by (simp add: demo_crashed_def)
  qed (simp_all add: is_i64_def max_i64_def min_i64_def)
  ultimately show ?thesis by (meson converse_rtranclp_into_rtranclp r_into_rtranclp)
qed

definition demo_staged :: updateTransaction where
  "demo_staged = \<lparr>Txn_FormatVersion = 1, Txn_JobID = ''job1'', Txn_Phase = PhasePrepared, Txn_PreviousTarget = [],
     Txn_CandidateTarget = ''releases/1.1.0-20260517T010000Z-job1'', Txn_CandidateDir = ''/opt/dash/releases/1.1.0-20260517T010000Z-job1'',
     Txn_TempRoot = ''/opt/.ithiltir-dash-update-4711'', Txn_BackupDir = ''/opt/.ithiltir-dash-update-4711/backup/legacy'', Txn_Legacy = True,
     Txn_ServiceManager = ''systemd'', Txn_ServiceWasActive = True, Txn_MigrationStarted = False, Txn_CreatedAt = ''2026-05-17T01:00:00Z''\<rparr>"

lemma demo_file: "h_txn demo_crashed = Some (txn_file demo_staged)"
  by code_simp

lemma demo_job: "map fst (h_status demo_crashed) = [''job1'']"
  by code_simp

lemma demo_pending: "h_txn demo_crashed \<noteq> None"
  by (simp add: demo_file)

lemma demo_staged_ok: "txn_ok demo_staged"
proof -
  have "path_clean (Txn_CandidateDir demo_staged) = Txn_CandidateDir demo_staged" "path_clean (Txn_TempRoot demo_staged) = Txn_TempRoot demo_staged"
    "path_clean (Txn_BackupDir demo_staged) = Txn_BackupDir demo_staged" "validReleaseTarget (Txn_CandidateTarget demo_staged)" "validJobID (Txn_JobID demo_staged)"
    by code_simp+
  moreover have "format_rfc3339_utc (ue_now demo_env) = Txn_CreatedAt demo_staged" by code_simp
  then have "parse_rfc3339 (Txn_CreatedAt demo_staged) \<noteq> None" using parse_printed [OF demo_clock] by auto
  ultimately show ?thesis
    by (auto simp: txn_ok_def demo_staged_def optional_target_def optional_clean_def visible_def intro!: visible_value)
qed

subsection \<open>Releases\<close>

text \<open>A release the updater can take: it has the archive of this machine and belongs to the channel.\<close>

definition offered :: "semver \<Rightarrow> (string \<Rightarrow> url_parts option) \<Rightarrow> string \<Rightarrow> string \<Rightarrow> githubRelease \<Rightarrow> releaseAsset option" where
  "offered sv parseURL goarch channel item = (if releaseInChannel sv item channel then releaseAssetFor sv parseURL goarch item else None)"

lemma take_release_offered:
  "take_release sv parseURL goarch channel item latest =
     (case offered sv parseURL goarch channel item of None \<Rightarrow> latest
      | Some asset \<Rightarrow> (case latest of None \<Rightarrow> Some asset
          | Some l \<Rightarrow> (case Compare sv (RA_Version asset) (RA_Version l) of Inl _ \<Rightarrow> latest | Inr c \<Rightarrow> if c > 0 then Some asset else latest)))"
  by (simp add: take_release_def offered_def split: option.split)

lemma offered_valid: "offered sv parseURL goarch channel item = Some a \<Longrightarrow> valid_version sv (RA_Version a)"
  by (auto simp: offered_def releaseAssetFor_def valid_version_def Let_def split: if_splits option.splits)

lemma newer_or_equal:
  assumes "semver_order sv" "valid_version sv a" "valid_version sv b" "\<not> (\<exists>c. Compare sv a b = Inr c \<and> c > 0)"
  shows "newer_eq sv b a"
proof -
  obtain c where c: "Compare sv a b = Inr c" using Compare_valid assms(2,3) by metis
  show ?thesis
  proof (cases "newer_eq sv a b")
    case True
    then have "c = 0" using assms(4) c by (auto simp: newer_eq_def)
    then show ?thesis using semver_flip [OF assms(1-3)] c by (auto simp: newer_eq_iff assms(2,3) Compare_valid)
  qed (use newer_eq_linear [OF assms(1-3)] in blast)
qed

text \<open>The choice after some of the releases: none when none was offered, and otherwise an offer that no other exceeds.\<close>

definition best_offer :: "semver \<Rightarrow> releaseAsset option set \<Rightarrow> releaseAsset option \<Rightarrow> bool" where
  "best_offer sv offers best = (case best of None \<Rightarrow> offers \<subseteq> {None}
     | Some a \<Rightarrow> Some a \<in> offers \<and> (\<forall>b. Some b \<in> offers \<longrightarrow> newer_eq sv (RA_Version a) (RA_Version b)))"

lemma best_offer_step:
  assumes "semver_order sv" "best_offer sv offers best" "\<And>b. Some b \<in> offers \<Longrightarrow> valid_version sv (RA_Version b)"
  shows "best_offer sv (insert (offered sv parseURL goarch channel item) offers) (take_release sv parseURL goarch channel item best)"
proof (cases "offered sv parseURL goarch channel item")
  case None
  then show ?thesis using assms(2) by (auto simp: take_release_offered best_offer_def split: option.splits)
next
  case (Some a)
  then have va: "valid_version sv (RA_Version a)" by (rule offered_valid)
  show ?thesis
  proof (cases best)
    case None
    then show ?thesis using assms(2) Some newer_eq_refl [OF assms(1) va] by (auto simp: take_release_offered best_offer_def)
  next
    case best: (Some l)
    then have l: "Some l \<in> offers" "\<And>b. Some b \<in> offers \<Longrightarrow> newer_eq sv (RA_Version l) (RA_Version b)" using assms(2) by (auto simp: best_offer_def)
    have vl: "valid_version sv (RA_Version l)" using assms(3) l(1) by blast
    show ?thesis
    proof (cases "\<exists>c. Compare sv (RA_Version a) (RA_Version l) = Inr c \<and> c > 0")
      case True
      then have al: "newer_eq sv (RA_Version a) (RA_Version l)" by (auto simp: newer_eq_def)
      have "newer_eq sv (RA_Version a) (RA_Version b)" if "Some b \<in> offers" for b
        using newer_eq_trans [OF assms(1) al l(2) [OF that]] .
      with True Some best newer_eq_refl [OF assms(1) va] show ?thesis by (auto simp: take_release_offered best_offer_def)
    next
      case False
      with newer_or_equal [OF assms(1) va vl] Some best l show ?thesis
        by (auto simp: take_release_offered best_offer_def split: sum.split)
    qed
  qed
qed

lemma best_offer_fold:
  assumes "semver_order sv" "best_offer sv offers best" "\<And>b. Some b \<in> offers \<Longrightarrow> valid_version sv (RA_Version b)"
  shows "best_offer sv (offered sv parseURL goarch channel ` set items \<union> offers) (fold (take_release sv parseURL goarch channel) items best)"
  using assms(2,3)
proof (induction items arbitrary: offers best)
  case (Cons item items)
  let ?o = "offered sv parseURL goarch channel"
  have "best_offer sv (?o ` set items \<union> insert (?o item) offers) (fold (take_release sv parseURL goarch channel) items (take_release sv parseURL goarch channel item best))"
    by (rule Cons.IH [OF best_offer_step [OF assms(1) Cons.prems]]) (use Cons.prems(2) offered_valid in auto)
  then show ?case by simp
qed simp

subsection \<open>Theorems\<close>

text \<open>
  C1. In every history of an installation -- jobs queued, updates executed and recovered with any fault of any operation and with the
  updater dying at any point, statuses settled, finished jobs removed by any cleanup, the service started and stopped and the host
  rebooted -- the server that runs is the one whose schema the database has, no server runs during a migration, and the service is never
  blocked without a transaction. The history begins on an installation without an unfinished update whose paths fit into a unit
  (\<open>idle\<close>, \<open>home_fits\<close>); the texts of a queued job fit into its status file (\<open>status_ok\<close>); an update is
  executed on a host with one service manager and a clock of four-digit years (\<open>one_manager\<close>, \<open>env_ok\<close>); and a server that is run by hand is not started by its operator while the block is there (\<open>startable\<close>).
\<close>

theorem update_histories_safe:
  assumes "home_fits paths" "idle h0" "(step paths)\<^sup>*\<^sup>* h0 h"
  shows "(h_running h = None \<or> h_running h = Some (h_schema h) \<and> \<not> h_migrating h) \<and> (h_block h = None \<or> h_txn h \<noteq> None)"
  using history_consistent [OF assms(3,1,2)] by (auto simp: consistent_alt idle_def state_defs served_def on_disk_def)

theorem update_histories_safe_witness:
  "h_txn demo_crashed \<noteq> None \<and>
   (h_running demo_crashed = None \<or> h_running demo_crashed = Some (h_schema demo_crashed) \<and> \<not> h_migrating demo_crashed)"
  using update_histories_safe [OF demo_home demo_idle demo_history] demo_pending by blast

text \<open>
  C2. From every reachable state with a transaction whose job still has its status, a recovery in which no operation fails returns without
  an error, whatever was cut short before it: the transaction and the block are gone, the entry of the installation is the binary of the
  schema, the current release is the candidate when the migration had begun and the former installation when it had not, and the status of
  the job says which of the two happened. The status is needed: a cleanup can remove it, and C30 shows what recovery does then.
\<close>

theorem recovery_completes:
  assumes "home_fits paths" "idle h0" "(step paths)\<^sup>*\<^sup>* h0 h" "h_txn h = Some data" "readTransaction data = Inr t"
    "map_of (h_status h) (Txn_JobID t) \<noteq> None" "clock_ok (ue_now env)" "list_all (\<lambda>oc. oc = Succeeds) s"
  shows "\<exists>s' h'. recoverUpdateLocked env paths (s, h) = (Ok (), s', h') \<and>
     h_txn h' = None \<and> h_block h' = None \<and> \<not> h_migrating h' \<and> entry_binary h' = Some (h_schema h') \<and>
     h_current h' = (if Txn_Phase t = PhaseDone then h_current h else if Txn_MigrationStarted t then Some (Txn_CandidateTarget t)
       else if Txn_Legacy t then None else Some (Txn_PreviousTarget t)) \<and>
     recorded (Txn_MigrationStarted t) (Txn_JobID t) h'"
  using recover_returns [OF assms(1) history_consistent [OF assms(3,1,2)] assms(4-8)]
  unfolding recovered_def idle_def settled_def former_def by blast

theorem recovery_completes_witness:
  "\<exists>s' h'. recoverUpdateLocked demo_env demo_paths ([], demo_crashed) = (Ok (), s', h') \<and>
     h_txn h' = None \<and> h_block h' = None \<and> \<not> h_migrating h' \<and> entry_binary h' = Some (h_schema h') \<and> h_current h' = None"
proof -
  have r: "readTransaction (txn_file demo_staged) = Inr demo_staged" using txn_read [OF demo_staged_ok] by blast
  have "map_of (h_status demo_crashed) ''job1'' \<noteq> None" using demo_job by (simp add: map_of_eq_None_iff flip: set_map)
  then have j: "map_of (h_status demo_crashed) (Txn_JobID demo_staged) \<noteq> None" by (simp add: demo_staged_def)
  have "list_all (\<lambda>oc. oc = Succeeds) []" by simp
  from recovery_completes [OF demo_home demo_idle demo_history demo_file r j demo_clock this] show ?thesis
    by (auto simp: demo_staged_def update_words)
qed

text \<open>
  C30. Once the status file of the job that owns the transaction is gone, recovery never succeeds again, whatever else
  the host holds: the transaction stays, and with it every later update is refused.
\<close>

theorem orphaned_transaction_stuck:
  assumes "h_txn h = Some data" "readTransaction data = Inr t" "map_of (h_status h) (Txn_JobID t) = None"
  shows "fst (recoverUpdateLocked env paths (s, h)) \<noteq> Ok () \<and> fst (ensureNoPendingUpdate (s, h)) = Failed [ErrRecoveryRequired]"
proof -
  have "stuck (Txn_JobID t) (act_seq (act_err (validateTransactionPaths paths t)) (recoverTransaction env paths t))"
    by (rule stuck_seq(2) [OF keeps_basic(4) stuck_recover])
  then have "fst (recoverUpdateLocked env paths (s, h)) \<noteq> Ok ()"
    using assms by (simp add: recoverUpdateLocked_def act_bind_def act_get_def stuck_def)
  then show ?thesis using assms(1) by (simp add: ensureNoPendingUpdate_def act_bind_def act_get_def act_fail_def)
qed

theorem orphaned_transaction_stuck_witness:
  "fst (recoverUpdateLocked demo_env demo_paths ([], demo_crashed\<lparr>h_status := []\<rparr>)) \<noteq> Ok () \<and>
   fst (ensureNoPendingUpdate ([], demo_crashed\<lparr>h_status := []\<rparr>)) = Failed [ErrRecoveryRequired]"
proof -
  obtain data where d: "h_txn demo_crashed = Some data" using demo_pending by auto
  obtain t where "readTransaction data = Inr t" using consistent_file [OF history_consistent [OF demo_history demo_home demo_idle] d] by blast
  then show ?thesis by (intro orphaned_transaction_stuck) (simp_all add: d)
qed

text \<open>
  C31. The three state files of an update are read back as they were written: a job request, a transaction and a status.
\<close>

theorem state_files_roundtrip:
  assumes "request_ok sv req" "txn_ok t" "status_ok item"
  shows "(\<exists>data. writeJobRequest sv req = Inr data \<and> readJobRequest sv data = Inr req) \<and>
    (\<exists>data. transactionData t = Inr data \<and> readTransaction data = Inr t) \<and> readUpdateStatusFile (writeUpdateStatusFile item) = Inr item"
  using read_request [OF assms(1)] read_transaction [OF assms(2)] read_status [OF assms(3)] by blast

definition demo_txn :: updateTransaction where
  "demo_txn = \<lparr>Txn_FormatVersion = 1, Txn_JobID = ''job1'', Txn_Phase = PhaseMigrating, Txn_PreviousTarget = [], Txn_CandidateTarget = ''releases/1.1.0'',
     Txn_CandidateDir = ''/opt/dash/releases/1.1.0'', Txn_TempRoot = ''/opt/tmp'', Txn_BackupDir = [], Txn_Legacy = True,
     Txn_ServiceManager = ''auto'', Txn_ServiceWasActive = True, Txn_MigrationStarted = True, Txn_CreatedAt = []\<rparr>"

lemma demo_txn_ok: "txn_ok demo_txn"
proof -
  have "path_clean ''/opt/dash/releases/1.1.0'' = ''/opt/dash/releases/1.1.0''" "path_clean ''/opt/tmp'' = ''/opt/tmp''"
    "validReleaseTarget ''releases/1.1.0''" "validJobID ''job1''" by code_simp+
  then show ?thesis using demo_values
    by (auto simp: txn_ok_def demo_txn_def optional_target_def optional_clean_def visible_def intro!: visible_value)
qed

theorem state_files_roundtrip_witness:
  "(\<exists>data. writeJobRequest demo_semver demo_request = Inr data \<and> readJobRequest demo_semver data = Inr demo_request) \<and>
    (\<exists>data. transactionData demo_txn = Inr data \<and> readTransaction data = Inr demo_txn) \<and>
    readUpdateStatusFile (writeUpdateStatusFile demo_status) = Inr demo_status"
  by (rule state_files_roundtrip [OF demo_plan_ok demo_txn_ok demo_status_ok])

text \<open>
  C32. An accepted plan never leads backwards: it is valid, and when the executor finds that work is needed, the installation is still the one the
  plan was made for and its version is older than the target -- or equal to it for a reinstallation. An installation that
  changed in between is refused.
\<close>

theorem update_never_downgrades:
  assumes "resolvePlan sv check inp = Inr plan"
  shows "plan_validate sv plan = None \<and>
    (\<forall>installed. (updateNeeded sv plan installed = Inr True \<longrightarrow>
        (\<exists>c. Compare sv (Plan_TargetVersion plan) (Inst_Version installed) = Inr c \<and> (if Plan_Action plan = ActionUpdate then 0 < c else 0 \<le> c))) \<and>
      (Inst_Version installed \<noteq> Plan_ExpectedCurrentVersion plan \<or> Inst_Revision installed \<noteq> Plan_ExpectedInstallRevision plan \<longrightarrow>
        updateNeeded sv plan installed = Inl [ErrUpdateConflict]))"
proof -
  have accepted: "\<exists>provided plan'. accept_plan sv provided plan' = Inr plan"
    using assms unfolding resolvePlan_def Let_def by (auto split: if_splits prod.splits sum.splits)
  then have valid: "plan_validate sv plan = None" by (auto simp: accept_plan_def split: option.splits sum.splits if_splits)
  then have "snd (ParseAction (Plan_Action plan))" by (auto simp: plan_validate_def split: if_splits)
  have action: "Plan_Action plan = ActionUpdate \<or> Plan_Action plan = ActionReinstall"
    using assms unfolding resolvePlan_def Let_def
    by (auto simp: accept_plan_def ParseAction_def Let_def split: if_splits prod.splits sum.splits option.splits)
  show ?thesis
  proof (intro conjI allI impI)
    fix installed
    assume "updateNeeded sv plan installed = Inr True"
    then show "\<exists>c. Compare sv (Plan_TargetVersion plan) (Inst_Version installed) = Inr c \<and> (if Plan_Action plan = ActionUpdate then 0 < c else 0 \<le> c)"
      using action by (auto simp: updateNeeded_def split: if_splits sum.splits)
  qed (auto simp: valid updateNeeded_def)
qed

definition demo_input :: RunInput where
  "demo_input = \<lparr>In_Action = ''update'', In_Channel = ''release'', In_Lang = ''en'', In_Origin = [], In_TargetVersion = ''1.1.0'',
     In_ExpectedCurrentVersion = ''1.0.0'', In_ExpectedInstallRevision = demo_revision\<rparr>"

theorem update_never_downgrades_witness:
  "resolvePlan demo_semver (\<lambda>_. Inl ErrCheck) demo_input = Inr (Job_Plan demo_request) \<and>
   updateNeeded demo_semver (Job_Plan demo_request) \<lparr>Inst_Version = ''1.0.0'', Inst_Revision = ''other'', Inst_Target = [], Inst_Legacy = True\<rparr> = Inl [ErrUpdateConflict]"
proof -
  have r: "resolvePlan demo_semver (\<lambda>_. Inl ErrCheck) demo_input = Inr (Job_Plan demo_request)" by code_simp
  have "''other'' \<noteq> Plan_ExpectedInstallRevision (Job_Plan demo_request)" by code_simp
  with update_never_downgrades [OF r] r show ?thesis by auto
qed

text \<open>
  Releases and node versions are chosen by precedence: the newest release of a channel that offers the archive of this machine, and the newest node
  version compatible with a channel; nothing is chosen exactly when nothing is eligible.\<close>

theorem newest_is_chosen:
  assumes "semver_order sv"
  shows "best_offer sv (offered sv parseURL goarch channel ` set releases) (Latest sv parseURL goarch releases channel) \<and>
    newest sv channel (trim_space ` set versions) (fst (LatestCompatible sv versions channel)) \<and>
    (snd (LatestCompatible sv versions channel) \<longleftrightarrow> (\<exists>raw \<in> set versions. eligible sv channel (trim_space raw)))"
proof -
  have "newest sv channel {} []" "best_offer sv {} None" by (simp_all add: newest_def best_offer_def)
  then have n: "newest sv channel (trim_space ` set versions) (fst (LatestCompatible sv versions channel))"
    "best_offer sv (offered sv parseURL goarch channel ` set releases) (Latest sv parseURL goarch releases channel)"
    using latest_newest [OF assms, of channel "{}" "[]" versions] best_offer_fold [OF assms, of "{}" None parseURL goarch channel releases]
    by (simp_all add: LatestCompatible_def Latest_def Let_def)
  moreover have "snd (LatestCompatible sv versions channel) \<longleftrightarrow> (\<exists>raw \<in> set versions. eligible sv channel (trim_space raw))"
    using n(1) by (auto simp: newest_def LatestCompatible_def Let_def split: if_splits)
  ultimately show ?thesis by blast
qed

definition demo_url :: "string \<Rightarrow> url_parts option" where
  "demo_url u = Some \<lparr>url_Scheme = ''https'', url_Host = ''example.org'', url_String = u\<rparr>"

definition demo_release :: "string \<Rightarrow> githubRelease" where
  "demo_release v = \<lparr>GR_TagName = v, GR_Draft = False, GR_Prerelease = False,
     GR_Assets = [\<lparr>GA_Name = ''Ithiltir_dash_linux_amd64.tar.gz'', GA_URL = v, GA_Size = 7\<rparr>]\<rparr>"

lemma demo_order: "semver_order demo_semver"
  by (auto simp: semver_order_def demo_semver_def)

theorem newest_is_chosen_witness:
  "Latest demo_semver demo_url ''amd64'' [demo_release ''1.1.0'', demo_release ''1.0.0''] ChannelRelease =
     Some \<lparr>RA_Version = ''1.1.0'', RA_URL = ''1.1.0'', RA_Size = 7\<rparr> \<and>
   best_offer demo_semver (offered demo_semver demo_url ''amd64'' ChannelRelease ` set [demo_release ''1.1.0'', demo_release ''1.0.0''])
     (Some \<lparr>RA_Version = ''1.1.0'', RA_URL = ''1.1.0'', RA_Size = 7\<rparr>)"
proof -
  have l: "Latest demo_semver demo_url ''amd64'' [demo_release ''1.1.0'', demo_release ''1.0.0''] ChannelRelease =
     Some \<lparr>RA_Version = ''1.1.0'', RA_URL = ''1.1.0'', RA_Size = 7\<rparr>" by code_simp
  from newest_is_chosen [OF demo_order, of demo_url "''amd64''" ChannelRelease "[demo_release ''1.1.0'', demo_release ''1.0.0'']" "[]", THEN conjunct1]
  show ?thesis unfolding l by simp
qed

end
