(* ===== verification/Metric_Report.thy ===== *)
theory Metric_Report
  imports Metric_Types
begin

text \<open>
  What a node may report: \<open>internal/metrics/node_push_validation.go\<close>, the text bounds of
  \<open>node_text_validation.go\<close> and the pressure bounds of \<open>pressure.go\<close>.

  A validation returns a Go \<open>error\<close>: \<open>None\<close> when the value is accepted. Its checks run one after the
  other, so its result is the first error in the list of them. The errors of the source are formatted
  messages; here they are values with the same arguments.
\<close>

subsection \<open>Errors and checks\<close>

datatype report_error =
    TooManyDevices int int
  | TextTooLong string int
  | MountTextTooLong string nat string int
  | MetricMissing string
  | MetricDuplicate string string
  | MetricInvalid string
  | MountInvalid nat string
  | MetricOverflow string

definition guard :: "bool \<Rightarrow> 'e \<Rightarrow> 'e option" where
  "guard bad e = (if bad then Some e else None)"

fun first_error :: "'e option list \<Rightarrow> 'e option" where
  "first_error [] = None"
| "first_error (Some e # rest) = Some e"
| "first_error (None # rest) = first_error rest"

text \<open>
  A loop over the items of a slice with their index, and the set of names seen before: it stops at the
  first error. Loops that keep no set ignore it.
\<close>

fun each_item :: "('a \<Rightarrow> string) \<Rightarrow> (nat \<Rightarrow> string list \<Rightarrow> 'a \<Rightarrow> 'e option) \<Rightarrow> nat \<Rightarrow> string list \<Rightarrow> 'a list \<Rightarrow> 'e option" where
  "each_item name check i seen [] = None"
| "each_item name check i seen (item # items) =
     (case check i seen item of Some e \<Rightarrow> Some e | None \<Rightarrow> each_item name check (Suc i) (name item # seen) items)"

definition elem :: "string \<Rightarrow> nat \<Rightarrow> string \<Rightarrow> string" where
  "elem path i field = path @ ''['' @ dec_nat i @ '']'' @ field"

definition blank :: "string \<Rightarrow> bool" where
  "blank s \<longleftrightarrow> trim_space s = []"

subsection \<open>Text\<close>

definition maxNodeVersionChars :: int where "maxNodeVersionChars = 64"
definition maxNodeHostnameChars :: int where "maxNodeHostnameChars = 255"
definition maxSystemNameChars :: int where "maxSystemNameChars = 32"
definition maxSystemVersionChars :: int where "maxSystemVersionChars = 255"
definition maxDiskNameChars :: int where "maxDiskNameChars = 255"
definition maxDiskRefChars :: int where "maxDiskRefChars = 320"
definition maxDiskKindChars :: int where "maxDiskKindChars = 16"
definition maxDiskRoleChars :: int where "maxDiskRoleChars = 16"
definition maxDiskStateChars :: int where "maxDiskStateChars = 32"
definition maxFSTypeChars :: int where "maxFSTypeChars = 32"
definition maxInterfaceChars :: int where "maxInterfaceChars = 64"
definition maxRaidHealthChars :: int where "maxRaidHealthChars = 16"

lemmas text_bounds = maxNodeVersionChars_def maxNodeHostnameChars_def maxSystemNameChars_def maxSystemVersionChars_def
  maxDiskNameChars_def maxDiskRefChars_def maxDiskKindChars_def maxDiskRoleChars_def maxDiskStateChars_def
  maxFSTypeChars_def maxInterfaceChars_def maxRaidHealthChars_def

definition text_fits :: "int \<Rightarrow> string \<Rightarrow> bool" where
  "text_fits bound s \<longleftrightarrow> int (rune_count (trim_space s)) \<le> bound"

definition validateTextLength :: "string \<Rightarrow> string \<Rightarrow> int \<Rightarrow> report_error option" where
  "validateTextLength path val maxChars = guard (\<not> text_fits maxChars val) (TextTooLong path maxChars)"

subsection \<open>Numbers\<close>

definition validNonNegativeInt64 :: "int list \<Rightarrow> bool" where
  "validNonNegativeInt64 vals \<longleftrightarrow> list_all (\<lambda>v. \<not> v < 0) vals"

definition validNonNegativeFloat :: "f64 list \<Rightarrow> bool" where
  "validNonNegativeFloat vals \<longleftrightarrow> list_all (\<lambda>v. finite64 v \<and> \<not> f64_lt v f0) vals"

definition validRatio :: "f64 \<Rightarrow> bool" where
  "validRatio v \<longleftrightarrow> validNonNegativeFloat [v] \<and> f64_le v (Fin 1)"

definition validDiskIO :: "f64 \<Rightarrow> f64 \<Rightarrow> f64 \<Rightarrow> f64 \<Rightarrow> f64 \<Rightarrow> f64 \<Rightarrow> f64 \<Rightarrow> f64 \<Rightarrow> f64 \<Rightarrow> bool" where
  "validDiskIO readRate writeRate iops readIOPS writeIOPS utilRatio queueLength waitMS serviceMS \<longleftrightarrow>
     validNonNegativeFloat [readRate, writeRate, iops, readIOPS, writeIOPS, queueLength, waitMS, serviceMS] \<and>
     validRatio utilRatio \<and> f64_add readIOPS writeIOPS \<noteq> PInf \<and> f64_add readIOPS writeIOPS \<noteq> NInf"

definition validPressureAvg :: "f64 \<Rightarrow> bool" where
  "validPressureAvg v \<longleftrightarrow> finite64 v \<and> f64_le f0 v \<and> f64_le v (Fin 100)"

definition validPressureStats :: "PressureStats option \<Rightarrow> bool" where
  "validPressureStats stats \<longleftrightarrow>
     (case stats of None \<Rightarrow> True
      | Some s \<Rightarrow> validPressureAvg (PressureStats_Avg10 s) \<and> validPressureAvg (PressureStats_Avg60 s) \<and>
          validPressureAvg (PressureStats_Avg300 s) \<and> PressureStats_Total s \<ge> 0)"

subsection \<open>The parts of a report\<close>

definition validateCPU :: "CPUMetrics \<Rightarrow> report_error option" where
  "validateCPU item = first_error
    [guard (\<not> validRatio (CPUMetrics_UsageRatio item)) (MetricInvalid ''cpu usage_ratio''),
     guard (\<not> validNonNegativeFloat [CPUMetrics_Load1 item, CPUMetrics_Load5 item, CPUMetrics_Load15 item]) (MetricInvalid ''cpu load''),
     guard (\<not> validNonNegativeFloat [CPUTimes_User (CPUMetrics_Times item), CPUTimes_System (CPUMetrics_Times item),
         CPUTimes_Idle (CPUMetrics_Times item), CPUTimes_Iowait (CPUMetrics_Times item), CPUTimes_Steal (CPUMetrics_Times item)])
       (MetricInvalid ''cpu times'')]"

definition validateMemory :: "MemoryMetrics \<Rightarrow> report_error option" where
  "validateMemory item = first_error
    [guard (\<not> validNonNegativeInt64 [MemoryMetrics_Total item, MemoryMetrics_Used item, MemoryMetrics_Available item,
         MemoryMetrics_Buffers item, MemoryMetrics_Cached item, MemoryMetrics_SwapTotal item, MemoryMetrics_SwapUsed item,
         MemoryMetrics_SwapFree item]) (MetricInvalid ''memory counters''),
     guard (\<not> validRatio (MemoryMetrics_UsedRatio item) \<or> \<not> validRatio (MemoryMetrics_SwapUsedRatio item)) (MetricInvalid ''memory ratio'')]"

definition check_physical :: "nat \<Rightarrow> string list \<Rightarrow> DiskPhysicalMetrics \<Rightarrow> report_error option" where
  "check_physical i seen item = (let name = trim_space (DiskPhysicalMetrics_Name item) in first_error
    [guard (blank (DiskPhysicalMetrics_Name item)) (MetricMissing (elem ''disk physical'' i ''.name'')),
     validateTextLength (elem ''disk physical'' i ''.name'') name maxDiskNameChars,
     validateTextLength (elem ''disk physical'' i ''.ref'') (DiskPhysicalMetrics_Ref item) maxDiskRefChars,
     guard (name \<in> set seen) (MetricDuplicate ''disk physical'' name),
     guard (\<not> validNonNegativeInt64 [DiskPhysicalMetrics_ReadBytes item, DiskPhysicalMetrics_WriteBytes item])
       (MetricInvalid (elem ''disk physical'' i '' counters'')),
     guard (\<not> validDiskIO (DiskPhysicalMetrics_ReadRateBytesPerSec item) (DiskPhysicalMetrics_WriteRateBytesPerSec item)
         (DiskPhysicalMetrics_IOPS item) (DiskPhysicalMetrics_ReadIOPS item) (DiskPhysicalMetrics_WriteIOPS item)
         (DiskPhysicalMetrics_UtilRatio item) (DiskPhysicalMetrics_QueueLength item) (DiskPhysicalMetrics_WaitMs item)
         (DiskPhysicalMetrics_ServiceMs item))
       (MetricInvalid (elem ''disk physical'' i '' io''))])"

definition validateDiskPhysical :: "DiskPhysicalMetrics list \<Rightarrow> report_error option" where
  "validateDiskPhysical items = each_item (\<lambda>item. trim_space (DiskPhysicalMetrics_Name item)) check_physical 0 [] items"

definition check_mountpoint :: "nat \<Rightarrow> string \<times> DiskMountpointMetrics \<Rightarrow> report_error option" where
  "check_mountpoint i = (\<lambda>(mountpoint, stats). first_error
    [guard (\<not> text_fits maxFSTypeChars (DiskMountpointMetrics_FSType stats)) (MountTextTooLong ''disk logical'' i mountpoint maxFSTypeChars),
     guard (\<not> validNonNegativeInt64 [DiskMountpointMetrics_InodesTotal stats, DiskMountpointMetrics_InodesUsed stats,
         DiskMountpointMetrics_InodesFree stats] \<or> \<not> validRatio (DiskMountpointMetrics_InodesUsedRatio stats)) (MountInvalid i mountpoint)])"

definition check_logical :: "nat \<Rightarrow> string list \<Rightarrow> DiskLogicalMetrics \<Rightarrow> report_error option" where
  "check_logical i seen item = (let name = trim_space (DiskLogicalMetrics_Name item) in first_error
    [guard (blank (DiskLogicalMetrics_Kind item)) (MetricMissing (elem ''disk logical'' i ''.kind'')),
     guard (blank (DiskLogicalMetrics_Name item)) (MetricMissing (elem ''disk logical'' i ''.name'')),
     validateTextLength (elem ''disk logical'' i ''.kind'') (DiskLogicalMetrics_Kind item) maxDiskKindChars,
     validateTextLength (elem ''disk logical'' i ''.name'') name maxDiskNameChars,
     validateTextLength (elem ''disk logical'' i ''.ref'') (DiskLogicalMetrics_Ref item) maxDiskRefChars,
     validateTextLength (elem ''disk logical'' i ''.health'') (DiskLogicalMetrics_Health item) maxDiskStateChars,
     validateTextLength (elem ''disk logical'' i ''.level'') (DiskLogicalMetrics_Level item) maxDiskStateChars,
     guard (name \<in> set seen) (MetricDuplicate ''disk logical'' name),
     guard (\<not> validNonNegativeInt64 [DiskLogicalMetrics_Total item, DiskLogicalMetrics_Used item, DiskLogicalMetrics_Free item])
       (MetricInvalid (elem ''disk logical'' i '' counters'')),
     guard (DiskLogicalMetrics_Total item = 0 \<and> DiskLogicalMetrics_Used item > wrap64 (max_i64 - DiskLogicalMetrics_Free item))
       (MetricOverflow (elem ''disk logical'' i '' total'')),
     guard (\<not> validRatio (DiskLogicalMetrics_UsedRatio item)) (MetricInvalid (elem ''disk logical'' i '' used_ratio'')),
     first_error (map (check_mountpoint i) (DiskLogicalMetrics_Mountpoints item))])"

definition validateDiskLogical :: "DiskLogicalMetrics list \<Rightarrow> report_error option" where
  "validateDiskLogical items = each_item (\<lambda>item. trim_space (DiskLogicalMetrics_Name item)) check_logical 0 [] items"

definition check_filesystem :: "nat \<Rightarrow> string list \<Rightarrow> DiskFilesystemMetrics \<Rightarrow> report_error option" where
  "check_filesystem i seen item = first_error
    [guard (blank (DiskFilesystemMetrics_Path item)) (MetricMissing (elem ''disk filesystems'' i ''.path'')),
     validateTextLength (elem ''disk filesystems'' i ''.fs_type'') (DiskFilesystemMetrics_FSType item) maxFSTypeChars,
     guard (\<not> validNonNegativeInt64 [DiskFilesystemMetrics_Total item, DiskFilesystemMetrics_Used item, DiskFilesystemMetrics_Free item,
         DiskFilesystemMetrics_InodesTotal item, DiskFilesystemMetrics_InodesUsed item, DiskFilesystemMetrics_InodesFree item])
       (MetricInvalid (elem ''disk filesystems'' i '' counters'')),
     guard (\<not> validRatio (DiskFilesystemMetrics_UsedRatio item) \<or> \<not> validRatio (DiskFilesystemMetrics_InodesUsedRatio item))
       (MetricInvalid (elem ''disk filesystems'' i '' ratio''))]"

definition validateDiskFilesystems :: "DiskFilesystemMetrics list \<Rightarrow> report_error option" where
  "validateDiskFilesystems items = each_item (\<lambda>item. []) check_filesystem 0 [] items"

definition check_base_io :: "nat \<Rightarrow> string list \<Rightarrow> DiskBaseIOMetrics \<Rightarrow> report_error option" where
  "check_base_io i seen item = (let name = trim_space (DiskBaseIOMetrics_Name item) in first_error
    [guard (blank (DiskBaseIOMetrics_Kind item)) (MetricMissing (elem ''disk base_io'' i ''.kind'')),
     guard (blank (DiskBaseIOMetrics_Name item)) (MetricMissing (elem ''disk base_io'' i ''.name'')),
     validateTextLength (elem ''disk base_io'' i ''.kind'') (DiskBaseIOMetrics_Kind item) maxDiskKindChars,
     validateTextLength (elem ''disk base_io'' i ''.name'') name maxDiskNameChars,
     validateTextLength (elem ''disk base_io'' i ''.ref'') (DiskBaseIOMetrics_Ref item) maxDiskRefChars,
     validateTextLength (elem ''disk base_io'' i ''.role'') (DiskBaseIOMetrics_Role item) maxDiskRoleChars,
     guard (name \<in> set seen) (MetricDuplicate ''disk base_io'' name),
     guard (\<not> validNonNegativeInt64 [DiskBaseIOMetrics_ReadBytes item, DiskBaseIOMetrics_WriteBytes item])
       (MetricInvalid (elem ''disk base_io'' i '' counters'')),
     guard (\<not> validDiskIO (DiskBaseIOMetrics_ReadRateBytesPerSec item) (DiskBaseIOMetrics_WriteRateBytesPerSec item)
         (DiskBaseIOMetrics_IOPS item) (DiskBaseIOMetrics_ReadIOPS item) (DiskBaseIOMetrics_WriteIOPS item)
         (DiskBaseIOMetrics_UtilRatio item) (DiskBaseIOMetrics_QueueLength item) (DiskBaseIOMetrics_WaitMs item)
         (DiskBaseIOMetrics_ServiceMs item))
       (MetricInvalid (elem ''disk base_io'' i '' io''))])"

definition validateDiskBaseIO :: "DiskBaseIOMetrics list \<Rightarrow> report_error option" where
  "validateDiskBaseIO items = each_item (\<lambda>item. trim_space (DiskBaseIOMetrics_Name item)) check_base_io 0 [] items"

definition check_smart_device :: "nat \<Rightarrow> string list \<Rightarrow> DiskSmartDevice \<Rightarrow> report_error option" where
  "check_smart_device i seen device = first_error
    [guard (blank (DiskSmartDevice_Name device)) (MetricMissing (elem ''disk smart devices'' i ''.name'')),
     validateTextLength (elem ''disk smart devices'' i ''.name'') (DiskSmartDevice_Name device) maxDiskNameChars,
     validateTextLength (elem ''disk smart devices'' i ''.ref'') (DiskSmartDevice_Ref device) maxDiskRefChars,
     guard (blank (DiskSmartDevice_Source device)) (MetricMissing (elem ''disk smart devices'' i ''.source'')),
     guard (blank (DiskSmartDevice_Status device)) (MetricMissing (elem ''disk smart devices'' i ''.status''))]"

definition validateDiskSmart :: "DiskSmart \<Rightarrow> report_error option" where
  "validateDiskSmart item = first_error
    [guard (blank (DiskSmart_Status item)) (MetricMissing ''disk smart status''),
     guard (DiskSmart_Devices item = None) (MetricMissing ''disk smart devices''),
     each_item (\<lambda>device. []) check_smart_device 0 [] (slice (DiskSmart_Devices item))]"

definition check_network :: "nat \<Rightarrow> string list \<Rightarrow> NetIOMetrics \<Rightarrow> report_error option" where
  "check_network i seen item = (let name = trim_space (NetIOMetrics_Name item) in first_error
    [guard (blank (NetIOMetrics_Name item)) (MetricMissing (elem ''network'' i ''.name'')),
     validateTextLength (elem ''network'' i ''.name'') name maxInterfaceChars,
     guard (name \<in> set seen) (MetricDuplicate ''network'' name),
     guard (\<not> validNonNegativeInt64 [NetIOMetrics_BytesRecv item, NetIOMetrics_BytesSent item, NetIOMetrics_PacketsRecv item,
         NetIOMetrics_PacketsSent item, NetIOMetrics_ErrIn item, NetIOMetrics_ErrOut item, NetIOMetrics_DropIn item, NetIOMetrics_DropOut item])
       (MetricInvalid (elem ''network'' i '' counters'')),
     guard (\<not> validNonNegativeFloat [NetIOMetrics_RecvRateBytesPerSec item, NetIOMetrics_SentRateBytesPerSec item,
         NetIOMetrics_RecvRatePacketsPerSec item, NetIOMetrics_SentRatePacketsPerSec item])
       (MetricInvalid (elem ''network'' i '' rates''))])"

definition validateNetwork :: "NetIOMetrics list \<Rightarrow> report_error option" where
  "validateNetwork items = each_item (\<lambda>item. trim_space (NetIOMetrics_Name item)) check_network 0 [] items"

definition check_sensor :: "nat \<Rightarrow> string list \<Rightarrow> ThermalSensor \<Rightarrow> report_error option" where
  "check_sensor i seen sensor = first_error
    [guard (blank (ThermalSensor_Kind sensor)) (MetricMissing (elem ''thermal sensors'' i ''.kind'')),
     guard (blank (ThermalSensor_Name sensor)) (MetricMissing (elem ''thermal sensors'' i ''.name'')),
     guard (blank (ThermalSensor_SensorKey sensor)) (MetricMissing (elem ''thermal sensors'' i ''.sensor_key'')),
     guard (blank (ThermalSensor_Source sensor)) (MetricMissing (elem ''thermal sensors'' i ''.source'')),
     guard (blank (ThermalSensor_Status sensor)) (MetricMissing (elem ''thermal sensors'' i ''.status''))]"

definition validateThermal :: "Thermal \<Rightarrow> report_error option" where
  "validateThermal item = first_error
    [guard (blank (Thermal_Status item)) (MetricMissing ''thermal status''),
     guard (Thermal_Sensors item = None) (MetricMissing ''thermal sensors''),
     each_item (\<lambda>sensor. []) check_sensor 0 [] (slice (Thermal_Sensors item))]"

definition validatePressureResource :: "string \<Rightarrow> PressureResource option \<Rightarrow> report_error option" where
  "validatePressureResource path item =
     (case item of None \<Rightarrow> None
      | Some r \<Rightarrow> first_error
          [guard (\<not> validPressureStats (PressureResource_Some r)) (MetricInvalid (path @ ''.some'')),
           guard (\<not> validPressureStats (PressureResource_Full r)) (MetricInvalid (path @ ''.full''))])"

definition validatePressure :: "Pressure \<Rightarrow> report_error option" where
  "validatePressure item = first_error
    [validatePressureResource ''pressure.cpu'' (Pressure_CPU item),
     validatePressureResource ''pressure.memory'' (Pressure_Memory item),
     validatePressureResource ''pressure.io'' (Pressure_IO item)]"

definition check_member :: "nat \<Rightarrow> nat \<Rightarrow> string list \<Rightarrow> RaidMember \<Rightarrow> report_error option" where
  "check_member i j seen member = first_error
    [guard (blank (RaidMember_Name member)) (MetricMissing (elem ''raid arrays'' i (elem ''.members'' j ''.name''))),
     guard (blank (RaidMember_State member)) (MetricMissing (elem ''raid arrays'' i (elem ''.members'' j ''.state'')))]"

definition check_array :: "nat \<Rightarrow> string list \<Rightarrow> RaidArray \<Rightarrow> report_error option" where
  "check_array i seen arr = first_error
    [guard (blank (RaidArray_Name arr)) (MetricMissing (elem ''raid arrays'' i ''.name'')),
     guard (blank (RaidArray_Status arr)) (MetricMissing (elem ''raid arrays'' i ''.status'')),
     guard (blank (RaidArray_Health arr)) (MetricMissing (elem ''raid arrays'' i ''.health'')),
     validateTextLength (elem ''raid arrays'' i ''.health'') (RaidArray_Health arr) maxRaidHealthChars,
     guard (RaidArray_Members arr = None) (MetricMissing (elem ''raid arrays'' i ''.members'')),
     guard (RaidArray_Active arr < 0 \<or> RaidArray_Working arr < 0 \<or> RaidArray_Failed arr < 0) (MetricInvalid (elem ''raid arrays'' i '' counts'')),
     each_item (\<lambda>member. []) (check_member i) 0 [] (slice (RaidArray_Members arr))]"

definition validateRaidArrays :: "RaidArray list \<Rightarrow> report_error option" where
  "validateRaidArrays items = each_item (\<lambda>arr. []) check_array 0 [] items"

subsection \<open>Reports\<close>

definition maxReportDevices :: int where "maxReportDevices = 1024"

definition report_devices :: "Metrics \<Rightarrow> int" where
  "report_devices m = int (length (slice (DiskMetrics_BaseIO (Metrics_Disk m))) + length (slice (DiskMetrics_Logical (Metrics_Disk m)))
     + length (slice (Metrics_Network m)))
     + (case DiskMetrics_Smart (Metrics_Disk m) of None \<Rightarrow> 0 | Some s \<Rightarrow> int (length (slice (DiskSmart_Devices s))))"

definition ValidateReport :: "NodeReport \<Rightarrow> report_error option" where
  "ValidateReport report = (let m = NodeReport_Metrics report; disk = Metrics_Disk m in first_error
    [guard (report_devices m > maxReportDevices) (TooManyDevices (report_devices m) maxReportDevices),
     validateTextLength ''version'' (NodeReport_Version report) maxNodeVersionChars,
     validateTextLength ''hostname'' (NodeReport_Hostname report) maxNodeHostnameChars,
     guard (DiskMetrics_Physical disk = None) (MetricMissing ''disk physical''),
     guard (DiskMetrics_Logical disk = None) (MetricMissing ''disk logical''),
     guard (DiskMetrics_Filesystems disk = None) (MetricMissing ''disk filesystems''),
     guard (DiskMetrics_BaseIO disk = None) (MetricMissing ''disk base_io''),
     guard (Metrics_Network m = None) (MetricMissing ''network''),
     guard (RaidMetrics_Arrays (Metrics_Raid m) = None) (MetricMissing ''raid arrays''),
     guard (blank (SystemMetrics_Uptime (Metrics_System m))) (MetricMissing ''system uptime''),
     validateCPU (Metrics_CPU m),
     validateMemory (Metrics_Memory m),
     guard (SystemMetrics_UptimeSeconds (Metrics_System m) < 0) (MetricInvalid ''system uptime_seconds''),
     guard (ProcessMetrics_ProcessCount (Metrics_Processes m) < 0) (MetricInvalid ''process count''),
     guard (ConnectionMetrics_TCPCount (Metrics_Connections m) < 0 \<or> ConnectionMetrics_UDPCount (Metrics_Connections m) < 0)
       (MetricInvalid ''connection counts''),
     validateDiskPhysical (slice (DiskMetrics_Physical disk)),
     validateDiskLogical (slice (DiskMetrics_Logical disk)),
     validateDiskFilesystems (slice (DiskMetrics_Filesystems disk)),
     validateDiskBaseIO (slice (DiskMetrics_BaseIO disk)),
     validateNetwork (slice (Metrics_Network m)),
     validateRaidArrays (slice (RaidMetrics_Arrays (Metrics_Raid m))),
     (case DiskMetrics_Smart disk of None \<Rightarrow> None | Some smart \<Rightarrow> validateDiskSmart smart),
     (case Metrics_Thermal m of None \<Rightarrow> None | Some thermal \<Rightarrow> validateThermal thermal),
     (case Metrics_Pressure m of None \<Rightarrow> None | Some pressure \<Rightarrow> validatePressure pressure)])"

subsection \<open>Lemmas\<close>

lemma guard_None [simp]: "guard bad e = None \<longleftrightarrow> \<not> bad"
  by (simp add: guard_def)

lemma first_error_None: "first_error xs = None \<longleftrightarrow> (\<forall>x \<in> set xs. x = None)"
  by (induction xs rule: first_error.induct) auto

lemma first_error_simps [simp]: "first_error (x # xs) = None \<longleftrightarrow> x = None \<and> first_error xs = None"
  by (cases x) auto

text \<open>A loop accepts a slice when it accepts every item with the names before it.\<close>

lemma each_item_None:
  "each_item name check i seen xs = None \<longleftrightarrow>
     (\<forall>j < length xs. check (i + j) (rev (map name (take j xs)) @ seen) (xs ! j) = None)"
proof (induction xs arbitrary: i seen)
  case (Cons x xs)
  have "(\<forall>j < length (x # xs). P j) \<longleftrightarrow> P 0 \<and> (\<forall>j < length xs. P (Suc j))" for P
    using less_Suc_eq_0_disj by auto
  then show ?case using Cons [of "Suc i" "name x # seen"] by (simp split: option.split)
qed simp

lemma each_item_all:
  assumes "each_item name check i seen xs = None" "x \<in> set xs" "\<And>i seen. check i seen x = None \<Longrightarrow> P x"
  shows "P x"
  using assms by (auto simp: each_item_None in_set_conv_nth)

lemma each_item_distinct:
  assumes "each_item name check i seen xs = None" "\<And>i seen x. check i seen x = None \<Longrightarrow> name x \<notin> set seen"
  shows "distinct (map name xs)"
  using assms
proof (induction xs arbitrary: i seen)
  case (Cons x xs)
  then have rest: "each_item name check (Suc i) (name x # seen) xs = None" by (auto split: option.splits)
  have "name y \<noteq> name x" if mem: "y \<in> set xs" for y
  proof -
    obtain j where "j < length xs" "y = xs ! j" using mem by (auto simp: in_set_conv_nth)
    with rest Cons.prems(2) have "name y \<notin> set (rev (map name (take j xs)) @ name x # seen)" unfolding each_item_None by blast
    then show ?thesis by simp
  qed
  then have "name x \<notin> name ` set xs" by (metis imageE)
  moreover have "distinct (map name xs)" by (rule Cons.IH [OF rest]) (rule Cons.prems(2))
  ultimately show ?case by simp
qed simp

subsection \<open>What acceptance means\<close>

lemma validateTextLength_None [simp]: "validateTextLength path s n = None \<longleftrightarrow> text_fits n s"
  by (simp add: validateTextLength_def)

lemma text_fits_trim [simp]: "text_fits n (trim_space s) = text_fits n s"
  by (simp add: text_fits_def)

lemma blank_trim [simp]: "blank (trim_space s) = blank s"
  by (simp add: blank_def)

lemma accepted_report:
  assumes "ValidateReport report = None"
  defines "m \<equiv> NodeReport_Metrics report"
  shows "validateDiskBaseIO (slice (DiskMetrics_BaseIO (Metrics_Disk m))) = None" "validateDiskLogical (slice (DiskMetrics_Logical (Metrics_Disk m))) = None"
    "validateNetwork (slice (Metrics_Network m)) = None" "validateRaidArrays (slice (RaidMetrics_Arrays (Metrics_Raid m))) = None"
    "DiskMetrics_Smart (Metrics_Disk m) = Some smart \<Longrightarrow> validateDiskSmart smart = None"
    "Metrics_Pressure m = Some pressure \<Longrightarrow> validatePressure pressure = None" "validateMemory (Metrics_Memory m) = None"
    "report_devices m \<le> maxReportDevices" "Metrics_Network m \<noteq> None"
  using assms by (simp_all add: ValidateReport_def Let_def)

lemma accepted_base_io:
  assumes "validateDiskBaseIO xs = None"
  shows "distinct (map (\<lambda>x. trim_space (DiskBaseIOMetrics_Name x)) xs)"
    "x \<in> set xs \<Longrightarrow> \<not> blank (DiskBaseIOMetrics_Name x) \<and> text_fits maxDiskNameChars (DiskBaseIOMetrics_Name x) \<and> text_fits maxDiskRefChars (DiskBaseIOMetrics_Ref x) \<and>
       text_fits maxDiskKindChars (DiskBaseIOMetrics_Kind x) \<and> text_fits maxDiskRoleChars (DiskBaseIOMetrics_Role x)"
proof -
  note v = assms [unfolded validateDiskBaseIO_def]
  show "distinct (map (\<lambda>x. trim_space (DiskBaseIOMetrics_Name x)) xs)"
    by (rule each_item_distinct [OF v]) (simp add: check_base_io_def Let_def)
  show "x \<in> set xs \<Longrightarrow> \<not> blank (DiskBaseIOMetrics_Name x) \<and> text_fits maxDiskNameChars (DiskBaseIOMetrics_Name x) \<and> text_fits maxDiskRefChars (DiskBaseIOMetrics_Ref x) \<and>
      text_fits maxDiskKindChars (DiskBaseIOMetrics_Kind x) \<and> text_fits maxDiskRoleChars (DiskBaseIOMetrics_Role x)"
    by (rule each_item_all [OF v], assumption) (simp add: check_base_io_def Let_def)
qed

definition logical_accepted :: "DiskLogicalMetrics \<Rightarrow> bool" where
  "logical_accepted x \<longleftrightarrow> \<not> blank (DiskLogicalMetrics_Name x) \<and> text_fits maxDiskNameChars (DiskLogicalMetrics_Name x) \<and>
     text_fits maxDiskRefChars (DiskLogicalMetrics_Ref x) \<and> text_fits maxDiskKindChars (DiskLogicalMetrics_Kind x) \<and>
     text_fits maxDiskStateChars (DiskLogicalMetrics_Health x) \<and> text_fits maxDiskStateChars (DiskLogicalMetrics_Level x) \<and>
     list_all (\<lambda>mp. text_fits maxFSTypeChars (DiskMountpointMetrics_FSType (snd mp))) (DiskLogicalMetrics_Mountpoints x) \<and>
     0 \<le> DiskLogicalMetrics_Total x \<and> 0 \<le> DiskLogicalMetrics_Used x \<and> 0 \<le> DiskLogicalMetrics_Free x \<and>
     (DiskLogicalMetrics_Total x = 0 \<longrightarrow> \<not> DiskLogicalMetrics_Used x > wrap64 (max_i64 - DiskLogicalMetrics_Free x))"

lemma accepted_logical:
  assumes "validateDiskLogical xs = None"
  shows "distinct (map (\<lambda>x. trim_space (DiskLogicalMetrics_Name x)) xs)" "x \<in> set xs \<Longrightarrow> logical_accepted x"
proof -
  note v = assms [unfolded validateDiskLogical_def]
  show "distinct (map (\<lambda>x. trim_space (DiskLogicalMetrics_Name x)) xs)"
    by (rule each_item_distinct [OF v]) (simp add: check_logical_def Let_def)
  show "x \<in> set xs \<Longrightarrow> logical_accepted x"
    by (rule each_item_all [OF v], assumption)
      (auto simp: check_logical_def Let_def logical_accepted_def validNonNegativeInt64_def first_error_None check_mountpoint_def list_all_iff)
qed

lemma accepted_network:
  assumes "validateNetwork xs = None"
  shows "distinct (map (\<lambda>x. trim_space (NetIOMetrics_Name x)) xs)"
    "x \<in> set xs \<Longrightarrow> \<not> blank (NetIOMetrics_Name x) \<and> text_fits maxInterfaceChars (NetIOMetrics_Name x) \<and> 0 \<le> NetIOMetrics_BytesRecv x \<and> 0 \<le> NetIOMetrics_BytesSent x"
proof -
  note v = assms [unfolded validateNetwork_def]
  show "distinct (map (\<lambda>x. trim_space (NetIOMetrics_Name x)) xs)"
    by (rule each_item_distinct [OF v]) (simp add: check_network_def Let_def)
  show "x \<in> set xs \<Longrightarrow> \<not> blank (NetIOMetrics_Name x) \<and> text_fits maxInterfaceChars (NetIOMetrics_Name x) \<and> 0 \<le> NetIOMetrics_BytesRecv x \<and> 0 \<le> NetIOMetrics_BytesSent x"
    by (rule each_item_all [OF v], assumption) (simp add: check_network_def Let_def validNonNegativeInt64_def)
qed

lemma accepted_smart:
  assumes "validateDiskSmart smart = None" "d \<in> set (slice (DiskSmart_Devices smart))"
  shows "text_fits maxDiskNameChars (DiskSmartDevice_Name d) \<and> text_fits maxDiskRefChars (DiskSmartDevice_Ref d)"
proof -
  have "each_item (\<lambda>device. []) check_smart_device 0 [] (slice (DiskSmart_Devices smart)) = None" using assms(1) by (simp add: validateDiskSmart_def)
  then show ?thesis by (rule each_item_all [OF _ assms(2)]) (simp add: check_smart_device_def)
qed

lemma accepted_raid:
  assumes "validateRaidArrays xs = None" "a \<in> set xs"
  shows "text_fits maxRaidHealthChars (RaidArray_Health a)"
  by (rule each_item_all [OF assms(1) [unfolded validateRaidArrays_def] assms(2)]) (simp add: check_array_def)

lemma accepted_no_overflow:
  assumes "logical_accepted x" "is_i64 (DiskLogicalMetrics_Free x)" "DiskLogicalMetrics_Total x = 0"
  shows "DiskLogicalMetrics_Used x + DiskLogicalMetrics_Free x \<le> max_i64"
proof -
  have "wrap64 (max_i64 - DiskLogicalMetrics_Free x) = max_i64 - DiskLogicalMetrics_Free x"
    by (rule wrap64_id) (use assms in \<open>auto simp: logical_accepted_def is_i64_def max_i64_def min_i64_def\<close>)
  with assms show ?thesis by (simp add: logical_accepted_def)
qed

end
