(* ===== verification/Metric_Snapshot.thy ===== *)
theory Metric_Snapshot
  imports Metric_Report "HOL-Library.Signed_Division"
begin

text \<open>
  From a report to the rows the database keeps and back: \<open>normalize.go\<close>, \<open>smart_device.go\<close>, \<open>pressure.go\<close>,
  \<open>values.go\<close>, \<open>node_push_convert.go\<close> and \<open>snapshot_converter.go\<close> under \<open>internal/metrics\<close>, with the table rows of
  \<open>internal/model\<close> and the tags of \<open>internal/nodetags\<close>.

  A JSON column is represented by the value it encodes. \<open>encoding/json\<close> writes every byte that is
  not part of valid UTF-8 as U+FFFD (\<open>json_text\<close>) and refuses numbers that are not finite and times outside
  the years 0 to 9999. The time zone a \<open>time.Time\<close> carries matters where the code prints it: it is the argument \<open>loc\<close>.
\<close>

subsection \<open>JSON text\<close>

definition encode_rune :: "nat \<Rightarrow> nat list" where
  "encode_rune r =
     (if r < 0x80 then [r]
      else if r < 0x800 then [0xC0 + r div 64, 0x80 + r mod 64]
      else if r < 0x10000 then [0xE0 + r div 4096, 0x80 + r div 64 mod 64, 0x80 + r mod 64]
      else [0xF0 + r div 262144, 0x80 + r div 4096 mod 64, 0x80 + r div 64 mod 64, 0x80 + r mod 64])"

definition json_text :: "string \<Rightarrow> string" where
  "json_text s = str_bytes (concat (map encode_rune (string_runes s)))"

definition valid_text :: "string \<Rightarrow> bool" where
  "valid_text s \<longleftrightarrow> json_text s = s"

datatype 'a document = NoDocument | BadDocument | Document 'a

definition str_contains :: "string \<Rightarrow> string \<Rightarrow> bool" where
  "str_contains s t \<longleftrightarrow> list_ex (\<lambda>k. has_prefix (drop k s) t) [0..<Suc (length s)]"

subsection \<open>Tags\<close>

text \<open>The stored document: nothing or \<open>null\<close>, a document that is not an array of strings, or the strings of the array.\<close>

datatype tag_document = TagsAbsent | TagsMalformed | TagItems "string list"

datatype tag_error = TagsInvalid | TooManyTags int | TagOutOfBounds int | TagsDiscarded int

definition maxTags :: int where "maxTags = 32"
definition maxTagRunes :: int where "maxTagRunes = 64"

fun clean_items :: "string list \<Rightarrow> string list \<Rightarrow> string list" where
  "clean_items seen [] = []"
| "clean_items seen (x # xs) =
     (let item = trim_space x
      in if item = [] \<or> item \<in> set seen then clean_items seen xs else item # clean_items (item # seen) xs)"

definition Clean :: "string list \<Rightarrow> string list" where
  "Clean items = clean_items [] items"

definition decode_tags :: "tag_document \<Rightarrow> tag_error + string list" where
  "decode_tags raw = (case raw of TagsAbsent \<Rightarrow> Inr [] | TagsMalformed \<Rightarrow> Inl TagsInvalid | TagItems items \<Rightarrow> Inr (Clean items))"

definition tag_bad :: "string \<Rightarrow> bool" where
  "tag_bad tag \<longleftrightarrow> int (rune_count tag) > maxTagRunes \<or> contains_control tag"

definition ParseTags :: "tag_document \<Rightarrow> tag_error + string list" where
  "ParseTags raw =
     (case decode_tags raw of Inl e \<Rightarrow> Inl e
      | Inr tags \<Rightarrow> if int (length tags) > maxTags then Inl (TooManyTags maxTags)
          else if list_ex tag_bad tags then Inl (TagOutOfBounds maxTagRunes) else Inr tags)"

fun keep_tags :: "string list \<Rightarrow> int \<Rightarrow> string list \<Rightarrow> string list \<times> int" where
  "keep_tags valid discarded [] = (valid, discarded)"
| "keep_tags valid discarded (tag # tags) =
     (if tag_bad tag \<or> int (length valid) \<ge> maxTags then keep_tags valid (discarded + 1) tags
      else keep_tags (valid @ [tag]) discarded tags)"

text \<open>The valid subset of the stored tags, with the error that reports what was dropped.\<close>

definition ParseStored :: "tag_document \<Rightarrow> string list \<times> tag_error option" where
  "ParseStored raw =
     (case decode_tags raw of Inl e \<Rightarrow> ([], Some e)
      | Inr tags \<Rightarrow> (let (valid, discarded) = keep_tags [] 0 tags
                     in (valid, if discarded > 0 then Some (TagsDiscarded discarded) else None)))"

definition NormalizeJSON :: "tag_document \<Rightarrow> tag_error + tag_document" where
  "NormalizeJSON raw =
     (if raw = TagsAbsent then Inl TagsInvalid
      else case ParseTags raw of Inl e \<Rightarrow> Inl e | Inr tags \<Rightarrow> Inr (TagItems (map json_text tags)))"

subsection \<open>Table rows\<close>

record Server =
  Server_VMMemoryEnabled :: bool
  Server_VMCPUThreshold :: int
  Server_VMMemoryThreshold :: int
  Server_ID :: int
  Server_Name :: string
  Server_Hostname :: string
  Server_Secret :: string
  Server_Tags :: tag_document
  Server_IP :: "string option"
  Server_OS :: "string option"
  Server_Platform :: "string option"
  Server_PlatformVersion :: "string option"
  Server_KernelVersion :: "string option"
  Server_Arch :: "string option"
  Server_Location :: "string option"
  Server_CPUModel :: "string option"
  Server_CPUVendor :: "string option"
  Server_CPUCoresPhys :: "int option"
  Server_CPUCoresLog :: "int option"
  Server_CPUSockets :: "int option"
  Server_CPUMhz :: "f64 option"
  Server_MemTotal :: "int option"
  Server_SwapTotal :: "int option"
  Server_DiskTotal :: "int option"
  Server_RootPath :: "string option"
  Server_RootFSType :: "string option"
  Server_RaidSupported :: "bool option"
  Server_RaidAvailable :: "bool option"
  Server_IntervalSec :: "int option"
  Server_IsGuestVisible :: bool
  Server_TrafficP95Enabled :: bool
  Server_TrafficCycleMode :: string
  Server_TrafficBillingStartDay :: int
  Server_TrafficBillingAnchorDate :: string
  Server_TrafficBillingTimezone :: string
  Server_TrafficDirectionMode :: string
  Server_IsDeleted :: bool
  Server_AgentVersion :: "string option"
  Server_Remark :: "string option"
  Server_DisplayOrder :: int

record MetricValues =
  MetricValues_CPUUsageRatio :: f64
  MetricValues_Load1 :: f64
  MetricValues_Load5 :: f64
  MetricValues_Load15 :: f64
  MetricValues_CPUUser :: f64
  MetricValues_CPUSystem :: f64
  MetricValues_CPUIdle :: f64
  MetricValues_CPUIowait :: f64
  MetricValues_CPUSteal :: f64
  MetricValues_CPUTempC :: "f64 option"
  MetricValues_MemTotal :: int
  MetricValues_MemUsed :: int
  MetricValues_MemAvailable :: int
  MetricValues_MemBuffers :: int
  MetricValues_MemCached :: int
  MetricValues_MemUsedRatio :: f64
  MetricValues_SwapTotal :: int
  MetricValues_SwapUsed :: int
  MetricValues_SwapFree :: int
  MetricValues_SwapUsedRatio :: f64
  MetricValues_NetInBytes :: int
  MetricValues_NetOutBytes :: int
  MetricValues_NetInBps :: f64
  MetricValues_NetOutBps :: f64
  MetricValues_ProcessCount :: int
  MetricValues_TCPConn :: int
  MetricValues_UDPConn :: int
  MetricValues_UptimeSeconds :: int
  MetricValues_RaidSupported :: bool
  MetricValues_RaidAvailable :: bool
  MetricValues_RaidOverallHealth :: string
  MetricValues_PSICPUSomeAvg10 :: "f64 option"
  MetricValues_PSICPUSomeAvg60 :: "f64 option"
  MetricValues_PSICPUSomeAvg300 :: "f64 option"
  MetricValues_PSICPUSomeTotal :: "int option"
  MetricValues_PSICPUFullAvg10 :: "f64 option"
  MetricValues_PSICPUFullAvg60 :: "f64 option"
  MetricValues_PSICPUFullAvg300 :: "f64 option"
  MetricValues_PSICPUFullTotal :: "int option"
  MetricValues_PSIMemSomeAvg10 :: "f64 option"
  MetricValues_PSIMemSomeAvg60 :: "f64 option"
  MetricValues_PSIMemSomeAvg300 :: "f64 option"
  MetricValues_PSIMemSomeTotal :: "int option"
  MetricValues_PSIMemFullAvg10 :: "f64 option"
  MetricValues_PSIMemFullAvg60 :: "f64 option"
  MetricValues_PSIMemFullAvg300 :: "f64 option"
  MetricValues_PSIMemFullTotal :: "int option"
  MetricValues_PSIIOSomeAvg10 :: "f64 option"
  MetricValues_PSIIOSomeAvg60 :: "f64 option"
  MetricValues_PSIIOSomeAvg300 :: "f64 option"
  MetricValues_PSIIOSomeTotal :: "int option"
  MetricValues_PSIIOFullAvg10 :: "f64 option"
  MetricValues_PSIIOFullAvg60 :: "f64 option"
  MetricValues_PSIIOFullAvg300 :: "f64 option"
  MetricValues_PSIIOFullTotal :: "int option"

record MetricRuntime =
  MetricRuntime_Raid :: "RaidMetrics document"
  MetricRuntime_Thermal :: "Thermal document"

record MetricsSnapshot =
  MetricsSnapshot_Values :: MetricValues
  MetricsSnapshot_Runtime :: MetricRuntime

record ServerMetric =
  ServerMetric_ServerID :: int
  ServerMetric_CollectedAt :: time
  ServerMetric_ReportedAt :: "time option"
  ServerMetric_Values :: MetricValues

record ServerCurrentMetric =
  ServerCurrentMetric_ServerID :: int
  ServerCurrentMetric_CollectedAt :: time
  ServerCurrentMetric_ReportedAt :: "time option"
  ServerCurrentMetric_Snapshot :: MetricsSnapshot

subsection \<open>Values\<close>

definition stringOrEmpty :: "string option \<Rightarrow> string" where
  "stringOrEmpty p = (case p of None \<Rightarrow> [] | Some s \<Rightarrow> s)"

definition int16OrZero :: "int option \<Rightarrow> int" where
  "int16OrZero p = (case p of None \<Rightarrow> 0 | Some i \<Rightarrow> i)"

text \<open>The layout RFC 3339: the offset is printed in whole minutes, and as \<open>Z\<close> when it is zero.\<close>

definition format_zone :: "int \<Rightarrow> string" where
  "format_zone off =
     (if off = 0 then ''Z''
      else let mins = \<bar>off\<bar> div 60
           in (if off < 0 \<and> mins > 0 then ''-'' else ''+'') @ pad 2 (mins div 60) @ '':'' @ pad 2 (mins mod 60))"

definition format_rfc3339 :: "location \<Rightarrow> time \<Rightarrow> string" where
  "format_rfc3339 loc t =
     (let c = local_secs loc t mod 86400
      in format_date_only loc t @ ''T'' @ pad 2 (c div 3600) @ '':'' @ pad 2 (c div 60 mod 60)
         @ '':'' @ pad 2 (c mod 60) @ format_zone (offset_at loc (unix_of t)))"

definition FormatTimestamp :: "location \<Rightarrow> time \<Rightarrow> string" where
  "FormatTimestamp loc t = (if t = 0 then [] else format_rfc3339 loc t)"

definition ParseReportedAt :: "string \<Rightarrow> time option" where
  "ParseReportedAt raw = (if raw = [] then None else parse_rfc3339 raw)"

subsection \<open>Normal forms\<close>

definition invalidTempC :: "f64 option \<Rightarrow> bool" where
  "invalidTempC v \<longleftrightarrow> (case v of None \<Rightarrow> False | Some t \<Rightarrow> f64_le t f0)"

definition validTempC :: "f64 option \<Rightarrow> bool" where
  "validTempC v \<longleftrightarrow> (case v of None \<Rightarrow> False | Some t \<Rightarrow> f64_lt f0 t)"

definition keep_temp :: "f64 option \<Rightarrow> f64 option" where
  "keep_temp v = (if invalidTempC v then None else v)"

definition normalizeDiskSmart :: "DiskSmart option \<Rightarrow> DiskSmart option" where
  "normalizeDiskSmart smart = map_option (\<lambda>s. s\<lparr>DiskSmart_Devices :=
     Some (map (\<lambda>d. d\<lparr>DiskSmartDevice_TempC := keep_temp (DiskSmartDevice_TempC d)\<rparr>) (slice (DiskSmart_Devices s)))\<rparr>) smart"

definition normalize_sensor :: "ThermalSensor \<Rightarrow> ThermalSensor" where
  "normalize_sensor s = s\<lparr>ThermalSensor_TempC := keep_temp (ThermalSensor_TempC s), ThermalSensor_HighC := keep_temp (ThermalSensor_HighC s),
     ThermalSensor_CriticalC := keep_temp (ThermalSensor_CriticalC s)\<rparr>"

definition normalizeThermal :: "Thermal option \<Rightarrow> Thermal option" where
  "normalizeThermal thermal = map_option (\<lambda>t. t\<lparr>Thermal_Sensors :=
     Some (filter (\<lambda>s. ThermalSensor_TempC s \<noteq> None) (map normalize_sensor (slice (Thermal_Sensors t))))\<rparr>) thermal"

subsection \<open>Disks with a temperature\<close>

definition smartVirtualDiskPrefixes :: "string list" where
  "smartVirtualDiskPrefixes = [''md'', ''dm-'', ''vd'', ''xvd'']"

definition smartVirtualDiskTerms :: "string list" where
  "smartVirtualDiskTerms = [''raid:'', '':md'', ''/dev/md'', ''/dev/dm-'', ''/dev/mapper'', ''/dev/vd'', ''/dev/xvd'']"

definition smartVirtualTerms :: "string list" where
  "smartVirtualTerms = [''raid'', ''virtual'', ''virtio'', ''qemu'', ''vmware'', ''xen'', ''vbox'', ''hyper-v'']"

definition smartPhysicalTerms :: "string list" where
  "smartPhysicalTerms = [''nvme'', ''ata'', ''sata'', ''sat'']"

definition hasSmartTerm :: "string \<Rightarrow> string list \<Rightarrow> bool" where
  "hasSmartTerm val terms \<longleftrightarrow> list_ex (str_contains val) terms"

definition isVirtualDiskID :: "string \<Rightarrow> bool" where
  "isVirtualDiskID val \<longleftrightarrow> list_ex (has_prefix val) smartVirtualDiskPrefixes \<or> hasSmartTerm val smartVirtualDiskTerms"

definition isPhysicalSmartDevice :: "DiskSmartDevice \<Rightarrow> bool" where
  "isPhysicalSmartDevice device \<longleftrightarrow>
     (let name = go_lower (trim_space (DiskSmartDevice_Name device));
          path = go_lower (trim_space (DiskSmartDevice_DevicePath device));
          ref = go_lower (trim_space (DiskSmartDevice_Ref device));
          txt = go_lower (join_with '' '' [DiskSmartDevice_DeviceType device, DiskSmartDevice_Protocol device, DiskSmartDevice_Model device]);
          kind = go_lower (DiskSmartDevice_Protocol device @ '' '' @ DiskSmartDevice_DeviceType device)
      in if isVirtualDiskID name \<or> isVirtualDiskID path \<or> isVirtualDiskID ref then False
         else if hasSmartTerm txt smartVirtualTerms then False
         else if hasSmartTerm kind smartPhysicalTerms then True
         else if str_contains kind ''scsi'' then \<not> blank (DiskSmartDevice_Serial device) \<or> \<not> blank (DiskSmartDevice_WWN device)
         else False)"

definition IsSmartTemperatureDevice :: "DiskSmartDevice \<Rightarrow> bool" where
  "IsSmartTemperatureDevice device \<longleftrightarrow> validTempC (DiskSmartDevice_TempC device) \<and> isPhysicalSmartDevice device"

text \<open>The devices of a loop that skips names it has seen: the first device of every name.\<close>

fun temperature_devices :: "string list \<Rightarrow> DiskSmartDevice list \<Rightarrow> DiskSmartDevice list" where
  "temperature_devices seen [] = []"
| "temperature_devices seen (device # devices) =
     (let name = trim_space (DiskSmartDevice_Name device)
      in if name = [] \<or> \<not> IsSmartTemperatureDevice device \<or> name \<in> set seen then temperature_devices seen devices
         else device # temperature_devices (name # seen) devices)"

definition SmartTemperatureDeviceNames :: "DiskSmart option \<Rightarrow> string list" where
  "SmartTemperatureDeviceNames smart =
     (case smart of None \<Rightarrow> []
      | Some s \<Rightarrow> map (\<lambda>d. trim_space (DiskSmartDevice_Name d)) (temperature_devices [] (slice (DiskSmart_Devices s))))"

subsection \<open>Pressure stall information\<close>

definition normalizePressureResource :: "PressureResource option \<Rightarrow> PressureResource option" where
  "normalizePressureResource r =
     (case r of None \<Rightarrow> None
      | Some x \<Rightarrow> if PressureResource_Some x = None \<and> PressureResource_Full x = None then None
          else Some \<lparr>PressureResource_Some = PressureResource_Some x, PressureResource_Full = PressureResource_Full x\<rparr>)"

definition normalizePressure :: "Pressure option \<Rightarrow> Pressure option" where
  "normalizePressure p =
     (case p of None \<Rightarrow> None
      | Some x \<Rightarrow>
          (let out = \<lparr>Pressure_CPU = normalizePressureResource (Pressure_CPU x), Pressure_Memory = normalizePressureResource (Pressure_Memory x),
                 Pressure_IO = normalizePressureResource (Pressure_IO x)\<rparr>
           in if Pressure_CPU out = None \<and> Pressure_Memory out = None \<and> Pressure_IO out = None then None else Some out))"

text \<open>\<open>setPressureStats\<close> on the four columns of each of the six series.\<close>

definition set_cpu_some :: "PressureStats option \<Rightarrow> MetricValues \<Rightarrow> MetricValues" where
  "set_cpu_some stats v =
     (case stats of None \<Rightarrow> v
      | Some s \<Rightarrow> v\<lparr>MetricValues_PSICPUSomeAvg10 := Some (PressureStats_Avg10 s), MetricValues_PSICPUSomeAvg60 := Some (PressureStats_Avg60 s),
          MetricValues_PSICPUSomeAvg300 := Some (PressureStats_Avg300 s), MetricValues_PSICPUSomeTotal := Some (PressureStats_Total s)\<rparr>)"

definition set_cpu_full :: "PressureStats option \<Rightarrow> MetricValues \<Rightarrow> MetricValues" where
  "set_cpu_full stats v =
     (case stats of None \<Rightarrow> v
      | Some s \<Rightarrow> v\<lparr>MetricValues_PSICPUFullAvg10 := Some (PressureStats_Avg10 s), MetricValues_PSICPUFullAvg60 := Some (PressureStats_Avg60 s),
          MetricValues_PSICPUFullAvg300 := Some (PressureStats_Avg300 s), MetricValues_PSICPUFullTotal := Some (PressureStats_Total s)\<rparr>)"

definition set_memory_some :: "PressureStats option \<Rightarrow> MetricValues \<Rightarrow> MetricValues" where
  "set_memory_some stats v =
     (case stats of None \<Rightarrow> v
      | Some s \<Rightarrow> v\<lparr>MetricValues_PSIMemSomeAvg10 := Some (PressureStats_Avg10 s), MetricValues_PSIMemSomeAvg60 := Some (PressureStats_Avg60 s),
          MetricValues_PSIMemSomeAvg300 := Some (PressureStats_Avg300 s), MetricValues_PSIMemSomeTotal := Some (PressureStats_Total s)\<rparr>)"

definition set_memory_full :: "PressureStats option \<Rightarrow> MetricValues \<Rightarrow> MetricValues" where
  "set_memory_full stats v =
     (case stats of None \<Rightarrow> v
      | Some s \<Rightarrow> v\<lparr>MetricValues_PSIMemFullAvg10 := Some (PressureStats_Avg10 s), MetricValues_PSIMemFullAvg60 := Some (PressureStats_Avg60 s),
          MetricValues_PSIMemFullAvg300 := Some (PressureStats_Avg300 s), MetricValues_PSIMemFullTotal := Some (PressureStats_Total s)\<rparr>)"

definition set_io_some :: "PressureStats option \<Rightarrow> MetricValues \<Rightarrow> MetricValues" where
  "set_io_some stats v =
     (case stats of None \<Rightarrow> v
      | Some s \<Rightarrow> v\<lparr>MetricValues_PSIIOSomeAvg10 := Some (PressureStats_Avg10 s), MetricValues_PSIIOSomeAvg60 := Some (PressureStats_Avg60 s),
          MetricValues_PSIIOSomeAvg300 := Some (PressureStats_Avg300 s), MetricValues_PSIIOSomeTotal := Some (PressureStats_Total s)\<rparr>)"

definition set_io_full :: "PressureStats option \<Rightarrow> MetricValues \<Rightarrow> MetricValues" where
  "set_io_full stats v =
     (case stats of None \<Rightarrow> v
      | Some s \<Rightarrow> v\<lparr>MetricValues_PSIIOFullAvg10 := Some (PressureStats_Avg10 s), MetricValues_PSIIOFullAvg60 := Some (PressureStats_Avg60 s),
          MetricValues_PSIIOFullAvg300 := Some (PressureStats_Avg300 s), MetricValues_PSIIOFullTotal := Some (PressureStats_Total s)\<rparr>)"

definition set_resource :: "(PressureStats option \<Rightarrow> MetricValues \<Rightarrow> MetricValues) \<Rightarrow> (PressureStats option \<Rightarrow> MetricValues \<Rightarrow> MetricValues) \<Rightarrow>
    PressureResource option \<Rightarrow> MetricValues \<Rightarrow> MetricValues" where
  "set_resource setSome setFull r v =
     (case r of None \<Rightarrow> v | Some x \<Rightarrow> setFull (PressureResource_Full x) (setSome (PressureResource_Some x) v))"

definition applyPressureSnapshot :: "MetricValues \<Rightarrow> Pressure option \<Rightarrow> MetricValues" where
  "applyPressureSnapshot v pressure =
     (case normalizePressure pressure of None \<Rightarrow> v
      | Some p \<Rightarrow> set_resource set_io_some set_io_full (Pressure_IO p)
          (set_resource set_memory_some set_memory_full (Pressure_Memory p)
            (set_resource set_cpu_some set_cpu_full (Pressure_CPU p) v)))"

definition pressureStatsFromSnapshot :: "f64 option \<Rightarrow> f64 option \<Rightarrow> f64 option \<Rightarrow> int option \<Rightarrow> PressureStats option" where
  "pressureStatsFromSnapshot avg10 avg60 avg300 tot =
     (if avg10 = None \<and> avg60 = None \<and> avg300 = None \<and> tot = None then None
      else Some \<lparr>PressureStats_Avg10 = (case avg10 of None \<Rightarrow> f0 | Some x \<Rightarrow> x), PressureStats_Avg60 = (case avg60 of None \<Rightarrow> f0 | Some x \<Rightarrow> x),
        PressureStats_Avg300 = (case avg300 of None \<Rightarrow> f0 | Some x \<Rightarrow> x),
        PressureStats_Total = (case tot of None \<Rightarrow> 0 | Some x \<Rightarrow> if x > 0 then x else 0)\<rparr>)"

definition pressureResourceFromSnapshot :: "PressureResource option \<Rightarrow> PressureResource option" where
  "pressureResourceFromSnapshot r =
     (case r of None \<Rightarrow> None
      | Some x \<Rightarrow> if PressureResource_Some x = None \<and> PressureResource_Full x = None then None else r)"

definition pressureFromSnapshot :: "MetricValues \<Rightarrow> Pressure option" where
  "pressureFromSnapshot v = normalizePressure (Some
     \<lparr>Pressure_CPU = pressureResourceFromSnapshot (Some
        \<lparr>PressureResource_Some = pressureStatsFromSnapshot (MetricValues_PSICPUSomeAvg10 v) (MetricValues_PSICPUSomeAvg60 v) (MetricValues_PSICPUSomeAvg300 v) (MetricValues_PSICPUSomeTotal v),
         PressureResource_Full = pressureStatsFromSnapshot (MetricValues_PSICPUFullAvg10 v) (MetricValues_PSICPUFullAvg60 v) (MetricValues_PSICPUFullAvg300 v) (MetricValues_PSICPUFullTotal v)\<rparr>),
      Pressure_Memory = pressureResourceFromSnapshot (Some
        \<lparr>PressureResource_Some = pressureStatsFromSnapshot (MetricValues_PSIMemSomeAvg10 v) (MetricValues_PSIMemSomeAvg60 v) (MetricValues_PSIMemSomeAvg300 v) (MetricValues_PSIMemSomeTotal v),
         PressureResource_Full = pressureStatsFromSnapshot (MetricValues_PSIMemFullAvg10 v) (MetricValues_PSIMemFullAvg60 v) (MetricValues_PSIMemFullAvg300 v) (MetricValues_PSIMemFullTotal v)\<rparr>),
      Pressure_IO = pressureResourceFromSnapshot (Some
        \<lparr>PressureResource_Some = pressureStatsFromSnapshot (MetricValues_PSIIOSomeAvg10 v) (MetricValues_PSIIOSomeAvg60 v) (MetricValues_PSIIOSomeAvg300 v) (MetricValues_PSIIOSomeTotal v),
         PressureResource_Full = pressureStatsFromSnapshot (MetricValues_PSIIOFullAvg10 v) (MetricValues_PSIIOFullAvg60 v) (MetricValues_PSIIOFullAvg300 v) (MetricValues_PSIIOFullTotal v)\<rparr>)\<rparr>)"

subsection \<open>Snapshots\<close>

datatype snapshot_error = MarshalThermal | NetworkInvalid | NetworkOverflow | NetworkRatesOverflow | UnmarshalRaid | UnmarshalThermal

definition json_time_ok :: "time \<Rightarrow> bool" where
  "json_time_ok t \<longleftrightarrow> 0 \<le> time_year UTC t \<and> time_year UTC t \<le> 9999"

definition json_float_ok :: "f64 option \<Rightarrow> bool" where
  "json_float_ok v \<longleftrightarrow> (case v of None \<Rightarrow> True | Some x \<Rightarrow> finite64 x)"

definition json_sensor :: "ThermalSensor \<Rightarrow> ThermalSensor" where
  "json_sensor s = s\<lparr>ThermalSensor_Kind := json_text (ThermalSensor_Kind s), ThermalSensor_Name := json_text (ThermalSensor_Name s),
     ThermalSensor_SensorKey := json_text (ThermalSensor_SensorKey s), ThermalSensor_Source := json_text (ThermalSensor_Source s),
     ThermalSensor_Status := json_text (ThermalSensor_Status s)\<rparr>"

definition marshal_thermal :: "Thermal \<Rightarrow> Thermal option" where
  "marshal_thermal t =
     (if list_all (\<lambda>s. json_float_ok (ThermalSensor_TempC s) \<and> json_float_ok (ThermalSensor_HighC s) \<and> json_float_ok (ThermalSensor_CriticalC s))
           (slice (Thermal_Sensors t)) \<and> (case Thermal_UpdatedAt t of None \<Rightarrow> True | Some u \<Rightarrow> json_time_ok u)
      then Some (t\<lparr>Thermal_Status := json_text (Thermal_Status t), Thermal_Sensors := map_option (map json_sensor) (Thermal_Sensors t)\<rparr>)
      else None)"

definition json_member :: "RaidMember \<Rightarrow> RaidMember" where
  "json_member x = \<lparr>RaidMember_Name = json_text (RaidMember_Name x), RaidMember_State = json_text (RaidMember_State x)\<rparr>"

definition json_array :: "RaidArray \<Rightarrow> RaidArray" where
  "json_array a = a\<lparr>RaidArray_Name := json_text (RaidArray_Name a), RaidArray_Status := json_text (RaidArray_Status a),
     RaidArray_Health := json_text (RaidArray_Health a), RaidArray_Members := map_option (map json_member) (RaidArray_Members a),
     RaidArray_SyncStatus := json_text (RaidArray_SyncStatus a), RaidArray_SyncProgress := json_text (RaidArray_SyncProgress a)\<rparr>"

definition marshal_raid :: "RaidMetrics \<Rightarrow> RaidMetrics" where
  "marshal_raid r = r\<lparr>RaidMetrics_Arrays := map_option (map json_array) (RaidMetrics_Arrays r)\<rparr>"

text \<open>The strings of a document.\<close>

definition array_text :: "RaidArray \<Rightarrow> string list" where
  "array_text a = [RaidArray_Name a, RaidArray_Status a, RaidArray_Health a, RaidArray_SyncStatus a, RaidArray_SyncProgress a]
     @ concat (map (\<lambda>x. [RaidMember_Name x, RaidMember_State x]) (slice (RaidArray_Members a)))"

definition sensor_text :: "ThermalSensor \<Rightarrow> string list" where
  "sensor_text s = [ThermalSensor_Kind s, ThermalSensor_Name s, ThermalSensor_SensorKey s, ThermalSensor_Source s, ThermalSensor_Status s]"

definition raid_text :: "RaidMetrics \<Rightarrow> string list" where
  "raid_text r = concat (map array_text (slice (RaidMetrics_Arrays r)))"

definition thermal_text :: "Thermal \<Rightarrow> string list" where
  "thermal_text t = Thermal_Status t # concat (map sensor_text (slice (Thermal_Sensors t)))"

record net_sums =
  net_in :: int
  net_out :: int
  net_in_bps :: f64
  net_out_bps :: f64

fun aggregate_from :: "net_sums \<Rightarrow> NetIOMetrics list \<Rightarrow> snapshot_error + net_sums" where
  "aggregate_from acc [] = Inr acc"
| "aggregate_from acc (iface # rest) =
     (if NetIOMetrics_BytesRecv iface < 0 \<or> NetIOMetrics_BytesSent iface < 0 then Inl NetworkInvalid
      else if net_in acc > wrap64 (max_i64 - NetIOMetrics_BytesRecv iface) \<or> net_out acc > wrap64 (max_i64 - NetIOMetrics_BytesSent iface)
        then Inl NetworkOverflow
      else let acc = \<lparr>net_in = wrap64 (net_in acc + NetIOMetrics_BytesRecv iface), net_out = wrap64 (net_out acc + NetIOMetrics_BytesSent iface),
                 net_in_bps = f64_add (net_in_bps acc) (NetIOMetrics_RecvRateBytesPerSec iface),
                 net_out_bps = f64_add (net_out_bps acc) (NetIOMetrics_SentRateBytesPerSec iface)\<rparr>
           in if net_in_bps acc \<in> {PInf, NInf} \<or> net_out_bps acc \<in> {PInf, NInf} then Inl NetworkRatesOverflow
              else aggregate_from acc rest)"

definition aggregateNetwork :: "NetIOMetrics list \<Rightarrow> snapshot_error + net_sums" where
  "aggregateNetwork interfaces = aggregate_from \<lparr>net_in = 0, net_out = 0, net_in_bps = f0, net_out_bps = f0\<rparr> interfaces"

definition isCPUSensor :: "ThermalSensor \<Rightarrow> bool" where
  "isCPUSensor sensor \<longleftrightarrow> equal_fold (trim_space (ThermalSensor_Kind sensor)) ''cpu''"

fun max_temp_from :: "f64 option \<Rightarrow> (ThermalSensor \<Rightarrow> bool) \<Rightarrow> ThermalSensor list \<Rightarrow> f64 option" where
  "max_temp_from best match [] = best"
| "max_temp_from best match (sensor # rest) =
     (if \<not> validTempC (ThermalSensor_TempC sensor) \<or> \<not> match sensor then max_temp_from best match rest
      else let t = the (ThermalSensor_TempC sensor)
           in max_temp_from (case best of None \<Rightarrow> Some t | Some b \<Rightarrow> if f64_lt b t then Some t else Some b) match rest)"

definition maxThermalTempC :: "Thermal option \<Rightarrow> (ThermalSensor \<Rightarrow> bool) \<Rightarrow> f64 option" where
  "maxThermalTempC thermal match = (case thermal of None \<Rightarrow> None | Some t \<Rightarrow> max_temp_from None match (slice (Thermal_Sensors t)))"

fun health_from :: "string \<Rightarrow> RaidArray list \<Rightarrow> string" where
  "health_from status [] = status"
| "health_from status (arr # rest) =
     (let health = trim_space (RaidArray_Health arr)
      in if health = [] then health_from status rest
         else if health = ''degraded'' \<or> health = ''syncing'' then health else health_from health rest)"

definition raidOverallHealth :: "RaidMetrics \<Rightarrow> string" where
  "raidOverallHealth raid = (if slice (RaidMetrics_Arrays raid) = [] then [] else health_from ''healthy'' (slice (RaidMetrics_Arrays raid)))"

definition formatUptime :: "int \<Rightarrow> string" where
  "formatUptime secs =
     (if secs = 0 then []
      else let days = secs sdiv 86400; secs = secs smod 86400; hours = secs sdiv 3600; secs = secs smod 3600; minutes = secs sdiv 60
           in dec_int days @ ''d '' @ dec_int hours @ ''h '' @ dec_int minutes @ ''m'')"

definition snapshot_values :: "Metrics \<Rightarrow> net_sums \<Rightarrow> MetricValues" where
  "snapshot_values m net = (let inBytes = net_in net; outBytes = net_out net; inBps = net_in_bps net; outBps = net_out_bps net in
     \<lparr>MetricValues_CPUUsageRatio = CPUMetrics_UsageRatio (Metrics_CPU m),
      MetricValues_Load1 = CPUMetrics_Load1 (Metrics_CPU m),
      MetricValues_Load5 = CPUMetrics_Load5 (Metrics_CPU m),
      MetricValues_Load15 = CPUMetrics_Load15 (Metrics_CPU m),
      MetricValues_CPUUser = CPUTimes_User (CPUMetrics_Times (Metrics_CPU m)),
      MetricValues_CPUSystem = CPUTimes_System (CPUMetrics_Times (Metrics_CPU m)),
      MetricValues_CPUIdle = CPUTimes_Idle (CPUMetrics_Times (Metrics_CPU m)),
      MetricValues_CPUIowait = CPUTimes_Iowait (CPUMetrics_Times (Metrics_CPU m)),
      MetricValues_CPUSteal = CPUTimes_Steal (CPUMetrics_Times (Metrics_CPU m)),
      MetricValues_CPUTempC = maxThermalTempC (Metrics_Thermal m) isCPUSensor,
      MetricValues_MemTotal = MemoryMetrics_Total (Metrics_Memory m),
      MetricValues_MemUsed = MemoryMetrics_Used (Metrics_Memory m),
      MetricValues_MemAvailable = MemoryMetrics_Available (Metrics_Memory m),
      MetricValues_MemBuffers = MemoryMetrics_Buffers (Metrics_Memory m),
      MetricValues_MemCached = MemoryMetrics_Cached (Metrics_Memory m),
      MetricValues_MemUsedRatio = MemoryMetrics_UsedRatio (Metrics_Memory m),
      MetricValues_SwapTotal = MemoryMetrics_SwapTotal (Metrics_Memory m),
      MetricValues_SwapUsed = MemoryMetrics_SwapUsed (Metrics_Memory m),
      MetricValues_SwapFree = MemoryMetrics_SwapFree (Metrics_Memory m),
      MetricValues_SwapUsedRatio = MemoryMetrics_SwapUsedRatio (Metrics_Memory m),
      MetricValues_NetInBytes = inBytes,
      MetricValues_NetOutBytes = outBytes,
      MetricValues_NetInBps = inBps,
      MetricValues_NetOutBps = outBps,
      MetricValues_ProcessCount = ProcessMetrics_ProcessCount (Metrics_Processes m),
      MetricValues_TCPConn = ConnectionMetrics_TCPCount (Metrics_Connections m),
      MetricValues_UDPConn = ConnectionMetrics_UDPCount (Metrics_Connections m),
      MetricValues_UptimeSeconds = SystemMetrics_UptimeSeconds (Metrics_System m),
      MetricValues_RaidSupported = RaidMetrics_Supported (Metrics_Raid m),
      MetricValues_RaidAvailable = RaidMetrics_Available (Metrics_Raid m),
      MetricValues_RaidOverallHealth = raidOverallHealth (Metrics_Raid m),
      MetricValues_PSICPUSomeAvg10 = None, MetricValues_PSICPUSomeAvg60 = None, MetricValues_PSICPUSomeAvg300 = None, MetricValues_PSICPUSomeTotal = None, MetricValues_PSICPUFullAvg10 = None, MetricValues_PSICPUFullAvg60 = None, MetricValues_PSICPUFullAvg300 = None, MetricValues_PSICPUFullTotal = None, MetricValues_PSIMemSomeAvg10 = None, MetricValues_PSIMemSomeAvg60 = None, MetricValues_PSIMemSomeAvg300 = None, MetricValues_PSIMemSomeTotal = None, MetricValues_PSIMemFullAvg10 = None, MetricValues_PSIMemFullAvg60 = None, MetricValues_PSIMemFullAvg300 = None, MetricValues_PSIMemFullTotal = None, MetricValues_PSIIOSomeAvg10 = None, MetricValues_PSIIOSomeAvg60 = None, MetricValues_PSIIOSomeAvg300 = None, MetricValues_PSIIOSomeTotal = None, MetricValues_PSIIOFullAvg10 = None, MetricValues_PSIIOFullAvg60 = None, MetricValues_PSIIOFullAvg300 = None, MetricValues_PSIIOFullTotal = None\<rparr>)"

definition ToSnapshot :: "Metrics \<Rightarrow> snapshot_error + MetricsSnapshot" where
  "ToSnapshot m =
     (case (case normalizeThermal (Metrics_Thermal m) of None \<Rightarrow> Inr NoDocument
            | Some t \<Rightarrow> (case marshal_thermal t of None \<Rightarrow> Inl MarshalThermal | Some d \<Rightarrow> Inr (Document d))) of
        Inl e \<Rightarrow> Inl e
      | Inr thermalJSON \<Rightarrow>
          (case aggregateNetwork (slice (Metrics_Network m)) of
             Inl e \<Rightarrow> Inl e
           | Inr net \<Rightarrow> Inr \<lparr>MetricsSnapshot_Values = applyPressureSnapshot (snapshot_values m net) (Metrics_Pressure m),
               MetricsSnapshot_Runtime = \<lparr>MetricRuntime_Raid = Document (marshal_raid (Metrics_Raid m)), MetricRuntime_Thermal = thermalJSON\<rparr>\<rparr>))"

definition metricsFromSnapshot :: "MetricsSnapshot \<Rightarrow> snapshot_error + Metrics" where
  "metricsFromSnapshot snap = (let v = MetricsSnapshot_Values snap; rt = MetricsSnapshot_Runtime snap in
     case MetricRuntime_Raid rt of BadDocument \<Rightarrow> Inl UnmarshalRaid
     | raidDoc \<Rightarrow>
         (case MetricRuntime_Thermal rt of BadDocument \<Rightarrow> Inl UnmarshalThermal
          | thermalDoc \<Rightarrow> Inr
             \<lparr>Metrics_CPU = \<lparr>CPUMetrics_UsageRatio = MetricValues_CPUUsageRatio v, CPUMetrics_Load1 = MetricValues_Load1 v,
                 CPUMetrics_Load5 = MetricValues_Load5 v, CPUMetrics_Load15 = MetricValues_Load15 v,
                 CPUMetrics_Times = \<lparr>CPUTimes_User = MetricValues_CPUUser v, CPUTimes_System = MetricValues_CPUSystem v,
                   CPUTimes_Idle = MetricValues_CPUIdle v, CPUTimes_Iowait = MetricValues_CPUIowait v, CPUTimes_Steal = MetricValues_CPUSteal v\<rparr>\<rparr>,
               Metrics_Memory = \<lparr>MemoryMetrics_Total = MetricValues_MemTotal v, MemoryMetrics_Used = MetricValues_MemUsed v,
                 MemoryMetrics_Available = MetricValues_MemAvailable v, MemoryMetrics_Buffers = MetricValues_MemBuffers v,
                 MemoryMetrics_Cached = MetricValues_MemCached v, MemoryMetrics_UsedRatio = MetricValues_MemUsedRatio v,
                 MemoryMetrics_SwapTotal = MetricValues_SwapTotal v, MemoryMetrics_SwapUsed = MetricValues_SwapUsed v,
                 MemoryMetrics_SwapFree = MetricValues_SwapFree v, MemoryMetrics_SwapUsedRatio = MetricValues_SwapUsedRatio v\<rparr>,
               Metrics_Disk = zero_DiskMetrics, Metrics_Network = None,
               Metrics_System = \<lparr>SystemMetrics_Alive = True, SystemMetrics_UptimeSeconds = MetricValues_UptimeSeconds v,
                 SystemMetrics_Uptime = formatUptime (MetricValues_UptimeSeconds v)\<rparr>,
               Metrics_Processes = \<lparr>ProcessMetrics_ProcessCount = MetricValues_ProcessCount v\<rparr>,
               Metrics_Connections = \<lparr>ConnectionMetrics_TCPCount = MetricValues_TCPConn v, ConnectionMetrics_UDPCount = MetricValues_UDPConn v\<rparr>,
               Metrics_Raid = (case raidDoc of Document r \<Rightarrow> r | _ \<Rightarrow> zero_RaidMetrics),
               Metrics_Thermal = (case thermalDoc of Document t \<Rightarrow> normalizeThermal (Some t) | _ \<Rightarrow> None),
               Metrics_Pressure = pressureFromSnapshot v\<rparr>))"

definition NormalizeReport :: "location \<Rightarrow> int \<Rightarrow> int \<Rightarrow> NodeReport \<Rightarrow> time \<Rightarrow> NodeReport \<times> string" where
  "NormalizeReport loc serverID displayOrder report receivedAt =
     (let originalTimestamp = FormatTimestamp loc (NodeReport_Timestamp report)
      in (report\<lparr>NodeReport_ServerID := serverID, NodeReport_DisplayOrder := displayOrder, NodeReport_SentAt := originalTimestamp,
            NodeReport_Timestamp := receivedAt\<rparr>, originalTimestamp))"

definition BuildMetric :: "int \<Rightarrow> Metrics \<Rightarrow> time \<Rightarrow> string \<Rightarrow> snapshot_error + ServerMetric \<times> MetricRuntime" where
  "BuildMetric serverID vals receivedAt reportedAtRaw =
     (case ToSnapshot vals of Inl e \<Rightarrow> Inl e
      | Inr snapshot \<Rightarrow> Inr (\<lparr>ServerMetric_ServerID = serverID, ServerMetric_CollectedAt = receivedAt,
          ServerMetric_ReportedAt = ParseReportedAt reportedAtRaw, ServerMetric_Values = MetricsSnapshot_Values snapshot\<rparr>,
          MetricsSnapshot_Runtime snapshot))"

definition BuildNodeReport :: "Server \<Rightarrow> ServerCurrentMetric \<Rightarrow> location \<Rightarrow> snapshot_error + NodeReport" where
  "BuildNodeReport server metric loc =
     (case metricsFromSnapshot (ServerCurrentMetric_Snapshot metric) of Inl e \<Rightarrow> Inl e
      | Inr m \<Rightarrow>
          (let name = trim_space (Server_Name server);
               displayHost = (if name \<noteq> [] \<and> name \<noteq> ''Untitled'' then name else Server_Hostname server)
           in Inr \<lparr>NodeReport_Version = stringOrEmpty (Server_AgentVersion server), NodeReport_Hostname = displayHost,
                NodeReport_Timestamp = ServerCurrentMetric_CollectedAt metric, NodeReport_Metrics = m,
                NodeReport_SentAt = (case ServerCurrentMetric_ReportedAt metric of None \<Rightarrow> [] | Some t \<Rightarrow> FormatTimestamp loc t),
                NodeReport_ServerID = Server_ID server, NodeReport_DisplayOrder = Server_DisplayOrder server\<rparr>))"

subsection \<open>Facts about pressure\<close>

definition totals_ok :: "PressureResource option \<Rightarrow> bool" where
  "totals_ok r \<longleftrightarrow> (\<forall>x s. r = Some x \<longrightarrow> PressureResource_Some x = Some s \<or> PressureResource_Full x = Some s \<longrightarrow> PressureStats_Total s \<ge> 0)"

lemma read_stats [simp]:
  "PressureStats_Total s \<ge> 0 \<Longrightarrow>
   pressureStatsFromSnapshot (Some (PressureStats_Avg10 s)) (Some (PressureStats_Avg60 s)) (Some (PressureStats_Avg300 s)) (Some (PressureStats_Total s)) = Some s"
  by (cases s) (auto simp: pressureStatsFromSnapshot_def)

lemma read_no_stats [simp]: "pressureStatsFromSnapshot None None None None = None"
  by (simp add: pressureStatsFromSnapshot_def)

lemma read_resource:
  "pressureResourceFromSnapshot (Some \<lparr>PressureResource_Some = Option.bind (normalizePressureResource r) PressureResource_Some,
     PressureResource_Full = Option.bind (normalizePressureResource r) PressureResource_Full\<rparr>) = normalizePressureResource r"
  by (auto simp: pressureResourceFromSnapshot_def normalizePressureResource_def split: option.splits)

lemma normalizePressureResource_idem [simp]: "normalizePressureResource (normalizePressureResource r) = normalizePressureResource r"
  by (auto simp: normalizePressureResource_def split: option.splits)

lemma normalizePressure_idem [simp]: "normalizePressure (normalizePressure p) = normalizePressure p"
  by (auto simp: normalizePressure_def Let_def split: option.splits)

lemma totals_ok_normal: "totals_ok r \<Longrightarrow> totals_ok (normalizePressureResource r)"
  by (auto simp: totals_ok_def normalizePressureResource_def split: option.splits if_splits)

definition resource_of :: "Pressure option \<Rightarrow> (Pressure \<Rightarrow> PressureResource option) \<Rightarrow> PressureResource option" where
  "resource_of p f = normalizePressureResource (Option.bind p f)"

lemma apply_normal:
  "applyPressureSnapshot v p = set_resource set_io_some set_io_full (resource_of p Pressure_IO)
     (set_resource set_memory_some set_memory_full (resource_of p Pressure_Memory) (set_resource set_cpu_some set_cpu_full (resource_of p Pressure_CPU) v))"
  by (cases p) (auto simp: applyPressureSnapshot_def normalizePressure_def resource_of_def set_resource_def Let_def normalizePressureResource_def split: option.splits)

text \<open>A setter of one series leaves the columns of the others alone.\<close>

lemmas psi_setters = set_cpu_some_def set_cpu_full_def set_memory_some_def set_memory_full_def set_io_some_def set_io_full_def

definition no_pressure :: "MetricValues \<Rightarrow> bool" where
  "no_pressure v \<longleftrightarrow> MetricValues_PSICPUSomeAvg10 v = None \<and> MetricValues_PSICPUSomeAvg60 v = None \<and> MetricValues_PSICPUSomeAvg300 v = None \<and>
     MetricValues_PSICPUSomeTotal v = None \<and> MetricValues_PSICPUFullAvg10 v = None \<and> MetricValues_PSICPUFullAvg60 v = None \<and>
     MetricValues_PSICPUFullAvg300 v = None \<and> MetricValues_PSICPUFullTotal v = None \<and> MetricValues_PSIMemSomeAvg10 v = None \<and>
     MetricValues_PSIMemSomeAvg60 v = None \<and> MetricValues_PSIMemSomeAvg300 v = None \<and> MetricValues_PSIMemSomeTotal v = None \<and>
     MetricValues_PSIMemFullAvg10 v = None \<and> MetricValues_PSIMemFullAvg60 v = None \<and> MetricValues_PSIMemFullAvg300 v = None \<and>
     MetricValues_PSIMemFullTotal v = None \<and> MetricValues_PSIIOSomeAvg10 v = None \<and> MetricValues_PSIIOSomeAvg60 v = None \<and>
     MetricValues_PSIIOSomeAvg300 v = None \<and> MetricValues_PSIIOSomeTotal v = None \<and> MetricValues_PSIIOFullAvg10 v = None \<and>
     MetricValues_PSIIOFullAvg60 v = None \<and> MetricValues_PSIIOFullAvg300 v = None \<and> MetricValues_PSIIOFullTotal v = None"

lemma read_cpu_some:
  assumes "no_pressure v" "totals_ok (resource_of p Pressure_CPU)"
  defines "w \<equiv> applyPressureSnapshot v p"
  shows "pressureStatsFromSnapshot (MetricValues_PSICPUSomeAvg10 w) (MetricValues_PSICPUSomeAvg60 w) (MetricValues_PSICPUSomeAvg300 w) (MetricValues_PSICPUSomeTotal w)
     = Option.bind (resource_of p Pressure_CPU) PressureResource_Some"
  using assms by (auto simp: apply_normal set_resource_def psi_setters no_pressure_def totals_ok_def split: option.split)

lemma read_cpu_full:
  assumes "no_pressure v" "totals_ok (resource_of p Pressure_CPU)"
  defines "w \<equiv> applyPressureSnapshot v p"
  shows "pressureStatsFromSnapshot (MetricValues_PSICPUFullAvg10 w) (MetricValues_PSICPUFullAvg60 w) (MetricValues_PSICPUFullAvg300 w) (MetricValues_PSICPUFullTotal w)
     = Option.bind (resource_of p Pressure_CPU) PressureResource_Full"
  using assms by (auto simp: apply_normal set_resource_def psi_setters no_pressure_def totals_ok_def split: option.split)

lemma read_memory_some:
  assumes "no_pressure v" "totals_ok (resource_of p Pressure_Memory)"
  defines "w \<equiv> applyPressureSnapshot v p"
  shows "pressureStatsFromSnapshot (MetricValues_PSIMemSomeAvg10 w) (MetricValues_PSIMemSomeAvg60 w) (MetricValues_PSIMemSomeAvg300 w) (MetricValues_PSIMemSomeTotal w)
     = Option.bind (resource_of p Pressure_Memory) PressureResource_Some"
  using assms by (auto simp: apply_normal set_resource_def psi_setters no_pressure_def totals_ok_def split: option.split)

lemma read_memory_full:
  assumes "no_pressure v" "totals_ok (resource_of p Pressure_Memory)"
  defines "w \<equiv> applyPressureSnapshot v p"
  shows "pressureStatsFromSnapshot (MetricValues_PSIMemFullAvg10 w) (MetricValues_PSIMemFullAvg60 w) (MetricValues_PSIMemFullAvg300 w) (MetricValues_PSIMemFullTotal w)
     = Option.bind (resource_of p Pressure_Memory) PressureResource_Full"
  using assms by (auto simp: apply_normal set_resource_def psi_setters no_pressure_def totals_ok_def split: option.split)

lemma read_io_some:
  assumes "no_pressure v" "totals_ok (resource_of p Pressure_IO)"
  defines "w \<equiv> applyPressureSnapshot v p"
  shows "pressureStatsFromSnapshot (MetricValues_PSIIOSomeAvg10 w) (MetricValues_PSIIOSomeAvg60 w) (MetricValues_PSIIOSomeAvg300 w) (MetricValues_PSIIOSomeTotal w)
     = Option.bind (resource_of p Pressure_IO) PressureResource_Some"
  using assms by (auto simp: apply_normal set_resource_def psi_setters no_pressure_def totals_ok_def split: option.split)

lemma read_io_full:
  assumes "no_pressure v" "totals_ok (resource_of p Pressure_IO)"
  defines "w \<equiv> applyPressureSnapshot v p"
  shows "pressureStatsFromSnapshot (MetricValues_PSIIOFullAvg10 w) (MetricValues_PSIIOFullAvg60 w) (MetricValues_PSIIOFullAvg300 w) (MetricValues_PSIIOFullTotal w)
     = Option.bind (resource_of p Pressure_IO) PressureResource_Full"
  using assms by (auto simp: apply_normal set_resource_def psi_setters no_pressure_def totals_ok_def split: option.split)

lemma pressure_roundtrip:
  assumes "no_pressure v" "totals_ok (resource_of p Pressure_CPU)" "totals_ok (resource_of p Pressure_Memory)" "totals_ok (resource_of p Pressure_IO)"
  shows "pressureFromSnapshot (applyPressureSnapshot v p) = normalizePressure p"
proof -
  note reads = read_cpu_some [OF assms(1,2)] read_cpu_full [OF assms(1,2)] read_memory_some [OF assms(1,3)] read_memory_full [OF assms(1,3)]
    read_io_some [OF assms(1,4)] read_io_full [OF assms(1,4)]
  have "pressureFromSnapshot (applyPressureSnapshot v p) = normalizePressure (Some \<lparr>Pressure_CPU = resource_of p Pressure_CPU,
     Pressure_Memory = resource_of p Pressure_Memory, Pressure_IO = resource_of p Pressure_IO\<rparr>)"
    unfolding pressureFromSnapshot_def reads
    by (simp add: resource_of_def read_resource)
  also have "\<dots> = normalizePressure p"
    by (cases p) (auto simp: normalizePressure_def resource_of_def Let_def normalizePressureResource_def split: option.splits)
  finally show ?thesis .
qed

subsection \<open>Facts about documents\<close>

lemma keep_temp_idem [simp]: "keep_temp (keep_temp v) = keep_temp v"
  by (simp add: keep_temp_def invalidTempC_def)

lemma normalize_sensor_idem [simp]: "normalize_sensor (normalize_sensor s) = normalize_sensor s"
  by (simp add: normalize_sensor_def)

lemma normalizeThermal_idem [simp]: "normalizeThermal (normalizeThermal t) = normalizeThermal t"
proof (cases t)
  case (Some x)
  define ys where "ys = map normalize_sensor (slice (Thermal_Sensors x))"
  have "map normalize_sensor (filter P ys) = filter P ys" for P
    by (rule map_idI) (auto simp: ys_def)
  with Some show ?thesis by (simp add: normalizeThermal_def flip: ys_def)
qed (simp add: normalizeThermal_def)

lemma json_text_id: "valid_text s \<Longrightarrow> json_text s = s"
  by (simp add: valid_text_def)

lemma marshal_raid_id:
  assumes "list_all valid_text (raid_text r)"
  shows "marshal_raid r = r"
proof -
  have arr: "json_array a = a" if a: "list_all valid_text (array_text a)" for a
  proof -
    have "json_member x = x" if "x \<in> set (slice (RaidArray_Members a))" for x
      using a that by (cases x) (auto simp: array_text_def json_member_def json_text_id list_all_iff)
    then have "map_option (map json_member) (RaidArray_Members a) = RaidArray_Members a"
      by (cases "RaidArray_Members a") (auto intro: map_idI)
    with a show ?thesis by (simp add: json_array_def array_text_def json_text_id)
  qed
  have "json_array a = a" if "a \<in> set (slice (RaidMetrics_Arrays r))" for a
    by (rule arr) (use assms that in \<open>auto simp: raid_text_def list_all_iff\<close>)
  then have "map_option (map json_array) (RaidMetrics_Arrays r) = RaidMetrics_Arrays r"
    by (cases "RaidMetrics_Arrays r") (auto intro: map_idI)
  then show ?thesis by (simp add: marshal_raid_def)
qed

lemma marshal_thermal_id:
  assumes "marshal_thermal t = Some d" "list_all valid_text (thermal_text t)"
  shows "d = t"
proof -
  have "json_sensor s = s" if "s \<in> set (slice (Thermal_Sensors t))" for s
    using assms(2) that by (auto simp: thermal_text_def sensor_text_def json_sensor_def json_text_id list_all_iff)
  then have "map_option (map json_sensor) (Thermal_Sensors t) = Thermal_Sensors t"
    by (cases "Thermal_Sensors t") (auto intro: map_idI)
  with assms show ?thesis by (auto simp: marshal_thermal_def thermal_text_def json_text_id split: if_splits)
qed

subsection \<open>Facts about sums\<close>

text \<open>The counters of an interface are \<open>int64\<close> values.\<close>

definition net_typed :: "NetIOMetrics list \<Rightarrow> bool" where
  "net_typed xs \<longleftrightarrow> list_all (\<lambda>x. is_i64 (NetIOMetrics_BytesRecv x) \<and> is_i64 (NetIOMetrics_BytesSent x)) xs"

lemma add_checked:
  assumes "\<not> x < 0" "is_i64 x" "0 \<le> a" "\<not> a > wrap64 (max_i64 - x)"
  shows "wrap64 (a + x) = a + x \<and> 0 \<le> a + x \<and> a + x \<le> max_i64"
proof -
  have "wrap64 (max_i64 - x) = max_i64 - x" by (rule wrap64_id) (use assms in \<open>auto simp: is_i64_def max_i64_def min_i64_def\<close>)
  with assms have "0 \<le> a + x" "a + x \<le> max_i64" by auto
  then show ?thesis by (auto intro!: wrap64_id simp: is_i64_def min_i64_def)
qed

lemma aggregate_sums:
  assumes "aggregate_from acc xs = Inr res" "net_typed xs" "0 \<le> net_in acc" "0 \<le> net_out acc" "net_in acc \<le> max_i64" "net_out acc \<le> max_i64"
  shows "net_in res = net_in acc + (\<Sum>x\<leftarrow>xs. NetIOMetrics_BytesRecv x) \<and> net_out res = net_out acc + (\<Sum>x\<leftarrow>xs. NetIOMetrics_BytesSent x) \<and>
     net_in res \<le> max_i64 \<and> net_out res \<le> max_i64"
  using assms
proof (induction xs arbitrary: acc)
  case (Cons x xs)
  from Cons.prems obtain acc1 where step: "aggregate_from acc1 xs = Inr res"
    and s1: "net_in acc1 = wrap64 (net_in acc + NetIOMetrics_BytesRecv x)" "net_out acc1 = wrap64 (net_out acc + NetIOMetrics_BytesSent x)"
    and ok: "\<not> NetIOMetrics_BytesRecv x < 0" "\<not> NetIOMetrics_BytesSent x < 0" "\<not> net_in acc > wrap64 (max_i64 - NetIOMetrics_BytesRecv x)"
      "\<not> net_out acc > wrap64 (max_i64 - NetIOMetrics_BytesSent x)"
    by (fastforce simp: Let_def split: if_splits)
  have "is_i64 (NetIOMetrics_BytesRecv x)" "is_i64 (NetIOMetrics_BytesSent x)" "net_typed xs" using Cons.prems(2) by (auto simp: net_typed_def)
  with ok Cons.prems s1 add_checked [of "NetIOMetrics_BytesRecv x" "net_in acc"] add_checked [of "NetIOMetrics_BytesSent x" "net_out acc"]
    Cons.IH [OF step] show ?case by simp
qed simp

lemma network_sums:
  assumes "aggregateNetwork xs = Inr res" "net_typed xs"
  shows "net_in res = (\<Sum>x\<leftarrow>xs. NetIOMetrics_BytesRecv x) \<and> net_out res = (\<Sum>x\<leftarrow>xs. NetIOMetrics_BytesSent x) \<and>
     net_in res \<le> max_i64 \<and> net_out res \<le> max_i64"
  using aggregate_sums [OF assms(1) [unfolded aggregateNetwork_def] assms(2)] by (simp add: max_i64_def)

subsection \<open>Reading a snapshot back\<close>

lemma ToSnapshot_cases:
  assumes "ToSnapshot m = Inr snap"
  obtains thermalDoc net where "aggregateNetwork (slice (Metrics_Network m)) = Inr net"
    "snap = \<lparr>MetricsSnapshot_Values = applyPressureSnapshot (snapshot_values m net) (Metrics_Pressure m),
       MetricsSnapshot_Runtime = \<lparr>MetricRuntime_Raid = Document (marshal_raid (Metrics_Raid m)), MetricRuntime_Thermal = thermalDoc\<rparr>\<rparr>"
    "case normalizeThermal (Metrics_Thermal m) of None \<Rightarrow> thermalDoc = NoDocument | Some t \<Rightarrow> \<exists>d. marshal_thermal t = Some d \<and> thermalDoc = Document d"
  using assms by (auto simp: ToSnapshot_def split: sum.splits option.splits)

lemma normal_thermal_text: "normalizeThermal (Some t) = Some u \<Longrightarrow> set (thermal_text u) \<subseteq> set (thermal_text t)"
proof -
  have [simp]: "sensor_text (normalize_sensor s) = sensor_text s" for s by (simp add: sensor_text_def normalize_sensor_def)
  show "normalizeThermal (Some t) = Some u \<Longrightarrow> set (thermal_text u) \<subseteq> set (thermal_text t)"
    by (auto simp: normalizeThermal_def thermal_text_def)
qed

lemma valid_totals: "validatePressureResource path r = None \<Longrightarrow> totals_ok (normalizePressureResource r)"
  by (rule totals_ok_normal)
    (auto simp: validatePressureResource_def totals_ok_def validPressureStats_def split: option.splits)

text \<open>Setting the pressure columns keeps the others.\<close>

lemma no_pressure_values: "no_pressure (snapshot_values m net)"
  by (simp add: no_pressure_def snapshot_values_def)

definition drop_pressure :: "MetricValues \<Rightarrow> MetricValues" where
  "drop_pressure v = v\<lparr>MetricValues_PSICPUSomeAvg10 := None, MetricValues_PSICPUSomeAvg60 := None, MetricValues_PSICPUSomeAvg300 := None,
     MetricValues_PSICPUSomeTotal := None, MetricValues_PSICPUFullAvg10 := None, MetricValues_PSICPUFullAvg60 := None,
     MetricValues_PSICPUFullAvg300 := None, MetricValues_PSICPUFullTotal := None, MetricValues_PSIMemSomeAvg10 := None,
     MetricValues_PSIMemSomeAvg60 := None, MetricValues_PSIMemSomeAvg300 := None, MetricValues_PSIMemSomeTotal := None,
     MetricValues_PSIMemFullAvg10 := None, MetricValues_PSIMemFullAvg60 := None, MetricValues_PSIMemFullAvg300 := None,
     MetricValues_PSIMemFullTotal := None, MetricValues_PSIIOSomeAvg10 := None, MetricValues_PSIIOSomeAvg60 := None,
     MetricValues_PSIIOSomeAvg300 := None, MetricValues_PSIIOSomeTotal := None, MetricValues_PSIIOFullAvg10 := None,
     MetricValues_PSIIOFullAvg60 := None, MetricValues_PSIIOFullAvg300 := None, MetricValues_PSIIOFullTotal := None\<rparr>"

lemma drop_setters:
  "drop_pressure (set_cpu_some st v) = drop_pressure v"
  "drop_pressure (set_cpu_full st v) = drop_pressure v"
  "drop_pressure (set_memory_some st v) = drop_pressure v"
  "drop_pressure (set_memory_full st v) = drop_pressure v"
  "drop_pressure (set_io_some st v) = drop_pressure v"
  "drop_pressure (set_io_full st v) = drop_pressure v"
  by (simp_all add: psi_setters drop_pressure_def split: option.split)

lemma drop_apply: "drop_pressure (applyPressureSnapshot v p) = drop_pressure v"
  by (simp add: apply_normal set_resource_def drop_setters split: option.split)

lemma drop_keeps:
  "MetricValues_CPUUsageRatio (drop_pressure v) = MetricValues_CPUUsageRatio v" "MetricValues_Load1 (drop_pressure v) = MetricValues_Load1 v"
  "MetricValues_Load5 (drop_pressure v) = MetricValues_Load5 v" "MetricValues_Load15 (drop_pressure v) = MetricValues_Load15 v"
  "MetricValues_CPUUser (drop_pressure v) = MetricValues_CPUUser v" "MetricValues_CPUSystem (drop_pressure v) = MetricValues_CPUSystem v"
  "MetricValues_CPUIdle (drop_pressure v) = MetricValues_CPUIdle v" "MetricValues_CPUIowait (drop_pressure v) = MetricValues_CPUIowait v"
  "MetricValues_CPUSteal (drop_pressure v) = MetricValues_CPUSteal v" "MetricValues_CPUTempC (drop_pressure v) = MetricValues_CPUTempC v"
  "MetricValues_MemTotal (drop_pressure v) = MetricValues_MemTotal v" "MetricValues_MemUsed (drop_pressure v) = MetricValues_MemUsed v"
  "MetricValues_MemAvailable (drop_pressure v) = MetricValues_MemAvailable v" "MetricValues_MemBuffers (drop_pressure v) = MetricValues_MemBuffers v"
  "MetricValues_MemCached (drop_pressure v) = MetricValues_MemCached v" "MetricValues_MemUsedRatio (drop_pressure v) = MetricValues_MemUsedRatio v"
  "MetricValues_SwapTotal (drop_pressure v) = MetricValues_SwapTotal v" "MetricValues_SwapUsed (drop_pressure v) = MetricValues_SwapUsed v"
  "MetricValues_SwapFree (drop_pressure v) = MetricValues_SwapFree v" "MetricValues_SwapUsedRatio (drop_pressure v) = MetricValues_SwapUsedRatio v"
  "MetricValues_NetInBytes (drop_pressure v) = MetricValues_NetInBytes v" "MetricValues_NetOutBytes (drop_pressure v) = MetricValues_NetOutBytes v"
  "MetricValues_NetInBps (drop_pressure v) = MetricValues_NetInBps v" "MetricValues_NetOutBps (drop_pressure v) = MetricValues_NetOutBps v"
  "MetricValues_ProcessCount (drop_pressure v) = MetricValues_ProcessCount v" "MetricValues_TCPConn (drop_pressure v) = MetricValues_TCPConn v"
  "MetricValues_UDPConn (drop_pressure v) = MetricValues_UDPConn v" "MetricValues_UptimeSeconds (drop_pressure v) = MetricValues_UptimeSeconds v"
  "MetricValues_RaidSupported (drop_pressure v) = MetricValues_RaidSupported v" "MetricValues_RaidAvailable (drop_pressure v) = MetricValues_RaidAvailable v"
  "MetricValues_RaidOverallHealth (drop_pressure v) = MetricValues_RaidOverallHealth v"
  by (simp_all add: drop_pressure_def)

lemma apply_pressure_keeps:
  "MetricValues_CPUUsageRatio (applyPressureSnapshot v p) = MetricValues_CPUUsageRatio v" "MetricValues_Load1 (applyPressureSnapshot v p) = MetricValues_Load1 v"
  "MetricValues_Load5 (applyPressureSnapshot v p) = MetricValues_Load5 v" "MetricValues_Load15 (applyPressureSnapshot v p) = MetricValues_Load15 v"
  "MetricValues_CPUUser (applyPressureSnapshot v p) = MetricValues_CPUUser v" "MetricValues_CPUSystem (applyPressureSnapshot v p) = MetricValues_CPUSystem v"
  "MetricValues_CPUIdle (applyPressureSnapshot v p) = MetricValues_CPUIdle v" "MetricValues_CPUIowait (applyPressureSnapshot v p) = MetricValues_CPUIowait v"
  "MetricValues_CPUSteal (applyPressureSnapshot v p) = MetricValues_CPUSteal v" "MetricValues_CPUTempC (applyPressureSnapshot v p) = MetricValues_CPUTempC v"
  "MetricValues_MemTotal (applyPressureSnapshot v p) = MetricValues_MemTotal v" "MetricValues_MemUsed (applyPressureSnapshot v p) = MetricValues_MemUsed v"
  "MetricValues_MemAvailable (applyPressureSnapshot v p) = MetricValues_MemAvailable v" "MetricValues_MemBuffers (applyPressureSnapshot v p) = MetricValues_MemBuffers v"
  "MetricValues_MemCached (applyPressureSnapshot v p) = MetricValues_MemCached v" "MetricValues_MemUsedRatio (applyPressureSnapshot v p) = MetricValues_MemUsedRatio v"
  "MetricValues_SwapTotal (applyPressureSnapshot v p) = MetricValues_SwapTotal v" "MetricValues_SwapUsed (applyPressureSnapshot v p) = MetricValues_SwapUsed v"
  "MetricValues_SwapFree (applyPressureSnapshot v p) = MetricValues_SwapFree v" "MetricValues_SwapUsedRatio (applyPressureSnapshot v p) = MetricValues_SwapUsedRatio v"
  "MetricValues_NetInBytes (applyPressureSnapshot v p) = MetricValues_NetInBytes v" "MetricValues_NetOutBytes (applyPressureSnapshot v p) = MetricValues_NetOutBytes v"
  "MetricValues_NetInBps (applyPressureSnapshot v p) = MetricValues_NetInBps v" "MetricValues_NetOutBps (applyPressureSnapshot v p) = MetricValues_NetOutBps v"
  "MetricValues_ProcessCount (applyPressureSnapshot v p) = MetricValues_ProcessCount v" "MetricValues_TCPConn (applyPressureSnapshot v p) = MetricValues_TCPConn v"
  "MetricValues_UDPConn (applyPressureSnapshot v p) = MetricValues_UDPConn v" "MetricValues_UptimeSeconds (applyPressureSnapshot v p) = MetricValues_UptimeSeconds v"
  "MetricValues_RaidSupported (applyPressureSnapshot v p) = MetricValues_RaidSupported v" "MetricValues_RaidAvailable (applyPressureSnapshot v p) = MetricValues_RaidAvailable v"
  "MetricValues_RaidOverallHealth (applyPressureSnapshot v p) = MetricValues_RaidOverallHealth v"
  by (metis drop_keeps drop_apply)+

definition thermal_valid :: "Thermal option \<Rightarrow> bool" where
  "thermal_valid t \<longleftrightarrow> (case t of None \<Rightarrow> True | Some x \<Rightarrow> list_all valid_text (thermal_text x))"

definition pressure_valid :: "Pressure option \<Rightarrow> bool" where
  "pressure_valid p \<longleftrightarrow> (case p of None \<Rightarrow> True | Some x \<Rightarrow> validatePressure x = None)"

lemma pressure_totals:
  assumes "pressure_valid p"
  shows "totals_ok (resource_of p Pressure_CPU)" "totals_ok (resource_of p Pressure_Memory)" "totals_ok (resource_of p Pressure_IO)"
  using assms by (auto simp: pressure_valid_def validatePressure_def resource_of_def intro: valid_totals split: option.splits)
    (simp_all add: totals_ok_def normalizePressureResource_def)

lemma record_eta [simp]:
  "\<lparr>CPUTimes_User = CPUTimes_User t, CPUTimes_System = CPUTimes_System t, CPUTimes_Idle = CPUTimes_Idle t,
    CPUTimes_Iowait = CPUTimes_Iowait t, CPUTimes_Steal = CPUTimes_Steal t\<rparr> = t"
  "\<lparr>CPUMetrics_UsageRatio = CPUMetrics_UsageRatio c, CPUMetrics_Load1 = CPUMetrics_Load1 c, CPUMetrics_Load5 = CPUMetrics_Load5 c,
    CPUMetrics_Load15 = CPUMetrics_Load15 c, CPUMetrics_Times = CPUMetrics_Times c\<rparr> = c"
  "\<lparr>MemoryMetrics_Total = MemoryMetrics_Total m, MemoryMetrics_Used = MemoryMetrics_Used m,
    MemoryMetrics_Available = MemoryMetrics_Available m, MemoryMetrics_Buffers = MemoryMetrics_Buffers m,
    MemoryMetrics_Cached = MemoryMetrics_Cached m, MemoryMetrics_UsedRatio = MemoryMetrics_UsedRatio m,
    MemoryMetrics_SwapTotal = MemoryMetrics_SwapTotal m, MemoryMetrics_SwapUsed = MemoryMetrics_SwapUsed m,
    MemoryMetrics_SwapFree = MemoryMetrics_SwapFree m, MemoryMetrics_SwapUsedRatio = MemoryMetrics_SwapUsedRatio m\<rparr> = m"
  "\<lparr>ProcessMetrics_ProcessCount = ProcessMetrics_ProcessCount p\<rparr> = p"
  "\<lparr>ConnectionMetrics_TCPCount = ConnectionMetrics_TCPCount n, ConnectionMetrics_UDPCount = ConnectionMetrics_UDPCount n\<rparr> = n"
  by simp_all

lemma snapshot_value_of:
  "MetricValues_CPUUsageRatio (snapshot_values m net) = CPUMetrics_UsageRatio (Metrics_CPU m)" "MetricValues_Load1 (snapshot_values m net) = CPUMetrics_Load1 (Metrics_CPU m)"
  "MetricValues_Load5 (snapshot_values m net) = CPUMetrics_Load5 (Metrics_CPU m)" "MetricValues_Load15 (snapshot_values m net) = CPUMetrics_Load15 (Metrics_CPU m)"
  "MetricValues_CPUUser (snapshot_values m net) = CPUTimes_User (CPUMetrics_Times (Metrics_CPU m))" "MetricValues_CPUSystem (snapshot_values m net) = CPUTimes_System (CPUMetrics_Times (Metrics_CPU m))"
  "MetricValues_CPUIdle (snapshot_values m net) = CPUTimes_Idle (CPUMetrics_Times (Metrics_CPU m))" "MetricValues_CPUIowait (snapshot_values m net) = CPUTimes_Iowait (CPUMetrics_Times (Metrics_CPU m))"
  "MetricValues_CPUSteal (snapshot_values m net) = CPUTimes_Steal (CPUMetrics_Times (Metrics_CPU m))" "MetricValues_MemTotal (snapshot_values m net) = MemoryMetrics_Total (Metrics_Memory m)"
  "MetricValues_MemUsed (snapshot_values m net) = MemoryMetrics_Used (Metrics_Memory m)" "MetricValues_MemAvailable (snapshot_values m net) = MemoryMetrics_Available (Metrics_Memory m)"
  "MetricValues_MemBuffers (snapshot_values m net) = MemoryMetrics_Buffers (Metrics_Memory m)" "MetricValues_MemCached (snapshot_values m net) = MemoryMetrics_Cached (Metrics_Memory m)"
  "MetricValues_MemUsedRatio (snapshot_values m net) = MemoryMetrics_UsedRatio (Metrics_Memory m)" "MetricValues_SwapTotal (snapshot_values m net) = MemoryMetrics_SwapTotal (Metrics_Memory m)"
  "MetricValues_SwapUsed (snapshot_values m net) = MemoryMetrics_SwapUsed (Metrics_Memory m)" "MetricValues_SwapFree (snapshot_values m net) = MemoryMetrics_SwapFree (Metrics_Memory m)"
  "MetricValues_SwapUsedRatio (snapshot_values m net) = MemoryMetrics_SwapUsedRatio (Metrics_Memory m)" "MetricValues_ProcessCount (snapshot_values m net) = ProcessMetrics_ProcessCount (Metrics_Processes m)"
  "MetricValues_TCPConn (snapshot_values m net) = ConnectionMetrics_TCPCount (Metrics_Connections m)" "MetricValues_UDPConn (snapshot_values m net) = ConnectionMetrics_UDPCount (Metrics_Connections m)"
  "MetricValues_UptimeSeconds (snapshot_values m net) = SystemMetrics_UptimeSeconds (Metrics_System m)" "MetricValues_NetInBytes (snapshot_values m net) = net_in net"
  "MetricValues_NetOutBytes (snapshot_values m net) = net_out net" "MetricValues_NetInBps (snapshot_values m net) = net_in_bps net"
  "MetricValues_NetOutBps (snapshot_values m net) = net_out_bps net" "MetricValues_RaidOverallHealth (snapshot_values m net) = raidOverallHealth (Metrics_Raid m)"
  by (simp_all add: snapshot_values_def Let_def)

lemma snapshot_reads_back:
  assumes snap: "ToSnapshot m = Inr snap" and strings: "list_all valid_text (raid_text (Metrics_Raid m))" "thermal_valid (Metrics_Thermal m)"
    and pressure: "pressure_valid (Metrics_Pressure m)"
  shows "metricsFromSnapshot snap = Inr (m\<lparr>Metrics_Disk := zero_DiskMetrics, Metrics_Network := None,
    Metrics_System := \<lparr>SystemMetrics_Alive = True, SystemMetrics_UptimeSeconds = SystemMetrics_UptimeSeconds (Metrics_System m),
      SystemMetrics_Uptime = formatUptime (SystemMetrics_UptimeSeconds (Metrics_System m))\<rparr>,
    Metrics_Thermal := normalizeThermal (Metrics_Thermal m), Metrics_Pressure := normalizePressure (Metrics_Pressure m)\<rparr>)"
proof -
  obtain doc net where s: "snap = \<lparr>MetricsSnapshot_Values = applyPressureSnapshot (snapshot_values m net) (Metrics_Pressure m),
       MetricsSnapshot_Runtime = \<lparr>MetricRuntime_Raid = Document (marshal_raid (Metrics_Raid m)), MetricRuntime_Thermal = doc\<rparr>\<rparr>"
    and doc: "case normalizeThermal (Metrics_Thermal m) of None \<Rightarrow> doc = NoDocument | Some t \<Rightarrow> \<exists>d. marshal_thermal t = Some d \<and> doc = Document d"
    using snap by (rule ToSnapshot_cases)
  have d: "doc = (case normalizeThermal (Metrics_Thermal m) of None \<Rightarrow> NoDocument | Some t \<Rightarrow> Document t)"
  proof (cases "normalizeThermal (Metrics_Thermal m)")
    case (Some u)
    then obtain t where t: "Metrics_Thermal m = Some t" by (cases "Metrics_Thermal m") (auto simp: normalizeThermal_def)
    have "list_all valid_text (thermal_text u)"
      using normal_thermal_text [of t u] Some strings(2) t by (auto simp: thermal_valid_def list_all_iff)
    with doc Some marshal_thermal_id show ?thesis by auto
  qed (use doc in auto)
  have thermal: "(case doc of Document t \<Rightarrow> normalizeThermal (Some t) | _ \<Rightarrow> None) = normalizeThermal (Metrics_Thermal m)"
  proof (cases "normalizeThermal (Metrics_Thermal m)")
    case (Some u)
    then have "normalizeThermal (Some u) = Some u" using normalizeThermal_idem [of "Metrics_Thermal m"] by metis
    with Some show ?thesis by (simp add: d)
  qed (simp add: d)
  have "doc \<noteq> BadDocument" by (simp add: d split: option.split)
  with thermal show ?thesis
    by (cases doc) (auto intro!: Metrics.equality simp: s metricsFromSnapshot_def apply_pressure_keeps snapshot_value_of
        pressure_roundtrip [OF no_pressure_values pressure_totals [OF pressure]] marshal_raid_id [OF strings(1)] Let_def)
qed

end
