(* ===== verification/Metric_View.thy ===== *)
theory Metric_View
  imports Metric_Snapshot "HOL-Library.Char_ord" "HOL-Library.List_Lexorder" "HOL-Library.Product_Lexorder"
begin

text \<open>
  The view of a node that the front end shows and the alert engine evaluates: the functions of
  \<open>internal/metrics/front_dto.go\<close>. Sums of counters wrap at 64 bits as the source adds them; what
  \<open>ValidateReport\<close> accepts and \<open>ToSnapshot\<close> converts never does.
\<close>

definition DurationSecondsCeil :: "int \<Rightarrow> int" where
  "DurationSecondsCeil d = (if d \<le> 0 then 0 else f64_to_int (f64_ceil (duration_seconds d)))"

definition buildSearchText :: "string list \<Rightarrow> string list" where
  "buildSearchText candidates = clean_items [] candidates"

definition normalizeOSFamily :: "string \<Rightarrow> string" where
  "normalizeOSFamily rawOS =
     (let normalized = go_lower (trim_space rawOS)
      in if str_contains normalized ''windows'' then ''windows''
         else if str_contains normalized ''linux'' then ''linux''
         else if str_contains normalized ''darwin'' \<or> str_contains normalized ''mac'' then ''darwin''
         else ''unknown'')"

definition resolveMountpoint :: "string \<Rightarrow> string \<Rightarrow> string" where
  "resolveMountpoint mountpoint path = (if \<not> blank mountpoint then trim_space mountpoint else trim_space path)"

definition mountpointFSType :: "DiskLogicalMetrics \<Rightarrow> string \<Rightarrow> string" where
  "mountpointFSType item mountpoint =
     (if mountpoint = [] \<or> DiskLogicalMetrics_Mountpoints item = [] then []
      else case map_of (DiskLogicalMetrics_Mountpoints item) mountpoint of
          None \<Rightarrow> [] | Some mp \<Rightarrow> trim_space (DiskMountpointMetrics_FSType mp))"

definition logical_total :: "DiskLogicalMetrics \<Rightarrow> int" where
  "logical_total item = (if DiskLogicalMetrics_Total item = 0 then wrap64 (DiskLogicalMetrics_Used item + DiskLogicalMetrics_Free item)
     else DiskLogicalMetrics_Total item)"

definition disk_mount :: "DiskLogicalMetrics \<Rightarrow> DiskMount option" where
  "disk_mount logical =
     (let selectedMount = trim_space (DiskLogicalMetrics_Mountpoint logical);
          label = resolveMountpoint selectedMount (DiskLogicalMetrics_Ref logical);
          label = (if label = [] then trim_space (DiskLogicalMetrics_Name logical) else label)
      in if label = [] then None
         else Some \<lparr>DiskMount_Mountpoint = label, DiskMount_FSType = mountpointFSType logical selectedMount,
           DiskMount_TotalBytes = logical_total logical, DiskMount_UsedBytes = DiskLogicalMetrics_Used logical,
           DiskMount_UsedRatio = DiskLogicalMetrics_UsedRatio logical\<rparr>)"

definition mount_order :: "DiskMount \<Rightarrow> int \<times> string" where
  "mount_order m = (- DiskMount_TotalBytes m, DiskMount_Mountpoint m)"

definition io_total :: "DiskBaseIOMetrics \<Rightarrow> IOTotal" where
  "io_total x = \<lparr>IOTotal_ReadBPS = DiskBaseIOMetrics_ReadRateBytesPerSec x, IOTotal_WriteBPS = DiskBaseIOMetrics_WriteRateBytesPerSec x,
     IOTotal_ReadIOPS = DiskBaseIOMetrics_ReadIOPS x, IOTotal_WriteIOPS = DiskBaseIOMetrics_WriteIOPS x,
     IOTotal_IOPS = (if f64_eq (DiskBaseIOMetrics_IOPS x) f0 then f64_add (DiskBaseIOMetrics_ReadIOPS x) (DiskBaseIOMetrics_WriteIOPS x)
       else DiskBaseIOMetrics_IOPS x)\<rparr>"

definition io_device :: "DiskBaseIOMetrics \<Rightarrow> string" where
  "io_device x = (let ref = trim_space (DiskBaseIOMetrics_Ref x) in if ref = [] then trim_space (DiskBaseIOMetrics_Name x) else ref)"

definition add_io :: "IOTotal \<Rightarrow> IOTotal \<Rightarrow> IOTotal" where
  "add_io t x = \<lparr>IOTotal_ReadBPS = f64_add (IOTotal_ReadBPS t) (IOTotal_ReadBPS x), IOTotal_WriteBPS = f64_add (IOTotal_WriteBPS t) (IOTotal_WriteBPS x),
     IOTotal_ReadIOPS = f64_add (IOTotal_ReadIOPS t) (IOTotal_ReadIOPS x), IOTotal_WriteIOPS = f64_add (IOTotal_WriteIOPS t) (IOTotal_WriteIOPS x),
     IOTotal_IOPS = f64_add (IOTotal_IOPS t) (IOTotal_IOPS x)\<rparr>"

definition add_device :: "IOTotal \<times> (string, IOTotal) gomap \<Rightarrow> DiskBaseIOMetrics \<Rightarrow> IOTotal \<times> (string, IOTotal) gomap" where
  "add_device acc x =
     (if DiskBaseIOMetrics_Role x = ''primary'' then add_io (fst acc) (io_total x) else fst acc,
      if io_device x \<noteq> [] then AList.update (io_device x) (io_total x) (snd acc) else snd acc)"

definition buildDisk :: "Metrics \<Rightarrow> Disk" where
  "buildDisk metric =
     (let disk = Metrics_Disk metric; io = foldl add_device (zero_IOTotal, []) (slice (DiskMetrics_BaseIO disk))
      in \<lparr>Disk_Mounts = sort_key mount_order (List.map_filter disk_mount (slice (DiskMetrics_Logical disk))),
          Disk_IO = \<lparr>DiskIO_Total = fst io, DiskIO_ByDevice = snd io\<rparr>,
          Disk_TemperatureDevices = SmartTemperatureDeviceNames (DiskMetrics_Smart disk),
          Disk_Smart = normalizeDiskSmart (DiskMetrics_Smart disk)\<rparr>)"

definition net_interface :: "NetIOMetrics \<Rightarrow> NetInterface" where
  "net_interface iface = \<lparr>NetInterface_Name = trim_space (NetIOMetrics_Name iface), NetInterface_BytesRecv = NetIOMetrics_BytesRecv iface,
     NetInterface_BytesSent = NetIOMetrics_BytesSent iface, NetInterface_RecvBPS = NetIOMetrics_RecvRateBytesPerSec iface,
     NetInterface_SentBPS = NetIOMetrics_SentRateBytesPerSec iface\<rparr>"

definition add_net :: "NetTotal \<Rightarrow> NetIOMetrics \<Rightarrow> NetTotal" where
  "add_net t iface = \<lparr>NetTotal_BytesRecv = wrap64 (NetTotal_BytesRecv t + NetIOMetrics_BytesRecv iface),
     NetTotal_BytesSent = wrap64 (NetTotal_BytesSent t + NetIOMetrics_BytesSent iface),
     NetTotal_RecvBPS = f64_add (NetTotal_RecvBPS t) (NetIOMetrics_RecvRateBytesPerSec iface),
     NetTotal_SentBPS = f64_add (NetTotal_SentBPS t) (NetIOMetrics_SentRateBytesPerSec iface)\<rparr>"

definition buildNetwork :: "NetIOMetrics list \<Rightarrow> Network" where
  "buildNetwork interfaces = \<lparr>Network_Total = foldl add_net zero_NetTotal interfaces,
     Network_ByInterface = map net_interface (filter (\<lambda>iface. \<not> blank (NetIOMetrics_Name iface)) interfaces)\<rparr>"

definition raid_view :: "RaidArray \<Rightarrow> RAIDArray" where
  "raid_view a = \<lparr>RAIDArray_Name = RaidArray_Name a, RAIDArray_Status = RaidArray_Status a, RAIDArray_Active = RaidArray_Active a,
     RAIDArray_Working = RaidArray_Working a, RAIDArray_Failed = RaidArray_Failed a, RAIDArray_Health = RaidArray_Health a,
     RAIDArray_Members = RaidArray_Members a, RAIDArray_SyncStatus = RaidArray_SyncStatus a, RAIDArray_SyncProgress = RaidArray_SyncProgress a\<rparr>"

definition positive_or :: "int \<Rightarrow> int option \<Rightarrow> int" where
  "positive_or reported stored = (case stored of None \<Rightarrow> reported | Some n \<Rightarrow> if reported = 0 \<and> n > 0 then n else reported)"

definition observation :: "location \<Rightarrow> NodeReport \<Rightarrow> int \<Rightarrow> Observation" where
  "observation loc report staleAfterSec =
     \<lparr>Observation_ReceivedAt = FormatTimestamp loc (NodeReport_Timestamp report),
      Observation_ObservedAt = (case ParseReportedAt (NodeReport_SentAt report) of
          None \<Rightarrow> FormatTimestamp loc (NodeReport_Timestamp report) | Some t \<Rightarrow> FormatTimestamp UTC t),
      Observation_SentAt = NodeReport_SentAt report, Observation_StaleAfterSec = staleAfterSec\<rparr>"

definition BuildNodeView :: "location \<Rightarrow> Server \<Rightarrow> NodeReport \<Rightarrow> int \<Rightarrow> NodeView" where
  "BuildNodeView loc server report staleAfterSec =
     (let m = NodeReport_Metrics report; tags = fst (ParseStored (Server_Tags server)); title = trim_space (Server_Name server);
          mem = Metrics_Memory m; raid = Metrics_Raid m
      in \<lparr>NodeView_Node = \<lparr>NodeMeta_ID = dec_int (Server_ID server), NodeMeta_Order = Server_DisplayOrder server, NodeMeta_Title = title,
              NodeMeta_SearchText = buildSearchText ([title, stringOrEmpty (Server_OS server), stringOrEmpty (Server_Platform server),
                stringOrEmpty (Server_Arch server)] @ tags), NodeMeta_Tags = tags\<rparr>,
          NodeView_Observation = observation loc report staleAfterSec,
          NodeView_System = \<lparr>System_OSFamily = normalizeOSFamily (stringOrEmpty (Server_OS server)), System_Platform = stringOrEmpty (Server_Platform server),
              System_PlatformVersion = stringOrEmpty (Server_PlatformVersion server), System_KernelVersion = stringOrEmpty (Server_KernelVersion server),
              System_Arch = stringOrEmpty (Server_Arch server), System_UptimeText = SystemMetrics_Uptime (Metrics_System m)\<rparr>,
          NodeView_CPU = \<lparr>CPU_UsageRatio = CPUMetrics_UsageRatio (Metrics_CPU m),
              CPU_Load = \<lparr>CPULoad_L1 = CPUMetrics_Load1 (Metrics_CPU m), CPULoad_L5 = CPUMetrics_Load5 (Metrics_CPU m), CPULoad_L15 = CPUMetrics_Load15 (Metrics_CPU m)\<rparr>,
              CPU_ModelName = trim_space (stringOrEmpty (Server_CPUModel server)),
              CPU_CoresPhysical = max 0 (int16OrZero (Server_CPUCoresPhys server)), CPU_CoresLogical = max 0 (int16OrZero (Server_CPUCoresLog server)),
              CPU_Sockets = (if int16OrZero (Server_CPUSockets server) \<le> 0 then 1 else int16OrZero (Server_CPUSockets server))\<rparr>,
          NodeView_Memory = \<lparr>Memory_TotalBytes = positive_or (MemoryMetrics_Total mem) (Server_MemTotal server), Memory_UsedBytes = MemoryMetrics_Used mem,
              Memory_AvailableBytes = MemoryMetrics_Available mem, Memory_BuffersBytes = MemoryMetrics_Buffers mem, Memory_CachedBytes = MemoryMetrics_Cached mem,
              Memory_UsedRatio = MemoryMetrics_UsedRatio mem, Memory_SwapTotalBytes = positive_or (MemoryMetrics_SwapTotal mem) (Server_SwapTotal server),
              Memory_SwapUsedBytes = MemoryMetrics_SwapUsed mem\<rparr>,
          NodeView_Disk = buildDisk m,
          NodeView_Network = buildNetwork (slice (Metrics_Network m)),
          NodeView_Processes = \<lparr>Processes_Count = ProcessMetrics_ProcessCount (Metrics_Processes m)\<rparr>,
          NodeView_Connections = \<lparr>Connections_TCP = ConnectionMetrics_TCPCount (Metrics_Connections m), Connections_UDP = ConnectionMetrics_UDPCount (Metrics_Connections m)\<rparr>,
          NodeView_Raid = (if RaidMetrics_Supported raid \<or> RaidMetrics_Available raid \<or> slice (RaidMetrics_Arrays raid) \<noteq> []
            then Some \<lparr>RAID_Supported = RaidMetrics_Supported raid, RAID_Available = RaidMetrics_Available raid,
                RAID_Arrays = map raid_view (slice (RaidMetrics_Arrays raid))\<rparr> else None),
          NodeView_Thermal = normalizeThermal (Metrics_Thermal m),
          NodeView_Pressure = normalizePressure (Metrics_Pressure m)\<rparr>)"

subsection \<open>Totals\<close>

definition net_total_of :: "net_sums \<Rightarrow> NetTotal" where
  "net_total_of acc = \<lparr>NetTotal_BytesRecv = net_in acc, NetTotal_BytesSent = net_out acc, NetTotal_RecvBPS = net_in_bps acc, NetTotal_SentBPS = net_out_bps acc\<rparr>"

lemma totals_follow: "aggregate_from acc xs = Inr res \<Longrightarrow> foldl add_net (net_total_of acc) xs = net_total_of res"
  by (induction acc xs rule: aggregate_from.induct) (auto simp: Let_def net_total_of_def add_net_def split: if_splits)

text \<open>
  The view and the stored row show the same network totals, and they are the exact sums of the
  counters of the interfaces.
\<close>

lemma network_totals_agree:
  assumes "ToSnapshot m = Inr snap" "net_typed (slice (Metrics_Network m))"
  defines "t \<equiv> Network_Total (buildNetwork (slice (Metrics_Network m)))" and "v \<equiv> MetricsSnapshot_Values snap"
  shows "MetricValues_NetInBytes v = (\<Sum>x\<leftarrow>slice (Metrics_Network m). NetIOMetrics_BytesRecv x)"
    "MetricValues_NetOutBytes v = (\<Sum>x\<leftarrow>slice (Metrics_Network m). NetIOMetrics_BytesSent x)"
    "NetTotal_BytesRecv t = MetricValues_NetInBytes v" "NetTotal_BytesSent t = MetricValues_NetOutBytes v"
    "NetTotal_RecvBPS t = MetricValues_NetInBps v" "NetTotal_SentBPS t = MetricValues_NetOutBps v"
proof -
  obtain doc net where a: "aggregateNetwork (slice (Metrics_Network m)) = Inr net"
    and s: "snap = \<lparr>MetricsSnapshot_Values = applyPressureSnapshot (snapshot_values m net) (Metrics_Pressure m),
       MetricsSnapshot_Runtime = \<lparr>MetricRuntime_Raid = Document (marshal_raid (Metrics_Raid m)), MetricRuntime_Thermal = doc\<rparr>\<rparr>"
    using assms(1) by (rule ToSnapshot_cases)
  have "zero_NetTotal = net_total_of \<lparr>net_in = 0, net_out = 0, net_in_bps = f0, net_out_bps = f0\<rparr>" by (simp add: zero_NetTotal_def net_total_of_def)
  with totals_follow [OF a [unfolded aggregateNetwork_def]] have "t = net_total_of net" by (simp add: t_def buildNetwork_def)
  then show "NetTotal_BytesRecv t = MetricValues_NetInBytes v" "NetTotal_BytesSent t = MetricValues_NetOutBytes v"
    "NetTotal_RecvBPS t = MetricValues_NetInBps v" "NetTotal_SentBPS t = MetricValues_NetOutBps v"
    by (simp_all add: v_def s net_total_of_def apply_pressure_keeps snapshot_value_of)
  from network_sums [OF a assms(2)] show "MetricValues_NetInBytes v = (\<Sum>x\<leftarrow>slice (Metrics_Network m). NetIOMetrics_BytesRecv x)"
    "MetricValues_NetOutBytes v = (\<Sum>x\<leftarrow>slice (Metrics_Network m). NetIOMetrics_BytesSent x)"
    by (simp_all add: v_def s apply_pressure_keeps snapshot_value_of)
qed

end
