(* ===== verification/Metric_Ingest.thy ===== *)
theory Metric_Ingest
  imports Metric_View Dirty_Queue
begin

text \<open>
  Storing a report: \<open>internal/store/metricdata/metrics_ingest.go\<close>, the tables of \<open>internal/model/metrics.go\<close> and the
  receiver of \<open>internal/nodeingest/metrics.go\<close>.

  A table is the list of its rows. \<open>Create\<close> fails, and with it the whole transaction, when a row breaks the
  primary key, when its text is longer than its column or cannot be stored at all (PostgreSQL refuses text that is not UTF-8
  or contains a zero byte), or when the server does not exist. Times are stored in microseconds. The columns
  \<open>created_at\<close>, \<open>updated_at\<close> and \<open>extra\<close>, which nothing here reads, are left out.
\<close>

subsection \<open>Tables\<close>

record DiskMetric =
  DiskMetric_ServerID :: int
  DiskMetric_Name :: string
  DiskMetric_Ref :: string
  DiskMetric_Kind :: string
  DiskMetric_Role :: string
  DiskMetric_Path :: string
  DiskMetric_CollectedAt :: time
  DiskMetric_ReadBytes :: int
  DiskMetric_WriteBytes :: int
  DiskMetric_ReadRateBytesPerSec :: f64
  DiskMetric_WriteRateBytesPerSec :: f64
  DiskMetric_IOPS :: f64
  DiskMetric_ReadIOPS :: f64
  DiskMetric_WriteIOPS :: f64
  DiskMetric_UtilRatio :: f64
  DiskMetric_QueueLength :: f64
  DiskMetric_WaitMs :: f64
  DiskMetric_ServiceMs :: f64

record DiskPhysicalMetric =
  DiskPhysicalMetric_ServerID :: int
  DiskPhysicalMetric_Name :: string
  DiskPhysicalMetric_Ref :: string
  DiskPhysicalMetric_Path :: string
  DiskPhysicalMetric_CollectedAt :: time
  DiskPhysicalMetric_TempC :: f64

record DiskUsageMetric =
  DiskUsageMetric_ServerID :: int
  DiskUsageMetric_Name :: string
  DiskUsageMetric_Ref :: string
  DiskUsageMetric_Kind :: string
  DiskUsageMetric_Mountpoint :: string
  DiskUsageMetric_Path :: string
  DiskUsageMetric_CollectedAt :: time
  DiskUsageMetric_Total :: int
  DiskUsageMetric_Used :: int
  DiskUsageMetric_Free :: int
  DiskUsageMetric_UsedRatio :: f64
  DiskUsageMetric_FSType :: string
  DiskUsageMetric_Devices :: "string list"
  DiskUsageMetric_Health :: string
  DiskUsageMetric_Level :: string

record NICMetric =
  NICMetric_ServerID :: int
  NICMetric_Iface :: string
  NICMetric_CollectedAt :: time
  NICMetric_BytesRecv :: int
  NICMetric_BytesSent :: int
  NICMetric_RecvRateBytesPerSec :: f64
  NICMetric_SentRateBytesPerSec :: f64
  NICMetric_PacketsRecv :: int
  NICMetric_PacketsSent :: int
  NICMetric_RecvRatePacketsPerSec :: f64
  NICMetric_SentRatePacketsPerSec :: f64
  NICMetric_ErrIn :: int
  NICMetric_ErrOut :: int
  NICMetric_DropIn :: int
  NICMetric_DropOut :: int

record ServerCurrentDiskMetric =
  ServerCurrentDiskMetric_ServerID :: int
  ServerCurrentDiskMetric_Name :: string
  ServerCurrentDiskMetric_Ref :: string
  ServerCurrentDiskMetric_Kind :: string
  ServerCurrentDiskMetric_Role :: string
  ServerCurrentDiskMetric_Path :: string
  ServerCurrentDiskMetric_CollectedAt :: time
  ServerCurrentDiskMetric_ReadBytes :: int
  ServerCurrentDiskMetric_WriteBytes :: int
  ServerCurrentDiskMetric_ReadRateBytesPerSec :: f64
  ServerCurrentDiskMetric_WriteRateBytesPerSec :: f64
  ServerCurrentDiskMetric_IOPS :: f64
  ServerCurrentDiskMetric_ReadIOPS :: f64
  ServerCurrentDiskMetric_WriteIOPS :: f64
  ServerCurrentDiskMetric_UtilRatio :: f64
  ServerCurrentDiskMetric_QueueLength :: f64
  ServerCurrentDiskMetric_WaitMs :: f64
  ServerCurrentDiskMetric_ServiceMs :: f64

record ServerCurrentDiskUsageMetric =
  ServerCurrentDiskUsageMetric_ServerID :: int
  ServerCurrentDiskUsageMetric_Name :: string
  ServerCurrentDiskUsageMetric_Ref :: string
  ServerCurrentDiskUsageMetric_Kind :: string
  ServerCurrentDiskUsageMetric_Mountpoint :: string
  ServerCurrentDiskUsageMetric_Path :: string
  ServerCurrentDiskUsageMetric_CollectedAt :: time
  ServerCurrentDiskUsageMetric_Total :: int
  ServerCurrentDiskUsageMetric_Used :: int
  ServerCurrentDiskUsageMetric_Free :: int
  ServerCurrentDiskUsageMetric_UsedRatio :: f64
  ServerCurrentDiskUsageMetric_FSType :: string
  ServerCurrentDiskUsageMetric_Devices :: "string list"
  ServerCurrentDiskUsageMetric_Health :: string
  ServerCurrentDiskUsageMetric_Level :: string

record ServerCurrentNICMetric =
  ServerCurrentNICMetric_ServerID :: int
  ServerCurrentNICMetric_Iface :: string
  ServerCurrentNICMetric_CollectedAt :: time
  ServerCurrentNICMetric_BytesRecv :: int
  ServerCurrentNICMetric_BytesSent :: int
  ServerCurrentNICMetric_RecvRateBytesPerSec :: f64
  ServerCurrentNICMetric_SentRateBytesPerSec :: f64
  ServerCurrentNICMetric_PacketsRecv :: int
  ServerCurrentNICMetric_PacketsSent :: int
  ServerCurrentNICMetric_RecvRatePacketsPerSec :: f64
  ServerCurrentNICMetric_SentRatePacketsPerSec :: f64
  ServerCurrentNICMetric_ErrIn :: int
  ServerCurrentNICMetric_ErrOut :: int
  ServerCurrentNICMetric_DropIn :: int
  ServerCurrentNICMetric_DropOut :: int

record metric_db =
  mdb_servers :: "Server list"
  mdb_metrics :: "ServerMetric list"
  mdb_disk :: "DiskMetric list"
  mdb_physical :: "DiskPhysicalMetric list"
  mdb_usage :: "DiskUsageMetric list"
  mdb_nic :: "NICMetric list"
  mdb_current :: "(int, ServerCurrentMetric) gomap"
  mdb_current_disk :: "ServerCurrentDiskMetric list"
  mdb_current_usage :: "ServerCurrentDiskUsageMetric list"
  mdb_current_nic :: "ServerCurrentNICMetric list"

datatype save_error = InconsistentServer | MissingCollectedAt | Constraint | Database

subsection \<open>What a column takes\<close>

definition pg_time :: "time \<Rightarrow> time" where
  "pg_time t = t - t mod 1000"

definition pg_text :: "string \<Rightarrow> bool" where
  "pg_text s \<longleftrightarrow> valid_text s \<and> CHR 0x00 \<notin> set s"

definition varchar :: "nat \<Rightarrow> string \<Rightarrow> bool" where
  "varchar n s \<longleftrightarrow> pg_text s \<and> rune_count s \<le> n"

definition disk_fits :: "DiskMetric \<Rightarrow> bool" where
  "disk_fits r \<longleftrightarrow> varchar 255 (DiskMetric_Name r) \<and> varchar 320 (DiskMetric_Ref r) \<and> varchar 16 (DiskMetric_Kind r) \<and>
     varchar 16 (DiskMetric_Role r) \<and> pg_text (DiskMetric_Path r)"

definition physical_fits :: "DiskPhysicalMetric \<Rightarrow> bool" where
  "physical_fits r \<longleftrightarrow> varchar 255 (DiskPhysicalMetric_Name r) \<and> varchar 320 (DiskPhysicalMetric_Ref r) \<and> pg_text (DiskPhysicalMetric_Path r)"

definition usage_fits :: "DiskUsageMetric \<Rightarrow> bool" where
  "usage_fits r \<longleftrightarrow> varchar 255 (DiskUsageMetric_Name r) \<and> varchar 320 (DiskUsageMetric_Ref r) \<and> varchar 16 (DiskUsageMetric_Kind r) \<and>
     pg_text (DiskUsageMetric_Mountpoint r) \<and> pg_text (DiskUsageMetric_Path r) \<and> varchar 32 (DiskUsageMetric_FSType r) \<and>
     list_all pg_text (DiskUsageMetric_Devices r) \<and> varchar 32 (DiskUsageMetric_Health r) \<and> varchar 32 (DiskUsageMetric_Level r)"

definition nic_fits :: "NICMetric \<Rightarrow> bool" where
  "nic_fits r \<longleftrightarrow> varchar 64 (NICMetric_Iface r)"

definition values_fit :: "MetricValues \<Rightarrow> bool" where
  "values_fit v \<longleftrightarrow> varchar 16 (MetricValues_RaidOverallHealth v)"

text \<open>A \<open>jsonb\<close> column refuses strings with the escape of a zero byte.\<close>

definition runtime_fits :: "MetricRuntime \<Rightarrow> bool" where
  "runtime_fits rt \<longleftrightarrow>
     (case MetricRuntime_Raid rt of Document r \<Rightarrow> list_all (\<lambda>s. CHR 0x00 \<notin> set s) (raid_text r) | NoDocument \<Rightarrow> True | BadDocument \<Rightarrow> False) \<and>
     (case MetricRuntime_Thermal rt of Document t \<Rightarrow> list_all (\<lambda>s. CHR 0x00 \<notin> set s) (thermal_text t) | NoDocument \<Rightarrow> True | BadDocument \<Rightarrow> False)"

definition create_rows :: "('r \<Rightarrow> 'k) \<Rightarrow> ('r \<Rightarrow> bool) \<Rightarrow> 'r list \<Rightarrow> 'r list \<Rightarrow> save_error + 'r list" where
  "create_rows key fits rows table =
     (if list_all fits rows \<and> distinct (map key rows) \<and> list_all (\<lambda>r. key r \<notin> key ` set table) rows then Inr (table @ rows) else Inl Constraint)"

subsection \<open>The rows of a sample\<close>

record MetricsSample =
  Sample_ServerID :: int
  Sample_Metric :: ServerMetric
  Sample_Runtime :: MetricRuntime
  Sample_IP :: "string option"
  Sample_DiskIO :: "DiskBaseIOMetrics list"
  Sample_DiskSmart :: "DiskSmart option"
  Sample_DiskUsage :: "DiskLogicalMetrics list"
  Sample_Network :: "NetIOMetrics list"

definition or_name :: "string \<Rightarrow> string \<Rightarrow> string" where
  "or_name ref name = (if blank ref then trim_space name else trim_space ref)"

definition disk_row :: "int \<Rightarrow> time \<Rightarrow> DiskBaseIOMetrics \<Rightarrow> DiskMetric" where
  "disk_row serverID collectedAt item =
     \<lparr>DiskMetric_ServerID = serverID, DiskMetric_Name = trim_space (DiskBaseIOMetrics_Name item),
      DiskMetric_Ref = or_name (DiskBaseIOMetrics_Ref item) (DiskBaseIOMetrics_Name item), DiskMetric_Kind = trim_space (DiskBaseIOMetrics_Kind item),
      DiskMetric_Role = trim_space (DiskBaseIOMetrics_Role item), DiskMetric_Path = trim_space (DiskBaseIOMetrics_DevicePath item),
      DiskMetric_CollectedAt = collectedAt, DiskMetric_ReadBytes = DiskBaseIOMetrics_ReadBytes item,
      DiskMetric_WriteBytes = DiskBaseIOMetrics_WriteBytes item, DiskMetric_ReadRateBytesPerSec = DiskBaseIOMetrics_ReadRateBytesPerSec item,
      DiskMetric_WriteRateBytesPerSec = DiskBaseIOMetrics_WriteRateBytesPerSec item, DiskMetric_IOPS = DiskBaseIOMetrics_IOPS item,
      DiskMetric_ReadIOPS = DiskBaseIOMetrics_ReadIOPS item, DiskMetric_WriteIOPS = DiskBaseIOMetrics_WriteIOPS item,
      DiskMetric_UtilRatio = DiskBaseIOMetrics_UtilRatio item, DiskMetric_QueueLength = DiskBaseIOMetrics_QueueLength item,
      DiskMetric_WaitMs = DiskBaseIOMetrics_WaitMs item, DiskMetric_ServiceMs = DiskBaseIOMetrics_ServiceMs item\<rparr>"

definition buildDiskIORows :: "int \<Rightarrow> time \<Rightarrow> DiskBaseIOMetrics list \<Rightarrow> DiskMetric list" where
  "buildDiskIORows serverID collectedAt items = map (disk_row serverID collectedAt) items"

definition physical_row :: "int \<Rightarrow> time \<Rightarrow> DiskSmartDevice \<Rightarrow> DiskPhysicalMetric" where
  "physical_row serverID collectedAt device =
     \<lparr>DiskPhysicalMetric_ServerID = serverID, DiskPhysicalMetric_Name = trim_space (DiskSmartDevice_Name device),
      DiskPhysicalMetric_Ref = or_name (DiskSmartDevice_Ref device) (DiskSmartDevice_Name device),
      DiskPhysicalMetric_Path = trim_space (DiskSmartDevice_DevicePath device), DiskPhysicalMetric_CollectedAt = collectedAt,
      DiskPhysicalMetric_TempC = the (DiskSmartDevice_TempC device)\<rparr>"

definition buildDiskPhysicalRows :: "int \<Rightarrow> time \<Rightarrow> DiskSmart option \<Rightarrow> DiskPhysicalMetric list" where
  "buildDiskPhysicalRows serverID collectedAt smart =
     (case smart of None \<Rightarrow> [] | Some s \<Rightarrow> map (physical_row serverID collectedAt) (temperature_devices [] (slice (DiskSmart_Devices s))))"

definition sanitizeDevices :: "string list \<Rightarrow> string list" where
  "sanitizeDevices devices = clean_items [] devices"

definition usage_row :: "int \<Rightarrow> time \<Rightarrow> DiskLogicalMetrics \<Rightarrow> DiskUsageMetric" where
  "usage_row serverID collectedAt item =
     \<lparr>DiskUsageMetric_ServerID = serverID, DiskUsageMetric_Name = trim_space (DiskLogicalMetrics_Name item),
      DiskUsageMetric_Ref = or_name (DiskLogicalMetrics_Ref item) (DiskLogicalMetrics_Name item),
      DiskUsageMetric_Kind = trim_space (DiskLogicalMetrics_Kind item), DiskUsageMetric_Mountpoint = trim_space (DiskLogicalMetrics_Mountpoint item),
      DiskUsageMetric_Path = trim_space (DiskLogicalMetrics_DevicePath item), DiskUsageMetric_CollectedAt = collectedAt,
      DiskUsageMetric_Total = logical_total item, DiskUsageMetric_Used = DiskLogicalMetrics_Used item, DiskUsageMetric_Free = DiskLogicalMetrics_Free item,
      DiskUsageMetric_UsedRatio = DiskLogicalMetrics_UsedRatio item,
      DiskUsageMetric_FSType = mountpointFSType item (trim_space (DiskLogicalMetrics_Mountpoint item)),
      DiskUsageMetric_Devices = sanitizeDevices (DiskLogicalMetrics_Devices item), DiskUsageMetric_Health = trim_space (DiskLogicalMetrics_Health item),
      DiskUsageMetric_Level = trim_space (DiskLogicalMetrics_Level item)\<rparr>"

definition buildDiskUsageRows :: "int \<Rightarrow> time \<Rightarrow> DiskLogicalMetrics list \<Rightarrow> DiskUsageMetric list" where
  "buildDiskUsageRows serverID collectedAt items = map (usage_row serverID collectedAt) items"

definition nic_row :: "int \<Rightarrow> time \<Rightarrow> NetIOMetrics \<Rightarrow> NICMetric" where
  "nic_row serverID collectedAt item =
     \<lparr>NICMetric_ServerID = serverID, NICMetric_Iface = trim_space (NetIOMetrics_Name item), NICMetric_CollectedAt = collectedAt,
      NICMetric_BytesRecv = NetIOMetrics_BytesRecv item, NICMetric_BytesSent = NetIOMetrics_BytesSent item,
      NICMetric_RecvRateBytesPerSec = NetIOMetrics_RecvRateBytesPerSec item, NICMetric_SentRateBytesPerSec = NetIOMetrics_SentRateBytesPerSec item,
      NICMetric_PacketsRecv = NetIOMetrics_PacketsRecv item, NICMetric_PacketsSent = NetIOMetrics_PacketsSent item,
      NICMetric_RecvRatePacketsPerSec = NetIOMetrics_RecvRatePacketsPerSec item, NICMetric_SentRatePacketsPerSec = NetIOMetrics_SentRatePacketsPerSec item,
      NICMetric_ErrIn = NetIOMetrics_ErrIn item, NICMetric_ErrOut = NetIOMetrics_ErrOut item, NICMetric_DropIn = NetIOMetrics_DropIn item,
      NICMetric_DropOut = NetIOMetrics_DropOut item\<rparr>"

definition buildNICRows :: "int \<Rightarrow> time \<Rightarrow> NetIOMetrics list \<Rightarrow> NICMetric list" where
  "buildNICRows serverID collectedAt items = map (nic_row serverID collectedAt) (filter (\<lambda>item. \<not> blank (NetIOMetrics_Name item)) items)"

definition currentDiskIORows :: "DiskMetric list \<Rightarrow> ServerCurrentDiskMetric list" where
  "currentDiskIORows rows = map (\<lambda>row.
      \<lparr>ServerCurrentDiskMetric_ServerID = DiskMetric_ServerID row, ServerCurrentDiskMetric_Name = DiskMetric_Name row,
       ServerCurrentDiskMetric_Ref = DiskMetric_Ref row, ServerCurrentDiskMetric_Kind = DiskMetric_Kind row,
       ServerCurrentDiskMetric_Role = DiskMetric_Role row, ServerCurrentDiskMetric_Path = DiskMetric_Path row,
       ServerCurrentDiskMetric_CollectedAt = DiskMetric_CollectedAt row, ServerCurrentDiskMetric_ReadBytes = DiskMetric_ReadBytes row,
       ServerCurrentDiskMetric_WriteBytes = DiskMetric_WriteBytes row, ServerCurrentDiskMetric_ReadRateBytesPerSec = DiskMetric_ReadRateBytesPerSec row,
       ServerCurrentDiskMetric_WriteRateBytesPerSec = DiskMetric_WriteRateBytesPerSec row, ServerCurrentDiskMetric_IOPS = DiskMetric_IOPS row,
       ServerCurrentDiskMetric_ReadIOPS = DiskMetric_ReadIOPS row, ServerCurrentDiskMetric_WriteIOPS = DiskMetric_WriteIOPS row,
       ServerCurrentDiskMetric_UtilRatio = DiskMetric_UtilRatio row, ServerCurrentDiskMetric_QueueLength = DiskMetric_QueueLength row,
       ServerCurrentDiskMetric_WaitMs = DiskMetric_WaitMs row, ServerCurrentDiskMetric_ServiceMs = DiskMetric_ServiceMs row\<rparr>) rows"

definition currentDiskUsageRows :: "DiskUsageMetric list \<Rightarrow> ServerCurrentDiskUsageMetric list" where
  "currentDiskUsageRows rows = map (\<lambda>row.
      \<lparr>ServerCurrentDiskUsageMetric_ServerID = DiskUsageMetric_ServerID row, ServerCurrentDiskUsageMetric_Name = DiskUsageMetric_Name row,
       ServerCurrentDiskUsageMetric_Ref = DiskUsageMetric_Ref row, ServerCurrentDiskUsageMetric_Kind = DiskUsageMetric_Kind row,
       ServerCurrentDiskUsageMetric_Mountpoint = DiskUsageMetric_Mountpoint row, ServerCurrentDiskUsageMetric_Path = DiskUsageMetric_Path row,
       ServerCurrentDiskUsageMetric_CollectedAt = DiskUsageMetric_CollectedAt row, ServerCurrentDiskUsageMetric_Total = DiskUsageMetric_Total row,
       ServerCurrentDiskUsageMetric_Used = DiskUsageMetric_Used row, ServerCurrentDiskUsageMetric_Free = DiskUsageMetric_Free row,
       ServerCurrentDiskUsageMetric_UsedRatio = DiskUsageMetric_UsedRatio row, ServerCurrentDiskUsageMetric_FSType = DiskUsageMetric_FSType row,
       ServerCurrentDiskUsageMetric_Devices = DiskUsageMetric_Devices row, ServerCurrentDiskUsageMetric_Health = DiskUsageMetric_Health row,
       ServerCurrentDiskUsageMetric_Level = DiskUsageMetric_Level row\<rparr>) rows"

definition currentNICRows :: "NICMetric list \<Rightarrow> ServerCurrentNICMetric list" where
  "currentNICRows rows = map (\<lambda>row.
      \<lparr>ServerCurrentNICMetric_ServerID = NICMetric_ServerID row, ServerCurrentNICMetric_Iface = NICMetric_Iface row,
       ServerCurrentNICMetric_CollectedAt = NICMetric_CollectedAt row, ServerCurrentNICMetric_BytesRecv = NICMetric_BytesRecv row,
       ServerCurrentNICMetric_BytesSent = NICMetric_BytesSent row, ServerCurrentNICMetric_RecvRateBytesPerSec = NICMetric_RecvRateBytesPerSec row,
       ServerCurrentNICMetric_SentRateBytesPerSec = NICMetric_SentRateBytesPerSec row, ServerCurrentNICMetric_PacketsRecv = NICMetric_PacketsRecv row,
       ServerCurrentNICMetric_PacketsSent = NICMetric_PacketsSent row, ServerCurrentNICMetric_RecvRatePacketsPerSec = NICMetric_RecvRatePacketsPerSec row,
       ServerCurrentNICMetric_SentRatePacketsPerSec = NICMetric_SentRatePacketsPerSec row, ServerCurrentNICMetric_ErrIn = NICMetric_ErrIn row,
       ServerCurrentNICMetric_ErrOut = NICMetric_ErrOut row, ServerCurrentNICMetric_DropIn = NICMetric_DropIn row,
       ServerCurrentNICMetric_DropOut = NICMetric_DropOut row\<rparr>) rows"

subsection \<open>Saving\<close>

definition metric_key :: "ServerMetric \<Rightarrow> int \<times> time" where
  "metric_key m = (ServerMetric_ServerID m, ServerMetric_CollectedAt m)"

definition disk_key :: "DiskMetric \<Rightarrow> int \<times> string \<times> time" where
  "disk_key r = (DiskMetric_ServerID r, DiskMetric_Name r, DiskMetric_CollectedAt r)"

definition physical_key :: "DiskPhysicalMetric \<Rightarrow> int \<times> string \<times> time" where
  "physical_key r = (DiskPhysicalMetric_ServerID r, DiskPhysicalMetric_Name r, DiskPhysicalMetric_CollectedAt r)"

definition usage_key :: "DiskUsageMetric \<Rightarrow> int \<times> string \<times> time" where
  "usage_key r = (DiskUsageMetric_ServerID r, DiskUsageMetric_Name r, DiskUsageMetric_CollectedAt r)"

definition nic_key :: "NICMetric \<Rightarrow> int \<times> string \<times> time" where
  "nic_key r = (NICMetric_ServerID r, NICMetric_Iface r, NICMetric_CollectedAt r)"

text \<open>The current tables of a server are replaced as a whole.\<close>

definition replace_rows :: "('r \<Rightarrow> int) \<Rightarrow> ('r \<Rightarrow> 'k) \<Rightarrow> int \<Rightarrow> 'r list \<Rightarrow> 'r list \<Rightarrow> save_error + 'r list" where
  "replace_rows server key serverID rows table = create_rows key (\<lambda>_. True) rows (filter (\<lambda>r. server r \<noteq> serverID) table)"

definition replaceCurrentDiskIO :: "int \<Rightarrow> DiskMetric list \<Rightarrow> metric_db \<Rightarrow> save_error + metric_db" where
  "replaceCurrentDiskIO serverID rows db =
     (case replace_rows ServerCurrentDiskMetric_ServerID (\<lambda>r. (ServerCurrentDiskMetric_ServerID r, ServerCurrentDiskMetric_Name r)) serverID
        (currentDiskIORows rows) (mdb_current_disk db) of Inl e \<Rightarrow> Inl e | Inr t \<Rightarrow> Inr (db\<lparr>mdb_current_disk := t\<rparr>))"

definition replaceCurrentDiskUsage :: "int \<Rightarrow> DiskUsageMetric list \<Rightarrow> metric_db \<Rightarrow> save_error + metric_db" where
  "replaceCurrentDiskUsage serverID rows db =
     (case replace_rows ServerCurrentDiskUsageMetric_ServerID (\<lambda>r. (ServerCurrentDiskUsageMetric_ServerID r, ServerCurrentDiskUsageMetric_Name r)) serverID
        (currentDiskUsageRows rows) (mdb_current_usage db) of Inl e \<Rightarrow> Inl e | Inr t \<Rightarrow> Inr (db\<lparr>mdb_current_usage := t\<rparr>))"

definition replaceCurrentNICs :: "int \<Rightarrow> NICMetric list \<Rightarrow> metric_db \<Rightarrow> save_error + metric_db" where
  "replaceCurrentNICs serverID rows db =
     (case replace_rows ServerCurrentNICMetric_ServerID (\<lambda>r. (ServerCurrentNICMetric_ServerID r, ServerCurrentNICMetric_Iface r)) serverID
        (currentNICRows rows) (mdb_current_nic db) of Inl e \<Rightarrow> Inl e | Inr t \<Rightarrow> Inr (db\<lparr>mdb_current_nic := t\<rparr>))"

definition saveCurrentMetrics :: "int \<Rightarrow> ServerMetric \<Rightarrow> MetricRuntime \<Rightarrow> DiskMetric list \<Rightarrow> DiskUsageMetric list \<Rightarrow> NICMetric list \<Rightarrow>
    metric_db \<Rightarrow> save_error + bool \<times> metric_db" where
  "saveCurrentMetrics serverID metric runtime diskIO diskUsage nics db =
     (let current = \<lparr>ServerCurrentMetric_ServerID = serverID, ServerCurrentMetric_CollectedAt = ServerMetric_CollectedAt metric,
            ServerCurrentMetric_ReportedAt = ServerMetric_ReportedAt metric,
            ServerCurrentMetric_Snapshot = \<lparr>MetricsSnapshot_Values = ServerMetric_Values metric, MetricsSnapshot_Runtime = runtime\<rparr>\<rparr>
      in if \<not> runtime_fits runtime then Inl Constraint
         else if (case map_of (mdb_current db) serverID of None \<Rightarrow> False
             | Some old \<Rightarrow> \<not> ServerCurrentMetric_CollectedAt old \<le> ServerMetric_CollectedAt metric) then Inr (False, db)
         else case replaceCurrentDiskIO serverID diskIO (db\<lparr>mdb_current := AList.update serverID current (mdb_current db)\<rparr>) of Inl e \<Rightarrow> Inl e
           | Inr db1 \<Rightarrow> (case replaceCurrentDiskUsage serverID diskUsage db1 of Inl e \<Rightarrow> Inl e
           | Inr db2 \<Rightarrow> (case replaceCurrentNICs serverID nics db2 of Inl e \<Rightarrow> Inl e
           | Inr db3 \<Rightarrow> Inr (True, db3))))"

definition update_ip :: "int \<Rightarrow> string option \<Rightarrow> metric_db \<Rightarrow> metric_db" where
  "update_ip serverID ip db =
     (case ip of None \<Rightarrow> db
      | Some _ \<Rightarrow> db\<lparr>mdb_servers := map (\<lambda>s. if Server_ID s = serverID then s\<lparr>Server_IP := ip\<rparr> else s) (mdb_servers db)\<rparr>)"

definition insert_history :: "ServerMetric \<Rightarrow> DiskMetric list \<Rightarrow> DiskPhysicalMetric list \<Rightarrow> DiskUsageMetric list \<Rightarrow> NICMetric list \<Rightarrow>
    metric_db \<Rightarrow> save_error + metric_db" where
  "insert_history metric disk physical usage nics db =
     (case create_rows metric_key (\<lambda>m. values_fit (ServerMetric_Values m) \<and> ServerMetric_ServerID m \<in> Server_ID ` set (mdb_servers db)) [metric] (mdb_metrics db) of
        Inl e \<Rightarrow> Inl e
      | Inr ms \<Rightarrow> (case create_rows disk_key disk_fits disk (mdb_disk db) of Inl e \<Rightarrow> Inl e
      | Inr ds \<Rightarrow> (case create_rows physical_key physical_fits physical (mdb_physical db) of Inl e \<Rightarrow> Inl e
      | Inr ps \<Rightarrow> (case create_rows usage_key usage_fits usage (mdb_usage db) of Inl e \<Rightarrow> Inl e
      | Inr us \<Rightarrow> (case create_rows nic_key nic_fits nics (mdb_nic db) of Inl e \<Rightarrow> Inl e
      | Inr ns \<Rightarrow> Inr (db\<lparr>mdb_metrics := ms, mdb_disk := ds, mdb_physical := ps, mdb_usage := us, mdb_nic := ns\<rparr>))))))"

definition stored_metric :: "ServerMetric \<Rightarrow> ServerMetric" where
  "stored_metric m = m\<lparr>ServerMetric_CollectedAt := pg_time (ServerMetric_CollectedAt m), ServerMetric_ReportedAt := map_option pg_time (ServerMetric_ReportedAt m)\<rparr>"

text \<open>\<open>fault\<close> is an error of the connection or of the commit; the transaction is then rolled back.\<close>

definition SaveMetrics :: "bool \<Rightarrow> MetricsSample \<Rightarrow> metric_db \<Rightarrow> save_error + bool \<times> metric_db" where
  "SaveMetrics fault sample db =
     (let serverID = Sample_ServerID sample; metric = stored_metric (Sample_Metric sample); time = ServerMetric_CollectedAt metric;
          disk = buildDiskIORows serverID time (Sample_DiskIO sample); physical = buildDiskPhysicalRows serverID time (Sample_DiskSmart sample);
          usage = buildDiskUsageRows serverID time (Sample_DiskUsage sample); nics = buildNICRows serverID time (Sample_Network sample)
      in if serverID \<le> 0 \<or> ServerMetric_ServerID (Sample_Metric sample) \<noteq> serverID then Inl InconsistentServer
         else if ServerMetric_CollectedAt (Sample_Metric sample) = 0 then Inl MissingCollectedAt
         else if fault then Inl Database
         else case insert_history metric disk physical usage nics db of Inl e \<Rightarrow> Inl e
           | Inr db1 \<Rightarrow> (case saveCurrentMetrics serverID metric (Sample_Runtime sample) disk usage nics db1 of Inl e \<Rightarrow> Inl e
           | Inr (currentUpdated, db2) \<Rightarrow> Inr (currentUpdated, if currentUpdated then update_ip serverID (Sample_IP sample) db2 else db2)))"

subsection \<open>The effect of a saved sample\<close>

lemma create_rows_Inr:
  "create_rows key fits rows t = Inr t' \<longleftrightarrow>
     list_all fits rows \<and> distinct (map key rows) \<and> (\<forall>r \<in> set rows. key r \<notin> key ` set t) \<and> t' = t @ rows"
  by (auto simp: create_rows_def list_all_iff)

definition current_of :: "ServerMetric \<Rightarrow> MetricRuntime \<Rightarrow> ServerCurrentMetric" where
  "current_of m rt = \<lparr>ServerCurrentMetric_ServerID = ServerMetric_ServerID m, ServerCurrentMetric_CollectedAt = ServerMetric_CollectedAt m,
     ServerCurrentMetric_ReportedAt = ServerMetric_ReportedAt m,
     ServerCurrentMetric_Snapshot = \<lparr>MetricsSnapshot_Values = ServerMetric_Values m, MetricsSnapshot_Runtime = rt\<rparr>\<rparr>"

text \<open>A sample is older than the current state of its server.\<close>

definition outdated :: "metric_db \<Rightarrow> int \<Rightarrow> time \<Rightarrow> bool" where
  "outdated db i t \<longleftrightarrow> (case map_of (mdb_current db) i of None \<Rightarrow> False | Some old \<Rightarrow> \<not> ServerCurrentMetric_CollectedAt old \<le> t)"

lemma saveCurrentMetrics_Inr:
  assumes "saveCurrentMetrics i m rt disk usage nics db = Inr (u, db')" "ServerMetric_ServerID m = i"
  shows "u \<longleftrightarrow> \<not> outdated db i (ServerMetric_CollectedAt m)" "\<not> u \<Longrightarrow> db' = db"
    "u \<Longrightarrow> db' = db\<lparr>mdb_current := AList.update i (current_of m rt) (mdb_current db),
       mdb_current_disk := filter (\<lambda>r. ServerCurrentDiskMetric_ServerID r \<noteq> i) (mdb_current_disk db) @ currentDiskIORows disk,
       mdb_current_usage := filter (\<lambda>r. ServerCurrentDiskUsageMetric_ServerID r \<noteq> i) (mdb_current_usage db) @ currentDiskUsageRows usage,
       mdb_current_nic := filter (\<lambda>r. ServerCurrentNICMetric_ServerID r \<noteq> i) (mdb_current_nic db) @ currentNICRows nics\<rparr>"
  using assms
  by (auto simp: saveCurrentMetrics_def Let_def outdated_def current_of_def replaceCurrentDiskIO_def replaceCurrentDiskUsage_def replaceCurrentNICs_def
      replace_rows_def create_rows_Inr split: if_splits sum.splits option.splits)

lemma insert_history_Inr:
  "insert_history m disk physical usage nics db = Inr db' \<longleftrightarrow>
     values_fit (ServerMetric_Values m) \<and> ServerMetric_ServerID m \<in> Server_ID ` set (mdb_servers db) \<and> metric_key m \<notin> metric_key ` set (mdb_metrics db) \<and>
     create_rows disk_key disk_fits disk (mdb_disk db) = Inr (mdb_disk db @ disk) \<and>
     create_rows physical_key physical_fits physical (mdb_physical db) = Inr (mdb_physical db @ physical) \<and>
     create_rows usage_key usage_fits usage (mdb_usage db) = Inr (mdb_usage db @ usage) \<and>
     create_rows nic_key nic_fits nics (mdb_nic db) = Inr (mdb_nic db @ nics) \<and>
     db' = db\<lparr>mdb_metrics := mdb_metrics db @ [m], mdb_disk := mdb_disk db @ disk, mdb_physical := mdb_physical db @ physical,
       mdb_usage := mdb_usage db @ usage, mdb_nic := mdb_nic db @ nics\<rparr>"
proof -
  have *: "(case create_rows key fits rows t of Inl e \<Rightarrow> Inl e | Inr t' \<Rightarrow> f t') = Inr y \<longleftrightarrow>
      create_rows key fits rows t = Inr (t @ rows) \<and> f (t @ rows) = Inr y" for key :: "'b \<Rightarrow> 'k" and fits rows t and f :: "'b list \<Rightarrow> save_error + 'c" and y
    by (auto simp: create_rows_def)
  show ?thesis unfolding insert_history_def * by (auto simp: create_rows_Inr)
qed

text \<open>The rows of a sample, as \<open>SaveMetrics\<close> builds them.\<close>

definition sample_metric :: "MetricsSample \<Rightarrow> ServerMetric" where
  "sample_metric s = stored_metric (Sample_Metric s)"

definition sample_time :: "MetricsSample \<Rightarrow> time" where
  "sample_time s = ServerMetric_CollectedAt (sample_metric s)"

definition sample_disk :: "MetricsSample \<Rightarrow> DiskMetric list" where
  "sample_disk s = buildDiskIORows (Sample_ServerID s) (sample_time s) (Sample_DiskIO s)"

definition sample_physical :: "MetricsSample \<Rightarrow> DiskPhysicalMetric list" where
  "sample_physical s = buildDiskPhysicalRows (Sample_ServerID s) (sample_time s) (Sample_DiskSmart s)"

definition sample_usage :: "MetricsSample \<Rightarrow> DiskUsageMetric list" where
  "sample_usage s = buildDiskUsageRows (Sample_ServerID s) (sample_time s) (Sample_DiskUsage s)"

definition sample_nics :: "MetricsSample \<Rightarrow> NICMetric list" where
  "sample_nics s = buildNICRows (Sample_ServerID s) (sample_time s) (Sample_Network s)"

lemmas sample_rows = sample_disk_def sample_physical_def sample_usage_def sample_nics_def

definition sample_consistent :: "MetricsSample \<Rightarrow> bool" where
  "sample_consistent s \<longleftrightarrow> 0 < Sample_ServerID s \<and> ServerMetric_ServerID (Sample_Metric s) = Sample_ServerID s \<and> ServerMetric_CollectedAt (Sample_Metric s) \<noteq> 0"

lemma SaveMetrics_alt:
  "SaveMetrics fault s db =
     (if \<not> (0 < Sample_ServerID s \<and> ServerMetric_ServerID (Sample_Metric s) = Sample_ServerID s) then Inl InconsistentServer
      else if ServerMetric_CollectedAt (Sample_Metric s) = 0 then Inl MissingCollectedAt
      else if fault then Inl Database
      else case insert_history (sample_metric s) (sample_disk s) (sample_physical s) (sample_usage s) (sample_nics s) db of Inl e \<Rightarrow> Inl e
        | Inr db1 \<Rightarrow> (case saveCurrentMetrics (Sample_ServerID s) (sample_metric s) (Sample_Runtime s) (sample_disk s) (sample_usage s) (sample_nics s) db1 of
            Inl e \<Rightarrow> Inl e | Inr (u, db2) \<Rightarrow> Inr (u, if u then update_ip (Sample_ServerID s) (Sample_IP s) db2 else db2)))"
proof -
  have *: "(i \<le> 0 \<or> j \<noteq> i) = (\<not> (0 < i \<and> j = i))" for i j :: int by auto
  show ?thesis unfolding SaveMetrics_def sample_rows sample_metric_def sample_time_def Let_def * by (rule refl)
qed

lemma update_ip_tables [simp]:
  "mdb_metrics (update_ip i ip db) = mdb_metrics db" "mdb_disk (update_ip i ip db) = mdb_disk db" "mdb_physical (update_ip i ip db) = mdb_physical db"
  "mdb_usage (update_ip i ip db) = mdb_usage db" "mdb_nic (update_ip i ip db) = mdb_nic db" "mdb_current (update_ip i ip db) = mdb_current db"
  "mdb_current_disk (update_ip i ip db) = mdb_current_disk db" "mdb_current_usage (update_ip i ip db) = mdb_current_usage db"
  "mdb_current_nic (update_ip i ip db) = mdb_current_nic db"
  by (simp_all add: update_ip_def split: option.split)

lemma SaveMetrics_Inr:
  assumes "SaveMetrics fault s db = Inr (u, db')"
  defines "i \<equiv> Sample_ServerID s" and "m \<equiv> sample_metric s"
  shows "sample_consistent s" "ServerMetric_ServerID m = i" "metric_key m \<notin> metric_key ` set (mdb_metrics db)" "u \<longleftrightarrow> \<not> outdated db i (sample_time s)"
    "mdb_metrics db' = mdb_metrics db @ [m]" "mdb_disk db' = mdb_disk db @ sample_disk s" "mdb_physical db' = mdb_physical db @ sample_physical s"
    "mdb_usage db' = mdb_usage db @ sample_usage s" "mdb_nic db' = mdb_nic db @ sample_nics s"
    "mdb_current db' = (if u then AList.update i (current_of m (Sample_Runtime s)) (mdb_current db) else mdb_current db)"
    "mdb_current_disk db' = (if u then filter (\<lambda>r. ServerCurrentDiskMetric_ServerID r \<noteq> i) (mdb_current_disk db) @ currentDiskIORows (sample_disk s) else mdb_current_disk db)"
    "mdb_current_usage db' = (if u then filter (\<lambda>r. ServerCurrentDiskUsageMetric_ServerID r \<noteq> i) (mdb_current_usage db) @ currentDiskUsageRows (sample_usage s) else mdb_current_usage db)"
    "mdb_current_nic db' = (if u then filter (\<lambda>r. ServerCurrentNICMetric_ServerID r \<noteq> i) (mdb_current_nic db) @ currentNICRows (sample_nics s) else mdb_current_nic db)"
proof -
  from assms(1) have c: "sample_consistent s" by (auto simp: SaveMetrics_alt sample_consistent_def split: if_splits)
  then show "sample_consistent s" .
  show i: "ServerMetric_ServerID m = i" using c by (simp add: m_def i_def sample_metric_def stored_metric_def sample_consistent_def)
  from assms(1) obtain db1 db2 where h: "insert_history m (sample_disk s) (sample_physical s) (sample_usage s) (sample_nics s) db = Inr db1"
    and cur: "saveCurrentMetrics i m (Sample_Runtime s) (sample_disk s) (sample_usage s) (sample_nics s) db1 = Inr (u, db2)"
    and db': "db' = (if u then update_ip i (Sample_IP s) db2 else db2)"
    by (auto simp: SaveMetrics_alt m_def i_def split: if_splits sum.splits)
  note h = h [unfolded insert_history_Inr]
  note cur = saveCurrentMetrics_Inr [OF cur i]
  from h have d1: "db1 = db\<lparr>mdb_metrics := mdb_metrics db @ [m], mdb_disk := mdb_disk db @ sample_disk s, mdb_physical := mdb_physical db @ sample_physical s,
       mdb_usage := mdb_usage db @ sample_usage s, mdb_nic := mdb_nic db @ sample_nics s\<rparr>" by blast
  have d2: "db2 = (if u then db1\<lparr>mdb_current := AList.update i (current_of m (Sample_Runtime s)) (mdb_current db1),
       mdb_current_disk := filter (\<lambda>r. ServerCurrentDiskMetric_ServerID r \<noteq> i) (mdb_current_disk db1) @ currentDiskIORows (sample_disk s),
       mdb_current_usage := filter (\<lambda>r. ServerCurrentDiskUsageMetric_ServerID r \<noteq> i) (mdb_current_usage db1) @ currentDiskUsageRows (sample_usage s),
       mdb_current_nic := filter (\<lambda>r. ServerCurrentNICMetric_ServerID r \<noteq> i) (mdb_current_nic db1) @ currentNICRows (sample_nics s)\<rparr> else db1)"
    using cur(2,3) by (auto split: if_split)
  have o: "outdated db1 i (ServerMetric_CollectedAt m) = outdated db i (sample_time s)" by (simp add: d1 outdated_def sample_time_def m_def)
  show "metric_key m \<notin> metric_key ` set (mdb_metrics db)" using h by blast
  show "u \<longleftrightarrow> \<not> outdated db i (sample_time s)" using cur(1) o by simp
  show "mdb_metrics db' = mdb_metrics db @ [m]" "mdb_disk db' = mdb_disk db @ sample_disk s" "mdb_physical db' = mdb_physical db @ sample_physical s"
    "mdb_usage db' = mdb_usage db @ sample_usage s" "mdb_nic db' = mdb_nic db @ sample_nics s"
    "mdb_current db' = (if u then AList.update i (current_of m (Sample_Runtime s)) (mdb_current db) else mdb_current db)"
    "mdb_current_disk db' = (if u then filter (\<lambda>r. ServerCurrentDiskMetric_ServerID r \<noteq> i) (mdb_current_disk db) @ currentDiskIORows (sample_disk s) else mdb_current_disk db)"
    "mdb_current_usage db' = (if u then filter (\<lambda>r. ServerCurrentDiskUsageMetric_ServerID r \<noteq> i) (mdb_current_usage db) @ currentDiskUsageRows (sample_usage s) else mdb_current_usage db)"
    "mdb_current_nic db' = (if u then filter (\<lambda>r. ServerCurrentNICMetric_ServerID r \<noteq> i) (mdb_current_nic db) @ currentNICRows (sample_nics s) else mdb_current_nic db)"
    using d2 by (simp_all add: db' d1 split: if_splits)
qed

subsection \<open>The current tables are the newest part of the history\<close>

lemma disk_rows_of: "r \<in> set (buildDiskIORows i t xs) \<Longrightarrow> DiskMetric_ServerID r = i \<and> DiskMetric_CollectedAt r = t"
  by (auto simp: buildDiskIORows_def disk_row_def)

lemma physical_rows_of: "r \<in> set (buildDiskPhysicalRows i t x) \<Longrightarrow> DiskPhysicalMetric_ServerID r = i \<and> DiskPhysicalMetric_CollectedAt r = t"
  by (auto simp: buildDiskPhysicalRows_def physical_row_def split: option.splits)

lemma usage_rows_of: "r \<in> set (buildDiskUsageRows i t xs) \<Longrightarrow> DiskUsageMetric_ServerID r = i \<and> DiskUsageMetric_CollectedAt r = t"
  by (auto simp: buildDiskUsageRows_def usage_row_def)

lemma nic_rows_of: "r \<in> set (buildNICRows i t xs) \<Longrightarrow> NICMetric_ServerID r = i \<and> NICMetric_CollectedAt r = t"
  by (auto simp: buildNICRows_def nic_row_def)

lemma current_servers [simp]:
  "map ServerCurrentDiskMetric_ServerID (currentDiskIORows ds) = map DiskMetric_ServerID ds"
  "map ServerCurrentDiskUsageMetric_ServerID (currentDiskUsageRows us) = map DiskUsageMetric_ServerID us"
  "map ServerCurrentNICMetric_ServerID (currentNICRows ns) = map NICMetric_ServerID ns"
  by (simp_all add: currentDiskIORows_def currentDiskUsageRows_def currentNICRows_def)

text \<open>Every device row belongs to a stored metric row.\<close>

definition backed :: "('r \<Rightarrow> int) \<Rightarrow> ('r \<Rightarrow> time) \<Rightarrow> 'r list \<Rightarrow> ServerMetric list \<Rightarrow> bool" where
  "backed server time rows metrics \<longleftrightarrow> (\<forall>r \<in> set rows. (server r, time r) \<in> metric_key ` set metrics)"

text \<open>
  What is current for a server: the metric row with the greatest collection time, and exactly the device rows
  of that time.
\<close>

definition newest_part :: "('r \<Rightarrow> int) \<Rightarrow> ('r \<Rightarrow> time) \<Rightarrow> int \<Rightarrow> time \<Rightarrow> 'r list \<Rightarrow> 'r list" where
  "newest_part server time i t rows = filter (\<lambda>r. server r = i \<and> time r = t) rows"

definition table_ok :: "('c \<Rightarrow> int) \<Rightarrow> ('r list \<Rightarrow> 'c list) \<Rightarrow> ('r \<Rightarrow> int) \<Rightarrow> ('r \<Rightarrow> time) \<Rightarrow> int \<Rightarrow> time \<Rightarrow> 'c list \<Rightarrow> 'r list \<Rightarrow> bool" where
  "table_ok cur_server conv server time i t cur hist \<longleftrightarrow> filter (\<lambda>r. cur_server r = i) cur = conv (newest_part server time i t hist)"

definition newest_time :: "metric_db \<Rightarrow> int \<Rightarrow> time" where
  "newest_time db i = (case map_of (mdb_current db) i of None \<Rightarrow> 0 | Some c \<Rightarrow> ServerCurrentMetric_CollectedAt c)"

definition metric_ok :: "metric_db \<Rightarrow> int \<Rightarrow> bool" where
  "metric_ok db i \<longleftrightarrow>
     (case map_of (mdb_current db) i of
        None \<Rightarrow> (\<forall>m \<in> set (mdb_metrics db). ServerMetric_ServerID m \<noteq> i)
      | Some c \<Rightarrow>
          (\<exists>m \<in> set (mdb_metrics db). \<exists>rt. c = current_of m rt \<and> ServerMetric_ServerID m = i) \<and>
          (\<forall>m \<in> set (mdb_metrics db). ServerMetric_ServerID m = i \<longrightarrow> ServerMetric_CollectedAt m \<le> ServerCurrentMetric_CollectedAt c))"

definition current_ok :: "metric_db \<Rightarrow> int \<Rightarrow> bool" where
  "current_ok db i \<longleftrightarrow> metric_ok db i \<and>
     table_ok ServerCurrentDiskMetric_ServerID currentDiskIORows DiskMetric_ServerID DiskMetric_CollectedAt i (newest_time db i) (mdb_current_disk db) (mdb_disk db) \<and>
     table_ok ServerCurrentDiskUsageMetric_ServerID currentDiskUsageRows DiskUsageMetric_ServerID DiskUsageMetric_CollectedAt i (newest_time db i)
       (mdb_current_usage db) (mdb_usage db) \<and>
     table_ok ServerCurrentNICMetric_ServerID currentNICRows NICMetric_ServerID NICMetric_CollectedAt i (newest_time db i) (mdb_current_nic db) (mdb_nic db)"

definition db_ok :: "metric_db \<Rightarrow> bool" where
  "db_ok db \<longleftrightarrow> distinct (map metric_key (mdb_metrics db)) \<and>
     backed DiskMetric_ServerID DiskMetric_CollectedAt (mdb_disk db) (mdb_metrics db) \<and>
     backed DiskPhysicalMetric_ServerID DiskPhysicalMetric_CollectedAt (mdb_physical db) (mdb_metrics db) \<and>
     backed DiskUsageMetric_ServerID DiskUsageMetric_CollectedAt (mdb_usage db) (mdb_metrics db) \<and>
     backed NICMetric_ServerID NICMetric_CollectedAt (mdb_nic db) (mdb_metrics db) \<and> (\<forall>i. current_ok db i)"

lemma backed_append:
  assumes "backed server time rows ms" "\<And>r. r \<in> set new \<Longrightarrow> server r = ServerMetric_ServerID m \<and> time r = ServerMetric_CollectedAt m"
  shows "backed server time (rows @ new) (ms @ [m])"
  using assms by (auto simp: backed_def metric_key_def image_iff)

lemma newest_part_fresh:
  assumes "backed server time rows ms" "metric_key m \<notin> metric_key ` set ms"
    "\<And>r. r \<in> set new \<Longrightarrow> server r = ServerMetric_ServerID m \<and> time r = ServerMetric_CollectedAt m"
  shows "newest_part server time (ServerMetric_ServerID m) (ServerMetric_CollectedAt m) (rows @ new) = new"
proof -
  have "\<not> (server r = ServerMetric_ServerID m \<and> time r = ServerMetric_CollectedAt m)" if "r \<in> set rows" for r
    using assms(1,2) that unfolding backed_def by (metis metric_key_def)
  then have "newest_part server time (ServerMetric_ServerID m) (ServerMetric_CollectedAt m) rows = []"
    by (simp add: newest_part_def filter_empty_conv)
  moreover have "newest_part server time (ServerMetric_ServerID m) (ServerMetric_CollectedAt m) new = new"
    using assms(3) by (simp add: newest_part_def)
  ultimately show ?thesis by (simp add: newest_part_def)
qed

lemma newest_part_other:
  assumes "\<And>r. r \<in> set new \<Longrightarrow> server r = i \<and> time r = t" "i \<noteq> j \<or> t \<noteq> t'"
  shows "newest_part server time j t' (rows @ new) = newest_part server time j t' rows"
  using assms by (auto simp: newest_part_def filter_empty_conv)

text \<open>Replacing the current rows of one server.\<close>

lemma replaced_same: "map server new = replicate (length new) i \<Longrightarrow> filter (\<lambda>r. server r = i) (filter (\<lambda>r. server r \<noteq> i) old @ new) = new"
  by (induction new) auto

lemma replaced_other:
  "map server new = replicate (length new) i \<Longrightarrow> i \<noteq> j \<Longrightarrow> filter (\<lambda>r. server r = j) (filter (\<lambda>r. server r \<noteq> i) old @ new) = filter (\<lambda>r. server r = j) old"
  by (induction new; induction old) auto

lemma table_step:
  assumes old: "table_ok cur_server conv server time j t cur hist"
    and hist: "backed server time hist ms" "metric_key m \<notin> metric_key ` set ms"
    and new: "\<And>r. r \<in> set new \<Longrightarrow> server r = ServerMetric_ServerID m \<and> time r = ServerMetric_CollectedAt m"
    and conv: "map cur_server (conv new) = map server new"
    and t': "t' = (if u \<and> j = ServerMetric_ServerID m then ServerMetric_CollectedAt m else t)"
    and stale: "\<not> u \<Longrightarrow> j = ServerMetric_ServerID m \<Longrightarrow> t \<noteq> ServerMetric_CollectedAt m"
  shows "table_ok cur_server conv server time j t'
    (if u then filter (\<lambda>r. cur_server r \<noteq> ServerMetric_ServerID m) cur @ conv new else cur) (hist @ new)"
proof -
  have "map server new = replicate (length new) (ServerMetric_ServerID m)" using new by (induction new) auto
  moreover have "length (conv new) = length new" using conv by (metis length_map)
  ultimately have r: "map cur_server (conv new) = replicate (length (conv new)) (ServerMetric_ServerID m)" using conv by simp
  show ?thesis
  proof (cases "u \<and> j = ServerMetric_ServerID m")
    case True
    then show ?thesis
      using replaced_same [OF r, of cur] newest_part_fresh [OF hist new] by (simp add: table_ok_def t')
  next
    case False
    have "newest_part server time j t (hist @ new) = newest_part server time j t hist"
      by (rule newest_part_other [OF new]) (use False stale in auto)
    moreover have "filter (\<lambda>r. cur_server r = j) (if u then filter (\<lambda>r. cur_server r \<noteq> ServerMetric_ServerID m) cur @ conv new else cur)
        = filter (\<lambda>r. cur_server r = j) cur"
      using False replaced_other [OF r, of j cur] by (cases u) auto
    moreover have "t' = t" using False t' by auto
    ultimately show ?thesis using old by (simp add: table_ok_def)
  qed
qed

lemma metric_step:
  assumes "metric_ok db j" "SaveMetrics fault s db = Inr (u, db')"
  shows "metric_ok db' j"
proof -
  note e = SaveMetrics_Inr [OF assms(2)]
  show ?thesis
  proof (cases "j = Sample_ServerID s")
    case False
    then have "map_of (mdb_current db') j = map_of (mdb_current db) j" using e(10) by (simp add: update_conv)
    with assms(1) False e(2) show ?thesis unfolding metric_ok_def e(5) by (auto split: option.splits)
  next
    case True
    show ?thesis
    proof (cases u)
      case u: True
      then have cur: "map_of (mdb_current db') j = Some (current_of (sample_metric s) (Sample_Runtime s))" using e(10) True by (simp add: update_conv)
      have "ServerMetric_CollectedAt m \<le> sample_time s" if "m \<in> set (mdb_metrics db)" "ServerMetric_ServerID m = j" for m
        using assms(1) e(4) u that True by (force simp: metric_ok_def outdated_def split: option.splits)
      with cur e(2) True show ?thesis unfolding metric_ok_def e(5) by (auto simp: current_of_def sample_time_def)
    next
      case False
      then have "map_of (mdb_current db') j = map_of (mdb_current db) j" "outdated db j (sample_time s)" using e(4,10) True by simp_all
      with assms(1) show ?thesis unfolding metric_ok_def e(5) by (auto simp: outdated_def sample_time_def split: option.splits)
    qed
  qed
qed

lemma newest_time_step:
  assumes "SaveMetrics fault s db = Inr (u, db')"
  shows "newest_time db' j = (if u \<and> j = Sample_ServerID s then sample_time s else newest_time db j)"
    "\<not> u \<Longrightarrow> newest_time db (Sample_ServerID s) \<noteq> sample_time s"
  using SaveMetrics_Inr(4,10) [OF assms]
  by (auto simp: newest_time_def update_conv current_of_def sample_time_def outdated_def split: option.splits)

lemma SaveMetrics_ok:
  assumes ok: "db_ok db" and save: "SaveMetrics fault s db = Inr (u, db')"
  shows "db_ok db'"
proof -
  note e = SaveMetrics_Inr [OF save]
  have m: "ServerMetric_ServerID (sample_metric s) = Sample_ServerID s" "ServerMetric_CollectedAt (sample_metric s) = sample_time s"
    using e(2) by (simp_all add: sample_time_def)
  have rows: "r \<in> set (sample_disk s) \<Longrightarrow> DiskMetric_ServerID r = ServerMetric_ServerID (sample_metric s) \<and> DiskMetric_CollectedAt r = ServerMetric_CollectedAt (sample_metric s)"
    "p \<in> set (sample_physical s) \<Longrightarrow> DiskPhysicalMetric_ServerID p = ServerMetric_ServerID (sample_metric s) \<and> DiskPhysicalMetric_CollectedAt p = ServerMetric_CollectedAt (sample_metric s)"
    "x \<in> set (sample_usage s) \<Longrightarrow> DiskUsageMetric_ServerID x = ServerMetric_ServerID (sample_metric s) \<and> DiskUsageMetric_CollectedAt x = ServerMetric_CollectedAt (sample_metric s)"
    "n \<in> set (sample_nics s) \<Longrightarrow> NICMetric_ServerID n = ServerMetric_ServerID (sample_metric s) \<and> NICMetric_CollectedAt n = ServerMetric_CollectedAt (sample_metric s)" for r p x n
    using disk_rows_of physical_rows_of usage_rows_of nic_rows_of by (fastforce simp: sample_rows m)+
  note b = ok [unfolded db_ok_def]
  have "current_ok db' j" for j
  proof -
    have c: "current_ok db j" using b by blast
    have t: "newest_time db' j = (if u \<and> j = ServerMetric_ServerID (sample_metric s) then ServerMetric_CollectedAt (sample_metric s) else newest_time db j)"
      using newest_time_step(1) [OF save] m by simp
    have stale: "\<not> u \<Longrightarrow> j = ServerMetric_ServerID (sample_metric s) \<Longrightarrow> newest_time db j \<noteq> ServerMetric_CollectedAt (sample_metric s)"
      using newest_time_step(2) [OF save] m by simp
    show ?thesis unfolding current_ok_def
    proof (intro conjI)
      show "metric_ok db' j" using c metric_step [OF _ save] by (simp add: current_ok_def)
    qed (unfold e(6,8,9,11-13) m(1) [symmetric], (rule table_step [where ms = "mdb_metrics db" and t = "newest_time db j"]; (use b c e(3) rows t stale in \<open>simp add: current_ok_def m\<close>)?)+)
  qed
  moreover have "distinct (map metric_key (mdb_metrics db'))" using b e(3,5) by auto
  ultimately show ?thesis unfolding db_ok_def e(5-9) using b rows by (auto intro!: backed_append)
qed

end
