(* ===== verification/Node_Receiver.thy ===== *)
theory Node_Receiver
  imports Metric_Ingest Dash_Version
begin

text \<open>
  Accepting a report of a node: \<open>internal/nodeingest/metrics.go\<close> and \<open>identity.go\<close>, with the update a node is offered in the
  answer (\<open>internal/store/node/agent_update.go\<close>).

  The receiver holds the lock of the node while it works, and authenticates again under it, since the node may have been
  deleted or its secret given to another node meanwhile. What happens outside -- the answer of the server lookup and whether
  the lock is acquired in each attempt, database and cache errors -- is the environment. The front cache is a parameter: a state with
  the two operations the receiver calls.
\<close>

subsection \<open>Agent updates\<close>

record AgentUpdateTarget =
  Target_Version :: string
  Target_URL :: string
  Target_SHA256 :: string
  Target_Size :: int

type_synonym agent_updates = "(int, AgentUpdateTarget) gomap"

text \<open>\<open>active\<close>: the node is in the authentication cache.\<close>

definition RequestAgentUpdate :: "bool \<Rightarrow> int \<Rightarrow> AgentUpdateTarget \<Rightarrow> agent_updates \<Rightarrow> agent_updates" where
  "RequestAgentUpdate active i target ups =
     (if i \<le> 0 \<or> \<not> active then ups else AList.update i (target\<lparr>Target_Version := trim_space (Target_Version target)\<rparr>) ups)"

text \<open>The map is read under one lock and changed under another; \<open>later\<close> is its value when the second lock is taken.\<close>

definition ResolveAgentUpdate :: "semver \<Rightarrow> int \<Rightarrow> string \<Rightarrow> agent_updates \<Rightarrow> agent_updates \<Rightarrow> (version_error + AgentUpdateTarget option) \<times> agent_updates" where
  "ResolveAgentUpdate sv i current ups later =
     (if i \<le> 0 then (Inr None, later)
      else case map_of ups i of None \<Rightarrow> (Inr None, later)
      | Some state \<Rightarrow>
          (let target = state\<lparr>Target_Version := trim_space (Target_Version state)\<rparr>;
               dropped = (if map_of later i = Some state then AList.delete i later else later)
           in if Target_Version target \<noteq> []
              then case IsNodeUpdateTarget sv current (Target_Version target) of
                  Inl e \<Rightarrow> (Inl e, later)
                | Inr True \<Rightarrow> (Inr (Some target), later)
                | Inr False \<Rightarrow> (Inr None, dropped)
              else (Inr None, dropped)))"

subsection \<open>The receiver\<close>

datatype ingest_error = Unauthorized | Unavailable | InvalidMetrics | IdentityChanged | Canceled | InvalidNodeID

datatype lookup = FoundServer Server | NoServer | LookupFailed

record 'f receiver_env =
  rv_semver :: semver
  rv_acquire :: "nat \<Rightarrow> int \<Rightarrow> bool"
  rv_lookup :: "nat \<Rightarrow> lookup"
  rv_fault :: "nat \<Rightarrow> bool"
  rv_sync :: bool
  rv_put :: "'f \<Rightarrow> NodeView \<Rightarrow> int \<Rightarrow> int \<Rightarrow> bool \<times> 'f"
  rv_clear :: "'f \<Rightarrow> bool \<times> 'f"
  rv_sent_loc :: location
  rv_recv_loc :: location
  rv_stale :: int
  rv_later :: "agent_updates \<Rightarrow> agent_updates"

record 'f receiver =
  rc_db :: metric_db
  rc_front :: 'f
  rc_dirty :: dirtyQueue
  rc_updates :: agent_updates

record metricsInput =
  in_secret :: string
  in_report :: NodeReport
  in_receivedAt :: time

record validatedMetrics =
  vm_server :: Server
  vm_report :: NodeReport
  vm_metric :: ServerMetric
  vm_runtime :: MetricRuntime
  vm_snapshot :: "NodeView option"

record UpdateManifest =
  Manifest_ID :: string
  Manifest_Version :: string
  Manifest_URL :: string
  Manifest_SHA256 :: string
  Manifest_Size :: int

record Response =
  Response_OK :: bool
  Response_Update :: "UpdateManifest option"

definition Authenticate :: "string \<Rightarrow> lookup \<Rightarrow> ingest_error + Server" where
  "Authenticate secret answer =
     (if secret = [] then Inl Unauthorized
      else case answer of FoundServer s \<Rightarrow> Inr s | NoServer \<Rightarrow> Inl Unauthorized | LookupFailed \<Rightarrow> Inl Unavailable)"

definition metricsReport :: "semver \<Rightarrow> NodeReport \<Rightarrow> time \<Rightarrow> string \<Rightarrow> ingest_error + metricsInput" where
  "metricsReport sv report receivedAt secret =
     (let report = report\<lparr>NodeReport_Version := trim_space (NodeReport_Version report)\<rparr>
      in if NodeReport_Version report = [] then Inl InvalidMetrics
         else if ValidateNodeVersion sv (NodeReport_Version report) \<noteq> None then Inl InvalidMetrics
         else if blank (NodeReport_Hostname report) then Inl InvalidMetrics
         else if NodeReport_Timestamp report = 0 then Inl InvalidMetrics
         else if ValidateReport report \<noteq> None then Inl InvalidMetrics
         else Inr \<lparr>in_secret = secret, in_report = report, in_receivedAt = receivedAt\<rparr>)"

definition validateMetrics :: "location \<Rightarrow> metricsInput \<Rightarrow> Server \<Rightarrow> ingest_error + validatedMetrics" where
  "validateMetrics loc inp server =
     (let (report, reportedAtRaw) = NormalizeReport loc (Server_ID server) (Server_DisplayOrder server) (in_report inp) (in_receivedAt inp)
      in case BuildMetric (Server_ID server) (NodeReport_Metrics report) (in_receivedAt inp) reportedAtRaw of
           Inl _ \<Rightarrow> Inl InvalidMetrics
         | Inr (metric, runtime) \<Rightarrow> Inr \<lparr>vm_server = server, vm_report = report, vm_metric = metric, vm_runtime = runtime, vm_snapshot = None\<rparr>)"

text \<open>The column update and the new address: both are absent when the address is invalid or unchanged.\<close>

definition buildServerUpdates :: "Server \<Rightarrow> string option \<Rightarrow> string option" where
  "buildServerUpdates server ip = (if Server_IP server = ip then None else ip)"

definition sample_of_report :: "validatedMetrics \<Rightarrow> string option \<Rightarrow> MetricsSample" where
  "sample_of_report v ip =
     (let disk = Metrics_Disk (NodeReport_Metrics (vm_report v))
      in \<lparr>Sample_ServerID = Server_ID (vm_server v), Sample_Metric = vm_metric v, Sample_Runtime = vm_runtime v,
          Sample_IP = buildServerUpdates (vm_server v) ip, Sample_DiskIO = slice (DiskMetrics_BaseIO disk), Sample_DiskSmart = DiskMetrics_Smart disk,
          Sample_DiskUsage = slice (DiskMetrics_Logical disk), Sample_Network = slice (Metrics_Network (NodeReport_Metrics (vm_report v)))\<rparr>)"

definition refreshFrontSnapshot :: "'f receiver_env \<Rightarrow> NodeView \<Rightarrow> NodeReport \<Rightarrow> 'f \<Rightarrow> bool \<times> 'f" where
  "refreshFrontSnapshot env node report front =
     rv_put env front node (MemoryMetrics_Total (Metrics_Memory (NodeReport_Metrics report))) (MemoryMetrics_SwapTotal (Metrics_Memory (NodeReport_Metrics report)))"

definition persistMetrics :: "'f receiver_env \<Rightarrow> bool \<Rightarrow> validatedMetrics \<Rightarrow> string option \<Rightarrow> 'f receiver \<Rightarrow>
    (ingest_error + bool \<times> validatedMetrics) \<times> 'f receiver" where
  "persistMetrics env fault v ip rc =
     (let nextIP = buildServerUpdates (vm_server v) ip
      in case SaveMetrics fault (sample_of_report v ip) (rc_db rc) of
           Inl _ \<Rightarrow> (Inl Unavailable, rc)
         | Inr (currentUpdated, db) \<Rightarrow>
             (let rc1 = rc\<lparr>rc_db := db\<rparr>;
                  v1 = (if currentUpdated \<and> nextIP \<noteq> None then v\<lparr>vm_server := (vm_server v)\<lparr>Server_IP := nextIP\<rparr>\<rparr> else v)
              in if currentUpdated \<and> nextIP \<noteq> None \<and> \<not> rv_sync env then (Inl Unavailable, rc1)
                 else if currentUpdated
                 then (let view = BuildNodeView (rv_recv_loc env) (vm_server v1) (vm_report v1) (rv_stale env);
                           (ok, front) = refreshFrontSnapshot env view (vm_report v1) (rc_front rc1);
                           front = (if ok then front else snd (rv_clear env front))
                       in (Inr (True, v1\<lparr>vm_snapshot := Some view\<rparr>), rc1\<lparr>rc_front := front\<rparr>))
                 else (Inr (False, v1), rc1)))"

definition attempt :: "'f receiver_env \<Rightarrow> metricsInput \<Rightarrow> string option \<Rightarrow> nat \<Rightarrow> Server \<Rightarrow> 'f receiver \<Rightarrow>
    (ingest_error + validatedMetrics) \<times> Server \<times> 'f receiver" where
  "attempt env inp ip k server rc =
     (let lockedID = Server_ID server
      in if lockedID \<le> 0 then (Inl InvalidNodeID, server, rc)
         else if \<not> rv_acquire env k lockedID then (Inl Canceled, server, rc)
         else case Authenticate (in_secret inp) (rv_lookup env k) of
             Inl e \<Rightarrow> (Inl e, server, rc)
           | Inr current \<Rightarrow>
               if Server_ID current \<noteq> lockedID then (Inl IdentityChanged, current, rc)
               else (case validateMetrics (rv_sent_loc env) inp current of
                   Inl e \<Rightarrow> (Inl e, server, rc)
                 | Inr v \<Rightarrow>
                     (case persistMetrics env (rv_fault env k) v ip rc of
                        (Inl e, rc1) \<Rightarrow> (Inl e, server, rc1)
                      | (Inr (currentUpdated, v1), rc1) \<Rightarrow>
                          (Inr v1, server, if currentUpdated \<and> vm_snapshot v1 \<noteq> None
                             then rc1\<lparr>rc_dirty := mark (rc_dirty rc1) (Server_ID (vm_server v1)) (vm_snapshot v1)\<rparr> else rc1))))"

definition metricsIdentityAttempts :: nat where "metricsIdentityAttempts = 3"

fun attempts :: "'f receiver_env \<Rightarrow> metricsInput \<Rightarrow> string option \<Rightarrow> nat \<Rightarrow> nat \<Rightarrow> Server \<Rightarrow> 'f receiver \<Rightarrow> (ingest_error + validatedMetrics) \<times> 'f receiver" where
  "attempts env inp ip k 0 server rc = (Inl IdentityChanged, rc)"
| "attempts env inp ip k (Suc n) server rc =
     (case attempt env inp ip k server rc of
        (Inl IdentityChanged, server1, rc1) \<Rightarrow> attempts env inp ip (Suc k) n server1 rc1
      | (res, server1, rc1) \<Rightarrow> (res, rc1))"

definition metricsResponse :: "'f receiver_env \<Rightarrow> validatedMetrics \<Rightarrow> 'f receiver \<Rightarrow> Response \<times> 'f receiver" where
  "metricsResponse env v rc =
     (let (res, ups) = ResolveAgentUpdate (rv_semver env) (Server_ID (vm_server v)) (NodeReport_Version (vm_report v)) (rc_updates rc) (rv_later env (rc_updates rc))
      in (\<lparr>Response_OK = True, Response_Update = (case res of Inr (Some t) \<Rightarrow>
              Some \<lparr>Manifest_ID = Target_Version t, Manifest_Version = Target_Version t, Manifest_URL = Target_URL t, Manifest_SHA256 = Target_SHA256 t,
                Manifest_Size = Target_Size t\<rparr> | _ \<Rightarrow> None)\<rparr>, rc\<lparr>rc_updates := ups\<rparr>))"

definition ReceiveMetrics :: "'f receiver_env \<Rightarrow> string \<Rightarrow> Server \<Rightarrow> NodeReport \<Rightarrow> time \<Rightarrow> string option \<Rightarrow> 'f receiver \<Rightarrow>
    (ingest_error + Response) \<times> 'f receiver" where
  "ReceiveMetrics env secret server report receivedAt ip rc =
     (case metricsReport (rv_semver env) report receivedAt secret of
        Inl e \<Rightarrow> (Inl e, rc)
      | Inr inp \<Rightarrow>
          (case attempts env inp ip 0 metricsIdentityAttempts server rc of
             (Inl e, rc1) \<Rightarrow> (Inl (if e = IdentityChanged \<or> e = Canceled then Unavailable else e), rc1)
           | (Inr v, rc1) \<Rightarrow> (let (resp, rc2) = metricsResponse env v rc1 in (Inr resp, rc2))))"

end
