(* ===== verification/Node_Saving.thy ===== *)
theory Node_Saving
  imports Node_Receiver
begin

text \<open>
  What the tables do with an accepted report: it is stored (\<open>accepted_is_saved\<close>: no bound of a column and no key of a table
  refuses what validation has let through), and over any history of stored samples the current tables keep their invariant.
\<close>

subsection \<open>Text the database can hold\<close>

definition base_io_text :: "DiskBaseIOMetrics \<Rightarrow> string list" where
  "base_io_text x = [DiskBaseIOMetrics_Name x, DiskBaseIOMetrics_Ref x, DiskBaseIOMetrics_Kind x, DiskBaseIOMetrics_Role x, DiskBaseIOMetrics_DevicePath x]"

definition logical_text :: "DiskLogicalMetrics \<Rightarrow> string list" where
  "logical_text x = [DiskLogicalMetrics_Name x, DiskLogicalMetrics_Ref x, DiskLogicalMetrics_Kind x, DiskLogicalMetrics_Mountpoint x,
     DiskLogicalMetrics_DevicePath x, DiskLogicalMetrics_Health x, DiskLogicalMetrics_Level x] @ DiskLogicalMetrics_Devices x
     @ map (\<lambda>mp. DiskMountpointMetrics_FSType (snd mp)) (DiskLogicalMetrics_Mountpoints x)"

definition device_text :: "DiskSmartDevice \<Rightarrow> string list" where
  "device_text d = [DiskSmartDevice_Name d, DiskSmartDevice_Ref d, DiskSmartDevice_DevicePath d]"

definition smart_devices :: "Metrics \<Rightarrow> DiskSmartDevice list" where
  "smart_devices m = (case DiskMetrics_Smart (Metrics_Disk m) of None \<Rightarrow> [] | Some s \<Rightarrow> slice (DiskSmart_Devices s))"

definition trimmed_text :: "Metrics \<Rightarrow> string list" where
  "trimmed_text m = concat (map base_io_text (slice (DiskMetrics_BaseIO (Metrics_Disk m)))) @ concat (map logical_text (slice (DiskMetrics_Logical (Metrics_Disk m))))
     @ concat (map device_text (smart_devices m)) @ map NetIOMetrics_Name (slice (Metrics_Network m))
     @ map RaidArray_Health (slice (RaidMetrics_Arrays (Metrics_Raid m)))"

definition document_text :: "Metrics \<Rightarrow> string list" where
  "document_text m = raid_text (Metrics_Raid m) @ (case Metrics_Thermal m of None \<Rightarrow> [] | Some t \<Rightarrow> thermal_text t)"

text \<open>Valid UTF-8 without zero bytes: what a node sends in any text that reaches the database.\<close>

definition storable :: "Metrics \<Rightarrow> bool" where
  "storable m \<longleftrightarrow> list_all (\<lambda>s. pg_text (trim_space s)) (trimmed_text m) \<and> list_all pg_text (document_text m)"

lemma storable_text:
  assumes "storable m"
  shows "x \<in> set (slice (DiskMetrics_BaseIO (Metrics_Disk m))) \<Longrightarrow> list_all (\<lambda>s. pg_text (trim_space s)) (base_io_text x)"
    "l \<in> set (slice (DiskMetrics_Logical (Metrics_Disk m))) \<Longrightarrow> list_all (\<lambda>s. pg_text (trim_space s)) (logical_text l)"
    "d \<in> set (smart_devices m) \<Longrightarrow> list_all (\<lambda>s. pg_text (trim_space s)) (device_text d)"
    "n \<in> set (slice (Metrics_Network m)) \<Longrightarrow> pg_text (trim_space (NetIOMetrics_Name n))"
    "a \<in> set (slice (RaidMetrics_Arrays (Metrics_Raid m))) \<Longrightarrow> pg_text (trim_space (RaidArray_Health a))"
  using assms unfolding storable_def trimmed_text_def list_all_iff by auto

lemma fits_varchar: "text_fits k s \<Longrightarrow> pg_text (trim_space s) \<Longrightarrow> k \<le> int n \<Longrightarrow> varchar n (trim_space s)"
  by (simp add: text_fits_def varchar_def)

lemma pg_empty: "pg_text []"
  by code_simp

lemma varchar_empty: "varchar n []"
  by (simp add: varchar_def pg_empty rune_count_def string_runes_def runes_of.simps)

lemma or_name_fits:
  assumes "text_fits maxDiskNameChars name" "text_fits maxDiskRefChars ref" "pg_text (trim_space name)" "pg_text (trim_space ref)"
  shows "varchar 320 (or_name ref name)"
  using assms by (auto simp: or_name_def text_bounds intro: fits_varchar)

subsection \<open>The rows of an accepted report fit\<close>


lemma tagged_distinct: "distinct ns \<Longrightarrow> distinct (map (\<lambda>n. (i, n, t)) ns)" "distinct ns \<Longrightarrow> distinct (map (\<lambda>n. (i, n)) ns)"
  by (simp_all add: distinct_map inj_on_def)

lemma disk_rows_fit:
  assumes "validateDiskBaseIO (slice (DiskMetrics_BaseIO (Metrics_Disk m))) = None" "storable m"
  shows "list_all disk_fits (buildDiskIORows i t (slice (DiskMetrics_BaseIO (Metrics_Disk m))))"
    "distinct (map disk_key (buildDiskIORows i t (slice (DiskMetrics_BaseIO (Metrics_Disk m)))))"
    "distinct (map (\<lambda>r. (ServerCurrentDiskMetric_ServerID r, ServerCurrentDiskMetric_Name r))
       (currentDiskIORows (buildDiskIORows i t (slice (DiskMetrics_BaseIO (Metrics_Disk m))))))"
proof -
  let ?xs = "slice (DiskMetrics_BaseIO (Metrics_Disk m))"
  have "disk_fits (disk_row i t x)" if x: "x \<in> set ?xs" for x
    using accepted_base_io(2) [OF assms(1) x] storable_text(1) [OF assms(2) x]
    by (auto simp: disk_fits_def disk_row_def base_io_text_def text_bounds intro!: or_name_fits fits_varchar)
  then show "list_all disk_fits (buildDiskIORows i t ?xs)" by (auto simp: buildDiskIORows_def list_all_iff)
  note d = accepted_base_io(1) [OF assms(1)]
  have "map disk_key (buildDiskIORows i t ?xs) = map (\<lambda>n. (i, n, t)) (map (\<lambda>x. trim_space (DiskBaseIOMetrics_Name x)) ?xs)"
    by (simp add: buildDiskIORows_def disk_key_def disk_row_def)
  then show "distinct (map disk_key (buildDiskIORows i t ?xs))" using tagged_distinct(1) [OF d] by simp
  have "map (\<lambda>r. (ServerCurrentDiskMetric_ServerID r, ServerCurrentDiskMetric_Name r)) (currentDiskIORows (buildDiskIORows i t ?xs))
      = map (\<lambda>n. (i, n)) (map (\<lambda>x. trim_space (DiskBaseIOMetrics_Name x)) ?xs)"
    by (simp add: buildDiskIORows_def currentDiskIORows_def disk_row_def)
  then show "distinct (map (\<lambda>r. (ServerCurrentDiskMetric_ServerID r, ServerCurrentDiskMetric_Name r)) (currentDiskIORows (buildDiskIORows i t ?xs)))"
    using tagged_distinct(2) [OF d] by simp
qed

lemma fs_type_fits:
  assumes "logical_accepted x" "\<And>s. s \<in> (\<lambda>mp. DiskMountpointMetrics_FSType (snd mp)) ` set (DiskLogicalMetrics_Mountpoints x) \<Longrightarrow> pg_text (trim_space s)"
  shows "varchar 32 (mountpointFSType x mp)"
proof (cases "mp = [] \<or> map_of (DiskLogicalMetrics_Mountpoints x) mp = None")
  case True
  then show ?thesis by (auto simp: mountpointFSType_def varchar_empty)
next
  case False
  then obtain info where info: "mp \<noteq> []" "map_of (DiskLogicalMetrics_Mountpoints x) mp = Some info" by auto
  then have "(mp, info) \<in> set (DiskLogicalMetrics_Mountpoints x)" by (simp add: map_of_SomeD)
  with assms have "text_fits maxFSTypeChars (DiskMountpointMetrics_FSType info)" "pg_text (trim_space (DiskMountpointMetrics_FSType info))"
    by (force simp: logical_accepted_def list_all_iff)+
  with info show ?thesis by (auto simp: mountpointFSType_def text_bounds intro!: fits_varchar)
qed

lemma clean_items_from: "y \<in> set (clean_items seen xs) \<Longrightarrow> \<exists>x \<in> set xs. y = trim_space x"
  by (induction seen xs rule: clean_items.induct) (auto simp: Let_def split: if_splits)

lemma usage_rows_fit:
  assumes "validateDiskLogical (slice (DiskMetrics_Logical (Metrics_Disk m))) = None" "storable m"
  shows "list_all usage_fits (buildDiskUsageRows i t (slice (DiskMetrics_Logical (Metrics_Disk m))))"
    "distinct (map usage_key (buildDiskUsageRows i t (slice (DiskMetrics_Logical (Metrics_Disk m)))))"
    "distinct (map (\<lambda>r. (ServerCurrentDiskUsageMetric_ServerID r, ServerCurrentDiskUsageMetric_Name r))
       (currentDiskUsageRows (buildDiskUsageRows i t (slice (DiskMetrics_Logical (Metrics_Disk m))))))"
proof -
  let ?xs = "slice (DiskMetrics_Logical (Metrics_Disk m))"
  have "usage_fits (usage_row i t x)" if x: "x \<in> set ?xs" for x
  proof -
    have a: "logical_accepted x" by (rule accepted_logical(2) [OF assms(1) x])
    have p: "pg_text (trim_space s)" if "s \<in> set (logical_text x)" for s
      using storable_text(2) [OF assms(2) x] that by (simp add: list_all_iff)
    have "pg_text y" if y: "y \<in> set (clean_items [] (DiskLogicalMetrics_Devices x))" for y
      using clean_items_from [OF y] p by (auto simp: logical_text_def)
    then have "list_all pg_text (sanitizeDevices (DiskLogicalMetrics_Devices x))" by (simp add: list_all_iff sanitizeDevices_def)
    moreover have "varchar 32 (mountpointFSType x mp)" for mp by (rule fs_type_fits [OF a]) (use p in \<open>auto simp: logical_text_def\<close>)
    moreover have "pg_text (trim_space (DiskLogicalMetrics_Name x))" "pg_text (trim_space (DiskLogicalMetrics_Ref x))"
      "pg_text (trim_space (DiskLogicalMetrics_Kind x))" "pg_text (trim_space (DiskLogicalMetrics_Mountpoint x))" "pg_text (trim_space (DiskLogicalMetrics_DevicePath x))"
      "pg_text (trim_space (DiskLogicalMetrics_Health x))" "pg_text (trim_space (DiskLogicalMetrics_Level x))"
      by (simp_all add: p logical_text_def)
    ultimately show ?thesis using a unfolding usage_fits_def usage_row_def logical_accepted_def
      by (auto simp: text_bounds intro!: or_name_fits fits_varchar)
  qed
  then show "list_all usage_fits (buildDiskUsageRows i t ?xs)" by (auto simp: buildDiskUsageRows_def list_all_iff)
  note d = accepted_logical(1) [OF assms(1)]
  have "map usage_key (buildDiskUsageRows i t ?xs) = map (\<lambda>n. (i, n, t)) (map (\<lambda>x. trim_space (DiskLogicalMetrics_Name x)) ?xs)"
    by (simp add: buildDiskUsageRows_def usage_key_def usage_row_def)
  then show "distinct (map usage_key (buildDiskUsageRows i t ?xs))" using tagged_distinct(1) [OF d] by simp
  have "map (\<lambda>r. (ServerCurrentDiskUsageMetric_ServerID r, ServerCurrentDiskUsageMetric_Name r)) (currentDiskUsageRows (buildDiskUsageRows i t ?xs))
      = map (\<lambda>n. (i, n)) (map (\<lambda>x. trim_space (DiskLogicalMetrics_Name x)) ?xs)"
    by (simp add: buildDiskUsageRows_def currentDiskUsageRows_def usage_row_def)
  then show "distinct (map (\<lambda>r. (ServerCurrentDiskUsageMetric_ServerID r, ServerCurrentDiskUsageMetric_Name r)) (currentDiskUsageRows (buildDiskUsageRows i t ?xs)))"
    using tagged_distinct(2) [OF d] by simp
qed

lemma nic_rows_fit:
  assumes "validateNetwork (slice (Metrics_Network m)) = None" "storable m"
  shows "list_all nic_fits (buildNICRows i t (slice (Metrics_Network m)))" "distinct (map nic_key (buildNICRows i t (slice (Metrics_Network m))))"
    "distinct (map (\<lambda>r. (ServerCurrentNICMetric_ServerID r, ServerCurrentNICMetric_Iface r)) (currentNICRows (buildNICRows i t (slice (Metrics_Network m)))))"
proof -
  let ?xs = "slice (Metrics_Network m)"
  note n = accepted_network(2) [OF assms(1)]
  then have all: "filter (\<lambda>item. \<not> blank (NetIOMetrics_Name item)) ?xs = ?xs" by (simp add: filter_id_conv)
  have "nic_fits (nic_row i t x)" if x: "x \<in> set ?xs" for x
    using n [OF x] storable_text(4) [OF assms(2) x]
    by (auto simp: nic_fits_def nic_row_def text_bounds intro!: fits_varchar)
  then show "list_all nic_fits (buildNICRows i t ?xs)" by (auto simp: buildNICRows_def list_all_iff)
  note d = accepted_network(1) [OF assms(1)]
  have "map nic_key (buildNICRows i t ?xs) = map (\<lambda>n. (i, n, t)) (map (\<lambda>x. trim_space (NetIOMetrics_Name x)) ?xs)"
    by (simp add: buildNICRows_def all nic_key_def nic_row_def)
  then show "distinct (map nic_key (buildNICRows i t ?xs))" using tagged_distinct(1) [OF d] by simp
  have "map (\<lambda>r. (ServerCurrentNICMetric_ServerID r, ServerCurrentNICMetric_Iface r)) (currentNICRows (buildNICRows i t ?xs))
      = map (\<lambda>n. (i, n)) (map (\<lambda>x. trim_space (NetIOMetrics_Name x)) ?xs)"
    by (simp add: buildNICRows_def all currentNICRows_def nic_row_def)
  then show "distinct (map (\<lambda>r. (ServerCurrentNICMetric_ServerID r, ServerCurrentNICMetric_Iface r)) (currentNICRows (buildNICRows i t ?xs)))"
    using tagged_distinct(2) [OF d] by simp
qed

lemma temperature_devices_distinct:
  "distinct (map (\<lambda>d. trim_space (DiskSmartDevice_Name d)) (temperature_devices seen ds)) \<and>
   set (map (\<lambda>d. trim_space (DiskSmartDevice_Name d)) (temperature_devices seen ds)) \<inter> set seen = {} \<and> set (temperature_devices seen ds) \<subseteq> set ds"
  by (induction seen ds rule: temperature_devices.induct) (auto simp: Let_def)

lemma physical_rows_fit:
  assumes "\<And>s. DiskMetrics_Smart (Metrics_Disk m) = Some s \<Longrightarrow> validateDiskSmart s = None" "storable m"
  shows "list_all physical_fits (buildDiskPhysicalRows i t (DiskMetrics_Smart (Metrics_Disk m)))"
    "distinct (map physical_key (buildDiskPhysicalRows i t (DiskMetrics_Smart (Metrics_Disk m))))"
proof -
  have *: "list_all physical_fits (buildDiskPhysicalRows i t (DiskMetrics_Smart (Metrics_Disk m))) \<and>
    distinct (map physical_key (buildDiskPhysicalRows i t (DiskMetrics_Smart (Metrics_Disk m))))"
  proof (cases "DiskMetrics_Smart (Metrics_Disk m)")
    case (Some s)
    let ?ds = "temperature_devices [] (slice (DiskSmart_Devices s))"
    note td = temperature_devices_distinct [of "[]" "slice (DiskSmart_Devices s)"]
    have f: "physical_fits (physical_row i t d)" if dd: "d \<in> set ?ds" for d
    proof -
      have d: "d \<in> set (slice (DiskSmart_Devices s))" using td dd by auto
      then have "d \<in> set (smart_devices m)" by (simp add: smart_devices_def Some)
      from accepted_smart [OF assms(1) [OF Some] d] storable_text(3) [OF assms(2) this] show ?thesis
        by (auto simp: physical_fits_def physical_row_def device_text_def text_bounds intro!: or_name_fits fits_varchar)
    qed
    have k: "map physical_key (map (physical_row i t) ?ds) = map (\<lambda>n. (i, n, t)) (map (\<lambda>d. trim_space (DiskSmartDevice_Name d)) ?ds)"
      by (simp add: physical_key_def physical_row_def)
    have "distinct (map physical_key (map (physical_row i t) ?ds))" unfolding k by (rule tagged_distinct(1)) (use td in blast)
    then show ?thesis using f by (simp add: Some buildDiskPhysicalRows_def list_all_iff del: map_map)
  qed (simp add: buildDiskPhysicalRows_def)
  then show "list_all physical_fits (buildDiskPhysicalRows i t (DiskMetrics_Smart (Metrics_Disk m)))"
    "distinct (map physical_key (buildDiskPhysicalRows i t (DiskMetrics_Smart (Metrics_Disk m))))" by simp_all
qed

lemma health_from_cases: "health_from status xs = status \<or> (\<exists>a \<in> set xs. health_from status xs = trim_space (RaidArray_Health a))"
  by (induction status xs rule: health_from.induct) (force simp: Let_def)+

lemma healthy_fits: "varchar 16 ''healthy''"
  by code_simp

lemma health_fits:
  assumes "validateRaidArrays (slice (RaidMetrics_Arrays (Metrics_Raid m))) = None" "storable m"
  shows "varchar 16 (raidOverallHealth (Metrics_Raid m))"
proof -
  have "varchar 16 (trim_space (RaidArray_Health a))" if a: "a \<in> set (slice (RaidMetrics_Arrays (Metrics_Raid m)))" for a
    using accepted_raid [OF assms(1) a] storable_text(5) [OF assms(2) a] by (auto simp: text_bounds intro!: fits_varchar)
  with health_from_cases [of "''healthy''" "slice (RaidMetrics_Arrays (Metrics_Raid m))"] show ?thesis
    by (auto simp: raidOverallHealth_def varchar_empty healthy_fits)
qed

lemma documents_valid:
  assumes "storable m"
  shows "list_all valid_text (raid_text (Metrics_Raid m))" "thermal_valid (Metrics_Thermal m)"
  using assms by (auto simp: storable_def document_text_def thermal_valid_def pg_text_def list_all_iff split: option.splits)

lemma runtime_stored:
  assumes "ToSnapshot m = Inr snap" "storable m"
  shows "runtime_fits (MetricsSnapshot_Runtime snap)"
proof -
  obtain doc net where s: "snap = \<lparr>MetricsSnapshot_Values = applyPressureSnapshot (snapshot_values m net) (Metrics_Pressure m),
       MetricsSnapshot_Runtime = \<lparr>MetricRuntime_Raid = Document (marshal_raid (Metrics_Raid m)), MetricRuntime_Thermal = doc\<rparr>\<rparr>"
    and doc: "case normalizeThermal (Metrics_Thermal m) of None \<Rightarrow> doc = NoDocument | Some t \<Rightarrow> \<exists>d. marshal_thermal t = Some d \<and> doc = Document d"
    using assms(1) by (rule ToSnapshot_cases)
  have raid: "list_all (\<lambda>s. CHR 0x00 \<notin> set s) (raid_text (marshal_raid (Metrics_Raid m)))"
    using assms(2) by (simp add: marshal_raid_id [OF documents_valid(1) [OF assms(2)]] storable_def document_text_def pg_text_def list_all_iff)
  have "(case doc of Document t \<Rightarrow> list_all (\<lambda>s. CHR 0x00 \<notin> set s) (thermal_text t) | NoDocument \<Rightarrow> True | BadDocument \<Rightarrow> False)"
  proof (cases "normalizeThermal (Metrics_Thermal m)")
    case (Some u)
    then obtain t d where t: "Metrics_Thermal m = Some t" and d: "marshal_thermal u = Some d" "doc = Document d"
      using doc by (cases "Metrics_Thermal m") (auto simp: normalizeThermal_def)
    have sub: "set (thermal_text u) \<subseteq> set (thermal_text t)" using normal_thermal_text Some t by metis
    have p: "list_all pg_text (thermal_text t)" using assms(2) t by (simp add: storable_def document_text_def)
    have "d = u" by (rule marshal_thermal_id [OF d(1)]) (use sub p in \<open>auto simp: list_all_iff pg_text_def\<close>)
    with d sub p show ?thesis by (auto simp: list_all_iff pg_text_def)
  qed (use doc in simp)
  with raid show ?thesis by (simp add: s runtime_fits_def)
qed

lemma backed_fresh:
  assumes "backed server time rows ms" "(i, t) \<notin> metric_key ` set ms" "r \<in> set rows"
  shows "\<not> (server r = i \<and> time r = t)"
  using assms by (auto simp: backed_def)

subsection \<open>Saving an accepted report\<close>

lemma create_new_rows:
  assumes "list_all fits rows" "distinct (map key rows)" "\<And>r. r \<in> set rows \<Longrightarrow> server r = i \<and> time r = t"
    "backed server time table ms" "(i, t) \<notin> metric_key ` set ms" "\<And>r r'. key r = key r' \<Longrightarrow> server r = server r' \<and> time r = time r'"
  shows "create_rows key fits rows table = Inr (table @ rows)"
proof -
  have "key r \<notin> key ` set table" if r: "r \<in> set rows" for r
  proof
    assume "key r \<in> key ` set table"
    then obtain r' where r': "r' \<in> set table" "key r = key r'" by blast
    have "server r' = i \<and> time r' = t" using assms(6) [OF r'(2)] assms(3) [OF r] by simp
    with backed_fresh [OF assms(4,5) r'(1)] show False by blast
  qed
  with assms(1,2) show ?thesis unfolding create_rows_Inr by simp
qed

lemma replace_new_rows:
  assumes "distinct (map key rows)" "map server rows = replicate (length rows) i" "\<And>r r'. key r = key r' \<Longrightarrow> server r = server r'"
  shows "replace_rows server key i rows table = Inr (filter (\<lambda>r. server r \<noteq> i) table @ rows)"
proof -
  have i: "server r = i" if r: "r \<in> set rows" for r
  proof -
    have "server r \<in> set (map server rows)" using r by simp
    then show ?thesis unfolding assms(2) by simp
  qed
  have "key r \<notin> key ` set (filter (\<lambda>r. server r \<noteq> i) table)" if r: "r \<in> set rows" for r
  proof
    assume "key r \<in> key ` set (filter (\<lambda>r. server r \<noteq> i) table)"
    then obtain r' where "server r' \<noteq> i" "key r = key r'" by auto
    with assms(3) i [OF r] show False by metis
  qed
  with assms(1) show ?thesis unfolding replace_rows_def create_rows_Inr by (simp add: list_all_iff)
qed

lemma current_row_servers:
  "map ServerCurrentDiskMetric_ServerID (currentDiskIORows (buildDiskIORows i t ds)) = replicate (length (currentDiskIORows (buildDiskIORows i t ds))) i"
  "map ServerCurrentDiskUsageMetric_ServerID (currentDiskUsageRows (buildDiskUsageRows i t us)) = replicate (length (currentDiskUsageRows (buildDiskUsageRows i t us))) i"
  "map ServerCurrentNICMetric_ServerID (currentNICRows (buildNICRows i t ns)) = replicate (length (currentNICRows (buildNICRows i t ns))) i"
  by (simp_all add: currentDiskIORows_def buildDiskIORows_def disk_row_def currentDiskUsageRows_def buildDiskUsageRows_def usage_row_def
      currentNICRows_def buildNICRows_def nic_row_def map_replicate_const comp_def)

lemma save_current_succeeds:
  assumes "runtime_fits rt"
    "distinct (map (\<lambda>r. (ServerCurrentDiskMetric_ServerID r, ServerCurrentDiskMetric_Name r)) (currentDiskIORows (buildDiskIORows i t ds)))"
    "distinct (map (\<lambda>r. (ServerCurrentDiskUsageMetric_ServerID r, ServerCurrentDiskUsageMetric_Name r)) (currentDiskUsageRows (buildDiskUsageRows i t us)))"
    "distinct (map (\<lambda>r. (ServerCurrentNICMetric_ServerID r, ServerCurrentNICMetric_Iface r)) (currentNICRows (buildNICRows i t ns)))"
  shows "\<exists>u db'. saveCurrentMetrics i m rt (buildDiskIORows i t ds) (buildDiskUsageRows i t us) (buildNICRows i t ns) db = Inr (u, db')"
  using replace_new_rows [OF assms(2) current_row_servers(1)] replace_new_rows [OF assms(3) current_row_servers(2)]
    replace_new_rows [OF assms(4) current_row_servers(3)] assms(1)
  by (auto simp: saveCurrentMetrics_def Let_def replaceCurrentDiskIO_def replaceCurrentDiskUsage_def replaceCurrentNICs_def split: option.split)

lemma metricsReport_Inr:
  assumes "metricsReport sv report receivedAt secret = Inr inp"
  shows "in_receivedAt inp = receivedAt" "in_secret inp = secret" "NodeReport_Metrics (in_report inp) = NodeReport_Metrics report"
    "ValidateReport (in_report inp) = None" "NodeReport_Timestamp (in_report inp) = NodeReport_Timestamp report" "NodeReport_Timestamp report \<noteq> 0"
  using assms by (auto simp: metricsReport_def Let_def split: if_splits)

lemma validateMetrics_Inr:
  assumes "validateMetrics loc inp server = Inr v"
  obtains snap where "ToSnapshot (NodeReport_Metrics (in_report inp)) = Inr snap" "vm_server v = server"
    "NodeReport_Metrics (vm_report v) = NodeReport_Metrics (in_report inp)" "vm_runtime v = MetricsSnapshot_Runtime snap" "vm_snapshot v = None"
    "vm_metric v = \<lparr>ServerMetric_ServerID = Server_ID server, ServerMetric_CollectedAt = in_receivedAt inp,
       ServerMetric_ReportedAt = ParseReportedAt (FormatTimestamp loc (NodeReport_Timestamp (in_report inp))), ServerMetric_Values = MetricsSnapshot_Values snap\<rparr>"
  using assms by (auto simp: validateMetrics_def NormalizeReport_def BuildMetric_def Let_def split: sum.splits)

lemma accepted_is_saved:
  assumes inp: "metricsReport sv report receivedAt secret = Inr inp" and v: "validateMetrics loc inp server = Inr v"
    and m: "storable (NodeReport_Metrics report)" and db: "db_ok db" "Server_ID server \<in> Server_ID ` set (mdb_servers db)"
    and fresh: "(Server_ID server, pg_time receivedAt) \<notin> metric_key ` set (mdb_metrics db)" and pos: "0 < Server_ID server" "receivedAt \<noteq> 0"
  shows "\<exists>db'. SaveMetrics False (sample_of_report v ip) db = Inr (\<not> outdated db (Server_ID server) (pg_time receivedAt), db')"
proof -
  define i t s where "i = Server_ID server" and "t = pg_time receivedAt" and "s = sample_of_report v ip"
  let ?m = "NodeReport_Metrics report"
  note r = metricsReport_Inr [OF inp]
  obtain snap where snap: "ToSnapshot ?m = Inr snap" and vm: "vm_server v = server" "NodeReport_Metrics (vm_report v) = ?m" "vm_runtime v = MetricsSnapshot_Runtime snap"
    and metric: "vm_metric v = \<lparr>ServerMetric_ServerID = Server_ID server, ServerMetric_CollectedAt = receivedAt,
       ServerMetric_ReportedAt = ParseReportedAt (FormatTimestamp loc (NodeReport_Timestamp (in_report inp))), ServerMetric_Values = MetricsSnapshot_Values snap\<rparr>"
    using v r by (elim validateMetrics_Inr) simp
  have s: "Sample_ServerID s = i" "Sample_Metric s = vm_metric v" "Sample_Runtime s = MetricsSnapshot_Runtime snap" "sample_time s = t"
    by (simp_all add: s_def i_def t_def sample_of_report_def vm Let_def sample_time_def sample_metric_def stored_metric_def metric)
  have sm: "ServerMetric_ServerID (sample_metric s) = i" "ServerMetric_CollectedAt (sample_metric s) = t" "ServerMetric_Values (sample_metric s) = MetricsSnapshot_Values snap"
    by (simp_all add: sample_metric_def stored_metric_def s metric i_def t_def)
  have rows: "sample_disk s = buildDiskIORows i t (slice (DiskMetrics_BaseIO (Metrics_Disk ?m)))" "sample_physical s = buildDiskPhysicalRows i t (DiskMetrics_Smart (Metrics_Disk ?m))"
    "sample_usage s = buildDiskUsageRows i t (slice (DiskMetrics_Logical (Metrics_Disk ?m)))" "sample_nics s = buildNICRows i t (slice (Metrics_Network ?m))"
    by (simp_all add: sample_rows s) (simp_all add: s_def sample_of_report_def vm Let_def)
  note a = accepted_report [OF r(4), unfolded r(3)]
  note b = db(1) [unfolded db_ok_def]
  have f: "(i, t) \<notin> metric_key ` set (mdb_metrics db)" using fresh by (simp add: i_def t_def)
  have bd: "backed DiskMetric_ServerID DiskMetric_CollectedAt (mdb_disk db) (mdb_metrics db)"
    and bp: "backed DiskPhysicalMetric_ServerID DiskPhysicalMetric_CollectedAt (mdb_physical db) (mdb_metrics db)"
    and bu: "backed DiskUsageMetric_ServerID DiskUsageMetric_CollectedAt (mdb_usage db) (mdb_metrics db)"
    and bn: "backed NICMetric_ServerID NICMetric_CollectedAt (mdb_nic db) (mdb_metrics db)" using b by blast+
  have disk: "create_rows disk_key disk_fits (sample_disk s) (mdb_disk db) = Inr (mdb_disk db @ sample_disk s)" unfolding rows
    by (rule create_new_rows [OF disk_rows_fit(1,2) [OF a(1) m] disk_rows_of bd f]) (auto simp: disk_key_def)
  have physical: "create_rows physical_key physical_fits (sample_physical s) (mdb_physical db) = Inr (mdb_physical db @ sample_physical s)" unfolding rows
    by (rule create_new_rows [OF physical_rows_fit [OF a(5) m] physical_rows_of bp f]) (auto simp: physical_key_def)
  have usage: "create_rows usage_key usage_fits (sample_usage s) (mdb_usage db) = Inr (mdb_usage db @ sample_usage s)" unfolding rows
    by (rule create_new_rows [OF usage_rows_fit(1,2) [OF a(2) m] usage_rows_of bu f]) (auto simp: usage_key_def)
  have nics: "create_rows nic_key nic_fits (sample_nics s) (mdb_nic db) = Inr (mdb_nic db @ sample_nics s)" unfolding rows
    by (rule create_new_rows [OF nic_rows_fit(1,2) [OF a(3) m] nic_rows_of bn f]) (auto simp: nic_key_def)
  obtain doc net where "snap = \<lparr>MetricsSnapshot_Values = applyPressureSnapshot (snapshot_values ?m net) (Metrics_Pressure ?m),
       MetricsSnapshot_Runtime = \<lparr>MetricRuntime_Raid = Document (marshal_raid (Metrics_Raid ?m)), MetricRuntime_Thermal = doc\<rparr>\<rparr>"
    using snap by (rule ToSnapshot_cases)
  then have vals: "values_fit (MetricsSnapshot_Values snap)"
    using health_fits [OF a(4) m] by (simp add: values_fit_def apply_pressure_keeps snapshot_value_of)
  have "\<exists>db1. insert_history (sample_metric s) (sample_disk s) (sample_physical s) (sample_usage s) (sample_nics s) db = Inr db1"
    unfolding insert_history_Inr using vals db(2) f disk physical usage nics by (simp add: sm metric_key_def i_def)
  then obtain db1 where h: "insert_history (sample_metric s) (sample_disk s) (sample_physical s) (sample_usage s) (sample_nics s) db = Inr db1" by blast
  obtain u db2 where "saveCurrentMetrics i (sample_metric s) (MetricsSnapshot_Runtime snap) (sample_disk s) (sample_usage s) (sample_nics s) db1 = Inr (u, db2)"
    unfolding rows using save_current_succeeds [OF runtime_stored [OF snap m] disk_rows_fit(3) [OF a(1) m] usage_rows_fit(3) [OF a(2) m] nic_rows_fit(3) [OF a(3) m]] by metis
  with h have "\<exists>u db'. SaveMetrics False s db = Inr (u, db')"
    unfolding SaveMetrics_alt s using pos by (simp add: metric i_def)
  then obtain u db' where save: "SaveMetrics False s db = Inr (u, db')" by blast
  with SaveMetrics_Inr(4) [OF save] show ?thesis unfolding s by (simp add: i_def t_def flip: s_def)
qed

subsection \<open>Histories of the tables\<close>

text \<open>Samples are saved, in any order and with any outcome of the connection, while other parts of the program change the servers.\<close>

inductive save_step :: "metric_db \<Rightarrow> metric_db \<Rightarrow> bool" where
  save: "SaveMetrics fault sample db = Inr (u, db') \<Longrightarrow> save_step db db'"
| servers: "save_step db (db\<lparr>mdb_servers := ss\<rparr>)"

definition empty_db :: "Server list \<Rightarrow> metric_db" where
  "empty_db ss = \<lparr>mdb_servers = ss, mdb_metrics = [], mdb_disk = [], mdb_physical = [], mdb_usage = [], mdb_nic = [], mdb_current = [],
     mdb_current_disk = [], mdb_current_usage = [], mdb_current_nic = []\<rparr>"

lemma db_ok_servers [simp]: "db_ok (db\<lparr>mdb_servers := ss\<rparr>) = db_ok db"
  by (simp add: db_ok_def current_ok_def metric_ok_def newest_time_def cong: option.case_cong)

lemma empty_db_ok: "db_ok (empty_db ss)"
  by (simp add: empty_db_def db_ok_def backed_def current_ok_def metric_ok_def newest_time_def table_ok_def newest_part_def
      currentDiskIORows_def currentDiskUsageRows_def currentNICRows_def)

lemma history_db_ok: "save_step\<^sup>*\<^sup>* (empty_db ss) db \<Longrightarrow> db_ok db"
  by (induction rule: rtranclp_induct) (auto simp: empty_db_ok elim!: save_step.cases intro: SaveMetrics_ok)

end
