(* ===== verification/Node_Theorems.thy ===== *)
theory Node_Theorems
  imports Node_Saving
begin

text \<open>
  The receiver of node reports: what a request that is answered, refused or repeated does to the tables, the caches and the alert queue.
\<close>

subsection \<open>The receiver\<close>

lemma persist_cases:
  assumes "persistMetrics env fault v ip rc = (res, rc1)"
  shows "(\<exists>u db' v1. SaveMetrics fault (sample_of_report v ip) (rc_db rc) = Inr (u, db') \<and> res = Inr (u, v1) \<and> rc_db rc1 = db' \<and> Server_ID (vm_server v1) = Server_ID (vm_server v) \<and>
       vm_report v1 = vm_report v \<and> (u \<longrightarrow> vm_snapshot v1 \<noteq> None) \<and> rc_dirty rc1 = rc_dirty rc \<and> rc_updates rc1 = rc_updates rc) \<or>
     res = Inl Unavailable \<and> rc_dirty rc1 = rc_dirty rc \<and> rc_updates rc1 = rc_updates rc \<and> rc_front rc1 = rc_front rc \<and>
       (rc1 = rc \<and> (\<exists>e. SaveMetrics fault (sample_of_report v ip) (rc_db rc) = Inl e) \<or> \<not> rv_sync env \<and> (\<exists>u. SaveMetrics fault (sample_of_report v ip) (rc_db rc) = Inr (u, rc_db rc1)))"
  using assms by (auto simp: persistMetrics_def Let_def split: sum.splits if_splits prod.splits)

text \<open>What an attempt did when it succeeded.\<close>

definition saved_by :: "'f receiver_env \<Rightarrow> metricsInput \<Rightarrow> string option \<Rightarrow> nat \<Rightarrow> 'f receiver \<Rightarrow> Server \<Rightarrow> 'f receiver \<Rightarrow> bool" where
  "saved_by env inp ip k rc current rc1 \<longleftrightarrow>
     in_secret inp \<noteq> [] \<and> rv_acquire env k (Server_ID current) \<and> rv_lookup env k = FoundServer current \<and>
     (\<exists>v u. validateMetrics (rv_sent_loc env) inp current = Inr v \<and>
       SaveMetrics (rv_fault env k) (sample_of_report v ip) (rc_db rc) = Inr (u, rc_db rc1) \<and>
       (if u then \<exists>view. rc_dirty rc1 = mark (rc_dirty rc) (Server_ID current) (Some view) else rc_dirty rc1 = rc_dirty rc))"

text \<open>What follows the stores of an attempt: the alerts of the node are queued when its current state was replaced.\<close>

definition after_save :: "bool \<times> validatedMetrics \<Rightarrow> 'f receiver \<Rightarrow> 'f receiver" where
  "after_save z rc = (if fst z \<and> vm_snapshot (snd z) \<noteq> None
     then rc\<lparr>rc_dirty := mark (rc_dirty rc) (Server_ID (vm_server (snd z))) (vm_snapshot (snd z))\<rparr> else rc)"

lemma attempt_persists:
  assumes "0 < Server_ID server" "rv_acquire env k (Server_ID server)" "Authenticate (in_secret inp) (rv_lookup env k) = Inr current" "Server_ID current = Server_ID server"
    "validateMetrics (rv_sent_loc env) inp current = Inr v" "persistMetrics env (rv_fault env k) v ip rc = (res, rc0)"
  shows "attempt env inp ip k server rc = (case res of Inl e \<Rightarrow> (Inl e, server, rc0) | Inr z \<Rightarrow> (Inr (snd z), server, after_save z rc0))"
  using assms by (cases res) (simp_all add: attempt_def case_prod_beta after_save_def)

lemma attempt_saved:
  assumes "attempt env inp ip k server rc = (Inr v1, s1, rc1)"
  shows "\<exists>current. saved_by env inp ip k rc current rc1 \<and> Server_ID current = Server_ID server \<and> rc_updates rc1 = rc_updates rc"
proof -
  have a: "\<not> Server_ID server \<le> 0" "rv_acquire env k (Server_ID server)" using assms by (auto simp: attempt_def Let_def split: if_splits)
  obtain current where auth: "Authenticate (in_secret inp) (rv_lookup env k) = Inr current"
    using assms a by (cases "Authenticate (in_secret inp) (rv_lookup env k)") (simp_all add: attempt_def)
  have same: "Server_ID current = Server_ID server" using assms a auth by (simp add: attempt_def Let_def split: if_splits)
  obtain v where v: "validateMetrics (rv_sent_loc env) inp current = Inr v"
    using assms a auth same by (cases "validateMetrics (rv_sent_loc env) inp current") (simp_all add: attempt_def)
  obtain res rc0 where p0: "persistMetrics env (rv_fault env k) v ip rc = (res, rc0)" by fastforce
  have "attempt env inp ip k server rc = (case res of Inl e \<Rightarrow> (Inl e, server, rc0) | Inr z \<Rightarrow> (Inr (snd z), server, after_save z rc0))"
    using attempt_persists [OF _ a(2) auth same v p0] a(1) by simp
  with assms obtain z where "res = Inr z" "snd z = v1" "rc1 = after_save z rc0" by (cases res) auto
  then obtain u where res: "res = Inr (u, v1)"
    and rc1: "rc1 = (if u \<and> vm_snapshot v1 \<noteq> None then rc0\<lparr>rc_dirty := mark (rc_dirty rc0) (Server_ID (vm_server v1)) (vm_snapshot v1)\<rparr> else rc0)"
    unfolding after_save_def by (metis prod.collapse)
  note p = p0 [unfolded res]
  have look: "in_secret inp \<noteq> []" "rv_lookup env k = FoundServer current" using auth by (auto simp: Authenticate_def split: if_splits lookup.splits)
  have vs: "vm_server v = current" using v by (elim validateMetrics_Inr) simp
  have pc: "SaveMetrics (rv_fault env k) (sample_of_report v ip) (rc_db rc) = Inr (u, rc_db rc0)" "Server_ID (vm_server v1) = Server_ID current"
    "u \<longrightarrow> vm_snapshot v1 \<noteq> None" "rc_dirty rc0 = rc_dirty rc" "rc_updates rc0 = rc_updates rc"
    using persist_cases [OF p] by (simp_all add: vs)
  have "saved_by env inp ip k rc current rc1"
  proof (cases u)
    case True
    then obtain view where "vm_snapshot v1 = Some view" using pc(3) by blast
    with True pc a(2) same look v rc1 show ?thesis unfolding saved_by_def by auto
  next
    case False
    with pc a(2) same look v rc1 show ?thesis unfolding saved_by_def by auto
  qed
  moreover have "rc_updates rc1 = rc_updates rc" using pc(5) rc1 by simp
  ultimately show ?thesis using same by blast
qed

lemma attempt_failed:
  assumes "attempt env inp ip k server rc = (Inl e, s1, rc1)"
  shows "rc_dirty rc1 = rc_dirty rc \<and> rc_front rc1 = rc_front rc \<and> rc_updates rc1 = rc_updates rc \<and> (rc1 = rc \<or> \<not> rv_sync env \<and> e = Unavailable)"
proof -
  from assms consider "rc1 = rc" | v where "persistMetrics env (rv_fault env k) v ip rc = (Inl e, rc1)"
    by (auto simp: attempt_def Let_def split: if_splits sum.splits prod.splits)
  then show ?thesis
  proof cases
    case 2
    from persist_cases [OF 2] show ?thesis by auto
  qed simp
qed

lemma attempts_cases:
  "attempts env inp ip k n server rc = (res, rc1) \<Longrightarrow>
     (\<forall>v. res = Inr v \<longrightarrow> (\<exists>j current. k \<le> j \<and> j < k + n \<and> saved_by env inp ip j rc current rc1 \<and> rc_updates rc1 = rc_updates rc)) \<and>
     (\<forall>e. res = Inl e \<longrightarrow> rc_dirty rc1 = rc_dirty rc \<and> rc_front rc1 = rc_front rc \<and> rc_updates rc1 = rc_updates rc \<and> (rc1 = rc \<or> \<not> rv_sync env \<and> e = Unavailable))"
proof (induction n arbitrary: k server)
  case (Suc n)
  obtain r s0 rc0 where a: "attempt env inp ip k server rc = (r, s0, rc0)" by (metis prod_cases3)
  show ?case
  proof (cases "r = Inl IdentityChanged")
    case True
    from attempt_failed [OF a [unfolded True]] have "rc0 = rc" by simp
    with Suc.prems a True have "attempts env inp ip (Suc k) n s0 rc = (res, rc1)" by simp
    from Suc.IH [OF this] show ?thesis by (auto intro: Suc_leD)
  next
    case False
    with Suc.prems a have e: "res = r" "rc1 = rc0" by (auto split: sum.splits ingest_error.splits)
    show ?thesis
    proof (cases r)
      case (Inl e')
      from attempt_failed [OF a [unfolded Inl]] show ?thesis by (simp add: e Inl)
    next
      case (Inr v)
      from attempt_saved [OF a [unfolded Inr]] have "\<exists>current. k \<le> k \<and> k < k + Suc n \<and> saved_by env inp ip k rc current rc0 \<and> rc_updates rc0 = rc_updates rc"
        by auto
      then show ?thesis unfolding e Inr by blast
    qed
  qed
qed auto

text \<open>A first attempt that nothing interferes with.\<close>

lemma accepted_answer:
  assumes "save_step\<^sup>*\<^sup>* (empty_db ss) (rc_db rc)" "queue_ok (rc_dirty rc)"
    and inp: "metricsReport (rv_semver env) report receivedAt secret = Inr inp" and snap: "ToSnapshot (NodeReport_Metrics report) = Inr snap"
    and node: "secret \<noteq> []" "rv_acquire env 0 (Server_ID server)" "rv_lookup env 0 = FoundServer server" "\<not> rv_fault env 0" "rv_sync env"
    and db: "storable (NodeReport_Metrics report)" "0 < Server_ID server" "Server_ID server \<in> Server_ID ` set (mdb_servers (rc_db rc))" "receivedAt \<noteq> 0"
      "(Server_ID server, pg_time receivedAt) \<notin> metric_key ` set (mdb_metrics (rc_db rc))"
  shows "\<exists>resp rc'. ReceiveMetrics env secret server report receivedAt ip rc = (Inr resp, rc') \<and> Response_OK resp \<and>
     (Server_ID server, pg_time receivedAt) \<in> metric_key ` set (mdb_metrics (rc_db rc')) \<and>
     (\<not> outdated (rc_db rc) (Server_ID server) (pg_time receivedAt) \<longrightarrow> Server_ID server \<in> pending_ids (abs_queue (rc_dirty rc')))"
proof -
  note r = metricsReport_Inr [OF inp]
  obtain v where v: "validateMetrics (rv_sent_loc env) inp server = Inr v"
    using snap r(3) by (simp add: validateMetrics_def NormalizeReport_def BuildMetric_def Let_def)
  obtain db' where save: "SaveMetrics False (sample_of_report v ip) (rc_db rc) = Inr (\<not> outdated (rc_db rc) (Server_ID server) (pg_time receivedAt), db')"
    using accepted_is_saved [OF inp v db(1) history_db_ok [OF assms(1)] db(3,5,2,4)] by blast
  obtain res rc0 where p0: "persistMetrics env (rv_fault env 0) v ip rc = (res, rc0)" by fastforce
  then obtain u v1 where res: "res = Inr (u, v1)" using persist_cases [OF p0] save node(4,5) by auto
  have auth: "Authenticate (in_secret inp) (rv_lookup env 0) = Inr server" using node(1,3) db(2) r(2) by (simp add: Authenticate_def)
  have "\<exists>s1 rc1. attempt env inp ip 0 server rc = (Inr v1, s1, rc1)" using attempt_persists [OF db(2) node(2) auth refl v p0] by (simp add: res)
  then obtain s1 rc1 where a: "attempt env inp ip 0 server rc = (Inr v1, s1, rc1)" by blast
  obtain resp rc2 where m: "metricsResponse env v1 rc1 = (resp, rc2)" by fastforce
  then have m2: "Response_OK resp" "rc_db rc2 = rc_db rc1" "rc_dirty rc2 = rc_dirty rc1" by (auto simp: metricsResponse_def Let_def split: prod.splits)
  have run: "ReceiveMetrics env secret server report receivedAt ip rc = (Inr resp, rc2)"
    using inp a m by (simp add: ReceiveMetrics_def metricsIdentityAttempts_def numeral_3_eq_3)
  obtain current where "saved_by env inp ip 0 rc current rc1" using attempt_saved [OF a] by blast
  then have s: "rc_db rc1 = db'" "\<not> outdated (rc_db rc) (Server_ID server) (pg_time receivedAt) \<Longrightarrow> \<exists>view. rc_dirty rc1 = mark (rc_dirty rc) (Server_ID server) (Some view)"
    using node v save by (auto simp: saved_by_def)
  have key: "metric_key (sample_metric (sample_of_report v ip)) = (Server_ID server, pg_time receivedAt)"
    using v r(1) by (auto simp: sample_metric_def sample_of_report_def stored_metric_def metric_key_def Let_def elim!: validateMetrics_Inr)
  have "(Server_ID server, pg_time receivedAt) \<in> metric_key ` set (mdb_metrics db')"
    unfolding SaveMetrics_Inr(5) [OF save] key [symmetric] by simp
  moreover have "Server_ID server \<in> pending_ids (abs_queue (rc_dirty rc1))" if "\<not> outdated (rc_db rc) (Server_ID server) (pg_time receivedAt)"
    using s(2) [OF that] dq.pending_mark [OF assms(2)] db(2) by auto
  ultimately show ?thesis using run m2 s(1) by auto
qed

subsection \<open>An example\<close>

definition demo_node :: Server where
  "demo_node = \<lparr>Server_VMMemoryEnabled = False, Server_VMCPUThreshold = 80, Server_VMMemoryThreshold = 90, Server_ID = 7, Server_Name = ''web'',
     Server_Hostname = ''web'', Server_Secret = ''s3cret'', Server_Tags = TagsAbsent, Server_IP = None, Server_OS = Some ''linux'', Server_Platform = None,
     Server_PlatformVersion = None, Server_KernelVersion = None, Server_Arch = None, Server_Location = None, Server_CPUModel = None, Server_CPUVendor = None,
     Server_CPUCoresPhys = None, Server_CPUCoresLog = None, Server_CPUSockets = None, Server_CPUMhz = None, Server_MemTotal = None, Server_SwapTotal = None,
     Server_DiskTotal = None, Server_RootPath = None, Server_RootFSType = None, Server_RaidSupported = None, Server_RaidAvailable = None,
     Server_IntervalSec = None, Server_IsGuestVisible = False, Server_TrafficP95Enabled = False, Server_TrafficCycleMode = ''calendar_month'',
     Server_TrafficBillingStartDay = 1, Server_TrafficBillingAnchorDate = [], Server_TrafficBillingTimezone = [], Server_TrafficDirectionMode = ''default'',
     Server_IsDeleted = False, Server_AgentVersion = None, Server_Remark = None, Server_DisplayOrder = 0\<rparr>"

definition demo_nic :: NetIOMetrics where
  "demo_nic = \<lparr>NetIOMetrics_Name = '' eth0'', NetIOMetrics_BytesRecv = 1000, NetIOMetrics_BytesSent = 400, NetIOMetrics_RecvRateBytesPerSec = f0,
     NetIOMetrics_SentRateBytesPerSec = f0, NetIOMetrics_PacketsRecv = 3, NetIOMetrics_PacketsSent = 2, NetIOMetrics_RecvRatePacketsPerSec = f0,
     NetIOMetrics_SentRatePacketsPerSec = f0, NetIOMetrics_ErrIn = 0, NetIOMetrics_ErrOut = 0, NetIOMetrics_DropIn = 0, NetIOMetrics_DropOut = 0\<rparr>"

definition demo_base_io :: DiskBaseIOMetrics where
  "demo_base_io = \<lparr>DiskBaseIOMetrics_Kind = ''disk'', DiskBaseIOMetrics_Name = ''sda'', DiskBaseIOMetrics_DevicePath = [], DiskBaseIOMetrics_Ref = [],
     DiskBaseIOMetrics_Role = ''primary'', DiskBaseIOMetrics_ReadBytes = 1, DiskBaseIOMetrics_WriteBytes = 2, DiskBaseIOMetrics_ReadRateBytesPerSec = f0,
     DiskBaseIOMetrics_WriteRateBytesPerSec = f0, DiskBaseIOMetrics_ReadIOPS = f0, DiskBaseIOMetrics_WriteIOPS = f0, DiskBaseIOMetrics_IOPS = f0,
     DiskBaseIOMetrics_UtilRatio = f0, DiskBaseIOMetrics_QueueLength = f0, DiskBaseIOMetrics_WaitMs = f0, DiskBaseIOMetrics_ServiceMs = f0\<rparr>"

definition demo_metrics :: Metrics where
  "demo_metrics = zero_Metrics\<lparr>Metrics_Disk := \<lparr>DiskMetrics_Physical = Some [], DiskMetrics_Logical = Some [], DiskMetrics_Filesystems = Some [],
       DiskMetrics_BaseIO = Some [demo_base_io], DiskMetrics_Smart = None\<rparr>,
     Metrics_Network := Some [demo_nic], Metrics_System := \<lparr>SystemMetrics_Alive = True, SystemMetrics_UptimeSeconds = 90061, SystemMetrics_Uptime = ''1d''\<rparr>,
     Metrics_Raid := \<lparr>RaidMetrics_Supported = False, RaidMetrics_Available = False, RaidMetrics_Arrays = Some []\<rparr>,
     Metrics_Pressure := Some \<lparr>Pressure_CPU = Some \<lparr>PressureResource_Some = Some \<lparr>PressureStats_Avg10 = Fin 1, PressureStats_Avg60 = f0, PressureStats_Avg300 = f0,
       PressureStats_Total = 5\<rparr>, PressureResource_Full = None\<rparr>, Pressure_Memory = None, Pressure_IO = None\<rparr>\<rparr>"

definition demo_time :: time where "demo_time = 63918720000000000000"

definition demo_report :: NodeReport where
  "demo_report = zero_NodeReport\<lparr>NodeReport_Version := ''1.0.0'', NodeReport_Hostname := ''web'', NodeReport_Timestamp := demo_time, NodeReport_Metrics := demo_metrics\<rparr>"

definition demo_versions :: semver where
  "demo_versions = \<lparr>sv_IsValid = (\<lambda>_. True), sv_Compare = (\<lambda>a b. if a = b then 0 else if a < b then -1 else 1), sv_Prerelease = (\<lambda>_. [])\<rparr>"

text \<open>A receiver that knows one node.\<close>

definition demo_receiver_env :: "unit receiver_env" where
  "demo_receiver_env = \<lparr>rv_semver = demo_versions, rv_acquire = (\<lambda>_ _. True), rv_lookup = (\<lambda>_. FoundServer demo_node), rv_fault = (\<lambda>_. False), rv_sync = True,
     rv_put = (\<lambda>f _ _ _. (True, f)), rv_clear = (\<lambda>f. (True, f)), rv_sent_loc = UTC, rv_recv_loc = UTC, rv_stale = 30, rv_later = (\<lambda>u. u)\<rparr>"

definition demo_receiver :: "unit receiver" where
  "demo_receiver = \<lparr>rc_db = empty_db [demo_node], rc_front = (), rc_dirty = newDirtyQueue, rc_updates = []\<rparr>"

definition demo_input :: metricsInput where
  "demo_input = \<lparr>in_secret = ''s3cret'', in_report = demo_report, in_receivedAt = demo_time\<rparr>"

lemma demo_texts:
  "trim_space ''sda'' = ''sda''" "trim_space '' eth0'' = ''eth0''" "blank ''sda'' = False" "blank ''disk'' = False" "blank '' eth0'' = False" "blank ''1d'' = False"
  "text_fits maxDiskNameChars ''sda''" "text_fits maxDiskKindChars ''disk''" "text_fits maxDiskRefChars []" "text_fits maxDiskRoleChars ''primary''"
  "text_fits maxInterfaceChars ''eth0''" "text_fits maxNodeVersionChars ''1.0.0''" "text_fits maxNodeHostnameChars ''web''"
  by code_simp+

lemma sum_zero: "f64_add f0 f0 = f0"
  by simp

lemmas number_checks = validNonNegativeInt64_def validNonNegativeFloat_def validRatio_def validDiskIO_def finite64_def f64_le_def

lemma demo_base_io_ok: "validateDiskBaseIO [demo_base_io] = None"
  by (simp add: validateDiskBaseIO_def each_item_None check_base_io_def demo_base_io_def number_checks sum_zero demo_texts Let_def del: each_item.simps)

lemma demo_nic_ok: "validateNetwork [demo_nic] = None"
  by (simp add: validateNetwork_def each_item_None check_network_def demo_nic_def number_checks demo_texts Let_def del: each_item.simps)

lemma demo_pressure_ok: "(case Metrics_Pressure demo_metrics of None \<Rightarrow> None | Some pressure \<Rightarrow> validatePressure pressure) = None"
  by code_simp

lemma demo_valid: "ValidateReport demo_report = None"
proof -
  have "validateCPU zero_CPUMetrics = None" "validateMemory zero_MemoryMetrics = None" "report_devices demo_metrics \<le> maxReportDevices" by code_simp+
  then show ?thesis
    using demo_base_io_ok demo_nic_ok demo_pressure_ok
    by (simp add: ValidateReport_def demo_report_def zero_NodeReport_def demo_metrics_def zero_Metrics_def Let_def demo_texts
        validateDiskPhysical_def validateDiskLogical_def validateDiskFilesystems_def validateRaidArrays_def zero_ProcessMetrics_def zero_ConnectionMetrics_def)
qed

lemma demo_network: "aggregateNetwork [demo_nic] = Inr \<lparr>net_in = 1000, net_out = 400, net_in_bps = f0, net_out_bps = f0\<rparr>"
proof -
  have "wrap64 (max_i64 - 1000) = max_i64 - 1000" "wrap64 (max_i64 - 400) = max_i64 - 400" "wrap64 1000 = 1000" "wrap64 400 = 400" by code_simp+
  then show ?thesis by (simp add: aggregateNetwork_def demo_nic_def sum_zero max_i64_def Let_def)
qed

lemma demo_accepted: "metricsReport demo_versions demo_report demo_time ''s3cret'' = Inr demo_input"
proof -
  note v = demo_valid
  have t: "trim_space (NodeReport_Version demo_report) = NodeReport_Version demo_report" "NodeReport_Version demo_report \<noteq> []" "\<not> blank (NodeReport_Hostname demo_report)"
    "NodeReport_Timestamp demo_report \<noteq> 0" by code_simp+
  have "ValidateNodeVersion demo_versions (NodeReport_Version demo_report) = None" by code_simp
  with v t show ?thesis by (simp add: metricsReport_def demo_input_def)
qed

lemma demo_snapshot: "\<exists>snap. ToSnapshot demo_metrics = Inr snap"
proof -
  have "slice (Metrics_Network demo_metrics) = [demo_nic]" "Metrics_Thermal demo_metrics = None" by (simp_all add: demo_metrics_def zero_Metrics_def)
  then show ?thesis by (simp add: ToSnapshot_def demo_network normalizeThermal_def)
qed

lemma demo_storable: "storable demo_metrics"
  by code_simp

lemma demo_queue: "queue_ok newDirtyQueue"
  by (rule dq.new_ok)

lemma demo_fresh:
  "rc_db demo_receiver = empty_db [demo_node]" "mdb_metrics (empty_db ss) = []" "mdb_servers (empty_db ss) = ss" "Server_ID demo_node = 7"
  "\<not> outdated (empty_db ss) i t" "rc_dirty demo_receiver = newDirtyQueue"
  by (simp_all add: demo_receiver_def empty_db_def demo_node_def outdated_def)

lemma demo_env: "rv_acquire demo_receiver_env k i" "rv_lookup demo_receiver_env k = FoundServer demo_node" "\<not> rv_fault demo_receiver_env k" "rv_sync demo_receiver_env"
  "rv_semver demo_receiver_env = demo_versions" "rv_sent_loc demo_receiver_env = UTC"
  by (simp_all add: demo_receiver_env_def)

lemma demo_saved: "\<exists>sample db'. SaveMetrics False sample (empty_db [demo_node]) = Inr (True, db') \<and> (7, pg_time demo_time) \<in> metric_key ` set (mdb_metrics db')"
proof -
  obtain snap where snap: "ToSnapshot demo_metrics = Inr snap" using demo_snapshot by blast
  have m: "NodeReport_Metrics demo_report = demo_metrics" "in_report demo_input = demo_report" "in_receivedAt demo_input = demo_time"
    by (simp_all add: demo_report_def demo_input_def)
  obtain v where v: "validateMetrics UTC demo_input demo_node = Inr v"
    using snap by (simp add: validateMetrics_def NormalizeReport_def BuildMetric_def Let_def m)
  have "demo_time \<noteq> 0" by (simp add: demo_time_def)
  then obtain db' where save: "SaveMetrics False (sample_of_report v None) (empty_db [demo_node]) = Inr (True, db')"
    using accepted_is_saved [OF demo_accepted v _ empty_db_ok, of "[demo_node]" None] demo_storable by (auto simp: m demo_fresh)
  have "metric_key (sample_metric (sample_of_report v None)) = (7, pg_time demo_time)"
    using v by (auto simp: sample_metric_def sample_of_report_def stored_metric_def metric_key_def Let_def m demo_fresh elim!: validateMetrics_Inr)
  with SaveMetrics_Inr(5) [OF save] save show ?thesis by (metis image_eqI in_set_conv_decomp)
qed

lemma demo_answered: "\<exists>resp rc'. ReceiveMetrics demo_receiver_env ''s3cret'' demo_node demo_report demo_time None demo_receiver = (Inr resp, rc')"
proof -
  obtain snap where snap: "ToSnapshot (NodeReport_Metrics demo_report) = Inr snap" using demo_snapshot by (auto simp: demo_report_def)
  have "demo_time \<noteq> 0" "storable (NodeReport_Metrics demo_report)" using demo_storable by (simp_all add: demo_time_def demo_report_def)
  then show ?thesis
    using accepted_answer [where env = demo_receiver_env and rc = demo_receiver and ss = "[demo_node]" and ip = None and server = demo_node, OF _ _ _ snap] demo_accepted
    by (fastforce simp: demo_env demo_fresh demo_queue)
qed


lemma demo_documents: "list_all valid_text (raid_text (Metrics_Raid demo_metrics))" "thermal_valid (Metrics_Thermal demo_metrics)" "pressure_valid (Metrics_Pressure demo_metrics)"
  by code_simp+

subsection \<open>Theorems\<close>

text \<open>
  C4. What is current is the newest part of the history: after any samples in any order, a server with a metric row has a current state,
  it is a row of the history with the greatest collection time of that server, and the current disks, file systems and
  interfaces are exactly the device rows collected at that time.
\<close>

theorem current_is_newest:
  assumes "save_step\<^sup>*\<^sup>* (empty_db ss) db" "m \<in> set (mdb_metrics db)"
  defines "i \<equiv> ServerMetric_ServerID m"
  shows "\<exists>newest rt. newest \<in> set (mdb_metrics db) \<and> ServerMetric_ServerID newest = i \<and> ServerMetric_CollectedAt m \<le> ServerMetric_CollectedAt newest \<and>
     map_of (mdb_current db) i = Some (current_of newest rt) \<and>
     filter (\<lambda>r. ServerCurrentDiskMetric_ServerID r = i) (mdb_current_disk db)
       = currentDiskIORows (filter (\<lambda>r. DiskMetric_ServerID r = i \<and> DiskMetric_CollectedAt r = ServerMetric_CollectedAt newest) (mdb_disk db)) \<and>
     filter (\<lambda>r. ServerCurrentDiskUsageMetric_ServerID r = i) (mdb_current_usage db)
       = currentDiskUsageRows (filter (\<lambda>r. DiskUsageMetric_ServerID r = i \<and> DiskUsageMetric_CollectedAt r = ServerMetric_CollectedAt newest) (mdb_usage db)) \<and>
     filter (\<lambda>r. ServerCurrentNICMetric_ServerID r = i) (mdb_current_nic db)
       = currentNICRows (filter (\<lambda>r. NICMetric_ServerID r = i \<and> NICMetric_CollectedAt r = ServerMetric_CollectedAt newest) (mdb_nic db))"
proof -
  have c: "current_ok db i" using history_db_ok [OF assms(1)] by (simp add: db_ok_def)
  then obtain cur where cur: "map_of (mdb_current db) i = Some cur" using assms(2) by (auto simp: current_ok_def metric_ok_def i_def split: option.splits)
  with c obtain newest rt where n: "newest \<in> set (mdb_metrics db)" "cur = current_of newest rt" "ServerMetric_ServerID newest = i"
    by (auto simp: current_ok_def metric_ok_def)
  moreover have "ServerMetric_CollectedAt m \<le> ServerMetric_CollectedAt newest"
    using c cur n assms(2) by (auto simp: current_ok_def metric_ok_def i_def current_of_def)
  ultimately show ?thesis
    using c cur by (auto simp: current_ok_def table_ok_def newest_time_def newest_part_def current_of_def intro!: exI [of _ newest] exI [of _ rt])
qed

theorem current_is_newest_witness:
  "\<exists>db newest rt. save_step\<^sup>*\<^sup>* (empty_db [demo_node]) db \<and> newest \<in> set (mdb_metrics db) \<and> map_of (mdb_current db) 7 = Some (current_of newest rt)"
proof -
  obtain sample db where db: "SaveMetrics False sample (empty_db [demo_node]) = Inr (True, db)" "(7, pg_time demo_time) \<in> metric_key ` set (mdb_metrics db)"
    using demo_saved by blast
  then obtain m where m: "m \<in> set (mdb_metrics db)" "ServerMetric_ServerID m = 7" by (auto simp: metric_key_def)
  have steps: "save_step\<^sup>*\<^sup>* (empty_db [demo_node]) db" using save_step.save [OF db(1)] by blast
  from current_is_newest [OF this m(1)] steps show ?thesis unfolding m(2) by blast
qed

text \<open>
  C6. A report that validation accepts is acknowledged and stored when everything around it works, and when it is not older than the
  current state of the node its alerts are queued for evaluation; an outdated report is stored only. What validation accepts always
  fits the numeric and length bounds of the columns and the keys of its detail rows. The rest is assumed: at the first attempt the secret belongs to a node
  whose row exists with a positive id, its lock is free, no statement fails and the change of its address reaches the memory (\<open>rv_acquire\<close>, \<open>rv_lookup\<close>,
  \<open>rv_fault\<close>, \<open>rv_sync\<close>); every text that is stored is UTF-8 without zero bytes, which validation does not check
  (\<open>storable\<close>); the snapshot can be encoded; and the node has no sample of the same microsecond, which the key of the history would refuse.
\<close>

theorem accepted_report_acknowledged:
  assumes "save_step\<^sup>*\<^sup>* (empty_db ss) (rc_db rc)" "queue_ok (rc_dirty rc)"
    and inp: "metricsReport (rv_semver env) report receivedAt secret = Inr inp" and snap: "ToSnapshot (NodeReport_Metrics report) = Inr snap"
    and node: "secret \<noteq> []" "rv_acquire env 0 (Server_ID server)" "rv_lookup env 0 = FoundServer server" "\<not> rv_fault env 0" "rv_sync env"
    and db: "storable (NodeReport_Metrics report)" "0 < Server_ID server" "Server_ID server \<in> Server_ID ` set (mdb_servers (rc_db rc))" "receivedAt \<noteq> 0"
      "(Server_ID server, pg_time receivedAt) \<notin> metric_key ` set (mdb_metrics (rc_db rc))"
  shows "\<exists>resp rc'. ReceiveMetrics env secret server report receivedAt ip rc = (Inr resp, rc') \<and> Response_OK resp \<and>
     (Server_ID server, pg_time receivedAt) \<in> metric_key ` set (mdb_metrics (rc_db rc')) \<and>
     (\<not> outdated (rc_db rc) (Server_ID server) (pg_time receivedAt) \<longrightarrow> Server_ID server \<in> pending_ids (abs_queue (rc_dirty rc')))"
  by (rule accepted_answer [OF assms])

theorem accepted_report_acknowledged_witness:
  "\<exists>resp rc'. ReceiveMetrics demo_receiver_env ''s3cret'' demo_node demo_report demo_time None demo_receiver = (Inr resp, rc') \<and> Response_OK resp \<and>
     7 \<in> pending_ids (abs_queue (rc_dirty rc'))"
proof -
  obtain snap where snap: "ToSnapshot (NodeReport_Metrics demo_report) = Inr snap" using demo_snapshot by (auto simp: demo_report_def)
  have "demo_time \<noteq> 0" "storable (NodeReport_Metrics demo_report)" using demo_storable by (simp_all add: demo_time_def demo_report_def)
  then show ?thesis
    using accepted_report_acknowledged [where env = demo_receiver_env and rc = demo_receiver and ss = "[demo_node]" and ip = None and server = demo_node, OF _ _ _ snap]
      demo_accepted
    by (fastforce simp: demo_env demo_fresh demo_queue)
qed

text \<open>
  C33. A report is saved once, and only for the node that the secret belongs to while its lock is held: whenever the receiver answers, one of at
  most three attempts has stored the report under the id it authenticated, and the alert queue is marked for that node exactly when the current state was replaced.
\<close>

theorem report_saved_once:
  assumes "ReceiveMetrics env secret server report receivedAt ip rc = (Inr resp, rc')"
  shows "\<exists>k current inp v u. k < 3 \<and> secret \<noteq> [] \<and> rv_acquire env k (Server_ID current) \<and> rv_lookup env k = FoundServer current \<and>
     metricsReport (rv_semver env) report receivedAt secret = Inr inp \<and> validateMetrics (rv_sent_loc env) inp current = Inr v \<and>
     SaveMetrics (rv_fault env k) (sample_of_report v ip) (rc_db rc) = Inr (u, rc_db rc') \<and>
     (if u then \<exists>view. rc_dirty rc' = mark (rc_dirty rc) (Server_ID current) (Some view) else rc_dirty rc' = rc_dirty rc)"
proof -
  obtain inp where inp: "metricsReport (rv_semver env) report receivedAt secret = Inr inp" using assms by (auto simp: ReceiveMetrics_def split: sum.splits)
  obtain res rc1 where att: "attempts env inp ip 0 metricsIdentityAttempts server rc = (res, rc1)" by fastforce
  with assms inp obtain v1 where res: "res = Inr v1" and m: "metricsResponse env v1 rc1 = (resp, rc')"
    by (cases res) (auto simp: ReceiveMetrics_def Let_def split: prod.splits)
  from m have e: "rc_db rc' = rc_db rc1" "rc_dirty rc' = rc_dirty rc1" by (auto simp: metricsResponse_def Let_def split: prod.splits)
  from attempts_cases [OF att] res obtain k current where k: "k < 3" "saved_by env inp ip k rc current rc1" by (auto simp: metricsIdentityAttempts_def)
  note r = metricsReport_Inr(2) [OF inp]
  from k(2) show ?thesis unfolding saved_by_def r e [symmetric] using k(1) inp by blast
qed

theorem report_saved_once_witness:
  "\<exists>k v u db. k < (3::nat) \<and> validateMetrics UTC demo_input demo_node = Inr v \<and> SaveMetrics False (sample_of_report v None) (empty_db [demo_node]) = Inr (u, db)"
proof -
  obtain resp rc' where r: "ReceiveMetrics demo_receiver_env ''s3cret'' demo_node demo_report demo_time None demo_receiver = (Inr resp, rc')"
    using demo_answered by blast
  from report_saved_once [OF r] show ?thesis using demo_accepted by (auto simp: demo_env demo_fresh)
qed



text \<open>
  C35. A stored snapshot is read back as it was reported, except for the device lists that have their own tables, the uptime text
  and the readings that normalisation drops.
\<close>

theorem snapshot_roundtrip:
  assumes "ToSnapshot m = Inr snap" "list_all valid_text (raid_text (Metrics_Raid m))" "thermal_valid (Metrics_Thermal m)" "pressure_valid (Metrics_Pressure m)"
  shows "metricsFromSnapshot snap = Inr (m\<lparr>Metrics_Disk := zero_DiskMetrics, Metrics_Network := None,
    Metrics_System := \<lparr>SystemMetrics_Alive = True, SystemMetrics_UptimeSeconds = SystemMetrics_UptimeSeconds (Metrics_System m),
      SystemMetrics_Uptime = formatUptime (SystemMetrics_UptimeSeconds (Metrics_System m))\<rparr>,
    Metrics_Thermal := normalizeThermal (Metrics_Thermal m), Metrics_Pressure := normalizePressure (Metrics_Pressure m)\<rparr>)"
  by (rule snapshot_reads_back [OF assms])

theorem snapshot_roundtrip_witness:
  "\<exists>snap m. ToSnapshot demo_metrics = Inr snap \<and> metricsFromSnapshot snap = Inr m \<and> Metrics_Raid m = Metrics_Raid demo_metrics \<and>
     Metrics_Pressure m = normalizePressure (Metrics_Pressure demo_metrics)"
proof -
  obtain snap where "ToSnapshot demo_metrics = Inr snap" using demo_snapshot by blast
  with snapshot_roundtrip [OF this demo_documents] show ?thesis by simp
qed

text \<open>
  The two summaries of the network agree: the totals that the front page computes from the interfaces of a report are those
  of the stored snapshot, and both are the exact sums of the counters, although each addition is done on 64-bit integers.\<close>

theorem network_summaries_agree:
  assumes "ToSnapshot m = Inr snap" "net_typed (slice (Metrics_Network m))"
  shows "NetTotal_BytesRecv (Network_Total (buildNetwork (slice (Metrics_Network m)))) = (\<Sum>x\<leftarrow>slice (Metrics_Network m). NetIOMetrics_BytesRecv x) \<and>
     NetTotal_BytesSent (Network_Total (buildNetwork (slice (Metrics_Network m)))) = (\<Sum>x\<leftarrow>slice (Metrics_Network m). NetIOMetrics_BytesSent x) \<and>
     MetricValues_NetInBytes (MetricsSnapshot_Values snap) = (\<Sum>x\<leftarrow>slice (Metrics_Network m). NetIOMetrics_BytesRecv x) \<and>
     MetricValues_NetOutBytes (MetricsSnapshot_Values snap) = (\<Sum>x\<leftarrow>slice (Metrics_Network m). NetIOMetrics_BytesSent x) \<and>
     NetTotal_RecvBPS (Network_Total (buildNetwork (slice (Metrics_Network m)))) = MetricValues_NetInBps (MetricsSnapshot_Values snap) \<and>
     NetTotal_SentBPS (Network_Total (buildNetwork (slice (Metrics_Network m)))) = MetricValues_NetOutBps (MetricsSnapshot_Values snap)"
  using network_totals_agree [OF assms] by simp

theorem network_summaries_agree_witness:
  "NetTotal_BytesRecv (Network_Total (buildNetwork (slice (Metrics_Network demo_metrics)))) = 1000"
proof -
  obtain snap where s: "ToSnapshot demo_metrics = Inr snap" using demo_snapshot by blast
  have m: "slice (Metrics_Network demo_metrics) = [demo_nic]" by (simp add: demo_metrics_def)
  have "net_typed (slice (Metrics_Network demo_metrics))" unfolding m by code_simp
  from network_summaries_agree [OF s this] show ?thesis unfolding m by (simp add: demo_nic_def)
qed

end
