(* ===== verification/Registry_Tables.thy ===== *)
theory Registry_Tables
  imports Metric_Snapshot Traffic_Store
begin

text \<open>
  The tables of the node registry and the statements on them: \<open>internal/store/node/nodes.go\<close>, \<open>groups.go\<close> and the patch of
  \<open>server_static.go\<close>, with the rows of \<open>internal/model/node.go\<close>.

  A table is the list of its rows. The map of column values that gorm writes is the list of its assignments, in the
  order in which the code adds them; \<open>set_column\<close> is one of them. The columns of a server that the traffic store reads are those of its
  row here (\<open>traffic_rows\<close>). Besides the unique secret and the foreign keys, any statement may be refused; that is the argument
  \<open>fault\<close> of the operations.
\<close>

subsection \<open>Rows\<close>

record Group =
  Group_ID :: int
  Group_Name :: string
  Group_Remark :: string
  Group_IsDeleted :: bool

record ServerGroup =
  ServerGroup_ServerID :: int
  ServerGroup_GroupID :: int

record registry_db =
  reg_servers :: "Server list"
  reg_next :: int
  reg_groups :: "Group list"
  reg_next_group :: int
  reg_relations :: "ServerGroup list"
  reg_traffic :: traffic_db

datatype registry_error =
    InvalidSecret
  | DuplicateSecret
  | InvalidGroups
  | FrontCacheUpdate
  | RecordNotFound
  | UniqueViolation
  | ForeignKeyViolation
  | InvalidNode int
  | CycleModeRequired
  | CycleSettings settings_error
  | CycleChange store_failure
  | DuplicateNode int
  | IncompleteOrder
  | UnknownNode int
  | StatementFailed
  | CommitFailed

definition strPtr :: "string \<Rightarrow> string option" where "strPtr s = Some s"

text \<open>The values that the schema gives the columns a new row leaves out.\<close>

definition new_server :: "int \<Rightarrow> string \<Rightarrow> int \<Rightarrow> Server" where
  "new_server i secret order =
     \<lparr>Server_VMMemoryEnabled = False, Server_VMCPUThreshold = 80, Server_VMMemoryThreshold = 90, Server_ID = i, Server_Name = ''Untitled'',
      Server_Hostname = ''Untitled'', Server_Secret = secret, Server_Tags = TagsAbsent, Server_IP = None, Server_OS = None, Server_Platform = None,
      Server_PlatformVersion = None, Server_KernelVersion = None, Server_Arch = None, Server_Location = None, Server_CPUModel = None, Server_CPUVendor = None,
      Server_CPUCoresPhys = None, Server_CPUCoresLog = None, Server_CPUSockets = None, Server_CPUMhz = None, Server_MemTotal = None, Server_SwapTotal = None,
      Server_DiskTotal = None, Server_RootPath = None, Server_RootFSType = None, Server_RaidSupported = None, Server_RaidAvailable = None,
      Server_IntervalSec = None, Server_IsGuestVisible = False, Server_TrafficP95Enabled = False, Server_TrafficCycleMode = CycleCalendarMonth,
      Server_TrafficBillingStartDay = 1, Server_TrafficBillingAnchorDate = [], Server_TrafficBillingTimezone = [],
      Server_TrafficDirectionMode = ServerDirectionDefault, Server_IsDeleted = False, Server_AgentVersion = strPtr ''unknown'', Server_Remark = None,
      Server_DisplayOrder = order\<rparr>"

subsection \<open>Column values\<close>

datatype column =
    ColName string | ColHostname string | ColSecret string | ColTags tag_document | ColIP string
  | ColOS string | ColPlatform string | ColPlatformVersion string | ColKernelVersion string | ColArch string | ColAgentVersion string
  | ColCPUModel string | ColCPUVendor string | ColCPUCoresPhys int | ColCPUCoresLog int | ColCPUSockets int | ColCPUMhz f64
  | ColMemTotal int | ColSwapTotal int | ColRootPath string | ColRootFSType "string option" | ColDiskTotal "int option"
  | ColRaidSupported bool | ColRaidAvailable bool | ColIntervalSec int
  | ColVMMemoryEnabled bool | ColVMCPUThreshold int | ColVMMemoryThreshold int | ColIsGuestVisible bool | ColTrafficP95Enabled bool
  | ColCycleMode string | ColBillingStartDay int | ColBillingAnchorDate string | ColBillingTimezone string | ColDirectionMode string
  | ColDisplayOrder int

primrec set_column :: "column \<Rightarrow> Server \<Rightarrow> Server" where
  "set_column (ColName v) s = s\<lparr>Server_Name := v\<rparr>"
| "set_column (ColHostname v) s = s\<lparr>Server_Hostname := v\<rparr>"
| "set_column (ColSecret v) s = s\<lparr>Server_Secret := v\<rparr>"
| "set_column (ColTags v) s = s\<lparr>Server_Tags := v\<rparr>"
| "set_column (ColIP v) s = s\<lparr>Server_IP := Some v\<rparr>"
| "set_column (ColOS v) s = s\<lparr>Server_OS := Some v\<rparr>"
| "set_column (ColPlatform v) s = s\<lparr>Server_Platform := Some v\<rparr>"
| "set_column (ColPlatformVersion v) s = s\<lparr>Server_PlatformVersion := Some v\<rparr>"
| "set_column (ColKernelVersion v) s = s\<lparr>Server_KernelVersion := Some v\<rparr>"
| "set_column (ColArch v) s = s\<lparr>Server_Arch := Some v\<rparr>"
| "set_column (ColAgentVersion v) s = s\<lparr>Server_AgentVersion := Some v\<rparr>"
| "set_column (ColCPUModel v) s = s\<lparr>Server_CPUModel := Some v\<rparr>"
| "set_column (ColCPUVendor v) s = s\<lparr>Server_CPUVendor := Some v\<rparr>"
| "set_column (ColCPUCoresPhys v) s = s\<lparr>Server_CPUCoresPhys := Some v\<rparr>"
| "set_column (ColCPUCoresLog v) s = s\<lparr>Server_CPUCoresLog := Some v\<rparr>"
| "set_column (ColCPUSockets v) s = s\<lparr>Server_CPUSockets := Some v\<rparr>"
| "set_column (ColCPUMhz v) s = s\<lparr>Server_CPUMhz := Some v\<rparr>"
| "set_column (ColMemTotal v) s = s\<lparr>Server_MemTotal := Some v\<rparr>"
| "set_column (ColSwapTotal v) s = s\<lparr>Server_SwapTotal := Some v\<rparr>"
| "set_column (ColRootPath v) s = s\<lparr>Server_RootPath := Some v\<rparr>"
| "set_column (ColRootFSType v) s = s\<lparr>Server_RootFSType := v\<rparr>"
| "set_column (ColDiskTotal v) s = s\<lparr>Server_DiskTotal := v\<rparr>"
| "set_column (ColRaidSupported v) s = s\<lparr>Server_RaidSupported := Some v\<rparr>"
| "set_column (ColRaidAvailable v) s = s\<lparr>Server_RaidAvailable := Some v\<rparr>"
| "set_column (ColIntervalSec v) s = s\<lparr>Server_IntervalSec := Some v\<rparr>"
| "set_column (ColVMMemoryEnabled v) s = s\<lparr>Server_VMMemoryEnabled := v\<rparr>"
| "set_column (ColVMCPUThreshold v) s = s\<lparr>Server_VMCPUThreshold := v\<rparr>"
| "set_column (ColVMMemoryThreshold v) s = s\<lparr>Server_VMMemoryThreshold := v\<rparr>"
| "set_column (ColIsGuestVisible v) s = s\<lparr>Server_IsGuestVisible := v\<rparr>"
| "set_column (ColTrafficP95Enabled v) s = s\<lparr>Server_TrafficP95Enabled := v\<rparr>"
| "set_column (ColCycleMode v) s = s\<lparr>Server_TrafficCycleMode := v\<rparr>"
| "set_column (ColBillingStartDay v) s = s\<lparr>Server_TrafficBillingStartDay := v\<rparr>"
| "set_column (ColBillingAnchorDate v) s = s\<lparr>Server_TrafficBillingAnchorDate := v\<rparr>"
| "set_column (ColBillingTimezone v) s = s\<lparr>Server_TrafficBillingTimezone := v\<rparr>"
| "set_column (ColDirectionMode v) s = s\<lparr>Server_TrafficDirectionMode := v\<rparr>"
| "set_column (ColDisplayOrder v) s = s\<lparr>Server_DisplayOrder := v\<rparr>"

definition set_columns :: "column list \<Rightarrow> Server \<Rightarrow> Server" where
  "set_columns cs s = fold set_column cs s"

text \<open>A column whose value is only written when the request has it.\<close>

definition given :: "('a \<Rightarrow> column) \<Rightarrow> 'a option \<Rightarrow> column list" where
  "given c v = (case v of None \<Rightarrow> [] | Some x \<Rightarrow> [c x])"

subsection \<open>The changes of an administrator\<close>

record NodeUpdate =
  NodeUpdate_VMMemoryEnabled :: "bool option"
  NodeUpdate_VMCPUThreshold :: "int option"
  NodeUpdate_VMMemoryThreshold :: "int option"
  NodeUpdate_Name :: "string option"
  NodeUpdate_IsGuestVisible :: "bool option"
  NodeUpdate_TrafficP95Enabled :: "bool option"
  NodeUpdate_TrafficCycleMode :: "string option"
  NodeUpdate_TrafficBillingStartDay :: "int option"
  NodeUpdate_TrafficBillingAnchorDate :: "string option"
  NodeUpdate_TrafficBillingTimezone :: "string option"
  NodeUpdate_TrafficDirectionMode :: "string option"
  NodeUpdate_DisplayOrder :: "int option"
  NodeUpdate_Tags :: "tag_document option"
  NodeUpdate_Secret :: "string option"
  NodeUpdate_GroupIDs :: "int list option"

definition patchFields :: "NodeUpdate \<Rightarrow> column list" where
  "patchFields upd =
     given ColVMMemoryEnabled (NodeUpdate_VMMemoryEnabled upd) @ given ColVMCPUThreshold (NodeUpdate_VMCPUThreshold upd)
     @ given ColVMMemoryThreshold (NodeUpdate_VMMemoryThreshold upd) @ given ColName (NodeUpdate_Name upd)
     @ given ColIsGuestVisible (NodeUpdate_IsGuestVisible upd) @ given ColTrafficP95Enabled (NodeUpdate_TrafficP95Enabled upd)
     @ given ColCycleMode (NodeUpdate_TrafficCycleMode upd) @ given ColBillingStartDay (NodeUpdate_TrafficBillingStartDay upd)
     @ given ColBillingAnchorDate (NodeUpdate_TrafficBillingAnchorDate upd) @ given ColBillingTimezone (NodeUpdate_TrafficBillingTimezone upd)
     @ given ColDirectionMode (NodeUpdate_TrafficDirectionMode upd) @ given ColDisplayOrder (NodeUpdate_DisplayOrder upd)
     @ given ColTags (NodeUpdate_Tags upd) @ given ColSecret (NodeUpdate_Secret upd)"

definition needsMetaRefresh :: "NodeUpdate \<Rightarrow> bool" where
  "needsMetaRefresh upd \<longleftrightarrow> NodeUpdate_Name upd \<noteq> None \<or> NodeUpdate_DisplayOrder upd \<noteq> None \<or> NodeUpdate_Secret upd \<noteq> None \<or>
     NodeUpdate_Tags upd \<noteq> None \<or> NodeUpdate_VMCPUThreshold upd \<noteq> None \<or> NodeUpdate_VMMemoryThreshold upd \<noteq> None \<or>
     NodeUpdate_VMMemoryEnabled upd \<noteq> None"

definition cycleUpdate :: "tz_env \<Rightarrow> NodeUpdate \<Rightarrow> registry_error + ServerCycleSettings option" where
  "cycleUpdate tz upd =
     (if NodeUpdate_TrafficCycleMode upd = None \<and> NodeUpdate_TrafficBillingStartDay upd = None \<and>
         NodeUpdate_TrafficBillingAnchorDate upd = None \<and> NodeUpdate_TrafficBillingTimezone upd = None then Inr None
      else case NodeUpdate_TrafficCycleMode upd of None \<Rightarrow> Inl CycleModeRequired
        | Some mode \<Rightarrow>
            (let cycle = \<lparr>Srv_Mode = mode, Srv_BillingStartDay = (case NodeUpdate_TrafficBillingStartDay upd of None \<Rightarrow> 1 | Some d \<Rightarrow> d),
                   Srv_BillingAnchorDate = (case NodeUpdate_TrafficBillingAnchorDate upd of None \<Rightarrow> [] | Some d \<Rightarrow> d),
                   Srv_BillingTimezone = (case NodeUpdate_TrafficBillingTimezone upd of None \<Rightarrow> [] | Some z \<Rightarrow> z)\<rparr>
             in case NormalizeServerCycleSettings tz cycle of Inl e \<Rightarrow> Inl (CycleSettings e) | Inr c \<Rightarrow> Inr (Some c)))"

definition with_cycle :: "ServerCycleSettings \<Rightarrow> NodeUpdate \<Rightarrow> NodeUpdate" where
  "with_cycle cycle upd = upd\<lparr>NodeUpdate_TrafficCycleMode := Some (Srv_Mode cycle), NodeUpdate_TrafficBillingStartDay := Some (Srv_BillingStartDay cycle),
     NodeUpdate_TrafficBillingAnchorDate := Some (Srv_BillingAnchorDate cycle), NodeUpdate_TrafficBillingTimezone := Some (Srv_BillingTimezone cycle)\<rparr>"

subsection \<open>The changes of a static report\<close>

record DiskObservation =
  DiskObservation_Path :: string
  DiskObservation_FSType :: string
  DiskObservation_Total :: int

record ServerStaticPatch =
  Patch_Name :: "string option"
  Patch_Hostname :: "string option"
  Patch_IP :: "string option"
  Patch_OS :: "string option"
  Patch_Platform :: "string option"
  Patch_PlatformVersion :: "string option"
  Patch_KernelVersion :: "string option"
  Patch_Arch :: "string option"
  Patch_AgentVersion :: "string option"
  Patch_CPUModel :: "string option"
  Patch_CPUVendor :: "string option"
  Patch_CPUCoresPhys :: "int option"
  Patch_CPUCoresLog :: "int option"
  Patch_CPUSockets :: "int option"
  Patch_CPUMhz :: "f64 option"
  Patch_MemTotal :: "int option"
  Patch_SwapTotal :: "int option"
  Patch_Disk :: "DiskObservation option"
  Patch_RaidSupported :: "bool option"
  Patch_RaidAvailable :: "bool option"
  Patch_IntervalSec :: "int option"

definition disk_columns :: "DiskObservation option \<Rightarrow> column list" where
  "disk_columns disk =
     (case disk of None \<Rightarrow> []
      | Some d \<Rightarrow>
          (let path = trim_space (DiskObservation_Path d); fsType = trim_space (DiskObservation_FSType d)
           in if path = [] then []
              else [ColRootPath path, ColRootFSType (if fsType = [] then None else Some fsType),
                    ColDiskTotal (if DiskObservation_Total d > 0 then Some (DiskObservation_Total d) else None)]))"

definition static_updates :: "ServerStaticPatch \<Rightarrow> column list" where
  "static_updates p =
     given ColName (Patch_Name p) @ given ColHostname (Patch_Hostname p) @ given ColIP (Patch_IP p) @ given ColOS (Patch_OS p)
     @ given ColPlatform (Patch_Platform p) @ given ColPlatformVersion (Patch_PlatformVersion p) @ given ColKernelVersion (Patch_KernelVersion p)
     @ given ColArch (Patch_Arch p) @ given ColAgentVersion (Patch_AgentVersion p) @ given ColCPUModel (Patch_CPUModel p)
     @ given ColCPUVendor (Patch_CPUVendor p) @ given ColCPUCoresPhys (Patch_CPUCoresPhys p) @ given ColCPUCoresLog (Patch_CPUCoresLog p)
     @ given ColCPUSockets (Patch_CPUSockets p) @ given ColCPUMhz (Patch_CPUMhz p) @ given ColMemTotal (Patch_MemTotal p)
     @ given ColSwapTotal (Patch_SwapTotal p) @ disk_columns (Patch_Disk p) @ given ColRaidSupported (Patch_RaidSupported p)
     @ given ColRaidAvailable (Patch_RaidAvailable p) @ given ColIntervalSec (Patch_IntervalSec p)"

fun is_name :: "column \<Rightarrow> bool" where
  "is_name (ColName v) = True"
| "is_name c = False"

text \<open>The columns that the front end shows.\<close>

fun front_column :: "column \<Rightarrow> bool" where
  "front_column (ColName v) = True"
| "front_column (ColOS v) = True"
| "front_column (ColPlatform v) = True"
| "front_column (ColPlatformVersion v) = True"
| "front_column (ColKernelVersion v) = True"
| "front_column (ColArch v) = True"
| "front_column (ColCPUModel v) = True"
| "front_column (ColCPUCoresPhys v) = True"
| "front_column (ColCPUCoresLog v) = True"
| "front_column (ColCPUSockets v) = True"
| "front_column (ColMemTotal v) = True"
| "front_column (ColSwapTotal v) = True"
| "front_column (ColRootPath v) = True"
| "front_column (ColRootFSType v) = True"
| "front_column c = False"

definition staticUpdatesFrontMetadata :: "column list \<Rightarrow> bool" where
  "staticUpdatesFrontMetadata cs = list_ex front_column cs"

subsection \<open>Statements\<close>

definition active_rows :: "registry_db \<Rightarrow> Server list" where
  "active_rows db = filter (\<lambda>s. \<not> Server_IsDeleted s) (reg_servers db)"

definition loadServerMeta :: "registry_db \<Rightarrow> int \<Rightarrow> registry_error + Server" where
  "loadServerMeta db i = (case find (\<lambda>s. Server_ID s = i) (active_rows db) of None \<Rightarrow> Inl RecordNotFound | Some s \<Rightarrow> Inr s)"

definition unique_secrets :: "Server list \<Rightarrow> bool" where
  "unique_secrets ss = distinct (map Server_Secret ss)"

text \<open>\<open>UPDATE servers SET ... WHERE id = i AND NOT is_deleted\<close>.\<close>

definition update_rows :: "(Server \<Rightarrow> bool) \<Rightarrow> (Server \<Rightarrow> Server) \<Rightarrow> registry_db \<Rightarrow> registry_error + registry_db" where
  "update_rows match f db =
     (let rows = map (\<lambda>s. if match s then f s else s) (reg_servers db)
      in if \<not> unique_secrets rows then Inl UniqueViolation
         else if \<not> list_ex match (reg_servers db) then Inl RecordNotFound
         else Inr (db\<lparr>reg_servers := rows\<rparr>))"

definition matches :: "int \<Rightarrow> Server \<Rightarrow> bool" where
  "matches i s \<longleftrightarrow> Server_ID s = i \<and> \<not> Server_IsDeleted s"

definition patch_fields :: "int \<Rightarrow> column list \<Rightarrow> registry_db \<Rightarrow> registry_error + registry_db" where
  "patch_fields i cs db =
     (if cs = [] then (case loadServerMeta db i of Inl e \<Rightarrow> Inl e | Inr _ \<Rightarrow> Inr db)
      else update_rows (matches i) (set_columns cs) db)"

definition syncGroups :: "int \<Rightarrow> int list option \<Rightarrow> registry_db \<Rightarrow> registry_error + registry_db" where
  "syncGroups serverID groupIDs db =
     (case groupIDs of None \<Rightarrow> Inr db
      | Some ids \<Rightarrow>
          (let kept = filter (\<lambda>r. ServerGroup_ServerID r \<noteq> serverID) (reg_relations db)
           in if \<not> distinct ids then Inl UniqueViolation
              else if \<not> set ids \<subseteq> Group_ID ` set (reg_groups db) then Inl ForeignKeyViolation
              else Inr (db\<lparr>reg_relations := kept @ map (\<lambda>g. \<lparr>ServerGroup_ServerID = serverID, ServerGroup_GroupID = g\<rparr>) ids\<rparr>)))"

text \<open>The columns of \<open>servers\<close> that the traffic store reads.\<close>

definition traffic_row :: "Server \<Rightarrow> traffic_server" where
  "traffic_row s = \<lparr>TSrv_ID = Server_ID s, TSrv_IsDeleted = Server_IsDeleted s, TSrv_CycleMode = Server_TrafficCycleMode s,
     TSrv_BillingStartDay = Server_TrafficBillingStartDay s, TSrv_BillingAnchorDate = Server_TrafficBillingAnchorDate s,
     TSrv_BillingTimezone = Server_TrafficBillingTimezone s, TSrv_DirectionMode = Server_TrafficDirectionMode s,
     TSrv_P95Enabled = Server_TrafficP95Enabled s, TSrv_CreatedAt = 0\<rparr>"

definition traffic_rows :: "registry_db \<Rightarrow> traffic_db" where
  "traffic_rows db = (reg_traffic db)\<lparr>db_servers := map traffic_row (reg_servers db)\<rparr>"

subsection \<open>Groups\<close>

definition defaultGroupName :: string where "defaultGroupName = ''default''"

text \<open>Rows are read in the order of their ids.\<close>

definition by_id :: "Group list \<Rightarrow> Group list" where
  "by_id = sort_key Group_ID"

definition ensureDefaultGroupID :: "registry_db \<Rightarrow> int \<times> registry_db" where
  "ensureDefaultGroupID db =
     (case find (\<lambda>g. Group_Name g = defaultGroupName \<and> \<not> Group_IsDeleted g) (by_id (reg_groups db)) of
        Some g \<Rightarrow> (Group_ID g, db)
      | None \<Rightarrow>
          (case find (\<lambda>g. Group_Name g = defaultGroupName) (by_id (reg_groups db)) of
             Some g \<Rightarrow> (Group_ID g, db\<lparr>reg_groups := map (\<lambda>x. if Group_ID x = Group_ID g then x\<lparr>Group_IsDeleted := False\<rparr> else x) (reg_groups db)\<rparr>)
           | None \<Rightarrow> (reg_next_group db, db\<lparr>reg_next_group := reg_next_group db + 1,
               reg_groups := reg_groups db @ [\<lparr>Group_ID = reg_next_group db, Group_Name = defaultGroupName, Group_Remark = defaultGroupName, Group_IsDeleted = False\<rparr>]\<rparr>)))"

definition CreateGroup :: "string \<Rightarrow> string \<Rightarrow> registry_db \<Rightarrow> Group \<times> registry_db" where
  "CreateGroup name remark db =
     (let grp = \<lparr>Group_ID = reg_next_group db, Group_Name = name, Group_Remark = remark, Group_IsDeleted = False\<rparr>
      in (grp, db\<lparr>reg_next_group := reg_next_group db + 1, reg_groups := reg_groups db @ [grp]\<rparr>))"

definition UpdateGroup :: "int \<Rightarrow> (Group \<Rightarrow> Group) \<Rightarrow> registry_db \<Rightarrow> registry_error + registry_db" where
  "UpdateGroup i changes db =
     (if \<not> list_ex (\<lambda>g. Group_ID g = i \<and> \<not> Group_IsDeleted g) (reg_groups db) then Inl RecordNotFound
      else Inr (db\<lparr>reg_groups := map (\<lambda>g. if Group_ID g = i \<and> \<not> Group_IsDeleted g then changes g else g) (reg_groups db)\<rparr>))"

definition DeleteGroup :: "int \<Rightarrow> registry_db \<Rightarrow> registry_error + registry_db" where
  "DeleteGroup i db =
     (case UpdateGroup i (\<lambda>g. g\<lparr>Group_IsDeleted := True\<rparr>) db of Inl e \<Rightarrow> Inl e
      | Inr db1 \<Rightarrow> Inr (db1\<lparr>reg_relations := filter (\<lambda>r. ServerGroup_GroupID r \<noteq> i) (reg_relations db1)\<rparr>))"

record GroupNodes =
  GroupNodes_ID :: int
  GroupNodes_Name :: string
  GroupNodes_NodeIDs :: "int list"

definition group_members :: "bool \<Rightarrow> registry_db \<Rightarrow> int \<Rightarrow> int list" where
  "group_members guestVisibleOnly db g =
     sort (map ServerGroup_ServerID (filter (\<lambda>r. ServerGroup_GroupID r = g \<and>
       list_ex (\<lambda>s. Server_ID s = ServerGroup_ServerID r \<and> (guestVisibleOnly \<longrightarrow> Server_IsGuestVisible s)) (active_rows db)) (reg_relations db)))"

definition group_nodes :: "bool \<Rightarrow> registry_db \<Rightarrow> GroupNodes list" where
  "group_nodes guestVisibleOnly db =
     filter (\<lambda>g. \<not> (guestVisibleOnly \<and> GroupNodes_NodeIDs g = []))
       (map (\<lambda>g. \<lparr>GroupNodes_ID = Group_ID g, GroupNodes_Name = Group_Name g, GroupNodes_NodeIDs = group_members guestVisibleOnly db (Group_ID g)\<rparr>)
         (filter (\<lambda>g. \<not> Group_IsDeleted g) (by_id (reg_groups db))))"

record GroupItem =
  GroupItem_ID :: int
  GroupItem_Name :: string
  GroupItem_Remark :: string
  GroupItem_ServerCount :: int

definition GroupsWithCounts :: "registry_db \<Rightarrow> GroupItem list" where
  "GroupsWithCounts db =
     map (\<lambda>g. \<lparr>GroupItem_ID = Group_ID g, GroupItem_Name = Group_Name g, GroupItem_Remark = Group_Remark g,
         GroupItem_ServerCount = int (length (group_members False db (Group_ID g)))\<rparr>)
       (filter (\<lambda>g. \<not> Group_IsDeleted g) (by_id (reg_groups db)))"

definition GroupLookup :: "registry_db \<Rightarrow> (int \<times> string) list" where
  "GroupLookup db = map (\<lambda>g. (Group_ID g, Group_Name g)) (filter (\<lambda>g. \<not> Group_IsDeleted g) (by_id (reg_groups db)))"

subsection \<open>Reading\<close>

text \<open>\<open>ORDER BY display_order DESC\<close>: rows of equal order come in any order; here they keep the table's.\<close>

definition in_display_order :: "Server list \<Rightarrow> Server list" where
  "in_display_order = sort_key (\<lambda>s. - Server_DisplayOrder s)"

definition Nodes :: "registry_db \<Rightarrow> Server list" where
  "Nodes db = in_display_order (active_rows db)"

definition ServerRefs :: "registry_db \<Rightarrow> (int \<times> string) list" where
  "ServerRefs db = map (\<lambda>s. (Server_ID s, Server_Name s)) (in_display_order (active_rows db))"

definition NodeExists :: "registry_db \<Rightarrow> int \<Rightarrow> registry_error + bool" where
  "NodeExists db i = (if i \<le> 0 then Inl (InvalidNode i) else Inr (list_ex (matches i) (reg_servers db)))"

definition GroupRelations :: "registry_db \<Rightarrow> int list \<Rightarrow> ServerGroup list" where
  "GroupRelations db ids = filter (\<lambda>r. ServerGroup_ServerID r \<in> set ids) (reg_relations db)"

end
