(* ===== verification/Registry_Cache.thy ===== *)
theory Registry_Cache
  imports Registry_Tables Node_Receiver
begin

text \<open>
  The memory of the node store: \<open>internal/store/node/memory.go\<close> and \<open>server_meta_cache.go\<close>. Every request of a node is
  authenticated against it and never against the database, so it has to follow the table: a secret that is
  revoked there must not be accepted any more, and one that is given out must be accepted.
\<close>

subsection \<open>Static data of a server\<close>

record ServerMeta =
  Meta_VMMemoryEnabled :: bool
  Meta_VMCPUThreshold :: int
  Meta_VMMemoryThreshold :: int
  Meta_ID :: int
  Meta_Name :: string
  Meta_Hostname :: string
  Meta_DisplayOrder :: int
  Meta_IP :: "string option"
  Meta_OS :: "string option"
  Meta_Platform :: "string option"
  Meta_PlatformVersion :: "string option"
  Meta_KernelVersion :: "string option"
  Meta_Arch :: "string option"
  Meta_CPUModel :: "string option"
  Meta_CPUVendor :: "string option"
  Meta_CPUCoresPhys :: "int option"
  Meta_CPUCoresLog :: "int option"
  Meta_CPUSockets :: "int option"
  Meta_CPUMhz :: "f64 option"
  Meta_MemTotal :: "int option"
  Meta_SwapTotal :: "int option"
  Meta_DiskTotal :: "int option"
  Meta_RootPath :: "string option"
  Meta_RootFSType :: "string option"
  Meta_RaidSupported :: "bool option"
  Meta_RaidAvailable :: "bool option"
  Meta_IntervalSec :: "int option"
  Meta_AgentVersion :: "string option"
  Meta_Tags :: tag_document

definition metaFromServer :: "Server \<Rightarrow> ServerMeta" where
  "metaFromServer srv =
     \<lparr>Meta_VMMemoryEnabled = Server_VMMemoryEnabled srv, Meta_VMCPUThreshold = Server_VMCPUThreshold srv,
      Meta_VMMemoryThreshold = Server_VMMemoryThreshold srv, Meta_ID = Server_ID srv, Meta_Name = Server_Name srv, Meta_Hostname = Server_Hostname srv,
      Meta_DisplayOrder = Server_DisplayOrder srv, Meta_IP = Server_IP srv, Meta_OS = Server_OS srv, Meta_Platform = Server_Platform srv,
      Meta_PlatformVersion = Server_PlatformVersion srv, Meta_KernelVersion = Server_KernelVersion srv, Meta_Arch = Server_Arch srv,
      Meta_CPUModel = Server_CPUModel srv, Meta_CPUVendor = Server_CPUVendor srv, Meta_CPUCoresPhys = Server_CPUCoresPhys srv,
      Meta_CPUCoresLog = Server_CPUCoresLog srv, Meta_CPUSockets = Server_CPUSockets srv, Meta_CPUMhz = Server_CPUMhz srv,
      Meta_MemTotal = Server_MemTotal srv, Meta_SwapTotal = Server_SwapTotal srv, Meta_DiskTotal = Server_DiskTotal srv,
      Meta_RootPath = Server_RootPath srv, Meta_RootFSType = Server_RootFSType srv, Meta_RaidSupported = Server_RaidSupported srv,
      Meta_RaidAvailable = Server_RaidAvailable srv, Meta_IntervalSec = Server_IntervalSec srv, Meta_AgentVersion = Server_AgentVersion srv,
      Meta_Tags = Server_Tags srv\<rparr>"

definition toServer :: "ServerMeta \<Rightarrow> string \<Rightarrow> Server" where
  "toServer m secret =
     \<lparr>Server_VMMemoryEnabled = Meta_VMMemoryEnabled m, Server_VMCPUThreshold = Meta_VMCPUThreshold m, Server_VMMemoryThreshold = Meta_VMMemoryThreshold m,
      Server_ID = Meta_ID m, Server_Name = Meta_Name m, Server_Hostname = Meta_Hostname m, Server_Secret = secret, Server_Tags = Meta_Tags m,
      Server_IP = Meta_IP m, Server_OS = Meta_OS m, Server_Platform = Meta_Platform m, Server_PlatformVersion = Meta_PlatformVersion m,
      Server_KernelVersion = Meta_KernelVersion m, Server_Arch = Meta_Arch m, Server_Location = None, Server_CPUModel = Meta_CPUModel m,
      Server_CPUVendor = Meta_CPUVendor m, Server_CPUCoresPhys = Meta_CPUCoresPhys m, Server_CPUCoresLog = Meta_CPUCoresLog m,
      Server_CPUSockets = Meta_CPUSockets m, Server_CPUMhz = Meta_CPUMhz m, Server_MemTotal = Meta_MemTotal m, Server_SwapTotal = Meta_SwapTotal m,
      Server_DiskTotal = Meta_DiskTotal m, Server_RootPath = Meta_RootPath m, Server_RootFSType = Meta_RootFSType m,
      Server_RaidSupported = Meta_RaidSupported m, Server_RaidAvailable = Meta_RaidAvailable m, Server_IntervalSec = Meta_IntervalSec m,
      Server_IsGuestVisible = False, Server_TrafficP95Enabled = False, Server_TrafficCycleMode = [], Server_TrafficBillingStartDay = 0,
      Server_TrafficBillingAnchorDate = [], Server_TrafficBillingTimezone = [], Server_TrafficDirectionMode = [], Server_IsDeleted = False,
      Server_AgentVersion = Meta_AgentVersion m, Server_Remark = None, Server_DisplayOrder = Meta_DisplayOrder m\<rparr>"

lemma meta_roundtrip [simp]: "metaFromServer (toServer m secret) = m"
  by (simp add: metaFromServer_def toServer_def)

subsection \<open>The memory\<close>

record authEntry =
  auth_secret :: string
  auth_meta :: ServerMeta

record virtEntry =
  virt_collectedAt :: time
  virt_receivedAt :: time
  virt_snapshot :: string

record memState =
  authBySecret :: "(string, authEntry) gomap"
  authByID :: "(int, authEntry) gomap"
  mem_updates :: agent_updates
  mem_virt :: "(int, virtEntry) gomap"

definition newMemory :: memState where
  "newMemory = \<lparr>authBySecret = [], authByID = [], mem_updates = [], mem_virt = []\<rparr>"

definition entry_of :: "Server \<Rightarrow> authEntry" where
  "entry_of srv = \<lparr>auth_secret = trim_space (Server_Secret srv), auth_meta = metaFromServer srv\<rparr>"

definition syncServerCache :: "Server \<Rightarrow> string \<Rightarrow> memState \<Rightarrow> memState" where
  "syncServerCache srv oldSecret mem =
     (let newSecret = trim_space (Server_Secret srv); oldSecret = trim_space oldSecret
      in if Server_ID srv \<le> 0 \<or> newSecret = [] then mem
         else let bySecret = (if oldSecret \<noteq> [] \<and> oldSecret \<noteq> newSecret then AList.delete oldSecret (authBySecret mem) else authBySecret mem);
                  bySecret = (case map_of (authByID mem) (Server_ID srv) of
                      Some old \<Rightarrow> if auth_secret old \<noteq> [] \<and> auth_secret old \<noteq> newSecret then AList.delete (auth_secret old) bySecret else bySecret
                    | None \<Rightarrow> bySecret)
              in mem\<lparr>authByID := AList.update (Server_ID srv) (entry_of srv) (authByID mem), authBySecret := AList.update newSecret (entry_of srv) bySecret\<rparr>)"

definition SyncServerCache :: "Server \<Rightarrow> memState \<Rightarrow> bool \<times> memState" where
  "SyncServerCache srv mem =
     (if Server_ID srv \<le> 0 \<or> trim_space (Server_Secret srv) = [] then (False, mem)
      else (True, syncServerCache srv (Server_Secret srv) mem))"

definition deleteServerMeta :: "int \<Rightarrow> string \<Rightarrow> memState \<Rightarrow> memState" where
  "deleteServerMeta i secret mem =
     (if i \<le> 0 then mem
      else let secret = trim_space secret;
               secret = (if secret = [] then (case map_of (authByID mem) i of Some old \<Rightarrow> auth_secret old | None \<Rightarrow> []) else secret)
           in mem\<lparr>authByID := AList.delete i (authByID mem), authBySecret := (if secret \<noteq> [] then AList.delete secret (authBySecret mem) else authBySecret mem)\<rparr>)"

definition removeServerState :: "int \<Rightarrow> string \<Rightarrow> memState \<Rightarrow> memState" where
  "removeServerState i secret mem =
     (let mem = deleteServerMeta i secret mem
      in if i \<le> 0 then mem else mem\<lparr>mem_updates := AList.delete i (mem_updates mem), mem_virt := AList.delete i (mem_virt mem)\<rparr>)"

text \<open>The rows of the ids, one after the other; a row that cannot be cached ends the loop with an error.\<close>

fun refresh_rows :: "Server list \<Rightarrow> memState \<Rightarrow> bool \<times> memState" where
  "refresh_rows [] mem = (True, mem)"
| "refresh_rows (srv # rows) mem =
     (if Server_IsDeleted srv then refresh_rows rows (removeServerState (Server_ID srv) (Server_Secret srv) mem)
      else case SyncServerCache srv mem of (False, mem1) \<Rightarrow> (False, mem1) | (True, mem1) \<Rightarrow> refresh_rows rows mem1)"

definition RefreshMetaByIDs :: "registry_db \<Rightarrow> int list \<Rightarrow> memState \<Rightarrow> bool \<times> memState" where
  "RefreshMetaByIDs db ids mem =
     (if ids = [] then (True, mem)
      else let rows = filter (\<lambda>s. Server_ID s \<in> set ids) (reg_servers db)
           in case refresh_rows rows mem of (False, mem1) \<Rightarrow> (False, mem1)
              | (True, mem1) \<Rightarrow> (True, fold (\<lambda>i m. if i \<in> Server_ID ` set rows then m else removeServerState i [] m) ids mem1))"

definition RebuildServerCache :: "registry_db \<Rightarrow> memState \<Rightarrow> memState" where
  "RebuildServerCache db mem =
     (let servers = filter (\<lambda>s. trim_space (Server_Secret s) \<noteq> [] \<and> 0 < Server_ID s) (active_rows db)
      in mem\<lparr>authBySecret := fold (\<lambda>s m. AList.update (trim_space (Server_Secret s)) (entry_of s) m) servers [],
             authByID := fold (\<lambda>s m. AList.update (Server_ID s) (entry_of s) m) servers []\<rparr>)"

definition GetServerBySecret :: "memState \<Rightarrow> string \<Rightarrow> lookup" where
  "GetServerBySecret mem secret =
     (let secret = trim_space secret
      in if secret = [] then NoServer
         else case map_of (authBySecret mem) secret of None \<Rightarrow> NoServer
            | Some e \<Rightarrow> if Meta_ID (auth_meta e) \<le> 0 then LookupFailed else FoundServer (toServer (auth_meta e) secret))"

text \<open>Offering an update to a node that is in the memory.\<close>

definition request_update :: "int \<Rightarrow> AgentUpdateTarget \<Rightarrow> memState \<Rightarrow> memState" where
  "request_update i target mem = mem\<lparr>mem_updates := RequestAgentUpdate (map_of (authByID mem) i \<noteq> None) i target (mem_updates mem)\<rparr>"

subsection \<open>Snapshots of virtual machines, kept in memory\<close>

definition virtTTL :: duration where "virtTTL = 600 * second_ns"

text \<open>\<open>raw\<close> is the snapshot as JSON, or nothing when it cannot be encoded. \<open>started\<close> and \<open>now\<close> are the two readings of the clock.\<close>

definition SaveVirt :: "int \<Rightarrow> string \<Rightarrow> time \<Rightarrow> string option \<Rightarrow> time \<Rightarrow> time \<Rightarrow> time \<Rightarrow> memState \<Rightarrow> bool \<times> memState" where
  "SaveVirt i secret collectedAt raw receivedAt started now mem =
     (case GetServerBySecret mem secret of
        FoundServer server \<Rightarrow>
          if Server_ID server \<noteq> i then (False, mem)
          else if \<not> started < receivedAt + virtTTL \<or> \<not> receivedAt - virtTTL < collectedAt then (True, mem)
          else (case raw of None \<Rightarrow> (False, mem)
             | Some json \<Rightarrow>
                 if (case map_of (mem_virt mem) i of None \<Rightarrow> False | Some previous \<Rightarrow> \<not> virt_collectedAt previous < collectedAt) then (True, mem)
                 else (True, mem\<lparr>mem_virt := AList.update i \<lparr>virt_collectedAt = collectedAt, virt_receivedAt = receivedAt, virt_snapshot = json\<rparr>
                     (filter (\<lambda>(_, e). now < virt_receivedAt e + virtTTL) (mem_virt mem))\<rparr>))
      | _ \<Rightarrow> (False, mem))"

definition readVirt :: "int \<Rightarrow> time \<Rightarrow> memState \<Rightarrow> virtEntry option \<times> memState" where
  "readVirt i now mem =
     (case map_of (mem_virt mem) i of None \<Rightarrow> (None, mem)
      | Some e \<Rightarrow> if \<not> now < virt_receivedAt e + virtTTL then (None, mem\<lparr>mem_virt := AList.delete i (mem_virt mem)\<rparr>) else (Some e, mem))"

end
