(* ===== verification/Node_Registry.thy ===== *)
theory Node_Registry
  imports Registry_Cache
begin

text \<open>
  The operations of the node store: \<open>internal/store/node/nodes.go\<close>, the transaction of \<open>server_static.go\<close> and \<open>SyncServerCache\<close> as the
  receiver of reports uses it, on the tables, the memory and the front cache together.

  An operation is a transaction that ends with a commit and then brings the memory up to date. A commit
  may succeed, fail, or fail although the database has committed; the code then reads the rows back, which may fail too. The front
  cache is a state with the calls the code makes on it. An operation runs under the lock of the
  node or of all nodes, so it is one step; two nodes at once are the subject of the last part of \<open>Registry_Access\<close>.
\<close>

subsection \<open>Surroundings\<close>

datatype commit_outcome = Committed | RolledBack | Uncertain

datatype front_call = RemoveNodeMetadata int | ClearFrontMeta | ClearGuestVisibilityMeta | RemoveNodeSnapshot int

record 'f registry_env =
  ge_fault :: bool
  ge_commit :: commit_outcome
  ge_refresh :: bool
  ge_front :: "front_call \<Rightarrow> 'f \<Rightarrow> bool \<times> 'f"
  ge_tz :: tz_env
  ge_loc :: "location option"
  ge_now :: time

record 'f registry =
  rg_db :: registry_db
  rg_mem :: memState
  rg_front :: 'f

text \<open>Several calls on the front cache are all made; their errors are joined.\<close>

fun front_calls :: "'f registry_env \<Rightarrow> front_call list \<Rightarrow> 'f \<Rightarrow> bool \<times> 'f" where
  "front_calls env [] f = (True, f)"
| "front_calls env (c # cs) f =
     (let (ok, f1) = ge_front env c f; (ok2, f2) = front_calls env cs f1 in (ok \<and> ok2, f2))"

subsection \<open>Commits\<close>

definition reconcileCommit :: "'f registry_env \<Rightarrow> int list \<Rightarrow> 'f registry \<Rightarrow> 'f registry" where
  "reconcileCommit env ids rg =
     (if ge_refresh env then rg\<lparr>rg_mem := snd (RefreshMetaByIDs (rg_db rg) ids (rg_mem rg))\<rparr> else rg)"

text \<open>
  The end of a transaction that leads to the tables \<open>db\<close>: the front cache is invalidated first, and a failure of it rolls the
  transaction back. \<open>revoke\<close> is what is taken from the memory at once when the outcome of the commit is unknown, \<open>sync\<close> what
  follows a commit.
\<close>

definition finish_tx :: "'f registry_env \<Rightarrow> front_call list \<Rightarrow> int list \<Rightarrow> (memState \<Rightarrow> memState) \<Rightarrow> (memState \<Rightarrow> memState) \<Rightarrow>
    registry_db \<Rightarrow> 'f registry \<Rightarrow> (registry_error + unit) \<times> 'f registry" where
  "finish_tx env calls ids revoke sync db rg =
     (let (ok, front) = front_calls env calls (rg_front rg); rg = rg\<lparr>rg_front := front\<rparr>
      in if \<not> ok then (Inl FrontCacheUpdate, rg)
         else case ge_commit env of
             Committed \<Rightarrow> (Inr (), rg\<lparr>rg_db := db, rg_mem := sync (rg_mem rg)\<rparr>)
           | RolledBack \<Rightarrow> (Inl CommitFailed, reconcileCommit env ids (rg\<lparr>rg_mem := revoke (rg_mem rg)\<rparr>))
           | Uncertain \<Rightarrow> (Inl CommitFailed, reconcileCommit env ids (rg\<lparr>rg_db := db, rg_mem := revoke (rg_mem rg)\<rparr>)))"

subsection \<open>Secrets\<close>

definition secretLength :: nat where "secretLength = 16"
definition secretMinChars :: int where "secretMinChars = 8"
definition secretMaxChars :: int where "secretMaxChars = 128"
definition secretAlphabet :: string where
  "secretAlphabet = ''ABCDEFGHIJKLMNOPQRSTUVWXYZabcdefghijklmnopqrstuvwxyz0123456789''"

definition normalizeSecret :: "string \<Rightarrow> registry_error + string" where
  "normalizeSecret v =
     (let v = trim_space v; n = int (rune_count v)
      in if n < secretMinChars \<or> n > secretMaxChars then Inl InvalidSecret else Inr v)"

text \<open>\<open>draws\<close> are the random numbers, each below the length of the alphabet.\<close>

definition randomString :: "nat \<Rightarrow> string \<Rightarrow> (nat \<Rightarrow> nat) \<Rightarrow> string" where
  "randomString n alphabet draws = map (\<lambda>i. alphabet ! draws i) [0..<n]"

definition GenerateSecret :: "(nat \<Rightarrow> nat) \<Rightarrow> string" where
  "GenerateSecret draws = randomString secretLength secretAlphabet draws"

subsection \<open>Creating a node\<close>

definition max_order :: "registry_db \<Rightarrow> int" where
  "max_order db = (case active_rows db of [] \<Rightarrow> 0 | s # ss \<Rightarrow> fold (\<lambda>x m. max m (Server_DisplayOrder x)) ss (Server_DisplayOrder s))"

definition insert_node :: "string \<Rightarrow> registry_db \<Rightarrow> registry_error + Server \<times> registry_db" where
  "insert_node secret db =
     (let (group, db1) = ensureDefaultGroupID db;
          srv = new_server (reg_next db1) secret (max_order db1 + 1)
      in if secret \<in> Server_Secret ` set (reg_servers db1) then Inl DuplicateSecret
         else Inr (srv, db1\<lparr>reg_servers := reg_servers db1 @ [srv], reg_next := reg_next db1 + 1,
           reg_relations := reg_relations db1 @ [\<lparr>ServerGroup_ServerID = Server_ID srv, ServerGroup_GroupID = group\<rparr>]\<rparr>))"

definition CreateNode :: "'f registry_env \<Rightarrow> string \<Rightarrow> 'f registry \<Rightarrow> (registry_error + unit) \<times> 'f registry" where
  "CreateNode env secret rg =
     (case normalizeSecret secret of Inl e \<Rightarrow> (Inl e, rg)
      | Inr secret \<Rightarrow>
          if ge_fault env then (Inl StatementFailed, rg)
          else case insert_node secret (rg_db rg) of Inl e \<Rightarrow> (Inl e, rg)
             | Inr (srv, db) \<Rightarrow> finish_tx env [ClearFrontMeta] [Server_ID srv] id (syncServerCache srv (Server_Secret srv)) db rg)"

subsection \<open>Changing a node\<close>

definition front_changes :: "int \<Rightarrow> NodeUpdate \<Rightarrow> front_call list" where
  "front_changes i upd =
     (if NodeUpdate_Name upd \<noteq> None \<or> NodeUpdate_DisplayOrder upd \<noteq> None \<or> NodeUpdate_Tags upd \<noteq> None then [RemoveNodeMetadata i] else [])
     @ (if NodeUpdate_IsGuestVisible upd \<noteq> None then [ClearGuestVisibilityMeta] else [])"

definition change_cycle :: "'f registry_env \<Rightarrow> int \<Rightarrow> NodeUpdate \<Rightarrow> registry_db \<Rightarrow> registry_error + NodeUpdate \<times> registry_db" where
  "change_cycle env i upd db =
     (case cycleUpdate (ge_tz env) upd of Inl e \<Rightarrow> Inl e
      | Inr None \<Rightarrow> Inr (upd, db)
      | Inr (Some cycle) \<Rightarrow>
          (case PrepareServerCycleChange (ge_tz env) (ge_now env) i cycle (ge_loc env) (ge_now env) (traffic_rows db) of
             Inl e \<Rightarrow> Inl (CycleChange e) | Inr tdb \<Rightarrow> Inr (with_cycle cycle upd, db\<lparr>reg_traffic := tdb\<rparr>)))"

definition patch_rows :: "'f registry_env \<Rightarrow> int \<Rightarrow> NodeUpdate \<Rightarrow> registry_db \<Rightarrow> registry_error + registry_db" where
  "patch_rows env i upd db =
     (case change_cycle env i upd db of Inl e \<Rightarrow> Inl e
      | Inr (upd, db1) \<Rightarrow> (case patch_fields i (patchFields upd) db1 of Inl e \<Rightarrow> Inl e
      | Inr db2 \<Rightarrow> syncGroups i (NodeUpdate_GroupIDs upd) db2))"

definition patchNode :: "'f registry_env \<Rightarrow> int \<Rightarrow> NodeUpdate \<Rightarrow> 'f registry \<Rightarrow> (registry_error + unit) \<times> 'f registry" where
  "patchNode env i upd rg =
     (if ge_fault env then (Inl StatementFailed, rg)
      else if needsMetaRefresh upd
      then (case loadServerMeta (rg_db rg) i of Inl e \<Rightarrow> (Inl e, rg)
         | Inr old \<Rightarrow> (case patch_rows env i upd (rg_db rg) of Inl e \<Rightarrow> (Inl e, rg)
         | Inr db \<Rightarrow> (case loadServerMeta db i of Inl e \<Rightarrow> (Inl e, rg)
         | Inr fresh \<Rightarrow>
             finish_tx env (front_changes i upd) [i] (if NodeUpdate_Secret upd \<noteq> None then deleteServerMeta i (Server_Secret old) else id)
               (syncServerCache fresh (Server_Secret old)) db rg)))
      else (case patch_rows env i upd (rg_db rg) of Inl e \<Rightarrow> (Inl e, rg)
         | Inr db \<Rightarrow> finish_tx env (front_changes i upd) [i] id id db rg))"

definition update_error :: "registry_error \<Rightarrow> registry_error" where
  "update_error e = (case e of UniqueViolation \<Rightarrow> DuplicateSecret | ForeignKeyViolation \<Rightarrow> InvalidGroups | _ \<Rightarrow> e)"

definition UpdateNode :: "'f registry_env \<Rightarrow> int \<Rightarrow> NodeUpdate \<Rightarrow> 'f registry \<Rightarrow> (registry_error + unit) \<times> 'f registry" where
  "UpdateNode env i upd rg =
     (case (case NodeUpdate_Secret upd of None \<Rightarrow> Inr upd
            | Some s \<Rightarrow> (case normalizeSecret s of Inl e \<Rightarrow> Inl e | Inr s \<Rightarrow> Inr (upd\<lparr>NodeUpdate_Secret := Some s\<rparr>))) of
        Inl e \<Rightarrow> (Inl e, rg)
      | Inr upd \<Rightarrow>
          if i \<le> 0 then (Inl (InvalidNode i), rg)
          else (case patchNode env i upd rg of (Inl e, rg1) \<Rightarrow> (Inl (update_error e), rg1) | (Inr u, rg1) \<Rightarrow> (Inr u, rg1)))"

subsection \<open>Deleting a node\<close>

definition delete_rows :: "int \<Rightarrow> registry_db \<Rightarrow> registry_error + registry_db" where
  "delete_rows i db =
     (case update_rows (matches i) (\<lambda>s. s\<lparr>Server_IsDeleted := True\<rparr>) db of Inl e \<Rightarrow> Inl e
      | Inr db1 \<Rightarrow> Inr (db1\<lparr>reg_relations := filter (\<lambda>r. ServerGroup_ServerID r \<noteq> i) (reg_relations db1)\<rparr>))"

definition DeleteNode :: "'f registry_env \<Rightarrow> int \<Rightarrow> 'f registry \<Rightarrow> (registry_error + unit) \<times> 'f registry" where
  "DeleteNode env i rg =
     (if i \<le> 0 then (Inl (InvalidNode i), rg)
      else if ge_fault env then (Inl StatementFailed, rg)
      else case loadServerMeta (rg_db rg) i of Inl e \<Rightarrow> (Inl e, rg)
        | Inr old \<Rightarrow> (case delete_rows i (rg_db rg) of Inl e \<Rightarrow> (Inl e, rg)
        | Inr db \<Rightarrow>
            (case finish_tx env [ClearFrontMeta, ClearGuestVisibilityMeta] [i] (deleteServerMeta i (Server_Secret old))
                (removeServerState i (Server_Secret old)) db rg of
               (Inl e, rg1) \<Rightarrow> (Inl e, rg1)
             | (Inr u, rg1) \<Rightarrow> (Inr u, rg1\<lparr>rg_front := snd (ge_front env (RemoveNodeSnapshot i) (rg_front rg1))\<rparr>))))"

subsection \<open>Ordering nodes\<close>

fun first_duplicate :: "int list \<Rightarrow> int list \<Rightarrow> int option" where
  "first_duplicate seen [] = None"
| "first_duplicate seen (i # ids) = (if i \<in> set seen then Some i else first_duplicate (i # seen) ids)"

text \<open>
  \<open>CASE id WHEN ... THEN ...\<close>: the first id gets the greatest value. A \<open>CASE\<close> without a branch is no statement, so the order of no
  nodes is refused.
\<close>

definition order_of :: "int list \<Rightarrow> int \<Rightarrow> int option" where
  "order_of ids = map_of (zip ids (map (\<lambda>k. int (length ids) - int k) [0..<length ids]))"

definition orderUpdate :: "int list \<Rightarrow> Server list \<Rightarrow> Server list" where
  "orderUpdate ids rows =
     map (\<lambda>s. if Server_IsDeleted s then s else case order_of ids (Server_ID s) of None \<Rightarrow> s | Some v \<Rightarrow> s\<lparr>Server_DisplayOrder := v\<rparr>) rows"

definition UpdateDisplayOrder :: "'f registry_env \<Rightarrow> int list \<Rightarrow> 'f registry \<Rightarrow> (registry_error + unit) \<times> 'f registry" where
  "UpdateDisplayOrder env ids rg =
     (case first_duplicate [] ids of Some i \<Rightarrow> (Inl (DuplicateNode i), rg)
      | None \<Rightarrow>
          if ge_fault env then (Inl StatementFailed, rg)
          else let existing = map Server_ID (active_rows (rg_db rg))
               in if length existing \<noteq> length ids then (Inl IncompleteOrder, rg)
                  else case find (\<lambda>i. i \<notin> set existing) ids of Some i \<Rightarrow> (Inl (UnknownNode i), rg)
                    | None \<Rightarrow>
                        if ids = [] then (Inl StatementFailed, rg)
                        else (let db = (rg_db rg)\<lparr>reg_servers := orderUpdate ids (reg_servers (rg_db rg))\<rparr>;
                             freshRows = filter (\<lambda>s. Server_ID s \<in> set ids) (active_rows db)
                         in finish_tx env (if ids = [] then [] else [ClearFrontMeta]) ids id
                              (fold (\<lambda>s. syncServerCache s (Server_Secret s)) freshRows) db rg))"

definition SetTrafficP95 :: "'f registry_env \<Rightarrow> int list \<Rightarrow> bool \<Rightarrow> 'f registry \<Rightarrow> (registry_error + unit) \<times> 'f registry" where
  "SetTrafficP95 env ids enabled rg =
     (if ids = [] then (Inr (), rg)
      else if ge_fault env then (Inl StatementFailed, rg)
      else if length (filter (\<lambda>s. Server_ID s \<in> set ids) (active_rows (rg_db rg))) \<noteq> length ids then (Inl RecordNotFound, rg)
      else let rows = map (\<lambda>s. if Server_ID s \<in> set ids \<and> \<not> Server_IsDeleted s then s\<lparr>Server_TrafficP95Enabled := enabled\<rparr> else s) (reg_servers (rg_db rg))
           in case ge_commit env of Committed \<Rightarrow> (Inr (), rg\<lparr>rg_db := (rg_db rg)\<lparr>reg_servers := rows\<rparr>\<rparr>)
              | RolledBack \<Rightarrow> (Inl CommitFailed, rg)
              | Uncertain \<Rightarrow> (Inl CommitFailed, rg\<lparr>rg_db := (rg_db rg)\<lparr>reg_servers := rows\<rparr>\<rparr>))"

subsection \<open>Static reports\<close>

definition load_with_secret :: "registry_db \<Rightarrow> int \<Rightarrow> string \<Rightarrow> registry_error + Server" where
  "load_with_secret db i secret = (case find (\<lambda>s. Server_ID s = i \<and> Server_Secret s = secret) (active_rows db) of None \<Rightarrow> Inl RecordNotFound | Some s \<Rightarrow> Inr s)"

definition kept_columns :: "Server \<Rightarrow> column list \<Rightarrow> column list" where
  "kept_columns old cs =
     (let name = trim_space (Server_Name old) in if name \<noteq> [] \<and> name \<noteq> ''Untitled'' then filter (\<lambda>c. \<not> is_name c) cs else cs)"

definition UpdateStatic :: "'f registry_env \<Rightarrow> string \<Rightarrow> int \<Rightarrow> ServerStaticPatch \<Rightarrow> 'f registry \<Rightarrow> (registry_error + unit) \<times> 'f registry" where
  "UpdateStatic env secret i patch rg =
     (if i \<le> 0 then (Inl (InvalidNode i), rg)
      else if ge_fault env then (Inl StatementFailed, rg)
      else case load_with_secret (rg_db rg) i secret of Inl e \<Rightarrow> (Inl e, rg)
        | Inr old \<Rightarrow>
            (let cs = kept_columns old (static_updates patch)
             in case update_rows (\<lambda>s. matches i s \<and> Server_Secret s = secret) (set_columns cs) (rg_db rg) of Inl e \<Rightarrow> (Inl e, rg)
                | Inr db \<Rightarrow> (case load_with_secret db i secret of Inl e \<Rightarrow> (Inl e, rg)
                | Inr fresh \<Rightarrow>
                    finish_tx env (if staticUpdatesFrontMetadata cs then [RemoveNodeMetadata i] else []) [i] id
                      (syncServerCache fresh (Server_Secret old)) db rg)))"

subsection \<open>The address of a node\<close>

text \<open>
  What the receiver does with the address a report came from, under the lock of the node and after the sample is stored: the row is
  updated by its id and the server it has authenticated goes back to the memory with that address.
\<close>

definition report_address :: "string \<Rightarrow> string \<Rightarrow> 'f registry \<Rightarrow> 'f registry" where
  "report_address secret ip rg =
     (case Authenticate secret (GetServerBySecret (rg_mem rg) secret) of
        Inl e \<Rightarrow> rg
      | Inr current \<Rightarrow>
          (case buildServerUpdates current (Some ip) of None \<Rightarrow> rg
           | Some ip \<Rightarrow> rg\<lparr>rg_db := (rg_db rg)\<lparr>reg_servers := map (\<lambda>s. if Server_ID s = Server_ID current then s\<lparr>Server_IP := Some ip\<rparr> else s) (reg_servers (rg_db rg))\<rparr>,
               rg_mem := snd (SyncServerCache (current\<lparr>Server_IP := Some ip\<rparr>) (rg_mem rg))\<rparr>))"

end
