(* ===== verification/Registry_Safety.thy ===== *)
theory Registry_Safety
  imports Node_Registry
begin

text \<open>
  The memory follows the table. What it knows is compared with the credentials of the active rows (\<open>creds\<close>) and with the
  entries they should have (\<open>entries\<close>): \<open>follows\<close> says that no other secret is accepted, \<open>exact\<close> that the memory is what a rebuild
  from the table would give. Every operation keeps the first, whatever fails, and the second when no
  outcome of a commit remains unknown.
\<close>

subsection \<open>Rows\<close>

definition server_ok :: "Server \<Rightarrow> bool" where
  "server_ok s \<longleftrightarrow> 0 < Server_ID s \<and> trim_space (Server_Secret s) = Server_Secret s \<and> Server_Secret s \<noteq> []"

definition reg_ok :: "registry_db \<Rightarrow> bool" where
  "reg_ok db \<longleftrightarrow> distinct (map Server_ID (reg_servers db)) \<and> unique_secrets (reg_servers db) \<and> 0 < reg_next db \<and>
     (\<forall>s \<in> set (reg_servers db). server_ok s \<and> Server_ID s < reg_next db)"

definition active :: "registry_db \<Rightarrow> int \<Rightarrow> Server option" where
  "active db i = find (matches i) (reg_servers db)"

definition creds :: "registry_db \<Rightarrow> int \<Rightarrow> string option" where
  "creds db i = map_option Server_Secret (active db i)"

definition entries :: "registry_db \<Rightarrow> int \<Rightarrow> authEntry option" where
  "entries db i = map_option entry_of (active db i)"

lemma find_filter: "find P (filter Q xs) = find (\<lambda>x. P x \<and> Q x) xs"
  by (induction xs) auto

lemma loadServerMeta_active: "loadServerMeta db i = (case active db i of None \<Rightarrow> Inl RecordNotFound | Some s \<Rightarrow> Inr s)"
  by (simp add: loadServerMeta_def active_def active_rows_def find_filter matches_def [abs_def])

lemma active_Some: "active db i = Some s \<Longrightarrow> s \<in> set (reg_servers db) \<and> Server_ID s = i \<and> \<not> Server_IsDeleted s"
  by (auto simp: active_def find_Some_iff matches_def)

lemma active_iff:
  assumes "reg_ok db"
  shows "active db i = Some s \<longleftrightarrow> s \<in> set (active_rows db) \<and> Server_ID s = i"
proof
  assume s: "s \<in> set (active_rows db) \<and> Server_ID s = i"
  then obtain r where r: "active db i = Some r" unfolding active_def active_rows_def
    by (metis (mono_tags, lifting) find_None_iff matches_def mem_Collect_eq not_Some_eq set_filter)
  from active_Some [OF r] s assms have "r = s" by (auto simp: reg_ok_def active_rows_def distinct_map inj_on_def)
  with r show "active db i = Some s" by simp
qed (use active_Some in \<open>auto simp: active_rows_def\<close>)

lemma find_map_rows:
  assumes "\<And>s. Server_ID (f s) = Server_ID s" "\<And>s. Server_IsDeleted (f s) = Server_IsDeleted s"
  shows "find (matches j) (map f rows) = map_option f (find (matches j) rows)"
  using assms by (induction rows) (auto simp: matches_def)

lemma row_secret [simp]: "server_ok s \<Longrightarrow> trim_space (Server_Secret s) = Server_Secret s"
  by (simp add: server_ok_def)

lemma entry_secret: "auth_secret (entry_of s) = trim_space (Server_Secret s)" "Meta_ID (auth_meta (entry_of s)) = Server_ID s"
  by (simp_all add: entry_of_def metaFromServer_def)

subsection \<open>Credentials\<close>

definition creds_ok :: "(int \<Rightarrow> string option) \<Rightarrow> bool" where
  "creds_ok C \<longleftrightarrow> (\<forall>i s. C i = Some s \<longrightarrow> 0 < i \<and> s \<noteq> [] \<and> trim_space s = s) \<and> (\<forall>i j s. C i = Some s \<longrightarrow> C j = Some s \<longrightarrow> i = j)"

lemma creds_ok: assumes "reg_ok db" shows "creds_ok (creds db)"
proof -
  have "i = j" if "active db i = Some r" "active db j = Some r'" "Server_Secret r = Server_Secret r'" for i j r r'
    using assms active_Some [OF that(1)] active_Some [OF that(2)] that(3) by (auto simp: reg_ok_def unique_secrets_def distinct_map inj_on_def)
  moreover have "0 < i \<and> Server_Secret r \<noteq> [] \<and> trim_space (Server_Secret r) = Server_Secret r" if "active db i = Some r" for i r
    using assms active_Some [OF that] by (auto simp: reg_ok_def server_ok_def)
  ultimately show ?thesis unfolding creds_ok_def creds_def by auto
qed

subsection \<open>The memory\<close>

abbreviation by_secret :: "memState \<Rightarrow> string \<Rightarrow> authEntry option" where "by_secret mem \<equiv> map_of (authBySecret mem)"
abbreviation known_id :: "memState \<Rightarrow> int \<Rightarrow> authEntry option" where "known_id mem \<equiv> map_of (authByID mem)"

definition follows :: "(int \<Rightarrow> string option) \<Rightarrow> memState \<Rightarrow> bool" where
  "follows C mem \<longleftrightarrow>
     (\<forall>s e. by_secret mem s = Some e \<longrightarrow> auth_secret e = s \<and> known_id mem (Meta_ID (auth_meta e)) = Some e) \<and>
     (\<forall>i e. known_id mem i = Some e \<longrightarrow> Meta_ID (auth_meta e) = i \<and> by_secret mem (auth_secret e) = Some e \<and> C i = Some (auth_secret e))"

definition exact :: "registry_db \<Rightarrow> memState \<Rightarrow> bool" where
  "exact db mem \<longleftrightarrow> follows (creds db) mem \<and> known_id mem = entries db"

lemma follows_weaken: "follows C mem \<Longrightarrow> (\<And>i e. known_id mem i = Some e \<Longrightarrow> C' i = C i) \<Longrightarrow> follows C' mem"
  by (simp add: follows_def)

lemma followsD:
  assumes "follows C mem"
  shows "by_secret mem s = Some e \<Longrightarrow> auth_secret e = s" "by_secret mem s = Some e \<Longrightarrow> known_id mem (Meta_ID (auth_meta e)) = Some e"
    "known_id mem i = Some e \<Longrightarrow> Meta_ID (auth_meta e) = i" "known_id mem i = Some e \<Longrightarrow> by_secret mem (auth_secret e) = Some e"
    "known_id mem i = Some e \<Longrightarrow> C i = Some (auth_secret e)"
  using assms by (auto simp: follows_def)

text \<open>Caching a row under the secret it has now, after it had another one.\<close>

lemma sync_known:
  assumes "0 < Server_ID srv" "trim_space (Server_Secret srv) \<noteq> []"
  shows "known_id (syncServerCache srv old mem) = (known_id mem)(Server_ID srv \<mapsto> entry_of srv)"
  using assms by (simp add: syncServerCache_def Let_def AList.update_conv')

lemma sync_secret_other:
  assumes "0 < Server_ID srv" "trim_space (Server_Secret srv) \<noteq> []" "x \<noteq> trim_space (Server_Secret srv)"
  shows "by_secret (syncServerCache srv old mem) x =
    (if trim_space old \<noteq> [] \<and> x = trim_space old then None
     else case known_id mem (Server_ID srv) of None \<Rightarrow> by_secret mem x
       | Some e \<Rightarrow> if auth_secret e \<noteq> [] \<and> x = auth_secret e then None else by_secret mem x)"
  using assms by (cases "known_id mem (Server_ID srv)") (simp_all add: syncServerCache_def Let_def AList.update_conv' AList.delete_conv')

lemma sync_secret_own:
  assumes "0 < Server_ID srv" "trim_space (Server_Secret srv) \<noteq> []"
  shows "by_secret (syncServerCache srv old mem) (trim_space (Server_Secret srv)) = Some (entry_of srv)"
  using assms by (simp add: syncServerCache_def Let_def AList.update_conv')

lemma creds_okD:
  assumes "creds_ok C"
  shows "C i = Some s \<Longrightarrow> 0 < i" "C i = Some s \<Longrightarrow> s \<noteq> []" "C i = Some s \<Longrightarrow> trim_space s = s" "C i = Some s \<Longrightarrow> C j = Some s \<Longrightarrow> i = j"
  using assms by (auto simp: creds_ok_def)

lemma sync_follows:
  assumes m: "follows C mem" and C: "creds_ok C" "creds_ok C'" "C' = C(i \<mapsto> s)" and srv: "Server_ID srv = i" "trim_space (Server_Secret srv) = s"
    and old: "trim_space old = [] \<or> (\<forall>j. j \<noteq> i \<longrightarrow> C j \<noteq> Some (trim_space old))"
  shows "follows C' (syncServerCache srv old mem)"
proof -
  have i: "C' i = Some s" using C(3) by simp
  have s: "0 < i" "s \<noteq> []" using creds_okD(1,2) [OF C(2) i] by auto
  have other: "C j \<noteq> Some s" if "j \<noteq> i" for j using creds_okD(4) [OF C(2) i, of j] that C(3) by auto
  note d = followsD [OF m]
  note k = sync_known [of srv old mem, unfolded srv, OF s] and own = sync_secret_own [of srv old mem, unfolded srv, OF s]
    and out = sync_secret_other [of srv _ old mem, unfolded srv, OF s]
  have ent: "auth_secret (entry_of srv) = s" "Meta_ID (auth_meta (entry_of srv)) = i" using srv by (simp_all add: entry_secret)
  show ?thesis
    unfolding follows_def
  proof (intro conjI allI impI)
    fix x e assume a: "by_secret (syncServerCache srv old mem) x = Some e"
    have "auth_secret e = x \<and> known_id (syncServerCache srv old mem) (Meta_ID (auth_meta e)) = Some e"
    proof (cases "x = s")
      case False
      with a have b: "by_secret mem x = Some e" by (auto simp: out split: if_splits option.splits)
      have "Meta_ID (auth_meta e) \<noteq> i"
      proof
        assume "Meta_ID (auth_meta e) = i"
        then have "known_id mem i = Some e" using d(2) [OF b] by simp
        moreover have "auth_secret e = x" "x \<noteq> []" using d(1) [OF b] d(5) [OF calculation] creds_okD(2) [OF C(1)] by auto
        ultimately show False using a False by (simp add: out split: if_splits)
      qed
      with d(1,2) [OF b] show ?thesis by (simp add: k)
    qed (use a ent own in \<open>auto simp: k\<close>)
    then show "auth_secret e = x" "known_id (syncServerCache srv old mem) (Meta_ID (auth_meta e)) = Some e" by auto
  next
    fix j e assume a: "known_id (syncServerCache srv old mem) j = Some e"
    have "Meta_ID (auth_meta e) = j \<and> by_secret (syncServerCache srv old mem) (auth_secret e) = Some e \<and> C' j = Some (auth_secret e)"
    proof (cases "j = i")
      case False
      with a have b: "known_id mem j = Some e" by (simp add: k)
      note e = d(3,4,5) [OF b]
      have "auth_secret e \<noteq> s" using e(3) other [OF False] by auto
      moreover have "\<not> (trim_space old \<noteq> [] \<and> auth_secret e = trim_space old)" using old e(3) False by auto
      moreover have "auth_secret e \<noteq> auth_secret e'" if "known_id mem i = Some e'" for e'
        using d(5) [OF that] e(3) creds_okD(4) [OF C(1)] False by metis
      ultimately show ?thesis using e False C(3) by (auto simp: out split: option.splits)
    qed (use a ent own i in \<open>auto simp: k\<close>)
    then show "Meta_ID (auth_meta e) = j" "by_secret (syncServerCache srv old mem) (auth_secret e) = Some e" "C' j = Some (auth_secret e)" by auto
  qed
qed

text \<open>Forgetting a node.\<close>

lemma delete_known: "0 < i \<Longrightarrow> known_id (deleteServerMeta i secret mem) = (known_id mem)(i := None)"
  by (simp add: deleteServerMeta_def Let_def AList.delete_conv')

lemma delete_follows:
  assumes m: "follows C mem" and C: "creds_ok C" and i: "0 < i"
    and secret: "trim_space secret = [] \<or> C i = Some (trim_space secret) \<or> C i = None \<and> trim_space secret \<notin> ran C"
  shows "follows (C(i := None)) (deleteServerMeta i secret mem)" "follows C (deleteServerMeta i secret mem)"
proof -
  let ?mem = "deleteServerMeta i secret mem"
  note d = followsD [OF m]
  note k = delete_known [OF i, of secret mem]
  define gone where "gone = (if trim_space secret = [] then (case known_id mem i of Some old \<Rightarrow> auth_secret old | None \<Rightarrow> []) else trim_space secret)"
  have b: "by_secret ?mem = (if gone \<noteq> [] then (by_secret mem)(gone := None) else by_secret mem)"
    using i by (simp add: deleteServerMeta_def gone_def Let_def AList.delete_conv')
  have old: "auth_secret e = gone" "gone \<noteq> []" if "known_id mem i = Some e" for e
    using d(5) [OF that] secret creds_okD(2) [OF C] that by (auto simp: gone_def)
  have free: "C j \<noteq> Some gone" if n: "j \<noteq> i" "gone \<noteq> []" for j
  proof (cases "trim_space secret = []")
    case True
    then obtain e where "known_id mem i = Some e" "auth_secret e = gone" using n(2) by (auto simp: gone_def split: option.splits)
    with d(5) [of i e] show ?thesis using creds_okD(4) [OF C, of i gone j] n(1) by auto
  next
    case False
    then show ?thesis using secret creds_okD(4) [OF C, of i gone j] n(1) by (auto simp: gone_def ranI)
  qed
  have 1: "known_id ?mem (Meta_ID (auth_meta e)) = Some e \<and> auth_secret e = x" if "by_secret ?mem x = Some e" for x e
  proof -
    from that have x: "by_secret mem x = Some e" by (auto simp: b split: if_splits)
    have "Meta_ID (auth_meta e) \<noteq> i"
    proof
      assume "Meta_ID (auth_meta e) = i"
      with d(2) [OF x] have "known_id mem i = Some e" by simp
      from old [OF this] d(1) [OF x] that show False by (simp add: b)
    qed
    with d(1,2) [OF x] show ?thesis by (simp add: k)
  qed
  have 2: "j \<noteq> i \<and> Meta_ID (auth_meta e) = j \<and> by_secret ?mem (auth_secret e) = Some e \<and> C j = Some (auth_secret e)" if "known_id ?mem j = Some e" for j e
  proof -
    from that have j: "j \<noteq> i" "known_id mem j = Some e" by (auto simp: k split: if_splits)
    note e = d(3,4,5) [OF j(2)]
    have "gone \<noteq> [] \<Longrightarrow> auth_secret e \<noteq> gone" using free [OF j(1)] e(3) by auto
    with e j(1) show ?thesis by (auto simp: b)
  qed
  from 1 2 show "follows (C(i := None)) ?mem" "follows C ?mem" by (auto simp: follows_def)
qed

lemma remove_view:
  "authByID (removeServerState i secret mem) = authByID (deleteServerMeta i secret mem)"
  "authBySecret (removeServerState i secret mem) = authBySecret (deleteServerMeta i secret mem)"
  by (simp_all add: removeServerState_def Let_def)

lemma follows_view: "authByID mem = authByID mem' \<Longrightarrow> authBySecret mem = authBySecret mem' \<Longrightarrow> follows C mem = follows C mem'"
  by (simp add: follows_def)

lemma remove_follows: "follows C (removeServerState i secret mem) = follows C (deleteServerMeta i secret mem)"
  by (rule follows_view) (simp_all add: remove_view)

subsection \<open>Reading rows back\<close>

lemma sync_same:
  assumes "follows (creds db) mem" "reg_ok db" "active db i = Some r"
  shows "follows (creds db) (syncServerCache r (Server_Secret r) mem)" "known_id (syncServerCache r (Server_Secret r) mem) = (known_id mem)(i := entries db i)"
    "SyncServerCache r mem = (True, syncServerCache r (Server_Secret r) mem)"
proof -
  have r: "Server_ID r = i" "server_ok r" using active_Some [OF assms(3)] assms(2) by (auto simp: reg_ok_def)
  note c = creds_ok [OF assms(2)]
  have i: "creds db i = Some (Server_Secret r)" using assms(3) by (simp add: creds_def)
  show "follows (creds db) (syncServerCache r (Server_Secret r) mem)"
  proof (rule sync_follows [OF assms(1) c c _ r(1), of "Server_Secret r"])
    show "creds db = (creds db)(i \<mapsto> Server_Secret r)" using i by (simp add: fun_upd_idem)
    show "trim_space (Server_Secret r) = Server_Secret r" using r(2) by simp
    show "trim_space (Server_Secret r) = [] \<or> (\<forall>j. j \<noteq> i \<longrightarrow> creds db j \<noteq> Some (trim_space (Server_Secret r)))"
      using creds_okD(4) [OF c i] r(2) by auto
  qed
  show "known_id (syncServerCache r (Server_Secret r) mem) = (known_id mem)(i := entries db i)"
    using sync_known [of r "Server_Secret r" mem] r assms(3) by (simp add: server_ok_def entries_def)
  show "SyncServerCache r mem = (True, syncServerCache r (Server_Secret r) mem)" using r by (simp add: SyncServerCache_def server_ok_def)
qed

lemma filter_id:
  assumes "reg_ok db"
  shows "filter (\<lambda>s. Server_ID s \<in> set [i]) (reg_servers db) = (case find (\<lambda>s. Server_ID s = i) (reg_servers db) of None \<Rightarrow> [] | Some r \<Rightarrow> [r])"
proof -
  have "filter (\<lambda>s. Server_ID s = i) xs = (case find (\<lambda>s. Server_ID s = i) xs of None \<Rightarrow> [] | Some r \<Rightarrow> [r])" if "distinct (map Server_ID xs)" for xs :: "Server list"
    using that by (induction xs) (auto simp: filter_empty_conv find_Some_iff split: option.splits)
  then show ?thesis using assms by (simp add: reg_ok_def)
qed

lemma active_find:
  assumes "reg_ok db" "find (\<lambda>s. Server_ID s = i) (reg_servers db) = Some r"
  shows "active db i = (if Server_IsDeleted r then None else Some r)"
proof -
  have r: "r \<in> set (reg_servers db)" "Server_ID r = i" using assms(2) by (auto simp: find_Some_iff)
  have "active db i = Some r" if "\<not> Server_IsDeleted r" using active_iff [OF assms(1)] r that by (simp add: active_rows_def)
  moreover have "active db i = None" if "Server_IsDeleted r"
  proof (rule ccontr)
    assume "active db i \<noteq> None"
    then obtain x where x: "active db i = Some x" by blast
    with active_Some [OF x] r assms(1) have "x = r" by (auto simp: reg_ok_def distinct_map inj_on_def)
    with active_Some [OF x] that show False by simp
  qed
  ultimately show ?thesis by simp
qed

lemma refresh_one:
  assumes "reg_ok db" "follows (creds db) mem" "0 < i"
  shows "follows (creds db) (snd (RefreshMetaByIDs db [i] mem)) \<and> known_id (snd (RefreshMetaByIDs db [i] mem)) = (known_id mem)(i := entries db i)"
proof (cases "find (\<lambda>s. Server_ID s = i) (reg_servers db)")
  case None
  then have n: "active db i = None" by (auto simp: active_def find_None_iff matches_def)
  have "RefreshMetaByIDs db [i] mem = (True, removeServerState i [] mem)"
    using filter_id [OF assms(1), of i] None by (simp add: RefreshMetaByIDs_def)
  moreover have "follows (creds db) (deleteServerMeta i [] mem)"
    by (rule delete_follows(2) [OF assms(2) creds_ok [OF assms(1)] assms(3)]) simp
  ultimately show ?thesis using n by (simp add: remove_follows remove_view delete_known [OF assms(3)] entries_def)
next
  case (Some r)
  have f: "filter (\<lambda>s. Server_ID s \<in> set [i]) (reg_servers db) = [r]" using filter_id [OF assms(1), of i] Some by simp
  have r: "r \<in> set (reg_servers db)" "Server_ID r = i" using Some by (auto simp: find_Some_iff)
  show ?thesis
  proof (cases "Server_IsDeleted r")
    case True
    then have n: "active db i = None" using active_find [OF assms(1) Some] by simp
    have "RefreshMetaByIDs db [i] mem = (True, removeServerState i (Server_Secret r) mem)"
      unfolding RefreshMetaByIDs_def f using True r by simp
    moreover have "Server_Secret r \<notin> ran (creds db)"
    proof
      assume "Server_Secret r \<in> ran (creds db)"
      then obtain j x where x: "active db j = Some x" "Server_Secret x = Server_Secret r" by (auto simp: ran_def creds_def)
      with active_Some [OF x(1)] r assms(1) have "x = r" by (auto simp: reg_ok_def unique_secrets_def distinct_map inj_on_def)
      with active_Some [OF x(1)] True show False by simp
    qed
    then have "follows (creds db) (deleteServerMeta i (Server_Secret r) mem)"
      using delete_follows(2) [OF assms(2) creds_ok [OF assms(1)] assms(3), of "Server_Secret r"] n r assms(1) by (simp add: creds_def reg_ok_def)
    ultimately show ?thesis using n by (simp add: remove_follows remove_view delete_known [OF assms(3)] entries_def)
  next
    case False
    then have a: "active db i = Some r" using active_find [OF assms(1) Some] by simp
    note s = sync_same [OF assms(2,1) a]
    have "RefreshMetaByIDs db [i] mem = (True, syncServerCache r (Server_Secret r) mem)"
      unfolding RefreshMetaByIDs_def f using False r s(3) by simp
    with s show ?thesis by simp
  qed
qed

subsection \<open>Transactions on one node\<close>

definition rg_ok :: "'f registry \<Rightarrow> bool" where
  "rg_ok rg \<longleftrightarrow> reg_ok (rg_db rg) \<and> follows (creds (rg_db rg)) (rg_mem rg)"

definition rg_exact :: "'f registry \<Rightarrow> bool" where
  "rg_exact rg \<longleftrightarrow> known_id (rg_mem rg) = entries (rg_db rg)"

text \<open>The outcome of the commit became known.\<close>

definition confirmed :: "'f registry_env \<Rightarrow> bool" where
  "confirmed env \<longleftrightarrow> ge_commit env = Committed \<or> ge_refresh env"

definition keeps :: "'f registry_env \<Rightarrow> 'f registry \<Rightarrow> 'f registry \<Rightarrow> bool" where
  "keeps env rg rg' \<longleftrightarrow> rg_ok rg' \<and> (confirmed env \<longrightarrow> rg_exact rg \<longrightarrow> rg_exact rg')"

lemma registry_keeps_refl: "rg_ok rg \<Longrightarrow> keeps env rg rg"
  by (simp add: keeps_def)

lemma keeps_same: "rg_db rg2 = rg_db rg1 \<Longrightarrow> rg_mem rg2 = rg_mem rg1 \<Longrightarrow> keeps env rg rg1 \<Longrightarrow> keeps env rg rg2"
  by (simp add: keeps_def rg_ok_def rg_exact_def)

lemma entries_active: "active db j = active db' j \<Longrightarrow> entries db j = entries db' j \<and> creds db j = creds db' j"
  by (simp add: entries_def creds_def)

lemma finish_tx_keeps:
  assumes rg: "rg_ok rg" and db: "reg_ok db" "0 < i" "\<And>j. j \<noteq> i \<Longrightarrow> entries db j = entries (rg_db rg) j"
    and sync: "follows (creds db) (sync (rg_mem rg))" "rg_exact rg \<Longrightarrow> known_id (sync (rg_mem rg)) = entries db"
    and revoke: "follows (creds (rg_db rg)) (revoke (rg_mem rg))" "follows (creds db) (revoke (rg_mem rg))"
      "\<And>j. j \<noteq> i \<Longrightarrow> known_id (revoke (rg_mem rg)) j = known_id (rg_mem rg) j"
    and run: "finish_tx env calls [i] revoke sync db rg = (res, rg')"
  shows "keeps env rg rg'"
proof -
  have reg: "reg_ok (rg_db rg)" using rg by (simp add: rg_ok_def)
  obtain ok f where c: "front_calls env calls (rg_front rg) = (ok, f)" by fastforce
  have reread: "known_id (snd (RefreshMetaByIDs d [i] (revoke (rg_mem rg)))) = entries d"
    if "rg_exact rg" "known_id (snd (RefreshMetaByIDs d [i] (revoke (rg_mem rg)))) = (known_id (revoke (rg_mem rg)))(i := entries d i)"
      "\<And>j. j \<noteq> i \<Longrightarrow> entries d j = entries (rg_db rg) j" for d
    using that revoke(3) by (auto simp: rg_exact_def fun_eq_iff)
  note r0 = refresh_one [OF reg revoke(1) db(2)] and r1 = refresh_one [OF db(1) revoke(2) db(2)]
  consider "\<not> ok" "rg_db rg' = rg_db rg" "rg_mem rg' = rg_mem rg"
    | "ok" "ge_commit env = Committed" "rg_db rg' = db" "rg_mem rg' = sync (rg_mem rg)"
    | "ge_commit env = RolledBack" "rg_db rg' = rg_db rg" "rg_mem rg' = (if ge_refresh env then snd (RefreshMetaByIDs (rg_db rg) [i] (revoke (rg_mem rg))) else revoke (rg_mem rg))"
    | "ge_commit env = Uncertain" "rg_db rg' = db" "rg_mem rg' = (if ge_refresh env then snd (RefreshMetaByIDs db [i] (revoke (rg_mem rg))) else revoke (rg_mem rg))"
    using run c by (auto simp: finish_tx_def Let_def reconcileCommit_def split: if_splits commit_outcome.splits)
  then show ?thesis
  proof cases
    case 1
    then show ?thesis using rg by (simp add: keeps_def rg_ok_def rg_exact_def)
  next
    case 2
    then show ?thesis using db sync by (simp add: keeps_def rg_ok_def rg_exact_def)
  next
    case 3
    then show ?thesis using reg r0 revoke(1) reread [of "rg_db rg"] by (simp add: keeps_def rg_ok_def confirmed_def) (simp add: rg_exact_def)
  next
    case 4
    then show ?thesis using db r1 revoke(2) reread [of db] by (simp add: keeps_def rg_ok_def confirmed_def) (simp add: rg_exact_def)
  qed
qed

end
