(* ===== verification/Registry_History.thy ===== *)
theory Registry_History
  imports Registry_Safety
begin

text \<open>
  Every operation of the node store keeps the memory and the table together, and so does every history of them.
\<close>

subsection \<open>Columns\<close>

lemma set_column_keeps [simp]:
  "Server_ID (set_column c s) = Server_ID s" "Server_IsDeleted (set_column c s) = Server_IsDeleted s"
  by (cases c; simp)+

lemma set_columns_Nil [simp]: "set_columns [] s = s"
  by (simp add: set_columns_def)

lemma set_columns_Cons [simp]: "set_columns (c # cs) s = set_columns cs (set_column c s)"
  by (simp add: set_columns_def)

lemma set_columns_append: "set_columns (cs @ ds) s = set_columns ds (set_columns cs s)"
  by (simp add: set_columns_def)

lemma set_columns_keeps [simp]:
  "Server_ID (set_columns cs s) = Server_ID s" "Server_IsDeleted (set_columns cs s) = Server_IsDeleted s"
  by (induction cs arbitrary: s) simp_all

fun is_secret :: "column \<Rightarrow> bool" where
  "is_secret (ColSecret v) = True"
| "is_secret c = False"

lemma set_columns_secret: "\<not> list_ex is_secret cs \<Longrightarrow> Server_Secret (set_columns cs s) = Server_Secret s"
proof (induction cs arbitrary: s)
  case (Cons c cs)
  then show ?case by (cases c) simp_all
qed simp

text \<open>The columns the memory does not hold.\<close>

fun unseen :: "column \<Rightarrow> bool" where
  "unseen (ColIsGuestVisible v) = True"
| "unseen (ColTrafficP95Enabled v) = True"
| "unseen (ColCycleMode v) = True"
| "unseen (ColBillingStartDay v) = True"
| "unseen (ColBillingAnchorDate v) = True"
| "unseen (ColBillingTimezone v) = True"
| "unseen (ColDirectionMode v) = True"
| "unseen c = False"

lemma set_columns_unseen: "list_all unseen cs \<Longrightarrow> entry_of (set_columns cs s) = entry_of s"
proof (induction cs arbitrary: s)
  case (Cons c cs)
  then have "entry_of (set_column c s) = entry_of s" by (cases c) (simp_all add: entry_of_def metaFromServer_def)
  with Cons show ?case by simp
qed simp

lemma given_list: "list_ex P (given c v) = (\<exists>x. v = Some x \<and> P (c x))" "list_all P (given c v) = (\<forall>x. v = Some x \<longrightarrow> P (c x))"
  by (auto simp: given_def split: option.splits)

lemma patch_unseen: "\<not> needsMetaRefresh upd \<Longrightarrow> list_all unseen (patchFields upd)"
  by (simp add: patchFields_def needsMetaRefresh_def given_list)

lemma patch_secret:
  "NodeUpdate_Secret upd = None \<Longrightarrow> Server_Secret (set_columns (patchFields upd) s) = Server_Secret s"
  "NodeUpdate_Secret upd = Some v \<Longrightarrow> Server_Secret (set_columns (patchFields upd) s) = v"
proof -
  show "Server_Secret (set_columns (patchFields upd) s) = Server_Secret s" if "NodeUpdate_Secret upd = None"
    by (rule set_columns_secret) (simp add: patchFields_def given_list that)
  show "Server_Secret (set_columns (patchFields upd) s) = v" if "NodeUpdate_Secret upd = Some v"
    by (simp add: patchFields_def set_columns_append given_def [of ColSecret] that)
qed

lemma static_no_secret: "\<not> list_ex is_secret (static_updates p)"
  by (simp add: static_updates_def given_list disk_columns_def Let_def split: option.splits)

lemma kept_no_secret: "\<not> list_ex is_secret (kept_columns old (static_updates p))"
  using static_no_secret [of p] by (auto simp: kept_columns_def Let_def list_ex_iff)

subsection \<open>Updates of rows\<close>

lemma reg_ok_cong: "reg_servers db' = reg_servers db \<Longrightarrow> reg_next db' = reg_next db \<Longrightarrow> reg_ok db' = reg_ok db"
  by (simp add: reg_ok_def)

lemma active_cong: "reg_servers db' = reg_servers db \<Longrightarrow> active db' = active db"
  by (simp add: active_def fun_eq_iff)

lemma update_rows_Inr:
  assumes "update_rows m f db = Inr db'"
  shows "reg_servers db' = map (\<lambda>s. if m s then f s else s) (reg_servers db)" "reg_next db' = reg_next db" "unique_secrets (reg_servers db')"
  using assms by (auto simp: update_rows_def Let_def split: if_splits)

lemma update_reg_ok:
  assumes "update_rows m f db = Inr db'" "reg_ok db" "\<And>s. Server_ID (f s) = Server_ID s" "\<And>s. m s \<Longrightarrow> server_ok s \<Longrightarrow> server_ok (f s)"
  shows "reg_ok db'"
proof -
  note u = update_rows_Inr [OF assms(1)]
  have "map Server_ID (reg_servers db') = map Server_ID (reg_servers db)" using assms(3) by (simp add: u(1))
  then have "distinct (map Server_ID (reg_servers db'))" using assms(2) by (simp only: reg_ok_def)
  moreover have "\<forall>s \<in> set (reg_servers db'). server_ok s \<and> Server_ID s < reg_next db'" using assms(2-4) by (auto simp: u(1,2) reg_ok_def)
  ultimately show ?thesis using assms(2) u(2,3) unfolding reg_ok_def by simp
qed

lemma reg_ok_map:
  assumes "reg_ok db" "reg_servers db' = map f (reg_servers db)" "reg_next db' = reg_next db"
    and "\<And>s. Server_ID (f s) = Server_ID s" "\<And>s. Server_Secret (f s) = Server_Secret s"
  shows "reg_ok db'"
proof -
  have "Server_ID \<circ> f = Server_ID" "Server_Secret \<circ> f = Server_Secret" using assms(4,5) by (simp_all add: fun_eq_iff)
  then show ?thesis using assms by (auto simp: reg_ok_def unique_secrets_def server_ok_def)
qed

lemma update_active:
  assumes "update_rows m f db = Inr db'" "\<And>s. Server_ID (f s) = Server_ID s" "\<And>s. Server_IsDeleted (f s) = Server_IsDeleted s"
  shows "active db' j = map_option (\<lambda>s. if m s then f s else s) (active db j)"
  unfolding active_def update_rows_Inr(1) [OF assms(1)] by (rule find_map_rows) (simp_all add: assms)

lemma update_one:
  assumes "update_rows (\<lambda>s. matches i s \<and> P s) (set_columns cs) db = Inr db'" "\<And>s. active db i = Some s \<Longrightarrow> P s"
  shows "active db' j = (if j = i then map_option (set_columns cs) (active db i) else active db j)"
proof (cases "active db j")
  case None
  then show ?thesis using update_active [OF assms(1), of j] by auto
next
  case (Some s)
  then have "matches i s \<longleftrightarrow> j = i" using active_Some [OF Some] by (auto simp: matches_def)
  moreover have "j = i \<Longrightarrow> P s" using assms(2) Some by simp
  ultimately show ?thesis using update_active [OF assms(1), of j] Some by auto
qed

lemma patch_fields_Inr:
  assumes "patch_fields i cs db = Inr db'" "reg_ok db" "\<And>s. server_ok s \<Longrightarrow> server_ok (set_columns cs s)"
  shows "reg_ok db' \<and> (\<forall>j. active db' j = (if j = i then map_option (set_columns cs) (active db i) else active db j))"
proof (cases "cs = []")
  case True
  then have "db' = db" using assms(1) by (auto simp: patch_fields_def split: sum.splits)
  with True assms(2) show ?thesis by (auto simp: option.map_ident_strong)
next
  case False
  with assms(1) have u: "update_rows (matches i) (set_columns cs) db = Inr db'" by (simp add: patch_fields_def)
  have "update_rows (\<lambda>s. matches i s \<and> True) (set_columns cs) db = Inr db'" using u by simp
  from update_one [OF this] update_reg_ok [OF u assms(2)] assms(3) show ?thesis by auto
qed

lemma change_cycle_Inr:
  assumes "change_cycle env i upd db = Inr (upd', db')"
  shows "reg_servers db' = reg_servers db" "reg_next db' = reg_next db" "NodeUpdate_Secret upd' = NodeUpdate_Secret upd"
    "needsMetaRefresh upd' = needsMetaRefresh upd" "NodeUpdate_GroupIDs upd' = NodeUpdate_GroupIDs upd"
  using assms by (auto simp: change_cycle_def with_cycle_def needsMetaRefresh_def split: sum.splits option.splits)

lemma syncGroups_Inr:
  assumes "syncGroups i ids db = Inr db'"
  shows "reg_servers db' = reg_servers db" "reg_next db' = reg_next db"
  using assms by (auto simp: syncGroups_def Let_def split: option.splits if_splits)

definition secret_given :: "NodeUpdate \<Rightarrow> bool" where
  "secret_given upd \<longleftrightarrow> (\<forall>x. NodeUpdate_Secret upd = Some x \<longrightarrow> trim_space x = x \<and> x \<noteq> [])"

lemma patch_server_ok: "secret_given upd \<Longrightarrow> server_ok s \<Longrightarrow> server_ok (set_columns (patchFields upd) s)"
  using patch_secret [of upd] by (cases "NodeUpdate_Secret upd") (simp_all add: server_ok_def secret_given_def)

lemma patch_rows_Inr:
  assumes "patch_rows env i upd db = Inr db'" "reg_ok db" "secret_given upd"
  obtains cs where "reg_ok db'" "\<And>j. active db' j = (if j = i then map_option (set_columns cs) (active db i) else active db j)"
    "\<And>s. Server_Secret (set_columns cs s) = (case NodeUpdate_Secret upd of None \<Rightarrow> Server_Secret s | Some x \<Rightarrow> x)"
    "\<not> needsMetaRefresh upd \<Longrightarrow> list_all unseen cs"
proof -
  obtain upd' db1 where 1: "change_cycle env i upd db = Inr (upd', db1)"
    using assms(1) by (auto simp: patch_rows_def split: sum.splits)
  then obtain db2 where 2: "patch_fields i (patchFields upd') db1 = Inr db2" and 3: "syncGroups i (NodeUpdate_GroupIDs upd') db2 = Inr db'"
    using assms(1) by (auto simp: patch_rows_def split: sum.splits)
  note c = change_cycle_Inr [OF 1] and g = syncGroups_Inr [OF 3]
  have "secret_given upd'" using assms(3) c(3) by (simp add: secret_given_def)
  moreover have "reg_ok db1" using assms(2) reg_ok_cong [OF c(1,2)] by simp
  ultimately have p: "reg_ok db2 \<and> (\<forall>j. active db2 j = (if j = i then map_option (set_columns (patchFields upd')) (active db1 i) else active db1 j))"
    using patch_fields_Inr [OF 2] patch_server_ok by blast
  show thesis
  proof (rule that [of "patchFields upd'"])
    show "reg_ok db'" using p reg_ok_cong [OF g] by simp
    show "active db' j = (if j = i then map_option (set_columns (patchFields upd')) (active db i) else active db j)" for j
      using p active_cong [OF g(1)] active_cong [OF c(1)] by simp
    show "Server_Secret (set_columns (patchFields upd') s) = (case NodeUpdate_Secret upd of None \<Rightarrow> Server_Secret s | Some x \<Rightarrow> x)" for s
      using patch_secret [of upd'] by (cases "NodeUpdate_Secret upd") (simp_all add: c(3))
    show "list_all unseen (patchFields upd')" if "\<not> needsMetaRefresh upd" using patch_unseen that c(4) by simp
  qed
qed

subsection \<open>Changing a node\<close>

lemma creds_upd:
  assumes "\<And>j. active db' j = (if j = i then Some r else active db j)"
  shows "creds db' = (creds db)(i \<mapsto> Server_Secret r)" "entries db' = (entries db)(i \<mapsto> entry_of r)"
  using assms by (auto simp: creds_def entries_def fun_eq_iff)

lemma delete_both:
  assumes "rg_ok rg" "active (rg_db rg) i = Some old"
  shows "follows (creds (rg_db rg)) (deleteServerMeta i (Server_Secret old) (rg_mem rg))"
    "follows ((creds (rg_db rg))(i := None)) (deleteServerMeta i (Server_Secret old) (rg_mem rg))" "0 < i"
proof -
  have r: "server_ok old" "Server_ID old = i" using assms active_Some [OF assms(2)] by (auto simp: rg_ok_def reg_ok_def)
  then show i: "0 < i" by (simp add: server_ok_def)
  have c: "creds (rg_db rg) i = Some (trim_space (Server_Secret old))" using assms(2) r by (simp add: creds_def)
  have m: "follows (creds (rg_db rg)) (rg_mem rg)" "creds_ok (creds (rg_db rg))" using assms(1) creds_ok by (auto simp: rg_ok_def)
  show "follows (creds (rg_db rg)) (deleteServerMeta i (Server_Secret old) (rg_mem rg))"
    "follows ((creds (rg_db rg))(i := None)) (deleteServerMeta i (Server_Secret old) (rg_mem rg))"
    using delete_follows [OF m i] c by blast+
qed

text \<open>Writing one active row and caching it.\<close>

lemma sync_keeps:
  assumes "rg_ok rg" "active (rg_db rg) i = Some old" "reg_ok db" "\<And>j. active db j = (if j = i then Some fresh else active (rg_db rg) j)"
    and fresh: "Server_ID fresh = i" "server_ok fresh"
    and revoke: "revoke = deleteServerMeta i (Server_Secret old) \<or> revoke = id \<and> Server_Secret fresh = Server_Secret old"
    and run: "finish_tx env calls [i] revoke (syncServerCache fresh (Server_Secret old)) db rg = (res, rg')"
  shows "keeps env rg rg'"
proof (rule finish_tx_keeps [OF assms(1,3) _ _ _ _ _ _ _ run])
  let ?C = "creds (rg_db rg)" and ?mem = "rg_mem rg"
  note u = creds_upd [where r = fresh, OF assms(4)] and del = delete_both [OF assms(1,2)]
  have m: "follows ?C ?mem" "reg_ok (rg_db rg)" using assms(1) by (simp_all add: rg_ok_def)
  have i: "?C i = Some (Server_Secret old)" using assms(2) by (simp add: creds_def)
  show "0 < i" by (rule del(3))
  show "entries db j = entries (rg_db rg) j" if "j \<noteq> i" for j using that by (simp add: u)
  show "follows (creds db) (syncServerCache fresh (Server_Secret old) ?mem)"
  proof (rule sync_follows [OF m(1) creds_ok [OF m(2)] creds_ok [OF assms(3)] u(1) fresh(1)])
    show "trim_space (Server_Secret fresh) = Server_Secret fresh" using fresh(2) by simp
    have "trim_space (Server_Secret old) = Server_Secret old" using creds_okD(3) [OF creds_ok [OF m(2)] i] .
    then show "trim_space (Server_Secret old) = [] \<or> (\<forall>j. j \<noteq> i \<longrightarrow> ?C j \<noteq> Some (trim_space (Server_Secret old)))"
      using creds_okD(4) [OF creds_ok [OF m(2)] i] by auto
  qed
  show "known_id (syncServerCache fresh (Server_Secret old) ?mem) = entries db" if "rg_exact rg"
    using that sync_known [of fresh] fresh by (simp add: rg_exact_def u server_ok_def)
  show "follows ?C (revoke ?mem)" using revoke del m by auto
  show "follows (creds db) (revoke ?mem)"
  proof (cases "revoke = id \<and> Server_Secret fresh = Server_Secret old")
    case True
    then show ?thesis using m i u by (simp add: fun_upd_idem)
  next
    case False
    with revoke have r: "revoke = deleteServerMeta i (Server_Secret old)" by blast
    show ?thesis unfolding r
      by (rule follows_weaken [OF del(2)]) (simp add: u delete_known [OF del(3)] split: if_splits)
  qed
  show "known_id (revoke ?mem) j = known_id ?mem j" if "j \<noteq> i" for j using revoke that delete_known [OF del(3)] by auto
qed

lemma unseen_keeps:
  assumes "rg_ok rg" "reg_ok db" "0 < i" "entries db = entries (rg_db rg)" "creds db = creds (rg_db rg)"
    and run: "finish_tx env calls [i] id id db rg = (res, rg')"
  shows "keeps env rg rg'"
  by (rule finish_tx_keeps [OF assms(1-3) _ _ _ _ _ _ run]) (use assms in \<open>simp_all add: rg_ok_def rg_exact_def\<close>)

lemma patchNode_keeps:
  assumes "rg_ok rg" "secret_given upd" "0 < i" "patchNode env i upd rg = (res, rg')"
  shows "keeps env rg rg'"
proof (cases "needsMetaRefresh upd")
  case True
  show ?thesis
  proof (cases "rg' = rg")
    case False
    with assms(4) True obtain old db fresh where old: "active (rg_db rg) i = Some old" and p: "patch_rows env i upd (rg_db rg) = Inr db"
      and fresh: "active db i = Some fresh"
      and run: "finish_tx env (front_changes i upd) [i] (if NodeUpdate_Secret upd \<noteq> None then deleteServerMeta i (Server_Secret old) else id)
          (syncServerCache fresh (Server_Secret old)) db rg = (res, rg')"
      by (auto simp: patchNode_def loadServerMeta_active split: if_splits sum.splits option.splits)
    from assms(1) have reg: "reg_ok (rg_db rg)" by (simp add: rg_ok_def)
    obtain cs where ok: "reg_ok db" and act: "\<And>j. active db j = (if j = i then map_option (set_columns cs) (active (rg_db rg) i) else active (rg_db rg) j)"
      and sec: "\<And>s. Server_Secret (set_columns cs s) = (case NodeUpdate_Secret upd of None \<Rightarrow> Server_Secret s | Some x \<Rightarrow> x)"
      using patch_rows_Inr [OF p reg assms(2)] by metis
    have f: "fresh = set_columns cs old" using act [of i] fresh old by simp
    have ids: "Server_ID fresh = i" "server_ok fresh" using active_Some [OF fresh] ok by (auto simp: reg_ok_def)
    show ?thesis
      by (rule sync_keeps [OF assms(1) old ok _ ids _ run]) (use act old f sec in \<open>auto split: option.splits\<close>)
  qed (simp add: registry_keeps_refl assms(1))
next
  case False
  show ?thesis
  proof (cases "rg' = rg")
    case ne: False
    with assms(4) False obtain db where p: "patch_rows env i upd (rg_db rg) = Inr db"
      and run: "finish_tx env (front_changes i upd) [i] id id db rg = (res, rg')"
      by (auto simp: patchNode_def split: if_splits sum.splits)
    from assms(1) have reg: "reg_ok (rg_db rg)" by (simp add: rg_ok_def)
    obtain cs where ok: "reg_ok db" and act: "\<And>j. active db j = (if j = i then map_option (set_columns cs) (active (rg_db rg) i) else active (rg_db rg) j)"
      and un: "list_all unseen cs" and sec: "\<And>s. Server_Secret (set_columns cs s) = (case NodeUpdate_Secret upd of None \<Rightarrow> Server_Secret s | Some x \<Rightarrow> x)"
      using patch_rows_Inr [OF p reg assms(2)] False by metis
    have "NodeUpdate_Secret upd = None" using False by (simp add: needsMetaRefresh_def)
    with act sec have "creds db = creds (rg_db rg)" by (auto simp: creds_def fun_eq_iff map_option.compositionality comp_def)
    moreover have "entries db = entries (rg_db rg)"
      using act set_columns_unseen [OF un] by (auto simp: entries_def fun_eq_iff map_option.compositionality comp_def)
    ultimately show ?thesis using unseen_keeps [OF assms(1) ok assms(3) _ _ run] by blast
  qed (simp add: registry_keeps_refl assms(1))
qed

lemma normalizeSecret_Inr: "normalizeSecret v = Inr s \<Longrightarrow> trim_space s = s \<and> s \<noteq> []"
proof -
  have "rune_count [] = 0" by code_simp
  then show "normalizeSecret v = Inr s \<Longrightarrow> trim_space s = s \<and> s \<noteq> []"
    by (auto simp: normalizeSecret_def Let_def secretMinChars_def split: if_splits)
qed

lemma UpdateNode_keeps:
  assumes "rg_ok rg" "UpdateNode env i upd rg = (res, rg')"
  shows "keeps env rg rg'"
proof (cases "rg' = rg")
  case False
  define start where "start = (case NodeUpdate_Secret upd of None \<Rightarrow> Inr upd
    | Some s \<Rightarrow> (case normalizeSecret s of Inl e \<Rightarrow> Inl e | Inr s \<Rightarrow> Inr (upd\<lparr>NodeUpdate_Secret := Some s\<rparr>)))"
  from False assms(2) obtain upd' where u: "start = Inr upd'" "0 < i" and p: "snd (patchNode env i upd' rg) = rg'"
    unfolding UpdateNode_def start_def [symmetric] by (cases start) (auto split: if_splits sum.splits prod.splits)
  from u(1) have "secret_given upd'"
    by (auto simp: start_def secret_given_def dest: normalizeSecret_Inr split: option.splits sum.splits)
  then show ?thesis using patchNode_keeps [OF assms(1)] u(2) p by (metis prod.collapse)
qed (simp add: registry_keeps_refl assms(1))

subsection \<open>Deleting and creating a node\<close>

lemma delete_rows_Inr:
  assumes "delete_rows i db = Inr db'" "reg_ok db"
  shows "reg_ok db'" "active db' j = (if j = i then None else active db j)"
proof -
  obtain db1 where u: "update_rows (matches i) (\<lambda>s. s\<lparr>Server_IsDeleted := True\<rparr>) db = Inr db1" and d: "reg_servers db' = reg_servers db1" "reg_next db' = reg_next db1"
    using assms(1) by (auto simp: delete_rows_def split: sum.splits)
  have "reg_ok db1" by (rule update_reg_ok [OF u assms(2)]) (simp_all add: server_ok_def)
  with reg_ok_cong [OF d] show "reg_ok db'" by simp
  have "find (matches j) (map (\<lambda>s. if matches i s then s\<lparr>Server_IsDeleted := True\<rparr> else s) rows) = (if j = i then None else find (matches j) rows)" for rows
    by (induction rows) (auto simp: matches_def [abs_def])
  then show "active db' j = (if j = i then None else active db j)" by (simp add: active_def d(1) update_rows_Inr(1) [OF u])
qed

lemma DeleteNode_keeps:
  assumes "rg_ok rg" "DeleteNode env i rg = (res, rg')"
  shows "keeps env rg rg'"
proof (cases "rg' = rg")
  case False
  with assms(2) obtain old db rg1 where old: "active (rg_db rg) i = Some old" and d: "delete_rows i (rg_db rg) = Inr db"
    and run: "\<exists>r. finish_tx env [ClearFrontMeta, ClearGuestVisibilityMeta] [i] (deleteServerMeta i (Server_Secret old)) (removeServerState i (Server_Secret old)) db rg = (r, rg1)"
    and same: "rg_db rg' = rg_db rg1" "rg_mem rg' = rg_mem rg1"
    by (auto simp: DeleteNode_def loadServerMeta_active split: if_splits sum.splits option.splits prod.splits)
  then obtain r where run: "finish_tx env [ClearFrontMeta, ClearGuestVisibilityMeta] [i] (deleteServerMeta i (Server_Secret old)) (removeServerState i (Server_Secret old)) db rg = (r, rg1)"
    by blast
  from assms(1) have reg: "reg_ok (rg_db rg)" by (simp add: rg_ok_def)
  note del = delete_both [OF assms(1) old] and rows = delete_rows_Inr [OF d reg]
  have C: "creds db = (creds (rg_db rg))(i := None)" "entries db = (entries (rg_db rg))(i := None)"
    using rows(2) by (auto simp: creds_def entries_def fun_eq_iff)
  have "keeps env rg rg1"
  proof (rule finish_tx_keeps [OF assms(1) rows(1) del(3) _ _ _ _ _ _ run])
    show "follows (creds db) (removeServerState i (Server_Secret old) (rg_mem rg))" "follows (creds db) (deleteServerMeta i (Server_Secret old) (rg_mem rg))"
      using del(2) by (simp_all add: C remove_follows)
    show "follows (creds (rg_db rg)) (deleteServerMeta i (Server_Secret old) (rg_mem rg))" by (rule del(1))
    show "known_id (removeServerState i (Server_Secret old) (rg_mem rg)) = entries db" if "rg_exact rg"
      using that by (simp add: remove_view delete_known [OF del(3)] C rg_exact_def)
  qed (simp_all add: C delete_known [OF del(3)])
  with same show ?thesis by (rule keeps_same)
qed (simp add: registry_keeps_refl assms(1))

lemma default_group_keeps:
  assumes "ensureDefaultGroupID db = (g, db')"
  shows "reg_servers db' = reg_servers db" "reg_next db' = reg_next db"
  using assms by (auto simp: ensureDefaultGroupID_def split: option.splits)

lemma insert_node_Inr:
  assumes "insert_node secret db = Inr (srv, db')" "reg_ok db" "trim_space secret = secret" "secret \<noteq> []"
  shows "reg_ok db'" "active db' j = (if j = Server_ID srv then Some srv else active db j)" "server_ok srv" "Server_Secret srv = secret"
    "secret \<notin> Server_Secret ` set (reg_servers db)" "active db (Server_ID srv) = None"
proof -
  obtain g db1 where g: "ensureDefaultGroupID db = (g, db1)" by fastforce
  note k = default_group_keeps [OF g]
  have srv: "srv = new_server (reg_next db) secret (max_order db1 + 1)" and n: "secret \<notin> Server_Secret ` set (reg_servers db)"
    and d: "reg_servers db' = reg_servers db @ [srv]" "reg_next db' = reg_next db + 1"
    using assms(1) by (auto simp: insert_node_def g k Let_def split: if_splits)
  show "secret \<notin> Server_Secret ` set (reg_servers db)" by (rule n)
  have s: "Server_ID srv = reg_next db" "Server_Secret srv = secret" "\<not> Server_IsDeleted srv" by (simp_all add: srv new_server_def)
  then show "Server_Secret srv = secret" "server_ok srv" using assms by (simp_all add: server_ok_def reg_ok_def)
  then show "reg_ok db'" using assms(2) n d s by (auto simp: reg_ok_def unique_secrets_def)
  have new: "\<forall>x \<in> set (reg_servers db). Server_ID x \<noteq> reg_next db" using assms(2) by (auto simp: reg_ok_def)
  then show none: "active db (Server_ID srv) = None" by (auto simp: active_def find_None_iff matches_def s)
  have "find (matches j) (rows @ [srv]) = (case find (matches j) rows of None \<Rightarrow> if matches j srv then Some srv else None | Some x \<Rightarrow> Some x)" for rows
    by (induction rows) auto
  then show "active db' j = (if j = Server_ID srv then Some srv else active db j)"
    using none s by (auto simp: active_def d(1) matches_def split: option.splits)
qed

lemma CreateNode_keeps:
  assumes "rg_ok rg" "CreateNode env secret rg = (res, rg')"
  shows "keeps env rg rg'"
proof (cases "rg' = rg")
  case False
  with assms(2) obtain x srv db where x: "normalizeSecret secret = Inr x" and ins: "insert_node x (rg_db rg) = Inr (srv, db)"
    and run: "finish_tx env [ClearFrontMeta] [Server_ID srv] id (syncServerCache srv (Server_Secret srv)) db rg = (res, rg')"
    by (auto simp: CreateNode_def split: if_splits sum.splits)
  from assms(1) have m: "follows (creds (rg_db rg)) (rg_mem rg)" "reg_ok (rg_db rg)" by (simp_all add: rg_ok_def)
  note n = insert_node_Inr [OF ins m(2)] normalizeSecret_Inr [OF x]
  have ok: "reg_ok db" "server_ok srv" using n by blast+
  have act: "active db j = (if j = Server_ID srv then Some srv else active (rg_db rg) j)" for j using n by blast
  have fresh: "x \<notin> Server_Secret ` set (reg_servers (rg_db rg))" "active (rg_db rg) (Server_ID srv) = None" "Server_Secret srv = x" using n by blast+
  note u = creds_upd [where r = srv, OF act]
  show ?thesis
  proof (rule finish_tx_keeps [OF assms(1) ok(1) _ _ _ _ _ _ _ run])
    show "0 < Server_ID srv" using ok(2) by (simp add: server_ok_def)
    show "follows (creds db) (syncServerCache srv (Server_Secret srv) (rg_mem rg))"
    proof (rule sync_follows [OF m(1) creds_ok [OF m(2)] creds_ok [OF ok(1)] u(1) refl])
      show "trim_space (Server_Secret srv) = Server_Secret srv" using ok(2) by simp
      have "creds (rg_db rg) j \<noteq> Some x" for j
      proof
        assume "creds (rg_db rg) j = Some x"
        then obtain r where "active (rg_db rg) j = Some r" "Server_Secret r = x" by (auto simp: creds_def)
        with active_Some [of "rg_db rg" j r] fresh(1) show False by blast
      qed
      then show "trim_space (Server_Secret srv) = [] \<or> (\<forall>j. j \<noteq> Server_ID srv \<longrightarrow> creds (rg_db rg) j \<noteq> Some (trim_space (Server_Secret srv)))"
        using normalizeSecret_Inr [OF x] fresh(3) by simp
    qed
    show "known_id (syncServerCache srv (Server_Secret srv) (rg_mem rg)) = entries db" if "rg_exact rg"
      using that sync_known [of srv] ok(2) by (simp add: rg_exact_def u server_ok_def)
    show "follows (creds (rg_db rg)) (id (rg_mem rg))" using m by simp
    show "follows (creds db) (id (rg_mem rg))"
    proof (simp, rule follows_weaken [OF m(1)])
      fix j e assume "known_id (rg_mem rg) j = Some e"
      with followsD(5) [OF m(1)] have "creds (rg_db rg) j \<noteq> None" by simp
      with fresh(2) show "creds db j = creds (rg_db rg) j" by (auto simp: u creds_def)
    qed
  qed (simp_all add: u)
qed (simp add: registry_keeps_refl assms(1))

subsection \<open>Static reports and addresses\<close>

lemma load_with_secret_Inr:
  assumes "load_with_secret db i secret = Inr s" "reg_ok db"
  shows "active db i = Some s" "Server_Secret s = secret"
proof -
  from assms(1) have s: "s \<in> set (active_rows db)" "Server_ID s = i" "Server_Secret s = secret"
    by (auto simp: load_with_secret_def find_Some_iff split: option.splits)
  then show "active db i = Some s" "Server_Secret s = secret" using active_iff [OF assms(2)] by auto
qed

lemma UpdateStatic_keeps:
  assumes "rg_ok rg" "UpdateStatic env secret i p rg = (res, rg')"
  shows "keeps env rg rg'"
proof (cases "rg' = rg")
  case False
  from assms(1) have reg: "reg_ok (rg_db rg)" by (simp add: rg_ok_def)
  from False assms(2) obtain old cs db fresh calls where l: "load_with_secret (rg_db rg) i secret = Inr old" and cs: "cs = kept_columns old (static_updates p)"
    and up: "update_rows (\<lambda>s. matches i s \<and> Server_Secret s = secret) (set_columns cs) (rg_db rg) = Inr db"
    and f: "load_with_secret db i secret = Inr fresh"
    and run: "finish_tx env calls [i] id (syncServerCache fresh (Server_Secret old)) db rg = (res, rg')"
    by (auto simp: UpdateStatic_def Let_def split: if_splits sum.splits)
  note old = load_with_secret_Inr [OF l reg]
  have sec: "Server_Secret (set_columns cs s) = Server_Secret s" for s using set_columns_secret kept_no_secret cs by blast
  have ok: "reg_ok db" by (rule update_reg_ok [OF up reg]) (simp_all add: server_ok_def sec)
  note fr = load_with_secret_Inr [OF f ok]
  have act: "active db j = (if j = i then map_option (set_columns cs) (active (rg_db rg) i) else active (rg_db rg) j)" for j
    by (rule update_one [OF up]) (use old in simp)
  have ids: "Server_ID fresh = i" "server_ok fresh" using active_Some [OF fr(1)] ok by (auto simp: reg_ok_def)
  show ?thesis
    by (rule sync_keeps [OF assms(1) old(1) ok _ ids _ run]) (use act fr old in auto)
qed (simp add: registry_keeps_refl assms(1))

lemma GetServerBySecret_Found:
  assumes "follows C mem" "creds_ok C" "GetServerBySecret mem secret = FoundServer srv"
  shows "C (Server_ID srv) = Some (trim_space secret)" "Server_Secret srv = trim_space secret"
    "known_id mem (Server_ID srv) = Some \<lparr>auth_secret = trim_space secret, auth_meta = metaFromServer srv\<rparr>" "trim_space secret \<noteq> []"
proof -
  obtain e where e: "by_secret mem (trim_space secret) = Some e" "srv = toServer (auth_meta e) (trim_space secret)" "trim_space secret \<noteq> []"
    using assms(3) by (auto simp: GetServerBySecret_def Let_def split: if_splits option.splits)
  note d = followsD [OF assms(1)]
  have k: "auth_secret e = trim_space secret" "known_id mem (Meta_ID (auth_meta e)) = Some e" using d(1,2) [OF e(1)] by auto
  have i: "Server_ID srv = Meta_ID (auth_meta e)" "Server_Secret srv = trim_space secret" using e(2) by (simp_all add: toServer_def)
  have "e = \<lparr>auth_secret = trim_space secret, auth_meta = metaFromServer srv\<rparr>" using k(1) e(2) by (cases e) simp
  with k d(5) [OF k(2)] i e(3) show "C (Server_ID srv) = Some (trim_space secret)" "Server_Secret srv = trim_space secret" "trim_space secret \<noteq> []"
    "known_id mem (Server_ID srv) = Some \<lparr>auth_secret = trim_space secret, auth_meta = metaFromServer srv\<rparr>" by auto
qed

lemma GetServerBySecret_ok:
  assumes "follows C mem" "creds_ok C"
  shows "GetServerBySecret mem secret \<noteq> LookupFailed"
proof -
  have pos: "0 < Meta_ID (auth_meta e)" if "by_secret mem x = Some e" for x e
    using followsD(2) [OF assms(1) that] followsD(5) [OF assms(1)] creds_okD(1) [OF assms(2)] by metis
  show ?thesis by (auto simp: GetServerBySecret_def Let_def split: option.splits dest: pos)
qed

lemma report_address_keeps:
  assumes "rg_ok rg"
  shows "rg_ok (report_address secret ip rg) \<and> (rg_exact rg \<longrightarrow> rg_exact (report_address secret ip rg))"
proof (cases "report_address secret ip rg = rg")
  case False
  from assms have m: "follows (creds (rg_db rg)) (rg_mem rg)" "reg_ok (rg_db rg)" by (simp_all add: rg_ok_def)
  note c = creds_ok [OF m(2)]
  obtain current where g: "GetServerBySecret (rg_mem rg) secret = FoundServer current" and r: "report_address secret ip rg =
      rg\<lparr>rg_db := (rg_db rg)\<lparr>reg_servers := map (\<lambda>s. if Server_ID s = Server_ID current then s\<lparr>Server_IP := Some ip\<rparr> else s) (reg_servers (rg_db rg))\<rparr>,
         rg_mem := snd (SyncServerCache (current\<lparr>Server_IP := Some ip\<rparr>) (rg_mem rg))\<rparr>"
    using False by (auto simp: report_address_def Authenticate_def buildServerUpdates_def split: sum.splits option.splits lookup.splits if_splits)
  define i db mem where "i = Server_ID current" and "db = rg_db (report_address secret ip rg)" and "mem = rg_mem (report_address secret ip rg)"
  note f = GetServerBySecret_Found [OF m(1) c g, folded i_def]
  have i: "0 < i" "trim_space (trim_space secret) = trim_space secret" using creds_okD(1) [OF c f(1)] by simp_all
  have db: "reg_servers db = map (\<lambda>s. if Server_ID s = i then s\<lparr>Server_IP := Some ip\<rparr> else s) (reg_servers (rg_db rg))" "reg_next db = reg_next (rg_db rg)"
    by (simp_all add: db_def r i_def)
  have mem: "mem = syncServerCache (current\<lparr>Server_IP := Some ip\<rparr>) (Server_Secret current) (rg_mem rg)"
    using i f by (simp add: mem_def r SyncServerCache_def i_def)
  have act: "active db j = map_option (\<lambda>s. if Server_ID s = i then s\<lparr>Server_IP := Some ip\<rparr> else s) (active (rg_db rg) j)" for j
    unfolding active_def db(1) by (rule find_map_rows) simp_all
  have ok: "reg_ok db" by (rule reg_ok_map [OF m(2) db]) simp_all
  have C: "creds db = creds (rg_db rg)" by (auto simp: creds_def act fun_eq_iff map_option.compositionality comp_def intro!: option.map_cong)
  have fol: "follows (creds db) mem"
    unfolding mem
  proof (rule sync_follows [OF m(1) c creds_ok [OF ok]])
    show "creds db = (creds (rg_db rg))(i \<mapsto> trim_space secret)" using f(1) by (simp add: C fun_upd_idem)
    show "Server_ID (current\<lparr>Server_IP := Some ip\<rparr>) = i" "trim_space (Server_Secret (current\<lparr>Server_IP := Some ip\<rparr>)) = trim_space secret"
      using f i by (simp_all add: i_def)
    show "trim_space (Server_Secret current) = [] \<or> (\<forall>j. j \<noteq> i \<longrightarrow> creds (rg_db rg) j \<noteq> Some (trim_space (Server_Secret current)))"
      using creds_okD(4) [OF c f(1)] f(2) by auto
  qed
  have "known_id mem = entries db" if ex: "rg_exact rg"
  proof -
    obtain row where row: "active (rg_db rg) i = Some row" and e: "entry_of row = \<lparr>auth_secret = trim_space secret, auth_meta = metaFromServer current\<rparr>"
      using ex f(3) by (auto simp: rg_exact_def entries_def)
    have "known_id mem = (known_id (rg_mem rg))(i \<mapsto> entry_of (current\<lparr>Server_IP := Some ip\<rparr>))"
      using sync_known [of "current\<lparr>Server_IP := Some ip\<rparr>"] f i by (simp add: mem i_def)
    moreover have "entry_of (current\<lparr>Server_IP := Some ip\<rparr>) = entry_of (row\<lparr>Server_IP := Some ip\<rparr>)"
      using e f(2) by (simp add: entry_of_def metaFromServer_def)
    moreover have "entries db j = (if j = i then Some (entry_of (row\<lparr>Server_IP := Some ip\<rparr>)) else entries (rg_db rg) j)" for j
      using row active_Some [of "rg_db rg" j] by (cases "active (rg_db rg) j") (auto simp: entries_def act)
    ultimately show ?thesis using ex by (auto simp: rg_exact_def fun_eq_iff)
  qed
  with ok fol show ?thesis by (simp add: rg_ok_def rg_exact_def db_def mem_def)
qed (simp add: assms)

end
