(* ===== verification/Registry_Theorems.thy ===== *)
theory Registry_Theorems
  imports Registry_History "HOL-Library.Multiset"
begin

text \<open>
  The theorems on the node registry: whatever fails, the memory accepts no secret that the table has not given to an active node; when
  the outcome of every commit is known it accepts exactly those; a deleted node or a replaced secret is refused at once; and the order the
  administrator gives is the order in which nodes are listed.
\<close>

subsection \<open>The order of nodes\<close>

lemma order_of_nth: "distinct ids \<Longrightarrow> k < length ids \<Longrightarrow> order_of ids (ids ! k) = Some (int (length ids) - int k)"
  by (auto simp: order_of_def set_zip intro!: map_of_is_SomeI)

lemma order_of_None: "order_of ids i = None \<longleftrightarrow> i \<notin> set ids"
  by (simp add: order_of_def map_of_zip_is_None)

definition reorder :: "int list \<Rightarrow> Server \<Rightarrow> Server" where
  "reorder ids s = (if Server_IsDeleted s then s else case order_of ids (Server_ID s) of None \<Rightarrow> s | Some v \<Rightarrow> s\<lparr>Server_DisplayOrder := v\<rparr>)"

lemma reorder_keeps [simp]:
  "Server_ID (reorder ids s) = Server_ID s" "Server_Secret (reorder ids s) = Server_Secret s" "Server_IsDeleted (reorder ids s) = Server_IsDeleted s"
  by (simp_all add: reorder_def split: option.splits)

lemma orderUpdate_map: "orderUpdate ids rows = map (reorder ids) rows"
  by (simp add: orderUpdate_def reorder_def)

lemma first_duplicate_None: "first_duplicate seen ids = None \<longleftrightarrow> distinct ids \<and> set ids \<inter> set seen = {}"
  by (induction ids arbitrary: seen) auto

lemma active_ids_distinct: "reg_ok db \<Longrightarrow> distinct (map Server_ID (active_rows db))"
  by (simp add: reg_ok_def active_rows_def distinct_map_filter)

text \<open>Caching several rows whose secrets stay the same.\<close>

lemma sync_all:
  assumes "reg_ok db" "\<And>r. r \<in> set rs \<Longrightarrow> active db (Server_ID r) = Some r" "follows (creds db) mem"
  shows "refresh_rows rs mem = (True, fold (\<lambda>s. syncServerCache s (Server_Secret s)) rs mem) \<and>
     follows (creds db) (fold (\<lambda>s. syncServerCache s (Server_Secret s)) rs mem) \<and>
     (\<forall>j. known_id (fold (\<lambda>s. syncServerCache s (Server_Secret s)) rs mem) j = (if j \<in> Server_ID ` set rs then entries db j else known_id mem j))"
  using assms(2,3)
proof (induction rs arbitrary: mem)
  case (Cons r rs)
  note s = sync_same [OF Cons.prems(2) assms(1) Cons.prems(1) [of r]]
  have "\<not> Server_IsDeleted r" using active_Some [of db "Server_ID r" r] Cons.prems(1) [of r] by simp
  with Cons.IH [OF _ s(1)] Cons.prems(1) s show ?case by (auto simp: fun_upd_def)
qed simp

lemma order_keeps:
  assumes "rg_ok rg" "UpdateDisplayOrder env ids rg = (res, rg')"
  shows "keeps env rg rg'"
proof (cases "rg' = rg")
  case False
  from assms(1) have m: "follows (creds (rg_db rg)) (rg_mem rg)" "reg_ok (rg_db rg)" by (simp_all add: rg_ok_def)
  define db where "db = (rg_db rg)\<lparr>reg_servers := map (reorder ids) (reg_servers (rg_db rg))\<rparr>"
  define rows where "rows = filter (\<lambda>s. Server_ID s \<in> set ids) (active_rows db)"
  define sync where "sync = fold (\<lambda>s. syncServerCache s (Server_Secret s)) rows"
  from False assms(2) have d: "distinct ids" "length (active_rows (rg_db rg)) = length ids" "set ids \<subseteq> Server_ID ` set (active_rows (rg_db rg))"
    and run: "finish_tx env (if ids = [] then [] else [ClearFrontMeta]) ids id sync db rg = (res, rg')"
    by (auto simp: UpdateDisplayOrder_def Let_def first_duplicate_None find_None_iff orderUpdate_map db_def sync_def rows_def split: option.splits if_splits)
  have "card (set ids) = card (Server_ID ` set (active_rows (rg_db rg)))"
    using d(1,2) distinct_card [OF active_ids_distinct [OF m(2)]] by (simp add: distinct_card)
  with d(3) have all: "set ids = Server_ID ` set (active_rows (rg_db rg))" by (simp add: card_subset_eq)
  have ok: "reg_ok db" by (rule reg_ok_map [OF m(2), where f = "reorder ids"]) (simp_all add: db_def)
  have act: "active db j = map_option (reorder ids) (active (rg_db rg) j)" for j
    by (simp add: active_def db_def find_map_rows)
  have C: "creds db = creds (rg_db rg)" by (auto simp: creds_def act fun_eq_iff map_option.compositionality comp_def)
  have aids: "Server_ID ` set (active_rows db) = set ids"
    unfolding all by (simp add: active_rows_def db_def filter_map comp_def image_image)
  have rows: "rows = active_rows db" using aids by (auto simp: rows_def intro!: filter_True)
  have a: "active db (Server_ID r) = Some r" if "r \<in> set rows" for r using that active_iff [OF ok] by (simp add: rows)
  have a0: "active (rg_db rg) (Server_ID r) = Some r" if "r \<in> set (active_rows (rg_db rg))" for r using that active_iff [OF m(2)] by simp
  have out: "entries db j = entries (rg_db rg) j" if "j \<notin> set ids" for j
  proof -
    have "active (rg_db rg) j = None"
    proof (rule ccontr)
      assume "active (rg_db rg) j \<noteq> None"
      then obtain r where "active (rg_db rg) j = Some r" by blast
      with active_iff [OF m(2), of j r] that show False unfolding all by blast
    qed
    then show ?thesis by (simp add: entries_def act)
  qed
  have syn: "follows (creds db) (sync mem)" "known_id (sync mem) j = (if j \<in> set ids then entries db j else known_id mem j)"
    if "follows (creds db) mem" for mem j
    using sync_all [OF ok a that] aids by (auto simp: sync_def rows)
  have refresh: "follows (creds d) (snd (RefreshMetaByIDs d ids mem)) \<and>
      (\<forall>j. known_id (snd (RefreshMetaByIDs d ids mem)) j = (if j \<in> set ids then entries d j else known_id mem j))"
    if "d = db \<or> d = rg_db rg" "follows (creds d) mem" for d mem
  proof (cases "ids = []")
    case False
    have dok: "reg_ok d" "Server_ID ` set (active_rows d) = set ids" using that(1) ok m(2) aids all by auto
    define rs where "rs = filter (\<lambda>s. Server_ID s \<in> set ids) (reg_servers d)"
    have mem: "s \<in> set rs \<Longrightarrow> active d (Server_ID s) = Some s" for s
    proof -
      assume s: "s \<in> set rs"
      then have "Server_ID s \<in> Server_ID ` set (active_rows d)" using dok(2) by (simp add: rs_def)
      then obtain x where x: "x \<in> set (active_rows d)" "Server_ID x = Server_ID s" by (metis imageE)
      have "x = s" using x s dok(1) by (auto simp: rs_def reg_ok_def active_rows_def distinct_map inj_on_def)
      with x active_iff [OF dok(1)] show "active d (Server_ID s) = Some s" by simp
    qed
    have ids: "Server_ID ` set rs = set ids" using dok(2) by (auto simp: rs_def active_rows_def)
    note sa = sync_all [OF dok(1) mem that(2)]
    have "fold (\<lambda>i m. if i \<in> Server_ID ` set rs then m else removeServerState i [] m) xs m0 = m0" if "set xs \<subseteq> set ids" for xs m0
      using that by (induction xs) (auto simp: ids)
    then have "snd (RefreshMetaByIDs d ids mem) = fold (\<lambda>s. syncServerCache s (Server_Secret s)) rs mem"
      using False sa by (simp add: RefreshMetaByIDs_def rs_def [symmetric] Let_def)
    with sa ids show ?thesis by simp
  qed (simp add: RefreshMetaByIDs_def that)
  have ex: "known_id mem = entries d" if "rg_exact rg" "d = db \<or> d = rg_db rg" "\<And>j. known_id mem j = (if j \<in> set ids then entries d j else known_id (rg_mem rg) j)" for d mem
    using that out by (auto simp: rg_exact_def fun_eq_iff)
  have s0: "follows (creds db) (rg_mem rg)" using m C by simp
  obtain good f where c: "front_calls env (if ids = [] then [] else [ClearFrontMeta]) (rg_front rg) = (good, f)" by fastforce
  consider "rg_db rg' = rg_db rg" "rg_mem rg' = rg_mem rg" "\<not> good"
    | "rg_db rg' = db" "rg_mem rg' = sync (rg_mem rg)"
    | "ge_commit env \<noteq> Committed" "rg_db rg' = rg_db rg \<or> rg_db rg' = db"
      "rg_mem rg' = (if ge_refresh env then snd (RefreshMetaByIDs (rg_db rg') ids (rg_mem rg)) else rg_mem rg)"
    using run c by (auto simp: finish_tx_def Let_def reconcileCommit_def split: if_splits commit_outcome.splits)
  then show ?thesis
  proof cases
    case 1
    then show ?thesis using assms(1) by (simp add: keeps_def rg_ok_def rg_exact_def)
  next
    case 2
    then show ?thesis using ok syn [OF s0] ex [of db "sync (rg_mem rg)"] by (simp add: keeps_def rg_ok_def) (simp add: rg_exact_def)
  next
    case 3
    have k: "reg_ok (rg_db rg')" "follows (creds (rg_db rg')) (rg_mem rg)" using 3(2) ok m C by auto
    show ?thesis
    proof (cases "ge_refresh env")
      case True
      have r: "rg_db rg' = db \<or> rg_db rg' = rg_db rg" using 3(2) by blast
      note rf = refresh [OF r k(2)]
      from 3(3) True have mm: "rg_mem rg' = snd (RefreshMetaByIDs (rg_db rg') ids (rg_mem rg))" by simp
      have "rg_exact rg \<Longrightarrow> known_id (rg_mem rg') = entries (rg_db rg')" by (rule ex [OF _ r]) (use rf mm in auto)
      with rf mm k show ?thesis by (simp add: keeps_def rg_ok_def) (simp add: rg_exact_def)
    next
      case False
      with 3 k show ?thesis by (simp add: keeps_def rg_ok_def confirmed_def)
    qed
  qed
qed (simp add: registry_keeps_refl assms(1))

lemma order_listed:
  assumes "reg_ok (rg_db rg)" "UpdateDisplayOrder env ids rg = (Inr (), rg')"
  shows "map Server_ID (Nodes (rg_db rg')) = ids"
proof -
  let ?old = "active_rows (rg_db rg)"
  from assms(2) have d: "distinct ids" "length ?old = length ids" "set ids \<subseteq> Server_ID ` set ?old"
    and db: "reg_servers (rg_db rg') = map (reorder ids) (reg_servers (rg_db rg))"
    by (auto simp: UpdateDisplayOrder_def Let_def first_duplicate_None find_None_iff orderUpdate_map finish_tx_def split: option.splits if_splits commit_outcome.splits prod.splits)
  have rows: "active_rows (rg_db rg') = map (reorder ids) ?old" by (simp add: active_rows_def db filter_map comp_def)
  have dist: "distinct (map Server_ID ?old)" by (rule active_ids_distinct [OF assms(1)])
  have "card (set ids) = card (Server_ID ` set ?old)" using d(1,2) distinct_card [OF dist] by (simp add: distinct_card)
  with d(3) have all: "set ids = Server_ID ` set ?old" by (simp add: card_subset_eq)
  define by_pos where "by_pos i = reorder ids (the (map_of (map (\<lambda>s. (Server_ID s, s)) ?old) i))" for i
  have pos: "by_pos (Server_ID s) = reorder ids s" if "s \<in> set ?old" for s
  proof -
    have "map_of (map (\<lambda>s. (Server_ID s, s)) ?old) (Server_ID s) = Some s" using dist that by (intro map_of_is_SomeI) (auto simp: comp_def)
    then show ?thesis by (simp add: by_pos_def)
  qed
  have id: "Server_ID (by_pos i) = i \<and> by_pos i \<in> set (active_rows (rg_db rg'))" if i: "i \<in> set ids" for i
  proof -
    obtain s where "s \<in> set ?old" "Server_ID s = i" using i unfolding all by blast
    with pos [of s] show ?thesis by (auto simp: rows)
  qed
  have key: "Server_DisplayOrder (by_pos (ids ! k)) = int (length ids) - int k" if k: "k < length ids" for k
  proof -
    obtain s where s: "s \<in> set ?old" "Server_ID s = ids ! k" using nth_mem [OF k] unfolding all by auto
    then have "\<not> Server_IsDeleted s" by (simp add: active_rows_def)
    with pos [OF s(1)] s(2) order_of_nth [OF d(1) k] show ?thesis by (simp add: reorder_def)
  qed
  have inj: "inj_on by_pos (set ids)" using id by (metis inj_onI)
  have "set (map by_pos ids) = set (active_rows (rg_db rg'))"
  proof
    show "set (map by_pos ids) \<subseteq> set (active_rows (rg_db rg'))" using id by auto
    show "set (active_rows (rg_db rg')) \<subseteq> set (map by_pos ids)"
    proof
      fix r assume "r \<in> set (active_rows (rg_db rg'))"
      then obtain s where "s \<in> set ?old" "r = reorder ids s" by (auto simp: rows)
      with pos [of s] all show "r \<in> set (map by_pos ids)" by force
    qed
  qed
  moreover have "distinct (active_rows (rg_db rg'))"
  proof -
    have "map Server_ID (active_rows (rg_db rg')) = map Server_ID ?old" by (simp add: rows)
    then have "distinct (map Server_ID (active_rows (rg_db rg')))" using dist by simp
    then show ?thesis by (simp add: distinct_map)
  qed
  moreover have "distinct (map by_pos ids)" using d(1) inj by (simp add: distinct_map)
  ultimately have mset: "mset (active_rows (rg_db rg')) = mset (map by_pos ids)" by (metis set_eq_iff_mset_eq_distinct)
  have "sorted (map (\<lambda>s. - Server_DisplayOrder s) (map by_pos ids))"
    unfolding sorted_iff_nth_mono_less using key by auto
  moreover have "inj_on (\<lambda>s. - Server_DisplayOrder s) (set (map by_pos ids))"
  proof (rule inj_onI)
    fix x y assume "x \<in> set (map by_pos ids)" "y \<in> set (map by_pos ids)" and e: "- Server_DisplayOrder x = - Server_DisplayOrder y"
    then obtain j k where "j < length ids" "x = by_pos (ids ! j)" "k < length ids" "y = by_pos (ids ! k)" by (auto simp: in_set_conv_nth)
    with key [of j] key [of k] e show "x = y" by simp
  qed
  ultimately have "sort_key (\<lambda>s. - Server_DisplayOrder s) (active_rows (rg_db rg')) = map by_pos ids"
    using mset by (metis mset_eq_setD sort_key_inj_key_eq)
  then show ?thesis using id by (simp add: Nodes_def in_display_order_def map_idI)
qed

subsection \<open>Histories\<close>

lemma p95_keeps:
  assumes "rg_ok rg" "SetTrafficP95 env ids enabled rg = (res, rg')"
  shows "keeps env rg rg'"
proof (cases "rg' = rg")
  case False
  define f where "f s = (if Server_ID s \<in> set ids \<and> \<not> Server_IsDeleted s then s\<lparr>Server_TrafficP95Enabled := enabled\<rparr> else s)" for s :: Server
  from False assms(2) have rg': "rg_mem rg' = rg_mem rg" "rg_db rg' = (rg_db rg)\<lparr>reg_servers := map f (reg_servers (rg_db rg))\<rparr>"
    by (auto simp: SetTrafficP95_def Let_def f_def [abs_def] split: if_splits commit_outcome.splits)
  have f: "Server_ID (f s) = Server_ID s" "Server_Secret (f s) = Server_Secret s" "Server_IsDeleted (f s) = Server_IsDeleted s" "entry_of (f s) = entry_of s" for s
    by (simp_all add: f_def entry_of_def metaFromServer_def)
  have "reg_ok (rg_db rg')" by (rule reg_ok_map [where f = f and db = "rg_db rg"]) (use assms(1) f rg' in \<open>simp_all add: rg_ok_def\<close>)
  moreover have "active (rg_db rg') j = map_option f (active (rg_db rg) j)" for j by (simp add: active_def rg' find_map_rows f)
  then have "creds (rg_db rg') = creds (rg_db rg)" "entries (rg_db rg') = entries (rg_db rg)"
    by (auto simp: creds_def entries_def fun_eq_iff map_option.compositionality comp_def f)
  ultimately show ?thesis using assms(1) by (simp add: keeps_def rg_ok_def rg_exact_def rg'(1))
qed (simp add: registry_keeps_refl assms(1))

lemma map_of_updates:
  "distinct (map k xs) \<Longrightarrow> map_of (fold (\<lambda>s m. AList.update (k s) (v s) m) xs m) y = (case find (\<lambda>s. k s = y) xs of None \<Rightarrow> map_of m y | Some s \<Rightarrow> Some (v s))"
proof (induction xs arbitrary: m)
  case (Cons x xs)
  have "find (\<lambda>s. k s = k x) xs = None" using Cons.prems by (auto simp: find_None_iff image_iff)
  with Cons show ?case by (auto simp: AList.update_conv' split: option.splits)
qed simp

lemma find_in: "find P xs = Some x \<Longrightarrow> x \<in> set xs \<and> P x"
  by (auto simp: find_Some_iff)

lemma rebuild_exact:
  assumes "reg_ok db"
  shows "follows (creds db) (RebuildServerCache db mem) \<and> known_id (RebuildServerCache db mem) = entries db"
proof -
  have sv: "filter (\<lambda>s. trim_space (Server_Secret s) \<noteq> [] \<and> 0 < Server_ID s) (active_rows db) = active_rows db"
    using assms by (intro filter_True) (auto simp: active_rows_def reg_ok_def server_ok_def)
  have trim: "map (\<lambda>s. trim_space (Server_Secret s)) (active_rows db) = map Server_Secret (active_rows db)"
    using assms by (intro map_cong) (auto simp: active_rows_def reg_ok_def server_ok_def)
  have ds: "distinct (map (\<lambda>s. trim_space (Server_Secret s)) (active_rows db))" unfolding trim
    using assms by (simp add: reg_ok_def unique_secrets_def active_rows_def distinct_map_filter)
  have k: "known_id (RebuildServerCache db mem) i = entries db i" for i
  proof -
    have "find (\<lambda>s. Server_ID s = i) (active_rows db) = active db i" by (simp add: active_rows_def find_filter active_def matches_def [abs_def])
    then show ?thesis
      unfolding RebuildServerCache_def sv Let_def by (simp add: map_of_updates [OF active_ids_distinct [OF assms]] entries_def split: option.splits)
  qed
  have b: "by_secret (RebuildServerCache db mem) x = map_option entry_of (find (\<lambda>s. trim_space (Server_Secret s) = x) (active_rows db))" for x
    unfolding RebuildServerCache_def sv Let_def by (simp add: map_of_updates [OF ds] split: option.splits)
  have row: "active db (Server_ID r) = Some r \<and> trim_space (Server_Secret r) = Server_Secret r" if "r \<in> set (active_rows db)" for r
    using that active_iff [OF assms, of "Server_ID r" r] assms by (auto simp: active_rows_def reg_ok_def)
  have "follows (creds db) (RebuildServerCache db mem)"
    unfolding follows_def
  proof (intro conjI allI impI)
    fix x e assume "by_secret (RebuildServerCache db mem) x = Some e"
    then obtain r where "r \<in> set (active_rows db)" "trim_space (Server_Secret r) = x" "e = entry_of r" by (auto simp: b dest: find_in)
    with row [of r] show "auth_secret e = x" "known_id (RebuildServerCache db mem) (Meta_ID (auth_meta e)) = Some e"
      by (simp_all add: entry_secret k entries_def)
  next
    fix i e assume "known_id (RebuildServerCache db mem) i = Some e"
    then obtain r where r: "active db i = Some r" "e = entry_of r" by (auto simp: k entries_def)
    then have m: "r \<in> set (active_rows db)" "Server_ID r = i" using active_iff [OF assms] by auto
    note t = row [OF m(1)]
    show "Meta_ID (auth_meta e) = i" "creds db i = Some (auth_secret e)" using r m t by (simp_all add: entry_secret creds_def)
    obtain x where x: "find (\<lambda>s. trim_space (Server_Secret s) = trim_space (Server_Secret r)) (active_rows db) = Some x"
      using m(1) by (cases "find (\<lambda>s. trim_space (Server_Secret s) = trim_space (Server_Secret r)) (active_rows db)") (auto simp: find_None_iff)
    then have "x \<in> set (active_rows db)" "trim_space (Server_Secret x) = trim_space (Server_Secret r)" by (auto dest: find_in)
    with ds m(1) have "x = r" by (auto simp: distinct_map inj_on_def)
    with x r show "by_secret (RebuildServerCache db mem) (auth_secret e) = Some e" by (simp add: b entry_secret)
  qed
  with k show ?thesis by (simp add: fun_eq_iff)
qed

text \<open>
  The steps of the store. A history is \<open>sure\<close> when the outcome of each of its commits became known. \<open>restart\<close> is a new
  start of the process.
\<close>

inductive reg_step :: "bool \<Rightarrow> 'f registry \<Rightarrow> 'f registry \<Rightarrow> bool" for sure where
  create: "CreateNode env secret rg = (res, rg') \<Longrightarrow> sure \<longrightarrow> confirmed env \<Longrightarrow> reg_step sure rg rg'"
| update: "UpdateNode env i upd rg = (res, rg') \<Longrightarrow> sure \<longrightarrow> confirmed env \<Longrightarrow> reg_step sure rg rg'"
| delete: "DeleteNode env i rg = (res, rg') \<Longrightarrow> sure \<longrightarrow> confirmed env \<Longrightarrow> reg_step sure rg rg'"
| order: "UpdateDisplayOrder env ids rg = (res, rg') \<Longrightarrow> sure \<longrightarrow> confirmed env \<Longrightarrow> reg_step sure rg rg'"
| p95: "SetTrafficP95 env ids enabled rg = (res, rg') \<Longrightarrow> sure \<longrightarrow> confirmed env \<Longrightarrow> reg_step sure rg rg'"
| static: "UpdateStatic env secret i patch rg = (res, rg') \<Longrightarrow> sure \<longrightarrow> confirmed env \<Longrightarrow> reg_step sure rg rg'"
| address: "reg_step sure rg (report_address secret ip rg)"
| new_group: "CreateGroup name remark (rg_db rg) = (grp, db) \<Longrightarrow> reg_step sure rg (rg\<lparr>rg_db := db\<rparr>)"
| update_group: "UpdateGroup g changes (rg_db rg) = Inr db \<Longrightarrow> reg_step sure rg (rg\<lparr>rg_db := db\<rparr>)"
| delete_group: "DeleteGroup g (rg_db rg) = Inr db \<Longrightarrow> reg_step sure rg (rg\<lparr>rg_db := db\<rparr>)"
| offer: "reg_step sure rg (rg\<lparr>rg_mem := request_update i target (rg_mem rg)\<rparr>)"
| virt: "SaveVirt i secret collectedAt raw receivedAt started now (rg_mem rg) = (done, mem) \<Longrightarrow> reg_step sure rg (rg\<lparr>rg_mem := mem\<rparr>)"
| restart: "reg_step sure rg (rg\<lparr>rg_mem := RebuildServerCache (rg_db rg) newMemory\<rparr>)"

inductive_cases reg_stepE: "reg_step sure rg rg'"

definition started :: "registry_db \<Rightarrow> 'f \<Rightarrow> 'f registry" where
  "started db front = \<lparr>rg_db = db, rg_mem = RebuildServerCache db newMemory, rg_front = front\<rparr>"

lemma db_only_keeps:
  assumes "rg_ok rg" "reg_servers db = reg_servers (rg_db rg)" "reg_next db = reg_next (rg_db rg)"
  shows "rg_ok (rg\<lparr>rg_db := db\<rparr>) \<and> (rg_exact rg \<longrightarrow> rg_exact (rg\<lparr>rg_db := db\<rparr>))"
proof -
  have "creds db = creds (rg_db rg)" "entries db = entries (rg_db rg)"
    using active_cong [OF assms(2)] by (simp_all add: creds_def entries_def fun_eq_iff)
  then show ?thesis using assms reg_ok_cong [OF assms(2,3)] by (simp add: rg_ok_def rg_exact_def)
qed

lemma mem_only_keeps:
  assumes "rg_ok rg" "authByID mem = authByID (rg_mem rg)" "authBySecret mem = authBySecret (rg_mem rg)"
  shows "rg_ok (rg\<lparr>rg_mem := mem\<rparr>) \<and> (rg_exact rg \<longrightarrow> rg_exact (rg\<lparr>rg_mem := mem\<rparr>))"
  using assms follows_view [OF assms(2,3)] by (simp add: rg_ok_def rg_exact_def)

lemma SaveVirt_view: "SaveVirt i secret c raw r st now mem = (b, mem') \<Longrightarrow> authByID mem' = authByID mem \<and> authBySecret mem' = authBySecret mem"
  by (auto simp: SaveVirt_def split: lookup.splits if_splits option.splits)

lemma step_keeps:
  assumes "reg_step sure rg rg'" "rg_ok rg"
  shows "rg_ok rg' \<and> (sure \<longrightarrow> rg_exact rg \<longrightarrow> rg_exact rg')"
  using assms
proof cases
  case (create env secret res)
  then show ?thesis using CreateNode_keeps [OF assms(2)] unfolding keeps_def by blast
next
  case (update env i upd res)
  then show ?thesis using UpdateNode_keeps [OF assms(2)] unfolding keeps_def by blast
next
  case (delete env i res)
  then show ?thesis using DeleteNode_keeps [OF assms(2)] unfolding keeps_def by blast
next
  case (order env ids res)
  then show ?thesis using order_keeps [OF assms(2)] unfolding keeps_def by blast
next
  case (p95 env ids enabled res)
  then show ?thesis using p95_keeps [OF assms(2)] unfolding keeps_def by blast
next
  case (static env secret i patch res)
  then show ?thesis using UpdateStatic_keeps [OF assms(2)] unfolding keeps_def by blast
next
  case (address secret ip)
  then show ?thesis using report_address_keeps [OF assms(2)] by blast
next
  case (new_group name remark grp db)
  then show ?thesis using db_only_keeps [OF assms(2), of db] by (auto simp: CreateGroup_def Let_def)
next
  case (update_group g changes db)
  then show ?thesis using db_only_keeps [OF assms(2), of db] by (auto simp: UpdateGroup_def split: if_splits)
next
  case (delete_group g db)
  then show ?thesis using db_only_keeps [OF assms(2), of db] by (auto simp: DeleteGroup_def UpdateGroup_def split: if_splits sum.splits)
next
  case (offer i target)
  then show ?thesis using mem_only_keeps [OF assms(2)] by (simp add: request_update_def)
next
  case (virt i secret collectedAt raw receivedAt started now b mem)
  then show ?thesis using mem_only_keeps [OF assms(2)] SaveVirt_view by blast
next
  case restart
  then show ?thesis using rebuild_exact [of "rg_db rg" newMemory] assms(2) by (simp add: rg_ok_def rg_exact_def)
qed

lemma started_ok: "reg_ok db \<Longrightarrow> rg_ok (started db front) \<and> rg_exact (started db front)"
  using rebuild_exact [of db newMemory] by (simp add: rg_ok_def rg_exact_def started_def)

lemma history_ok:
  assumes "(reg_step sure)\<^sup>*\<^sup>* (started db front) rg" "reg_ok db"
  shows "rg_ok rg \<and> (sure \<longrightarrow> rg_exact rg)"
  using assms(1)
proof (induction rule: rtranclp_induct)
  case base
  show ?case by (simp add: started_ok [OF assms(2)])
next
  case (step rg rg')
  then show ?case using step_keeps [OF step.hyps(2)] by blast
qed

subsection \<open>Secrets\<close>

lemma free_secret_refused:
  assumes "follows C mem" "creds_ok C" "\<And>i. C i \<noteq> Some (trim_space secret)"
  shows "GetServerBySecret mem secret = NoServer"
  using GetServerBySecret_Found(1) [OF assms(1,2), of secret] GetServerBySecret_ok [OF assms(1,2), of secret] assms(3)
  by (cases "GetServerBySecret mem secret") auto

lemma forgotten_secret: "0 < i \<Longrightarrow> trim_space secret \<noteq> [] \<Longrightarrow> GetServerBySecret (deleteServerMeta i secret mem) secret = NoServer"
  by (simp add: GetServerBySecret_def deleteServerMeta_def Let_def AList.delete_conv')

lemma lookup_exact:
  assumes "rg_ok rg" "rg_exact rg"
  shows "GetServerBySecret (rg_mem rg) secret =
    (case find (\<lambda>r. Server_Secret r = trim_space secret) (active_rows (rg_db rg)) of None \<Rightarrow> NoServer
     | Some r \<Rightarrow> FoundServer (toServer (metaFromServer r) (trim_space secret)))"
proof -
  let ?db = "rg_db rg" and ?s = "trim_space secret"
  have m: "follows (creds ?db) (rg_mem rg)" "reg_ok ?db" using assms(1) by (simp_all add: rg_ok_def)
  note c = creds_ok [OF m(2)]
  show ?thesis
  proof (cases "find (\<lambda>r. Server_Secret r = ?s) (active_rows ?db)")
    case None
    have "creds ?db i \<noteq> Some ?s" for i
    proof
      assume "creds ?db i = Some ?s"
      then obtain r where "active ?db i = Some r" "Server_Secret r = ?s" by (auto simp: creds_def)
      then have "r \<in> set (active_rows ?db)" using active_iff [OF m(2)] by simp
      with None \<open>Server_Secret r = ?s\<close> show False by (simp add: find_None_iff)
    qed
    from free_secret_refused [OF m(1) c this] None show ?thesis by simp
  next
    case (Some r)
    then have r: "r \<in> set (active_rows ?db)" "Server_Secret r = ?s" by (auto dest: find_in)
    then have a: "active ?db (Server_ID r) = Some r" using active_iff [OF m(2)] by simp
    then have k: "known_id (rg_mem rg) (Server_ID r) = Some (entry_of r)" using assms(2) by (simp add: rg_exact_def entries_def)
    have ok: "server_ok r" using active_Some [OF a] m(2) by (simp add: reg_ok_def)
    have "by_secret (rg_mem rg) ?s = Some (entry_of r)" using followsD(4) [OF m(1) k] r(2) by (simp add: entry_secret)
    moreover have "?s \<noteq> []" "0 < Server_ID r" using ok r(2) by (simp_all add: server_ok_def)
    ultimately show ?thesis using Some by (simp add: GetServerBySecret_def Let_def entry_of_def entry_secret metaFromServer_def)
  qed
qed

lemma delete_rows_Inl: "delete_rows i db = Inl e \<Longrightarrow> e \<noteq> CommitFailed"
  by (auto simp: delete_rows_def update_rows_def Let_def split: if_splits sum.splits)

lemma loadServerMeta_Inl: "loadServerMeta db i = Inl e \<Longrightarrow> e \<noteq> CommitFailed"
  by (auto simp: loadServerMeta_def split: if_splits option.splits)

lemma deleted_refused:
  assumes "rg_ok rg" "active (rg_db rg) i = Some old" "DeleteNode env i rg = (res, rg')" "res = Inr () \<or> res = Inl CommitFailed \<and> \<not> ge_refresh env"
  shows "GetServerBySecret (rg_mem rg') (Server_Secret old) = NoServer"
proof -
  have old: "server_ok old" "Server_ID old = i" using active_Some [OF assms(2)] assms(1) by (auto simp: rg_ok_def reg_ok_def)
  then have s: "0 < i" "trim_space (Server_Secret old) \<noteq> []" by (auto simp: server_ok_def)
  from assms(2-4) have "rg_mem rg' = removeServerState i (Server_Secret old) (rg_mem rg) \<or> rg_mem rg' = deleteServerMeta i (Server_Secret old) (rg_mem rg)"
    by (auto simp: DeleteNode_def loadServerMeta_active finish_tx_def Let_def reconcileCommit_def dest: delete_rows_Inl split: if_splits sum.splits prod.splits commit_outcome.splits)
  then show ?thesis
  proof
    assume r: "rg_mem rg' = removeServerState i (Server_Secret old) (rg_mem rg)"
    have "GetServerBySecret (removeServerState i (Server_Secret old) (rg_mem rg)) x = GetServerBySecret (deleteServerMeta i (Server_Secret old) (rg_mem rg)) x" for x
      by (simp add: GetServerBySecret_def remove_view Let_def)
    then show ?thesis unfolding r using forgotten_secret [OF s] by simp
  qed (use forgotten_secret [OF s] in simp)
qed

lemma rotated_refused:
  assumes "rg_ok rg" "active (rg_db rg) i = Some old" "UpdateNode env i upd rg = (res, rg')" "NodeUpdate_Secret upd = Some new" "trim_space new \<noteq> Server_Secret old"
    "res = Inr () \<or> res = Inl CommitFailed \<and> \<not> ge_refresh env"
  shows "GetServerBySecret (rg_mem rg') (Server_Secret old) = NoServer"
proof -
  have old: "server_ok old" "Server_ID old = i" using active_Some [OF assms(2)] assms(1) by (auto simp: rg_ok_def reg_ok_def)
  then have s: "0 < i" "trim_space (Server_Secret old) = Server_Secret old" "Server_Secret old \<noteq> []" by (auto simp: server_ok_def)
  obtain new' where n: "normalizeSecret new = Inr new'" "new' = trim_space new"
    using assms(3,4,6) by (cases "normalizeSecret new") (auto simp: UpdateNode_def normalizeSecret_def Let_def split: if_splits)
  let ?upd = "upd\<lparr>NodeUpdate_Secret := Some new'\<rparr>"
  from assms(3,4,6) n s(1) obtain res1 where p: "patchNode env i ?upd rg = (res1, rg')" and res1: "res1 = Inr () \<or> (\<exists>e. res1 = Inl e \<and> update_error e = CommitFailed) \<and> \<not> ge_refresh env"
    by (auto simp: UpdateNode_def split: prod.splits sum.splits)
  have ce: "update_error e = CommitFailed \<longleftrightarrow> e = CommitFailed" for e by (cases e) (simp_all add: update_error_def)
  have need: "needsMetaRefresh ?upd" by (simp add: needsMetaRefresh_def)
  have reg: "reg_ok (rg_db rg)" using assms(1) by (simp add: rg_ok_def)
  show ?thesis
  proof (cases "res1 = Inr ()")
    case True
    from p True need assms(2) obtain db fresh where r: "patch_rows env i ?upd (rg_db rg) = Inr db" and rg': "rg_db rg' = db"
      by (auto simp: patchNode_def loadServerMeta_active finish_tx_def Let_def split: if_splits sum.splits prod.splits commit_outcome.splits option.splits)
    have sg: "secret_given ?upd" using normalizeSecret_Inr [OF n(1)] by (simp add: secret_given_def)
    have ok: "rg_ok rg'" using patchNode_keeps [OF assms(1) sg s(1) p] by (simp add: keeps_def)
    obtain cs where act: "\<And>j. active db j = (if j = i then map_option (set_columns cs) (active (rg_db rg) i) else active (rg_db rg) j)"
      and sec: "\<And>s. Server_Secret (set_columns cs s) = new'"
      by (rule patch_rows_Inr [OF r reg sg]) simp
    have "creds db j \<noteq> Some (Server_Secret old)" for j
    proof (cases "j = i")
      case True
      then show ?thesis using act [of i] assms(2,5) sec n by (simp add: creds_def)
    next
      case False
      have "creds (rg_db rg) i = Some (Server_Secret old)" using assms(2) by (simp add: creds_def)
      then have "creds (rg_db rg) j \<noteq> Some (Server_Secret old)" using creds_okD(4) [OF creds_ok [OF reg]] False by blast
      then show ?thesis using act [of j] False by (simp add: creds_def)
    qed
    then show ?thesis using free_secret_refused [of "creds db" "rg_mem rg'"] ok rg' creds_ok [of db] s(2) by (simp add: rg_ok_def)
  next
    case False
    with res1 ce have f: "res1 = Inl CommitFailed" "\<not> ge_refresh env" by auto
    from p f need assms(2) have "rg_mem rg' = deleteServerMeta i (Server_Secret old) (rg_mem rg)"
      by (auto simp: patchNode_def loadServerMeta_active finish_tx_def Let_def reconcileCommit_def patch_rows_def change_cycle_def cycleUpdate_def patch_fields_def
          update_rows_def syncGroups_def split: if_splits sum.splits prod.splits commit_outcome.splits option.splits)
    then show ?thesis using forgotten_secret [of i "Server_Secret old"] s by simp
  qed
qed

end
