(* ===== verification/Node_Locks.thy ===== *)
theory Node_Locks
  imports Go_Prelude "HOL-Library.Word"
begin

text \<open>
  What makes an operation on nodes one step: the locks of \<open>internal/store/node/concurrency.go\<close> and the gate of
  \<open>internal/store/frontprojection/gate.go\<close>.

  The locks of nodes are made on demand and dropped when nobody refers to them, so a lock is an address in a store and a thread
  keeps the address it was given. A thread is a number; what it is doing is its phase. The critical sections of the code (under
  \<open>locksMu\<close> or the mutex of the gate) are single steps. Waiting for a lock may be given up.
\<close>

subsection \<open>The locks of nodes\<close>

record nodeLock =
  lock_held :: bool
  lock_refs :: int

text \<open>
  \<open>Entered i\<close>: in \<open>projected\<close> with the shared structural lock; \<open>Waiting\<close>: the lock of the node is retained; \<open>Inside\<close>: it is
  acquired and the operation runs; \<open>Finished\<close>: it is released but still retained; \<open>Leaving\<close>: only the shared lock is left;
  \<open>Exclusive\<close>: in \<open>global\<close>. The flag is whether the thread has the shared structural lock.
\<close>

datatype phase = Outside | Entered int | Waiting bool int nat | Inside bool int nat | Finished bool int nat | Leaving | Exclusive

record nodeMutations =
  nm_readers :: int
  nm_writer :: bool
  nm_locks :: "(int, nat) gomap"
  nm_store :: "nodeLock list"
  nm_phase :: "nat \<Rightarrow> phase"

definition retain :: "int \<Rightarrow> nodeMutations \<Rightarrow> nat \<times> nodeMutations" where
  "retain i m =
     (let (a, m1) = (case map_of (nm_locks m) i of
            Some a \<Rightarrow> (a, m)
          | None \<Rightarrow> (length (nm_store m), m\<lparr>nm_locks := AList.update i (length (nm_store m)) (nm_locks m),
              nm_store := nm_store m @ [\<lparr>lock_held = False, lock_refs = 0\<rparr>]\<rparr>))
      in (a, m1\<lparr>nm_store := (nm_store m1)[a := (nm_store m1 ! a)\<lparr>lock_refs := lock_refs (nm_store m1 ! a) + 1\<rparr>]\<rparr>))"

definition release :: "int \<Rightarrow> nat \<Rightarrow> nodeMutations \<Rightarrow> nodeMutations" where
  "release i a m =
     (let refs = lock_refs (nm_store m ! a) - 1; m1 = m\<lparr>nm_store := (nm_store m)[a := (nm_store m ! a)\<lparr>lock_refs := refs\<rparr>]\<rparr>
      in if refs = 0 then m1\<lparr>nm_locks := AList.delete i (nm_locks m1)\<rparr> else m1)"

definition set_held :: "nat \<Rightarrow> bool \<Rightarrow> nodeMutations \<Rightarrow> nodeMutations" where
  "set_held a h m = m\<lparr>nm_store := (nm_store m)[a := (nm_store m ! a)\<lparr>lock_held := h\<rparr>]\<rparr>"

definition at_phase :: "nat \<Rightarrow> phase \<Rightarrow> nodeMutations \<Rightarrow> nodeMutations" where
  "at_phase t p m = m\<lparr>nm_phase := (nm_phase m)(t := p)\<rparr>"

inductive lock_step :: "nodeMutations \<Rightarrow> nodeMutations \<Rightarrow> bool" where
  runtime: "nm_phase m t = Outside \<Longrightarrow> 0 < i \<Longrightarrow> retain i m = (a, m1) \<Longrightarrow> lock_step m (at_phase t (Waiting False i a) m1)"
| projected: "nm_phase m t = Outside \<Longrightarrow> \<not> nm_writer m \<Longrightarrow> lock_step m (at_phase t (Entered i) (m\<lparr>nm_readers := nm_readers m + 1\<rparr>))"
| invalid: "nm_phase m t = Entered i \<Longrightarrow> i \<le> 0 \<Longrightarrow> lock_step m (at_phase t Leaving m)"
| retain: "nm_phase m t = Entered i \<Longrightarrow> 0 < i \<Longrightarrow> retain i m = (a, m1) \<Longrightarrow> lock_step m (at_phase t (Waiting True i a) m1)"
| acquire: "nm_phase m t = Waiting sh i a \<Longrightarrow> \<not> lock_held (nm_store m ! a) \<Longrightarrow> lock_step m (at_phase t (Inside sh i a) (set_held a True m))"
| give_up: "nm_phase m t = Waiting sh i a \<Longrightarrow> lock_step m (at_phase t (Finished sh i a) m)"
| finish: "nm_phase m t = Inside sh i a \<Longrightarrow> lock_step m (at_phase t (Finished sh i a) (set_held a False m))"
| release: "nm_phase m t = Finished sh i a \<Longrightarrow> lock_step m (at_phase t (if sh then Leaving else Outside) (release i a m))"
| leave: "nm_phase m t = Leaving \<Longrightarrow> lock_step m (at_phase t Outside (m\<lparr>nm_readers := nm_readers m - 1\<rparr>))"
| global: "nm_phase m t = Outside \<Longrightarrow> \<not> nm_writer m \<Longrightarrow> nm_readers m = 0 \<Longrightarrow> lock_step m (at_phase t Exclusive (m\<lparr>nm_writer := True\<rparr>))"
| unlock: "nm_phase m t = Exclusive \<Longrightarrow> lock_step m (at_phase t Outside (m\<lparr>nm_writer := False\<rparr>))"

inductive_cases lock_stepE: "lock_step m m'"

definition newMutations :: nodeMutations where
  "newMutations = \<lparr>nm_readers = 0, nm_writer = False, nm_locks = [], nm_store = [], nm_phase = (\<lambda>_. Outside)\<rparr>"

subsection \<open>The invariant of the locks\<close>

fun retains :: "phase \<Rightarrow> (int \<times> nat) option" where
  "retains (Waiting sh i a) = Some (i, a)"
| "retains (Inside sh i a) = Some (i, a)"
| "retains (Finished sh i a) = Some (i, a)"
| "retains p = None"

fun holds :: "phase \<Rightarrow> nat option" where
  "holds (Inside sh i a) = Some a"
| "holds p = None"

fun shares :: "phase \<Rightarrow> bool" where
  "shares (Entered i) = True"
| "shares (Waiting sh i a) = sh"
| "shares (Inside sh i a) = sh"
| "shares (Finished sh i a) = sh"
| "shares Leaving = True"
| "shares p = False"

definition retainers :: "nodeMutations \<Rightarrow> nat \<Rightarrow> nat set" where
  "retainers m a = {t. \<exists>i. retains (nm_phase m t) = Some (i, a)}"

definition sharers :: "nodeMutations \<Rightarrow> nat set" where
  "sharers m = {t. shares (nm_phase m t)}"

definition locks_ok :: "nodeMutations \<Rightarrow> bool" where
  "locks_ok m \<longleftrightarrow> finite {t. nm_phase m t \<noteq> Outside} \<and>
     (\<forall>t i a. retains (nm_phase m t) = Some (i, a) \<longrightarrow> map_of (nm_locks m) i = Some a) \<and>
     (\<forall>i a. map_of (nm_locks m) i = Some a \<longrightarrow> a < length (nm_store m) \<and> retainers m a \<noteq> {} \<and> lock_refs (nm_store m ! a) = int (card (retainers m a))) \<and>
     (\<forall>i j a. map_of (nm_locks m) i = Some a \<longrightarrow> map_of (nm_locks m) j = Some a \<longrightarrow> i = j)"

definition held_ok :: "nodeMutations \<Rightarrow> bool" where
  "held_ok m \<longleftrightarrow>
     (\<forall>t a. holds (nm_phase m t) = Some a \<longrightarrow> lock_held (nm_store m ! a)) \<and>
     (\<forall>t u a. holds (nm_phase m t) = Some a \<longrightarrow> holds (nm_phase m u) = Some a \<longrightarrow> t = u)"

definition structural_ok :: "nodeMutations \<Rightarrow> bool" where
  "structural_ok m \<longleftrightarrow> nm_readers m = int (card (sharers m)) \<and>
     (nm_writer m \<longrightarrow> nm_readers m = 0) \<and> (\<forall>t. nm_phase m t = Exclusive \<longrightarrow> nm_writer m) \<and>
     (\<forall>t u. nm_phase m t = Exclusive \<longrightarrow> nm_phase m u = Exclusive \<longrightarrow> t = u)"

lemma phase_simps [simp]:
  "nm_phase (at_phase t p m) u = (if u = t then p else nm_phase m u)" "nm_locks (at_phase t p m) = nm_locks m" "nm_store (at_phase t p m) = nm_store m"
  "nm_readers (at_phase t p m) = nm_readers m" "nm_writer (at_phase t p m) = nm_writer m"
  by (simp_all add: at_phase_def)

lemma set_held_simps [simp]:
  "nm_phase (set_held a h m) = nm_phase m" "nm_locks (set_held a h m) = nm_locks m" "nm_readers (set_held a h m) = nm_readers m"
  "nm_writer (set_held a h m) = nm_writer m" "length (nm_store (set_held a h m)) = length (nm_store m)"
  "b < length (nm_store m) \<Longrightarrow> lock_refs (nm_store (set_held a h m) ! b) = lock_refs (nm_store m ! b)"
  "b < length (nm_store m) \<Longrightarrow> lock_held (nm_store (set_held a h m) ! b) = (if b = a then h else lock_held (nm_store m ! b))"
  by (cases "b = a"; simp add: set_held_def)+

lemma busy_phase: "finite {u. nm_phase (at_phase t p m) u \<noteq> Outside} = finite {u. nm_phase m u \<noteq> Outside}"
proof -
  have "{u. nm_phase (at_phase t p m) u \<noteq> Outside} \<subseteq> insert t {u. nm_phase m u \<noteq> Outside}"
    "{u. nm_phase m u \<noteq> Outside} \<subseteq> insert t {u. nm_phase (at_phase t p m) u \<noteq> Outside}" by (auto split: if_splits)
  then show ?thesis by (meson finite_insert finite_subset)
qed

lemma retainers_phase:
  "retainers (at_phase t p m) a = (if \<exists>i. retains p = Some (i, a) then insert t (retainers m a) else retainers m a - {t})"
  by (auto simp: retainers_def)

lemma retainers_cong: "nm_phase m' = nm_phase m \<Longrightarrow> retainers m' a = retainers m a"
  by (simp add: retainers_def)

lemma locks_okD:
  assumes "locks_ok m"
  shows "finite {t. nm_phase m t \<noteq> Outside}" "finite (retainers m a)" "retains (nm_phase m t) = Some (i, a) \<Longrightarrow> map_of (nm_locks m) i = Some a"
    "map_of (nm_locks m) i = Some a \<Longrightarrow> a < length (nm_store m)" "map_of (nm_locks m) i = Some a \<Longrightarrow> retainers m a \<noteq> {}"
    "map_of (nm_locks m) i = Some a \<Longrightarrow> lock_refs (nm_store m ! a) = int (card (retainers m a))"
    "map_of (nm_locks m) i = Some a \<Longrightarrow> map_of (nm_locks m) j = Some a \<Longrightarrow> i = j"
proof -
  have "retainers m a \<subseteq> {t. nm_phase m t \<noteq> Outside}" by (auto simp: retainers_def)
  with assms show "finite (retainers m a)" by (auto simp: locks_ok_def intro: finite_subset)
qed (use assms in \<open>auto simp: locks_ok_def\<close>)

lemma retain_cases:
  assumes "retain i m = (a, m1)"
  obtains (known) "map_of (nm_locks m) i = Some a" "m1 = m\<lparr>nm_store := (nm_store m)[a := (nm_store m ! a)\<lparr>lock_refs := lock_refs (nm_store m ! a) + 1\<rparr>]\<rparr>"
    | (fresh) "map_of (nm_locks m) i = None" "a = length (nm_store m)"
      "m1 = m\<lparr>nm_locks := AList.update i a (nm_locks m), nm_store := nm_store m @ [\<lparr>lock_held = False, lock_refs = 1\<rparr>]\<rparr>"
  using assms by (auto simp: retain_def Let_def split: option.splits)

lemma retain_simps: assumes "retain i m = (a, m1)" shows "nm_phase m1 = nm_phase m" "nm_readers m1 = nm_readers m" "nm_writer m1 = nm_writer m"
  by (cases rule: retain_cases [OF assms]; simp)+

lemma unused_address: "locks_ok m \<Longrightarrow> length (nm_store m) \<le> a \<Longrightarrow> retainers m a = {}"
  using locks_okD(3,4) by (fastforce simp: retainers_def)

lemma retain_ok:
  assumes "locks_ok m" "retain i m = (a, m1)" "retains (nm_phase m t) = None"
  shows "locks_ok (at_phase t (Waiting sh i a) m1)"
proof -
  note D = locks_okD [OF assms(1)] and s = retain_simps [OF assms(2)]
  have t: "t \<notin> retainers m b" for b using assms(3) by (simp add: retainers_def)
  have R: "retainers (at_phase t (Waiting sh i a) m1) b = (if b = a then insert t (retainers m b) else retainers m b)" for b
    using t [of b] by (simp add: retainers_phase retainers_cong [OF s(1)])
  have fin: "finite {u. nm_phase (at_phase t (Waiting sh i a) m1) u \<noteq> Outside}" using D(1) s by (simp only: busy_phase)
  from assms(2) show ?thesis
  proof (cases rule: retain_cases)
    case known
    have "map_of (nm_locks m) j = Some b \<Longrightarrow> b < length (nm_store m) \<and>
        lock_refs ((nm_store m)[a := (nm_store m ! a)\<lparr>lock_refs := lock_refs (nm_store m ! a) + 1\<rparr>] ! b) = int (card (if b = a then insert t (retainers m b) else retainers m b))" for j b
      using D(2) [of b] D(4,6) [of j b] t [of b] by (cases "b = a") simp_all
    then show ?thesis using known D(3) D(5) D(7) fin unfolding locks_ok_def R by (auto split: if_splits)
  next
    case fresh
    have un: "retainers m a = {}" using unused_address [OF assms(1)] fresh(2) by simp
    have lt: "map_of (nm_locks m) j = Some b \<Longrightarrow> b < a" for j b using D(4) fresh(2) by simp
    then have ne: "map_of (nm_locks m) j \<noteq> Some a" for j by blast
    show ?thesis unfolding locks_ok_def R
      using fresh D(3,5,6,7) fin un ne lt by (auto simp: AList.update_conv' nth_append less_Suc_eq split: if_splits)
  qed
qed

lemma same_locks:
  assumes "locks_ok m" "nm_phase m' = nm_phase m" "nm_locks m' = nm_locks m" "length (nm_store m') = length (nm_store m)"
    "\<And>b. b < length (nm_store m) \<Longrightarrow> lock_refs (nm_store m' ! b) = lock_refs (nm_store m ! b)" "retains p = retains (nm_phase m t)"
  shows "locks_ok (at_phase t p m')"
proof -
  note D = locks_okD [OF assms(1)]
  have R: "retainers (at_phase t p m') b = retainers m b" for b
    using assms(6) unfolding retainers_phase retainers_cong [OF assms(2)] by (auto simp: retainers_def)
  have "finite {u. nm_phase (at_phase t p m') u \<noteq> Outside}" using D(1) assms(2) by (simp only: busy_phase)
  then show ?thesis using D(3,4,5,6,7) assms(2-6) unfolding locks_ok_def R by auto
qed

lemma release_simps: "nm_phase (release i a m) = nm_phase m" "nm_readers (release i a m) = nm_readers m" "nm_writer (release i a m) = nm_writer m"
  by (simp_all add: release_def Let_def)

lemma release_held: "a < length (nm_store m) \<Longrightarrow> lock_held (nm_store (release i a m) ! b) = lock_held (nm_store m ! b)"
  by (cases "b = a") (simp_all add: release_def Let_def)

lemma release_ok:
  assumes "locks_ok m" "retains (nm_phase m t) = Some (i, a)" "retains p = None"
  shows "locks_ok (at_phase t p (release i a m))"
proof -
  note D = locks_okD [OF assms(1)]
  have a: "map_of (nm_locks m) i = Some a" "a < length (nm_store m)" "t \<in> retainers m a"
    using D(3) [OF assms(2)] D(4) assms(2) by (auto simp: retainers_def)
  have R: "retainers (at_phase t p (release i a m)) b = retainers m b - {t}" for b
    using assms(3) by (simp add: retainers_phase retainers_cong [OF release_simps(1)])
  have other: "retainers m b - {t} = retainers m b" if "b \<noteq> a" for b using that assms(2) by (auto simp: retainers_def)
  have refs: "lock_refs (nm_store m ! a) - 1 = int (card (retainers m a - {t}))"
    using D(6) [OF a(1)] D(2) [of a] a(3) by (simp add: card_Diff_singleton) (metis One_nat_def Suc_leI card_gt_0_iff empty_iff of_nat_1 of_nat_diff)
  have fin: "finite {u. nm_phase (at_phase t p (release i a m)) u \<noteq> Outside}" using D(1) by (simp only: busy_phase release_simps)
  have ph: "retains (nm_phase m u) = Some (j, b) \<Longrightarrow> b = a \<longleftrightarrow> j = i" for u j b using D(3) D(7) a(1) by fastforce
  show ?thesis
  proof (cases "retainers m a - {t} = {}")
    case True
    then have r0: "lock_refs (nm_store m ! a) - 1 = 0" using refs unfolding True by simp
    have gone: "u = t" if "retains (nm_phase m u) = Some (i, b)" for u b using True that ph [of u i b] by (auto simp: retainers_def)
    have st: "nm_locks (release i a m) = AList.delete i (nm_locks m)" "nm_store (release i a m) = (nm_store m)[a := (nm_store m ! a)\<lparr>lock_refs := 0\<rparr>]"
      using r0 by (simp_all add: release_def Let_def)
    have row: "lock_refs (nm_store (release i a m) ! b) = int (card (retainers m b - {t}))" "retainers m b - {t} \<noteq> {}"
      if "map_of (nm_locks m) j = Some b" "j \<noteq> i" for j b
    proof -
      have "b \<noteq> a" using D(7) [OF that(1), of i] a(1) that(2) by blast
      then show "lock_refs (nm_store (release i a m) ! b) = int (card (retainers m b - {t}))" "retainers m b - {t} \<noteq> {}"
        using D(5,6) [OF that(1)] other by (simp_all add: st)
    qed
    show ?thesis unfolding locks_ok_def R
      using D(3,4,7) fin assms(3) row gone st by (auto simp: release_simps AList.delete_conv' split: if_splits)
  next
    case False
    then have "card (retainers m a - {t}) \<noteq> 0" using D(2) [of a] by simp
    then have r0: "lock_refs (nm_store m ! a) - 1 \<noteq> 0" using refs by simp
    then have st: "nm_locks (release i a m) = nm_locks m" "nm_store (release i a m) = (nm_store m)[a := (nm_store m ! a)\<lparr>lock_refs := lock_refs (nm_store m ! a) - 1\<rparr>]"
      by (simp_all add: release_def Let_def)
    have row: "lock_refs (nm_store (release i a m) ! b) = int (card (retainers m b - {t}))" "retainers m b - {t} \<noteq> {}"
      if "map_of (nm_locks m) j = Some b" for j b
      using that D(5,6) [OF that] refs a(2) False other [of b] by (cases "b = a"; simp add: st)+
    show ?thesis unfolding locks_ok_def R
      using D(3,4,7) fin assms(3) row st by (auto simp: release_simps split: if_splits)
  qed
qed

lemma locks_step: "lock_step m m' \<Longrightarrow> locks_ok m \<Longrightarrow> locks_ok m'"
proof (induction rule: lock_step.induct)
  case (runtime m t i a m1)
  show ?case by (rule retain_ok [OF runtime.prems runtime.hyps(3)]) (simp add: runtime.hyps(1))
next
  case (retain m t i a m1)
  show ?case by (rule retain_ok [OF retain.prems retain.hyps(3)]) (simp add: retain.hyps(1))
next
  case (release m t sh i a)
  show ?case by (rule release_ok [OF release.prems]) (simp_all add: release.hyps)
qed (erule same_locks; simp)+

lemma held_okD:
  assumes "held_ok m"
  shows "holds (nm_phase m t) = Some a \<Longrightarrow> lock_held (nm_store m ! a)" "holds (nm_phase m t) = Some a \<Longrightarrow> holds (nm_phase m u) = Some a \<Longrightarrow> t = u"
  using assms by (auto simp: held_ok_def)

lemma holds_retains: "holds p = Some a \<Longrightarrow> \<exists>i. retains p = Some (i, a)"
  by (cases p) simp_all

lemma held_address: "locks_ok m \<Longrightarrow> holds (nm_phase m t) = Some a \<Longrightarrow> a < length (nm_store m)"
  using holds_retains locks_okD(3,4) by blast

lemma retain_held: "retain i m = (b, m1) \<Longrightarrow> a < length (nm_store m) \<Longrightarrow> lock_held (nm_store m1 ! a) = lock_held (nm_store m ! a)"
  by (erule retain_cases; cases "a = b") (simp_all add: nth_append)

lemma held_quiet:
  assumes "held_ok m" "nm_phase m' = nm_phase m" "\<And>u a. holds (nm_phase m u) = Some a \<Longrightarrow> u \<noteq> t \<Longrightarrow> lock_held (nm_store m' ! a)" "holds p = None"
  shows "held_ok (at_phase t p m')"
  using assms unfolding held_ok_def by (auto split: if_splits)

lemma held_phase: "held_ok m \<Longrightarrow> nm_phase m' = nm_phase m \<Longrightarrow> nm_store m' = nm_store m \<Longrightarrow> holds p = None \<Longrightarrow> held_ok (at_phase t p m')"
  by (rule held_quiet) (auto dest: held_okD(1))

lemma held_step: "lock_step m m' \<Longrightarrow> locks_ok m \<Longrightarrow> held_ok m \<Longrightarrow> held_ok m'"
proof (induction rule: lock_step.induct)
  case (runtime m t i a m1)
  then show ?case by (intro held_quiet [of m]) (auto simp: retain_simps retain_held held_address held_okD)
next
  case (retain m t i a m1)
  then show ?case by (intro held_quiet [of m]) (auto simp: retain_simps retain_held held_address held_okD)
next
  case (acquire m t sh i a)
  have a: "a < length (nm_store m)" using locks_okD(3) [OF acquire.prems(1), of t i a] locks_okD(4) [OF acquire.prems(1), of i a] acquire.hyps by simp
  have "holds (nm_phase m u) \<noteq> Some a" for u using held_okD(1) [OF acquire.prems(2)] acquire.hyps(2) by blast
  then show ?case using acquire.prems a held_address [OF acquire.prems(1)] unfolding held_ok_def by (auto split: if_splits)
next
  case (finish m t sh i a)
  have h: "holds (nm_phase m t) = Some a" using finish.hyps by simp
  show ?case
  proof (rule held_quiet [OF finish.prems(2)])
    fix u b assume u: "holds (nm_phase m u) = Some b" "u \<noteq> t"
    then have "b \<noteq> a" using held_okD(2) [OF finish.prems(2) h] by metis
    then show "lock_held (nm_store (set_held a False m) ! b)"
      using held_address [OF finish.prems(1) u(1)] held_okD(1) [OF finish.prems(2) u(1)] by simp
  qed simp_all
next
  case (release m t sh i a)
  have a: "a < length (nm_store m)" using locks_okD(3) [OF release.prems(1), of t i a] locks_okD(4) [OF release.prems(1), of i a] release.hyps by simp
  show ?case using release a by (intro held_quiet [of m]) (auto simp: release_simps release_held held_okD)
qed (erule held_phase; simp)+

lemma sharers_phase:
  "nm_phase m' = nm_phase m \<Longrightarrow> sharers (at_phase t p m') = (if shares p then insert t (sharers m) else sharers m - {t})"
  by (auto simp: sharers_def)

lemma sharers_iff: "t \<in> sharers m \<longleftrightarrow> shares (nm_phase m t)"
  by (simp add: sharers_def)

lemma sharers_same: "nm_phase m' = nm_phase m \<Longrightarrow> shares p = shares (nm_phase m t) \<Longrightarrow> sharers (at_phase t p m') = sharers m"
  by (auto simp: sharers_def)

lemma sharers_finite: "locks_ok m \<Longrightarrow> finite (sharers m)"
  unfolding sharers_def by (rule finite_subset [OF _ locks_okD(1)]) auto

lemma structural_same:
  assumes "structural_ok m" "nm_phase m' = nm_phase m" "nm_readers m' = nm_readers m" "nm_writer m' = nm_writer m"
    "shares p = shares (nm_phase m t)" "p \<noteq> Exclusive"
  shows "structural_ok (at_phase t p m')"
  using assms sharers_same [OF assms(2,5)] unfolding structural_ok_def by (auto split: if_splits)

lemma structural_step: "lock_step m m' \<Longrightarrow> locks_ok m \<Longrightarrow> structural_ok m \<Longrightarrow> structural_ok m'"
proof (induction rule: lock_step.induct)
  case (projected m t i)
  let ?m = "m\<lparr>nm_readers := nm_readers m + 1\<rparr>"
  have s: "sharers (at_phase t (Entered i) ?m) = insert t (sharers m)" using sharers_phase [of ?m m t "Entered i"] by simp
  have "card (insert t (sharers m)) = Suc (card (sharers m))"
    using sharers_finite [OF projected.prems(1)] projected.hyps(1) by (simp add: sharers_iff)
  with projected show ?case unfolding structural_ok_def s by auto
next
  case (leave m t)
  let ?m = "m\<lparr>nm_readers := nm_readers m - 1\<rparr>"
  have s: "sharers (at_phase t Outside ?m) = sharers m - {t}" using sharers_phase [of ?m m t Outside] by simp
  have "t \<in> sharers m" using leave.hyps by (simp add: sharers_iff)
  then have "card (sharers m) = Suc (card (sharers m - {t}))" using sharers_finite [OF leave.prems(1)] by (metis card.remove)
  with leave show ?case unfolding structural_ok_def s by auto
next
  case (global m t)
  have s: "sharers (at_phase t Exclusive (m\<lparr>nm_writer := True\<rparr>)) = sharers m" by (rule sharers_same) (simp_all add: global.hyps)
  from global show ?case unfolding structural_ok_def s by auto
next
  case (unlock m t)
  have s: "sharers (at_phase t Outside (m\<lparr>nm_writer := False\<rparr>)) = sharers m" by (rule sharers_same) (simp_all add: unlock.hyps)
  have "nm_phase m u \<noteq> Exclusive" if "u \<noteq> t" for u using unlock that unfolding structural_ok_def by blast
  with unlock show ?case unfolding structural_ok_def s by auto
next
  case (runtime m t i a m1)
  show ?case by (rule structural_same [OF runtime.prems(2)]) (simp_all add: retain_simps [OF runtime.hyps(3)] runtime.hyps(1))
next
  case (retain m t i a m1)
  show ?case by (rule structural_same [OF retain.prems(2)]) (simp_all add: retain_simps [OF retain.hyps(3)] retain.hyps(1))
next
  case (release m t sh i a)
  show ?case by (rule structural_same [OF release.prems(2)]) (simp_all add: release_simps release.hyps)
qed (erule structural_same; simp)+

lemma locks_reachable:
  assumes "lock_step\<^sup>*\<^sup>* newMutations m"
  shows "locks_ok m \<and> held_ok m \<and> structural_ok m"
  using assms
proof (induction rule: rtranclp_induct)
  case base
  show ?case by (simp add: newMutations_def locks_ok_def held_ok_def structural_ok_def sharers_def)
next
  case (step m m')
  then show ?case using locks_step held_step structural_step by blast
qed

lemma lock_reuse:
  assumes "lock_step\<^sup>*\<^sup>* newMutations m" "nm_phase m t = Inside sh i a" "nm_phase m u = Inside sh' i b"
  shows "t = u"
proof -
  have ok: "locks_ok m" "held_ok m" using locks_reachable [OF assms(1)] by simp_all
  have "map_of (nm_locks m) i = Some a" "map_of (nm_locks m) i = Some b"
    using locks_okD(3) [OF ok(1), of t i a] locks_okD(3) [OF ok(1), of u i b] assms(2,3) by simp_all
  then show ?thesis using held_okD(2) [OF ok(2), of t a u] assms(2,3) by simp
qed

lemma no_locks_left:
  assumes "lock_step\<^sup>*\<^sup>* newMutations m" "\<forall>u. nm_phase m u = Outside"
  shows "nm_locks m = []"
proof -
  have ok: "locks_ok m" using locks_reachable [OF assms(1)] by simp
  have "retainers m a = {}" for a using assms(2) by (simp add: retainers_def)
  then have "map_of (nm_locks m) i = None" for i using locks_okD(5) [OF ok, of i] by (cases "map_of (nm_locks m) i") simp_all
  then show ?thesis by (metis list.exhaust map_of_Cons_code(2) option.distinct(1) prod.exhaust)
qed

lemma structural_exclusive:
  assumes "lock_step\<^sup>*\<^sup>* newMutations m" "nm_phase m t = Exclusive" "u \<noteq> t"
  shows "\<not> shares (nm_phase m u) \<and> nm_phase m u \<noteq> Exclusive"
proof -
  have ok: "locks_ok m" "structural_ok m" using locks_reachable [OF assms(1)] by simp_all
  then have "sharers m = {}" using assms(2) sharers_finite [OF ok(1)] unfolding structural_ok_def by (metis card_0_eq of_nat_eq_0_iff)
  then show ?thesis using ok(2) assms(2,3) unfolding structural_ok_def sharers_def by blast
qed

subsection \<open>The gate of the front projection\<close>

text \<open>
  A mutation changes what the front end shows; a build reads the version, reads the tables and publishes the result. \<open>gt_done\<close> counts
  the mutations that have finished; the code does not have it. A build remembers it with the version it read.
\<close>

datatype gate_phase = Idle | Mutating | Building "64 word" nat | Publishing nat

record gate =
  gt_version :: "64 word"
  gt_active :: int
  gt_builds :: int
  gt_done :: nat
  gt_phase :: "nat \<Rightarrow> gate_phase"

definition gate_at :: "nat \<Rightarrow> gate_phase \<Rightarrow> gate \<Rightarrow> gate" where
  "gate_at t p g = g\<lparr>gt_phase := (gt_phase g)(t := p)\<rparr>"

inductive gate_step :: "gate \<Rightarrow> gate \<Rightarrow> bool" where
  mutate: "gt_phase g t = Idle \<Longrightarrow> gt_builds g = 0 \<Longrightarrow> gate_step g (gate_at t Mutating (g\<lparr>gt_active := gt_active g + 1\<rparr>))"
| mutated: "gt_phase g t = Mutating \<Longrightarrow>
     gate_step g (gate_at t Idle (g\<lparr>gt_active := gt_active g - 1, gt_version := gt_version g + 1, gt_done := Suc (gt_done g)\<rparr>))"
| version: "gt_phase g t = Idle \<Longrightarrow> gt_active g = 0 \<Longrightarrow> gate_step g (gate_at t (Building (gt_version g) (gt_done g)) g)"
| abandon: "gt_phase g t = Building v n \<Longrightarrow> gate_step g (gate_at t Idle g)"
| refused: "gt_phase g t = Building v n \<Longrightarrow> gt_active g \<noteq> 0 \<or> gt_version g \<noteq> v \<Longrightarrow> gate_step g (gate_at t Idle g)"
| publish: "gt_phase g t = Building v n \<Longrightarrow> gt_active g = 0 \<Longrightarrow> gt_version g = v \<Longrightarrow>
     gate_step g (gate_at t (Publishing n) (g\<lparr>gt_builds := gt_builds g + 1\<rparr>))"
| published: "gt_phase g t = Publishing n \<Longrightarrow> gate_step g (gate_at t Idle (g\<lparr>gt_builds := gt_builds g - 1\<rparr>))"

definition newGate :: gate where
  "newGate = \<lparr>gt_version = 0, gt_active = 0, gt_builds = 0, gt_done = 0, gt_phase = (\<lambda>_. Idle)\<rparr>"

fun publishing :: "gate_phase \<Rightarrow> bool" where
  "publishing (Publishing n) = True"
| "publishing p = False"

definition in_phase :: "(gate_phase \<Rightarrow> bool) \<Rightarrow> gate \<Rightarrow> nat set" where
  "in_phase P g = {t. P (gt_phase g t)}"

definition gate_ok :: "gate \<Rightarrow> bool" where
  "gate_ok g \<longleftrightarrow> finite (in_phase (\<lambda>p. p \<noteq> Idle) g) \<and> gt_active g = int (card (in_phase (\<lambda>p. p = Mutating) g)) \<and>
     gt_builds g = int (card (in_phase publishing g)) \<and> (gt_builds g = 0 \<or> gt_active g = 0) \<and> gt_version g = of_nat (gt_done g) \<and>
     (\<forall>t v n. gt_phase g t = Building v n \<longrightarrow> v = of_nat n \<and> n \<le> gt_done g) \<and>
     (\<forall>t n. gt_phase g t = Publishing n \<longrightarrow> of_nat n = (of_nat (gt_done g) :: 64 word) \<and> n \<le> gt_done g)"

lemma gate_at_simps [simp]:
  "gt_phase (gate_at t p g) u = (if u = t then p else gt_phase g u)" "gt_active (gate_at t p g) = gt_active g" "gt_builds (gate_at t p g) = gt_builds g"
  "gt_version (gate_at t p g) = gt_version g" "gt_done (gate_at t p g) = gt_done g"
  by (simp_all add: gate_at_def)

lemma in_phase_at:
  "gt_phase g' = gt_phase g \<Longrightarrow> in_phase P (gate_at t p g') = (if P p then insert t (in_phase P g) else in_phase P g - {t})"
  by (auto simp: in_phase_def)

lemma in_phase_iff: "t \<in> in_phase P g \<longleftrightarrow> P (gt_phase g t)"
  by (simp add: in_phase_def)

lemma phase_finite: "gate_ok g \<Longrightarrow> \<not> P Idle \<Longrightarrow> finite (in_phase P g)"
  by (auto simp: gate_ok_def in_phase_def elim!: finite_subset [rotated])

lemma card_phase_at:
  assumes "gate_ok g" "gt_phase g' = gt_phase g" "\<not> P Idle"
  shows "int (card (in_phase P (gate_at t p g'))) = int (card (in_phase P g)) + (if P p then 1 else 0) - (if P (gt_phase g t) then 1 else 0)"
proof (cases "t \<in> in_phase P g")
  case True
  then have "insert t (in_phase P g) = in_phase P g" by auto
  moreover have "card (in_phase P g) = Suc (card (in_phase P g - {t}))" using phase_finite [of g P, OF assms(1,3)] True by (rule card.remove)
  ultimately show ?thesis using True by (simp add: in_phase_at [OF assms(2)] in_phase_iff)
next
  case False
  then show ?thesis using phase_finite [of g P, OF assms(1,3)] by (simp add: in_phase_at [OF assms(2)] in_phase_iff)
qed

lemma empty_phase: "gate_ok g \<Longrightarrow> \<not> P Idle \<Longrightarrow> int (card (in_phase P g)) = 0 \<Longrightarrow> \<not> P (gt_phase g t)"
  using phase_finite [of g P] by (auto simp: in_phase_def)

lemma no_mutation: "gate_ok g \<Longrightarrow> gt_active g = 0 \<Longrightarrow> gt_phase g t \<noteq> Mutating"
  using empty_phase [of g "\<lambda>p. p = Mutating" t] by (simp add: gate_ok_def)

lemma no_build: "gate_ok g \<Longrightarrow> gt_builds g = 0 \<Longrightarrow> \<not> publishing (gt_phase g t)"
  using empty_phase [of g publishing t] by (simp add: gate_ok_def)

lemma gate_ok_at:
  assumes "gate_ok g" "gt_phase g' = gt_phase g"
    and "gt_active g' = gt_active g + (if p = Mutating then 1 else 0) - (if gt_phase g t = Mutating then 1 else 0)"
    and "gt_builds g' = gt_builds g + (if publishing p then 1 else 0) - (if publishing (gt_phase g t) then 1 else 0)"
    and "gt_builds g' = 0 \<or> gt_active g' = 0" "gt_version g' = of_nat (gt_done g')" "gt_done g \<le> gt_done g'"
    and "\<And>v n. p = Building v n \<Longrightarrow> v = of_nat n \<and> n \<le> gt_done g'"
    and "\<And>u n. gt_phase (gate_at t p g') u = Publishing n \<Longrightarrow> of_nat n = (of_nat (gt_done g') :: 64 word) \<and> n \<le> gt_done g'"
  shows "gate_ok (gate_at t p g')"
proof -
  have "finite (in_phase (\<lambda>p. p \<noteq> Idle) (gate_at t p g'))"
    using phase_finite [OF assms(1), of "\<lambda>p. p \<noteq> Idle"] by (simp add: in_phase_at [OF assms(2)])
  moreover have "gt_active g' = int (card (in_phase (\<lambda>p. p = Mutating) (gate_at t p g')))"
    using assms(1,3) by (simp add: card_phase_at [OF assms(1,2)] gate_ok_def)
  moreover have "gt_builds g' = int (card (in_phase publishing (gate_at t p g')))"
    using assms(1,4) by (simp add: card_phase_at [OF assms(1,2)] gate_ok_def)
  moreover have "v = of_nat n \<and> n \<le> gt_done g'" if "gt_phase (gate_at t p g') u = Building v n" for u v n
    using that assms(1,2,7,8) by (fastforce simp: gate_ok_def split: if_splits)
  ultimately show ?thesis using assms(5,6,9) unfolding gate_ok_def by simp
qed

lemma gate_okD:
  assumes "gate_ok g"
  shows "gt_builds g = 0 \<or> gt_active g = 0" "gt_version g = of_nat (gt_done g)" "gt_phase g t = Building v n \<Longrightarrow> v = of_nat n \<and> n \<le> gt_done g"
    "gt_phase g t = Publishing n \<Longrightarrow> of_nat n = (of_nat (gt_done g) :: 64 word) \<and> n \<le> gt_done g"
  using assms unfolding gate_ok_def by blast+

lemma gate_keeps: "gate_step g g' \<Longrightarrow> gate_ok g \<Longrightarrow> gate_ok g'"
proof (induction rule: gate_step.induct)
  case (mutate g t)
  note D = gate_okD [OF mutate.prems]
  show ?case by (rule gate_ok_at [OF mutate.prems]) (use mutate.hyps D(2,4) in \<open>simp_all split: if_splits\<close>)
next
  case (mutated g t)
  have "gt_active g \<noteq> 0" using no_mutation [OF mutated.prems, of t] mutated.hyps by blast
  then have b: "gt_builds g = 0" using gate_okD(1) [OF mutated.prems] by blast
  have p: "gt_phase g u \<noteq> Publishing n" for u n using no_build [OF mutated.prems b, of u] by auto
  show ?case
    by (rule gate_ok_at [OF mutated.prems]) (use mutated.hyps p b gate_okD(2) [OF mutated.prems] in \<open>simp_all split: if_splits\<close>)
next
  case (version g t)
  note D = gate_okD [OF version.prems]
  show ?case by (rule gate_ok_at [OF version.prems]) (use version.hyps D(2,4) in \<open>simp_all split: if_splits\<close>)
next
  case (abandon g t v n)
  note D = gate_okD [OF abandon.prems]
  show ?case by (rule gate_ok_at [OF abandon.prems]) (use abandon.hyps D(1,2,4) in \<open>simp_all split: if_splits\<close>)
next
  case (refused g t v n)
  note D = gate_okD [OF refused.prems]
  show ?case by (rule gate_ok_at [OF refused.prems]) (use refused.hyps D(1,2,4) in \<open>simp_all split: if_splits\<close>)
next
  case (publish g t v n)
  note D = gate_okD [OF publish.prems]
  have "of_nat n = (of_nat (gt_done g) :: 64 word)" "n \<le> gt_done g" using D(2) D(3) [OF publish.hyps(1)] publish.hyps(3) by simp_all
  then show ?case by (intro gate_ok_at [OF publish.prems]) (use publish.hyps D(2,4) in \<open>auto split: if_splits\<close>)
next
  case (published g t n)
  note D = gate_okD [OF published.prems]
  have "gt_builds g \<noteq> 0" using no_build [OF published.prems, of t] published.hyps by auto
  then have "gt_active g = 0" using D(1) by blast
  then show ?case by (intro gate_ok_at [OF published.prems]) (use published.hyps D(2,4) in \<open>auto split: if_splits\<close>)
qed

lemma gate_reachable: "gate_step\<^sup>*\<^sup>* newGate g \<Longrightarrow> gate_ok g"
proof (induction rule: rtranclp_induct)
  case base
  show ?case by (simp add: newGate_def gate_ok_def in_phase_def)
qed (rule gate_keeps)

subsection \<open>The theorems\<close>

text \<open>
  C5. In every interleaving of threads, no two of them run an operation on the same node, although the lock of a node is dropped and
  made anew; a thread with the exclusive structural lock excludes every thread with a shared one; and when no
  thread is inside, no lock is left behind.
\<close>

theorem node_operations_exclusive:
  assumes "lock_step\<^sup>*\<^sup>* newMutations m"
  shows "(nm_phase m t = Inside sh i a \<and> nm_phase m u = Inside sh' i b \<longrightarrow> t = u) \<and>
    (nm_phase m t = Exclusive \<and> u \<noteq> t \<longrightarrow> \<not> shares (nm_phase m u) \<and> nm_phase m u \<noteq> Exclusive) \<and>
    ((\<forall>u. nm_phase m u = Outside) \<longrightarrow> nm_locks m = [])"
  using lock_reuse [OF assms] structural_exclusive [OF assms] no_locks_left [OF assms] by blast

text \<open>A report of the node \<open>i\<close> is being saved.\<close>

definition report_inside :: "int \<Rightarrow> nodeMutations" where
  "report_inside i = at_phase 0 (Inside False i 0) (set_held 0 True (at_phase 0 (Waiting False i 0) (snd (retain i newMutations))))"

definition demo_entered :: nodeMutations where
  "demo_entered = at_phase 1 (Entered 1) ((report_inside 1)\<lparr>nm_readers := nm_readers (report_inside 1) + 1\<rparr>)"

definition demo_waiting :: nodeMutations where
  "demo_waiting = at_phase 1 (Waiting True 1 0) (snd (retain 1 demo_entered))"

lemma report_inside_state: "retain i newMutations = (0, snd (retain i newMutations))" "nm_phase (report_inside i) = (\<lambda>_. Outside)(0 := Inside False i 0)"
  "nm_locks (report_inside i) = [(i, 0)]" "nm_store (report_inside i) = [\<lparr>lock_held = True, lock_refs = 1\<rparr>]" "\<not> nm_writer (report_inside i)" "nm_readers (report_inside i) = 0"
  by (simp_all add: report_inside_def retain_def newMutations_def set_held_def at_phase_def)

lemma report_inside_reached: assumes "0 < i" shows "lock_step\<^sup>*\<^sup>* newMutations (report_inside i)"
proof -
  have "lock_step newMutations (at_phase 0 (Waiting False i 0) (snd (retain i newMutations)))"
    by (rule lock_step.runtime [OF _ assms report_inside_state(1)]) (simp add: newMutations_def)
  moreover have "lock_step (at_phase 0 (Waiting False i 0) (snd (retain i newMutations))) (report_inside i)"
    unfolding report_inside_def by (rule lock_step.acquire) (simp_all add: retain_def newMutations_def)
  ultimately show ?thesis by simp
qed

lemma reorder_beside_report:
  assumes "0 < i"
  shows "\<exists>m. lock_step\<^sup>*\<^sup>* newMutations m \<and> nm_phase m 0 = Inside False i 0 \<and> nm_phase m 1 = Exclusive"
proof -
  let ?m = "at_phase 1 Exclusive ((report_inside i)\<lparr>nm_writer := True\<rparr>)"
  have "lock_step (report_inside i) ?m" by (rule lock_step.global) (simp_all add: report_inside_state)
  with report_inside_reached [OF assms] have "lock_step\<^sup>*\<^sup>* newMutations ?m" by simp
  moreover have "nm_phase ?m 0 = Inside False i 0" "nm_phase ?m 1 = Exclusive" by (simp_all add: report_inside_state)
  ultimately show ?thesis by blast
qed

lemma demo_waiting_reached: "lock_step\<^sup>*\<^sup>* newMutations demo_waiting"
proof -
  have "lock_step (report_inside 1) demo_entered"
    unfolding demo_entered_def by (rule lock_step.projected) (simp_all add: report_inside_state)
  moreover have "lock_step demo_entered demo_waiting"
    unfolding demo_waiting_def by (rule lock_step.retain [of _ _ 1]) (simp_all add: demo_entered_def retain_def report_inside_state)
  ultimately show ?thesis using report_inside_reached [of 1] by simp
qed

theorem node_operations_exclusive_witness:
  "lock_step\<^sup>*\<^sup>* newMutations demo_waiting \<and> nm_phase demo_waiting 0 = Inside False 1 0 \<and> nm_phase demo_waiting 1 = Waiting True 1 0 \<and>
   nm_phase demo_waiting 1 \<noteq> Inside True 1 0"
proof -
  have p: "nm_phase demo_waiting 0 = Inside False 1 0" "nm_phase demo_waiting 1 = Waiting True 1 0"
    by (simp_all add: demo_waiting_def demo_entered_def report_inside_state retain_def)
  have "nm_phase demo_waiting 1 \<noteq> Inside True 1 0"
    using node_operations_exclusive [OF demo_waiting_reached, of 0 False 1 0 1 True 0] p(1) by auto
  with p demo_waiting_reached show ?thesis by blast
qed

text \<open>
  C39. What is published is current: while a build publishes, no mutation runs and none has finished since it read the version,
  as long as the 64-bit version has not gone around.
\<close>

theorem published_is_current:
  assumes "gate_step\<^sup>*\<^sup>* newGate g" "gt_phase g t = Publishing n" "gt_done g < 2 ^ 64"
  shows "gt_done g = n \<and> (\<forall>u. gt_phase g u \<noteq> Mutating)"
proof -
  note ok = gate_reachable [OF assms(1)]
  note D = gate_okD [OF ok]
  have n: "of_nat n = (of_nat (gt_done g) :: 64 word)" "n \<le> gt_done g" using D(4) [OF assms(2)] by simp_all
  then have "gt_done g = n" using assms(3) by (simp add: word_of_nat_eq_iff take_bit_nat_eq_self)
  moreover have "gt_builds g \<noteq> 0" using no_build [OF ok, of t] assms(2) by auto
  ultimately show ?thesis using D(1) no_mutation [OF ok] by blast
qed

text \<open>A mutation, and then a build that is published.\<close>

definition demo_gate :: gate where
  "demo_gate = \<lparr>gt_version = 1, gt_active = 0, gt_builds = 1, gt_done = 1, gt_phase = (\<lambda>_. Idle)(0 := Publishing 1)\<rparr>"

theorem published_is_current_witness: "gt_phase demo_gate 0 = Publishing 1 \<and> gt_done demo_gate = 1 \<and> gt_phase demo_gate 1 \<noteq> Mutating"
proof -
  let ?g = "\<lambda>v a b n p. \<lparr>gt_version = v, gt_active = a, gt_builds = b, gt_done = n, gt_phase = (\<lambda>_. Idle)(0 := p)\<rparr>"
  have "gate_step newGate (?g 0 1 0 0 Mutating)" using gate_step.mutate [of newGate 0] by (simp add: newGate_def gate_at_def)
  moreover have "gate_step (?g 0 1 0 0 Mutating) (?g 1 0 0 1 Idle)" using gate_step.mutated [of "?g 0 1 0 0 Mutating" 0] by (simp add: gate_at_def)
  moreover have "gate_step (?g 1 0 0 1 Idle) (?g 1 0 0 1 (Building 1 1))" using gate_step.version [of "?g 1 0 0 1 Idle" 0] by (simp add: gate_at_def)
  moreover have "gate_step (?g 1 0 0 1 (Building 1 1)) demo_gate"
    using gate_step.publish [of "?g 1 0 0 1 (Building 1 1)" 0 1 1] by (simp add: gate_at_def demo_gate_def)
  ultimately have r: "gate_step\<^sup>*\<^sup>* newGate demo_gate" by (meson converse_rtranclp_into_rtranclp rtranclp.rtrancl_refl)
  show ?thesis using published_is_current [OF r, of 0 1] by (simp add: demo_gate_def)
qed

end
