(* ===== verification/Registry_Access.thy ===== *)
theory Registry_Access
  imports Registry_Theorems Node_Locks
begin

text \<open>
  Who may report: the properties of the node registry. The last part leaves the single step of an operation: the locks
  of two nodes differ, so what follows the commit of one may run after what follows a later commit of the other.
\<close>

subsection \<open>An example\<close>

definition demo_pair :: registry_db where
  "demo_pair = \<lparr>reg_servers = [new_server 7 ''AAAAAAAA'' 2, new_server 8 ''BBBBBBBB'' 1], reg_next = 9, reg_groups = [], reg_next_group = 1,
     reg_relations = [], reg_traffic = example_traffic\<rparr>"

definition demo_secret :: "string \<Rightarrow> NodeUpdate" where
  "demo_secret s = \<lparr>NodeUpdate_VMMemoryEnabled = None, NodeUpdate_VMCPUThreshold = None, NodeUpdate_VMMemoryThreshold = None, NodeUpdate_Name = None,
     NodeUpdate_IsGuestVisible = None, NodeUpdate_TrafficP95Enabled = None, NodeUpdate_TrafficCycleMode = None, NodeUpdate_TrafficBillingStartDay = None,
     NodeUpdate_TrafficBillingAnchorDate = None, NodeUpdate_TrafficBillingTimezone = None, NodeUpdate_TrafficDirectionMode = None,
     NodeUpdate_DisplayOrder = None, NodeUpdate_Tags = None, NodeUpdate_Secret = Some s, NodeUpdate_GroupIDs = None\<rparr>"

definition demo_env :: "commit_outcome \<Rightarrow> unit registry_env" where
  "demo_env c = \<lparr>ge_fault = False, ge_commit = c, ge_refresh = False, ge_front = (\<lambda>_ f. (True, f)), ge_tz = example_zones, ge_loc = None, ge_now = 0\<rparr>"

definition demo_registry :: "unit registry" where
  "demo_registry = started demo_pair ()"

lemma demo_trim: "trim_space ''AAAAAAAA'' = ''AAAAAAAA''" "trim_space ''BBBBBBBB'' = ''BBBBBBBB''" "trim_space ''CCCCCCCC'' = ''CCCCCCCC''"
  by code_simp+

lemma demo_pair_ok: "reg_ok demo_pair"
  by (simp add: reg_ok_def demo_pair_def new_server_def unique_secrets_def server_ok_def demo_trim)

lemma demo_secrets: "normalizeSecret ''AAAAAAAA'' = Inr ''AAAAAAAA''" "normalizeSecret ''CCCCCCCC'' = Inr ''CCCCCCCC''"
  by code_simp+

text \<open>The first node gets another secret; the commit may be lost.\<close>

definition demo_rotated :: "commit_outcome \<Rightarrow> unit registry" where
  "demo_rotated c = snd (UpdateNode (demo_env c) 7 (demo_secret ''CCCCCCCC'') demo_registry)"

lemma demo_active: "active (rg_db demo_registry) 7 = Some (new_server 7 ''AAAAAAAA'' 2)"
  by (simp add: active_def demo_registry_def started_def demo_pair_def matches_def new_server_def)

lemma demo_registry_history: "sure \<longrightarrow> c = Committed \<Longrightarrow> (reg_step sure)\<^sup>*\<^sup>* demo_registry (demo_rotated c)"
  unfolding demo_rotated_def
  by (rule r_into_rtranclp, rule reg_step.update [OF prod.collapse [symmetric]]) (simp add: confirmed_def demo_env_def)

lemma demo_result: "UpdateNode (demo_env Uncertain) 7 (demo_secret ''CCCCCCCC'') demo_registry = (Inl CommitFailed, demo_rotated Uncertain)"
proof -
  have "fst (UpdateNode (demo_env Uncertain) 7 (demo_secret ''CCCCCCCC'') demo_registry) = Inl CommitFailed" by code_simp
  then show ?thesis unfolding demo_rotated_def by (metis prod.collapse)
qed

subsection \<open>Accepted secrets\<close>

lemma found_in_table:
  assumes "rg_ok rg"
  shows "case GetServerBySecret (rg_mem rg) secret of LookupFailed \<Rightarrow> False | NoServer \<Rightarrow> True
     | FoundServer srv \<Rightarrow> \<exists>r \<in> set (active_rows (rg_db rg)). Server_ID r = Server_ID srv \<and> Server_Secret r = trim_space secret"
proof -
  have m: "follows (creds (rg_db rg)) (rg_mem rg)" "reg_ok (rg_db rg)" using assms by (simp_all add: rg_ok_def)
  note c = creds_ok [OF m(2)]
  have "\<exists>r \<in> set (active_rows (rg_db rg)). Server_ID r = Server_ID srv \<and> Server_Secret r = trim_space secret"
    if "GetServerBySecret (rg_mem rg) secret = FoundServer srv" for srv
    using GetServerBySecret_Found(1) [OF m(1) c that] active_iff [OF m(2)] by (auto simp: creds_def)
  then show ?thesis using GetServerBySecret_ok [OF m(1) c, of secret] by (cases "GetServerBySecret (rg_mem rg) secret") auto
qed

text \<open>
  C3. Whatever fails in a history of the registry in which the operations run one at a time, statements, front cache, commits or reading rows back, and whatever
  remains unknown of a commit, a secret is accepted only for the active node whose row has it.
\<close>

theorem secrets_follow_table:
  assumes "(reg_step False)\<^sup>*\<^sup>* (started db front) rg" "reg_ok db"
  shows "case GetServerBySecret (rg_mem rg) secret of LookupFailed \<Rightarrow> False | NoServer \<Rightarrow> True
     | FoundServer srv \<Rightarrow> \<exists>r \<in> set (active_rows (rg_db rg)). Server_ID r = Server_ID srv \<and> Server_Secret r = trim_space secret"
  using history_ok [OF assms] found_in_table by blast

theorem secrets_follow_table_witness:
  "(case GetServerBySecret (rg_mem (demo_rotated Uncertain)) ''BBBBBBBB'' of LookupFailed \<Rightarrow> False | NoServer \<Rightarrow> True
     | FoundServer srv \<Rightarrow> \<exists>r \<in> set (active_rows (rg_db (demo_rotated Uncertain))). Server_ID r = Server_ID srv \<and> Server_Secret r = trim_space ''BBBBBBBB'') \<and>
   (case GetServerBySecret (rg_mem (demo_rotated Uncertain)) ''BBBBBBBB'' of FoundServer srv \<Rightarrow> Server_ID srv = 8 | _ \<Rightarrow> False)"
proof
  show "case GetServerBySecret (rg_mem (demo_rotated Uncertain)) ''BBBBBBBB'' of LookupFailed \<Rightarrow> False | NoServer \<Rightarrow> True
     | FoundServer srv \<Rightarrow> \<exists>r \<in> set (active_rows (rg_db (demo_rotated Uncertain))). Server_ID r = Server_ID srv \<and> Server_Secret r = trim_space ''BBBBBBBB''"
    by (rule secrets_follow_table [OF demo_registry_history [unfolded demo_registry_def] demo_pair_ok]) simp
qed code_simp

text \<open>
  C36. In a history in which the operations run one at a time and the outcome of every commit becomes known, the memory is the
  table: looking up a secret gives the row that has it, as it is now, and gives nothing exactly when no active row has it. Both
  conditions are needed: C37 leaves open what an unknown commit did, and C38 and C40 interleave two operations after which the memory
  differs from the table although every commit was known.
\<close>

theorem memory_is_table:
  assumes "(reg_step True)\<^sup>*\<^sup>* (started db front) rg" "reg_ok db"
  shows "GetServerBySecret (rg_mem rg) secret =
    (case find (\<lambda>r. Server_Secret r = trim_space secret) (active_rows (rg_db rg)) of None \<Rightarrow> NoServer
     | Some r \<Rightarrow> FoundServer (toServer (metaFromServer r) (trim_space secret)))"
  using history_ok [OF assms] lookup_exact by blast

theorem memory_is_table_witness:
  "GetServerBySecret (rg_mem (demo_rotated Committed)) ''CCCCCCCC'' =
    (case find (\<lambda>r. Server_Secret r = trim_space ''CCCCCCCC'') (active_rows (rg_db (demo_rotated Committed))) of None \<Rightarrow> NoServer
     | Some r \<Rightarrow> FoundServer (toServer (metaFromServer r) (trim_space ''CCCCCCCC''))) \<and>
   map Server_Secret (active_rows (rg_db (demo_rotated Committed))) = [''CCCCCCCC'', ''BBBBBBBB'']"
proof
  show "GetServerBySecret (rg_mem (demo_rotated Committed)) ''CCCCCCCC'' =
    (case find (\<lambda>r. Server_Secret r = trim_space ''CCCCCCCC'') (active_rows (rg_db (demo_rotated Committed))) of None \<Rightarrow> NoServer
     | Some r \<Rightarrow> FoundServer (toServer (metaFromServer r) (trim_space ''CCCCCCCC'')))"
    by (rule memory_is_table [OF demo_registry_history [unfolded demo_registry_def] demo_pair_ok]) simp
qed code_simp

text \<open>
  C37. After a node is deleted or its secret replaced, the secret it had is refused at once, also when the commit failed and the
  row could not be read back, so that nobody knows whether the change was made.
\<close>

theorem revoked_secret_refused:
  assumes "(reg_step False)\<^sup>*\<^sup>* (started db front) rg" "reg_ok db" "active (rg_db rg) i = Some old"
    and "DeleteNode env i rg = (res, rg') \<or>
      (\<exists>new. NodeUpdate_Secret upd = Some new \<and> trim_space new \<noteq> Server_Secret old \<and> UpdateNode env i upd rg = (res, rg'))"
    and "res = Inr () \<or> res = Inl CommitFailed \<and> \<not> ge_refresh env"
  shows "GetServerBySecret (rg_mem rg') (Server_Secret old) = NoServer"
proof -
  have ok: "rg_ok rg" using history_ok [OF assms(1,2)] by simp
  show ?thesis using assms(4)
  proof
    assume "DeleteNode env i rg = (res, rg')"
    from deleted_refused [OF ok assms(3) this assms(5)] show ?thesis .
  next
    assume "\<exists>new. NodeUpdate_Secret upd = Some new \<and> trim_space new \<noteq> Server_Secret old \<and> UpdateNode env i upd rg = (res, rg')"
    then show ?thesis using rotated_refused [OF ok assms(3) _ _ _ assms(5)] by blast
  qed
qed

theorem revoked_secret_refused_witness:
  "active (rg_db demo_registry) 7 = Some (new_server 7 ''AAAAAAAA'' 2) \<and>
   UpdateNode (demo_env Uncertain) 7 (demo_secret ''CCCCCCCC'') demo_registry = (Inl CommitFailed, demo_rotated Uncertain) \<and>
   GetServerBySecret (rg_mem (demo_rotated Uncertain)) (Server_Secret (new_server 7 ''AAAAAAAA'' 2)) = NoServer"
proof (intro conjI demo_active demo_result)
  have change: "\<exists>new. NodeUpdate_Secret (demo_secret ''CCCCCCCC'') = Some new \<and> trim_space new \<noteq> Server_Secret (new_server 7 ''AAAAAAAA'' 2) \<and>
      UpdateNode (demo_env Uncertain) 7 (demo_secret ''CCCCCCCC'') (started demo_pair ()) = (Inl CommitFailed, demo_rotated Uncertain)"
    using demo_result by (simp add: demo_trim new_server_def demo_secret_def demo_registry_def)
  show "GetServerBySecret (rg_mem (demo_rotated Uncertain)) (Server_Secret (new_server 7 ''AAAAAAAA'' 2)) = NoServer"
    by (rule revoked_secret_refused [OF rtranclp.rtrancl_refl demo_pair_ok demo_active [unfolded demo_registry_def] disjI2 [OF change]])
      (simp add: demo_env_def)
qed

subsection \<open>Two nodes at once\<close>

text \<open>\<open>patchNode\<close> up to its commit, when the commit succeeds: the fresh row, the secret the node had, and what is left to bring up to date.\<close>

definition patch_commit :: "'f registry_env \<Rightarrow> int \<Rightarrow> NodeUpdate \<Rightarrow> 'f registry \<Rightarrow> registry_error + Server \<times> string \<times> 'f registry" where
  "patch_commit env i upd rg =
     (if ge_fault env then Inl StatementFailed
      else case loadServerMeta (rg_db rg) i of Inl e \<Rightarrow> Inl e
        | Inr old \<Rightarrow> (case patch_rows env i upd (rg_db rg) of Inl e \<Rightarrow> Inl e
        | Inr db \<Rightarrow> (case loadServerMeta db i of Inl e \<Rightarrow> Inl e
        | Inr fresh \<Rightarrow>
            (let (ok, front) = front_calls env (front_changes i upd) (rg_front rg)
             in if ok then Inr (fresh, Server_Secret old, rg\<lparr>rg_db := db, rg_front := front\<rparr>) else Inl FrontCacheUpdate))))"

lemma patch_commit_then_sync:
  assumes "patch_commit env i upd rg = Inr (fresh, old, rg1)" "needsMetaRefresh upd" "ge_commit env = Committed"
  shows "patchNode env i upd rg = (Inr (), rg1\<lparr>rg_mem := syncServerCache fresh old (rg_mem rg1)\<rparr>)"
  using assms by (auto simp: patch_commit_def patchNode_def finish_tx_def Let_def split: if_splits sum.splits prod.splits)

lemma patch_commit_Inr:
  assumes "patch_commit env i upd rg = Inr (fresh, old, rg1)" "reg_ok (rg_db rg)" "NodeUpdate_Secret upd = Some x" "normalizeSecret x = Inr x"
  shows "reg_ok (rg_db rg1)" "creds (rg_db rg) i = Some old" "creds (rg_db rg1) = (creds (rg_db rg))(i \<mapsto> x)"
    "active (rg_db rg1) i = Some fresh" "Server_Secret fresh = x" "Server_ID fresh = i" "rg_mem rg1 = rg_mem rg"
proof -
  obtain row db front where row: "active (rg_db rg) i = Some row" "old = Server_Secret row" and r: "patch_rows env i upd (rg_db rg) = Inr db"
    and fresh: "active db i = Some fresh" and rg1: "rg1 = rg\<lparr>rg_db := db, rg_front := front\<rparr>"
    using assms(1) by (auto simp: patch_commit_def loadServerMeta_active split: if_splits sum.splits prod.splits option.splits)
  have sg: "secret_given upd" using normalizeSecret_Inr [OF assms(4)] assms(3) by (simp add: secret_given_def)
  obtain cs where ok: "reg_ok db" and act: "\<And>j. active db j = (if j = i then map_option (set_columns cs) (active (rg_db rg) i) else active (rg_db rg) j)"
    and sec: "\<And>s. Server_Secret (set_columns cs s) = x"
    by (rule patch_rows_Inr [OF r assms(2) sg]) (simp add: assms(3))
  show "reg_ok (rg_db rg1)" "creds (rg_db rg) i = Some old" "active (rg_db rg1) i = Some fresh" "rg_mem rg1 = rg_mem rg"
    using ok row fresh by (simp_all add: rg1 creds_def)
  show "Server_ID fresh = i" using active_Some [OF fresh] by simp
  show s: "Server_Secret fresh = x" using act [of i] fresh row(1) sec by simp
  show "creds (rg_db rg1) = (creds (rg_db rg))(i \<mapsto> x)" using act s fresh row(1) sec by (auto simp: rg1 creds_def fun_eq_iff)
qed

text \<open>
  C38. Two changes under the locks of two nodes: one node is given a new secret, then another one the secret the first had. If
  the memory is brought up to date in the order of the commits, the secret is accepted for its new node. In the other order it is
  forgotten, although the table has it, and every report of that node is refused.
\<close>

theorem crossed_changes_lock_out:
  assumes "(reg_step False)\<^sup>*\<^sup>* (started db front) rg" "reg_ok db" "a \<noteq> b"
    and "patch_commit env a upda rg = Inr (freshA, oldA, rg1)" "NodeUpdate_Secret upda = Some x" "normalizeSecret x = Inr x"
    and "patch_commit env b updb rg1 = Inr (freshB, oldB, rg2)" "NodeUpdate_Secret updb = Some oldA" "normalizeSecret oldA = Inr oldA"
  shows "freshB \<in> set (active_rows (rg_db rg2)) \<and> Server_ID freshB = b \<and> Server_Secret freshB = oldA \<and>
    GetServerBySecret (syncServerCache freshB oldB (syncServerCache freshA oldA (rg_mem rg2))) oldA = FoundServer (toServer (metaFromServer freshB) oldA) \<and>
    GetServerBySecret (syncServerCache freshA oldA (syncServerCache freshB oldB (rg_mem rg2))) oldA = NoServer"
proof -
  have "reg_ok (rg_db rg)" using history_ok [OF assms(1,2)] by (simp add: rg_ok_def)
  note A = patch_commit_Inr [OF assms(4) this assms(5,6)]
  note B = patch_commit_Inr [OF assms(7) A(1) assms(8,9)]
  note n = normalizeSecret_Inr [OF assms(6)] normalizeSecret_Inr [OF assms(9)]
  have id: "0 < a" "0 < b" using creds_okD(1) [OF creds_ok [OF B(1)]] B(3) A(3) assms(3) by (metis fun_upd_other fun_upd_same)+
  have "x \<noteq> oldA"
  proof
    assume "x = oldA"
    then have "creds (rg_db rg2) a = Some oldA" "creds (rg_db rg2) b = Some oldA" using A(3) B(3) assms(3) by simp_all
    then show False using creds_okD(4) [OF creds_ok [OF B(1)]] assms(3) by blast
  qed
  then have "by_secret (syncServerCache freshA oldA m) oldA = None" for m using n A(5,6) id by (simp add: sync_secret_other)
  moreover have "by_secret (syncServerCache freshB oldB m) oldA = Some (entry_of freshB)" for m
    using sync_secret_own [of freshB oldB m] n B(5,6) id by simp
  moreover have "freshB \<in> set (active_rows (rg_db rg2))" using B(4) active_iff [OF B(1)] by blast
  ultimately show ?thesis using B(5,6) n id by (simp add: GetServerBySecret_def Let_def entry_of_def metaFromServer_def)
qed

text \<open>The first node gives up its secret, the second one takes it.\<close>

definition demo_first :: "Server \<times> string \<times> unit registry" where
  "demo_first = projr (patch_commit (demo_env Committed) 7 (demo_secret ''CCCCCCCC'') demo_registry)"

definition demo_second :: "Server \<times> string \<times> unit registry" where
  "demo_second = projr (patch_commit (demo_env Committed) 8 (demo_secret ''AAAAAAAA'') (snd (snd demo_first)))"

theorem crossed_changes_lock_out_witness:
  "map Server_Secret (active_rows (rg_db (snd (snd demo_second)))) = [''CCCCCCCC'', ''AAAAAAAA''] \<and>
   GetServerBySecret (syncServerCache (fst demo_first) ''AAAAAAAA'' (syncServerCache (fst demo_second) (fst (snd demo_second)) (rg_mem (snd (snd demo_second))))) ''AAAAAAAA'' = NoServer"
proof
  show "map Server_Secret (active_rows (rg_db (snd (snd demo_second)))) = [''CCCCCCCC'', ''AAAAAAAA'']" by code_simp
  have "isl (patch_commit (demo_env Committed) 7 (demo_secret ''CCCCCCCC'') demo_registry) = False" "fst (snd demo_first) = ''AAAAAAAA''"
    "isl (patch_commit (demo_env Committed) 8 (demo_secret ''AAAAAAAA'') (snd (snd demo_first))) = False" by code_simp+
  then have A: "patch_commit (demo_env Committed) 7 (demo_secret ''CCCCCCCC'') demo_registry = Inr (fst demo_first, ''AAAAAAAA'', snd (snd demo_first))"
    and B: "patch_commit (demo_env Committed) 8 (demo_secret ''AAAAAAAA'') (snd (snd demo_first)) = Inr (fst demo_second, fst (snd demo_second), snd (snd demo_second))"
    unfolding demo_first_def demo_second_def by (metis prod.collapse sum.collapse(2))+
  have s: "NodeUpdate_Secret (demo_secret x) = Some x" for x by (simp add: demo_secret_def)
  show "GetServerBySecret (syncServerCache (fst demo_first) ''AAAAAAAA'' (syncServerCache (fst demo_second) (fst (snd demo_second)) (rg_mem (snd (snd demo_second))))) ''AAAAAAAA'' = NoServer"
    using crossed_changes_lock_out [OF rtranclp.rtrancl_refl demo_pair_ok _ A [unfolded demo_registry_def] s demo_secrets(2) B s demo_secrets(1)] by simp
qed

text \<open>
  C40. A report takes the lock of its node but not the structural lock, so a reorder can run between its authentication and the end of
  its save. When the address of the node has changed, the row that was authenticated goes back to the memory, and the memory gives the
  node the order it had before, against the table.
\<close>

theorem reorder_during_report:
  assumes "(reg_step False)\<^sup>*\<^sup>* (started db front) rg" "reg_ok db" "GetServerBySecret (rg_mem rg) secret = FoundServer current"
    and "UpdateDisplayOrder env ids rg = (Inr (), rg1)" "active (rg_db rg1) (Server_ID current) = Some row"
    and "Server_DisplayOrder row \<noteq> Server_DisplayOrder current"
  shows "(\<exists>m. lock_step\<^sup>*\<^sup>* newMutations m \<and> nm_phase m 0 = Inside False (Server_ID current) 0 \<and> nm_phase m 1 = Exclusive) \<and>
    (\<exists>srv. GetServerBySecret (snd (SyncServerCache (current\<lparr>Server_IP := Some ip\<rparr>) (rg_mem rg1))) secret = FoundServer srv \<and>
       Server_ID srv = Server_ID row \<and> Server_DisplayOrder srv \<noteq> Server_DisplayOrder row)"
proof -
  have ok: "follows (creds (rg_db rg)) (rg_mem rg)" "reg_ok (rg_db rg)" using history_ok [OF assms(1,2)] by (simp_all add: rg_ok_def)
  note c = creds_ok [OF ok(2)]
  note f = GetServerBySecret_Found [OF ok(1) c assms(3)]
  have id: "0 < Server_ID current" "trim_space (trim_space secret) = trim_space secret" using creds_okD(1,3) [OF c f(1)] by simp_all
  let ?cur = "current\<lparr>Server_IP := Some ip\<rparr>"
  have "map_of (authBySecret (syncServerCache ?cur (Server_Secret current) (rg_mem rg1))) (trim_space secret) = Some (entry_of ?cur)"
    using sync_secret_own [of ?cur "Server_Secret current" "rg_mem rg1"] id f(2,4) by simp
  then have "GetServerBySecret (snd (SyncServerCache ?cur (rg_mem rg1))) secret = FoundServer (toServer (metaFromServer ?cur) (trim_space secret))"
    using id f by (simp add: SyncServerCache_def GetServerBySecret_def entry_of_def metaFromServer_def Let_def)
  moreover have "Server_ID row = Server_ID current" using active_Some [OF assms(5)] by simp
  ultimately show ?thesis using reorder_beside_report [OF id(1)] assms(6) by (simp add: toServer_def metaFromServer_def)
qed

text \<open>The two nodes are listed the other way round while the first one reports from a new address.\<close>

definition demo_reordered :: "unit registry" where
  "demo_reordered = snd (UpdateDisplayOrder (demo_env Committed) [8, 7] demo_registry)"

theorem reorder_during_report_witness:
  "\<exists>current srv. GetServerBySecret (rg_mem demo_registry) ''AAAAAAAA'' = FoundServer current \<and>
     GetServerBySecret (snd (SyncServerCache (current\<lparr>Server_IP := Some ''10.0.0.1''\<rparr>) (rg_mem demo_reordered))) ''AAAAAAAA'' = FoundServer srv \<and>
     map (\<lambda>s. (Server_ID s, Server_DisplayOrder s)) (active_rows (rg_db demo_reordered)) = [(7, 1), (8, 2)] \<and> Server_ID srv = 7 \<and> Server_DisplayOrder srv \<noteq> 1"
proof -
  have look: "case GetServerBySecret (rg_mem demo_registry) ''AAAAAAAA'' of FoundServer s \<Rightarrow> Server_ID s = 7 \<and> Server_DisplayOrder s = 2 | _ \<Rightarrow> False" by code_simp
  then obtain current where cur: "GetServerBySecret (rg_mem demo_registry) ''AAAAAAAA'' = FoundServer current" "Server_ID current = 7" "Server_DisplayOrder current = 2"
    by (cases "GetServerBySecret (rg_mem demo_registry) ''AAAAAAAA''") auto
  have "fst (UpdateDisplayOrder (demo_env Committed) [8, 7] demo_registry) = Inr ()" by code_simp
  then have run: "UpdateDisplayOrder (demo_env Committed) [8, 7] demo_registry = (Inr (), demo_reordered)" unfolding demo_reordered_def by (metis prod.collapse)
  have rows: "map (\<lambda>s. (Server_ID s, Server_DisplayOrder s)) (active_rows (rg_db demo_reordered)) = [(7, 1), (8, 2)]" by code_simp
  have "map_option Server_DisplayOrder (active (rg_db demo_reordered) 7) = Some 1" by code_simp
  then obtain row where row: "active (rg_db demo_reordered) 7 = Some row" "Server_DisplayOrder row = 1" by auto
  have "Server_ID row = 7" using active_Some [OF row(1)] by simp
  then show ?thesis
    using reorder_during_report [OF rtranclp.rtrancl_refl demo_pair_ok cur(1) [unfolded demo_registry_def] run [unfolded demo_registry_def], of row "''10.0.0.1''"] cur row rows
    by auto
qed

end
