(* ===== verification/Spec2Isabelle.thy ===== *)
theory Spec2Isabelle
  imports Alert_Runtime Dirty_Queue Alert_Store Alert_Service Traffic_Store Update_Theorems Node_Theorems Registry_Access
begin

text \<open>
  Verification of Dash, the server of Ithiltir: a single Go process that receives reports from the nodes
  it monitors, shows them, keeps their history, accounts their traffic, raises alerts and updates itself.
  The sources are under \<open>internal/\<close>; the theories model them function by function, under the names of the source.

  The parts and how they interact.

  \<^item> A node pushes a report. It is validated (\<open>metrics/node_push_validation.go\<close>), authenticated and stored under
    the lock of the node (\<open>nodeingest/metrics.go\<close>, \<open>store/metricdata/metrics_ingest.go\<close>), turned into the view of the front
    end (\<open>metrics/front_dto.go\<close>) and handed to the alert queue (\<open>store/alert/dirty_queue.go\<close>).
  \<^item> Four workers take servers from that queue and evaluate their rules (\<open>alert/service_eval.go\<close>, \<open>alert/runtime.go\<close>) as
    compiled from the rule tables (\<open>alertspec/catalog.go\<close>, \<open>alert/compiler.go\<close>). Transitions open and close events in the tables
    and enqueue notifications in the outbox (\<open>store/alert/\<close>). Recovery, reconciliation and control tasks keep the state of the
    workers and the tables together (\<open>alert/service_bootstrap.go\<close>, \<open>service_control.go\<close>).
  \<^item> The traffic service charges interface counters of the stored samples to billing cycles and five-minute facts
    (\<open>store/traffic/\<close>, \<open>traffic/service.go\<close>).
  \<^item> The updater replaces the installed release and migrates the database as a recoverable transaction (\<open>dashupdate/\<close>).

  The theories, by component. Go and its library:
  \<^item> \<open>Go_Prelude\<close> (strings as bytes, 64-bit wrap-around, maps as association lists), \<open>Go_Float\<close> (\<open>float64\<close> with its
    rounding), \<open>Go_Time\<close> (\<open>time.Time\<close>, calendar, zones).

  Reports of nodes:
  \<^item> \<open>Metric_Types\<close>: the structs of \<open>metrics/types.go\<close> and \<open>front_dto.go\<close>.
  \<^item> \<open>Metric_Report\<close>: \<open>ValidateReport\<close> with every check in its order.
  \<^item> \<open>Metric_Snapshot\<close>: normalisation, \<open>ToSnapshot\<close> and \<open>metricsFromSnapshot\<close>, pressure columns, temperature devices, tags.
  \<^item> \<open>Metric_View\<close>: \<open>BuildNodeView\<close>, disks and networks.
  \<^item> \<open>Metric_Ingest\<close>: the rows of a sample and \<open>SaveMetrics\<close> on the history and current tables; the invariant \<open>db_ok\<close>.
  \<^item> \<open>Node_Receiver\<close>: the receiver with its retries, the update a node is offered.
  \<^item> \<open>Node_Saving\<close>, \<open>Node_Theorems\<close>: the numbers and lengths that validation accepts always fit their columns and detail keys, so a report whose
    text is storable and whose instant is new is stored and acknowledged when no statement fails;
    what is current is the newest part of the history; a refused report has no effect; a stored snapshot reads back.

  Alerts:
  \<^item> \<open>Alert_Spec\<close> (built-in rules, metrics, normalisation), \<open>Alert_Compiler\<close> (compiled rules, state keys), \<open>Alert_Runtime\<close>
    (\<open>EvaluateServer\<close>): when exactly an event opens, stays and closes.
  \<^item> \<open>Dirty_Queue\<close>: the queue refines an abstract FIFO of pending servers, and in every interleaving of marks and workers no
    mark is lost and no server is evaluated twice at once. The locale \<open>work_queue\<close> states the contract, its interpretation \<open>dq\<close>
    discharges it for the code.
  \<^item> \<open>Alert_Store\<close>, \<open>Notify_Outbox\<close>: tables and transactions; histories of transactions by rule induction.
  \<^item> \<open>Alert_Service\<close>: one evaluation against the tables with the reads that can fail, the merge of its states with concurrent changes, recovery, reconciliation.

  Traffic:
  \<^item> \<open>Traffic_Cycle\<close> (billing cycles partition time), \<open>Traffic_Samples\<close> (spreading bytes over buckets in \<open>float64\<close> conserves them),
    \<open>Traffic_Settings\<close>, \<open>Traffic_Usage\<close> (charging windows with progress marks), \<open>Traffic_Stats\<close> (totals, percentiles,
    completeness), \<open>Traffic_Store\<close> (transactions, materialisation rounds with the faults of their statements, gate, timeouts and
    commits, repairs).

  Updates:
  \<^item> \<open>Dash_Version\<close> (versions), \<open>Update_Files\<close> (plans, job requests, transactions, status files), \<open>Update_Paths\<close> (cleaned paths),
    \<open>Update_Host\<close> (the host and its faults), \<open>Update_Install\<close> (staging, switching, migrating, rolling back, recovering),
    \<open>Update_Runner\<close> (choosing a release, plans, job clean-up).
  \<^item> \<open>Update_Triples\<close>, \<open>Update_Safety\<close>, \<open>Update_Rollback\<close>, \<open>Update_Recovery\<close>, \<open>Update_Apply\<close>, \<open>Update_History\<close>,
    \<open>Update_Returns\<close>, \<open>Update_Theorems\<close>: one invariant of the host holds after every operation, fault, crash and job clean-up; recovery
    completes from it as long as the job of the transaction has its status, and never without it.

  The node registry:
  \<^item> \<open>Registry_Tables\<close> (rows, column patches and statements of \<open>store/node/nodes.go\<close>, \<open>groups.go\<close>, \<open>server_static.go\<close>), \<open>Registry_Cache\<close>
    (the memory that authenticates reports, \<open>server_meta_cache.go\<close>, \<open>memory.go\<close>), \<open>Node_Registry\<close> (creating, changing, deleting and ordering
    nodes, static reports, the address of a report: each a transaction with the front cache, a commit whose outcome may be
    unknown, and what follows it in the memory).
  \<^item> \<open>Registry_Safety\<close> and \<open>Registry_History\<close>: every operation lets the memory follow the table; \<open>Registry_Theorems\<close> closes this under all
    histories; \<open>Registry_Access\<close> states whose reports are accepted and what two changes at once can do.
  \<^item> \<open>Node_Locks\<close>: why an operation on a node is one step: the locks of \<open>store/node/concurrency.go\<close>, made and dropped on demand, and the gate of
    \<open>store/frontprojection/gate.go\<close>, as step relations over threads.

  How code is represented. A struct is a record with the struct's fields, an enumeration a datatype, an error a value of a
  sum or option. A transaction is a function on the tables that returns an error, and then the tables keep their value, or the new
  tables. A loop over a Go map is a fold over an association list, so a theorem about every list is one about
  every iteration order. A mutex makes the code under it one step; concurrency is a step relation over those steps. JSON documents are the
  values they encode. Clocks, random numbers, zone data, the answers of other processes and the decisions which calls
  fail are parameters.

  Bounds and fuel. Integers that can leave 64 bits are wrapped with \<open>wrap64\<close>; \<open>float64\<close> is rounded exactly. Loops that the calendar
  alone bounds are partial functions whose termination is proved for zones with bounded offsets (\<open>zone_bounded\<close>); no
  definition uses fuel that the source does not have. The retries of the source (three attempts of the receiver, the retries
  of an evaluation) are its own bounds.

  What is assumed. \<open>semver_order\<close> and \<open>semver_chars\<close>: the documented order and alphabet of the semantic version module.
  \<open>env_ok\<close>, \<open>home_fits\<close>, \<open>one_manager\<close>: the clock prints in four-digit years, the home directory fits a line of a state
  file, and not both service managers run the server. The step relation of updates takes the update lock for granted, and that an
  operator who runs the server by hand does not start it while the update block exists (\<open>startable\<close>). \<open>storable\<close>: the text of
  a report is UTF-8 without zero bytes; validation does not check it, and PostgreSQL refuses such a report.
  \<open>rule_covers\<close>: an anchored billing rule is used from its anchor on. The histories of the registry run one operation at a time; two
  operations on different nodes can interleave in the code, and \<open>Registry_Access\<close> shows what goes wrong then. Outside the evaluations, the
  receiver, the registry, the updater and the materialisers, whose faults are modelled, an error of the database connection is left out: it ends
  a transaction with the tables as they were.

  Not modelled.
  \<^item> HTTP handlers, routing, middleware, request decoding, the web front end and its assets, embedded install scripts: input and
    output around the operations modelled here.
  \<^item> Queries that only read (history, online rates, uptime, listings), which are SQL; the schema migrations; PostgreSQL, Redis and
    the network themselves, which appear as the effect of a statement, a parameter or a fault.
  \<^item> Delivery of notifications (SMTP, Telegram, webhooks) and the encryption of their configuration: third-party protocols; their
    outcome is a parameter of the outbox.
  \<^item> The contents of release archives, process listings and service manager output: parameters of the updater.
  \<^item> Goroutine start-up, tickers, contexts and logging.
\<close>

end
